(* ===== verification/Prelude.thy ===== *)
theory Prelude
  imports Main "HOL-Library.Word" "HOL-Library.List_Lexorder" "HOL-Library.Product_Lexorder"
begin

section \<open>Shared types, results, machine integers and byte strings\<close>

text \<open>
  What every component of the development shares: the names of the machine integer types, the
  error values of \<^verbatim>\<open>urma-core/src/error.rs\<close> with the \<open>ensure!\<close>/\<open>?\<close> control flow, checked
  arithmetic, the little- and big-endian byte orders of the integer types, the parts of Rust's
  slices and strings that the code uses (\<open>chunks\<close>, \<open>as_chunks\<close>, \<open>from_utf8\<close>) and the generic
  lemmas about them.

  Conventions of the whole development.
  \<^item> \<open>u8\<close>, \<open>u16\<close>, \<open>u32\<close>, \<open>u64\<close> are words of that width; \<open>usize\<close> lengths and indices are \<open>nat\<close>.
  \<^item> A byte array \<open>[u8; n]\<close> is a byte list, its length stated by the well-formedness predicate of
    the structure that holds it. A \<open>String\<close> is the byte list of its UTF-8 encoding.
  \<^item> \<open>Result<T, Error>\<close> is \<open>error + 't\<close>, an early return is \<open>Inl\<close>. A Rust panic (an \<open>expect\<close>, an
    arithmetic overflow or an index out of range that no guard excludes) is the value
    \<open>Inl (Panic _)\<close>.
\<close>

type_synonym u8 = "8 word"
type_synonym u16 = "16 word"
type_synonym u32 = "32 word"
type_synonym u64 = "64 word"
type_synonym bytes = "8 word list"

named_theorems codec_simps \<open>the equations that compute encoders and decoders\<close>
named_theorems wf_intros \<open>introduction rules for the well-formedness predicates\<close>

subsection \<open>Errors\<close>

text \<open>
  The error enumeration of \<^verbatim>\<open>urma-core\<close>. Variants that only wrap an error value of another crate
  are constants; \<open>Panic\<close> is not a variant of the enumeration but the abnormal end of a call.
\<close>

datatype error =
    Invalid string
  | Unsupported string
  | Capacity string
  | Missing string
  | Context string error
  | Integer
  | Slice
  | Utf8
  | Allocation
  | Random
  | CipherKey
  | Kdf
  | Script
  | Secp256k1
  | Push
  | TaprootBuilder
  | Taproot
  | TaprootSighash
  | Amount
  | Hex
  | IntegerText
  | TextUtf8
  | Mac
  | TransactionBytes
  | SegwitSighash
  | AddressScript
  | AddressParse
  | AddressNetwork
  | PublicKey
  | UncompressedKey
  | Ecdsa
  | HashHex
  | ProofOfWork
  | Panic string

definition ensure :: "bool \<Rightarrow> 'e \<Rightarrow> 'e + 'a \<Rightarrow> 'e + 'a" where
  "ensure c e k = (if c then k else Inl e)"

definition rbind :: "'e + 'a \<Rightarrow> ('a \<Rightarrow> 'e + 'b) \<Rightarrow> 'e + 'b" where
  "rbind m k = (case m of Inl e \<Rightarrow> Inl e | Inr x \<Rightarrow> k x)"

definition rmap :: "('a \<Rightarrow> 'b) \<Rightarrow> 'e + 'a \<Rightarrow> 'e + 'b" where
  "rmap f m = rbind m (\<lambda>x. Inr (f x))"

definition map_err :: "('e \<Rightarrow> 'f) \<Rightarrow> 'e + 'a \<Rightarrow> 'f + 'a" where
  "map_err f m = (case m of Inl e \<Rightarrow> Inl (f e) | Inr x \<Rightarrow> Inr x)"

definition ok_or :: "'e \<Rightarrow> 'a option \<Rightarrow> 'e + 'a" where
  "ok_or e m = (case m of None \<Rightarrow> Inl e | Some x \<Rightarrow> Inr x)"

definition context_opt :: "string \<Rightarrow> 'a option \<Rightarrow> error + 'a" where
  "context_opt message m = (case m of Some value \<Rightarrow> Inr value | None \<Rightarrow> Inl (Missing message))"

definition context_res :: "string \<Rightarrow> error + 'a \<Rightarrow> error + 'a" where
  "context_res message m = map_err (Context message) m"

text \<open>\<open>rtraverse f xs\<close> is \<open>xs.iter().map(f).collect::<Result<Vec<_>, _>>()\<close>: it stops at the first error.\<close>

fun rtraverse :: "('a \<Rightarrow> 'e + 'b) \<Rightarrow> 'a list \<Rightarrow> 'e + 'b list" where
  "rtraverse f [] = Inr []"
| "rtraverse f (x # xs) = rbind (f x) (\<lambda>y. rbind (rtraverse f xs) (\<lambda>ys. Inr (y # ys)))"

fun rfold :: "('s \<Rightarrow> 'a \<Rightarrow> 'e + 's) \<Rightarrow> 's \<Rightarrow> 'a list \<Rightarrow> 'e + 's" where
  "rfold f s [] = Inr s"
| "rfold f s (x # xs) = rbind (f s x) (\<lambda>s'. rfold f s' xs)"

lemma ensure_simps [simp]:
  "ensure True e k = k"
  "ensure False e k = Inl e"
  by (simp_all add: ensure_def)

lemma ensure_eq_Inr [simp]: "ensure c e k = Inr y \<longleftrightarrow> c \<and> k = Inr y"
  by (simp add: ensure_def)

lemma ensure_eq_Inl: "ensure c e k = Inl y \<longleftrightarrow> (if c then k = Inl y else e = y)"
  by (simp add: ensure_def)

lemma ensure_cong [fundef_cong]:
  "c = c' \<Longrightarrow> e = e' \<Longrightarrow> (c' \<Longrightarrow> k = k') \<Longrightarrow> ensure c e k = ensure c' e' k'"
  by (simp add: ensure_def)

lemma rbind_simps [simp]:
  "rbind (Inl e) k = Inl e"
  "rbind (Inr x) k = k x"
  by (simp_all add: rbind_def)

lemma rbind_eq_Inr [simp]: "rbind m k = Inr y \<longleftrightarrow> (\<exists>x. m = Inr x \<and> k x = Inr y)"
  by (cases m) simp_all

lemma rbind_eq_Inl: "rbind m k = Inl e \<longleftrightarrow> m = Inl e \<or> (\<exists>x. m = Inr x \<and> k x = Inl e)"
  by (cases m) simp_all

lemma rbind_cong [fundef_cong]:
  "m = m' \<Longrightarrow> (\<And>x. m' = Inr x \<Longrightarrow> k x = k' x) \<Longrightarrow> rbind m k = rbind m' k'"
  by (cases m') simp_all

lemma rmap_simps [simp]:
  "rmap f (Inl e) = Inl e"
  "rmap f (Inr x) = Inr (f x)"
  by (simp_all add: rmap_def)

lemma rmap_eq_Inr [simp]: "rmap f m = Inr y \<longleftrightarrow> (\<exists>x. m = Inr x \<and> f x = y)"
  by (cases m) simp_all

lemma rmap_eq_Inl [simp]: "rmap f m = Inl e \<longleftrightarrow> m = Inl e"
  by (cases m) simp_all

lemma map_err_simps [simp]:
  "map_err f (Inl e) = Inl (f e)"
  "map_err f (Inr x) = Inr x"
  by (simp_all add: map_err_def)

lemma map_err_eq_Inr [simp]: "map_err f m = Inr x \<longleftrightarrow> m = Inr x"
  by (cases m) simp_all

lemma ok_or_simps [simp]:
  "ok_or e None = Inl e"
  "ok_or e (Some x) = Inr x"
  by (simp_all add: ok_or_def)

lemma ok_or_eq_Inr [simp]: "ok_or e m = Inr x \<longleftrightarrow> m = Some x"
  by (cases m) simp_all

lemma context_opt_simps [simp]:
  "context_opt s None = Inl (Missing s)"
  "context_opt s (Some x) = Inr x"
  by (simp_all add: context_opt_def)

lemma context_opt_eq_Inr [simp]: "context_opt s m = Inr x \<longleftrightarrow> m = Some x"
  by (cases m) simp_all

lemma context_res_eq_Inr [simp]: "context_res s m = Inr x \<longleftrightarrow> m = Inr x"
  by (simp add: context_res_def)

lemma rtraverse_eq_Inr: "rtraverse f xs = Inr ys \<longleftrightarrow> list_all2 (\<lambda>x y. f x = Inr y) xs ys"
  by (induction xs arbitrary: ys) (auto simp: list_all2_Cons1)

lemma rtraverse_length: "rtraverse f xs = Inr ys \<Longrightarrow> length ys = length xs"
  by (simp add: rtraverse_eq_Inr list_all2_lengthD)

lemma rtraverse_all_Inr: "(\<And>x. x \<in> set xs \<Longrightarrow> f x = Inr (g x)) \<Longrightarrow> rtraverse f xs = Inr (map g xs)"
  by (induction xs) simp_all

lemma rfold_append: "rfold f s (xs @ ys) = rbind (rfold f s xs) (\<lambda>s'. rfold f s' ys)"
proof (induction xs arbitrary: s)
  case (Cons x xs)
  then show ?case by (cases "f s x") simp_all
qed simp

lemma rfold_invariant:
  assumes "rfold f s xs = Inr s'" and "P s"
    and "\<And>s x s'. P s \<Longrightarrow> x \<in> set xs \<Longrightarrow> f s x = Inr s' \<Longrightarrow> P s'"
  shows "P s'"
  using assms
proof (induction xs arbitrary: s)
  case (Cons x xs)
  from Cons.prems(1) obtain t where t: "f s x = Inr t" "rfold f t xs = Inr s'" by auto
  have "P t" using Cons.prems(3) [OF Cons.prems(2) _ t(1)] by simp
  moreover have "\<And>s y s'. P s \<Longrightarrow> y \<in> set xs \<Longrightarrow> f s y = Inr s' \<Longrightarrow> P s'"
    using Cons.prems(3) by (meson list.set_intros(2))
  ultimately show ?case using t(2) Cons.IH by blast
qed simp

subsection \<open>Decimal text of a number, as \<open>format!("{n}")\<close> prints it\<close>

fun dec :: "nat \<Rightarrow> string" where
  "dec n = (if n < 10 then [char_of (48 + n)] else dec (n div 10) @ [char_of (48 + n mod 10)])"

declare dec.simps [simp del]

subsection \<open>Checked integer operations\<close>

definition try_from :: "nat \<Rightarrow> error + 'a::len word" where
  "try_from n = (if n < 2 ^ LENGTH('a) then Inr (word_of_nat n) else Inl Integer)"

definition checked_add :: "'a::len word \<Rightarrow> 'a word \<Rightarrow> 'a word option" where
  "checked_add a b = (if unat a + unat b < 2 ^ LENGTH('a) then Some (a + b) else None)"

definition checked_sub :: "'a::len word \<Rightarrow> 'a word \<Rightarrow> 'a word option" where
  "checked_sub a b = (if b \<le> a then Some (a - b) else None)"

definition checked_add_usize :: "nat \<Rightarrow> nat \<Rightarrow> nat option" where
  "checked_add_usize a b = (if a + b < 2 ^ 64 then Some (a + b) else None)"

definition checked_mul_usize :: "nat \<Rightarrow> nat \<Rightarrow> nat option" where
  "checked_mul_usize a b = (if a * b < 2 ^ 64 then Some (a * b) else None)"

definition div_ceil :: "nat \<Rightarrow> nat \<Rightarrow> nat" where
  "div_ceil a b = (a + b - 1) div b"

lemma unat_of_nat_small: "n < 2 ^ LENGTH('a) \<Longrightarrow> unat (word_of_nat n :: 'a::len word) = n"
  by (simp add: unat_of_nat take_bit_nat_eq_self)

lemma ex_unat: "n < 2 ^ LENGTH('a) \<Longrightarrow> \<exists>w :: 'a::len word. n = unat w"
  by (metis unat_of_nat_small)

lemma unat_less_pow: "unat (w :: 'a::len word) < 2 ^ LENGTH('a)"
  by (rule unsigned_less)

lemma word_index:
  assumes "i < unat (w :: 'a::len word)"
  shows "unat (word_of_nat i :: 'a word) = i" and "word_of_nat i < w"
proof -
  show "unat (word_of_nat i :: 'a word) = i"
    by (rule unat_of_nat_small) (rule less_trans [OF assms unat_less_pow])
  with assms show "word_of_nat i < w" by (simp add: word_less_nat_alt)
qed

lemma try_from_eq_Inr: "try_from n = Inr (w :: 'a::len word) \<longleftrightarrow> n = unat w"
  by (auto simp: try_from_def unat_of_nat_small)

lemma try_from_unat [simp]: "try_from (unat (w :: 'a::len word)) = Inr w"
  by (simp add: try_from_eq_Inr)

lemma checked_add_Some: "checked_add a b = Some c \<longleftrightarrow> unat c = unat a + unat b"
  for a b c :: "'a::len word"
proof
  assume "checked_add a b = Some c"
  then show "unat c = unat a + unat b"
    by (auto simp: checked_add_def unat_word_ariths split: if_splits)
next
  assume *: "unat c = unat a + unat b"
  then have lt: "unat a + unat b < 2 ^ LENGTH('a)" using unsigned_less [of c] by metis
  have "word_of_nat (unat c) = (word_of_nat (unat a + unat b) :: 'a word)" by (simp only: *)
  then have "c = a + b" by simp
  with lt show "checked_add a b = Some c" by (simp add: checked_add_def)
qed

lemma checked_add_Some_less: "checked_add a b = Some c \<Longrightarrow> a \<le> c \<and> b \<le> c"
  for a b c :: "'a::len word"
  by (simp add: checked_add_Some word_le_nat_alt)

lemma unat_ucast_up: "LENGTH('a) \<le> LENGTH('b) \<Longrightarrow> unat (ucast (w :: 'a :: len word) :: 'b :: len word) = unat w"
  by transfer (simp add: min_def)

lemma checked_sub_Some: "checked_sub a b = Some c \<longleftrightarrow> b \<le> a \<and> unat c = unat a - unat b"
  for a b c :: "'a::len word"
proof -
  have "b \<le> a \<Longrightarrow> (a - b = c) = (unat c = unat a - unat b)"
    by (metis unat_sub unsigned_word_eqI)
  then show ?thesis by (auto simp: checked_sub_def)
qed

lemma div_ceil_le_iff: "0 < b \<Longrightarrow> div_ceil a b \<le> k \<longleftrightarrow> a \<le> k * b"
proof -
  assume b: "0 < b"
  have "div_ceil a b \<le> k \<longleftrightarrow> (a + b - 1) div b < Suc k" by (auto simp: div_ceil_def)
  also have "\<dots> \<longleftrightarrow> a + b - 1 < Suc k * b" using b by (simp add: div_less_iff_less_mult)
  also have "\<dots> \<longleftrightarrow> a \<le> k * b" using b by auto
  finally show ?thesis .
qed

lemma div_ceil_gt_iff: "0 < b \<Longrightarrow> k < div_ceil a b \<longleftrightarrow> k * b < a"
  using div_ceil_le_iff [of b a k] by linarith

lemma div_ceil_0 [simp]: "0 < b \<Longrightarrow> div_ceil 0 b = 0"
  by (simp add: div_ceil_def)

subsection \<open>Byte orders\<close>

fun nat_to_le :: "nat \<Rightarrow> nat \<Rightarrow> bytes" where
  "nat_to_le 0 v = []"
| "nat_to_le (Suc n) v = word_of_nat (v mod 256) # nat_to_le n (v div 256)"

fun le_to_nat :: "bytes \<Rightarrow> nat" where
  "le_to_nat [] = 0"
| "le_to_nat (b # bs) = unat b + 256 * le_to_nat bs"

definition to_le_bytes :: "'a::len word \<Rightarrow> bytes" where
  "to_le_bytes w = nat_to_le (LENGTH('a) div 8) (unat w)"

definition from_le_bytes :: "bytes \<Rightarrow> 'a::len word" where
  "from_le_bytes bs = word_of_nat (le_to_nat bs)"

definition to_be_bytes :: "'a::len word \<Rightarrow> bytes" where
  "to_be_bytes w = rev (to_le_bytes w)"

lemma length_nat_to_le [simp]: "length (nat_to_le n v) = n"
  by (induction n arbitrary: v) simp_all

lemma le_to_nat_less: "le_to_nat bs < 256 ^ length bs"
proof (induction bs)
  case (Cons b bs)
  have "unat b < 256" using unsigned_less [of b] by simp
  then have "unat b + 256 * le_to_nat bs < 256 + 256 * le_to_nat bs" by simp
  also have "\<dots> = 256 * (Suc (le_to_nat bs))" by simp
  also have "\<dots> \<le> 256 * 256 ^ length bs" using Cons by (intro mult_le_mono) auto
  finally show ?case by simp
qed simp

lemma le_to_nat_nat_to_le [simp]: "le_to_nat (nat_to_le n v) = v mod 256 ^ n"
proof (induction n arbitrary: v)
  case (Suc n)
  have "unat (word_of_nat (v mod 256) :: u8) = v mod 256" by (rule unat_of_nat_small) simp
  then show ?case using Suc by (simp add: mod_mult2_eq)
qed simp

lemma nat_to_le_le_to_nat: "length bs = n \<Longrightarrow> nat_to_le n (le_to_nat bs) = bs"
proof (induction bs arbitrary: n)
  case (Cons b bs)
  have "unat b < 256" using unsigned_less [of b] by simp
  with Cons show ?case by (cases n) (auto simp: mod_mult_self2_is_0)
qed simp

lemma length_to_le_bytes [simp]: "length (to_le_bytes (w :: 'a::len word)) = LENGTH('a) div 8"
  by (simp add: to_le_bytes_def)

lemma length_to_be_bytes [simp]: "length (to_be_bytes (w :: 'a::len word)) = LENGTH('a) div 8"
  by (simp add: to_be_bytes_def)

lemma pow256: "(256::nat) ^ n = 2 ^ (8 * n)"
  by (simp add: power_mult)

lemma from_le_to_le [simp]:
  assumes "8 dvd LENGTH('a)"
  shows "from_le_bytes (to_le_bytes (w :: 'a::len word)) = w"
proof -
  have "8 * (LENGTH('a) div 8) = LENGTH('a)" using assms by simp
  then have "unat w < 256 ^ (LENGTH('a) div 8)" by (simp add: pow256)
  then show ?thesis by (simp add: from_le_bytes_def to_le_bytes_def)
qed

lemma to_le_from_le:
  assumes "8 dvd LENGTH('a)" and "length bs = LENGTH('a) div 8"
  shows "to_le_bytes (from_le_bytes bs :: 'a::len word) = bs"
proof -
  have "8 * (LENGTH('a) div 8) = LENGTH('a)" using assms by simp
  then have "le_to_nat bs < 2 ^ LENGTH('a)"
    using le_to_nat_less [of bs] assms(2) by (simp add: pow256)
  then show ?thesis
    using assms by (simp add: to_le_bytes_def from_le_bytes_def unat_of_nat_small nat_to_le_le_to_nat)
qed

lemma to_le_from_le_widths [simp]:
  "length bs = 2 \<Longrightarrow> to_le_bytes (from_le_bytes bs :: u16) = bs"
  "length bs = 4 \<Longrightarrow> to_le_bytes (from_le_bytes bs :: u32) = bs"
  "length bs = 8 \<Longrightarrow> to_le_bytes (from_le_bytes bs :: u64) = bs"
  by (rule to_le_from_le; simp)+

lemma from_le_eq_widths:
  "length bs = 2 \<Longrightarrow> from_le_bytes bs = (v :: u16) \<longleftrightarrow> bs = to_le_bytes v"
  "length bs = 4 \<Longrightarrow> from_le_bytes bs = (w :: u32) \<longleftrightarrow> bs = to_le_bytes w"
  "length bs = 8 \<Longrightarrow> from_le_bytes bs = (x :: u64) \<longleftrightarrow> bs = to_le_bytes x"
  by auto

subsection \<open>Slices\<close>

text \<open>\<open>xs[i..j]\<close>; every use is behind a guard that bounds \<open>j\<close> by the length.\<close>

definition slice :: "nat \<Rightarrow> nat \<Rightarrow> 'a list \<Rightarrow> 'a list" where
  "slice i j xs = take (j - i) (drop i xs)"

lemma length_slice [simp]: "j \<le> length xs \<Longrightarrow> length (slice i j xs) = j - i"
  by (simp add: slice_def)

lemma slice_append_drop: "i \<le> j \<Longrightarrow> slice i j xs @ drop j xs = drop i xs"
  unfolding slice_def by (metis append_take_drop_id drop_drop le_add_diff_inverse2)

lemma take_append_slice: "i \<le> j \<Longrightarrow> take i xs @ slice i j xs = take j xs"
  unfolding slice_def by (metis take_add le_add_diff_inverse)

lemma slice_append_slice: "i \<le> j \<Longrightarrow> j \<le> k \<Longrightarrow> slice i j xs @ slice j k xs = slice i k xs"
  using take_append_slice [of "j - i" "k - i" "drop i xs"]
  by (simp add: slice_def)

lemma slice_append1 [simp]: "j \<le> length xs \<Longrightarrow> slice i j (xs @ ys) = slice i j xs"
  by (simp add: slice_def)

lemma slice_append2: "length xs \<le> i \<Longrightarrow> slice i j (xs @ ys) = slice (i - length xs) (j - length xs) ys"
  by (simp add: slice_def)

lemma slice_all [simp]: "length xs \<le> j \<Longrightarrow> slice 0 j xs = xs"
  by (simp add: slice_def)

lemma slice_append: "slice i j (xs @ ys) = slice i j xs @ slice (i - length xs) (j - length xs) ys"
proof -
  have "i \<le> length xs \<Longrightarrow> j - i - (length xs - i) = j - length xs" by simp
  then show ?thesis by (cases "i \<le> length xs") (simp_all add: slice_def)
qed

lemma slice_beyond: "length xs \<le> i \<Longrightarrow> slice i j xs = []"
  by (simp add: slice_def)

lemma slice_zero: "slice i 0 xs = []"
  by (simp add: slice_def)

lemmas slice_simps = slice_append slice_beyond slice_zero slice_all

lemma split_at_length: "n \<le> length xs \<Longrightarrow> \<exists>a r. xs = a @ r \<and> length a = n"
  by (metis append_take_drop_id length_take min.absorb2)

lemma append_drop_eq: "drop n xs = ys \<Longrightarrow> xs = take n xs @ ys"
  by (metis append_take_drop_id)

text \<open>\<open>xs.windows(2).all(|pair| p(pair[0], pair[1]))\<close>\<close>

fun windows2_all :: "('a \<Rightarrow> 'a \<Rightarrow> bool) \<Rightarrow> 'a list \<Rightarrow> bool" where
  "windows2_all p (x # y # zs) = (p x y \<and> windows2_all p (y # zs))"
| "windows2_all p _ = True"

lemma windows2_all_sorted_wrt:
  "transp p \<Longrightarrow> windows2_all p xs \<longleftrightarrow> sorted_wrt p xs"
proof (induction p xs rule: windows2_all.induct)
  case (1 p x y zs)
  then show ?case by (auto dest: transpD)
qed simp_all

text \<open>\<open>xs.chunks(n)\<close> (the last chunk may be shorter) and \<open>xs.as_chunks::<n>().0\<close> (whole chunks only).\<close>

function chunks :: "nat \<Rightarrow> 'a list \<Rightarrow> 'a list list" where
  "chunks n xs = (if n = 0 \<or> xs = [] then [] else take n xs # chunks n (drop n xs))"
  by pat_completeness auto
termination by (relation "measure (\<lambda>(n, xs). length xs)") auto

function as_chunks :: "nat \<Rightarrow> 'a list \<Rightarrow> 'a list list" where
  "as_chunks n xs = (if n = 0 \<or> length xs < n then [] else take n xs # as_chunks n (drop n xs))"
  by pat_completeness auto
termination by (relation "measure (\<lambda>(n, xs). length xs)") auto

declare chunks.simps [simp del] as_chunks.simps [simp del]

lemma chunks_Nil [simp]: "chunks n [] = []"
  by (simp add: chunks.simps)

lemma concat_chunks [simp]: "0 < n \<Longrightarrow> concat (chunks n xs) = xs"
proof (induction n xs rule: chunks.induct)
  case (1 n xs)
  then show ?case by (subst chunks.simps) auto
qed

lemma chunks_lengths: "c \<in> set (chunks n xs) \<Longrightarrow> 0 < length c \<and> length c \<le> n"
proof (induction n xs rule: chunks.induct)
  case (1 n xs)
  then show ?case by (subst (asm) chunks.simps) (auto split: if_splits)
qed

lemma as_chunks_lengths: "c \<in> set (as_chunks n xs) \<Longrightarrow> length c = n"
proof (induction n xs rule: as_chunks.induct)
  case (1 n xs)
  then show ?case by (subst (asm) as_chunks.simps) (auto split: if_splits)
qed

lemma as_chunks_concat:
  "0 < n \<Longrightarrow> (\<forall>c \<in> set cs. length c = n) \<Longrightarrow> as_chunks n (concat cs) = cs"
proof (induction cs)
  case Nil
  then show ?case by (simp add: as_chunks.simps)
next
  case (Cons c cs)
  then show ?case by (subst as_chunks.simps) auto
qed

lemma concat_as_chunks:
  "0 < n \<Longrightarrow> length xs = n * k \<Longrightarrow> concat (as_chunks n xs) = xs \<and> length (as_chunks n xs) = k"
proof (induction k arbitrary: xs)
  case 0
  then show ?case by (simp add: as_chunks.simps)
next
  case (Suc k)
  then have "concat (as_chunks n (drop n xs)) = drop n xs \<and> length (as_chunks n (drop n xs)) = k"
    by (intro Suc.IH) auto
  with Suc.prems show ?case by (subst as_chunks.simps, subst (2) as_chunks.simps) auto
qed

lemma length_concat_same:
  "(\<forall>c \<in> set cs. length c = n) \<Longrightarrow> length (concat cs) = n * length cs"
  by (induction cs) auto

lemma length_chunks: "0 < n \<Longrightarrow> length (chunks n xs) = div_ceil (length xs) n"
proof (induction n xs rule: chunks.induct)
  case (1 n xs)
  show ?case
  proof (cases "xs = []")
    case False
    then have "length (chunks n xs) = Suc (div_ceil (length xs - n) n)"
      using 1 by (subst chunks.simps) simp
    also have "\<dots> = div_ceil (length xs) n"
    proof (cases "length xs \<le> n")
      case True
      moreover have "0 < length xs" using False by simp
      ultimately have "length xs + n - Suc 0 = n + (length xs - 1)" "length xs - 1 < n" by linarith+
      then have "(length xs + n - Suc 0) div n = 1 + (length xs - 1) div n"
        using "1.prems" by (metis div_add_self1 add.commute less_numeral_extra(3))
      then have "(length xs + n - Suc 0) div n = 1" using \<open>length xs - 1 < n\<close> by simp
      with True "1.prems" show ?thesis by (simp add: div_ceil_def)
    qed (use "1.prems" in \<open>auto simp: div_ceil_def le_div_geq\<close>)
    finally show ?thesis .
  qed (use "1.prems" in \<open>simp add: div_ceil_def\<close>)
qed

lemma nth_chunks: "0 < n \<Longrightarrow> j < length (chunks n xs) \<Longrightarrow> chunks n xs ! j = take n (drop (j * n) xs)"
proof (induction n xs arbitrary: j rule: chunks.induct)
  case (1 n xs)
  then show ?case
    by (cases j; subst chunks.simps, subst (asm) (2) chunks.simps) (auto split: if_splits simp: add.commute)
qed

lemma chunks_as_chunks:
  "0 < n \<Longrightarrow> chunks n xs = as_chunks n xs @
     (if length xs mod n = 0 then [] else [drop (length xs - length xs mod n) xs])"
proof (induction n xs rule: chunks.induct)
  case (1 n xs)
  consider "xs = []" | "xs \<noteq> []" "length xs < n" | "n \<le> length xs" by linarith
  then show ?case
  proof cases
    case 3
    then have "xs \<noteq> []" using "1.prems" by auto
    have "chunks n xs = take n xs # chunks n (drop n xs)"
      using \<open>xs \<noteq> []\<close> "1.prems" by (subst chunks.simps) simp
    moreover have "as_chunks n xs = take n xs # as_chunks n (drop n xs)"
      using 3 "1.prems" by (subst as_chunks.simps) simp
    moreover have "(length xs - n) mod n = length xs mod n" using 3 by (metis le_mod_geq)
    moreover have "length xs mod n \<noteq> 0 \<Longrightarrow> n + (length xs - n - length xs mod n) = length xs - length xs mod n"
      using 3 \<open>(length xs - n) mod n = length xs mod n\<close> by (metis Nat.add_diff_assoc add_diff_inverse_nat mod_less_eq_dividend not_le)
    ultimately show ?thesis using 1 \<open>xs \<noteq> []\<close> by (auto simp: add.commute)
  qed (use 1 in \<open>auto simp: chunks.simps as_chunks.simps\<close>)
qed

lemma as_chunks_short: "length xs < n \<Longrightarrow> as_chunks n xs = []"
  by (simp add: as_chunks.simps)

lemma as_chunks_snoc:
  "0 < n \<Longrightarrow> as_chunks n (xs @ [x]) = as_chunks n xs @
     (if Suc (length xs) mod n = 0 then [drop (length xs - length xs mod n) xs @ [x]] else [])"
proof (induction n xs rule: as_chunks.induct)
  case (1 n xs)
  consider "Suc (length xs) < n" | "Suc (length xs) = n" | "n \<le> length xs" by linarith
  then show ?case
  proof cases
    case 1
    then show ?thesis by (simp add: as_chunks_short)
  next
    case 2
    then show ?thesis by (subst as_chunks.simps) (auto simp: as_chunks_short)
  next
    case 3
    have "as_chunks n (xs @ [x]) = take n xs # as_chunks n (drop n xs @ [x])"
      using 3 "1.prems" by (subst as_chunks.simps) simp
    moreover have "as_chunks n xs = take n xs # as_chunks n (drop n xs)"
      using 3 "1.prems" by (subst as_chunks.simps) simp
    moreover have m: "(length xs - n) mod n = length xs mod n" "Suc (length xs - n) mod n = Suc (length xs) mod n"
      using 3 by (metis le_mod_geq, metis Suc_diff_le le_SucI le_mod_geq)
    moreover have "n + (length xs - n - length xs mod n) = length xs - length xs mod n"
      using 3 m(1) by (metis Nat.add_diff_assoc add_diff_inverse_nat mod_less_eq_dividend not_le)
    ultimately show ?thesis using 1 3 by (simp add: add.commute)
  qed
qed

lemma chunks_map: "chunks n (map f xs) = map (map f) (chunks n xs)"
proof (induction n xs rule: chunks.induct)
  case (1 n xs)
  show ?case
  proof (cases "n = 0 \<or> xs = []")
    case True
    then show ?thesis by (auto simp: chunks.simps)
  next
    case False
    then show ?thesis using 1 by (subst (1 2) chunks.simps) (simp add: take_map drop_map)
  qed
qed

subsection \<open>UTF-8\<close>

text \<open>
  \<open>std::str::from_utf8\<close> accepts exactly the well-formed byte sequences of the Unicode standard:
  no overlong forms, no surrogates, nothing above U+10FFFF.
\<close>

definition utf8_cont :: "u8 \<Rightarrow> bool" where
  "utf8_cont b \<longleftrightarrow> 0x80 \<le> b \<and> b \<le> 0xBF"

fun is_utf8 :: "bytes \<Rightarrow> bool" where
  "is_utf8 [] = True"
| "is_utf8 (b # bs) =
     (if b < 0x80 then is_utf8 bs
      else if 0xC2 \<le> b \<and> b \<le> 0xDF then
        (case bs of c1 # r \<Rightarrow> utf8_cont c1 \<and> is_utf8 r | _ \<Rightarrow> False)
      else if 0xE0 \<le> b \<and> b \<le> 0xEF then
        (case bs of c1 # c2 # r \<Rightarrow>
            utf8_cont c1 \<and> (b = 0xE0 \<longrightarrow> 0xA0 \<le> c1) \<and> (b = 0xED \<longrightarrow> c1 \<le> 0x9F) \<and>
            utf8_cont c2 \<and> is_utf8 r
         | _ \<Rightarrow> False)
      else if 0xF0 \<le> b \<and> b \<le> 0xF4 then
        (case bs of c1 # c2 # c3 # r \<Rightarrow>
            utf8_cont c1 \<and> (b = 0xF0 \<longrightarrow> 0x90 \<le> c1) \<and> (b = 0xF4 \<longrightarrow> c1 \<le> 0x8F) \<and>
            utf8_cont c2 \<and> utf8_cont c3 \<and> is_utf8 r
         | _ \<Rightarrow> False)
      else False)"

definition from_utf8 :: "bytes \<Rightarrow> error + bytes" where
  "from_utf8 bs = (if is_utf8 bs then Inr bs else Inl Utf8)"

lemma from_utf8_eq_Inr [simp]: "from_utf8 bs = Inr t \<longleftrightarrow> is_utf8 bs \<and> t = bs"
  by (auto simp: from_utf8_def)

lemma is_utf8_ascii: "(\<forall>b \<in> set bs. b < 0x80) \<Longrightarrow> is_utf8 bs"
  by (induction bs) auto

definition is_ascii_lowercase :: "u8 \<Rightarrow> bool" where
  "is_ascii_lowercase b \<longleftrightarrow> 97 \<le> b \<and> b \<le> 122"

definition is_ascii_digit :: "u8 \<Rightarrow> bool" where
  "is_ascii_digit b \<longleftrightarrow> 48 \<le> b \<and> b \<le> 57"

definition to_ascii_lowercase :: "bytes \<Rightarrow> bytes" where
  "to_ascii_lowercase bs = map (\<lambda>b. if 65 \<le> b \<and> b \<le> 90 then b + 32 else b) bs"

end
