(* ===== verification/Codec.thy ===== *)
theory Codec
  imports Prelude
begin

section \<open>Strict codecs\<close>

text \<open>
  The contract every record format of the workspace promises: decoding inverts encoding on the
  values of the Rust type (\<open>wf\<close> is the type's invariant: array lengths, UTF-8 text), and whatever
  bytes the decoder accepts are the one encoding of what it returns. The clients of a format rely
  on the consequences proved here: no two values share an encoding, no value has two accepted
  encodings, so a hash of the bytes identifies the value.
\<close>

locale strict_codec =
  fixes encode :: "'a \<Rightarrow> 'e + bytes"
    and decode :: "bytes \<Rightarrow> 'e + 'a"
    and wf :: "'a \<Rightarrow> bool"
  assumes decode_encode: "wf x \<Longrightarrow> encode x = Inr b \<Longrightarrow> decode b = Inr x"
    and encode_decode: "decode b = Inr x \<Longrightarrow> wf x \<and> encode x = Inr b"
begin

lemma decode_iff: "decode b = Inr x \<longleftrightarrow> wf x \<and> encode x = Inr b"
  using decode_encode encode_decode by blast

lemma encode_injective: "wf x \<Longrightarrow> wf y \<Longrightarrow> encode x = Inr b \<Longrightarrow> encode y = Inr b \<Longrightarrow> x = y"
  by (metis Inr_inject decode_encode)

lemma decode_canonical: "decode b = Inr x \<Longrightarrow> decode b' = Inr x \<Longrightarrow> b = b'"
  by (metis Inr_inject encode_decode)

lemma decode_rejects: "(\<nexists>x. wf x \<and> encode x = Inr b) \<Longrightarrow> \<exists>e. decode b = Inl e"
  using encode_decode by (cases "decode b") auto

end

end
