(* ===== verification/Topics.thy ===== *)
theory Topics
  imports Codec
begin

section \<open>Topics of a Wire record (\<^verbatim>\<open>urma-core/src/topics.rs\<close>)\<close>

text \<open>
  The structured body of the records WirePost and WireReply: an optional wire label, up to eight
  sorted hashtags and the text, each length-prefixed. The theory holds the validation of labels
  and topics, the encoder and the decoder with its cursor, and the proof that they form a strict
  codec.
\<close>

record topics =
  wire :: bytes
  hashtags :: "bytes list"

definition MAX_LABEL_BYTES :: nat where "MAX_LABEL_BYTES = 32"
definition MAX_HASHTAGS :: nat where "MAX_HASHTAGS = 8"

definition validate_label :: "bytes \<Rightarrow> error + unit" where
  "validate_label label =
     ensure (1 \<le> length label \<and> length label \<le> MAX_LABEL_BYTES)
       (Invalid ''label must be 1..32 bytes'')
    (ensure (is_ascii_lowercase (label ! 0) \<or> is_ascii_digit (label ! 0))
       (Invalid ''label must start with a lowercase letter or digit'')
    (ensure (\<forall>byte \<in> set label. is_ascii_lowercase byte \<or> is_ascii_digit byte \<or> byte = 45 \<or> byte = 95)
       (Invalid ''label permits only lowercase ASCII letters, digits, - and _'')
    (Inr ())))"

definition Topics_validate :: "topics \<Rightarrow> error + unit" where
  "Topics_validate t =
     rbind (if wire t \<noteq> [] then validate_label (wire t) else Inr ()) (\<lambda>_.
     ensure (length (hashtags t) \<le> MAX_HASHTAGS) (Invalid ''at most 8 hashtags'')
    (rbind (rfold (\<lambda>_ tag. validate_label tag) () (hashtags t)) (\<lambda>_.
     ensure (windows2_all (<) (hashtags t)) (Invalid ''hashtags must be unique and sorted'')
    (Inr ()))))"

definition push_label :: "bytes \<Rightarrow> bytes \<Rightarrow> error + bytes" where
  "push_label bs tag = rbind (try_from (length tag)) (\<lambda>n :: u8. Inr (bs @ [n] @ tag))"

definition encode_body :: "topics \<Rightarrow> bytes \<Rightarrow> error + bytes" where
  "encode_body t text =
     rbind (Topics_validate t) (\<lambda>_.
     rbind (push_label [] (wire t)) (\<lambda>bs.
     rbind (try_from (length (hashtags t))) (\<lambda>count :: u8.
     rbind (rfold push_label (bs @ [count]) (hashtags t)) (\<lambda>bs.
     rbind (try_from (length text)) (\<lambda>n :: u16.
     Inr (bs @ to_le_bytes n @ text))))))"

text \<open>\<open>take(&mut bytes, length)\<close>: the bytes taken and the advanced cursor.\<close>

definition take_bytes :: "bytes \<Rightarrow> nat \<Rightarrow> error + bytes \<times> bytes" where
  "take_bytes bs n =
     ensure (n \<le> length bs) (Invalid ''truncated structured record'') (Inr (take n bs, drop n bs))"

definition read_label :: "bytes \<Rightarrow> error + bytes \<times> bytes" where
  "read_label bs =
     rbind (take_bytes bs 1) (\<lambda>(head, bs).
     let n = unat (head ! 0) in
     ensure (1 \<le> n \<and> n \<le> MAX_LABEL_BYTES) (Invalid ''label must be 1..32 bytes'')
    (rbind (take_bytes bs n) (\<lambda>(label, bs).
     rbind (from_utf8 label) (\<lambda>label. Inr (label, bs)))))"

fun read_labels :: "nat \<Rightarrow> bytes \<Rightarrow> error + bytes list \<times> bytes" where
  "read_labels 0 bs = Inr ([], bs)"
| "read_labels (Suc n) bs =
     rbind (read_label bs) (\<lambda>(label, bs).
     rbind (read_labels n bs) (\<lambda>(labels, bs). Inr (label # labels, bs)))"

definition decode_body :: "bytes \<Rightarrow> error + topics \<times> bytes" where
  "decode_body bs =
     rbind (take_bytes bs 1) (\<lambda>(head, bs).
     let wire_length = unat (head ! 0) in
     ensure (wire_length \<le> MAX_LABEL_BYTES) (Invalid ''wire exceeds 32 bytes'')
    (rbind (take_bytes bs wire_length) (\<lambda>(w, bs).
     rbind (from_utf8 w) (\<lambda>w.
     rbind (take_bytes bs 1) (\<lambda>(head, bs).
     let count = unat (head ! 0) in
     ensure (count \<le> MAX_HASHTAGS) (Invalid ''at most 8 hashtags'')
    (rbind (read_labels count bs) (\<lambda>(tags, bs).
     rbind (take_bytes bs 2) (\<lambda>(two, bs).
     let n = unat (from_le_bytes two :: u16) in
     rbind (take_bytes bs n) (\<lambda>(text, bs).
     rbind (from_utf8 text) (\<lambda>text.
     ensure (bs = []) (Invalid ''trailing structured record bytes'')
    (let t = \<lparr>wire = w, hashtags = tags\<rparr> in
     rbind (Topics_validate t) (\<lambda>_. Inr (t, text)))))))))))))"

text \<open>The invariant of the Rust types: \<open>String\<close>s hold UTF-8.\<close>

definition wf_topics :: "topics \<Rightarrow> bool" where
  "wf_topics t \<longleftrightarrow> is_utf8 (wire t) \<and> (\<forall>tag \<in> set (hashtags t). is_utf8 tag)"

subsection \<open>Labels\<close>

definition label_ok :: "bytes \<Rightarrow> bool" where
  "label_ok label \<longleftrightarrow> validate_label label = Inr ()"

lemma label_ok_length: "label_ok l \<Longrightarrow> 1 \<le> length l \<and> length l \<le> 32"
  by (simp add: label_ok_def validate_label_def MAX_LABEL_BYTES_def)

lemma label_ok_utf8: "label_ok l \<Longrightarrow> is_utf8 l"
proof -
  have "is_ascii_lowercase b \<or> is_ascii_digit b \<or> b = 45 \<or> b = 95 \<Longrightarrow> b < 0x80" for b :: u8
    by (auto simp: is_ascii_lowercase_def is_ascii_digit_def dest: le_less_trans [of b _ 128])
  then show "label_ok l \<Longrightarrow> is_utf8 l"
    by (intro is_utf8_ascii) (auto simp: label_ok_def validate_label_def)
qed

lemma rfold_validate_label:
  "rfold (\<lambda>_ tag. validate_label tag) u tags = Inr v \<longleftrightarrow> (\<forall>tag \<in> set tags. label_ok tag)"
  by (induction tags arbitrary: u) (auto simp: label_ok_def)

lemma Topics_validate_iff:
  "Topics_validate t = Inr u \<longleftrightarrow>
     (wire t \<noteq> [] \<longrightarrow> label_ok (wire t)) \<and> length (hashtags t) \<le> 8 \<and>
     (\<forall>tag \<in> set (hashtags t). label_ok tag) \<and> sorted_wrt (<) (hashtags t)"
proof -
  have "windows2_all (<) (hashtags t) \<longleftrightarrow> sorted_wrt (<) (hashtags t)"
    by (rule windows2_all_sorted_wrt) simp
  then show ?thesis
    by (auto simp: Topics_validate_def rfold_validate_label label_ok_def MAX_HASHTAGS_def)
qed

subsection \<open>Cursor reads\<close>

lemma take_bytes_eq_Inr: "take_bytes bs n = Inr (a, r) \<longleftrightarrow> bs = a @ r \<and> length a = n"
  by (auto simp: take_bytes_def)

definition label_bytes :: "bytes \<Rightarrow> bytes" where
  "label_bytes l = word_of_nat (length l) # l"

lemma push_label_eq_Inr:
  "push_label bs l = Inr b \<longleftrightarrow> length l < 256 \<and> b = bs @ label_bytes l"
  by (auto simp: push_label_def label_bytes_def try_from_def)

lemma rfold_push_label:
  "rfold push_label bs ls = Inr b \<longleftrightarrow>
     (\<forall>l \<in> set ls. length l < 256) \<and> b = bs @ concat (map label_bytes ls)"
  by (induction ls arbitrary: bs) (auto simp: push_label_eq_Inr)

lemma unat_byte_less [simp]: "unat (b :: u8) < 256"
  using unsigned_less [of b] by simp

lemma unat_byte_of_nat: "n < 256 \<Longrightarrow> unat (word_of_nat n :: u8) = n"
  by (rule unat_of_nat_small) simp

lemma read_label_eq_Inr:
  "read_label bs = Inr (l, r) \<longleftrightarrow>
     bs = label_bytes l @ r \<and> 1 \<le> length l \<and> length l \<le> 32 \<and> is_utf8 l"
proof
  assume "read_label bs = Inr (l, r)"
  then obtain a q where a: "take_bytes bs 1 = Inr (a, q)"
    and n: "1 \<le> unat (a ! 0)" "unat (a ! 0) \<le> 32"
    and l: "take_bytes q (unat (a ! 0)) = Inr (l, r)" "is_utf8 l"
    by (auto simp: read_label_def Let_def MAX_LABEL_BYTES_def)
  from a l n show "bs = label_bytes l @ r \<and> 1 \<le> length l \<and> length l \<le> 32 \<and> is_utf8 l"
    by (auto simp: take_bytes_eq_Inr length_Suc_conv label_bytes_def)
next
  assume *: "bs = label_bytes l @ r \<and> 1 \<le> length l \<and> length l \<le> 32 \<and> is_utf8 l"
  then have "unat (word_of_nat (length l) :: u8) = length l" by (intro unat_byte_of_nat) simp
  with * show "read_label bs = Inr (l, r)"
    by (simp add: read_label_def label_bytes_def take_bytes_def MAX_LABEL_BYTES_def from_utf8_def
        del: rbind_eq_Inr ensure_eq_Inr)
qed

lemma read_labels_eq_Inr:
  "read_labels n bs = Inr (ls, r) \<longleftrightarrow>
     length ls = n \<and> bs = concat (map label_bytes ls) @ r \<and>
     (\<forall>l \<in> set ls. 1 \<le> length l \<and> length l \<le> 32 \<and> is_utf8 l)"
proof (induction n arbitrary: bs ls)
  case (Suc n)
  show ?case
  proof (cases ls)
    case (Cons l ls')
    then show ?thesis
      by (auto simp: Suc read_label_eq_Inr Bex_def)
  qed auto
qed auto

subsection \<open>The body is a strict codec\<close>

definition body_bytes :: "topics \<Rightarrow> bytes \<Rightarrow> bytes" where
  "body_bytes t text = label_bytes (wire t) @ [word_of_nat (length (hashtags t))] @
     concat (map label_bytes (hashtags t)) @ to_le_bytes (word_of_nat (length text) :: u16) @ text"

lemma encode_body_eq_Inr:
  "encode_body t text = Inr b \<longleftrightarrow>
     Topics_validate t = Inr () \<and> length text < 65536 \<and> b = body_bytes t text"
proof -
  have "Topics_validate t = Inr () \<Longrightarrow> length (wire t) < 256 \<and> length (hashtags t) < 256 \<and>
      (\<forall>l \<in> set (hashtags t). length l < 256)"
    by (cases "wire t = []") (fastforce simp: Topics_validate_iff dest: label_ok_length)+
  then show ?thesis
    by (auto simp: encode_body_def push_label_eq_Inr rfold_push_label body_bytes_def try_from_def)
qed

lemma decode_body_eq_Inr:
  "decode_body b = Inr (t, text) \<longleftrightarrow>
     Topics_validate t = Inr () \<and> length text < 65536 \<and> is_utf8 text \<and> b = body_bytes t text"
    (is "?L \<longleftrightarrow> ?R")
proof
  assume ?L
  then obtain a1 b1 w b2 a2 b3 tags b4 a3 b5 b6 where
    steps: "take_bytes b 1 = Inr (a1, b1)" "unat (a1 ! 0) \<le> 32"
      "take_bytes b1 (unat (a1 ! 0)) = Inr (w, b2)"
      "take_bytes b2 1 = Inr (a2, b3)" "unat (a2 ! 0) \<le> 8"
      "read_labels (unat (a2 ! 0)) b3 = Inr (tags, b4)"
      "take_bytes b4 2 = Inr (a3, b5)" "take_bytes b5 (unat (from_le_bytes a3 :: u16)) = Inr (text, b6)"
      "is_utf8 text" "b6 = []" "t = \<lparr>wire = w, hashtags = tags\<rparr>" "Topics_validate t = Inr ()"
    by (auto simp: decode_body_def Let_def MAX_LABEL_BYTES_def MAX_HASHTAGS_def)
  have len: "length text = unat (from_le_bytes a3 :: u16)" and a3: "length a3 = 2"
    using steps(7,8) by (simp_all add: take_bytes_eq_Inr)
  then have "length text < 65536" using unsigned_less [of "from_le_bytes a3 :: u16"] by simp
  moreover have "a3 = to_le_bytes (word_of_nat (length text) :: u16)" using a3 by (simp add: len)
  ultimately show ?R
    using steps
    by (auto simp: take_bytes_eq_Inr length_Suc_conv read_labels_eq_Inr body_bytes_def label_bytes_def)
next
  assume R: ?R
  then have lens: "length (wire t) \<le> 32" "length (hashtags t) \<le> 8"
    "\<forall>l \<in> set (hashtags t). 1 \<le> length l \<and> length l \<le> 32 \<and> is_utf8 l" "is_utf8 (wire t)"
    by (cases "wire t = []"; fastforce simp: Topics_validate_iff dest: label_ok_length label_ok_utf8)+
  then have un: "unat (word_of_nat (length (wire t)) :: u8) = length (wire t)"
    "unat (word_of_nat (length (hashtags t)) :: u8) = length (hashtags t)"
    "unat (word_of_nat (length text) :: u16) = length text"
    using R by (auto intro!: unat_of_nat_small)
  have labels: "read_labels (length (hashtags t)) (concat (map label_bytes (hashtags t)) @ r) =
      Inr (hashtags t, r)" for r
    using lens by (simp add: read_labels_eq_Inr)
  show ?L
    using R lens un labels
    by (cases t) (simp add: decode_body_def body_bytes_def label_bytes_def take_bytes_def from_utf8_def
        MAX_LABEL_BYTES_def MAX_HASHTAGS_def Let_def del: rbind_eq_Inr ensure_eq_Inr)
qed

interpretation topics_body: strict_codec
  "\<lambda>(t, text). encode_body t text" decode_body "\<lambda>(t, text). wf_topics t \<and> is_utf8 text"
proof (unfold_locales, goal_cases)
  case (1 x b)
  then show ?case by (auto simp: encode_body_eq_Inr decode_body_eq_Inr)
next
  case (2 b x)
  then show ?case
    by (cases x) (auto simp: encode_body_eq_Inr decode_body_eq_Inr wf_topics_def Topics_validate_iff
        intro: label_ok_utf8)
qed

lemma body_bytes_length: "length text < 65536 \<Longrightarrow> length text + 4 \<le> length (body_bytes t text)"
  by (simp add: body_bytes_def label_bytes_def)

end
