(* ===== verification/Format.thy ===== *)
theory Format
  imports Topics
begin

section \<open>Record kinds and public records (\<^verbatim>\<open>urma-core/src/format.rs\<close>)\<close>

text \<open>
  The eight-byte record prefix with its kind byte, the private content types, the atomic public
  records with their encoder and decoder, and the number of chunks of a private object. The
  lemmas show that the prefix and the public records are strict codecs and that the chunk count
  is exact and never fails inside the bounds.
\<close>

definition MAGIC :: bytes where "MAGIC = [85, 82, 77, 65]"
definition VERSION :: u8 where "VERSION = 0"
definition PREFIX_BYTES :: nat where "PREFIX_BYTES = 8"
definition CHUNK_BYTES :: nat where "CHUNK_BYTES = 32768"
definition PRIVATE_HEADER_BYTES :: nat where "PRIVATE_HEADER_BYTES = 64"
definition METADATA_BYTES :: nat where "METADATA_BYTES = 48"
definition BODY_OFFSET :: nat where "BODY_OFFSET = 80"
definition BODY_BYTES :: nat where "BODY_BYTES = 32816"
definition MAC_OFFSET :: nat where "MAC_OFFSET = 32896"
definition PRIVATE_RECORD_BYTES :: nat where "PRIVATE_RECORD_BYTES = 32928"
definition MAX_PRIVATE_BYTES :: u64 where "MAX_PRIVATE_BYTES = 140737488322560"
definition MAX_PUBLIC_BYTES :: nat where "MAX_PUBLIC_BYTES = 32768"
definition MAX_PROFILE_BYTES :: nat where "MAX_PROFILE_BYTES = 128"
definition PROFILE_IDENTIFIER_BYTES :: nat where "PROFILE_IDENTIFIER_BYTES = 8"
definition AVATAR_SIDE :: nat where "AVATAR_SIDE = 16"
definition AVATAR_PIXELS :: nat where "AVATAR_PIXELS = AVATAR_SIDE * AVATAR_SIDE"
definition AVATAR_BYTES :: nat where "AVATAR_BYTES = AVATAR_PIXELS div 2"
definition AVATAR_PALETTE_LEN :: nat where "AVATAR_PALETTE_LEN = 16"
definition CONTAINER_HEADER_BYTES :: nat where "CONTAINER_HEADER_BYTES = 12"

lemmas format_consts [codec_simps] =
  MAGIC_def VERSION_def PREFIX_BYTES_def CHUNK_BYTES_def PRIVATE_HEADER_BYTES_def
  METADATA_BYTES_def BODY_OFFSET_def BODY_BYTES_def MAC_OFFSET_def PRIVATE_RECORD_BYTES_def
  MAX_PRIVATE_BYTES_def MAX_PUBLIC_BYTES_def MAX_PROFILE_BYTES_def PROFILE_IDENTIFIER_BYTES_def
  AVATAR_SIDE_def AVATAR_PIXELS_def AVATAR_BYTES_def AVATAR_PALETTE_LEN_def
  CONTAINER_HEADER_BYTES_def

subsection \<open>Kinds\<close>

datatype record_kind =
    Private | Post | Container | Reply | Profile | Avatar | DataPart | LeafManifest
  | RootManifest | WirePost | WireReply | ProfileRecord

fun RecordKind_byte :: "record_kind \<Rightarrow> u8" where
  "RecordKind_byte Private = 1"
| "RecordKind_byte Post = 2"
| "RecordKind_byte Container = 3"
| "RecordKind_byte Reply = 4"
| "RecordKind_byte Profile = 5"
| "RecordKind_byte Avatar = 6"
| "RecordKind_byte DataPart = 7"
| "RecordKind_byte LeafManifest = 8"
| "RecordKind_byte RootManifest = 9"
| "RecordKind_byte WirePost = 10"
| "RecordKind_byte WireReply = 11"
| "RecordKind_byte ProfileRecord = 12"

definition RecordKind_prefix :: "record_kind \<Rightarrow> bytes" where
  "RecordKind_prefix k = [85, 82, 77, 65, VERSION, RecordKind_byte k, 0, 0]"

definition kind_of_byte :: "u8 \<Rightarrow> error + record_kind" where
  "kind_of_byte b =
     (if b = 1 then Inr Private
      else if b = 2 then Inr Post
      else if b = 3 then Inr Container
      else if b = 4 then Inr Reply
      else if b = 5 then Inr Profile
      else if b = 6 then Inr Avatar
      else if b = 7 then Inr DataPart
      else if b = 8 then Inr LeafManifest
      else if b = 9 then Inr RootManifest
      else if b = 10 then Inr WirePost
      else if b = 11 then Inr WireReply
      else if b = 12 then Inr ProfileRecord
      else Inl (Unsupported (''unsupported URMA kind '' @ dec (unat b))))"

definition RecordKind_parse :: "bytes \<Rightarrow> error + record_kind" where
  "RecordKind_parse bs =
     ensure (PREFIX_BYTES \<le> length bs) (Invalid ''truncated URMA prefix'')
    (if take 4 bs \<noteq> MAGIC then Inl (Unsupported ''unsupported record marker'')
     else if bs ! 4 \<noteq> VERSION then Inl (Unsupported ''unsupported URMA version'')
     else if slice 6 8 bs \<noteq> [0, 0] then Inl (Unsupported ''unsupported URMA flags'')
     else kind_of_byte (bs ! 5))"

datatype content_type = Opaque | Text | Image | Audio | Video

fun ContentType_code :: "content_type \<Rightarrow> u32" where
  "ContentType_code Opaque = 0"
| "ContentType_code Text = 1"
| "ContentType_code Image = 2"
| "ContentType_code Audio = 3"
| "ContentType_code Video = 4"

definition ContentType_from_code :: "u32 \<Rightarrow> error + content_type" where
  "ContentType_from_code code =
     (if code = 0 then Inr Opaque
      else if code = 1 then Inr Text
      else if code = 2 then Inr Image
      else if code = 3 then Inr Audio
      else if code = 4 then Inr Video
      else Inl (Unsupported (''unsupported private content type '' @ dec (unat code))))"

subsection \<open>Public records\<close>

datatype public_record =
    Post bytes
  | Reply bytes bytes
  | Profile bytes
  | Avatar bytes
  | WirePost topics bytes
  | WireReply bytes topics bytes
  | ProfileRecord bytes bytes

fun PublicRecord_kind :: "public_record \<Rightarrow> record_kind" where
  "PublicRecord_kind (Post _) = record_kind.Post"
| "PublicRecord_kind (Reply _ _) = record_kind.Reply"
| "PublicRecord_kind (Profile _) = record_kind.Profile"
| "PublicRecord_kind (Avatar _) = record_kind.Avatar"
| "PublicRecord_kind (WirePost _ _) = record_kind.WirePost"
| "PublicRecord_kind (WireReply _ _ _) = record_kind.WireReply"
| "PublicRecord_kind (ProfileRecord _ _) = record_kind.ProfileRecord"

definition profile_body_error :: error where
  "profile_body_error = Invalid (''profile body exceeds '' @ dec MAX_PROFILE_BYTES @ '' UTF-8 bytes'')"

fun body_size :: "public_record \<Rightarrow> error + nat" where
  "body_size (Post text) = Inr (length text)"
| "body_size (Profile text) =
     ensure (length text \<le> MAX_PROFILE_BYTES) profile_body_error (Inr (length text))"
| "body_size (Reply target text) =
     ok_or (Invalid ''reply size overflow'') (checked_add_usize (length text) 32)"
| "body_size (Avatar pixels) = Inr (length pixels)"
| "body_size (ProfileRecord profile payload) =
     ok_or (Invalid ''profile record size overflow'')
       (checked_add_usize (length payload) PROFILE_IDENTIFIER_BYTES)"
| "body_size _ = Inl (Invalid ''structured record handled separately'')"

fun plain_body :: "public_record \<Rightarrow> error + bytes" where
  "plain_body (Post text) = Inr text"
| "plain_body (Profile text) = Inr text"
| "plain_body (Reply target text) = Inr (target @ text)"
| "plain_body (Avatar pixels) = Inr pixels"
| "plain_body (ProfileRecord profile payload) = Inr (profile @ payload)"
| "plain_body _ = Inl (Invalid ''structured record handled separately'')"

definition encode_structured :: "record_kind \<Rightarrow> bytes \<Rightarrow> topics \<Rightarrow> bytes \<Rightarrow> error + bytes" where
  "encode_structured kind target t text =
     rbind (encode_body t text) (\<lambda>body.
     let bs = RecordKind_prefix kind @ target @ body in
     ensure (length bs \<le> MAX_PUBLIC_BYTES) (Invalid ''public record exceeds 32 KiB'') (Inr bs))"

definition encode_plain :: "public_record \<Rightarrow> error + bytes" where
  "encode_plain r =
     rbind (body_size r) (\<lambda>n.
     ensure (n \<le> MAX_PUBLIC_BYTES - PREFIX_BYTES) (Invalid ''public record exceeds 32 KiB'')
    (rbind (plain_body r) (\<lambda>body.
     let bs = RecordKind_prefix (PublicRecord_kind r) @ body in
     ensure (length bs \<le> MAX_PUBLIC_BYTES) (Invalid ''public record exceeds 32 KiB'') (Inr bs))))"

definition PublicRecord_encode :: "public_record \<Rightarrow> error + bytes" where
  "PublicRecord_encode r =
     (case r of
        WirePost t text \<Rightarrow> encode_structured (PublicRecord_kind r) [] t text
      | WireReply target t text \<Rightarrow> encode_structured (PublicRecord_kind r) target t text
      | _ \<Rightarrow> encode_plain r)"

definition decode_public_body :: "record_kind \<Rightarrow> bytes \<Rightarrow> error + public_record" where
  "decode_public_body kind body =
     (case kind of
        record_kind.Post \<Rightarrow> rmap Post (from_utf8 body)
      | record_kind.Profile \<Rightarrow>
          ensure (length body \<le> MAX_PROFILE_BYTES) profile_body_error (rmap Profile (from_utf8 body))
      | record_kind.Reply \<Rightarrow>
          ensure (32 \<le> length body) (Invalid ''truncated reply target'')
            (rmap (Reply (take 32 body)) (from_utf8 (drop 32 body)))
      | record_kind.Avatar \<Rightarrow>
          ensure (length body = AVATAR_BYTES)
            (Invalid (''avatar body must contain exactly '' @ dec AVATAR_BYTES @ '' packed pixel bytes''))
            (Inr (Avatar body))
      | record_kind.ProfileRecord \<Rightarrow>
          ensure (PROFILE_IDENTIFIER_BYTES \<le> length body) (Invalid ''truncated profile identifier'')
            (Inr (ProfileRecord (take PROFILE_IDENTIFIER_BYTES body) (drop PROFILE_IDENTIFIER_BYTES body)))
      | record_kind.WirePost \<Rightarrow> rmap (\<lambda>(t, text). WirePost t text) (decode_body body)
      | record_kind.WireReply \<Rightarrow>
          ensure (32 \<le> length body) (Invalid ''truncated reply target'')
            (rmap (\<lambda>(t, text). WireReply (take 32 body) t text) (decode_body (drop 32 body)))
      | _ \<Rightarrow> Inl (Invalid ''not an atomic public record''))"

definition PublicRecord_decode :: "bytes \<Rightarrow> error + public_record" where
  "PublicRecord_decode bs =
     rbind (RecordKind_parse bs) (\<lambda>kind.
     ensure (length bs \<le> MAX_PUBLIC_BYTES) (Invalid ''public record exceeds 32 KiB'')
    (decode_public_body kind (drop PREFIX_BYTES bs)))"

definition chunk_count :: "u64 \<Rightarrow> error + u32" where
  "chunk_count len =
     ensure (1 \<le> len \<and> len \<le> MAX_PRIVATE_BYTES)
       (Invalid ''private length outside representational bounds'')
    (try_from (div_ceil (unat len) CHUNK_BYTES))"

text \<open>The invariant of the Rust type: array lengths and UTF-8 strings.\<close>

fun wf_public_record :: "public_record \<Rightarrow> bool" where
  "wf_public_record (Post text) = is_utf8 text"
| "wf_public_record (Reply target text) = (length target = 32 \<and> is_utf8 text)"
| "wf_public_record (Profile text) = is_utf8 text"
| "wf_public_record (Avatar pixels) = (length pixels = AVATAR_BYTES)"
| "wf_public_record (WirePost t text) = (wf_topics t \<and> is_utf8 text)"
| "wf_public_record (WireReply target t text) = (length target = 32 \<and> wf_topics t \<and> is_utf8 text)"
| "wf_public_record (ProfileRecord profile payload) = (length profile = 8)"

subsection \<open>The prefix\<close>

lemma length_RecordKind_prefix [simp]: "length (RecordKind_prefix k) = 8"
  by (simp add: RecordKind_prefix_def)

lemma kind_of_byte_eq_Inr: "kind_of_byte b = Inr k \<longleftrightarrow> b = RecordKind_byte k"
  by (cases k) (auto simp: kind_of_byte_def)

lemma list_8_cases:
  "8 \<le> length (bs :: 'a list) \<Longrightarrow> \<exists>b0 b1 b2 b3 b4 b5 b6 b7 r. bs = [b0, b1, b2, b3, b4, b5, b6, b7] @ r"
  by (auto simp: numeral_eq_Suc Suc_le_length_iff)

lemma RecordKind_parse_iff: "RecordKind_parse bs = Inr k \<longleftrightarrow> (\<exists>body. bs = RecordKind_prefix k @ body)"
proof
  assume parse: "RecordKind_parse bs = Inr k"
  then have "8 \<le> length bs" by (simp add: RecordKind_parse_def PREFIX_BYTES_def)
  then obtain b0 b1 b2 b3 b4 b5 b6 b7 r where "bs = [b0, b1, b2, b3, b4, b5, b6, b7] @ r"
    using list_8_cases by blast
  with parse show "\<exists>body. bs = RecordKind_prefix k @ body"
    by (auto simp: RecordKind_parse_def RecordKind_prefix_def slice_def format_consts
        kind_of_byte_eq_Inr numeral_eq_Suc split: if_splits)
next
  assume "\<exists>body. bs = RecordKind_prefix k @ body"
  then show "RecordKind_parse bs = Inr k"
    by (auto simp: RecordKind_parse_def RecordKind_prefix_def slice_def format_consts
        kind_of_byte_eq_Inr numeral_eq_Suc)
qed

lemma RecordKind_parse_prefix [simp]: "RecordKind_parse (RecordKind_prefix k @ body) = Inr k"
  by (auto simp: RecordKind_parse_iff)

lemma RecordKind_prefix_inject: "RecordKind_prefix k @ b = RecordKind_prefix k' @ b' \<longleftrightarrow> k = k' \<and> b = b'"
  using RecordKind_parse_prefix [of k b] RecordKind_parse_prefix [of k' b'] by (metis Inr_inject same_append_eq)

lemma ContentType_code_roundtrip: "ContentType_from_code code = Inr c \<longleftrightarrow> code = ContentType_code c"
  by (cases c) (auto simp: ContentType_from_code_def)

subsection \<open>Public records are a strict codec\<close>

text \<open>What the encoder demands of a well-formed record beyond its size, and the body it writes.\<close>

fun encodable :: "public_record \<Rightarrow> bool" where
  "encodable (Profile text) = (length text \<le> 128)"
| "encodable (WirePost t text) = (Topics_validate t = Inr ())"
| "encodable (WireReply target t text) = (Topics_validate t = Inr ())"
| "encodable _ = True"

fun public_body :: "public_record \<Rightarrow> bytes" where
  "public_body (Post text) = text"
| "public_body (Profile text) = text"
| "public_body (Reply target text) = target @ text"
| "public_body (Avatar pixels) = pixels"
| "public_body (ProfileRecord profile payload) = profile @ payload"
| "public_body (WirePost t text) = body_bytes t text"
| "public_body (WireReply target t text) = target @ body_bytes t text"

lemma body_bytes_text_length: "length text \<le> length (body_bytes t text)"
  by (simp add: body_bytes_def)

lemma decode_body_bounded:
  assumes "length b \<le> 32760"
  shows "decode_body b = Inr (t, text) \<longleftrightarrow>
    Topics_validate t = Inr () \<and> is_utf8 text \<and> b = body_bytes t text"
  using assms body_bytes_text_length [of "text" t] by (auto simp: decode_body_eq_Inr)

lemma PublicRecord_encode_eq_Inr:
  assumes "wf_public_record r"
  shows "PublicRecord_encode r = Inr b \<longleftrightarrow>
    encodable r \<and> length b \<le> 32768 \<and> b = RecordKind_prefix (PublicRecord_kind r) @ public_body r"
proof (cases r)
  case (WirePost t x)
  then show ?thesis
    using body_bytes_text_length [of x t]
    by (auto simp: PublicRecord_encode_def encode_structured_def encode_body_eq_Inr Let_def format_consts)
next
  case (WireReply target t x)
  then show ?thesis
    using body_bytes_text_length [of x t]
    by (auto simp: PublicRecord_encode_def encode_structured_def encode_body_eq_Inr Let_def format_consts)
qed (use assms in \<open>auto simp: PublicRecord_encode_def encode_plain_def format_consts checked_add_usize_def\<close>)

lemma decode_public_body_eq_Inr:
  assumes "length body \<le> 32760"
  shows "decode_public_body k body = Inr r \<longleftrightarrow>
    wf_public_record r \<and> encodable r \<and> PublicRecord_kind r = k \<and> body = public_body r"
proof (cases k)
  case Reply
  then show ?thesis
    by (cases r) (auto simp: decode_public_body_def)
next
  case ProfileRecord
  then show ?thesis
    by (cases r) (auto simp: decode_public_body_def format_consts)
next
  case WirePost
  with assms show ?thesis
    by (cases r) (auto simp: decode_public_body_def decode_body_bounded wf_topics_def
        Topics_validate_iff intro: label_ok_utf8)
next
  case WireReply
  with assms show ?thesis
    by (cases r) (auto simp: decode_public_body_def decode_body_bounded wf_topics_def
        Topics_validate_iff intro: label_ok_utf8 append_drop_eq)
qed (cases r; auto simp: decode_public_body_def format_consts)+

lemma PublicRecord_decode_eq_Inr:
  "PublicRecord_decode b = Inr r \<longleftrightarrow>
     wf_public_record r \<and> encodable r \<and> length b \<le> 32768 \<and>
     b = RecordKind_prefix (PublicRecord_kind r) @ public_body r"
  by (fastforce simp: PublicRecord_decode_def RecordKind_parse_iff decode_public_body_eq_Inr format_consts)

interpretation public_codec: strict_codec PublicRecord_encode PublicRecord_decode wf_public_record
proof (unfold_locales, goal_cases)
  case (1 x b)
  then show ?case by (auto simp: PublicRecord_encode_eq_Inr PublicRecord_decode_eq_Inr)
next
  case (2 b x)
  then show ?case by (auto simp: PublicRecord_encode_eq_Inr PublicRecord_decode_eq_Inr)
qed

subsection \<open>Chunks\<close>

lemma chunk_count_fits:
  assumes "len \<le> MAX_PRIVATE_BYTES"
  shows "div_ceil (unat len) CHUNK_BYTES < 2 ^ 32"
proof -
  from assms have "unat len \<le> 140737488322560" by (simp add: MAX_PRIVATE_BYTES_def word_le_nat_alt)
  then have "unat len \<le> 4294967295 * CHUNK_BYTES" by (simp add: CHUNK_BYTES_def)
  then have "div_ceil (unat len) CHUNK_BYTES \<le> 4294967295"
    by (subst div_ceil_le_iff) (simp_all add: CHUNK_BYTES_def)
  then show ?thesis by simp
qed

subsection \<open>Properties\<close>

text \<open>
  The record prefix parses to a kind exactly when the bytes start with the eight-byte prefix of
  that kind: marker, version 0, the kind byte and zero flags. Nothing else is accepted.
\<close>
theorem record_prefix_strict:
  "RecordKind_parse bs = Inr k \<longleftrightarrow> (\<exists>body. bs = RecordKind_prefix k @ body)"
  by (rule RecordKind_parse_iff)

text \<open>
  The public-record decoder accepts exactly the encodings of well-formed records and returns the
  record that was encoded: encode then decode is the identity and no record has a second accepted
  encoding.
\<close>
theorem public_record_codec:
  "PublicRecord_decode b = Inr r \<longleftrightarrow> wf_public_record r \<and> PublicRecord_encode r = Inr b"
  by (rule public_codec.decode_iff)

text \<open>
  Encoding a well-formed public record succeeds exactly when its profile text is at most 128
  bytes, its topics validate and the record fits 32 KiB, and then it is the prefix of its kind
  followed by the body; no other error can occur.
\<close>
theorem public_record_encode_total:
  assumes "wf_public_record r"
  shows "PublicRecord_encode r = Inr b \<longleftrightarrow>
    encodable r \<and> length b \<le> MAX_PUBLIC_BYTES \<and>
    b = RecordKind_prefix (PublicRecord_kind r) @ public_body r"
  using PublicRecord_encode_eq_Inr [OF assms] by (simp add: format_consts)

theorem public_record_encode_total_witness:
  "PublicRecord_encode (Post [104, 105]) = Inr [85, 82, 77, 65, 0, 2, 0, 0, 104, 105]"
proof -
  have "wf_public_record (Post [104, 105])" by simp
  from public_record_encode_total [OF this] show ?thesis
    by (simp add: RecordKind_prefix_def format_consts)
qed

text \<open>
  The chunk count of a private object is defined for exactly the lengths 1 to
  \<open>MAX_PRIVATE_BYTES\<close> and is then the least number of 32 KiB chunks that hold it; the conversion to
  32 bits never fails.
\<close>
theorem chunk_count_exact:
  "(chunk_count len = Inr n \<longleftrightarrow>
      1 \<le> len \<and> len \<le> MAX_PRIVATE_BYTES \<and> unat n = div_ceil (unat len) CHUNK_BYTES) \<and>
   ((\<exists>n. chunk_count len = Inr n) \<longleftrightarrow> 1 \<le> len \<and> len \<le> MAX_PRIVATE_BYTES)"
  using ex_unat [where 'a = 32] chunk_count_fits [of len]
  by (auto simp: chunk_count_def try_from_eq_Inr)

end
