(* ===== verification/Avatar.thy ===== *)
theory Avatar
  imports Format
begin

section \<open>Avatar pixels (\<^verbatim>\<open>urma-core/src/avatar.rs\<close>)\<close>

text \<open>
  Sixteen by sixteen palette indices, two to a byte, high nibble first. Packing and unpacking are
  inverse to each other and packing rejects exactly the indices outside the palette.
\<close>

unbundle bit_operations_syntax

definition unpack_byte :: "u8 \<Rightarrow> bytes" where
  "unpack_byte byte = [drop_bit 4 byte, byte AND 0x0F]"

definition decode_pixels :: "bytes \<Rightarrow> bytes" where
  "decode_pixels bs = concat (map unpack_byte bs)"

definition pack_pair :: "bytes \<Rightarrow> error + u8" where
  "pack_pair pair =
     ensure (unat (pair ! 0) < AVATAR_PALETTE_LEN \<and> unat (pair ! 1) < AVATAR_PALETTE_LEN)
       (Invalid ''avatar color indices must be in 0..=15'')
    (Inr (push_bit 4 (pair ! 0) OR (pair ! 1)))"

definition encode_pixels :: "bytes \<Rightarrow> error + bytes" where
  "encode_pixels pixels = rtraverse pack_pair (as_chunks 2 pixels)"

lemma pack_unpack: "pack_pair (unpack_byte b) = Inr b"
proof -
  have "unat (drop_bit 4 b) < 16"
    using unat_byte_less [of b] by (simp add: unat_drop_bit_eq drop_bit_nat_def del: unat_byte_less)
  moreover have low: "b AND 0x0F = take_bit 4 b" by (simp add: take_bit_eq_mask mask_numeral)
  moreover have "unat (take_bit 4 b) < 16" by (simp add: unsigned_take_bit_eq take_bit_nat_def)
  moreover have "push_bit 4 (drop_bit 4 b) OR take_bit 4 b = b"
    by (rule bit_word_eqI) (auto simp: bit_simps)
  ultimately show ?thesis by (simp add: pack_pair_def unpack_byte_def AVATAR_PALETTE_LEN_def)
qed

lemma nibble_bound: "unat (p :: u8) < 16 \<longleftrightarrow> take_bit 4 p = p"
proof -
  have "take_bit 4 p = p \<longleftrightarrow> unat (take_bit 4 p) = unat p" by (simp only: word_unat_eq_iff)
  also have "unat (take_bit 4 p) = unat p mod 16" by (simp add: unsigned_take_bit_eq take_bit_nat_def)
  finally show ?thesis by presburger
qed

lemma unpack_pack:
  assumes "pack_pair [p, q] = Inr b"
  shows "unpack_byte b = [p, q]"
proof -
  from assms have p: "take_bit 4 p = p" and q: "take_bit 4 q = q" and b: "b = push_bit 4 p OR q"
    by (auto simp: pack_pair_def AVATAR_PALETTE_LEN_def nibble_bound)
  have bits: "bit p n \<Longrightarrow> n < 4" "bit q n \<Longrightarrow> n < 4" for n
    using p q bit_take_bit_iff [of 4 p n] bit_take_bit_iff [of 4 q n] by simp_all
  have "drop_bit 4 b = p"
    by (rule bit_word_eqI) (auto simp: b bit_simps dest: bits)
  moreover have "b AND 0x0F = q"
  proof -
    have "b AND 0x0F = take_bit 4 b" by (simp add: take_bit_eq_mask mask_numeral)
    also have "\<dots> = q" by (rule bit_word_eqI) (auto simp: b bit_simps dest: bits)
    finally show ?thesis .
  qed
  ultimately show ?thesis by (simp add: unpack_byte_def)
qed

lemma as_chunks_decode_pixels: "as_chunks 2 (decode_pixels bs) = map unpack_byte bs"
  unfolding decode_pixels_def by (rule as_chunks_concat) (auto simp: unpack_byte_def)

lemma encode_decode_pixels: "encode_pixels (decode_pixels bs) = Inr bs"
proof -
  have "rtraverse pack_pair (map unpack_byte bs) = Inr bs"
    by (simp add: rtraverse_eq_Inr list_all2_map1 pack_unpack list.rel_refl)
  then show ?thesis by (simp add: encode_pixels_def as_chunks_decode_pixels)
qed

lemma decode_encode_pixels:
  assumes "length pixels = 2 * n" and "encode_pixels pixels = Inr bs"
  shows "decode_pixels bs = pixels"
proof -
  have pairs: "list_all2 (\<lambda>c b. pack_pair c = Inr b) (as_chunks 2 pixels) bs"
    using assms(2) by (simp add: encode_pixels_def rtraverse_eq_Inr)
  have "list_all2 (\<lambda>c b. unpack_byte b = c) (as_chunks 2 pixels) bs"
    using pairs
  proof (rule list.rel_mono_strong)
    fix c b assume c: "c \<in> set (as_chunks 2 pixels)" "pack_pair c = Inr b"
    from as_chunks_lengths [OF c(1)] obtain p q where "c = [p, q]"
      by (auto simp: numeral_2_eq_2 length_Suc_conv)
    with c(2) show "unpack_byte b = c" using unpack_pack by simp
  qed
  then have "map unpack_byte bs = as_chunks 2 pixels"
    by (induction rule: list_all2_induct) simp_all
  then show ?thesis using concat_as_chunks [of 2 pixels n] assms(1) by (simp add: decode_pixels_def)
qed

text \<open>
  Packing inverts unpacking on every byte string, and unpacking a packed 16 by 16 image gives
  the image back.
\<close>
theorem avatar_roundtrip:
  "encode_pixels (decode_pixels bs) = Inr bs \<and>
   (length pixels = AVATAR_PIXELS \<longrightarrow> encode_pixels pixels = Inr bs \<longrightarrow> decode_pixels bs = pixels)"
  using encode_decode_pixels decode_encode_pixels [of pixels 128] by (simp add: format_consts)

theorem avatar_roundtrip_witness:
  "decode_pixels (replicate 128 0x5A) = concat (replicate 128 [5, 10])"
proof -
  have "encode_pixels (concat (replicate n [5, 10])) = Inr (replicate n 0x5A)" for n
  proof -
    have "as_chunks 2 (concat (replicate n [5, 10 :: u8])) = replicate n [5, 10]"
      by (rule as_chunks_concat) auto
    moreover have "pack_pair [5, 10] = Inr 0x5A" by (simp add: pack_pair_def AVATAR_PALETTE_LEN_def)
    then have "rtraverse pack_pair (replicate n [5, 10]) = Inr (replicate n 0x5A)"
      by (induction n) simp_all
    ultimately show ?thesis by (simp add: encode_pixels_def)
  qed
  note encoded = this [of 128]
  have "length (concat (replicate n [5, 10 :: u8])) = 2 * n" for n
    by (induction n) simp_all
  from this [of 128] have "length (concat (replicate 128 [5, 10 :: u8])) = AVATAR_PIXELS"
    by (simp only: format_consts)
  from avatar_roundtrip [THEN conjunct2, THEN mp, OF this, THEN mp, OF encoded]
  show ?thesis .
qed

end
