(* ===== verification/Ordered_Map.thy ===== *)
theory Ordered_Map
  imports Prelude
begin

section \<open>Ordered maps: what the code uses of \<open>BTreeMap\<close>\<close>

text \<open>
  A \<open>BTreeMap\<close> whose iteration order the code observes is the list of its entries in ascending key
  order, one entry per key. The locale states what the clients rely on: a lookup after an insertion
  or a removal, and the order of the entries. Maps that are only looked up and updated are partial
  functions in the rest of the development.
\<close>

fun bt_insert :: "'k::linorder \<Rightarrow> 'v \<Rightarrow> ('k \<times> 'v) list \<Rightarrow> ('k \<times> 'v) list" where
  "bt_insert k v [] = [(k, v)]"
| "bt_insert k v ((k', v') # m) =
     (if k < k' then (k, v) # (k', v') # m
      else if k = k' then (k, v) # m
      else (k', v') # bt_insert k v m)"

definition bt_get :: "('k \<times> 'v) list \<Rightarrow> 'k \<Rightarrow> 'v option" where
  "bt_get m k = map_of m k"

definition bt_remove :: "'k \<Rightarrow> ('k \<times> 'v) list \<Rightarrow> ('k \<times> 'v) list" where
  "bt_remove k m = filter (\<lambda>(k', _). k' \<noteq> k) m"

definition bt_retain :: "('k \<Rightarrow> 'v \<Rightarrow> bool) \<Rightarrow> ('k \<times> 'v) list \<Rightarrow> ('k \<times> 'v) list" where
  "bt_retain p m = filter (\<lambda>(k, v). p k v) m"

definition bt_inv :: "('k::linorder \<times> 'v) list \<Rightarrow> bool" where
  "bt_inv m \<longleftrightarrow> sorted_wrt (<) (map fst m)"

locale ordered_map =
  fixes insert :: "'k::linorder \<Rightarrow> 'v \<Rightarrow> 'm \<Rightarrow> 'm"
    and remove :: "'k \<Rightarrow> 'm \<Rightarrow> 'm"
    and get :: "'m \<Rightarrow> 'k \<Rightarrow> 'v option"
    and entries :: "'m \<Rightarrow> ('k \<times> 'v) list"
    and inv :: "'m \<Rightarrow> bool"
  assumes get_insert: "inv m \<Longrightarrow> get (insert k v m) = (get m)(k \<mapsto> v)"
    and get_remove: "inv m \<Longrightarrow> get (remove k m) = (get m)(k := None)"
    and inv_insert: "inv m \<Longrightarrow> inv (insert k v m)"
    and inv_remove: "inv m \<Longrightarrow> inv (remove k m)"
    and get_entries: "inv m \<Longrightarrow> get m k = Some v \<longleftrightarrow> (k, v) \<in> set (entries m)"
    and entries_sorted: "inv m \<Longrightarrow> sorted_wrt (<) (map fst (entries m))"
begin

lemma entries_distinct: "inv m \<Longrightarrow> distinct (map fst (entries m))"
  using entries_sorted by (simp add: strict_sorted_iff)

lemma keys_dom: "inv m \<Longrightarrow> fst ` set (entries m) = dom (get m)"
  using get_entries by (force simp: dom_def)

lemma size_dom: "inv m \<Longrightarrow> length (entries m) = card (dom (get m))"
  using entries_distinct keys_dom by (metis distinct_card length_map list.set_map)

lemma insert_fresh_size:
  "inv m \<Longrightarrow> get m k = None \<Longrightarrow> length (entries (insert k v m)) = Suc (length (entries m))"
proof -
  assume m: "inv m" "get m k = None"
  have "finite (dom (get m))" using keys_dom [OF m(1)] by (metis finite_imageI finite_set)
  then have "card (dom ((get m)(k \<mapsto> v))) = Suc (card (dom (get m)))"
    using m(2) by (simp add: domIff)
  then show ?thesis using size_dom [OF inv_insert [OF m(1)]] size_dom [OF m(1)] get_insert [OF m(1)] by simp
qed

end

lemma bt_insert_keys: "fst ` set (bt_insert k v m) = insert k (fst ` set m)"
  by (induction k v m rule: bt_insert.induct) auto

lemma bt_inv_Cons: "bt_inv ((k, v) # m) \<longleftrightarrow> (\<forall>k' \<in> fst ` set m. k < k') \<and> bt_inv m"
  by (simp add: bt_inv_def)

lemma bt_inv_Nil [simp]: "bt_inv []"
  by (simp add: bt_inv_def)

lemma bt_inv_insert: "bt_inv m \<Longrightarrow> bt_inv (bt_insert k v m)"
proof (induction k v m rule: bt_insert.induct)
  case (2 k v k' v' m)
  then show ?case by (auto simp: bt_inv_Cons bt_insert_keys simp del: set_map)
qed (simp add: bt_inv_def)

lemma bt_get_insert: "bt_inv m \<Longrightarrow> bt_get (bt_insert k v m) = (bt_get m)(k \<mapsto> v)"
proof (induction k v m rule: bt_insert.induct)
  case (2 k v k' v' m)
  then show ?case by (auto simp: bt_inv_Cons bt_get_def fun_eq_iff)
qed (simp add: bt_get_def fun_eq_iff)

lemma bt_get_filter: "bt_get (filter (\<lambda>(k, v). p k) m) k = (if p k then bt_get m k else None)"
  by (induction m) (auto simp: bt_get_def)

lemma bt_inv_filter: "bt_inv m \<Longrightarrow> bt_inv (filter p m)"
  by (induction m) (auto simp: bt_inv_Cons)

lemma bt_get_remove: "bt_get (bt_remove k m) = (bt_get m)(k := None)"
  using bt_get_filter [of "\<lambda>k'. k' \<noteq> k" m] by (auto simp: bt_remove_def fun_eq_iff)

lemma bt_inv_distinct: "bt_inv m \<Longrightarrow> distinct (map fst m)"
  by (simp add: bt_inv_def strict_sorted_iff)

interpretation btree: ordered_map bt_insert bt_remove bt_get "\<lambda>m. m" bt_inv
proof (unfold_locales, goal_cases)
  case 4
  then show ?case unfolding bt_remove_def by (rule bt_inv_filter)
next
  case (5 m k v)
  then show ?case by (simp add: bt_get_def map_of_eq_Some_iff bt_inv_distinct)
next
  case 6
  then show ?case by (simp add: bt_inv_def)
qed (simp_all add: bt_get_insert bt_get_remove bt_inv_insert)

end
