(* ===== verification/Container.thy ===== *)
theory Container
  imports Format Ordered_Map Codec
begin

section \<open>Private objects and their offline container (\<^verbatim>\<open>urma-core/src/container.rs\<close>)\<close>

text \<open>
  Sealing of a private object into authenticated records of one size, opening of one record, the
  collector that puts the chunks of an object together again, and the offline container with its
  tolerant recovery.

  HKDF, HMAC, AES-CTR and SHA-256 are third-party code: the record \<open>crypto\<close> holds what the code
  calls of them. \<open>fill\<close> is the caller's random generator, a function from its state that may fail.
  Reserving memory (\<open>try_reserve_exact\<close>) is taken to succeed, and \<open>usize\<close> has 64 bits.
\<close>

record crypto =
  k_hkdf :: "bytes \<Rightarrow> bytes \<Rightarrow> bytes \<Rightarrow> nat \<Rightarrow> bytes option" \<comment> \<open>salt, key material, info, output length\<close>
  k_hmac :: "bytes \<Rightarrow> (bytes \<Rightarrow> bytes) option" \<comment> \<open>key; then the tag of a message\<close>
  k_aes_ctr :: "bytes \<Rightarrow> bytes \<Rightarrow> nat \<Rightarrow> bytes" \<comment> \<open>key, counter block, number of keystream bytes\<close>
  k_sha256 :: "bytes \<Rightarrow> bytes"

type_synonym 'r fill = "'r \<Rightarrow> nat \<Rightarrow> (bytes \<times> 'r) option"

text \<open>The output sizes that the types of those functions fix.\<close>

definition crypto_ok :: "crypto \<Rightarrow> bool" where
  "crypto_ok c \<longleftrightarrow>
     (\<forall>salt key info n out. k_hkdf c salt key info n = Some out \<longrightarrow> length out = n) \<and>
     (\<forall>key mac m. k_hmac c key = Some mac \<longrightarrow> length (mac m) = 32) \<and>
     (\<forall>key iv n. length (k_aes_ctr c key iv n) = n) \<and>
     (\<forall>m. length (k_sha256 c m) = 32)"

definition fill_ok :: "'r fill \<Rightarrow> bool" where
  "fill_ok fill \<longleftrightarrow> (\<forall>rng n bs rng'. fill rng n = Some (bs, rng') \<longrightarrow> length bs = n)"

subsection \<open>Keys\<close>

definition ascii :: "string \<Rightarrow> bytes" where
  "ascii s = map of_char s"

definition CONTENT_DOMAIN :: bytes where "CONTENT_DOMAIN = ascii ''URMA/V0/private/content''"
definition AUTHENTICATION_DOMAIN :: bytes where "AUTHENTICATION_DOMAIN = ascii ''URMA/V0/private/authentication''"
definition DISCOVERY_DOMAIN :: bytes where "DISCOVERY_DOMAIN = ascii ''URMA/V0/private/discovery''"

definition random_secret :: "'r fill \<Rightarrow> 'r \<Rightarrow> error + bytes \<times> 'r" where
  "random_secret fill rng = ok_or Random (fill rng 32)"

definition derive :: "crypto \<Rightarrow> bytes \<Rightarrow> bytes \<Rightarrow> bytes \<Rightarrow> nat \<Rightarrow> error + bytes" where
  "derive c root oid purpose n = ok_or Kdf (k_hkdf c oid root purpose n)"

definition discovery_tag :: "crypto \<Rightarrow> bytes \<Rightarrow> bytes \<Rightarrow> error + bytes" where
  "discovery_tag c root oid = derive c root oid DISCOVERY_DOMAIN 16"

definition cipher :: "crypto \<Rightarrow> bytes \<Rightarrow> bytes \<Rightarrow> bytes \<Rightarrow> error + (nat \<Rightarrow> bytes)" where
  "cipher c root oid iv = rmap (\<lambda>key. k_aes_ctr c key iv) (derive c root oid CONTENT_DOMAIN 32)"

definition apply_keystream :: "(nat \<Rightarrow> bytes) \<Rightarrow> bytes \<Rightarrow> bytes" where
  "apply_keystream ks body = map2 xor body (ks (length body))"

definition nonce :: "u32 \<Rightarrow> bytes" where
  "nonce index = to_be_bytes (ucast index :: u64) @ replicate 8 0"

definition authenticator :: "crypto \<Rightarrow> bytes \<Rightarrow> bytes \<Rightarrow> error + (bytes \<Rightarrow> bytes)" where
  "authenticator c root oid =
     rbind (derive c root oid AUTHENTICATION_DOMAIN 32) (\<lambda>key. ok_or CipherKey (k_hmac c key))"

subsection \<open>Sealing\<close>

record private_record_header =
  prh_id :: bytes
  prh_discovery_tag :: bytes
  prh_index :: u32
  prh_count :: u32

definition header_bytes :: "private_record_header \<Rightarrow> bytes" where
  "header_bytes h =
     RecordKind_prefix Private @ prh_id h @ prh_discovery_tag h @ to_le_bytes (prh_index h) @ to_le_bytes (prh_count h)"

definition body_plain :: "bytes \<Rightarrow> u64 \<Rightarrow> content_type \<Rightarrow> bytes \<Rightarrow> bytes \<Rightarrow> bytes" where
  "body_plain digest whole ct chunk padding =
     digest @ to_le_bytes whole @ to_le_bytes (ContentType_code ct) @ [0, 0, 0, 0] @ chunk @ padding"

text \<open>The body of the loop over the chunks of the plaintext.\<close>

definition seal_record ::
  "crypto \<Rightarrow> 'r fill \<Rightarrow> bytes \<Rightarrow> bytes \<Rightarrow> bytes \<Rightarrow> bytes \<Rightarrow> content_type \<Rightarrow> u32 \<Rightarrow> bytes \<Rightarrow>
   'r \<Rightarrow> nat \<Rightarrow> bytes \<Rightarrow> error + bytes \<times> 'r" where
  "seal_record c fill root oid tag plaintext ct count digest rng position chunk =
     rbind (try_from position) (\<lambda>index.
     let header = header_bytes \<lparr>prh_id = oid, prh_discovery_tag = tag, prh_index = index, prh_count = count\<rparr>;
         iv = nonce index in
     rbind (try_from (length plaintext)) (\<lambda>whole.
     rbind (ok_or Random (fill rng (BODY_BYTES - (METADATA_BYTES + length chunk)))) (\<lambda>(padding, rng').
     rbind (cipher c root oid iv) (\<lambda>ks.
     let record = header @ iv @ apply_keystream ks (body_plain digest whole ct chunk padding) in
     rbind (authenticator c root oid) (\<lambda>mac. Inr (record @ mac record, rng'))))))"

fun seal_chunks ::
  "crypto \<Rightarrow> 'r fill \<Rightarrow> bytes \<Rightarrow> bytes \<Rightarrow> bytes \<Rightarrow> bytes \<Rightarrow> content_type \<Rightarrow> u32 \<Rightarrow> bytes \<Rightarrow>
   'r \<Rightarrow> nat \<Rightarrow> bytes list \<Rightarrow> error + bytes list \<times> 'r" where
  "seal_chunks c fill root oid tag plaintext ct count digest rng position [] = Inr ([], rng)"
| "seal_chunks c fill root oid tag plaintext ct count digest rng position (chunk # rest) =
     rbind (seal_record c fill root oid tag plaintext ct count digest rng position chunk) (\<lambda>(record, rng').
     rbind (seal_chunks c fill root oid tag plaintext ct count digest rng' (Suc position) rest) (\<lambda>(records, rng'').
     Inr (record # records, rng'')))"

definition seal ::
  "crypto \<Rightarrow> 'r fill \<Rightarrow> bytes \<Rightarrow> bytes \<Rightarrow> content_type \<Rightarrow> 'r \<Rightarrow> error + bytes list \<times> 'r" where
  "seal c fill root plaintext ct rng =
     rbind (try_from (length plaintext)) (\<lambda>len.
     rbind (chunk_count len) (\<lambda>count.
     rbind (random_secret fill rng) (\<lambda>(oid, rng').
     rbind (discovery_tag c root oid) (\<lambda>tag.
     seal_chunks c fill root oid tag plaintext ct count (k_sha256 c plaintext) rng' 0
       (chunks CHUNK_BYTES plaintext)))))"

subsection \<open>Opening one record\<close>

record private_chunk =
  pc_id :: bytes
  pc_index :: u32
  pc_count :: u32
  pc_total :: u64
  pc_digest :: bytes
  pc_content_type :: content_type
  pc_bytes :: bytes
  pc_record_digest :: bytes

datatype record_match = Unrelated | Authenticated private_chunk

definition inspect_header :: "bytes \<Rightarrow> error + private_record_header" where
  "inspect_header record =
     ensure (length record = PRIVATE_RECORD_BYTES) (Invalid ''invalid private record length'')
    (rbind (RecordKind_parse record) (\<lambda>kind.
     ensure (kind = Private) (Invalid ''not a private record'')
    (let header = \<lparr>prh_id = slice 8 40 record, prh_discovery_tag = slice 40 56 record,
                   prh_index = from_le_bytes (slice 56 60 record),
                   prh_count = from_le_bytes (slice 60 64 record)\<rparr> in
     ensure (0 < prh_count header \<and> prh_index header < prh_count header) (Invalid ''invalid chunk bounds'')
     (Inr header))))"

text \<open>What follows the authentication: the decrypted body is read.\<close>

definition read_body :: "crypto \<Rightarrow> private_record_header \<Rightarrow> bytes \<Rightarrow> bytes \<Rightarrow> error + record_match" where
  "read_body c header record body =
     (let whole = from_le_bytes (slice 32 40 body) in
      rbind (chunk_count whole) (\<lambda>count.
      ensure (count = prh_count header) (Invalid ''chunk count does not match encrypted file length'')
     (rbind (ContentType_from_code (from_le_bytes (slice 40 44 body))) (\<lambda>ct.
      if slice 44 48 body \<noteq> [0, 0, 0, 0] then Inl (Unsupported ''unsupported private metadata flags'')
      else
        rbind (context_opt ''chunk offset exceeds original length''
                 (checked_sub whole (ucast (prh_index header) * word_of_nat CHUNK_BYTES))) (\<lambda>remaining.
        let size = unat (min remaining (word_of_nat CHUNK_BYTES)) in
        Inr (Authenticated
          \<lparr>pc_id = prh_id header, pc_index = prh_index header, pc_count = prh_count header, pc_total = whole,
           pc_digest = take 32 body, pc_content_type = ct,
           pc_bytes = slice METADATA_BYTES (METADATA_BYTES + size) body,
           pc_record_digest = k_sha256 c record\<rparr>))))))"

definition open_record :: "crypto \<Rightarrow> bytes \<Rightarrow> bytes \<Rightarrow> error + record_match" where
  "open_record c root record =
     (if take (length MAGIC) record \<noteq> MAGIC then Inr Unrelated
      else rbind (RecordKind_parse record) (\<lambda>kind.
      if kind \<noteq> Private then Inr Unrelated
      else rbind (inspect_header record) (\<lambda>header.
      rbind (discovery_tag c root (prh_id header)) (\<lambda>tag.
      if prh_discovery_tag header \<noteq> tag then Inr Unrelated
      else
        rbind (authenticator c root (prh_id header)) (\<lambda>mac.
        if mac (take MAC_OFFSET record) \<noteq> drop MAC_OFFSET record
        then Inl (Invalid (''record authentication failed: '' @ ''MAC tag mismatch''))
        else
          let iv = nonce (prh_index header) in
          ensure (slice PRIVATE_HEADER_BYTES BODY_OFFSET record = iv) (Invalid ''noncanonical counter IV'')
         (rbind (cipher c root (prh_id header) iv) (\<lambda>ks.
          read_body c header record (apply_keystream ks (slice BODY_OFFSET MAC_OFFSET record))))))))) "

subsection \<open>Collecting the chunks of an object\<close>

record private_object =
  po_id :: bytes
  po_count :: u32
  po_total :: u64
  po_content_type :: content_type
  po_digest :: bytes
  po_chunks :: "(u32 \<times> private_chunk) list"
  po_conflict :: bool

definition PrivateObject_new :: "private_chunk \<Rightarrow> private_object" where
  "PrivateObject_new chunk =
     \<lparr>po_id = pc_id chunk, po_count = pc_count chunk, po_total = pc_total chunk,
      po_content_type = pc_content_type chunk, po_digest = pc_digest chunk,
      po_chunks = [(pc_index chunk, chunk)], po_conflict = False\<rparr>"

definition PrivateObject_insert :: "private_object \<Rightarrow> private_chunk \<Rightarrow> (error + unit) \<times> private_object" where
  "PrivateObject_insert ob chunk =
     (if po_id ob \<noteq> pc_id chunk \<or> po_count ob \<noteq> pc_count chunk \<or> po_total ob \<noteq> pc_total chunk \<or>
         po_digest ob \<noteq> pc_digest chunk \<or> po_content_type ob \<noteq> pc_content_type chunk
      then (Inl (Invalid ''conflicting authenticated object metadata''), ob\<lparr>po_conflict := True\<rparr>)
      else case bt_get (po_chunks ob) (pc_index chunk) of
          Some previous \<Rightarrow>
            if pc_record_digest previous \<noteq> pc_record_digest chunk
            then (Inl (Invalid ''conflicting authenticated record''), ob\<lparr>po_conflict := True\<rparr>)
            else (Inr (), ob)
        | None \<Rightarrow> (Inr (), ob\<lparr>po_chunks := bt_insert (pc_index chunk) chunk (po_chunks ob)\<rparr>))"

definition received :: "private_object \<Rightarrow> nat" where
  "received ob = length (po_chunks ob)"

definition is_conflicted :: "private_object \<Rightarrow> bool" where
  "is_conflicted ob = po_conflict ob"

definition PrivateObject_is_complete :: "private_object \<Rightarrow> error + bool" where
  "PrivateObject_is_complete ob =
     (case try_from (length (po_chunks ob)) of
        Inr count \<Rightarrow> Inr (\<not> po_conflict ob \<and> count = po_count ob)
      | Inl e \<Rightarrow> Inl (Panic ''chunk map exceeds u32 key space''))"

definition PrivateObject_finish :: "crypto \<Rightarrow> private_object \<Rightarrow> error + bytes" where
  "PrivateObject_finish c ob =
     ensure (\<not> po_conflict ob) (Invalid ''conflicting authenticated object'')
    (rbind (try_from (length (po_chunks ob))) (\<lambda>count.
     ensure (count = po_count ob)
       (Invalid (''incomplete object: '' @ dec (length (po_chunks ob)) @ '' of '' @ dec (unat (po_count ob)) @ '' chunks''))
    (rbind (rtraverse (\<lambda>i. rmap pc_bytes (context_opt ''missing chunk'' (bt_get (po_chunks ob) (word_of_nat i))))
              [0..<unat (po_count ob)]) (\<lambda>parts.
     let bs = concat parts in
     rbind (try_from (length bs)) (\<lambda>len.
     ensure (len = po_total ob \<and> k_sha256 c bs = po_digest ob) (Invalid ''whole-file integrity failed'')
     (Inr bs))))))"

definition required_chunk :: "crypto \<Rightarrow> bytes \<Rightarrow> bytes \<Rightarrow> error + private_chunk" where
  "required_chunk c root record =
     rbind (open_record c root record) (\<lambda>m.
     case m of Authenticated chunk \<Rightarrow> Inr chunk | Unrelated \<Rightarrow> Inl (Invalid ''wrong key or unrelated record''))"

fun collect :: "crypto \<Rightarrow> bytes \<Rightarrow> private_object \<Rightarrow> bytes list \<Rightarrow> error + private_object" where
  "collect c root ob [] = Inr ob"
| "collect c root ob (record # rest) =
     rbind (required_chunk c root record) (\<lambda>chunk.
     case PrivateObject_insert ob chunk of
       (Inl e, ob') \<Rightarrow> Inl e
     | (Inr _, ob') \<Rightarrow> collect c root ob' rest)"

definition open_object :: "crypto \<Rightarrow> bytes \<Rightarrow> bytes list \<Rightarrow> error + bytes" where
  "open_object c root records =
     (case records of
        [] \<Rightarrow> Inl (Missing ''no records'')
      | first # rest \<Rightarrow>
          rbind (required_chunk c root first) (\<lambda>chunk.
          rbind (collect c root (PrivateObject_new chunk) rest) (\<lambda>ob.
          PrivateObject_finish c ob)))"

subsection \<open>The offline container\<close>

definition pack_record :: "bytes \<Rightarrow> bytes \<Rightarrow> error + bytes" where
  "pack_record oid record =
     rbind (inspect_header record) (\<lambda>header.
     ensure (prh_id header = oid) (Invalid ''mixed objects'')
    (rbind (try_from (length record)) (\<lambda>len. Inr (to_le_bytes (len :: u32) @ record))))"

definition pack :: "bytes list \<Rightarrow> error + bytes" where
  "pack records =
     rbind (try_from (length records)) (\<lambda>count.
     ensure (0 < (count :: u32)) (Invalid ''empty container'')
    (rbind (inspect_header (hd records)) (\<lambda>first.
     rbind (context_opt ''container size overflow''
              (Option.bind (checked_mul_usize (length records) (PRIVATE_RECORD_BYTES + 4))
                 (\<lambda>n. checked_add_usize n CONTAINER_HEADER_BYTES))) (\<lambda>capacity.
     rbind (rtraverse (pack_record (prh_id first)) records) (\<lambda>entries.
     Inr (RecordKind_prefix Container @ to_le_bytes count @ concat entries))))))"

definition framed_records :: "bytes \<Rightarrow> error + bytes list" where
  "framed_records bs =
     rbind (RecordKind_parse bs) (\<lambda>kind.
     ensure (kind = Container) (Invalid ''not an offline container'')
    (ensure (CONTAINER_HEADER_BYTES \<le> length bs) (Invalid ''truncated container'')
    (let count = unat (from_le_bytes (slice 8 12 bs) :: u32) in
     ensure (0 < count) (Invalid ''empty container'')
    (rbind (context_opt ''container size overflow''
              (Option.bind (checked_mul_usize count (PRIVATE_RECORD_BYTES + 4))
                 (\<lambda>n. checked_add_usize n CONTAINER_HEADER_BYTES))) (\<lambda>size.
     ensure (length bs = size) (Invalid ''truncated or trailing container data'')
     (Inr (as_chunks (PRIVATE_RECORD_BYTES + 4) (drop CONTAINER_HEADER_BYTES bs))))))))"

definition framed_record :: "bytes \<Rightarrow> error + bytes" where
  "framed_record entry =
     rbind (try_from PRIVATE_RECORD_BYTES) (\<lambda>len.
     ensure (from_le_bytes (take 4 entry) = (len :: u32)) (Invalid ''invalid container record length'')
     (Inr (drop 4 entry)))"

definition unpack :: "bytes \<Rightarrow> error + bytes list" where
  "unpack bs =
     rbind (framed_records bs) (\<lambda>entries.
     rbind (rtraverse (\<lambda>entry. rbind (framed_record entry) (\<lambda>record.
              rbind (inspect_header record) (\<lambda>_. Inr record))) entries) (\<lambda>records.
     rbind (inspect_header (hd records)) (\<lambda>first.
     rbind (rtraverse (\<lambda>record. rbind (inspect_header record) (\<lambda>header.
              ensure (prh_id header = prh_id first) (Invalid ''mixed objects'') (Inr ()))) records) (\<lambda>_.
     Inr records))))"

subsection \<open>Tolerant recovery\<close>

record container_recovery =
  rec_id :: bytes
  rec_count :: u32
  rec_total :: u64
  rec_digest :: bytes
  rec_content_type :: content_type
  rec_bytes :: bytes
  rec_skipped_unrelated :: nat
  rec_rejected_records :: nat

datatype recovery_record = Matched record_match | Rejected string

definition classify_rejection :: "error \<Rightarrow> error + recovery_record" where
  "classify_rejection e =
     (case e of
        Invalid reason \<Rightarrow> Inr (Rejected reason)
      | Unsupported reason \<Rightarrow> Inr (Rejected reason)
      | fatal \<Rightarrow> Inl fatal)"

definition recover_record :: "crypto \<Rightarrow> bytes \<Rightarrow> bytes \<Rightarrow> error + recovery_record" where
  "recover_record c root record =
     (case open_record c root record of
        Inr matched \<Rightarrow> Inr (Matched matched)
      | Inl e \<Rightarrow> classify_rejection e)"

text \<open>One turn of the loop over the entries: the objects by identifier and the two counters.\<close>

definition recover_entry ::
  "crypto \<Rightarrow> bytes \<Rightarrow> (bytes \<times> private_object) list \<times> nat \<times> nat \<Rightarrow> bytes \<Rightarrow>
   error + (bytes \<times> private_object) list \<times> nat \<times> nat" where
  "recover_entry c root s entry =
     (case s of (objects, skipped, rejected) \<Rightarrow>
      rbind (recover_record c root (drop 4 entry)) (\<lambda>r.
      case r of
        Matched Unrelated \<Rightarrow> Inr (objects, Suc skipped, rejected)
      | Rejected reason \<Rightarrow> Inr (objects, skipped, Suc rejected)
      | Matched (Authenticated chunk) \<Rightarrow>
          rbind (case bt_get objects (pc_id chunk) of
                   None \<Rightarrow> Inr (PrivateObject_new chunk)
                 | Some ob \<Rightarrow>
                     (case PrivateObject_insert ob chunk of
                        (Inl e, ob') \<Rightarrow> Inl e
                      | (Inr _, ob') \<Rightarrow> Inr ob')) (\<lambda>ob.
          let objects' = bt_insert (pc_id chunk) ob objects in
          ensure (length objects' = 1) (Invalid ''multiple authenticated objects'')
          (Inr (objects', skipped, rejected)))))"

definition recover_container :: "crypto \<Rightarrow> bytes \<Rightarrow> bytes \<Rightarrow> error + container_recovery" where
  "recover_container c root bs =
     rbind (framed_records bs) (\<lambda>entries.
     rbind (rtraverse framed_record entries) (\<lambda>_.
     rbind (rfold (recover_entry c root) ([], 0, 0) entries) (\<lambda>(objects, skipped, rejected).
     case objects of
       [] \<Rightarrow> Inl (Invalid ''no authenticated object'')
     | (_, ob) # _ \<Rightarrow>
         rbind (PrivateObject_finish c ob) (\<lambda>payload.
         Inr \<lparr>rec_id = po_id ob, rec_count = po_count ob, rec_total = po_total ob, rec_digest = po_digest ob,
              rec_content_type = po_content_type ob, rec_bytes = payload,
              rec_skipped_unrelated = skipped, rec_rejected_records = rejected\<rparr>))))"

subsection \<open>Headers\<close>

lemma inspect_header_iff:
  "inspect_header r = Inr h \<longleftrightarrow>
     length r = 32928 \<and> (\<exists>rest. r = header_bytes h @ rest) \<and>
     length (prh_id h) = 32 \<and> length (prh_discovery_tag h) = 16 \<and> prh_index h < prh_count h"
proof
  assume *: "inspect_header r = Inr h"
  then have len: "length r = 32928" and "RecordKind_parse r = Inr Private"
    by (auto simp: inspect_header_def format_consts)
  then obtain body where "r = RecordKind_prefix Private @ body" by (auto simp: RecordKind_parse_iff)
  then have "slice 0 8 r = RecordKind_prefix Private" by (simp add: slice_def)
  moreover have "slice 0 8 r @ slice 8 40 r @ slice 40 56 r @ slice 56 60 r @ slice 60 64 r @ drop 64 r = r"
    by (simp add: slice_append_drop)
  ultimately have "RecordKind_prefix Private @ slice 8 40 r @ slice 40 56 r @ slice 56 60 r @ slice 60 64 r @ drop 64 r = r"
    by simp
  with * len show "length r = 32928 \<and> (\<exists>rest. r = header_bytes h @ rest) \<and>
     length (prh_id h) = 32 \<and> length (prh_discovery_tag h) = 16 \<and> prh_index h < prh_count h"
    by (auto simp: inspect_header_def header_bytes_def Let_def intro: exI [of _ "drop 64 r"])
next
  assume *: "length r = 32928 \<and> (\<exists>rest. r = header_bytes h @ rest) \<and>
     length (prh_id h) = 32 \<and> length (prh_discovery_tag h) = 16 \<and> prh_index h < prh_count h"
  then obtain rest where r: "r = header_bytes h @ rest" by blast
  have "0 < prh_count h" using * by (simp add: word_less_nat_alt)
  with * r show "inspect_header r = Inr h"
    by (simp add: inspect_header_def header_bytes_def Let_def format_consts slice_simps)
qed

subsection \<open>Container frames\<close>

lemma framed_records_iff:
  "framed_records bs = Inr entries \<longleftrightarrow>
     entries \<noteq> [] \<and> length entries < 2 ^ 32 \<and> (\<forall>e \<in> set entries. length e = 32932) \<and>
     bs = RecordKind_prefix Container @ to_le_bytes (word_of_nat (length entries) :: u32) @ concat entries"
  (is "?parsed \<longleftrightarrow> ?framed")
proof
  assume parsed: ?parsed
  then have "RecordKind_parse bs = Inr Container" by (auto simp: framed_records_def)
  then obtain body where bs: "bs = RecordKind_prefix Container @ body" by (auto simp: RecordKind_parse_iff)
  define count :: u32 where "count = from_le_bytes (take 4 body)"
  have slice: "slice 8 12 bs = take 4 body" by (simp add: bs slice_def)
  from parsed have len: "12 \<le> length bs" "length bs = unat count * 32932 + 12" "0 < unat count"
    and entries: "entries = as_chunks 32932 (drop 12 bs)"
    by (auto simp: framed_records_def Let_def format_consts checked_mul_usize_def checked_add_usize_def slice count_def
        split: if_splits bind_splits)
  have four: "4 \<le> length body" using len(1) by (simp add: bs)
  have "drop 12 bs = drop 4 body" by (simp add: bs)
  moreover have "length (drop 4 body) = 32932 * unat count" using len(2) by (simp add: bs)
  ultimately have c: "concat entries = drop 4 body" "length entries = unat count"
    using concat_as_chunks [of 32932 "drop 4 body" "unat count"] by (simp_all add: entries)
  have "to_le_bytes count = take 4 body" using four by (simp add: count_def)
  then have "bs = RecordKind_prefix Container @ to_le_bytes (word_of_nat (length entries) :: u32) @ concat entries"
    using c by (simp add: bs)
  moreover have "\<forall>e \<in> set entries. length e = 32932" by (auto simp: entries dest: as_chunks_lengths)
  ultimately show ?framed using len(3) c(2) unat_less_pow [of count] by auto
next
  assume framed: ?framed
  define count :: u32 where "count = word_of_nat (length entries)"
  have count: "unat count = length entries" using framed by (simp add: count_def unat_of_nat_small)
  have len: "length (concat entries) = 32932 * length entries" using framed by (intro length_concat_same) blast
  have "slice 8 12 bs = to_le_bytes count" using framed by (simp add: slice_simps count_def)
  moreover have "length bs = unat count * 32932 + 12" using framed len count by simp
  moreover have "drop 12 bs = concat entries" using framed by simp
  moreover have "as_chunks 32932 (concat entries) = entries" using framed by (intro as_chunks_concat) auto
  moreover have "RecordKind_parse bs = Inr Container" using framed by simp
  moreover have "unat count * 32932 + 12 < 2 ^ 64" using unat_less_pow [of count] by simp
  moreover have "0 < unat count" using framed count by simp
  ultimately show ?parsed
    by (simp add: framed_records_def Let_def format_consts checked_mul_usize_def checked_add_usize_def)
qed

definition frame :: "bytes \<Rightarrow> bytes" where
  "frame record = to_le_bytes (32928 :: u32) @ record"

lemma framed_record_iff:
  assumes "length entry = 32932"
  shows "framed_record entry = Inr r \<longleftrightarrow> entry = frame r"
proof -
  have "take 4 entry @ drop 4 entry = entry" by simp
  moreover have "length (take 4 entry) = 4" using assms by simp
  ultimately show ?thesis
    unfolding framed_record_def frame_def
    by (auto simp: try_from_def PRIVATE_RECORD_BYTES_def from_le_eq_widths) (metis append_eq_conv_conj length_take)
qed

text \<open>The records of one object, as the container requires them.\<close>

definition one_object :: "bytes list \<Rightarrow> bool" where
  "one_object records \<longleftrightarrow>
     records \<noteq> [] \<and> length records < 2 ^ 32 \<and>
     (\<exists>oid. \<forall>r \<in> set records. \<exists>h. inspect_header r = Inr h \<and> prh_id h = oid)"

definition container_bytes :: "bytes list \<Rightarrow> bytes" where
  "container_bytes records =
     RecordKind_prefix Container @ to_le_bytes (word_of_nat (length records) :: u32) @ concat (map frame records)"

lemma framed_records_container:
  "records \<noteq> [] \<Longrightarrow> length records < 2 ^ 32 \<Longrightarrow> (\<forall>r \<in> set records. length r = 32928) \<Longrightarrow>
   framed_records (container_bytes records) = Inr (map frame records)"
  by (simp add: framed_records_iff container_bytes_def frame_def)

lemma pack_iff: "pack records = Inr b \<longleftrightarrow> one_object records \<and> b = container_bytes records"
proof (cases "records \<noteq> [] \<and> length records < 2 ^ 32")
  case False
  then show ?thesis
    by (auto simp: pack_def one_object_def try_from_def)
next
  case True
  have n: "0 < (word_of_nat (length records) :: u32)"
    using True by (simp add: word_less_nat_alt unat_of_nat_small)
  have size: "Option.bind (checked_mul_usize (length records) (PRIVATE_RECORD_BYTES + 4))
      (\<lambda>n. checked_add_usize n CONTAINER_HEADER_BYTES) = Some (length records * 32932 + 12)"
    using True by (simp add: checked_mul_usize_def checked_add_usize_def format_consts)
  have one: "pack_record oid x = Inr e \<longleftrightarrow> (\<exists>h. inspect_header x = Inr h \<and> prh_id h = oid) \<and> e = frame x" for oid x e
    by (auto simp: pack_record_def frame_def inspect_header_def format_consts try_from_def)
  have all: "rtraverse (pack_record oid) xs = Inr es \<longleftrightarrow>
      (\<forall>x \<in> set xs. \<exists>h. inspect_header x = Inr h \<and> prh_id h = oid) \<and> es = map frame xs" for oid xs es
    by (auto simp: rtraverse_eq_Inr list_all2_conv_all_nth one all_set_conv_all_nth intro!: nth_equalityI)
  have "pack records = Inr b \<longleftrightarrow>
      (\<exists>first. inspect_header (hd records) = Inr first \<and>
         (\<forall>x \<in> set records. \<exists>h. inspect_header x = Inr h \<and> prh_id h = prh_id first) \<and> b = container_bytes records)"
    using True unfolding pack_def
    by (simp add: n size all container_bytes_def try_from_def del: length_greater_0_conv) auto
  also have "\<dots> \<longleftrightarrow> one_object records \<and> b = container_bytes records"
    using True hd_in_set [of records] unfolding one_object_def by (metis (no_types, lifting) Inr_inject)
  finally show ?thesis .
qed

lemma unpack_iff: "unpack b = Inr records \<longleftrightarrow> one_object records \<and> b = container_bytes records"
proof
  assume *: "unpack b = Inr records"
  then obtain entries first where e: "framed_records b = Inr entries"
      "rtraverse (\<lambda>entry. rbind (framed_record entry) (\<lambda>record. rbind (inspect_header record) (\<lambda>_. Inr record))) entries
       = Inr records"
      "inspect_header (hd records) = Inr first"
      "\<forall>r \<in> set records. \<exists>h. inspect_header r = Inr h \<and> prh_id h = prh_id first"
    by (auto simp: unpack_def rtraverse_eq_Inr list_all2_conv_all_nth all_set_conv_all_nth)
  note f = e(1) [unfolded framed_records_iff]
  have "entries = map frame records"
    using f e(2) by (auto simp: rtraverse_eq_Inr list_all2_conv_all_nth framed_record_iff intro!: nth_equalityI)
  with f e(4) show "one_object records \<and> b = container_bytes records"
    by (auto simp: one_object_def container_bytes_def)
next
  assume *: "one_object records \<and> b = container_bytes records"
  then obtain oid where oid: "\<forall>r \<in> set records. \<exists>h. inspect_header r = Inr h \<and> prh_id h = oid"
    and ne: "records \<noteq> []" "length records < 2 ^ 32"
    by (auto simp: one_object_def)
  then have len: "\<forall>r \<in> set records. length r = 32928" by (auto simp: inspect_header_iff)
  then have frames: "framed_records b = Inr (map frame records)" using * ne by (simp add: framed_records_container)
  have parse: "rtraverse (\<lambda>entry. rbind (framed_record entry) (\<lambda>record. rbind (inspect_header record) (\<lambda>_. Inr record)))
      (map frame records) = Inr records"
    using oid len
    by (fastforce simp: rtraverse_eq_Inr list_all2_conv_all_nth framed_record_iff frame_def all_set_conv_all_nth)
  obtain h where "inspect_header (hd records) = Inr h" "prh_id h = oid" using oid ne(1) by (cases records) auto
  moreover have "rtraverse (\<lambda>record. rbind (inspect_header record) (\<lambda>header.
      ensure (prh_id header = oid) (Invalid ''mixed objects'') (Inr ()))) records = Inr (replicate (length records) ())"
    using oid by (auto simp: rtraverse_eq_Inr list_all2_conv_all_nth all_set_conv_all_nth)
  ultimately show "unpack b = Inr records"
    using frames parse by (simp add: unpack_def)
qed

interpretation container_codec: strict_codec pack unpack "\<lambda>_. True"
  by unfold_locales (simp_all add: pack_iff unpack_iff)

end
