(* ===== verification/Container_Objects.thy ===== *)
theory Container_Objects
  imports Container
begin

section \<open>Private objects: what sealing, opening and recovery promise\<close>

text \<open>
  The records that \<open>seal\<close> writes are opened by \<open>open_record\<close> under the same root key to exactly the
  chunks of the plaintext. From this: opening any complete selection of them in any order gives the
  plaintext back, and the tolerant recovery finds it between foreign and damaged records.
\<close>

lemma apply_keystream_twice:
  "length (ks (length body)) = length body \<Longrightarrow> apply_keystream ks (apply_keystream ks body) = body"
  by (auto simp: apply_keystream_def xor.assoc intro!: nth_equalityI)

lemma length_apply_keystream:
  "(\<And>n. length (ks n) = n) \<Longrightarrow> length (apply_keystream ks body) = length body"
  by (simp add: apply_keystream_def)

lemma length_nonce [simp]: "length (nonce i) = 16"
  by (simp add: nonce_def)

lemma length_MAGIC: "length MAGIC = 4"
  by (simp add: MAGIC_def)

lemma chunk_count_eq_Inr:
  "chunk_count len = Inr count \<longleftrightarrow>
     1 \<le> len \<and> len \<le> MAX_PRIVATE_BYTES \<and> unat count = div_ceil (unat len) 32768"
  by (auto simp: chunk_count_def try_from_eq_Inr CHUNK_BYTES_def)

text \<open>The chunk at a position of the plaintext.\<close>

definition chunk_at :: "bytes \<Rightarrow> nat \<Rightarrow> bytes" where
  "chunk_at plaintext i = take 32768 (drop (i * 32768) plaintext)"

definition sealed_chunk :: "bytes \<Rightarrow> bytes \<Rightarrow> content_type \<Rightarrow> u32 \<Rightarrow> bytes \<Rightarrow> nat \<Rightarrow> bytes \<Rightarrow> private_chunk" where
  "sealed_chunk oid plaintext ct count digest i record_digest =
     \<lparr>pc_id = oid, pc_index = word_of_nat i, pc_count = count, pc_total = word_of_nat (length plaintext),
      pc_digest = digest, pc_content_type = ct, pc_bytes = chunk_at plaintext i, pc_record_digest = record_digest\<rparr>"

lemma read_body_plain:
  assumes "chunk_count whole = Inr (prh_count h)" "unat whole = length plaintext"
    and "prh_index h < prh_count h" "length digest = 32"
    and "body = body_plain digest whole ct (chunk_at plaintext (unat (prh_index h))) padding"
  shows "read_body c h record body =
    Inr (Authenticated (sealed_chunk (prh_id h) plaintext ct (prh_count h) digest (unat (prh_index h)) (k_sha256 c record)))"
proof -
  let ?i = "unat (prh_index h)" and ?chunk = "chunk_at plaintext (unat (prh_index h))"
  have count: "unat (prh_count h) = div_ceil (unat whole) 32768" and max: "whole \<le> MAX_PRIVATE_BYTES"
    using assms(1) by (auto simp: chunk_count_eq_Inr)
  have "?i < div_ceil (unat whole) 32768" using assms(3) count by (simp add: word_less_nat_alt)
  then have off: "?i * 32768 < unat whole" by (simp add: div_ceil_gt_iff)
  have wide: "unat whole < 2 ^ 48" using max by (simp add: word_le_nat_alt MAX_PRIVATE_BYTES_def)
  have o64: "unat (ucast (prh_index h) * word_of_nat CHUNK_BYTES :: u64) = ?i * 32768"
    using off wide by (simp add: unat_word_ariths unat_ucast_up CHUNK_BYTES_def)
  define rem where "rem = whole - ucast (prh_index h) * word_of_nat CHUNK_BYTES"
  have sub: "checked_sub whole (ucast (prh_index h) * word_of_nat CHUNK_BYTES) = Some rem"
    unfolding rem_def checked_sub_def word_le_nat_alt o64 using off by simp
  have "unat rem = length plaintext - ?i * 32768"
    using sub assms(2) by (simp add: checked_sub_Some o64)
  then have size: "unat (min rem (word_of_nat CHUNK_BYTES)) = length ?chunk"
    by (auto simp: chunk_at_def CHUNK_BYTES_def min_def word_le_nat_alt)
  have whole: "from_le_bytes (slice 32 40 body) = whole"
    using assms(4) by (simp add: assms(5) body_plain_def slice_simps)
  have code: "from_le_bytes (slice 40 44 body) = ContentType_code ct"
    using assms(4) by (simp add: assms(5) body_plain_def slice_simps)
  have flags: "slice 44 48 body = [0, 0, 0, 0]"
    using assms(4) by (simp add: assms(5) body_plain_def slice_simps) (simp add: slice_def)
  have digest: "take 32 body = digest" using assms(4) by (simp add: assms(5) body_plain_def)
  have chunk: "slice METADATA_BYTES (METADATA_BYTES + length ?chunk) body = ?chunk"
    using assms(4) by (simp add: assms(5) body_plain_def slice_simps METADATA_BYTES_def) (simp add: slice_def)
  have "word_of_nat (length plaintext) = whole" by (simp flip: assms(2))
  then show ?thesis
    using assms(1) unfolding read_body_def Let_def whole code flags digest rem_def [symmetric]
    by (simp add: ContentType_code_roundtrip [THEN iffD2, OF refl] sub size chunk sealed_chunk_def)
qed

lemma seal_record_Inr:
  assumes "crypto_ok c" "fill_ok fill"
    and "seal_record c fill root oid tag plaintext ct count digest rng i chunk = Inr (r, rng')"
  obtains h whole padding ks mac where
    "h = \<lparr>prh_id = oid, prh_discovery_tag = tag, prh_index = word_of_nat i, prh_count = count\<rparr>"
    "i < 2 ^ 32" "unat whole = length plaintext" "length padding = 32768 - length chunk"
    "cipher c root oid (nonce (word_of_nat i)) = Inr ks" "\<And>n. length (ks n) = n"
    "authenticator c root oid = Inr mac" "\<And>m. length (mac m) = 32"
    "r = (header_bytes h @ nonce (word_of_nat i) @ apply_keystream ks (body_plain digest whole ct chunk padding)) @
         mac (header_bytes h @ nonce (word_of_nat i) @ apply_keystream ks (body_plain digest whole ct chunk padding))"
proof -
  from assms(3) obtain index whole padding ks mac where *:
    "try_from i = Inr index" "try_from (length plaintext) = Inr whole"
    "fill rng (BODY_BYTES - (METADATA_BYTES + length chunk)) = Some (padding, rng')"
    "cipher c root oid (nonce index) = Inr ks" "authenticator c root oid = Inr mac"
    "r = (header_bytes \<lparr>prh_id = oid, prh_discovery_tag = tag, prh_index = index, prh_count = count\<rparr> @
          nonce index @ apply_keystream ks (body_plain digest whole ct chunk padding)) @
         mac (header_bytes \<lparr>prh_id = oid, prh_discovery_tag = tag, prh_index = index, prh_count = count\<rparr> @
          nonce index @ apply_keystream ks (body_plain digest whole ct chunk padding))"
    by (auto simp: seal_record_def Let_def)
  have i: "index = word_of_nat i" "i < 2 ^ 32" using *(1) by (auto simp: try_from_def split: if_splits)
  have "length padding = 32768 - length chunk"
    using *(3) assms(2) unfolding fill_ok_def by (fastforce simp: format_consts)
  moreover have "\<And>n. length (ks n) = n" using *(4) assms(1) by (auto simp: cipher_def crypto_ok_def)
  moreover have "\<And>m. length (mac m) = 32"
    using *(5) assms(1) unfolding authenticator_def crypto_ok_def by auto
  ultimately show ?thesis using * i that by (simp add: try_from_eq_Inr)
qed

lemma length_discovery_tag: "crypto_ok c \<Longrightarrow> discovery_tag c root oid = Inr tag \<Longrightarrow> length tag = 16"
  by (auto simp: discovery_tag_def derive_def crypto_ok_def)

lemma open_sealed_record:
  assumes "crypto_ok c" "fill_ok fill"
    and seal: "seal_record c fill root oid tag plaintext ct count digest rng i (chunk_at plaintext i) = Inr (r, rng')"
    and oid: "length oid = 32" and tag: "discovery_tag c root oid = Inr tag" and digest: "length digest = 32"
    and count: "chunk_count (word_of_nat (length plaintext)) = Inr count" and i: "i < unat count"
  shows "open_record c root r = Inr (Authenticated (sealed_chunk oid plaintext ct count digest i (k_sha256 c r)))"
    and "\<exists>h. inspect_header r = Inr h \<and> prh_id h = oid"
proof -
  from seal_record_Inr [OF assms(1,2) seal] obtain h whole padding ks mac where
    h: "h = \<lparr>prh_id = oid, prh_discovery_tag = tag, prh_index = word_of_nat i, prh_count = count\<rparr>"
    and i32: "i < 2 ^ 32" and whole: "unat whole = length plaintext"
    and padding: "length padding = 32768 - length (chunk_at plaintext i)"
    and ks: "cipher c root oid (nonce (word_of_nat i)) = Inr ks" "\<And>n. length (ks n) = n"
    and mac: "authenticator c root oid = Inr mac" "\<And>m. length (mac m) = 32"
    and r: "r = (header_bytes h @ nonce (word_of_nat i) @
         apply_keystream ks (body_plain digest whole ct (chunk_at plaintext i) padding)) @
         mac (header_bytes h @ nonce (word_of_nat i) @
         apply_keystream ks (body_plain digest whole ct (chunk_at plaintext i) padding))"
    by blast
  define body where "body = body_plain digest whole ct (chunk_at plaintext i) padding"
  have lbody: "length body = 32816"
    using padding digest by (simp add: body_def body_plain_def chunk_at_def)
  have lks: "length (apply_keystream ks body) = 32816" using lbody ks(2) by (simp add: length_apply_keystream)
  have lh: "length (header_bytes h) = 64"
    using oid length_discovery_tag [OF assms(1) tag] by (simp add: h header_bytes_def)
  note r = r [folded body_def]
  have ui: "unat (word_of_nat i :: u32) = i" using i32 by (simp add: unat_of_nat_small)
  have len: "length r = 32928" using lks lh mac(2) by (simp add: r)
  have idx: "prh_index h < prh_count h" using i by (simp add: h word_less_nat_alt ui)
  have head: "inspect_header r = Inr h"
    using len idx oid length_discovery_tag [OF assms(1) tag] r
    by (auto simp: inspect_header_iff h)
  then show "\<exists>h. inspect_header r = Inr h \<and> prh_id h = oid" by (auto simp: h)
  have "take 4 r = MAGIC" by (simp add: r header_bytes_def RecordKind_prefix_def MAGIC_def)
  moreover have "RecordKind_parse r = Inr Private" by (simp add: r header_bytes_def)
  moreover have "mac (take 32896 r) = drop 32896 r" using lks lh by (simp add: r)
  moreover have "slice 64 80 r = nonce (word_of_nat i)" using lh by (simp add: r slice_simps)
  moreover have "slice 80 32896 r = apply_keystream ks body" using lh lks by (simp add: r slice_simps)
  moreover have "apply_keystream ks (apply_keystream ks body) = body"
    using ks(2) by (intro apply_keystream_twice)
  moreover have "read_body c h r body =
      Inr (Authenticated (sealed_chunk oid plaintext ct count digest i (k_sha256 c r)))"
  proof -
    have "chunk_count whole = Inr (prh_count h)" using count by (simp add: h flip: whole)
    moreover have "unat (prh_index h) = i" by (simp add: h ui)
    ultimately show ?thesis
      using read_body_plain [OF _ whole idx digest] body_def by (simp add: h)
  qed
  ultimately show "open_record c root r =
      Inr (Authenticated (sealed_chunk oid plaintext ct count digest i (k_sha256 c r)))"
    using head tag mac(1) ks(1) length_MAGIC unfolding open_record_def
    by (simp add: h Let_def MAC_OFFSET_def PRIVATE_HEADER_BYTES_def BODY_OFFSET_def)
qed

subsection \<open>A sealed object\<close>

definition piece :: "crypto \<Rightarrow> bytes \<Rightarrow> content_type \<Rightarrow> bytes \<Rightarrow> u32 \<Rightarrow> bytes list \<Rightarrow> nat \<Rightarrow> private_chunk" where
  "piece c plaintext ct oid count records i =
     sealed_chunk oid plaintext ct count (k_sha256 c plaintext) i (k_sha256 c (records ! i))"

definition sealed_as :: "crypto \<Rightarrow> bytes \<Rightarrow> bytes \<Rightarrow> content_type \<Rightarrow> bytes \<Rightarrow> u32 \<Rightarrow> bytes list \<Rightarrow> bool" where
  "sealed_as c root plaintext ct oid count records \<longleftrightarrow>
     chunk_count (word_of_nat (length plaintext)) = Inr count \<and> length plaintext < 2 ^ 64 \<and>
     length records = unat count \<and>
     (\<forall>i < length records.
        open_record c root (records ! i) = Inr (Authenticated (piece c plaintext ct oid count records i)) \<and>
        (\<exists>h. inspect_header (records ! i) = Inr h \<and> prh_id h = oid))"

lemma seal_chunks_records:
  "seal_chunks c fill root oid tag plaintext ct count digest rng pos cs = Inr (rs, rng') \<Longrightarrow>
   length rs = length cs \<and>
   (\<forall>j < length cs. \<exists>rng1 rng2.
      seal_record c fill root oid tag plaintext ct count digest rng1 (pos + j) (cs ! j) = Inr (rs ! j, rng2))"
proof (induction cs arbitrary: rng pos rs)
  case (Cons chunk rest)
  then obtain r rng1 rs' where *: "rs = r # rs'"
    "seal_record c fill root oid tag plaintext ct count digest rng pos chunk = Inr (r, rng1)"
    "seal_chunks c fill root oid tag plaintext ct count digest rng1 (Suc pos) rest = Inr (rs', rng')"
    by auto
  show ?case using * Cons.IH [OF *(3)] by (auto simp: less_Suc_eq_0_disj)
qed simp

lemma chunks_chunk_at: "chunks CHUNK_BYTES plaintext = map (chunk_at plaintext) [0..<div_ceil (length plaintext) 32768]"
  by (auto simp: CHUNK_BYTES_def length_chunks nth_chunks chunk_at_def intro!: nth_equalityI)

lemma concat_chunk_at: "concat (map (chunk_at plaintext) [0..<div_ceil (length plaintext) 32768]) = plaintext"
  using concat_chunks [of CHUNK_BYTES plaintext] by (simp add: chunks_chunk_at) (simp add: CHUNK_BYTES_def)

lemma seal_sealed_as:
  assumes "crypto_ok c" "fill_ok fill" "seal c fill root plaintext ct rng = Inr (records, rng')"
  obtains oid count where "sealed_as c root plaintext ct oid count records"
proof -
  from assms(3) obtain len count oid rng1 tag where *:
    "try_from (length plaintext) = Inr len" "chunk_count len = Inr count" "fill rng 32 = Some (oid, rng1)"
    "discovery_tag c root oid = Inr tag"
    "seal_chunks c fill root oid tag plaintext ct count (k_sha256 c plaintext) rng1 0 (chunks CHUNK_BYTES plaintext)
     = Inr (records, rng')"
    by (auto simp: seal_def random_secret_def)
  have len: "len = word_of_nat (length plaintext)" "length plaintext < 2 ^ 64"
    using *(1) by (auto simp: try_from_def split: if_splits)
  have count: "unat count = div_ceil (length plaintext) 32768"
    using *(2) len by (simp add: chunk_count_eq_Inr unat_of_nat_small)
  have oid: "length oid = 32" using *(3) assms(2) by (auto simp: fill_ok_def)
  have digest: "length (k_sha256 c plaintext) = 32" using assms(1) by (simp add: crypto_ok_def)
  note rs = seal_chunks_records [OF *(5)]
  have n: "length records = unat count" using rs by (simp add: chunks_chunk_at count)
  moreover have "open_record c root (records ! i) = Inr (Authenticated (piece c plaintext ct oid count records i)) \<and>
        (\<exists>h. inspect_header (records ! i) = Inr h \<and> prh_id h = oid)" if i: "i < length records" for i
  proof -
    have "chunks CHUNK_BYTES plaintext ! i = chunk_at plaintext i" using i n by (simp add: chunks_chunk_at count)
    then obtain rng1 rng2 where "seal_record c fill root oid tag plaintext ct count (k_sha256 c plaintext) rng1 i
        (chunk_at plaintext i) = Inr (records ! i, rng2)"
      using rs i by fastforce
    from open_sealed_record [OF assms(1,2) this oid *(4) digest] *(2) len i n show ?thesis
      by (simp add: piece_def)
  qed
  ultimately have "sealed_as c root plaintext ct oid count records"
    using *(2) len by (simp add: sealed_as_def)
  then show ?thesis by (rule that)
qed

subsection \<open>Collecting it\<close>

text \<open>The collector holds the chunks with index in \<open>I\<close> of the object, and nothing else.\<close>

definition collected ::
  "crypto \<Rightarrow> bytes \<Rightarrow> content_type \<Rightarrow> bytes \<Rightarrow> u32 \<Rightarrow> bytes list \<Rightarrow> private_object \<Rightarrow> nat set \<Rightarrow> bool" where
  "collected c plaintext ct oid count records ob I \<longleftrightarrow>
     po_id ob = oid \<and> po_count ob = count \<and> po_total ob = word_of_nat (length plaintext) \<and>
     po_content_type ob = ct \<and> po_digest ob = k_sha256 c plaintext \<and> \<not> po_conflict ob \<and> bt_inv (po_chunks ob) \<and>
     bt_get (po_chunks ob) = (\<lambda>k. if unat k \<in> I then Some (piece c plaintext ct oid count records (unat k)) else None)"

lemma piece_fields [simp]:
  "pc_id (piece c plaintext ct oid count records i) = oid"
  "pc_index (piece c plaintext ct oid count records i) = word_of_nat i"
  "pc_count (piece c plaintext ct oid count records i) = count"
  "pc_total (piece c plaintext ct oid count records i) = word_of_nat (length plaintext)"
  "pc_digest (piece c plaintext ct oid count records i) = k_sha256 c plaintext"
  "pc_content_type (piece c plaintext ct oid count records i) = ct"
  "pc_bytes (piece c plaintext ct oid count records i) = chunk_at plaintext i"
  by (simp_all add: piece_def sealed_chunk_def)

lemma collected_new:
  assumes "i < 2 ^ 32"
  shows "collected c plaintext ct oid count records (PrivateObject_new (piece c plaintext ct oid count records i)) {i}"
proof -
  have "unat k = i \<longleftrightarrow> k = word_of_nat i" for k :: u32
    using assms by (auto simp: unat_of_nat_small)
  then show ?thesis
    using assms by (auto simp: collected_def PrivateObject_new_def bt_get_def bt_inv_def fun_eq_iff unat_of_nat_small)
qed

lemma collected_insert:
  assumes "collected c plaintext ct oid count records ob I" "i < 2 ^ 32"
  obtains ob' where "PrivateObject_insert ob (piece c plaintext ct oid count records i) = (Inr (), ob')"
    "collected c plaintext ct oid count records ob' (insert i I)"
proof (cases "i \<in> I")
  case True
  then show ?thesis
    using assms that [of ob] by (simp add: collected_def PrivateObject_insert_def unat_of_nat_small insert_absorb)
next
  case False
  have "unat k = i \<longleftrightarrow> k = word_of_nat i" for k :: u32
    using assms(2) by (auto simp: unat_of_nat_small)
  then show ?thesis
    using assms False that
    by (auto simp: collected_def PrivateObject_insert_def unat_of_nat_small bt_inv_insert bt_get_insert fun_eq_iff)
qed

lemma collected_finish:
  assumes "collected c plaintext ct oid count records ob {..<unat count}"
    and "chunk_count (word_of_nat (length plaintext)) = Inr count" "length plaintext < 2 ^ 64"
  shows "PrivateObject_finish c ob = Inr plaintext"
proof -
  note c = assms(1) [unfolded collected_def]
  have n: "unat count = div_ceil (length plaintext) 32768"
    using assms(2,3) by (simp add: chunk_count_eq_Inr unat_of_nat_small)
  have get: "bt_get (po_chunks ob) (word_of_nat i) = Some (piece c plaintext ct oid count records i)"
    if "i < unat count" for i
    using c word_index [OF that] that by simp
  have "{k :: u32. unat k < unat count} = word_of_nat ` {..<unat count}"
  proof (rule set_eqI)
    fix k :: u32
    have "k = word_of_nat (unat k)" by simp
    moreover have "unat k < unat count \<Longrightarrow> unat k \<in> {..<unat count}" by simp
    ultimately have "unat k < unat count \<Longrightarrow> k \<in> word_of_nat ` {..<unat count}" by (rule image_eqI)
    then show "k \<in> {k. unat k < unat count} \<longleftrightarrow> k \<in> word_of_nat ` {..<unat count}"
      using word_index(1) [of _ count] by auto
  qed
  moreover have "inj_on (word_of_nat :: nat \<Rightarrow> u32) {..<unat count}"
    by (rule inj_on_inverseI [of _ unat]) (simp add: word_index(1))
  ultimately have "card {k :: u32. unat k < unat count} = unat count" by (simp add: card_image)
  moreover have "dom (bt_get (po_chunks ob)) = {k. unat k < unat count}" using c by (auto simp: dom_def)
  ultimately have "length (po_chunks ob) = unat count" using btree.size_dom [of "po_chunks ob"] c by simp
  moreover have "rtraverse (\<lambda>i. rmap pc_bytes (context_opt ''missing chunk'' (bt_get (po_chunks ob) (word_of_nat i))))
      [0..<unat count] = Inr (map (chunk_at plaintext) [0..<unat count])"
    by (rule rtraverse_all_Inr) (simp add: get)
  moreover have "try_from (length plaintext) = Inr (word_of_nat (length plaintext) :: u64)"
    using assms(3) by (simp add: try_from_def)
  moreover have "concat (map (chunk_at plaintext) [0..<unat count]) = plaintext" using concat_chunk_at n by simp
  ultimately show ?thesis using c by (simp add: PrivateObject_finish_def Let_def)
qed

lemma sealed_count_32: "sealed_as c root plaintext ct oid count records \<Longrightarrow> length records < 2 ^ 32"
  using unat_less_pow [of count] by (simp add: sealed_as_def)

lemma sealed_distinct:
  assumes "sealed_as c root plaintext ct oid count records"
  shows "distinct records"
proof (unfold distinct_conv_nth, intro allI impI)
  fix i j assume ij: "i < length records" "j < length records" "i \<noteq> j"
  note bound = sealed_count_32 [OF assms]
  have "(word_of_nat i :: u32) \<noteq> word_of_nat j"
    using ij bound unat_of_nat_small [of i, where 'a = 32] unat_of_nat_small [of j, where 'a = 32] by auto
  moreover have "pc_index (piece c plaintext ct oid count records i) \<noteq> pc_index (piece c plaintext ct oid count records j) \<Longrightarrow>
      records ! i \<noteq> records ! j"
    using assms ij by (metis Inr_inject record_match.inject sealed_as_def)
  ultimately show "records ! i \<noteq> records ! j" by simp
qed

text \<open>The positions of the records that occur in a list.\<close>

definition positions :: "bytes list \<Rightarrow> bytes list \<Rightarrow> nat set" where
  "positions records xs = {i. i < length records \<and> records ! i \<in> set xs}"

lemma positions_Nil [simp]: "positions records [] = {}"
  by (simp add: positions_def)


lemma positions_Cons_nth:
  "distinct records \<Longrightarrow> i < length records \<Longrightarrow> positions records (records ! i # xs) = insert i (positions records xs)"
  by (auto simp: positions_def nth_eq_iff_index_eq)

lemma positions_Cons_foreign: "x \<notin> set records \<Longrightarrow> positions records (x # xs) = positions records xs"
  by (auto simp: positions_def)

lemma positions_all: "set records \<subseteq> set xs \<Longrightarrow> positions records xs = {..<length records}"
  by (auto simp: positions_def)

lemma sealed_record_cases:
  assumes "sealed_as c root plaintext ct oid count records" "x \<in> set records"
  obtains i where "i < 2 ^ 32" "x = records ! i" "i < length records"
    "open_record c root x = Inr (Authenticated (piece c plaintext ct oid count records i))"
  using assms sealed_count_32 [OF assms(1)] by (auto simp: sealed_as_def in_set_conv_nth)

lemma collect_sealed:
  assumes s: "sealed_as c root plaintext ct oid count records"
  shows "collected c plaintext ct oid count records ob I \<Longrightarrow> set rs \<subseteq> set records \<Longrightarrow>
    \<exists>ob'. collect c root ob rs = Inr ob' \<and> collected c plaintext ct oid count records ob' (I \<union> positions records rs)"
proof (induction rs arbitrary: ob I)
  case (Cons r rs)
  obtain i where i: "i < 2 ^ 32" "r = records ! i" "i < length records"
    "open_record c root r = Inr (Authenticated (piece c plaintext ct oid count records i))"
    using s Cons.prems(2) by (auto elim: sealed_record_cases)
  from Cons.prems(1) i(1) obtain ob' where
    ob': "PrivateObject_insert ob (piece c plaintext ct oid count records i) = (Inr (), ob')"
      "collected c plaintext ct oid count records ob' (insert i I)" by (rule collected_insert)
  from Cons.IH [OF ob'(2)] Cons.prems(2) ob'(1) i sealed_distinct [OF s] show ?case
    by (simp add: required_chunk_def positions_Cons_nth)
qed simp

lemma open_object_sealed:
  assumes s: "sealed_as c root plaintext ct oid count records" and rs: "set rs = set records"
  shows "open_object c root rs = Inr plaintext"
proof -
  have "0 < unat count" using s by (auto simp: sealed_as_def chunk_count_eq_Inr div_ceil_gt_iff word_le_nat_alt)
  then obtain r rest where rs': "rs = r # rest" using rs s by (cases rs) (auto simp: sealed_as_def)
  obtain i where i: "i < 2 ^ 32" "r = records ! i" "i < length records"
    "open_record c root r = Inr (Authenticated (piece c plaintext ct oid count records i))"
    using s rs rs' by (auto elim: sealed_record_cases)
  obtain ob where ob: "collect c root (PrivateObject_new (piece c plaintext ct oid count records i)) rest = Inr ob"
      "collected c plaintext ct oid count records ob ({i} \<union> positions records rest)"
    using collect_sealed [OF s collected_new [OF i(1)], of rest] rs rs' by auto
  have "{i} \<union> positions records rest = {..<unat count}"
    using positions_Cons_nth [OF sealed_distinct [OF s] i(3), of rest] positions_all [of records rs] rs s
    by (simp add: rs' i(2) sealed_as_def)
  with ob(2) s have "PrivateObject_finish c ob = Inr plaintext"
    by (auto simp: sealed_as_def intro: collected_finish)
  with ob(1) i(4) show ?thesis by (simp add: open_object_def rs' required_chunk_def)
qed

subsection \<open>Recovery between foreign records\<close>

definition foreign :: "crypto \<Rightarrow> bytes \<Rightarrow> bytes \<Rightarrow> bool" where
  "foreign c root x \<longleftrightarrow> open_record c root x = Inr Unrelated"

definition damaged :: "crypto \<Rightarrow> bytes \<Rightarrow> bytes \<Rightarrow> bool" where
  "damaged c root x \<longleftrightarrow> (\<exists>reason. open_record c root x \<in> {Inl (Invalid reason), Inl (Unsupported reason)})"

definition recovering ::
  "crypto \<Rightarrow> bytes \<Rightarrow> content_type \<Rightarrow> bytes \<Rightarrow> u32 \<Rightarrow> bytes list \<Rightarrow> (bytes \<times> private_object) list \<Rightarrow> nat set \<Rightarrow> bool" where
  "recovering c plaintext ct oid count records objects I \<longleftrightarrow>
     (if I = {} then objects = []
      else \<exists>ob. objects = [(oid, ob)] \<and> collected c plaintext ct oid count records ob I)"

lemma recover_sealed_entry:
  assumes "recovering c plaintext ct oid count records objects I" "i < 2 ^ 32"
    and "open_record c root x = Inr (Authenticated (piece c plaintext ct oid count records i))"
  shows "\<exists>objects'. recover_entry c root (objects, s, r) (frame x) = Inr (objects', s, r) \<and>
    recovering c plaintext ct oid count records objects' (insert i I)"
proof (cases "I = {}")
  case True
  then show ?thesis
    using assms collected_new [OF assms(2)]
    by (simp add: recovering_def recover_entry_def recover_record_def frame_def bt_get_def Let_def)
next
  case False
  then obtain ob where ob: "objects = [(oid, ob)]" "collected c plaintext ct oid count records ob I"
    using assms(1) by (auto simp: recovering_def)
  from ob(2) assms(2) obtain ob' where
    "PrivateObject_insert ob (piece c plaintext ct oid count records i) = (Inr (), ob')"
    "collected c plaintext ct oid count records ob' (insert i I)" by (rule collected_insert)
  with ob(1) assms(3) show ?thesis
    by (simp add: recovering_def recover_entry_def recover_record_def frame_def bt_get_def Let_def)
qed

lemma recover_entries_sealed:
  assumes s: "sealed_as c root plaintext ct oid count records"
  shows "recovering c plaintext ct oid count records objects I \<Longrightarrow>
    \<forall>x \<in> set xs. x \<in> set records \<or> foreign c root x \<or> damaged c root x \<Longrightarrow>
    \<exists>objects'. rfold (recover_entry c root) (objects, skipped, rejected) (map frame xs) =
        Inr (objects', skipped + length (filter (foreign c root) xs), rejected + length (filter (damaged c root) xs)) \<and>
      recovering c plaintext ct oid count records objects' (I \<union> positions records xs)"
proof (induction xs arbitrary: objects I skipped rejected)
  case (Cons x xs)
  show ?case
  proof (cases "x \<in> set records")
    case True
    then obtain i where i: "i < 2 ^ 32" "x = records ! i" "i < length records"
      "open_record c root x = Inr (Authenticated (piece c plaintext ct oid count records i))"
      using s by (auto elim: sealed_record_cases)
    obtain objects1 where *: "recover_entry c root (objects, skipped, rejected) (frame x) = Inr (objects1, skipped, rejected)"
      "recovering c plaintext ct oid count records objects1 (insert i I)"
      using recover_sealed_entry [OF Cons.prems(1) i(1,4)] by blast
    have "\<not> foreign c root x" "\<not> damaged c root x" using i(4) by (auto simp: foreign_def damaged_def)
    with Cons.IH [OF *(2)] Cons.prems(2) * i sealed_distinct [OF s] show ?thesis
      by (simp add: positions_Cons_nth)
  next
    case False
    note pos = positions_Cons_foreign [OF False]
    from False Cons.prems(2) consider "foreign c root x" "\<not> damaged c root x" | "damaged c root x" "\<not> foreign c root x"
      by (fastforce simp: foreign_def damaged_def)
    then show ?thesis
    proof cases
      case 1
      then have "recover_entry c root (objects, skipped, rejected) (frame x) = Inr (objects, Suc skipped, rejected)"
        by (simp add: recover_entry_def recover_record_def frame_def foreign_def)
      with Cons.IH [OF Cons.prems(1), of "Suc skipped" rejected] Cons.prems(2) 1 show ?thesis by (simp add: pos)
    next
      case 2
      then have "recover_entry c root (objects, skipped, rejected) (frame x) = Inr (objects, skipped, Suc rejected)"
        by (auto simp: recover_entry_def recover_record_def frame_def damaged_def classify_rejection_def)
      with Cons.IH [OF Cons.prems(1), of skipped "Suc rejected"] Cons.prems(2) 2 show ?thesis by (simp add: pos)
    qed
  qed
qed simp

lemma recover_container_sealed:
  assumes s: "sealed_as c root plaintext ct oid count records"
    and xs: "set records \<subseteq> set xs" "length xs < 2 ^ 32"
      "\<forall>x \<in> set xs. length x = 32928 \<and> (x \<in> set records \<or> foreign c root x \<or> damaged c root x)"
  shows "recover_container c root (container_bytes xs) = Inr
    \<lparr>rec_id = oid, rec_count = count, rec_total = word_of_nat (length plaintext), rec_digest = k_sha256 c plaintext,
     rec_content_type = ct, rec_bytes = plaintext,
     rec_skipped_unrelated = length (filter (foreign c root) xs),
     rec_rejected_records = length (filter (damaged c root) xs)\<rparr>"
proof -
  have n: "0 < unat count" using s by (auto simp: sealed_as_def chunk_count_eq_Inr div_ceil_gt_iff word_le_nat_alt)
  then have ne: "xs \<noteq> []" using xs(1) s by (auto simp: sealed_as_def)
  have frames: "framed_records (container_bytes xs) = Inr (map frame xs)"
    using xs ne by (intro framed_records_container) auto
  have "rtraverse framed_record (map frame xs) = Inr xs"
    using xs(3) by (auto simp: rtraverse_eq_Inr list_all2_conv_all_nth framed_record_iff frame_def)
  moreover have "recovering c plaintext ct oid count records [] {}" by (simp add: recovering_def)
  moreover have all: "positions records xs = {..<unat count}"
    using positions_all [OF xs(1)] s by (simp add: sealed_as_def)
  moreover have "{..<unat count} \<noteq> {}" using n by auto
  ultimately obtain ob where
    fold: "rfold (recover_entry c root) ([], 0, 0) (map frame xs) =
       Inr ([(oid, ob)], length (filter (foreign c root) xs), length (filter (damaged c root) xs))"
    and ob: "collected c plaintext ct oid count records ob {..<unat count}"
    using recover_entries_sealed [OF s, of "[]" "{}" xs 0 0] xs(3) by (auto simp: recovering_def)
  have "PrivateObject_finish c ob = Inr plaintext"
    using ob s by (auto simp: sealed_as_def intro: collected_finish)
  with frames \<open>rtraverse framed_record (map frame xs) = Inr xs\<close> fold ob show ?thesis
    by (simp add: recover_container_def collected_def)
qed

subsection \<open>Sealing succeeds\<close>

definition crypto_total :: "crypto \<Rightarrow> bool" where
  "crypto_total c \<longleftrightarrow> (\<forall>salt key info n. n \<le> 32 \<longrightarrow> k_hkdf c salt key info n \<noteq> None) \<and> (\<forall>key. k_hmac c key \<noteq> None)"

definition fill_total :: "'r fill \<Rightarrow> bool" where
  "fill_total fill \<longleftrightarrow> (\<forall>rng n. fill rng n \<noteq> None)"

lemma derive_total: "crypto_total c \<Longrightarrow> n \<le> 32 \<Longrightarrow> \<exists>k. derive c root oid purpose n = Inr k"
  by (auto simp: crypto_total_def derive_def)

lemma seal_record_total:
  assumes "crypto_total c" "fill_total fill" "i < 2 ^ 32" "length plaintext < 2 ^ 64"
  shows "\<exists>r rng'. seal_record c fill root oid tag plaintext ct count digest rng i chunk = Inr (r, rng')"
proof -
  obtain padding rng' where "fill rng (BODY_BYTES - (METADATA_BYTES + length chunk)) = Some (padding, rng')"
    using assms(2) unfolding fill_total_def by fastforce
  moreover obtain k1 where "derive c root oid CONTENT_DOMAIN 32 = Inr k1" using derive_total [OF assms(1)] by blast
  moreover obtain k2 where "derive c root oid AUTHENTICATION_DOMAIN 32 = Inr k2" using derive_total [OF assms(1)] by blast
  moreover obtain mac where "k_hmac c k2 = Some mac" using assms(1) unfolding crypto_total_def by blast
  ultimately show ?thesis
    using assms(3,4) by (simp add: seal_record_def Let_def cipher_def authenticator_def try_from_def)
qed

lemma seal_chunks_total:
  assumes "crypto_total c" "fill_total fill" "length plaintext < 2 ^ 64"
  shows "pos + length cs \<le> 2 ^ 32 \<Longrightarrow>
    \<exists>rs rng'. seal_chunks c fill root oid tag plaintext ct count digest rng pos cs = Inr (rs, rng')"
proof (induction cs arbitrary: rng pos)
  case (Cons chunk rest)
  have pos: "pos < 2 ^ 32" "Suc pos + length rest \<le> 2 ^ 32" using Cons.prems by simp_all
  obtain r rng1 where r: "seal_record c fill root oid tag plaintext ct count digest rng pos chunk = Inr (r, rng1)"
    using seal_record_total [OF assms(1,2) pos(1) assms(3)] by blast
  obtain rs rng2 where "seal_chunks c fill root oid tag plaintext ct count digest rng1 (Suc pos) rest = Inr (rs, rng2)"
    using Cons.IH [OF pos(2)] by blast
  with r show ?case by simp
qed simp

lemma seal_total:
  assumes "crypto_total c" "fill_total fill"
  shows "(\<exists>rs rng'. seal c fill root plaintext ct rng = Inr (rs, rng')) \<longleftrightarrow>
    1 \<le> length plaintext \<and> length plaintext \<le> unat MAX_PRIVATE_BYTES"
proof
  assume "\<exists>rs rng'. seal c fill root plaintext ct rng = Inr (rs, rng')"
  then obtain len :: u64 where "unat len = length plaintext" "1 \<le> len" "len \<le> MAX_PRIVATE_BYTES"
    by (auto simp: seal_def try_from_eq_Inr chunk_count_eq_Inr)
  then show "1 \<le> length plaintext \<and> length plaintext \<le> unat MAX_PRIVATE_BYTES"
    by (simp add: word_le_nat_alt)
next
  assume n: "1 \<le> length plaintext \<and> length plaintext \<le> unat MAX_PRIVATE_BYTES"
  then have n64: "length plaintext < 2 ^ 64" by (simp add: MAX_PRIVATE_BYTES_def)
  define len :: u64 where "len = word_of_nat (length plaintext)"
  have len: "unat len = length plaintext" using n64 by (simp add: len_def unat_of_nat_small)
  then have bounds: "1 \<le> len" "len \<le> MAX_PRIVATE_BYTES" using n by (simp_all add: word_le_nat_alt)
  then obtain count where count: "chunk_count len = Inr count"
    using chunk_count_fits [of len] by (auto simp: chunk_count_def try_from_def)
  obtain oid rng1 where "fill rng 32 = Some (oid, rng1)" using assms(2) unfolding fill_total_def by fastforce
  moreover obtain tag where "discovery_tag c root oid = Inr tag"
    using derive_total [OF assms(1), of 16] by (fastforce simp: discovery_tag_def)
  moreover have "length (chunks CHUNK_BYTES plaintext) = unat count"
    using count len by (simp add: chunks_chunk_at chunk_count_eq_Inr)
  then have "0 + length (chunks CHUNK_BYTES plaintext) \<le> 2 ^ 32" using unat_less_pow [of count] by simp
  then obtain rs rng2 where "seal_chunks c fill root oid tag plaintext ct count (k_sha256 c plaintext) rng1 0
      (chunks CHUNK_BYTES plaintext) = Inr (rs, rng2)"
    using seal_chunks_total [OF assms n64] by blast
  ultimately show "\<exists>rs rng'. seal c fill root plaintext ct rng = Inr (rs, rng')"
    using count n64 by (simp add: seal_def random_secret_def try_from_def len_def)
qed

subsection \<open>What an opened object proves\<close>

lemma open_record_authentic:
  assumes "open_record c root r = Inr (Authenticated chunk)"
  shows "\<exists>mac. authenticator c root (pc_id chunk) = Inr mac \<and> mac (take MAC_OFFSET r) = drop MAC_OFFSET r \<and>
    length r = PRIVATE_RECORD_BYTES \<and> slice 8 40 r = pc_id chunk"
  using assms
  by (auto simp: open_record_def read_body_def Let_def inspect_header_def split: if_splits)

definition authentic :: "crypto \<Rightarrow> bytes \<Rightarrow> bytes \<Rightarrow> bytes \<Rightarrow> bytes \<Rightarrow> bool" where
  "authentic c root oid digest r \<longleftrightarrow>
     (\<exists>chunk mac. open_record c root r = Inr (Authenticated chunk) \<and> pc_id chunk = oid \<and> pc_digest chunk = digest \<and>
        authenticator c root oid = Inr mac \<and> mac (take MAC_OFFSET r) = drop MAC_OFFSET r)"

lemma required_chunk_authentic:
  "required_chunk c root r = Inr chunk \<Longrightarrow> authentic c root (pc_id chunk) (pc_digest chunk) r"
proof -
  assume "required_chunk c root r = Inr chunk"
  then have "open_record c root r = Inr (Authenticated chunk)"
    by (auto simp: required_chunk_def split: record_match.splits) (metis record_match.exhaust)
  with open_record_authentic [OF this] show ?thesis unfolding authentic_def by blast
qed

lemma insert_keeps_metadata:
  "PrivateObject_insert ob chunk = (Inr u, ob') \<Longrightarrow>
     po_id ob' = po_id ob \<and> po_digest ob' = po_digest ob \<and> pc_id chunk = po_id ob \<and> pc_digest chunk = po_digest ob"
  by (auto simp: PrivateObject_insert_def split: if_splits option.splits)

lemma collect_authentic:
  "collect c root ob rs = Inr ob' \<Longrightarrow>
     po_id ob' = po_id ob \<and> po_digest ob' = po_digest ob \<and> (\<forall>r \<in> set rs. authentic c root (po_id ob) (po_digest ob) r)"
proof (induction rs arbitrary: ob)
  case (Cons r rs)
  from Cons.prems obtain chunk where chunk: "required_chunk c root r = Inr chunk" by auto
  obtain res ob1 where res: "PrivateObject_insert ob chunk = (res, ob1)" by fastforce
  with chunk Cons.prems obtain u where *: "required_chunk c root r = Inr chunk"
    "PrivateObject_insert ob chunk = (Inr u, ob1)" "collect c root ob1 rs = Inr ob'"
    by (cases res) auto
  from Cons.IH [OF *(3)] insert_keeps_metadata [OF *(2)] required_chunk_authentic [OF *(1)] show ?case by auto
qed simp

lemma finish_digest: "PrivateObject_finish c ob = Inr bs \<Longrightarrow> k_sha256 c bs = po_digest ob"
  by (auto simp: PrivateObject_finish_def Let_def)

subsection \<open>Properties\<close>

text \<open>A concrete instance of the parameters, for the witnesses.\<close>

definition ex_crypto :: crypto where
  "ex_crypto = \<lparr>k_hkdf = (\<lambda>salt key info n. Some (replicate n 7)), k_hmac = (\<lambda>key. Some (\<lambda>m. replicate 32 (hd key))),
     k_aes_ctr = (\<lambda>key iv n. replicate n 90), k_sha256 = (\<lambda>m. replicate 32 (word_of_nat (length m)))\<rparr>"

definition ex_fill :: "nat fill" where
  "ex_fill rng n = Some (replicate n (word_of_nat rng), Suc rng)"

lemma ex_crypto_laws: "crypto_ok ex_crypto" "crypto_total ex_crypto" "fill_ok ex_fill" "fill_total ex_fill"
  by (simp_all add: crypto_ok_def crypto_total_def fill_ok_def fill_total_def ex_crypto_def ex_fill_def)

lemma ex_sealed:
  obtains records rng where "seal ex_crypto ex_fill root [1, 2, 3] Text 0 = Inr (records, rng)"
  using seal_total [OF ex_crypto_laws(2,4), of root "[1, 2, 3]" Text 0] by (auto simp: MAX_PRIVATE_BYTES_def)

text \<open>
  C5: what is sealed can be opened. The records that \<open>seal\<close> writes for a plaintext are opened by \<open>open\<close>
  under the same root key to exactly that plaintext, in whatever order and with whatever repetitions
  they are presented.
\<close>
theorem sealed_object_opens:
  assumes "crypto_ok c" "fill_ok fill" "seal c fill root plaintext ct rng = Inr (records, rng')"
    and "set rs = set records"
  shows "open_object c root rs = Inr plaintext"
proof -
  obtain oid count where "sealed_as c root plaintext ct oid count records" using seal_sealed_as [OF assms(1-3)] .
  then show ?thesis using assms(4) by (rule open_object_sealed)
qed

theorem sealed_object_opens_witness:
  "\<exists>records rng. seal ex_crypto ex_fill [9] [1, 2, 3] Text 0 = Inr (records, rng) \<and>
     open_object ex_crypto [9] (rev records @ records) = Inr [1, 2, 3]"
proof -
  obtain records rng where s: "seal ex_crypto ex_fill [9] [1, 2, 3] Text 0 = Inr (records, rng)" by (rule ex_sealed)
  have "set (rev records @ records) = set records" by simp
  from sealed_object_opens [OF ex_crypto_laws(1,3) s this] s show ?thesis by blast
qed

text \<open>
  C40: sealing is total on its domain. With primitives that do not fail it returns records for exactly
  the plaintexts of one byte up to \<open>MAX_PRIVATE_BYTES\<close>: no index, length or count conversion fails.
\<close>
theorem seal_returns:
  assumes "crypto_total c" "fill_total fill"
  shows "(\<exists>records rng'. seal c fill root plaintext ct rng = Inr (records, rng')) \<longleftrightarrow>
    1 \<le> length plaintext \<and> length plaintext \<le> unat MAX_PRIVATE_BYTES"
  by (rule seal_total [OF assms])

theorem seal_returns_witness:
  "(\<exists>records rng'. seal ex_crypto ex_fill [9] [1, 2, 3] Text 0 = Inr (records, rng')) \<and>
   \<not> (\<exists>records rng'. seal ex_crypto ex_fill [9] [] Text 0 = Inr (records, rng'))"
  using seal_returns [OF ex_crypto_laws(2,4), of "[9]" "[1, 2, 3]" Text 0]
    seal_returns [OF ex_crypto_laws(2,4), of "[9]" "[]" Text 0]
  by (simp add: MAX_PRIVATE_BYTES_def)

text \<open>
  C6: tolerant recovery finds the object. From a container that holds all records of a sealed object,
  in any order, between records that are unrelated under the key or that are rejected as invalid or
  unsupported, recovery returns the plaintext, its metadata and the exact numbers of skipped and of
  rejected records.
\<close>
theorem recovery_finds_object:
  assumes "crypto_ok c" "fill_ok fill" "seal c fill root plaintext ct rng = Inr (records, rng')"
    and "set records \<subseteq> set xs" "length xs < 2 ^ 32"
    and "\<forall>x \<in> set xs. length x = 32928 \<and> (x \<in> set records \<or> foreign c root x \<or> damaged c root x)"
  shows "\<exists>r. recover_container c root (container_bytes xs) = Inr r \<and>
    rec_bytes r = plaintext \<and> rec_content_type r = ct \<and> unat (rec_total r) = length plaintext \<and>
    rec_digest r = k_sha256 c plaintext \<and>
    rec_skipped_unrelated r = length (filter (foreign c root) xs) \<and>
    rec_rejected_records r = length (filter (damaged c root) xs)"
proof -
  obtain oid count where s: "sealed_as c root plaintext ct oid count records"
    using seal_sealed_as [OF assms(1-3)] .
  then have "length plaintext < 2 ^ 64" by (simp add: sealed_as_def)
  with recover_container_sealed [OF s assms(4-6)] show ?thesis by (simp add: unat_of_nat_small)
qed

text \<open>A record of another kind: the prefix of a post, padded.\<close>

definition ex_foreign :: bytes where
  "ex_foreign = RecordKind_prefix record_kind.Post @ replicate 32920 0"

theorem recovery_finds_object_witness:
  "\<exists>records rng r. seal ex_crypto ex_fill [9] [1, 2, 3] Text 0 = Inr (records, rng) \<and>
     recover_container ex_crypto [9] (container_bytes (ex_foreign # records)) = Inr r \<and> rec_bytes r = [1, 2, 3]"
proof -
  obtain records rng where s: "seal ex_crypto ex_fill [9] [1, 2, 3] Text 0 = Inr (records, rng)" by (rule ex_sealed)
  obtain oid count where sealed: "sealed_as ex_crypto [9] [1, 2, 3] Text oid count records"
    using seal_sealed_as [OF ex_crypto_laws(1,3) s] .
  have "unat count = 1"
    using sealed by (simp add: sealed_as_def chunk_count_eq_Inr div_ceil_def)
  then have "length records = 1" using sealed by (simp add: sealed_as_def)
  have "\<forall>x \<in> set records. length x = 32928"
    using sealed by (auto simp: sealed_as_def in_set_conv_nth inspect_header_iff)
  have "take 4 ex_foreign = MAGIC" by (simp add: ex_foreign_def RecordKind_prefix_def MAGIC_def)
  moreover have "RecordKind_parse ex_foreign = Inr record_kind.Post" by (simp add: ex_foreign_def)
  ultimately have "foreign ex_crypto [9] ex_foreign"
    by (simp add: foreign_def open_record_def length_MAGIC)
  moreover have "length records = 1" by fact
  moreover have "\<forall>x \<in> set records. length x = 32928" by fact
  moreover have "length ex_foreign = 32928" by (simp add: ex_foreign_def)
  ultimately have "\<exists>r. recover_container ex_crypto [9] (container_bytes (ex_foreign # records)) = Inr r \<and> rec_bytes r = [1, 2, 3]"
    using recovery_finds_object [OF ex_crypto_laws(1,3) s, of "ex_foreign # records"] by auto
  with s show ?thesis by blast
qed

text \<open>
  C13: nothing unauthenticated gets in. When \<open>open\<close> returns bytes, every record it was given carries the
  tag that the key derived from the root and the common object identifier gives to the rest of the
  record, and the bytes have the digest that all those records state.
\<close>
theorem opened_object_authentic:
  assumes "open_object c root records = Inr bs"
  shows "\<exists>oid. \<forall>r \<in> set records. authentic c root oid (k_sha256 c bs) r"
proof (cases records)
  case (Cons first rest)
  with assms obtain chunk ob where *: "required_chunk c root first = Inr chunk"
    "collect c root (PrivateObject_new chunk) rest = Inr ob" "PrivateObject_finish c ob = Inr bs"
    by (auto simp: open_object_def)
  from collect_authentic [OF *(2)] required_chunk_authentic [OF *(1)] finish_digest [OF *(3)] Cons show ?thesis
    by (auto simp: PrivateObject_new_def)
qed (use assms in \<open>simp add: open_object_def\<close>)

theorem opened_object_authentic_witness:
  "\<exists>records rng oid. seal ex_crypto ex_fill [9] [1, 2, 3] Text 0 = Inr (records, rng) \<and>
     (\<forall>r \<in> set records. authentic ex_crypto [9] oid (replicate 32 3) r)"
proof -
  obtain records rng where s: "seal ex_crypto ex_fill [9] [1, 2, 3] Text 0 = Inr (records, rng)" by (rule ex_sealed)
  have "open_object ex_crypto [9] records = Inr [1, 2, 3]"
  proof -
    obtain oid count where "sealed_as ex_crypto [9] [1, 2, 3] Text oid count records"
      using seal_sealed_as [OF ex_crypto_laws(1,3) s] .
    then show ?thesis using refl by (rule open_object_sealed)
  qed
  from opened_object_authentic [OF this] s show ?thesis by (auto simp: ex_crypto_def)
qed

text \<open>
  The offline container is a strict codec. \<open>unpack\<close> accepts exactly what \<open>pack\<close> writes and returns
  the packed records, and both demand at least one private record and one object identifier.
\<close>
theorem offline_container_codec:
  "(unpack b = Inr records \<longleftrightarrow> pack records = Inr b) \<and>
   ((\<exists>b. pack records = Inr b) \<longleftrightarrow> one_object records)"
  using container_codec.decode_iff [of b records] by (auto simp: pack_iff)

end
