(* ===== verification/Multipart.thy ===== *)
theory Multipart
  imports Format
begin

section \<open>Multipart objects (\<^verbatim>\<open>urma-core/src/multipart.rs\<close>)\<close>

text \<open>
  An object above the size of one record is published as data parts, leaf manifests of up to 511
  child references and one root manifest. The theory models the geometry of an object, the three
  records with their encoder and decoder, and shows that the geometry arithmetic never over- or
  underflows, that the parts and leaves partition the object and that the records are a strict
  codec. SHA-256 is the parameter \<open>sha256\<close>.
\<close>

definition RECORD_BYTES :: nat where "RECORD_BYTES = 256 * 1024"
definition DATA_BYTES :: nat where "DATA_BYTES = RECORD_BYTES - 12"
definition FANOUT :: u16 where "FANOUT = 511"
definition MAX_PARTS :: u32 where "MAX_PARTS = 32630"
definition MAX_OBJECT_BYTES :: u64 where "MAX_OBJECT_BYTES = 8553279476"
definition MAX_NODES :: u32 where "MAX_NODES = 32695"

lemmas geometry_consts =
  RECORD_BYTES_def DATA_BYTES_def FANOUT_def MAX_PARTS_def MAX_OBJECT_BYTES_def MAX_NODES_def

record geometry =
  g_length :: u64
  g_parts :: u32
  g_leaves :: u16

definition Geometry_new :: "u64 \<Rightarrow> error + geometry" where
  "Geometry_new len =
     ensure (len \<le> MAX_OBJECT_BYTES) (Invalid ''multipart length outside bounds'')
    (rbind (try_from (max (div_ceil (unat len) DATA_BYTES) 1)) (\<lambda>parts.
     rbind (try_from (div_ceil (unat parts) (unat FANOUT))) (\<lambda>leaves.
     Inr \<lparr>g_length = len, g_parts = parts, g_leaves = leaves\<rparr>)))"

definition Geometry_nodes :: "geometry \<Rightarrow> u32" where
  "Geometry_nodes g = g_parts g + ucast (g_leaves g) + 1"

definition part_length :: "geometry \<Rightarrow> u32 \<Rightarrow> error + nat" where
  "part_length g index =
     ensure (index < g_parts g) (Invalid ''part index outside object'')
    (let offset = ucast index * word_of_nat DATA_BYTES :: u64 in
     rbind (ok_or (Panic ''attempt to subtract with overflow'') (checked_sub (g_length g) offset)) (\<lambda>rest.
     Inr (unat (min rest (word_of_nat DATA_BYTES)))))"

definition leaf_entries :: "geometry \<Rightarrow> u16 \<Rightarrow> error + u16" where
  "leaf_entries g index =
     ensure (index < g_leaves g) (Invalid ''leaf index outside object'')
    (rbind (ok_or (Panic ''attempt to subtract with overflow'')
        (checked_sub (g_parts g) (ucast index * ucast FANOUT))) (\<lambda>rest.
     try_from (unat (min rest (ucast FANOUT)))))"

subsection \<open>Records\<close>

record child_reference =
  cr_txid :: bytes
  cr_record_hash :: bytes

record data_part =
  dp_index :: u32
  dp_payload :: bytes

record leaf_manifest =
  lm_index :: u16
  lm_entries :: "child_reference list"

record root_manifest =
  rm_length :: u64
  rm_payload_hash :: bytes
  rm_profile :: bytes
  rm_entries :: "child_reference list"

datatype multipart_record = Data data_part | Leaf leaf_manifest | Root root_manifest

definition first_index :: "leaf_manifest \<Rightarrow> u32" where
  "first_index leaf = ucast (lm_index leaf) * ucast FANOUT"

definition LeafManifest_validate :: "leaf_manifest \<Rightarrow> error + unit" where
  "LeafManifest_validate leaf =
     ensure (lm_index leaf < FANOUT) (Invalid ''leaf index outside bounds'')
    (ensure (1 \<le> length (lm_entries leaf) \<and> length (lm_entries leaf) \<le> unat FANOUT)
       (Invalid ''leaf entry count outside bounds'') (Inr ()))"

definition RootManifest_geometry :: "root_manifest \<Rightarrow> error + geometry" where
  "RootManifest_geometry root =
     rbind (Geometry_new (rm_length root)) (\<lambda>g.
     ensure (length (rm_entries root) = unat (g_leaves g))
       (Invalid ''root leaf count disagrees with length'') (Inr g))"

fun MultipartRecord_kind :: "multipart_record \<Rightarrow> record_kind" where
  "MultipartRecord_kind (Data _) = DataPart"
| "MultipartRecord_kind (Leaf _) = LeafManifest"
| "MultipartRecord_kind (Root _) = RootManifest"

definition reference_bytes :: "child_reference \<Rightarrow> bytes" where
  "reference_bytes entry = cr_txid entry @ cr_record_hash entry"

definition encode_references :: "bytes \<Rightarrow> child_reference list \<Rightarrow> bytes" where
  "encode_references bs entries = bs @ concat (map reference_bytes entries)"

fun MultipartRecord_encode :: "multipart_record \<Rightarrow> error + bytes" where
  "MultipartRecord_encode (Data part) =
     ensure (dp_index part < MAX_PARTS) (Invalid ''part index outside bounds'')
    (ensure (length (dp_payload part) \<le> DATA_BYTES) (Invalid ''data record exceeds cap'')
    (Inr (RecordKind_prefix DataPart @ to_le_bytes (dp_index part) @ dp_payload part)))"
| "MultipartRecord_encode (Leaf leaf) =
     rbind (LeafManifest_validate leaf) (\<lambda>_.
     rbind (try_from (length (lm_entries leaf))) (\<lambda>count :: u16.
     Inr (encode_references
       (RecordKind_prefix LeafManifest @ to_le_bytes (lm_index leaf) @ to_le_bytes count @
        to_le_bytes (first_index leaf)) (lm_entries leaf))))"
| "MultipartRecord_encode (Root root) =
     rbind (RootManifest_geometry root) (\<lambda>g.
     Inr (encode_references
       (RecordKind_prefix RootManifest @ to_le_bytes (rm_length root) @ rm_payload_hash root @
        to_le_bytes (g_parts g) @ to_le_bytes (g_leaves g) @ [0, 0] @ rm_profile root)
       (rm_entries root)))"

definition decode_reference :: "bytes \<Rightarrow> child_reference" where
  "decode_reference entry = \<lparr>cr_txid = take 32 entry, cr_record_hash = drop 32 entry\<rparr>"

definition decode_references :: "bytes \<Rightarrow> u16 \<Rightarrow> error + child_reference list" where
  "decode_references bs count =
     ensure (1 \<le> count \<and> count \<le> FANOUT) (Invalid ''reference count outside bounds'')
    (ensure (length bs = unat count * 64) (Invalid ''incorrect reference bytes or trailing data'')
    (Inr (map decode_reference (as_chunks 64 bs))))"

definition decode_data :: "bytes \<Rightarrow> error + multipart_record" where
  "decode_data bs =
     ensure (12 \<le> length bs) (Invalid ''truncated data part'')
    (let index = from_le_bytes (slice 8 12 bs) in
     ensure (index < MAX_PARTS) (Invalid ''part index outside bounds'')
    (Inr (Data \<lparr>dp_index = index, dp_payload = drop 12 bs\<rparr>)))"

definition decode_leaf :: "bytes \<Rightarrow> error + multipart_record" where
  "decode_leaf bs =
     ensure (16 \<le> length bs) (Invalid ''truncated leaf manifest'')
    (let index = from_le_bytes (slice 8 10 bs) :: u16;
         count = from_le_bytes (slice 10 12 bs) :: u16;
         first = from_le_bytes (slice 12 16 bs) :: u32 in
     ensure (index < FANOUT \<and> first = ucast index * ucast FANOUT) (Invalid ''noncanonical leaf position'')
    (rbind (decode_references (drop 16 bs) count) (\<lambda>entries.
     Inr (Leaf \<lparr>lm_index = index, lm_entries = entries\<rparr>))))"

definition decode_root :: "bytes \<Rightarrow> error + multipart_record" where
  "decode_root bs =
     ensure (64 \<le> length bs) (Invalid ''truncated root manifest'')
    (let len = from_le_bytes (slice 8 16 bs) in
     rbind (Geometry_new len) (\<lambda>g.
     let parts = from_le_bytes (slice 48 52 bs); leaves = from_le_bytes (slice 52 54 bs) in
     ensure (parts = g_parts g \<and> leaves = g_leaves g) (Invalid ''noncanonical root geometry'')
    (ensure (slice 54 56 bs = [0, 0]) (Invalid ''nonzero root reserved field'')
    (rbind (decode_references (drop 64 bs) leaves) (\<lambda>entries.
     Inr (Root \<lparr>rm_length = len, rm_payload_hash = slice 16 48 bs, rm_profile = slice 56 64 bs,
       rm_entries = entries\<rparr>))))))"

definition MultipartRecord_decode :: "bytes \<Rightarrow> error + multipart_record" where
  "MultipartRecord_decode bs =
     rbind (RecordKind_parse bs) (\<lambda>kind.
     ensure (length bs \<le> RECORD_BYTES) (Invalid ''multipart record exceeds cap'')
    (case kind of
       DataPart \<Rightarrow> decode_data bs
     | LeafManifest \<Rightarrow> decode_leaf bs
     | RootManifest \<Rightarrow> decode_root bs
     | _ \<Rightarrow> Inl (Invalid ''not a multipart record'')))"

definition ChildReference_new :: "(bytes \<Rightarrow> bytes) \<Rightarrow> bytes \<Rightarrow> bytes \<Rightarrow> error + child_reference" where
  "ChildReference_new sha256 txid record =
     rbind (MultipartRecord_decode record) (\<lambda>_.
     Inr \<lparr>cr_txid = txid, cr_record_hash = sha256 record\<rparr>)"

definition wf_reference :: "child_reference \<Rightarrow> bool" where
  "wf_reference r \<longleftrightarrow> length (cr_txid r) = 32 \<and> length (cr_record_hash r) = 32"

fun wf_multipart :: "multipart_record \<Rightarrow> bool" where
  "wf_multipart (Data part) = True"
| "wf_multipart (Leaf leaf) = (\<forall>r \<in> set (lm_entries leaf). wf_reference r)"
| "wf_multipart (Root root) =
     (length (rm_payload_hash root) = 32 \<and> length (rm_profile root) = 8 \<and>
      (\<forall>r \<in> set (rm_entries root). wf_reference r))"

subsection \<open>Geometry\<close>

text \<open>The geometry the constructor computes: the only geometries that exist.\<close>

definition wf_geometry :: "geometry \<Rightarrow> bool" where
  "wf_geometry g \<longleftrightarrow> Geometry_new (g_length g) = Inr g"

lemma Geometry_new_eq_Inr:
  "Geometry_new len = Inr g \<longleftrightarrow>
     len \<le> MAX_OBJECT_BYTES \<and> g_length g = len \<and>
     unat (g_parts g) = max (div_ceil (unat len) 262132) 1 \<and>
     unat (g_leaves g) = div_ceil (unat (g_parts g)) 511"
  by (cases g) (auto simp: Geometry_new_def try_from_eq_Inr DATA_BYTES_def RECORD_BYTES_def FANOUT_def)

lemma wf_geometry_new: "Geometry_new len = Inr g \<Longrightarrow> wf_geometry g"
  by (auto simp: wf_geometry_def Geometry_new_eq_Inr)

lemma geometry_bounds:
  assumes "wf_geometry g"
  shows "unat (g_length g) \<le> 8553279476" "1 \<le> unat (g_parts g)" "unat (g_parts g) \<le> 32630"
    "1 \<le> unat (g_leaves g)" "unat (g_leaves g) \<le> 64"
proof -
  from assms have len: "unat (g_length g) \<le> 8553279476"
    and parts: "unat (g_parts g) = max (div_ceil (unat (g_length g)) 262132) 1"
    and leaves: "unat (g_leaves g) = div_ceil (unat (g_parts g)) 511"
    by (auto simp: wf_geometry_def Geometry_new_eq_Inr MAX_OBJECT_BYTES_def word_le_nat_alt)
  have "div_ceil (unat (g_length g)) 262132 \<le> 32630" using len by (simp add: div_ceil_le_iff)
  with parts have p: "unat (g_parts g) \<le> 32630" "1 \<le> unat (g_parts g)" by auto
  with leaves have "unat (g_leaves g) \<le> 64" by (simp add: div_ceil_le_iff)
  moreover have "0 < unat (g_leaves g)" using leaves p(2) by (simp add: div_ceil_gt_iff)
  ultimately show "unat (g_length g) \<le> 8553279476" "1 \<le> unat (g_parts g)" "unat (g_parts g) \<le> 32630"
    "1 \<le> unat (g_leaves g)" "unat (g_leaves g) \<le> 64"
    using len p by auto
qed

lemma Geometry_new_total: "len \<le> MAX_OBJECT_BYTES \<Longrightarrow> \<exists>g. Geometry_new len = Inr g"
proof -
  assume len: "len \<le> MAX_OBJECT_BYTES"
  then have "div_ceil (unat len) 262132 \<le> 32630"
    by (simp add: div_ceil_le_iff MAX_OBJECT_BYTES_def word_le_nat_alt)
  then have p: "max (div_ceil (unat len) 262132) 1 \<le> 32630" by simp
  then obtain parts :: u32 where parts: "max (div_ceil (unat len) 262132) 1 = unat parts"
    using ex_unat [of "max (div_ceil (unat len) 262132) 1", where 'a = 32] by auto
  from p have "unat parts \<le> 32630" by (simp only: parts)
  then have "div_ceil (unat parts) 511 \<le> 64" by (simp add: div_ceil_le_iff)
  then obtain leaves :: u16 where "div_ceil (unat parts) 511 = unat leaves"
    using ex_unat [of "div_ceil (unat parts) 511", where 'a = 16] by auto
  with len parts have "Geometry_new len = Inr \<lparr>g_length = len, g_parts = parts, g_leaves = leaves\<rparr>"
    by (simp add: Geometry_new_eq_Inr)
  then show ?thesis ..
qed

lemma unat_u32_ucast16 [simp]: "unat (ucast (w :: u16) :: u32) = unat w"
  by (simp add: unsigned_ucast_eq take_bit_nat_eq_self order.strict_trans [OF unsigned_less])

lemma unat_u64_ucast32 [simp]: "unat (ucast (w :: u32) :: u64) = unat w"
  by (simp add: unsigned_ucast_eq take_bit_nat_eq_self order.strict_trans [OF unsigned_less])

lemma unat_nodes:
  assumes "wf_geometry g"
  shows "unat (Geometry_nodes g) = unat (g_parts g) + unat (g_leaves g) + 1"
  using geometry_bounds [OF assms] by (simp add: Geometry_nodes_def unat_word_ariths)

lemma part_length_eq:
  assumes "wf_geometry g" and "index < g_parts g"
  shows "part_length g index = Inr (min (unat (g_length g) - unat index * 262132) 262132)"
    and "unat index * 262132 \<le> unat (g_length g)"
proof -
  note b = geometry_bounds [OF assms(1)]
  have i: "unat index < unat (g_parts g)" using assms(2) by (simp add: word_less_nat_alt)
  have off: "unat (ucast index * word_of_nat DATA_BYTES :: u64) = unat index * 262132"
    using i b(3) by (simp add: unat_word_ariths geometry_consts)
  have parts: "unat (g_parts g) = max (div_ceil (unat (g_length g)) 262132) 1"
    using assms(1) by (simp add: wf_geometry_def Geometry_new_eq_Inr)
  show le: "unat index * 262132 \<le> unat (g_length g)"
  proof (cases "unat index = 0")
    case False
    with i parts have "unat index < div_ceil (unat (g_length g)) 262132" by (auto simp: max_def split: if_splits)
    then show ?thesis by (simp add: div_ceil_gt_iff)
  qed simp
  have "checked_sub (g_length g) (ucast index * word_of_nat DATA_BYTES :: u64) =
      Some (g_length g - ucast index * word_of_nat DATA_BYTES)"
    using le off by (simp add: checked_sub_def word_le_nat_alt)
  moreover have "unat (g_length g - ucast index * word_of_nat DATA_BYTES :: u64) =
      unat (g_length g) - unat index * 262132"
    using le off by (subst unat_sub) (simp_all add: word_le_nat_alt)
  ultimately show "part_length g index = Inr (min (unat (g_length g) - unat index * 262132) 262132)"
    using assms(2) by (simp add: part_length_def Let_def min_def word_le_nat_alt geometry_consts)
qed

lemma leaf_entries_eq:
  assumes "wf_geometry g" and "index < g_leaves g"
  shows "leaf_entries g index = Inr (word_of_nat (min (unat (g_parts g) - unat index * 511) 511))"
    and "unat index * 511 < unat (g_parts g)"
proof -
  note b = geometry_bounds [OF assms(1)]
  have i: "unat index < unat (g_leaves g)" using assms(2) by (simp add: word_less_nat_alt)
  have off: "unat (ucast index * ucast FANOUT :: u32) = unat index * 511"
    using i b(5) by (simp add: unat_word_ariths FANOUT_def)
  have leaves: "unat (g_leaves g) = div_ceil (unat (g_parts g)) 511"
    using assms(1) by (simp add: wf_geometry_def Geometry_new_eq_Inr)
  then show lt: "unat index * 511 < unat (g_parts g)" using i by (simp add: div_ceil_gt_iff)
  have "checked_sub (g_parts g) (ucast index * ucast FANOUT) = Some (g_parts g - ucast index * ucast FANOUT)"
    using lt off by (simp add: checked_sub_def word_le_nat_alt)
  moreover have "unat (g_parts g - ucast index * ucast FANOUT) = unat (g_parts g) - unat index * 511"
    using lt off by (subst unat_sub) (simp_all add: word_le_nat_alt)
  then have "unat (min (g_parts g - ucast index * ucast FANOUT) (ucast FANOUT)) =
      min (unat (g_parts g) - unat index * 511) 511"
    by (simp add: min_def word_le_nat_alt FANOUT_def)
  ultimately show "leaf_entries g index = Inr (word_of_nat (min (unat (g_parts g) - unat index * 511) 511))"
    using assms(2) by (simp add: leaf_entries_def try_from_def)
qed

text \<open>Cutting \<open>n\<close> into pieces of \<open>w\<close>: the pieces add up.\<close>

lemma sum_pieces: "(\<Sum>i < k. min (n - i * w) w) = min n (k * w)" for n w k :: nat
proof (induction k)
  case (Suc k)
  have "min n (k * w) + min (n - k * w) w = min n (w + k * w)" by (auto simp: min_def)
  with Suc show ?case by simp
qed simp

subsection \<open>Multipart records are a strict codec\<close>

lemma reference_bytes_decode: "length c = 64 \<Longrightarrow> reference_bytes (decode_reference c) = c"
  by (simp add: reference_bytes_def decode_reference_def)

lemma decode_reference_bytes: "wf_reference r \<Longrightarrow> decode_reference (reference_bytes r) = r"
  by (simp add: reference_bytes_def decode_reference_def wf_reference_def)

lemma wf_decode_reference: "length c = 64 \<Longrightarrow> wf_reference (decode_reference c)"
  by (simp add: decode_reference_def wf_reference_def)

lemma length_reference_bytes: "wf_reference r \<Longrightarrow> length (reference_bytes r) = 64"
  by (simp add: reference_bytes_def wf_reference_def)

lemma decode_references_eq_Inr:
  "decode_references bs count = Inr es \<longleftrightarrow>
     1 \<le> unat count \<and> unat count \<le> 511 \<and> length es = unat count \<and>
     (\<forall>r \<in> set es. wf_reference r) \<and> bs = concat (map reference_bytes es)"
    (is "?L \<longleftrightarrow> ?R")
proof
  assume L: ?L
  then have len: "length bs = 64 * unat count" and es: "es = map decode_reference (as_chunks 64 bs)"
    by (auto simp: decode_references_def)
  have chunk: "c \<in> set (as_chunks 64 bs) \<Longrightarrow> length c = 64" for c by (rule as_chunks_lengths)
  have "concat (as_chunks 64 bs) = bs \<and> length (as_chunks 64 bs) = unat count"
    using len by (intro concat_as_chunks) simp_all
  moreover have "map reference_bytes es = as_chunks 64 bs"
    using chunk by (simp add: es reference_bytes_decode map_idI)
  ultimately show ?R
    using L es chunk
    by (auto simp: decode_references_def FANOUT_def word_le_nat_alt intro: wf_decode_reference)
next
  assume R: ?R
  then have lens: "\<forall>c \<in> set (map reference_bytes es). length c = 64"
    by (auto simp: length_reference_bytes)
  with R have "length bs = unat count * 64" using length_concat_same [OF lens] by simp
  moreover have "as_chunks 64 bs = map reference_bytes es"
    using R lens as_chunks_concat [of 64 "map reference_bytes es"] by simp
  moreover have "map (decode_reference \<circ> reference_bytes) es = es"
    using R by (auto intro: map_idI simp: decode_reference_bytes)
  ultimately show ?L
    using R by (simp add: decode_references_def FANOUT_def word_le_nat_alt)
qed

fun multipart_ok :: "multipart_record \<Rightarrow> bool" where
  "multipart_ok (Data part) = (dp_index part < MAX_PARTS \<and> length (dp_payload part) \<le> 262132)"
| "multipart_ok (Leaf leaf) =
     (lm_index leaf < FANOUT \<and> 1 \<le> length (lm_entries leaf) \<and> length (lm_entries leaf) \<le> 511)"
| "multipart_ok (Root root) =
     (\<exists>g. Geometry_new (rm_length root) = Inr g \<and> length (rm_entries root) = unat (g_leaves g))"

fun multipart_body :: "multipart_record \<Rightarrow> bytes" where
  "multipart_body (Data part) = to_le_bytes (dp_index part) @ dp_payload part"
| "multipart_body (Leaf leaf) =
     to_le_bytes (lm_index leaf) @ to_le_bytes (word_of_nat (length (lm_entries leaf)) :: u16) @
     to_le_bytes (first_index leaf) @ concat (map reference_bytes (lm_entries leaf))"
| "multipart_body (Root root) =
     (case Geometry_new (rm_length root) of
        Inl _ \<Rightarrow> []
      | Inr g \<Rightarrow> to_le_bytes (rm_length root) @ rm_payload_hash root @ to_le_bytes (g_parts g) @
          to_le_bytes (g_leaves g) @ [0, 0] @ rm_profile root @
          concat (map reference_bytes (rm_entries root)))"

lemma MultipartRecord_encode_eq_Inr:
  "MultipartRecord_encode r = Inr b \<longleftrightarrow>
     multipart_ok r \<and> b = RecordKind_prefix (MultipartRecord_kind r) @ multipart_body r"
proof (cases r)
  case (Root root)
  then show ?thesis
    by (auto simp: RootManifest_geometry_def encode_references_def split: sum.splits)
qed (auto simp: LeafManifest_validate_def encode_references_def try_from_def geometry_consts)

lemma decode_data_eq_Inr:
  "decode_data (RecordKind_prefix k @ body) = Inr r \<longleftrightarrow>
     (\<exists>part. r = Data part \<and> dp_index part < MAX_PARTS \<and> body = to_le_bytes (dp_index part) @ dp_payload part)"
    (is "?L \<longleftrightarrow> ?R")
proof
  assume L: ?L
  then have "4 \<le> length body" by (simp add: decode_data_def Let_def)
  then obtain a q where body: "body = a @ q" "length a = 4" using split_at_length by blast
  with L show ?R
    by (auto simp: decode_data_def Let_def slice_simps)
next
  assume ?R
  then show ?L by (auto simp: decode_data_def Let_def slice_simps)
qed

lemma decode_leaf_eq_Inr:
  "decode_leaf (RecordKind_prefix k @ body) = Inr r \<longleftrightarrow>
     (\<exists>leaf. r = Leaf leaf \<and> multipart_ok r \<and> wf_multipart r \<and> body = multipart_body r)"
    (is "?L \<longleftrightarrow> ?R")
proof
  assume L: ?L
  then have "8 \<le> length body" by (simp add: decode_leaf_def Let_def)
  then obtain a q where 1: "body = a @ q" "length a = 8" using split_at_length by blast
  then obtain a1 a' where 2: "a = a1 @ a'" "length a1 = 2" using split_at_length [of 2 a] by auto
  with 1 obtain a2 a3 where 3: "a' = a2 @ a3" "length a2 = 2" "length a3 = 4"
    using split_at_length [of 2 a'] by auto
  from L show ?R
    unfolding 1 2 3
    by (auto simp: decode_leaf_def Let_def slice_simps 1(2) 2 3 decode_references_eq_Inr first_index_def
        from_le_eq_widths(2))
next
  assume ?R
  then obtain leaf where leaf: "r = Leaf leaf" "multipart_ok r" "wf_multipart r" "body = multipart_body r"
    by blast
  then have "unat (word_of_nat (length (lm_entries leaf)) :: u16) = length (lm_entries leaf)"
    by (intro unat_of_nat_small) simp
  then have "decode_references (concat (map reference_bytes (lm_entries leaf)))
      (word_of_nat (length (lm_entries leaf))) = Inr (lm_entries leaf)"
    using leaf by (simp add: decode_references_eq_Inr)
  with leaf show ?L
    by (auto simp: decode_leaf_def Let_def slice_simps first_index_def)
qed

lemma decode_root_eq_Inr:
  "decode_root (RecordKind_prefix k @ body) = Inr r \<longleftrightarrow>
     (\<exists>root. r = Root root \<and> multipart_ok r \<and> wf_multipart r \<and> body = multipart_body r)"
    (is "?L \<longleftrightarrow> ?R")
proof
  assume L: ?L
  then have "56 \<le> length body" by (simp add: decode_root_def Let_def)
  then obtain a1 q1 where 1: "body = a1 @ q1" "length a1 = 8" "48 \<le> length q1"
    using split_at_length [of 8 body] by auto
  then obtain a2 q2 where 2: "q1 = a2 @ q2" "length a2 = 32" "16 \<le> length q2"
    using split_at_length [of 32 q1] by auto
  then obtain a3 q3 where 3: "q2 = a3 @ q3" "length a3 = 4" "12 \<le> length q3"
    using split_at_length [of 4 q2] by auto
  then obtain a4 q4 where 4: "q3 = a4 @ q4" "length a4 = 2" "10 \<le> length q4"
    using split_at_length [of 2 q3] by auto
  then obtain a5 q5 where 5: "q4 = a5 @ q5" "length a5 = 2" "8 \<le> length q5"
    using split_at_length [of 2 q4] by auto
  then obtain a6 q6 where 6: "q5 = a6 @ q6" "length a6 = 8"
    using split_at_length [of 8 q5] by auto
  note lens = 1(2) 2(2) 3(2) 4(2) 5(2) 6(2)
  from L show ?R
    unfolding 1(1) 2(1) 3(1) 4(1) 5(1) 6(1)
    by (auto simp: decode_root_def Let_def slice_simps lens decode_references_eq_Inr
        to_le_from_le_widths)
      (metis to_le_from_le_widths lens)+
next
  assume ?R
  then obtain root g where root: "r = Root root" "wf_multipart r" "body = multipart_body r"
      "Geometry_new (rm_length root) = Inr g" "length (rm_entries root) = unat (g_leaves g)"
    by auto
  then have "wf_geometry g" by (auto intro: wf_geometry_new)
  from geometry_bounds(4,5) [OF this]
  have "decode_references (concat (map reference_bytes (rm_entries root))) (g_leaves g) =
      Inr (rm_entries root)"
    using root by (simp add: decode_references_eq_Inr)
  with root show ?L
    by (cases root) (auto simp: decode_root_def Let_def slice_simps, simp_all add: slice_def)
qed

lemma multipart_ok_size:
  assumes "wf_multipart r" "multipart_ok r"
  shows "length (multipart_body r) \<le> 262136"
proof -
  have refs: "length (concat (map reference_bytes es)) = 64 * length es"
    if "\<forall>e \<in> set es. wf_reference e" for es
    using length_concat_same [of "map reference_bytes es" 64] that by (auto simp: length_reference_bytes)
  show ?thesis
  proof (cases r)
    case (Root root)
    with assms(2) obtain g where g: "Geometry_new (rm_length root) = Inr g"
      "length (rm_entries root) = unat (g_leaves g)" by auto
    from geometry_bounds(5) [OF wf_geometry_new [OF g(1)]] Root assms g show ?thesis
      by (auto simp: refs)
  qed (use assms in \<open>auto simp: refs\<close>)
qed

lemma MultipartRecord_decode_eq_Inr:
  "MultipartRecord_decode b = Inr r \<longleftrightarrow>
     wf_multipart r \<and> multipart_ok r \<and> b = RecordKind_prefix (MultipartRecord_kind r) @ multipart_body r"
    (is "?L \<longleftrightarrow> ?R")
proof
  assume L: ?L
  then obtain k body where b: "b = RecordKind_prefix k @ body"
    by (auto simp: MultipartRecord_decode_def RecordKind_parse_iff)
  with L show ?R
    by (cases k) (auto simp: MultipartRecord_decode_def decode_data_eq_Inr decode_leaf_eq_Inr
        decode_root_eq_Inr RECORD_BYTES_def)
next
  assume R: ?R
  then have "length (multipart_body r) \<le> 262136" using multipart_ok_size by blast
  with R show ?L
    by (cases r) (auto simp: MultipartRecord_decode_def decode_data_eq_Inr decode_leaf_eq_Inr
        decode_root_eq_Inr RECORD_BYTES_def)
qed

interpretation multipart_codec: strict_codec MultipartRecord_encode MultipartRecord_decode wf_multipart
  by unfold_locales (auto simp: MultipartRecord_encode_eq_Inr MultipartRecord_decode_eq_Inr)

subsection \<open>Properties\<close>

text \<open>
  The multipart decoder accepts exactly the encodings of well-formed data parts, leaf manifests
  and root manifests, and returns what was encoded; no record has two accepted encodings.
\<close>
theorem multipart_record_codec:
  "MultipartRecord_decode b = Inr r \<longleftrightarrow> wf_multipart r \<and> MultipartRecord_encode r = Inr b"
  by (rule multipart_codec.decode_iff)

text \<open>
  The geometry of an object exists for exactly the lengths up to \<open>MAX_OBJECT_BYTES\<close>; it then
  stays within \<open>MAX_PARTS\<close> parts and \<open>MAX_NODES\<close> nodes, and the node count does not wrap.
\<close>
theorem geometry_within_bounds:
  "((\<exists>g. Geometry_new len = Inr g) \<longleftrightarrow> len \<le> MAX_OBJECT_BYTES) \<and>
   (Geometry_new len = Inr g \<longrightarrow>
      g_parts g \<le> MAX_PARTS \<and> Geometry_nodes g \<le> MAX_NODES \<and>
      unat (Geometry_nodes g) = unat (g_parts g) + unat (g_leaves g) + 1)"
proof -
  have "(\<exists>g. Geometry_new len = Inr g) \<longleftrightarrow> len \<le> MAX_OBJECT_BYTES"
    using Geometry_new_total by (auto simp: Geometry_new_eq_Inr)
  moreover have "Geometry_new len = Inr g \<Longrightarrow> g_parts g \<le> MAX_PARTS \<and> Geometry_nodes g \<le> MAX_NODES \<and>
      unat (Geometry_nodes g) = unat (g_parts g) + unat (g_leaves g) + 1"
    using geometry_bounds [OF wf_geometry_new] unat_nodes [OF wf_geometry_new]
    by (fastforce simp: word_le_nat_alt geometry_consts)
  ultimately show ?thesis by blast
qed

theorem geometry_within_bounds_witness:
  "Geometry_new 1000000 = Inr \<lparr>g_length = 1000000, g_parts = 4, g_leaves = 1\<rparr> \<and>
   Geometry_nodes \<lparr>g_length = 1000000, g_parts = 4, g_leaves = 1\<rparr> \<le> MAX_NODES"
proof -
  have "Geometry_new 1000000 = Inr \<lparr>g_length = 1000000, g_parts = 4, g_leaves = 1\<rparr>"
    by (simp add: Geometry_new_eq_Inr geometry_consts div_ceil_def)
  with geometry_within_bounds show ?thesis by blast
qed

text \<open>
  The lengths of the parts of an object are all defined and add up to its length, and the entry
  counts of its leaves are all defined and add up to its number of parts; neither subtraction can
  underflow.
\<close>
theorem geometry_partitions_object:
  assumes "Geometry_new len = Inr g"
  shows "(\<Sum>i < unat (g_parts g). projr (part_length g (word_of_nat i))) = unat len \<and>
    (\<Sum>i < unat (g_leaves g). unat (projr (leaf_entries g (word_of_nat i)))) = unat (g_parts g) \<and>
    (\<forall>i < g_parts g. \<exists>n. part_length g i = Inr n) \<and> (\<forall>i < g_leaves g. \<exists>n. leaf_entries g i = Inr n)"
proof -
  have wf: "wf_geometry g" and len: "g_length g = len"
    and parts: "unat (g_parts g) = max (div_ceil (unat len) 262132) 1"
    and leaves: "unat (g_leaves g) = div_ceil (unat (g_parts g)) 511"
    using assms by (auto simp: Geometry_new_eq_Inr intro: wf_geometry_new)
  have "(\<Sum>i < unat (g_parts g). projr (part_length g (word_of_nat i))) =
      (\<Sum>i < unat (g_parts g). min (unat len - i * 262132) 262132)"
    by (intro sum.cong) (simp_all add: part_length_eq [OF wf] word_index len)
  also have "\<dots> = min (unat len) (unat (g_parts g) * 262132)" by (rule sum_pieces)
  also have "\<dots> = unat len"
    using div_ceil_le_iff [of 262132 "unat len" "unat (g_parts g)"] parts by simp
  finally have 1: "(\<Sum>i < unat (g_parts g). projr (part_length g (word_of_nat i))) = unat len" .
  have "(\<Sum>i < unat (g_leaves g). unat (projr (leaf_entries g (word_of_nat i)))) =
      (\<Sum>i < unat (g_leaves g). min (unat (g_parts g) - i * 511) 511)"
    by (intro sum.cong) (simp_all add: leaf_entries_eq [OF wf] word_index unat_of_nat_small)
  also have "\<dots> = min (unat (g_parts g)) (unat (g_leaves g) * 511)" by (rule sum_pieces)
  also have "\<dots> = unat (g_parts g)"
    using div_ceil_le_iff [of 511 "unat (g_parts g)" "unat (g_leaves g)"] leaves by simp
  finally show ?thesis using 1 part_length_eq(1) [OF wf] leaf_entries_eq(1) [OF wf] by blast
qed

theorem geometry_partitions_object_witness:
  "(\<Sum>i < (4 :: nat). projr (part_length \<lparr>g_length = 1000000, g_parts = 4, g_leaves = 1\<rparr> (word_of_nat i))) = 1000000"
proof -
  have "Geometry_new 1000000 = Inr \<lparr>g_length = 1000000, g_parts = 4, g_leaves = 1\<rparr>"
    by (simp add: Geometry_new_eq_Inr geometry_consts div_ceil_def)
  from geometry_partitions_object [OF this] show ?thesis by simp
qed

end
