(* ===== verification/Consistency.thy ===== *)
theory Consistency
  imports Multipart
begin

section \<open>Checking a publication as it is signed (\<^verbatim>\<open>urma-core/src/multipart/consistency.rs\<close>)\<close>

text \<open>
  \<open>MultipartConsistency\<close> is fed the records of a publication one by one, data parts first, then leaf
  manifests, then the root, and keeps running hashes instead of the records. A running SHA-256 state
  is the list of bytes fed to it so far, and \<open>finalize\<close> applies the parameter \<open>sha256\<close>. Every method
  returns its result with the state it leaves, also when it fails half-way.
\<close>

record consistency =
  mc_parts :: u32
  mc_leaves :: u16
  mc_length :: u64
  mc_last_part_length :: nat
  mc_last_leaf_entries :: nat
  mc_payload_hash :: bytes
  mc_group_hash :: bytes
  mc_groups :: "bytes list"
  mc_leaves_hash :: bytes

definition MultipartConsistency_new :: consistency where
  "MultipartConsistency_new = \<lparr>mc_parts = 0, mc_leaves = 0, mc_length = 0, mc_last_part_length = 0,
     mc_last_leaf_entries = 0, mc_payload_hash = [], mc_group_hash = [], mc_groups = [], mc_leaves_hash = []\<rparr>"

definition references_hash :: "(bytes \<Rightarrow> bytes) \<Rightarrow> child_reference list \<Rightarrow> bytes" where
  "references_hash sha256 entries = sha256 (concat (map (\<lambda>e. cr_txid e @ cr_record_hash e) entries))"

text \<open>\<open>self.groups.push(self.group_hash.finalize_reset())\<close>\<close>

definition push_group :: "(bytes \<Rightarrow> bytes) \<Rightarrow> consistency \<Rightarrow> consistency" where
  "push_group sha256 s = s\<lparr>mc_groups := mc_groups s @ [sha256 (mc_group_hash s)], mc_group_hash := []\<rparr>"

definition accept_data ::
  "(bytes \<Rightarrow> bytes) \<Rightarrow> consistency \<Rightarrow> data_part \<Rightarrow> child_reference \<Rightarrow> (error + unit) \<times> consistency" where
  "accept_data sha256 s part reference =
     (if dp_index part \<noteq> mc_parts s then (Inl (Invalid ''noncanonical data publication order''), s)
      else if mc_parts s > 0 \<and> mc_last_part_length s \<noteq> DATA_BYTES then (Inl (Invalid ''short nonfinal data part''), s)
      else
        let s1 = s\<lparr>mc_payload_hash := mc_payload_hash s @ dp_payload part,
                   mc_group_hash := mc_group_hash s @ cr_txid reference @ cr_record_hash reference,
                   mc_last_part_length := length (dp_payload part)\<rparr>
        in case try_from (length (dp_payload part)) of
             Inl e \<Rightarrow> (Inl e, s1)
           | Inr n \<Rightarrow>
             (case checked_add (mc_length s1) n of
                None \<Rightarrow> (Inl (Missing ''payload length overflow''), s1)
              | Some len \<Rightarrow>
                  let s2 = s1\<lparr>mc_length := len\<rparr> in
                  (case checked_add (mc_parts s2) 1 of
                     None \<Rightarrow> (Inl (Missing ''part count overflow''), s2)
                   | Some parts \<Rightarrow>
                       let s3 = s2\<lparr>mc_parts := parts\<rparr> in
                       (Inr (), if unat parts mod unat FANOUT = 0 then push_group sha256 s3 else s3))))"

definition accept_leaf ::
  "(bytes \<Rightarrow> bytes) \<Rightarrow> consistency \<Rightarrow> leaf_manifest \<Rightarrow> child_reference \<Rightarrow> (error + unit) \<times> consistency" where
  "accept_leaf sha256 s leaf reference =
     (if \<not> (mc_parts s > 0 \<and> lm_index leaf = mc_leaves s)
      then (Inl (Invalid ''noncanonical leaf publication order''), s)
      else if mc_leaves s > 0 \<and> mc_last_leaf_entries s \<noteq> unat FANOUT
      then (Inl (Invalid ''short nonfinal leaf''), s)
      else
        let s1 = (if mc_leaves s = 0 \<and> unat (mc_parts s) mod unat FANOUT \<noteq> 0 then push_group sha256 s else s)
        in if length (mc_groups s1) \<le> unat (mc_leaves s1)
           then (Inl (Missing ''leaf references exceed data groups''), s1)
           else if references_hash sha256 (lm_entries leaf) \<noteq> mc_groups s1 ! unat (mc_leaves s1)
           then (Inl (Invalid ''leaf references differ from signed data parts''), s1)
           else
             let s2 = s1\<lparr>mc_leaves_hash := mc_leaves_hash s1 @ cr_txid reference @ cr_record_hash reference,
                         mc_last_leaf_entries := length (lm_entries leaf)\<rparr>
             in case checked_add (mc_leaves s2) 1 of
                  None \<Rightarrow> (Inl (Missing ''leaf count overflow''), s2)
                | Some leaves \<Rightarrow> (Inr (), s2\<lparr>mc_leaves := leaves\<rparr>))"

definition accept_root :: "(bytes \<Rightarrow> bytes) \<Rightarrow> consistency \<Rightarrow> root_manifest \<Rightarrow> error + unit" where
  "accept_root sha256 s root =
     ensure (rm_payload_hash root = sha256 (mc_payload_hash s)) (Invalid ''root payload hash mismatch'')
    (ensure (references_hash sha256 (rm_entries root) = sha256 (mc_leaves_hash s))
       (Invalid ''root references differ from signed leaves'')
    (rbind (Geometry_new (rm_length root)) (\<lambda>g.
     ensure (mc_length s = rm_length root \<and> mc_parts s = g_parts g \<and> mc_leaves s = g_leaves g)
       (Invalid ''publication geometry mismatch'')
    (rbind (ok_or (Panic ''attempt to subtract with overflow'') (checked_sub (mc_leaves s) 1)) (\<lambda>last_leaf.
     rbind (leaf_entries g last_leaf) (\<lambda>entries.
     ensure (mc_last_leaf_entries s = unat entries) (Invalid ''final leaf size mismatch'') (Inr ())))))))"

definition accept :: "(bytes \<Rightarrow> bytes) \<Rightarrow> consistency \<Rightarrow> bytes \<Rightarrow> bytes \<Rightarrow> (error + unit) \<times> consistency" where
  "accept sha256 s bs txid =
     (case MultipartRecord_decode bs of
        Inl e \<Rightarrow> (Inl e, s)
      | Inr record \<Rightarrow>
          let reference = \<lparr>cr_txid = txid, cr_record_hash = sha256 bs\<rparr> in
          (case record of
             Data part \<Rightarrow> accept_data sha256 s part reference
           | Leaf leaf \<Rightarrow> accept_leaf sha256 s leaf reference
           | Root root \<Rightarrow> (accept_root sha256 s root, s)))"

definition validate_count :: "consistency \<Rightarrow> u32 \<Rightarrow> error + unit" where
  "validate_count s count =
     rbind (Geometry_new (mc_length s)) (\<lambda>g.
     ensure (Geometry_nodes g = count) (Invalid ''publication root or geometry missing'') (Inr ()))"

text \<open>The caller's loop: feed the records in order and stop at the first error.\<close>

fun accept_all :: "(bytes \<Rightarrow> bytes) \<Rightarrow> consistency \<Rightarrow> (bytes \<times> bytes) list \<Rightarrow> (error + unit) \<times> consistency" where
  "accept_all sha256 s [] = (Inr (), s)"
| "accept_all sha256 s ((bs, txid) # rest) =
     (case accept sha256 s bs txid of (Inl e, s') \<Rightarrow> (Inl e, s') | (Inr _, s') \<Rightarrow> accept_all sha256 s' rest)"

subsection \<open>What a publisher signs\<close>

text \<open>
  The records of an object: its pieces of \<open>DATA_BYTES\<close>, leaf manifests over groups of \<open>FANOUT\<close>
  references and the root. The transaction ids are given.
\<close>

definition pieces :: "bytes \<Rightarrow> bytes list" where
  "pieces payload = (if payload = [] then [[]] else chunks DATA_BYTES payload)"

definition data_records :: "bytes list \<Rightarrow> multipart_record list" where
  "data_records ps = map (\<lambda>i. Data \<lparr>dp_index = word_of_nat i, dp_payload = ps ! i\<rparr>) [0..<length ps]"

definition references :: "(bytes \<Rightarrow> bytes) \<Rightarrow> bytes list \<Rightarrow> bytes list \<Rightarrow> child_reference list" where
  "references sha256 records txids = map2 (\<lambda>b t. \<lparr>cr_txid = t, cr_record_hash = sha256 b\<rparr>) records txids"

definition leaf_records :: "child_reference list \<Rightarrow> multipart_record list" where
  "leaf_records refs = (let gs = chunks (unat FANOUT) refs in
     map (\<lambda>j. Leaf \<lparr>lm_index = word_of_nat j, lm_entries = gs ! j\<rparr>) [0..<length gs])"

subsection \<open>The checker on a canonical publication\<close>

text \<open>The state after the data parts \<open>ps\<close> with reference bytes \<open>rs\<close>.\<close>

definition data_state :: "(bytes \<Rightarrow> bytes) \<Rightarrow> bytes list \<Rightarrow> bytes list \<Rightarrow> consistency" where
  "data_state sha256 ps rs =
     \<lparr>mc_parts = word_of_nat (length ps), mc_leaves = 0, mc_length = word_of_nat (length (concat ps)),
      mc_last_part_length = (if ps = [] then 0 else length (last ps)), mc_last_leaf_entries = 0,
      mc_payload_hash = concat ps,
      mc_group_hash = concat (drop (length rs - length rs mod 511) rs),
      mc_groups = map (\<lambda>g. sha256 (concat g)) (as_chunks 511 rs), mc_leaves_hash = []\<rparr>"

lemma length_concat_bound: "(\<forall>p \<in> set ps. length p \<le> n) \<Longrightarrow> length (concat ps) \<le> length ps * n"
  by (induction ps) auto

lemma drop_group:
  "drop (Suc (length rs) - Suc (length rs) mod 511) (rs @ [r]) =
     (if Suc (length rs) mod 511 = 0 then [] else drop (length rs - length rs mod 511) rs @ [r])"
proof (cases "Suc (length rs) mod 511 = 0")
  case False
  then have "Suc (length rs) mod 511 = Suc (length rs mod 511)" by (simp add: mod_Suc split: if_splits)
  then show ?thesis using False by simp
qed simp

lemma accept_data_snoc:
  assumes "length rs = length ps" "length ps < 32630" "\<forall>q \<in> set ps. length q = 262132" "length p \<le> 262132"
  shows "accept_data sha256 (data_state sha256 ps rs) \<lparr>dp_index = word_of_nat (length ps), dp_payload = p\<rparr> ref =
    (Inr (), data_state sha256 (ps @ [p]) (rs @ [cr_txid ref @ cr_record_hash ref]))"
proof -
  have total: "length (concat ps) \<le> 32630 * 262132"
    using length_concat_bound [of ps 262132] assms(2,3) by (auto intro: order.trans)
  have parts: "checked_add (word_of_nat (length ps) :: u32) 1 = Some (word_of_nat (Suc (length ps)))"
    using assms(2) by (simp add: checked_add_Some unat_of_nat_small del: of_nat_Suc)
  have len: "checked_add (word_of_nat (length (concat ps)) :: u64) (word_of_nat (length p)) =
      Some (word_of_nat (length (concat (ps @ [p]))))"
    using total assms(4) by (simp add: checked_add_Some unat_of_nat_small del: of_nat_add)
  have size: "try_from (length p) = Inr (word_of_nat (length p) :: u64)"
    using assms(4) by (simp add: try_from_def)
  have last: "ps \<noteq> [] \<Longrightarrow> length (last ps) = 262132" using assms(3) by simp
  have mod: "unat (word_of_nat (Suc (length ps)) :: u32) mod unat FANOUT = Suc (length rs) mod 511"
    using assms(1,2) by (simp add: unat_of_nat_small FANOUT_def del: of_nat_Suc)
  have grp: "drop (length (rs @ [r]) - length (rs @ [r]) mod 511) (rs @ [r]) =
      (if Suc (length rs) mod 511 = 0 then [] else drop (length rs - length rs mod 511) rs @ [r])" for r
    using drop_group [of rs r] by simp
  show ?thesis
    unfolding accept_data_def data_state_def grp
    by (simp add: DATA_BYTES_def RECORD_BYTES_def last size len [simplified] parts [simplified] mod [simplified]
        push_group_def as_chunks_snoc Let_def)
qed

lemma decode_data_record:
  assumes "MultipartRecord_encode (Data \<lparr>dp_index = i, dp_payload = p\<rparr>) = Inr b"
  shows "accept sha256 s b t = accept_data sha256 s \<lparr>dp_index = i, dp_payload = p\<rparr> \<lparr>cr_txid = t, cr_record_hash = sha256 b\<rparr>"
proof -
  have "MultipartRecord_decode b = Inr (Data \<lparr>dp_index = i, dp_payload = p\<rparr>)"
    using assms by (simp add: multipart_codec.decode_iff)
  then show ?thesis by (simp add: accept_def Let_def)
qed

lemma decode_leaf_record:
  assumes "MultipartRecord_encode (Leaf leaf) = Inr b" "\<forall>e \<in> set (lm_entries leaf). wf_reference e"
  shows "accept sha256 s b t = accept_leaf sha256 s leaf \<lparr>cr_txid = t, cr_record_hash = sha256 b\<rparr>"
proof -
  have "MultipartRecord_decode b = Inr (Leaf leaf)" using assms by (simp add: multipart_codec.decode_iff)
  then show ?thesis by (simp add: accept_def Let_def)
qed

lemma accept_all_append:
  "accept_all sha256 s (xs @ ys) =
     (case accept_all sha256 s xs of (Inl e, s') \<Rightarrow> (Inl e, s') | (Inr _, s') \<Rightarrow> accept_all sha256 s' ys)"
  by (induction sha256 s xs rule: accept_all.induct) (auto split: prod.splits sum.splits)

lemma accept_all_snoc:
  "accept_all sha256 s xs = (Inr (), s1) \<Longrightarrow> accept sha256 s1 b t = (Inr (), s2) \<Longrightarrow>
   accept_all sha256 s (xs @ [(b, t)]) = (Inr (), s2)"
  by (simp add: accept_all_append)

text \<open>The data parts: every part but the last is full.\<close>

definition full_but_last :: "bytes list \<Rightarrow> bool" where
  "full_but_last ps \<longleftrightarrow> length ps \<le> 32630 \<and>
     (\<forall>i < length ps. length (ps ! i) \<le> 262132 \<and> (Suc i < length ps \<longrightarrow> length (ps ! i) = 262132))"

lemma data_phase:
  assumes "full_but_last ps" "list_all2 (\<lambda>r b. MultipartRecord_encode r = Inr b) (data_records ps) ds"
    "length ts = length ps" "k \<le> length ps"
  shows "accept_all sha256 MultipartConsistency_new (take k (zip ds ts)) =
    (Inr (), data_state sha256 (take k ps) (map reference_bytes (take k (references sha256 ds ts))))"
  using assms(4)
proof (induction k)
  case 0
  then show ?case by (simp add: MultipartConsistency_new_def data_state_def as_chunks_short)
next
  case (Suc k)
  have len: "length ds = length ps" using assms(2) by (simp add: list_all2_conv_all_nth data_records_def)
  have enc: "MultipartRecord_encode (Data \<lparr>dp_index = word_of_nat k, dp_payload = ps ! k\<rparr>) = Inr (ds ! k)"
    using assms(2) Suc.prems by (simp add: list_all2_conv_all_nth data_records_def)
  let ?rs = "map reference_bytes (take k (references sha256 ds ts))"
  let ?ref = "\<lparr>cr_txid = ts ! k, cr_record_hash = sha256 (ds ! k)\<rparr>"
  have refs: "length (references sha256 ds ts) = length ps" "references sha256 ds ts ! k = ?ref"
    using len assms(3) Suc.prems by (simp_all add: references_def)
  have "\<forall>q \<in> set (take k ps). length q = 262132"
    using assms(1) Suc.prems by (auto simp: full_but_last_def in_set_conv_nth)
  then have "accept sha256 (data_state sha256 (take k ps) ?rs) (ds ! k) (ts ! k) =
      (Inr (), data_state sha256 (take k ps @ [ps ! k]) (?rs @ [reference_bytes ?ref]))"
    using accept_data_snoc [of ?rs "take k ps" "ps ! k" sha256 ?ref] assms(1) Suc.prems refs(1)
    by (simp add: decode_data_record [OF enc] full_but_last_def reference_bytes_def)
  with Suc show ?case
    using accept_all_snoc len assms(3) refs by (simp add: take_Suc_conv_app_nth)
qed

text \<open>The leaf manifests: the first one closes the last, short group.\<close>

definition leaf_state :: "(bytes \<Rightarrow> bytes) \<Rightarrow> bytes list \<Rightarrow> child_reference list \<Rightarrow> nat \<Rightarrow> bytes list \<Rightarrow> consistency" where
  "leaf_state sha256 ps refs j lrs =
     (data_state sha256 ps (map reference_bytes refs))
     \<lparr>mc_leaves := word_of_nat j, mc_last_leaf_entries := length (chunks 511 refs ! (j - 1)), mc_group_hash := [],
      mc_groups := map (\<lambda>g. sha256 (concat (map reference_bytes g))) (chunks 511 refs), mc_leaves_hash := concat lrs\<rparr>"

lemma group_of_chunk:
  "references_hash sha256 g = sha256 (concat (map reference_bytes g))"
  by (simp add: references_hash_def reference_bytes_def [abs_def])

lemma flushed_groups:
  "map (\<lambda>g. sha256 (concat g)) (as_chunks 511 rs) @
     (if length rs mod 511 \<noteq> 0 then [sha256 (concat (drop (length rs - length rs mod 511) rs))] else []) =
   map (\<lambda>g. sha256 (concat g)) (chunks 511 rs)"
  by (simp add: chunks_as_chunks)

lemma accept_leaf_step:
  assumes "length refs = length ps" "length ps \<le> 32630" "j < length (chunks 511 refs)"
    "s = (if j = 0 then data_state sha256 ps (map reference_bytes refs) else leaf_state sha256 ps refs j lrs)"
    "j = 0 \<longrightarrow> lrs = []"
  shows "accept_leaf sha256 s \<lparr>lm_index = word_of_nat j, lm_entries = chunks 511 refs ! j\<rparr> ref =
    (Inr (), leaf_state sha256 ps refs (Suc j) (lrs @ [cr_txid ref @ cr_record_hash ref]))"
proof -
  have n: "length (chunks 511 refs) \<le> 64" "j * 511 < length refs"
    using assms(1-3) by (simp_all add: length_chunks div_ceil_le_iff div_ceil_gt_iff)
  then have parts: "0 < (word_of_nat (length ps) :: u32)" "unat (word_of_nat (length ps) :: u32) = length refs"
    using assms(1,2) by (cases ps; simp add: word_less_nat_alt unat_of_nat_small del: of_nat_Suc)+
  have leaves: "unat (word_of_nat j :: u16) = j" "0 < (word_of_nat j :: u16) \<longleftrightarrow> 0 < j"
    "checked_add (word_of_nat j :: u16) 1 = Some (word_of_nat (Suc j))"
    using assms(3) n(1) by (simp_all add: word_less_nat_alt unat_of_nat_small checked_add_Some del: of_nat_Suc)
  have full: "0 < j \<Longrightarrow> length (chunks 511 refs ! (j - 1)) = 511"
    using assms(3) n(2) by (cases j) (simp_all add: nth_chunks)
  have groups: "map (\<lambda>g. sha256 (concat g)) (chunks 511 (map reference_bytes refs)) =
      map (\<lambda>g. sha256 (concat (map reference_bytes g))) (chunks 511 refs)"
    by (simp add: chunks_map)
  show ?thesis
  proof (cases "j = 0")
    case True
    have fl: "(if length refs mod 511 \<noteq> 0 then push_group sha256 s else s) =
        s\<lparr>mc_groups := map (\<lambda>g. sha256 (concat (map reference_bytes g))) (chunks 511 refs), mc_group_hash := []\<rparr>"
      using flushed_groups [of sha256 "map reference_bytes refs", unfolded groups] True assms(4)
      by (auto simp: push_group_def data_state_def)
    have z: "mc_leaves s = 0" "mc_parts s = word_of_nat (length ps)" "mc_leaves_hash s = []"
      using True assms(4) by (simp_all add: data_state_def)
    show ?thesis
      unfolding accept_leaf_def z parts(2) FANOUT_def
      using True assms(3,4,5) parts leaves fl
      by (simp add: Let_def group_of_chunk z leaf_state_def data_state_def)
  next
    case False
    have s: "s = leaf_state sha256 ps refs j lrs" using False assms(4) by simp
    have nz: "(word_of_nat j :: u16) \<noteq> 0" using False leaves(2) by auto
    show ?thesis
      unfolding accept_leaf_def s
      using False assms(3) parts leaves full nz
      by (simp add: Let_def group_of_chunk leaf_state_def data_state_def FANOUT_def)
  qed
qed

lemma leaf_phase:
  assumes "length refs = length ps" "length ps \<le> 32630" "\<forall>e \<in> set refs. wf_reference e"
    "list_all2 (\<lambda>r b. MultipartRecord_encode r = Inr b) (leaf_records refs) ls"
    "length ts = length ls" "j \<le> length ls"
  shows "accept_all sha256 (data_state sha256 ps (map reference_bytes refs)) (take j (zip ls ts)) =
    (Inr (), if j = 0 then data_state sha256 ps (map reference_bytes refs)
       else leaf_state sha256 ps refs j (map reference_bytes (take j (references sha256 ls ts))))"
  using assms(6)
proof (induction j)
  case (Suc j)
  let ?ref = "\<lparr>cr_txid = ts ! j, cr_record_hash = sha256 (ls ! j)\<rparr>"
  let ?leaf = "\<lparr>lm_index = word_of_nat j, lm_entries = chunks 511 refs ! j\<rparr>"
  have gs: "length ls = length (chunks 511 refs)"
    using assms(4) by (simp add: list_all2_conv_all_nth leaf_records_def FANOUT_def Let_def)
  have enc: "MultipartRecord_encode (Leaf ?leaf) = Inr (ls ! j)"
    using assms(4) Suc.prems by (simp add: list_all2_conv_all_nth leaf_records_def FANOUT_def Let_def)
  have "chunks 511 refs ! j \<in> set (chunks 511 refs)" using Suc.prems gs by simp
  then have "set (chunks 511 refs ! j) \<subseteq> set (concat (chunks 511 refs))" by (auto simp del: concat_chunks)
  then have "\<forall>e \<in> set (lm_entries ?leaf). wf_reference e" using assms(3) by auto
  note acc = decode_leaf_record [OF enc this]
  have refs: "references sha256 ls ts ! j = ?ref" "length (references sha256 ls ts) = length ls"
    using Suc.prems assms(5) by (simp_all add: references_def)
  let ?lrs = "map reference_bytes (take j (references sha256 ls ts))"
  have "accept sha256 (if j = 0 then data_state sha256 ps (map reference_bytes refs) else leaf_state sha256 ps refs j ?lrs)
      (ls ! j) (ts ! j) = (Inr (), leaf_state sha256 ps refs (Suc j) (?lrs @ [reference_bytes ?ref]))"
    unfolding acc reference_bytes_def [of ?ref]
    using Suc.prems gs by (intro accept_leaf_step [OF assms(1,2)]) simp_all
  with Suc show ?case
    using accept_all_snoc assms(5) refs by (simp add: take_Suc_conv_app_nth)
qed simp

lemma pieces_full: "length payload \<le> 8553279476 \<Longrightarrow> full_but_last (pieces payload)"
proof (cases "payload = []")
  case False
  assume len: "length payload \<le> 8553279476"
  have "length (chunks 262132 payload) \<le> 32630" using len by (simp add: length_chunks div_ceil_le_iff)
  moreover have "length (chunks 262132 payload ! i) = min 262132 (length payload - i * 262132)"
    if "i < length (chunks 262132 payload)" for i
    using that by (simp add: nth_chunks)
  moreover have "Suc i * 262132 < length payload" if "Suc i < length (chunks 262132 payload)" for i
    using that div_ceil_gt_iff [of 262132 "Suc i" "length payload"] by (simp add: length_chunks)
  ultimately show ?thesis using False
    by (fastforce simp: full_but_last_def pieces_def DATA_BYTES_def RECORD_BYTES_def)
qed (simp add: full_but_last_def pieces_def)

lemma concat_pieces [simp]: "concat (pieces payload) = payload"
  by (simp add: pieces_def DATA_BYTES_def RECORD_BYTES_def)

lemma length_pieces: "length (pieces payload) = max (div_ceil (length payload) 262132) 1"
proof (cases "payload = []")
  case False
  then have "0 < div_ceil (length payload) 262132" by (simp add: div_ceil_gt_iff)
  then show ?thesis using False by (simp add: pieces_def DATA_BYTES_def RECORD_BYTES_def length_chunks)
qed (simp add: pieces_def div_ceil_def)

lemma accept_root_canonical:
  assumes g: "Geometry_new (word_of_nat (length payload)) = Inr g" and len: "length payload \<le> 8553279476"
    and refs: "length refs = length (pieces payload)"
    and root: "rm_length root = word_of_nat (length payload)" "rm_payload_hash root = sha256 payload"
    and s: "s = leaf_state sha256 (pieces payload) refs (length (chunks 511 refs)) (map reference_bytes (rm_entries root))"
  shows "accept_root sha256 s root = Inr ()"
proof -
  have wf: "wf_geometry g" using g by (rule wf_geometry_new)
  have parts: "unat (g_parts g) = length refs" and leaves: "unat (g_leaves g) = length (chunks 511 refs)"
    using g len refs by (simp_all add: Geometry_new_eq_Inr length_pieces length_chunks unat_of_nat_small)
  have "word_of_nat (unat (g_parts g)) = g_parts g" "word_of_nat (unat (g_leaves g)) = g_leaves g" by simp_all
  then have ps: "g_parts g = word_of_nat (length (pieces payload))" "g_leaves g = word_of_nat (length (chunks 511 refs))"
    using parts leaves refs by simp_all
  have pos: "0 < length (chunks 511 refs)" "length (chunks 511 refs) \<le> 64"
    using geometry_bounds(4,5) [OF wf] leaves by linarith+
  obtain k where k: "length (chunks 511 refs) = Suc k" using pos(1) by (metis gr0_implies_Suc)
  let ?last = "word_of_nat k :: u16"
  have u: "unat ?last = k" using pos(2) k by (intro unat_of_nat_small) simp
  have last: "checked_sub (g_leaves g) 1 = Some ?last"
    unfolding checked_sub_Some word_le_nat_alt u using leaves k by simp
  have "?last < g_leaves g" unfolding word_less_nat_alt u using leaves k by simp
  from leaf_entries_eq(1) [OF wf this] have "leaf_entries g ?last = Inr (word_of_nat (min (length refs - k * 511) 511))"
    by (simp add: parts u)
  moreover have "unat (word_of_nat (min (length refs - k * 511) 511) :: u16) = length (chunks 511 refs ! k)"
    using k by (simp add: unat_of_nat_small nth_chunks min.commute)
  ultimately show ?thesis
    using last
    by (simp add: accept_root_def s root g leaf_state_def data_state_def ps [symmetric] group_of_chunk k [symmetric])
      (simp add: k)
qed

subsection \<open>Properties\<close>

text \<open>
  C39: the checker accepts every canonical publication. For an object of up to the maximal size, cut
  into pieces, with leaf manifests over the references of the data records in groups of 511 and a
  root over the references of the leaves, feeding the encoded records in the order data, leaves,
  root succeeds at every record, whatever the transaction ids, and the final count of records
  validates.
\<close>
theorem canonical_publication_accepted:
  assumes sha: "\<And>x. length (sha256 x) = 32" and len: "length payload \<le> unat MAX_OBJECT_BYTES"
    and txids: "\<forall>t \<in> set data_txids. length t = 32" "\<forall>t \<in> set leaf_txids. length t = 32"
      "length data_txids = length (pieces payload)" "length leaf_txids = length ls"
    and ds: "rtraverse MultipartRecord_encode (data_records (pieces payload)) = Inr ds"
    and ls: "rtraverse MultipartRecord_encode (leaf_records (references sha256 ds data_txids)) = Inr ls"
    and root: "MultipartRecord_encode (Root \<lparr>rm_length = word_of_nat (length payload), rm_payload_hash = sha256 payload,
        rm_profile = profile, rm_entries = references sha256 ls leaf_txids\<rparr>) = Inr root_record" "length profile = 8"
  shows "\<exists>s g. accept_all sha256 MultipartConsistency_new
      (zip ds data_txids @ zip ls leaf_txids @ [(root_record, root_txid)]) = (Inr (), s) \<and>
    Geometry_new (word_of_nat (length payload)) = Inr g \<and> validate_count s (Geometry_nodes g) = Inr ()"
proof -
  let ?ps = "pieces payload" and ?refs = "references sha256 ds data_txids" and ?lrefs = "references sha256 ls leaf_txids"
  have len': "length payload \<le> 8553279476" using len by (simp add: MAX_OBJECT_BYTES_def)
  note full = pieces_full [OF len']
  have dsl: "list_all2 (\<lambda>r b. MultipartRecord_encode r = Inr b) (data_records ?ps) ds" using ds by (simp add: rtraverse_eq_Inr)
  have lsl: "list_all2 (\<lambda>r b. MultipartRecord_encode r = Inr b) (leaf_records ?refs) ls" using ls by (simp add: rtraverse_eq_Inr)
  have nds: "length ds = length ?ps" using list_all2_lengthD [OF dsl] by (simp add: data_records_def)
  have nrefs: "length ?refs = length ?ps" using nds txids(3) by (simp add: references_def)
  have nls: "length ls = length (chunks 511 ?refs)" using list_all2_lengthD [OF lsl] by (simp add: leaf_records_def FANOUT_def Let_def)
  have wfr: "\<forall>e \<in> set (references sha256 bs ts). wf_reference e" if "\<forall>t \<in> set ts. length t = 32" for bs ts
    using that sha by (auto simp: references_def wf_reference_def dest: set_zip_rightD)
  obtain g where g: "Geometry_new (word_of_nat (length payload)) = Inr g"
    using Geometry_new_total [of "word_of_nat (length payload)"] len by (auto simp: word_le_nat_alt unat_of_nat_small MAX_OBJECT_BYTES_def)
  have data: "accept_all sha256 MultipartConsistency_new (zip ds data_txids) = (Inr (), data_state sha256 ?ps (map reference_bytes ?refs))"
    using data_phase [OF full dsl txids(3) order_refl, of sha256] nds txids(3) nrefs by simp
  let ?s = "leaf_state sha256 ?ps ?refs (length (chunks 511 ?refs)) (map reference_bytes ?lrefs)"
  have pos: "0 < length ls" using nls nrefs length_pieces [of payload] by (simp add: length_chunks div_ceil_gt_iff)
  have leaf: "accept_all sha256 (data_state sha256 ?ps (map reference_bytes ?refs)) (zip ls leaf_txids) = (Inr (), ?s)"
    using leaf_phase [OF nrefs _ wfr [OF txids(1)] lsl txids(4) order_refl, of sha256] full pos txids(4) nls
    by (simp add: full_but_last_def references_def)
  have "MultipartRecord_decode root_record = Inr (Root \<lparr>rm_length = word_of_nat (length payload), rm_payload_hash = sha256 payload,
      rm_profile = profile, rm_entries = ?lrefs\<rparr>)"
    using root sha wfr [OF txids(2)] by (simp add: multipart_codec.decode_iff)
  then have "accept sha256 ?s root_record root_txid = (Inr (), ?s)"
    using accept_root_canonical [OF g len' nrefs, of "\<lparr>rm_length = word_of_nat (length payload), rm_payload_hash = sha256 payload,
      rm_profile = profile, rm_entries = ?lrefs\<rparr>" sha256 ?s] by (simp add: accept_def Let_def)
  then have "accept_all sha256 MultipartConsistency_new
      (zip ds data_txids @ zip ls leaf_txids @ [(root_record, root_txid)]) = (Inr (), ?s)"
    by (simp add: accept_all_append data leaf)
  moreover have "validate_count ?s (Geometry_nodes g) = Inr ()"
    using g by (simp add: validate_count_def leaf_state_def data_state_def)
  ultimately show ?thesis using g by blast
qed

theorem canonical_publication_accepted_witness:
  "\<exists>ds ls root s g. rtraverse MultipartRecord_encode (data_records (pieces [1, 2, 3])) = Inr ds \<and>
     accept_all (\<lambda>x. replicate 32 (word_of_nat (length x))) MultipartConsistency_new
      (zip ds [replicate 32 1] @ zip ls [replicate 32 2] @ [(root, replicate 32 3)]) = (Inr (), s) \<and>
     Geometry_new 3 = Inr g \<and> validate_count s (Geometry_nodes g) = Inr ()"
proof -
  let ?sha = "\<lambda>x :: bytes. replicate 32 (word_of_nat (length x)) :: bytes"
  have pieces: "pieces [1, 2, 3] = [[1, 2, 3 :: u8]]"
    by (simp add: pieces_def DATA_BYTES_def RECORD_BYTES_def chunks.simps)
  then obtain ds where ds: "rtraverse MultipartRecord_encode (data_records (pieces [1, 2, 3])) = Inr [ds]"
    by (simp add: data_records_def geometry_consts)
  let ?refs = "references ?sha [ds] [replicate 32 1]"
  obtain ls where ls: "rtraverse MultipartRecord_encode (leaf_records ?refs) = Inr [ls]"
    by (simp add: references_def leaf_records_def FANOUT_def chunks.simps LeafManifest_validate_def try_from_def)
  have g: "Geometry_new 3 = Inr \<lparr>g_length = 3, g_parts = 1, g_leaves = 1\<rparr>"
    by (simp add: Geometry_new_eq_Inr MAX_OBJECT_BYTES_def div_ceil_def)
  obtain root where root: "MultipartRecord_encode (Root \<lparr>rm_length = word_of_nat (length [1, 2, 3 :: u8]),
      rm_payload_hash = ?sha [1, 2, 3], rm_profile = replicate 8 0, rm_entries = references ?sha [ls] [replicate 32 2]\<rparr>) = Inr root"
    by (simp add: RootManifest_geometry_def g references_def)
  have "\<exists>s g. accept_all ?sha MultipartConsistency_new
      (zip [ds] [replicate 32 1] @ zip [ls] [replicate 32 2] @ [(root, replicate 32 3)]) = (Inr (), s) \<and>
    Geometry_new (word_of_nat (length [1, 2, 3 :: u8])) = Inr g \<and> validate_count s (Geometry_nodes g) = Inr ()"
    by (rule canonical_publication_accepted [OF _ _ _ _ _ _ ds ls root])
      (simp_all add: pieces MAX_OBJECT_BYTES_def)
  then obtain s g where "accept_all ?sha MultipartConsistency_new
      (zip [ds] [replicate 32 1] @ zip [ls] [replicate 32 2] @ [(root, replicate 32 3)]) = (Inr (), s)"
    "Geometry_new 3 = Inr g" "validate_count s (Geometry_nodes g) = Inr ()" by auto
  then show ?thesis using ds by blast
qed

end
