(* ===== verification/Inventory.thy ===== *)
theory Inventory
  imports Multipart
begin

section \<open>The inventory of a multipart object (\<^verbatim>\<open>urma-core/src/multipart/inventory.rs\<close>)\<close>

text \<open>
  A reader walks the root and the leaves of an object in order and keeps the set of transaction ids
  it has met, so that no reference is used twice and no manifest refers back. The reservations of
  memory are taken to succeed.
\<close>

record inventory =
  mi_geometry :: geometry
  mi_next_leaf :: u16
  mi_seen :: "bytes set"

text \<open>\<open>HashSet::insert\<close> in a guard: the element must be new.\<close>

definition insert_fresh :: "string \<Rightarrow> bytes set \<Rightarrow> child_reference \<Rightarrow> error + bytes set" where
  "insert_fresh message seen reference =
     ensure (cr_txid reference \<notin> seen) (Invalid message) (Inr (insert (cr_txid reference) seen))"

definition ManifestInventory_new :: "bytes \<Rightarrow> root_manifest \<Rightarrow> error + inventory" where
  "ManifestInventory_new root_txid manifest =
     rbind (RootManifest_geometry manifest) (\<lambda>g.
     rbind (rfold (insert_fresh ''duplicate or cyclic root reference'') {root_txid} (rm_entries manifest)) (\<lambda>seen.
     Inr \<lparr>mi_geometry = g, mi_next_leaf = 0, mi_seen = seen\<rparr>))"

definition leaf_addition :: "bytes set \<Rightarrow> bytes set \<Rightarrow> child_reference \<Rightarrow> error + bytes set" where
  "leaf_addition seen additions reference =
     ensure (cr_txid reference \<notin> seen \<and> cr_txid reference \<notin> additions)
       (Invalid ''duplicate or cyclic data reference'') (Inr (insert (cr_txid reference) additions))"

definition inventory_accept_leaf :: "inventory \<Rightarrow> leaf_manifest \<Rightarrow> error + inventory" where
  "inventory_accept_leaf iv leaf =
     rbind (LeafManifest_validate leaf) (\<lambda>_.
     ensure (lm_index leaf = mi_next_leaf iv) (Invalid ''leaf order mismatch'')
    (rbind (leaf_entries (mi_geometry iv) (mi_next_leaf iv)) (\<lambda>entries.
     ensure (length (lm_entries leaf) = unat entries) (Invalid ''leaf count disagrees with root'')
    (rbind (rfold (leaf_addition (mi_seen iv)) {} (lm_entries leaf)) (\<lambda>additions.
     rbind (ok_or (Panic ''attempt to add with overflow'') (checked_add (mi_next_leaf iv) 1)) (\<lambda>next_leaf.
     Inr (iv\<lparr>mi_seen := mi_seen iv \<union> additions, mi_next_leaf := next_leaf\<rparr>)))))))"

definition is_complete :: "inventory \<Rightarrow> bool" where
  "is_complete iv \<longleftrightarrow> mi_next_leaf iv = g_leaves (mi_geometry iv)"

subsection \<open>What has been seen\<close>

lemma insert_fresh_fold:
  "rfold (insert_fresh m) seen es = Inr seen' \<longleftrightarrow>
     distinct (map cr_txid es) \<and> cr_txid ` set es \<inter> seen = {} \<and> seen' = seen \<union> cr_txid ` set es"
  by (induction es arbitrary: seen) (auto simp: insert_fresh_def)

lemma leaf_addition_fold:
  "rfold (leaf_addition seen) adds es = Inr adds' \<longleftrightarrow>
     distinct (map cr_txid es) \<and> cr_txid ` set es \<inter> (seen \<union> adds) = {} \<and> adds' = adds \<union> cr_txid ` set es"
  by (induction es arbitrary: adds) (auto simp: leaf_addition_def)

definition txids_of :: "bytes \<Rightarrow> root_manifest \<Rightarrow> leaf_manifest list \<Rightarrow> bytes list" where
  "txids_of root_txid manifest leaves =
     root_txid # map cr_txid (rm_entries manifest) @ concat (map (\<lambda>l. map cr_txid (lm_entries l)) leaves)"

lemma txids_of_snoc: "txids_of t m (leaves @ [l]) = txids_of t m leaves @ map cr_txid (lm_entries l)"
  by (simp add: txids_of_def)

definition inventory_inv :: "bytes \<Rightarrow> root_manifest \<Rightarrow> leaf_manifest list \<Rightarrow> inventory \<Rightarrow> bool" where
  "inventory_inv root_txid manifest leaves iv \<longleftrightarrow>
     RootManifest_geometry manifest = Inr (mi_geometry iv) \<and> unat (mi_next_leaf iv) = length leaves \<and>
     length leaves \<le> unat (g_leaves (mi_geometry iv)) \<and>
     mi_seen iv = set (txids_of root_txid manifest leaves) \<and> distinct (txids_of root_txid manifest leaves) \<and>
     (\<forall>i < length leaves. lm_index (leaves ! i) = word_of_nat i \<and>
        length (lm_entries (leaves ! i)) = min (unat (g_parts (mi_geometry iv)) - i * 511) 511)"

lemma inventory_inv_new:
  "ManifestInventory_new t m = Inr iv \<Longrightarrow> inventory_inv t m [] iv"
  by (auto simp: ManifestInventory_new_def insert_fresh_fold inventory_inv_def txids_of_def)

lemma wf_root_geometry: "RootManifest_geometry m = Inr g \<Longrightarrow> wf_geometry g"
  by (auto simp: RootManifest_geometry_def intro: wf_geometry_new)

lemma inventory_inv_step:
  assumes inv: "inventory_inv t m leaves s" and acc: "inventory_accept_leaf s leaf = Inr s'"
  shows "inventory_inv t m (leaves @ [leaf]) s'"
proof -
  let ?g = "mi_geometry s"
  have wf: "wf_geometry ?g" using inv wf_root_geometry by (auto simp: inventory_inv_def)
  obtain entries where a: "lm_index leaf = mi_next_leaf s" "leaf_entries ?g (mi_next_leaf s) = Inr entries"
    "length (lm_entries leaf) = unat entries" "distinct (map cr_txid (lm_entries leaf))"
    "cr_txid ` set (lm_entries leaf) \<inter> mi_seen s = {}" "unat (mi_next_leaf s') = Suc (unat (mi_next_leaf s))"
    "mi_seen s' = mi_seen s \<union> cr_txid ` set (lm_entries leaf)" "mi_geometry s' = ?g"
    using acc by (auto simp: inventory_accept_leaf_def leaf_addition_fold checked_add_Some split: option.splits)
  have lt: "mi_next_leaf s < g_leaves ?g" using a(2) by (auto simp: leaf_entries_def)
  have n: "unat (mi_next_leaf s) = length leaves" using inv by (simp add: inventory_inv_def)
  then have next_leaf: "mi_next_leaf s = word_of_nat (length leaves)" by (simp flip: n)
  have "entries = word_of_nat (min (unat (g_parts ?g) - length leaves * 511) 511)"
    using leaf_entries_eq(1) [OF wf lt] a(2) n by simp
  then have "length (lm_entries leaf) = min (unat (g_parts ?g) - length leaves * 511) 511"
    using a(3) by (simp add: unat_of_nat_small)
  then have "\<forall>i < length (leaves @ [leaf]). lm_index ((leaves @ [leaf]) ! i) = word_of_nat i \<and>
      length (lm_entries ((leaves @ [leaf]) ! i)) = min (unat (g_parts ?g) - i * 511) 511"
    using inv a(1) next_leaf by (auto simp: inventory_inv_def nth_append less_Suc_eq)
  moreover have "length (leaves @ [leaf]) \<le> unat (g_leaves ?g)" using lt n by (simp add: word_less_nat_alt)
  ultimately show ?thesis
    using inv a n by (auto simp: inventory_inv_def txids_of_snoc)
qed

lemma inventory_inv_fold:
  "inventory_inv t m before s \<Longrightarrow> rfold inventory_accept_leaf s leaves = Inr s' \<Longrightarrow>
   inventory_inv t m (before @ leaves) s'"
proof (induction leaves arbitrary: s "before")
  case (Cons l leaves)
  then show ?case using inventory_inv_step Cons.IH [of "before @ [l]"] by fastforce
qed simp

lemma inventory_exact:
  assumes "ManifestInventory_new t m = Inr s0" "rfold inventory_accept_leaf s0 leaves = Inr s" "is_complete s"
  shows "distinct (txids_of t m leaves) \<and> mi_seen s = set (txids_of t m leaves) \<and>
    length (txids_of t m leaves) = unat (Geometry_nodes (mi_geometry s)) \<and>
    length (concat (map lm_entries leaves)) = unat (g_parts (mi_geometry s))"
proof -
  let ?g = "mi_geometry s"
  have inv: "inventory_inv t m leaves s"
    using inventory_inv_fold [OF inventory_inv_new [OF assms(1)] assms(2)] by simp
  have wf: "wf_geometry ?g" using inv wf_root_geometry by (auto simp: inventory_inv_def)
  have n: "length leaves = unat (g_leaves ?g)" using inv assms(3) by (simp add: inventory_inv_def is_complete_def)
  have root: "length (rm_entries m) = unat (g_leaves ?g)"
    using inv by (auto simp: inventory_inv_def RootManifest_geometry_def)
  have leaves: "unat (g_leaves ?g) = div_ceil (unat (g_parts ?g)) 511"
    using wf by (simp add: wf_geometry_def Geometry_new_eq_Inr)
  have "length (concat (map lm_entries leaves)) = (\<Sum>i < length leaves. length (lm_entries (leaves ! i)))"
    by (simp add: length_concat sum_list_sum_nth comp_def atLeast0LessThan)
  also have "\<dots> = (\<Sum>i < length leaves. min (unat (g_parts ?g) - i * 511) 511)"
    using inv by (intro sum.cong) (auto simp: inventory_inv_def)
  also have "\<dots> = unat (g_parts ?g)"
    using div_ceil_le_iff [of 511 "unat (g_parts ?g)" "unat (g_leaves ?g)"] leaves n by (simp add: sum_pieces)
  finally have parts: "length (concat (map lm_entries leaves)) = unat (g_parts ?g)" .
  moreover have "length (concat (map (\<lambda>l. map cr_txid (lm_entries l)) leaves)) = length (concat (map lm_entries leaves))"
    by (simp add: length_concat comp_def)
  ultimately have "length (txids_of t m leaves) = unat (Geometry_nodes ?g)"
    using unat_nodes [OF wf] root by (simp add: txids_of_def)
  with inv parts show ?thesis by (simp add: inventory_inv_def)
qed

text \<open>
  When the inventory of an object is complete, the root, the leaf and the data transaction ids
  are pairwise distinct, their number is the node count of the geometry, and the data references of
  the leaves in order are exactly as many as the object has parts.
\<close>
theorem complete_inventory_is_exact:
  assumes "ManifestInventory_new t m = Inr s0" "rfold inventory_accept_leaf s0 leaves = Inr s" "is_complete s"
  shows "distinct (txids_of t m leaves) \<and> mi_seen s = set (txids_of t m leaves) \<and>
    length (txids_of t m leaves) = unat (Geometry_nodes (mi_geometry s)) \<and>
    length (concat (map lm_entries leaves)) = unat (g_parts (mi_geometry s))"
  by (rule inventory_exact [OF assms])

theorem complete_inventory_is_exact_witness:
  "\<exists>s0 s. ManifestInventory_new [1] \<lparr>rm_length = 3, rm_payload_hash = [], rm_profile = [],
        rm_entries = [\<lparr>cr_txid = [2], cr_record_hash = []\<rparr>]\<rparr> = Inr s0 \<and>
     rfold inventory_accept_leaf s0 [\<lparr>lm_index = 0, lm_entries = [\<lparr>cr_txid = [3], cr_record_hash = []\<rparr>]\<rparr>] = Inr s \<and>
     is_complete s \<and> mi_seen s = {[1], [2], [3]}"
proof -
  let ?g = "\<lparr>g_length = 3, g_parts = 1, g_leaves = 1\<rparr>"
  let ?m = "\<lparr>rm_length = 3, rm_payload_hash = [], rm_profile = [], rm_entries = [\<lparr>cr_txid = [2], cr_record_hash = []\<rparr>]\<rparr>"
  let ?l = "\<lparr>lm_index = 0, lm_entries = [\<lparr>cr_txid = [3], cr_record_hash = []\<rparr>]\<rparr>"
  have g: "Geometry_new 3 = Inr ?g" by (simp add: Geometry_new_eq_Inr MAX_OBJECT_BYTES_def div_ceil_def)
  have new: "ManifestInventory_new [1] ?m = Inr \<lparr>mi_geometry = ?g, mi_next_leaf = 0, mi_seen = {[1], [2]}\<rparr>"
    by (auto simp: ManifestInventory_new_def RootManifest_geometry_def g insert_fresh_def)
  moreover have fold: "\<exists>s. rfold inventory_accept_leaf \<lparr>mi_geometry = ?g, mi_next_leaf = 0, mi_seen = {[1], [2]}\<rparr> [?l] = Inr s
      \<and> is_complete s"
    by (simp add: inventory_accept_leaf_def LeafManifest_validate_def leaf_entries_def FANOUT_def checked_sub_def
        try_from_def leaf_addition_def checked_add_def is_complete_def)
  then obtain s where "rfold inventory_accept_leaf \<lparr>mi_geometry = ?g, mi_next_leaf = 0, mi_seen = {[1], [2]}\<rparr> [?l] = Inr s"
    "is_complete s" by blast
  moreover from this complete_inventory_is_exact [OF new] have "mi_seen s = {[1], [2], [3]}"
    by (fastforce simp: txids_of_def)
  ultimately show ?thesis by blast
qed

end
