(* ===== verification/Effects.thy ===== *)
theory Effects
  imports Prelude
begin

section \<open>Calls into the outside world\<close>

text \<open>
  The scanners call a node over the network and keep an index file. Such code is a function of the
  state of the world that returns a result or an error and the next state. Nothing is assumed of the
  answers: two calls with the same arguments may differ, as they do when the chain is reorganised
  between them.

  \<open>keeps F Z m Q\<close> is the contract used throughout: from every world with \<open>F\<close> the action keeps \<open>F\<close>
  whatever happens, its result satisfies \<open>Q\<close> and its errors satisfy \<open>Z\<close>.
\<close>

type_synonym ('w, 'e, 'a) act = "'w \<Rightarrow> ('e + 'a) \<times> 'w"

definition iret :: "'a \<Rightarrow> ('w, 'e, 'a) act" where
  "iret x = (\<lambda>w. (Inr x, w))"

definition ithrow :: "'e \<Rightarrow> ('w, 'e, 'a) act" where
  "ithrow e = (\<lambda>w. (Inl e, w))"

definition ibind :: "('w, 'e, 'a) act \<Rightarrow> ('a \<Rightarrow> ('w, 'e, 'b) act) \<Rightarrow> ('w, 'e, 'b) act" where
  "ibind m k = (\<lambda>w. case m w of (Inl e, w') \<Rightarrow> (Inl e, w') | (Inr x, w') \<Rightarrow> k x w')"

text \<open>A computation without effects, \<open>?\<close> included.\<close>

definition ilift :: "('e + 'a) \<Rightarrow> ('w, 'e, 'a) act" where
  "ilift r = (\<lambda>w. (r, w))"

definition icheck :: "bool \<Rightarrow> 'e \<Rightarrow> ('w, 'e, unit) act" where
  "icheck c e = (if c then iret () else ithrow e)"

definition keeps :: "('w \<Rightarrow> bool) \<Rightarrow> ('e \<Rightarrow> bool) \<Rightarrow> ('w, 'e, 'a) act \<Rightarrow> ('a \<Rightarrow> bool) \<Rightarrow> bool" where
  "keeps F Z m Q \<longleftrightarrow> (\<forall>w. F w \<longrightarrow>
     (\<forall>x w'. m w = (Inr x, w') \<longrightarrow> Q x \<and> F w') \<and> (\<forall>e w'. m w = (Inl e, w') \<longrightarrow> Z e \<and> F w'))"

named_theorems keeps_rules \<open>structural rules for actions\<close>

lemma keepsI:
  "(\<And>w x w'. F w \<Longrightarrow> m w = (Inr x, w') \<Longrightarrow> Q x \<and> F w') \<Longrightarrow> (\<And>w e w'. F w \<Longrightarrow> m w = (Inl e, w') \<Longrightarrow> Z e \<and> F w') \<Longrightarrow>
   keeps F Z m Q"
  unfolding keeps_def by blast

lemma keeps_Inr: "keeps F Z m Q \<Longrightarrow> F w \<Longrightarrow> m w = (Inr x, w') \<Longrightarrow> Q x \<and> F w'"
  and keeps_Inl: "keeps F Z m Q \<Longrightarrow> F w \<Longrightarrow> m w = (Inl e, w') \<Longrightarrow> Z e \<and> F w'"
  unfolding keeps_def by blast+

lemma ibind_eq_Inr:
  "ibind m k w = (Inr y, w'') \<longleftrightarrow> (\<exists>x w'. m w = (Inr x, w') \<and> k x w' = (Inr y, w''))"
  by (auto simp: ibind_def split: prod.splits sum.splits)

lemma ibind_eq_Inl:
  "ibind m k w = (Inl e, w'') \<longleftrightarrow> m w = (Inl e, w'') \<or> (\<exists>x w'. m w = (Inr x, w') \<and> k x w' = (Inl e, w''))"
  by (auto simp: ibind_def split: prod.splits sum.splits)

lemma keeps_bind:
  assumes "keeps F Z m R" "\<And>x. R x \<Longrightarrow> keeps F Z (k x) Q"
  shows "keeps F Z (ibind m k) Q"
proof (rule keepsI)
  fix w y w' assume "F w" "ibind m k w = (Inr y, w')"
  then show "Q y \<and> F w'" unfolding ibind_eq_Inr using assms keeps_Inr by metis
next
  fix w e w' assume "F w" "ibind m k w = (Inl e, w')"
  then show "Z e \<and> F w'" unfolding ibind_eq_Inl using assms keeps_Inr keeps_Inl by metis
qed

lemma keeps_ret [keeps_rules]: "Q x \<Longrightarrow> keeps F Z (iret x) Q"
  by (simp add: keeps_def iret_def)

lemma keeps_throw [keeps_rules]: "Z e \<Longrightarrow> keeps F Z (ithrow e) Q"
  by (simp add: keeps_def ithrow_def)

lemma keeps_lift: "(\<And>x. r = Inr x \<Longrightarrow> Q x) \<Longrightarrow> (\<And>e. r = Inl e \<Longrightarrow> Z e) \<Longrightarrow> keeps F Z (ilift r) Q"
  by (cases r) (simp_all add: keeps_def ilift_def)

lemma keeps_check: "(c \<Longrightarrow> Q ()) \<Longrightarrow> (\<not> c \<Longrightarrow> Z e) \<Longrightarrow> keeps F Z (icheck c e) Q"
  by (simp add: icheck_def keeps_ret keeps_throw)

lemma keeps_if [keeps_rules]: "(c \<Longrightarrow> keeps F Z m Q) \<Longrightarrow> (\<not> c \<Longrightarrow> keeps F Z n Q) \<Longrightarrow> keeps F Z (if c then m else n) Q"
  by simp

lemma keeps_branch: "keeps F Z m Q \<Longrightarrow> keeps F Z n Q \<Longrightarrow> keeps F Z (\<lambda>w. if c w then m w else n w) Q"
  unfolding keeps_def by metis

lemma keeps_weaken:
  "keeps F Z m Q \<Longrightarrow> (\<And>x. Q x \<Longrightarrow> Q' x) \<Longrightarrow> (\<And>e. Z e \<Longrightarrow> Z' e) \<Longrightarrow> keeps F Z' m Q'"
  unfolding keeps_def by blast

lemma keeps_then: "keeps F Z m (\<lambda>_. True) \<Longrightarrow> (\<And>x. keeps F Z (k x) Q) \<Longrightarrow> keeps F Z (ibind m k) Q"
  by (rule keeps_bind)

lemma keeps_result: "keeps F Z m (\<lambda>_. True) \<Longrightarrow> (\<And>w x w'. m w = (Inr x, w') \<Longrightarrow> Q x) \<Longrightarrow> keeps F Z m Q"
  unfolding keeps_def by blast

lemma keeps_conj: "keeps F Z m Q \<Longrightarrow> keeps F Z m R \<Longrightarrow> keeps F Z m (\<lambda>x. Q x \<and> R x)"
  unfolding keeps_def by blast

lemma ibind_simps [simp]:
  "ibind (iret x) k = k x"
  "ibind (ithrow e) k = ithrow e"
  by (simp_all add: ibind_def iret_def ithrow_def)

lemma ilift_app: "ilift r w = (r, w)" and iret_app: "iret x w = (Inr x, w)"
  and ithrow_app: "ithrow e w = (Inl e, w)"
  by (simp_all add: ilift_def iret_def ithrow_def)

lemmas act_apps = ilift_app iret_app ithrow_app icheck_def

lemma ibind_app: "ibind m k w = (case m w of (Inl e, w') \<Rightarrow> (Inl e, w') | (Inr x, w') \<Rightarrow> k x w')"
  by (simp add: ibind_def)

end
