(* ===== verification/Index_File.thy ===== *)
theory Index_File
  imports Effects Container
begin

section \<open>The index file (\<^verbatim>\<open>urma-io/src/files.rs\<close>)\<close>

text \<open>
  The world of a scanner: the state \<open>'s\<close> of the node and the operating system, which answers the
  calls, and the content of the index file. The path that an error message prints is left out. A file is replaced by writing and syncing a temporary
  file and renaming it, and then the directory is synced; the model keeps at which step the operating
  system reports a failure. \<open>Path::exists\<close> is the presence of the file: that it answers no when
  the operating system fails to look is not modelled. The temporary file is not part of the world.
\<close>

datatype io_error =
    Io | IoInteger | LimitOverflow | PrivatePermissions | TooLarge nat | PersistError | IoContext string io_error

datatype write_step = CreateTemporary | WriteAll | SyncFile | Rename | SyncDirectory

record 's world =
  w_state :: 's
  w_file :: "bytes option"

text \<open>What the operating system does: whether a file opens and reads, and where a write fails.\<close>

record 's file_system =
  fs_open :: "'s \<Rightarrow> bool \<times> 's"
  fs_read :: "'s \<Rightarrow> bool \<times> 's"
  fs_write :: "'s \<Rightarrow> bytes \<Rightarrow> write_step option \<times> 's"

definition read_into :: "bool \<Rightarrow> nat \<Rightarrow> bytes \<Rightarrow> io_error + bytes" where
  "read_into readable limit content =
     rbind (map_err (\<lambda>_. IoInteger) (try_from limit)) (\<lambda>limit64.
     rbind (ok_or LimitOverflow (checked_add (limit64 :: u64) 1)) (\<lambda>bound.
     if \<not> readable then Inl Io
     else
       let bs = take (unat bound) content in
       if limit < length bs then Inl (TooLarge limit) else Inr bs))"

definition read_bounded :: "'s file_system \<Rightarrow> nat \<Rightarrow> ('s world, io_error, bytes) act" where
  "read_bounded fs limit = (\<lambda>w.
     let (opened, s1) = fs_open fs (w_state w) in
     case (if opened then w_file w else None) of
       None \<Rightarrow> (Inl (IoContext ''open'' Io), w\<lparr>w_state := s1\<rparr>)
     | Some content \<Rightarrow>
         let (readable, s2) = fs_read fs s1 in
         (read_into readable limit content, w\<lparr>w_state := s2\<rparr>))"

definition write_atomic :: "'s file_system \<Rightarrow> bytes \<Rightarrow> bool \<Rightarrow> ('s world, io_error, unit) act" where
  "write_atomic fs bs replace = (\<lambda>w.
     let (failure, s') = fs_write fs (w_state w) bs;
         refused = Inl (if replace then PersistError else IoContext ''create without overwrite'' PersistError)
     in case failure of
       Some SyncDirectory \<Rightarrow>
         if \<not> replace \<and> w_file w \<noteq> None then (refused, w\<lparr>w_state := s'\<rparr>)
         else (Inl Io, w\<lparr>w_state := s', w_file := Some bs\<rparr>)
     | Some Rename \<Rightarrow> (refused, w\<lparr>w_state := s'\<rparr>)
     | Some _ \<Rightarrow> (Inl Io, w\<lparr>w_state := s'\<rparr>)
     | None \<Rightarrow>
         if \<not> replace \<and> w_file w \<noteq> None then (refused, w\<lparr>w_state := s'\<rparr>)
         else (Inr (), w\<lparr>w_state := s', w_file := Some bs\<rparr>))"

definition write_new :: "'s file_system \<Rightarrow> bytes \<Rightarrow> ('s world, io_error, unit) act" where
  "write_new fs bs = write_atomic fs bs False"

definition write_replace :: "'s file_system \<Rightarrow> bytes \<Rightarrow> ('s world, io_error, unit) act" where
  "write_replace fs bs = write_atomic fs bs True"

text \<open>Running an action of one error type in another.\<close>

definition imap_err :: "('e \<Rightarrow> 'f) \<Rightarrow> ('w, 'e, 'a) act \<Rightarrow> ('w, 'f, 'a) act" where
  "imap_err f m = (\<lambda>w. case m w of (r, w') \<Rightarrow> (map_err f r, w'))"

lemma imap_err_eq:
  "imap_err f m w = (Inr x, w') \<longleftrightarrow> m w = (Inr x, w')"
  "imap_err f m w = (Inl e, w') \<longleftrightarrow> (\<exists>e'. m w = (Inl e', w') \<and> e = f e')"
  by (auto simp: imap_err_def map_err_def split: prod.splits sum.splits)

lemma keeps_imap_err: "keeps F (\<lambda>e. Z (f e)) m Q \<Longrightarrow> keeps F Z (imap_err f m) Q"
  by (rule keepsI) (auto simp: imap_err_eq dest: keeps_Inr keeps_Inl)

text \<open>A property of the file's content survives reading, and writing what has it.\<close>

definition file_ok :: "(bytes option \<Rightarrow> bool) \<Rightarrow> 's world \<Rightarrow> bool" where
  "file_ok F w \<longleftrightarrow> F (w_file w)"

lemma read_into_content:
  assumes "read_into readable limit content = Inr bs"
  shows "bs = content"
proof -
  from assms obtain limit64 bound :: u64 where "unat limit64 = limit" "unat bound = Suc limit"
    "bs = take (unat bound) content" "length bs \<le> limit"
    by (auto simp: read_into_def try_from_eq_Inr checked_add_Some Let_def split: if_splits)
  then show ?thesis by simp
qed

lemma read_bounded_file: "keeps (file_ok F) (\<lambda>e. True) (read_bounded fs limit) (\<lambda>bs. F (Some bs))"
  unfolding keeps_def read_bounded_def file_ok_def
  by (auto simp: Let_def dest!: read_into_content split: prod.splits sum.splits option.splits if_splits)

lemma write_replace_file: "F (Some bs) \<Longrightarrow> keeps (file_ok F) (\<lambda>e. True) (write_replace fs bs) (\<lambda>_. True)"
  unfolding keeps_def write_replace_def write_atomic_def file_ok_def
  by (auto simp: Let_def split: prod.splits option.splits write_step.splits)

lemma write_replace_written: "write_replace fs bs w = (Inr u, w') \<Longrightarrow> w_file w' = Some bs"
  unfolding write_replace_def write_atomic_def
  by (auto simp: Let_def split: prod.splits option.splits write_step.splits)

lemma write_new_keeps_existing:
  "w_file w = Some content \<Longrightarrow> write_new fs bs w = (r, w') \<Longrightarrow> w_file w' = Some content \<and> (\<forall>u. r \<noteq> Inr u)"
  unfolding write_new_def write_atomic_def
  by (auto simp: Let_def split: prod.splits option.splits write_step.splits)

end
