(* ===== verification/Envelope.thy ===== *)
theory Envelope
  imports Container Multipart
begin

section \<open>Taproot envelopes and author proofs (\<^verbatim>\<open>urma-core/src/envelope.rs\<close>, \<^verbatim>\<open>multipart/proof.rs\<close>)\<close>

text \<open>
  A record is published in the script of a Taproot leaf: the author key, a signature check and a
  branch that is never taken and that holds the record in pushes of at most 520 bytes. The reveal
  transaction spends the output that commits to the script.

  Script assembly and parsing, curve points, Taproot commitments and Schnorr signatures are the
  \<open>bitcoin\<close> crate. The record \<open>envelope_lib\<close> holds what the code calls of it; transactions are records
  of the fields that the code reads.
\<close>

record tx_in =
  ti_txid :: bytes
  ti_vout :: u32
  ti_script_sig :: bytes
  ti_witness :: "bytes list"

record tx_out =
  to_value :: u64
  to_script :: bytes

record transaction =
  tx_version :: "32 word"
  tx_input :: "tx_in list"
  tx_output :: "tx_out list"

datatype instruction = PushBytes bytes | Op u8

record control_block =
  cb_leaf_version :: u8
  cb_internal_key :: bytes
  cb_merkle_branch :: "bytes list"

record 'info envelope_lib =
  e_push_slice :: "bytes \<Rightarrow> bytes" \<comment> \<open>\<open>Builder::push_slice\<close>: the bytes appended to the script\<close>
  e_push_int :: "int \<Rightarrow> bytes"
  e_instructions_minimal :: "bytes \<Rightarrow> (unit + instruction) list"
  e_debug_instruction :: "unit + instruction \<Rightarrow> string"
  e_xonly :: "bytes \<Rightarrow> bool" \<comment> \<open>\<open>XOnlyPublicKey::from_slice\<close> accepts\<close>
  e_control_decode :: "bytes \<Rightarrow> control_block option"
  e_taproot :: "bytes \<Rightarrow> bytes \<Rightarrow> error + 'info" \<comment> \<open>single-leaf tree of a script under an internal key\<close>
  e_control_block :: "'info \<Rightarrow> bytes \<Rightarrow> bytes option" \<comment> \<open>serialized control block of a script in the tree\<close>
  e_is_p2tr :: "bytes \<Rightarrow> bool"
  e_is_p2wpkh :: "bytes \<Rightarrow> bool"
  e_verify_commitment :: "control_block \<Rightarrow> bytes \<Rightarrow> bytes \<Rightarrow> bool" \<comment> \<open>control, output key, script\<close>
  e_signature :: "bytes \<Rightarrow> bool" \<comment> \<open>\<open>schnorr::Signature::from_slice\<close> accepts\<close>
  e_sighash :: "transaction \<Rightarrow> tx_out \<Rightarrow> bytes \<Rightarrow> bytes option" \<comment> \<open>script-path hash, default type, input 0\<close>
  e_verify_schnorr :: "bytes \<Rightarrow> bytes \<Rightarrow> bytes \<Rightarrow> bool" \<comment> \<open>signature, message, key\<close>
  e_txid :: "transaction \<Rightarrow> bytes"
  e_sha256 :: "bytes \<Rightarrow> bytes"

definition TAPSCRIPT :: u8 where "TAPSCRIPT = 0xC0"
definition OP_IF :: u8 where "OP_IF = 0x63"
definition OP_ENDIF :: u8 where "OP_ENDIF = 0x68"
definition OP_CHECKSIG :: u8 where "OP_CHECKSIG = 0xAC"

record parsed_envelope =
  pe_author :: bytes
  pe_record :: bytes
  pe_script :: bytes
  pe_control :: control_block

definition validate_record :: "bytes \<Rightarrow> error + unit" where
  "validate_record record =
     rbind (RecordKind_parse record) (\<lambda>kind.
     case kind of
       Private \<Rightarrow> rmap (\<lambda>_. ()) (inspect_header record)
     | record_kind.DataPart \<Rightarrow> rmap (\<lambda>_. ()) (MultipartRecord_decode record)
     | record_kind.LeafManifest \<Rightarrow> rmap (\<lambda>_. ()) (MultipartRecord_decode record)
     | record_kind.RootManifest \<Rightarrow> rmap (\<lambda>_. ()) (MultipartRecord_decode record)
     | Container \<Rightarrow> Inl (Invalid ''offline container cannot be published as a record'')
     | _ \<Rightarrow> rmap (\<lambda>_. ()) (PublicRecord_decode record))"

text \<open>One segment of the record: a small number is pushed as its own opcode.\<close>

definition segment_script :: "'info envelope_lib \<Rightarrow> bytes \<Rightarrow> error + bytes" where
  "segment_script lib part =
     (case part of
        [value] \<Rightarrow>
          if 1 \<le> value \<and> value \<le> 16 then Inr (e_push_int lib (uint value))
          else if value = 0x81 then Inr (e_push_int lib (- 1))
          else Inr (e_push_slice lib part)
      | _ \<Rightarrow> ensure (length part < 2 ^ 32) Push (Inr (e_push_slice lib part)))"

definition record_script :: "'info envelope_lib \<Rightarrow> bytes \<Rightarrow> bytes \<Rightarrow> error + bytes" where
  "record_script lib record author =
     rbind (rtraverse (segment_script lib) (chunks 520 record)) (\<lambda>segments.
     Inr (e_push_slice lib author @ [OP_CHECKSIG] @ e_push_int lib 0 @ [OP_IF] @ e_push_slice lib MAGIC @
          concat segments @ [OP_ENDIF]))"

definition build_for_author :: "'info envelope_lib \<Rightarrow> bytes \<Rightarrow> bytes \<Rightarrow> error + bytes \<times> 'info" where
  "build_for_author lib record author =
     rbind (validate_record record) (\<lambda>_.
     rbind (record_script lib record author) (\<lambda>script.
     rbind (e_taproot lib script author) (\<lambda>info. Inr (script, info))))"

definition witness :: "'info envelope_lib \<Rightarrow> bytes \<Rightarrow> bytes \<Rightarrow> 'info \<Rightarrow> error + bytes list" where
  "witness lib signature script info =
     ensure (length signature = 64) (Invalid ''URMA requires implicit SIGHASH_DEFAULT'')
    (rbind (context_opt ''script missing from Taproot tree'' (e_control_block lib info script)) (\<lambda>control.
     ensure (length control = 33) (Invalid ''URMA requires one leaf'')
     (Inr [signature, script, control])))"

definition is_candidate :: "bytes list \<Rightarrow> bool" where
  "is_candidate w =
     (if length w \<noteq> 3 then False
      else let script = w ! 1 in 41 \<le> length script \<and> slice 34 41 script = [0, 99, 4, 85, 82, 77, 65])"

text \<open>The loop over the instructions after the fifth.\<close>

fun read_segments :: "'info envelope_lib \<Rightarrow> (unit + instruction) list \<Rightarrow> bytes \<Rightarrow> error + bytes" where
  "read_segments lib [] record = Inl (Missing ''missing envelope end'')"
| "read_segments lib (Inl e # ops) record = Inl Script"
| "read_segments lib (Inr (PushBytes part) # ops) record =
     ensure (part \<noteq> [] \<and> length part \<le> 520) (Invalid ''invalid record segment'')
    (ensure (length (record @ part) \<le> RECORD_BYTES) (Invalid ''record too large'')
    (read_segments lib ops (record @ part)))"
| "read_segments lib (Inr (Op opcode) # ops) record =
     (if opcode = OP_ENDIF then
        (case ops of
           [] \<Rightarrow> Inr record
         | op # _ \<Rightarrow> Inl (Invalid (''trailing script instruction: '' @ e_debug_instruction lib op)))
      else
        rbind (if 0x51 \<le> opcode \<and> opcode \<le> 0x60 then Inr (record @ [opcode - 0x50])
               else if opcode = 0x4F then Inr (record @ [0x81])
               else Inl (Invalid (''invalid envelope instruction '' @ e_debug_instruction lib (Inr (Op opcode))))) (\<lambda>record'.
        ensure (length record' \<le> RECORD_BYTES) (Invalid ''record too large'')
        (read_segments lib ops record')))"

definition extract_envelope :: "'info envelope_lib \<Rightarrow> bytes list \<Rightarrow> error + parsed_envelope" where
  "extract_envelope lib w =
     ensure (length w = 3) (Invalid ''invalid witness item count'')
    (ensure (length (w ! 0) = 64 \<and> length (w ! 2) = 33) (Invalid ''invalid signature or control length'')
    (ensure (42 \<le> length (w ! 1) \<and> length (w ! 1) \<le> RECORD_BYTES + 3 * div_ceil RECORD_BYTES 520 + 42)
       (Invalid ''script size out of bounds'')
    (let script = w ! 1; author = slice 1 33 script in
     ensure (e_xonly lib author) Secp256k1
    (rbind (ok_or Taproot (e_control_decode lib (w ! 2))) (\<lambda>control.
     ensure (cb_leaf_version control = TAPSCRIPT \<and> cb_internal_key control = author)
       (Invalid ''invalid author/internal-key commitment'')
    (rbind (read_segments lib (drop 5 (e_instructions_minimal lib script)) []) (\<lambda>record.
     rbind (record_script lib record author) (\<lambda>expected.
     ensure (expected = script) (Invalid ''noncanonical envelope or segmentation'')
     (Inr \<lparr>pe_author = author, pe_record = record, pe_script = script, pe_control = control\<rparr>)))))))))"

definition envelope_extract :: "'info envelope_lib \<Rightarrow> bytes list \<Rightarrow> error + parsed_envelope" where
  "envelope_extract lib w =
     rbind (extract_envelope lib w) (\<lambda>parsed.
     rbind (validate_record (pe_record parsed)) (\<lambda>_. Inr parsed))"

subsection \<open>Reveal transactions\<close>

definition validate_reveal_shape :: "32 word \<Rightarrow> nat \<Rightarrow> nat \<Rightarrow> error + unit" where
  "validate_reveal_shape version inputs outputs =
     ensure (version = 2 \<and> inputs = 1 \<and> outputs = 1) (Invalid ''invalid reveal transaction shape'') (Inr ())"

definition validate_reveal_scripts :: "'info envelope_lib \<Rightarrow> bytes \<Rightarrow> bytes \<Rightarrow> error + unit" where
  "validate_reveal_scripts lib script_sig return_script =
     ensure (script_sig = []) (Invalid ''reveal scriptSig must be empty'')
    (ensure (e_is_p2wpkh lib return_script \<or> e_is_p2tr lib return_script) (Invalid ''invalid reveal return output'')
     (Inr ()))"

definition extract_reveal_envelope :: "'info envelope_lib \<Rightarrow> transaction \<Rightarrow> error + parsed_envelope" where
  "extract_reveal_envelope lib reveal =
     rbind (validate_reveal_shape (tx_version reveal) (length (tx_input reveal)) (length (tx_output reveal))) (\<lambda>_.
     rbind (validate_reveal_scripts lib (ti_script_sig (tx_input reveal ! 0)) (to_script (tx_output reveal ! 0))) (\<lambda>_.
     extract_envelope lib (ti_witness (tx_input reveal ! 0))))"

definition extract_reveal :: "'info envelope_lib \<Rightarrow> transaction \<Rightarrow> error + parsed_envelope" where
  "extract_reveal lib reveal =
     rbind (extract_reveal_envelope lib reveal) (\<lambda>parsed.
     rbind (validate_record (pe_record parsed)) (\<lambda>_. Inr parsed))"

definition verify_prevout_proof :: "'info envelope_lib \<Rightarrow> transaction \<Rightarrow> tx_out \<Rightarrow> error + parsed_envelope" where
  "verify_prevout_proof lib reveal prevout =
     rbind (extract_reveal_envelope lib reveal) (\<lambda>parsed.
     ensure (to_value (tx_output reveal ! 0) \<le> to_value prevout) (Invalid ''reveal spends more than prevout'')
    (ensure (e_is_p2tr lib (to_script prevout)) (Invalid ''commit output must be P2TR'')
    (ensure (34 \<le> length (to_script prevout)) (Panic ''range end index out of range'')
    (let output_key = slice 2 34 (to_script prevout) in
     ensure (e_xonly lib output_key) Secp256k1
    (ensure (e_verify_commitment lib (pe_control parsed) output_key (pe_script parsed)) (Invalid ''invalid Taproot commitment'')
    (rbind (context_opt ''signature absent'' (case ti_witness (tx_input reveal ! 0) of [] \<Rightarrow> None | s # _ \<Rightarrow> Some s)) (\<lambda>signature.
     ensure (e_signature lib signature) Secp256k1
    (rbind (ok_or TaprootSighash (e_sighash lib reveal prevout (pe_script parsed))) (\<lambda>hash.
     rbind (context_res ''invalid author signature''
              (ensure (e_verify_schnorr lib signature hash (pe_author parsed)) Secp256k1 (Inr ()))) (\<lambda>_.
     Inr parsed))))))))))"

definition verify_prevout :: "'info envelope_lib \<Rightarrow> transaction \<Rightarrow> tx_out \<Rightarrow> error + parsed_envelope" where
  "verify_prevout lib reveal prevout =
     rbind (verify_prevout_proof lib reveal prevout) (\<lambda>parsed.
     rbind (validate_record (pe_record parsed)) (\<lambda>_. Inr parsed))"

definition verify_record_proof :: "'info envelope_lib \<Rightarrow> transaction \<Rightarrow> transaction \<Rightarrow> error + parsed_envelope" where
  "verify_record_proof lib reveal commit =
     ensure (length (tx_input reveal) = 1) (Invalid ''reveal must have one input'')
    (let source = tx_input reveal ! 0 in
     ensure (ti_txid source = e_txid lib commit) (Invalid ''reveal does not spend the supplied commit'')
    (if unat (ti_vout source) < length (tx_output commit)
     then verify_prevout_proof lib reveal (tx_output commit ! unat (ti_vout source))
     else Inl (Missing ''commit outpoint absent'')))"

definition verify_reveal :: "'info envelope_lib \<Rightarrow> transaction \<Rightarrow> transaction \<Rightarrow> error + parsed_envelope" where
  "verify_reveal lib reveal commit =
     rbind (verify_record_proof lib reveal commit) (\<lambda>parsed.
     rbind (validate_record (pe_record parsed)) (\<lambda>_. Inr parsed))"

subsection \<open>Verified records\<close>

record verified_record =
  vr_txid :: bytes
  vr_author :: bytes
  vr_record_hash :: bytes
  vr_record :: bytes

definition VerifiedRecord_verify ::
  "'info envelope_lib \<Rightarrow> bytes \<Rightarrow> transaction \<Rightarrow> transaction \<Rightarrow> error + verified_record" where
  "VerifiedRecord_verify lib expected reveal commit =
     ensure (e_txid lib reveal = expected) (Invalid ''candidate TXID mismatch'')
    (rbind (verify_record_proof lib reveal commit) (\<lambda>parsed.
     Inr \<lparr>vr_txid = expected, vr_author = pe_author parsed, vr_record_hash = e_sha256 lib (pe_record parsed),
          vr_record = pe_record parsed\<rparr>))"

definition VerifiedRecord_decode :: "verified_record \<Rightarrow> error + multipart_record" where
  "VerifiedRecord_decode v = MultipartRecord_decode (vr_record v)"

definition VerifiedRecord_reference :: "verified_record \<Rightarrow> child_reference" where
  "VerifiedRecord_reference v = \<lparr>cr_txid = vr_txid v, cr_record_hash = vr_record_hash v\<rparr>"

definition RecordRequest_verify ::
  "'info envelope_lib \<Rightarrow> child_reference \<Rightarrow> transaction \<Rightarrow> transaction \<Rightarrow> error + verified_record" where
  "RecordRequest_verify lib reference reveal commit = VerifiedRecord_verify lib (cr_txid reference) reveal commit"

definition check_txid :: "child_reference \<Rightarrow> verified_record \<Rightarrow> error + unit" where
  "check_txid reference verified = ensure (vr_txid verified = cr_txid reference) (Invalid ''candidate TXID mismatch'') (Inr ())"

definition check_hash :: "child_reference \<Rightarrow> verified_record \<Rightarrow> error + unit" where
  "check_hash reference verified =
     ensure (vr_record_hash verified = cr_record_hash reference)
       (Invalid ''record hash differs from the signed manifest reference'') (Inr ())"

end
