(* ===== verification/Names_Payload.thy ===== *)
theory Names_Payload
  imports Format
begin

section \<open>Names and registry payloads (\<^verbatim>\<open>urma-names/src/name.rs\<close>, \<^verbatim>\<open>urma-names/src/payload.rs\<close>)\<close>

text \<open>
  The name grammar, the seven payloads of the Names profile with their encoders and decoders, and
  their embedding in a public profile record. The parameter \<open>xonly_ok\<close> says which 32-byte strings
  \<open>XOnlyPublicKey::from_slice\<close> of the secp256k1 library accepts; a key is identified with its
  serialization. The lemmas show that a name is exactly a byte string of the grammar and that the
  payloads are a strict codec.
\<close>

subsection \<open>Names\<close>

datatype name = Name (as_str: bytes)

text \<open>The derived order of the Rust newtype: the order of its string.\<close>

instantiation name :: linorder
begin
definition less_eq_name :: "name \<Rightarrow> name \<Rightarrow> bool" where
  "less_eq_name a b \<longleftrightarrow> as_str a \<le> as_str b"
definition less_name :: "name \<Rightarrow> name \<Rightarrow> bool" where
  "less_name a b \<longleftrightarrow> as_str a < as_str b"
instance
  by standard (auto simp: less_eq_name_def less_name_def name.expand)
end

definition NAME_MAX_BYTES :: nat where "NAME_MAX_BYTES = 63"

definition Name_parse :: "bytes \<Rightarrow> error + name" where
  "Name_parse bs =
     ensure (1 \<le> length bs \<and> length bs \<le> NAME_MAX_BYTES) (Invalid ''name must be 1..63 bytes'')
    (ensure (\<forall>byte \<in> set bs. is_ascii_lowercase byte \<or> is_ascii_digit byte \<or> byte = 45)
       (Invalid ''name bytes must be a-z, 0-9 or hyphen'')
    (ensure (bs ! 0 \<noteq> 45 \<and> bs ! (length bs - 1) \<noteq> 45)
       (Invalid ''name cannot start or end with a hyphen'')
    (ensure (length bs < 4 \<or> slice 2 4 bs \<noteq> [45, 45])
       (Invalid ''name cannot carry a double hyphen at bytes 3-4'')
    (Inr (Name bs)))))"

definition Name_normalize :: "bytes \<Rightarrow> error + name" where
  "Name_normalize bs = Name_parse (to_ascii_lowercase bs)"

subsection \<open>Payloads\<close>

datatype mode = Open | Administered

fun Mode_byte :: "mode \<Rightarrow> u8" where
  "Mode_byte Open = 0"
| "Mode_byte Administered = 1"

definition Mode_parse :: "u8 \<Rightarrow> error + mode" where
  "Mode_parse byte =
     (if byte = 0 then Inr Open
      else if byte = 1 then Inr Administered
      else Inl (Unsupported (''unsupported registry mode '' @ dec (unat byte))))"

record genesis =
  g_mode :: mode
  expiry_blocks :: u32
  reveal_max_blocks :: u16
  threshold :: u8
  approvers :: "bytes list"

definition RULES :: u8 where "RULES = 2"
definition MAX_APPROVERS :: nat where "MAX_APPROVERS = 255"
definition GENESIS_FIXED_BYTES :: nat where "GENESIS_FIXED_BYTES = 10"

definition Genesis_validate :: "genesis \<Rightarrow> error + unit" where
  "Genesis_validate g =
     ensure (1 \<le> reveal_max_blocks g) (Invalid ''reveal_max_blocks must be at least 1'')
    (ensure (ucast (reveal_max_blocks g) < expiry_blocks g)
       (Invalid ''expiry_blocks must exceed reveal_max_blocks'')
    (rbind
      (case g_mode g of
         Open \<Rightarrow>
           ensure (threshold g = 0 \<and> approvers g = [])
             (Invalid ''open registries carry no threshold or approvers'') (Inr ())
       | Administered \<Rightarrow>
           ensure (approvers g \<noteq> [] \<and> length (approvers g) \<le> MAX_APPROVERS)
             (Invalid ''administered registries need 1..255 approvers'')
          (ensure (1 \<le> threshold g \<and> unat (threshold g) \<le> length (approvers g))
             (Invalid ''threshold must be 1..=approver count'') (Inr ())))
    (\<lambda>_. ensure (windows2_all (<) (approvers g)) (Invalid ''approvers must be unique and ascending'')
    (Inr ()))))"

definition is_approver :: "genesis \<Rightarrow> bytes \<Rightarrow> bool" where
  "is_approver g key \<longleftrightarrow> key \<in> set (approvers g)"

definition Genesis_encode :: "genesis \<Rightarrow> bytes \<Rightarrow> error + bytes" where
  "Genesis_encode g bs =
     rbind (Genesis_validate g) (\<lambda>_.
     rbind (try_from (length (approvers g))) (\<lambda>count :: u8.
     Inr (bs @ [RULES, Mode_byte (g_mode g)] @ to_le_bytes (expiry_blocks g) @
       to_le_bytes (reveal_max_blocks g) @ [threshold g, count] @ concat (approvers g))))"

definition xonly_from_slice :: "(bytes \<Rightarrow> bool) \<Rightarrow> bytes \<Rightarrow> error + bytes" where
  "xonly_from_slice xonly_ok bs = (if length bs = 32 \<and> xonly_ok bs then Inr bs else Inl Secp256k1)"

definition Genesis_decode :: "(bytes \<Rightarrow> bool) \<Rightarrow> bytes \<Rightarrow> error + genesis" where
  "Genesis_decode xonly_ok body =
     ensure (GENESIS_FIXED_BYTES \<le> length body) (Invalid ''truncated genesis'')
    (if body ! 0 \<noteq> RULES
     then Inl (Unsupported (''unsupported registry rules '' @ dec (unat (body ! 0))))
     else
       let count = unat (body ! 9) in
       ensure (length body = GENESIS_FIXED_BYTES + 32 * count)
         (Invalid ''genesis length does not match the approver count'')
      (rbind (rtraverse (xonly_from_slice xonly_ok) (chunks 32 (drop GENESIS_FIXED_BYTES body))) (\<lambda>keys.
       rbind (Mode_parse (body ! 1)) (\<lambda>m.
       let g = \<lparr>g_mode = m, expiry_blocks = from_le_bytes (slice 2 6 body),
                reveal_max_blocks = from_le_bytes (slice 6 8 body), threshold = body ! 8,
                approvers = keys\<rparr> in
       rbind (Genesis_validate g) (\<lambda>_. Inr g)))))"

record owner_op =
  oo_registry :: bytes
  oo_salt :: bytes
  oo_name :: name
  oo_target :: bytes

definition OWNER_FIXED_BYTES :: nat where "OWNER_FIXED_BYTES = 81"

definition is_reserving :: "owner_op \<Rightarrow> bool" where
  "is_reserving op \<longleftrightarrow> oo_target op = replicate 32 0"

definition OwnerOp_encode :: "owner_op \<Rightarrow> bytes \<Rightarrow> error + bytes" where
  "OwnerOp_encode op bs =
     rbind (try_from (length (as_str (oo_name op)))) (\<lambda>n :: u8.
     Inr (bs @ oo_registry op @ oo_salt op @ [n] @ as_str (oo_name op) @ oo_target op))"

definition OwnerOp_decode :: "bytes \<Rightarrow> error + owner_op" where
  "OwnerOp_decode body =
     ensure (49 \<le> length body) (Invalid ''truncated owner record'')
    (let n = unat (body ! 48) in
     ensure (length body = OWNER_FIXED_BYTES + n)
       (Invalid ''owner record length does not match the name length'')
    (rbind (from_utf8 (slice 49 (49 + n) body)) (\<lambda>text.
     rbind (Name_parse text) (\<lambda>nm.
     Inr \<lparr>oo_registry = take 32 body, oo_salt = slice 32 48 body, oo_name = nm,
          oo_target = drop (49 + n) body\<rparr>))))"

record approval =
  ap_registry :: bytes
  ap_record_txid :: bytes
  ap_record_sha256 :: bytes

definition APPROVAL_BODY_BYTES :: nat where "APPROVAL_BODY_BYTES = 96"

definition Approval_encode :: "approval \<Rightarrow> bytes \<Rightarrow> bytes" where
  "Approval_encode a bs = bs @ ap_registry a @ ap_record_txid a @ ap_record_sha256 a"

definition Approval_decode :: "bytes \<Rightarrow> error + approval" where
  "Approval_decode body =
     ensure (length body = APPROVAL_BODY_BYTES) (Invalid ''approval must be 97 bytes'')
    (Inr \<lparr>ap_registry = take 32 body, ap_record_txid = slice 32 64 body,
          ap_record_sha256 = drop 64 body\<rparr>)"

record name_op =
  no_registry :: bytes
  no_name :: name

definition NAMEOP_FIXED_BYTES :: nat where "NAMEOP_FIXED_BYTES = 33"

definition NameOp_encode :: "name_op \<Rightarrow> bytes \<Rightarrow> error + bytes" where
  "NameOp_encode op bs =
     rbind (try_from (length (as_str (no_name op)))) (\<lambda>n :: u8.
     Inr (bs @ no_registry op @ [n] @ as_str (no_name op)))"

definition NameOp_decode :: "bytes \<Rightarrow> error + name_op" where
  "NameOp_decode body =
     ensure (NAMEOP_FIXED_BYTES \<le> length body) (Invalid ''truncated name record'')
    (let n = unat (body ! 32) in
     ensure (length body = NAMEOP_FIXED_BYTES + n)
       (Invalid ''name record length does not match the name length'')
    (rbind (from_utf8 (drop NAMEOP_FIXED_BYTES body)) (\<lambda>text.
     rbind (Name_parse text) (\<lambda>nm.
     Inr \<lparr>no_registry = take 32 body, no_name = nm\<rparr>))))"

datatype payload =
    Genesis genesis
  | Claim owner_op
  | Update owner_op
  | Renew owner_op
  | Approve approval
  | Suspend name_op
  | Restore name_op

definition PROFILE :: bytes where "PROFILE = [85, 82, 77, 65, 78, 65, 77, 49]"

fun Payload_op :: "payload \<Rightarrow> u8" where
  "Payload_op (Genesis _) = 0"
| "Payload_op (Claim _) = 1"
| "Payload_op (Update _) = 2"
| "Payload_op (Renew _) = 3"
| "Payload_op (Approve _) = 4"
| "Payload_op (Suspend _) = 5"
| "Payload_op (Restore _) = 6"

definition Payload_encode :: "payload \<Rightarrow> error + bytes" where
  "Payload_encode p =
     (let bs = [Payload_op p] in
      case p of
        Genesis g \<Rightarrow> Genesis_encode g bs
      | Claim op \<Rightarrow> OwnerOp_encode op bs
      | Update op \<Rightarrow> OwnerOp_encode op bs
      | Renew op \<Rightarrow> OwnerOp_encode op bs
      | Approve a \<Rightarrow> Inr (Approval_encode a bs)
      | Suspend op \<Rightarrow> NameOp_encode op bs
      | Restore op \<Rightarrow> NameOp_encode op bs)"

text \<open>Lower-case two-digit hexadecimal, as \<open>{other:02x}\<close> prints a byte.\<close>

definition hex_digit :: "nat \<Rightarrow> char" where
  "hex_digit d = char_of (if d < 10 then 48 + d else 87 + d)"

definition hex_byte :: "u8 \<Rightarrow> string" where
  "hex_byte b = [hex_digit (unat b div 16), hex_digit (unat b mod 16)]"

definition Payload_decode :: "(bytes \<Rightarrow> bool) \<Rightarrow> bytes \<Rightarrow> error + payload" where
  "Payload_decode xonly_ok bs =
     (case bs of
        [] \<Rightarrow> Inl (Invalid ''empty names payload'')
      | op # body \<Rightarrow>
          if op = 0 then rmap Genesis (Genesis_decode xonly_ok body)
          else if op = 1 then rmap Claim (OwnerOp_decode body)
          else if op = 2 then rmap Update (OwnerOp_decode body)
          else if op = 3 then rmap Renew (OwnerOp_decode body)
          else if op = 4 then rmap Approve (Approval_decode body)
          else if op = 5 then rmap Suspend (NameOp_decode body)
          else if op = 6 then rmap Restore (NameOp_decode body)
          else Inl (Unsupported (''unsupported names op '' @ hex_byte op)))"

definition Payload_to_record :: "payload \<Rightarrow> error + public_record" where
  "Payload_to_record p = rmap (ProfileRecord PROFILE) (Payload_encode p)"

definition Payload_from_record :: "(bytes \<Rightarrow> bool) \<Rightarrow> public_record \<Rightarrow> error + payload" where
  "Payload_from_record xonly_ok r =
     (let foreign = Inl (Unsupported (''kind '' @ hex_byte (RecordKind_byte (PublicRecord_kind r)) @
            '' record is not an URMANAM1 record'')) in
      case r of
        ProfileRecord profile body \<Rightarrow>
          if profile = PROFILE then Payload_decode xonly_ok body else foreign
      | _ \<Rightarrow> foreign)"

subsection \<open>Type invariants\<close>

definition wf_name :: "name \<Rightarrow> bool" where
  "wf_name n \<longleftrightarrow> Name_parse (as_str n) = Inr n"

definition wf_genesis :: "(bytes \<Rightarrow> bool) \<Rightarrow> genesis \<Rightarrow> bool" where
  "wf_genesis xonly_ok g \<longleftrightarrow> (\<forall>k \<in> set (approvers g). length k = 32 \<and> xonly_ok k)"

definition wf_owner_op :: "owner_op \<Rightarrow> bool" where
  "wf_owner_op op \<longleftrightarrow> length (oo_registry op) = 32 \<and> length (oo_salt op) = 16 \<and>
     wf_name (oo_name op) \<and> length (oo_target op) = 32"

definition wf_approval :: "approval \<Rightarrow> bool" where
  "wf_approval a \<longleftrightarrow> length (ap_registry a) = 32 \<and> length (ap_record_txid a) = 32 \<and>
     length (ap_record_sha256 a) = 32"

definition wf_name_op :: "name_op \<Rightarrow> bool" where
  "wf_name_op op \<longleftrightarrow> length (no_registry op) = 32 \<and> wf_name (no_name op)"

fun wf_payload :: "(bytes \<Rightarrow> bool) \<Rightarrow> payload \<Rightarrow> bool" where
  "wf_payload ok (Genesis g) = wf_genesis ok g"
| "wf_payload ok (Claim op) = wf_owner_op op"
| "wf_payload ok (Update op) = wf_owner_op op"
| "wf_payload ok (Renew op) = wf_owner_op op"
| "wf_payload ok (Approve a) = wf_approval a"
| "wf_payload ok (Suspend op) = wf_name_op op"
| "wf_payload ok (Restore op) = wf_name_op op"

subsection \<open>Names\<close>

lemma Name_parse_eq_Inr: "Name_parse bs = Inr n \<longleftrightarrow> n = Name bs \<and> wf_name (Name bs)"
  by (auto simp: wf_name_def Name_parse_def)

lemma wf_name_length: "wf_name n \<Longrightarrow> 1 \<le> length (as_str n) \<and> length (as_str n) \<le> 63"
  by (auto simp: wf_name_def Name_parse_def NAME_MAX_BYTES_def)

lemma wf_name_utf8: "wf_name n \<Longrightarrow> is_utf8 (as_str n)"
proof -
  have "is_ascii_lowercase b \<or> is_ascii_digit b \<or> b = 45 \<Longrightarrow> b < 0x80" for b :: u8
    by (auto simp: is_ascii_lowercase_def is_ascii_digit_def dest: le_less_trans [of b _ 128])
  then show "wf_name n \<Longrightarrow> is_utf8 (as_str n)"
    by (intro is_utf8_ascii) (auto simp: wf_name_def Name_parse_def)
qed

lemma to_ascii_lowercase_id:
  assumes "\<forall>b \<in> set bs. \<not> (65 \<le> b \<and> b \<le> 90)"
  shows "to_ascii_lowercase bs = bs"
  using assms unfolding to_ascii_lowercase_def by (auto intro!: map_idI)

lemma Name_normalize_parse: "Name_parse bs = Inr n \<Longrightarrow> Name_normalize bs = Inr n"
proof -
  assume parse: "Name_parse bs = Inr n"
  have "is_ascii_lowercase b \<or> is_ascii_digit b \<or> b = 45 \<Longrightarrow> \<not> (65 \<le> b \<and> b \<le> 90)" for b :: u8
    by (auto simp: is_ascii_lowercase_def is_ascii_digit_def word_le_nat_alt)
  with parse have "\<forall>b \<in> set bs. \<not> (65 \<le> b \<and> b \<le> 90)" by (auto simp: Name_parse_def)
  with parse show ?thesis by (simp add: Name_normalize_def to_ascii_lowercase_id)
qed

subsection \<open>Component codecs\<close>

lemma Mode_parse_eq_Inr: "Mode_parse b = Inr m \<longleftrightarrow> b = Mode_byte m"
  by (cases m) (auto simp: Mode_parse_def)

lemma Genesis_validate_approvers: "Genesis_validate g = Inr u \<Longrightarrow> length (approvers g) \<le> 255"
  by (auto simp: Genesis_validate_def MAX_APPROVERS_def split: mode.splits)

interpretation approval_codec: strict_codec "\<lambda>a. Inr (Approval_encode a [])" Approval_decode wf_approval
proof (unfold_locales, goal_cases)
  case (1 x b)
  then show ?case
    by (cases x) (auto simp: Approval_encode_def Approval_decode_def wf_approval_def slice_simps
        APPROVAL_BODY_BYTES_def)
next
  case (2 b x)
  then have "take 32 b @ slice 32 64 b @ drop 64 b = b" by (simp add: slice_append_drop)
  with 2 show ?case
    by (auto simp: Approval_encode_def Approval_decode_def wf_approval_def APPROVAL_BODY_BYTES_def)
qed

interpretation name_op_codec: strict_codec "\<lambda>op. NameOp_encode op []" NameOp_decode wf_name_op
proof (unfold_locales, goal_cases)
  case (1 op b)
  then have n: "length (as_str (no_name op)) < 256" and r: "length (no_registry op) = 32"
    and nm: "Name_parse (as_str (no_name op)) = Inr (no_name op)" "is_utf8 (as_str (no_name op))"
    using wf_name_length [of "no_name op"] wf_name_utf8 by (auto simp: wf_name_op_def wf_name_def)
  with 1 show ?case
    by (cases op) (auto simp: NameOp_encode_def NameOp_decode_def try_from_def unat_byte_of_nat
        nth_append NAMEOP_FIXED_BYTES_def Let_def from_utf8_def)
next
  case (2 b op)
  then have len: "33 \<le> length b" "length b = 33 + unat (b ! 32)"
    and op: "op = \<lparr>no_registry = take 32 b, no_name = Name (drop 33 b)\<rparr>" "wf_name (Name (drop 33 b))"
    by (auto simp: NameOp_decode_def Let_def NAMEOP_FIXED_BYTES_def Name_parse_eq_Inr)
  have "b = take 32 b @ b ! 32 # drop 33 b" using len(1) id_take_nth_drop [of 32 b] by simp
  moreover have "word_of_nat (length (drop 33 b)) = b ! 32" using len by simp
  moreover have "try_from (length (drop 33 b)) = Inr (b ! 32)" using len by simp
  ultimately show ?case using op len by (auto simp: wf_name_op_def NameOp_encode_def)
qed

interpretation owner_op_codec: strict_codec "\<lambda>op. OwnerOp_encode op []" OwnerOp_decode wf_owner_op
proof (unfold_locales, goal_cases)
  case (1 op b)
  then have n: "length (as_str (oo_name op)) < 256" and r: "length (oo_registry op) = 32"
    "length (oo_salt op) = 16" "length (oo_target op) = 32"
    and nm: "Name_parse (as_str (oo_name op)) = Inr (oo_name op)" "is_utf8 (as_str (oo_name op))"
    using wf_name_length [of "oo_name op"] wf_name_utf8 by (auto simp: wf_owner_op_def wf_name_def)
  have b: "b = oo_registry op @ oo_salt op @ word_of_nat (length (as_str (oo_name op))) #
      as_str (oo_name op) @ oo_target op"
    using 1 n by (auto simp: OwnerOp_encode_def try_from_def)
  have at: "b ! 48 = word_of_nat (length (as_str (oo_name op)))"
    using r by (simp add: b nth_append)
  have nameat: "slice 49 (49 + length (as_str (oo_name op))) b = as_str (oo_name op)"
    using r by (simp add: b slice_def)
  show ?case
    using r n nm at nameat
    by (cases op) (auto simp: OwnerOp_decode_def Let_def OWNER_FIXED_BYTES_def from_utf8_def
        unat_byte_of_nat, simp_all add: b slice_simps)
next
  case (2 b op)
  define n where "n = unat (b ! 48)"
  from 2 have len: "length b = 81 + n"
    and op: "op = \<lparr>oo_registry = take 32 b, oo_salt = slice 32 48 b,
        oo_name = Name (slice 49 (49 + n) b), oo_target = drop (49 + n) b\<rparr>"
      "wf_name (Name (slice 49 (49 + n) b))"
    by (auto simp: OwnerOp_decode_def Let_def OWNER_FIXED_BYTES_def Name_parse_eq_Inr n_def)
  have "b = take 48 b @ b ! 48 # drop 49 b" using len id_take_nth_drop [of 48 b] by simp
  also have "take 48 b = take 32 b @ slice 32 48 b" by (simp add: take_append_slice)
  also have "drop 49 b = slice 49 (49 + n) b @ drop (49 + n) b" by (simp add: slice_append_drop)
  finally have split: "b = take 32 b @ slice 32 48 b @ b ! 48 # slice 49 (49 + n) b @ drop (49 + n) b"
    by simp
  have "try_from (length (slice 49 (49 + n) b)) = Inr (b ! 48)" using len by (simp add: n_def)
  with split op len show ?case by (auto simp: wf_owner_op_def OwnerOp_encode_def)
qed

lemma chunks_concat:
  "0 < n \<Longrightarrow> (\<forall>c \<in> set cs. length c = n) \<Longrightarrow> chunks n (concat cs) = cs"
proof (induction cs)
  case (Cons c cs)
  then show ?case by (subst chunks.simps) auto
qed simp

lemma chunks_exact:
  "0 < n \<Longrightarrow> length xs = n * k \<Longrightarrow> (\<forall>c \<in> set (chunks n xs). length c = n) \<and> length (chunks n xs) = k"
proof (induction k arbitrary: xs)
  case (Suc k)
  then have "(\<forall>c \<in> set (chunks n (drop n xs)). length c = n) \<and> length (chunks n (drop n xs)) = k"
    by (intro Suc.IH) auto
  with Suc.prems show ?case by (subst chunks.simps, subst (2) chunks.simps) auto
qed simp

lemma rtraverse_xonly:
  "rtraverse (xonly_from_slice ok) cs = Inr ks \<longleftrightarrow> ks = cs \<and> (\<forall>k \<in> set cs. length k = 32 \<and> ok k)"
  by (induction cs arbitrary: ks) (auto simp: xonly_from_slice_def)

definition genesis_bytes :: "genesis \<Rightarrow> bytes" where
  "genesis_bytes g = [RULES, Mode_byte (g_mode g)] @ to_le_bytes (expiry_blocks g) @
     to_le_bytes (reveal_max_blocks g) @ [threshold g, word_of_nat (length (approvers g))] @ concat (approvers g)"

lemma Genesis_encode_eq_Inr:
  "Genesis_encode g bs = Inr b \<longleftrightarrow> Genesis_validate g = Inr () \<and> b = bs @ genesis_bytes g"
  using Genesis_validate_approvers [of g "()"]
  by (auto simp: Genesis_encode_def genesis_bytes_def try_from_def)

lemma genesis_bytes_shape:
  "\<exists>e0 e1 e2 e3 r0 r1. to_le_bytes (expiry_blocks g) = [e0, e1, e2, e3] \<and>
     to_le_bytes (reveal_max_blocks g) = [r0, r1]"
proof -
  have "length (to_le_bytes (expiry_blocks g)) = 4" "length (to_le_bytes (reveal_max_blocks g)) = 2"
    by simp_all
  then show ?thesis by (auto simp: numeral_eq_Suc length_Suc_conv simp del: length_to_le_bytes)
qed

lemma Genesis_decode_encoded:
  assumes "wf_genesis ok g" and "Genesis_validate g = Inr ()"
  shows "Genesis_decode ok (genesis_bytes g) = Inr g"
proof -
  obtain e0 e1 e2 e3 r0 r1 where e: "to_le_bytes (expiry_blocks g) = [e0, e1, e2, e3]"
    and r: "to_le_bytes (reveal_max_blocks g) = [r0, r1]"
    using genesis_bytes_shape by blast
  have keys: "\<forall>k \<in> set (approvers g). length k = 32 \<and> ok k" using assms(1) by (simp add: wf_genesis_def)
  have count: "unat (word_of_nat (length (approvers g)) :: u8) = length (approvers g)"
    using Genesis_validate_approvers [OF assms(2)] by (intro unat_byte_of_nat) simp
  have "length (concat (approvers g)) = 32 * length (approvers g)"
    using keys by (intro length_concat_same) auto
  moreover have "chunks 32 (concat (approvers g)) = approvers g"
    using keys by (intro chunks_concat) auto
  moreover have "from_le_bytes [e0, e1, e2, e3] = expiry_blocks g" "from_le_bytes [r0, r1] = reveal_max_blocks g"
    using from_le_to_le [of "expiry_blocks g"] from_le_to_le [of "reveal_max_blocks g"] by (simp_all add: e r)
  moreover have "genesis_bytes g = [RULES, Mode_byte (g_mode g), e0, e1, e2, e3, r0, r1, threshold g,
      word_of_nat (length (approvers g))] @ concat (approvers g)"
    by (simp add: genesis_bytes_def e r)
  moreover have eta: "\<lparr>g_mode = g_mode g, expiry_blocks = expiry_blocks g,
      reveal_max_blocks = reveal_max_blocks g, threshold = threshold g, approvers = approvers g\<rparr> = g"
    by (cases g) simp
  moreover have "rtraverse (xonly_from_slice ok) (approvers g) = Inr (approvers g)"
    using keys by (simp add: rtraverse_xonly)
  moreover have "Mode_parse (Mode_byte (g_mode g)) = Inr (g_mode g)" by (simp add: Mode_parse_eq_Inr)
  ultimately show ?thesis
    using assms(2) count
    by (simp add: Genesis_decode_def slice_def Let_def GENESIS_FIXED_BYTES_def eta
        del: rbind_eq_Inr ensure_eq_Inr)
qed

lemma Genesis_decode_canonical:
  assumes "Genesis_decode ok b = Inr g"
  shows "wf_genesis ok g \<and> Genesis_validate g = Inr () \<and> b = genesis_bytes g"
proof -
  from assms have len: "length b = 10 + 32 * unat (b ! 9)" and rules: "b ! 0 = RULES"
    and keys: "approvers g = chunks 32 (drop 10 b)" "\<forall>k \<in> set (chunks 32 (drop 10 b)). length k = 32 \<and> ok k"
    and fields: "b ! 1 = Mode_byte (g_mode g)" "expiry_blocks g = from_le_bytes (slice 2 6 b)"
      "reveal_max_blocks g = from_le_bytes (slice 6 8 b)" "threshold g = b ! 8"
    and valid: "Genesis_validate g = Inr ()"
    by (auto simp: Genesis_decode_def Let_def GENESIS_FIXED_BYTES_def rtraverse_xonly
        Mode_parse_eq_Inr split: if_splits)
  obtain b0 b1 b2 b3 b4 b5 b6 b7 q where "b = [b0, b1, b2, b3, b4, b5, b6, b7] @ q"
    using list_8_cases [of b] len by auto
  moreover from this obtain b8 b9 q' where "q = b8 # b9 # q'"
    using len by (cases q; cases "tl q") auto
  ultimately have b: "b = [b0, b1, b2, b3, b4, b5, b6, b7, b8, b9] @ q'" by simp
  have "length q' = 32 * unat b9" using len by (simp add: b)
  then have "length (approvers g) = unat b9" "concat (approvers g) = q'"
    using chunks_exact [of 32 q' "unat b9"] by (simp_all add: keys b)
  moreover have "to_le_bytes (expiry_blocks g) = [b2, b3, b4, b5]" "to_le_bytes (reveal_max_blocks g) = [b6, b7]"
    by (simp_all add: fields b slice_def)
  ultimately have "b = genesis_bytes g"
    using rules fields by (simp add: genesis_bytes_def b)
  with keys valid show ?thesis by (simp add: wf_genesis_def)
qed

interpretation genesis_codec: strict_codec "\<lambda>g. Genesis_encode g []" "Genesis_decode ok" "wf_genesis ok" for ok
  using Genesis_decode_encoded Genesis_decode_canonical
  by unfold_locales (auto simp: Genesis_encode_eq_Inr)

subsection \<open>Payloads are a strict codec\<close>

lemma encode_buffer:
  "Genesis_encode g bs = rmap ((@) bs) (Genesis_encode g [])"
  "OwnerOp_encode op bs = rmap ((@) bs) (OwnerOp_encode op [])"
  "NameOp_encode nop bs = rmap ((@) bs) (NameOp_encode nop [])"
  "Approval_encode a bs = bs @ Approval_encode a []"
  by (simp_all add: Genesis_encode_def OwnerOp_encode_def NameOp_encode_def Approval_encode_def rmap_def
      rbind_def split: sum.splits)

lemma Payload_decode_eq_Inr:
  "Payload_decode ok b = Inr p \<longleftrightarrow> wf_payload ok p \<and> Payload_encode p = Inr b"
proof (cases b)
  case Nil
  then show ?thesis
    by (cases p) (auto simp: Payload_decode_def Payload_encode_def encode_buffer(1-3) [of _ "[_]"]
        encode_buffer(4) [of _ "[_]"])
next
  case (Cons op body)
  note codecs = genesis_codec.decode_iff owner_op_codec.decode_iff name_op_codec.decode_iff
    approval_codec.decode_iff
  show ?thesis
    unfolding Cons
    by (cases p) (auto simp: Payload_decode_def Payload_encode_def codecs Let_def
        encode_buffer(1-3) [of _ "[_]"] encode_buffer(4) [of _ "[_]"])
qed

interpretation payload_codec: strict_codec Payload_encode "Payload_decode ok" "wf_payload ok" for ok
  by unfold_locales (simp_all add: Payload_decode_eq_Inr)

lemma Payload_from_record_eq_Inr:
  "Payload_from_record ok r = Inr p \<longleftrightarrow> (\<exists>body. r = ProfileRecord PROFILE body \<and> Payload_decode ok body = Inr p)"
  by (auto simp: Payload_from_record_def Let_def split: public_record.splits)

subsection \<open>Properties\<close>

text \<open>
  The names payload decoder accepts exactly the encodings of well-formed payloads and returns the
  payload that was encoded, for every one of the seven operations, and no payload has two accepted
  encodings.
\<close>
theorem names_payload_codec:
  "Payload_decode ok b = Inr p \<longleftrightarrow> wf_payload ok p \<and> Payload_encode p = Inr b"
  by (rule payload_codec.decode_iff)

text \<open>
  A payload wrapped in a profile record and read back is the same payload, and a record that is
  not of the Names profile is refused.
\<close>
theorem names_record_roundtrip:
  "wf_payload ok p \<Longrightarrow> Payload_to_record p = Inr r \<Longrightarrow> Payload_from_record ok r = Inr p"
  by (auto simp: Payload_to_record_def Payload_from_record_eq_Inr Payload_decode_eq_Inr)

theorem names_record_roundtrip_witness:
  "Payload_from_record (\<lambda>_. True)
     (ProfileRecord PROFILE ([5] @ replicate 32 7 @ [2, 97, 98])) =
   Inr (Suspend \<lparr>no_registry = replicate 32 7, no_name = Name [97, 98]\<rparr>)"
proof -
  let ?p = "Suspend \<lparr>no_registry = replicate 32 7, no_name = Name [97, 98]\<rparr>"
  have "wf_payload (\<lambda>_. True) ?p"
    by (simp add: wf_name_op_def wf_name_def Name_parse_def NAME_MAX_BYTES_def is_ascii_lowercase_def)
  moreover have "Payload_to_record ?p = Inr (ProfileRecord PROFILE ([5] @ replicate 32 7 @ [2, 97, 98]))"
    by (simp add: Payload_to_record_def Payload_encode_def NameOp_encode_def try_from_def)
  ultimately show ?thesis by (rule names_record_roundtrip)
qed

end
