(* ===== verification/Names_State.thy ===== *)
theory Names_State
  imports Names_Payload
begin

section \<open>The state of a names registry (\<^verbatim>\<open>urma-names/src/state.rs\<close>, \<^verbatim>\<open>config.rs\<close>)\<close>

text \<open>
  The data the registry engine keeps and reports: bindings, name states with their suspension votes,
  pending records with their approvals, the observations a block brings and the verdicts they get.
  Keys, transaction ids and hashes are byte strings; a \<open>BTreeSet\<close> of keys is a set.
\<close>

datatype target = Reserved | Publication bytes

record bound =
  b_owner :: bytes
  b_target :: target
  b_expiry :: u64
  b_claim_txid :: bytes
  b_last_txid :: bytes

datatype binding = Unbound | Bound bound

record name_state =
  ns_binding :: binding
  ns_suspended :: bool
  ns_suspend_votes :: "bytes set"
  ns_restore_votes :: "bytes set"

definition NameState_unbound :: name_state where
  "NameState_unbound = \<lparr>ns_binding = Unbound, ns_suspended = False,
     ns_suspend_votes = {}, ns_restore_votes = {}\<rparr>"

datatype pending_kind = Request | UpdateKind

record pending_record =
  pr_kind :: pending_kind
  pr_name :: name
  pr_author :: bytes
  pr_target :: bytes
  pr_sha256 :: bytes
  pr_height :: u64
  pr_approvals :: "bytes set"
  pr_completed :: bool

record commit =
  c_txid :: bytes
  c_vout :: u32
  c_height :: u64
  c_position :: u32

record observation =
  o_txid :: bytes
  o_author :: bytes
  o_record_sha256 :: bytes
  o_payload :: payload
  o_height :: u64
  o_position :: u32
  o_commit :: commit

datatype rejection =
    ForeignRegistry | CommitNotAfterGenesis | RevealWindow | Overflow | OpenRegistry | NotApprover
  | UnknownRecord | HashMismatch | Completed | Repeated | ZeroTarget | NameBound | NameUnbound
  | NotOwner | TargetChanged | NameSuspended | OwnerChanged | WrongPhase | LostRace

datatype verdict = Applied | Pending | Inert rejection | InvalidRecord rejection

record outcome =
  oc_txid :: bytes
  oc_position :: u32
  oc_verdict :: verdict

definition Outcome_new :: "observation \<Rightarrow> verdict \<Rightarrow> outcome" where
  "Outcome_new obs v = \<lparr>oc_txid = o_txid obs, oc_position = o_position obs, oc_verdict = v\<rparr>"

datatype resolution = ResUnbound | ResBound bound | ResSuspended

definition state_of :: "(name \<rightharpoonup> name_state) \<Rightarrow> name \<Rightarrow> name_state" where
  "state_of names n = (case names n of Some s \<Rightarrow> s | None \<Rightarrow> NameState_unbound)"

lemma state_of_Some [simp]: "names n = Some s \<Longrightarrow> state_of names n = s"
  by (simp add: state_of_def)

lemma state_of_None [simp]: "names n = None \<Longrightarrow> state_of names n = NameState_unbound"
  by (simp add: state_of_def)

lemma state_of_upd: "state_of (names(n := x)) m = (if m = n then (case x of Some s \<Rightarrow> s | None \<Rightarrow> NameState_unbound) else state_of names m)"
  by (simp add: state_of_def)

lemma unbound_binding [simp]: "ns_binding NameState_unbound = Unbound" "ns_suspended NameState_unbound = False"
  "ns_suspend_votes NameState_unbound = {}" "ns_restore_votes NameState_unbound = {}"
  by (simp_all add: NameState_unbound_def)

lemma state_of_bound: "ns_binding (state_of names n) = Bound b \<longleftrightarrow> (\<exists>s. names n = Some s \<and> ns_binding s = Bound b)"
  by (cases "names n") auto

end
