(* ===== verification/Registry.thy ===== *)
theory Registry
  imports Names_State Ordered_Map
begin

section \<open>The registry engine (\<^verbatim>\<open>urma-names/src/engine.rs\<close>)\<close>

text \<open>
  The state machine that applies the observations of one block after the other: expiry, the
  approver phase, the claim race of an open registry and the owner phase, with an undo frame per
  block. Every method that takes \<open>&mut self\<close> is a function from the registry to the registry (and
  its result); the order of phases, guards and early returns is the code's. \<open>self.undo\<close> is a list
  with the newest frame last. \<open>remember_name\<close> and \<open>remember_pending\<close> panic in the code when there
  is no frame; here they leave the registry alone in that case, and the steps of
  \<^verbatim>\<open>Registry_Steps\<close> show that a frame is always there.
\<close>

record ('k, 'v) change =
  ch_key :: 'k
  ch_before :: "'v option"
  ch_after :: "'v option"

record block_delta =
  bd_height :: u64
  bd_names :: "(name, name_state) change list"
  bd_pending :: "(bytes, pending_record) change list"

record applied_block =
  ab_outcomes :: "outcome list"
  ab_delta :: block_delta

datatype 'a previous = Absent | Present 'a

record delta =
  d_names :: "(name \<times> name_state previous) list"
  d_pending :: "(bytes \<times> pending_record previous) list"

fun previous_of :: "'a option \<Rightarrow> 'a previous" where
  "previous_of (Some v) = Present v"
| "previous_of None = Absent"

fun before_value :: "'a previous \<Rightarrow> 'a option" where
  "before_value (Present v) = Some v"
| "before_value Absent = None"

datatype admission = Admitted | Rejected rejection

record registry =
  r_genesis :: bytes
  r_genesis_height :: u64
  r_rules :: genesis
  r_height :: u64
  r_names :: "name \<rightharpoonup> name_state"
  r_pending :: "bytes \<rightharpoonup> pending_record"
  r_expiries :: "(u64 \<times> name) set"
  r_undo :: "delta list"

definition commit_key :: "observation \<Rightarrow> u64 \<times> u32 \<times> u32" where
  "commit_key obs = (c_height (o_commit obs), c_position (o_commit obs), c_vout (o_commit obs))"

definition target_of :: "owner_op \<Rightarrow> target" where
  "target_of op = (if is_reserving op then Reserved else Publication (oo_target op))"

definition Registry_new :: "bytes \<Rightarrow> u64 \<Rightarrow> genesis \<Rightarrow> error + registry" where
  "Registry_new genesis_txid genesis_height rules =
     rbind (Genesis_validate rules) (\<lambda>_.
     Inr \<lparr>r_genesis = genesis_txid, r_genesis_height = genesis_height, r_rules = rules,
          r_height = genesis_height, r_names = Map.empty, r_pending = Map.empty,
          r_expiries = {}, r_undo = []\<rparr>)"

definition Registry_resolve :: "registry \<Rightarrow> name \<Rightarrow> resolution" where
  "Registry_resolve r n =
     (let s = state_of (r_names r) n in
      if ns_suspended s then ResSuspended
      else case ns_binding s of Unbound \<Rightarrow> ResUnbound | Bound b \<Rightarrow> ResBound b)"

definition reversible_blocks :: "registry \<Rightarrow> nat" where
  "reversible_blocks r = length (r_undo r)"

subsection \<open>Admission\<close>

definition admit :: "registry \<Rightarrow> observation \<Rightarrow> bytes \<Rightarrow> admission" where
  "admit r obs reg =
     (if reg \<noteq> r_genesis r then Rejected ForeignRegistry
      else if c_height (o_commit obs) \<le> r_genesis_height r then Rejected CommitNotAfterGenesis
      else case checked_sub (o_height obs) (c_height (o_commit obs)) of
        None \<Rightarrow> Rejected RevealWindow
      | Some age \<Rightarrow>
          if age < 1 \<or> ucast (reveal_max_blocks (r_rules r)) < age then Rejected RevealWindow
          else Admitted)"

definition admit_approver :: "registry \<Rightarrow> observation \<Rightarrow> bytes \<Rightarrow> admission" where
  "admit_approver r obs reg =
     (case admit r obs reg of
        Rejected rej \<Rightarrow> Rejected rej
      | Admitted \<Rightarrow>
          if g_mode (r_rules r) = Open then Rejected OpenRegistry
          else if \<not> is_approver (r_rules r) (o_author obs) then Rejected NotApprover
          else Admitted)"

definition expiry_after :: "registry \<Rightarrow> u64 \<Rightarrow> u64 option" where
  "expiry_after r h = checked_add h (ucast (expiry_blocks (r_rules r)))"

subsection \<open>Undo frames and name storage\<close>

definition upd_last :: "('a \<Rightarrow> 'a) \<Rightarrow> 'a list \<Rightarrow> 'a list" where
  "upd_last f xs = (if xs = [] then [] else butlast xs @ [f (last xs)])"

definition remember_name :: "registry \<Rightarrow> name \<Rightarrow> registry" where
  "remember_name r n =
     r\<lparr>r_undo := upd_last (\<lambda>d.
        if n \<in> fst ` set (d_names d) then d
        else d\<lparr>d_names := d_names d @ [(n, previous_of (r_names r n))]\<rparr>) (r_undo r)\<rparr>"

definition remember_pending :: "registry \<Rightarrow> bytes \<Rightarrow> registry" where
  "remember_pending r t =
     r\<lparr>r_undo := upd_last (\<lambda>d.
        if t \<in> fst ` set (d_pending d) then d
        else d\<lparr>d_pending := d_pending d @ [(t, previous_of (r_pending r t))]\<rparr>) (r_undo r)\<rparr>"

definition drop_expiry :: "registry \<Rightarrow> name \<Rightarrow> (u64 \<times> name) set" where
  "drop_expiry r n =
     (case ns_binding (state_of (r_names r) n) of
        Bound b \<Rightarrow> r_expiries r - {(b_expiry b, n)}
      | Unbound \<Rightarrow> r_expiries r)"

definition store :: "registry \<Rightarrow> name \<Rightarrow> name_state \<Rightarrow> registry" where
  "store r n s =
     r\<lparr>r_expiries :=
         (case ns_binding s of
            Bound b \<Rightarrow> insert (b_expiry b, n) (drop_expiry r n)
          | Unbound \<Rightarrow> drop_expiry r n),
       r_names := (r_names r)(n \<mapsto> s)\<rparr>"

definition forget :: "registry \<Rightarrow> name \<Rightarrow> registry" where
  "forget r n = r\<lparr>r_expiries := drop_expiry r n, r_names := (r_names r)(n := None)\<rparr>"

definition set_name :: "registry \<Rightarrow> name \<Rightarrow> name_state \<Rightarrow> registry" where
  "set_name r n s = store (remember_name r n) n s"

definition put_pending :: "registry \<Rightarrow> bytes \<Rightarrow> pending_record \<Rightarrow> registry" where
  "put_pending r t rec = r\<lparr>r_pending := (r_pending r)(t \<mapsto> rec)\<rparr>"

subsection \<open>Phases of a block\<close>

definition expire_entry :: "registry \<Rightarrow> u64 \<times> name \<Rightarrow> registry" where
  "expire_entry r e =
     (case e of (expiry, n) \<Rightarrow>
      let s = state_of (r_names r) n in
      case ns_binding s of
        Unbound \<Rightarrow> r\<lparr>r_expiries := r_expiries r - {(expiry, n)}\<rparr>
      | Bound _ \<Rightarrow> set_name r n (s\<lparr>ns_binding := Unbound\<rparr>))"

definition due_entries :: "registry \<Rightarrow> u64 \<Rightarrow> (u64 \<times> name) list" where
  "due_entries r h = takeWhile (\<lambda>e. fst e \<le> h) (sorted_list_of_set (r_expiries r))"

definition expire :: "registry \<Rightarrow> u64 \<Rightarrow> registry" where
  "expire r h = foldl expire_entry r (due_entries r h)"

definition complete :: "registry \<Rightarrow> observation \<Rightarrow> bytes \<Rightarrow> pending_record \<Rightarrow> verdict \<times> registry" where
  "complete r obs record_txid rec =
     (let s = state_of (r_names r) (pr_name rec) in
      case pr_kind rec of
        Request \<Rightarrow>
          if ns_suspended s then (Inert NameSuspended, r)
          else (case ns_binding s of
            Bound _ \<Rightarrow> (Inert NameBound, r)
          | Unbound \<Rightarrow>
              (case expiry_after r (o_height obs) of
                 None \<Rightarrow> (InvalidRecord Overflow, r)
               | Some expiry \<Rightarrow>
                   (Applied, set_name r (pr_name rec)
                     (s\<lparr>ns_binding := Bound \<lparr>b_owner = pr_author rec,
                        b_target = Publication (pr_target rec), b_expiry = expiry,
                        b_claim_txid = record_txid, b_last_txid = o_txid obs\<rparr>\<rparr>))))
      | UpdateKind \<Rightarrow>
          (case ns_binding s of
             Unbound \<Rightarrow> (Inert NameUnbound, r)
           | Bound b \<Rightarrow>
               if b_owner b \<noteq> pr_author rec then (Inert OwnerChanged, r)
               else (Applied, set_name r (pr_name rec)
                 (s\<lparr>ns_binding := Bound (b\<lparr>b_target := Publication (pr_target rec),
                      b_last_txid := o_txid obs\<rparr>)\<rparr>))))"

definition approve :: "registry \<Rightarrow> observation \<Rightarrow> approval \<Rightarrow> verdict \<times> registry" where
  "approve r obs a =
     (case admit_approver r obs (ap_registry a) of
        Rejected rej \<Rightarrow> (InvalidRecord rej, r)
      | Admitted \<Rightarrow>
          (case r_pending r (ap_record_txid a) of
             None \<Rightarrow> (InvalidRecord UnknownRecord, r)
           | Some rec \<Rightarrow>
               if pr_sha256 rec \<noteq> ap_record_sha256 a then (InvalidRecord HashMismatch, r)
               else if pr_completed rec then (Inert Completed, r)
               else if o_author obs \<in> pr_approvals rec then (Inert Repeated, r)
               else
                 let rec' = rec\<lparr>pr_approvals := insert (o_author obs) (pr_approvals rec)\<rparr>;
                     r1 = remember_pending r (ap_record_txid a)
                 in if card (pr_approvals rec') < unat (threshold (r_rules r))
                    then (Applied, put_pending r1 (ap_record_txid a) rec')
                    else
                      let rec'' = rec'\<lparr>pr_completed := True\<rparr>;
                          (v, r2) = complete r1 obs (ap_record_txid a) rec''
                      in (v, put_pending r2 (ap_record_txid a) rec'')))"

definition vote :: "registry \<Rightarrow> observation \<Rightarrow> name_op \<Rightarrow> bool \<Rightarrow> verdict \<times> registry" where
  "vote r obs op suspend =
     (case admit_approver r obs (no_registry op) of
        Rejected rej \<Rightarrow> (InvalidRecord rej, r)
      | Admitted \<Rightarrow>
          let s = state_of (r_names r) (no_name op) in
          if ns_suspended s = suspend then (Inert WrongPhase, r)
          else
            let votes = (if suspend then ns_suspend_votes s else ns_restore_votes s) in
            if o_author obs \<in> votes then (Inert Repeated, r)
            else
              let votes' = insert (o_author obs) votes;
                  s1 = (if suspend then s\<lparr>ns_suspend_votes := votes'\<rparr> else s\<lparr>ns_restore_votes := votes'\<rparr>);
                  s2 = (if unat (threshold (r_rules r)) \<le> card votes'
                        then s1\<lparr>ns_suspended := suspend, ns_suspend_votes := {}, ns_restore_votes := {}\<rparr>
                        else s1)
              in (Applied, set_name r (no_name op) s2))"

definition approver_record :: "registry \<times> outcome list \<Rightarrow> observation \<Rightarrow> registry \<times> outcome list" where
  "approver_record st obs =
     (case st of (r, outcomes) \<Rightarrow>
      let push = (\<lambda>(v, r'). (r', outcomes @ [Outcome_new obs v])) in
      case o_payload obs of
        Approve a \<Rightarrow> push (approve r obs a)
      | Suspend op \<Rightarrow> push (vote r obs op True)
      | Restore op \<Rightarrow> push (vote r obs op False)
      | _ \<Rightarrow> (r, outcomes))"

definition approver_records :: "registry \<Rightarrow> observation list \<Rightarrow> outcome list \<Rightarrow> registry \<times> outcome list" where
  "approver_records r obss outcomes = foldl approver_record (r, outcomes) obss"

type_synonym candidates = "(name \<times> nat list) list"

definition candidate_step ::
  "registry \<Rightarrow> observation list \<Rightarrow> candidates \<times> outcome list \<Rightarrow> nat \<Rightarrow> candidates \<times> outcome list" where
  "candidate_step r obss st i =
     (case st of (cands, outcomes) \<Rightarrow>
      let obs = obss ! i in
      case o_payload obs of
        Claim op \<Rightarrow>
          (case admit r obs (oo_registry op) of
             Rejected rej \<Rightarrow> (cands, outcomes @ [Outcome_new obs (InvalidRecord rej)])
           | Admitted \<Rightarrow>
               (case ns_binding (state_of (r_names r) (oo_name op)) of
                  Bound _ \<Rightarrow> (cands, outcomes @ [Outcome_new obs (Inert NameBound)])
                | Unbound \<Rightarrow>
                    (case bt_get cands (oo_name op) of
                       None \<Rightarrow> (bt_insert (oo_name op) [i] cands, outcomes)
                     | Some is \<Rightarrow> (bt_insert (oo_name op) (is @ [i]) cands, outcomes))))
      | _ \<Rightarrow> (cands, outcomes))"

definition assign ::
  "observation list \<Rightarrow> registry \<times> outcome list \<Rightarrow> name \<times> nat list \<Rightarrow> registry \<times> outcome list" where
  "assign obss st entry =
     (case st of (r, outcomes) \<Rightarrow>
      case entry of (n, is) \<Rightarrow>
      if is = [] then (r, outcomes)
      else
        let winner = arg_min_list (\<lambda>i. commit_key (obss ! i)) is;
            obs = obss ! winner
        in case o_payload obs of
             Claim op \<Rightarrow>
               (case expiry_after r (o_height obs) of
                  None \<Rightarrow> (r, outcomes @ [Outcome_new obs (InvalidRecord Overflow)])
                | Some expiry \<Rightarrow>
                    let s = (state_of (r_names r) n)\<lparr>ns_binding := Bound \<lparr>b_owner = o_author obs,
                              b_target = target_of op, b_expiry = expiry,
                              b_claim_txid = o_txid obs, b_last_txid = o_txid obs\<rparr>\<rparr>
                    in (set_name r n s,
                        outcomes @ map (\<lambda>i. Outcome_new (obss ! i)
                          (if i = winner then Applied else Inert LostRace)) is))
           | _ \<Rightarrow> (r, outcomes))"

definition claims :: "registry \<Rightarrow> observation list \<Rightarrow> outcome list \<Rightarrow> registry \<times> outcome list" where
  "claims r obss outcomes =
     (let (cands, outcomes1) = foldl (candidate_step r obss) ([], outcomes) [0..<length obss]
      in foldl (assign obss) (r, outcomes1) cands)"

definition insert_pending :: "registry \<Rightarrow> observation \<Rightarrow> pending_kind \<Rightarrow> owner_op \<Rightarrow> registry" where
  "insert_pending r obs kind op =
     put_pending (remember_pending r (o_txid obs)) (o_txid obs)
       \<lparr>pr_kind = kind, pr_name = oo_name op, pr_author = o_author obs, pr_target = oo_target op,
        pr_sha256 = o_record_sha256 obs, pr_height = o_height obs, pr_approvals = {},
        pr_completed = False\<rparr>"

definition request :: "registry \<Rightarrow> observation \<Rightarrow> owner_op \<Rightarrow> verdict \<times> registry" where
  "request r obs op =
     (case admit r obs (oo_registry op) of
        Rejected rej \<Rightarrow> (InvalidRecord rej, r)
      | Admitted \<Rightarrow>
          if is_reserving op then (InvalidRecord ZeroTarget, r)
          else (Pending, insert_pending r obs Request op))"

definition update :: "registry \<Rightarrow> observation \<Rightarrow> owner_op \<Rightarrow> verdict \<times> registry" where
  "update r obs op =
     (case admit r obs (oo_registry op) of
        Rejected rej \<Rightarrow> (InvalidRecord rej, r)
      | Admitted \<Rightarrow>
          let s = state_of (r_names r) (oo_name op) in
          (case ns_binding s of
             Unbound \<Rightarrow> (InvalidRecord NameUnbound, r)
           | Bound b \<Rightarrow>
               if b_owner b \<noteq> o_author obs then (InvalidRecord NotOwner, r)
               else (case g_mode (r_rules r) of
                 Open \<Rightarrow>
                   (Applied, set_name r (oo_name op)
                     (s\<lparr>ns_binding := Bound (b\<lparr>b_target := target_of op, b_last_txid := o_txid obs\<rparr>)\<rparr>))
               | Administered \<Rightarrow>
                   if is_reserving op then (InvalidRecord ZeroTarget, r)
                   else (Pending, insert_pending r obs UpdateKind op))))"

definition renew :: "registry \<Rightarrow> observation \<Rightarrow> owner_op \<Rightarrow> verdict \<times> registry" where
  "renew r obs op =
     (case admit r obs (oo_registry op) of
        Rejected rej \<Rightarrow> (InvalidRecord rej, r)
      | Admitted \<Rightarrow>
          (case expiry_after r (o_height obs) of
             None \<Rightarrow> (InvalidRecord Overflow, r)
           | Some expiry \<Rightarrow>
               let s = state_of (r_names r) (oo_name op) in
               (case ns_binding s of
                  Unbound \<Rightarrow> (InvalidRecord NameUnbound, r)
                | Bound b \<Rightarrow>
                    if b_owner b \<noteq> o_author obs then (InvalidRecord NotOwner, r)
                    else
                      let renewed = (\<lambda>b'. (Applied, set_name r (oo_name op)
                            (s\<lparr>ns_binding := Bound (b'\<lparr>b_expiry := expiry, b_last_txid := o_txid obs\<rparr>)\<rparr>)))
                      in (case g_mode (r_rules r) of
                            Open \<Rightarrow> renewed (b\<lparr>b_target := target_of op\<rparr>)
                          | Administered \<Rightarrow>
                              if b_target b \<noteq> Publication (oo_target op)
                              then (InvalidRecord TargetChanged, r)
                              else renewed b))))"

definition owner_record :: "registry \<times> outcome list \<Rightarrow> observation \<Rightarrow> registry \<times> outcome list" where
  "owner_record st obs =
     (case st of (r, outcomes) \<Rightarrow>
      let push = (\<lambda>(v, r'). (r', outcomes @ [Outcome_new obs v])) in
      case o_payload obs of
        Claim op \<Rightarrow>
          (case g_mode (r_rules r) of
             Administered \<Rightarrow> push (request r obs op)
           | Open \<Rightarrow> (r, outcomes))
      | Update op \<Rightarrow> push (update r obs op)
      | Renew op \<Rightarrow> push (renew r obs op)
      | Genesis _ \<Rightarrow> push (InvalidRecord ForeignRegistry, r)
      | _ \<Rightarrow> (r, outcomes))"

definition owner_records :: "registry \<Rightarrow> observation list \<Rightarrow> outcome list \<Rightarrow> registry \<times> outcome list" where
  "owner_records r obss outcomes = foldl owner_record (r, outcomes) obss"

subsection \<open>Connecting and disconnecting blocks\<close>

definition forward_delta :: "registry \<Rightarrow> delta \<Rightarrow> block_delta" where
  "forward_delta r d =
     \<lparr>bd_height = r_height r,
      bd_names = map (\<lambda>(k, before). \<lparr>ch_key = k, ch_before = before_value before, ch_after = r_names r k\<rparr>) (d_names d),
      bd_pending = map (\<lambda>(k, before). \<lparr>ch_key = k, ch_before = before_value before, ch_after = r_pending r k\<rparr>) (d_pending d)\<rparr>"

definition open_frame :: "registry \<Rightarrow> u64 \<Rightarrow> registry" where
  "open_frame r h = r\<lparr>r_undo := r_undo r @ [\<lparr>d_names = [], d_pending = []\<rparr>], r_height := h\<rparr>"

definition apply_block :: "registry \<Rightarrow> observation list \<Rightarrow> registry \<times> outcome list" where
  "apply_block r obss =
     (let (r1, out1) = approver_records r obss [];
          (r2, out2) = (if g_mode (r_rules r1) = Open then claims r1 obss out1 else (r1, out1))
      in owner_records r2 obss out2)"

definition connect_delta :: "registry \<Rightarrow> u64 \<Rightarrow> observation list \<Rightarrow> error + applied_block \<times> registry" where
  "connect_delta r h observations =
     rbind (ok_or (Capacity ''height overflow'') (checked_add (r_height r) 1)) (\<lambda>expected.
     ensure (h = expected)
       (Invalid (''expected block '' @ dec (unat expected) @ '', got '' @ dec (unat h)))
    (ensure (\<forall>obs \<in> set observations. o_height obs = h)
       (Invalid (''observation outside block '' @ dec (unat h)))
    (let obss = sort_key o_position observations in
     ensure (windows2_all (\<lambda>a b. o_position a < o_position b) obss) (Invalid ''duplicate block position'')
    (let (r', outcomes) = apply_block (expire (open_frame r h) h) obss
     in Inr (\<lparr>ab_outcomes = outcomes, ab_delta = forward_delta r' (last (r_undo r'))\<rparr>, r')))))"

definition connect :: "registry \<Rightarrow> u64 \<Rightarrow> observation list \<Rightarrow> error + outcome list \<times> registry" where
  "connect r h observations = rmap (\<lambda>(ab, r'). (ab_outcomes ab, r')) (connect_delta r h observations)"

definition restore_name :: "registry \<Rightarrow> name \<times> name_state previous \<Rightarrow> registry" where
  "restore_name r e =
     (case e of (n, Present s) \<Rightarrow> store r n s | (n, Absent) \<Rightarrow> forget r n)"

definition restore_pending :: "registry \<Rightarrow> bytes \<times> pending_record previous \<Rightarrow> registry" where
  "restore_pending r e =
     (case e of
        (t, Present rec) \<Rightarrow> put_pending r t rec
      | (t, Absent) \<Rightarrow> r\<lparr>r_pending := (r_pending r)(t := None)\<rparr>)"

definition disconnect_delta :: "registry \<Rightarrow> error + block_delta \<times> registry" where
  "disconnect_delta r =
     (if r_undo r = [] then Inl (Missing ''no reversible block'')
      else
        let d = last (r_undo r) in
        rbind (ok_or (Capacity ''height underflow'') (checked_sub (r_height r) 1)) (\<lambda>restored_height.
        let forward = forward_delta r d;
            r1 = r\<lparr>r_undo := butlast (r_undo r)\<rparr>;
            r2 = foldl restore_name r1 (d_names d);
            r3 = foldl restore_pending r2 (d_pending d)
        in Inr (forward, r3\<lparr>r_height := restored_height\<rparr>)))"

definition disconnect :: "registry \<Rightarrow> error + u64 \<times> registry" where
  "disconnect r = rmap (\<lambda>(d, r'). (bd_height d, r')) (disconnect_delta r)"

definition prune :: "registry \<Rightarrow> nat \<Rightarrow> registry" where
  "prune r keep =
     (if keep \<le> length (r_undo r) then r\<lparr>r_undo := drop (length (r_undo r) - keep) (r_undo r)\<rparr> else r)"

subsection \<open>Restoring trusted parts\<close>

definition undo_change ::
  "string \<Rightarrow> string \<Rightarrow> 'k set \<times> ('k \<rightharpoonup> 'v) \<Rightarrow> ('k, 'v) change \<Rightarrow> error + 'k set \<times> ('k \<rightharpoonup> 'v)" where
  "undo_change duplicate mismatch st ch =
     (case st of (keys, m) \<Rightarrow>
      ensure (ch_key ch \<notin> keys) (Invalid duplicate)
     (ensure (m (ch_key ch) = ch_after ch) (Invalid mismatch)
     (Inr (insert (ch_key ch) keys, m(ch_key ch := ch_before ch)))))"

definition undo_frame ::
  "u64 \<Rightarrow> u64 \<times> (name \<rightharpoonup> name_state) \<times> (bytes \<rightharpoonup> pending_record) \<Rightarrow> block_delta \<Rightarrow>
   error + u64 \<times> (name \<rightharpoonup> name_state) \<times> (bytes \<rightharpoonup> pending_record)" where
  "undo_frame genesis_height st frame =
     (case st of (expected, names, pending) \<Rightarrow>
      ensure (bd_height frame = expected \<and> genesis_height < bd_height frame)
        (Invalid ''noncontiguous undo suffix or frame at/before genesis'')
     (rbind (rfold (undo_change ''duplicate undo name key'' ''undo name after-value mismatch'')
         ({}, names) (bd_names frame)) (\<lambda>(_, names').
      rbind (rfold (undo_change ''duplicate undo pending key'' ''undo pending after-value mismatch'')
         ({}, pending) (bd_pending frame)) (\<lambda>(_, pending').
      Inr (expected - 1, names', pending')))))"

definition frame_delta :: "block_delta \<Rightarrow> delta" where
  "frame_delta frame =
     \<lparr>d_names = map (\<lambda>ch. (ch_key ch, previous_of (ch_before ch))) (bd_names frame),
      d_pending = map (\<lambda>ch. (ch_key ch, previous_of (ch_before ch))) (bd_pending frame)\<rparr>"

text \<open>
  \<open>from_parts\<close> iterates the supplied names in key order and stores each into an empty registry.
  The supplied \<open>BTreeMap\<close> is the list of its entries in ascending order.
\<close>

definition from_parts ::
  "bytes \<Rightarrow> u64 \<Rightarrow> genesis \<Rightarrow> u64 \<Rightarrow> (name \<times> name_state) list \<Rightarrow> (bytes \<rightharpoonup> pending_record) \<Rightarrow>
   block_delta list \<Rightarrow> error + registry" where
  "from_parts genesis_txid genesis_height rules h names pending undo =
     rbind (Registry_new genesis_txid genesis_height rules) (\<lambda>r.
     ensure (genesis_height \<le> h) (Invalid ''registry height before genesis'')
    (rbind (rfold (undo_frame genesis_height) (h, map_of names, pending) (rev undo)) (\<lambda>_.
     let r1 = foldl (\<lambda>r (n, s). store r n s) r names
     in Inr (r1\<lparr>r_pending := pending, r_height := h, r_undo := map frame_delta undo\<rparr>))))"

end
