(* ===== verification/Chain_Params.thy ===== *)
theory Chain_Params
  imports Prelude
begin

section \<open>Chains and their parameters (\<^verbatim>\<open>urma-chain/src/observation.rs\<close>, \<^verbatim>\<open>config.rs\<close>)\<close>

text \<open>The chains the program knows and the constants of their proof of work.\<close>

datatype pow_function = Sha256d | Scrypt

record chain_params =
  cp_magic :: bytes
  cp_port :: u16
  cp_dns_seeds :: "string list"
  cp_fixed_seeds :: "string list"
  cp_pow :: pow_function
  cp_pow_limit_bits :: u32
  cp_retarget_interval :: u64
  cp_retarget_lookback :: u64
  cp_target_timespan :: u32
  cp_target_spacing :: u32
  cp_allow_min_difficulty :: bool
  cp_retargets :: bool

datatype chain = BitcoinMainnet | BitcoinRegtest | BitcoinTestnet4 | LitecoinMainnet | LitecoinTestnet

definition LITECOIN_MAINNET :: chain_params where
  "LITECOIN_MAINNET = \<lparr>
     cp_magic = [0xfb, 0xc0, 0xb6, 0xdb], cp_port = 9333,
     cp_dns_seeds = [''seed-a.litecoin.loshan.co.uk'', ''dnsseed.thrasher.io'', ''dnsseed.litecointools.com'', ''dnsseed.ltcpool.org'', ''dnsseed.koin-project.com''],
     cp_fixed_seeds = [],
     cp_pow = Scrypt, cp_pow_limit_bits = 0x1e0fffff, cp_retarget_interval = 2016, cp_retarget_lookback = 2016,
     cp_target_timespan = 302400, cp_target_spacing = 150, cp_allow_min_difficulty = False, cp_retargets = True\<rparr>"

definition LITECOIN_TESTNET :: chain_params where
  "LITECOIN_TESTNET = \<lparr>
     cp_magic = [0xfd, 0xd2, 0xc8, 0xf1], cp_port = 19335,
     cp_dns_seeds = [''dnsseed-testnet.thrasher.io''],
     cp_fixed_seeds = [''137.66.3.26:19335'', ''142.132.147.162:19335'', ''167.114.119.46:19335'', ''77.90.63.126:19335'', ''72.61.172.129:19335'', ''85.122.129.66:19335'', ''34.201.36.81:19335'', ''2.29.40.191:19335'', ''167.172.77.184:19335'', ''15.235.86.173:19335'', ''81.17.120.243:19335'', ''194.108.49.87:19335'', ''5.253.84.166:19335'', ''44.200.32.195:19335'', ''195.133.68.203:19335'', ''193.168.140.155:19335'', ''139.162.112.41:19335'', ''93.125.75.112:19335''],
     cp_pow = Scrypt, cp_pow_limit_bits = 0x1e0fffff, cp_retarget_interval = 2016, cp_retarget_lookback = 2016,
     cp_target_timespan = 302400, cp_target_spacing = 150, cp_allow_min_difficulty = True, cp_retargets = True\<rparr>"

definition BITCOIN_MAINNET :: chain_params where
  "BITCOIN_MAINNET = \<lparr>
     cp_magic = [0xf9, 0xbe, 0xb4, 0xd9], cp_port = 8333,
     cp_dns_seeds = [],
     cp_fixed_seeds = [],
     cp_pow = Sha256d, cp_pow_limit_bits = 0x1d00ffff, cp_retarget_interval = 2016, cp_retarget_lookback = 2015,
     cp_target_timespan = 1209600, cp_target_spacing = 600, cp_allow_min_difficulty = False, cp_retargets = True\<rparr>"

definition BITCOIN_REGTEST :: chain_params where
  "BITCOIN_REGTEST = \<lparr>
     cp_magic = [0xfa, 0xbf, 0xb5, 0xda], cp_port = 18444,
     cp_dns_seeds = [],
     cp_fixed_seeds = [],
     cp_pow = Sha256d, cp_pow_limit_bits = 0x207fffff, cp_retarget_interval = 2016, cp_retarget_lookback = 2015,
     cp_target_timespan = 1209600, cp_target_spacing = 600, cp_allow_min_difficulty = True, cp_retargets = False\<rparr>"

definition BITCOIN_TESTNET4 :: chain_params where
  "BITCOIN_TESTNET4 = \<lparr>
     cp_magic = [0x1c, 0x16, 0x3f, 0x28], cp_port = 48333,
     cp_dns_seeds = [''seed.testnet4.bitcoin.sprovoost.nl'', ''seed.testnet4.wiz.biz''],
     cp_fixed_seeds = [],
     cp_pow = Sha256d, cp_pow_limit_bits = 0x1d00ffff, cp_retarget_interval = 2016, cp_retarget_lookback = 2015,
     cp_target_timespan = 1209600, cp_target_spacing = 600, cp_allow_min_difficulty = True, cp_retargets = True\<rparr>"

definition SCRYPT_LOG_N :: u8 where "SCRYPT_LOG_N = 10"
definition SCRYPT_R :: u32 where "SCRYPT_R = 1"
definition SCRYPT_P :: u32 where "SCRYPT_P = 1"
definition POW_HASH_BYTES :: nat where "POW_HASH_BYTES = 32"

fun Chain_label :: "chain \<Rightarrow> string" where
  "Chain_label LitecoinMainnet = ''Litecoin mainnet''"
| "Chain_label LitecoinTestnet = ''Litecoin testnet''"
| "Chain_label BitcoinMainnet = ''Bitcoin mainnet''"
| "Chain_label BitcoinRegtest = ''Bitcoin regtest''"
| "Chain_label BitcoinTestnet4 = ''Bitcoin testnet4''"

fun address_hrp :: "chain \<Rightarrow> string" where
  "address_hrp BitcoinMainnet = ''bc''"
| "address_hrp BitcoinRegtest = ''bcrt''"
| "address_hrp BitcoinTestnet4 = ''tb''"
| "address_hrp LitecoinMainnet = ''ltc''"
| "address_hrp LitecoinTestnet = ''tltc''"

fun Chain_params :: "chain \<Rightarrow> chain_params" where
  "Chain_params BitcoinMainnet = BITCOIN_MAINNET"
| "Chain_params LitecoinMainnet = LITECOIN_MAINNET"
| "Chain_params LitecoinTestnet = LITECOIN_TESTNET"
| "Chain_params BitcoinRegtest = BITCOIN_REGTEST"
| "Chain_params BitcoinTestnet4 = BITCOIN_TESTNET4"

lemmas chain_constants =
  LITECOIN_MAINNET_def LITECOIN_TESTNET_def BITCOIN_MAINNET_def BITCOIN_REGTEST_def BITCOIN_TESTNET4_def

text \<open>What the difficulty rules rely on, for all five chains.\<close>

lemma chain_params_sane:
  "0 < cp_retarget_interval (Chain_params c)" "0 < cp_retarget_lookback (Chain_params c)"
  "unat (cp_retarget_lookback (Chain_params c)) \<le> 2016" "unat (cp_retarget_interval (Chain_params c)) = 2016"
  "4 \<le> unat (cp_target_timespan (Chain_params c))" "unat (cp_target_timespan (Chain_params c)) \<le> 1209600"
  "unat (cp_target_spacing (Chain_params c)) \<le> 600"
  by (cases c; simp add: chain_constants)+

end
