(* ===== verification/Chain_Decode.thy ===== *)
theory Chain_Decode
  imports Chain_Params
begin

section \<open>Decoding chain data (\<^verbatim>\<open>urma-chain/src/decode.rs\<close>, \<^verbatim>\<open>validation.rs\<close>)\<close>

text \<open>
  Raw blocks and transactions of the Bitcoin and Litecoin chains are decoded by the \<open>bitcoin\<close> and
  \<open>litecoin\<close> crates; the record \<open>chain_lib\<close> stands for what the code calls of them. A partial decoder
  returns the value and the bytes that remain. The code adds size limits, canonicity checks, the
  placement rule of the HogEx transaction and the split of a block into its original transactions.
\<close>

record ('hdr, 'tx, 'lhdr, 'ltx, 'mweb) chain_lib =
  b_deserialize_block :: "bytes \<Rightarrow> ('hdr \<times> 'tx list) option"
  b_partial_varint :: "bytes \<Rightarrow> nat option"
  b_partial_tx :: "bytes \<Rightarrow> nat option"
  b_deserialize_tx :: "bytes \<Rightarrow> 'tx option"
  b_deserialize_header :: "bytes \<Rightarrow> 'hdr option"
  b_block_hash :: "'hdr \<Rightarrow> bytes"
  b_merkle_root :: "'hdr \<Rightarrow> bytes"
  b_check_merkle_root :: "'hdr \<Rightarrow> 'tx list \<Rightarrow> bool"
  b_witness_root :: "'tx list \<Rightarrow> bytes option"
  b_witness_commitment :: "bytes \<Rightarrow> bytes \<Rightarrow> bytes"
  b_txid :: "'tx \<Rightarrow> bytes"
  b_wtxid :: "'tx \<Rightarrow> bytes"
  b_is_coinbase :: "'tx \<Rightarrow> bool"
  b_witnesses :: "'tx \<Rightarrow> bytes list list"
  b_scripts :: "'tx \<Rightarrow> bytes list"
  b_sha256d :: "bytes \<Rightarrow> bytes"
  l_header :: "bytes \<Rightarrow> ('lhdr \<times> bytes) option"
  l_serialize_header :: "'lhdr \<Rightarrow> bytes"
  l_txs :: "bytes \<Rightarrow> ('ltx list \<times> bytes) option"
  l_serialize_txs :: "'ltx list \<Rightarrow> bytes"
  l_tx :: "bytes \<Rightarrow> ('ltx \<times> bytes) option"
  l_serialize_tx :: "'ltx \<Rightarrow> bytes"
  l_varint :: "bytes \<Rightarrow> (nat \<times> bytes) option"
  l_serialize_varint :: "nat \<Rightarrow> bytes"
  l_byte :: "bytes \<Rightarrow> (u8 \<times> bytes) option"
  l_serialize_byte :: "u8 \<Rightarrow> bytes"
  l_mweb :: "bytes \<Rightarrow> ('mweb \<times> bytes) option"
  l_serialize_mweb :: "'mweb \<Rightarrow> bytes"
  l_mw_tx_count :: "'ltx \<Rightarrow> nat"
  l_input_count :: "'ltx \<Rightarrow> nat"
  l_is_hog_ex :: "'ltx \<Rightarrow> bool"
  l_clear_hog_ex :: "'ltx \<Rightarrow> 'ltx"

datatype block_validation_error = HashDiffers | MerkleRootDiffers | WitnessCommitmentDiffers

datatype decode_error =
    DecodeLimit | BitcoinDecode | LitecoinDecode | Integrity block_validation_error | NonCanonical
  | UnsupportedMwebTransaction | InvalidHogEx | DecodePanic string

datatype encoding = Core | Esplora

record ('hdr, 'tx) decoded_block =
  db_header :: 'hdr
  db_txdata :: "'tx list"
  db_raw_transactions :: "bytes list"

subsection \<open>Integrity of a block\<close>

definition COMMITMENT_MAGIC :: bytes where
  "COMMITMENT_MAGIC = [0x6a, 0x24, 0xaa, 0x21, 0xa9, 0xed]"

text \<open>The last output that carries a witness commitment.\<close>

definition commitment_script :: "bytes list \<Rightarrow> bytes option" where
  "commitment_script scripts =
     find (\<lambda>script. 38 \<le> length script \<and> take 6 script = COMMITMENT_MAGIC) (rev scripts)"

definition check_witness_commitment :: "('hdr, 'tx, 'lhdr, 'ltx, 'mweb) chain_lib \<Rightarrow> 'tx list \<Rightarrow> bool" where
  "check_witness_commitment lib txdata =
     (case txdata of
        [] \<Rightarrow> False
      | coinbase # _ \<Rightarrow>
          (case commitment_script (b_scripts lib coinbase) of
             Some script \<Rightarrow>
               b_is_coinbase lib coinbase \<and>
               (case b_witnesses lib coinbase of
                  [] \<Rightarrow> False
                | witness # _ \<Rightarrow>
                    (case witness of
                       [reserved] \<Rightarrow>
                         length reserved = 32 \<and>
                         (case b_witness_root lib txdata of
                            None \<Rightarrow> False
                          | Some root \<Rightarrow> slice 6 38 script = b_witness_commitment lib root reserved)
                     | _ \<Rightarrow> False))
           | None \<Rightarrow> \<forall>tx \<in> set txdata. \<forall>witness \<in> set (b_witnesses lib tx). witness = []))"

definition validate_block_integrity ::
  "('hdr, 'tx, 'lhdr, 'ltx, 'mweb) chain_lib \<Rightarrow> 'hdr \<Rightarrow> 'tx list \<Rightarrow> bytes \<Rightarrow> block_validation_error + unit" where
  "validate_block_integrity lib header txdata expected_hash =
     (if b_block_hash lib header \<noteq> expected_hash then Inl HashDiffers
      else if \<not> b_check_merkle_root lib header txdata then Inl MerkleRootDiffers
      else if \<not> check_witness_commitment lib txdata then Inl WitnessCommitmentDiffers
      else Inr ())"

subsection \<open>Decoding\<close>

definition bounded :: "bytes \<Rightarrow> decode_error + unit" where
  "bounded raw = ensure (length raw \<le> 8000000) DecodeLimit (Inr ())"

definition canonical ::
  "(bytes \<Rightarrow> ('a \<times> bytes) option) \<Rightarrow> ('a \<Rightarrow> bytes) \<Rightarrow> bytes \<Rightarrow> decode_error + 'a \<times> bytes" where
  "canonical decode serialize before =
     (case decode before of
        None \<Rightarrow> Inl LitecoinDecode
      | Some (v, remaining) \<Rightarrow>
          if serialize v \<noteq> take (length before - length remaining) before then Inl NonCanonical
          else Inr (v, remaining))"

definition finished :: "bytes \<Rightarrow> decode_error + unit" where
  "finished remaining = ensure (remaining = []) NonCanonical (Inr ())"

definition transparent :: "('hdr, 'tx, 'lhdr, 'ltx, 'mweb) chain_lib \<Rightarrow> 'ltx \<Rightarrow> decode_error + 'tx" where
  "transparent lib tx =
     (if l_mw_tx_count lib tx \<noteq> 0 \<or> l_input_count lib tx = 0 then Inl UnsupportedMwebTransaction
      else ok_or BitcoinDecode (b_deserialize_tx lib (l_serialize_tx lib (l_clear_hog_ex lib tx))))"

definition is_litecoin :: "chain \<Rightarrow> bool" where
  "is_litecoin c \<longleftrightarrow> c = LitecoinMainnet \<or> c = LitecoinTestnet"

definition decode_transaction ::
  "('hdr, 'tx, 'lhdr, 'ltx, 'mweb) chain_lib \<Rightarrow> bytes \<Rightarrow> chain \<Rightarrow> decode_error + 'tx" where
  "decode_transaction lib raw c =
     rbind (bounded raw) (\<lambda>_.
     if \<not> is_litecoin c then ok_or BitcoinDecode (b_deserialize_tx lib raw)
     else
       rbind (canonical (l_tx lib) (l_serialize_tx lib) raw) (\<lambda>(tx, remaining).
       rbind (finished remaining) (\<lambda>_. transparent lib tx)))"

text \<open>Splitting off the consumed prefix; slicing past the end panics.\<close>

definition split_span :: "nat \<Rightarrow> bytes \<Rightarrow> decode_error + bytes \<times> bytes" where
  "split_span n remaining =
     (if length remaining < n then Inl (DecodePanic ''range end index out of range'')
      else Inr (take n remaining, drop n remaining))"

fun raw_spans :: "(bytes \<Rightarrow> nat option) \<Rightarrow> 'tx list \<Rightarrow> bytes \<Rightarrow> decode_error + bytes list" where
  "raw_spans partial [] remaining = Inr []"
| "raw_spans partial (_ # txs) remaining =
     rbind (ok_or BitcoinDecode (partial remaining)) (\<lambda>consumed.
     rbind (split_span consumed remaining) (\<lambda>(span, rest).
     rbind (raw_spans partial txs rest) (\<lambda>spans. Inr (span # spans))))"

definition bitcoin_decoded_block ::
  "('hdr, 'tx, 'lhdr, 'ltx, 'mweb) chain_lib \<Rightarrow> bytes \<Rightarrow> decode_error + ('hdr, 'tx) decoded_block" where
  "bitcoin_decoded_block lib raw =
     rbind (ok_or BitcoinDecode (b_deserialize_block lib raw)) (\<lambda>(header, txdata).
     rbind (split_span 80 raw) (\<lambda>(_, body).
     rbind (ok_or BitcoinDecode (b_partial_varint lib body)) (\<lambda>prefix_bytes.
     rbind (split_span prefix_bytes body) (\<lambda>(_, remaining).
     rbind (raw_spans (b_partial_tx lib) txdata remaining) (\<lambda>spans.
     Inr \<lparr>db_header = header, db_txdata = txdata, db_raw_transactions = spans\<rparr>)))))"

text \<open>The loop over the transactions of a Litecoin block, with its index and the trailing bytes.\<close>

definition hog_ex_suffix ::
  "('hdr, 'tx, 'lhdr, 'ltx, 'mweb) chain_lib \<Rightarrow> encoding \<Rightarrow> bytes \<Rightarrow> decode_error + bytes" where
  "hog_ex_suffix lib encoding remaining =
     (if remaining \<noteq> [] \<or> encoding = Core then
        rbind (canonical (l_byte lib) (l_serialize_byte lib) remaining) (\<lambda>(flag, rest).
        if flag = 0 then Inr rest
        else if flag = 1 then rmap snd (canonical (l_mweb lib) (l_serialize_mweb lib) rest)
        else Inl NonCanonical)
      else Inr remaining)"

fun litecoin_loop ::
  "('hdr, 'tx, 'lhdr, 'ltx, 'mweb) chain_lib \<Rightarrow> encoding \<Rightarrow> nat \<Rightarrow> nat \<Rightarrow> 'ltx list \<Rightarrow> bytes \<Rightarrow> bytes \<Rightarrow>
   decode_error + ('tx list \<times> bytes list \<times> bytes)" where
  "litecoin_loop lib encoding count index [] tx_bytes remaining = Inr ([], [], remaining)"
| "litecoin_loop lib encoding count index (tx # txs) tx_bytes remaining =
     rbind (split_span (length (l_serialize_tx lib tx)) tx_bytes) (\<lambda>(span, tx_rest).
     rbind
       (if l_is_hog_ex lib tx then
          (if index = 0 \<or> index + 1 \<noteq> count then Inl InvalidHogEx
           else hog_ex_suffix lib encoding remaining)
        else Inr remaining) (\<lambda>remaining'.
     rbind (transparent lib tx) (\<lambda>btx.
     rbind (litecoin_loop lib encoding count (index + 1) txs tx_rest remaining') (\<lambda>(btxs, spans, rest).
     Inr (btx # btxs, span # spans, rest)))))"

definition litecoin_block ::
  "('hdr, 'tx, 'lhdr, 'ltx, 'mweb) chain_lib \<Rightarrow> bytes \<Rightarrow> encoding \<Rightarrow> decode_error + ('hdr, 'tx) decoded_block" where
  "litecoin_block lib raw encoding =
     rbind (canonical (l_header lib) (l_serialize_header lib) raw) (\<lambda>(header, transactions_start).
     rbind (canonical (l_txs lib) (l_serialize_txs lib) transactions_start) (\<lambda>(transactions, remaining).
     rbind (canonical (l_varint lib) (l_serialize_varint lib)
        (take (length transactions_start - length remaining) transactions_start)) (\<lambda>(_, tx_bytes).
     rbind (litecoin_loop lib encoding (length transactions) 0 transactions tx_bytes remaining)
       (\<lambda>(txdata, spans, rest).
     rbind (finished rest) (\<lambda>_.
     rbind (ok_or BitcoinDecode (b_deserialize_header lib (l_serialize_header lib header))) (\<lambda>bheader.
     Inr \<lparr>db_header = bheader, db_txdata = txdata, db_raw_transactions = spans\<rparr>))))))"

definition decode_block ::
  "('hdr, 'tx, 'lhdr, 'ltx, 'mweb) chain_lib \<Rightarrow> bytes \<Rightarrow> chain \<Rightarrow> bytes \<Rightarrow> encoding \<Rightarrow>
   decode_error + ('hdr, 'tx) decoded_block" where
  "decode_block lib raw c expected_hash encoding =
     rbind (bounded raw) (\<lambda>_.
     rbind (if is_litecoin c then litecoin_block lib raw encoding else bitcoin_decoded_block lib raw) (\<lambda>block.
     rbind (map_err Integrity (validate_block_integrity lib (db_header block) (db_txdata block) expected_hash)) (\<lambda>_.
     Inr block)))"

subsection \<open>The raw transactions of a decoded block\<close>

lemma split_span_Inr [simp]:
  "split_span n xs = Inr (a, b) \<longleftrightarrow> n \<le> length xs \<and> a = take n xs \<and> b = drop n xs"
  by (auto simp: split_span_def)

lemma raw_spans_cover:
  "raw_spans partial txs remaining = Inr spans \<Longrightarrow>
   length spans = length txs \<and> (\<exists>rest. remaining = concat spans @ rest)"
proof (induction txs arbitrary: remaining spans)
  case (Cons tx txs)
  then obtain n spans' where n: "n \<le> length remaining" "raw_spans partial txs (drop n remaining) = Inr spans'"
    "spans = take n remaining # spans'" by auto
  from Cons.IH [OF n(2)] obtain rest where "length spans' = length txs" "drop n remaining = concat spans' @ rest" by blast
  then show ?case using n(3) append_take_drop_id [of n remaining] by (intro conjI exI [of _ rest]) simp_all
qed simp

lemma litecoin_loop_cover:
  "litecoin_loop lib enc count index txs tx_bytes remaining = Inr (btxs, spans, rest) \<Longrightarrow>
   length btxs = length txs \<and> length spans = length txs \<and> (\<exists>tail. tx_bytes = concat spans @ tail)"
proof (induction txs arbitrary: index tx_bytes remaining btxs spans)
  case (Cons tx txs)
  let ?n = "length (l_serialize_tx lib tx)"
  obtain remaining' btx btxs' spans' where step: "?n \<le> length tx_bytes"
    "litecoin_loop lib enc count (index + 1) txs (drop ?n tx_bytes) remaining' = Inr (btxs', spans', rest)"
    "btxs = btx # btxs'" "spans = take ?n tx_bytes # spans'"
    using Cons.prems by auto
  from Cons.IH [OF step(2)] obtain tail where "length btxs' = length txs" "length spans' = length txs"
    "drop ?n tx_bytes = concat spans' @ tail" by blast
  then show ?case using step(3,4) append_take_drop_id [of ?n tx_bytes] by (intro conjI exI [of _ tail]) simp_all
qed simp

text \<open>The readers of the \<open>litecoin\<close> crate consume a prefix of their input.\<close>

definition consumes_prefix :: "(bytes \<Rightarrow> ('a \<times> bytes) option) \<Rightarrow> bool" where
  "consumes_prefix decode \<longleftrightarrow> (\<forall>bs v rest. decode bs = Some (v, rest) \<longrightarrow> (\<exists>used. bs = used @ rest))"

lemma canonical_prefix:
  "canonical decode serialize bs = Inr (v, rest) \<Longrightarrow> consumes_prefix decode \<Longrightarrow> bs = serialize v @ rest"
  by (auto simp: canonical_def consumes_prefix_def split: option.splits if_splits prod.splits) fastforce

lemma litecoin_block_cover:
  assumes "litecoin_block lib raw enc = Inr block" "consumes_prefix (l_header lib)" "consumes_prefix (l_txs lib)"
    "consumes_prefix (l_varint lib)"
  shows "length (db_raw_transactions block) = length (db_txdata block) \<and>
    (\<exists>before after. raw = before @ concat (db_raw_transactions block) @ after)"
proof -
  obtain header start txs remaining k tx_bytes txdata spans rest where
    h: "canonical (l_header lib) (l_serialize_header lib) raw = Inr (header, start)"
    and t: "canonical (l_txs lib) (l_serialize_txs lib) start = Inr (txs, remaining)"
    and v: "canonical (l_varint lib) (l_serialize_varint lib) (take (length start - length remaining) start) = Inr (k, tx_bytes)"
    and loop: "litecoin_loop lib enc (length txs) 0 txs tx_bytes remaining = Inr (txdata, spans, rest)"
    and block: "db_txdata block = txdata" "db_raw_transactions block = spans"
    using assms(1) by (auto simp: litecoin_block_def)
  from litecoin_loop_cover [OF loop] obtain tail where n: "length txdata = length txs" "length spans = length txs"
    "tx_bytes = concat spans @ tail" by blast
  have "start = l_serialize_txs lib txs @ remaining" using t assms(3) by (rule canonical_prefix)
  moreover have "take (length start - length remaining) start = l_serialize_varint lib k @ tx_bytes"
    using v assms(4) by (rule canonical_prefix)
  ultimately have "start = l_serialize_varint lib k @ concat spans @ tail @ remaining" by (simp add: n(3))
  moreover have "raw = l_serialize_header lib header @ start" using h assms(2) by (rule canonical_prefix)
  ultimately have "raw = (l_serialize_header lib header @ l_serialize_varint lib k) @ concat spans @ (tail @ remaining)" by simp
  then show ?thesis using n(1,2) block by (metis)
qed

lemma bitcoin_block_cover:
  assumes "bitcoin_decoded_block lib raw = Inr block"
  shows "length (db_raw_transactions block) = length (db_txdata block) \<and>
    (\<exists>before after. raw = before @ concat (db_raw_transactions block) @ after)"
proof -
  obtain txdata k spans where k: "80 \<le> length raw" "k \<le> length (drop 80 raw)"
    "raw_spans (b_partial_tx lib) txdata (drop k (drop 80 raw)) = Inr spans"
    "db_txdata block = txdata" "db_raw_transactions block = spans"
    using assms by (auto simp: bitcoin_decoded_block_def)
  from raw_spans_cover [OF k(3)] obtain rest where r: "length spans = length txdata" "drop k (drop 80 raw) = concat spans @ rest"
    by blast
  have "raw = (take 80 raw @ take k (drop 80 raw)) @ drop k (drop 80 raw)" by (metis append_assoc append_take_drop_id)
  then show ?thesis using r k(4,5) by (metis)
qed

text \<open>
  A block that is decoded has the expected hash, the Merkle root and the witness commitment of its
  transactions, is within the byte limit, and is reported with one original encoding per transaction;
  these encodings, in order and without gaps, are a span of the raw block.
\<close>
theorem decoded_block_raw_transactions:
  assumes "decode_block lib raw c expected_hash encoding = Inr block"
    "consumes_prefix (l_header lib)" "consumes_prefix (l_txs lib)" "consumes_prefix (l_varint lib)"
  shows "length raw \<le> 8000000 \<and> b_block_hash lib (db_header block) = expected_hash \<and>
    b_check_merkle_root lib (db_header block) (db_txdata block) \<and> check_witness_commitment lib (db_txdata block) \<and>
    length (db_raw_transactions block) = length (db_txdata block) \<and>
    (\<exists>before after. raw = before @ concat (db_raw_transactions block) @ after)"
proof -
  have "length raw \<le> 8000000" "validate_block_integrity lib (db_header block) (db_txdata block) expected_hash = Inr ()"
    and dec: "(if is_litecoin c then litecoin_block lib raw encoding else bitcoin_decoded_block lib raw) = Inr block"
    using assms(1) by (auto simp: decode_block_def bounded_def)
  then show ?thesis
    using litecoin_block_cover [OF _ assms(2-4)] bitcoin_block_cover [of lib raw block]
    by (auto simp: validate_block_integrity_def split: if_splits)
qed

definition ex_chain_lib :: "(unit, bytes, unit, unit, unit) chain_lib" where
  "ex_chain_lib = \<lparr>b_deserialize_block = (\<lambda>raw. Some ((), [drop 81 raw])), b_partial_varint = (\<lambda>_. Some 1),
     b_partial_tx = (\<lambda>bs. Some (length bs)), b_deserialize_tx = Some, b_deserialize_header = (\<lambda>_. Some ()),
     b_block_hash = (\<lambda>_. [1]), b_merkle_root = (\<lambda>_. []), b_check_merkle_root = (\<lambda>_ _. True),
     b_witness_root = (\<lambda>_. None), b_witness_commitment = (\<lambda>_ _. []), b_txid = (\<lambda>t. t), b_wtxid = (\<lambda>t. t),
     b_is_coinbase = (\<lambda>_. True), b_witnesses = (\<lambda>_. []), b_scripts = (\<lambda>_. []), b_sha256d = (\<lambda>b. b),
     l_header = (\<lambda>_. None), l_serialize_header = (\<lambda>_. []), l_txs = (\<lambda>_. None), l_serialize_txs = (\<lambda>_. []),
     l_tx = (\<lambda>_. None), l_serialize_tx = (\<lambda>_. []), l_varint = (\<lambda>_. None), l_serialize_varint = (\<lambda>_. []),
     l_byte = (\<lambda>_. None), l_serialize_byte = (\<lambda>_. []), l_mweb = (\<lambda>_. None), l_serialize_mweb = (\<lambda>_. []),
     l_mw_tx_count = (\<lambda>_. 0), l_input_count = (\<lambda>_. 0), l_is_hog_ex = (\<lambda>_. False), l_clear_hog_ex = (\<lambda>t. t)\<rparr>"

theorem decoded_block_raw_transactions_witness:
  "\<exists>block. decode_block ex_chain_lib (replicate 80 0 @ [1, 7, 8]) BitcoinRegtest [1] Core = Inr block \<and>
     length (db_raw_transactions block) = length (db_txdata block) \<and>
     (\<exists>before after. replicate 80 0 @ [1, 7, 8] = before @ concat (db_raw_transactions block) @ after)"
proof -
  obtain block where ok: "decode_block ex_chain_lib (replicate 80 0 @ [1, 7, 8]) BitcoinRegtest [1] Core = Inr block"
    by (simp add: decode_block_def bounded_def is_litecoin_def bitcoin_decoded_block_def split_span_def
        validate_block_integrity_def check_witness_commitment_def commitment_script_def ex_chain_lib_def)
  have "consumes_prefix (l_header ex_chain_lib)" "consumes_prefix (l_txs ex_chain_lib)" "consumes_prefix (l_varint ex_chain_lib)"
    by (simp_all add: consumes_prefix_def ex_chain_lib_def)
  from decoded_block_raw_transactions [OF ok this] show ?thesis using ok by blast
qed

end
