(* ===== verification/Names_Scan.thy ===== *)
theory Names_Scan
  imports Index_File Envelope Registry Chain_Decode
begin

section \<open>Scanning the chain for names (\<^verbatim>\<open>urma-names/src/index.rs\<close>, \<^verbatim>\<open>projection.rs\<close>, \<^verbatim>\<open>scan.rs\<close>)\<close>

text \<open>
  The names index keeps the registry with the checkpoints of the connected blocks and a window of
  recent commit candidates, and is persisted as one file. \<open>sync\<close> loads it, rolls it back to the
  current chain of the source and scans blocks forward, one persist after each block.

  The source (the trait \<open>Source\<close>) answers from the state of the world. \<open>scan_lib\<close> holds what the code
  calls of the \<open>bitcoin\<close> and \<open>serde_json\<close> crates. Texts are byte strings.
\<close>

record checkpoint =
  cp_height :: u64
  cp_hash :: bytes

record window_block_t =
  wb_height :: u64
  wb_commits :: "(bytes \<times> u32) list"

record names_index =
  ni_format :: bytes
  ni_network :: bytes
  ni_chain_genesis :: bytes
  ni_genesis_hash :: bytes
  ni_blocks :: "checkpoint list"
  ni_window :: "window_block_t list"
  ni_registry :: registry

datatype names_error =
    NamesProtocol error
  | NamesBlock block_validation_error
  | NamesIo io_error
  | NamesJson
  | NamesInteger
  | NamesHash
  | NamesInvalid string
  | NamesMissing string

datatype 'e scan_error = Source 'e | Names names_error

record 'hdr scan_lib =
  sl_chain :: "('hdr, transaction, unit, unit, unit) chain_lib"
  sl_envelope :: "unit envelope_lib"
  sl_prev :: "'hdr \<Rightarrow> bytes" \<comment> \<open>\<open>header.prev_blockhash\<close>\<close>
  sl_hash_text :: "bytes \<Rightarrow> bytes" \<comment> \<open>\<open>to_string\<close> of a block hash or a transaction id\<close>
  sl_parse_txid :: "bytes \<Rightarrow> bytes option"
  sl_to_json :: "names_index \<Rightarrow> bytes option"
  sl_from_json :: "bytes \<Rightarrow> names_index option"

type_synonym 'hdr block = "'hdr \<times> transaction list"

record ('s, 'e, 'hdr) source =
  src_genesis :: "('s, 'e, bytes) act"
  src_tip_height :: "('s, 'e, u64) act"
  src_block_hash :: "u64 \<Rightarrow> ('s, 'e, bytes) act"
  src_block :: "u64 \<Rightarrow> ('s, 'e, 'hdr block) act"
  src_transaction :: "bytes \<Rightarrow> ('s, 'e, transaction) act"

type_synonym ('s, 'e, 'a) scan = "('s world, 'e scan_error, 'a) act"

text \<open>\<open>source.f(..).map_err(ScanError::Source)?\<close>, \<open>ensure_names!\<close> and the other error conversions.\<close>

definition call :: "('s, 'e, 'a) act \<Rightarrow> ('s, 'e, 'a) scan" where
  "call f = (\<lambda>w. case f (w_state w) of (r, s) \<Rightarrow> (map_err Source r, w\<lparr>w_state := s\<rparr>))"

definition ensure_names :: "bool \<Rightarrow> string \<Rightarrow> ('s, 'e, unit) scan" where
  "ensure_names c message = icheck c (Names (NamesInvalid message))"

definition names :: "names_error + 'a \<Rightarrow> ('s, 'e, 'a) scan" where
  "names r = ilift (map_err Names r)"

definition protocol :: "error + 'a \<Rightarrow> names_error + 'a" where
  "protocol r = map_err NamesProtocol r"

definition printed :: "bytes \<Rightarrow> string" where
  "printed b = map (\<lambda>c. char_of (unat c)) b"

subsection \<open>The index\<close>

definition NAMES_FORMAT :: bytes where "NAMES_FORMAT = ascii ''URMA-NAMES-INDEX-2''"
definition NAMES_MAX_BYTES :: nat where "NAMES_MAX_BYTES = 256 * 1024 * 1024"
definition REVERSIBLE :: nat where "REVERSIBLE = 1000"

definition is_ascii_hexdigit :: "u8 \<Rightarrow> bool" where
  "is_ascii_hexdigit b \<longleftrightarrow> is_ascii_digit b \<or> (65 \<le> b \<and> b \<le> 70) \<or> (97 \<le> b \<and> b \<le> 102)"

definition is_hex64 :: "bytes \<Rightarrow> bool" where
  "is_hex64 t \<longleftrightarrow> length t = 64 \<and> list_all is_ascii_hexdigit t"

definition NamesIndex_new :: "bytes \<Rightarrow> bytes \<Rightarrow> bytes \<Rightarrow> registry \<Rightarrow> names_index" where
  "NamesIndex_new network chain_genesis genesis_hash r =
     \<lparr>ni_format = NAMES_FORMAT, ni_network = network, ni_chain_genesis = chain_genesis,
      ni_genesis_hash = genesis_hash, ni_blocks = [], ni_window = [], ni_registry = r\<rparr>"

definition check_index :: "names_index \<Rightarrow> names_error + names_index" where
  "check_index i =
     ensure (ni_format i = NAMES_FORMAT) (NamesInvalid ''unsupported names index format'')
    (ensure (ni_network i \<noteq> []) (NamesInvalid ''names index without a network'')
    (ensure (is_hex64 (ni_chain_genesis i) \<and> is_hex64 (ni_genesis_hash i))
       (NamesInvalid ''names index anchors must be block hashes'')
    (ensure (windows2_all (\<lambda>a b. unat (cp_height a) + 1 = unat (cp_height b)) (ni_blocks i))
       (NamesInvalid ''noncontiguous names checkpoints'')
    (ensure (ni_blocks i = [] \<or> cp_height (last (ni_blocks i)) = r_height (ni_registry i))
       (NamesInvalid ''names checkpoint and registry height differ'')
    (ensure (ni_blocks i \<noteq> [] \<or> r_height (ni_registry i) = r_genesis_height (ni_registry i))
       (NamesInvalid ''names index without checkpoints must sit at the genesis height'')
    (ensure (\<forall>b \<in> set (ni_window i). wb_height b \<le> r_height (ni_registry i))
       (NamesInvalid ''names commit window is ahead of the registry'')
     (Inr i)))))))"

definition NamesIndex_load :: "'hdr scan_lib \<Rightarrow> 's file_system \<Rightarrow> ('s world, names_error, names_index) act" where
  "NamesIndex_load lib fs =
     ibind (imap_err NamesIo (read_bounded fs NAMES_MAX_BYTES)) (\<lambda>bs.
     ibind (ilift (ok_or NamesJson (sl_from_json lib bs))) (\<lambda>i. ilift (check_index i)))"

definition NamesIndex_persist ::
  "'hdr scan_lib \<Rightarrow> 's file_system \<Rightarrow> names_index \<Rightarrow> ('s world, names_error, unit) act" where
  "NamesIndex_persist lib fs i =
     ibind (ilift (ok_or NamesJson (sl_to_json lib i))) (\<lambda>bs.
     ibind (icheck (length bs \<le> NAMES_MAX_BYTES) (NamesInvalid ''names index byte capacity'')) (\<lambda>_.
     imap_err NamesIo (write_replace fs bs)))"

definition tip_hash :: "names_index \<Rightarrow> bytes" where
  "tip_hash i = concat (map cp_hash (take 1 (rev (ni_blocks i))))"

definition NamesIndex_trim :: "names_index \<Rightarrow> u16 \<Rightarrow> names_index" where
  "NamesIndex_trim i window_blocks =
     (let keep = max (unat window_blocks) REVERSIBLE in
      if length (ni_blocks i) < keep then i
      else
        let excess = length (ni_blocks i) - keep;
            r = prune (ni_registry i) keep;
            next_height = unat (r_height r) + 1
        in i\<lparr>ni_blocks := drop excess (ni_blocks i), ni_registry := r,
             ni_window := filter (\<lambda>b. next_height \<le> unat (wb_height b) + unat window_blocks) (ni_window i)\<rparr>)"

subsection \<open>Projection of records\<close>

definition observation_from_record ::
  "unit envelope_lib \<Rightarrow> bytes \<Rightarrow> bytes \<Rightarrow> bytes \<Rightarrow> u64 \<Rightarrow> u32 \<Rightarrow> commit \<Rightarrow> error + observation option" where
  "observation_from_record lib bs txid author height position commit =
     rbind (RecordKind_parse bs) (\<lambda>kind.
     if kind \<noteq> record_kind.ProfileRecord then Inr None
     else rbind (PublicRecord_decode bs) (\<lambda>public.
     case public of
       ProfileRecord profile payload \<Rightarrow>
         if profile \<noteq> PROFILE then Inr None
         else rbind (Payload_from_record (e_xonly lib) public) (\<lambda>p.
           Inr (Some \<lparr>o_txid = txid, o_author = author, o_record_sha256 = e_sha256 lib bs, o_payload = p,
                      o_height = height, o_position = position, o_commit = commit\<rparr>))
     | _ \<Rightarrow> Inr None))"

definition observation_from_verified ::
  "unit envelope_lib \<Rightarrow> verified_record \<Rightarrow> transaction \<Rightarrow> u64 \<Rightarrow> u32 \<Rightarrow> commit \<Rightarrow> names_error + observation option" where
  "observation_from_verified lib v reveal height position commit =
     ensure (e_txid lib reveal = vr_txid v) (NamesInvalid ''reveal TXID differs from the verified record'')
    (ensure (length (tx_input reveal) = 1) (NamesInvalid ''names reveal must have one input'')
    (ensure (ti_txid (tx_input reveal ! 0) = c_txid commit \<and> ti_vout (tx_input reveal ! 0) = c_vout commit)
       (NamesInvalid ''names reveal does not spend the supplied commit outpoint'')
     (protocol (observation_from_record lib (vr_record v) (vr_txid v) (vr_author v) height position commit))))"

subsection \<open>Commit locations\<close>

type_synonym locator = "(u64 \<times> (bytes \<rightharpoonup> u32)) list"

datatype commit_location = Known u64 u32 | Unknown

definition commits_map :: "(bytes \<times> u32) list \<Rightarrow> (bytes \<rightharpoonup> u32)" where
  "commits_map commits = foldl (\<lambda>m (txid, position). m(txid \<mapsto> position)) Map.empty commits"

definition Locator_push :: "locator \<Rightarrow> u64 \<Rightarrow> (bytes \<times> u32) list \<Rightarrow> locator" where
  "Locator_push l height commits = bt_insert height (commits_map commits) l"

definition parse_commit :: "'hdr scan_lib \<Rightarrow> bytes \<times> u32 \<Rightarrow> names_error + bytes \<times> u32" where
  "parse_commit lib commit =
     (case commit of (txid, position) \<Rightarrow> rmap (\<lambda>t. (t, position)) (ok_or NamesHash (sl_parse_txid lib txid)))"

definition Locator_from_index :: "'hdr scan_lib \<Rightarrow> names_index \<Rightarrow> names_error + locator" where
  "Locator_from_index lib i =
     rfold (\<lambda>l b. rmap (\<lambda>commits. Locator_push l (wb_height b) commits)
              (rtraverse (parse_commit lib) (wb_commits b))) [] (ni_window i)"

definition Locator_trim :: "locator \<Rightarrow> u64 \<Rightarrow> u16 \<Rightarrow> locator" where
  "Locator_trim l next_height window_blocks =
     bt_retain (\<lambda>height _. unat next_height \<le> unat height + unat window_blocks) l"

fun locate :: "locator \<Rightarrow> bytes \<Rightarrow> commit_location" where
  "locate [] txid = Unknown"
| "locate ((height, commits) # rest) txid =
     (case commits txid of Some position \<Rightarrow> Known height position | None \<Rightarrow> locate rest txid)"

subsection \<open>Blocks\<close>

definition fetch_block :: "'hdr scan_lib \<Rightarrow> ('s, 'e, 'hdr) source \<Rightarrow> u64 \<Rightarrow> ('s, 'e, 'hdr block) scan" where
  "fetch_block lib src height =
     ibind (call (src_block src height)) (\<lambda>(header, txdata).
     ibind (call (src_block_hash src height)) (\<lambda>expected.
     ibind (names (map_err NamesBlock (validate_block_integrity (sl_chain lib) header txdata expected))) (\<lambda>_.
     iret (header, txdata))))"

definition block_hash_text :: "'hdr scan_lib \<Rightarrow> 'hdr block \<Rightarrow> bytes" where
  "block_hash_text lib block = sl_hash_text lib (b_block_hash (sl_chain lib) (fst block))"

definition prev_hash_text :: "'hdr scan_lib \<Rightarrow> 'hdr block \<Rightarrow> bytes" where
  "prev_hash_text lib block = sl_hash_text lib (sl_prev lib (fst block))"

definition commit_candidates :: "'hdr scan_lib \<Rightarrow> 'hdr block \<Rightarrow> names_error + (bytes \<times> u32) list" where
  "commit_candidates lib block =
     rtraverse (\<lambda>(position, tx).
         rmap (\<lambda>p. (e_txid (sl_envelope lib) tx, p)) (map_err (\<lambda>_. NamesInteger) (try_from position)))
       (filter (\<lambda>(position, tx). \<exists>out \<in> set (tx_output tx). e_is_p2tr (sl_envelope lib) (to_script out))
         (enumerate 0 (snd block)))"

definition window_block :: "'hdr scan_lib \<Rightarrow> 'hdr block \<Rightarrow> u64 \<Rightarrow> names_error + window_block_t" where
  "window_block lib block height =
     rmap (\<lambda>commits. \<lparr>wb_height = height, wb_commits = map (\<lambda>(txid, p). (sl_hash_text lib txid, p)) commits\<rparr>)
       (commit_candidates lib block)"

definition names_payload :: "'hdr scan_lib \<Rightarrow> transaction \<Rightarrow> names_error + payload" where
  "names_payload lib tx =
     rbind (protocol (extract_reveal (sl_envelope lib) tx)) (\<lambda>parsed.
     rbind (protocol (RecordKind_parse (pe_record parsed))) (\<lambda>kind.
     ensure (kind = record_kind.ProfileRecord) (NamesInvalid ''not a profile record'')
    (rbind (protocol (PublicRecord_decode (pe_record parsed))) (\<lambda>public.
     protocol (Payload_from_record (e_xonly (sl_envelope lib)) public)))))"

text \<open>What one transaction of a block contributes: at most one observation.\<close>

definition observe_tx ::
  "'hdr scan_lib \<Rightarrow> ('s, 'e, 'hdr) source \<Rightarrow> locator \<Rightarrow> u64 \<Rightarrow> nat \<times> transaction \<Rightarrow> ('s, 'e, observation list) scan" where
  "observe_tx lib src l height entry =
     (case entry of (position, tx) \<Rightarrow>
      if length (tx_input tx) \<noteq> 1 \<or> \<not> is_candidate (ti_witness (tx_input tx ! 0)) then iret []
      else case names_payload lib tx of
        Inl cause \<Rightarrow> iret []
      | Inr _ \<Rightarrow>
          let outpoint = tx_input tx ! 0 in
          (case locate l (ti_txid outpoint) of
             Unknown \<Rightarrow> iret []
           | Known commit_height commit_position \<Rightarrow>
               ibind (call (src_transaction src (ti_txid outpoint))) (\<lambda>commit.
               case VerifiedRecord_verify (sl_envelope lib) (e_txid (sl_envelope lib) tx) tx commit of
                 Inl cause \<Rightarrow> iret []
               | Inr verified \<Rightarrow>
                   ibind (names (map_err (\<lambda>_. NamesInteger) (try_from position))) (\<lambda>p.
                   case observation_from_verified (sl_envelope lib) verified tx height p
                          \<lparr>c_txid = ti_txid outpoint, c_vout = ti_vout outpoint,
                           c_height = commit_height, c_position = commit_position\<rparr> of
                     Inr (Some obs) \<Rightarrow> iret [obs]
                   | _ \<Rightarrow> iret []))))"

fun observe_txs ::
  "'hdr scan_lib \<Rightarrow> ('s, 'e, 'hdr) source \<Rightarrow> locator \<Rightarrow> u64 \<Rightarrow> (nat \<times> transaction) list \<Rightarrow>
   ('s, 'e, observation list) scan" where
  "observe_txs lib src l height [] = iret []"
| "observe_txs lib src l height (entry # entries) =
     ibind (observe_tx lib src l height entry) (\<lambda>obs.
     ibind (observe_txs lib src l height entries) (\<lambda>rest. iret (obs @ rest)))"

definition observations ::
  "'hdr scan_lib \<Rightarrow> ('s, 'e, 'hdr) source \<Rightarrow> locator \<Rightarrow> 'hdr block \<Rightarrow> u64 \<Rightarrow> ('s, 'e, observation list) scan" where
  "observations lib src l block height = observe_txs lib src l height (enumerate 0 (snd block))"

text \<open>Connecting one block.\<close>

definition REORG :: string where "REORG = ''source reorg during scan; retry''"

definition scan_block ::
  "'hdr scan_lib \<Rightarrow> ('s, 'e, 'hdr) source \<Rightarrow> names_index \<Rightarrow> locator \<Rightarrow> u64 \<Rightarrow>
   ('s, 'e, outcome list \<times> names_index \<times> locator) scan" where
  "scan_block lib src i l height =
     ibind (fetch_block lib src height) (\<lambda>block.
     ibind (ensure_names (prev_hash_text lib block =
              (if ni_blocks i = [] then ni_genesis_hash i else cp_hash (last (ni_blocks i)))) REORG) (\<lambda>_.
     ibind (names (commit_candidates lib block)) (\<lambda>commits.
     let l1 = Locator_push l height commits in
     ibind (observations lib src l1 block height) (\<lambda>obss.
     ibind (call (src_block_hash src height)) (\<lambda>current.
     ibind (ensure_names (current = b_block_hash (sl_chain lib) (fst block)) REORG) (\<lambda>_.
     ibind (names (protocol (connect (ni_registry i) height obss))) (\<lambda>(outcomes, r).
     ibind (names (window_block lib block height)) (\<lambda>wb.
     let window_blocks = reveal_max_blocks (r_rules r);
         i1 = i\<lparr>ni_registry := r, ni_window := ni_window i @ [wb],
               ni_blocks := ni_blocks i @ [\<lparr>cp_height = height, cp_hash = block_hash_text lib block\<rparr>]\<rparr>;
         i2 = NamesIndex_trim i1 window_blocks in
     ibind (names (ok_or (NamesInvalid ''height overflow'') (checked_add height 1))) (\<lambda>next_height.
     iret (outcomes, i2, Locator_trim l1 next_height window_blocks))))))))))"

subsection \<open>Anchoring and rolling back\<close>

definition verify_genesis ::
  "'hdr scan_lib \<Rightarrow> ('s, 'e, 'hdr) source \<Rightarrow> bytes \<Rightarrow> u64 \<Rightarrow> ('s, 'e, registry \<times> bytes) scan" where
  "verify_genesis lib src genesis_txid height =
     ibind (fetch_block lib src height) (\<lambda>block.
     case find (\<lambda>tx. e_txid (sl_envelope lib) tx = genesis_txid) (snd block) of
       None \<Rightarrow> ithrow (Names (NamesMissing (''genesis '' @ printed (sl_hash_text lib genesis_txid) @
                  '' is not in block '' @ dec (unat height))))
     | Some tx \<Rightarrow>
         ibind (ensure_names (length (tx_input tx) = 1) ''genesis reveal must have one input'') (\<lambda>_.
         ibind (call (src_transaction src (ti_txid (tx_input tx ! 0)))) (\<lambda>commit.
         ibind (names (protocol (verify_reveal (sl_envelope lib) tx commit))) (\<lambda>parsed.
         ibind (names (protocol (PublicRecord_decode (pe_record parsed)))) (\<lambda>public.
         ibind (names (protocol (Payload_from_record (e_xonly (sl_envelope lib)) public))) (\<lambda>p.
         case p of
           Genesis rules \<Rightarrow>
             ibind (names (protocol (Registry_new genesis_txid height rules))) (\<lambda>r.
             iret (r, b_block_hash (sl_chain lib) (fst block)))
         | _ \<Rightarrow> ithrow (Names (NamesInvalid ''genesis record is not a names genesis'')))))))) "

definition anchor :: "'hdr scan_lib \<Rightarrow> ('s, 'e, 'hdr) source \<Rightarrow> names_index \<Rightarrow> ('s, 'e, unit) scan" where
  "anchor lib src i =
     (let height = r_genesis_height (ni_registry i);
          message = ''registry genesis block '' @ printed (ni_genesis_hash i) @
            '' is not on the current chain at height '' @ dec (unat height) @
            ''; the genesis was orphaned or the height is wrong, delete the names index'' in
      ibind (call (src_tip_height src)) (\<lambda>tip.
      if height \<le> tip
      then ibind (call (src_block_hash src height)) (\<lambda>hash.
           ensure_names (sl_hash_text lib hash = ni_genesis_hash i) message)
      else ensure_names False message))"

definition DEEP_REORG :: string where
  "DEEP_REORG = ''reorg deeper than the reversible window; delete the names index and rescan''"

text \<open>Whether the last checkpoint is still on the chain of the source.\<close>

definition on_chain :: "'hdr scan_lib \<Rightarrow> ('s, 'e, 'hdr) source \<Rightarrow> u64 \<Rightarrow> checkpoint \<Rightarrow> ('s, 'e, bool) scan" where
  "on_chain lib src tip cp =
     (if cp_height cp \<le> tip
      then ibind (call (src_block_hash src (cp_height cp))) (\<lambda>hash. iret (sl_hash_text lib hash = cp_hash cp))
      else iret False)"

text \<open>The loop removes one checkpoint a turn: it is given their number.\<close>

fun rollback_loop ::
  "'hdr scan_lib \<Rightarrow> ('s, 'e, 'hdr) source \<Rightarrow> u64 \<Rightarrow> nat \<Rightarrow> names_index \<Rightarrow> nat \<Rightarrow> ('s, 'e, names_index \<times> nat) scan" where
  "rollback_loop lib src tip 0 i removed = iret (i, removed)"
| "rollback_loop lib src tip (Suc n) i removed =
     (let cp = last (ni_blocks i) in
      ibind (on_chain lib src tip cp) (\<lambda>kept.
      if kept then iret (i, removed)
      else
        ibind (ensure_names (0 < reversible_blocks (ni_registry i)) DEEP_REORG) (\<lambda>_.
        ibind (names (protocol (disconnect (ni_registry i)))) (\<lambda>(height, r).
        ibind (ensure_names (height = cp_height cp) ''names checkpoints and registry diverged'') (\<lambda>_.
        rollback_loop lib src tip n (i\<lparr>ni_blocks := butlast (ni_blocks i), ni_registry := r\<rparr>) (Suc removed))))))"

definition rollback ::
  "'hdr scan_lib \<Rightarrow> ('s, 'e, 'hdr) source \<Rightarrow> names_index \<Rightarrow> u64 \<Rightarrow> ('s, 'e, names_index \<times> nat) scan" where
  "rollback lib src i tip =
     ibind (rollback_loop lib src tip (length (ni_blocks i)) i 0) (\<lambda>(i', removed).
     ibind (ensure_names (ni_blocks i' \<noteq> [] \<or> r_height (ni_registry i') = r_genesis_height (ni_registry i')) DEEP_REORG) (\<lambda>_.
     iret (i', removed)))"

text \<open>\<open>while at <= height\<close>: given the number of heights from \<open>at\<close> to \<open>height\<close>.\<close>

fun rebuild_loop ::
  "'hdr scan_lib \<Rightarrow> ('s, 'e, 'hdr) source \<Rightarrow> nat \<Rightarrow> u64 \<Rightarrow> window_block_t list \<Rightarrow> ('s, 'e, window_block_t list) scan" where
  "rebuild_loop lib src 0 at window = iret window"
| "rebuild_loop lib src (Suc n) at window =
     ibind (fetch_block lib src at) (\<lambda>block.
     ibind (names (window_block lib block at)) (\<lambda>wb.
     ibind (names (ok_or (NamesInvalid ''height overflow'') (checked_add at 1))) (\<lambda>at'.
     rebuild_loop lib src n at' (window @ [wb]))))"

definition window_floor :: "registry \<Rightarrow> u64" where
  "window_floor r =
     (let height = r_height r; window = ucast (reveal_max_blocks (r_rules r)) :: u64 in
      if unat (r_genesis_height r) + unat window < unat height then height - window else r_genesis_height r)"

definition rebuild_window :: "'hdr scan_lib \<Rightarrow> ('s, 'e, 'hdr) source \<Rightarrow> names_index \<Rightarrow> ('s, 'e, names_index) scan" where
  "rebuild_window lib src i =
     ibind (names (ok_or (NamesInvalid ''height overflow'') (checked_add (window_floor (ni_registry i)) 1))) (\<lambda>at.
     ibind (rebuild_loop lib src (unat (r_height (ni_registry i)) + 1 - unat at) at []) (\<lambda>window.
     iret (i\<lparr>ni_window := window\<rparr>)))"

subsection \<open>The scan\<close>

record registration =
  rg_network :: bytes
  rg_genesis :: bytes
  rg_genesis_height :: u64

record scanned_record =
  sr_height :: u64
  sr_txid :: bytes
  sr_verdict :: verdict

record scan_report =
  rp_network :: bytes
  rp_genesis :: bytes
  rp_genesis_height :: u64
  rp_genesis_hash :: bytes
  rp_scanned :: u64
  rp_rolled_back :: nat
  rp_height :: u64
  rp_tip :: u64
  rp_complete_to_tip :: bool
  rp_names :: nat
  rp_pending :: nat
  rp_records :: "scanned_record list"

definition open_index ::
  "'hdr scan_lib \<Rightarrow> ('s, 'e, 'hdr) source \<Rightarrow> 's file_system \<Rightarrow> registration \<Rightarrow> bytes \<Rightarrow> ('s, 'e, names_index) scan" where
  "open_index lib src fs rg chain_genesis = (\<lambda>w.
     if w_file w \<noteq> None then imap_err Names (NamesIndex_load lib fs) w
     else
       ibind (verify_genesis lib src (rg_genesis rg) (rg_genesis_height rg)) (\<lambda>(r, hash).
       iret (NamesIndex_new (rg_network rg) chain_genesis (sl_hash_text lib hash) r)) w)"

text \<open>\<open>while scanned < max_blocks\<close>: given the number of blocks that may still be scanned.\<close>

fun scan_loop ::
  "'hdr scan_lib \<Rightarrow> ('s, 'e, 'hdr) source \<Rightarrow> 's file_system \<Rightarrow> u64 \<Rightarrow> nat \<Rightarrow> names_index \<Rightarrow> locator \<Rightarrow>
   scanned_record list \<Rightarrow> u64 \<Rightarrow> ('s, 'e, names_index \<times> scanned_record list \<times> u64) scan" where
  "scan_loop lib src fs tip 0 i l records scanned = iret (i, records, scanned)"
| "scan_loop lib src fs tip (Suc n) i l records scanned =
     ibind (names (ok_or (NamesInvalid ''height overflow'') (checked_add (r_height (ni_registry i)) 1))) (\<lambda>height.
     if tip < height then iret (i, records, scanned)
     else
       ibind (scan_block lib src i l height) (\<lambda>(outcomes, i', l').
       ibind (imap_err Names (NamesIndex_persist lib fs i')) (\<lambda>_.
       scan_loop lib src fs tip n i' l'
         (records @ map (\<lambda>oc. \<lparr>sr_height = height, sr_txid = sl_hash_text lib (oc_txid oc),
                              sr_verdict = oc_verdict oc\<rparr>) outcomes) (scanned + 1))))"

definition sync ::
  "'hdr scan_lib \<Rightarrow> ('s, 'e, 'hdr) source \<Rightarrow> 's file_system \<Rightarrow> registration \<Rightarrow> u64 \<Rightarrow> ('s, 'e, scan_report) scan" where
  "sync lib src fs rg max_blocks =
     ibind (ensure_names (1 \<le> max_blocks \<and> max_blocks \<le> 10000) ''max blocks must be 1..10000'') (\<lambda>_.
     ibind (call (src_genesis src)) (\<lambda>genesis_block.
     let chain_genesis = sl_hash_text lib genesis_block in
     ibind (open_index lib src fs rg chain_genesis) (\<lambda>i0.
     ibind (ensure_names (ni_network i0 = rg_network rg \<and> ni_chain_genesis i0 = chain_genesis \<and>
              r_genesis (ni_registry i0) = rg_genesis rg \<and> r_genesis_height (ni_registry i0) = rg_genesis_height rg)
              ''names index belongs to another network, chain or registry'') (\<lambda>_.
     ibind (anchor lib src i0) (\<lambda>_.
     ibind (call (src_tip_height src)) (\<lambda>tip.
     ibind (rollback lib src i0 tip) (\<lambda>(i1, rolled_back).
     ibind (if 0 < rolled_back then rebuild_window lib src i1 else iret i1) (\<lambda>i2.
     ibind (imap_err Names (NamesIndex_persist lib fs i2)) (\<lambda>_.
     ibind (names (Locator_from_index lib i2)) (\<lambda>l.
     ibind (scan_loop lib src fs tip (unat max_blocks) i2 l [] 0) (\<lambda>(i3, records, scanned).
     iret \<lparr>rp_network = ni_network i3, rp_genesis = sl_hash_text lib (rg_genesis rg),
           rp_genesis_height = rg_genesis_height rg, rp_genesis_hash = ni_genesis_hash i3, rp_scanned = scanned,
           rp_rolled_back = rolled_back, rp_height = r_height (ni_registry i3), rp_tip = tip,
           rp_complete_to_tip = (r_height (ni_registry i3) = tip),
           rp_names = card (dom (r_names (ni_registry i3))), rp_pending = card (dom (r_pending (ni_registry i3))),
           rp_records = records\<rparr>)))))))))))"

end
