(* ===== verification/Registry_Steps.thy ===== *)
theory Registry_Steps
  imports Registry
begin

section \<open>The registry as a state machine\<close>

text \<open>
  An abstract specification of what one block may do to a registry: the relation \<open>reg_step Ob\<close> has
  one rule per kind of change, each with the authority it needs (an observation in \<open>Ob\<close> with the
  right author, an expired height, a quorum of approvers). The refinement lemmas show that every
  phase of the engine is a sequence of such steps, so a property of all steps is a property of
  every block the engine applies.
\<close>

definition bound_at :: "registry \<Rightarrow> name \<Rightarrow> bound \<Rightarrow> bool" where
  "bound_at r n b \<longleftrightarrow> ns_binding (state_of (r_names r) n) = Bound b"

definition quorum :: "registry \<Rightarrow> observation \<Rightarrow> approval \<Rightarrow> pending_record \<Rightarrow> bool" where
  "quorum r obs a rec \<longleftrightarrow>
     g_mode (r_rules r) = Administered \<and> o_payload obs = Approve a \<and>
     is_approver (r_rules r) (o_author obs) \<and> admit r obs (ap_registry a) = Admitted \<and>
     r_pending r (ap_record_txid a) = Some rec \<and> pr_sha256 rec = ap_record_sha256 a \<and>
     \<not> pr_completed rec \<and> o_author obs \<notin> pr_approvals rec \<and>
     unat (threshold (r_rules r)) \<le> card (insert (o_author obs) (pr_approvals rec))"

inductive reg_step :: "observation set \<Rightarrow> registry \<Rightarrow> registry \<Rightarrow> bool" for Ob where
  expiry:
    "r_undo r \<noteq> [] \<Longrightarrow> bound_at r n b \<Longrightarrow> b_expiry b \<le> r_height r \<Longrightarrow>
     reg_step Ob r (set_name r n ((state_of (r_names r) n)\<lparr>ns_binding := Unbound\<rparr>))"
| claim:
    "r_undo r \<noteq> [] \<Longrightarrow> g_mode (r_rules r) = Open \<Longrightarrow>
     ns_binding (state_of (r_names r) n) = Unbound \<Longrightarrow>
     obs \<in> Ob \<Longrightarrow> o_payload obs = Claim op \<Longrightarrow> oo_name op = n \<Longrightarrow>
     admit r obs (oo_registry op) = Admitted \<Longrightarrow> expiry_after r (o_height obs) = Some e \<Longrightarrow>
     reg_step Ob r (set_name r n ((state_of (r_names r) n)\<lparr>ns_binding := Bound
       \<lparr>b_owner = o_author obs, b_target = target_of op, b_expiry = e,
        b_claim_txid = o_txid obs, b_last_txid = o_txid obs\<rparr>\<rparr>))"
| grant:
    "r_undo r \<noteq> [] \<Longrightarrow> obs \<in> Ob \<Longrightarrow> quorum r obs a rec \<Longrightarrow> pr_kind rec = Request \<Longrightarrow> pr_name rec = n \<Longrightarrow>
     \<not> ns_suspended (state_of (r_names r) n) \<Longrightarrow> ns_binding (state_of (r_names r) n) = Unbound \<Longrightarrow>
     expiry_after r (o_height obs) = Some e \<Longrightarrow>
     reg_step Ob r (set_name r n ((state_of (r_names r) n)\<lparr>ns_binding := Bound
       \<lparr>b_owner = pr_author rec, b_target = Publication (pr_target rec), b_expiry = e,
        b_claim_txid = ap_record_txid a, b_last_txid = o_txid obs\<rparr>\<rparr>))"
| regrant:
    "r_undo r \<noteq> [] \<Longrightarrow> obs \<in> Ob \<Longrightarrow> quorum r obs a rec \<Longrightarrow> pr_kind rec = UpdateKind \<Longrightarrow> pr_name rec = n \<Longrightarrow>
     bound_at r n b \<Longrightarrow> b_owner b = pr_author rec \<Longrightarrow>
     reg_step Ob r (set_name r n ((state_of (r_names r) n)\<lparr>ns_binding := Bound
       (b\<lparr>b_target := Publication (pr_target rec), b_last_txid := o_txid obs\<rparr>)\<rparr>))"
| retarget:
    "r_undo r \<noteq> [] \<Longrightarrow> g_mode (r_rules r) = Open \<Longrightarrow> obs \<in> Ob \<Longrightarrow> o_payload obs = Update op \<Longrightarrow>
     oo_name op = n \<Longrightarrow> admit r obs (oo_registry op) = Admitted \<Longrightarrow>
     bound_at r n b \<Longrightarrow> b_owner b = o_author obs \<Longrightarrow>
     reg_step Ob r (set_name r n ((state_of (r_names r) n)\<lparr>ns_binding := Bound
       (b\<lparr>b_target := target_of op, b_last_txid := o_txid obs\<rparr>)\<rparr>))"
| renewal:
    "r_undo r \<noteq> [] \<Longrightarrow> obs \<in> Ob \<Longrightarrow> o_payload obs = Renew op \<Longrightarrow>
     oo_name op = n \<Longrightarrow> admit r obs (oo_registry op) = Admitted \<Longrightarrow>
     bound_at r n b \<Longrightarrow> b_owner b = o_author obs \<Longrightarrow>
     t = (if g_mode (r_rules r) = Open then target_of op else b_target b) \<Longrightarrow> expiry_after r (o_height obs) = Some e \<Longrightarrow>
     reg_step Ob r (set_name r n ((state_of (r_names r) n)\<lparr>ns_binding := Bound
       (b\<lparr>b_target := t, b_expiry := e, b_last_txid := o_txid obs\<rparr>)\<rparr>))"
| ballot:
    "r_undo r \<noteq> [] \<Longrightarrow> g_mode (r_rules r) = Administered \<Longrightarrow> obs \<in> Ob \<Longrightarrow>
     is_approver (r_rules r) (o_author obs) \<Longrightarrow> o_author obs \<notin> v \<Longrightarrow>
     o_payload obs = (if susp then Suspend op else Restore op) \<Longrightarrow> no_name op = n \<Longrightarrow> admit r obs (no_registry op) = Admitted \<Longrightarrow>
     s = state_of (r_names r) n \<Longrightarrow> v = (if susp then ns_suspend_votes s else ns_restore_votes s) \<Longrightarrow>
     ns_suspended s \<noteq> susp \<Longrightarrow>
     s' = (if unat (threshold (r_rules r)) \<le> card (insert (o_author obs) v)
           then s\<lparr>ns_suspended := susp, ns_suspend_votes := {}, ns_restore_votes := {}\<rparr>
           else if susp then s\<lparr>ns_suspend_votes := insert (o_author obs) v\<rparr>
           else s\<lparr>ns_restore_votes := insert (o_author obs) v\<rparr>) \<Longrightarrow>
     reg_step Ob r (set_name r n s')"
| remember:
    "r_undo r \<noteq> [] \<Longrightarrow> reg_step Ob r (remember_pending r t)"
| request:
    "r_undo r \<noteq> [] \<Longrightarrow> g_mode (r_rules r) = Administered \<Longrightarrow> obs \<in> Ob \<Longrightarrow>
     kind = Request \<and> o_payload obs = Claim op \<or>
     kind = UpdateKind \<and> o_payload obs = Update op \<and> (\<exists>b. bound_at r (oo_name op) b \<and> b_owner b = o_author obs) \<Longrightarrow>
     admit r obs (oo_registry op) = Admitted \<Longrightarrow> \<not> is_reserving op \<Longrightarrow>
     reg_step Ob r (insert_pending r obs kind op)"
| approval:
    "r_undo r \<noteq> [] \<Longrightarrow> t \<in> fst ` set (d_pending (last (r_undo r))) \<Longrightarrow> obs \<in> Ob \<Longrightarrow>
     g_mode (r_rules r) = Administered \<Longrightarrow>
     is_approver (r_rules r) (o_author obs) \<Longrightarrow> o_payload obs = Approve a \<Longrightarrow> ap_record_txid a = t \<Longrightarrow>
     admit r obs (ap_registry a) = Admitted \<Longrightarrow> r_pending r t = Some rec \<Longrightarrow> pr_sha256 rec = ap_record_sha256 a \<Longrightarrow>
     \<not> pr_completed rec \<Longrightarrow>
     reg_step Ob r (put_pending r t (rec\<lparr>pr_approvals := insert (o_author obs) (pr_approvals rec),
       pr_completed := (unat (threshold (r_rules r)) \<le> card (insert (o_author obs) (pr_approvals rec)))\<rparr>))"

inductive_cases reg_stepE: "reg_step Ob r r'"

subsection \<open>What the primitive updates leave alone\<close>

lemma upd_last_snoc [simp]: "upd_last f (xs @ [x]) = xs @ [f x]"
  by (simp add: upd_last_def)

lemma upd_last_Nil [simp]: "upd_last f xs = [] \<longleftrightarrow> xs = []"
  by (simp add: upd_last_def)

lemma last_upd_last: "xs \<noteq> [] \<Longrightarrow> last (upd_last f xs) = f (last xs)"
  by (simp add: upd_last_def)

lemma remember_name_simps [simp]:
  "r_genesis (remember_name r n) = r_genesis r" "r_genesis_height (remember_name r n) = r_genesis_height r"
  "r_rules (remember_name r n) = r_rules r" "r_height (remember_name r n) = r_height r"
  "r_names (remember_name r n) = r_names r" "r_pending (remember_name r n) = r_pending r"
  "r_expiries (remember_name r n) = r_expiries r" "r_undo (remember_name r n) = [] \<longleftrightarrow> r_undo r = []"
  by (simp_all add: remember_name_def)

lemma remember_pending_simps [simp]:
  "r_genesis (remember_pending r t) = r_genesis r" "r_genesis_height (remember_pending r t) = r_genesis_height r"
  "r_rules (remember_pending r t) = r_rules r" "r_height (remember_pending r t) = r_height r"
  "r_names (remember_pending r t) = r_names r" "r_pending (remember_pending r t) = r_pending r"
  "r_expiries (remember_pending r t) = r_expiries r" "r_undo (remember_pending r t) = [] \<longleftrightarrow> r_undo r = []"
  by (simp_all add: remember_pending_def)

lemma store_simps [simp]:
  "r_genesis (store r n s) = r_genesis r" "r_genesis_height (store r n s) = r_genesis_height r"
  "r_rules (store r n s) = r_rules r" "r_height (store r n s) = r_height r"
  "r_names (store r n s) = (r_names r)(n \<mapsto> s)" "r_pending (store r n s) = r_pending r"
  "r_undo (store r n s) = r_undo r"
  by (simp_all add: store_def)

lemma forget_simps [simp]:
  "r_genesis (forget r n) = r_genesis r" "r_genesis_height (forget r n) = r_genesis_height r"
  "r_rules (forget r n) = r_rules r" "r_height (forget r n) = r_height r"
  "r_names (forget r n) = (r_names r)(n := None)" "r_pending (forget r n) = r_pending r"
  "r_undo (forget r n) = r_undo r"
  by (simp_all add: forget_def)

lemma set_name_simps [simp]:
  "r_genesis (set_name r n s) = r_genesis r" "r_genesis_height (set_name r n s) = r_genesis_height r"
  "r_rules (set_name r n s) = r_rules r" "r_height (set_name r n s) = r_height r"
  "r_names (set_name r n s) = (r_names r)(n \<mapsto> s)" "r_pending (set_name r n s) = r_pending r"
  "r_undo (set_name r n s) = [] \<longleftrightarrow> r_undo r = []"
  by (simp_all add: set_name_def)

lemma put_pending_simps [simp]:
  "r_genesis (put_pending r t p) = r_genesis r" "r_genesis_height (put_pending r t p) = r_genesis_height r"
  "r_rules (put_pending r t p) = r_rules r" "r_height (put_pending r t p) = r_height r"
  "r_names (put_pending r t p) = r_names r" "r_pending (put_pending r t p) = (r_pending r)(t \<mapsto> p)"
  "r_expiries (put_pending r t p) = r_expiries r" "r_undo (put_pending r t p) = r_undo r"
  by (simp_all add: put_pending_def)

lemma insert_pending_simps [simp]:
  "r_genesis (insert_pending r obs kind op) = r_genesis r" "r_genesis_height (insert_pending r obs kind op) = r_genesis_height r"
  "r_rules (insert_pending r obs kind op) = r_rules r" "r_height (insert_pending r obs kind op) = r_height r"
  "r_names (insert_pending r obs kind op) = r_names r" "r_expiries (insert_pending r obs kind op) = r_expiries r"
  "r_undo (insert_pending r obs kind op) = [] \<longleftrightarrow> r_undo r = []"
  by (simp_all add: insert_pending_def)

text \<open>A step keeps the frame open and leaves the registry's identity, rules and height alone.\<close>

definition same_rules :: "registry \<Rightarrow> registry \<Rightarrow> bool" where
  "same_rules r r' \<longleftrightarrow> r_genesis r' = r_genesis r \<and> r_genesis_height r' = r_genesis_height r \<and>
     r_rules r' = r_rules r \<and> r_height r' = r_height r \<and> (r_undo r' = [] \<longleftrightarrow> r_undo r = [])"

lemma same_rules_refl [simp]: "same_rules r r"
  by (simp add: same_rules_def)

lemma same_rules_trans: "same_rules a b \<Longrightarrow> same_rules b c \<Longrightarrow> same_rules a c"
  by (simp add: same_rules_def)

lemma reg_step_same_rules: "reg_step Ob r r' \<Longrightarrow> same_rules r r'"
  by (erule reg_step.cases) (simp_all add: same_rules_def)

lemma reg_steps_same_rules: "(reg_step Ob)\<^sup>*\<^sup>* r r' \<Longrightarrow> same_rules r r'"
  by (induction rule: rtranclp_induct) (auto intro: same_rules_trans reg_step_same_rules)

lemma admit_cong: "same_rules r r' \<Longrightarrow> admit r' obs reg = admit r obs reg"
  by (auto simp: admit_def same_rules_def split: option.splits)

lemma expiry_after_cong: "same_rules r r' \<Longrightarrow> expiry_after r' h = expiry_after r h"
  by (simp add: expiry_after_def same_rules_def)

lemma admit_approver_Admitted:
  "admit_approver r obs reg = Admitted \<longleftrightarrow>
     admit r obs reg = Admitted \<and> g_mode (r_rules r) = Administered \<and> is_approver (r_rules r) (o_author obs)"
  by (cases "g_mode (r_rules r)") (auto simp: admit_approver_def split: admission.splits)

lemma remembered_pending:
  "r_undo r \<noteq> [] \<Longrightarrow> t \<in> fst ` set (d_pending (last (r_undo (remember_pending r t))))"
  by (auto simp: remember_pending_def last_upd_last)

lemma set_name_frame_pending:
  "d_pending (last (r_undo (set_name r n s))) = d_pending (last (r_undo r))"
proof (cases "r_undo r = []")
  case False
  then show ?thesis by (simp add: set_name_def remember_name_def last_upd_last)
qed (simp add: set_name_def remember_name_def upd_last_def)

subsection \<open>Every handler is a sequence of steps\<close>

named_theorems refines \<open>the engine's functions as paths of steps\<close>

lemma single_step: "reg_step Ob r r' \<Longrightarrow> (reg_step Ob)\<^sup>*\<^sup>* r r'"
  by (rule r_into_rtranclp)

lemma complete_steps:
  assumes "r_undo r \<noteq> []" "obs \<in> Ob" "quorum r obs a rec"
    and "rec' = rec\<lparr>pr_approvals := x, pr_completed := True\<rparr>"
  shows "(reg_step Ob)\<^sup>*\<^sup>* r (snd (complete r obs (ap_record_txid a) rec'))"
proof (cases "pr_kind rec")
  case Request
  with assms show ?thesis
    by (auto simp: complete_def Let_def split: binding.splits option.splits
        intro!: single_step reg_step.grant)
next
  case UpdateKind
  with assms show ?thesis
    by (auto simp: complete_def Let_def bound_at_def split: binding.splits
        intro!: single_step reg_step.regrant)
qed

lemma complete_frame:
  "d_pending (last (r_undo (snd (complete r obs t rec)))) = d_pending (last (r_undo r))"
  "r_pending (snd (complete r obs t rec)) = r_pending r"
  by (auto simp: complete_def Let_def set_name_frame_pending split: pending_kind.splits binding.splits option.splits)

lemma approve_steps:
  assumes undo: "r_undo r \<noteq> []" and obs: "obs \<in> Ob" and pay: "o_payload obs = Approve a"
  shows "(reg_step Ob)\<^sup>*\<^sup>* r (snd (approve r obs a))"
proof (cases "admit_approver r obs (ap_registry a) = Admitted \<and> (\<exists>rec. r_pending r (ap_record_txid a) = Some rec \<and>
    pr_sha256 rec = ap_record_sha256 a \<and> \<not> pr_completed rec \<and> o_author obs \<notin> pr_approvals rec)")
  case False
  then have "snd (approve r obs a) = r"
    by (auto simp: approve_def split: admission.splits option.splits)
  then show ?thesis by simp
next
  case True
  then obtain rec where adm: "g_mode (r_rules r) = Administered" "is_approver (r_rules r) (o_author obs)"
    "admit_approver r obs (ap_registry a) = Admitted" "admit r obs (ap_registry a) = Admitted"
    and rec: "r_pending r (ap_record_txid a) = Some rec" "pr_sha256 rec = ap_record_sha256 a"
      "\<not> pr_completed rec" "o_author obs \<notin> pr_approvals rec"
    by (auto simp: admit_approver_Admitted)
  let ?t = "ap_record_txid a" and ?A = "insert (o_author obs) (pr_approvals rec)"
  let ?r1 = "remember_pending r ?t"
  have one: "(reg_step Ob)\<^sup>*\<^sup>* r ?r1" using undo by (auto intro: single_step reg_step.remember)
  have admitted: "admit ?r1 obs (ap_registry a) = Admitted" using adm(4) admit_cong [OF reg_steps_same_rules [OF one]] by simp
  show ?thesis
  proof (cases "card ?A < unat (threshold (r_rules r))")
    case few: True
    have "reg_step Ob ?r1 (put_pending ?r1 ?t (rec\<lparr>pr_approvals := ?A,
        pr_completed := (unat (threshold (r_rules ?r1)) \<le> card ?A)\<rparr>))"
      using undo obs adm rec pay admitted by (intro reg_step.approval) (auto intro: remembered_pending)
    moreover have "rec\<lparr>pr_approvals := ?A, pr_completed := False\<rparr> = rec\<lparr>pr_approvals := ?A\<rparr>"
      using rec(3) by (cases rec) simp
    ultimately have "reg_step Ob ?r1 (snd (approve r obs a))"
      using few adm rec by (simp add: approve_def Let_def)
    with one show ?thesis by (rule rtranclp.rtrancl_into_rtrancl)
  next
    case enough: False
    let ?rec = "rec\<lparr>pr_approvals := ?A, pr_completed := True\<rparr>"
    let ?r2 = "snd (complete ?r1 obs ?t ?rec)"
    have "quorum ?r1 obs a rec" using enough adm rec pay admitted by (simp add: quorum_def)
    then have two: "(reg_step Ob)\<^sup>*\<^sup>* ?r1 ?r2" using undo obs by (intro complete_steps) simp_all
    have same: "same_rules ?r1 ?r2" using two by (rule reg_steps_same_rules)
    have "admit ?r2 obs (ap_registry a) = Admitted" using admitted admit_cong [OF same] by simp
    then have "reg_step Ob ?r2 (put_pending ?r2 ?t (rec\<lparr>pr_approvals := ?A,
        pr_completed := (unat (threshold (r_rules ?r2)) \<le> card ?A)\<rparr>))"
      using undo obs adm rec same pay remembered_pending [OF undo, of ?t]
      by (intro reg_step.approval) (auto simp: same_rules_def complete_frame)
    moreover have "snd (approve r obs a) = put_pending ?r2 ?t ?rec"
      using enough adm rec by (simp add: approve_def Let_def case_prod_beta)
    ultimately have "reg_step Ob ?r2 (snd (approve r obs a))"
      using same enough by (simp add: same_rules_def)
    with one two show ?thesis by simp
  qed
qed

lemma vote_steps:
  assumes "r_undo r \<noteq> []" "obs \<in> Ob" "o_payload obs = (if susp then Suspend op else Restore op)"
  shows "(reg_step Ob)\<^sup>*\<^sup>* r (snd (vote r obs op susp))"
proof (cases "admit_approver r obs (no_registry op) = Admitted")
  case True
  then have "g_mode (r_rules r) = Administered" "is_approver (r_rules r) (o_author obs)" "admit r obs (no_registry op) = Admitted"
    by (auto simp: admit_approver_Admitted)
  with True assms show ?thesis
    by (cases susp) (auto simp: vote_def Let_def intro!: single_step reg_step.ballot)
next
  case False
  then have "snd (vote r obs op susp) = r" by (auto simp: vote_def split: admission.splits)
  then show ?thesis by simp
qed

lemma request_steps:
  assumes "r_undo r \<noteq> []" "g_mode (r_rules r) = Administered" "obs \<in> Ob" "o_payload obs = Claim op"
  shows "(reg_step Ob)\<^sup>*\<^sup>* r (snd (Registry.request r obs op))"
  using assms by (auto simp: Registry.request_def split: admission.splits intro!: single_step reg_step.request)

lemma update_steps:
  assumes "r_undo r \<noteq> []" "obs \<in> Ob" "o_payload obs = Update op"
  shows "(reg_step Ob)\<^sup>*\<^sup>* r (snd (update r obs op))"
  using assms
  by (auto simp: update_def Let_def bound_at_def split: admission.splits binding.splits mode.splits
      intro!: single_step reg_step.retarget reg_step.request)

lemma renew_steps:
  assumes "r_undo r \<noteq> []" "obs \<in> Ob" "o_payload obs = Renew op"
  shows "(reg_step Ob)\<^sup>*\<^sup>* r (snd (renew r obs op))"
proof (cases "admit r obs (oo_registry op) = Admitted \<and> (\<exists>e b. expiry_after r (o_height obs) = Some e \<and>
    bound_at r (oo_name op) b \<and> b_owner b = o_author obs)")
  case True
  then obtain e b where ok: "admit r obs (oo_registry op) = Admitted" "expiry_after r (o_height obs) = Some e"
    "ns_binding (state_of (r_names r) (oo_name op)) = Bound b" "b_owner b = o_author obs"
    by (auto simp: bound_at_def)
  have step: "reg_step Ob r (set_name r (oo_name op) ((state_of (r_names r) (oo_name op))\<lparr>ns_binding := Bound
       (b\<lparr>b_target := t, b_expiry := e, b_last_txid := o_txid obs\<rparr>)\<rparr>))"
    if "t = (if g_mode (r_rules r) = Open then target_of op else b_target b)" for t
    using assms ok that by (intro reg_step.renewal) (simp_all add: bound_at_def)
  have "b\<lparr>b_target := b_target b, b_expiry := e, b_last_txid := o_txid obs\<rparr> =
      b\<lparr>b_expiry := e, b_last_txid := o_txid obs\<rparr>" by (cases b) simp
  then show ?thesis
    using step [of "target_of op"] step [of "b_target b"] ok
    by (cases "g_mode (r_rules r)") (auto simp: renew_def Let_def intro: single_step)
next
  case False
  then have "snd (renew r obs op) = r"
    by (auto simp: renew_def Let_def bound_at_def split: admission.splits option.splits binding.splits)
  then show ?thesis by simp
qed

lemma approver_record_steps:
  assumes "r_undo r \<noteq> []" "obs \<in> Ob"
  shows "(reg_step Ob)\<^sup>*\<^sup>* r (fst (approver_record (r, out) obs))"
  using approve_steps [OF assms] vote_steps [OF assms, of True] vote_steps [OF assms, of False]
  by (cases "o_payload obs") (simp_all add: approver_record_def Let_def case_prod_beta)

lemma owner_record_steps:
  assumes "r_undo r \<noteq> []" "obs \<in> Ob"
  shows "(reg_step Ob)\<^sup>*\<^sup>* r (fst (owner_record (r, out) obs))"
  using update_steps [OF assms] renew_steps [OF assms] request_steps [OF assms(1) _ assms(2)]
  by (cases "o_payload obs") (simp_all add: owner_record_def Let_def case_prod_beta split: mode.splits)

text \<open>The two record phases are folds of a one-record handler; the path of the fold is the composed path.\<close>

lemma fold_records_steps:
  assumes handler: "\<And>r out obs. r_undo r \<noteq> [] \<Longrightarrow> obs \<in> A \<Longrightarrow> (reg_step Ob)\<^sup>*\<^sup>* r (fst (f (r, out) obs))"
    and "r_undo r \<noteq> []" "set obss \<subseteq> A"
  shows "(reg_step Ob)\<^sup>*\<^sup>* r (fst (foldl f (r, out) obss))"
  using assms(2,3)
proof (induction obss arbitrary: r out)
  case (Cons obs obss)
  obtain r1 out1 where f: "f (r, out) obs = (r1, out1)" by fastforce
  have step: "(reg_step Ob)\<^sup>*\<^sup>* r r1" using handler [of r obs out] Cons.prems f by simp
  then have "r_undo r1 \<noteq> []" using reg_steps_same_rules Cons.prems(1) by (auto simp: same_rules_def)
  then have "(reg_step Ob)\<^sup>*\<^sup>* r1 (fst (foldl f (r1, out1) obss))" using Cons.IH Cons.prems(2) by simp
  with step show ?case by (simp add: f)
qed simp

subsection \<open>The claim race\<close>

definition claimant :: "registry \<Rightarrow> observation list \<Rightarrow> name \<Rightarrow> nat \<Rightarrow> bool" where
  "claimant r obss n i \<longleftrightarrow> i < length obss \<and>
     (\<exists>op. o_payload (obss ! i) = Claim op \<and> oo_name op = n \<and>
        admit r (obss ! i) (oo_registry op) = Admitted)"

definition racers :: "registry \<Rightarrow> observation list \<Rightarrow> name \<times> nat list \<Rightarrow> bool" where
  "racers r obss e \<longleftrightarrow> snd e \<noteq> [] \<and> distinct (snd e) \<and> (\<forall>i \<in> set (snd e). claimant r obss (fst e) i) \<and>
     ns_binding (state_of (r_names r) (fst e)) = Unbound"

definition cands_ok :: "registry \<Rightarrow> observation list \<Rightarrow> nat \<Rightarrow> candidates \<Rightarrow> bool" where
  "cands_ok r obss k cands \<longleftrightarrow> bt_inv cands \<and>
     (\<forall>e \<in> set cands. racers r obss e \<and> (\<forall>i \<in> set (snd e). i < k))"

lemma bt_set_insert: "bt_inv m \<Longrightarrow> set (bt_insert k v m) = insert (k, v) {e \<in> set m. fst e \<noteq> k}"
  by (induction k v m rule: bt_insert.induct) (auto simp: bt_inv_Cons)

lemma candidate_step_ok:
  assumes "cands_ok r obss k cands" "k < length obss"
  shows "cands_ok r obss (Suc k) (fst (candidate_step r obss (cands, out) k))"
proof (cases "\<exists>op. o_payload (obss ! k) = Claim op \<and> admit r (obss ! k) (oo_registry op) = Admitted \<and>
    ns_binding (state_of (r_names r) (oo_name op)) = Unbound")
  case False
  then have "fst (candidate_step r obss (cands, out) k) = cands"
    by (auto simp: candidate_step_def Let_def split: payload.splits admission.splits binding.splits)
  with assms(1) show ?thesis by (simp add: cands_ok_def less_SucI)
next
  case True
  then obtain op where op: "o_payload (obss ! k) = Claim op" "admit r (obss ! k) (oo_registry op) = Admitted"
    "ns_binding (state_of (r_names r) (oo_name op)) = Unbound" by blast
  have inv: "bt_inv cands" and old: "\<And>e. e \<in> set cands \<Longrightarrow> racers r obss e \<and> (\<forall>i \<in> set (snd e). i < k)"
    using assms(1) by (auto simp: cands_ok_def)
  have "claimant r obss (oo_name op) k" using op assms(2) by (auto simp: claimant_def)
  moreover have "racers r obss (oo_name op, is) \<and> (\<forall>i \<in> set is. i < k)" if "bt_get cands (oo_name op) = Some is" for "is"
    using old [of "(oo_name op, is)"] that by (simp add: btree.get_entries [OF inv])
  ultimately show ?thesis
    using op inv old
    by (fastforce simp: candidate_step_def cands_ok_def bt_inv_insert bt_set_insert racers_def less_Suc_eq
        split: option.splits)
qed

lemma candidates_ok:
  "k \<le> length obss \<Longrightarrow> cands_ok r obss k (fst (foldl (candidate_step r obss) ([], out) [0..<k]))"
proof (induction k)
  case (Suc k)
  obtain cands out1 where "foldl (candidate_step r obss) ([], out) [0..<k] = (cands, out1)" by fastforce
  then show ?case using Suc candidate_step_ok [of r obss k cands out1] by simp
qed (simp add: cands_ok_def)

lemma arg_min_in: "xs \<noteq> [] \<Longrightarrow> arg_min_list f xs \<in> set xs"
  by (rule arg_min_list_in)

definition claimed :: "observation list \<Rightarrow> observation set" where
  "claimed obss = {obs \<in> set obss. \<exists>op. o_payload obs = Claim op}"

lemma claimed_subset [simp]: "set obss \<subseteq> Ob \<Longrightarrow> claimed obss \<subseteq> Ob"
  by (auto simp: claimed_def)

lemma assign_steps:
  assumes "r_undo r \<noteq> []" "g_mode (r_rules r) = Open" "claimed obss \<subseteq> Ob" "racers r obss e"
  shows "(reg_step Ob)\<^sup>*\<^sup>* r (fst (assign obss (r, out) e))"
proof -
  let ?w = "arg_min_list (\<lambda>i. commit_key (obss ! i)) (snd e)"
  have "claimant r obss (fst e) ?w" using assms(4) arg_min_in by (auto simp: racers_def)
  then obtain op where w: "?w < length obss" "o_payload (obss ! ?w) = Claim op" "oo_name op = fst e"
    "admit r (obss ! ?w) (oo_registry op) = Admitted" by (auto simp: claimant_def)
  have "obss ! ?w \<in> Ob" using w(1,2) assms(3) nth_mem by (fastforce simp: claimed_def)
  then show ?thesis
    using w assms
    by (cases e) (auto simp: assign_def Let_def racers_def split: option.splits intro!: single_step reg_step.claim)
qed

lemma assign_other_names:
  "m \<noteq> fst e \<Longrightarrow> r_names (fst (assign obss (r, out) e)) m = r_names r m"
  by (cases e) (auto simp: assign_def Let_def split: payload.splits option.splits)

lemma racers_cong:
  "same_rules r r' \<Longrightarrow> r_names r' (fst e) = r_names r (fst e) \<Longrightarrow> racers r obss e \<Longrightarrow> racers r' obss e"
  by (auto simp: racers_def claimant_def admit_cong state_of_def)

lemma fold_assign_steps:
  assumes "r_undo r \<noteq> []" "g_mode (r_rules r) = Open" "claimed obss \<subseteq> Ob" "distinct (map fst cands)"
    "\<forall>e \<in> set cands. racers r obss e"
  shows "(reg_step Ob)\<^sup>*\<^sup>* r (fst (foldl (assign obss) (r, out) cands))"
  using assms(1,2,4,5)
proof (induction cands arbitrary: r out)
  case (Cons e cands)
  obtain r1 out1 where f: "assign obss (r, out) e = (r1, out1)" by fastforce
  have step: "(reg_step Ob)\<^sup>*\<^sup>* r r1" using assign_steps [of r obss Ob e out] Cons.prems assms(3) f by simp
  then have same: "same_rules r r1" by (rule reg_steps_same_rules)
  have "racers r1 obss e'" if "e' \<in> set cands" for e'
  proof (rule racers_cong [OF same])
    have "fst e' \<noteq> fst e" using that Cons.prems(3) by (metis image_eqI list.set_map distinct.simps(2) list.simps(9))
    then show "r_names r1 (fst e') = r_names r (fst e')" using assign_other_names [of "fst e'" e obss r out] f by simp
  qed (use that Cons.prems(4) in simp)
  then have "(reg_step Ob)\<^sup>*\<^sup>* r1 (fst (foldl (assign obss) (r1, out1) cands))"
    using Cons.IH Cons.prems same by (auto simp: same_rules_def)
  with step show ?case by (simp add: f)
qed simp

lemma claims_steps:
  assumes "r_undo r \<noteq> []" "g_mode (r_rules r) = Open" "claimed obss \<subseteq> Ob"
  shows "(reg_step Ob)\<^sup>*\<^sup>* r (fst (claims r obss out))"
proof -
  have "cands_ok r obss (length obss) (fst (foldl (candidate_step r obss) ([], out) [0..<length obss]))"
    by (rule candidates_ok) simp
  then show ?thesis
    using fold_assign_steps [OF assms]
    by (simp add: claims_def case_prod_beta cands_ok_def bt_inv_distinct)
qed

text \<open>
  The phases of a block take their observations apart: first the records of approvers, then those of
  claimants and owners. So what is requested in a block is never approved in it.
\<close>

definition approving :: "observation set \<Rightarrow> observation set" where
  "approving Ob = {obs \<in> Ob. case o_payload obs of Approve _ \<Rightarrow> True | Suspend _ \<Rightarrow> True | Restore _ \<Rightarrow> True | _ \<Rightarrow> False}"

definition owning :: "observation set \<Rightarrow> observation set" where
  "owning Ob = {obs \<in> Ob. case o_payload obs of Claim _ \<Rightarrow> True | Update _ \<Rightarrow> True | Renew _ \<Rightarrow> True | _ \<Rightarrow> False}"

lemma approver_record_phase:
  "r_undo r \<noteq> [] \<Longrightarrow> obs \<in> Ob \<Longrightarrow> (reg_step (approving Ob))\<^sup>*\<^sup>* r (fst (approver_record (r, out) obs))"
  using approver_record_steps [of r obs "approving Ob" out]
  by (cases "o_payload obs") (simp_all add: approving_def approver_record_def Let_def)

lemma owner_record_phase:
  "r_undo r \<noteq> [] \<Longrightarrow> obs \<in> Ob \<Longrightarrow> (reg_step (owning Ob))\<^sup>*\<^sup>* r (fst (owner_record (r, out) obs))"
  using owner_record_steps [of r obs "owning Ob" out]
  by (cases "o_payload obs") (simp_all add: owning_def owner_record_def Let_def)

lemma apply_block_phases:
  assumes "r_undo r \<noteq> []" "set obss \<subseteq> Ob"
  obtains rm where "(reg_step (approving Ob))\<^sup>*\<^sup>* r rm" "(reg_step (owning Ob))\<^sup>*\<^sup>* rm (fst (apply_block r obss))"
proof -
  obtain r1 out1 where a: "approver_records r obss [] = (r1, out1)" by fastforce
  have one: "(reg_step (approving Ob))\<^sup>*\<^sup>* r r1"
    using fold_records_steps [of Ob "approving Ob" approver_record, OF approver_record_phase assms, of "[]"] a
    by (simp add: approver_records_def)
  then have u1: "r_undo r1 \<noteq> []" using reg_steps_same_rules assms(1) by (auto simp: same_rules_def)
  obtain r2 out2 where c: "(if g_mode (r_rules r1) = Open then claims r1 obss out1 else (r1, out1)) = (r2, out2)"
    by fastforce
  have "claimed obss \<subseteq> owning Ob" using assms(2) by (auto simp: claimed_def owning_def)
  then have two: "(reg_step (owning Ob))\<^sup>*\<^sup>* r1 r2" using c claims_steps [OF u1, of obss _ out1] by (auto split: if_splits)
  then have u2: "r_undo r2 \<noteq> []" using reg_steps_same_rules u1 by (auto simp: same_rules_def)
  have "(reg_step (owning Ob))\<^sup>*\<^sup>* r2 (fst (owner_records r2 obss out2))"
    using fold_records_steps [of Ob "owning Ob" owner_record, OF owner_record_phase u2 assms(2)] by (simp add: owner_records_def)
  with two have "(reg_step (owning Ob))\<^sup>*\<^sup>* r1 (fst (apply_block r obss))" by (simp add: apply_block_def a c)
  with one show thesis by (rule that)
qed

lemma reg_step_mono: "reg_step A r r' \<Longrightarrow> A \<subseteq> B \<Longrightarrow> reg_step B r r'"
proof (induction rule: reg_step.induct)
  case expiry
  then show ?case by (intro reg_step.expiry) auto
next
  case claim
  then show ?case by (intro reg_step.claim) auto
next
  case grant
  then show ?case by (intro reg_step.grant) auto
next
  case regrant
  then show ?case by (intro reg_step.regrant) auto
next
  case retarget
  then show ?case by (intro reg_step.retarget) auto
next
  case renewal
  then show ?case by (intro reg_step.renewal) auto
next
  case ballot
  then show ?case by (intro reg_step.ballot) auto
next
  case remember
  then show ?case by (intro reg_step.remember) auto
next
  case request
  then show ?case by (intro reg_step.request) auto
next
  case approval
  then show ?case by (intro reg_step.approval) auto
qed

lemma reg_steps_mono: "(reg_step A)\<^sup>*\<^sup>* r r' \<Longrightarrow> A \<subseteq> B \<Longrightarrow> (reg_step B)\<^sup>*\<^sup>* r r'"
  by (induction rule: rtranclp_induct) (auto intro: reg_step_mono rtranclp.rtrancl_into_rtrancl)

lemma apply_block_steps:
  assumes "r_undo r \<noteq> []" "set obss \<subseteq> Ob"
  shows "(reg_step Ob)\<^sup>*\<^sup>* r (fst (apply_block r obss))"
proof -
  obtain rm where "(reg_step (approving Ob))\<^sup>*\<^sup>* r rm" "(reg_step (owning Ob))\<^sup>*\<^sup>* rm (fst (apply_block r obss))"
    by (rule apply_block_phases [OF assms])
  then have "(reg_step Ob)\<^sup>*\<^sup>* r rm" "(reg_step Ob)\<^sup>*\<^sup>* rm (fst (apply_block r obss))"
    by (auto elim!: reg_steps_mono simp: approving_def owning_def)
  then show ?thesis by simp
qed

subsection \<open>Expiry\<close>

text \<open>
  \<open>exp_index\<close>: the set \<open>self.expiries\<close> holds exactly the expiry of every bound name.
\<close>

definition exp_index :: "registry \<Rightarrow> bool" where
  "exp_index r \<longleftrightarrow> finite (r_expiries r) \<and>
     (\<forall>e n. (e, n) \<in> r_expiries r \<longleftrightarrow> (\<exists>b. bound_at r n b \<and> b_expiry b = e))"

definition due :: "registry \<Rightarrow> u64 \<times> name \<Rightarrow> bool" where
  "due r e \<longleftrightarrow> (\<exists>b. bound_at r (snd e) b \<and> b_expiry b = fst e)"

lemma bound_at_unique: "bound_at r n b \<Longrightarrow> bound_at r n b' \<Longrightarrow> b' = b"
  by (simp add: bound_at_def)

lemma bound_at_set_name:
  "bound_at (set_name r n s) m b \<longleftrightarrow> (if m = n then ns_binding s = Bound b else bound_at r m b)"
  by (simp add: bound_at_def state_of_upd)

lemma exp_index_store: "exp_index r \<Longrightarrow> exp_index (store r n s)"
  unfolding exp_index_def store_def drop_expiry_def bound_at_def
  by (auto simp: state_of_upd split: binding.splits)

lemma exp_index_forget: "exp_index r \<Longrightarrow> exp_index (forget r n)"
  unfolding exp_index_def forget_def drop_expiry_def bound_at_def
  by (auto simp: state_of_upd split: binding.splits)

lemma takeWhile_sorted_fst:
  "sorted xs \<Longrightarrow> takeWhile (\<lambda>e. fst e \<le> h) xs = filter (\<lambda>e. fst e \<le> h) xs"
  for xs :: "('a :: linorder \<times> 'b :: linorder) list"
proof (induction xs)
  case (Cons x xs)
  have "filter (\<lambda>e. fst e \<le> h) xs = []" if "h < fst x"
    using Cons.prems that by (auto simp: filter_empty_conv less_eq_prod_def)
  with Cons show ?case by (cases "fst x \<le> h") auto
qed simp

lemma due_entries_eq:
  "due_entries r h = filter (\<lambda>e. fst e \<le> h) (sorted_list_of_set (r_expiries r))"
  unfolding due_entries_def by (rule takeWhile_sorted_fst) simp

lemma set_due_entries:
  "exp_index r \<Longrightarrow> set (due_entries r h) = {(b_expiry b, n) | n b. bound_at r n b \<and> b_expiry b \<le> h}"
  by (auto simp: due_entries_eq exp_index_def)

lemma distinct_due_names: "exp_index r \<Longrightarrow> distinct (map snd (due_entries r h))"
proof -
  assume idx: "exp_index r"
  have "distinct (due_entries r h)" by (simp add: due_entries_eq)
  moreover have "inj_on snd (set (due_entries r h))"
    using bound_at_unique by (fastforce simp: set_due_entries [OF idx] inj_on_def)
  ultimately show ?thesis by (simp add: distinct_map)
qed

lemma expire_entry_due:
  "due r e \<Longrightarrow> expire_entry r e = set_name r (snd e) ((state_of (r_names r) (snd e))\<lparr>ns_binding := Unbound\<rparr>)"
  by (cases e) (auto simp: due_def bound_at_def expire_entry_def)

lemma fold_expire:
  assumes "r_undo r \<noteq> []" "distinct (map snd es)" "\<forall>e \<in> set es. due r e \<and> fst e \<le> r_height r"
  shows "(reg_step Ob)\<^sup>*\<^sup>* r (foldl expire_entry r es) \<and>
    (\<forall>n b. bound_at (foldl expire_entry r es) n b \<longleftrightarrow> bound_at r n b \<and> n \<notin> snd ` set es)"
  using assms
proof (induction es arbitrary: r)
  case (Cons e es)
  let ?r1 = "expire_entry r e"
  have r1: "?r1 = set_name r (snd e) ((state_of (r_names r) (snd e))\<lparr>ns_binding := Unbound\<rparr>)"
    using Cons.prems(3) by (simp add: expire_entry_due)
  have step: "reg_step Ob r ?r1"
    unfolding r1 using Cons.prems by (auto simp: due_def intro: reg_step.expiry)
  have "\<forall>e' \<in> set es. due ?r1 e' \<and> fst e' \<le> r_height ?r1"
    unfolding r1 using Cons.prems by (auto simp: due_def bound_at_set_name image_iff)
  then have IH: "(reg_step Ob)\<^sup>*\<^sup>* ?r1 (foldl expire_entry ?r1 es) \<and>
    (\<forall>n b. bound_at (foldl expire_entry ?r1 es) n b \<longleftrightarrow> bound_at ?r1 n b \<and> n \<notin> snd ` set es)"
    using Cons.IH [of ?r1] Cons.prems(1,2) by (simp add: r1)
  then have "(reg_step Ob)\<^sup>*\<^sup>* r (foldl expire_entry r (e # es))"
    using step by (simp add: converse_rtranclp_into_rtranclp)
  with IH show ?case by (auto simp: r1 bound_at_set_name)
qed simp

lemma expire_steps:
  assumes "r_undo r \<noteq> []" "exp_index r"
  shows "(reg_step Ob)\<^sup>*\<^sup>* r (expire r (r_height r))"
    and "bound_at (expire r (r_height r)) n b \<longleftrightarrow> bound_at r n b \<and> r_height r < b_expiry b"
proof -
  have due: "\<forall>e \<in> set (due_entries r (r_height r)). due r e \<and> fst e \<le> r_height r"
    by (auto simp: set_due_entries [OF assms(2)] due_def)
  note fold = fold_expire [OF assms(1) distinct_due_names [OF assms(2)] due]
  show "(reg_step Ob)\<^sup>*\<^sup>* r (expire r (r_height r))" using fold by (simp add: expire_def)
  have names: "n \<in> snd ` set (due_entries r (r_height r)) \<longleftrightarrow> (\<exists>b. bound_at r n b \<and> b_expiry b \<le> r_height r)"
    by (force simp: set_due_entries [OF assms(2)])
  have "bound_at (expire r (r_height r)) n b \<longleftrightarrow>
      bound_at r n b \<and> \<not> (\<exists>b. bound_at r n b \<and> b_expiry b \<le> r_height r)"
    using fold by (simp add: expire_def names)
  then show "bound_at (expire r (r_height r)) n b \<longleftrightarrow> bound_at r n b \<and> r_height r < b_expiry b"
    by (metis bound_at_unique not_le)
qed

end
