(* ===== verification/Registry_Inv.thy ===== *)
theory Registry_Inv
  imports Registry_Steps
begin

section \<open>The invariant of the registry\<close>

text \<open>
  What every reachable registry satisfies: the rules are valid, the expiry index is exact, every
  name state and pending record is well formed for the rules, and no binding has outlived its
  expiry. The well-formedness part is kept by every abstract step, the liveness part by every step
  once the expired bindings of the block are gone.
\<close>

definition name_wf :: "genesis \<Rightarrow> name_state \<Rightarrow> bool" where
  "name_wf g s \<longleftrightarrow>
     ns_suspend_votes s \<subseteq> set (approvers g) \<and> ns_restore_votes s \<subseteq> set (approvers g) \<and>
     (ns_suspended s \<longrightarrow> g_mode g = Administered \<and> ns_suspend_votes s = {}) \<and>
     (\<not> ns_suspended s \<longrightarrow> ns_restore_votes s = {}) \<and>
     (g_mode g = Administered \<longrightarrow>
        card (ns_suspend_votes s) < unat (threshold g) \<and> card (ns_restore_votes s) < unat (threshold g) \<and>
        (\<forall>b. ns_binding s = Bound b \<longrightarrow> b_target b \<noteq> Reserved))"

definition pending_wf :: "genesis \<Rightarrow> pending_record \<Rightarrow> bool" where
  "pending_wf g rec \<longleftrightarrow> g_mode g = Administered \<and> pr_approvals rec \<subseteq> set (approvers g) \<and>
     (pr_completed rec \<longleftrightarrow> unat (threshold g) \<le> card (pr_approvals rec))"

definition reg_wf :: "registry \<Rightarrow> bool" where
  "reg_wf r \<longleftrightarrow> Genesis_validate (r_rules r) = Inr () \<and> exp_index r \<and> finite (dom (r_names r)) \<and>
     (\<forall>n s. r_names r n = Some s \<longrightarrow> name_wf (r_rules r) s) \<and>
     (\<forall>t rec. r_pending r t = Some rec \<longrightarrow> pending_wf (r_rules r) rec)"

definition live :: "registry \<Rightarrow> bool" where
  "live r \<longleftrightarrow> (\<forall>n b. bound_at r n b \<longrightarrow> r_height r < b_expiry b \<and>
     unat (b_expiry b) \<le> unat (r_height r) + unat (expiry_blocks (r_rules r)))"

definition reg_inv :: "registry \<Rightarrow> bool" where
  "reg_inv r \<longleftrightarrow> reg_wf r \<and> live r \<and> r_genesis_height r \<le> r_height r"

lemma valid_threshold:
  "Genesis_validate g = Inr u \<Longrightarrow> g_mode g = Administered \<Longrightarrow> 0 < unat (threshold g)"
  by (auto simp: Genesis_validate_def word_le_nat_alt)

lemma valid_open: "Genesis_validate g = Inr u \<Longrightarrow> g_mode g = Open \<Longrightarrow> approvers g = []"
  by (auto simp: Genesis_validate_def)

lemma valid_expiry: "Genesis_validate g = Inr u \<Longrightarrow> 0 < unat (expiry_blocks g)"
  by (auto simp: Genesis_validate_def word_less_nat_alt word_le_nat_alt)

lemma expiry_after_bounds:
  assumes "expiry_after r h = Some e" "Genesis_validate (r_rules r) = Inr ()"
  shows "h < e" "unat e = unat h + unat (expiry_blocks (r_rules r))"
proof -
  show e: "unat e = unat h + unat (expiry_blocks (r_rules r))"
    using assms(1) by (simp add: expiry_after_def checked_add_Some unat_ucast_up)
  show "h < e" using e valid_expiry [OF assms(2)] by (simp add: word_less_nat_alt)
qed

lemma name_wf_unbound: "Genesis_validate g = Inr () \<Longrightarrow> name_wf g NameState_unbound"
  using valid_threshold [of g "()"] by (simp add: name_wf_def)

lemma reg_wf_state_of: "reg_wf r \<Longrightarrow> name_wf (r_rules r) (state_of (r_names r) n)"
  by (cases "r_names r n") (auto simp: reg_wf_def name_wf_unbound)

lemma exp_index_remember_name [simp]: "exp_index (remember_name r n) = exp_index r"
  by (simp add: exp_index_def bound_at_def)

lemma exp_index_remember_pending [simp]: "exp_index (remember_pending r t) = exp_index r"
  by (simp add: exp_index_def bound_at_def)

lemma exp_index_put_pending [simp]: "exp_index (put_pending r t rec) = exp_index r"
  by (simp add: exp_index_def bound_at_def)

lemma exp_index_set_name: "exp_index r \<Longrightarrow> exp_index (set_name r n s)"
  by (simp add: set_name_def exp_index_store)

lemma reg_wf_set_name: "reg_wf r \<Longrightarrow> name_wf (r_rules r) s \<Longrightarrow> reg_wf (set_name r n s)"
  by (simp add: reg_wf_def exp_index_set_name)

lemma reg_wf_put_pending: "reg_wf r \<Longrightarrow> pending_wf (r_rules r) rec \<Longrightarrow> reg_wf (put_pending r t rec)"
  by (simp add: reg_wf_def)

lemma reg_wf_remember_pending [simp]: "reg_wf (remember_pending r t) = reg_wf r"
  by (simp add: reg_wf_def)

text \<open>A new binding is well formed when the target is a publication in an administered registry.\<close>

lemma name_wf_rebind:
  "name_wf g s \<Longrightarrow> g_mode g = Administered \<longrightarrow> b_target b \<noteq> Reserved \<Longrightarrow> name_wf g (s\<lparr>ns_binding := Bound b\<rparr>)"
  by (simp add: name_wf_def)

lemma name_wf_unbind: "name_wf g s \<Longrightarrow> name_wf g (s\<lparr>ns_binding := Unbound\<rparr>)"
  by (simp add: name_wf_def)

lemma name_wf_ballot:
  assumes "name_wf g s" "g_mode g = Administered" "is_approver g k" "ns_suspended s \<noteq> susp"
    "0 < unat (threshold g)" "v = (if susp then ns_suspend_votes s else ns_restore_votes s)"
  shows "name_wf g (if unat (threshold g) \<le> card (insert k v)
           then s\<lparr>ns_suspended := susp, ns_suspend_votes := {}, ns_restore_votes := {}\<rparr>
           else if susp then s\<lparr>ns_suspend_votes := insert k v\<rparr> else s\<lparr>ns_restore_votes := insert k v\<rparr>)"
  using assms by (cases susp) (auto simp: name_wf_def is_approver_def not_le)

lemma reg_step_wf: "reg_step Ob r r' \<Longrightarrow> reg_wf r \<Longrightarrow> reg_wf r'"
proof (induction rule: reg_step.induct)
  case (ballot r obs v susp op n s s')
  then have "0 < unat (threshold (r_rules r))" using valid_threshold by (auto simp: reg_wf_def)
  with ballot show ?case
    using name_wf_ballot [of "r_rules r" s "o_author obs" susp v] reg_wf_state_of [of r n]
    by (simp add: reg_wf_set_name)
next
  case (renewal r obs op n b t e)
  have "name_wf (r_rules r) (state_of (r_names r) n)" by (rule reg_wf_state_of) fact
  moreover from this have "g_mode (r_rules r) = Administered \<longrightarrow> t \<noteq> Reserved"
    using renewal by (auto simp: name_wf_def bound_at_def)
  ultimately show ?case using renewal by (auto intro!: reg_wf_set_name name_wf_rebind)
next
  case (request r obs kind op)
  then have "0 < unat (threshold (r_rules r))" using valid_threshold by (auto simp: reg_wf_def)
  with request show ?case unfolding insert_pending_def by (intro reg_wf_put_pending) (simp_all add: pending_wf_def)
next
  case (approval r t obs a rec)
  then have "pending_wf (r_rules r) rec" by (simp add: reg_wf_def)
  with approval show ?case by (intro reg_wf_put_pending) (simp_all add: pending_wf_def is_approver_def)
qed (auto intro!: reg_wf_set_name name_wf_rebind name_wf_unbind intro: reg_wf_state_of)

lemma reg_steps_wf: "(reg_step Ob)\<^sup>*\<^sup>* r r' \<Longrightarrow> reg_wf r \<Longrightarrow> reg_wf r'"
  by (induction rule: rtranclp_induct) (auto intro: reg_step_wf)

subsection \<open>Bindings that live\<close>

lemma live_set_name:
  assumes "live r" "\<And>b. ns_binding s = Bound b \<Longrightarrow> r_height r < b_expiry b \<and>
     unat (b_expiry b) \<le> unat (r_height r) + unat (expiry_blocks (r_rules r))"
  shows "live (set_name r n s)"
  using assms by (simp add: live_def bound_at_set_name)

lemma reg_step_live:
  assumes "reg_step Ob r r'" "live r" "Genesis_validate (r_rules r) = Inr ()" "\<forall>obs \<in> Ob. o_height obs = r_height r"
  shows "live r'"
  using assms
proof (induction rule: reg_step.induct)
  case (ballot r obs v susp op n s s')
  then have "ns_binding s' = ns_binding (state_of (r_names r) n)" by simp
  with ballot show ?case by (intro live_set_name) (auto simp: live_def bound_at_def)
next
  case (claim r n obs op e)
  with expiry_after_bounds [OF claim(8)] show ?case by (intro live_set_name) auto
next
  case (grant r obs a rec n e)
  with expiry_after_bounds [OF grant(8)] show ?case by (intro live_set_name) auto
next
  case (renewal r obs op n b t e)
  with expiry_after_bounds [OF renewal(9)] show ?case by (intro live_set_name) auto
qed (auto simp: live_def bound_at_set_name, auto simp: bound_at_def)

lemma reg_steps_live:
  assumes "(reg_step Ob)\<^sup>*\<^sup>* r r'" "live r" "Genesis_validate (r_rules r) = Inr ()" "\<forall>obs \<in> Ob. o_height obs = r_height r"
  shows "live r'"
  using assms(1,2)
proof (induction rule: rtranclp_induct)
  case (step y z)
  then have "same_rules r y" by (simp add: reg_steps_same_rules)
  with step assms(3,4) show ?case by (auto intro: reg_step_live simp: same_rules_def)
qed

subsection \<open>Connecting a block\<close>

lemma open_frame_simps [simp]:
  "r_genesis (open_frame r h) = r_genesis r" "r_genesis_height (open_frame r h) = r_genesis_height r"
  "r_rules (open_frame r h) = r_rules r" "r_height (open_frame r h) = h"
  "r_names (open_frame r h) = r_names r" "r_pending (open_frame r h) = r_pending r"
  "r_expiries (open_frame r h) = r_expiries r"
  "r_undo (open_frame r h) = r_undo r @ [\<lparr>d_names = [], d_pending = []\<rparr>]"
  "bound_at (open_frame r h) n b = bound_at r n b"
  "exp_index (open_frame r h) = exp_index r" "reg_wf (open_frame r h) = reg_wf r"
  by (simp_all add: open_frame_def bound_at_def exp_index_def reg_wf_def)

text \<open>What a successful connection is: the guards of the code, and its two phases.\<close>

definition block_order :: "observation list \<Rightarrow> observation list" where
  "block_order observations = sort_key o_position observations"

lemma connect_delta_Inr:
  "connect_delta r h observations = Inr (ab, r') \<longleftrightarrow>
     checked_add (r_height r) 1 = Some h \<and> (\<forall>obs \<in> set observations. o_height obs = h) \<and>
     windows2_all (\<lambda>a b. o_position a < o_position b) (block_order observations) \<and>
     apply_block (expire (open_frame r h) h) (block_order observations) = (r', ab_outcomes ab) \<and>
     ab = \<lparr>ab_outcomes = ab_outcomes ab, ab_delta = forward_delta r' (last (r_undo r'))\<rparr>"
  by (auto simp: connect_delta_def block_order_def Let_def split: prod.splits option.splits)

lemma connect_phases:
  assumes "connect_delta r h observations = Inr (ab, r')" "exp_index r"
  shows "(reg_step Ob)\<^sup>*\<^sup>* (open_frame r h) (expire (open_frame r h) h)"
    and "(reg_step (set observations))\<^sup>*\<^sup>* (expire (open_frame r h) h) r'"
    and "same_rules (open_frame r h) r'"
proof -
  show one: "(reg_step Ob)\<^sup>*\<^sup>* (open_frame r h) (expire (open_frame r h) h)" for Ob
    using expire_steps(1) [of "open_frame r h"] assms(2) by simp
  then have "r_undo (expire (open_frame r h) h) \<noteq> []"
    using reg_steps_same_rules [OF one] by (simp add: same_rules_def)
  then show two: "(reg_step (set observations))\<^sup>*\<^sup>* (expire (open_frame r h) h) r'"
    using apply_block_steps [of _ "block_order observations" "set observations"] assms(1)
    by (metis block_order_def connect_delta_Inr fst_conv order_refl set_sort)
  show "same_rules (open_frame r h) r'"
    using one [of "{}"] two by (metis reg_steps_same_rules same_rules_trans)
qed

lemma live_after_expire:
  assumes "reg_inv r" "unat h = Suc (unat (r_height r))"
  shows "live (expire (open_frame r h) h)"
proof -
  have idx: "exp_index r" using assms(1) by (simp add: reg_inv_def reg_wf_def)
  have "same_rules (open_frame r h) (expire (open_frame r h) h)"
    using expire_steps(1) [of "open_frame r h"] idx by (simp add: reg_steps_same_rules)
  then show ?thesis
    using assms expire_steps(2) [of "open_frame r h"] idx by (force simp: live_def same_rules_def reg_inv_def)
qed

lemma connect_keeps_inv:
  assumes "connect_delta r h observations = Inr (ab, r')" "reg_inv r"
  shows "reg_inv r'"
proof -
  have idx: "exp_index r" and wf: "reg_wf r" using assms(2) by (simp_all add: reg_inv_def reg_wf_def)
  note phases = connect_phases [OF assms(1) idx]
  have h: "unat h = Suc (unat (r_height r))" using assms(1) by (simp add: connect_delta_Inr checked_add_Some)
  have same: "same_rules (open_frame r h) (expire (open_frame r h) h)"
    using phases(1) by (rule reg_steps_same_rules)
  have wf1: "reg_wf (expire (open_frame r h) h)" using phases(1) wf by (metis open_frame_simps(11) reg_steps_wf)
  have "live r'"
    using assms(1) same wf1
    by (intro reg_steps_live [OF phases(2) live_after_expire [OF assms(2) h]])
      (auto simp: reg_wf_def same_rules_def connect_delta_Inr)
  moreover have "reg_wf r'" using phases(2) wf1 by (rule reg_steps_wf)
  moreover have "r_genesis_height r' \<le> r_height r'"
    using phases(3) assms(2) h by (simp add: same_rules_def reg_inv_def word_le_nat_alt)
  ultimately show ?thesis by (simp add: reg_inv_def)
qed

lemma new_registry_inv: "Registry_new t h g = Inr r \<Longrightarrow> reg_inv r"
  by (auto simp: Registry_new_def reg_inv_def reg_wf_def live_def exp_index_def bound_at_def)

end
