(* ===== verification/Registry_Undo.thy ===== *)
theory Registry_Undo
  imports Registry_Inv
begin

section \<open>Undo: disconnecting a block restores the registry\<close>

text \<open>
  The frame a block leaves on \<open>self.undo\<close> records, once per key, the value before the block; every
  key outside the frame still has that value. Each abstract step keeps this relation, so it holds
  between the registry before a block and the registry after it, and restoring the frame gives the
  earlier registry back. The locale states the contract of a chain state that can be rolled back,
  and its consequences for runs of blocks; the registry is an instance.
\<close>

definition frame_of :: "('k \<rightharpoonup> 'v) \<Rightarrow> ('k \<rightharpoonup> 'v) \<Rightarrow> ('k \<times> 'v previous) list \<Rightarrow> bool" where
  "frame_of m0 m ks \<longleftrightarrow> distinct (map fst ks) \<and>
     (\<forall>k p. (k, p) \<in> set ks \<longrightarrow> p = previous_of (m0 k)) \<and> (\<forall>k. k \<notin> fst ` set ks \<longrightarrow> m k = m0 k)"

definition frame_ok :: "registry \<Rightarrow> registry \<Rightarrow> bool" where
  "frame_ok r0 r \<longleftrightarrow> (\<exists>d. r_undo r = r_undo r0 @ [d] \<and>
     frame_of (r_names r0) (r_names r) (d_names d) \<and> frame_of (r_pending r0) (r_pending r) (d_pending d))"

lemma before_previous [simp]: "before_value (previous_of x) = x"
  by (cases x) simp_all

lemma previous_before [simp]: "previous_of (before_value p) = p"
  by (cases p) simp_all

lemma frame_of_Nil [simp]: "frame_of m m []"
  by (simp add: frame_of_def)

lemma frame_of_remember:
  "frame_of m0 m ks \<Longrightarrow> k \<notin> fst ` set ks \<Longrightarrow> frame_of m0 m (ks @ [(k, previous_of (m k))])"
  by (auto simp: frame_of_def)

lemma frame_of_update: "frame_of m0 m ks \<Longrightarrow> k \<in> fst ` set ks \<Longrightarrow> frame_of m0 (m(k := v)) ks"
  by (auto simp: frame_of_def)

lemma frame_of_set:
  "frame_of m0 m ks \<Longrightarrow> frame_of m0 (m(k := v)) (if k \<in> fst ` set ks then ks else ks @ [(k, previous_of (m k))])"
  by (auto intro!: frame_of_update frame_of_remember simp: image_iff)

lemma frame_ok_set_name:
  assumes "frame_ok r0 r" shows "frame_ok r0 (set_name r n s)"
proof -
  obtain d where d: "r_undo r = r_undo r0 @ [d]" "frame_of (r_names r0) (r_names r) (d_names d)"
    "frame_of (r_pending r0) (r_pending r) (d_pending d)" using assms by (auto simp: frame_ok_def)
  then show ?thesis using frame_of_set [OF d(2), of n "Some s"]
    by (cases "n \<in> fst ` set (d_names d)") (simp_all add: frame_ok_def set_name_def remember_name_def)
qed

lemma frame_ok_remember_pending:
  assumes "frame_ok r0 r" shows "frame_ok r0 (remember_pending r t)"
proof -
  obtain d where d: "r_undo r = r_undo r0 @ [d]" "frame_of (r_names r0) (r_names r) (d_names d)"
    "frame_of (r_pending r0) (r_pending r) (d_pending d)" using assms by (auto simp: frame_ok_def)
  then show ?thesis using frame_of_remember [OF d(3), of t]
    by (cases "t \<in> fst ` set (d_pending d)") (simp_all add: frame_ok_def remember_pending_def)
qed

lemma frame_ok_put_pending:
  "frame_ok r0 r \<Longrightarrow> t \<in> fst ` set (d_pending (last (r_undo r))) \<Longrightarrow> frame_ok r0 (put_pending r t rec)"
  using frame_of_update by (fastforce simp: frame_ok_def)

lemma reg_step_frame: "reg_step Ob r r' \<Longrightarrow> frame_ok r0 r \<Longrightarrow> frame_ok r0 r'"
  by (erule reg_step.cases) (simp_all add: insert_pending_def frame_ok_set_name frame_ok_remember_pending frame_ok_put_pending remembered_pending)

lemma reg_steps_frame: "(reg_step Ob)\<^sup>*\<^sup>* r r' \<Longrightarrow> frame_ok r0 r \<Longrightarrow> frame_ok r0 r'"
  by (induction rule: rtranclp_induct) (auto intro: reg_step_frame)

lemma connect_frame:
  assumes "connect_delta r h observations = Inr (ab, r')" "exp_index r"
  shows "frame_ok r r'"
proof -
  have "frame_ok r (open_frame r h)" by (simp add: frame_ok_def)
  then show ?thesis using connect_phases(1,2) [OF assms] by (metis reg_steps_frame)
qed

subsection \<open>Restoring a frame\<close>

definition undo_map :: "('k \<rightharpoonup> 'v) \<Rightarrow> ('k \<times> 'v previous) list \<Rightarrow> ('k \<rightharpoonup> 'v)" where
  "undo_map m ks = foldl (\<lambda>m (k, p). m(k := before_value p)) m ks"

lemma undo_map_apply:
  "distinct (map fst ks) \<Longrightarrow> undo_map m ks k = (case map_of ks k of Some p \<Rightarrow> before_value p | None \<Rightarrow> m k)"
  unfolding undo_map_def
  by (induction ks arbitrary: m) (auto split: option.splits dest: map_of_SomeD simp: rev_image_eqI)

lemma undo_map_frame: "frame_of m0 m ks \<Longrightarrow> undo_map m ks = m0"
  by (rule ext) (fastforce simp: frame_of_def undo_map_apply map_of_eq_None_iff split: option.splits dest: map_of_SomeD)

lemma restore_name_names:
  "r_names (restore_name r e) = (r_names r)(fst e := before_value (snd e))"
  by (auto simp: restore_name_def split: prod.splits previous.splits)

lemma restore_name_keeps:
  "r_pending (restore_name r e) = r_pending r" "r_undo (restore_name r e) = r_undo r"
  "r_genesis (restore_name r e) = r_genesis r" "r_genesis_height (restore_name r e) = r_genesis_height r"
  "r_rules (restore_name r e) = r_rules r" "r_height (restore_name r e) = r_height r"
  by (auto simp: restore_name_def split: prod.splits previous.splits)

lemma restore_name_index: "exp_index r \<Longrightarrow> exp_index (restore_name r e)"
  by (auto simp: restore_name_def exp_index_store exp_index_forget split: prod.splits previous.splits)

lemma restore_names:
  assumes "exp_index r"
  shows "exp_index (foldl restore_name r ks) \<and> r_names (foldl restore_name r ks) = undo_map (r_names r) ks \<and>
    r_pending (foldl restore_name r ks) = r_pending r \<and> r_undo (foldl restore_name r ks) = r_undo r \<and>
    same_rules r (foldl restore_name r ks)"
  using assms
proof (induction ks arbitrary: r)
  case (Cons e ks)
  then show ?case
    using Cons.IH [OF restore_name_index [OF Cons.prems, of e]]
    by (simp add: undo_map_def restore_name_names restore_name_keeps case_prod_beta same_rules_def fun_upd_def)
qed (simp add: undo_map_def)

lemma restore_pendings:
  "foldl restore_pending r ks = r\<lparr>r_pending := undo_map (r_pending r) ks\<rparr>"
  by (induction ks arbitrary: r)
    (auto simp: undo_map_def restore_pending_def put_pending_def split: prod.splits previous.splits)

text \<open>The index of expiries is a function of the names.\<close>

lemma exp_index_unique: "exp_index r \<Longrightarrow> exp_index r' \<Longrightarrow> r_names r = r_names r' \<Longrightarrow> r_expiries r = r_expiries r'"
  by (auto simp: exp_index_def bound_at_def)

lemma disconnect_restores:
  assumes "frame_ok r0 r" "exp_index r0" "exp_index r" "same_rules (open_frame r0 h) r"
    "unat (r_height r) = Suc (unat (r_height r0))"
  shows "disconnect_delta r = Inr (forward_delta r (last (r_undo r)), r0)"
proof -
  obtain d where d: "r_undo r = r_undo r0 @ [d]" "frame_of (r_names r0) (r_names r) (d_names d)"
    "frame_of (r_pending r0) (r_pending r) (d_pending d)" using assms(1) by (auto simp: frame_ok_def)
  let ?r1 = "r\<lparr>r_undo := butlast (r_undo r)\<rparr>"
  let ?r2 = "foldl restore_name ?r1 (d_names d)"
  have "exp_index ?r1" using assms(3) by (simp add: exp_index_def bound_at_def)
  note names = restore_names [OF this, of "d_names d"]
  have "r_names ?r2 = r_names r0" using names d(2) by (simp add: undo_map_frame)
  moreover have "undo_map (r_pending ?r2) (d_pending d) = r_pending r0" using names d(3) by (simp add: undo_map_frame)
  moreover have "r_expiries ?r2 = r_expiries r0" using names assms(2) calculation(1) exp_index_unique by blast
  ultimately have "(foldl restore_pending ?r2 (d_pending d))\<lparr>r_height := r_height r0\<rparr> = r0"
    using names d(1) assms(4) by (simp add: restore_pendings same_rules_def)
  moreover have "checked_sub (r_height r) 1 = Some (r_height r0)"
    using assms(5) by (simp add: checked_sub_Some word_le_nat_alt)
  ultimately show ?thesis using d(1) by (simp add: disconnect_delta_def)
qed

lemma connect_disconnect:
  assumes "connect_delta r h observations = Inr (ab, r')" "reg_inv r"
  shows "disconnect_delta r' = Inr (ab_delta ab, r)"
proof -
  have idx: "exp_index r" using assms(2) by (simp add: reg_inv_def reg_wf_def)
  have idx': "exp_index r'" using connect_keeps_inv [OF assms] by (simp add: reg_inv_def reg_wf_def)
  note same = connect_phases(3) [OF assms(1) idx]
  have "unat (r_height r') = Suc (unat (r_height r))"
    using same assms(1) by (simp add: same_rules_def connect_delta_Inr checked_add_Some)
  then have "disconnect_delta r' = Inr (forward_delta r' (last (r_undo r')), r)"
    by (rule disconnect_restores [OF connect_frame [OF assms(1) idx] idx idx' same])
  then show ?thesis using assms(1) by (metis (no_types, lifting) applied_block.select_convs(2) connect_delta_Inr)
qed

subsection \<open>A chain state that can be rolled back\<close>

fun connect_all :: "('s \<Rightarrow> 'b \<Rightarrow> 'e + 'd \<times> 's) \<Rightarrow> 's \<Rightarrow> 'b list \<Rightarrow> 'e + 'd list \<times> 's" where
  "connect_all f s [] = Inr ([], s)"
| "connect_all f s (b # bs) =
     (case f s b of
        Inl e \<Rightarrow> Inl e
      | Inr (d, s1) \<Rightarrow> (case connect_all f s1 bs of Inl e \<Rightarrow> Inl e | Inr (ds, s2) \<Rightarrow> Inr (d # ds, s2)))"

fun disconnect_n :: "('s \<Rightarrow> 'e + 'd \<times> 's) \<Rightarrow> nat \<Rightarrow> 's \<Rightarrow> 'e + 'd list \<times> 's" where
  "disconnect_n g 0 s = Inr ([], s)"
| "disconnect_n g (Suc k) s =
     (case g s of
        Inl e \<Rightarrow> Inl e
      | Inr (d, s1) \<Rightarrow> (case disconnect_n g k s1 of Inl e \<Rightarrow> Inl e | Inr (ds, s2) \<Rightarrow> Inr (d # ds, s2)))"

lemma connect_all_Cons:
  "connect_all f s (b # bs) = Inr (ds, t) \<longleftrightarrow>
     (\<exists>d s1 ds'. f s b = Inr (d, s1) \<and> connect_all f s1 bs = Inr (ds', t) \<and> ds = d # ds')"
  by (auto split: sum.splits)

lemma connect_all_append:
  "connect_all f s (as @ bs) = Inr (ds, t) \<longleftrightarrow>
     (\<exists>ds1 s1 ds2. connect_all f s as = Inr (ds1, s1) \<and> connect_all f s1 bs = Inr (ds2, t) \<and> ds = ds1 @ ds2)"
proof (induction as arbitrary: s ds)
  case (Cons a as)
  show ?case by (simp only: append_Cons connect_all_Cons Cons.IH) fastforce
qed simp

lemma disconnect_n_append:
  assumes "disconnect_n g k s = Inr (ds, s1)" "g s1 = Inr (d, s2)"
  shows "disconnect_n g (Suc k) s = Inr (ds @ [d], s2)"
  using assms(1)
proof (induction k arbitrary: s ds)
  case (Suc k)
  then obtain a s' ds' where a: "g s = Inr (a, s')" "disconnect_n g k s' = Inr (ds', s1)" "ds = a # ds'"
    by (auto split: sum.splits)
  show ?case unfolding disconnect_n.simps(2) [of g "Suc k"] using Suc.IH [OF a(2)] a by simp
qed (simp add: assms(2))

locale rollback_state =
  fixes inv :: "'s \<Rightarrow> bool"
    and connect_block :: "'s \<Rightarrow> 'b \<Rightarrow> 'e + 'd \<times> 's"
    and disconnect_block :: "'s \<Rightarrow> 'e + 'd \<times> 's"
  assumes connect_inv: "inv s \<Longrightarrow> connect_block s b = Inr (d, s') \<Longrightarrow> inv s'"
    and connect_undo: "inv s \<Longrightarrow> connect_block s b = Inr (d, s') \<Longrightarrow> disconnect_block s' = Inr (d, s)"
begin

lemma connect_all_inv: "inv s \<Longrightarrow> connect_all connect_block s bs = Inr (ds, t) \<Longrightarrow> inv t"
proof (induction bs arbitrary: s ds)
  case (Cons b bs)
  from Cons.prems(2) show ?case unfolding connect_all_Cons using Cons.IH Cons.prems(1) connect_inv by blast
qed simp

lemma roll_back:
  "inv s \<Longrightarrow> connect_all connect_block s bs = Inr (ds, t) \<Longrightarrow>
   disconnect_n disconnect_block (length bs) t = Inr (rev ds, s)"
proof (induction bs arbitrary: s ds)
  case (Cons b bs)
  from Cons.prems(2) obtain d s1 ds' where d: "connect_block s b = Inr (d, s1)"
    "connect_all connect_block s1 bs = Inr (ds', t)" "ds = d # ds'" unfolding connect_all_Cons by blast
  then have "disconnect_n disconnect_block (length bs) t = Inr (rev ds', s1)"
    using Cons.IH Cons.prems(1) connect_inv by blast
  then show ?case using d disconnect_n_append connect_undo Cons.prems(1) by fastforce
qed simp

text \<open>A reorganisation: rolling one branch back and connecting another is connecting the other branch alone.\<close>

lemma reorganise:
  assumes "inv s" "connect_all connect_block s (as @ bs) = Inr (ds, t)"
    "connect_all connect_block s (as @ cs) = Inr (es, u)"
  shows "\<exists>fork. disconnect_n disconnect_block (length bs) t = Inr (rev (drop (length ds - length bs) ds), fork) \<and>
    connect_all connect_block fork cs = Inr (drop (length es - length cs) es, u)"
proof -
  have len: "length ds = length bs" if "connect_all connect_block s bs = Inr (ds, t)" for s bs ds t
    using that by (induction bs arbitrary: s ds) (auto split: sum.splits)
  obtain ds1 fork ds2 es2 where "connect_all connect_block s as = Inr (ds1, fork)"
    "connect_all connect_block fork bs = Inr (ds2, t)" "ds = ds1 @ ds2"
    "connect_all connect_block fork cs = Inr (es2, u)" "es = ds1 @ es2"
    using assms(2,3) by (auto simp: connect_all_append)
  then show ?thesis using roll_back [of fork bs ds2 t] connect_all_inv [OF assms(1)] len by auto
qed

end

text \<open>The registry as such a state: a block is its height with its observations.\<close>

definition connect_at :: "registry \<Rightarrow> u64 \<times> observation list \<Rightarrow> error + block_delta \<times> registry" where
  "connect_at r b = rmap (\<lambda>(ab, r'). (ab_delta ab, r')) (connect_delta r (fst b) (snd b))"

lemma connect_at_Inr: "connect_at r b = Inr (d, r') \<longleftrightarrow>
    (\<exists>ab. connect_delta r (fst b) (snd b) = Inr (ab, r') \<and> d = ab_delta ab)"
  by (cases "connect_delta r (fst b) (snd b)") (auto simp: connect_at_def)

interpretation reg_chain: rollback_state reg_inv connect_at disconnect_delta
  by unfold_locales (auto simp: connect_at_Inr connect_keeps_inv connect_disconnect)

subsection \<open>Everything the engine can reach\<close>

inductive undo_chain :: "registry \<Rightarrow> bool" where
  no_frame: "reg_inv r \<Longrightarrow> r_undo r = [] \<Longrightarrow> undo_chain r"
| frame: "reg_inv r \<Longrightarrow> undo_chain r0 \<Longrightarrow> frame_ok r0 r \<Longrightarrow> same_rules (open_frame r0 (r_height r)) r \<Longrightarrow>
     unat (r_height r) = Suc (unat (r_height r0)) \<Longrightarrow> undo_chain r"

inductive reachable :: "registry \<Rightarrow> bool" where
  created: "Registry_new t h g = Inr r \<Longrightarrow> reachable r"
| connected: "reachable r \<Longrightarrow> connect_delta r h observations = Inr (ab, r') \<Longrightarrow> reachable r'"
| disconnected: "reachable r \<Longrightarrow> disconnect_delta r = Inr (d, r') \<Longrightarrow> reachable r'"
| pruned: "reachable r \<Longrightarrow> reachable (prune r keep)"

lemma undo_chain_inv: "undo_chain r \<Longrightarrow> reg_inv r"
  by (erule undo_chain.cases) simp_all

lemma inv_index: "reg_inv r \<Longrightarrow> exp_index r"
  by (simp add: reg_inv_def reg_wf_def)

lemma undo_chain_connect:
  "undo_chain r \<Longrightarrow> connect_delta r h observations = Inr (ab, r') \<Longrightarrow> undo_chain r'"
  using connect_phases(3) [of r h observations ab r'] connect_frame [of r h observations ab r']
  by (intro undo_chain.frame [of r' r])
    (auto simp: undo_chain_inv inv_index same_rules_def connect_delta_Inr checked_add_Some
      intro: connect_keeps_inv)

lemma undo_chain_disconnect:
  "undo_chain r \<Longrightarrow> r_undo r \<noteq> [] \<Longrightarrow>
   \<exists>r0. disconnect_delta r = Inr (forward_delta r (last (r_undo r)), r0) \<and> undo_chain r0"
  by (erule undo_chain.cases) (auto intro: disconnect_restores undo_chain_inv inv_index)

lemma reg_inv_undo [simp]: "reg_inv (r\<lparr>r_undo := u\<rparr>) = reg_inv r"
  by (simp add: reg_inv_def reg_wf_def live_def exp_index_def bound_at_def)

lemma prune_simps [simp]:
  "r_genesis (prune r k) = r_genesis r" "r_genesis_height (prune r k) = r_genesis_height r"
  "r_rules (prune r k) = r_rules r" "r_height (prune r k) = r_height r"
  "r_names (prune r k) = r_names r" "r_pending (prune r k) = r_pending r"
  "r_expiries (prune r k) = r_expiries r" "reg_inv (prune r k) = reg_inv r"
  by (simp_all add: prune_def)

lemma undo_chain_prune: "undo_chain r \<Longrightarrow> undo_chain (prune r keep)"
proof (induction arbitrary: keep rule: undo_chain.induct)
  case (frame r r0)
  obtain d where d: "r_undo r = r_undo r0 @ [d]" using frame by (auto simp: frame_ok_def)
  show ?case
  proof (cases keep)
    case 0
    then show ?thesis using frame(1) by (auto simp: prune_def intro: undo_chain.no_frame)
  next
    case (Suc k)
    have same: "r_undo (prune r keep) = r_undo (prune r0 k) @ [d]"
      using Suc d by (auto simp: prune_def Suc_diff_le)
    have "frame_ok (prune r0 k) (prune r keep)" using frame.hyps(3) d by (auto simp: frame_ok_def same)
    moreover have "same_rules (open_frame (prune r0 k) (r_height r)) (prune r keep)"
      using frame.hyps(4) by (simp add: same_rules_def same)
    ultimately show ?thesis
      using undo_chain.frame [of "prune r keep" "prune r0 k"] frame.hyps(1,5) frame.IH [of k] by simp
  qed
qed (auto simp: prune_def intro: undo_chain.no_frame)

lemma reachable_chain: "reachable r \<Longrightarrow> undo_chain r"
proof (induction rule: reachable.induct)
  case (created t h g r)
  then show ?case
    by (intro undo_chain.no_frame new_registry_inv) (auto simp: Registry_new_def)
next
  case (disconnected r d r')
  then have "r_undo r \<noteq> []" by (auto simp: disconnect_delta_def)
  then show ?case using disconnected undo_chain_disconnect by fastforce
qed (auto intro: undo_chain_connect undo_chain_prune)

end
