(* ===== verification/Registry_Parts.thy ===== *)
theory Registry_Parts
  imports Registry_Undo
begin

section \<open>Persisting a registry: \<open>from_parts\<close>\<close>

text \<open>
  \<open>from_parts\<close> rebuilds a registry from stored parts, walking the stored block deltas backwards to
  check them against the current values. It accepts what the engine itself produced, pruned or not,
  and gives the same registry back, its expiry index and undo frames included.
\<close>

lemma undo_changes:
  assumes "distinct (map fst ks)" "fst ` set ks \<inter> keys = {}" "\<forall>k \<in> fst ` set ks. m k = after k"
  shows "rfold (undo_change dup mis) (keys, m)
      (map (\<lambda>(k, p). \<lparr>ch_key = k, ch_before = before_value p, ch_after = after k\<rparr>) ks)
    = Inr (keys \<union> fst ` set ks, undo_map m ks)"
  using assms
proof (induction ks arbitrary: keys m)
  case (Cons e ks)
  obtain k p where e: "e = (k, p)" by fastforce
  have "rfold (undo_change dup mis) (insert k keys, m(k := before_value p))
      (map (\<lambda>(k, p). \<lparr>ch_key = k, ch_before = before_value p, ch_after = after k\<rparr>) ks)
    = Inr (insert k keys \<union> fst ` set ks, undo_map (m(k := before_value p)) ks)"
    using Cons.prems e by (intro Cons.IH) auto
  moreover have "undo_change dup mis (keys, m) \<lparr>ch_key = k, ch_before = before_value p, ch_after = after k\<rparr> =
      Inr (insert k keys, m(k := before_value p))"
    using Cons.prems e by (simp add: undo_change_def)
  ultimately show ?case by (simp add: e undo_map_def)
qed (simp add: undo_map_def)

lemma connect_undo_frame:
  assumes "connect_at r b = Inr (d, r')" "reg_inv r" "gh = r_genesis_height r"
  shows "undo_frame gh (r_height r', r_names r', r_pending r') d = Inr (r_height r, r_names r, r_pending r)"
    and "r_undo r' = r_undo r @ [frame_delta d]"
proof -
  obtain ab where ab: "connect_delta r (fst b) (snd b) = Inr (ab, r')" "d = ab_delta ab"
    using assms(1) by (auto simp: connect_at_Inr)
  obtain fr where fr: "r_undo r' = r_undo r @ [fr]" "frame_of (r_names r) (r_names r') (d_names fr)"
    "frame_of (r_pending r) (r_pending r') (d_pending fr)"
    using connect_frame [OF ab(1) inv_index [OF assms(2)]] by (auto simp: frame_ok_def)
  have d: "d = forward_delta r' fr"
    using ab fr(1) by (metis applied_block.select_convs(2) connect_delta_Inr last_snoc)
  have height: "unat (r_height r') = Suc (unat (r_height r))"
    using connect_phases(3) [OF ab(1) inv_index [OF assms(2)]] ab(1)
    by (simp add: same_rules_def connect_delta_Inr checked_add_Some)
  then have "checked_sub (r_height r') 1 = Some (r_height r)" by (simp add: checked_sub_Some word_le_nat_alt)
  then have "r_height r' - 1 = r_height r" by (simp add: checked_sub_def split: if_splits)
  moreover have "gh < r_height r'"
    using height assms(2,3) by (simp add: reg_inv_def word_less_nat_alt word_le_nat_alt)
  ultimately show "undo_frame gh (r_height r', r_names r', r_pending r') d = Inr (r_height r, r_names r, r_pending r)"
    using fr(2,3) undo_changes [of "d_names fr" "{}" "r_names r'" "r_names r'"]
      undo_changes [of "d_pending fr" "{}" "r_pending r'" "r_pending r'"]
    by (simp add: undo_frame_def d forward_delta_def undo_map_frame) (simp add: frame_of_def)
  show "r_undo r' = r_undo r @ [frame_delta d]"
    by (simp add: fr(1) d frame_delta_def forward_delta_def comp_def case_prod_beta)
qed

definition same_identity :: "registry \<Rightarrow> registry \<Rightarrow> bool" where
  "same_identity r r' \<longleftrightarrow> r_genesis r' = r_genesis r \<and> r_genesis_height r' = r_genesis_height r \<and> r_rules r' = r_rules r"

lemma connect_same_identity: "connect_at r b = Inr (d, r') \<Longrightarrow> reg_inv r \<Longrightarrow> same_identity r r'"
  using connect_phases(3) by (fastforce simp: connect_at_Inr same_identity_def same_rules_def dest: inv_index)

lemma connect_all_parts:
  assumes "connect_all connect_at s bs = Inr (ds, t)" "reg_inv s"
  shows "rfold (undo_frame (r_genesis_height s)) (r_height t, r_names t, r_pending t) (rev ds) =
      Inr (r_height s, r_names s, r_pending s) \<and>
    r_undo t = r_undo s @ map frame_delta ds \<and> same_identity s t \<and> r_height s \<le> r_height t"
  using assms
proof (induction bs arbitrary: s ds)
  case (Cons b bs)
  from Cons.prems(1) obtain d s1 ds' where d: "connect_at s b = Inr (d, s1)"
    "connect_all connect_at s1 bs = Inr (ds', t)" "ds = d # ds'" unfolding connect_all_Cons by blast
  note id = connect_same_identity [OF d(1) Cons.prems(2)]
  have "r_height s \<le> r_height s1" using d(1) connect_phases(3) [OF _ inv_index [OF Cons.prems(2)]]
    by (fastforce simp: connect_at_Inr same_rules_def connect_delta_Inr dest: checked_add_Some_less)
  then show ?case
    using Cons.IH [OF d(2) reg_chain.connect_inv [OF Cons.prems(2) d(1)]] connect_undo_frame [OF d(1) Cons.prems(2)] id
    by (auto simp: d(3) rfold_append same_identity_def)
qed (simp add: same_identity_def)

lemma store_names:
  assumes "exp_index r" "distinct (map fst names)"
  shows "exp_index (foldl (\<lambda>r (n, s). store r n s) r names) \<and>
    r_names (foldl (\<lambda>r (n, s). store r n s) r names) = r_names r ++ map_of names \<and>
    r_undo (foldl (\<lambda>r (n, s). store r n s) r names) = r_undo r \<and>
    same_identity r (foldl (\<lambda>r (n, s). store r n s) r names)"
  using assms
proof (induction names arbitrary: r)
  case (Cons e names)
  obtain n s where e: "e = (n, s)" by fastforce
  have "map_of names n = None" using Cons.prems(2) e by (simp add: map_of_eq_None_iff)
  then have "(r_names r)(n \<mapsto> s) ++ map_of names = r_names r ++ (map_of names)(n \<mapsto> s)"
    by (auto simp: map_add_def split: option.splits)
  then show ?case using Cons.IH [OF exp_index_store [OF Cons.prems(1), of n s]] Cons.prems(2)
    by (simp add: e same_identity_def fun_upd_def)
qed (simp add: same_identity_def)

lemma from_parts_pruned:
  assumes new: "Registry_new t gh g = Inr r0" and run: "connect_all connect_at r0 bs = Inr (ds, r)"
    and names: "bt_inv names" "bt_get names = r_names r" and keep: "keep \<le> length ds"
  shows "from_parts t gh g (r_height r) names (r_pending r) (drop (length ds - keep) ds) = Inr (prune r keep)"
proof -
  let ?k = "length ds - keep"
  have r0: "r_genesis r0 = t" "r_genesis_height r0 = gh" "r_rules r0 = g" "r_height r0 = gh" "r_names r0 = Map.empty"
    "r_expiries r0 = {}" "r_undo r0 = []" and inv0: "reg_inv r0"
    using new new_registry_inv by (auto simp: Registry_new_def)
  note whole = connect_all_parts [OF run inv0]
  have "rev ds = rev (drop ?k ds) @ rev (take ?k ds)" by (metis append_take_drop_id rev_append)
  then obtain st where st: "rfold (undo_frame gh) (r_height r, r_names r, r_pending r) (rev (drop ?k ds)) = Inr st"
    using whole r0(2) by (auto simp: rfold_append)
  have "exp_index r0" using inv0 by (rule inv_index)
  note stored = store_names [OF this bt_inv_distinct [OF names(1)]]
  have map: "map_of names = r_names r" using names(2) by (simp add: bt_get_def [abs_def])
  have exps: "r_expiries (foldl (\<lambda>r (n, s). store r n s) r0 names) = r_expiries r"
    using stored map r0(5) reg_chain.connect_all_inv [OF inv0 run] by (intro exp_index_unique) (simp_all add: inv_index)
  have undo: "r_undo (prune r keep) = map frame_delta (drop ?k ds)"
    using whole keep r0(7) by (simp add: prune_def drop_map)
  let ?s = "foldl (\<lambda>r (n, s). store r n s) r0 names"
  have "from_parts t gh g (r_height r) names (r_pending r) (drop ?k ds) =
      Inr (?s\<lparr>r_pending := r_pending r, r_height := r_height r, r_undo := map frame_delta (drop ?k ds)\<rparr>)"
    using new st whole r0(4) by (simp add: from_parts_def map)
  also have "?s\<lparr>r_pending := r_pending r, r_height := r_height r, r_undo := map frame_delta (drop ?k ds)\<rparr> = prune r keep"
    using undo exps stored whole map r0 by (intro registry.equality) (simp_all add: same_identity_def)
  finally show ?thesis .
qed

end
