(* ===== verification/Registry_Safety.thy ===== *)
theory Registry_Safety
  imports Registry_Undo
begin

section \<open>Who may change a binding, who wins a race, and what is reported\<close>

text \<open>
  Consequences of the abstract steps for whole blocks. A binding that does not expire with the block
  keeps its owner, and its target and expiry change only by the owner's own records or by a quorum
  for the owner's pending update. A name that is free goes to the admitted claim with the earliest
  commitment. Every observation of a block is reported once.
\<close>

definition owner_retargets :: "observation set \<Rightarrow> registry \<Rightarrow> name \<Rightarrow> bytes \<Rightarrow> target \<Rightarrow> bool" where
  "owner_retargets Ob r n k t \<longleftrightarrow> g_mode (r_rules r) = Open \<and>
     (\<exists>obs \<in> Ob. \<exists>op. (o_payload obs = Update op \<or> o_payload obs = Renew op) \<and> oo_name op = n \<and>
        admit r obs (oo_registry op) = Admitted \<and> o_author obs = k \<and> t = target_of op)"

text \<open>
  The votes of a block for a pending record are its admitted approvals that name the record by id and
  hash. A record that was pending before the block is approved in it when these votes, with the approvals it
  had, reach the threshold.
\<close>

definition voters :: "observation set \<Rightarrow> registry \<Rightarrow> bytes \<Rightarrow> pending_record \<Rightarrow> bytes set" where
  "voters Ob r t rec = {o_author obs | obs. obs \<in> Ob \<and> (\<exists>a. o_payload obs = Approve a \<and> ap_record_txid a = t \<and>
     ap_record_sha256 a = pr_sha256 rec \<and> admit_approver r obs (ap_registry a) = Admitted)}"

definition approved :: "observation set \<Rightarrow> registry \<Rightarrow> bytes \<Rightarrow> pending_record \<Rightarrow> bool" where
  "approved Ob r t rec \<longleftrightarrow> g_mode (r_rules r) = Administered \<and> r_pending r t = Some rec \<and> \<not> pr_completed rec \<and>
     unat (threshold (r_rules r)) \<le> card (pr_approvals rec \<union> voters Ob r t rec)"

definition quorum_retargets :: "observation set \<Rightarrow> registry \<Rightarrow> name \<Rightarrow> bytes \<Rightarrow> target \<Rightarrow> bool" where
  "quorum_retargets Ob r n k t \<longleftrightarrow>
     (\<exists>txid rec. approved Ob r txid rec \<and> pr_kind rec = UpdateKind \<and> pr_name rec = n \<and> pr_author rec = k \<and>
        t = Publication (pr_target rec))"

definition owner_renews :: "observation set \<Rightarrow> registry \<Rightarrow> name \<Rightarrow> bytes \<Rightarrow> bool" where
  "owner_renews Ob r n k \<longleftrightarrow>
     (\<exists>obs \<in> Ob. \<exists>op. o_payload obs = Renew op \<and> oo_name op = n \<and>
        admit r obs (oo_registry op) = Admitted \<and> o_author obs = k)"

definition kept :: "observation set \<Rightarrow> registry \<Rightarrow> name \<Rightarrow> bound \<Rightarrow> bound \<Rightarrow> bool" where
  "kept Ob r n b b' \<longleftrightarrow> b_owner b' = b_owner b \<and> b_claim_txid b' = b_claim_txid b \<and> b_expiry b \<le> b_expiry b' \<and>
     (b_target b' = b_target b \<or> owner_retargets Ob r n (b_owner b) (b_target b') \<or>
      quorum_retargets Ob r n (b_owner b) (b_target b')) \<and>
     (b_expiry b' = b_expiry b \<or> owner_renews Ob r n (b_owner b))"

lemma owner_retargetsI:
  "g_mode (r_rules r) = Open \<Longrightarrow> obs \<in> Ob \<Longrightarrow> o_payload obs = Update op \<or> o_payload obs = Renew op \<Longrightarrow>
   oo_name op = n \<Longrightarrow> admit r obs (oo_registry op) = Admitted \<Longrightarrow> o_author obs = k \<Longrightarrow>
   owner_retargets Ob r n k (target_of op)"
  by (auto simp: owner_retargets_def)

lemma kept_refl [simp]: "kept Ob r n b b"
  by (simp add: kept_def)

subsection \<open>What a block knows of its start\<close>

text \<open>
  \<open>sound_at Ob A r y\<close>: \<open>y\<close> is a state of a block that began in \<open>r\<close> with observations \<open>Ob\<close>, and a quorum
  of observations in \<open>A\<close> is one for a record that was pending in \<open>r\<close>. A name that was suspended in \<open>r\<close> and is no longer
  had a vote to restore it.
\<close>

definition restored :: "observation set \<Rightarrow> registry \<Rightarrow> name \<Rightarrow> bool" where
  "restored Ob r n \<longleftrightarrow> (\<exists>obs \<in> Ob. \<exists>op. o_payload obs = Restore op \<and> no_name op = n \<and>
     admit_approver r obs (no_registry op) = Admitted)"

definition restores_voted :: "observation set \<Rightarrow> registry \<Rightarrow> registry \<Rightarrow> bool" where
  "restores_voted Ob r y \<longleftrightarrow>
     (\<forall>n. \<not> ns_suspended (state_of (r_names y) n) \<longrightarrow> \<not> ns_suspended (state_of (r_names r) n) \<or> restored Ob r n)"

definition sound_at :: "observation set \<Rightarrow> observation set \<Rightarrow> registry \<Rightarrow> registry \<Rightarrow> bool" where
  "sound_at Ob A r y \<longleftrightarrow> same_rules r y \<and> live y \<and> restores_voted Ob r y \<and>
     (\<forall>obs a rec. obs \<in> A \<and> quorum y obs a rec \<longrightarrow>
        (\<exists>rec0. approved Ob r (ap_record_txid a) rec0 \<and> rec = rec0\<lparr>pr_approvals := pr_approvals rec\<rparr>))"

definition pending_from :: "observation set \<Rightarrow> registry \<Rightarrow> registry \<Rightarrow> bool" where
  "pending_from Ob r y \<longleftrightarrow> (\<forall>t rec. r_pending y t = Some rec \<and> \<not> pr_completed rec \<longrightarrow>
     (\<exists>rec0. r_pending r t = Some rec0 \<and> \<not> pr_completed rec0 \<and> rec = rec0\<lparr>pr_approvals := pr_approvals rec\<rparr> \<and>
        pr_approvals rec \<subseteq> pr_approvals rec0 \<union> voters Ob r t rec0))"

lemma voter_admitted:
  assumes "same_rules r y" "obs \<in> Ob" "o_payload obs = Approve a" "g_mode (r_rules y) = Administered"
    "is_approver (r_rules y) (o_author obs)" "admit y obs (ap_registry a) = Admitted" "pr_sha256 rec = ap_record_sha256 a"
  shows "o_author obs \<in> voters Ob r (ap_record_txid a) rec"
  using assms admit_cong [OF assms(1), of obs "ap_registry a"]
  by (auto simp: voters_def admit_approver_Admitted same_rules_def)

lemma pending_from_step:
  assumes "reg_step (approving Ob) y z" "same_rules r y" "pending_from Ob r y"
  shows "pending_from Ob r z"
  using assms
proof (induction rule: reg_step.induct)
  case (request y obs kind op)
  then show ?case by (auto simp: approving_def)
next
  case (approval y t obs a rec)
  then obtain rec0 where rec0: "r_pending r t = Some rec0" "\<not> pr_completed rec0" "rec = rec0\<lparr>pr_approvals := pr_approvals rec\<rparr>"
    "pr_approvals rec \<subseteq> pr_approvals rec0 \<union> voters Ob r t rec0" unfolding pending_from_def by blast
  have "pr_sha256 rec = pr_sha256 rec0" by (subst rec0(3)) simp
  then have sha: "pr_sha256 rec0 = ap_record_sha256 a" using approval by simp
  have "obs \<in> Ob" using approval by (simp add: approving_def)
  then have "o_author obs \<in> voters Ob r t rec0"
    using voter_admitted [of r y obs Ob a rec0] approval sha by simp
  then have "pr_approvals rec \<union> {o_author obs} \<subseteq> pr_approvals rec0 \<union> voters Ob r t rec0" using rec0(4) by simp
  moreover have "rec\<lparr>pr_approvals := A, pr_completed := False\<rparr> = rec0\<lparr>pr_approvals := A\<rparr>" for A
    using rec0(2,3) by (cases rec0, cases rec) simp
  ultimately show ?case using approval rec0(1,2) by (auto simp: pending_from_def)
qed (simp_all add: pending_from_def)

lemma voters_approvers: "g_mode (r_rules r) = Administered \<Longrightarrow> voters Ob r t rec \<subseteq> set (approvers (r_rules r))"
  by (auto simp: voters_def admit_approver_Admitted is_approver_def)

lemma quorum_approved:
  assumes "same_rules r y" "pending_from Ob r y" "reg_wf r" "obs \<in> Ob" "quorum y obs a rec"
  shows "\<exists>rec0. approved Ob r (ap_record_txid a) rec0 \<and> rec = rec0\<lparr>pr_approvals := pr_approvals rec\<rparr>"
proof -
  let ?t = "ap_record_txid a"
  from assms(5) have q: "g_mode (r_rules y) = Administered" "o_payload obs = Approve a" "is_approver (r_rules y) (o_author obs)"
    "admit y obs (ap_registry a) = Admitted" "r_pending y ?t = Some rec" "pr_sha256 rec = ap_record_sha256 a" "\<not> pr_completed rec"
    "unat (threshold (r_rules y)) \<le> card (insert (o_author obs) (pr_approvals rec))" by (auto simp: quorum_def)
  then obtain rec0 where rec0: "r_pending r ?t = Some rec0" "\<not> pr_completed rec0" "rec = rec0\<lparr>pr_approvals := pr_approvals rec\<rparr>"
    "pr_approvals rec \<subseteq> pr_approvals rec0 \<union> voters Ob r ?t rec0" using assms(2) unfolding pending_from_def by blast
  have mode: "g_mode (r_rules r) = Administered" using q(1) assms(1) by (simp add: same_rules_def)
  have "pr_sha256 rec = pr_sha256 rec0" by (subst rec0(3)) simp
  then have "o_author obs \<in> voters Ob r ?t rec0" using voter_admitted [OF assms(1,4) q(2,1,3,4)] q(6) by simp
  then have sub: "insert (o_author obs) (pr_approvals rec) \<subseteq> pr_approvals rec0 \<union> voters Ob r ?t rec0" using rec0(4) by simp
  have "pr_approvals rec0 \<subseteq> set (approvers (r_rules r))" using rec0(1) assms(3) by (auto simp: reg_wf_def pending_wf_def)
  then have "finite (pr_approvals rec0 \<union> voters Ob r ?t rec0)"
    using voters_approvers [OF mode, of Ob ?t rec0] by (meson List.finite_set finite_UnI finite_subset)
  from card_mono [OF this sub] have "approved Ob r ?t rec0"
    using q(8) mode rec0(1,2) assms(1) by (simp add: approved_def same_rules_def)
  with rec0(3) show ?thesis by blast
qed

lemma restores_step:
  assumes "reg_step Ob' y z" "Ob' \<subseteq> Ob" "same_rules r y" "restores_voted Ob r y"
  shows "restores_voted Ob r z"
  using assms
proof (induction rule: reg_step.induct)
  case (ballot y obs v susp op n s s')
  have "restored Ob r n" if "\<not> susp"
    using that ballot admit_cong [OF ballot.prems(2), of obs "no_registry op"]
    by (auto simp: restored_def admit_approver_Admitted same_rules_def)
  moreover have "\<not> ns_suspended (state_of (r_names r) n) \<or> restored Ob r n" if "susp"
    using that ballot(9,11) ballot.prems(3) unfolding restores_voted_def by blast
  ultimately have "\<not> ns_suspended (state_of (r_names r) n) \<or> restored Ob r n" by blast
  with ballot.prems(3) show ?case by (auto simp: restores_voted_def state_of_upd)
qed (auto simp: restores_voted_def state_of_upd)

text \<open>Both phases of a block are sound: the first tracks the votes, the second has no approvals.\<close>

lemma approving_sound:
  assumes "(reg_step (approving Ob))\<^sup>*\<^sup>* r y" "live r" "reg_wf r" "\<forall>obs \<in> Ob. o_height obs = r_height r"
  shows "sound_at Ob (approving Ob) r y"
proof -
  have same: "same_rules r y" using assms(1) by (rule reg_steps_same_rules)
  have sub: "approving Ob \<subseteq> Ob" by (auto simp: approving_def)
  have live: "live y" using reg_steps_live [OF assms(1,2)] assms(3,4) sub by (auto simp: reg_wf_def)
  have "pending_from Ob r y \<and> restores_voted Ob r y" using assms(1)
  proof (induction rule: rtranclp_induct)
    case base
    have "rec = rec\<lparr>pr_approvals := pr_approvals rec\<rparr>" for rec by simp
    then show ?case by (auto simp: pending_from_def restores_voted_def)
  next
    case (step y z)
    then show ?case using pending_from_step restores_step [OF _ sub] reg_steps_same_rules by blast
  qed
  then show ?thesis
    using same live sub quorum_approved [OF same _ assms(3)] by (auto simp: sound_at_def)
qed

lemma owning_sound:
  assumes "(reg_step (owning Ob))\<^sup>*\<^sup>* y z" "sound_at Ob A r y" "Genesis_validate (r_rules r) = Inr ()"
    "\<forall>obs \<in> Ob. o_height obs = r_height r"
  shows "sound_at Ob (owning Ob) r z"
proof -
  have y: "same_rules r y" "live y" "restores_voted Ob r y" using assms(2) by (simp_all add: sound_at_def)
  have sub: "owning Ob \<subseteq> Ob" by (auto simp: owning_def)
  have "same_rules r z" using y(1) reg_steps_same_rules [OF assms(1)] by (rule same_rules_trans)
  moreover have "live z" using reg_steps_live [OF assms(1) y(2)] assms(3,4) sub y(1) by (auto simp: same_rules_def)
  moreover have "restores_voted Ob r z" using assms(1)
  proof (induction rule: rtranclp_induct)
    case (step x z)
    then show ?case using restores_step [OF _ sub] same_rules_trans [OF y(1) reg_steps_same_rules] by blast
  qed (rule y(3))
  moreover have "\<not> (obs \<in> owning Ob \<and> quorum z obs a rec)" for obs a rec by (auto simp: owning_def quorum_def)
  ultimately show ?thesis unfolding sound_at_def by blast
qed

subsection \<open>A binding that stays\<close>

lemma approved_same:
  "rec = rec0\<lparr>pr_approvals := A\<rparr> \<Longrightarrow>
     pr_kind rec0 = pr_kind rec \<and> pr_name rec0 = pr_name rec \<and> pr_author rec0 = pr_author rec \<and> pr_target rec0 = pr_target rec"
  by simp

lemma reg_step_kept:
  assumes "reg_step A y z" "A \<subseteq> Ob" "sound_at Ob A r y" "Genesis_validate (r_rules y) = Inr ()"
    "\<forall>obs \<in> A. o_height obs = r_height y" "bound_at y n b1" "kept Ob r n b b1"
  shows "\<exists>b2. bound_at z n b2 \<and> kept Ob r n b b2"
  using assms
proof (induction rule: reg_step.induct)
  case (expiry y m c)
  then have "m \<noteq> n" unfolding sound_at_def live_def by (metis leD)
  with expiry show ?case by (auto simp: bound_at_set_name)
next
  case (claim y m obs op e)
  then have "m \<noteq> n" by (auto simp: bound_at_def)
  with claim show ?case by (auto simp: bound_at_set_name)
next
  case (grant y obs a rec m e)
  then have "m \<noteq> n" by (auto simp: bound_at_def)
  with grant show ?case by (auto simp: bound_at_set_name)
next
  case (regrant y obs a rec m c)
  show ?case
  proof (cases "m = n")
    case True
    then have c: "c = b1" using regrant bound_at_unique by blast
    obtain rec0 where rec0: "approved Ob r (ap_record_txid a) rec0" "rec = rec0\<lparr>pr_approvals := pr_approvals rec\<rparr>"
      using regrant(2,3) regrant.prems(2) unfolding sound_at_def by blast
    then have "pr_kind rec0 = pr_kind rec" "pr_name rec0 = pr_name rec" "pr_author rec0 = pr_author rec" "pr_target rec0 = pr_target rec"
      using approved_same [OF rec0(2)] by simp_all
    then have "quorum_retargets Ob r n (b_owner b1) (Publication (pr_target rec))"
      unfolding quorum_retargets_def using rec0(1) regrant True c by metis
    then show ?thesis using True regrant c by (simp add: bound_at_set_name kept_def)
  qed (use regrant in \<open>auto simp: bound_at_set_name\<close>)
next
  case (retarget y obs op m c)
  have same: "same_rules r y" using retarget by (simp add: sound_at_def)
  show ?case
  proof (cases "m = n")
    case True
    then have "c = b1" using retarget bound_at_unique by blast
    moreover have "owner_retargets Ob r n (b_owner b1) (target_of op)"
      using retarget True \<open>c = b1\<close> same admit_cong [OF same, of obs "oo_registry op"]
      by (intro owner_retargetsI [of _ obs]) (auto simp: same_rules_def)
    ultimately show ?thesis using True retarget by (simp add: bound_at_set_name kept_def)
  qed (use retarget in \<open>auto simp: bound_at_set_name\<close>)
next
  case (renewal y obs op m c t e)
  have same: "same_rules r y" and live: "live y" using renewal by (simp_all add: sound_at_def)
  show ?case
  proof (cases "m = n")
    case True
    then have c: "c = b1" using renewal bound_at_unique by blast
    have admitted: "admit r obs (oo_registry op) = Admitted"
      using renewal(5) admit_cong [OF same, of obs "oo_registry op"] by simp
    have obs: "obs \<in> Ob" using renewal by blast
    then have "owner_renews Ob r n (b_owner b1)"
      unfolding owner_renews_def using renewal(2-4,7) True c admitted by auto
    moreover have "t = b_target b1 \<or> owner_retargets Ob r n (b_owner b1) t"
      using renewal(3,4,7,8) obs True c same admitted
      by (auto intro!: owner_retargetsI [of _ obs] simp: same_rules_def)
    moreover have "b_expiry b1 \<le> e"
      using expiry_after_bounds(2) [OF renewal(9)] renewal live by (auto simp: live_def word_le_nat_alt)
    ultimately show ?thesis using True renewal c by (auto simp: bound_at_set_name kept_def)
  qed (use renewal in \<open>auto simp: bound_at_set_name\<close>)
next
  case (ballot y obs v susp op m s s')
  then have "ns_binding s' = ns_binding (state_of (r_names y) m)" by simp
  then have "bound_at (set_name y m s') n b1"
    using ballot.prems(5) unfolding bound_at_set_name by (auto simp: bound_at_def)
  with ballot.prems(6) show ?case by blast
qed (auto simp: bound_at_def)

lemma reg_steps_kept:
  assumes "(reg_step A)\<^sup>*\<^sup>* y z" "A \<subseteq> Ob" "\<And>x. (reg_step A)\<^sup>*\<^sup>* y x \<Longrightarrow> sound_at Ob A r x" "Genesis_validate (r_rules r) = Inr ()"
    "\<forall>obs \<in> A. o_height obs = r_height r" "bound_at y n b1" "kept Ob r n b b1"
  shows "\<exists>b2. bound_at z n b2 \<and> kept Ob r n b b2"
  using assms(1)
proof (induction rule: rtranclp_induct)
  case base
  then show ?case using assms(6,7) by blast
next
  case (step x z)
  note sound = assms(3) [OF step(1)]
  then have "same_rules r x" by (simp add: sound_at_def)
  then show ?case using step reg_step_kept [OF step(2) assms(2) sound] assms(4,5) by (auto simp: same_rules_def)
qed

subsection \<open>A binding that is new\<close>

definition race_binding :: "observation \<Rightarrow> owner_op \<Rightarrow> u64 \<Rightarrow> bound" where
  "race_binding obs op e = \<lparr>b_owner = o_author obs, b_target = target_of op, b_expiry = e,
     b_claim_txid = o_txid obs, b_last_txid = o_txid obs\<rparr>"

definition claimed_binding :: "observation set \<Rightarrow> registry \<Rightarrow> name \<Rightarrow> bound \<Rightarrow> bool" where
  "claimed_binding Ob r n b \<longleftrightarrow> g_mode (r_rules r) = Open \<and>
     (\<exists>obs \<in> Ob. \<exists>op e. o_payload obs = Claim op \<and> oo_name op = n \<and> admit r obs (oo_registry op) = Admitted \<and>
        expiry_after r (o_height obs) = Some e \<and> b = race_binding obs op e)"

definition granted_binding :: "observation set \<Rightarrow> registry \<Rightarrow> name \<Rightarrow> bound \<Rightarrow> bool" where
  "granted_binding Ob r n b \<longleftrightarrow> (\<not> ns_suspended (state_of (r_names r) n) \<or> restored Ob r n) \<and>
     (\<exists>obs \<in> Ob. \<exists>a rec e. o_payload obs = Approve a \<and> approved Ob r (ap_record_txid a) rec \<and> pr_kind rec = Request \<and>
        pr_name rec = n \<and> expiry_after r (o_height obs) = Some e \<and>
        b = \<lparr>b_owner = pr_author rec, b_target = Publication (pr_target rec), b_expiry = e,
             b_claim_txid = ap_record_txid a, b_last_txid = o_txid obs\<rparr>)"

lemma reg_step_binds:
  assumes "reg_step A y z" "A \<subseteq> Ob" "sound_at Ob A r y" "\<not> (\<exists>b. bound_at y n b)" "bound_at z n b"
  shows "claimed_binding Ob r n b \<or> granted_binding Ob r n b"
  using assms
proof (induction rule: reg_step.induct)
  case (claim y m obs op e)
  then have same: "same_rules r y" by (simp add: sound_at_def)
  have "m = n" using claim.prems(3,4) by (auto simp: bound_at_set_name split: if_splits)
  then have "claimed_binding Ob r n b"
    unfolding claimed_binding_def race_binding_def
    using claim admit_cong [OF same, of obs "oo_registry op"] expiry_after_cong [OF same] same
    by (auto simp: bound_at_set_name same_rules_def)
  then show ?case by blast
next
  case (grant y obs a rec m e)
  then have same: "same_rules r y" and voted: "restores_voted Ob r y" by (simp_all add: sound_at_def)
  have m: "m = n" using grant.prems(3,4) by (auto simp: bound_at_set_name split: if_splits)
  obtain rec0 where rec0: "approved Ob r (ap_record_txid a) rec0" "rec = rec0\<lparr>pr_approvals := pr_approvals rec\<rparr>"
    using grant(2,3) grant.prems(2) unfolding sound_at_def by blast
  note fields = approved_same [OF rec0(2)]
  have "\<not> ns_suspended (state_of (r_names r) n) \<or> restored Ob r n" using voted grant(6) m unfolding restores_voted_def by blast
  moreover have "o_payload obs = Approve a" using grant(3) by (simp add: quorum_def)
  moreover have "obs \<in> Ob" using grant by blast
  ultimately have "granted_binding Ob r n b"
    unfolding granted_binding_def
    using grant(4,5,8) grant.prems(4) m rec0(1) fields expiry_after_cong [OF same]
    by (intro conjI bexI [of _ obs] exI [of _ a] exI [of _ rec0] exI [of _ e]) (simp_all add: bound_at_set_name)
  then show ?case by blast
next
  case (ballot y obs v susp op m s s')
  then have "ns_binding s' = ns_binding (state_of (r_names y) m)" by simp
  then have "bound_at y n b"
    using ballot.prems(4) unfolding bound_at_set_name by (auto simp: bound_at_def split: if_splits)
  with ballot.prems(3) show ?case by blast
qed (auto simp: bound_at_set_name split: if_splits, auto simp: bound_at_def)

definition has_origin :: "observation set \<Rightarrow> registry \<Rightarrow> name \<Rightarrow> bound \<Rightarrow> bool" where
  "has_origin Ob r n b \<longleftrightarrow> (\<exists>b0. (claimed_binding Ob r n b0 \<or> granted_binding Ob r n b0) \<and> kept Ob r n b0 b)"

lemma reg_steps_origin:
  assumes "(reg_step A)\<^sup>*\<^sup>* y z" "A \<subseteq> Ob" "\<And>x. (reg_step A)\<^sup>*\<^sup>* y x \<Longrightarrow> sound_at Ob A r x" "Genesis_validate (r_rules r) = Inr ()"
    "\<forall>obs \<in> A. o_height obs = r_height r" "\<forall>b. bound_at y n b \<longrightarrow> has_origin Ob r n b"
  shows "\<forall>b. bound_at z n b \<longrightarrow> has_origin Ob r n b"
  using assms(1)
proof (induction rule: rtranclp_induct)
  case base
  then show ?case using assms(6) by blast
next
  case (step x z)
  note sound = assms(3) [OF step(1)]
  then have same: "same_rules r x" by (simp add: sound_at_def)
  show ?case
  proof (cases "\<exists>b. bound_at x n b")
    case True
    then obtain b1 b0 where b: "bound_at x n b1" "claimed_binding Ob r n b0 \<or> granted_binding Ob r n b0" "kept Ob r n b0 b1"
      using step.IH unfolding has_origin_def by blast
    have "Genesis_validate (r_rules x) = Inr ()" "\<forall>obs \<in> A. o_height obs = r_height x"
      using same assms(4,5) by (simp_all add: same_rules_def)
    from reg_step_kept [OF step(2) assms(2) sound this b(1,3)] obtain b2 where "bound_at z n b2" "kept Ob r n b0 b2" by blast
    then show ?thesis using b(2) bound_at_unique unfolding has_origin_def by blast
  next
    case False
    then show ?thesis
      using reg_step_binds [OF step(2) assms(2) sound False] kept_refl unfolding has_origin_def by blast
  qed
qed

text \<open>Expiry leaves alone what these statements say of the registry before the block.\<close>

definition same_start :: "registry \<Rightarrow> registry \<Rightarrow> bool" where
  "same_start r r1 \<longleftrightarrow> r_genesis r1 = r_genesis r \<and> r_genesis_height r1 = r_genesis_height r \<and> r_rules r1 = r_rules r \<and>
     r_pending r1 = r_pending r \<and> (\<forall>n. ns_suspended (state_of (r_names r1) n) = ns_suspended (state_of (r_names r) n))"

lemma expire_entry_start: "same_start r (expire_entry r e)"
  by (auto simp: same_start_def expire_entry_def Let_def state_of_upd split: prod.splits binding.splits)

lemma expire_start: "same_start r (expire (open_frame r h) h)"
proof -
  have "same_start r (foldl expire_entry y es)" if "same_start r y" for y es
    using that
  proof (induction es arbitrary: y)
    case (Cons e es)
    then show ?case using expire_entry_start [of y e] by (simp add: same_start_def)
  qed simp
  moreover have "same_start r (open_frame r h)" by (simp add: same_start_def open_frame_def)
  ultimately show ?thesis unfolding expire_def by blast
qed

lemma admit_start: "same_start r r1 \<Longrightarrow> admit r1 obs reg = admit r obs reg"
  by (auto simp: admit_def same_start_def split: option.splits)

lemma admit_approver_start: "same_start r r1 \<Longrightarrow> admit_approver r1 obs reg = admit_approver r obs reg"
  using admit_start [of r r1 obs reg] by (simp add: admit_approver_def same_start_def)

lemma approved_start: "same_start r r1 \<Longrightarrow> approved Ob r1 t rec = approved Ob r t rec"
  by (simp add: approved_def voters_def admit_approver_start) (simp add: same_start_def)

lemma kept_start: "same_start r r1 \<Longrightarrow> kept Ob r1 n b b' = kept Ob r n b b'"
  by (simp add: kept_def owner_retargets_def quorum_retargets_def owner_renews_def approved_start admit_start)
    (simp add: same_start_def)

lemma origin_start: "same_start r r1 \<Longrightarrow> has_origin Ob r1 n b = has_origin Ob r n b"
  by (simp add: has_origin_def claimed_binding_def granted_binding_def restored_def kept_start approved_start admit_start admit_approver_start)
    (simp add: same_start_def expiry_after_def)

text \<open>The state of the registry when the records of a block are applied.\<close>

lemma expired_registry:
  assumes "connect_delta r h observations = Inr (ab, r')" "reg_inv r"
  defines "r1 \<equiv> expire (open_frame r h) h"
  shows "live r1" "Genesis_validate (r_rules r1) = Inr ()" "r_height r1 = h" "r_rules r1 = r_rules r"
    "\<forall>obs \<in> set observations. o_height obs = r_height r1" "bound_at r1 n b \<longleftrightarrow> bound_at r n b \<and> h < b_expiry b"
    "same_rules (open_frame r h) r1"
proof -
  have idx: "exp_index r" using assms(2) by (rule inv_index)
  have "unat h = Suc (unat (r_height r))" using assms(1) by (simp add: connect_delta_Inr checked_add_Some)
  with assms(2) show "live r1" unfolding r1_def by (rule live_after_expire)
  show same: "same_rules (open_frame r h) r1"
    unfolding r1_def using connect_phases(1) [OF assms(1) idx] by (rule reg_steps_same_rules)
  then show "r_height r1 = h" "r_rules r1 = r_rules r" by (simp_all add: same_rules_def)
  with assms(1,2) show "Genesis_validate (r_rules r1) = Inr ()" "\<forall>obs \<in> set observations. o_height obs = r_height r1"
    by (simp_all add: connect_delta_Inr reg_inv_def reg_wf_def)
  show "bound_at r1 n b \<longleftrightarrow> bound_at r n b \<and> h < b_expiry b"
    unfolding r1_def using expire_steps(2) [of "open_frame r h"] idx by simp
qed

lemma connect_sound_phases:
  assumes "connect_delta r h observations = Inr (ab, r')" "reg_inv r"
  defines "r1 \<equiv> expire (open_frame r h) h"
  obtains rm where "(reg_step (approving (set observations)))\<^sup>*\<^sup>* r1 rm" "(reg_step (owning (set observations)))\<^sup>*\<^sup>* rm r'"
    "\<And>x. (reg_step (approving (set observations)))\<^sup>*\<^sup>* r1 x \<Longrightarrow> sound_at (set observations) (approving (set observations)) r1 x"
    "\<And>x. (reg_step (owning (set observations)))\<^sup>*\<^sup>* rm x \<Longrightarrow> sound_at (set observations) (owning (set observations)) r1 x"
proof -
  note r1 = expired_registry [OF assms(1,2), folded r1_def]
  have idx: "exp_index r" using assms(2) by (rule inv_index)
  have wf: "reg_wf r1"
    unfolding r1_def using reg_steps_wf [OF connect_phases(1) [OF assms(1) idx, of "{}"]] assms(2) by (simp add: reg_inv_def)
  have "r_undo r1 \<noteq> []" using r1(7) by (simp add: same_rules_def)
  moreover have "fst (apply_block r1 (block_order observations)) = r'" using assms(1) by (simp add: connect_delta_Inr r1_def)
  moreover have "set (block_order observations) \<subseteq> set observations" by (simp add: block_order_def)
  ultimately obtain rm where rm: "(reg_step (approving (set observations)))\<^sup>*\<^sup>* r1 rm" "(reg_step (owning (set observations)))\<^sup>*\<^sup>* rm r'"
    using apply_block_phases by metis
  note first = approving_sound [OF _ r1(1) wf r1(5)]
  show thesis by (rule that [OF rm first owning_sound [OF _ first [OF rm(1)] r1(2,5)]])
qed

lemma connect_keeps_binding:
  assumes "connect_delta r h observations = Inr (ab, r')" "reg_inv r" "bound_at r n b" "h < b_expiry b"
  shows "\<exists>b'. bound_at r' n b' \<and> kept (set observations) r n b b'"
proof -
  let ?r1 = "expire (open_frame r h) h" and ?Ob = "set observations"
  note r1 = expired_registry [OF assms(1,2)]
  have sub: "approving ?Ob \<subseteq> ?Ob" "owning ?Ob \<subseteq> ?Ob" by (auto simp: approving_def owning_def)
  obtain rm where p: "(reg_step (approving ?Ob))\<^sup>*\<^sup>* ?r1 rm" "(reg_step (owning ?Ob))\<^sup>*\<^sup>* rm r'"
    "\<And>x. (reg_step (approving ?Ob))\<^sup>*\<^sup>* ?r1 x \<Longrightarrow> sound_at ?Ob (approving ?Ob) ?r1 x"
    "\<And>x. (reg_step (owning ?Ob))\<^sup>*\<^sup>* rm x \<Longrightarrow> sound_at ?Ob (owning ?Ob) ?r1 x"
    by (rule connect_sound_phases [OF assms(1,2)]) blast
  have heights: "\<forall>obs \<in> approving ?Ob. o_height obs = r_height ?r1" "\<forall>obs \<in> owning ?Ob. o_height obs = r_height ?r1"
    using r1(5) sub by blast+
  have "bound_at ?r1 n b" using r1(6) assms(3,4) by blast
  from reg_steps_kept [OF p(1) sub(1) p(3) r1(2) heights(1) this kept_refl] obtain b1 where
    "bound_at rm n b1" "kept ?Ob ?r1 n b b1" by blast
  from reg_steps_kept [OF p(2) sub(2) p(4) r1(2) heights(2) this] show ?thesis
    by (simp add: kept_start [OF expire_start])
qed

lemma connect_origin:
  assumes "connect_delta r h observations = Inr (ab, r')" "reg_inv r" "\<forall>b. bound_at r n b \<longrightarrow> b_expiry b \<le> h" "bound_at r' n b"
  shows "has_origin (set observations) r n b"
proof -
  let ?r1 = "expire (open_frame r h) h" and ?Ob = "set observations"
  note r1 = expired_registry [OF assms(1,2)]
  have sub: "approving ?Ob \<subseteq> ?Ob" "owning ?Ob \<subseteq> ?Ob" by (auto simp: approving_def owning_def)
  obtain rm where p: "(reg_step (approving ?Ob))\<^sup>*\<^sup>* ?r1 rm" "(reg_step (owning ?Ob))\<^sup>*\<^sup>* rm r'"
    "\<And>x. (reg_step (approving ?Ob))\<^sup>*\<^sup>* ?r1 x \<Longrightarrow> sound_at ?Ob (approving ?Ob) ?r1 x"
    "\<And>x. (reg_step (owning ?Ob))\<^sup>*\<^sup>* rm x \<Longrightarrow> sound_at ?Ob (owning ?Ob) ?r1 x"
    by (rule connect_sound_phases [OF assms(1,2)]) blast
  have heights: "\<forall>obs \<in> approving ?Ob. o_height obs = r_height ?r1" "\<forall>obs \<in> owning ?Ob. o_height obs = r_height ?r1"
    using r1(5) sub by blast+
  have "\<forall>b. bound_at ?r1 n b \<longrightarrow> has_origin ?Ob ?r1 n b" using r1(6) assms(3) by (meson leD)
  from reg_steps_origin [OF p(1) sub(1) p(3) r1(2) heights(1) this]
  have "\<forall>b. bound_at rm n b \<longrightarrow> has_origin ?Ob ?r1 n b" .
  from reg_steps_origin [OF p(2) sub(2) p(4) r1(2) heights(2) this] assms(4) show ?thesis
    by (simp add: origin_start [OF expire_start])
qed

lemma connect_expires:
  assumes "connect_delta r h observations = Inr (ab, r')" "reg_inv r" "bound_at r' n b'" "r_height r' = h"
  shows "h < b_expiry b'"
  using connect_keeps_inv [OF assms(1,2)] assms(3,4) by (auto simp: reg_inv_def live_def)

subsection \<open>The claim race\<close>

definition contenders :: "registry \<Rightarrow> observation list \<Rightarrow> nat \<Rightarrow> name \<Rightarrow> nat list option" where
  "contenders r obss k n =
     (if ns_binding (state_of (r_names r) n) = Unbound \<and> (\<exists>i < k. claimant r obss n i)
      then Some (filter (claimant r obss n) [0..<k]) else None)"

lemma contenders_Suc:
  "contenders r obss (Suc k) n =
     (if ns_binding (state_of (r_names r) n) = Unbound \<and> claimant r obss n k
      then Some ((case contenders r obss k n of None \<Rightarrow> [] | Some is \<Rightarrow> is) @ [k])
      else contenders r obss k n)"
proof -
  have "filter (claimant r obss n) [0..<k] = []" if "\<not> (\<exists>i < k. claimant r obss n i)"
    using that by (simp add: filter_empty_conv)
  then show ?thesis by (auto simp: contenders_def less_Suc_eq)
qed

lemma claimant_iff:
  assumes "k < length obss"
  shows "claimant r obss n k \<longleftrightarrow>
    (case o_payload (obss ! k) of
       Claim op \<Rightarrow> oo_name op = n \<and> admit r (obss ! k) (oo_registry op) = Admitted | _ \<Rightarrow> False)"
  using assms by (auto simp: claimant_def split: payload.splits)

lemma candidates_exact:
  "k \<le> length obss \<Longrightarrow>
   bt_get (fst (foldl (candidate_step r obss) ([], out) [0..<k])) = contenders r obss k"
proof (induction k)
  case (Suc k)
  obtain cands out1 where st: "foldl (candidate_step r obss) ([], out) [0..<k] = (cands, out1)" by fastforce
  have inv: "bt_inv cands" using candidates_ok [of k obss r out] Suc.prems st by (simp add: cands_ok_def)
  have IH: "bt_get cands = contenders r obss k" using Suc st by simp
  have "bt_get (fst (candidate_step r obss (cands, out1) k)) n = contenders r obss (Suc k) n" for n
    using Suc.prems
    by (auto simp: candidate_step_def contenders_Suc claimant_iff IH [symmetric] bt_get_insert [OF inv] Let_def
        split: payload.splits admission.splits binding.splits option.splits)
  then show ?case by (simp add: st fun_eq_iff)
qed (simp add: bt_get_def contenders_def fun_eq_iff)

text \<open>One race: the winner is the first contender with the least commitment.\<close>

definition race_winner :: "observation list \<Rightarrow> nat list \<Rightarrow> nat" where
  "race_winner obss is = arg_min_list (\<lambda>i. commit_key (obss ! i)) is"

lemma race_winner_least:
  assumes "is \<noteq> []"
  shows "race_winner obss is \<in> set is"
    and "i \<in> set is \<Longrightarrow> commit_key (obss ! race_winner obss is) \<le> commit_key (obss ! i)"
proof -
  show "race_winner obss is \<in> set is" unfolding race_winner_def using assms by (rule arg_min_list_in)
  show "i \<in> set is \<Longrightarrow> commit_key (obss ! race_winner obss is) \<le> commit_key (obss ! i)"
    unfolding race_winner_def f_arg_min_list_f [OF assms, of "\<lambda>i. commit_key (obss ! i)"] by simp
qed

lemma assign_race:
  assumes "racers r obss (n, is)" "\<forall>i \<in> set is. expiry_after r (o_height (obss ! i)) = Some e"
  shows "\<exists>op. o_payload (obss ! race_winner obss is) = Claim op \<and>
    assign obss (r, out) (n, is) =
      (set_name r n ((state_of (r_names r) n)\<lparr>ns_binding := Bound (race_binding (obss ! race_winner obss is) op e)\<rparr>),
       out @ map (\<lambda>i. Outcome_new (obss ! i) (if i = race_winner obss is then Applied else Inert LostRace)) is)"
proof -
  have ne: "is \<noteq> []" using assms(1) by (simp add: racers_def)
  note w = race_winner_least(1) [OF ne, of obss]
  then obtain op where "o_payload (obss ! race_winner obss is) = Claim op"
    using assms(1) by (auto simp: racers_def claimant_def)
  then show ?thesis using w assms(2) ne
    by (simp add: assign_def race_winner_def race_binding_def Let_def)
qed

lemma fold_assign_names:
  "n \<notin> fst ` set cands \<Longrightarrow> r_names (fst (foldl (assign obss) (r, out) cands)) n = r_names r n"
proof (induction cands arbitrary: r out)
  case (Cons e cands)
  obtain r1 out1 where "assign obss (r, out) e = (r1, out1)" by fastforce
  then show ?case using Cons assign_other_names [of n e obss r out] by simp
qed simp

lemma assign_extends: "\<exists>more. snd (assign obss (r, out) e) = out @ more"
  by (cases e) (auto simp: assign_def Let_def split: payload.splits option.splits)

lemma fold_assign_extends: "\<exists>more. snd (foldl (assign obss) (r, out) cands) = out @ more"
proof (induction cands arbitrary: r out)
  case (Cons e cands)
  obtain r1 out1 where a: "assign obss (r, out) e = (r1, out1)" by fastforce
  then show ?case using Cons [of r1 out1] assign_extends [of obss r out e] by auto
qed simp

text \<open>All races: an entry is decided on the registry before the races, whatever the other entries do.\<close>

lemma fold_assign_race:
  assumes "r_undo r \<noteq> []" "g_mode (r_rules r) = Open" "distinct (map fst cands)"
    "\<forall>c \<in> set cands. racers r obss c" "(n, is) \<in> set cands"
    "\<forall>i \<in> set is. expiry_after r (o_height (obss ! i)) = Some e"
  shows "\<exists>op. o_payload (obss ! race_winner obss is) = Claim op \<and>
    bound_at (fst (foldl (assign obss) (r, out) cands)) n (race_binding (obss ! race_winner obss is) op e) \<and>
    (\<forall>i \<in> set is. Outcome_new (obss ! i) (if i = race_winner obss is then Applied else Inert LostRace)
       \<in> set (snd (foldl (assign obss) (r, out) cands)))"
  using assms
proof (induction cands arbitrary: r out)
  case (Cons c cands)
  obtain r1 out1 where a: "assign obss (r, out) c = (r1, out1)" by fastforce
  have steps: "(reg_step (set obss))\<^sup>*\<^sup>* r r1" using assign_steps [of r obss "set obss" c out] Cons.prems a by simp
  note same = reg_steps_same_rules [OF steps]
  show ?case
  proof (cases "c = (n, is)")
    case True
    then obtain op where op: "o_payload (obss ! race_winner obss is) = Claim op"
      "r1 = set_name r n ((state_of (r_names r) n)\<lparr>ns_binding := Bound (race_binding (obss ! race_winner obss is) op e)\<rparr>)"
      "out1 = out @ map (\<lambda>i. Outcome_new (obss ! i) (if i = race_winner obss is then Applied else Inert LostRace)) is"
      using assign_race [of r obss n "is" e out] Cons.prems(4,6) a by auto
    have "n \<notin> fst ` set cands" using Cons.prems(3) True by simp
    then have "bound_at (fst (foldl (assign obss) (r1, out1) cands)) n (race_binding (obss ! race_winner obss is) op e)"
      using fold_assign_names [of n cands obss r1 out1] by (simp add: bound_at_def state_of_def op(2))
    moreover obtain more where "snd (foldl (assign obss) (r1, out1) cands) = out1 @ more"
      using fold_assign_extends by blast
    ultimately show ?thesis using a op by auto
  next
    case False
    have "racers r1 obss c'" if "c' \<in> set cands" for c'
    proof (rule racers_cong [OF same])
      have "fst c' \<noteq> fst c" using that Cons.prems(3) by (metis image_eqI list.set_map distinct.simps(2) list.simps(9))
      then show "r_names r1 (fst c') = r_names r (fst c')" using assign_other_names [of "fst c'" c obss r out] a by simp
    qed (use that Cons.prems(4) in simp)
    then show ?thesis using Cons.IH [of r1 out1] Cons.prems False same
      by (simp add: a same_rules_def expiry_after_cong [OF same])
  qed
qed simp

subsection \<open>The phases of a block of an open registry\<close>

lemma approver_record_open:
  "g_mode (r_rules r) = Open \<Longrightarrow> fst (approver_record (r, out) obs) = r"
  by (auto simp: approver_record_def approve_def vote_def admit_approver_def Let_def
      split: payload.splits admission.splits)

lemma approver_records_open: "g_mode (r_rules r) = Open \<Longrightarrow> fst (approver_records r obss out) = r"
  unfolding approver_records_def
proof (induction obss arbitrary: out)
  case (Cons obs obss)
  then show ?case using approver_record_open [of r out obs] by (cases "approver_record (r, out) obs") simp
qed simp

lemma owner_record_extends: "\<exists>more. snd (owner_record (r, out) obs) = out @ more"
  by (auto simp: owner_record_def Let_def split: payload.splits mode.splits prod.splits)

lemma owner_records_extends: "\<exists>more. snd (owner_records r obss out) = out @ more"
  unfolding owner_records_def
proof (induction obss arbitrary: r out)
  case (Cons obs obss)
  obtain r1 out1 where "owner_record (r, out) obs = (r1, out1)" by fastforce
  then show ?case using Cons [of r1 out1] owner_record_extends [of r out obs] by auto
qed simp

lemma owner_record_unbound:
  assumes "g_mode (r_rules r) = Open" "ns_binding (state_of (r_names r) n) = Unbound"
  shows "ns_binding (state_of (r_names (fst (owner_record (r, out) obs))) n) = Unbound \<and>
    r_rules (fst (owner_record (r, out) obs)) = r_rules r"
  using assms
  by (auto simp: owner_record_def update_def renew_def Let_def state_of_upd
      split: payload.splits admission.splits option.splits binding.splits)

lemma owner_records_unbound:
  assumes "g_mode (r_rules r) = Open" "ns_binding (state_of (r_names r) n) = Unbound"
  shows "ns_binding (state_of (r_names (fst (owner_records r obss out))) n) = Unbound"
  unfolding owner_records_def using assms
proof (induction obss arbitrary: r out)
  case (Cons obs obss)
  obtain r1 out1 where "owner_record (r, out) obs = (r1, out1)" by fastforce
  then show ?case using Cons.IH [of r1 out1] Cons.prems owner_record_unbound [of r n out obs] by simp
qed simp

definition contends :: "registry \<Rightarrow> name \<Rightarrow> observation \<Rightarrow> bool" where
  "contends r n obs \<longleftrightarrow> (\<exists>op. o_payload obs = Claim op \<and> oo_name op = n \<and> admit r obs (oo_registry op) = Admitted)"

lemma claimant_contends: "claimant r obss n i \<longleftrightarrow> i < length obss \<and> contends r n (obss ! i)"
  by (auto simp: claimant_def contends_def)

lemma contends_cong: "same_rules r r' \<Longrightarrow> contends r' n obs = contends r n obs"
  by (simp add: contends_def admit_cong)

lemma admit_open_frame [simp]: "admit (open_frame r h) obs reg = admit r obs reg"
  by (auto simp: admit_def split: option.splits)

lemma contends_open_frame [simp]: "contends (open_frame r h) n obs = contends r n obs"
  by (simp add: contends_def)

lemma claims_race:
  assumes "r_undo r \<noteq> []" "g_mode (r_rules r) = Open" "ns_binding (state_of (r_names r) n) = Unbound"
    "\<forall>obs \<in> set obss. expiry_after r (o_height obs) = Some e" "obs0 \<in> set obss" "contends r n obs0" "distinct obss"
  shows "\<exists>w op. w \<in> set obss \<and> contends r n w \<and> o_payload w = Claim op \<and>
    bound_at (fst (claims r obss out)) n (race_binding w op e) \<and>
    (\<forall>obs \<in> set obss. contends r n obs \<longrightarrow> commit_key w \<le> commit_key obs \<and>
       Outcome_new obs (if obs = w then Applied else Inert LostRace) \<in> set (snd (claims r obss out)))"
proof -
  obtain cands out1 where st: "foldl (candidate_step r obss) ([], out) [0..<length obss] = (cands, out1)" by fastforce
  have ok: "cands_ok r obss (length obss) cands" using candidates_ok [of "length obss" obss r out] st by simp
  define "is" where "is = filter (claimant r obss n) [0..<length obss]"
  have mem: "i \<in> set is \<longleftrightarrow> i < length obss \<and> contends r n (obss ! i)" for i
    by (auto simp: is_def claimant_contends)
  have "contenders r obss (length obss) n = Some is"
    using assms(3,5,6) by (auto simp: contenders_def is_def claimant_contends in_set_conv_nth)
  then have "bt_get cands n = Some is" using candidates_exact [of "length obss" obss r out] st by simp
  then have entry: "(n, is) \<in> set cands" using ok by (simp add: cands_ok_def btree.get_entries)
  then have ne: "is \<noteq> []" using ok by (auto simp: cands_ok_def racers_def)
  let ?w = "race_winner obss is"
  have "\<forall>i \<in> set is. expiry_after r (o_height (obss ! i)) = Some e" using assms(4) by (simp add: mem)
  moreover have "distinct (map fst cands)" "\<forall>c \<in> set cands. racers r obss c"
    using ok by (simp_all add: cands_ok_def bt_inv_distinct)
  moreover have "foldl (assign obss) (r, out1) cands = claims r obss out" by (simp add: claims_def st)
  ultimately obtain op where op: "o_payload (obss ! ?w) = Claim op"
    "bound_at (fst (claims r obss out)) n (race_binding (obss ! ?w) op e)"
    "\<forall>i \<in> set is. Outcome_new (obss ! i) (if i = ?w then Applied else Inert LostRace) \<in> set (snd (claims r obss out))"
    using fold_assign_race [OF assms(1,2) _ _ entry, of obss e out1] by metis
  have w: "?w < length obss" "contends r n (obss ! ?w)" using race_winner_least(1) [OF ne, of obss] by (simp_all add: mem)
  moreover have "commit_key (obss ! ?w) \<le> commit_key obs \<and>
      Outcome_new obs (if obs = obss ! ?w then Applied else Inert LostRace) \<in> set (snd (claims r obss out))"
    if mem_obs: "obs \<in> set obss" and "contends r n obs" for obs
  proof -
    obtain i where i: "i < length obss" "obs = obss ! i" using mem_obs by (auto simp: in_set_conv_nth)
    then have "i \<in> set is" using that(2) by (simp add: mem)
    moreover have "(obs = obss ! ?w) = (i = ?w)" using i w(1) by (simp add: nth_eq_iff_index_eq [OF assms(7)])
    ultimately show ?thesis using race_winner_least(2) [OF ne, of i obss] op(3) i by simp
  qed
  ultimately show ?thesis using op(1,2) nth_mem by blast
qed

lemma claims_no_race:
  assumes "\<forall>obs \<in> set obss. \<not> contends r n obs"
  shows "r_names (fst (claims r obss out)) n = r_names r n"
proof -
  obtain cands out1 where st: "foldl (candidate_step r obss) ([], out) [0..<length obss] = (cands, out1)" by fastforce
  have ok: "bt_inv cands" using candidates_ok [of "length obss" obss r out] st by (simp add: cands_ok_def)
  have "contenders r obss (length obss) n = None"
    using assms by (auto simp: contenders_def claimant_contends)
  then have "bt_get cands n = None" using candidates_exact [of "length obss" obss r out] st by simp
  then have "n \<notin> fst ` set cands" by (simp add: bt_get_def map_of_eq_None_iff)
  then show ?thesis by (simp add: claims_def st fold_assign_names)
qed

lemma block_order_set [simp]: "set (block_order observations) = set observations"
  by (simp add: block_order_def)

lemma windows2_position: "windows2_all (\<lambda>a b. o_position a < o_position b) obss \<longleftrightarrow> sorted_wrt (<) (map o_position obss)"
  by (subst windows2_all_sorted_wrt) (auto simp: transp_def sorted_wrt_map)

lemma block_order_distinct:
  "windows2_all (\<lambda>a b. o_position a < o_position b) obss \<Longrightarrow> distinct obss"
  by (simp add: windows2_position strict_sorted_iff distinct_map)

lemma connect_open_phases:
  assumes "connect_delta r h observations = Inr (ab, r')" "reg_inv r" "g_mode (r_rules r) = Open"
  defines "r1 \<equiv> expire (open_frame r h) h" and "obss \<equiv> block_order observations"
  obtains out1 where "owner_records (fst (claims r1 obss out1)) obss (snd (claims r1 obss out1)) = (r', ab_outcomes ab)"
proof -
  have rules: "r_rules r1 = r_rules r" unfolding r1_def by (rule expired_registry(4) [OF assms(1,2)])
  obtain out1 where "approver_records r1 obss [] = (r1, out1)"
    using approver_records_open [of r1 obss "[]"] rules assms(3) by (metis prod.exhaust_sel)
  moreover have "apply_block r1 obss = (r', ab_outcomes ab)"
    using assms(1) unfolding r1_def obss_def by (simp add: connect_delta_Inr)
  ultimately have "owner_records (fst (claims r1 obss out1)) obss (snd (claims r1 obss out1)) = (r', ab_outcomes ab)"
    using rules assms(3) by (simp add: apply_block_def case_prod_beta)
  then show thesis by (rule that)
qed

lemma connect_race:
  assumes con: "connect_delta r h observations = Inr (ab, r')" and inv: "reg_inv r" and mode: "g_mode (r_rules r) = Open"
    and free: "\<forall>b. bound_at r n b \<longrightarrow> b_expiry b \<le> h" and e: "expiry_after r h = Some e"
    and some: "obs0 \<in> set observations" "contends r n obs0"
  shows "\<exists>w \<in> set observations. contends r n w \<and>
    (\<exists>b. bound_at r' n b \<and> b_owner b = o_author w \<and> b_claim_txid b = o_txid w) \<and>
    (\<forall>obs \<in> set observations. contends r n obs \<longrightarrow> commit_key w \<le> commit_key obs \<and>
       Outcome_new obs (if obs = w then Applied else Inert LostRace) \<in> set (ab_outcomes ab))"
proof -
  let ?r1 = "expire (open_frame r h) h" and ?obss = "block_order observations" and ?Ob = "set observations"
  note r1 = expired_registry [OF con inv]
  have undo: "r_undo ?r1 \<noteq> []" using r1(7) by (simp add: same_rules_def)
  have open1: "g_mode (r_rules ?r1) = Open" using mode r1(4) by simp
  have cont: "contends ?r1 n obs = contends r n obs" for obs using contends_cong [OF r1(7)] by simp
  have unbound: "ns_binding (state_of (r_names ?r1) n) = Unbound"
    using r1(6) free unfolding bound_at_def by (metis binding.exhaust leD)
  have exp: "\<forall>obs \<in> set ?obss. expiry_after ?r1 (o_height obs) = Some e"
    using r1(3-5) e by (simp add: expiry_after_def)
  have "distinct ?obss" using con by (simp add: connect_delta_Inr block_order_distinct)
  obtain out1 where own: "owner_records (fst (claims ?r1 ?obss out1)) ?obss (snd (claims ?r1 ?obss out1)) = (r', ab_outcomes ab)"
    by (rule connect_open_phases [OF con inv mode])
  let ?r2 = "fst (claims ?r1 ?obss out1)"
  obtain w op where w: "w \<in> set observations" "contends r n w" "bound_at ?r2 n (race_binding w op e)"
    "\<forall>obs \<in> set observations. contends r n obs \<longrightarrow> commit_key w \<le> commit_key obs \<and>
       Outcome_new obs (if obs = w then Applied else Inert LostRace) \<in> set (snd (claims ?r1 ?obss out1))"
    using claims_race [OF undo open1 unbound exp, of obs0 out1] some \<open>distinct ?obss\<close> cont by auto
  have steps2: "(reg_step (set observations))\<^sup>*\<^sup>* ?r1 ?r2" using claims_steps [OF undo open1] by simp
  note same2 = reg_steps_same_rules [OF steps2]
  have live2: "live ?r2" by (rule reg_steps_live [OF steps2 r1(1,2,5)])
  have undo2: "r_undo ?r2 \<noteq> []" using same2 undo by (simp add: same_rules_def)
  have valid2: "Genesis_validate (r_rules ?r2) = Inr ()" "\<forall>obs \<in> ?Ob. o_height obs = r_height ?r2"
    using r1(2,5) same2 by (simp_all add: same_rules_def)
  have "(reg_step ?Ob)\<^sup>*\<^sup>* ?r2 r'"
    using fold_records_steps [of "set observations" "set observations" owner_record, OF owner_record_steps undo2] own
    by (metis owner_records_def block_order_set fst_conv order_refl)
  then have tail: "(reg_step ?Ob)\<^sup>*\<^sup>* ?r2 r'" .
  have sound: "sound_at ?Ob ?Ob ?r2 x" if "(reg_step ?Ob)\<^sup>*\<^sup>* ?r2 x" for x
  proof -
    note sx = reg_steps_same_rules [OF that]
    have "g_mode (r_rules x) = Open" using sx same2 open1 by (simp add: same_rules_def)
    then have "\<not> quorum x obs a rec" for obs a rec by (simp add: quorum_def)
    moreover have "restores_voted ?Ob ?r2 x" using that
    proof (induction rule: rtranclp_induct)
      case (step y z)
      then show ?case using restores_step [OF _ order_refl] reg_steps_same_rules by blast
    qed (simp add: restores_voted_def)
    ultimately show ?thesis using sx reg_steps_live [OF that live2] valid2 by (auto simp: sound_at_def)
  qed
  obtain b where "bound_at r' n b" "kept ?Ob ?r2 n (race_binding w op e) b"
    using reg_steps_kept [OF tail order_refl sound valid2 w(3) kept_refl] by blast
  then have "\<exists>b. bound_at r' n b \<and> b_owner b = o_author w \<and> b_claim_txid b = o_txid w"
    by (auto simp: kept_def race_binding_def)
  moreover obtain more where "ab_outcomes ab = snd (claims ?r1 ?obss out1) @ more"
    using owner_records_extends [of ?r2 ?obss "snd (claims ?r1 ?obss out1)"] own by auto
  ultimately show ?thesis using w(1,2,4) by (intro bexI [of _ w]) (simp_all del: if_split)
qed

lemma connect_no_race:
  assumes con: "connect_delta r h observations = Inr (ab, r')" and inv: "reg_inv r" and mode: "g_mode (r_rules r) = Open"
    and free: "\<forall>b. bound_at r n b \<longrightarrow> b_expiry b \<le> h" and none: "\<forall>obs \<in> set observations. \<not> contends r n obs"
  shows "\<not> bound_at r' n b"
proof -
  let ?r1 = "expire (open_frame r h) h" and ?obss = "block_order observations"
  note r1 = expired_registry [OF con inv]
  have unbound: "ns_binding (state_of (r_names ?r1) n) = Unbound"
    using r1(6) free unfolding bound_at_def by (metis binding.exhaust leD)
  obtain out1 where own: "owner_records (fst (claims ?r1 ?obss out1)) ?obss (snd (claims ?r1 ?obss out1)) = (r', ab_outcomes ab)"
    by (rule connect_open_phases [OF con inv mode])
  have "r_names (fst (claims ?r1 ?obss out1)) n = r_names ?r1 n"
    using none contends_cong [OF r1(7)] by (intro claims_no_race) simp
  moreover have "r_rules (fst (claims ?r1 ?obss out1)) = r_rules r"
    using reg_steps_same_rules [OF claims_steps [of ?r1 ?obss "set observations" out1]] r1(4,7) mode
    by (simp add: same_rules_def)
  ultimately have "ns_binding (state_of (r_names r') n) = Unbound"
    using owner_records_unbound [of "fst (claims ?r1 ?obss out1)" n ?obss] mode unbound own
    by (metis fst_conv state_of_def)
  then show ?thesis by (simp add: bound_at_def)
qed

end
