(* ===== verification/Registry_Outcomes.thy ===== *)
theory Registry_Outcomes
  imports Registry_Safety "HOL-Library.Multiset"
begin

section \<open>Every observation is reported once\<close>

text \<open>
  The outcomes of a block are produced in three phases (approvers, claims, owners). Counting the
  reported transaction ids and positions phase by phase shows that a block reports each of its
  observations exactly once. The one exception of the code is the overflow of the expiry height: a
  race whose winner overflows reports the winner only.
\<close>

definition observation_ids :: "observation list \<Rightarrow> (bytes \<times> u32) multiset" where
  "observation_ids obss = mset (map (\<lambda>obs. (o_txid obs, o_position obs)) obss)"

definition reported_ids :: "outcome list \<Rightarrow> (bytes \<times> u32) multiset" where
  "reported_ids outs = mset (map (\<lambda>oc. (oc_txid oc, oc_position oc)) outs)"

lemma observation_ids_simps [simp]:
  "observation_ids [] = {#}"
  "observation_ids (obs # obss) = add_mset (o_txid obs, o_position obs) (observation_ids obss)"
  "observation_ids (xs @ ys) = observation_ids xs + observation_ids ys"
  by (simp_all add: observation_ids_def)

lemma reported_ids_simps [simp]:
  "reported_ids [] = {#}" "reported_ids (xs @ ys) = reported_ids xs + reported_ids ys"
  "reported_ids [Outcome_new obs v] = {#(o_txid obs, o_position obs)#}"
  by (simp_all add: reported_ids_def Outcome_new_def)

lemma reported_ids_map [simp]:
  "reported_ids (map (\<lambda>i. Outcome_new (f i) (v i)) is) = observation_ids (map f is)"
  by (simp add: reported_ids_def observation_ids_def Outcome_new_def comp_def)

definition in_approver_phase :: "observation \<Rightarrow> bool" where
  "in_approver_phase obs = (case o_payload obs of Approve _ \<Rightarrow> True | Suspend _ \<Rightarrow> True | Restore _ \<Rightarrow> True | _ \<Rightarrow> False)"

definition is_claim :: "observation \<Rightarrow> bool" where
  "is_claim obs = (case o_payload obs of Claim _ \<Rightarrow> True | _ \<Rightarrow> False)"

definition in_owner_phase :: "mode \<Rightarrow> observation \<Rightarrow> bool" where
  "in_owner_phase m obs \<longleftrightarrow> \<not> in_approver_phase obs \<and> (is_claim obs \<longrightarrow> m = Administered)"

lemma approver_records_ids:
  "reported_ids (snd (approver_records r obss out)) = reported_ids out + observation_ids (filter in_approver_phase obss)"
  unfolding approver_records_def
proof (induction obss arbitrary: r out)
  case (Cons obs obss)
  obtain r1 out1 where a: "approver_record (r, out) obs = (r1, out1)" by fastforce
  have "reported_ids out1 = reported_ids out + observation_ids (filter in_approver_phase [obs])"
    using a by (auto simp: approver_record_def in_approver_phase_def Let_def split: payload.splits prod.splits)
  then show ?case by (simp add: Cons.IH a)
qed simp

lemma owner_records_ids:
  assumes "r_undo r \<noteq> []"
  shows "reported_ids (snd (owner_records r obss out)) =
    reported_ids out + observation_ids (filter (in_owner_phase (g_mode (r_rules r))) obss)"
  unfolding owner_records_def using assms
proof (induction obss arbitrary: r out)
  case (Cons obs obss)
  obtain r1 out1 where a: "owner_record (r, out) obs = (r1, out1)" by fastforce
  have "same_rules r r1" using owner_record_steps [OF Cons.prems, of obs UNIV out] a by (simp add: reg_steps_same_rules)
  moreover have "reported_ids out1 = reported_ids out + observation_ids (filter (in_owner_phase (g_mode (r_rules r))) [obs])"
    using a by (auto simp: owner_record_def in_owner_phase_def in_approver_phase_def is_claim_def Let_def
        split: payload.splits mode.splits prod.splits)
  ultimately show ?case using Cons.IH [of r1 out1] Cons.prems by (simp add: a same_rules_def)
qed simp

subsection \<open>The claims of an open registry\<close>

definition racing_ids :: "observation list \<Rightarrow> candidates \<Rightarrow> (bytes \<times> u32) multiset" where
  "racing_ids obss cands =
     image_mset (\<lambda>i. (o_txid (obss ! i), o_position (obss ! i))) (mset (concat (map snd cands)))"

lemma mset_insert_fresh:
  "bt_inv m \<Longrightarrow> bt_get m k = None \<Longrightarrow> mset (concat (map snd (bt_insert k v m))) = mset v + mset (concat (map snd m))"
  by (induction k v m rule: bt_insert.induct) (auto simp: bt_inv_Cons bt_get_def split: if_splits)

lemma mset_insert_extend:
  assumes "bt_inv m" "bt_get m k = Some is"
  shows "mset (concat (map snd (bt_insert k (is @ [i]) m))) = add_mset i (mset (concat (map snd m)))"
  using assms
proof (induction m)
  case (Cons e m)
  then show ?case
  proof (cases e)
    case (Pair k' v')
    with Cons show ?thesis
      by (auto simp: bt_inv_Cons bt_get_def split: if_splits dest!: map_of_SomeD)
  qed
qed (simp add: bt_get_def)

lemma candidates_ids:
  "k \<le> length obss \<Longrightarrow>
   reported_ids (snd (foldl (candidate_step r obss) ([], out) [0..<k])) +
     racing_ids obss (fst (foldl (candidate_step r obss) ([], out) [0..<k])) =
   reported_ids out + observation_ids (filter is_claim (take k obss))"
proof (induction k)
  case (Suc k)
  obtain cands out1 where st: "foldl (candidate_step r obss) ([], out) [0..<k] = (cands, out1)" by fastforce
  have inv: "bt_inv cands" using candidates_ok [of k obss r out] Suc.prems st by (simp add: cands_ok_def)
  have IH: "reported_ids out1 + racing_ids obss cands = reported_ids out + observation_ids (filter is_claim (take k obss))"
    using Suc st by simp
  have fresh: "racing_ids obss (bt_insert n [k] cands) = add_mset (o_txid (obss ! k), o_position (obss ! k)) (racing_ids obss cands)"
    if "bt_get cands n = None" for n
    using mset_insert_fresh [OF inv that, of "[k]"] by (simp add: racing_ids_def)
  have extend: "racing_ids obss (bt_insert n (is @ [k]) cands) = add_mset (o_txid (obss ! k), o_position (obss ! k)) (racing_ids obss cands)"
    if "bt_get cands n = Some is" for n "is"
    using mset_insert_extend [OF inv that, of k] by (simp add: racing_ids_def)
  obtain cands2 out2 where c: "candidate_step r obss (cands, out1) k = (cands2, out2)" by fastforce
  have "reported_ids out2 + racing_ids obss cands2 =
      reported_ids out1 + racing_ids obss cands + observation_ids (filter is_claim [obss ! k])"
    using c fresh extend
    by (auto simp: candidate_step_def is_claim_def Let_def
        split: payload.splits admission.splits binding.splits option.splits)
  then show ?case using Suc.prems IH by (simp add: st c take_Suc_conv_app_nth)
qed (simp add: racing_ids_def)

lemma fold_assign_ids:
  assumes "\<forall>c \<in> set cands. snd c \<noteq> [] \<and> (\<forall>i \<in> set (snd c). is_claim (obss ! i) \<and>
      expiry_after r (o_height (obss ! i)) \<noteq> None)"
  shows "reported_ids (snd (foldl (assign obss) (r, out) cands)) = reported_ids out + racing_ids obss cands"
  using assms
proof (induction cands arbitrary: r out)
  case (Cons c cands)
  obtain n "is" where c: "c = (n, is)" by fastforce
  obtain r1 out1 where a: "assign obss (r, out) c = (r1, out1)" by fastforce
  let ?w = "race_winner obss is"
  have w: "is_claim (obss ! ?w)" "expiry_after r (o_height (obss ! ?w)) \<noteq> None" "is \<noteq> []"
    using Cons.prems c race_winner_least(1) [of "is" obss] by auto
  then obtain op e where "o_payload (obss ! ?w) = Claim op" "expiry_after r (o_height (obss ! ?w)) = Some e"
    by (auto simp: is_claim_def split: payload.splits)
  then have "reported_ids out1 = reported_ids out + observation_ids (map ((!) obss) is)" "r_rules r1 = r_rules r"
    using a w(3) by (auto simp: c assign_def race_winner_def Let_def)
  then show ?case using Cons.IH [of r1 out1] Cons.prems by (simp add: a [unfolded c] c racing_ids_def expiry_after_def observation_ids_def comp_def)
qed (simp add: racing_ids_def)

lemma claims_ids:
  assumes "\<forall>obs \<in> set obss. expiry_after r (o_height obs) \<noteq> None"
  shows "reported_ids (snd (claims r obss out)) = reported_ids out + observation_ids (filter is_claim obss)"
proof -
  obtain cands out1 where st: "foldl (candidate_step r obss) ([], out) [0..<length obss] = (cands, out1)" by fastforce
  have "cands_ok r obss (length obss) cands" using candidates_ok [of "length obss" obss r out] st by simp
  then have "\<forall>c \<in> set cands. snd c \<noteq> [] \<and> (\<forall>i \<in> set (snd c). is_claim (obss ! i) \<and>
      expiry_after r (o_height (obss ! i)) \<noteq> None)"
    using assms by (fastforce simp: cands_ok_def racers_def claimant_def is_claim_def)
  then have "reported_ids (snd (claims r obss out)) = reported_ids out1 + racing_ids obss cands"
    by (simp add: claims_def st fold_assign_ids)
  with candidates_ids [of "length obss" obss r out] show ?thesis by (simp add: st)
qed

lemma phase_partition:
  "observation_ids (filter in_approver_phase obss) +
     (if m = Open then observation_ids (filter is_claim obss) else {#}) +
   observation_ids (filter (in_owner_phase m) obss) = observation_ids obss"
  by (induction obss; cases m)
    (auto simp: in_owner_phase_def in_approver_phase_def is_claim_def split: payload.splits)

lemma connect_reports_all:
  assumes con: "connect_delta r h observations = Inr (ab, r')" and inv: "reg_inv r"
    and e: "g_mode (r_rules r) = Administered \<or> expiry_after r h \<noteq> None"
  shows "reported_ids (ab_outcomes ab) = observation_ids observations"
proof -
  let ?r1 = "expire (open_frame r h) h" and ?obss = "block_order observations"
  note r1 = expired_registry [OF con inv]
  have undo: "r_undo ?r1 \<noteq> []" using r1(7) by (simp add: same_rules_def)
  obtain r2 out2 where two: "approver_records ?r1 ?obss [] = (r2, out2)" by fastforce
  have same2: "same_rules ?r1 r2"
    using fold_records_steps [of UNIV UNIV approver_record, OF approver_record_steps undo, of ?obss "[]"] two
    by (simp add: approver_records_def reg_steps_same_rules)
  obtain r3 out3 where three: "(if g_mode (r_rules r2) = Open then claims r2 ?obss out2 else (r2, out2)) = (r3, out3)"
    by fastforce
  have undo2: "r_undo r2 \<noteq> []" using same2 undo by (simp add: same_rules_def)
  have same3: "same_rules r2 r3"
    using three claims_steps [OF undo2, of ?obss UNIV out2, simplified] reg_steps_same_rules by (auto split: if_splits)
  have "apply_block ?r1 ?obss = owner_records r3 ?obss out3" using two three by (simp add: apply_block_def)
  then have "ab_outcomes ab = snd (owner_records r3 ?obss out3)" using con by (simp add: connect_delta_Inr)
  also have "reported_ids \<dots> = reported_ids out3 + observation_ids (filter (in_owner_phase (g_mode (r_rules r))) ?obss)"
    using owner_records_ids [of r3 ?obss out3] undo2 same2 same3 r1(4) by (simp add: same_rules_def)
  also have "reported_ids out3 = reported_ids out2 +
      (if g_mode (r_rules r) = Open then observation_ids (filter is_claim ?obss) else {#})"
  proof (cases "g_mode (r_rules r) = Open")
    case True
    have "\<forall>obs \<in> set ?obss. expiry_after r2 (o_height obs) \<noteq> None"
      using e True r1(3-5) same2 by (auto simp: expiry_after_def same_rules_def)
    from claims_ids [OF this, of out2] show ?thesis using three True same2 r1(4) by (simp add: same_rules_def)
  next
    case False
    then show ?thesis using three same2 r1(4) by (simp add: same_rules_def)
  qed
  also have "reported_ids out2 = observation_ids (filter in_approver_phase ?obss)"
    using approver_records_ids [of ?r1 ?obss "[]"] two by simp
  finally have "reported_ids (ab_outcomes ab) = observation_ids ?obss" by (simp only: phase_partition)
  then show ?thesis by (simp add: observation_ids_def block_order_def)
qed

end
