(* ===== verification/Registry_Properties.thy ===== *)
theory Registry_Properties
  imports Registry_Parts Registry_Outcomes
begin

section \<open>The properties of the names registry\<close>

text \<open>
  The theorems a user of the engine relies on, over whole blocks and whole chains of blocks, with
  examples on a small open and a small administered registry.
\<close>

subsection \<open>Example registries\<close>

definition ex_rules :: genesis where
  "ex_rules = \<lparr>g_mode = Open, expiry_blocks = 100, reveal_max_blocks = 10, threshold = 0, approvers = []\<rparr>"

definition ex_adm_rules :: genesis where
  "ex_adm_rules = \<lparr>g_mode = Administered, expiry_blocks = 100, reveal_max_blocks = 10, threshold = 1, approvers = [[5]]\<rparr>"

definition ex_name :: name where "ex_name = Name [97]"

definition ex_open :: registry where
  "ex_open = \<lparr>r_genesis = [7], r_genesis_height = 50, r_rules = ex_rules, r_height = 52,
     r_names = Map.empty, r_pending = Map.empty, r_expiries = {}, r_undo = []\<rparr>"

definition ex_binding :: bound where
  "ex_binding = \<lparr>b_owner = [2], b_target = Publication [9], b_expiry = 60, b_claim_txid = [1], b_last_txid = [1]\<rparr>"

definition ex_bound :: registry where
  "ex_bound = store ex_open ex_name (NameState_unbound\<lparr>ns_binding := Bound ex_binding\<rparr>)"

definition ex_claim :: "u8 \<Rightarrow> u32 \<Rightarrow> u64 \<Rightarrow> observation" where
  "ex_claim k pos commit = \<lparr>o_txid = [k], o_author = [k + 1], o_record_sha256 = [],
     o_payload = Claim \<lparr>oo_registry = [7], oo_salt = [], oo_name = ex_name, oo_target = [9]\<rparr>,
     o_height = 53, o_position = pos,
     o_commit = \<lparr>c_txid = [k], c_vout = 0, c_height = commit, c_position = 0\<rparr>\<rparr>"

definition ex_block :: "observation list" where
  "ex_block = [ex_claim 10 0 52, ex_claim 20 1 51]"

lemma ex_rules_valid [simp]: "Genesis_validate ex_rules = Inr ()"
  by (simp add: Genesis_validate_def ex_rules_def)

lemma ex_open_inv: "reg_inv ex_open"
  by (simp add: reg_inv_def reg_wf_def live_def exp_index_def bound_at_def ex_open_def)

lemma ex_bound_at: "bound_at ex_bound n b \<longleftrightarrow> n = ex_name \<and> b = ex_binding"
  by (auto simp: bound_at_def ex_bound_def state_of_upd ex_open_def)

lemma ex_bound_inv: "reg_inv ex_bound"
proof -
  have "exp_index ex_bound" unfolding ex_bound_def using ex_open_inv by (intro exp_index_store inv_index)
  moreover have "live ex_bound"
    by (auto simp: live_def ex_bound_at) (simp_all add: ex_bound_def ex_open_def ex_binding_def ex_rules_def)
  ultimately show ?thesis
    by (auto simp: reg_inv_def reg_wf_def ex_bound_def ex_open_def name_wf_def ex_rules_def [symmetric])
      (auto simp: ex_rules_def)
qed

subsection \<open>Accepting a block\<close>

lemma sort_key_strict:
  "sorted_wrt (<) (map f (sort_key f xs)) \<longleftrightarrow> distinct (map f xs)" for f :: "'a \<Rightarrow> 'b :: linorder"
proof -
  have "mset (map f (sort_key f xs)) = mset (map f xs)" by simp
  then have "distinct (map f (sort_key f xs)) = distinct (map f xs)" by (rule mset_eq_imp_distinct_iff)
  then show ?thesis by (simp add: strict_sorted_iff)
qed

lemma connect_accepts:
  "(\<exists>ab r'. connect_delta r h observations = Inr (ab, r')) \<longleftrightarrow>
     unat h = unat (r_height r) + 1 \<and> o_height ` set observations \<subseteq> {h} \<and> distinct (map o_position observations)"
proof -
  have "(\<exists>ab r'. apply_block s os = (r', ab_outcomes ab) \<and>
      ab = \<lparr>ab_outcomes = ab_outcomes ab, ab_delta = forward_delta r' (last (r_undo r'))\<rparr>)" for s os
  proof -
    obtain r' outs where "apply_block s os = (r', outs)" by fastforce
    then show ?thesis
      by (intro exI [of _ "\<lparr>ab_outcomes = outs, ab_delta = forward_delta r' (last (r_undo r'))\<rparr>"] exI [of _ r']) simp
  qed
  then show ?thesis
    unfolding connect_delta_Inr windows2_position block_order_def sort_key_strict
    by (auto simp: checked_add_Some)
qed

lemma ex_block_accepted: "\<exists>ab r'. connect_delta ex_open 53 ex_block = Inr (ab, r')"
  unfolding connect_accepts by (simp add: ex_block_def ex_claim_def ex_open_def)

lemma ex_bound_accepted: "\<exists>ab r'. connect_delta ex_bound 53 ex_block = Inr (ab, r')"
  unfolding connect_accepts by (simp add: ex_block_def ex_claim_def ex_bound_def ex_open_def)

text \<open>A small administered registry with a name, a pending request for another name and a pending update.\<close>

definition ex_other :: name where "ex_other = Name [98]"

definition ex_request :: pending_record where
  "ex_request = \<lparr>pr_kind = Request, pr_name = ex_other, pr_author = [11], pr_target = [8], pr_sha256 = [1], pr_height = 52,
     pr_approvals = {}, pr_completed = False\<rparr>"

definition ex_update :: pending_record where
  "ex_update = \<lparr>pr_kind = UpdateKind, pr_name = ex_name, pr_author = [2], pr_target = [8], pr_sha256 = [2], pr_height = 52,
     pr_approvals = {}, pr_completed = False\<rparr>"

definition ex_adm :: registry where
  "ex_adm = \<lparr>r_genesis = [7], r_genesis_height = 50, r_rules = ex_adm_rules, r_height = 52,
     r_names = [ex_name \<mapsto> NameState_unbound\<lparr>ns_binding := Bound ex_binding\<rparr>], r_pending = [[10] \<mapsto> ex_request, [20] \<mapsto> ex_update],
     r_expiries = {(60, ex_name)}, r_undo = []\<rparr>"

definition ex_approval :: "u8 \<Rightarrow> u8 \<Rightarrow> observation" where
  "ex_approval k sha = \<lparr>o_txid = [k + 1], o_author = [5], o_record_sha256 = [],
     o_payload = Approve \<lparr>ap_registry = [7], ap_record_txid = [k], ap_record_sha256 = [sha]\<rparr>,
     o_height = 53, o_position = 0, o_commit = \<lparr>c_txid = [k + 1], c_vout = 0, c_height = 52, c_position = 0\<rparr>\<rparr>"

lemma ex_adm_bound_at: "bound_at ex_adm n b \<longleftrightarrow> n = ex_name \<and> b = ex_binding"
  by (auto simp: bound_at_def ex_adm_def state_of_upd state_of_def NameState_unbound_def)

lemma ex_adm_inv: "reg_inv ex_adm"
proof -
  have "Genesis_validate ex_adm_rules = Inr ()"
    by (simp add: ex_adm_rules_def Genesis_validate_def MAX_APPROVERS_def)
  moreover have "live ex_adm" by (simp add: live_def ex_adm_bound_at) (simp add: ex_adm_def ex_binding_def ex_adm_rules_def)
  moreover have "exp_index ex_adm" by (auto simp: exp_index_def ex_adm_bound_at) (simp_all add: ex_adm_def ex_binding_def)
  ultimately show ?thesis
    by (auto simp: reg_inv_def reg_wf_def ex_adm_def name_wf_def NameState_unbound_def pending_wf_def ex_request_def ex_update_def
        ex_binding_def split: if_splits) (simp_all add: ex_adm_rules_def)
qed

lemma ex_adm_accepted: "\<exists>ab r'. connect_delta ex_adm 53 [ex_approval k sha] = Inr (ab, r')"
  unfolding connect_accepts by (simp add: ex_approval_def ex_adm_def)

subsection \<open>Properties\<close>

text \<open>
  C2: disconnecting the block that was connected last gives back exactly the registry before it, with
  the names, the pending records, the expiry index, the undo frames and the height, and reports the
  delta that the connection reported.
\<close>
theorem disconnect_reverses_connect:
  "reg_inv r \<Longrightarrow> connect_delta r h observations = Inr (ab, r') \<Longrightarrow> disconnect_delta r' = Inr (ab_delta ab, r)"
  by (rule connect_disconnect)

theorem disconnect_reverses_connect_witness:
  "\<exists>ab r'. connect_delta ex_bound 53 ex_block = Inr (ab, r') \<and> disconnect_delta r' = Inr (ab_delta ab, ex_bound)"
  using ex_bound_accepted disconnect_reverses_connect [OF ex_bound_inv, of 53 ex_block] by blast

text \<open>
  C1: after a reorganisation the registry is the one a node has that saw only the winning branch:
  rolling back the blocks of the losing branch and connecting the winning branch gives the registry
  of the winning branch, and the deltas of the roll back are those of the losing branch in reverse.
\<close>
theorem reorganisation_is_replay:
  assumes "Registry_new t gh g = Inr r" "connect_all connect_at r (common @ losing) = Inr (ds, tip)"
    "connect_all connect_at r (common @ winning) = Inr (es, best)"
  shows "\<exists>fork. disconnect_n disconnect_delta (length losing) tip =
      Inr (rev (drop (length ds - length losing) ds), fork) \<and>
    connect_all connect_at fork winning = Inr (drop (length es - length winning) es, best)"
  using reg_chain.reorganise [OF new_registry_inv [OF assms(1)] assms(2,3)] .

theorem reorganisation_is_replay_witness:
  "\<exists>r ds tip es best fork. Registry_new [7] 52 ex_rules = Inr r \<and>
     connect_all connect_at r ([] @ [(53, ex_block)]) = Inr (ds, tip) \<and>
     connect_all connect_at r ([] @ [(53, [])]) = Inr (es, best) \<and>
     disconnect_n disconnect_delta 1 tip = Inr (rev (drop (length ds - 1) ds), fork) \<and>
     connect_all connect_at fork [(53, [])] = Inr (drop (length es - 1) es, best)"
proof -
  obtain r where r: "Registry_new [7] 52 ex_rules = Inr r" by (simp add: Registry_new_def)
  then have h: "r_height r = 52" by (auto simp: Registry_new_def)
  have run: "\<exists>d r'. connect_all connect_at r ([] @ [(53, obss)]) = Inr ([d], r')"
    if ok: "o_height ` set obss \<subseteq> {53}" "distinct (map o_position obss)" for obss
  proof -
    obtain ab r' where "connect_delta r 53 obss = Inr (ab, r')"
      using connect_accepts [of r 53 obss] ok h by auto
    then show ?thesis by (simp add: connect_at_def)
  qed
  obtain d tip where "connect_all connect_at r ([] @ [(53, ex_block)]) = Inr ([d], tip)"
    using run [of ex_block] by (auto simp: ex_block_def ex_claim_def)
  moreover obtain e best where "connect_all connect_at r ([] @ [(53, [])]) = Inr ([e], best)"
    using run [of "[]"] by auto
  ultimately show ?thesis
    using r reorganisation_is_replay [OF r, of "[]" "[(53, ex_block)]" "[d]" tip "[(53, [])]" "[e]" best]
    by fastforce
qed

text \<open>
  C3: every registry that the engine reaches by creation, connection, disconnection and pruning
  satisfies the invariant: the rules are valid, the expiry index holds exactly the expiries of the bound names, no
  binding has expired or outlives the lease, votes and approvals are those of approvers and below or at the
  threshold as the state they are in says. Its last block can be disconnected exactly when an undo frame is left.
\<close>
theorem reachable_registry_invariant:
  "reachable r \<Longrightarrow> reg_inv r \<and> (r_undo r = [] \<longleftrightarrow> disconnect_delta r = Inl (Missing ''no reversible block'')) \<and>
    (r_undo r \<noteq> [] \<longleftrightarrow> (\<exists>d r'. disconnect_delta r = Inr (d, r') \<and> reachable r'))"
proof -
  assume r: "reachable r"
  then have chain: "undo_chain r" by (rule reachable_chain)
  have "r_undo r \<noteq> [] \<Longrightarrow> \<exists>d r'. disconnect_delta r = Inr (d, r') \<and> reachable r'"
    using undo_chain_disconnect [OF chain] reachable.disconnected [OF r] by blast
  moreover have "r_undo r = [] \<Longrightarrow> disconnect_delta r = Inl (Missing ''no reversible block'')"
    by (simp add: disconnect_delta_def)
  ultimately show ?thesis using undo_chain_inv [OF chain] by (cases "r_undo r = []") auto
qed

theorem reachable_registry_invariant_witness:
  "\<exists>r b d r'. reachable r \<and> bound_at r ex_name b \<and> (b_expiry b, ex_name) \<in> r_expiries r \<and>
     disconnect_delta r = Inr (d, r') \<and> reachable r'"
proof -
  obtain r0 where r0: "Registry_new [7] 51 ex_rules = Inr r0" by (simp add: Registry_new_def)
  then have f0: "r_height r0 = 51" "r_rules r0 = ex_rules" "r_expiries r0 = {}" "r_genesis r0 = [7]" "r_genesis_height r0 = 51" "r_names r0 = Map.empty"
    by (auto simp: Registry_new_def)
  obtain ab1 r1 where c1: "connect_delta r0 52 [] = Inr (ab1, r1)" using connect_accepts [of r0 52 "[]"] f0(1) by auto
  then have f1: "r_height r1 = 52" "r_rules r1 = ex_rules" "r_genesis r1 = [7]" "r_genesis_height r1 = 51" "r_names r1 = Map.empty"
    using f0 by (auto simp: connect_delta_Inr open_frame_def expire_def due_entries_def block_order_def apply_block_def
        approver_records_def owner_records_def claims_def ex_rules_def)
  have reach1: "reachable r1" by (rule reachable.connected [OF reachable.created [OF r0] c1])
  have inv1: "reg_inv r1" using undo_chain_inv [OF reachable_chain [OF reach1]] .
  have "\<exists>ab r'. connect_delta r1 53 ex_block = Inr (ab, r')"
    unfolding connect_accepts using f1(1) by (simp add: ex_block_def ex_claim_def)
  then obtain ab2 r2 where c2: "connect_delta r1 53 ex_block = Inr (ab2, r2)" by blast
  have "contends r1 ex_name (ex_claim 10 0 52)" "expiry_after r1 53 \<noteq> None" "g_mode (r_rules r1) = Open"
    "\<forall>b. bound_at r1 ex_name b \<longrightarrow> b_expiry b \<le> 53"
    using f1 by (simp_all add: contends_def ex_claim_def admit_def ex_rules_def checked_sub_def expiry_after_def checked_add_def bound_at_def)
  then obtain b where b: "bound_at r2 ex_name b"
    using connect_race [OF c2 inv1, of ex_name _ "ex_claim 10 0 52"] by (auto simp: ex_block_def)
  have reach2: "reachable r2" by (rule reachable.connected [OF reach1 c2])
  note inv2 = reachable_registry_invariant [OF reach2]
  have "(b_expiry b, ex_name) \<in> r_expiries r2" using inv2 b by (auto simp: reg_inv_def reg_wf_def exp_index_def)
  moreover have "r_undo r2 \<noteq> []" using connect_phases(3) [OF c2] inv1 by (auto simp: same_rules_def reg_inv_def reg_wf_def)
  then obtain d r' where "disconnect_delta r2 = Inr (d, r')" "reachable r'" using inv2 by blast
  ultimately show ?thesis using reach2 b by blast
qed

text \<open>
  C4: a binding that does not expire with a block survives the block with the same owner, the same
  claim and an expiry that is not earlier. Its target changes only by an admitted update or renewal
  of the owner in an open registry, or in an administered one because an update of this name by this owner, which was pending
  before the block, is approved in it: its approvals and the admitted votes of the block for exactly this record
  reach the threshold. Its expiry changes only by an admitted renewal of the owner.
\<close>
theorem live_binding_protected:
  "reg_inv r \<Longrightarrow> connect_delta r h observations = Inr (ab, r') \<Longrightarrow> bound_at r n b \<Longrightarrow> h < b_expiry b \<Longrightarrow>
   \<exists>b'. bound_at r' n b' \<and> kept (set observations) r n b b'"
  by (rule connect_keeps_binding)

theorem live_binding_protected_witness:
  "\<exists>ab r' b'. connect_delta ex_adm 53 [ex_approval 20 2] = Inr (ab, r') \<and> bound_at r' ex_name b' \<and> b_owner b' = [2] \<and>
     b_target b' = Publication [8] \<and> quorum_retargets {ex_approval 20 2} ex_adm ex_name [2] (b_target b')"
proof -
  obtain ab r' where con: "connect_delta ex_adm 53 [ex_approval 20 2] = Inr (ab, r')" using ex_adm_accepted by blast
  have "bound_at ex_adm ex_name ex_binding" by (simp add: ex_adm_bound_at)
  moreover have "(53 :: u64) < b_expiry ex_binding" by (simp add: ex_binding_def)
  ultimately obtain b' where b': "bound_at r' ex_name b'" "kept {ex_approval 20 2} ex_adm ex_name ex_binding b'"
    using live_binding_protected [OF ex_adm_inv con] by auto
  have "b_target b' = Publication [8]"
    using con b'(1)
    by (auto simp: connect_delta_Inr open_frame_def expire_def due_entries_def block_order_def apply_block_def
        approver_records_def approver_record_def owner_records_def owner_record_def approve_def admit_approver_def admit_def
        complete_def ex_adm_def ex_adm_rules_def ex_approval_def ex_update_def ex_binding_def ex_name_def checked_sub_def Let_def
        is_approver_def bound_at_def state_of_def remember_pending_def)
  moreover have "\<not> owner_retargets {ex_approval 20 2} ex_adm ex_name k t" for k t
    by (simp add: owner_retargets_def ex_adm_def ex_adm_rules_def)
  ultimately have "quorum_retargets {ex_approval 20 2} ex_adm ex_name [2] (b_target b')"
    using b'(2) by (auto simp: kept_def ex_binding_def)
  then show ?thesis using con b' \<open>b_target b' = Publication [8]\<close> by (auto simp: kept_def ex_binding_def)
qed

text \<open>
  C14: in an open registry a free name goes to the author of the admitted claim with the earliest
  commitment (height, position, output); that claim is reported as applied and every other admitted
  claim of the name as a lost race.
\<close>
theorem earliest_commitment_wins:
  assumes "reg_inv r" "connect_delta r h observations = Inr (ab, r')" "g_mode (r_rules r) = Open"
    "\<forall>b. bound_at r n b \<longrightarrow> b_expiry b \<le> h" "expiry_after r h \<noteq> None"
    "obs0 \<in> set observations" "contends r n obs0"
  shows "\<exists>w \<in> set observations. contends r n w \<and>
    (\<exists>b. bound_at r' n b \<and> b_owner b = o_author w \<and> b_claim_txid b = o_txid w) \<and>
    (\<forall>obs \<in> set observations. contends r n obs \<longrightarrow> commit_key w \<le> commit_key obs \<and>
       Outcome_new obs (if obs = w then Applied else Inert LostRace) \<in> set (ab_outcomes ab))"
proof -
  obtain e where "expiry_after r h = Some e" using assms(5) by blast
  from connect_race [OF assms(2,1,3,4) this assms(6,7)] show ?thesis .
qed

theorem earliest_commitment_wins_witness:
  "\<exists>ab r' b. connect_delta ex_open 53 ex_block = Inr (ab, r') \<and> bound_at r' ex_name b \<and> b_owner b = [21] \<and>
    Outcome_new (ex_claim 10 0 52) (Inert LostRace) \<in> set (ab_outcomes ab)"
proof -
  obtain ab r' where con: "connect_delta ex_open 53 ex_block = Inr (ab, r')" using ex_block_accepted by blast
  have free: "\<forall>b. bound_at ex_open ex_name b \<longrightarrow> b_expiry b \<le> 53" by (simp add: bound_at_def ex_open_def)
  have both: "contends ex_open ex_name (ex_claim 10 0 52)" "contends ex_open ex_name (ex_claim 20 1 51)"
    by (simp_all add: contends_def ex_claim_def admit_def ex_open_def ex_rules_def checked_sub_def)
  have "expiry_after ex_open 53 \<noteq> None" by (simp add: expiry_after_def ex_open_def ex_rules_def checked_add_def)
  moreover have "g_mode (r_rules ex_open) = Open" by (simp add: ex_open_def ex_rules_def)
  ultimately obtain w where w: "w \<in> set ex_block" "\<exists>b. bound_at r' ex_name b \<and> b_owner b = o_author w \<and> b_claim_txid b = o_txid w"
    "\<forall>obs \<in> set ex_block. contends ex_open ex_name obs \<longrightarrow> commit_key w \<le> commit_key obs \<and>
       Outcome_new obs (if obs = w then Applied else Inert LostRace) \<in> set (ab_outcomes ab)"
    using earliest_commitment_wins [OF ex_open_inv con _ free, of "ex_claim 10 0 52"] both(1)
    unfolding ex_block_def by (metis list.set_intros(1))
  have "w \<noteq> ex_claim 10 0 52" using w(3) both by (auto simp: ex_block_def commit_key_def ex_claim_def less_eq_prod_def)
  then have "w = ex_claim 20 1 51" using w(1) by (simp add: ex_block_def)
  moreover have "ex_claim 20 1 51 \<noteq> ex_claim 10 0 52" by (simp add: ex_claim_def)
  moreover have "o_author (ex_claim 20 1 51) = [21]" by (simp add: ex_claim_def)
  ultimately show ?thesis using con w(2,3) both by (auto simp: ex_block_def)
qed

text \<open>
  C15: a name that is bound after a block and was free before it has an origin in the block. In an open registry
  it was given to the author of an admitted claim of the block, with that claim's target and the lease of the
  registry. In an administered one it was given to the author of a request for this name that was pending before the block
  and is approved in it: its approvals and the admitted votes of the block for exactly this record reach the
  threshold; and then the name was not suspended, or had a vote to restore it in the block. What the block
  changed on the new binding afterwards is what it may change on any binding.
\<close>
theorem new_binding_has_origin:
  "reg_inv r \<Longrightarrow> connect_delta r h observations = Inr (ab, r') \<Longrightarrow> bound_at r' n b' \<Longrightarrow>
   \<forall>b. bound_at r n b \<longrightarrow> b_expiry b \<le> h \<Longrightarrow>
   \<exists>b. (claimed_binding (set observations) r n b \<or> granted_binding (set observations) r n b) \<and> kept (set observations) r n b b'"
  using connect_origin unfolding has_origin_def by blast

theorem new_binding_has_origin_witness:
  "\<exists>ab r' b'. connect_delta ex_adm 53 [ex_approval 10 1] = Inr (ab, r') \<and> bound_at r' ex_other b' \<and> b_owner b' = [11] \<and>
     (\<exists>b. granted_binding {ex_approval 10 1} ex_adm ex_other b \<and> kept {ex_approval 10 1} ex_adm ex_other b b')"
proof -
  obtain ab r' where con: "connect_delta ex_adm 53 [ex_approval 10 1] = Inr (ab, r')" using ex_adm_accepted by blast
  have free: "\<forall>b. bound_at ex_adm ex_other b \<longrightarrow> b_expiry b \<le> 53" by (simp add: ex_adm_bound_at ex_other_def ex_name_def)
  obtain b' where b': "bound_at r' ex_other b'" "b_owner b' = [11]"
    using con
    by (auto simp: connect_delta_Inr open_frame_def expire_def due_entries_def block_order_def apply_block_def
        approver_records_def approver_record_def owner_records_def owner_record_def approve_def admit_approver_def admit_def
        complete_def ex_adm_def ex_adm_rules_def ex_approval_def ex_request_def ex_binding_def ex_name_def ex_other_def checked_sub_def Let_def
        is_approver_def bound_at_def state_of_def remember_pending_def expiry_after_def checked_add_def NameState_unbound_def)
  have "\<not> claimed_binding {ex_approval 10 1} ex_adm ex_other b" for b
    by (simp add: claimed_binding_def ex_adm_def ex_adm_rules_def)
  then show ?thesis using new_binding_has_origin [OF ex_adm_inv con b'(1) free] con b' by auto
qed

text \<open>
  C17: a block reports each of its observations exactly once, by transaction id and position, unless
  the expiry height of an open registry overflows.
\<close>
theorem every_observation_reported:
  "reg_inv r \<Longrightarrow> connect_delta r h observations = Inr (ab, r') \<Longrightarrow>
   g_mode (r_rules r) = Administered \<or> expiry_after r h \<noteq> None \<Longrightarrow>
   reported_ids (ab_outcomes ab) = observation_ids observations"
  by (rule connect_reports_all)

theorem every_observation_reported_witness:
  "\<exists>ab r'. connect_delta ex_open 53 ex_block = Inr (ab, r') \<and>
     reported_ids (ab_outcomes ab) = {#([10], 0), ([20], 1)#}"
proof -
  obtain ab r' where con: "connect_delta ex_open 53 ex_block = Inr (ab, r')" using ex_block_accepted by blast
  have "expiry_after ex_open 53 \<noteq> None" by (simp add: expiry_after_def ex_open_def ex_rules_def checked_add_def)
  then have "reported_ids (ab_outcomes ab) = observation_ids ex_block"
    using every_observation_reported [OF ex_open_inv con] by blast
  then show ?thesis using con by (simp add: ex_block_def ex_claim_def)
qed

text \<open>
  C19: the engine accepts a block exactly when it is the next height, all its observations carry that
  height and no two of them share a position, in whatever order they are given; every other block is refused
  without a state.
\<close>
theorem connect_accepts_exactly:
  "(\<exists>ab r'. connect_delta r h observations = Inr (ab, r')) \<longleftrightarrow>
     unat h = unat (r_height r) + 1 \<and> o_height ` set observations \<subseteq> {h} \<and> distinct (map o_position observations)"
  by (rule connect_accepts)

text \<open>
  C20: a registry rebuilt from its stored parts is the registry that was stored: for any run of blocks
  from a valid genesis and any number of undo frames kept, \<open>from_parts\<close> accepts the parts and gives
  the pruned registry, with the same expiry index and undo frames.
\<close>
theorem from_parts_restores:
  assumes "Registry_new t gh g = Inr r0" "connect_all connect_at r0 bs = Inr (ds, r)"
    "bt_inv names" "bt_get names = r_names r" "keep \<le> length ds"
  shows "from_parts t gh g (r_height r) names (r_pending r) (drop (length ds - keep) ds) = Inr (prune r keep)"
  using assms by (rule from_parts_pruned)

theorem from_parts_restores_witness:
  "\<exists>r0 d r. Registry_new [7] 52 ex_rules = Inr r0 \<and> connect_all connect_at r0 [(53, [])] = Inr ([d], r) \<and>
     from_parts [7] 52 ex_rules (r_height r) [] (r_pending r) [d] = Inr (prune r 1)"
proof -
  obtain r0 where r0: "Registry_new [7] 52 ex_rules = Inr r0" by (simp add: Registry_new_def)
  then have h: "r_height r0 = 52" "r_names r0 = Map.empty" "g_mode (r_rules r0) = Open" by (auto simp: Registry_new_def ex_rules_def)
  obtain ab r where con: "connect_delta r0 53 [] = Inr (ab, r)" using connect_accepts [of r0 53 "[]"] h by auto
  then have run: "connect_all connect_at r0 [(53, [])] = Inr ([ab_delta ab], r)" by (simp add: connect_at_def)
  have "\<not> bound_at r0 n b" for n b using h(2) by (simp add: bound_at_def)
  have "r_names r = Map.empty"
    using con r0 by (auto simp: connect_delta_Inr Registry_new_def open_frame_def expire_def due_entries_def block_order_def
        apply_block_def approver_records_def owner_records_def claims_def ex_rules_def)
  then have "from_parts [7] 52 ex_rules (r_height r) [] (r_pending r) [ab_delta ab] = Inr (prune r 1)"
    using from_parts_restores [OF r0 run, of "[]" 1] by (simp add: bt_get_def [abs_def])
  then show ?thesis using r0 run by blast
qed

text \<open>
  C36: in a reachable registry a pending record exists only in an administered registry, its approvals
  are those of distinct approvers, and it is completed exactly when they reach the threshold.
\<close>
theorem completed_iff_quorum:
  "reachable r \<Longrightarrow> r_pending r t = Some rec \<Longrightarrow>
   g_mode (r_rules r) = Administered \<and> pr_approvals rec \<subseteq> set (approvers (r_rules r)) \<and>
   (pr_completed rec \<longleftrightarrow> unat (threshold (r_rules r)) \<le> card (pr_approvals rec))"
  using undo_chain_inv [OF reachable_chain] by (fastforce simp: reg_inv_def reg_wf_def pending_wf_def)

theorem completed_iff_quorum_witness:
  "\<exists>r rec. reachable r \<and> r_pending r [10] = Some rec \<and> pr_approvals rec \<subseteq> {[5]} \<and>
     (pr_completed rec \<longleftrightarrow> 1 \<le> card (pr_approvals rec))"
proof -
  obtain r0 where r0: "Registry_new [7] 51 ex_adm_rules = Inr r0"
    by (auto simp: Registry_new_def ex_adm_rules_def Genesis_validate_def MAX_APPROVERS_def)
  then have f0: "r_height r0 = 51" "r_rules r0 = ex_adm_rules" "r_expiries r0 = {}" "r_genesis r0 = [7]" "r_genesis_height r0 = 51"
    by (auto simp: Registry_new_def)
  obtain ab1 r1 where c1: "connect_delta r0 52 [] = Inr (ab1, r1)" using connect_accepts [of r0 52 "[]"] f0(1) by auto
  then have f1: "r_height r1 = 52" "r_rules r1 = ex_adm_rules" "r_expiries r1 = {}" "r_genesis r1 = [7]" "r_genesis_height r1 = 51"
    using f0 by (auto simp: connect_delta_Inr open_frame_def expire_def due_entries_def block_order_def apply_block_def
        approver_records_def owner_records_def ex_adm_rules_def)
  have "\<exists>ab r'. connect_delta r1 53 [ex_claim 10 0 52] = Inr (ab, r')"
    unfolding connect_accepts using f1(1) by (simp add: ex_claim_def)
  then obtain ab2 r2 where c2: "connect_delta r1 53 [ex_claim 10 0 52] = Inr (ab2, r2)" by blast
  have "admit r1' (ex_claim 10 0 52) [7] = Admitted" if "r_genesis r1' = [7]" "r_genesis_height r1' = 51" "r_rules r1' = ex_adm_rules" for r1'
    using that by (simp add: admit_def ex_claim_def ex_adm_rules_def checked_sub_def)
  moreover have "[9 :: u8] \<noteq> replicate 32 0" by (simp add: numeral_eq_Suc)
  ultimately have "r_pending r2 [10] \<noteq> None"
    using c2 f1 by (auto simp: connect_delta_Inr open_frame_def expire_def due_entries_def block_order_def apply_block_def
        approver_records_def approver_record_def owner_records_def owner_record_def ex_adm_rules_def
        Registry.request_def insert_pending_def put_pending_def remember_pending_def is_reserving_def ex_claim_def Let_def)
  then obtain rec where rec: "r_pending r2 [10] = Some rec" by blast
  have reach: "reachable r2" by (rule reachable.connected [OF reachable.connected [OF reachable.created [OF r0] c1] c2])
  have "r_rules r2 = ex_adm_rules"
    using connect_phases(3) [OF c2] f1 reachable_chain [OF reachable.connected [OF reachable.created [OF r0] c1]]
    by (simp add: same_rules_def undo_chain_inv inv_index)
  then show ?thesis using reach rec completed_iff_quorum [OF reach rec] by (auto simp: ex_adm_rules_def)
qed

end
