(* ===== verification/Names_Scan_Inv.thy ===== *)
theory Names_Scan_Inv
  imports Names_Scan Registry_Properties
begin

section \<open>The names index stays consistent\<close>

text \<open>
  The invariant of the names index: the registry is one the engine reaches, there is one checkpoint
  for each block the registry can disconnect, their heights run up to the height of the registry and
  each names a block that follows the block of the checkpoint before it. Scanning, rolling back and
  persisting keep it whatever the source and the file system answer, and the file never holds an
  index without it.
\<close>

definition follows :: "'hdr scan_lib \<Rightarrow> checkpoint \<Rightarrow> checkpoint \<Rightarrow> bool" where
  "follows lib a b \<longleftrightarrow>
     (\<exists>hdr. sl_hash_text lib (b_block_hash (sl_chain lib) hdr) = cp_hash b \<and> sl_hash_text lib (sl_prev lib hdr) = cp_hash a)"

definition heights_to :: "checkpoint list \<Rightarrow> nat \<Rightarrow> bool" where
  "heights_to cps h \<longleftrightarrow> map (\<lambda>cp. unat (cp_height cp)) cps = [h + 1 - length cps..<h + 1]"

definition index_inv :: "'hdr scan_lib \<Rightarrow> names_index \<Rightarrow> bool" where
  "index_inv lib i \<longleftrightarrow>
     reachable (ni_registry i) \<and> length (ni_blocks i) = length (r_undo (ni_registry i)) \<and>
     heights_to (ni_blocks i) (unat (r_height (ni_registry i))) \<and> successively (follows lib) (ni_blocks i)"

definition index_ok :: "'hdr scan_lib \<Rightarrow> names_index \<Rightarrow> bool" where
  "index_ok lib i \<longleftrightarrow> index_inv lib i \<and>
     (ni_blocks i = [] \<longrightarrow> r_height (ni_registry i) = r_genesis_height (ni_registry i))"

text \<open>The content of the file: whatever it decodes to is a consistent index.\<close>

definition stored_ok :: "'hdr scan_lib \<Rightarrow> bytes option \<Rightarrow> bool" where
  "stored_ok lib content \<longleftrightarrow> (\<forall>bs i. content = Some bs \<longrightarrow> sl_from_json lib bs = Some i \<longrightarrow> index_ok lib i)"

definition json_laws :: "'hdr scan_lib \<Rightarrow> bool" where
  "json_laws lib \<longleftrightarrow> (\<forall>i bs. sl_to_json lib i = Some bs \<longrightarrow> sl_from_json lib bs = Some i)"

subsection \<open>Checkpoint lists\<close>

lemma heights_to_length: "heights_to cps h \<Longrightarrow> length cps \<le> h + 1"
  unfolding heights_to_def by (metis diff_le_self length_map length_upt diff_diff_cancel nat_le_linear add_diff_cancel_left' diff_is_0_eq)

lemma heights_to_snoc:
  assumes "heights_to cps h" "unat (cp_height cp) = Suc h"
  shows "heights_to (cps @ [cp]) (Suc h)"
  using assms heights_to_length [OF assms(1)] by (simp add: heights_to_def)

lemma heights_to_butlast:
  assumes "heights_to cps (Suc h)" "cps \<noteq> []"
  shows "heights_to (butlast cps) h" "unat (cp_height (last cps)) = Suc h"
proof -
  have l: "length cps \<le> Suc (Suc h)" using heights_to_length [OF assms(1)] by simp
  obtain n where n: "length cps = Suc n" using assms(2) by (cases cps) auto
  have m: "map (\<lambda>cp. unat (cp_height cp)) cps = [Suc h - n..<Suc (Suc h)]"
    using assms(1) n by (simp add: heights_to_def)
  then have snoc: "map (\<lambda>cp. unat (cp_height cp)) (butlast cps @ [last cps]) = [Suc h - n..<Suc h] @ [Suc h]"
    using assms(2) l n by simp
  then show "heights_to (butlast cps) h" "unat (cp_height (last cps)) = Suc h"
    using n by (auto simp: heights_to_def)
qed

lemma heights_to_drop: "heights_to cps h \<Longrightarrow> heights_to (drop n cps) h"
  using heights_to_length [of cps h] by (cases "n \<le> length cps") (auto simp: heights_to_def simp flip: drop_map)

lemma successively_butlast: "successively P xs \<Longrightarrow> successively P (butlast xs)"
  by (metis append_butlast_last_id butlast.simps(1) successively_append_iff)

lemma successively_drop: "successively P xs \<Longrightarrow> successively P (drop n xs)"
  by (metis append_take_drop_id successively_append_iff)

subsection \<open>Connecting, disconnecting, trimming\<close>

lemma connect_facts:
  assumes "connect r h obss = Inr (outcomes, r')" "reachable r"
  shows "reachable r'" "length (r_undo r') = Suc (length (r_undo r))" "r_height r' = h" "unat h = Suc (unat (r_height r))"
    "same_identity r r'"
proof -
  from assms(1) obtain ab where c: "connect_delta r h obss = Inr (ab, r')" by (auto simp: connect_def)
  have inv: "exp_index r" by (rule inv_index [OF undo_chain_inv [OF reachable_chain [OF assms(2)]]])
  show "reachable r'" by (rule reachable.connected [OF assms(2) c])
  show "length (r_undo r') = Suc (length (r_undo r))"
    using connect_frame [OF c inv] by (auto simp: frame_ok_def)
  have rules: "same_rules (open_frame r h) r'" by (rule connect_phases(3) [OF c inv])
  then show "r_height r' = h" "same_identity r r'" by (simp_all add: same_rules_def same_identity_def)
  show "unat h = Suc (unat (r_height r))" using c by (simp add: connect_delta_Inr checked_add_Some)
qed

lemma disconnect_facts:
  assumes "reachable r" "r_undo r \<noteq> []"
  obtains r' where "disconnect r = Inr (r_height r, r')" "reachable r'" "length (r_undo r) = Suc (length (r_undo r'))"
    "unat (r_height r) = Suc (unat (r_height r'))" "same_identity r r'"
proof -
  obtain r' where r': "disconnect_delta r = Inr (forward_delta r (last (r_undo r)), r')" "undo_chain r'"
    using undo_chain_disconnect [OF reachable_chain [OF assms(1)] assms(2)] by blast
  have chain: "undo_chain r" by (rule reachable_chain [OF assms(1)])
  from chain assms(2) obtain r0 where r0: "frame_ok r0 r" "undo_chain r0" "same_rules (open_frame r0 (r_height r)) r"
    "unat (r_height r) = Suc (unat (r_height r0))" by (auto elim: undo_chain.cases)
  have "r' = r0"
    using disconnect_restores [OF r0(1) inv_index [OF undo_chain_inv [OF r0(2)]] inv_index [OF undo_chain_inv [OF chain]] r0(3,4)]
      r'(1) by simp
  moreover have "disconnect r = Inr (r_height r, r')" using r'(1) by (simp add: disconnect_def forward_delta_def)
  moreover have "reachable r'" by (rule reachable.disconnected [OF assms(1) r'(1)])
  ultimately show ?thesis
    using that r0 by (auto simp: frame_ok_def same_rules_def same_identity_def)
qed

lemma prune_undo: "length (r_undo (prune r keep)) = min keep (length (r_undo r))"
  by (auto simp: prune_def)

lemma trim_inv: "index_inv lib i \<Longrightarrow> index_inv lib (NamesIndex_trim i window_blocks)"
  by (auto simp: index_inv_def NamesIndex_trim_def Let_def prune_undo
      intro: reachable.pruned heights_to_drop successively_drop)

lemma trim_nonempty:
  "ni_blocks i \<noteq> [] \<Longrightarrow> ni_blocks (NamesIndex_trim i window_blocks) \<noteq> []"
  by (auto simp: NamesIndex_trim_def Let_def REVERSIBLE_def)

lemma trim_simps [simp]:
  "r_height (ni_registry (NamesIndex_trim i wb)) = r_height (ni_registry i)"
  "r_genesis (ni_registry (NamesIndex_trim i wb)) = r_genesis (ni_registry i)"
  "r_genesis_height (ni_registry (NamesIndex_trim i wb)) = r_genesis_height (ni_registry i)"
  "r_names (ni_registry (NamesIndex_trim i wb)) = r_names (ni_registry i)"
  "r_pending (ni_registry (NamesIndex_trim i wb)) = r_pending (ni_registry i)"
  "ni_genesis_hash (NamesIndex_trim i wb) = ni_genesis_hash i"
  "ni_network (NamesIndex_trim i wb) = ni_network i"
  by (simp_all add: NamesIndex_trim_def Let_def)

lemma new_index_ok: "Registry_new t h g = Inr r \<Longrightarrow> index_ok lib (NamesIndex_new network genesis hash r)"
  by (auto simp: index_ok_def index_inv_def NamesIndex_new_def heights_to_def intro: reachable.created)
    (auto simp: Registry_new_def)

subsection \<open>The actions\<close>

lemma keeps_call [keeps_rules]: "(\<And>x. Q x) \<Longrightarrow> (\<And>e. Z (Source e)) \<Longrightarrow> keeps (file_ok F) Z (call f) Q"
  by (rule keepsI) (auto simp: call_def file_ok_def map_err_def split: prod.splits sum.splits)

lemma keeps_names: "(\<And>x. r = Inr x \<Longrightarrow> Q x) \<Longrightarrow> (\<And>e. r = Inl e \<Longrightarrow> Z (Names e)) \<Longrightarrow> keeps F Z (names r) Q"
  unfolding names_def by (rule keeps_lift) (cases r; simp)+

lemma keeps_ensure: "(c \<Longrightarrow> Q ()) \<Longrightarrow> (\<not> c \<Longrightarrow> Z (Names (NamesInvalid m))) \<Longrightarrow> keeps F Z (ensure_names c m) Q"
  unfolding ensure_names_def by (rule keeps_check)

text \<open>A fetched block passed the integrity checks.\<close>

lemma fetch_block_keeps:
  "keeps (file_ok F) (\<lambda>_. True) (fetch_block lib src h)
     (\<lambda>b. \<exists>expected. validate_block_integrity (sl_chain lib) (fst b) (snd b) expected = Inr ())"
proof (rule keeps_result)
  show "keeps (file_ok F) (\<lambda>_. True) (fetch_block lib src h) (\<lambda>_. True)"
    unfolding fetch_block_def
    by (rule keeps_then, rule keeps_call, simp_all, split prod.split, intro allI impI)
      (intro keeps_then keeps_call keeps_names keeps_ret; simp)
next
  fix w b w' assume "fetch_block lib src h w = (Inr b, w')"
  then show "\<exists>expected. validate_block_integrity (sl_chain lib) (fst b) (snd b) expected = Inr ()"
    by (auto simp: fetch_block_def ibind_eq_Inr names_def act_apps split: prod.splits)
qed

text \<open>Reading the chain has no other effect than on the state of the world.\<close>

lemma observe_tx_keeps: "keeps (file_ok F) (\<lambda>_. True) (observe_tx lib src l h entry) (\<lambda>_. True)"
  unfolding observe_tx_def Let_def
  by (auto split: prod.splits sum.splits commit_location.splits option.splits
      intro!: keeps_ret keeps_then keeps_call keeps_names)

lemma observe_txs_keeps: "keeps (file_ok F) (\<lambda>_. True) (observe_txs lib src l h entries) (\<lambda>_. True)"
  by (induction lib src l h entries rule: observe_txs.induct) (auto intro!: keeps_ret keeps_then observe_tx_keeps)

lemma scan_block_keeps: "keeps (file_ok F) (\<lambda>_. True) (scan_block lib src i l h) (\<lambda>_. True)"
  unfolding scan_block_def Let_def observations_def
  by (auto split: prod.splits intro!: keeps_ret keeps_then keeps_call keeps_names keeps_ensure observe_txs_keeps
      keeps_weaken [OF fetch_block_keeps])

subsection \<open>Scanning a block\<close>

text \<open>Where an observation comes from: a transaction of the block whose author proof verified, with the
  commit where the locator has it.\<close>

definition verified_observation :: "'hdr scan_lib \<Rightarrow> locator \<Rightarrow> transaction list \<Rightarrow> u64 \<Rightarrow> observation \<Rightarrow> bool" where
  "verified_observation lib l txs h obs \<longleftrightarrow>
     (\<exists>tx \<in> set txs. \<exists>commit v.
        VerifiedRecord_verify (sl_envelope lib) (e_txid (sl_envelope lib) tx) tx commit = Inr v \<and>
        observation_from_verified (sl_envelope lib) v tx h (o_position obs) (o_commit obs) = Inr (Some obs) \<and>
        locate l (c_txid (o_commit obs)) = Known (c_height (o_commit obs)) (c_position (o_commit obs)))"

lemma observation_from_verified_fields:
  "observation_from_verified env v tx h p commit = Inr (Some obs) \<Longrightarrow>
     o_height obs = h \<and> o_position obs = p \<and> o_commit obs = commit \<and> o_txid obs = vr_txid v \<and> o_author obs = vr_author v"
proof -
  assume "observation_from_verified env v tx h p commit = Inr (Some obs)"
  then obtain kind where "observation_from_record env (vr_record v) (vr_txid v) (vr_author v) h p commit = Inr (Some obs)"
    by (auto simp: observation_from_verified_def protocol_def)
  then obtain public where
    "(case public of ProfileRecord profile payload \<Rightarrow>
        if profile \<noteq> PROFILE then Inr None
        else rbind (Payload_from_record (e_xonly env) public) (\<lambda>pl.
           Inr (Some \<lparr>o_txid = vr_txid v, o_author = vr_author v, o_record_sha256 = e_sha256 env (vr_record v),
                      o_payload = pl, o_height = h, o_position = p, o_commit = commit\<rparr>))
      | _ \<Rightarrow> Inr None) = Inr (Some obs)"
    by (auto simp: observation_from_record_def split: if_splits)
  then show ?thesis by (cases public) (auto split: if_splits)
qed

lemma observe_tx_verified:
  fixes src :: "('s, 'e, 'hdr) source"
  assumes "observe_tx lib src l h (position, tx) w = (Inr obss, w')" "obs \<in> set obss" "tx \<in> set txs"
  shows "verified_observation lib l txs h obs"
proof -
  let ?o = "tx_input tx ! 0"
  let ?commit = "\<lambda>ch cp. \<lparr>c_txid = ti_txid ?o, c_vout = ti_vout ?o, c_height = ch, c_position = cp\<rparr>"
  from assms(1,2) obtain ch cp where l: "locate l (ti_txid ?o) = Known ch cp"
    and run: "ibind (call (src_transaction src (ti_txid ?o))) (\<lambda>commit.
       case VerifiedRecord_verify (sl_envelope lib) (e_txid (sl_envelope lib) tx) tx commit of
         Inl cause \<Rightarrow> iret []
       | Inr v \<Rightarrow>
           ibind (names (map_err (\<lambda>_. NamesInteger) (try_from position))) (\<lambda>p.
           case observation_from_verified (sl_envelope lib) v tx h p (?commit ch cp) of
             Inr (Some obs) \<Rightarrow> iret [obs] | _ \<Rightarrow> iret [])) w = (Inr obss, w')"
    by (auto simp: observe_tx_def Let_def act_apps split: if_splits sum.split_asm commit_location.split_asm)
  from run obtain commit w1 where run1: "(case VerifiedRecord_verify (sl_envelope lib) (e_txid (sl_envelope lib) tx) tx commit of
         Inl cause \<Rightarrow> iret []
       | Inr v \<Rightarrow>
           ibind (names (map_err (\<lambda>_. NamesInteger) (try_from position))) (\<lambda>p.
           case observation_from_verified (sl_envelope lib) v tx h p (?commit ch cp) of
             Inr (Some obs) \<Rightarrow> iret [obs] | _ \<Rightarrow> iret [])) w1 = (Inr obss :: 'e scan_error + observation list, w')"
    unfolding ibind_eq_Inr by (elim exE conjE) (rule that)
  then obtain v where v: "VerifiedRecord_verify (sl_envelope lib) (e_txid (sl_envelope lib) tx) tx commit = Inr v"
    using assms(2) by (cases "VerifiedRecord_verify (sl_envelope lib) (e_txid (sl_envelope lib) tx) tx commit")
      (auto simp: act_apps)
  with run1 obtain p w2 where "(case observation_from_verified (sl_envelope lib) v tx h p (?commit ch cp) of
             Inr (Some obs) \<Rightarrow> iret [obs] | _ \<Rightarrow> iret []) w2 = (Inr obss :: 'e scan_error + observation list, w')"
    by (auto simp: ibind_eq_Inr)
  then have obs: "observation_from_verified (sl_envelope lib) v tx h p (?commit ch cp) = Inr (Some obs)"
    using assms(2) by (auto simp: act_apps split: sum.split_asm option.split_asm)
  from l v obs observation_from_verified_fields [OF obs] assms(3) show ?thesis
    unfolding verified_observation_def by (intro bexI [of _ tx] exI [of _ commit] exI [of _ v]) auto
qed

lemma observe_txs_verified:
  "observe_txs lib src l h entries w = (Inr obss, w') \<Longrightarrow> snd ` set entries \<subseteq> set txs \<Longrightarrow>
   \<forall>obs \<in> set obss. verified_observation lib l txs h obs"
proof (induction entries arbitrary: obss w w')
  case (Cons entry entries)
  obtain position tx where e: "entry = (position, tx)" by fastforce
  from Cons.prems(1) obtain os w1 rest w2 where
    "observe_tx lib src l h entry w = (Inr os, w1)" "observe_txs lib src l h entries w1 = (Inr rest, w2)" "obss = os @ rest"
    by (auto simp: ibind_eq_Inr act_apps)
  with Cons.IH Cons.prems(2) observe_tx_verified show ?case unfolding e by fastforce
qed (simp add: act_apps)

lemma scan_block_result:
  assumes "scan_block lib src i l h w = (Inr (outcomes, i', l'), w')"
  obtains block obss r wb commits expected where
    "validate_block_integrity (sl_chain lib) (fst block) (snd block) expected = Inr ()"
    "prev_hash_text lib block = (if ni_blocks i = [] then ni_genesis_hash i else cp_hash (last (ni_blocks i)))"
    "\<forall>obs \<in> set obss. verified_observation lib (Locator_push l h commits) (snd block) h obs"
    "connect (ni_registry i) h obss = Inr (outcomes, r)"
    "i' = NamesIndex_trim (i\<lparr>ni_registry := r, ni_window := ni_window i @ [wb],
       ni_blocks := ni_blocks i @ [\<lparr>cp_height = h, cp_hash = block_hash_text lib block\<rparr>]\<rparr>) (reveal_max_blocks (r_rules r))"
proof -
  from assms obtain block w1 commits obss w2 current w3 r wb w4 where *:
    "fetch_block lib src h w = (Inr block, w1)"
    "prev_hash_text lib block = (if ni_blocks i = [] then ni_genesis_hash i else cp_hash (last (ni_blocks i)))"
    "observations lib src (Locator_push l h commits) block h w2 = (Inr obss, w3)"
    "connect (ni_registry i) h obss = Inr (outcomes, r)"
    "i' = NamesIndex_trim (i\<lparr>ni_registry := r, ni_window := ni_window i @ [wb],
       ni_blocks := ni_blocks i @ [\<lparr>cp_height = h, cp_hash = block_hash_text lib block\<rparr>]\<rparr>) (reveal_max_blocks (r_rules r))"
    by (auto simp: scan_block_def Let_def ibind_eq_Inr names_def ensure_names_def act_apps protocol_def split: if_splits)
  obtain expected where valid: "validate_block_integrity (sl_chain lib) (fst block) (snd block) expected = Inr ()"
    using *(1) by (auto simp: fetch_block_def ibind_eq_Inr names_def act_apps split: prod.splits)
  have "snd ` set (enumerate 0 (snd block)) \<subseteq> set (snd block)" by (auto simp: in_set_enumerate_eq)
  from observe_txs_verified [OF *(3) [unfolded observations_def] this] valid *(2,4,5) that show ?thesis by blast
qed

lemma scan_block_inv:
  assumes "scan_block lib src i l h w = (Inr (outcomes, i', l'), w')" "index_ok lib i"
  shows "index_ok lib i' \<and> r_height (ni_registry i') = h \<and> unat h = Suc (unat (r_height (ni_registry i))) \<and>
    same_identity (ni_registry i) (ni_registry i') \<and> ni_network i' = ni_network i \<and> ni_genesis_hash i' = ni_genesis_hash i \<and>
    ni_blocks i' \<noteq> []"
proof -
  from assms(1) obtain block obss r wb where *:
    "prev_hash_text lib block = (if ni_blocks i = [] then ni_genesis_hash i else cp_hash (last (ni_blocks i)))"
    "connect (ni_registry i) h obss = Inr (outcomes, r)"
    "i' = NamesIndex_trim (i\<lparr>ni_registry := r, ni_window := ni_window i @ [wb],
       ni_blocks := ni_blocks i @ [\<lparr>cp_height = h, cp_hash = block_hash_text lib block\<rparr>]\<rparr>) (reveal_max_blocks (r_rules r))"
    by (rule scan_block_result)
  let ?cp = "\<lparr>cp_height = h, cp_hash = block_hash_text lib block\<rparr>"
  let ?i1 = "i\<lparr>ni_registry := r, ni_window := ni_window i @ [wb], ni_blocks := ni_blocks i @ [?cp]\<rparr>"
  have inv: "index_inv lib i" using assms(2) by (simp add: index_ok_def)
  then have reach: "reachable (ni_registry i)" by (simp add: index_inv_def)
  note c = connect_facts [OF *(2) reach]
  have "ni_blocks i \<noteq> [] \<Longrightarrow> follows lib (last (ni_blocks i)) ?cp"
    using *(1) unfolding follows_def block_hash_text_def prev_hash_text_def by auto
  then have "successively (follows lib) (ni_blocks i @ [?cp])"
    using inv by (auto simp: index_inv_def successively_append_iff)
  moreover have "heights_to (ni_blocks i @ [?cp]) (unat h)"
    using inv c(4) heights_to_snoc [of "ni_blocks i" "unat (r_height (ni_registry i))" ?cp] by (simp add: index_inv_def)
  ultimately have "index_inv lib ?i1" using inv c by (simp add: index_inv_def)
  then have inv': "index_inv lib i'" unfolding *(3) by (rule trim_inv)
  have ne: "ni_blocks i' \<noteq> []" unfolding *(3) by (rule trim_nonempty) simp
  have "r_rules (ni_registry i') = r_rules r" unfolding *(3) by (simp add: NamesIndex_trim_def Let_def)
  with inv' ne c show ?thesis by (simp add: index_ok_def *(3) same_identity_def)
qed

subsection \<open>Rolling back\<close>

lemma on_chain_keeps: "keeps (file_ok F) (\<lambda>e. \<exists>s. e = Source s) (on_chain lib src tip cp) (\<lambda>_. True)"
  unfolding on_chain_def by (intro keeps_if keeps_then keeps_call keeps_ret) auto

definition rolled_back :: "'hdr scan_lib \<Rightarrow> names_index \<Rightarrow> names_index \<Rightarrow> nat \<Rightarrow> bool" where
  "rolled_back lib i i' n \<longleftrightarrow>
     index_inv lib i' \<and> n \<le> length (ni_blocks i) \<and>
     i' = i\<lparr>ni_blocks := take (length (ni_blocks i) - n) (ni_blocks i), ni_registry := ni_registry i'\<rparr> \<and>
     (\<exists>hs. disconnect_n disconnect n (ni_registry i) = Inr (hs, ni_registry i')) \<and>
     same_identity (ni_registry i) (ni_registry i') \<and>
     unat (r_height (ni_registry i)) = unat (r_height (ni_registry i')) + n"

lemma rolled_back_refl: "index_inv lib i \<Longrightarrow> rolled_back lib i i 0"
  by (simp add: rolled_back_def same_identity_def)

lemma disconnect_step:
  assumes "index_inv lib i" "ni_blocks i \<noteq> []"
  obtains r where "disconnect (ni_registry i) = Inr (cp_height (last (ni_blocks i)), r)"
    "index_inv lib (i\<lparr>ni_blocks := butlast (ni_blocks i), ni_registry := r\<rparr>)" "0 < reversible_blocks (ni_registry i)"
    "same_identity (ni_registry i) r" "unat (r_height (ni_registry i)) = Suc (unat (r_height r))"
proof -
  have reach: "reachable (ni_registry i)" and undo: "r_undo (ni_registry i) \<noteq> []"
    using assms by (auto simp: index_inv_def)
  from disconnect_facts [OF this] obtain r where r: "disconnect (ni_registry i) = Inr (r_height (ni_registry i), r)"
    "reachable r" "length (r_undo (ni_registry i)) = Suc (length (r_undo r))"
    "unat (r_height (ni_registry i)) = Suc (unat (r_height r))" "same_identity (ni_registry i) r" .
  have h: "heights_to (ni_blocks i) (Suc (unat (r_height r)))" using assms(1) r(4) by (simp add: index_inv_def)
  have last: "cp_height (last (ni_blocks i)) = r_height (ni_registry i)"
    using heights_to_butlast(2) [OF h assms(2)] r(4) by (simp add: word_unat_eq_iff)
  have "index_inv lib (i\<lparr>ni_blocks := butlast (ni_blocks i), ni_registry := r\<rparr>)"
    using assms r heights_to_butlast(1) [OF h assms(2)] by (auto simp: index_inv_def successively_butlast)
  with that r last undo show ?thesis by (simp add: reversible_blocks_def)
qed

lemma rolled_back_Suc:
  assumes "disconnect (ni_registry i) = Inr (h, r)" "same_identity (ni_registry i) r"
    "unat (r_height (ni_registry i)) = Suc (unat (r_height r))" "ni_blocks i \<noteq> []"
    "rolled_back lib (i\<lparr>ni_blocks := butlast (ni_blocks i), ni_registry := r\<rparr>) i' n"
  shows "rolled_back lib i i' (Suc n)"
proof -
  obtain k where k: "length (ni_blocks i) = Suc k" using assms(4) by (cases "ni_blocks i") auto
  then have "take (length (butlast (ni_blocks i)) - n) (butlast (ni_blocks i)) = take (length (ni_blocks i) - Suc n) (ni_blocks i)"
    by (simp add: take_butlast)
  with assms k show ?thesis by (auto simp: rolled_back_def same_identity_def)
qed

lemma names_protocol_Inr: "names (protocol (Inr x)) = iret x"
  by (simp add: names_def protocol_def ilift_def iret_def)

lemma rollback_loop_keeps:
  "index_inv lib i \<Longrightarrow> n = length (ni_blocks i) \<Longrightarrow>
   keeps (file_ok F) (\<lambda>e. \<exists>s. e = Source s) (rollback_loop lib src tip n i removed)
     (\<lambda>(i', k). removed \<le> k \<and> rolled_back lib i i' (k - removed))"
proof (induction n arbitrary: i removed)
  case 0
  then show ?case by (auto intro!: keeps_ret rolled_back_refl)
next
  case (Suc n)
  have ne: "ni_blocks i \<noteq> []" using Suc.prems(2) by auto
  obtain r where r: "disconnect (ni_registry i) = Inr (cp_height (last (ni_blocks i)), r)"
    "index_inv lib (i\<lparr>ni_blocks := butlast (ni_blocks i), ni_registry := r\<rparr>)" "0 < reversible_blocks (ni_registry i)"
    "same_identity (ni_registry i) r" "unat (r_height (ni_registry i)) = Suc (unat (r_height r))"
    using disconnect_step [OF Suc.prems(1) ne] .
  let ?i = "i\<lparr>ni_blocks := butlast (ni_blocks i), ni_registry := r\<rparr>"
  have "keeps (file_ok F) (\<lambda>e. \<exists>s. e = Source s) (rollback_loop lib src tip n ?i (Suc removed))
      (\<lambda>(i', k). removed \<le> k \<and> rolled_back lib i i' (k - removed))"
  proof (rule keeps_weaken [OF Suc.IH [OF r(2)]])
    fix x :: "names_index \<times> nat"
    obtain i' k where x: "x = (i', k)" by fastforce
    assume "case x of (i', k) \<Rightarrow> Suc removed \<le> k \<and> rolled_back lib ?i i' (k - Suc removed)"
    then have "Suc removed \<le> k" "rolled_back lib i i' (Suc (k - Suc removed))"
      using rolled_back_Suc [OF r(1,4,5) ne] by (auto simp: x)
    then show "case x of (i', k) \<Rightarrow> removed \<le> k \<and> rolled_back lib i i' (k - removed)"
      by (simp add: x Suc_diff_Suc)
  qed (use Suc.prems(2) in auto)
  then show ?case
    using r(3) rolled_back_refl [OF Suc.prems(1)]
    by (auto simp: Let_def r(1) names_protocol_Inr ensure_names_def icheck_def intro!: keeps_then [OF on_chain_keeps] keeps_if keeps_ret)
qed

end
