(* ===== verification/Envelope_Codec.thy ===== *)
theory Envelope_Codec
  imports Envelope
begin

section \<open>The envelope is a strict encoding of author and record\<close>

text \<open>
  What the code relies on of the script assembler and parser is documented Bitcoin Script: canonical
  operations parse back to themselves, short pushes are a length byte and the data, pushes of up to
  520 bytes add at most three bytes. Under these laws extraction accepts exactly the witnesses whose
  script is the one that publication assembles for the extracted author and record, and it misses
  none that the byte filter of the scanners lets through.
\<close>

datatype script_op = Slice bytes | Number int | Opcode u8

primrec op_bytes :: "'info envelope_lib \<Rightarrow> script_op \<Rightarrow> bytes" where
  "op_bytes lib (Slice b) = e_push_slice lib b"
| "op_bytes lib (Number n) = e_push_int lib n"
| "op_bytes lib (Opcode c) = [c]"

primrec op_ok :: "script_op \<Rightarrow> bool" where
  "op_ok (Slice b) = (b \<noteq> [] \<and> length b \<le> 520 \<and> (\<forall>v. b = [v] \<longrightarrow> \<not> (1 \<le> v \<and> v \<le> 16) \<and> v \<noteq> 0x81))"
| "op_ok (Number n) = (- 1 \<le> n \<and> n \<le> 16)"
| "op_ok (Opcode c) = (c \<in> {OP_IF, OP_ENDIF, OP_CHECKSIG})"

primrec read_op :: "script_op \<Rightarrow> instruction" where
  "read_op (Slice b) = PushBytes b"
| "read_op (Number n) = (if n = 0 then PushBytes [] else if n = - 1 then Op 0x4F else Op (0x50 + word_of_int n))"
| "read_op (Opcode c) = Op c"

definition script_laws :: "'info envelope_lib \<Rightarrow> bool" where
  "script_laws lib \<longleftrightarrow>
     (\<forall>ops. list_all op_ok ops \<longrightarrow>
        e_instructions_minimal lib (concat (map (op_bytes lib) ops)) = map (\<lambda>op. Inr (read_op op)) ops) \<and>
     (\<forall>b. 0 < length b \<and> length b \<le> 75 \<longrightarrow> e_push_slice lib b = word_of_nat (length b) # b) \<and>
     (\<forall>b. length b \<le> 520 \<longrightarrow> length b \<le> length (e_push_slice lib b) \<and> length (e_push_slice lib b) \<le> length b + 3) \<and>
     e_push_int lib 0 = [0] \<and>
     (\<forall>n. - 1 \<le> n \<and> n \<le> 16 \<longrightarrow> length (e_push_int lib n) = 1)"

definition segment_op :: "bytes \<Rightarrow> script_op" where
  "segment_op part =
     (case part of
        [v] \<Rightarrow> if 1 \<le> v \<and> v \<le> 16 then Number (uint v) else if v = 0x81 then Number (- 1) else Slice part
      | _ \<Rightarrow> Slice part)"

definition record_ops :: "bytes \<Rightarrow> bytes \<Rightarrow> script_op list" where
  "record_ops record author =
     [Slice author, Opcode OP_CHECKSIG, Number 0, Opcode OP_IF, Slice MAGIC] @
     map segment_op (chunks 520 record) @ [Opcode OP_ENDIF]"

lemma small_number:
  fixes v :: u8
  shows "1 \<le> v \<and> v \<le> 16 \<Longrightarrow> 1 \<le> uint v \<and> uint v \<le> 16"
  by (simp add: word_le_def)

lemma segment_op_ok: "part \<noteq> [] \<Longrightarrow> length part \<le> 520 \<Longrightarrow> op_ok (segment_op part)"
  using small_number by (auto simp: segment_op_def split: list.splits if_splits) (fastforce+)

lemma segment_script_op: "length part \<le> 520 \<Longrightarrow> segment_script lib part = Inr (op_bytes lib (segment_op part))"
  by (auto simp: segment_script_def segment_op_def split: list.splits)

lemma record_script_ops: "record_script lib record author = Inr (concat (map (op_bytes lib) (record_ops record author)))"
proof -
  have "rtraverse (segment_script lib) (chunks 520 record) =
      Inr (map (\<lambda>part. op_bytes lib (segment_op part)) (chunks 520 record))"
    by (rule rtraverse_all_Inr) (use chunks_lengths in \<open>blast intro: segment_script_op\<close>)
  then show ?thesis by (simp add: record_script_def record_ops_def comp_def)
qed

lemma record_ops_ok: "length author = 32 \<Longrightarrow> list_all op_ok (record_ops record author)"
  using chunks_lengths [of _ 520 "record"]
  by (auto simp: record_ops_def list_all_iff MAGIC_def intro!: segment_op_ok)

text \<open>Reading the segments back.\<close>

lemma uint_word_small: "word_of_int (uint v) = (v :: u8)"
  by simp

lemma read_segment:
  assumes "part \<noteq> []" "length part \<le> 520" "length (record @ part) \<le> RECORD_BYTES"
  shows "read_segments lib (Inr (read_op (segment_op part)) # ops) record = read_segments lib ops (record @ part)"
proof -
  consider v where "part = [v]" "1 \<le> v" "v \<le> 16" | v where "part = [v]" "v = 0x81" "\<not> (1 \<le> v \<and> v \<le> 16)"
    | "segment_op part = Slice part"
  proof (cases "\<exists>v. part = [v] \<and> (1 \<le> v \<and> v \<le> 16 \<or> v = 0x81)")
    case False
    then have "segment_op part = Slice part" by (auto simp: segment_op_def split: list.splits)
    then show ?thesis using that(3) by blast
  qed (use that(1,2) in auto)
  then show ?thesis
  proof cases
    case 1
    have u: "1 \<le> uint v" "uint v \<le> 16" using small_number [of v] 1(2,3) by simp_all
    have n: "unat v \<le> 16" using 1(3) by (simp add: word_le_nat_alt)
    then have "unat (0x50 + v) = 0x50 + unat v" by (simp add: unat_word_ariths)
    then have "0x51 \<le> 0x50 + v" "0x50 + v \<le> 0x60" "0x50 + v \<noteq> OP_ENDIF"
      using 1 n by (auto simp: word_le_nat_alt OP_ENDIF_def)
    moreover have "segment_op part = Number (uint v)" using 1 by (simp add: segment_op_def)
    ultimately show ?thesis using 1 u assms(3) by simp
  next
    case 2
    then have "segment_op part = Number (- 1)" by (simp add: segment_op_def)
    then show ?thesis using 2 assms(3) by (simp add: OP_ENDIF_def)
  next
    case 3
    then show ?thesis using assms by simp
  qed
qed

lemma read_segments_of:
  "\<forall>part \<in> set parts. part \<noteq> [] \<and> length part \<le> 520 \<Longrightarrow> length (record @ concat parts) \<le> RECORD_BYTES \<Longrightarrow>
   read_segments lib (map (\<lambda>part. Inr (read_op (segment_op part))) parts @ [Inr (Op OP_ENDIF)]) record =
     Inr (record @ concat parts)"
proof (induction parts arbitrary: "record")
  case (Cons part parts)
  then show ?case using read_segment [of part "record" lib] by simp
qed simp

lemma read_segments_bound:
  "read_segments lib ops record = Inr r \<Longrightarrow> length record \<le> RECORD_BYTES \<Longrightarrow> length r \<le> RECORD_BYTES"
  by (induction lib ops "record" rule: read_segments.induct) (auto split: if_splits list.splits)

lemma script_reads_back:
  assumes "script_laws lib" "length author = 32" "length record \<le> RECORD_BYTES"
    "record_script lib record author = Inr script"
  shows "read_segments lib (drop 5 (e_instructions_minimal lib script)) [] = Inr record"
proof -
  have "e_instructions_minimal lib script = map (\<lambda>op. Inr (read_op op)) (record_ops record author)"
    using assms record_ops_ok [OF assms(2)] unfolding script_laws_def by (auto simp: record_script_ops)
  then have "drop 5 (e_instructions_minimal lib script) =
      map (\<lambda>part. Inr (read_op (segment_op part))) (chunks 520 record) @ [Inr (Op OP_ENDIF)]"
    by (simp add: record_ops_def comp_def)
  moreover have "read_segments lib (map (\<lambda>part. Inr (read_op (segment_op part))) (chunks 520 record) @ [Inr (Op OP_ENDIF)]) [] =
      Inr ([] @ concat (chunks 520 record))"
    using assms(3) chunks_lengths [of _ 520 "record"] by (intro read_segments_of) auto
  ultimately show ?thesis by simp
qed

text \<open>The shape and the size of the script.\<close>

lemma script_head:
  assumes "script_laws lib" "length author = 32" "record_script lib record author = Inr script"
  shows "\<exists>rest. script = [32] @ author @ [OP_CHECKSIG, 0, OP_IF, 4, 85, 82, 77, 65] @ rest \<and>
    rest = concat (map (\<lambda>part. op_bytes lib (segment_op part)) (chunks 520 record)) @ [OP_ENDIF]"
proof -
  have "e_push_slice lib author = 32 # author" "e_push_slice lib MAGIC = 4 # MAGIC" "e_push_int lib 0 = [0]"
  proof -
    have push: "0 < length b \<Longrightarrow> length b \<le> 75 \<Longrightarrow> e_push_slice lib b = word_of_nat (length b) # b" for b
      using assms(1) unfolding script_laws_def by blast
    show "e_push_slice lib author = 32 # author" "e_push_slice lib MAGIC = 4 # MAGIC"
      using push [of author] push [of MAGIC] assms(2) by (simp_all add: MAGIC_def)
    show "e_push_int lib 0 = [0]" using assms(1) unfolding script_laws_def by blast
  qed
  with assms(3) show ?thesis by (simp add: record_script_ops record_ops_def comp_def MAGIC_def)
qed

lemma segment_bytes_bounds:
  assumes "script_laws lib" "part \<noteq> []" "length part \<le> 520"
  shows "0 < length (op_bytes lib (segment_op part))" "length (op_bytes lib (segment_op part)) \<le> length part + 3"
proof -
  have "segment_op part = Slice part \<or> (\<exists>n. segment_op part = Number n \<and> - 1 \<le> n \<and> n \<le> 16)"
    using segment_op_ok [OF assms(2,3)] by (auto simp: segment_op_def split: list.splits if_splits)
  then consider "segment_op part = Slice part" | n where "segment_op part = Number n" "- 1 \<le> n" "n \<le> 16" by blast
  then show "0 < length (op_bytes lib (segment_op part))" "length (op_bytes lib (segment_op part)) \<le> length part + 3"
    using assms unfolding script_laws_def by (cases; force)+
qed

lemma segments_bound:
  assumes "script_laws lib"
  shows "\<forall>part \<in> set parts. part \<noteq> [] \<and> length part \<le> 520 \<Longrightarrow>
    length (concat (map (\<lambda>part. op_bytes lib (segment_op part)) parts)) \<le> length (concat parts) + 3 * length parts"
proof (induction parts)
  case (Cons part parts)
  then show ?case using segment_bytes_bounds(2) [OF assms, of part] by fastforce
qed simp

lemma script_size:
  assumes "script_laws lib" "length author = 32" "record_script lib record author = Inr script"
    "record \<noteq> []" "length record \<le> RECORD_BYTES"
  shows "42 \<le> length script" "length script \<le> RECORD_BYTES + 3 * div_ceil RECORD_BYTES 520 + 42"
proof -
  let ?parts = "chunks 520 record"
  let ?body = "concat (map (\<lambda>part. op_bytes lib (segment_op part)) ?parts)"
  have len: "length script = 42 + length ?body"
    using script_head [OF assms(1-3)] assms(2) by auto
  then show "42 \<le> length script" by simp
  have parts: "\<forall>part \<in> set ?parts. part \<noteq> [] \<and> length part \<le> 520"
    using chunks_lengths [of _ 520 "record"] by fastforce
  have "length ?body \<le> length record + 3 * length ?parts"
    using segments_bound [OF assms(1) parts] by simp
  moreover have "length ?parts \<le> div_ceil RECORD_BYTES 520"
    using assms(5) div_ceil_le_iff [of 520 "length record" "div_ceil RECORD_BYTES 520"]
      div_ceil_le_iff [of 520 RECORD_BYTES "div_ceil RECORD_BYTES 520"]
    by (simp add: length_chunks)
  ultimately show "length script \<le> RECORD_BYTES + 3 * div_ceil RECORD_BYTES 520 + 42"
    using len assms(5) by linarith
qed

definition envelope_of :: "'info envelope_lib \<Rightarrow> bytes list \<Rightarrow> parsed_envelope \<Rightarrow> bool" where
  "envelope_of lib w env \<longleftrightarrow>
     (\<exists>signature control. w = [signature, pe_script env, control] \<and> length signature = 64 \<and> length control = 33 \<and>
        e_control_decode lib control = Some (pe_control env)) \<and>
     cb_leaf_version (pe_control env) = TAPSCRIPT \<and> cb_internal_key (pe_control env) = pe_author env \<and>
     length (pe_author env) = 32 \<and> e_xonly lib (pe_author env) \<and> length (pe_record env) \<le> RECORD_BYTES \<and>
     record_script lib (pe_record env) (pe_author env) = Inr (pe_script env)"

lemma extract_envelope_sound:
  assumes "extract_envelope lib w = Inr env"
  shows "envelope_of lib w env"
proof -
  have "length w = 3" using assms by (simp add: extract_envelope_def)
  then obtain a b c where w: "w = [a, b, c]" by (auto simp: numeral_eq_Suc length_Suc_conv)
  from assms read_segments_bound [of lib _ "[]"] show ?thesis
    by (auto simp: extract_envelope_def envelope_of_def w Let_def RECORD_BYTES_def)
qed

lemma extract_envelope_complete:
  assumes "script_laws lib" "envelope_of lib w env" "pe_record env \<noteq> []"
  shows "extract_envelope lib w = Inr env"
proof -
  note e = assms(2) [unfolded envelope_of_def]
  then obtain signature control where w: "w = [signature, pe_script env, control]" "length signature = 64" "length control = 33"
    "e_control_decode lib control = Some (pe_control env)" by blast
  have script: "record_script lib (pe_record env) (pe_author env) = Inr (pe_script env)" using e by blast
  have author: "slice 1 33 (pe_script env) = pe_author env"
    using script_head [OF assms(1) _ script] e by (auto simp: slice_def)
  show ?thesis
    using w e author script_size [OF assms(1) _ script assms(3)] script_reads_back [OF assms(1) _ _ script]
    by (simp add: extract_envelope_def Let_def)
qed

lemma envelope_is_candidate:
  assumes "script_laws lib" "envelope_of lib w env"
  shows "is_candidate w"
proof -
  note e = assms(2) [unfolded envelope_of_def]
  then have script: "record_script lib (pe_record env) (pe_author env) = Inr (pe_script env)" and len: "length (pe_author env) = 32"
    by blast+
  obtain rest where "pe_script env = [32] @ pe_author env @ [OP_CHECKSIG, 0, OP_IF, 4, 85, 82, 77, 65] @ rest"
    using script_head [OF assms(1) len script] by blast
  then have "slice 34 41 (pe_script env) = [0, 99, 4, 85, 82, 77, 65]" "41 \<le> length (pe_script env)"
    using len by (simp_all add: slice_def OP_IF_def)
  with e show ?thesis by (auto simp: is_candidate_def)
qed

lemma validate_record_nonempty: "validate_record r = Inr u \<Longrightarrow> r \<noteq> []"
  by (auto simp: validate_record_def RecordKind_parse_def PREFIX_BYTES_def)

lemma verify_record_proof_sound:
  assumes "verify_record_proof lib reveal commit = Inr env"
  obtains inp out signature hash where
    "tx_input reveal = [inp]" "tx_output reveal = [out]" "ti_txid inp = e_txid lib commit"
    "unat (ti_vout inp) < length (tx_output commit)" "to_value out \<le> to_value (tx_output commit ! unat (ti_vout inp))"
    "envelope_of lib (ti_witness inp) env" "hd (ti_witness inp) = signature"
    "e_verify_commitment lib (pe_control env) (slice 2 34 (to_script (tx_output commit ! unat (ti_vout inp)))) (pe_script env)"
    "e_sighash lib reveal (tx_output commit ! unat (ti_vout inp)) (pe_script env) = Some hash"
    "e_verify_schnorr lib signature hash (pe_author env)" "e_is_p2tr lib (to_script (tx_output commit ! unat (ti_vout inp)))"
proof -
  have "length (tx_input reveal) = 1" using assms by (simp add: verify_record_proof_def)
  then obtain inp where inp: "tx_input reveal = [inp]" by (auto simp: length_Suc_conv)
  define prevout where "prevout = tx_output commit ! unat (ti_vout inp)"
  have p: "ti_txid inp = e_txid lib commit" "unat (ti_vout inp) < length (tx_output commit)"
    "verify_prevout_proof lib reveal prevout = Inr env"
    using assms by (auto simp: verify_record_proof_def Let_def inp prevout_def split: if_splits)
  from p(3) have x: "extract_reveal_envelope lib reveal = Inr env" by (auto simp: verify_prevout_proof_def Let_def)
  then have "length (tx_output reveal) = 1" "extract_envelope lib (ti_witness inp) = Inr env"
    by (auto simp: extract_reveal_envelope_def validate_reveal_shape_def inp)
  then obtain out where out: "tx_output reveal = [out]" by (auto simp: length_Suc_conv)
  have env: "envelope_of lib (ti_witness inp) env"
    by (rule extract_envelope_sound) fact
  from p(3) x obtain signature hash where
    "to_value out \<le> to_value prevout" "hd (ti_witness inp) = signature"
    "e_verify_commitment lib (pe_control env) (slice 2 34 (to_script prevout)) (pe_script env)"
    "e_sighash lib reveal prevout (pe_script env) = Some hash" "e_verify_schnorr lib signature hash (pe_author env)"
    "e_is_p2tr lib (to_script prevout)"
    by (auto simp: verify_prevout_proof_def Let_def inp out split: list.splits)
  with inp out p env that show ?thesis unfolding prevout_def by blast
qed

subsection \<open>A concrete script library, for the witnesses\<close>

definition ex_push :: "bytes \<Rightarrow> bytes" where
  "ex_push b = (if length b \<le> 75 then word_of_nat (length b) # b
     else 0x4D # to_le_bytes (word_of_nat (length b) :: u16) @ b)"

definition ex_push_int :: "int \<Rightarrow> bytes" where
  "ex_push_int n = (if n = 0 then [0] else if n = - 1 then [0x4F] else [0x50 + word_of_int n])"

function ex_parse :: "bytes \<Rightarrow> (unit + instruction) list" where
  "ex_parse [] = []"
| "ex_parse (c # bs) =
     (if c \<le> 75 then
        (if length bs < unat c then [Inl ()] else Inr (PushBytes (take (unat c) bs)) # ex_parse (drop (unat c) bs))
      else if c = 0x4D then
        (let n = unat (from_le_bytes (take 2 bs) :: u16) in
         if length bs < 2 + n then [Inl ()] else Inr (PushBytes (take n (drop 2 bs))) # ex_parse (drop (2 + n) bs))
      else Inr (Op c) # ex_parse bs)"
  by pat_completeness auto
termination by (relation "measure length") auto

definition ex_author :: bytes where "ex_author = replicate 32 5"

definition ex_envelope_lib :: "unit envelope_lib" where
  "ex_envelope_lib = \<lparr>e_push_slice = ex_push, e_push_int = ex_push_int, e_instructions_minimal = ex_parse,
     e_debug_instruction = (\<lambda>i. ''?''), e_xonly = (\<lambda>k. length k = 32),
     e_control_decode = (\<lambda>b. Some \<lparr>cb_leaf_version = TAPSCRIPT, cb_internal_key = drop 1 b, cb_merkle_branch = []\<rparr>),
     e_taproot = (\<lambda>s k. Inr ()), e_control_block = (\<lambda>i s. None), e_is_p2tr = (\<lambda>s. length s = 34),
     e_is_p2wpkh = (\<lambda>s. length s = 22), e_verify_commitment = (\<lambda>c k s. k = cb_internal_key c),
     e_signature = (\<lambda>s. length s = 64), e_sighash = (\<lambda>t p s. Some (take 32 s)),
     e_verify_schnorr = (\<lambda>s m k. True), e_txid = (\<lambda>t. replicate 32 (word_of_nat (length (tx_input t)))),
     e_sha256 = (\<lambda>b. take 32 (b @ replicate 32 0))\<rparr>"

lemma ex_parse_op:
  assumes "op_ok op"
  shows "ex_parse (op_bytes ex_envelope_lib op @ rest) = Inr (read_op op) # ex_parse rest"
proof (cases op)
  case (Slice b)
  show ?thesis
  proof (cases "length b \<le> 75")
    case True
    then have "unat (word_of_nat (length b) :: u8) = length b" by (intro unat_of_nat_small) simp
    with True show ?thesis by (simp add: Slice ex_envelope_lib_def ex_push_def word_le_nat_alt)
  next
    case False
    have "unat (word_of_nat (length b) :: u16) = length b"
      using assms by (intro unat_of_nat_small) (simp add: Slice)
    with False show ?thesis by (simp add: Slice ex_envelope_lib_def ex_push_def)
  qed
next
  case (Number n)
  show ?thesis
  proof (cases "n = 0 \<or> n = - 1")
    case False
    then have "1 \<le> n" "n \<le> 16" using assms by (auto simp: Number)
    then have "n \<in> {1..16}" by simp
    also have "{1..16 :: int} = {1, 2, 3, 4, 5, 6, 7, 8, 9, 10, 11, 12, 13, 14, 15, 16}" by (simp add: simp_from_to)
    finally show ?thesis by (auto simp: Number ex_envelope_lib_def ex_push_int_def)
  qed (auto simp: Number ex_envelope_lib_def ex_push_int_def)
next
  case (Opcode c)
  with assms show ?thesis by (auto simp: OP_IF_def OP_ENDIF_def OP_CHECKSIG_def)
qed

lemma ex_script_laws: "script_laws ex_envelope_lib"
proof -
  have "ex_parse (concat (map (op_bytes ex_envelope_lib) ops)) = map (\<lambda>op. Inr (read_op op)) ops"
    if "list_all op_ok ops" for ops
    using that by (induction ops) (simp_all add: ex_parse_op)
  then show ?thesis by (auto simp: script_laws_def ex_envelope_lib_def ex_push_def ex_push_int_def)
qed

subsection \<open>Properties\<close>

text \<open>
  C35: the envelope is a strict encoding. Under the documented laws of script assembly, extraction accepts
  exactly the three-item witnesses whose middle item is the script that publication assembles for the
  extracted author and record, with a tapscript control block of that author, for a valid record of at
  most \<open>RECORD_BYTES\<close>; no second script, segmentation or push form yields the same record.
\<close>
theorem envelope_strict:
  assumes "script_laws lib"
  shows "envelope_extract lib w = Inr env \<longleftrightarrow> envelope_of lib w env \<and> validate_record (pe_record env) = Inr ()"
  using extract_envelope_sound [of lib w] extract_envelope_complete [OF assms, of w env] validate_record_nonempty
  by (fastforce simp: envelope_extract_def)

definition ex_post :: bytes where
  "ex_post = RecordKind_prefix record_kind.Post @ [104, 105]"

definition ex_envelope :: parsed_envelope where
  "ex_envelope = \<lparr>pe_author = ex_author, pe_record = ex_post,
     pe_script = concat (map (op_bytes ex_envelope_lib) (record_ops ex_post ex_author)),
     pe_control = \<lparr>cb_leaf_version = TAPSCRIPT, cb_internal_key = ex_author, cb_merkle_branch = []\<rparr>\<rparr>"

definition ex_witness :: "bytes list" where
  "ex_witness = [replicate 64 0, pe_script ex_envelope, TAPSCRIPT # ex_author]"

lemma ex_post_valid: "validate_record ex_post = Inr ()"
  by (simp add: validate_record_def ex_post_def PublicRecord_decode_def decode_public_body_def from_utf8_def
      MAX_PUBLIC_BYTES_def PREFIX_BYTES_def)

lemma ex_envelope_of: "envelope_of ex_envelope_lib ex_witness ex_envelope"
  by (simp add: envelope_of_def ex_envelope_def ex_witness_def record_script_ops ex_author_def ex_envelope_lib_def
      ex_post_def RECORD_BYTES_def)

theorem envelope_strict_witness:
  "envelope_extract ex_envelope_lib ex_witness = Inr ex_envelope"
proof -
  have "validate_record (pe_record ex_envelope) = Inr ()" using ex_post_valid by (simp add: ex_envelope_def)
  with envelope_strict [OF ex_script_laws] ex_envelope_of show ?thesis by blast
qed

text \<open>
  The byte filter loses nothing. Every witness from which an envelope can be extracted passes the
  filter that the scanners apply before they parse a script.
\<close>
theorem candidate_filter_complete:
  "script_laws lib \<Longrightarrow> envelope_extract lib w = Inr env \<Longrightarrow> is_candidate w"
  using extract_envelope_sound envelope_is_candidate by (fastforce simp: envelope_extract_def)

theorem candidate_filter_complete_witness: "is_candidate ex_witness"
proof -
  have "envelope_extract ex_envelope_lib ex_witness = Inr ex_envelope"
    using extract_envelope_complete [OF ex_script_laws ex_envelope_of] ex_post_valid
    by (simp add: envelope_extract_def ex_envelope_def ex_post_def RecordKind_prefix_def)
  from candidate_filter_complete [OF ex_script_laws this] show ?thesis .
qed

text \<open>
  C34: a verified record was signed by its author. When a record is verified against its reveal and
  commit transactions, the reveal has the expected id and spends with its only input a Taproot output of the
  commit that commits, under its output key, to the script that publication assembles for exactly this
  author and record, and the signature over that spend verifies under the author's key.
\<close>
theorem verified_record_signed:
  assumes "VerifiedRecord_verify lib expected reveal commit = Inr v"
  shows "\<exists>inp script raw control signature hash.
    tx_input reveal = [inp] \<and> ti_witness inp = [signature, script, raw] \<and> e_control_decode lib raw = Some control \<and> e_txid lib reveal = expected \<and> vr_txid v = expected \<and> ti_txid inp = e_txid lib commit \<and>
    unat (ti_vout inp) < length (tx_output commit) \<and> e_is_p2tr lib (to_script (tx_output commit ! unat (ti_vout inp))) \<and>
    record_script lib (vr_record v) (vr_author v) = Inr script \<and> vr_record_hash v = e_sha256 lib (vr_record v) \<and>
    e_verify_commitment lib control (slice 2 34 (to_script (tx_output commit ! unat (ti_vout inp)))) script \<and>
    e_sighash lib reveal (tx_output commit ! unat (ti_vout inp)) script = Some hash \<and>
    e_verify_schnorr lib signature hash (vr_author v)"
proof -
  from assms obtain env where env: "verify_record_proof lib reveal commit = Inr env" "e_txid lib reveal = expected"
    and v: "v = \<lparr>vr_txid = expected, vr_author = pe_author env, vr_record_hash = e_sha256 lib (pe_record env),
      vr_record = pe_record env\<rparr>"
    by (auto simp: VerifiedRecord_verify_def)
  obtain inp out signature hash where *:
    "tx_input reveal = [inp]" "ti_txid inp = e_txid lib commit" "unat (ti_vout inp) < length (tx_output commit)"
    "envelope_of lib (ti_witness inp) env" "hd (ti_witness inp) = signature"
    "e_verify_commitment lib (pe_control env) (slice 2 34 (to_script (tx_output commit ! unat (ti_vout inp)))) (pe_script env)"
    "e_sighash lib reveal (tx_output commit ! unat (ti_vout inp)) (pe_script env) = Some hash"
    "e_verify_schnorr lib signature hash (pe_author env)" "e_is_p2tr lib (to_script (tx_output commit ! unat (ti_vout inp)))"
    using verify_record_proof_sound [OF env(1)] by metis
  have "record_script lib (pe_record env) (pe_author env) = Inr (pe_script env)"
    "\<exists>raw. ti_witness inp = [signature, pe_script env, raw] \<and> e_control_decode lib raw = Some (pe_control env)"
    using *(4,5) by (auto simp: envelope_of_def)
  with * env(2) show ?thesis unfolding v by auto
qed

definition ex_reveal :: transaction where
  "ex_reveal = \<lparr>tx_version = 2,
     tx_input = [\<lparr>ti_txid = replicate 32 0, ti_vout = 0, ti_script_sig = [], ti_witness = ex_witness\<rparr>],
     tx_output = [\<lparr>to_value = 900, to_script = replicate 22 0\<rparr>]\<rparr>"

definition ex_commit :: transaction where
  "ex_commit = \<lparr>tx_version = 2, tx_input = [],
     tx_output = [\<lparr>to_value = 1000, to_script = [0x51, 0x20] @ ex_author\<rparr>]\<rparr>"

lemma ex_verified: "\<exists>v. VerifiedRecord_verify ex_envelope_lib (replicate 32 1) ex_reveal ex_commit = Inr v \<and> vr_record v = ex_post"
proof -
  have "extract_envelope ex_envelope_lib ex_witness = Inr ex_envelope"
    using extract_envelope_complete [OF ex_script_laws ex_envelope_of]
    by (simp add: ex_envelope_def ex_post_def RecordKind_prefix_def)
  then have "extract_reveal_envelope ex_envelope_lib ex_reveal = Inr ex_envelope"
    by (simp add: extract_reveal_envelope_def validate_reveal_shape_def validate_reveal_scripts_def ex_reveal_def
        ex_envelope_lib_def)
  then have "verify_record_proof ex_envelope_lib ex_reveal ex_commit = Inr ex_envelope"
    by (simp add: verify_record_proof_def verify_prevout_proof_def ex_reveal_def ex_commit_def ex_envelope_lib_def Let_def
        ex_witness_def ex_envelope_def ex_author_def slice_def context_res_def)
  then show ?thesis by (simp add: VerifiedRecord_verify_def ex_reveal_def ex_envelope_lib_def ex_envelope_def)
qed

theorem verified_record_signed_witness:
  "\<exists>v script. VerifiedRecord_verify ex_envelope_lib (replicate 32 1) ex_reveal ex_commit = Inr v \<and>
     record_script ex_envelope_lib ex_post (vr_author v) = Inr script"
proof -
  obtain v where v: "VerifiedRecord_verify ex_envelope_lib (replicate 32 1) ex_reveal ex_commit = Inr v" "vr_record v = ex_post"
    using ex_verified by blast
  from verified_record_signed [OF v(1)] v show ?thesis by auto
qed

end
