(* ===== verification/Names_Scan_Example.thy ===== *)
theory Names_Scan_Example
  imports Names_Scan_Inv Envelope_Codec
begin

section \<open>A small chain to scan\<close>

text \<open>
  A registry created at height 50, a block at height 51 that holds a commit and the reveal of a names
  record, and the index before and after it. The properties of scanning are applied to it.
\<close>

definition ex_genesis_hash :: bytes where "ex_genesis_hash = replicate 64 48"
definition ex_block_hash :: bytes where "ex_block_hash = replicate 64 49"
definition ex_fork_hash :: bytes where "ex_fork_hash = replicate 64 50"

definition ex_registry0 :: registry where
  "ex_registry0 = \<lparr>r_genesis = [7], r_genesis_height = 50, r_rules = ex_rules, r_height = 50,
     r_names = Map.empty, r_pending = Map.empty, r_expiries = {}, r_undo = []\<rparr>"

definition ex_registry1 :: registry where
  "ex_registry1 = ex_registry0\<lparr>r_height := 51, r_undo := [\<lparr>d_names = [], d_pending = []\<rparr>]\<rparr>"

definition ex_index0 :: names_index where
  "ex_index0 = NamesIndex_new [114] ex_genesis_hash ex_genesis_hash ex_registry0"

definition ex_index1 :: names_index where
  "ex_index1 = ex_index0\<lparr>ni_registry := ex_registry1, ni_blocks := [\<lparr>cp_height = 51, cp_hash = ex_block_hash\<rparr>],
     ni_window := [\<lparr>wb_height = 51, wb_commits = []\<rparr>]\<rparr>"

text \<open>A header is its hash with the hash of its parent; the two indexes have an encoding each.\<close>

definition ex_scan_chain :: "(bytes \<times> bytes, transaction, unit, unit, unit) chain_lib" where
  "ex_scan_chain = \<lparr>b_deserialize_block = (\<lambda>b. None), b_partial_varint = (\<lambda>b. None), b_partial_tx = (\<lambda>b. None),
     b_deserialize_tx = (\<lambda>b. None), b_deserialize_header = (\<lambda>b. None), b_block_hash = fst,
     b_merkle_root = (\<lambda>h. []), b_check_merkle_root = (\<lambda>h t. True), b_witness_root = (\<lambda>t. Some []),
     b_witness_commitment = (\<lambda>r s. replicate 32 6), b_txid = (\<lambda>t. []), b_wtxid = (\<lambda>t. []), b_is_coinbase = (\<lambda>t. True),
     b_witnesses = (\<lambda>t. [[replicate 32 0]]), b_scripts = (\<lambda>t. [[0x6A, 0x24, 0xAA, 0x21, 0xA9, 0xED] @ replicate 32 6]),
     b_sha256d = (\<lambda>b. []), l_header = (\<lambda>b. None), l_serialize_header = (\<lambda>h. []),
     l_txs = (\<lambda>b. None), l_serialize_txs = (\<lambda>t. []), l_tx = (\<lambda>b. None), l_serialize_tx = (\<lambda>t. []),
     l_varint = (\<lambda>b. None), l_serialize_varint = (\<lambda>n. []), l_byte = (\<lambda>b. None), l_serialize_byte = (\<lambda>b. []),
     l_mweb = (\<lambda>b. None), l_serialize_mweb = (\<lambda>m. []), l_mw_tx_count = (\<lambda>t. 0), l_input_count = (\<lambda>t. 0),
     l_is_hog_ex = (\<lambda>t. False), l_clear_hog_ex = (\<lambda>t. t)\<rparr>"

definition ex_scan_lib :: "(bytes \<times> bytes) scan_lib" where
  "ex_scan_lib = \<lparr>sl_chain = ex_scan_chain, sl_envelope = ex_envelope_lib, sl_prev = snd, sl_hash_text = (\<lambda>h. h),
     sl_parse_txid = Some, sl_to_json = (\<lambda>i. if i = ex_index1 then Some [1] else None),
     sl_from_json = (\<lambda>b. if b = [1] then Some ex_index1 else None)\<rparr>"

definition ex_chain :: "bytes \<Rightarrow> u64 \<Rightarrow> bytes" where
  "ex_chain tip h = (if h = 51 then tip else ex_genesis_hash)"

definition ex_source :: "bytes \<Rightarrow> transaction list \<Rightarrow> (unit, unit, bytes \<times> bytes) source" where
  "ex_source tip txs = \<lparr>src_genesis = iret ex_genesis_hash, src_tip_height = iret 51,
     src_block_hash = (\<lambda>h. iret (ex_chain tip h)), src_block = (\<lambda>h. iret ((ex_chain tip h, ex_genesis_hash), txs)),
     src_transaction = (\<lambda>txid. iret ex_commit)\<rparr>"

definition ex_files :: "unit file_system" where
  "ex_files = \<lparr>fs_open = (\<lambda>s. (True, s)), fs_read = (\<lambda>s. (True, s)), fs_write = (\<lambda>s bs. (None, s))\<rparr>"

definition ex_world :: "unit world" where
  "ex_world = \<lparr>w_state = (), w_file = Some [1]\<rparr>"

lemma ex_registry0_new: "Registry_new [7] 50 ex_rules = Inr ex_registry0"
  by (simp add: Registry_new_def ex_registry0_def)

lemma ex_registry1_connect: "connect ex_registry0 51 [] = Inr ([], ex_registry1)"
  by (simp add: connect_def connect_delta_def apply_block_def ex_registry0_def ex_registry1_def open_frame_def
      expire_def due_entries_def checked_add_def approver_records_def owner_records_def claims_def ex_rules_def)

lemma ex_index0_ok: "index_ok ex_scan_lib ex_index0"
  unfolding ex_index0_def by (rule new_index_ok [OF ex_registry0_new])

lemma ex_index1_ok: "index_ok ex_scan_lib ex_index1"
proof -
  have "reachable ex_registry0" by (rule reachable.created [OF ex_registry0_new])
  from connect_facts(1) [OF ex_registry1_connect this] show ?thesis
    by (simp add: index_ok_def index_inv_def ex_index1_def ex_registry1_def heights_to_def)
qed

lemma ex_decoded: "sl_from_json ex_scan_lib bs = Some i \<longleftrightarrow> bs = [1] \<and> i = ex_index1"
  by (auto simp: ex_scan_lib_def)

lemma ex_index1_height: "r_height (ni_registry ex_index1) = 51"
  by (simp add: ex_index1_def ex_registry1_def)

lemma ex_json: "json_laws ex_scan_lib" "stored_ok ex_scan_lib (Some [1])"
  using ex_index1_ok by (simp_all add: json_laws_def stored_ok_def ex_scan_lib_def)

text \<open>The reveal of a names record in the block.\<close>

definition ex_names_payload :: payload where
  "ex_names_payload = Suspend \<lparr>no_registry = replicate 32 7, no_name = Name [97, 98]\<rparr>"

definition ex_names_record :: bytes where
  "ex_names_record = RecordKind_prefix record_kind.ProfileRecord @ PROFILE @
     [5] @ replicate 32 7 @ [2, 97, 98]"

definition ex_names_envelope :: parsed_envelope where
  "ex_names_envelope = \<lparr>pe_author = ex_author, pe_record = ex_names_record,
     pe_script = concat (map (op_bytes ex_envelope_lib) (record_ops ex_names_record ex_author)),
     pe_control = \<lparr>cb_leaf_version = TAPSCRIPT, cb_internal_key = ex_author, cb_merkle_branch = []\<rparr>\<rparr>"

definition ex_names_witness :: "bytes list" where
  "ex_names_witness = [replicate 64 0, pe_script ex_names_envelope, TAPSCRIPT # ex_author]"

definition ex_names_reveal :: transaction where
  "ex_names_reveal = \<lparr>tx_version = 2,
     tx_input = [\<lparr>ti_txid = replicate 32 0, ti_vout = 0, ti_script_sig = [], ti_witness = ex_names_witness\<rparr>],
     tx_output = [\<lparr>to_value = 900, to_script = replicate 22 0\<rparr>]\<rparr>"

lemma ex_names_decode: "PublicRecord_decode ex_names_record = Inr (ProfileRecord PROFILE ([5] @ replicate 32 7 @ [2, 97, 98]))"
  by (simp add: ex_names_record_def PublicRecord_decode_def decode_public_body_def PROFILE_def
      format_consts)

lemma ex_names_kind: "RecordKind_parse ex_names_record = Inr record_kind.ProfileRecord"
  by (simp add: ex_names_record_def)

lemma ex_names_from_record:
  "Payload_from_record ok (ProfileRecord PROFILE ([5] @ replicate 32 7 @ [2, 97, 98])) = Inr ex_names_payload"
proof -
  have "wf_payload ok ex_names_payload"
    by (simp add: ex_names_payload_def wf_name_op_def wf_name_def Name_parse_def NAME_MAX_BYTES_def is_ascii_lowercase_def)
  moreover have "Payload_encode ex_names_payload = Inr ([5] @ replicate 32 7 @ [2, 97, 98])"
    by (simp add: ex_names_payload_def Payload_encode_def NameOp_encode_def try_from_def)
  ultimately show ?thesis by (simp add: Payload_from_record_eq_Inr payload_codec.decode_iff)
qed

lemma ex_names_of: "envelope_of ex_envelope_lib ex_names_witness ex_names_envelope"
  by (simp add: envelope_of_def ex_names_envelope_def ex_names_witness_def record_script_ops ex_author_def ex_envelope_lib_def
      ex_names_record_def PROFILE_def RECORD_BYTES_def)

lemma ex_names_extract: "extract_envelope ex_envelope_lib ex_names_witness = Inr ex_names_envelope"
  using extract_envelope_complete [OF ex_script_laws ex_names_of]
  by (simp add: ex_names_envelope_def ex_names_record_def RecordKind_prefix_def)

lemma ex_names_candidate: "is_candidate ex_names_witness"
  using envelope_is_candidate [OF ex_script_laws ex_names_of] by simp

lemma ex_names_verified:
  "VerifiedRecord_verify ex_envelope_lib (replicate 32 1) ex_names_reveal ex_commit =
     Inr \<lparr>vr_txid = replicate 32 1, vr_author = ex_author, vr_record_hash = e_sha256 ex_envelope_lib ex_names_record,
          vr_record = ex_names_record\<rparr>"
proof -
  have "extract_reveal_envelope ex_envelope_lib ex_names_reveal = Inr ex_names_envelope"
    using ex_names_extract
    by (simp add: extract_reveal_envelope_def validate_reveal_shape_def validate_reveal_scripts_def ex_names_reveal_def
        ex_envelope_lib_def)
  then have "verify_record_proof ex_envelope_lib ex_names_reveal ex_commit = Inr ex_names_envelope"
    by (simp add: verify_record_proof_def verify_prevout_proof_def ex_names_reveal_def ex_commit_def ex_envelope_lib_def Let_def
        ex_names_witness_def ex_names_envelope_def ex_author_def slice_def context_res_def)
  then show ?thesis by (simp add: VerifiedRecord_verify_def ex_names_reveal_def ex_envelope_lib_def ex_names_envelope_def)
qed

definition ex_observation :: observation where
  "ex_observation = \<lparr>o_txid = replicate 32 1, o_author = ex_author, o_record_sha256 = e_sha256 ex_envelope_lib ex_names_record,
     o_payload = ex_names_payload, o_height = 51, o_position = 1,
     o_commit = \<lparr>c_txid = replicate 32 0, c_vout = 0, c_height = 51, c_position = 0\<rparr>\<rparr>"

lemma ex_names_payload_found: "names_payload ex_scan_lib ex_names_reveal = Inr ex_names_payload"
proof -
  have "extract_reveal_envelope ex_envelope_lib ex_names_reveal = Inr ex_names_envelope"
    using ex_names_extract
    by (simp add: extract_reveal_envelope_def validate_reveal_shape_def validate_reveal_scripts_def ex_names_reveal_def
        ex_envelope_lib_def)
  then have "extract_reveal ex_envelope_lib ex_names_reveal = Inr ex_names_envelope"
    by (simp add: extract_reveal_def validate_record_def ex_names_envelope_def ex_names_kind ex_names_decode)
  then show ?thesis
    by (simp add: names_payload_def ex_scan_lib_def protocol_def ex_names_envelope_def ex_names_kind ex_names_decode
        ex_names_from_record [simplified])
qed

lemma ex_observed:
  "observation_from_verified ex_envelope_lib
     \<lparr>vr_txid = replicate 32 1, vr_author = ex_author, vr_record_hash = e_sha256 ex_envelope_lib ex_names_record,
      vr_record = ex_names_record\<rparr> ex_names_reveal 51 1 \<lparr>c_txid = replicate 32 0, c_vout = 0, c_height = 51, c_position = 0\<rparr> =
   Inr (Some ex_observation)"
  by (simp add: observation_from_verified_def observation_from_record_def ex_names_kind ex_names_decode protocol_def
      ex_names_from_record [simplified] ex_observation_def ex_names_reveal_def ex_envelope_lib_def)

lemma ex_lib:
  "sl_envelope ex_scan_lib = ex_envelope_lib" "sl_hash_text ex_scan_lib h = h"
  "b_block_hash (sl_chain ex_scan_lib) hdr = fst hdr" "sl_prev ex_scan_lib hdr = snd hdr" "sl_parse_txid ex_scan_lib = Some"
  by (simp_all add: ex_scan_lib_def ex_scan_chain_def)

lemma ex_calls:
  "call (src_genesis (ex_source tip txs)) w = (Inr ex_genesis_hash, w)"
  "call (src_tip_height (ex_source tip txs)) w = (Inr 51, w)"
  "call (src_block_hash (ex_source tip txs) h) w = (Inr (ex_chain tip h), w)"
  "call (src_block (ex_source tip txs) h) w = (Inr ((ex_chain tip h, ex_genesis_hash), txs), w)"
  "call (src_transaction (ex_source tip txs) txid) w = (Inr ex_commit, w)"
  by (simp_all add: call_def ex_source_def act_apps)

lemma ex_names_input:
  "tx_input ex_names_reveal = [\<lparr>ti_txid = replicate 32 0, ti_vout = 0, ti_script_sig = [], ti_witness = ex_names_witness\<rparr>]"
  by (simp add: ex_names_reveal_def)

lemma ex_names_txid: "e_txid ex_envelope_lib ex_names_reveal = replicate 32 1"
  by (simp add: ex_names_reveal_def ex_envelope_lib_def)

lemma ex_observe_commit: "observe_tx ex_scan_lib src l h (0, ex_commit) = iret []"
  by (simp add: observe_tx_def ex_commit_def)

lemma ex_observe_reveal:
  assumes "locate l (replicate 32 0) = Known 51 0"
  shows "observe_tx ex_scan_lib (ex_source tip txs) l 51 (1, ex_names_reveal) w = (Inr [ex_observation], w)"
  using ex_names_candidate assms ex_names_verified
  by (simp add: observe_tx_def ex_names_input ex_names_txid ex_names_payload_found ex_lib Let_def ibind_app call_def act_apps
      names_def try_from_def ex_observed ex_source_def)

definition ex_txs :: "transaction list" where
  "ex_txs = [ex_commit, ex_names_reveal]"

lemma ex_connected:
  obtains outcomes r where "connect ex_registry0 51 [ex_observation] = Inr (outcomes, r)"
    "reported_ids outcomes = {#(replicate 32 1, 1)#}"
proof -
  have "\<exists>ab r'. connect_delta ex_registry0 51 [ex_observation] = Inr (ab, r')"
    unfolding connect_accepts by (simp add: ex_registry0_def ex_observation_def)
  then obtain ab r' where con: "connect_delta ex_registry0 51 [ex_observation] = Inr (ab, r')" by blast
  have "reg_inv ex_registry0"
    using undo_chain_inv [OF reachable_chain [OF reachable.created [OF ex_registry0_new]]] .
  moreover have "expiry_after ex_registry0 51 \<noteq> None"
    by (simp add: expiry_after_def ex_registry0_def ex_rules_def checked_add_def)
  ultimately have "reported_ids (ab_outcomes ab) = observation_ids [ex_observation]" using connect_reports_all [OF con] by blast
  with that con show thesis by (simp add: connect_def ex_observation_def)
qed

lemma ex_block_scanned:
  "\<exists>outcomes i' l' w'. reported_ids outcomes = {#(replicate 32 1, 1)#} \<and>
     scan_block ex_scan_lib (ex_source ex_block_hash ex_txs) ex_index0 [] 51 w = (Inr (outcomes, i', l'), w')"
proof -
  let ?l = "Locator_push [] 51 [(replicate 32 0, 0)]" and ?block = "((ex_block_hash, ex_genesis_hash), ex_txs)"
  have locate: "locate ?l (replicate 32 0) = Known 51 0" by (simp add: Locator_push_def commits_map_def)
  obtain outcomes r where c: "connect ex_registry0 51 [ex_observation] = Inr (outcomes, r)"
    "reported_ids outcomes = {#(replicate 32 1, 1)#}"
    using ex_connected .
  have valid: "validate_block_integrity (sl_chain ex_scan_lib) (ex_block_hash, ex_genesis_hash) ex_txs ex_block_hash = Inr ()"
    by (simp add: validate_block_integrity_def ex_scan_lib_def ex_scan_chain_def check_witness_commitment_def ex_txs_def
        commitment_script_def COMMITMENT_MAGIC_def slice_def)
  have fetch: "fetch_block ex_scan_lib (ex_source ex_block_hash ex_txs) 51 w = (Inr ?block, w)" for w
    using valid by (simp add: fetch_block_def ex_source_def ex_chain_def call_def ibind_app act_apps names_def)
  have cc: "commit_candidates ex_scan_lib ?block = Inr [(replicate 32 0, 0)]"
    by (simp add: commit_candidates_def ex_txs_def ex_lib ex_names_reveal_def ex_commit_def ex_envelope_lib_def ex_author_def
        try_from_def)
  have obs: "observations ex_scan_lib (ex_source ex_block_hash ex_txs) ?l ?block 51 w = (Inr [ex_observation], w)" for w
    using ex_observe_reveal [OF locate]
    by (simp add: observations_def ex_txs_def ex_observe_commit ibind_app act_apps)
  have "ni_blocks ex_index0 = []" "ni_registry ex_index0 = ex_registry0" "ni_genesis_hash ex_index0 = ex_genesis_hash"
    by (simp_all add: ex_index0_def NamesIndex_new_def)
  then show ?thesis using c
    by (simp add: scan_block_def fetch cc obs ibind_app act_apps names_def ensure_names_def prev_hash_text_def ex_lib Let_def
        protocol_def window_block_def ex_calls ex_chain_def checked_add_def)
qed

text \<open>A synchronisation that finds nothing new.\<close>

lemma ex_synchronised:
  "\<exists>rp w'. sync ex_scan_lib (ex_source ex_block_hash []) ex_files \<lparr>rg_network = [114], rg_genesis = [7], rg_genesis_height = 50\<rparr>
      10 ex_world = (Inr rp, w') \<and> rp_tip rp = 51"
proof -
  let ?src = "ex_source ex_block_hash []"
  have ne: "ni_blocks ex_index1 \<noteq> []" by (simp add: ex_index1_def)
  have reg: "ni_registry ex_index1 = ex_registry1" by (simp add: ex_index1_def)
  have check: "check_index ex_index1 = Inr ex_index1"
    by (simp add: check_index_def ex_index1_def ex_index0_def NamesIndex_new_def ex_registry1_def ex_registry0_def
        is_hex64_def ex_genesis_hash_def is_ascii_hexdigit_def is_ascii_digit_def list_all_iff)
  have "read_bounded ex_files NAMES_MAX_BYTES ex_world = (Inr [1], ex_world)"
    by (simp add: read_bounded_def ex_files_def ex_world_def read_into_def NAMES_MAX_BYTES_def try_from_def checked_add_def)
  then have load: "NamesIndex_load ex_scan_lib ex_files ex_world = (Inr ex_index1, ex_world)"
    by (simp add: NamesIndex_load_def ibind_app imap_err_def map_err_def act_apps ok_or_def check)
      (simp add: ex_scan_lib_def check act_apps)
  have rollback: "rollback ex_scan_lib ?src ex_index1 51 ex_world = (Inr (ex_index1, 0), ex_world)"
    by (simp add: rollback_def ex_index1_def on_chain_def ex_calls ex_chain_def ex_lib ibind_app act_apps ensure_names_def Let_def)
  have persist: "NamesIndex_persist ex_scan_lib ex_files ex_index1 ex_world = (Inr (), ex_world)"
    by (simp add: NamesIndex_persist_def ex_scan_lib_def ibind_app act_apps NAMES_MAX_BYTES_def ok_or_def imap_err_def
       write_replace_def write_atomic_def ex_files_def Let_def ex_world_def map_err_def)
  have locator: "Locator_from_index ex_scan_lib ex_index1 = Inr (Locator_push [] 51 [])"
    by (simp add: Locator_from_index_def ex_index1_def)
  have "scan_loop ex_scan_lib ?src ex_files 51 (Suc n) ex_index1 l [] 0 ex_world = (Inr (ex_index1, [], 0), ex_world)" for l n
    by (simp add: reg ex_registry1_def checked_add_def ibind_app names_def act_apps)
  from this [of 9] have loop: "scan_loop ex_scan_lib ?src ex_files 51 10 ex_index1 l [] 0 ex_world = (Inr (ex_index1, [], 0), ex_world)" for l
    by simp
  have anchor: "anchor ex_scan_lib ?src ex_index1 ex_world = (Inr (), ex_world)"
    by (simp add: anchor_def ex_index1_def ex_registry1_def ex_registry0_def ex_index0_def NamesIndex_new_def ex_calls ibind_app ex_chain_def ex_lib
        ensure_names_def act_apps Let_def)
  show ?thesis
    by (simp add: sync_def Let_def ensure_names_def act_apps ibind_app ex_calls open_index_def ex_lib
        imap_err_def load anchor rollback persist locator loop names_def map_err_def)
      (simp add: ex_world_def ex_index1_def ex_index0_def NamesIndex_new_def ex_registry1_def ex_registry0_def)
qed

end
