(* ===== verification/Names_Scan_Properties.thy ===== *)
theory Names_Scan_Properties
  imports Names_Scan_Inv Names_Scan_Example
begin

section \<open>What a synchronisation of the names index guarantees\<close>

text \<open>
  The rules of \<open>Effects\<close> carry the invariant of the index through the whole of \<open>sync\<close>: whatever the
  source and the operating system answer, and at whatever call it stops, the file holds a consistent
  index. Rolling back is exact on a source that answers consistently.
\<close>

subsection \<open>Rolling back to the fork\<close>

lemma rollback_keeps:
  assumes "index_inv lib i"
  shows "keeps (file_ok F) (\<lambda>_. True) (rollback lib src i tip) (\<lambda>(i', n). index_ok lib i' \<and> rolled_back lib i i' n)"
  unfolding rollback_def
proof (rule keeps_bind)
  show "keeps (file_ok F) (\<lambda>_. True) (rollback_loop lib src tip (length (ni_blocks i)) i 0) (\<lambda>(i', n). rolled_back lib i i' n)"
    by (rule keeps_weaken [OF rollback_loop_keeps [OF assms refl]]) auto
next
  fix x assume "case x of (i', n) \<Rightarrow> rolled_back lib i i' n"
  then show "keeps (file_ok F) (\<lambda>_. True)
      (case x of (i', removed) \<Rightarrow>
        ibind (ensure_names (ni_blocks i' \<noteq> [] \<or> r_height (ni_registry i') = r_genesis_height (ni_registry i')) DEEP_REORG)
          (\<lambda>_. iret (i', removed)))
      (\<lambda>(i', n). index_ok lib i' \<and> rolled_back lib i i' n)"
    by (auto simp: ensure_names_def icheck_def index_ok_def rolled_back_def intro!: keeps_ret keeps_throw)
qed

text \<open>A source that answers the same whenever it is asked for a block hash.\<close>

definition stable :: "('s, 'e, 'hdr) source \<Rightarrow> (u64 \<Rightarrow> bytes) \<Rightarrow> bool" where
  "stable src chain \<longleftrightarrow> (\<forall>h s. src_block_hash src h s = (Inr (chain h), s))"

definition abandoned :: "'hdr scan_lib \<Rightarrow> (u64 \<Rightarrow> bytes) \<Rightarrow> u64 \<Rightarrow> checkpoint \<Rightarrow> bool" where
  "abandoned lib chain tip cp \<longleftrightarrow> \<not> (cp_height cp \<le> tip \<and> sl_hash_text lib (chain (cp_height cp)) = cp_hash cp)"

lemma on_chain_stable: "stable src chain \<Longrightarrow> on_chain lib src tip cp w = (Inr (\<not> abandoned lib chain tip cp), w)"
  by (simp add: on_chain_def stable_def abandoned_def ibind_app call_def act_apps map_err_def)

lemma rollback_loop_stable:
  assumes "stable src chain"
  shows "index_inv lib i \<Longrightarrow> n = length (ni_blocks i) \<Longrightarrow>
    \<exists>i' k. rollback_loop lib src tip n i removed w = (Inr (i', removed + k), w) \<and> rolled_back lib i i' k \<and>
      ni_blocks i' = rev (dropWhile (abandoned lib chain tip) (rev (ni_blocks i)))"
proof (induction n arbitrary: i removed)
  case 0
  then show ?case using rolled_back_refl by (intro exI [of _ i] exI [of _ 0]) (simp add: act_apps)
next
  case (Suc n)
  have ne: "ni_blocks i \<noteq> []" using Suc.prems(2) by auto
  obtain r where r: "disconnect (ni_registry i) = Inr (cp_height (last (ni_blocks i)), r)"
    "index_inv lib (i\<lparr>ni_blocks := butlast (ni_blocks i), ni_registry := r\<rparr>)" "0 < reversible_blocks (ni_registry i)"
    "same_identity (ni_registry i) r" "unat (r_height (ni_registry i)) = Suc (unat (r_height r))"
    using disconnect_step [OF Suc.prems(1) ne] .
  let ?i = "i\<lparr>ni_blocks := butlast (ni_blocks i), ni_registry := r\<rparr>"
  have rev: "rev (ni_blocks i) = last (ni_blocks i) # rev (butlast (ni_blocks i))"
    using ne by (metis append_butlast_last_id rev_eq_Cons_iff rev_rev_ident rev.simps(2) rev_append append_Cons append_Nil)
  show ?case
  proof (cases "abandoned lib chain tip (last (ni_blocks i))")
    case False
    then have "dropWhile (abandoned lib chain tip) (rev (ni_blocks i)) = rev (ni_blocks i)" by (simp add: rev)
    with False show ?thesis using rolled_back_refl [OF Suc.prems(1)]
      by (intro exI [of _ i] exI [of _ 0]) (simp add: Let_def ibind_app on_chain_stable [OF assms] act_apps)
  next
    case True
    have "n = length (ni_blocks ?i)" using Suc.prems(2) by simp
    from Suc.IH [OF r(2) this, of "Suc removed"] obtain i' k where
      "rollback_loop lib src tip n ?i (Suc removed) w = (Inr (i', Suc removed + k), w)" "rolled_back lib ?i i' k"
      "ni_blocks i' = rev (dropWhile (abandoned lib chain tip) (rev (butlast (ni_blocks i))))" by auto
    with True rolled_back_Suc [OF r(1,4,5) ne this(2)] show ?thesis using r(3)
      by (intro exI [of _ i'] exI [of _ "Suc k"])
        (simp add: Let_def ibind_app on_chain_stable [OF assms] act_apps r(1) names_protocol_Inr ensure_names_def rev)
  qed
qed

text \<open>C33: On a source whose block hashes do not change during the rollback, the index is rolled back
  exactly to the fork: every checkpoint above the last one still on the chain is removed, the registry is
  the one obtained by disconnecting as many blocks, and nothing else of the index changes. It is an error
  only when no checkpoint is left and the registry is still above its genesis (a reorganisation deeper than
  the checkpoints kept), and then it is the deep-reorganisation error.\<close>

theorem rollback_finds_fork:
  assumes "index_inv lib i" "stable src chain"
  shows "\<exists>i' k. rollback lib src i tip w =
      (if ni_blocks i' = [] \<and> r_height (ni_registry i') \<noteq> r_genesis_height (ni_registry i')
       then Inl (Names (NamesInvalid DEEP_REORG)) else Inr (i', k), w) \<and>
    i' = i\<lparr>ni_blocks := rev (dropWhile (abandoned lib chain tip) (rev (ni_blocks i))), ni_registry := ni_registry i'\<rparr> \<and>
    k = length (takeWhile (abandoned lib chain tip) (rev (ni_blocks i))) \<and>
    (\<exists>hs. disconnect_n disconnect k (ni_registry i) = Inr (hs, ni_registry i')) \<and> index_inv lib i'"
proof -
  let ?off = "abandoned lib chain tip" and ?bs = "rev (ni_blocks i)"
  from rollback_loop_stable [where removed = 0 and w = w and tip = tip, OF assms(2,1) refl] obtain i' k where
    *: "rollback_loop lib src tip (length (ni_blocks i)) i 0 w = (Inr (i', k), w)" "rolled_back lib i i' k"
    "ni_blocks i' = rev (dropWhile ?off ?bs)" by auto
  have parts: "k \<le> length (ni_blocks i)" "index_inv lib i'"
    "\<exists>hs. disconnect_n disconnect k (ni_registry i) = Inr (hs, ni_registry i')"
    and eq: "i' = i\<lparr>ni_blocks := take (length (ni_blocks i) - k) (ni_blocks i), ni_registry := ni_registry i'\<rparr>"
    using *(2) unfolding rolled_back_def by blast+
  have blocks: "ni_blocks i' = take (length (ni_blocks i) - k) (ni_blocks i)" using arg_cong [OF eq, of ni_blocks] by simp
  have "length (dropWhile ?off ?bs) = length (ni_blocks i) - k" using blocks *(3) by (metis length_rev length_take min.absorb2 diff_le_self)
  moreover have "length (takeWhile ?off ?bs) + length (dropWhile ?off ?bs) = length ?bs"
    by (metis length_append takeWhile_dropWhile_id)
  ultimately have "k = length (takeWhile ?off ?bs)" using parts(1) by simp
  moreover have "i' = i\<lparr>ni_blocks := rev (dropWhile ?off ?bs), ni_registry := ni_registry i'\<rparr>"
    using eq blocks *(3) by metis
  moreover have "rollback lib src i tip w =
      (if ni_blocks i' = [] \<and> r_height (ni_registry i') \<noteq> r_genesis_height (ni_registry i')
       then Inl (Names (NamesInvalid DEEP_REORG)) else Inr (i', k), w)"
    using *(1) unfolding rollback_def by (simp add: ibind_app ensure_names_def act_apps)
  ultimately show ?thesis using parts by blast
qed

text \<open>The block of the example is reorganised away: the index goes back to the genesis.\<close>

theorem rollback_finds_fork_witness:
  "\<exists>i'. rollback ex_scan_lib (ex_source ex_fork_hash []) ex_index1 51 ex_world = (Inr (i', 1), ex_world) \<and>
     ni_blocks i' = [] \<and> ni_registry i' = ex_registry0"
proof -
  have stable: "stable (ex_source ex_fork_hash []) (ex_chain ex_fork_hash)"
    by (simp add: stable_def ex_source_def act_apps)
  have inv: "index_inv ex_scan_lib ex_index1" using ex_index1_ok by (simp add: index_ok_def)
  have d: "disconnect ex_registry1 = Inr (51, ex_registry0)"
    by (simp add: disconnect_def disconnect_delta_def ex_registry1_def ex_registry0_def checked_sub_def Let_def forward_delta_def)
  have "abandoned ex_scan_lib (ex_chain ex_fork_hash) 51 \<lparr>cp_height = 51, cp_hash = ex_block_hash\<rparr>"
    by (simp add: abandoned_def ex_lib ex_chain_def ex_fork_hash_def ex_block_hash_def)
  moreover have "r_height ex_registry0 = r_genesis_height ex_registry0" by (simp add: ex_registry0_def)
  ultimately show ?thesis using rollback_finds_fork [OF inv stable, of 51 ex_world] d by (auto simp: ex_index1_def)
qed

subsection \<open>The operations of a synchronisation\<close>

lemma rebuild_loop_keeps: "keeps (file_ok F) (\<lambda>_. True) (rebuild_loop lib src n at window) (\<lambda>_. True)"
  by (induction lib src n at window rule: rebuild_loop.induct)
    (auto intro!: keeps_ret keeps_then keeps_names keeps_weaken [OF fetch_block_keeps])

lemma rebuild_window_keeps:
  "index_ok lib i \<Longrightarrow> keeps (file_ok F) (\<lambda>_. True) (rebuild_window lib src i) (index_ok lib)"
  unfolding rebuild_window_def
  by (auto intro!: keeps_ret keeps_then keeps_names rebuild_loop_keeps simp: index_ok_def index_inv_def)

lemma genesis_registry_keeps:
  "keeps F (\<lambda>_. True) (case p of
       Genesis rules \<Rightarrow> ibind (names (protocol (Registry_new txid height rules))) (\<lambda>r. iret (r, hash))
     | _ \<Rightarrow> ithrow e) (\<lambda>(r, hash). \<exists>rules. Registry_new txid height rules = Inr r)"
  by (cases p) (auto simp: protocol_def intro!: keeps_throw keeps_ret
      keeps_bind [OF keeps_names [where Q = "\<lambda>r. \<exists>rules. Registry_new txid height rules = Inr r"]])

lemma verify_genesis_keeps:
  "keeps (file_ok F) (\<lambda>_. True) (verify_genesis lib src txid height)
     (\<lambda>(r, hash). \<exists>rules. Registry_new txid height rules = Inr r)"
  unfolding verify_genesis_def
  by (intro keeps_then keeps_weaken [OF fetch_block_keeps])
    (auto split: option.split intro!: genesis_registry_keeps keeps_throw keeps_then keeps_call keeps_names keeps_ensure)

lemma load_keeps:
  "keeps (file_ok (stored_ok lib)) (\<lambda>_. True) (imap_err Names (NamesIndex_load lib fs)) (index_ok lib)"
  unfolding NamesIndex_load_def
proof (intro keeps_imap_err keeps_bind [where R = "\<lambda>bs. stored_ok lib (Some bs)"] read_bounded_file)
  fix bs assume "stored_ok lib (Some bs)"
  then have "i = j \<longrightarrow> index_ok lib j" if "sl_from_json lib bs = Some i" for i j
    using that by (auto simp: stored_ok_def)
  then show "keeps (file_ok (stored_ok lib)) (\<lambda>_. True)
      (ibind (ilift (ok_or NamesJson (sl_from_json lib bs))) (\<lambda>i. ilift (check_index i))) (index_ok lib)"
    by (intro keeps_bind [OF keeps_lift [where Q = "\<lambda>i. sl_from_json lib bs = Some i"]] keeps_lift)
      (auto simp: ok_or_def check_index_def split: option.splits if_splits)
qed

lemma open_index_keeps:
  "keeps (file_ok (stored_ok lib)) (\<lambda>_. True) (open_index lib src fs rg genesis) (index_ok lib)"
proof -
  have "keeps (file_ok (stored_ok lib)) (\<lambda>_. True)
      (ibind (verify_genesis lib src (rg_genesis rg) (rg_genesis_height rg)) (\<lambda>(r, hash).
       iret (NamesIndex_new (rg_network rg) genesis (sl_hash_text lib hash) r))) (index_ok lib)"
    by (rule keeps_bind [OF verify_genesis_keeps]) (auto intro!: keeps_ret intro: new_index_ok)
  with load_keeps show ?thesis unfolding open_index_def by (rule keeps_branch)
qed

lemma anchor_keeps: "keeps (file_ok F) (\<lambda>_. True) (anchor lib src i) (\<lambda>_. True)"
  unfolding anchor_def Let_def by (intro keeps_then keeps_call keeps_if keeps_ensure) auto

lemma persist_keeps:
  assumes "json_laws lib" "index_ok lib i"
  shows "keeps (file_ok (stored_ok lib)) (\<lambda>_. True) (imap_err Names (NamesIndex_persist lib fs i)) (\<lambda>_. True)"
  unfolding NamesIndex_persist_def
proof (intro keeps_imap_err keeps_bind [OF keeps_lift [where Q = "\<lambda>bs. sl_to_json lib i = Some bs"]])
  fix bs assume "sl_to_json lib i = Some bs"
  with assms have "stored_ok lib (Some bs)" by (auto simp: stored_ok_def json_laws_def)
  then show "keeps (file_ok (stored_ok lib)) (\<lambda>_. True)
      (ibind (icheck (length bs \<le> NAMES_MAX_BYTES) (NamesInvalid ''names index byte capacity''))
        (\<lambda>_. imap_err NamesIo (write_replace fs bs))) (\<lambda>_. True)"
    by (intro keeps_then keeps_check keeps_imap_err write_replace_file) auto
qed (auto simp: ok_or_def split: option.splits)

lemma persist_written:
  "imap_err Names (NamesIndex_persist lib fs i) w = (Inr u, w') \<Longrightarrow> \<exists>bs. sl_to_json lib i = Some bs \<and> w_file w' = Some bs"
  unfolding imap_err_eq NamesIndex_persist_def
  by (auto simp: ibind_eq_Inr imap_err_eq act_apps ok_or_def dest!: write_replace_written split: option.splits if_splits)

text \<open>The loop over the blocks: it keeps the invariant, and it counts the blocks it connects.\<close>

lemma scan_loop_keeps:
  assumes "json_laws lib"
  shows "index_ok lib i \<Longrightarrow>
    keeps (file_ok (stored_ok lib)) (\<lambda>_. True) (scan_loop lib src fs tip n i l records scanned) (\<lambda>(i', _). index_ok lib i')"
proof (induction n arbitrary: i l records scanned)
  case (Suc n)
  have block: "keeps (file_ok (stored_ok lib)) (\<lambda>_. True) (scan_block lib src i l h) (\<lambda>(outs, i', l'). index_ok lib i')" for h
    by (rule keeps_result [OF scan_block_keeps]) (use scan_block_inv Suc.prems in fastforce)
  show ?case unfolding scan_loop.simps
  proof (intro keeps_then [OF keeps_names] keeps_if keeps_bind [OF block])
    fix x :: "outcome list \<times> names_index \<times> locator"
    assume ok: "case x of (outs, i', l') \<Rightarrow> index_ok lib i'"
    show "keeps (file_ok (stored_ok lib)) (\<lambda>_. True)
       (case x of (outs, i', l') \<Rightarrow> ibind (imap_err Names (NamesIndex_persist lib fs i')) (\<lambda>_.
          scan_loop lib src fs tip n i' l' (records @ map (\<lambda>oc. \<lparr>sr_height = h, sr_txid = sl_hash_text lib (oc_txid oc),
            sr_verdict = oc_verdict oc\<rparr>) outs) (scanned + 1))) (\<lambda>(i', _). index_ok lib i')" for h
      using ok by (auto intro!: keeps_then persist_keeps assms Suc.IH)
  qed (auto intro!: keeps_ret Suc.prems)
qed (auto intro: keeps_ret)

definition stored :: "'hdr scan_lib \<Rightarrow> names_index \<Rightarrow> 's world \<Rightarrow> bool" where
  "stored lib i w \<longleftrightarrow> (\<exists>bs. sl_to_json lib i = Some bs \<and> w_file w = Some bs)"

lemma scan_loop_counts:
  fixes src :: "('s, 'e, 'hdr) source"
  shows "scan_loop lib src fs tip n i l records scanned w = (Inr (i', records', scanned'), w') \<Longrightarrow>
   index_ok lib i \<Longrightarrow> stored lib i w \<Longrightarrow> unat scanned + n < 2 ^ 64 \<Longrightarrow>
   stored lib i' w' \<and> index_ok lib i' \<and>
   (\<exists>k \<le> n. unat scanned' = unat scanned + k \<and>
      unat (r_height (ni_registry i')) = unat (r_height (ni_registry i)) + k \<and> (k < n \<longrightarrow> tip \<le> r_height (ni_registry i')))"
proof (induction n arbitrary: i l records scanned w)
  case (Suc n)
  from Suc.prems(1) obtain height where height: "checked_add (r_height (ni_registry i)) 1 = Some height"
    and run: "(if tip < height then iret (i, records, scanned) else
       ibind (scan_block lib src i l height) (\<lambda>(outcomes, i', l').
       ibind (imap_err Names (NamesIndex_persist lib fs i')) (\<lambda>_.
       scan_loop lib src fs tip n i' l' (records @ map (\<lambda>oc. \<lparr>sr_height = height, sr_txid = sl_hash_text lib (oc_txid oc),
          sr_verdict = oc_verdict oc\<rparr>) outcomes) (scanned + 1)))) w = (Inr (i', records', scanned'), w')"
    by (auto simp: ibind_eq_Inr names_def act_apps ok_or_def split: option.splits)
  have h: "unat height = unat (r_height (ni_registry i)) + 1" using height by (simp add: checked_add_Some)
  show ?case
  proof (cases "tip < height")
    case True
    with run Suc.prems h show ?thesis by (auto simp: act_apps word_less_nat_alt word_le_nat_alt)
  next
    case False
    with run obtain outs i1 l1 w1 u w2 records1 where *: "scan_block lib src i l height w = (Inr (outs, i1, l1), w1)"
      "(imap_err Names (NamesIndex_persist lib fs i1) :: ('s, 'e, unit) scan) w1 = (Inr u, w2)"
      "scan_loop lib src fs tip n i1 l1 records1 (scanned + 1) w2 = (Inr (i', records', scanned'), w')"
      by (auto simp: ibind_eq_Inr)
    have inv: "index_ok lib i1" "unat (r_height (ni_registry i1)) = Suc (unat (r_height (ni_registry i)))"
      using scan_block_inv [OF *(1) Suc.prems(2)] h by auto
    have s: "unat (scanned + 1) = Suc (unat scanned)" using Suc.prems(4) by (simp add: unat_word_ariths)
    have "stored lib i1 w2" using persist_written [OF *(2)] by (simp add: stored_def)
    from Suc.IH [OF *(3) inv(1) this] s Suc.prems(4) obtain k where "k \<le> n" "unat scanned' = unat (scanned + 1) + k"
      "unat (r_height (ni_registry i')) = unat (r_height (ni_registry i1)) + k" "k < n \<longrightarrow> tip \<le> r_height (ni_registry i')"
      "stored lib i' w'" "index_ok lib i'" by auto
    then show ?thesis using s inv(2) by (auto intro!: exI [of _ "Suc k"])
  qed
qed (auto simp: act_apps)

lemma sync_keeps:
  assumes "json_laws lib"
  shows "keeps (file_ok (stored_ok lib)) (\<lambda>_. True) (sync lib src fs rg max_blocks) (\<lambda>_. True)"
proof -
  let ?F = "file_ok (stored_ok lib)"
  have tail: "keeps ?F (\<lambda>_. True)
      (ibind (if 0 < rolled then rebuild_window lib src i1 else iret i1) (\<lambda>i2.
       ibind (imap_err Names (NamesIndex_persist lib fs i2)) (\<lambda>_.
       ibind (names (Locator_from_index lib i2)) (\<lambda>l.
       ibind (scan_loop lib src fs tip (unat max_blocks) i2 l [] 0) (\<lambda>(i3, records, scanned).
       iret (report i3 records scanned)))))) (\<lambda>_. True)"
    if "index_ok lib i1" for i1 and rolled :: nat and tip and report :: "names_index \<Rightarrow> scanned_record list \<Rightarrow> u64 \<Rightarrow> scan_report"
  proof (rule keeps_bind [where R = "index_ok lib"])
    show "keeps ?F (\<lambda>_. True) (if 0 < rolled then rebuild_window lib src i1 else iret i1) (index_ok lib)"
      by (intro keeps_if keeps_ret rebuild_window_keeps that)
  next
    fix i2 assume ok: "index_ok lib i2"
    show "keeps ?F (\<lambda>_. True) (ibind (imap_err Names (NamesIndex_persist lib fs i2)) (\<lambda>_.
       ibind (names (Locator_from_index lib i2)) (\<lambda>l.
       ibind (scan_loop lib src fs tip (unat max_blocks) i2 l [] 0) (\<lambda>(i3, records, scanned).
       iret (report i3 records scanned))))) (\<lambda>_. True)"
      by (intro keeps_then [OF persist_keeps [OF assms ok]] keeps_then [OF keeps_names]
          keeps_bind [OF scan_loop_keeps [OF assms ok]]) (auto intro: keeps_ret)
  qed
  show ?thesis unfolding sync_def Let_def
  proof (intro keeps_then [OF keeps_ensure] keeps_then [OF keeps_call] keeps_bind [OF open_index_keeps]
      keeps_then [OF anchor_keeps])
    fix i0 tip assume "index_ok lib i0"
    then have inv: "index_inv lib i0" by (simp add: index_ok_def)
    show "keeps ?F (\<lambda>_. True)
      (ibind (rollback lib src i0 tip) (\<lambda>(i1, rolled).
       ibind (if 0 < rolled then rebuild_window lib src i1 else iret i1) (\<lambda>i2.
       ibind (imap_err Names (NamesIndex_persist lib fs i2)) (\<lambda>_.
       ibind (names (Locator_from_index lib i2)) (\<lambda>l.
       ibind (scan_loop lib src fs tip (unat max_blocks) i2 l [] 0) (\<lambda>(i3, records, scanned).
       iret \<lparr>rp_network = ni_network i3, rp_genesis = sl_hash_text lib (rg_genesis rg),
           rp_genesis_height = rg_genesis_height rg, rp_genesis_hash = ni_genesis_hash i3, rp_scanned = scanned,
           rp_rolled_back = rolled, rp_height = r_height (ni_registry i3), rp_tip = tip,
           rp_complete_to_tip = (r_height (ni_registry i3) = tip),
           rp_names = card (dom (r_names (ni_registry i3))), rp_pending = card (dom (r_pending (ni_registry i3))),
           rp_records = records\<rparr>)))))) (\<lambda>_. True)"
      by (rule keeps_bind [OF rollback_keeps [OF inv]]) (auto intro: tail)
  qed auto
qed

lemma sync_report:
  fixes src :: "('s, 'e, 'hdr) source"
  assumes "json_laws lib" "stored_ok lib (w_file w)" "sync lib src fs rg max_blocks w = (Inr rp, w')"
  obtains i where "stored lib i w'" "index_ok lib i" "rp_height rp = r_height (ni_registry i)"
    "rp_names rp = card (dom (r_names (ni_registry i)))" "rp_pending rp = card (dom (r_pending (ni_registry i)))"
    "rp_scanned rp \<le> max_blocks" "rp_scanned rp < max_blocks \<longrightarrow> rp_tip rp \<le> rp_height rp"
    "rp_complete_to_tip rp \<longleftrightarrow> rp_height rp = rp_tip rp"
proof -
  from assms(3) obtain genesis w1 i0 w2 w3 tip w4 i1 rolled w5 i2 w6 u w7 l i3 records scanned where *:
    "(call (src_genesis src) :: ('s, 'e, bytes) scan) w = (Inr genesis, w1)"
    "open_index lib src fs rg (sl_hash_text lib genesis) w1 = (Inr i0, w2)"
    "anchor lib src i0 w2 = (Inr (), w3)"
    "(call (src_tip_height src) :: ('s, 'e, u64) scan) w3 = (Inr tip, w4)"
    "rollback lib src i0 tip w4 = (Inr (i1, rolled), w5)"
    "(if 0 < rolled then rebuild_window lib src i1 else iret i1) w5 = (Inr i2, w6)"
    "(imap_err Names (NamesIndex_persist lib fs i2) :: ('s, 'e, unit) scan) w6 = (Inr u, w7)"
    "scan_loop lib src fs tip (unat max_blocks) i2 l [] 0 w7 = (Inr (i3, records, scanned), w')"
    and rp: "rp = \<lparr>rp_network = ni_network i3, rp_genesis = sl_hash_text lib (rg_genesis rg),
           rp_genesis_height = rg_genesis_height rg, rp_genesis_hash = ni_genesis_hash i3, rp_scanned = scanned,
           rp_rolled_back = rolled, rp_height = r_height (ni_registry i3), rp_tip = tip,
           rp_complete_to_tip = (r_height (ni_registry i3) = tip),
           rp_names = card (dom (r_names (ni_registry i3))), rp_pending = card (dom (r_pending (ni_registry i3))),
           rp_records = records\<rparr>"
    unfolding sync_def Let_def ensure_names_def names_def ibind_eq_Inr split_paired_Ex prod.case act_apps
    by (elim exE conjE) (simp add: act_apps split: if_splits)
  let ?F = "file_ok (stored_ok lib)"
  have F: "?F w1" using assms(2) *(1) by (auto simp: call_def file_ok_def split: prod.splits)
  from keeps_Inr [OF open_index_keeps F *(2)] have i0: "index_inv lib i0" "?F w2" by (simp_all add: index_ok_def)
  from keeps_Inr [OF anchor_keeps i0(2) *(3)] have w3: "?F w3" by simp
  have w4: "?F w4" using w3 *(4) by (auto simp: call_def file_ok_def split: prod.splits)
  from keeps_Inr [OF rollback_keeps [OF i0(1)] w4 *(5)] have i1: "index_ok lib i1" "?F w5" by auto
  have "keeps ?F (\<lambda>_. True) (if 0 < rolled then rebuild_window lib src i1 else iret i1) (index_ok lib)"
    by (intro keeps_if keeps_ret rebuild_window_keeps i1)
  from keeps_Inr [OF this i1(2) *(6)] have i2: "index_ok lib i2" by simp
  have "stored lib i2 w7" using persist_written [OF *(7)] by (simp add: stored_def)
  from scan_loop_counts [OF *(8) i2 this] unsigned_less [of max_blocks] obtain k where
    "stored lib i3 w'" "index_ok lib i3" "k \<le> unat max_blocks" "unat scanned = k"
    "k < unat max_blocks \<longrightarrow> tip \<le> r_height (ni_registry i3)" by auto
  with that [of i3] show thesis by (simp add: rp word_le_nat_alt word_less_nat_alt)
qed

text \<open>C31: A synchronisation never leaves an inconsistent index behind. Whatever the source and the operating
  system answer (where \<open>Path::exists\<close> tells whether the index file is there), and whether the synchronisation returns or stops with an error at any of its calls, the
  file holds an index that satisfies the invariant (if it held one before, or none). A report describes the
  file: its height and its counts are those of the index that the file now holds, no more than
  \<open>max_blocks\<close> blocks were scanned, a scan that stopped before that bound has reached the tip, and it
  claims to be complete exactly if the index stands at the tip.\<close>

theorem sync_leaves_consistent_index:
  assumes "json_laws lib" "stored_ok lib (w_file w)"
  shows "case sync lib src fs rg max_blocks w of (result, w') \<Rightarrow> stored_ok lib (w_file w') \<and>
    (case result of Inl e \<Rightarrow> True
     | Inr rp \<Rightarrow> \<exists>bs i. w_file w' = Some bs \<and> sl_from_json lib bs = Some i \<and> index_ok lib i \<and>
         rp_height rp = r_height (ni_registry i) \<and> rp_names rp = card (dom (r_names (ni_registry i))) \<and>
         rp_pending rp = card (dom (r_pending (ni_registry i))) \<and> rp_scanned rp \<le> max_blocks \<and>
         (rp_scanned rp < max_blocks \<longrightarrow> rp_tip rp \<le> rp_height rp) \<and> (rp_complete_to_tip rp \<longleftrightarrow> rp_height rp = rp_tip rp))"
proof -
  obtain result w' where run: "sync lib src fs rg max_blocks w = (result, w')" by fastforce
  have F: "file_ok (stored_ok lib) w" using assms(2) by (simp add: file_ok_def)
  note keeps = sync_keeps [OF assms(1), of src fs rg max_blocks]
  show ?thesis
  proof (cases result)
    case (Inl e)
    with keeps_Inl [OF keeps F] run show ?thesis by (auto simp: file_ok_def)
  next
    case (Inr rp)
    obtain i where i: "stored lib i w'" "index_ok lib i" "rp_height rp = r_height (ni_registry i)"
      "rp_names rp = card (dom (r_names (ni_registry i)))" "rp_pending rp = card (dom (r_pending (ni_registry i)))"
      "rp_scanned rp \<le> max_blocks" "rp_scanned rp < max_blocks \<longrightarrow> rp_tip rp \<le> rp_height rp"
      "rp_complete_to_tip rp \<longleftrightarrow> rp_height rp = rp_tip rp"
      using sync_report [OF assms run [unfolded Inr]] by blast
    then obtain bs where "w_file w' = Some bs" "sl_from_json lib bs = Some i"
      using assms(1) by (auto simp: stored_def json_laws_def)
    with i keeps_Inr [OF keeps F] run Inr show ?thesis by (auto simp: file_ok_def)
  qed
qed

theorem sync_leaves_consistent_index_witness:
  "\<exists>rp. fst (sync ex_scan_lib (ex_source ex_block_hash []) ex_files \<lparr>rg_network = [114], rg_genesis = [7], rg_genesis_height = 50\<rparr>
       10 ex_world) = Inr rp \<and> rp_height rp = 51 \<and> rp_complete_to_tip rp"
proof -
  let ?rg = "\<lparr>rg_network = [114], rg_genesis = [7], rg_genesis_height = 50\<rparr>"
  obtain rp w' where run: "sync ex_scan_lib (ex_source ex_block_hash []) ex_files ?rg 10 ex_world = (Inr rp, w')" "rp_tip rp = 51"
    using ex_synchronised by blast
  have "stored_ok ex_scan_lib (w_file ex_world)" using ex_json(2) by (simp add: ex_world_def)
  from sync_leaves_consistent_index [OF ex_json(1) this, where src = "ex_source ex_block_hash []" and fs = ex_files and rg = ?rg and max_blocks = 10] run
  show ?thesis by (auto simp: ex_decoded ex_index1_height)
qed

text \<open>C32: The registry is fed only proved records of linked, checked blocks. When a block is connected, the
  block passed the integrity checks (hash, Merkle root, witness commitment) and names the block of the last
  checkpoint (or the genesis) as its parent; every observation handed to the engine comes from one of its
  transactions whose author proof verified against the commit transaction that the locator placed at the
  recorded height and position; and the new index is exactly the engine's registry with the block's
  checkpoint and commit window appended, trimmed, and it satisfies the invariant again.\<close>

theorem scan_block_feeds_proved_records:
  assumes "scan_block lib src i l h w = (Inr (outcomes, i', l'), w')" "index_ok lib i"
  shows "\<exists>block obss r wb commits expected.
    validate_block_integrity (sl_chain lib) (fst block) (snd block) expected = Inr () \<and>
    prev_hash_text lib block = (if ni_blocks i = [] then ni_genesis_hash i else cp_hash (last (ni_blocks i))) \<and>
    (\<forall>obs \<in> set obss. \<exists>tx \<in> set (snd block). \<exists>commit v.
       VerifiedRecord_verify (sl_envelope lib) (e_txid (sl_envelope lib) tx) tx commit = Inr v \<and>
       o_txid obs = vr_txid v \<and> o_author obs = vr_author v \<and> o_height obs = h \<and>
       locate (Locator_push l h commits) (c_txid (o_commit obs)) = Known (c_height (o_commit obs)) (c_position (o_commit obs))) \<and>
    connect (ni_registry i) h obss = Inr (outcomes, r) \<and>
    i' = NamesIndex_trim (i\<lparr>ni_registry := r, ni_window := ni_window i @ [wb],
       ni_blocks := ni_blocks i @ [\<lparr>cp_height = h, cp_hash = block_hash_text lib block\<rparr>]\<rparr>) (reveal_max_blocks (r_rules r)) \<and>
    index_ok lib i'"
proof -
  from assms(1) obtain block obss r wb commits expected where *:
    "validate_block_integrity (sl_chain lib) (fst block) (snd block) expected = Inr ()"
    "prev_hash_text lib block = (if ni_blocks i = [] then ni_genesis_hash i else cp_hash (last (ni_blocks i)))"
    "\<forall>obs \<in> set obss. verified_observation lib (Locator_push l h commits) (snd block) h obs"
    "connect (ni_registry i) h obss = Inr (outcomes, r)"
    "i' = NamesIndex_trim (i\<lparr>ni_registry := r, ni_window := ni_window i @ [wb],
       ni_blocks := ni_blocks i @ [\<lparr>cp_height = h, cp_hash = block_hash_text lib block\<rparr>]\<rparr>) (reveal_max_blocks (r_rules r))"
    by (rule scan_block_result)
  have "\<forall>obs \<in> set obss. \<exists>tx \<in> set (snd block). \<exists>commit v.
       VerifiedRecord_verify (sl_envelope lib) (e_txid (sl_envelope lib) tx) tx commit = Inr v \<and>
       o_txid obs = vr_txid v \<and> o_author obs = vr_author v \<and> o_height obs = h \<and>
       locate (Locator_push l h commits) (c_txid (o_commit obs)) = Known (c_height (o_commit obs)) (c_position (o_commit obs))"
    using *(3) unfolding verified_observation_def by (fastforce dest: observation_from_verified_fields)
  with * scan_block_inv [OF assms] show ?thesis by blast
qed

theorem scan_block_feeds_proved_records_witness:
  "\<exists>outcomes i' l' w'. reported_ids outcomes = {#(replicate 32 1, 1)#} \<and> index_ok ex_scan_lib i' \<and>
     scan_block ex_scan_lib (ex_source ex_block_hash ex_txs) ex_index0 [] 51 ex_world = (Inr (outcomes, i', l'), w')"
proof -
  obtain outcomes i' l' w' where run: "reported_ids outcomes = {#(replicate 32 1, 1)#}"
    "scan_block ex_scan_lib (ex_source ex_block_hash ex_txs) ex_index0 [] 51 ex_world = (Inr (outcomes, i', l'), w')"
    using ex_block_scanned by blast
  from scan_block_feeds_proved_records [OF run(2) ex_index0_ok] have "index_ok ex_scan_lib i'" by blast
  with run show ?thesis by blast
qed

end
