(* ===== verification/Pow.thy ===== *)
theory Pow
  imports Chain_Params
begin

section \<open>Proof of work and difficulty (\<^verbatim>\<open>urma-chain/src/pow.rs\<close>)\<close>

text \<open>
  The difficulty rules of the five chains and the 256-bit arithmetic behind a retarget, on four
  64-bit limbs with 128-bit intermediates. The \<open>bitcoin\<close> and \<open>scrypt\<close> crates are the record
  \<open>pow_lib\<close>: a target is its 256-bit value, and \<open>le_targets\<close> names what the retarget relies on, that
  its byte conversions are little-endian.
\<close>

unbundle bit_operations_syntax

type_synonym u128 = "128 word"
type_synonym target256 = "256 word"

record header =
  h_time :: u32
  h_bits :: u32

record ('h, 'work) pow_lib =
  pl_block_hash :: "'h \<Rightarrow> bytes"
  pl_serialize :: "'h \<Rightarrow> bytes"
  pl_scrypt_params :: "u8 \<Rightarrow> u32 \<Rightarrow> u32 \<Rightarrow> nat \<Rightarrow> bool"
  pl_scrypt :: "bytes \<Rightarrow> bytes \<Rightarrow> u8 \<Rightarrow> u32 \<Rightarrow> u32 \<Rightarrow> nat \<Rightarrow> bytes option"
  pl_is_met_by :: "target256 \<Rightarrow> bytes \<Rightarrow> bool"
  pl_work :: "'h \<Rightarrow> 'work"
  pl_work_add :: "'work \<Rightarrow> 'work \<Rightarrow> 'work"
  pl_header :: "'h \<Rightarrow> header"
  pl_from_compact :: "u32 \<Rightarrow> target256"
  pl_to_compact_lossy :: "target256 \<Rightarrow> u32"
  pl_to_le_bytes :: "target256 \<Rightarrow> bytes"
  pl_from_le_bytes :: "bytes \<Rightarrow> target256"

definition le_targets :: "('h, 'work) pow_lib \<Rightarrow> bool" where
  "le_targets lib \<longleftrightarrow> pl_to_le_bytes lib = to_le_bytes \<and> pl_from_le_bytes lib = from_le_bytes"

datatype pow_error =
    ScryptParams
  | ScryptOutput
  | InvalidTarget
  | Unmet
  | EmptyWindow
  | ShortWindow nat nat
  | MissingDifficultyContext u64
  | HeightOverflow
  | TimeOverflow
  | Width
  | PowPanic string

subsection \<open>Hashes and targets\<close>

definition pow_hash :: "('h, 'work) pow_lib \<Rightarrow> 'h \<Rightarrow> chain \<Rightarrow> pow_error + bytes" where
  "pow_hash lib header c =
     (case cp_pow (Chain_params c) of
        Sha256d \<Rightarrow> Inr (pl_block_hash lib header)
      | Scrypt \<Rightarrow>
          let bs = pl_serialize lib header in
          if \<not> pl_scrypt_params lib SCRYPT_LOG_N SCRYPT_R SCRYPT_P POW_HASH_BYTES then Inl ScryptParams
          else (case pl_scrypt lib bs bs SCRYPT_LOG_N SCRYPT_R SCRYPT_P POW_HASH_BYTES of
            None \<Rightarrow> Inl ScryptOutput
          | Some digest \<Rightarrow> Inr digest))"

definition pow_limit :: "('h, 'work) pow_lib \<Rightarrow> chain \<Rightarrow> target256" where
  "pow_limit lib c = pl_from_compact lib (cp_pow_limit_bits (Chain_params c))"

definition check_header_pow :: "('h, 'work) pow_lib \<Rightarrow> 'h \<Rightarrow> chain \<Rightarrow> pow_error + unit" where
  "check_header_pow lib header c =
     (let t = pl_from_compact lib (h_bits (pl_header lib header)) in
      if t = 0 \<or> pow_limit lib c < t then Inl InvalidTarget
      else rbind (pow_hash lib header c) (\<lambda>hash.
        if \<not> pl_is_met_by lib t hash then Inl Unmet else Inr ()))"

definition chain_work :: "('h, 'work) pow_lib \<Rightarrow> 'h list \<Rightarrow> pow_error + 'work" where
  "chain_work lib headers =
     (case headers of
        [] \<Rightarrow> Inl EmptyWindow
      | first # rest \<Rightarrow> Inr (foldl (\<lambda>total h. pl_work_add lib total (pl_work lib h)) (pl_work lib first) rest))"

subsection \<open>256-bit arithmetic on limbs\<close>

definition limbs :: "('h, 'work) pow_lib \<Rightarrow> target256 \<Rightarrow> u64 list" where
  "limbs lib t = (let raw = pl_to_le_bytes lib t in
     map (\<lambda>index. from_le_bytes (slice (index * 8) (index * 8 + 8) raw)) [0..<4])"

definition limb_bytes :: "u64 list \<Rightarrow> bytes" where
  "limb_bytes ls = concat (map to_le_bytes ls)"

definition width_u64 :: "u128 \<Rightarrow> pow_error + u64" where
  "width_u64 x = (if unat x < 2 ^ 64 then Inr (ucast x) else Inl Width)"

fun mul_limbs :: "u64 \<Rightarrow> u128 \<Rightarrow> u64 list \<Rightarrow> pow_error + u64 list" where
  "mul_limbs factor carry [] = Inr []"
| "mul_limbs factor carry (limb # ls) =
     (let product = ucast limb * ucast factor + carry in
      rbind (width_u64 (product AND 0xFFFFFFFFFFFFFFFF)) (\<lambda>slot.
      rbind (mul_limbs factor (drop_bit 64 product) ls) (\<lambda>rest. Inr (slot # rest))))"

definition mul_mod_2_256 :: "u64 list \<Rightarrow> u64 \<Rightarrow> pow_error + u64 list" where
  "mul_mod_2_256 ls factor = mul_limbs factor 0 ls"

text \<open>The division runs from the most significant limb down, so the list is traversed in reverse.\<close>

fun div_limbs :: "u64 \<Rightarrow> u128 \<Rightarrow> u64 list \<Rightarrow> pow_error + u64 list" where
  "div_limbs factor remainder [] = Inr []"
| "div_limbs factor remainder (limb # ls) =
     (let current = push_bit 64 remainder OR ucast limb in
      if factor = 0 then Inl (PowPanic ''attempt to divide by zero'')
      else rbind (width_u64 (current div ucast factor)) (\<lambda>out.
        rbind (div_limbs factor (current mod ucast factor) ls) (\<lambda>rest. Inr (out # rest))))"

definition div_u64 :: "u64 list \<Rightarrow> u64 \<Rightarrow> pow_error + u64 list" where
  "div_u64 ls factor = rmap rev (div_limbs factor 0 (rev ls))"

subsection \<open>Retargeting\<close>

definition clamped_span :: "u32 \<Rightarrow> u32 \<Rightarrow> u32 \<Rightarrow> int" where
  "clamped_span last_time first_time timespan =
     (let span = uint timespan in max (span div 4) (min (span * 4) (uint last_time - uint first_time)))"

definition width_i64 :: "int \<Rightarrow> pow_error + u64" where
  "width_i64 x = (if 0 \<le> x \<and> x < 2 ^ 64 then Inr (word_of_int x) else Inl Width)"

definition retarget :: "('h, 'work) pow_lib \<Rightarrow> header \<Rightarrow> u32 \<Rightarrow> u32 \<Rightarrow> target256 \<Rightarrow> pow_error + target256" where
  "retarget lib last_header first_time timespan limit =
     rbind (width_i64 (clamped_span (h_time last_header) first_time timespan)) (\<lambda>actual.
     rbind (mul_mod_2_256 (limbs lib (pl_from_compact lib (h_bits last_header))) actual) (\<lambda>product.
     rbind (div_u64 product (ucast timespan)) (\<lambda>scaled.
     let fresh = pl_from_le_bytes lib (limb_bytes scaled) in
     Inr (if limit < fresh then limit else fresh))))"

text \<open>The loop of \<open>last_regular_bits\<close>: \<open>index\<close> and \<open>height\<close> count down together.\<close>

fun regular_index :: "header list \<Rightarrow> u64 \<Rightarrow> u32 \<Rightarrow> nat \<Rightarrow> u64 \<Rightarrow> nat \<times> u64" where
  "regular_index headers interval limit_bits 0 height = (0, height)"
| "regular_index headers interval limit_bits (Suc index) height =
     (if height mod interval \<noteq> 0 \<and> h_bits (headers ! Suc index) = limit_bits
      then regular_index headers interval limit_bits index (height - 1)
      else (Suc index, height))"

definition last_regular_bits :: "header list \<Rightarrow> u64 \<Rightarrow> u64 \<Rightarrow> u32 \<Rightarrow> pow_error + u32" where
  "last_regular_bits headers last_height interval limit_bits =
     (let (index, height) = regular_index headers interval limit_bits (length headers - 1) last_height in
      if index = 0 \<and> height mod interval \<noteq> 0 \<and> h_bits (headers ! index) = limit_bits
      then Inl (MissingDifficultyContext height)
      else Inr (h_bits (headers ! index)))"

definition checked_mul :: "'a::len word \<Rightarrow> 'a word \<Rightarrow> 'a word option" where
  "checked_mul a b = (if unat a * unat b < 2 ^ LENGTH('a) then Some (a * b) else None)"

text \<open>\<open>expected_bits\<close> below its height computations, and \<open>expected_bits\<close> itself.\<close>

definition next_bits ::
  "('h, 'work) pow_lib \<Rightarrow> chain \<Rightarrow> header list \<Rightarrow> u64 \<Rightarrow> u64 \<Rightarrow> u32 \<Rightarrow> pow_error + u32" where
  "next_bits lib c headers last_height next_height next_time =
     (let params = Chain_params c; last_header = last headers; limit_bits = cp_pow_limit_bits params in
      if \<not> cp_retargets params then Inr (h_bits last_header)
      else if next_height mod cp_retarget_interval params \<noteq> 0 then
        if \<not> cp_allow_min_difficulty params then Inr (h_bits last_header)
        else
          rbind (ok_or TimeOverflow
              (case checked_mul (cp_target_spacing params) 2 of
                 None \<Rightarrow> None | Some window \<Rightarrow> checked_add (h_time last_header) window)) (\<lambda>grace.
          if grace < next_time then Inr limit_bits
          else last_regular_bits headers last_height (cp_retarget_interval params) limit_bits)
      else
        let lookback = (if next_height = cp_retarget_interval params
                        then cp_retarget_interval params - 1 else cp_retarget_lookback params);
            needed = unat lookback + 1 in
        if length headers < needed then Inl (ShortWindow needed (length headers))
        else
          let first = headers ! (length headers - needed) in
          rmap (pl_to_compact_lossy lib)
            (retarget lib last_header (h_time first) (cp_target_timespan params) (pow_limit lib c)))"

definition expected_bits ::
  "('h, 'work) pow_lib \<Rightarrow> chain \<Rightarrow> header list \<Rightarrow> u64 \<Rightarrow> u32 \<Rightarrow> pow_error + u32" where
  "expected_bits lib c headers first_height next_time =
     (if headers = [] then Inl EmptyWindow
      else
        rbind (width_i64 (int (length headers - 1))) (\<lambda>last_index.
        rbind (ok_or HeightOverflow (checked_add first_height last_index)) (\<lambda>last_height.
        rbind (ok_or HeightOverflow (checked_add last_height 1)) (\<lambda>next_height.
        next_bits lib c headers last_height next_height next_time))))"

subsection \<open>The value of limbs\<close>

fun limbs_value :: "u64 list \<Rightarrow> nat" where
  "limbs_value [] = 0"
| "limbs_value (l # ls) = unat l + 2 ^ 64 * limbs_value ls"

lemma limbs_value_less: "limbs_value ls < 2 ^ (64 * length ls)"
proof (induction ls)
  case (Cons l ls)
  have "unat l < 2 ^ 64" using unat_less_pow [of l] by simp
  then have "unat l + 2 ^ 64 * limbs_value ls < 2 ^ 64 * Suc (limbs_value ls)" by simp
  also have "\<dots> \<le> 2 ^ 64 * 2 ^ (64 * length ls)" using Cons by (intro mult_le_mono) auto
  also have "\<dots> = 2 ^ (64 * length (l # ls))" by (simp add: power_add)
  finally show ?case by simp
qed simp

lemma width_u64_value: "unat x = n \<Longrightarrow> n < 2 ^ 64 \<Longrightarrow> width_u64 x = Inr (word_of_nat n)"
  by (auto simp: width_u64_def)

lemma mul_limbs_value:
  assumes "unat carry < 2 ^ 64"
  shows "\<exists>out. mul_limbs f carry ls = Inr out \<and> length out = length ls \<and>
    limbs_value out = (limbs_value ls * unat f + unat carry) mod 2 ^ (64 * length ls)"
  using assms
proof (induction ls arbitrary: carry)
  case (Cons l ls)
  let ?p = "ucast l * ucast f + carry :: u128"
  let ?P = "unat l * unat f + unat carry"
  have l: "unat l \<le> 2 ^ 64 - 1" and f: "unat f \<le> 2 ^ 64 - 1"
    using unat_less_pow [of l] unat_less_pow [of f] by auto
  have "unat l * unat f \<le> (2 ^ 64 - 1) * (2 ^ 64 - 1)" using l f by (rule mult_le_mono)
  then have small: "?P < 2 ^ 128" using Cons.prems by simp
  then have "unat l * unat f < 2 ^ 128" by simp
  then have p: "unat ?p = ?P" using small by (simp add: unat_word_ariths unat_ucast_up)
  have low: "unat (?p AND 0xFFFFFFFFFFFFFFFF) = ?P mod 2 ^ 64"
  proof -
    have "?p AND 0xFFFFFFFFFFFFFFFF = take_bit 64 ?p" by (simp add: take_bit_eq_mask mask_eq_exp_minus_1)
    then show ?thesis by (simp add: p [symmetric] take_bit_eq_mod unat_mod_distrib)
  qed
  have slot: "width_u64 (?p AND 0xFFFFFFFFFFFFFFFF) = Inr (word_of_nat (?P mod 2 ^ 64))"
    using low by (rule width_u64_value) simp
  have high: "unat (drop_bit 64 ?p) = ?P div 2 ^ 64" by (simp add: drop_bit_eq_div unat_div_distrib p [simplified])
  moreover have "?P div 2 ^ 64 < 2 ^ 64" using small by (simp add: less_mult_imp_div_less)
  ultimately obtain out where out: "mul_limbs f (drop_bit 64 ?p) ls = Inr out" "length out = length ls"
    "limbs_value out = (limbs_value ls * unat f + ?P div 2 ^ 64) mod 2 ^ (64 * length ls)"
    using Cons.IH [of "drop_bit 64 ?p"] by auto
  have "unat (word_of_nat (?P mod 2 ^ 64) :: u64) = ?P mod 2 ^ 64" by (rule unat_of_nat_small) simp
  then have "limbs_value (word_of_nat (?P mod 2 ^ 64) # out) =
      ?P mod 2 ^ 64 + 2 ^ 64 * ((limbs_value ls * unat f + ?P div 2 ^ 64) mod 2 ^ (64 * length ls))"
    by (simp add: out(3))
  also have "\<dots> = (2 ^ 64 * (limbs_value ls * unat f) + ?P) mod (2 ^ 64 * 2 ^ (64 * length ls))"
    by (simp add: mod_mult2_eq)
  also have "\<dots> = (limbs_value (l # ls) * unat f + unat carry) mod 2 ^ (64 * length (l # ls))"
    by (simp add: algebra_simps power_add)
  finally show ?case using slot out(1,2) by (simp add: Let_def)
qed simp

text \<open>The high-to-low division: \<open>be_value\<close> reads limbs most significant first.\<close>

fun be_value :: "nat \<Rightarrow> u64 list \<Rightarrow> nat" where
  "be_value acc [] = acc"
| "be_value acc (l # ls) = be_value (acc * 2 ^ 64 + unat l) ls"

lemma be_value_acc: "be_value acc ls = acc * 2 ^ (64 * length ls) + be_value 0 ls"
proof (induction ls arbitrary: acc)
  case (Cons l ls)
  show ?case using Cons [of "acc * 2 ^ 64 + unat l"] Cons [of "unat l"] by (simp add: algebra_simps power_add)
qed simp

lemma be_value_append: "be_value acc (xs @ [y]) = be_value acc xs * 2 ^ 64 + unat y"
  by (induction xs arbitrary: acc) simp_all

lemma be_value_rev: "be_value 0 (rev ls) = limbs_value ls"
  by (induction ls) (simp_all add: be_value_append)

lemma shift_or:
  assumes "unat r < 2 ^ 64"
  shows "unat (push_bit 64 r OR ucast (l :: u64) :: u128) = unat r * 2 ^ 64 + unat l"
proof -
  have "push_bit 64 r OR ucast l = push_bit 64 r + (ucast l :: u128)"
    by (rule disjunctive_add [symmetric]) (auto simp: bit_simps dest: bit_imp_le_length)
  moreover have "unat (push_bit 64 r :: u128) = unat r * 2 ^ 64"
    using assms by (simp add: push_bit_eq_mult unat_word_ariths)
  moreover have "unat (ucast l :: u128) = unat l" by (simp add: unat_ucast_up)
  moreover have "unat r * 2 ^ 64 + unat l < 2 ^ 128" using assms unat_less_pow [of l] by simp
  ultimately show ?thesis by (simp add: unat_word_ariths)
qed

lemma div_limbs_value:
  assumes "f \<noteq> 0" "unat r < unat f"
  shows "\<exists>out. div_limbs f r ls = Inr out \<and> length out = length ls \<and>
    be_value 0 out = be_value (unat r) ls div unat f"
  using assms(2)
proof (induction ls arbitrary: r)
  case (Cons l ls)
  let ?c = "push_bit 64 r OR ucast l :: u128"
  let ?C = "unat r * 2 ^ 64 + unat l"
  have "unat r < 2 ^ 64" using Cons.prems unat_less_pow [of f] by simp
  note c = shift_or [OF this, of l]
  have f: "0 < unat f" "unat (ucast f :: u128) = unat f" using Cons.prems by (simp_all add: unat_ucast_up)
  have q: "unat (?c div ucast f) = ?C div unat f" "unat (?c mod ucast f) = ?C mod unat f"
    by (simp_all only: unat_div_distrib unat_mod_distrib c f(2))
  have "?C < Suc (unat r) * 2 ^ 64" using unat_less_pow [of l] by simp
  also have "\<dots> \<le> unat f * 2 ^ 64" using Cons.prems by (intro mult_le_mono1) simp
  finally have "?C < unat f * 2 ^ 64" .
  then have small: "?C div unat f < 2 ^ 64" using f(1) by (simp add: div_less_iff_less_mult mult.commute)
  then have slot: "width_u64 (?c div ucast f) = Inr (word_of_nat (?C div unat f))"
    by (rule width_u64_value [OF q(1)])
  have "unat (?c mod ucast f) < unat f" unfolding q(2) using f(1) by simp
  from Cons.IH [OF this] obtain out where out: "div_limbs f (?c mod ucast f) ls = Inr out"
    "length out = length ls" "be_value 0 out = be_value (?C mod unat f) ls div unat f" unfolding q(2) by blast
  have "be_value 0 (word_of_nat (?C div unat f) # out) = be_value (?C div unat f) out"
    using small by (simp add: unat_of_nat_small)
  also have "\<dots> = (?C div unat f) * 2 ^ (64 * length ls) + be_value 0 out"
    by (subst be_value_acc) (simp add: out(2))
  also have "\<dots> = be_value ?C ls div unat f"
  proof -
    have "be_value ?C ls = (?C div unat f) * unat f * 2 ^ (64 * length ls) + be_value (?C mod unat f) ls"
    proof -
      have "(a div b * b + a mod b) * x = a * x" for a b x :: nat by simp
      from this [of ?C "unat f" "2 ^ (64 * length ls)"]
      have "?C * 2 ^ (64 * length ls) = (?C div unat f) * unat f * 2 ^ (64 * length ls) + (?C mod unat f) * 2 ^ (64 * length ls)"
        by (simp only: add_mult_distrib)
      with be_value_acc [of ?C ls] be_value_acc [of "?C mod unat f" ls] show ?thesis by linarith
    qed
    moreover have "(q * b * x + y) div b = q * x + y div b" if "0 < b" for q b x y :: nat
    proof -
      have "q * b * x + y = q * x * b + y" by simp
      with that show ?thesis by (simp only: div_mult_self3)
    qed
    ultimately show ?thesis using f(1) by (simp only: out(3))
  qed
  finally show ?case using slot out(1,2) assms(1) by (simp add: Let_def)
qed simp

lemma div_u64_value:
  assumes "f \<noteq> 0"
  shows "\<exists>out. div_u64 ls f = Inr out \<and> length out = length ls \<and> limbs_value out = limbs_value ls div unat f"
proof -
  have "unat (0 :: u128) < unat f" using assms by (simp add: unat_gt_0)
  from div_limbs_value [OF assms this, of "rev ls"] obtain out where
    "div_limbs f 0 (rev ls) = Inr out" "length out = length ls" "be_value 0 out = limbs_value ls div unat f"
    by (auto simp: be_value_rev)
  then show ?thesis by (intro exI [of _ "rev out"]) (simp add: div_u64_def be_value_rev [symmetric])
qed

subsection \<open>Targets as limbs\<close>

lemma le_to_nat_append: "le_to_nat (xs @ ys) = le_to_nat xs + 256 ^ length xs * le_to_nat ys"
  by (induction xs) (simp_all add: algebra_simps)

lemma limb_bytes_value: "le_to_nat (limb_bytes ls) = limbs_value ls"
proof (induction ls)
  case (Cons l ls)
  have "le_to_nat (to_le_bytes l) = unat l"
    using unat_less_pow [of l] by (simp add: to_le_bytes_def)
  then show ?case using Cons by (simp add: limb_bytes_def le_to_nat_append)
qed (simp add: limb_bytes_def)

lemma take_drop_join: "take n (drop k xs) @ drop (k + n) xs = drop k xs"
  by (metis add.commute append_take_drop_id drop_drop)

lemma limbs_of_target:
  assumes "pl_to_le_bytes lib = to_le_bytes"
  shows "limbs_value (limbs lib t) = unat t \<and> length (limbs lib t) = 4"
proof -
  let ?raw = "to_le_bytes t"
  have len: "length ?raw = 32" by simp
  have split: "?raw = slice 0 8 ?raw @ slice 8 16 ?raw @ slice 16 24 ?raw @ slice 24 32 ?raw"
    using len take_drop_join [of 8 0 ?raw] take_drop_join [of 8 8 ?raw] take_drop_join [of 8 16 ?raw]
    by (simp add: slice_def)
  have piece: "unat (from_le_bytes (slice a (a + 8) ?raw) :: u64) = le_to_nat (slice a (a + 8) ?raw)" if "a \<le> 24" for a
    using that le_to_nat_less [of "slice a (a + 8) ?raw"] len by (simp add: from_le_bytes_def slice_def unat_of_nat_small)
  have "[0..<4] = [0, 1, 2, 3 :: nat]" by (simp add: upt_rec)
  then have "le_to_nat ?raw = limbs_value (limbs lib t)"
    using piece [of 0] piece [of 8] piece [of 16] piece [of 24]
    by (subst split, simp only: le_to_nat_append) (simp add: limbs_def assms slice_def Let_def)
  moreover have "unat t = le_to_nat ?raw" using unat_less_pow [of t] by (simp add: to_le_bytes_def)
  ultimately show ?thesis by (simp add: limbs_def)
qed

lemma retarget_value:
  assumes "le_targets lib" "timespan \<noteq> 0"
  shows "\<exists>t. retarget lib last_header first_time timespan limit = Inr t \<and> t \<le> limit \<and>
    unat t = min (unat limit)
      (unat (pl_from_compact lib (h_bits last_header)) *
         nat (clamped_span (h_time last_header) first_time timespan) mod 2 ^ 256 div unat timespan)"
proof -
  let ?old = "pl_from_compact lib (h_bits last_header)" and ?span = "clamped_span (h_time last_header) first_time timespan"
  have "uint timespan < 2 ^ 32" using uint_range_size [of timespan] by (simp add: word_size)
  moreover have "0 \<le> uint timespan" "0 \<le> uint timespan div 4" by (simp_all add: pos_imp_zdiv_nonneg_iff)
  ultimately have span: "0 \<le> ?span" "?span < 2 ^ 64" unfolding clamped_span_def Let_def max_def min_def by auto
  then have actual: "width_i64 ?span = Inr (word_of_int ?span)" "unat (word_of_int ?span :: u64) = nat ?span"
    by (simp_all add: width_i64_def unat_eq_nat_uint uint_word_of_int)
  have old: "limbs_value (limbs lib ?old) = unat ?old" "length (limbs lib ?old) = 4"
    using limbs_of_target [of lib ?old] assms(1) by (simp_all add: le_targets_def)
  obtain product where product: "mul_mod_2_256 (limbs lib ?old) (word_of_int ?span) = Inr product" "length product = 4"
    "limbs_value product = unat ?old * nat ?span mod 2 ^ 256"
    using mul_limbs_value [of 0 "word_of_int ?span" "limbs lib ?old"] old actual(2) by (auto simp: mul_mod_2_256_def)
  have ts: "unat (ucast timespan :: u64) = unat timespan" by (simp add: unat_ucast_up)
  then have "(ucast timespan :: u64) \<noteq> 0" using assms(2) by (metis unat_eq_zero)
  with ts obtain scaled where scaled: "div_u64 product (ucast timespan) = Inr scaled" "length scaled = 4"
    "limbs_value scaled = unat ?old * nat ?span mod 2 ^ 256 div unat timespan"
    using div_u64_value [of "ucast timespan" product] product by auto
  let ?fresh = "from_le_bytes (limb_bytes scaled) :: target256"
  have "unat ?fresh = limbs_value scaled"
    using limbs_value_less [of scaled] scaled(2) by (simp add: from_le_bytes_def limb_bytes_value unat_of_nat_small)
  then show ?thesis
    using actual(1) product(1) scaled(1,3) assms(1)
    by (auto simp: retarget_def le_targets_def Let_def word_less_nat_alt word_le_nat_alt min_def)
qed

subsection \<open>Properties\<close>

text \<open>
  The limb arithmetic is exact. The product is the 256-bit product modulo 2 to the 256 and the
  quotient the integer quotient; no 128-bit intermediate overflows and the width error of the code
  is never reached, for every target and every divisor but zero.
\<close>
theorem limb_arithmetic_exact:
  "length ls = 4 \<Longrightarrow>
   (\<exists>out. mul_mod_2_256 ls m = Inr out \<and> length out = 4 \<and> limbs_value out = limbs_value ls * unat m mod 2 ^ 256) \<and>
   (m \<noteq> 0 \<longrightarrow> (\<exists>out. div_u64 ls m = Inr out \<and> length out = 4 \<and> limbs_value out = limbs_value ls div unat m))"
  using mul_limbs_value [of 0 m ls] div_u64_value [of m ls] by (auto simp: mul_mod_2_256_def)

theorem limb_arithmetic_exact_witness:
  "\<exists>out. mul_mod_2_256 [0, 0, 0, 0xFFFFFFFFFFFFFFFF] 3 = Inr out \<and>
     limbs_value out = limbs_value [0, 0, 0, 0xFFFFFFFFFFFFFFFF] * 3 mod 2 ^ 256"
  using limb_arithmetic_exact [of "[0, 0, 0, 0xFFFFFFFFFFFFFFFF]" 3] by auto

text \<open>
  A retarget returns, without error, the old target scaled by the clamped time span over the
  nominal span, in 256-bit arithmetic, capped at the chain's limit.
\<close>
theorem retarget_exact:
  assumes "le_targets lib" "timespan \<noteq> 0"
  shows "\<exists>t. retarget lib last_header first_time timespan limit = Inr t \<and> t \<le> limit \<and>
    unat t = min (unat limit)
      (unat (pl_from_compact lib (h_bits last_header)) *
         nat (clamped_span (h_time last_header) first_time timespan) mod 2 ^ 256 div unat timespan)"
  using assms by (rule retarget_value)

definition ex_lib :: "(unit, nat) pow_lib" where
  "ex_lib = \<lparr>pl_block_hash = (\<lambda>_. []), pl_serialize = (\<lambda>_. []), pl_scrypt_params = (\<lambda>_ _ _ _. True),
     pl_scrypt = (\<lambda>_ _ _ _ _ _. None), pl_is_met_by = (\<lambda>_ _. True), pl_work = (\<lambda>_. 0), pl_work_add = (+),
     pl_header = (\<lambda>_. \<lparr>h_time = 0, h_bits = 0\<rparr>), pl_from_compact = (\<lambda>bits. ucast bits),
     pl_to_compact_lossy = (\<lambda>t. ucast t), pl_to_le_bytes = to_le_bytes, pl_from_le_bytes = from_le_bytes\<rparr>"

theorem retarget_exact_witness:
  "\<exists>t. retarget ex_lib \<lparr>h_time = 2000, h_bits = 1000\<rparr> 0 1000 1000000 = Inr t \<and> unat t = 2000"
proof -
  have "le_targets ex_lib" by (simp add: le_targets_def ex_lib_def)
  from retarget_exact [OF this, of 1000 "\<lparr>h_time = 2000, h_bits = 1000\<rparr>" 0 1000000] show ?thesis
    by (auto simp: ex_lib_def clamped_span_def)
qed

definition regular_at :: "header list \<Rightarrow> u64 \<Rightarrow> u64 \<Rightarrow> u32 \<Rightarrow> nat \<Rightarrow> nat \<Rightarrow> bool" where
  "regular_at headers height interval limit_bits k i \<longleftrightarrow>
     (height - word_of_nat (k - i)) mod interval = 0 \<or> h_bits (headers ! i) \<noteq> limit_bits"

lemma find_cong_set: "(\<And>x. x \<in> set xs \<Longrightarrow> p x = q x) \<Longrightarrow> find p xs = find q xs"
  by (induction xs) auto

lemma regular_index_find:
  "(let (i, h) = regular_index headers interval limit_bits k height in
      if i = 0 \<and> h mod interval \<noteq> 0 \<and> h_bits (headers ! i) = limit_bits
      then Inl (MissingDifficultyContext h) else Inr (h_bits (headers ! i))) =
   (case find (regular_at headers height interval limit_bits k) (rev [0..<Suc k]) of
      None \<Rightarrow> Inl (MissingDifficultyContext (height - word_of_nat k))
    | Some i \<Rightarrow> Inr (h_bits (headers ! i)))"
proof (induction k arbitrary: height)
  case (Suc k)
  have list: "rev [0..<Suc (Suc k)] = Suc k # rev [0..<Suc k]" by simp
  show ?case
  proof (cases "regular_at headers height interval limit_bits (Suc k) (Suc k)")
    case True
    then show ?thesis by (subst list) (auto simp: regular_at_def)
  next
    case False
    have eq: "find (regular_at headers (height - 1) interval limit_bits k) (rev [0..<Suc k]) =
        find (regular_at headers height interval limit_bits (Suc k)) (rev [0..<Suc k])"
    proof (intro find_cong_set)
      fix x assume "x \<in> set (rev [0..<Suc k])"
      then have "x \<le> k" by auto
      then have "height - 1 - word_of_nat (k - x) = height - word_of_nat (Suc k - x)" by (simp add: Suc_diff_le)
      then show "regular_at headers (height - 1) interval limit_bits k x =
          regular_at headers height interval limit_bits (Suc k) x" by (simp only: regular_at_def)
    qed
    have idx: "regular_index headers interval limit_bits (Suc k) height =
        regular_index headers interval limit_bits k (height - 1)"
      using False by (simp add: regular_at_def)
    show ?thesis
      unfolding list idx Suc.IH [of "height - 1"] eq using False by (simp add: diff_diff_eq split: option.splits)
  qed
qed (simp add: regular_at_def)

lemma last_regular_bits_found:
  "headers \<noteq> [] \<Longrightarrow>
   last_regular_bits headers last_height interval limit_bits =
     (case find (regular_at headers last_height interval limit_bits (length headers - 1)) (rev [0..<length headers]) of
        None \<Rightarrow> Inl (MissingDifficultyContext (last_height - word_of_nat (length headers - 1)))
      | Some i \<Rightarrow> Inr (h_bits (headers ! i)))"
proof -
  assume "headers \<noteq> []"
  then have "[0..<length headers] = [0..<Suc (length headers - 1)]" by simp
  then show ?thesis
    unfolding last_regular_bits_def regular_index_find [of headers interval limit_bits "length headers - 1" last_height]
    by (simp only:)
qed

text \<open>
  On chains that allow minimum-difficulty blocks the difficulty is that of the latest header that
  is at a retarget boundary or does not carry the limit: the backward loop over the window finds
  exactly that header, and reports missing context exactly when the window has none.
\<close>
theorem last_regular_bits_finds:
  "headers \<noteq> [] \<Longrightarrow>
   last_regular_bits headers last_height interval limit_bits =
     (case find (regular_at headers last_height interval limit_bits (length headers - 1)) (rev [0..<length headers]) of
        None \<Rightarrow> Inl (MissingDifficultyContext (last_height - word_of_nat (length headers - 1)))
      | Some i \<Rightarrow> Inr (h_bits (headers ! i)))"
  by (rule last_regular_bits_found)

theorem last_regular_bits_finds_witness:
  "last_regular_bits [\<lparr>h_time = 0, h_bits = 7\<rparr>, \<lparr>h_time = 0, h_bits = 9\<rparr>] 101 50 9 = Inr 7"
  using last_regular_bits_finds [of "[\<lparr>h_time = 0, h_bits = 7\<rparr>, \<lparr>h_time = 0, h_bits = 9\<rparr>]" 101 50 9]
  by (simp add: regular_at_def)

lemma next_bits_errors:
  assumes "le_targets lib" "headers \<noteq> []"
  shows "next_bits lib c headers lh nh t = Inl e \<Longrightarrow>
      e \<in> {TimeOverflow} \<union> range MissingDifficultyContext \<union> {ShortWindow n (length headers) | n. length headers < n \<and> n \<le> 2017}"
    and "2017 \<le> length headers \<Longrightarrow> \<not> (cp_retargets (Chain_params c) \<and> cp_allow_min_difficulty (Chain_params c)) \<Longrightarrow>
      \<exists>bits. next_bits lib c headers lh nh t = Inr bits"
proof -
  let ?p = "Chain_params c"
  have "cp_target_timespan ?p \<noteq> 0" using chain_params_sane(5) [of c] by auto
  then have ret: "\<exists>x. retarget lib (last headers) ft (cp_target_timespan ?p) (pow_limit lib c) = Inr x" for ft
    using retarget_value [OF assms(1)] by blast
  have lookback: "unat (cp_retarget_interval ?p - 1) \<le> 2016" "unat (cp_retarget_lookback ?p) \<le> 2016"
    by (cases c; simp add: chain_constants)+
  have lrb: "\<exists>h. e = MissingDifficultyContext h" if "last_regular_bits headers lh iv lb = Inl e" for iv lb e
    using that last_regular_bits_found [OF assms(2)] by (auto split: option.splits)
  have "rmap g (retarget lib (last headers) ft (cp_target_timespan ?p) (pow_limit lib c)) \<noteq> Inl e" for g ft
    using ret [of ft] by auto
  then show "next_bits lib c headers lh nh t = Inl e \<Longrightarrow>
      e \<in> {TimeOverflow} \<union> range MissingDifficultyContext \<union> {ShortWindow n (length headers) | n. length headers < n \<and> n \<le> 2017}"
    using lookback by (auto simp: next_bits_def Let_def rbind_eq_Inl ok_or_def split: if_splits option.splits dest: lrb)
  show "2017 \<le> length headers \<Longrightarrow> \<not> (cp_retargets ?p \<and> cp_allow_min_difficulty ?p) \<Longrightarrow>
      \<exists>bits. next_bits lib c headers lh nh t = Inr bits"
  proof -
    assume long: "2017 \<le> length headers" and rule: "\<not> (cp_retargets ?p \<and> cp_allow_min_difficulty ?p)"
    have some: "\<exists>bits. rmap g (retarget lib (last headers) ft (cp_target_timespan ?p) (pow_limit lib c)) = Inr bits" for g ft
      using ret [of ft] by auto
    show ?thesis using long rule lookback by (auto simp: next_bits_def Let_def simp del: rmap_eq_Inr intro!: some)
  qed
qed

text \<open>
  The difficulty rule fails only for the reasons its error type names: an empty or short window, a
  height or time overflow, or missing context for the minimum-difficulty lookup; the width errors and
  the division are unreachable on all five chains. With a window of 2017 headers below the height
  limit it always answers on the chains without the minimum-difficulty rule.
\<close>
theorem expected_bits_errors:
  assumes "le_targets lib" "length headers \<le> 2 ^ 64"
  shows "(\<forall>e. expected_bits lib c headers first_height next_time = Inl e \<longrightarrow>
      e \<in> {EmptyWindow, HeightOverflow, TimeOverflow} \<union> range MissingDifficultyContext \<union>
        {ShortWindow n (length headers) | n. length headers < n \<and> n \<le> 2017}) \<and>
    (2017 \<le> length headers \<and> unat first_height + length headers < 2 ^ 64 \<and>
      \<not> (cp_retargets (Chain_params c) \<and> cp_allow_min_difficulty (Chain_params c)) \<longrightarrow>
      (\<exists>bits. expected_bits lib c headers first_height next_time = Inr bits))"
proof (cases "headers = []")
  case False
  let ?i = "word_of_nat (length headers - 1) :: u64"
  have "int (length headers - 1) < 2 ^ 64" using assms(2) False by (cases headers) auto
  then have n: "width_i64 (int (length headers - 1)) = Inr ?i" "unat ?i = length headers - 1"
    by (simp_all add: width_i64_def unat_of_nat_small)
  have eq: "expected_bits lib c headers first_height next_time =
      rbind (ok_or HeightOverflow (checked_add first_height ?i)) (\<lambda>last_height.
      rbind (ok_or HeightOverflow (checked_add last_height 1)) (\<lambda>next_height.
      next_bits lib c headers last_height next_height next_time))"
    unfolding expected_bits_def n(1) using False by simp
  have "\<exists>lh nh. checked_add first_height ?i = Some lh \<and> checked_add lh 1 = Some nh"
    if small: "unat first_height + length headers < 2 ^ 64"
  proof -
    have lh: "unat (first_height + ?i) = unat first_height + (length headers - 1)"
      using small n(2) by (simp add: unat_word_ariths)
    have "checked_add first_height ?i = Some (first_height + ?i)"
      unfolding checked_add_def n(2) using small by simp
    moreover have "checked_add (first_height + ?i) 1 = Some (first_height + ?i + 1)"
      unfolding checked_add_def lh using small False by (cases headers) simp_all
    ultimately show ?thesis by blast
  qed
  then show ?thesis
    unfolding eq using next_bits_errors [OF assms(1) False]
    by (fastforce simp: rbind_eq_Inl ok_or_def split: option.splits)
qed (auto simp: expected_bits_def)

theorem expected_bits_errors_witness:
  "\<exists>bits. expected_bits ex_lib BitcoinMainnet (replicate 2017 \<lparr>h_time = 0, h_bits = 5\<rparr>) 0 0 = Inr bits"
proof -
  have "le_targets ex_lib" by (simp add: le_targets_def ex_lib_def)
  moreover have "\<not> cp_allow_min_difficulty (Chain_params BitcoinMainnet)" by (simp add: chain_constants)
  ultimately show ?thesis
    using expected_bits_errors [of ex_lib "replicate 2017 \<lparr>h_time = 0, h_bits = 5\<rparr>" BitcoinMainnet 0 0] by simp
qed

end
