(* ===== verification/Inclusion.thy ===== *)
theory Inclusion
  imports Chain_Decode
begin

section \<open>Merkle inclusion proofs (\<^verbatim>\<open>urma-chain/src/inclusion.rs\<close>)\<close>

text \<open>
  A proof that a transaction is in a block: Merkle paths for the transaction and the coinbase, in the
  transaction tree and in the witness tree. The builder cuts the paths from the full trees of a
  block; the verifier recomputes the roots. The double SHA-256 of the \<open>bitcoin\<close> crate is
  \<open>b_sha256d\<close>. The loops over widths and levels run on natural numbers: every width is at most the
  32-bit transaction count.
\<close>

definition MAX_TRANSACTIONS :: u32 where "MAX_TRANSACTIONS = 1000000"
definition MAX_PATH_LEVELS :: nat where "MAX_PATH_LEVELS = 20"

record merkle_path =
  mp_index :: u32
  mp_tx_count :: u32
  mp_siblings :: "bytes list"

record transaction_proof =
  tp_transaction :: bytes
  tp_txid_path :: merkle_path
  tp_coinbase :: bytes
  tp_coinbase_path :: merkle_path
  tp_witness_path :: merkle_path
  tp_coinbase_witness_path :: merkle_path

record block_proof_builder =
  bp_txid_levels :: "bytes list list"
  bp_witness_levels :: "bytes list list"
  bp_coinbase_targets :: "bool list"

record 'tx included_transaction =
  it_transaction :: 'tx
  it_raw :: bytes
  it_block_hash :: bytes
  it_position :: u32

datatype inclusion_error =
    InclusionDecode decode_error | InclusionIntegrity block_validation_error | LimitExceeded | InvalidPath
  | InconsistentPaths | InvalidPadding | MerkleRootMismatch | InvalidCoinbase | CoinbaseTarget
  | InvalidReservedValue | MissingWitnessCommitment | WitnessRootMismatch | WitnessCommitmentMismatch
  | InclusionPanic string

definition parent :: "(bytes \<Rightarrow> bytes) \<Rightarrow> bytes \<Rightarrow> bytes \<Rightarrow> bytes" where
  "parent sha256d left right = sha256d (left @ right)"

subsection \<open>Paths\<close>

function path_levels :: "nat \<Rightarrow> nat" where
  "path_levels width = (if 1 < width then Suc (path_levels (div_ceil width 2)) else 0)"
  by pat_completeness auto
termination by (relation "measure id") (auto simp: div_ceil_def)

declare path_levels.simps [simp del]

definition MerklePath_check :: "merkle_path \<Rightarrow> inclusion_error + unit" where
  "MerklePath_check p =
     (if MAX_TRANSACTIONS < mp_tx_count p \<or> MAX_PATH_LEVELS < length (mp_siblings p) then Inl LimitExceeded
      else if mp_tx_count p = 0 \<or> mp_tx_count p \<le> mp_index p then Inl InvalidPath
      else if length (mp_siblings p) \<noteq> path_levels (unat (mp_tx_count p)) then Inl InvalidPath
      else Inr ())"

fun fold_path :: "(bytes \<Rightarrow> bytes) \<Rightarrow> nat \<Rightarrow> nat \<Rightarrow> bytes \<Rightarrow> bytes list \<Rightarrow> inclusion_error + bytes" where
  "fold_path sha256d index width hash [] = Inr hash"
| "fold_path sha256d index width hash (sibling # siblings) =
     (if index mod 2 = 0 then
        (if index + 1 = width \<and> sibling \<noteq> hash then Inl InvalidPadding
         else fold_path sha256d (index div 2) (div_ceil width 2) (parent sha256d hash sibling) siblings)
      else fold_path sha256d (index div 2) (div_ceil width 2) (parent sha256d sibling hash) siblings)"

definition MerklePath_root :: "(bytes \<Rightarrow> bytes) \<Rightarrow> merkle_path \<Rightarrow> bytes \<Rightarrow> inclusion_error + bytes" where
  "MerklePath_root sha256d p hash =
     rbind (MerklePath_check p) (\<lambda>_.
     fold_path sha256d (unat (mp_index p)) (unat (mp_tx_count p)) hash (mp_siblings p))"

subsection \<open>Building\<close>

definition next_level :: "(bytes \<Rightarrow> bytes) \<Rightarrow> bytes list \<Rightarrow> bytes list" where
  "next_level sha256d level =
     map (\<lambda>pair. parent sha256d (pair ! 0) (if 1 < length pair then pair ! 1 else pair ! 0)) (chunks 2 level)"

lemma length_next_level [simp]: "length (next_level sha256d level) = div_ceil (length level) 2"
  by (simp add: next_level_def length_chunks)

function build_levels :: "(bytes \<Rightarrow> bytes) \<Rightarrow> bytes list \<Rightarrow> bytes list list" where
  "build_levels sha256d hashes =
     (if 1 < length hashes then hashes # build_levels sha256d (next_level sha256d hashes) else [hashes])"
  by pat_completeness auto
termination by (relation "measure (\<lambda>(_, hs). length hs)") (auto simp: div_ceil_def)

declare build_levels.simps [simp del]

definition sibling_of :: "bytes list \<Rightarrow> nat \<Rightarrow> bytes" where
  "sibling_of level index =
     (let other = (if index mod 2 = 0 then index + 1 else index - 1) in
      if other < length level then level ! other else level ! index)"

fun path_siblings :: "nat \<Rightarrow> bytes list list \<Rightarrow> bytes list" where
  "path_siblings index [] = []"
| "path_siblings index (level # levels) = sibling_of level index # path_siblings (index div 2) levels"

definition builder_path :: "block_proof_builder \<Rightarrow> bytes list list \<Rightarrow> u32 \<Rightarrow> merkle_path" where
  "builder_path b levels position =
     \<lparr>mp_index = position, mp_tx_count = word_of_nat (length (bp_coinbase_targets b)),
      mp_siblings = path_siblings (unat position) (butlast levels)\<rparr>"

definition BlockProofBuilder_new ::
  "('hdr, 'tx, 'lhdr, 'ltx, 'mweb) chain_lib \<Rightarrow> 'hdr \<Rightarrow> 'tx list \<Rightarrow> inclusion_error + block_proof_builder" where
  "BlockProofBuilder_new lib header txdata =
     (if unat MAX_TRANSACTIONS < length txdata then Inl LimitExceeded
      else
        rbind (map_err InclusionIntegrity (validate_block_integrity lib header txdata (b_block_hash lib header))) (\<lambda>_.
        let txids = map (b_txid lib) txdata;
            witnesses = map (\<lambda>(index, tx). if index = 0 then replicate 32 0 else b_wtxid lib tx) (enumerate 0 txdata)
        in Inr \<lparr>bp_txid_levels = build_levels (b_sha256d lib) txids,
                bp_witness_levels = build_levels (b_sha256d lib) witnesses,
                bp_coinbase_targets = map (b_is_coinbase lib) txdata\<rparr>))"

definition builder_proof ::
  "block_proof_builder \<Rightarrow> u32 \<Rightarrow> bytes \<Rightarrow> bytes \<Rightarrow> inclusion_error + transaction_proof" where
  "builder_proof b position raw_transaction raw_coinbase =
     (if position = 0 then Inl CoinbaseTarget
      else if length (bp_coinbase_targets b) \<le> unat position then Inl InvalidPath
      else if bp_coinbase_targets b ! unat position then Inl CoinbaseTarget
      else Inr \<lparr>tp_transaction = raw_transaction, tp_txid_path = builder_path b (bp_txid_levels b) position,
         tp_coinbase = raw_coinbase, tp_coinbase_path = builder_path b (bp_txid_levels b) 0,
         tp_witness_path = builder_path b (bp_witness_levels b) position,
         tp_coinbase_witness_path = builder_path b (bp_witness_levels b) 0\<rparr>)"

definition TransactionProof_from_block ::
  "('hdr, 'tx, 'lhdr, 'ltx, 'mweb) chain_lib \<Rightarrow> 'hdr \<Rightarrow> 'tx list \<Rightarrow> u32 \<Rightarrow> bytes \<Rightarrow> bytes \<Rightarrow>
   inclusion_error + transaction_proof" where
  "TransactionProof_from_block lib header txdata position raw_transaction raw_coinbase =
     rbind (BlockProofBuilder_new lib header txdata) (\<lambda>b. builder_proof b position raw_transaction raw_coinbase)"

subsection \<open>Verifying\<close>

text \<open>The four checks of \<open>verify\<close> in order: the paths, the transactions, the two transaction roots, the witness commitment.\<close>

definition verify_paths :: "transaction_proof \<Rightarrow> inclusion_error + unit" where
  "verify_paths p =
     (let paths = [tp_txid_path p, tp_coinbase_path p, tp_witness_path p, tp_coinbase_witness_path p] in
      rbind (rtraverse MerklePath_check paths) (\<lambda>_.
      if (\<exists>path \<in> set paths. mp_tx_count path \<noteq> mp_tx_count (tp_txid_path p)) \<or>
         mp_index (tp_txid_path p) \<noteq> mp_index (tp_witness_path p) \<or>
         mp_index (tp_coinbase_path p) \<noteq> 0 \<or> mp_index (tp_coinbase_witness_path p) \<noteq> 0
      then Inl InconsistentPaths
      else if mp_index (tp_txid_path p) = 0 then Inl CoinbaseTarget
      else Inr ()))"

definition verify_roots ::
  "('hdr, 'tx, 'lhdr, 'ltx, 'mweb) chain_lib \<Rightarrow> transaction_proof \<Rightarrow> 'hdr \<Rightarrow> 'tx \<Rightarrow> 'tx \<Rightarrow> inclusion_error + unit" where
  "verify_roots lib p expected transaction coinbase =
     (let expected_root = b_merkle_root lib expected in
      rbind (MerklePath_root (b_sha256d lib) (tp_txid_path p) (b_txid lib transaction)) (\<lambda>tx_root.
      if tx_root \<noteq> expected_root then Inl MerkleRootMismatch
      else
        rbind (MerklePath_root (b_sha256d lib) (tp_coinbase_path p) (b_txid lib coinbase)) (\<lambda>coinbase_root.
        if coinbase_root \<noteq> expected_root then Inl MerkleRootMismatch else Inr ())))"

definition verify_witness ::
  "('hdr, 'tx, 'lhdr, 'ltx, 'mweb) chain_lib \<Rightarrow> transaction_proof \<Rightarrow> 'tx \<Rightarrow> 'tx \<Rightarrow> inclusion_error + unit" where
  "verify_witness lib p transaction coinbase =
     (case b_witnesses lib coinbase of
        [] \<Rightarrow> Inl (InclusionPanic ''index out of bounds'')
      | [] # _ \<Rightarrow> Inl InvalidReservedValue
      | (reserved # others) # _ \<Rightarrow>
          if length reserved \<noteq> 32 \<or> others \<noteq> [] then Inl InvalidReservedValue
          else
            rbind (ok_or MissingWitnessCommitment (commitment_script (b_scripts lib coinbase))) (\<lambda>script.
            rbind (MerklePath_root (b_sha256d lib) (tp_witness_path p) (b_wtxid lib transaction)) (\<lambda>witness_root.
            rbind (MerklePath_root (b_sha256d lib) (tp_coinbase_witness_path p) (replicate 32 0)) (\<lambda>coinbase_root.
            if coinbase_root \<noteq> witness_root then Inl WitnessRootMismatch
            else if b_witness_commitment lib witness_root reserved \<noteq> slice 6 38 script
            then Inl WitnessCommitmentMismatch
            else Inr ()))))"

definition TransactionProof_verify ::
  "('hdr, 'tx, 'lhdr, 'ltx, 'mweb) chain_lib \<Rightarrow> transaction_proof \<Rightarrow> chain \<Rightarrow> 'hdr \<Rightarrow>
   inclusion_error + 'tx included_transaction" where
  "TransactionProof_verify lib p c expected =
     rbind (verify_paths p) (\<lambda>_.
     rbind (map_err InclusionDecode (decode_transaction lib (tp_transaction p) c)) (\<lambda>transaction.
     rbind (map_err InclusionDecode (decode_transaction lib (tp_coinbase p) c)) (\<lambda>coinbase.
     if b_is_coinbase lib transaction then Inl CoinbaseTarget
     else if \<not> b_is_coinbase lib coinbase then Inl InvalidCoinbase
     else
       rbind (verify_roots lib p expected transaction coinbase) (\<lambda>_.
       rbind (verify_witness lib p transaction coinbase) (\<lambda>_.
       Inr \<lparr>it_transaction = transaction, it_raw = tp_transaction p,
         it_block_hash = b_block_hash lib expected, it_position = mp_index (tp_txid_path p)\<rparr>)))))"

subsection \<open>Paths of a tree\<close>

lemma next_level_nth:
  assumes "j < div_ceil (length hs) 2"
  shows "next_level f hs ! j = parent f (hs ! (2 * j)) (if 2 * j + 1 < length hs then hs ! (2 * j + 1) else hs ! (2 * j))"
proof -
  have "j * 2 < length hs" using assms by (simp add: div_ceil_gt_iff)
  moreover have "chunks 2 hs ! j = take 2 (drop (j * 2) hs)" using assms by (simp add: nth_chunks length_chunks)
  moreover have "(Suc 0 < length hs - j * 2) = (Suc (j * 2) < length hs)" by linarith
  ultimately show ?thesis using assms by (simp add: next_level_def length_chunks mult.commute)
qed

lemma build_levels_ne [simp]: "build_levels f hs \<noteq> []"
  by (subst build_levels.simps) simp

lemma build_levels_step:
  "1 < length hs \<Longrightarrow> build_levels f hs = hs # build_levels f (next_level f hs)"
  by (subst build_levels.simps) simp

lemma build_levels_end: "\<not> 1 < length hs \<Longrightarrow> build_levels f hs = [hs]"
  by (subst build_levels.simps) simp

text \<open>The root of the tree over a nonempty list of hashes.\<close>

definition tree_root :: "(bytes \<Rightarrow> bytes) \<Rightarrow> bytes list \<Rightarrow> bytes" where
  "tree_root f hs = last (build_levels f hs) ! 0"

lemma tree_root_step: "1 < length hs \<Longrightarrow> tree_root f hs = tree_root f (next_level f hs)"
  by (simp add: tree_root_def build_levels_step)

lemma half_less: "i < n \<Longrightarrow> i div 2 < div_ceil n 2"
  by (simp add: div_ceil_gt_iff)

lemma parent_of_sibling:
  assumes "i < length hs"
  shows "(if i mod 2 = 0 then parent f (hs ! i) (sibling_of hs i) else parent f (sibling_of hs i) (hs ! i)) =
    next_level f hs ! (i div 2)"
proof (cases "i mod 2 = 0")
  case True
  then have i: "2 * (i div 2) = i" by (simp add: mod_eq_0_iff_dvd)
  show ?thesis unfolding next_level_nth [OF half_less [OF assms]] i using True by (simp add: sibling_of_def Let_def)
next
  case False
  then have i: "Suc (2 * (i div 2)) = i" by presburger
  have "2 * (i div 2) = i - 1" and lt: "i - 1 < length hs" using i assms by linarith+
  moreover have "sibling_of hs i = hs ! (i - 1)" using False lt by (simp only: sibling_of_def Let_def if_False if_True)
  ultimately show ?thesis unfolding next_level_nth [OF half_less [OF assms]] using False i assms by simp
qed

lemma fold_path_tree:
  "i < length hs \<Longrightarrow>
   fold_path f i (length hs) (hs ! i) (path_siblings i (butlast (build_levels f hs))) = Inr (tree_root f hs)"
proof (induction "length hs" arbitrary: hs i rule: less_induct)
  case less
  show ?case
  proof (cases "1 < length hs")
    case True
    let ?n = "next_level f hs"
    have IH: "fold_path f (i div 2) (length ?n) (?n ! (i div 2)) (path_siblings (i div 2) (butlast (build_levels f ?n))) =
        Inr (tree_root f ?n)"
      using True less.prems by (intro less.hyps) (auto simp: half_less div_ceil_def)
    have pad: "i mod 2 = 0 \<Longrightarrow> i + 1 = length hs \<Longrightarrow> sibling_of hs i = hs ! i" by (simp add: sibling_of_def Let_def)
    show ?thesis
      using IH pad parent_of_sibling [OF less.prems, of f]
      by (auto simp: build_levels_step [OF True] tree_root_step [OF True] split: if_splits)
  next
    case False
    then have "i = 0" using less.prems by linarith
    then show ?thesis using False by (simp add: build_levels_end tree_root_def)
  qed
qed

lemma length_build_levels: "0 < length hs \<Longrightarrow> length (build_levels f hs) = Suc (path_levels (length hs))"
proof (induction f hs rule: build_levels.induct)
  case (1 f hs)
  show ?case
  proof (cases "1 < length hs")
    case True
    then have "0 < length (next_level f hs)" by (auto simp: div_ceil_gt_iff)
    with 1 True show ?thesis by (simp add: build_levels_step path_levels.simps [of "length hs"])
  next
    case False
    then show ?thesis by (simp add: build_levels_end path_levels.simps [of "length hs"])
  qed
qed

lemma length_path_siblings [simp]: "length (path_siblings i levels) = length levels"
  by (induction i levels rule: path_siblings.induct) simp_all

lemma path_levels_bound: "n \<le> 2 ^ k \<Longrightarrow> path_levels n \<le> k"
proof (induction k arbitrary: n)
  case 0
  then show ?case by (simp add: path_levels.simps)
next
  case (Suc k)
  have "div_ceil n 2 \<le> 2 ^ k" using Suc.prems by (simp add: div_ceil_le_iff mult.commute)
  then show ?case using Suc.IH by (subst path_levels.simps) auto
qed

subsection \<open>Soundness\<close>

text \<open>
  The pairs that the verifier and the tree hash. A path that folds to the root of the tree folds the
  tree's own values, unless two different pairs of these hash to the same value.
\<close>

fun path_pairs :: "(bytes \<Rightarrow> bytes) \<Rightarrow> nat \<Rightarrow> bytes \<Rightarrow> bytes list \<Rightarrow> (bytes \<times> bytes) set" where
  "path_pairs f index hash [] = {}"
| "path_pairs f index hash (sibling # siblings) =
     (let pair = (if index mod 2 = 0 then (hash, sibling) else (sibling, hash)) in
      insert pair (path_pairs f (index div 2) (parent f (fst pair) (snd pair)) siblings))"

definition level_pairs :: "bytes list \<Rightarrow> (bytes \<times> bytes) set" where
  "level_pairs hs = (\<lambda>j. (hs ! (2 * j), if 2 * j + 1 < length hs then hs ! (2 * j + 1) else hs ! (2 * j))) ` {..<div_ceil (length hs) 2}"

definition tree_pairs :: "(bytes \<Rightarrow> bytes) \<Rightarrow> bytes list \<Rightarrow> (bytes \<times> bytes) set" where
  "tree_pairs f hs = (\<Union>level \<in> set (butlast (build_levels f hs)). level_pairs level)"

definition no_collision :: "(bytes \<Rightarrow> bytes) \<Rightarrow> (bytes \<times> bytes) set \<Rightarrow> bool" where
  "no_collision f S \<longleftrightarrow> inj_on (\<lambda>(a, b). parent f a b) S"

lemma tree_pairs_step:
  "1 < length hs \<Longrightarrow> tree_pairs f hs = level_pairs hs \<union> tree_pairs f (next_level f hs)"
  by (simp add: tree_pairs_def build_levels_step)

text \<open>
  The leaf that a path of the depth of the tree reaches, for any index: the transaction count of a
  path is not committed, so the index may lie behind the last leaf, in the padding. An index of the
  tree reaches its own leaf.
\<close>

function leaf_of :: "nat \<Rightarrow> nat \<Rightarrow> nat" where
  "leaf_of n i =
     (if 1 < n then
        let j = leaf_of (div_ceil n 2) (i div 2); k = 2 * j + i mod 2 in if k < n then k else 2 * j
      else 0)"
  by pat_completeness auto
termination by (relation "measure fst") (auto simp: div_ceil_def)

declare leaf_of.simps [simp del]

lemma leaf_of_less: "0 < n \<Longrightarrow> leaf_of n i < n"
proof (induction n i rule: leaf_of.induct)
  case (1 n i)
  show ?case
  proof (cases "1 < n")
    case True
    then have "leaf_of (div_ceil n 2) (i div 2) < div_ceil n 2" using 1 by (simp add: div_ceil_gt_iff)
    then have "2 * leaf_of (div_ceil n 2) (i div 2) < n" by (simp add: div_ceil_gt_iff mult.commute)
    then show ?thesis by (subst leaf_of.simps) (simp add: Let_def)
  next
    case False
    then show ?thesis using 1 by (subst leaf_of.simps) simp
  qed
qed

lemma leaf_of_index: "i < n \<Longrightarrow> leaf_of n i = i"
proof (induction n i rule: leaf_of.induct)
  case (1 n i)
  show ?case
  proof (cases "1 < n")
    case True
    then have "leaf_of (div_ceil n 2) (i div 2) = i div 2" using 1 half_less by simp
    then show ?thesis using 1 True by (subst leaf_of.simps) (simp add: Let_def)
  next
    case False
    then show ?thesis using 1 by (subst leaf_of.simps) simp
  qed
qed

lemma fold_path_sound:
  assumes "fold_path f i w h sibs = Inr (tree_root f hs)" "hs \<noteq> []"
    "length sibs = path_levels (length hs)" "no_collision f (path_pairs f i h sibs \<union> tree_pairs f hs)"
  shows "h = hs ! leaf_of (length hs) i"
  using assms
proof (induction "length hs" arbitrary: hs i w h sibs rule: less_induct)
  case less
  show ?case
  proof (cases "1 < length hs")
    case False
    then have "sibs = []" using less.prems by (auto simp: path_levels.simps)
    then show ?thesis using less.prems(1) False by (simp add: tree_root_def build_levels_end leaf_of.simps)
  next
    case True
    let ?n = "next_level f hs" and ?j = "leaf_of (div_ceil (length hs) 2) (i div 2)"
    obtain s ss where sibs: "sibs = s # ss" using less.prems(3) True by (cases sibs) (auto simp: path_levels.simps)
    define pair where "pair = (if i mod 2 = 0 then (h, s) else (s, h))"
    let ?p = "parent f (fst pair) (snd pair)"
    have pos: "0 < div_ceil (length hs) 2" using True by (auto simp: div_ceil_gt_iff)
    then have n: "?n \<noteq> []" unfolding length_next_level [of f hs, symmetric] length_greater_0_conv .
    have j: "?j < div_ceil (length hs) 2" by (rule leaf_of_less [OF pos])
    have lv: "length ss = path_levels (length ?n)" using less.prems(3) True sibs by (simp add: path_levels.simps [of "length hs"])
    have "fold_path f (i div 2) (div_ceil w 2) ?p ss = Inr (tree_root f ?n)"
      using less.prems(1) True by (auto simp: sibs pair_def tree_root_step split: if_splits)
    moreover have pairs: "path_pairs f i h sibs = insert pair (path_pairs f (i div 2) ?p ss)" by (simp add: sibs pair_def Let_def)
    have sub: "no_collision f (path_pairs f (i div 2) ?p ss \<union> tree_pairs f ?n)"
      using less.prems(4) unfolding no_collision_def pairs tree_pairs_step [OF True] by (rule inj_on_subset) auto
    ultimately have eq: "?p = ?n ! ?j"
      using True n lv less.hyps [of ?n "i div 2" "div_ceil w 2" ?p ss] by (fastforce simp: div_ceil_def)
    let ?q = "(hs ! (2 * ?j), if 2 * ?j + 1 < length hs then hs ! (2 * ?j + 1) else hs ! (2 * ?j))"
    have "?q \<in> level_pairs hs" using j by (auto simp: level_pairs_def)
    moreover have "(\<lambda>(a, b). parent f a b) pair = (\<lambda>(a, b). parent f a b) ?q"
      using eq next_level_nth [OF j, of f] by (simp add: case_prod_beta)
    ultimately have "pair = ?q"
      using less.prems(4) unfolding no_collision_def pairs tree_pairs_step [OF True] by (auto dest: inj_onD)
    moreover have "2 * ?j < length hs" using j by (simp add: div_ceil_gt_iff mult.commute)
    moreover have "i mod 2 \<noteq> 0 \<Longrightarrow> i mod 2 = 1" by presburger
    moreover have "leaf_of (length hs) i = (if 2 * ?j + i mod 2 < length hs then 2 * ?j + i mod 2 else 2 * ?j)"
      using True by (subst leaf_of.simps) (simp add: Let_def)
    ultimately show ?thesis by (auto simp: pair_def split: if_splits)
  qed
qed

text \<open>
  Paths of another length than the depth of the tree: a shorter path starts at a node of an upper
  level, and a longer one goes on below the leaves, so that a leaf is the hash of one of its pairs.
\<close>

lemma build_levels_drop:
  assumes "hs \<noteq> []" "d \<le> path_levels (length hs)"
  shows "build_levels f hs ! d \<noteq> [] \<and> path_levels (length (build_levels f hs ! d)) = path_levels (length hs) - d \<and>
    tree_root f (build_levels f hs ! d) = tree_root f hs \<and> tree_pairs f (build_levels f hs ! d) \<subseteq> tree_pairs f hs"
  using assms
proof (induction d arbitrary: hs)
  case 0
  then show ?case by (subst (1 2 3 4) build_levels.simps) simp
next
  case (Suc d)
  then have 1: "1 < length hs" and lv: "path_levels (length hs) = Suc (path_levels (length (next_level f hs)))"
    by (auto simp: path_levels.simps [of "length hs"] split: if_splits)
  have "0 < length (next_level f hs)" using 1 by (auto simp: div_ceil_gt_iff)
  then have "next_level f hs \<noteq> []" unfolding length_greater_0_conv .
  with Suc.IH [OF this] Suc.prems lv show ?case
    by (auto simp: build_levels_step [OF 1] tree_root_step [OF 1] tree_pairs_step [OF 1])
qed

lemma fold_path_split:
  assumes "fold_path f i w h sibs = Inr r" "k < length sibs"
  shows "\<exists>j w' h'. fold_path f j w' h' (drop (Suc k) sibs) = Inr r \<and> path_pairs f j h' (drop (Suc k) sibs) \<subseteq> path_pairs f i h sibs \<and>
    (\<exists>(a, b) \<in> path_pairs f i h sibs. h' = parent f a b)"
  using assms
proof (induction k arbitrary: i w h sibs)
  case 0
  then obtain s ss where "sibs = s # ss" by (cases sibs) auto
  with 0 show ?case
    by (intro exI [of _ "i div 2"] exI [of _ "div_ceil w 2"] exI [of _ "if i mod 2 = 0 then parent f h s else parent f s h"])
      (auto simp: Let_def split: if_splits)
next
  case (Suc k)
  then obtain s ss where sibs: "sibs = s # ss" by (cases sibs) auto
  define x where "x = (if i mod 2 = 0 then parent f h s else parent f s h)"
  have "fold_path f (i div 2) (div_ceil w 2) x ss = Inr r" "k < length ss"
    using Suc.prems by (auto simp: sibs x_def split: if_splits)
  from Suc.IH [OF this] obtain j w' h' where ih: "fold_path f j w' h' (drop (Suc k) ss) = Inr r"
    "path_pairs f j h' (drop (Suc k) ss) \<subseteq> path_pairs f (i div 2) x ss" "\<exists>(a, b) \<in> path_pairs f (i div 2) x ss. h' = parent f a b"
    by blast
  moreover have "path_pairs f (i div 2) x ss \<subseteq> path_pairs f i h sibs" by (auto simp: sibs x_def Let_def)
  ultimately show ?case unfolding sibs drop_Suc_Cons by (intro exI [of _ j] exI [of _ w'] exI [of _ h']) blast
qed

subsection \<open>Properties\<close>

lemma builder_path_root:
  assumes "length hs = length (bp_coinbase_targets b)" "length hs \<le> 1000000" "unat position < length hs"
  shows "MerklePath_root f (builder_path b (build_levels f hs) position) (hs ! unat position) = Inr (tree_root f hs)"
proof -
  have n: "unat (word_of_nat (length hs) :: u32) = length hs" using assms(2) by (simp add: unat_of_nat_small)
  have pos: "0 < length hs" using assms(3) by linarith
  have "path_levels (length hs) \<le> 20" using assms(2) by (intro path_levels_bound) simp
  then have "MerklePath_check (builder_path b (build_levels f hs) position) = Inr ()"
    using assms n length_build_levels [OF pos, of f]
    by (auto simp: MerklePath_check_def builder_path_def MAX_TRANSACTIONS_def MAX_PATH_LEVELS_def word_less_nat_alt
        word_le_nat_alt word_unat_eq_iff)
  then show ?thesis
    using fold_path_tree [OF assms(3), of f] n assms(1) by (simp add: MerklePath_root_def builder_path_def)
qed

text \<open>
  C38: the four paths that the builder cuts for a position of a block all pass the verifier's checks and
  fold to the roots of the two trees of the block: the transaction tree over the transaction ids and
  the witness tree over the witness ids with the coinbase's id replaced by zeros.
\<close>
theorem builder_paths_reach_roots:
  assumes "BlockProofBuilder_new lib header txdata = Inr b" "builder_proof b position raw_tx raw_cb = Inr p"
  defines "txids \<equiv> map (b_txid lib) txdata"
    and "wtxids \<equiv> map (\<lambda>(index, tx). if index = 0 then replicate 32 0 else b_wtxid lib tx) (enumerate 0 txdata)"
  shows "verify_paths p = Inr () \<and>
    MerklePath_root (b_sha256d lib) (tp_txid_path p) (b_txid lib (txdata ! unat position)) = Inr (tree_root (b_sha256d lib) txids) \<and>
    MerklePath_root (b_sha256d lib) (tp_coinbase_path p) (b_txid lib (txdata ! 0)) = Inr (tree_root (b_sha256d lib) txids) \<and>
    MerklePath_root (b_sha256d lib) (tp_witness_path p) (b_wtxid lib (txdata ! unat position)) = Inr (tree_root (b_sha256d lib) wtxids) \<and>
    MerklePath_root (b_sha256d lib) (tp_coinbase_witness_path p) (replicate 32 0) = Inr (tree_root (b_sha256d lib) wtxids)"
proof -
  let ?f = "b_sha256d lib"
  have b: "bp_txid_levels b = build_levels ?f txids" "bp_witness_levels b = build_levels ?f wtxids"
    "length (bp_coinbase_targets b) = length txdata" and n: "length txdata \<le> 1000000"
    using assms(1) by (auto simp: BlockProofBuilder_new_def txids_def wtxids_def MAX_TRANSACTIONS_def Let_def split: if_splits)
  have pos: "position \<noteq> 0" "unat position < length txdata" and p: "tp_txid_path p = builder_path b (bp_txid_levels b) position"
    "tp_coinbase_path p = builder_path b (bp_txid_levels b) 0" "tp_witness_path p = builder_path b (bp_witness_levels b) position"
    "tp_coinbase_witness_path p = builder_path b (bp_witness_levels b) 0"
    using assms(2) b(3) by (auto simp: builder_proof_def split: if_splits)
  have len: "length txids = length txdata" "length wtxids = length txdata" by (simp_all add: txids_def wtxids_def)
  have ne: "0 < length txdata" using pos(2) by linarith
  have at: "txids ! unat position = b_txid lib (txdata ! unat position)" "txids ! 0 = b_txid lib (txdata ! 0)"
    "wtxids ! unat position = b_wtxid lib (txdata ! unat position)" "wtxids ! 0 = replicate 32 0"
    using pos ne by (auto simp: txids_def wtxids_def nth_enumerate_eq unat_eq_0)
  have root: "MerklePath_root ?f (builder_path b (build_levels ?f hs) q) (hs ! unat q) = Inr (tree_root ?f hs)"
    if "length hs = length txdata" "unat q < length txdata" for hs q
    using that b(3) n by (intro builder_path_root) simp_all
  have zero: "unat (0 :: u32) < length txdata" using ne by simp
  have chk: "MerklePath_check (builder_path b (build_levels ?f hs) q) = Inr ()"
    if "length hs = length txdata" "unat q < length txdata" for hs q
    using root [OF that] by (auto simp: MerklePath_root_def)
  have "verify_paths p = Inr ()"
    using chk [OF len(1) pos(2)] chk [OF len(1) zero] chk [OF len(2) pos(2)] chk [OF len(2) zero] pos(1)
    by (simp add: verify_paths_def p b Let_def) (simp add: builder_path_def)
  then show ?thesis
    using root [OF len(1) pos(2)] root [OF len(1) zero] root [OF len(2) pos(2)] root [OF len(2) zero]
    by (simp add: p b at)
qed

definition ex_merkle_lib :: "(unit, bytes, unit, unit, unit) chain_lib" where
  "ex_merkle_lib = ex_chain_lib\<lparr>b_is_coinbase := (\<lambda>t. t = [0])\<rparr>"

theorem builder_paths_reach_roots_witness:
  "\<exists>b p. BlockProofBuilder_new ex_merkle_lib () [[0], [1], [2]] = Inr b \<and> builder_proof b 2 [] [] = Inr p \<and>
     verify_paths p = Inr () \<and>
     MerklePath_root (\<lambda>b. b) (tp_txid_path p) [2] = Inr (tree_root (\<lambda>b. b) [[0], [1], [2]])"
proof -
  obtain b where b: "BlockProofBuilder_new ex_merkle_lib () [[0], [1], [2]] = Inr b"
    by (simp add: BlockProofBuilder_new_def MAX_TRANSACTIONS_def validate_block_integrity_def check_witness_commitment_def
        commitment_script_def ex_merkle_lib_def ex_chain_lib_def)
  then have "bp_coinbase_targets b = [True, False, False]"
    by (auto simp: BlockProofBuilder_new_def ex_merkle_lib_def Let_def split: if_splits)
  then obtain p where p: "builder_proof b 2 [] [] = Inr p" by (simp add: builder_proof_def)
  from builder_paths_reach_roots [OF b p] show ?thesis using b p by (simp add: ex_merkle_lib_def ex_chain_lib_def)
qed

text \<open>
  C37: what a verified Merkle path binds, for any transaction count it claims: unless two of the pairs
  hashed by the path and by the tree collide, a path that folds to the root of the tree over a
  nonempty list of hashes and is as long as the tree is deep starts at one of these hashes, and at
  the one at its index when the tree has that index (the count is not committed, so an index in the
  padding reaches another leaf). A shorter path starts at a node of the level of the tree that its
  length names, the one at its index when the level has it. A longer path passes through a leaf: a
  hash of the list is then the hash of one of the path's pairs.
\<close>
theorem merkle_path_binds:
  assumes "MerklePath_root f p h = Inr (tree_root f hs)" "hs \<noteq> []"
    "no_collision f (path_pairs f (unat (mp_index p)) h (mp_siblings p) \<union> tree_pairs f hs)"
  defines "depth \<equiv> path_levels (length hs)" and "len \<equiv> length (mp_siblings p)" and "i \<equiv> unat (mp_index p)"
  shows "(len = depth \<longrightarrow> h \<in> set hs \<and> (i < length hs \<longrightarrow> h = hs ! i)) \<and>
    (len < depth \<longrightarrow> (let level = build_levels f hs ! (depth - len) in h \<in> set level \<and> (i < length level \<longrightarrow> h = level ! i))) \<and>
    (depth < len \<longrightarrow> (\<exists>(a, b) \<in> path_pairs f i h (mp_siblings p). parent f a b \<in> set hs))"
proof -
  have fold: "fold_path f i (unat (mp_tx_count p)) h (mp_siblings p) = Inr (tree_root f hs)"
    using assms(1) by (auto simp: MerklePath_root_def i_def)
  have "h \<in> set (build_levels f hs ! (depth - len)) \<and> (i < length (build_levels f hs ! (depth - len)) \<longrightarrow> h = build_levels f hs ! (depth - len) ! i)"
    if "len \<le> depth"
  proof -
    let ?level = "build_levels f hs ! (depth - len)"
    have drop: "?level \<noteq> []" "path_levels (length ?level) = len" "tree_root f ?level = tree_root f hs" "tree_pairs f ?level \<subseteq> tree_pairs f hs"
      using build_levels_drop [OF assms(2), of "depth - len" f] that by (auto simp: depth_def)
    have "no_collision f (path_pairs f i h (mp_siblings p) \<union> tree_pairs f ?level)"
      using assms(3) unfolding no_collision_def i_def by (rule inj_on_subset) (use drop(4) in auto)
    then have "h = ?level ! leaf_of (length ?level) i" using fold drop by (intro fold_path_sound) (simp_all add: len_def)
    then show ?thesis using leaf_of_less [of "length ?level" i] drop(1) by (auto simp: leaf_of_index)
  qed
  moreover have "\<exists>(a, b) \<in> path_pairs f i h (mp_siblings p). parent f a b \<in> set hs" if "depth < len"
  proof -
    have k: "len - depth - 1 < length (mp_siblings p)" "Suc (len - depth - 1) = len - depth" using that by (auto simp: len_def)
    from fold_path_split [OF fold k(1), unfolded k(2)] obtain j w' h' where
      split: "fold_path f j w' h' (drop (len - depth) (mp_siblings p)) = Inr (tree_root f hs)"
      "path_pairs f j h' (drop (len - depth) (mp_siblings p)) \<subseteq> path_pairs f i h (mp_siblings p)"
      and pair: "\<exists>(a, b) \<in> path_pairs f i h (mp_siblings p). h' = parent f a b"
      by blast
    have "no_collision f (path_pairs f j h' (drop (len - depth) (mp_siblings p)) \<union> tree_pairs f hs)"
      using assms(3) unfolding no_collision_def i_def [symmetric] by (rule inj_on_subset) (use split(2) in auto)
    then have "h' = hs ! leaf_of (length hs) j"
      using split(1) assms(2) that by (intro fold_path_sound) (auto simp: depth_def len_def)
    then have "h' \<in> set hs" using leaf_of_less [of "length hs" j] assms(2) by simp
    with pair show ?thesis by blast
  qed
  moreover have "build_levels f hs ! 0 = hs" by (subst build_levels.simps) simp
  ultimately show ?thesis by (auto simp: Let_def)
qed

text \<open>
  The witness has the tree of three leaves: a path with the right count to its second leaf, and the
  path of the repository's own test with the count four, whose index three reaches the last leaf.
\<close>
theorem merkle_path_binds_witness:
  "\<exists>h h'. MerklePath_root (\<lambda>b. b) \<lparr>mp_index = 1, mp_tx_count = 3, mp_siblings = [[1], [3, 3]]\<rparr> h =
       Inr (tree_root (\<lambda>b. b) [[1], [2], [3]]) \<and> h = [[1], [2], [3]] ! 1 \<and>
     MerklePath_root (\<lambda>b. b) \<lparr>mp_index = 3, mp_tx_count = 4, mp_siblings = [[3], [1, 2]]\<rparr> h' =
       Inr (tree_root (\<lambda>b. b) [[1], [2], [3]]) \<and> h' \<in> set [[1], [2], [3]]"
proof -
  let ?f = "\<lambda>b :: bytes. b" and ?hs = "[[1], [2], [3]] :: bytes list"
  let ?p = "\<lparr>mp_index = 1, mp_tx_count = 3, mp_siblings = [[1], [3, 3]]\<rparr> :: merkle_path"
  let ?q = "\<lparr>mp_index = 3, mp_tx_count = 4, mp_siblings = [[3], [1, 2]]\<rparr> :: merkle_path"
  have levels: "build_levels ?f ?hs = [?hs, [[1, 2], [3, 3]], [[1, 2, 3, 3]]]"
    by (simp add: build_levels.simps next_level_def chunks.simps parent_def div_ceil_def)
  have depth: "path_levels 3 = 2" "path_levels 4 = 2" by (simp_all add: path_levels.simps div_ceil_def)
  have root: "MerklePath_root ?f ?p [2] = Inr (tree_root ?f ?hs)" "MerklePath_root ?f ?q [3] = Inr (tree_root ?f ?hs)"
    using depth by (simp_all add: MerklePath_root_def MerklePath_check_def MAX_TRANSACTIONS_def MAX_PATH_LEVELS_def tree_root_def levels
        parent_def word_le_nat_alt div_ceil_def)
  have tree: "tree_pairs ?f ?hs = {([1], [2]), ([3], [3]), ([1, 2], [3, 3])}"
    by (simp add: tree_pairs_def levels level_pairs_def div_ceil_def lessThan_Suc insert_commute)
  have pairs: "path_pairs ?f (unat (mp_index ?p)) [2] (mp_siblings ?p) = {([1], [2]), ([1, 2], [3, 3])}"
    "path_pairs ?f (unat (mp_index ?q)) [3] (mp_siblings ?q) = {([3], [3]), ([1, 2], [3, 3])}"
    by (simp_all add: parent_def)
  have free: "no_collision ?f (path_pairs ?f (unat (mp_index ?p)) [2] (mp_siblings ?p) \<union> tree_pairs ?f ?hs)"
    "no_collision ?f (path_pairs ?f (unat (mp_index ?q)) [3] (mp_siblings ?q) \<union> tree_pairs ?f ?hs)"
    unfolding pairs tree by (auto simp: no_collision_def parent_def)
  from merkle_path_binds [OF root(1) _ free(1)] merkle_path_binds [OF root(2) _ free(2)] root depth show ?thesis
    by (intro exI [of _ "[2]"] exI [of _ "[3]"]) simp
qed

end
