(* ===== verification/Wire_Index.thy ===== *)
theory Wire_Index
  imports Index_File Envelope Ordered_Map
begin

section \<open>The Wire index (\<^verbatim>\<open>urma-wire/src/index.rs\<close>, \<^verbatim>\<open>cached.rs\<close>, \<^verbatim>\<open>error.rs\<close>)\<close>

text \<open>
  The Wire index holds the posts, replies and profiles of a range of blocks. \<open>sync\<close> rolls it back to
  the current chain, fetches blocks with several workers and applies them in order. This theory has
  the data, the checks of the file and the sequential operations; the fetching threads are in
  \<open>Wire_Batch\<close>.

  \<open>wire_lib\<close> holds what the code calls of the \<open>bitcoin\<close>, \<open>hex\<close> and \<open>serde_json\<close> crates. Texts are
  byte strings.
\<close>

record entry =
  en_height :: u64
  en_position :: u32
  en_txid :: bytes
  en_author :: bytes
  en_record :: bytes
  en_return_script :: "bytes option"

record wire_checkpoint =
  wc_height :: u64
  wc_hash :: bytes

record wire_index =
  wi_format :: bytes
  wi_genesis :: bytes
  wi_start :: u64
  wi_blocks :: "wire_checkpoint list"
  wi_entries :: "entry list"

record sync_report =
  sp_scanned :: u64
  sp_rolled_back :: u64
  sp_records :: nat
  sp_tip :: u64
  sp_complete_to_tip :: bool

datatype wire_error =
    WireInvalid string
  | WireCapacity string
  | WireMissing string
  | WireContext string wire_error
  | WireProtocol error
  | WireIo
  | WireJson
  | WireHex
  | WireInteger
  | WireHash
  | WireSecp256k1
  | WirePersist

datatype 'e sync_error = SyncWire wire_error | SyncSource 'e

record 'hdr wire_lib =
  wl_envelope :: "unit envelope_lib"
  wl_block_hash :: "'hdr \<Rightarrow> bytes"
  wl_prev :: "'hdr \<Rightarrow> bytes"
  wl_hash_text :: "bytes \<Rightarrow> bytes" \<comment> \<open>\<open>to_string\<close> of a block hash or a transaction id\<close>
  wl_author_text :: "bytes \<Rightarrow> bytes"
  wl_parse_hash :: "bytes \<Rightarrow> bytes option" \<comment> \<open>parsing a block hash or a transaction id\<close>
  wl_parse_author :: "bytes \<Rightarrow> bytes option"
  wl_hex_encode :: "bytes \<Rightarrow> bytes"
  wl_hex_decode :: "bytes \<Rightarrow> bytes option"
  wl_to_json :: "wire_index \<Rightarrow> bytes option"
  wl_from_json :: "bytes \<Rightarrow> wire_index option"

record ('s, 'e, 'hdr) reader =
  rd_genesis :: "('s, 'e, bytes) act"
  rd_tip_height :: "('s, 'e, u64) act"
  rd_block_hash :: "u64 \<Rightarrow> ('s, 'e, bytes) act"
  rd_block :: "u64 \<Rightarrow> ('s, 'e, ('hdr \<times> transaction list) \<times> bytes) act"
  rd_transaction :: "bytes \<Rightarrow> ('s, 'e, transaction) act"

type_synonym ('s, 'e, 'a) wire = "('s world, 'e sync_error, 'a) act"

subsection \<open>Errors\<close>

fun wire_of_io :: "io_error \<Rightarrow> wire_error" where
  "wire_of_io Io = WireIo"
| "wire_of_io PrivatePermissions = WireInvalid ''file must have private permissions''"
| "wire_of_io IoInteger = WireInteger"
| "wire_of_io LimitOverflow = WireCapacity ''file read limit overflow''"
| "wire_of_io (TooLarge limit) = WireCapacity (''file exceeds '' @ dec limit @ '' byte Wire capacity'')"
| "wire_of_io PersistError = WirePersist"
| "wire_of_io (IoContext message cause) = WireContext message (wire_of_io cause)"

definition rd :: "('s, 'e, 'a) act \<Rightarrow> ('s, 'e, 'a) wire" where
  "rd f = (\<lambda>w. case f (w_state w) of (r, s) \<Rightarrow> (map_err SyncSource r, w\<lparr>w_state := s\<rparr>))"

definition wire_res :: "wire_error + 'a \<Rightarrow> ('s, 'e, 'a) wire" where
  "wire_res r = ilift (map_err SyncWire r)"

subsection \<open>Projection of records\<close>

definition is_wire_kind :: "record_kind \<Rightarrow> bool" where
  "is_wire_kind kind \<longleftrightarrow>
     kind \<in> {record_kind.Post, record_kind.Reply, record_kind.Profile, record_kind.Avatar, record_kind.WirePost, record_kind.WireReply}"

definition entry_from_record ::
  "'hdr wire_lib \<Rightarrow> bytes \<Rightarrow> bytes \<Rightarrow> bytes \<Rightarrow> bytes option \<Rightarrow> u64 \<Rightarrow> u32 \<Rightarrow> wire_error + entry option" where
  "entry_from_record lib bs txid author return_script height position =
     rbind (map_err WireProtocol (RecordKind_parse bs)) (\<lambda>kind.
     if \<not> is_wire_kind kind then Inr None
     else rbind (map_err WireProtocol (PublicRecord_decode bs)) (\<lambda>_.
       Inr (Some \<lparr>en_height = height, en_position = position, en_txid = wl_hash_text lib txid,
                  en_author = wl_author_text lib author, en_record = wl_hex_encode lib bs,
                  en_return_script = map_option (wl_hex_encode lib) return_script\<rparr>)))"

definition entry_from_verified ::
  "'hdr wire_lib \<Rightarrow> verified_record \<Rightarrow> bytes option \<Rightarrow> u64 \<Rightarrow> u32 \<Rightarrow> wire_error + entry option" where
  "entry_from_verified lib v return_script height position =
     entry_from_record lib (vr_record v) (vr_txid v) (vr_author v) return_script height position"

definition verified_entry ::
  "'hdr wire_lib \<Rightarrow> transaction \<Rightarrow> transaction \<Rightarrow> u64 \<Rightarrow> u32 \<Rightarrow> wire_error + entry option" where
  "verified_entry lib tx commit height position =
     rbind (map_err WireProtocol (VerifiedRecord_verify (wl_envelope lib) (e_txid (wl_envelope lib) tx) tx commit)) (\<lambda>v.
     entry_from_verified lib v (map_option to_script (case tx_output tx of [] \<Rightarrow> None | out # _ \<Rightarrow> Some out)) height position)"

text \<open>Records that older versions cached and that this version leaves out of its views.\<close>

datatype cached_record = Current public_record | LegacyAvatar | LegacyProfile

definition decode_cached :: "bytes \<Rightarrow> wire_error + cached_record" where
  "decode_cached bs =
     (if length bs = PREFIX_BYTES + 512 \<and> take PREFIX_BYTES bs = RecordKind_prefix record_kind.Avatar then Inr LegacyAvatar
      else if PREFIX_BYTES + MAX_PROFILE_BYTES < length bs \<and> length bs \<le> MAX_PUBLIC_BYTES \<and>
              take PREFIX_BYTES bs = RecordKind_prefix record_kind.Profile
      then rmap (\<lambda>_. LegacyProfile) (map_err WireProtocol (from_utf8 (drop PREFIX_BYTES bs)))
      else rmap Current (map_err WireProtocol (PublicRecord_decode bs)))"

subsection \<open>The file\<close>

definition WIRE_MAX_BYTES :: nat where "WIRE_MAX_BYTES = 64 * 1024 * 1024"
definition WIRE_FORMAT :: bytes where "WIRE_FORMAT = ascii ''URMA-WIRE-INDEX-3''"

definition check_checkpoint :: "'hdr wire_lib \<Rightarrow> wire_index \<Rightarrow> nat \<times> wire_checkpoint \<Rightarrow> wire_error + unit" where
  "check_checkpoint lib i e =
     (case e of (offset, block) \<Rightarrow>
      rbind (map_err (\<lambda>_. WireInteger) (try_from offset)) (\<lambda>n.
      rbind (ok_or (WireCapacity ''checkpoint overflow'') (checked_add (wi_start i) n)) (\<lambda>height.
      ensure (wc_height block = height) (WireInvalid ''noncontiguous index checkpoints'')
      (rmap (\<lambda>_. ()) (ok_or WireHash (wl_parse_hash lib (wc_hash block)))))))"

definition check_entry :: "'hdr wire_lib \<Rightarrow> entry \<Rightarrow> wire_error + unit" where
  "check_entry lib e =
     rbind (ok_or WireHex (wl_hex_decode lib (en_record e))) (\<lambda>bs.
     rbind (decode_cached bs) (\<lambda>_.
     rbind (ok_or WireHash (wl_parse_hash lib (en_txid e))) (\<lambda>_.
     rbind (ok_or WireSecp256k1 (wl_parse_author lib (en_author e))) (\<lambda>_.
     case en_return_script e of
       None \<Rightarrow> Inr ()
     | Some script \<Rightarrow> rmap (\<lambda>_. ()) (ok_or WireHex (wl_hex_decode lib script))))))"

definition check_wire_index :: "'hdr wire_lib \<Rightarrow> wire_index \<Rightarrow> wire_error + wire_index" where
  "check_wire_index lib i =
     ensure (wi_format i = WIRE_FORMAT) (WireInvalid ''unsupported Wire index format; delete it and resync'')
    (ensure (length (wi_blocks i) \<le> 500000) (WireInvalid ''Wire checkpoint capacity'')
    (ensure (length (wi_entries i) \<le> 50000) (WireInvalid ''Wire record capacity'')
    (rbind (rtraverse (check_checkpoint lib i) (enumerate 0 (wi_blocks i))) (\<lambda>_.
     rbind (rtraverse (check_entry lib) (wi_entries i)) (\<lambda>_. Inr i)))))"

definition WireIndex_load :: "'hdr wire_lib \<Rightarrow> 's file_system \<Rightarrow> ('s world, wire_error, wire_index) act" where
  "WireIndex_load lib fs =
     ibind (imap_err wire_of_io (read_bounded fs WIRE_MAX_BYTES)) (\<lambda>bs.
     ibind (ilift (ok_or WireJson (wl_from_json lib bs))) (\<lambda>i. ilift (check_wire_index lib i)))"

definition WireIndex_persist :: "'hdr wire_lib \<Rightarrow> 's file_system \<Rightarrow> wire_index \<Rightarrow> ('s world, wire_error, unit) act" where
  "WireIndex_persist lib fs i =
     ibind (icheck (length (wi_blocks i) \<le> 500000 \<and> length (wi_entries i) \<le> 50000) (WireInvalid ''Wire index capacity'')) (\<lambda>_.
     ibind (ilift (ok_or WireJson (wl_to_json lib i))) (\<lambda>bs.
     ibind (icheck (length bs \<le> WIRE_MAX_BYTES) (WireInvalid ''Wire index byte capacity'')) (\<lambda>_.
     imap_err wire_of_io (write_replace fs bs))))"

definition wire_opened ::
  "'hdr wire_lib \<Rightarrow> ('s, 'e, 'hdr) reader \<Rightarrow> 's file_system \<Rightarrow> u64 \<Rightarrow> ('s, 'e, wire_index) wire" where
  "wire_opened lib reader fs start =
     ibind (rd (rd_genesis reader)) (\<lambda>genesis_hash.
     let genesis = wl_hash_text lib genesis_hash in
     ibind (\<lambda>w. if w_file w \<noteq> None then imap_err SyncWire (WireIndex_load lib fs) w
                else (Inr \<lparr>wi_format = WIRE_FORMAT, wi_genesis = genesis, wi_start = start, wi_blocks = [], wi_entries = []\<rparr>, w))
       (\<lambda>i. ibind (icheck (wi_genesis i = genesis \<and> wi_start i = start) (SyncWire (WireInvalid ''index chain/start mismatch''))) (\<lambda>_.
     iret i)))"

subsection \<open>Applying a block\<close>

definition mentions_urma :: "transaction \<Rightarrow> bool" where
  "mentions_urma tx \<longleftrightarrow>
     (\<exists>item \<in> set (ti_witness (tx_input tx ! 0)). \<exists>k < length item - 3. take 4 (drop k item) = ascii ''URMA'')"

definition read_entry ::
  "'hdr wire_lib \<Rightarrow> ('s, 'e, 'hdr) reader \<Rightarrow> u64 \<Rightarrow> nat \<times> transaction \<Rightarrow> ('s, 'e, entry list) wire" where
  "read_entry lib reader height e =
     (case e of (position, tx) \<Rightarrow>
      if length (tx_input tx) \<noteq> 1 \<or> \<not> mentions_urma tx then iret []
      else case extract_reveal (wl_envelope lib) tx of
        Inl cause \<Rightarrow> iret []
      | Inr candidate \<Rightarrow>
          ibind (wire_res (map_err WireProtocol (RecordKind_parse (pe_record candidate)))) (\<lambda>kind.
          if \<not> is_wire_kind kind then iret []
          else
            ibind (rd (rd_transaction reader (ti_txid (tx_input tx ! 0)))) (\<lambda>commit.
            ibind (wire_res (map_err (\<lambda>_. WireInteger) (try_from position))) (\<lambda>p.
            case verified_entry lib tx commit height p of
              Inr (Some entry) \<Rightarrow> iret [entry]
            | Inr None \<Rightarrow> iret []
            | Inl cause \<Rightarrow> iret []))))"

fun read_each ::
  "'hdr wire_lib \<Rightarrow> ('s, 'e, 'hdr) reader \<Rightarrow> u64 \<Rightarrow> (nat \<times> transaction) list \<Rightarrow> ('s, 'e, entry list) wire" where
  "read_each lib reader height [] = iret []"
| "read_each lib reader height (e # es) =
     ibind (read_entry lib reader height e) (\<lambda>entries.
     ibind (read_each lib reader height es) (\<lambda>rest. iret (entries @ rest)))"

definition read_entries ::
  "'hdr wire_lib \<Rightarrow> ('s, 'e, 'hdr) reader \<Rightarrow> 'hdr \<times> transaction list \<Rightarrow> u64 \<Rightarrow> ('s, 'e, entry list) wire" where
  "read_entries lib reader block height = read_each lib reader height (enumerate 0 (snd block))"

definition REORG_INDEX :: string where "REORG_INDEX = ''source reorg during index; retry''"

definition wire_apply_block ::
  "'hdr wire_lib \<Rightarrow> ('s, 'e, 'hdr) reader \<Rightarrow> wire_index \<Rightarrow> u64 \<Rightarrow> ('hdr \<times> transaction list) \<times> bytes \<Rightarrow> ('s, 'e, wire_index) wire" where
  "wire_apply_block lib reader i height pair =
     (case pair of (block, hash) \<Rightarrow>
      ibind (icheck (wl_block_hash lib (fst block) = hash)
        (SyncWire (WireInvalid ''reader returned a block whose hash differs from its verified hash''))) (\<lambda>_.
      ibind (icheck (wi_blocks i = [] \<or> wl_hash_text lib (wl_prev lib (fst block)) = wc_hash (last (wi_blocks i)))
        (SyncWire (WireInvalid REORG_INDEX))) (\<lambda>_.
      ibind (read_entries lib reader block height) (\<lambda>entries.
      iret (i\<lparr>wi_entries := wi_entries i @ entries,
              wi_blocks := wi_blocks i @ [\<lparr>wc_height = height, wc_hash = wl_hash_text lib hash\<rparr>]\<rparr>)))))"

definition confirm_tail :: "'hdr wire_lib \<Rightarrow> ('s, 'e, 'hdr) reader \<Rightarrow> wire_index \<Rightarrow> ('s, 'e, unit) wire" where
  "confirm_tail lib reader i =
     (if wi_blocks i = [] then iret ()
      else ibind (rd (rd_block_hash reader (wc_height (last (wi_blocks i))))) (\<lambda>hash.
           icheck (wl_hash_text lib hash = wc_hash (last (wi_blocks i))) (SyncWire (WireInvalid REORG_INDEX))))"

subsection \<open>Rolling back\<close>

definition wire_on_chain ::
  "'hdr wire_lib \<Rightarrow> ('s, 'e, 'hdr) reader \<Rightarrow> u64 \<Rightarrow> wire_checkpoint \<Rightarrow> ('s, 'e, bool) wire" where
  "wire_on_chain lib reader tip cp =
     (if wc_height cp \<le> tip
      then ibind (rd (rd_block_hash reader (wc_height cp))) (\<lambda>hash. iret (wl_hash_text lib hash = wc_hash cp))
      else iret False)"

text \<open>The loop removes one checkpoint a turn: it is given their number.\<close>

fun wire_rollback_loop ::
  "'hdr wire_lib \<Rightarrow> ('s, 'e, 'hdr) reader \<Rightarrow> u64 \<Rightarrow> nat \<Rightarrow> wire_index \<Rightarrow> u64 \<Rightarrow> ('s, 'e, wire_index \<times> u64) wire" where
  "wire_rollback_loop lib reader tip 0 i removed = iret (i, removed)"
| "wire_rollback_loop lib reader tip (Suc n) i removed =
     (let cp = last (wi_blocks i) in
      ibind (wire_on_chain lib reader tip cp) (\<lambda>kept.
      if kept then iret (i, removed)
      else wire_rollback_loop lib reader tip n
        (i\<lparr>wi_entries := filter (\<lambda>e. en_height e < wc_height cp) (wi_entries i), wi_blocks := butlast (wi_blocks i)\<rparr>)
        (removed + 1)))"

definition wire_rollback ::
  "'hdr wire_lib \<Rightarrow> ('s, 'e, 'hdr) reader \<Rightarrow> wire_index \<Rightarrow> u64 \<Rightarrow> ('s, 'e, wire_index \<times> u64) wire" where
  "wire_rollback lib reader i tip = wire_rollback_loop lib reader tip (length (wi_blocks i)) i 0"

end
