(* ===== verification/Wire_Batch.thy ===== *)
theory Wire_Batch
  imports Wire_Index
begin

section \<open>Fetching blocks with several workers (\<^verbatim>\<open>urma-wire/src/index.rs\<close>, \<open>Batch\<close> and \<open>stream_batch\<close>)\<close>

text \<open>
  Up to eight workers take positions of the height list from a shared counter, fetch the blocks and
  send them to the collector, which keeps early answers in an ordered map and applies blocks in
  order. A failed fetch or a refused block raises a flag that stops the workers.

  Each shared-memory operation, each call of the reader by a worker, each send and each turn of the
  collector is one step, and a schedule says who moves next; a step that cannot be made is skipped.
  After the schedule the remaining steps are made in a fixed order, so that every execution of the
  code is an execution of \<open>stream_batch\<close> for some schedule. The reader calls of one \<open>apply_block\<close> are
  one step: what they answer is arbitrary in any case.
\<close>

type_synonym 'hdr fetched = "('hdr \<times> transaction list) \<times> bytes"

definition FETCH_WORKERS :: nat where "FETCH_WORKERS = 8"

datatype ('e, 'p) worker =
    Looking \<comment> \<open>about to read the flag\<close>
  | Taking \<comment> \<open>about to advance the cursor\<close>
  | Fetching nat
  | Answered nat "'e + 'p"
  | Sending nat "'e + 'p"
  | Stopped

record ('s, 'e, 'hdr) batch =
  ba_cursor :: nat
  ba_failed :: bool
  ba_workers :: "('e, 'hdr fetched) worker list"
  ba_inbox :: "(nat \<times> ('e + 'hdr fetched)) list"
  ba_waiting :: "(nat \<times> 'hdr fetched) list"
  ba_expected :: nat
  ba_index :: wire_index
  ba_applied :: "u64 list" \<comment> \<open>the heights reported to \<open>on_applied\<close>\<close>
  ba_result :: "('e sync_error + unit) option" \<comment> \<open>what the collector returned\<close>
  ba_world :: "'s world"

datatype batch_event = Worker nat | Collect

subsection \<open>Steps\<close>

definition fetch_step :: "('s, 'e, 'hdr) reader \<Rightarrow> u64 list \<Rightarrow> nat \<Rightarrow> ('s, 'e, 'hdr) batch \<Rightarrow> ('s, 'e, 'hdr) batch" where
  "fetch_step reader heights k b =
     (if length (ba_workers b) \<le> k then b
      else case ba_workers b ! k of
        Looking \<Rightarrow> b\<lparr>ba_workers := (ba_workers b)[k := if ba_failed b then Stopped else Taking]\<rparr>
      | Taking \<Rightarrow>
          b\<lparr>ba_cursor := ba_cursor b + 1,
            ba_workers := (ba_workers b)[k := if ba_cursor b < length heights then Fetching (ba_cursor b) else Stopped]\<rparr>
      | Fetching p \<Rightarrow>
          (case rd_block reader (heights ! p) (w_state (ba_world b)) of (answer, s) \<Rightarrow>
           b\<lparr>ba_world := (ba_world b)\<lparr>w_state := s\<rparr>, ba_workers := (ba_workers b)[k := Answered p answer]\<rparr>)
      | Answered p answer \<Rightarrow>
          b\<lparr>ba_failed := (ba_failed b \<or> isl answer), ba_workers := (ba_workers b)[k := Sending p answer]\<rparr>
      | Sending p answer \<Rightarrow>
          if ba_result b \<noteq> None then b\<lparr>ba_workers := (ba_workers b)[k := Stopped]\<rparr>
          else b\<lparr>ba_inbox := ba_inbox b @ [(p, answer)], ba_workers := (ba_workers b)[k := Looking]\<rparr>
      | Stopped \<Rightarrow> b)"

text \<open>The inner loop of the collector: apply the blocks that are next in order.\<close>

lemma bt_remove_length: "bt_get m k = Some v \<Longrightarrow> length (bt_remove k m) < length m"
  unfolding bt_get_def bt_remove_def by (metis (mono_tags, lifting) length_filter_less map_of_SomeD prod.case)

function drain ::
  "'hdr wire_lib \<Rightarrow> ('s, 'e, 'hdr) reader \<Rightarrow> u64 list \<Rightarrow> ('s, 'e, 'hdr) batch \<Rightarrow> ('s, 'e, 'hdr) batch" where
  "drain lib reader heights b =
     (case bt_get (ba_waiting b) (ba_expected b) of
        None \<Rightarrow> b
      | Some pair \<Rightarrow>
          let b1 = b\<lparr>ba_waiting := bt_remove (ba_expected b) (ba_waiting b)\<rparr> in
          if length heights \<le> ba_expected b then b1
          else
            let height = heights ! ba_expected b in
            case wire_apply_block lib reader (ba_index b) height pair (ba_world b) of
              (Inr i, w) \<Rightarrow>
                drain lib reader heights
                  (b1\<lparr>ba_index := i, ba_world := w, ba_applied := ba_applied b @ [height], ba_expected := ba_expected b + 1\<rparr>)
            | (Inl cause, w) \<Rightarrow> b1\<lparr>ba_world := w, ba_failed := True, ba_result := Some (Inl cause)\<rparr>)"
  by pat_completeness auto
termination
  by (relation "measure (\<lambda>(_, _, _, b). length (ba_waiting b))") (auto simp: bt_remove_length)

declare drain.simps [simp del]

definition collect_step ::
  "'hdr wire_lib \<Rightarrow> ('s, 'e, 'hdr) reader \<Rightarrow> u64 list \<Rightarrow> ('s, 'e, 'hdr) batch \<Rightarrow> ('s, 'e, 'hdr) batch" where
  "collect_step lib reader heights b =
     (if ba_result b \<noteq> None then b
      else case ba_inbox b of
        (position, Inr pair) # inbox \<Rightarrow>
          drain lib reader heights (b\<lparr>ba_inbox := inbox, ba_waiting := bt_insert position pair (ba_waiting b)\<rparr>)
      | (position, Inl cause) # inbox \<Rightarrow> b\<lparr>ba_inbox := inbox, ba_result := Some (Inl (SyncSource cause))\<rparr>
      | [] \<Rightarrow> if set (ba_workers b) \<subseteq> {Stopped} then b\<lparr>ba_result := Some (Inr ())\<rparr> else b)"

fun batch_step ::
  "'hdr wire_lib \<Rightarrow> ('s, 'e, 'hdr) reader \<Rightarrow> u64 list \<Rightarrow> ('s, 'e, 'hdr) batch \<Rightarrow> batch_event \<Rightarrow> ('s, 'e, 'hdr) batch" where
  "batch_step lib reader heights b (Worker k) = fetch_step reader heights k b"
| "batch_step lib reader heights b Collect = collect_step lib reader heights b"

definition batch_start :: "u64 list \<Rightarrow> wire_index \<Rightarrow> 's world \<Rightarrow> ('s, 'e, 'hdr) batch" where
  "batch_start heights i w =
     \<lparr>ba_cursor = 0, ba_failed = False, ba_workers = replicate (min FETCH_WORKERS (length heights)) Looking,
      ba_inbox = [], ba_waiting = [], ba_expected = 0, ba_index = i, ba_applied = [], ba_result = None, ba_world = w\<rparr>"

subsection \<open>Running to the end\<close>

text \<open>The scope ends when the collector has returned and every worker has stopped.\<close>

definition finished_batch :: "('s, 'e, 'hdr) batch \<Rightarrow> bool" where
  "finished_batch b \<longleftrightarrow> ba_result b \<noteq> None \<and> set (ba_workers b) \<subseteq> {Stopped}"

definition next_event :: "('s, 'e, 'hdr) batch \<Rightarrow> batch_event" where
  "next_event b = (case find (\<lambda>k. ba_workers b ! k \<noteq> Stopped) [0..<length (ba_workers b)] of
     Some k \<Rightarrow> Worker k | None \<Rightarrow> Collect)"

text \<open>Every step that does something uses up some work.\<close>

fun worker_work :: "('e, 'p) worker \<Rightarrow> nat" where
  "worker_work Stopped = 0"
| "worker_work Taking = 1"
| "worker_work Looking = 2"
| "worker_work (Sending p a) = 4"
| "worker_work (Answered p a) = 5"
| "worker_work (Fetching p) = 6"

definition work :: "u64 list \<Rightarrow> ('s, 'e, 'hdr) batch \<Rightarrow> nat" where
  "work heights b = 6 * (length heights - ba_cursor b) + sum_list (map worker_work (ba_workers b)) +
     length (ba_inbox b) + (if ba_result b = None then 1 else 0)"

lemma work_update:
  assumes "k < length ws"
  shows "worker_work (ws ! k) \<le> sum_list (map worker_work ws)"
    and "sum_list (map worker_work (ws[k := x])) = sum_list (map worker_work ws) + worker_work x - worker_work (ws ! k)"
proof -
  show le: "worker_work (ws ! k) \<le> sum_list (map worker_work ws)"
    using assms by (simp add: member_le_sum_list)
  show "sum_list (map worker_work (ws[k := x])) = sum_list (map worker_work ws) + worker_work x - worker_work (ws ! k)"
    using assms by (simp add: map_update sum_list_update)
qed

lemma drain_frame:
  "ba_cursor (drain lib reader heights b) = ba_cursor b \<and> ba_workers (drain lib reader heights b) = ba_workers b \<and>
   ba_inbox (drain lib reader heights b) = ba_inbox b"
proof (induction lib reader heights b rule: drain.induct)
  case (1 lib reader heights b)
  then show ?case
    by (subst (1 2 3) drain.simps) (simp add: Let_def split: option.splits prod.splits sum.splits)
qed

lemmas drain_simps [simp] = drain_frame [THEN conjunct1] drain_frame [THEN conjunct2, THEN conjunct1]
  drain_frame [THEN conjunct2, THEN conjunct2]

lemma fetch_step_work:
  assumes "k < length (ba_workers b)" "ba_workers b ! k \<noteq> Stopped"
  shows "work heights (fetch_step reader heights k b) < work heights b"
  using assms work_update(1) [OF assms(1)]
  by (cases "ba_workers b ! k") (auto simp: fetch_step_def work_def work_update(2) split: prod.splits)

lemma collect_step_work:
  assumes "ba_result b = None" "ba_inbox b \<noteq> [] \<or> set (ba_workers b) \<subseteq> {Stopped}"
  shows "work heights (collect_step lib reader heights b) < work heights b"
  using assms
  by (auto simp: collect_step_def work_def split: list.splits sum.splits)

lemma next_event_work:
  assumes "\<not> finished_batch b"
  shows "work heights (batch_step lib reader heights b (next_event b)) < work heights b"
proof (cases "find (\<lambda>k. ba_workers b ! k \<noteq> Stopped) [0..<length (ba_workers b)]")
  case None
  then have "set (ba_workers b) \<subseteq> {Stopped}" by (auto simp: find_None_iff in_set_conv_nth)
  with assms None show ?thesis by (auto simp: next_event_def finished_batch_def intro: collect_step_work)
next
  case (Some k)
  then have "k < length (ba_workers b)" "ba_workers b ! k \<noteq> Stopped" by (auto simp: find_Some_iff)
  with Some show ?thesis by (simp add: next_event_def fetch_step_work)
qed

function run_on :: "'hdr wire_lib \<Rightarrow> ('s, 'e, 'hdr) reader \<Rightarrow> u64 list \<Rightarrow> ('s, 'e, 'hdr) batch \<Rightarrow> ('s, 'e, 'hdr) batch" where
  "run_on lib reader heights b =
     (if finished_batch b then b else run_on lib reader heights (batch_step lib reader heights b (next_event b)))"
  by pat_completeness auto
termination
  by (relation "measure (\<lambda>(_, _, heights, b). work heights b)") (auto simp: next_event_work)

declare run_on.simps [simp del]

definition run_batch ::
  "'hdr wire_lib \<Rightarrow> ('s, 'e, 'hdr) reader \<Rightarrow> u64 list \<Rightarrow> batch_event list \<Rightarrow> ('s, 'e, 'hdr) batch \<Rightarrow> ('s, 'e, 'hdr) batch" where
  "run_batch lib reader heights schedule b =
     run_on lib reader heights (foldl (batch_step lib reader heights) b schedule)"

text \<open>The result of the collector, the index as it left it, and the world after the last worker stopped.\<close>

definition stream_batch ::
  "'hdr wire_lib \<Rightarrow> ('s, 'e, 'hdr) reader \<Rightarrow> wire_index \<Rightarrow> u64 list \<Rightarrow> batch_event list \<Rightarrow> 's world \<Rightarrow>
   ('e sync_error + unit) \<times> wire_index \<times> 's world" where
  "stream_batch lib reader i heights schedule w =
     (let b = run_batch lib reader heights schedule (batch_start heights i w) in
      (the (ba_result b), ba_index b, ba_world b))"

end
