(* ===== verification/Wire_Batch_Inv.thy ===== *)
theory Wire_Batch_Inv
  imports Wire_Batch
begin

section \<open>Whatever the schedule, blocks are applied in order\<close>

text \<open>
  The invariant of the batch: the index is the initial one with the blocks of the first \<open>expected\<close>
  heights applied in order, each block an answer of the reader for its height; no position that a
  worker took is lost; a worker stops early only after an error that reaches the collector.
\<close>

definition fetched :: "('s, 'e, 'hdr) reader \<Rightarrow> u64 \<Rightarrow> 'e + 'hdr fetched \<Rightarrow> bool" where
  "fetched reader h answer \<longleftrightarrow> (\<exists>s s'. rd_block reader h s = (answer, s'))"

lemma fetchedI: "rd_block reader h s = (answer, s') \<Longrightarrow> fetched reader h answer"
  by (auto simp: fetched_def)

inductive applied :: "'hdr wire_lib \<Rightarrow> ('s, 'e, 'hdr) reader \<Rightarrow> wire_index \<Rightarrow> u64 list \<Rightarrow> wire_index \<Rightarrow> bool"
  for lib reader i where
    none: "applied lib reader i [] i"
  | more: "applied lib reader i hs i1 \<Longrightarrow> fetched reader h (Inr pair) \<Longrightarrow>
      wire_apply_block lib reader i1 h pair w = (Inr i2, w') \<Longrightarrow> applied lib reader i (hs @ [h]) i2"

definition refused :: "'hdr wire_lib \<Rightarrow> ('s, 'e, 'hdr) reader \<Rightarrow> u64 list \<Rightarrow> nat \<Rightarrow> wire_index \<Rightarrow> 'e sync_error \<Rightarrow> bool" where
  "refused lib reader heights n i e \<longleftrightarrow>
     (\<exists>p < length heights. \<exists>cause. e = SyncSource cause \<and> fetched reader (heights ! p) (Inl cause)) \<or>
     n < length heights \<and> (\<exists>pair w w'. fetched reader (heights ! n) (Inr pair) \<and>
        wire_apply_block lib reader i (heights ! n) pair w = (Inl e, w'))"

definition collector_inv ::
  "'hdr wire_lib \<Rightarrow> ('s, 'e, 'hdr) reader \<Rightarrow> u64 list \<Rightarrow> wire_index \<Rightarrow> ('s, 'e, 'hdr) batch \<Rightarrow> bool" where
  "collector_inv lib reader heights i b \<longleftrightarrow>
     bt_inv (ba_waiting b) \<and>
     (\<forall>p pair. bt_get (ba_waiting b) p = Some pair \<longrightarrow> p < length heights \<and> fetched reader (heights ! p) (Inr pair)) \<and>
     ba_expected b \<le> length heights \<and> ba_applied b = take (ba_expected b) heights \<and>
     applied lib reader i (take (ba_expected b) heights) (ba_index b) \<and>
     (\<forall>e. ba_result b = Some (Inl e) \<longrightarrow> refused lib reader heights (ba_expected b) (ba_index b) e) \<and>
     (ba_result b = Some (Inr ()) \<longrightarrow> ba_expected b = length heights)"

fun carries :: "('e, 'p) worker \<Rightarrow> nat \<Rightarrow> bool" where
  "carries (Fetching p) q \<longleftrightarrow> p = q"
| "carries (Answered p a) q \<longleftrightarrow> p = q"
| "carries (Sending p a) q \<longleftrightarrow> p = q"
| "carries _ q \<longleftrightarrow> False"

fun worker_ok :: "('s, 'e, 'hdr) reader \<Rightarrow> u64 list \<Rightarrow> ('e, 'hdr fetched) worker \<Rightarrow> bool" where
  "worker_ok reader heights (Fetching p) \<longleftrightarrow> p < length heights"
| "worker_ok reader heights (Answered p a) \<longleftrightarrow> p < length heights \<and> fetched reader (heights ! p) a"
| "worker_ok reader heights (Sending p a) \<longleftrightarrow> p < length heights \<and> fetched reader (heights ! p) a"
| "worker_ok reader heights _ \<longleftrightarrow> True"

fun sends_error :: "('e, 'p) worker \<Rightarrow> bool" where
  "sends_error (Sending p a) \<longleftrightarrow> isl a"
| "sends_error _ \<longleftrightarrow> False"

definition flight_inv :: "('s, 'e, 'hdr) reader \<Rightarrow> u64 list \<Rightarrow> ('s, 'e, 'hdr) batch \<Rightarrow> bool" where
  "flight_inv reader heights b \<longleftrightarrow>
     length (ba_workers b) = min FETCH_WORKERS (length heights) \<and>
     (\<forall>x \<in> set (ba_workers b). worker_ok reader heights x) \<and>
     (\<forall>(p, a) \<in> set (ba_inbox b). p < length heights \<and> fetched reader (heights ! p) a)"

definition accounted :: "('s, 'e, 'hdr) batch \<Rightarrow> nat \<Rightarrow> bool" where
  "accounted b p \<longleftrightarrow> p < ba_expected b \<or> bt_get (ba_waiting b) p \<noteq> None \<or> p \<in> fst ` set (ba_inbox b) \<or>
     (\<exists>x \<in> set (ba_workers b). carries x p)"

definition progress_inv :: "u64 list \<Rightarrow> ('s, 'e, 'hdr) batch \<Rightarrow> bool" where
  "progress_inv heights b \<longleftrightarrow> (ba_result b = None \<longrightarrow>
     bt_get (ba_waiting b) (ba_expected b) = None \<and>
     (\<forall>p < length heights. p < ba_cursor b \<longrightarrow> accounted b p) \<and>
     (Stopped \<in> set (ba_workers b) \<longrightarrow> ba_failed b \<or> length heights \<le> ba_cursor b) \<and>
     (ba_failed b \<longrightarrow> (\<exists>(p, a) \<in> set (ba_inbox b). isl a) \<or> (\<exists>x \<in> set (ba_workers b). sends_error x)))"

definition batch_inv ::
  "'hdr wire_lib \<Rightarrow> ('s, 'e, 'hdr) reader \<Rightarrow> u64 list \<Rightarrow> wire_index \<Rightarrow> ('s, 'e, 'hdr) batch \<Rightarrow> bool" where
  "batch_inv lib reader heights i b \<longleftrightarrow>
     collector_inv lib reader heights i b \<and> flight_inv reader heights b \<and> progress_inv heights b"

subsection \<open>A step of a worker\<close>

lemma set_update_other: "k < length ws \<Longrightarrow> y \<in> set ws \<Longrightarrow> y \<noteq> ws ! k \<Longrightarrow> y \<in> set (ws[k := x])"
  by (metis in_set_conv_nth length_list_update nth_list_update_neq)

lemma some_update:
  assumes "k < length ws" "P (ws ! k) \<longrightarrow> P x" "\<exists>y \<in> set ws. P y"
  shows "\<exists>y \<in> set (ws[k := x]). P y"
  using assms set_update_other [OF assms(1)] set_update_memI [OF assms(1)] by metis

lemma in_updateD: "y \<in> set (ws[k := x]) \<Longrightarrow> y = x \<or> y \<in> set ws"
  using set_update_subset_insert by fastforce

lemma collector_inv_frame:
  assumes "collector_inv lib reader heights i b" "ba_waiting b' = ba_waiting b" "ba_expected b' = ba_expected b"
    "ba_applied b' = ba_applied b" "ba_index b' = ba_index b" "ba_result b' = ba_result b"
  shows "collector_inv lib reader heights i b'"
  using assms by (simp add: collector_inv_def)

lemma fetch_step_collector:
  "ba_waiting (fetch_step reader heights k b) = ba_waiting b \<and> ba_expected (fetch_step reader heights k b) = ba_expected b \<and>
   ba_applied (fetch_step reader heights k b) = ba_applied b \<and> ba_index (fetch_step reader heights k b) = ba_index b \<and>
   ba_result (fetch_step reader heights k b) = ba_result b"
  by (auto simp: fetch_step_def split: worker.splits prod.splits)

lemma fetch_step_flight:
  assumes "flight_inv reader heights b"
  shows "flight_inv reader heights (fetch_step reader heights k b)"
proof (cases "k < length (ba_workers b)")
  case True
  then have ok: "worker_ok reader heights (ba_workers b ! k)" using assms by (simp add: flight_inv_def)
  show ?thesis
    using assms ok True
    by (cases "ba_workers b ! k")
      (auto simp: fetch_step_def flight_inv_def dest!: in_updateD intro: fetchedI split: prod.splits)
qed (use assms in \<open>simp add: fetch_step_def\<close>)

lemma accounted_move:
  assumes "accounted b p" "ba_expected b' = ba_expected b" "ba_waiting b' = ba_waiting b"
    "set (ba_inbox b) \<subseteq> set (ba_inbox b')" "k < length (ba_workers b)" "ba_workers b' = (ba_workers b)[k := x]"
    "carries (ba_workers b ! k) p \<Longrightarrow> carries x p \<or> p \<in> fst ` set (ba_inbox b')"
  shows "accounted b' p"
proof (cases "\<exists>x \<in> set (ba_workers b). carries x p")
  case True
  show ?thesis
  proof (cases "p \<in> fst ` set (ba_inbox b')")
    case False
    with assms(7) have "carries (ba_workers b ! k) p \<longrightarrow> carries x p" by blast
    from some_update [OF assms(5) this True] show ?thesis by (simp add: accounted_def assms(6))
  qed (simp add: accounted_def)
next
  case False
  with assms(1) have "p < ba_expected b \<or> bt_get (ba_waiting b) p \<noteq> None \<or> p \<in> fst ` set (ba_inbox b)"
    by (simp add: accounted_def)
  with assms(2-4) show ?thesis by (auto simp: accounted_def)
qed

lemma error_move:
  assumes "(\<exists>(p, a) \<in> set (ba_inbox b). isl a) \<or> (\<exists>x \<in> set (ba_workers b). sends_error x)"
    "set (ba_inbox b) \<subseteq> set (ba_inbox b')" "k < length (ba_workers b)" "ba_workers b' = (ba_workers b)[k := x]"
    "sends_error (ba_workers b ! k) \<Longrightarrow> sends_error x \<or> (\<exists>(p, a) \<in> set (ba_inbox b'). isl a)"
  shows "(\<exists>(p, a) \<in> set (ba_inbox b'). isl a) \<or> (\<exists>x \<in> set (ba_workers b'). sends_error x)"
proof (cases "\<exists>(p, a) \<in> set (ba_inbox b'). isl a")
  case False
  then have "\<exists>x \<in> set (ba_workers b). sends_error x" "sends_error (ba_workers b ! k) \<longrightarrow> sends_error x"
    using assms by blast+
  from some_update [OF assms(3) this(2,1)] show ?thesis by (simp add: assms(4))
qed simp

text \<open>What a step of worker \<open>k\<close> does to the shared state.\<close>

lemma fetch_step_effect:
  assumes "k < length (ba_workers b)" "ba_result b = None"
  shows "\<exists>x. ba_workers (fetch_step reader heights k b) = (ba_workers b)[k := x] \<and>
    set (ba_inbox b) \<subseteq> set (ba_inbox (fetch_step reader heights k b)) \<and>
    (\<forall>p. carries (ba_workers b ! k) p \<longrightarrow> carries x p \<or> p \<in> fst ` set (ba_inbox (fetch_step reader heights k b))) \<and>
    (ba_cursor (fetch_step reader heights k b) = ba_cursor b \<or>
       ba_cursor (fetch_step reader heights k b) = Suc (ba_cursor b) \<and> (ba_cursor b < length heights \<longrightarrow> carries x (ba_cursor b))) \<and>
    (sends_error (ba_workers b ! k) \<longrightarrow> sends_error x \<or> (\<exists>(p, a) \<in> set (ba_inbox (fetch_step reader heights k b)). isl a)) \<and>
    (ba_failed (fetch_step reader heights k b) \<longrightarrow> ba_failed b \<or> sends_error x) \<and>
    (ba_failed b \<longrightarrow> ba_failed (fetch_step reader heights k b)) \<and>
    (x = Stopped \<longrightarrow> ba_failed (fetch_step reader heights k b) \<or> length heights \<le> ba_cursor (fetch_step reader heights k b) \<or>
       Stopped \<in> set (ba_workers b))"
proof (cases "ba_workers b ! k")
  case Looking
  then show ?thesis using assms
    by (intro exI [of _ "if ba_failed b then Stopped else Taking"]) (auto simp: fetch_step_def)
next
  case Taking
  then show ?thesis using assms
    by (intro exI [of _ "if ba_cursor b < length heights then Fetching (ba_cursor b) else Stopped"]) (auto simp: fetch_step_def)
next
  case (Fetching p)
  obtain a s where "rd_block reader (heights ! p) (w_state (ba_world b)) = (a, s)" by fastforce
  then show ?thesis using Fetching assms by (intro exI [of _ "Answered p a"]) (auto simp: fetch_step_def)
next
  case (Answered p a)
  then show ?thesis using assms by (intro exI [of _ "Sending p a"]) (auto simp: fetch_step_def)
next
  case (Sending p a)
  then show ?thesis using assms by (intro exI [of _ Looking]) (auto simp: fetch_step_def)
next
  case Stopped
  then have "Stopped \<in> set (ba_workers b)" using assms(1) by (metis nth_mem)
  with Stopped show ?thesis using assms list_update_id [of "ba_workers b" k]
    by (intro exI [of _ Stopped]) (simp add: fetch_step_def)
qed

lemma fetch_step_progress:
  assumes "progress_inv heights b"
  shows "progress_inv heights (fetch_step reader heights k b)"
proof (cases "k < length (ba_workers b) \<and> ba_result b = None")
  case True
  then have k: "k < length (ba_workers b)" and none: "ba_result b = None" by simp_all
  have inv: "bt_get (ba_waiting b) (ba_expected b) = None"
    "\<And>p. p < length heights \<Longrightarrow> p < ba_cursor b \<Longrightarrow> accounted b p"
    "Stopped \<in> set (ba_workers b) \<Longrightarrow> ba_failed b \<or> length heights \<le> ba_cursor b"
    "ba_failed b \<Longrightarrow> (\<exists>(p, a) \<in> set (ba_inbox b). isl a) \<or> (\<exists>x \<in> set (ba_workers b). sends_error x)"
    using assms none by (simp_all add: progress_inv_def)
  define b' where "b' = fetch_step reader heights k b"
  have frame: "ba_waiting b' = ba_waiting b" "ba_expected b' = ba_expected b" "ba_result b' = None"
    using fetch_step_collector [of reader heights k b] none by (auto simp: b'_def)
  from fetch_step_effect [OF k none, of reader heights, folded b'_def] obtain x where
    x: "ba_workers b' = (ba_workers b)[k := x]" and inbox: "set (ba_inbox b) \<subseteq> set (ba_inbox b')"
    and carried: "\<And>p. carries (ba_workers b ! k) p \<Longrightarrow> carries x p \<or> p \<in> fst ` set (ba_inbox b')"
    and cursor: "ba_cursor b' = ba_cursor b \<or> ba_cursor b' = Suc (ba_cursor b) \<and> (ba_cursor b < length heights \<longrightarrow> carries x (ba_cursor b))"
    and sent: "sends_error (ba_workers b ! k) \<Longrightarrow> sends_error x \<or> (\<exists>(p, a) \<in> set (ba_inbox b'). isl a)"
    and failed: "ba_failed b' \<Longrightarrow> ba_failed b \<or> sends_error x" "ba_failed b \<Longrightarrow> ba_failed b'"
    and stopped: "x = Stopped \<Longrightarrow> ba_failed b' \<or> length heights \<le> ba_cursor b' \<or> Stopped \<in> set (ba_workers b)"
    by blast
  have "x \<in> set (ba_workers b')" unfolding x by (rule set_update_memI [OF k])
  have "accounted b' p" if "p < length heights" "p < ba_cursor b'" for p
  proof (cases "p < ba_cursor b")
    case True
    from accounted_move [OF inv(2) [OF that(1) True] frame(2,1) inbox k x carried] show ?thesis .
  next
    case False
    with cursor that have "carries x p" by (auto simp: less_Suc_eq)
    with \<open>x \<in> set (ba_workers b')\<close> show ?thesis by (auto simp: accounted_def)
  qed
  moreover have "ba_failed b' \<or> length heights \<le> ba_cursor b'" if "Stopped \<in> set (ba_workers b')"
    using in_updateD [OF that [unfolded x]] inv(3) stopped cursor failed(2) by (auto dest: le_SucI)
  moreover have "(\<exists>(p, a) \<in> set (ba_inbox b'). isl a) \<or> (\<exists>x \<in> set (ba_workers b'). sends_error x)" if "ba_failed b'"
    using failed(1) [OF that] error_move [OF inv(4) inbox k x sent] \<open>x \<in> set (ba_workers b')\<close> by blast
  ultimately show ?thesis using inv(1) frame unfolding b'_def [symmetric] progress_inv_def by simp
next
  case False
  then have "ba_result b \<noteq> None \<or> fetch_step reader heights k b = b" by (auto simp: fetch_step_def)
  then show ?thesis using assms fetch_step_collector [of reader heights k b] by (auto simp: progress_inv_def)
qed

subsection \<open>A turn of the collector\<close>

lemma drain_inv:
  assumes "collector_inv lib reader heights i b" "ba_result b = None"
  shows "collector_inv lib reader heights i (drain lib reader heights b) \<and>
    ba_result (drain lib reader heights b) \<noteq> Some (Inr ()) \<and>
    (ba_result (drain lib reader heights b) = None \<longrightarrow>
       bt_get (ba_waiting (drain lib reader heights b)) (ba_expected (drain lib reader heights b)) = None \<and>
       ba_failed (drain lib reader heights b) = ba_failed b \<and>
       (\<forall>p. p < ba_expected b \<or> bt_get (ba_waiting b) p \<noteq> None \<longrightarrow>
          p < ba_expected (drain lib reader heights b) \<or> bt_get (ba_waiting (drain lib reader heights b)) p \<noteq> None))"
  using assms
proof (induction lib reader heights b rule: drain.induct)
  case (1 lib reader heights b)
  show ?case
  proof (cases "bt_get (ba_waiting b) (ba_expected b)")
    case None
    then show ?thesis using "1.prems" by (subst (1 2 3 4 5 6 7) drain.simps) simp
  next
    case (Some pair)
    let ?h = "heights ! ba_expected b"
    have p: "ba_expected b < length heights" "fetched reader ?h (Inr pair)" and bt: "bt_inv (ba_waiting b)"
      and seq: "applied lib reader i (take (ba_expected b) heights) (ba_index b)"
      and waiting: "\<And>p pair. bt_get (ba_waiting b) p = Some pair \<Longrightarrow> p < length heights \<and> fetched reader (heights ! p) (Inr pair)"
      using "1.prems"(1) Some unfolding collector_inv_def by blast+
    obtain r w where run: "wire_apply_block lib reader (ba_index b) ?h pair (ba_world b) = (r, w)" by fastforce
    have rest: "bt_inv (bt_remove (ba_expected b) (ba_waiting b))"
      "bt_get (bt_remove (ba_expected b) (ba_waiting b)) = (bt_get (ba_waiting b))(ba_expected b := None)"
      using bt by (simp_all add: btree.inv_remove bt_get_remove)
    show ?thesis
    proof (cases r)
      case (Inl e)
      with run p have "refused lib reader heights (ba_expected b) (ba_index b) e"
        unfolding refused_def by blast
      then show ?thesis using "1.prems" Some run Inl p(1) rest
        by (subst (1 2 3 4 5 6 7) drain.simps) (simp add: collector_inv_def Let_def)
    next
      case (Inr i2)
      let ?b = "b\<lparr>ba_waiting := bt_remove (ba_expected b) (ba_waiting b), ba_index := i2, ba_world := w,
        ba_applied := ba_applied b @ [?h], ba_expected := ba_expected b + 1\<rparr>"
      have "applied lib reader i (take (Suc (ba_expected b)) heights) i2"
        using applied.more [OF seq p(2)] run Inr p(1) by (simp add: take_Suc_conv_app_nth)
      then have "collector_inv lib reader heights i ?b"
        using "1.prems" p(1) rest by (auto simp: collector_inv_def take_Suc_conv_app_nth)
      note IH = "1.IH" [OF Some refl _ refl run [symmetric] Inr this]
      have step: "drain lib reader heights b = drain lib reader heights ?b"
        using Some run Inr p(1) by (subst drain.simps) (simp add: Let_def)
      have inner: "p < ba_expected ?b \<or> bt_get (ba_waiting ?b) p \<noteq> None"
        if "p < ba_expected b \<or> bt_get (ba_waiting b) p \<noteq> None" for p
        using that rest by auto
      have same: "ba_result ?b = None" "ba_failed ?b = ba_failed b" using "1.prems" by simp_all
      show ?thesis unfolding step using IH [OF _ same(1)] p(1) inner unfolding same(2) by (meson not_le)
    qed
  qed
qed

lemma collect_step_inv:
  assumes "batch_inv lib reader heights i b"
  shows "batch_inv lib reader heights i (collect_step lib reader heights b)"
proof (cases "ba_result b")
  case (Some r)
  then show ?thesis using assms by (simp add: collect_step_def)
next
  case None
  have col: "collector_inv lib reader heights i b" and flight: "flight_inv reader heights b" and progress: "progress_inv heights b"
    using assms by (simp_all add: batch_inv_def)
  show ?thesis
  proof (cases "ba_inbox b")
    case Nil
    show ?thesis
    proof (cases "set (ba_workers b) \<subseteq> {Stopped}")
      case True
      have "\<not> ba_failed b" using progress None Nil True by (auto simp: progress_inv_def)
      moreover have "ba_expected b = length heights"
      proof (rule ccontr)
        assume "ba_expected b \<noteq> length heights"
        then have less: "ba_expected b < length heights" using col by (simp add: collector_inv_def)
        then have "ba_workers b \<noteq> []" using flight by (auto simp: flight_inv_def FETCH_WORKERS_def)
        then have "Stopped \<in> set (ba_workers b)" using True by (cases "ba_workers b") auto
        with progress None \<open>\<not> ba_failed b\<close> less have "accounted b (ba_expected b)" by (auto simp: progress_inv_def)
        moreover have "bt_get (ba_waiting b) (ba_expected b) = None" using progress None by (simp add: progress_inv_def)
        ultimately show False using True Nil by (auto simp: accounted_def)
      qed
      ultimately show ?thesis using assms None Nil True
        by (auto simp: batch_inv_def collect_step_def collector_inv_def flight_inv_def progress_inv_def)
    next
      case False
      then show ?thesis using assms None Nil by (simp add: collect_step_def)
    qed
  next
    case (Cons x inbox)
    obtain p a where x: "x = (p, a)" by fastforce
    have p: "p < length heights" "fetched reader (heights ! p) a"
      and flight': "flight_inv reader heights (b\<lparr>ba_inbox := inbox\<rparr>)"
      using flight Cons x by (simp_all add: flight_inv_def)
    show ?thesis
    proof (cases a)
      case (Inl e)
      then have "refused lib reader heights (ba_expected b) (ba_index b) (SyncSource e)"
        using p unfolding refused_def by blast
      then show ?thesis using col flight' None Cons x Inl
        by (simp add: batch_inv_def collect_step_def collector_inv_def flight_inv_def progress_inv_def)
    next
      case (Inr pair)
      let ?b = "b\<lparr>ba_inbox := inbox, ba_waiting := bt_insert p pair (ba_waiting b)\<rparr>"
      let ?d = "drain lib reader heights ?b"
      have "collector_inv lib reader heights i ?b"
        using col p Inr unfolding collector_inv_def by (auto simp: btree.inv_insert btree.get_insert)
      note d = drain_inv [OF this]
      have "progress_inv heights ?d"
        unfolding progress_inv_def
      proof (intro impI conjI allI)
        assume run: "ba_result ?d = None"
        have d': "bt_get (ba_waiting ?d) (ba_expected ?d) = None" "ba_failed ?d = ba_failed b"
          "\<And>q. q < ba_expected b \<or> bt_get (bt_insert p pair (ba_waiting b)) q \<noteq> None \<Longrightarrow>
             q < ba_expected ?d \<or> bt_get (ba_waiting ?d) q \<noteq> None"
          using d run None by auto
        show "bt_get (ba_waiting ?d) (ba_expected ?d) = None" by (rule d')
        have get: "bt_get (bt_insert p pair (ba_waiting b)) = (bt_get (ba_waiting b))(p \<mapsto> pair)"
          using col by (simp add: collector_inv_def btree.get_insert)
        fix q assume "q < length heights" "q < ba_cursor ?d"
        then have acc: "accounted b q" using progress None by (simp add: progress_inv_def)
        show "accounted ?d q"
        proof (cases "q < ba_expected b \<or> bt_get (bt_insert p pair (ba_waiting b)) q \<noteq> None")
          case True
          then show ?thesis unfolding accounted_def using d'(3) by blast
        next
          case False
          then have "q \<noteq> p" "bt_get (ba_waiting b) q = None" "\<not> q < ba_expected b" unfolding get fun_upd_apply by (metis option.distinct(1))+
          then show ?thesis using acc Cons x by (simp add: accounted_def)
        qed
      next
        assume run: "ba_result ?d = None"
        then have same: "ba_failed ?d = ba_failed b" using d None by simp
        show "Stopped \<in> set (ba_workers ?d) \<Longrightarrow> ba_failed ?d \<or> length heights \<le> ba_cursor ?d"
          using progress None by (simp add: same progress_inv_def)
        show "ba_failed ?d \<Longrightarrow> (\<exists>(p, a) \<in> set (ba_inbox ?d). isl a) \<or> (\<exists>x \<in> set (ba_workers ?d). sends_error x)"
          using progress None Cons x Inr by (auto simp: same progress_inv_def)
      qed
      moreover have "flight_inv reader heights ?d" using flight' by (simp add: flight_inv_def)
      ultimately show ?thesis using d None Cons x Inr by (simp add: batch_inv_def collect_step_def)
    qed
  qed
qed

subsection \<open>Whole executions\<close>

lemma batch_step_inv:
  assumes "batch_inv lib reader heights i b"
  shows "batch_inv lib reader heights i (batch_step lib reader heights b e)"
proof (cases e)
  case (Worker k)
  then show ?thesis using assms fetch_step_collector [of reader heights k b]
    by (auto simp: batch_inv_def intro: fetch_step_flight fetch_step_progress collector_inv_frame)
qed (use assms collect_step_inv in simp)

lemma run_on_inv: "batch_inv lib reader heights i b \<Longrightarrow> batch_inv lib reader heights i (run_on lib reader heights b)"
  by (induction lib reader heights b rule: run_on.induct) (subst run_on.simps, simp add: batch_step_inv)

lemma run_on_finished: "finished_batch (run_on lib reader heights b)"
  by (induction lib reader heights b rule: run_on.induct) (subst run_on.simps, simp)

lemma batch_start_inv: "batch_inv lib reader heights i (batch_start heights i w)"
  by (auto simp: batch_inv_def batch_start_def collector_inv_def flight_inv_def progress_inv_def bt_get_def
      intro: applied.none)

lemma run_batch_inv: "batch_inv lib reader heights i (run_batch lib reader heights schedule (batch_start heights i w))"
proof -
  have "batch_inv lib reader heights i (foldl (batch_step lib reader heights) b schedule)"
    if "batch_inv lib reader heights i b" for b
    using that by (induction schedule arbitrary: b) (simp_all add: batch_step_inv)
  from this [OF batch_start_inv] show ?thesis unfolding run_batch_def by (rule run_on_inv)
qed

lemma stream_batch_cases:
  assumes "stream_batch lib reader i heights schedule w = (r, i', w')"
  obtains n where "n \<le> length heights" "applied lib reader i (take n heights) i'"
    "r = Inr () \<Longrightarrow> n = length heights" "\<And>e. r = Inl e \<Longrightarrow> refused lib reader heights n i' e"
proof -
  define b where "b = run_batch lib reader heights schedule (batch_start heights i w)"
  have inv: "batch_inv lib reader heights i b" unfolding b_def by (rule run_batch_inv)
  have "finished_batch b" unfolding b_def run_batch_def by (rule run_on_finished)
  moreover have "r = the (ba_result b)" "i' = ba_index b"
    using assms by (auto simp: stream_batch_def b_def Let_def)
  ultimately show thesis using inv that [of "ba_expected b"]
    by (cases r) (auto simp: finished_batch_def batch_inv_def collector_inv_def)
qed

end
