(* ===== verification/Wire_Sync.thy ===== *)
theory Wire_Sync
  imports Wire_Batch_Inv
begin

section \<open>Synchronising the Wire index (\<^verbatim>\<open>urma-wire/src/index.rs\<close>, \<open>sync\<close>)\<close>

text \<open>
  The whole synchronisation, with the schedule of its workers as an argument, and the invariant of
  the index: contiguous linked checkpoints, entries in the order of the chain that belong to blocks
  of the index, each of them from a verified record.
\<close>

definition batch_heights :: "u64 \<Rightarrow> u64 \<Rightarrow> u64 \<Rightarrow> u64 list" where
  "batch_heights first tip max_blocks = map word_of_nat (take (unat max_blocks) [unat first..<Suc (unat tip)])"

definition next_height :: "wire_index \<Rightarrow> wire_error + u64" where
  "next_height i =
     rbind (map_err (\<lambda>_. WireInteger) (try_from (length (wi_blocks i)))) (\<lambda>n.
     ok_or (WireCapacity ''height overflow'') (checked_add (wi_start i) n))"

definition reached_tip :: "wire_index \<Rightarrow> u64 \<Rightarrow> u64 \<Rightarrow> u64 \<Rightarrow> wire_error + bool" where
  "reached_tip i first scanned tip =
     (if wi_blocks i = [] then Inr False
      else rbind (ok_or (WireCapacity ''height overflow'') (checked_add first scanned)) (\<lambda>a.
           rbind (ok_or (WireCapacity ''height overflow'') (checked_add tip 1)) (\<lambda>b. Inr (a = b))))"

text \<open>After the batch: confirm and persist what was applied, and report.\<close>

definition finish_sync ::
  "'hdr wire_lib \<Rightarrow> ('s, 'e, 'hdr) reader \<Rightarrow> 's file_system \<Rightarrow> u64 \<Rightarrow> u64 \<Rightarrow> u64 \<Rightarrow> 'e sync_error + unit \<Rightarrow> wire_index \<Rightarrow>
   ('s, 'e, sync_report \<times> wire_index) wire" where
  "finish_sync lib reader fs tip rolled_back first streamed i =
     ibind (wire_res (map_err (\<lambda>_. WireInteger) (try_from (length (wi_blocks i))))) (\<lambda>count.
     let scanned = count - (first - wi_start i) in
     ibind (if 0 < scanned
            then ibind (confirm_tail lib reader i) (\<lambda>_. imap_err SyncWire (WireIndex_persist lib fs i))
            else iret ()) (\<lambda>_.
     ibind (ilift streamed) (\<lambda>_.
     ibind (wire_res (reached_tip i first scanned tip)) (\<lambda>complete.
     iret (\<lparr>sp_scanned = scanned, sp_rolled_back = rolled_back, sp_records = length (wi_entries i), sp_tip = tip,
            sp_complete_to_tip = complete\<rparr>, i)))))"

definition batch_sync ::
  "'hdr wire_lib \<Rightarrow> ('s, 'e, 'hdr) reader \<Rightarrow> wire_index \<Rightarrow> u64 list \<Rightarrow> batch_event list \<Rightarrow>
   ('s, 'e, ('e sync_error + unit) \<times> wire_index) wire" where
  "batch_sync lib reader i heights schedule =
     (\<lambda>w. case stream_batch lib reader i heights schedule w of (streamed, i', w') \<Rightarrow> (Inr (streamed, i'), w'))"

definition wire_sync ::
  "'hdr wire_lib \<Rightarrow> ('s, 'e, 'hdr) reader \<Rightarrow> 's file_system \<Rightarrow> u64 \<Rightarrow> u64 \<Rightarrow> batch_event list \<Rightarrow>
   ('s, 'e, sync_report \<times> wire_index) wire" where
  "wire_sync lib reader fs start max_blocks schedule =
     ibind (icheck (1 \<le> max_blocks \<and> max_blocks \<le> 10000) (SyncWire (WireInvalid ''max blocks must be 1..10000''))) (\<lambda>_.
     ibind (wire_opened lib reader fs start) (\<lambda>i0.
     ibind (rd (rd_tip_height reader)) (\<lambda>tip.
     ibind (wire_rollback lib reader i0 tip) (\<lambda>(i1, rolled_back).
     ibind (\<lambda>w. if 0 < rolled_back \<or> w_file w = None then imap_err SyncWire (WireIndex_persist lib fs i1) w
                else (Inr (), w)) (\<lambda>_.
     ibind (wire_res (next_height i1)) (\<lambda>first.
     ibind (batch_sync lib reader i1 (batch_heights first tip max_blocks) schedule) (\<lambda>(streamed, i2).
     finish_sync lib reader fs tip rolled_back first streamed i2)))))))"

subsection \<open>The invariant of the index\<close>

definition wire_follows :: "'hdr wire_lib \<Rightarrow> wire_checkpoint \<Rightarrow> wire_checkpoint \<Rightarrow> bool" where
  "wire_follows lib a b \<longleftrightarrow>
     (\<exists>hdr. wl_hash_text lib (wl_block_hash lib hdr) = wc_hash b \<and> wl_hash_text lib (wl_prev lib hdr) = wc_hash a)"

definition entry_before :: "entry \<Rightarrow> entry \<Rightarrow> bool" where
  "entry_before a b \<longleftrightarrow> en_height a < en_height b \<or> en_height a = en_height b \<and> en_position a < en_position b"

definition verified_origin :: "'hdr wire_lib \<Rightarrow> entry \<Rightarrow> bool" where
  "verified_origin lib e \<longleftrightarrow> (\<exists>tx commit. verified_entry lib tx commit (en_height e) (en_position e) = Inr (Some e))"

definition wire_ok :: "'hdr wire_lib \<Rightarrow> wire_index \<Rightarrow> bool" where
  "wire_ok lib i \<longleftrightarrow>
     map (\<lambda>cp. unat (wc_height cp)) (wi_blocks i) = [unat (wi_start i)..<unat (wi_start i) + length (wi_blocks i)] \<and>
     successively (wire_follows lib) (wi_blocks i) \<and>
     sorted_wrt entry_before (wi_entries i) \<and>
     (\<forall>e \<in> set (wi_entries i). wi_start i \<le> en_height e \<and> unat (en_height e) < unat (wi_start i) + length (wi_blocks i)) \<and>
     (\<forall>e \<in> set (wi_entries i). verified_origin lib e)"

definition wire_stored_ok :: "'hdr wire_lib \<Rightarrow> bytes option \<Rightarrow> bool" where
  "wire_stored_ok lib content \<longleftrightarrow> (\<forall>bs i. content = Some bs \<longrightarrow> wl_from_json lib bs = Some i \<longrightarrow> wire_ok lib i)"

definition wire_json_laws :: "'hdr wire_lib \<Rightarrow> bool" where
  "wire_json_laws lib \<longleftrightarrow> (\<forall>i bs. wl_to_json lib i = Some bs \<longrightarrow> wl_from_json lib bs = Some i)"

text \<open>The last checkpoint has the last height.\<close>

lemma wire_ok_last:
  assumes "wire_ok lib i" "wi_blocks i \<noteq> []"
  shows "unat (wc_height (last (wi_blocks i))) = unat (wi_start i) + length (wi_blocks i) - 1"
proof -
  have "unat (wc_height (last (wi_blocks i))) = last (map (\<lambda>cp. unat (wc_height cp)) (wi_blocks i))"
    using assms(2) by (simp add: last_map)
  also have "\<dots> = unat (wi_start i) + length (wi_blocks i) - 1"
    using assms by (simp add: wire_ok_def last_upt)
  finally show ?thesis .
qed

text \<open>Removing the last block and its entries.\<close>

lemma wire_ok_pop:
  assumes "wire_ok lib i" "wi_blocks i \<noteq> []"
  shows "wire_ok lib (i\<lparr>wi_entries := filter (\<lambda>e. en_height e < wc_height (last (wi_blocks i))) (wi_entries i),
    wi_blocks := butlast (wi_blocks i)\<rparr>)"
proof -
  have last: "unat (wc_height (last (wi_blocks i))) = unat (wi_start i) + length (wi_blocks i) - 1"
    by (rule wire_ok_last [OF assms])
  obtain k where k: "length (wi_blocks i) = Suc k" using assms(2) by (cases "wi_blocks i") auto
  have "map (\<lambda>cp. unat (wc_height cp)) (butlast (wi_blocks i)) = [unat (wi_start i)..<unat (wi_start i) + length (wi_blocks i) - 1]"
    using assms(1) by (simp add: wire_ok_def map_butlast k)
  moreover have "successively (wire_follows lib) (butlast (wi_blocks i))"
    using assms by (metis append_butlast_last_id successively_append_iff wire_ok_def)
  ultimately show ?thesis using assms last
    by (auto simp: wire_ok_def sorted_wrt_filter word_less_nat_alt k)
qed

subsection \<open>Applying a block\<close>

lemma verified_entry_fields:
  "verified_entry lib tx commit h p = Inr (Some e) \<Longrightarrow> en_height e = h \<and> en_position e = p"
  by (auto simp: verified_entry_def entry_from_verified_def entry_from_record_def split: if_splits)

lemma verified_entry_origin: "verified_entry lib tx commit h p = Inr (Some e) \<Longrightarrow> verified_origin lib e"
  using verified_entry_fields unfolding verified_origin_def by metis

lemma read_entry_result:
  fixes reader :: "('s, 'e, 'hdr) reader"
  assumes "read_entry lib reader h (n, tx) w = (Inr es, w')"
  shows "length es \<le> 1 \<and> (\<forall>e \<in> set es. en_height e = h \<and> unat (en_position e) = n \<and> verified_origin lib e)"
proof (cases "es = []")
  case False
  from assms False obtain candidate :: parsed_envelope where
    "ibind (wire_res (map_err WireProtocol (RecordKind_parse (pe_record candidate)))) (\<lambda>kind.
       if \<not> is_wire_kind kind then iret []
       else ibind (rd (rd_transaction reader (ti_txid (tx_input tx ! 0)))) (\<lambda>commit.
         ibind (wire_res (map_err (\<lambda>_. WireInteger) (try_from n))) (\<lambda>p.
         case verified_entry lib tx commit h p of
           Inr (Some entry) \<Rightarrow> iret [entry] | Inr None \<Rightarrow> iret [] | Inl cause \<Rightarrow> iret []))) w = (Inr es :: 'e sync_error + entry list, w')"
    by (auto simp: read_entry_def act_apps split: if_splits sum.split_asm)
  with False obtain kind w1 where
    "ibind (rd (rd_transaction reader (ti_txid (tx_input tx ! 0)))) (\<lambda>commit.
         ibind (wire_res (map_err (\<lambda>_. WireInteger) (try_from n))) (\<lambda>p.
         case verified_entry lib tx commit h p of
           Inr (Some entry) \<Rightarrow> iret [entry] | Inr None \<Rightarrow> iret [] | Inl cause \<Rightarrow> iret [])) w1 = (Inr es :: 'e sync_error + entry list, w')"
    unfolding ibind_eq_Inr [of "wire_res x" for x] by (auto simp: act_apps split: if_splits)
  then obtain commit w2 where
    "ibind (wire_res (map_err (\<lambda>_. WireInteger) (try_from n))) (\<lambda>p.
         case verified_entry lib tx commit h p of
           Inr (Some entry) \<Rightarrow> iret [entry] | Inr None \<Rightarrow> iret [] | Inl cause \<Rightarrow> iret []) w2 = (Inr es :: 'e sync_error + entry list, w')"
    unfolding ibind_eq_Inr [of "rd x" for x] by blast
  then obtain p w3 where p: "try_from n = Inr p" and
    "(case verified_entry lib tx commit h p of
           Inr (Some entry) \<Rightarrow> iret [entry] | Inr None \<Rightarrow> iret [] | Inl cause \<Rightarrow> iret []) w3 = (Inr es :: 'e sync_error + entry list, w')"
    unfolding ibind_eq_Inr [of "wire_res x" for x] by (auto simp: wire_res_def act_apps)
  then obtain e where e: "verified_entry lib tx commit h p = Inr (Some e)" "es = [e]"
    using False by (auto simp: act_apps split: sum.split_asm option.split_asm)
  with p verified_entry_fields [OF e(1)] verified_entry_origin [OF e(1)] show ?thesis by (simp add: try_from_eq_Inr)
qed simp

lemma read_each_result:
  "read_each lib reader h (enumerate n txs) w = (Inr es, w') \<Longrightarrow>
   sorted_wrt entry_before es \<and> (\<forall>e \<in> set es. en_height e = h \<and> n \<le> unat (en_position e) \<and> verified_origin lib e)"
proof (induction txs arbitrary: n es w)
  case (Cons tx txs)
  from Cons.prems obtain here w1 rest where *: "read_entry lib reader h (n, tx) w = (Inr here, w1)"
    "read_each lib reader h (enumerate (Suc n) txs) w1 = (Inr rest, w')" "es = here @ rest"
    by (auto simp: ibind_eq_Inr act_apps)
  from read_entry_result [OF *(1)] have here: "length here \<le> 1"
    "\<forall>e \<in> set here. en_height e = h \<and> unat (en_position e) = n \<and> verified_origin lib e" by auto
  from Cons.IH [OF *(2)] have rest: "sorted_wrt entry_before rest"
    "\<forall>e \<in> set rest. en_height e = h \<and> Suc n \<le> unat (en_position e) \<and> verified_origin lib e" by auto
  have "sorted_wrt entry_before here" using here(1) by (cases here) auto
  moreover have "entry_before a b" if "a \<in> set here" "b \<in> set rest" for a b
    using here(2) rest(2) that by (auto simp: entry_before_def word_less_nat_alt)
  ultimately show ?case using *(3) here rest by (auto simp: sorted_wrt_append Suc_le_eq)
qed (simp add: act_apps)

text \<open>A block whose height is the next one keeps the invariant.\<close>

lemma apply_block_ok:
  assumes "wire_apply_block lib reader i h pair w = (Inr i', w')" "wire_ok lib i"
    "unat h = unat (wi_start i) + length (wi_blocks i)"
  shows "wire_ok lib i' \<and> wi_start i' = wi_start i \<and> length (wi_blocks i') = Suc (length (wi_blocks i)) \<and>
    wi_genesis i' = wi_genesis i"
proof -
  obtain block hash where pair: "pair = (block, hash)" by fastforce
  from assms(1) obtain entries w1 where *: "wl_block_hash lib (fst block) = hash"
    "wi_blocks i = [] \<or> wl_hash_text lib (wl_prev lib (fst block)) = wc_hash (last (wi_blocks i))"
    "read_entries lib reader block h w1 = (Inr entries, w')"
    "i' = i\<lparr>wi_entries := wi_entries i @ entries, wi_blocks := wi_blocks i @ [\<lparr>wc_height = h, wc_hash = wl_hash_text lib hash\<rparr>]\<rparr>"
    by (auto simp: wire_apply_block_def pair ibind_eq_Inr act_apps split: if_splits)
  note entries = read_each_result [OF *(3) [unfolded read_entries_def]]
  have "wi_blocks i \<noteq> [] \<Longrightarrow> wire_follows lib (last (wi_blocks i)) \<lparr>wc_height = h, wc_hash = wl_hash_text lib hash\<rparr>"
    using *(1,2) by (auto simp: wire_follows_def)
  then have "successively (wire_follows lib) (wi_blocks i @ [\<lparr>wc_height = h, wc_hash = wl_hash_text lib hash\<rparr>])"
    using assms(2) by (auto simp: wire_ok_def successively_append_iff)
  moreover have "entry_before a b" if "a \<in> set (wi_entries i)" "b \<in> set entries" for a b
    using assms(2,3) entries that by (auto simp: wire_ok_def entry_before_def word_less_nat_alt)
  ultimately show ?thesis using assms(2,3) entries *(4)
    by (auto simp: wire_ok_def sorted_wrt_append word_le_nat_alt)
qed

lemma applied_ok:
  assumes "applied lib reader i hs i'" "wire_ok lib i"
    "\<forall>k < length hs. unat (hs ! k) = unat (wi_start i) + length (wi_blocks i) + k"
  shows "wire_ok lib i' \<and> wi_start i' = wi_start i \<and> length (wi_blocks i') = length (wi_blocks i) + length hs \<and>
    wi_genesis i' = wi_genesis i \<and> (hs = [] \<longrightarrow> i' = i)"
  using assms
proof (induction rule: applied.induct)
  case (more hs i1 h pair w i2 w')
  have "\<forall>k < length hs. unat (hs ! k) = unat (wi_start i) + length (wi_blocks i) + k"
    using more.prems(2) by (auto simp: nth_append dest: spec [of _ "_ :: nat"] less_SucI)
  with more.IH more.prems(1) have i1: "wire_ok lib i1" "wi_start i1 = wi_start i"
    "length (wi_blocks i1) = length (wi_blocks i) + length hs" "wi_genesis i1 = wi_genesis i" by auto
  have "unat h = unat (wi_start i1) + length (wi_blocks i1)"
    using more.prems(2) i1 by (auto dest: spec [of _ "length hs"])
  with apply_block_ok [OF more.hyps(3) i1(1)] i1 show ?case by simp
qed simp

lemma batch_heights_nth:
  assumes "k < length (batch_heights first tip max_blocks)"
  shows "unat (batch_heights first tip max_blocks ! k) = unat first + k"
proof -
  have "k < Suc (unat tip) - unat first" using assms by (simp add: batch_heights_def del: upt_Suc)
  then have "unat first + k < Suc (unat tip)" by linarith
  then have "unat first + k < 2 ^ LENGTH(64)" using unsigned_less [of tip, where 'a = nat] by simp
  then have "unat (word_of_nat (unat first + k) :: u64) = unat first + k" by (rule unat_of_nat_small)
  moreover have "[unat first..<Suc (unat tip)] ! k = unat first + k"
    using \<open>unat first + k < Suc (unat tip)\<close> by (rule nth_upt)
  ultimately show ?thesis using assms by (simp add: batch_heights_def del: upt_Suc of_nat_add)
qed

subsection \<open>The rest of the synchronisation\<close>

lemma keeps_rd: "(\<And>x. Q x) \<Longrightarrow> (\<And>e. Z (SyncSource e)) \<Longrightarrow> keeps (file_ok F) Z (rd f) Q"
  by (rule keepsI) (auto simp: rd_def file_ok_def map_err_def split: prod.splits sum.splits)

lemma keeps_wire: "(\<And>x. r = Inr x \<Longrightarrow> Q x) \<Longrightarrow> keeps F (\<lambda>_. True) (wire_res r) Q"
  unfolding wire_res_def by (rule keeps_lift) (cases r; simp)+

lemma wire_on_chain_keeps: "keeps (file_ok F) (\<lambda>_. True) (wire_on_chain lib reader tip cp) (\<lambda>_. True)"
  unfolding wire_on_chain_def by (intro keeps_if keeps_then keeps_rd keeps_ret) auto

lemma wire_rollback_loop_keeps:
  "wire_ok lib i \<Longrightarrow> n = length (wi_blocks i) \<Longrightarrow> unat removed + n < 2 ^ 64 \<Longrightarrow>
   keeps (file_ok F) (\<lambda>_. True) (wire_rollback_loop lib reader tip n i removed)
     (\<lambda>(i', k). wire_ok lib i' \<and> wi_start i' = wi_start i \<and> wi_genesis i' = wi_genesis i \<and>
        wi_blocks i' = take (length (wi_blocks i')) (wi_blocks i) \<and> removed \<le> k \<and> (k = removed \<longrightarrow> i' = i))"
proof (induction n arbitrary: i removed)
  case 0
  then show ?case by (auto intro!: keeps_ret)
next
  case (Suc n)
  have ne: "wi_blocks i \<noteq> []" using Suc.prems(2) by auto
  let ?i = "i\<lparr>wi_entries := filter (\<lambda>e. en_height e < wc_height (last (wi_blocks i))) (wi_entries i),
    wi_blocks := butlast (wi_blocks i)\<rparr>"
  have r: "unat (removed + 1) = unat removed + 1" using Suc.prems(3) by (simp add: unat_word_ariths)
  have ok: "wire_ok lib ?i" "n = length (wi_blocks ?i)" "unat (removed + 1) + n < 2 ^ 64"
    using wire_ok_pop [OF Suc.prems(1) ne] Suc.prems r by simp_all
  have "keeps (file_ok F) (\<lambda>_. True) (wire_rollback_loop lib reader tip n ?i (removed + 1))
     (\<lambda>(i', k). wire_ok lib i' \<and> wi_start i' = wi_start i \<and> wi_genesis i' = wi_genesis i \<and>
        wi_blocks i' = take (length (wi_blocks i')) (wi_blocks i) \<and> removed \<le> k \<and> (k = removed \<longrightarrow> i' = i))"
  proof (rule keeps_weaken [OF Suc.IH [OF ok]])
    fix x :: "wire_index \<times> u64"
    obtain i' k where x: "x = (i', k)" by fastforce
    assume "case x of (i', k) \<Rightarrow> wire_ok lib i' \<and> wi_start i' = wi_start ?i \<and> wi_genesis i' = wi_genesis ?i \<and>
        wi_blocks i' = take (length (wi_blocks i')) (wi_blocks ?i) \<and> removed + 1 \<le> k \<and> (k = removed + 1 \<longrightarrow> i' = ?i)"
    then have *: "wire_ok lib i'" "wi_start i' = wi_start i" "wi_genesis i' = wi_genesis i"
      "wi_blocks i' = take (length (wi_blocks i')) (butlast (wi_blocks i))" "unat removed < unat k"
      using r by (auto simp: x word_le_nat_alt)
    have "length (wi_blocks i') \<le> length (butlast (wi_blocks i))" using arg_cong [OF *(4), of length] by simp
    then have "take (length (wi_blocks i')) (butlast (wi_blocks i)) = take (length (wi_blocks i')) (wi_blocks i)"
      using Suc.prems(2) by (simp add: take_butlast)
    with * show "case x of (i', k) \<Rightarrow> wire_ok lib i' \<and> wi_start i' = wi_start i \<and> wi_genesis i' = wi_genesis i \<and>
        wi_blocks i' = take (length (wi_blocks i')) (wi_blocks i) \<and> removed \<le> k \<and> (k = removed \<longrightarrow> i' = i)"
      by (auto simp: x word_le_nat_alt)
  qed simp
  then show ?case unfolding wire_rollback_loop.simps Let_def
    by (intro keeps_then [OF wire_on_chain_keeps] keeps_if) (auto intro!: keeps_ret Suc.prems)
qed

lemma wire_persist_keeps:
  assumes "wire_json_laws lib" "wire_ok lib i"
  shows "keeps (file_ok (wire_stored_ok lib)) (\<lambda>_. True) (imap_err SyncWire (WireIndex_persist lib fs i)) (\<lambda>_. True)"
  unfolding WireIndex_persist_def
proof -
  let ?F = "file_ok (wire_stored_ok lib)"
  have written: "keeps ?F (\<lambda>_. True) (ibind (icheck (length bs \<le> WIRE_MAX_BYTES) (WireInvalid ''Wire index byte capacity''))
      (\<lambda>_. imap_err wire_of_io (write_replace fs bs))) (\<lambda>_. True)" if "wl_to_json lib i = Some bs" for bs
  proof -
    have "wire_stored_ok lib (Some bs)" using assms that by (auto simp: wire_stored_ok_def wire_json_laws_def)
    then show ?thesis by (intro keeps_then keeps_check keeps_imap_err write_replace_file) auto
  qed
  have encode: "keeps ?F (\<lambda>_. True) (ibind (ilift (ok_or WireJson (wl_to_json lib i))) (\<lambda>bs.
      ibind (icheck (length bs \<le> WIRE_MAX_BYTES) (WireInvalid ''Wire index byte capacity''))
      (\<lambda>_. imap_err wire_of_io (write_replace fs bs)))) (\<lambda>_. True)"
    by (rule keeps_bind [OF keeps_lift [where Q = "\<lambda>bs. wl_to_json lib i = Some bs"]])
      (auto simp: ok_or_def intro: written split: option.splits)
  show "keeps ?F (\<lambda>_. True) (imap_err SyncWire
     (ibind (icheck (length (wi_blocks i) \<le> 500000 \<and> length (wi_entries i) \<le> 50000) (WireInvalid ''Wire index capacity'')) (\<lambda>_.
      ibind (ilift (ok_or WireJson (wl_to_json lib i))) (\<lambda>bs.
      ibind (icheck (length bs \<le> WIRE_MAX_BYTES) (WireInvalid ''Wire index byte capacity'')) (\<lambda>_.
      imap_err wire_of_io (write_replace fs bs)))))) (\<lambda>_. True)"
    by (intro keeps_imap_err keeps_then [OF keeps_check] encode) auto
qed

definition wire_stored :: "'hdr wire_lib \<Rightarrow> wire_index \<Rightarrow> 's world \<Rightarrow> bool" where
  "wire_stored lib i w \<longleftrightarrow> (\<exists>bs. w_file w = Some bs \<and> wl_from_json lib bs = Some i)"

lemma wire_persist_written:
  "wire_json_laws lib \<Longrightarrow> imap_err SyncWire (WireIndex_persist lib fs i) w = (Inr u, w') \<Longrightarrow> wire_stored lib i w'"
  unfolding imap_err_eq WireIndex_persist_def wire_stored_def wire_json_laws_def
  by (auto simp: ibind_eq_Inr imap_err_eq act_apps ok_or_def dest!: write_replace_written split: option.splits if_splits)

text \<open>Opening the index.\<close>

lemma read_bounded_result:
  "read_bounded fs limit w = (Inr bs, w') \<Longrightarrow> w_file w = Some bs \<and> w_file w' = w_file w"
  by (auto simp: read_bounded_def Let_def dest!: read_into_content split: prod.splits option.splits if_splits)

lemma wire_load_result:
  "WireIndex_load lib fs w = (Inr i, w') \<Longrightarrow>
   wire_stored lib i w \<and> w_file w' = w_file w \<and> length (wi_blocks i) \<le> 500000"
  by (auto simp: WireIndex_load_def wire_stored_def ibind_eq_Inr imap_err_eq act_apps ok_or_def check_wire_index_def
      dest!: read_bounded_result split: option.splits if_splits)

lemma wire_opened_result:
  fixes reader :: "('s, 'e, 'hdr) reader"
  assumes "wire_opened lib reader fs start w = (Inr i, w')" "wire_stored_ok lib (w_file w)"
  shows "wire_ok lib i \<and> length (wi_blocks i) \<le> 500000 \<and> wi_start i = start \<and> w_file w' = w_file w \<and>
    (w_file w \<noteq> None \<longrightarrow> wire_stored lib i w')"
proof -
  from assms(1) obtain genesis w1 where "(rd (rd_genesis reader) :: ('s, 'e, bytes) wire) w = (Inr genesis, w1)"
    and opened: "(if w_file w1 \<noteq> None then imap_err SyncWire (WireIndex_load lib fs) w1
       else (Inr \<lparr>wi_format = WIRE_FORMAT, wi_genesis = wl_hash_text lib genesis, wi_start = start, wi_blocks = [], wi_entries = []\<rparr>, w1)) =
       (Inr i :: 'e sync_error + wire_index, w')" "wi_start i = start"
    by (auto simp: wire_opened_def ibind_eq_Inr Let_def act_apps split: if_splits)
  then have content: "w_file w1 = w_file w" by (auto simp: rd_def split: prod.splits)
  show ?thesis
  proof (cases "w_file w1 = None")
    case True
    with opened have "i = \<lparr>wi_format = WIRE_FORMAT, wi_genesis = wl_hash_text lib genesis, wi_start = start, wi_blocks = [],
      wi_entries = []\<rparr>" "w' = w1" by auto
    then show ?thesis using True content by (simp add: wire_ok_def)
  next
    case False
    with opened have "WireIndex_load lib fs w1 = (Inr i, w')" by (simp add: imap_err_eq)
    from wire_load_result [OF this] show ?thesis using assms(2) content opened(2)
      by (auto simp: wire_stored_def wire_stored_ok_def)
  qed
qed

lemma wire_opened_keeps:
  "keeps (file_ok (wire_stored_ok lib)) (\<lambda>_. True) (wire_opened lib reader fs start)
     (\<lambda>i. wire_ok lib i \<and> length (wi_blocks i) \<le> 500000)"
proof (rule keepsI)
  fix w i w' assume "file_ok (wire_stored_ok lib) w" "wire_opened lib reader fs start w = (Inr i, w')"
  then show "(wire_ok lib i \<and> length (wi_blocks i) \<le> 500000) \<and> file_ok (wire_stored_ok lib) w'"
    using wire_opened_result [of lib reader fs start w i w'] by (auto simp: file_ok_def)
next
  fix w e w' assume F: "file_ok (wire_stored_ok lib) w" and run: "wire_opened lib reader fs start w = (Inl e, w')"
  have "keeps (file_ok (wire_stored_ok lib)) (\<lambda>_. True) (imap_err SyncWire (WireIndex_load lib fs)) (\<lambda>_. True)"
    unfolding WireIndex_load_def
    by (intro keeps_imap_err keeps_bind [OF keeps_imap_err [where Q = "\<lambda>bs. wire_stored_ok lib (Some bs)"]] read_bounded_file
        keeps_then [OF keeps_lift] keeps_lift) auto
  then have load: "keeps (file_ok (wire_stored_ok lib)) (\<lambda>_. True) (\<lambda>w. if w_file w \<noteq> None then imap_err SyncWire (WireIndex_load lib fs) w
      else (Inr x, w)) (\<lambda>_. True)" for x
    by (rule keeps_branch) (simp add: keeps_def)
  have "keeps (file_ok (wire_stored_ok lib)) (\<lambda>_. True) (wire_opened lib reader fs start) (\<lambda>_. True)"
    unfolding wire_opened_def Let_def
    by (intro keeps_then [OF keeps_rd] keeps_then [OF load] keeps_then [OF keeps_check] keeps_ret) auto
  from keeps_Inl [OF this F run] show "True \<and> file_ok (wire_stored_ok lib) w'" .
qed

end
