(* ===== verification/Wire_Properties.thy ===== *)
theory Wire_Properties
  imports Wire_Sync Envelope_Codec
begin

section \<open>What a synchronisation of the Wire index guarantees\<close>

text \<open>
  Applying blocks in order does not depend on the schedule of the fetching threads, and a
  synchronisation leaves an index file whose entries all come from verified records of its blocks.
\<close>

subsection \<open>The file is only written by \<open>persist\<close>\<close>

lemma read_entry_keeps: "keeps (file_ok F) (\<lambda>_. True) (read_entry lib reader h e) (\<lambda>_. True)"
  unfolding read_entry_def
  by (auto split: prod.splits sum.splits option.splits intro!: keeps_ret keeps_then keeps_wire keeps_rd)

lemma read_each_keeps: "keeps (file_ok F) (\<lambda>_. True) (read_each lib reader h es) (\<lambda>_. True)"
  by (induction lib reader h es rule: read_each.induct) (auto intro!: keeps_ret keeps_then read_entry_keeps)

lemma apply_block_keeps: "keeps (file_ok F) (\<lambda>_. True) (wire_apply_block lib reader i h pair) (\<lambda>_. True)"
  unfolding wire_apply_block_def read_entries_def
  by (auto split: prod.splits intro!: keeps_ret keeps_then keeps_check read_each_keeps)

lemma keeps_file:
  assumes "keeps (file_ok (\<lambda>c. c = w_file w)) (\<lambda>_. True) m (\<lambda>_. True)" "m w = (r, w')"
  shows "w_file w' = w_file w"
proof (cases r)
  case (Inl e)
  with keeps_Inl [OF assms(1), of w e w'] assms(2) show ?thesis by (simp add: file_ok_def)
next
  case (Inr x)
  with keeps_Inr [OF assms(1), of w x w'] assms(2) show ?thesis by (simp add: file_ok_def)
qed

lemma apply_block_file: "wire_apply_block lib reader i h pair w = (r, w') \<Longrightarrow> w_file w' = w_file w"
  by (rule keeps_file [OF apply_block_keeps])

lemma drain_file: "w_file (ba_world (drain lib reader heights b)) = w_file (ba_world b)"
proof (induction lib reader heights b rule: drain.induct)
  case (1 lib reader heights b)
  show ?case
  proof (cases "bt_get (ba_waiting b) (ba_expected b)")
    case None
    then show ?thesis by (subst drain.simps) simp
  next
    case (Some pair)
    obtain r w where run: "wire_apply_block lib reader (ba_index b) (heights ! ba_expected b) pair (ba_world b) = (r, w)" by fastforce
    note same = apply_block_file [OF this]
    show ?thesis using "1.IH" [OF Some refl _ refl run [symmetric]] Some run same
      by (subst drain.simps) (auto simp: Let_def split: sum.splits)
  qed
qed

lemma batch_step_file: "w_file (ba_world (batch_step lib reader heights b e)) = w_file (ba_world b)"
  by (cases e) (auto simp: fetch_step_def collect_step_def drain_file split: worker.splits prod.splits list.splits sum.splits)

lemma run_on_file: "w_file (ba_world (run_on lib reader heights b)) = w_file (ba_world b)"
  by (induction lib reader heights b rule: run_on.induct) (subst run_on.simps, simp add: batch_step_file)

lemma stream_batch_file:
  assumes "stream_batch lib reader i heights schedule w = (r, i', w')"
  shows "w_file w' = w_file w"
proof -
  have "w_file (ba_world (foldl (batch_step lib reader heights) b schedule)) = w_file (ba_world b)" for b
    by (induction schedule arbitrary: b) (simp_all add: batch_step_file)
  then show ?thesis using assms by (auto simp: stream_batch_def run_batch_def run_on_file Let_def batch_start_def)
qed

text \<open>A batch of consecutive blocks keeps the invariant.\<close>

lemma stream_batch_ok:
  assumes "stream_batch lib reader i (batch_heights first tip max_blocks) schedule w = (r, i', w')" "wire_ok lib i"
    "unat first = unat (wi_start i) + length (wi_blocks i)"
  obtains n where "n \<le> length (batch_heights first tip max_blocks)" "wire_ok lib i'" "wi_start i' = wi_start i"
    "length (wi_blocks i') = length (wi_blocks i) + n" "n = 0 \<longrightarrow> i' = i"
    "r = Inr () \<longrightarrow> n = length (batch_heights first tip max_blocks)"
proof -
  from stream_batch_cases [OF assms(1)] obtain n where n: "n \<le> length (batch_heights first tip max_blocks)"
    "applied lib reader i (take n (batch_heights first tip max_blocks)) i'"
    "r = Inr () \<Longrightarrow> n = length (batch_heights first tip max_blocks)" by metis
  have "\<forall>k < length (take n (batch_heights first tip max_blocks)).
      unat (take n (batch_heights first tip max_blocks) ! k) = unat (wi_start i) + length (wi_blocks i) + k"
    using batch_heights_nth assms(3) by auto
  note ok = applied_ok [OF n(2) assms(2) this]
  have "length (take n (batch_heights first tip max_blocks)) = n" using n(1) by simp
  with ok n show thesis by (intro that [of n]) auto
qed

subsection \<open>A whole synchronisation\<close>

lemma wire_rollback_keeps:
  assumes "wire_ok lib i" "length (wi_blocks i) \<le> 500000"
  shows "keeps (file_ok F) (\<lambda>_. True) (wire_rollback lib reader i tip)
    (\<lambda>(i', k). wire_ok lib i' \<and> wi_start i' = wi_start i \<and> length (wi_blocks i') \<le> 500000 \<and> (k = 0 \<longrightarrow> i' = i))"
  unfolding wire_rollback_def
proof (rule keeps_weaken [OF wire_rollback_loop_keeps [OF assms(1) refl]])
  fix x :: "wire_index \<times> u64"
  obtain i' k where x: "x = (i', k)" by fastforce
  assume "case x of (i', k) \<Rightarrow> wire_ok lib i' \<and> wi_start i' = wi_start i \<and> wi_genesis i' = wi_genesis i \<and>
      wi_blocks i' = take (length (wi_blocks i')) (wi_blocks i) \<and> 0 \<le> k \<and> (k = 0 \<longrightarrow> i' = i)"
  then have *: "wire_ok lib i'" "wi_start i' = wi_start i" "wi_blocks i' = take (length (wi_blocks i')) (wi_blocks i)"
    "k = 0 \<longrightarrow> i' = i" by (auto simp: x)
  have "length (wi_blocks i') \<le> length (wi_blocks i)" using arg_cong [OF *(3), of length] by simp
  with * assms(2) show "case x of (i', k) \<Rightarrow> wire_ok lib i' \<and> wi_start i' = wi_start i \<and>
      length (wi_blocks i') \<le> 500000 \<and> (k = 0 \<longrightarrow> i' = i)" by (simp add: x)
qed (use assms(2) in simp_all)

lemma confirm_tail_keeps: "keeps (file_ok F) (\<lambda>_. True) (confirm_tail lib reader i) (\<lambda>_. True)"
  unfolding confirm_tail_def by (intro keeps_if keeps_ret keeps_then keeps_rd keeps_check) auto

lemma next_height_value:
  "next_height i = Inr first \<Longrightarrow> unat first = unat (wi_start i) + length (wi_blocks i)"
  by (auto simp: next_height_def try_from_eq_Inr checked_add_Some ok_or_def split: option.splits)

lemma batch_sync_keeps:
  assumes "wire_ok lib i" "next_height i = Inr first"
  shows "keeps (file_ok F) (\<lambda>_. True) (batch_sync lib reader i (batch_heights first tip max_blocks) schedule)
    (\<lambda>(streamed, i'). wire_ok lib i')"
proof (rule keepsI)
  fix w x w' assume F: "file_ok F w" and run: "batch_sync lib reader i (batch_heights first tip max_blocks) schedule w = (Inr x, w')"
  obtain streamed i' where x: "x = (streamed, i')" by fastforce
  with run have *: "stream_batch lib reader i (batch_heights first tip max_blocks) schedule w = (streamed, i', w')"
    by (auto simp: batch_sync_def split: prod.splits)
  from stream_batch_ok [OF * assms(1) next_height_value [OF assms(2)]] have "wire_ok lib i'" by metis
  with stream_batch_file [OF *] F show "(case x of (streamed, i') \<Rightarrow> wire_ok lib i') \<and> file_ok F w'" by (simp add: x file_ok_def)
qed (auto simp: batch_sync_def split: prod.splits)

lemma finish_sync_keeps:
  assumes "wire_json_laws lib" "wire_ok lib i"
  shows "keeps (file_ok (wire_stored_ok lib)) (\<lambda>_. True) (finish_sync lib reader fs tip rolled_back first streamed i) (\<lambda>_. True)"
  unfolding finish_sync_def Let_def
  by (intro keeps_then [OF keeps_wire] keeps_then [OF keeps_if] keeps_then [OF confirm_tail_keeps] wire_persist_keeps [OF assms]
      keeps_then [OF keeps_lift] keeps_ret) auto

lemma wire_sync_keeps:
  assumes "wire_json_laws lib"
  shows "keeps (file_ok (wire_stored_ok lib)) (\<lambda>_. True) (wire_sync lib reader fs start max_blocks schedule) (\<lambda>_. True)"
  unfolding wire_sync_def
proof (intro keeps_then [OF keeps_check] keeps_bind [OF wire_opened_keeps] keeps_then [OF keeps_rd])
  let ?F = "file_ok (wire_stored_ok lib)"
  fix i0 tip assume i0: "wire_ok lib i0 \<and> length (wi_blocks i0) \<le> 500000"
  show "keeps ?F (\<lambda>_. True) (ibind (wire_rollback lib reader i0 tip) (\<lambda>(i1, rolled_back).
     ibind (\<lambda>w. if 0 < rolled_back \<or> w_file w = None then imap_err SyncWire (WireIndex_persist lib fs i1) w
                else (Inr (), w)) (\<lambda>_.
     ibind (wire_res (next_height i1)) (\<lambda>first.
     ibind (batch_sync lib reader i1 (batch_heights first tip max_blocks) schedule) (\<lambda>(streamed, i2).
     finish_sync lib reader fs tip rolled_back first streamed i2))))) (\<lambda>_. True)"
  proof (rule keeps_bind [OF wire_rollback_keeps])
    fix x :: "wire_index \<times> u64"
    assume "case x of (i1, rolled_back) \<Rightarrow> wire_ok lib i1 \<and> wi_start i1 = wi_start i0 \<and>
      length (wi_blocks i1) \<le> 500000 \<and> (rolled_back = 0 \<longrightarrow> i1 = i0)"
    then obtain i1 rolled_back where x: "x = (i1, rolled_back)" and ok: "wire_ok lib i1" by (cases x) auto
    have persist: "keeps ?F (\<lambda>_. True) (\<lambda>w. if 0 < rolled_back \<or> w_file w = None then imap_err SyncWire (WireIndex_persist lib fs i1) w
                else (Inr (), w)) (\<lambda>_. True)"
      by (rule keeps_branch [OF wire_persist_keeps [OF assms ok]]) (simp add: keeps_def)
    show "keeps ?F (\<lambda>_. True) (case x of (i1, rolled_back) \<Rightarrow>
       ibind (\<lambda>w. if 0 < rolled_back \<or> w_file w = None then imap_err SyncWire (WireIndex_persist lib fs i1) w
                else (Inr (), w)) (\<lambda>_.
       ibind (wire_res (next_height i1)) (\<lambda>first.
       ibind (batch_sync lib reader i1 (batch_heights first tip max_blocks) schedule) (\<lambda>(streamed, i2).
       finish_sync lib reader fs tip rolled_back first streamed i2)))) (\<lambda>_. True)"
      unfolding x prod.case
      by (intro keeps_then [OF persist] keeps_bind [OF keeps_wire [where Q = "\<lambda>first. next_height i1 = Inr first"]]
          keeps_bind [OF batch_sync_keeps [OF ok]]) (auto intro: finish_sync_keeps [OF assms])
  qed (use i0 in auto)
qed auto

lemma finish_sync_result:
  fixes reader :: "('s, 'e, 'hdr) reader"
  assumes "finish_sync lib reader fs tip rolled_back first streamed i w = (Inr (rp, i'), w')"
    "unat first = unat (wi_start i) + m" "length (wi_blocks i) = m + n" "wire_json_laws lib"
  shows "i' = i \<and> streamed = Inr () \<and> unat (sp_scanned rp) = n \<and> sp_tip rp = tip \<and> sp_records rp = length (wi_entries i) \<and>
    (sp_complete_to_tip rp \<longleftrightarrow> wi_blocks i \<noteq> [] \<and> unat (wi_start i) + length (wi_blocks i) = Suc (unat tip)) \<and>
    (if n = 0 then w_file w' = w_file w else wire_stored lib i w')"
proof -
  from assms(1) obtain count w1 w2 complete where *:
    "try_from (length (wi_blocks i)) = Inr count"
    "(if 0 < count - (first - wi_start i)
      then ibind (confirm_tail lib reader i) (\<lambda>_. imap_err SyncWire (WireIndex_persist lib fs i)) else iret ()) w1 = (Inr (), w')"
    "w1 = w" "streamed = Inr ()" "reached_tip i first (count - (first - wi_start i)) tip = Inr complete" "i' = i"
    "rp = \<lparr>sp_scanned = count - (first - wi_start i), sp_rolled_back = rolled_back, sp_records = length (wi_entries i),
       sp_tip = tip, sp_complete_to_tip = complete\<rparr>"
    by (auto simp: finish_sync_def ibind_eq_Inr Let_def wire_res_def act_apps)
  have count: "unat count = m + n" using *(1) assms(3) by (simp add: try_from_eq_Inr)
  have le: "wi_start i \<le> first" using assms(2) by (simp add: word_le_nat_alt)
  have m: "unat (first - wi_start i) = m" using le assms(2) by (simp add: unat_sub)
  then have "first - wi_start i \<le> count" using count by (simp add: word_le_nat_alt)
  then have scanned: "unat (count - (first - wi_start i)) = n" using m count by (simp add: unat_sub)
  have "complete \<longleftrightarrow> wi_blocks i \<noteq> [] \<and> unat (wi_start i) + length (wi_blocks i) = Suc (unat tip)"
  proof (cases "wi_blocks i = []")
    case False
    with *(5) obtain a b where "checked_add first (count - (first - wi_start i)) = Some a" "checked_add tip 1 = Some b"
      "complete \<longleftrightarrow> a = b" by (auto simp: reached_tip_def ok_or_def split: option.splits)
    then have "unat a = unat first + n" "unat b = unat tip + 1" "complete \<longleftrightarrow> unat a = unat b"
      using scanned by (simp_all add: checked_add_Some word_unat_eq_iff)
    with assms(2,3) False show ?thesis by auto
  qed (use *(5) in \<open>simp add: reached_tip_def\<close>)
  moreover have "if n = 0 then w_file w' = w_file w else wire_stored lib i w'"
  proof (cases "n = 0")
    case True
    then have "\<not> 0 < count - (first - wi_start i)" using scanned by (simp add: word_less_nat_alt)
    then show ?thesis using *(2,3) True by (simp add: act_apps)
  next
    case False
    then have "0 < count - (first - wi_start i)" using scanned by (simp add: word_less_nat_alt)
    with *(2) obtain w2 where "(imap_err SyncWire (WireIndex_persist lib fs i) :: ('s, 'e, unit) wire) w2 = (Inr (), w')"
      by (auto simp: ibind_eq_Inr)
    from wire_persist_written [OF assms(4) this] False show ?thesis by simp
  qed
  ultimately show ?thesis using * scanned by simp
qed

lemma icheck_eq: "icheck c e w = (Inr u, w') \<longleftrightarrow> c \<and> w' = w"
  by (simp add: act_apps) blast

lemma wire_sync_result:
  fixes reader :: "('s, 'e, 'hdr) reader"
  assumes "wire_json_laws lib" "wire_stored_ok lib (w_file w)"
    "wire_sync lib reader fs start max_blocks schedule w = (Inr (rp, i), w')"
  shows "wire_stored lib i w' \<and> wire_ok lib i \<and> wi_start i = start \<and> sp_records rp = length (wi_entries i) \<and>
    sp_scanned rp \<le> max_blocks \<and>
    (sp_complete_to_tip rp \<longleftrightarrow> wi_blocks i \<noteq> [] \<and> unat start + length (wi_blocks i) = Suc (unat (sp_tip rp)))"
proof -
  from assms(3) obtain i0 w1 tip w2 i1 rolled_back w3 w4 first streamed i2 w5 where *:
    "wire_opened lib reader fs start w = (Inr i0, w1)"
    "(rd (rd_tip_height reader) :: ('s, 'e, u64) wire) w1 = (Inr tip, w2)"
    "wire_rollback lib reader i0 tip w2 = (Inr (i1, rolled_back), w3)"
    "(if 0 < rolled_back \<or> w_file w3 = None then imap_err SyncWire (WireIndex_persist lib fs i1) w3 else (Inr (), w3)) =
       (Inr () :: 'e sync_error + unit, w4)"
    "next_height i1 = Inr first"
    "batch_sync lib reader i1 (batch_heights first tip max_blocks) schedule w4 = (Inr (streamed, i2), w5)"
    "finish_sync lib reader fs tip rolled_back first streamed i2 w5 = (Inr (rp, i), w')"
    unfolding wire_sync_def wire_res_def ibind_eq_Inr icheck_eq split_paired_Ex prod.case ilift_app
    by (elim exE conjE) simp
  note i0 = wire_opened_result [OF *(1) assms(2)]
  have w2: "w_file w2 = w_file w1" using *(2) by (auto simp: rd_def split: prod.splits)
  have same: "file_ok (\<lambda>c. c = w_file w2) w2" by (simp add: file_ok_def)
  have "wire_ok lib i0" "length (wi_blocks i0) \<le> 500000" using i0 by simp_all
  from keeps_Inr [OF wire_rollback_keeps [OF this] same *(3)]
  have i1: "wire_ok lib i1" "wi_start i1 = start" "rolled_back = 0 \<longrightarrow> i1 = i0" "w_file w3 = w_file w2"
    using i0 by (auto simp: file_ok_def)
  have w4: "wire_stored lib i1 w4"
  proof (cases "0 < rolled_back \<or> w_file w3 = None")
    case True
    with *(4) have "(imap_err SyncWire (WireIndex_persist lib fs i1) :: ('s, 'e, unit) wire) w3 = (Inr (), w4)" by simp
    then show ?thesis by (rule wire_persist_written [OF assms(1)])
  next
    case False
    with *(4) i1 i0 w2 show ?thesis by (auto simp: wire_stored_def word_gt_0)
  qed
  have first: "unat first = unat (wi_start i1) + length (wi_blocks i1)" by (rule next_height_value) fact
  have run: "stream_batch lib reader i1 (batch_heights first tip max_blocks) schedule w4 = (streamed, i2, w5)"
    using *(6) by (auto simp: batch_sync_def split: prod.splits)
  from stream_batch_ok [OF run i1(1) first] obtain n where n: "n \<le> length (batch_heights first tip max_blocks)"
    "wire_ok lib i2" "wi_start i2 = wi_start i1" "length (wi_blocks i2) = length (wi_blocks i1) + n" "n = 0 \<longrightarrow> i2 = i1"
    by metis
  have "unat first = unat (wi_start i2) + length (wi_blocks i1)" using first n(3) by simp
  note fin = finish_sync_result [OF *(7) this n(4) assms(1)]
  have "n \<le> unat max_blocks" using n(1) by (simp add: batch_heights_def del: upt_Suc)
  moreover have "wire_stored lib i w'"
    using fin n(5) w4 stream_batch_file [OF run] by (cases "n = 0") (auto simp: wire_stored_def)
  ultimately show ?thesis using fin n(2,3) i1(2) by (auto simp: word_le_nat_alt)
qed

text \<open>C21: Whatever the reader and the operating system answer (where \<open>Path::exists\<close> tells whether the index file is
  there), whatever the schedule of the fetching threads and
  wherever the synchronisation stops, the Wire index file stays consistent: contiguous linked checkpoints,
  entries in chain order within the blocks of the index, each from a record whose author proof verified. When
  it returns, the file holds the returned index, at most \<open>max_blocks\<close> blocks were scanned, and the report is
  complete exactly when the index is non-empty and its last block stands at the tip.\<close>

theorem wire_sync_leaves_consistent_index:
  assumes "wire_json_laws lib" "wire_stored_ok lib (w_file w)"
  shows "case wire_sync lib reader fs start max_blocks schedule w of (result, w') \<Rightarrow> wire_stored_ok lib (w_file w') \<and>
    (case result of Inl e \<Rightarrow> True
     | Inr (rp, i) \<Rightarrow> (\<exists>bs. w_file w' = Some bs \<and> wl_from_json lib bs = Some i) \<and> wire_ok lib i \<and> wi_start i = start \<and>
         sp_records rp = length (wi_entries i) \<and> sp_scanned rp \<le> max_blocks \<and>
         (sp_complete_to_tip rp \<longleftrightarrow> wi_blocks i \<noteq> [] \<and> unat start + length (wi_blocks i) = Suc (unat (sp_tip rp))))"
proof -
  obtain result w' where run: "wire_sync lib reader fs start max_blocks schedule w = (result, w')" by fastforce
  have F: "file_ok (wire_stored_ok lib) w" using assms(2) by (simp add: file_ok_def)
  note keeps = wire_sync_keeps [OF assms(1), of reader fs start max_blocks schedule]
  show ?thesis
  proof (cases result)
    case (Inl e)
    with keeps_Inl [OF keeps F] run show ?thesis by (auto simp: file_ok_def)
  next
    case (Inr x)
    obtain rp i where x: "x = (rp, i)" by fastforce
    with Inr run have "wire_sync lib reader fs start max_blocks schedule w = (Inr (rp, i), w')" by simp
    from wire_sync_result [OF assms this] keeps_Inr [OF keeps F this] run show ?thesis
      by (simp add: Inr x wire_stored_def file_ok_def)
  qed
qed

subsection \<open>The schedule does not matter\<close>

definition stateless :: "('s, 'e, 'hdr) reader \<Rightarrow> bool" where
  "stateless reader \<longleftrightarrow> (\<forall>h s s'. fst (rd_block reader h s) = fst (rd_block reader h s')) \<and>
     (\<forall>t s s'. fst (rd_transaction reader t s) = fst (rd_transaction reader t s'))"

definition same_result :: "('w, 'e, 'a) act \<Rightarrow> bool" where
  "same_result m \<longleftrightarrow> (\<forall>w w'. fst (m w) = fst (m w'))"

lemma same_result_bind: "same_result m \<Longrightarrow> (\<And>x. same_result (k x)) \<Longrightarrow> same_result (ibind m k)"
  unfolding same_result_def ibind_def by (auto split: prod.splits sum.splits) (metis fst_conv sum.sel sum.distinct(1))+

lemma same_result_basic: "same_result (iret x)" "same_result (ithrow e)" "same_result (ilift r)" "same_result (icheck c e)"
  by (simp_all add: same_result_def act_apps)

lemma same_result_rd:
  assumes "stateless reader"
  shows "same_result (rd (rd_transaction reader t))"
proof -
  have "fst (rd_transaction reader t s) = fst (rd_transaction reader t s')" for s s'
    using assms by (simp add: stateless_def)
  then show ?thesis unfolding same_result_def rd_def by (simp add: case_prod_unfold) metis
qed

lemma apply_block_same_result:
  assumes "stateless reader"
  shows "same_result (wire_apply_block lib reader i h pair)"
proof -
  have entry: "same_result (read_entry lib reader h e)" for e
    unfolding read_entry_def wire_res_def
    by (auto split: prod.splits sum.splits option.splits intro!: same_result_bind same_result_basic same_result_rd [OF assms])
  have "same_result (read_each lib reader h es)" for es
    by (induction es) (auto intro!: same_result_bind same_result_basic entry)
  then show ?thesis
    unfolding wire_apply_block_def read_entries_def
    by (auto split: prod.splits intro!: same_result_bind same_result_basic)
qed

text \<open>The reference: one thread that fetches and applies block after block.\<close>

fun apply_in_order ::
  "'hdr wire_lib \<Rightarrow> ('s, 'e, 'hdr) reader \<Rightarrow> 's world \<Rightarrow> wire_index \<Rightarrow> u64 list \<Rightarrow> ('e sync_error + unit) \<times> wire_index" where
  "apply_in_order lib reader w i [] = (Inr (), i)"
| "apply_in_order lib reader w i (h # hs) =
     (case fst (rd_block reader h (w_state w)) of
        Inl e \<Rightarrow> (Inl (SyncSource e), i)
      | Inr pair \<Rightarrow>
          (case fst (wire_apply_block lib reader i h pair w) of
             Inl e \<Rightarrow> (Inl e, i)
           | Inr i' \<Rightarrow> apply_in_order lib reader w i' hs))"

lemma fetched_stateless: "stateless reader \<Longrightarrow> fetched reader h a \<Longrightarrow> fst (rd_block reader h s) = a"
  unfolding fetched_def stateless_def by (metis fst_conv)

lemma apply_block_stateless:
  "stateless reader \<Longrightarrow> wire_apply_block lib reader i h pair w' = (r, w'') \<Longrightarrow> fst (wire_apply_block lib reader i h pair w) = r"
  using apply_block_same_result unfolding same_result_def by (metis fst_conv)

lemma applied_in_order:
  "applied lib reader i hs i' \<Longrightarrow> stateless reader \<Longrightarrow>
   apply_in_order lib reader w i (hs @ rest) = apply_in_order lib reader w i' rest"
proof (induction arbitrary: rest rule: applied.induct)
  case (more hs i1 h pair w1 i2 w2)
  have "fst (rd_block reader h (w_state w)) = Inr pair" by (rule fetched_stateless) fact+
  moreover have "fst (wire_apply_block lib reader i1 h pair w) = Inr i2" by (rule apply_block_stateless) fact+
  ultimately show ?case using more.IH [OF more.prems, of "h # rest"] by simp
qed simp

lemma batch_in_order:
  assumes "stateless reader" "\<forall>h \<in> set heights. \<exists>pair. fetched reader h (Inr pair)"
  shows "fst (stream_batch lib reader i heights schedule w) = fst (apply_in_order lib reader w i heights) \<and>
    fst (snd (stream_batch lib reader i heights schedule w)) = snd (apply_in_order lib reader w i heights)"
proof -
  obtain r i' w' where run: "stream_batch lib reader i heights schedule w = (r, i', w')" using prod_cases3 by blast
  from stream_batch_cases [OF run] obtain n where n: "n \<le> length heights" "applied lib reader i (take n heights) i'"
    "r = Inr () \<Longrightarrow> n = length heights" "\<And>e. r = Inl e \<Longrightarrow> refused lib reader heights n i' e" by metis
  have "apply_in_order lib reader w i (take n heights @ drop n heights) = apply_in_order lib reader w i' (drop n heights)"
    by (rule applied_in_order [OF n(2) assms(1)])
  then have seq: "apply_in_order lib reader w i heights = apply_in_order lib reader w i' (drop n heights)" by simp
  have "apply_in_order lib reader w i' (drop n heights) = (r, i')"
  proof (cases r)
    case (Inr u)
    then show ?thesis using n(3) by simp
  next
    case (Inl e)
    have "\<not> fetched reader (heights ! p) (Inl cause)" if "p < length heights" for p cause
      using assms(2) nth_mem [OF that] fetched_stateless [OF assms(1)] by (metis sum.distinct(1))
    with n(4) [OF Inl] obtain pair w1 w2 where "n < length heights" "fetched reader (heights ! n) (Inr pair)"
      "wire_apply_block lib reader i' (heights ! n) pair w1 = (Inl e, w2)" unfolding refused_def by blast
    then show ?thesis using Inl fetched_stateless [OF assms(1)] apply_block_stateless [OF assms(1)]
      by (simp add: Cons_nth_drop_Suc [symmetric])
  qed
  then show ?thesis by (simp add: run seq)
qed

text \<open>A sequential run that succeeds has fetched every block.\<close>

lemma in_order_fetched:
  "stateless reader \<Longrightarrow> fst (apply_in_order lib reader w i heights) = Inr () \<Longrightarrow> \<forall>h \<in> set heights. \<exists>pair. fetched reader h (Inr pair)"
proof (induction heights arbitrary: i)
  case (Cons h hs)
  obtain a s where a: "rd_block reader h (w_state w) = (a, s)" by (metis surj_pair)
  from Cons.prems(2) obtain pair i' where "a = Inr pair" "fst (apply_in_order lib reader w i' hs) = Inr ()"
    using a by (auto split: sum.splits)
  moreover have "fetched reader h a" unfolding fetched_def using a by blast
  ultimately have "\<exists>pair. fetched reader h (Inr pair)" by blast
  with Cons.IH [OF Cons.prems(1) \<open>fst (apply_in_order lib reader w i' hs) = Inr ()\<close>] show ?case by simp
qed simp

subsection \<open>A small chain, for the witnesses\<close>

definition ex_wire_hash :: "u64 \<Rightarrow> bytes" where
  "ex_wire_hash h = to_le_bytes h"

definition ex_wire_index :: "u64 \<Rightarrow> wire_index" where
  "ex_wire_index tip = \<lparr>wi_format = WIRE_FORMAT, wi_genesis = ex_wire_hash 0, wi_start = 50,
     wi_blocks = (if tip = 50 then [\<lparr>wc_height = 50, wc_hash = ex_wire_hash 50\<rparr>] else []), wi_entries = []\<rparr>"

definition ex_wire_lib :: "(bytes \<times> bytes) wire_lib" where
  "ex_wire_lib = \<lparr>wl_envelope = ex_envelope_lib, wl_block_hash = fst, wl_prev = snd, wl_hash_text = (\<lambda>h. h),
     wl_author_text = (\<lambda>a. a), wl_parse_hash = Some, wl_parse_author = Some, wl_hex_encode = (\<lambda>b. b), wl_hex_decode = Some,
     wl_to_json = (\<lambda>i. if i = ex_wire_index 50 then Some [1] else None),
     wl_from_json = (\<lambda>b. if b = [1] then Some (ex_wire_index 50) else None)\<rparr>"

definition ex_wire_reader :: "(unit, unit, bytes \<times> bytes) reader" where
  "ex_wire_reader = \<lparr>rd_genesis = iret (ex_wire_hash 0), rd_tip_height = iret 50, rd_block_hash = (\<lambda>h. iret (ex_wire_hash h)),
     rd_block = (\<lambda>h. iret (((ex_wire_hash h, ex_wire_hash (h - 1)), []), ex_wire_hash h)),
     rd_transaction = (\<lambda>t. iret ex_commit)\<rparr>"

definition ex_wire_files :: "unit file_system" where
  "ex_wire_files = \<lparr>fs_open = (\<lambda>s. (True, s)), fs_read = (\<lambda>s. (True, s)), fs_write = (\<lambda>s bs. (None, s))\<rparr>"

definition ex_wire_world :: "unit world" where
  "ex_wire_world = \<lparr>w_state = (), w_file = Some [1]\<rparr>"

lemma ex_wire_stateless: "stateless ex_wire_reader"
  by (simp add: stateless_def)

lemma ex_wire_fetched: "fetched ex_wire_reader h (Inr (((ex_wire_hash h, ex_wire_hash (h - 1)), []), ex_wire_hash h))"
  by (simp add: fetched_def ex_wire_reader_def act_apps)

lemma ex_wire_apply:
  "wi_blocks i = [] \<or> wc_hash (last (wi_blocks i)) = ex_wire_hash (h - 1) \<Longrightarrow>
   wire_apply_block ex_wire_lib ex_wire_reader i h (((ex_wire_hash h, ex_wire_hash (h - 1)), []), ex_wire_hash h) w =
     (Inr (i\<lparr>wi_blocks := wi_blocks i @ [\<lparr>wc_height = h, wc_hash = ex_wire_hash h\<rparr>]\<rparr>), w)"
  by (auto simp: wire_apply_block_def ex_wire_lib_def act_apps ibind_app read_entries_def)

text \<open>Two blocks by one thread.\<close>

lemma ex_wire_in_order:
  "apply_in_order ex_wire_lib ex_wire_reader ex_wire_world (ex_wire_index 49) [50, 51] =
     (Inr (), (ex_wire_index 49)\<lparr>wi_blocks := [\<lparr>wc_height = 50, wc_hash = ex_wire_hash 50\<rparr>, \<lparr>wc_height = 51, wc_hash = ex_wire_hash 51\<rparr>]\<rparr>)"
proof -
  have block: "fst (rd_block ex_wire_reader h s) = Inr (((ex_wire_hash h, ex_wire_hash (h - 1)), []), ex_wire_hash h)" for h s
    by (simp add: ex_wire_reader_def act_apps)
  have "wi_blocks (ex_wire_index 49) = []" by (simp add: ex_wire_index_def)
  moreover note ex_wire_apply [of _ 50, simplified] ex_wire_apply [of _ 51, simplified]
  ultimately show ?thesis by (simp add: block)
qed

text \<open>A schedule where the second block arrives first.\<close>

definition ex_schedule :: "batch_event list" where
  "ex_schedule = [Worker 0, Worker 0, Worker 1, Worker 1, Worker 1, Worker 1, Worker 1, Collect, Worker 0, Collect]"

text \<open>
  C22: Fetching with several threads is equivalent to one thread that works block after block, as far as
  that can be. Let the answers of the reader not change during the batch. Then, for every schedule of the
  threads, the batch succeeds if and only if the sequential reference does, and the index after the batch
  is the one the reference has after some number of blocks, after all of them if the batch succeeds. When
  moreover every block of the batch can be fetched, the result and the index are those of the reference
  also when a block is refused. (A failed fetch ends the batch as soon as a thread reports it, so how many
  of the blocks before it have been applied depends on the schedule.)
\<close>

theorem batch_equals_sequential:
  assumes "stateless reader"
  shows "(fst (stream_batch lib reader i heights schedule w) = Inr () \<longleftrightarrow> fst (apply_in_order lib reader w i heights) = Inr ()) \<and>
    (\<exists>n \<le> length heights. apply_in_order lib reader w i (take n heights) = (Inr (), fst (snd (stream_batch lib reader i heights schedule w))) \<and>
       (fst (stream_batch lib reader i heights schedule w) = Inr () \<longrightarrow> n = length heights)) \<and>
    ((\<forall>h \<in> set heights. \<exists>pair. fetched reader h (Inr pair)) \<longrightarrow>
       fst (stream_batch lib reader i heights schedule w) = fst (apply_in_order lib reader w i heights) \<and>
       fst (snd (stream_batch lib reader i heights schedule w)) = snd (apply_in_order lib reader w i heights))"
proof -
  obtain r i' w' where run: "stream_batch lib reader i heights schedule w = (r, i', w')" using prod_cases3 by blast
  from stream_batch_cases [OF run] obtain n where n: "n \<le> length heights" "applied lib reader i (take n heights) i'"
    "r = Inr () \<Longrightarrow> n = length heights" by metis
  have seq: "apply_in_order lib reader w i (take n heights) = (Inr (), i')"
    using applied_in_order [OF n(2) assms, of w "[]"] by simp
  have all: "fst (stream_batch lib reader i heights schedule w) = fst (apply_in_order lib reader w i heights) \<and>
       fst (snd (stream_batch lib reader i heights schedule w)) = snd (apply_in_order lib reader w i heights)"
    if "\<forall>h \<in> set heights. \<exists>pair. fetched reader h (Inr pair)"
    by (rule batch_in_order [OF assms that])
  have "r = Inr ()" if ok: "fst (apply_in_order lib reader w i heights) = Inr ()"
    using all [OF in_order_fetched [OF assms ok]] ok unfolding run by simp
  moreover have "fst (apply_in_order lib reader w i heights) = Inr ()" if "r = Inr ()"
    using seq n(3) [OF that] by simp
  ultimately have "fst (stream_batch lib reader i heights schedule w) = Inr () \<longleftrightarrow> fst (apply_in_order lib reader w i heights) = Inr ()"
    unfolding run fst_conv by blast
  moreover have "\<exists>n \<le> length heights. apply_in_order lib reader w i (take n heights) =
        (Inr (), fst (snd (stream_batch lib reader i heights schedule w))) \<and>
       (fst (stream_batch lib reader i heights schedule w) = Inr () \<longrightarrow> n = length heights)"
    unfolding run fst_conv snd_conv using n(1,3) seq by blast
  ultimately show ?thesis using all by blast
qed

theorem batch_equals_sequential_witness:
  "fst (stream_batch ex_wire_lib ex_wire_reader (ex_wire_index 49) [50, 51] ex_schedule ex_wire_world) = Inr () \<and>
   map wc_height (wi_blocks (fst (snd (stream_batch ex_wire_lib ex_wire_reader (ex_wire_index 49) [50, 51] ex_schedule ex_wire_world)))) =
     [50, 51]"
proof -
  have "\<forall>h \<in> set [50, 51]. \<exists>pair. fetched ex_wire_reader h (Inr pair)" using ex_wire_fetched by blast
  with batch_equals_sequential [OF ex_wire_stateless, of ex_wire_lib "ex_wire_index 49" "[50, 51]" ex_schedule ex_wire_world] have
    "fst (stream_batch ex_wire_lib ex_wire_reader (ex_wire_index 49) [50, 51] ex_schedule ex_wire_world) =
       fst (apply_in_order ex_wire_lib ex_wire_reader ex_wire_world (ex_wire_index 49) [50, 51])"
    "fst (snd (stream_batch ex_wire_lib ex_wire_reader (ex_wire_index 49) [50, 51] ex_schedule ex_wire_world)) =
       snd (apply_in_order ex_wire_lib ex_wire_reader ex_wire_world (ex_wire_index 49) [50, 51])" by blast+
  then show ?thesis unfolding ex_wire_in_order by simp
qed

text \<open>C25: The order of the blocks is kept under every schedule, also when the answers of the reader change and
  fetches fail: after the batch the index is the initial one with the blocks of the first \<open>n\<close> heights applied
  one after the other, each an answer of the reader for its height; \<open>n\<close> is the number of all heights if the
  batch succeeds, and otherwise the error is a failed fetch or the refusal of the next block.\<close>

theorem batch_applies_prefix:
  "\<exists>n \<le> length heights. applied lib reader i (take n heights) (fst (snd (stream_batch lib reader i heights schedule w))) \<and>
     (fst (stream_batch lib reader i heights schedule w) = Inr () \<longrightarrow> n = length heights) \<and>
     (\<forall>e. fst (stream_batch lib reader i heights schedule w) = Inl e \<longrightarrow>
        refused lib reader heights n (fst (snd (stream_batch lib reader i heights schedule w))) e)"
proof -
  obtain r i' w' where run: "stream_batch lib reader i heights schedule w = (r, i', w')" using prod_cases3 by blast
  show ?thesis unfolding run using stream_batch_cases [OF run] by (simp, metis)
qed

theorem batch_applies_prefix_witness:
  "applied ex_wire_lib ex_wire_reader (ex_wire_index 49) [50, 51]
     (fst (snd (stream_batch ex_wire_lib ex_wire_reader (ex_wire_index 49) [50, 51] ex_schedule ex_wire_world)))"
proof -
  have "\<forall>h \<in> set [50, 51]. \<exists>pair. fetched ex_wire_reader h (Inr pair)" using ex_wire_fetched by blast
  from batch_in_order [OF ex_wire_stateless this, of ex_wire_lib "ex_wire_index 49" ex_schedule ex_wire_world,
    unfolded ex_wire_in_order]
  have "fst (stream_batch ex_wire_lib ex_wire_reader (ex_wire_index 49) [50, 51] ex_schedule ex_wire_world) = Inr ()"
    by simp
  moreover from batch_applies_prefix [of "[50, 51]" ex_wire_lib ex_wire_reader "ex_wire_index 49" ex_schedule ex_wire_world]
  obtain n where "applied ex_wire_lib ex_wire_reader (ex_wire_index 49) (take n [50, 51])
      (fst (snd (stream_batch ex_wire_lib ex_wire_reader (ex_wire_index 49) [50, 51] ex_schedule ex_wire_world)))"
    "fst (stream_batch ex_wire_lib ex_wire_reader (ex_wire_index 49) [50, 51] ex_schedule ex_wire_world) = Inr () \<longrightarrow>
       n = length [50 :: u64, 51]" by blast
  ultimately show ?thesis by simp
qed

text \<open>An index that already stands at the tip.\<close>

lemma ex_wire_ok: "wire_ok ex_wire_lib (ex_wire_index 50)"
  by (simp add: wire_ok_def ex_wire_index_def)

lemma ex_wire_json: "wire_json_laws ex_wire_lib" "wire_stored_ok ex_wire_lib (w_file ex_wire_world)"
  using ex_wire_ok by (simp_all add: wire_json_laws_def wire_stored_ok_def ex_wire_lib_def ex_wire_world_def)

lemma ex_wire_batch: "batch_sync ex_wire_lib ex_wire_reader i [] [Collect] w = (Inr (Inr (), i), w)"
proof -
  let ?b = "(batch_start [] i w :: (unit, unit, bytes \<times> bytes) batch)\<lparr>ba_result := Some (Inr ())\<rparr>"
  have "collect_step ex_wire_lib ex_wire_reader [] (batch_start [] i w) = ?b"
    by (simp add: collect_step_def batch_start_def)
  moreover have "finished_batch ?b" by (simp add: finished_batch_def batch_start_def)
  ultimately have "run_batch ex_wire_lib ex_wire_reader [] [Collect] (batch_start [] i w) = ?b"
    unfolding run_batch_def by (subst run_on.simps) simp
  then show ?thesis by (simp add: batch_sync_def stream_batch_def batch_start_def)
qed

lemma ex_wire_synchronised:
  "\<exists>rp w'. wire_sync ex_wire_lib ex_wire_reader ex_wire_files 50 10 [Collect] ex_wire_world = (Inr (rp, ex_wire_index 50), w') \<and> sp_tip rp = 50"
proof -
  let ?i = "ex_wire_index 50"
  have index: "wi_blocks ?i = [\<lparr>wc_height = 50, wc_hash = ex_wire_hash 50\<rparr>]" "wi_start ?i = 50" "wi_entries ?i = []"
    "wi_genesis ?i = ex_wire_hash 0" "wi_format ?i = WIRE_FORMAT" by (simp_all add: ex_wire_index_def)
  have calls: "rd (rd_genesis ex_wire_reader) w = (Inr (ex_wire_hash 0), w)" "rd (rd_tip_height ex_wire_reader) w = (Inr 50, w)"
    "rd (rd_block_hash ex_wire_reader h) w = (Inr (ex_wire_hash h), w)" for w h
    by (simp_all add: rd_def ex_wire_reader_def act_apps)
  have strings: "wl_hash_text ex_wire_lib h = h" "wl_parse_hash ex_wire_lib = Some" for h by (simp_all add: ex_wire_lib_def)
  have "check_wire_index ex_wire_lib ?i = Inr ?i"
    by (simp add: check_wire_index_def index check_checkpoint_def try_from_def checked_add_def ok_or_def strings)
  moreover have "read_bounded ex_wire_files WIRE_MAX_BYTES ex_wire_world = (Inr [1], ex_wire_world)"
    by (simp add: read_bounded_def ex_wire_files_def ex_wire_world_def read_into_def WIRE_MAX_BYTES_def try_from_def checked_add_def)
  moreover have "wl_from_json ex_wire_lib [1] = Some ?i" by (simp add: ex_wire_lib_def)
  ultimately have load: "WireIndex_load ex_wire_lib ex_wire_files ex_wire_world = (Inr ?i, ex_wire_world)"
    by (simp add: WireIndex_load_def ibind_app imap_err_def map_err_def act_apps ok_or_def)
  have opened: "wire_opened ex_wire_lib ex_wire_reader ex_wire_files 50 ex_wire_world = (Inr ?i, ex_wire_world)"
    using load by (simp add: wire_opened_def ibind_app calls strings Let_def imap_err_def map_err_def act_apps index)
      (simp add: ex_wire_world_def)
  have rollback: "wire_rollback ex_wire_lib ex_wire_reader ?i 50 w = (Inr (?i, 0), w)" for w
    by (simp add: wire_rollback_def index wire_on_chain_def ibind_app calls strings act_apps Let_def)
  have first: "next_height ?i = Inr 51" by (simp add: next_height_def index try_from_def checked_add_def ok_or_def)
  have stored: "w_file ex_wire_world = Some [1]" by (simp add: ex_wire_world_def)
  have heights: "batch_heights 51 50 10 = []" by (simp add: batch_heights_def)
  show ?thesis
    by (simp add: wire_sync_def ibind_app opened calls rollback first heights ex_wire_batch wire_res_def act_apps finish_sync_def index
        try_from_def reached_tip_def checked_add_def ok_or_def stored Let_def)
qed

theorem wire_sync_leaves_consistent_index_witness:
  "\<exists>rp. fst (wire_sync ex_wire_lib ex_wire_reader ex_wire_files 50 10 [Collect] ex_wire_world) = Inr (rp, ex_wire_index 50) \<and>
     sp_complete_to_tip rp \<and> sp_records rp = 0"
proof -
  obtain rp w' where run: "wire_sync ex_wire_lib ex_wire_reader ex_wire_files 50 10 [Collect] ex_wire_world = (Inr (rp, ex_wire_index 50), w')"
    and tip: "sp_tip rp = 50" using ex_wire_synchronised by blast
  from wire_sync_leaves_consistent_index [OF ex_wire_json, where reader = ex_wire_reader and fs = ex_wire_files and start = 50
    and max_blocks = 10 and schedule = "[Collect]"] run tip
  show ?thesis by (simp add: ex_wire_index_def)
qed

end
