(* ===== verification/Wire_View.thy ===== *)
theory Wire_View
  imports Wire_Properties Chain_Params
begin

section \<open>Views of the Wire index (\<^verbatim>\<open>urma-wire/src/view.rs\<close>)\<close>

text \<open>
  The feed, a single record and the projection of an identity, as JSON values. What the code calls of
  the \<open>bitcoin\<close> crate is in \<open>view_lib\<close>: the text of the genesis hash of a chain, the witness version
  of a script and the segwit address encoder, whose errors are their messages.
\<close>

datatype json = Null | Str bytes | Num nat | Arr "json list" | Obj "(string \<times> json) list"

record view_lib =
  vl_genesis :: "chain \<Rightarrow> bytes option"
  vl_witness_version :: "bytes \<Rightarrow> nat option"
  vl_segwit :: "string \<Rightarrow> nat \<Rightarrow> bytes \<Rightarrow> string + bytes" \<comment> \<open>parsing the prefix and encoding\<close>
  vl_txid_text :: "bytes \<Rightarrow> bytes"

definition CHAINS :: "chain list" where
  "CHAINS = [BitcoinMainnet, LitecoinMainnet, BitcoinTestnet4, BitcoinRegtest, LitecoinTestnet]"

definition index_chain :: "view_lib \<Rightarrow> wire_index \<Rightarrow> chain option" where
  "index_chain v i = find (\<lambda>c. vl_genesis v c = Some (wi_genesis i)) CHAINS"

text \<open>A script with a witness version has at least four bytes, so the slice \<open>bytes[2..]\<close> exists.\<close>

definition author_address ::
  "'hdr wire_lib \<Rightarrow> view_lib \<Rightarrow> wire_index \<Rightarrow> entry \<Rightarrow> wire_error + bytes option" where
  "author_address lib v i e =
     (case (index_chain v i, en_return_script e) of
        (Some c, Some script) \<Rightarrow>
          rbind (ok_or WireHex (wl_hex_decode lib script)) (\<lambda>bs.
          case vl_witness_version v bs of
            None \<Rightarrow> Inr None
          | Some version \<Rightarrow>
              rmap Some (map_err (\<lambda>cause. WireInvalid (''return script address: '' @ cause))
                (vl_segwit v (address_hrp c) version (drop 2 bs))))
      | _ \<Rightarrow> Inr None)"

definition render_payload :: "'hdr wire_lib \<Rightarrow> view_lib \<Rightarrow> public_record \<Rightarrow> wire_error + json" where
  "render_payload lib v record =
     (case record of
        Post txt \<Rightarrow> Inr (Obj [(''kind'', Str (ascii ''post'')), (''text'', Str txt)])
      | WirePost t txt \<Rightarrow> Inr (Obj [(''kind'', Str (ascii ''post'')), (''text'', Str txt), (''wire'', Str (wire t)),
                                   (''hashtags'', Arr (map Str (hashtags t)))])
      | WireReply target t txt \<Rightarrow>
          Inr (Obj [(''kind'', Str (ascii ''reply'')), (''reply_to'', Str (vl_txid_text v target)), (''text'', Str txt),
                    (''wire'', Str (wire t)), (''hashtags'', Arr (map Str (hashtags t)))])
      | Reply target txt \<Rightarrow>
          Inr (Obj [(''kind'', Str (ascii ''reply'')), (''reply_to'', Str (vl_txid_text v target)), (''text'', Str txt)])
      | Profile name \<Rightarrow> Inr (Obj [(''kind'', Str (ascii ''profile'')), (''name'', Str name)])
      | Avatar pixels \<Rightarrow> Inr (Obj [(''kind'', Str (ascii ''avatar'')), (''pixels_hex'', Str (wl_hex_encode lib pixels))])
      | ProfileRecord _ _ \<Rightarrow> Inl (WireInvalid ''kind 0C is not a Wire record''))"

definition json_opt :: "bytes option \<Rightarrow> json" where
  "json_opt t = (case t of None \<Rightarrow> Null | Some s \<Rightarrow> Str s)"

definition render :: "'hdr wire_lib \<Rightarrow> view_lib \<Rightarrow> wire_index \<Rightarrow> entry \<Rightarrow> public_record \<Rightarrow> wire_error + json" where
  "render lib v i e record =
     rbind (render_payload lib v record) (\<lambda>payload.
     rbind (author_address lib v i e) (\<lambda>address.
     Inr (Obj [(''txid'', Str (en_txid e)), (''author'', Str (en_author e)), (''author_address'', json_opt address),
               (''height'', Num (unat (en_height e))), (''position'', Num (unat (en_position e))), (''payload'', payload)])))"

definition cached_of :: "'hdr wire_lib \<Rightarrow> entry \<Rightarrow> wire_error + cached_record" where
  "cached_of lib e = rbind (ok_or WireHex (wl_hex_decode lib (en_record e))) decode_cached"

subsection \<open>The feed\<close>

fun feed_loop ::
  "'hdr wire_lib \<Rightarrow> view_lib \<Rightarrow> wire_index \<Rightarrow> nat \<Rightarrow> entry list \<Rightarrow> json list \<Rightarrow> wire_error + json list" where
  "feed_loop lib v i limit [] out = Inr out"
| "feed_loop lib v i limit (e # es) out =
     rbind (cached_of lib e) (\<lambda>cached.
     case cached of
       Current record \<Rightarrow>
         rbind (render lib v i e record) (\<lambda>value.
         if length (out @ [value]) = limit then Inr (out @ [value])
         else feed_loop lib v i limit es (out @ [value]))
     | _ \<Rightarrow> feed_loop lib v i limit es out)"

definition view_records :: "'hdr wire_lib \<Rightarrow> view_lib \<Rightarrow> wire_index \<Rightarrow> nat \<Rightarrow> wire_error + json list" where
  "view_records lib v i limit =
     ensure (1 \<le> limit \<and> limit \<le> 1000) (WireInvalid ''feed limit must be 1..1000'')
     (feed_loop lib v i limit (rev (wi_entries i)) [])"

definition view_record :: "'hdr wire_lib \<Rightarrow> view_lib \<Rightarrow> wire_index \<Rightarrow> bytes \<Rightarrow> wire_error + json" where
  "view_record lib v i txid =
     rbind (ok_or (WireMissing ''record is not in the confirmed local index'')
       (find (\<lambda>e. en_txid e = wl_hash_text lib txid) (wi_entries i))) (\<lambda>e.
     rbind (cached_of lib e) (\<lambda>cached.
     case cached of
       Current record \<Rightarrow> render lib v i e record
     | LegacyAvatar \<Rightarrow> Inl (WireInvalid ''legacy 512-byte avatar is unsupported; cached record bytes are preserved'')
     | LegacyProfile \<Rightarrow> Inl (WireInvalid
         ''legacy profile longer than 128 UTF-8 bytes is unsupported; cached record bytes are preserved'')))"

subsection \<open>The projection of an identity\<close>

fun identity_loop ::
  "'hdr wire_lib \<Rightarrow> entry list \<Rightarrow> json \<times> json \<Rightarrow> wire_error + json \<times> json" where
  "identity_loop lib [] found = Inr found"
| "identity_loop lib (e # es) (profile, avatar) =
     rbind (cached_of lib e) (\<lambda>cached.
     case cached of
       Current record \<Rightarrow>
         let found = (case record of
               Profile name \<Rightarrow>
                 if profile = Null then (Obj [(''txid'', Str (en_txid e)), (''name'', Str name)], avatar) else (profile, avatar)
             | Avatar pixels \<Rightarrow>
                 if avatar = Null
                 then (profile, Obj [(''txid'', Str (en_txid e)), (''pixels_hex'', Str (wl_hex_encode lib pixels))])
                 else (profile, avatar)
             | _ \<Rightarrow> (profile, avatar))
         in if fst found \<noteq> Null \<and> snd found \<noteq> Null then Inr found else identity_loop lib es found
     | _ \<Rightarrow> identity_loop lib es (profile, avatar))"

fun address_loop :: "'hdr wire_lib \<Rightarrow> view_lib \<Rightarrow> wire_index \<Rightarrow> entry list \<Rightarrow> wire_error + json" where
  "address_loop lib v i [] = Inr Null"
| "address_loop lib v i (e # es) =
     rbind (author_address lib v i e) (\<lambda>address.
     case address of Some found \<Rightarrow> Inr (Str found) | None \<Rightarrow> address_loop lib v i es)"

definition view_identity :: "'hdr wire_lib \<Rightarrow> view_lib \<Rightarrow> wire_index \<Rightarrow> bytes \<Rightarrow> wire_error + json" where
  "view_identity lib v i author =
     (let name = wl_author_text lib author;
          own = filter (\<lambda>e. en_author e = name) (rev (wi_entries i)) in
      rbind (identity_loop lib own (Null, Null)) (\<lambda>(profile, avatar).
      rbind (address_loop lib v i own) (\<lambda>address.
      Inr (Obj [(''author'', Str name), (''author_address'', address), (''profile'', profile), (''avatar'', avatar),
                (''genesis'', Str (wi_genesis i))]))))"

subsection \<open>What the views show\<close>

text \<open>The current record of an entry, if it is not a legacy one.\<close>

definition current_of :: "'hdr wire_lib \<Rightarrow> entry \<Rightarrow> public_record option" where
  "current_of lib e = (case cached_of lib e of Inr (Current r) \<Rightarrow> Some r | _ \<Rightarrow> None)"

lemma feed_loop_eq:
  assumes "\<forall>e \<in> set es. \<exists>c. cached_of lib e = Inr c" "length out < limit"
  shows "feed_loop lib v i limit es out =
    rmap (\<lambda>vs. out @ vs) (rtraverse (\<lambda>e. render lib v i e (the (current_of lib e)))
      (take (limit - length out) (filter (\<lambda>e. current_of lib e \<noteq> None) es)))"
  using assms
proof (induction es arbitrary: out)
  case (Cons e es)
  from Cons.prems(1) obtain c where c: "cached_of lib e = Inr c" by auto
  show ?case
  proof (cases c)
    case (Current r)
    then have cur: "current_of lib e = Some r" by (simp add: current_of_def c)
    obtain k where k: "limit - length out = Suc k" using Cons.prems(2) by (metis Suc_diff_Suc)
    show ?thesis
    proof (cases "render lib v i e r")
      case (Inl cause)
      then show ?thesis by (simp add: c Current cur k rmap_def)
    next
      case (Inr x)
      show ?thesis
      proof (cases "Suc (length out) = limit")
        case True
        then have "k = 0" using k by simp
        then show ?thesis using True Inr by (simp add: c Current cur k rmap_def)
      next
        case False
        then have "Suc (length out) < limit" "limit - Suc (length out) = k" using Cons.prems(2) k by auto
        then show ?thesis using Cons.IH [of "out @ [x]"] Cons.prems(1) False Inr
          by (cases "rtraverse (\<lambda>e. render lib v i e (the (current_of lib e))) (take k (filter (\<lambda>e. current_of lib e \<noteq> None) es))")
            (simp_all add: c Current cur k rmap_def)
      qed
    qed
  qed (use Cons c in \<open>simp_all add: current_of_def\<close>)
qed (simp add: rmap_def)

lemma rbind_Inr [simp]: "rbind m Inr = m"
  by (cases m) simp_all

text \<open>The feed shows the newest records first. For an index whose cached records all decode, as loading
  checks, it is the rendering of the last \<open>limit\<close> entries with a current record, from the newest to the
  oldest; legacy entries are left out and do not count, and limits outside 1 to 1000 are refused.\<close>

theorem feed_shows_newest:
  assumes "check_wire_index lib i = Inr i"
  shows "view_records lib v i limit =
    (if 1 \<le> limit \<and> limit \<le> 1000
     then rtraverse (\<lambda>e. render lib v i e (the (current_of lib e)))
       (take limit (filter (\<lambda>e. current_of lib e \<noteq> None) (rev (wi_entries i))))
     else Inl (WireInvalid ''feed limit must be 1..1000''))"
proof -
  have "\<exists>c. cached_of lib e = Inr c" if "e \<in> set (wi_entries i)" for e
  proof -
    from assms obtain us where "rtraverse (check_entry lib) (wi_entries i) = Inr us"
      by (auto simp: check_wire_index_def split: if_splits)
    then have "\<exists>u. check_entry lib e = Inr u" using that
      by (induction "wi_entries i" arbitrary: us) (auto simp: rtraverse_eq_Inr list_all2_conv_all_nth in_set_conv_nth)
    then show ?thesis by (auto simp: check_entry_def cached_of_def)
  qed
  then show ?thesis using feed_loop_eq [of "rev (wi_entries i)" lib "[]" limit v i]
    by (auto simp: view_records_def ensure_def rmap_def)
qed

definition ex_feed_entry :: "bytes \<Rightarrow> entry" where
  "ex_feed_entry txt = \<lparr>en_height = 50, en_position = 1, en_txid = [1], en_author = [2],
     en_record = RecordKind_prefix record_kind.Post @ txt, en_return_script = None\<rparr>"

definition ex_feed :: wire_index where
  "ex_feed = (ex_wire_index 50)\<lparr>wi_entries := [ex_feed_entry [104, 105], ex_feed_entry [104, 111]]\<rparr>"

definition ex_view_lib :: view_lib where
  "ex_view_lib = \<lparr>vl_genesis = (\<lambda>_. None), vl_witness_version = (\<lambda>_. None), vl_segwit = (\<lambda>_ _ _. Inl []), vl_txid_text = (\<lambda>t. t)\<rparr>"

lemma ex_feed_cached:
  "cached_of ex_wire_lib (ex_feed_entry [104, 105]) = Inr (Current (Post [104, 105]))"
  "cached_of ex_wire_lib (ex_feed_entry [104, 111]) = Inr (Current (Post [104, 111]))"
  by (simp_all add: ex_feed_entry_def ex_wire_lib_def cached_of_def decode_cached_def PublicRecord_decode_def
      decode_public_body_def from_utf8_def format_consts)

lemma ex_feed_checked: "check_wire_index ex_wire_lib ex_feed = Inr ex_feed"
proof -
  have "check_entry ex_wire_lib (ex_feed_entry t) = rmap (\<lambda>_. ()) (cached_of ex_wire_lib (ex_feed_entry t))" for t
    by (cases "cached_of ex_wire_lib (ex_feed_entry t)")
      (simp_all add: check_entry_def cached_of_def ex_feed_entry_def ex_wire_lib_def)
  then show ?thesis using ex_feed_cached
    by (simp add: check_wire_index_def ex_feed_def ex_wire_index_def check_checkpoint_def try_from_def checked_add_def
        ok_or_def) (simp add: ex_wire_lib_def)
qed

theorem feed_shows_newest_witness:
  "view_records ex_wire_lib ex_view_lib ex_feed 1 =
     rmap (\<lambda>x. [x]) (render ex_wire_lib ex_view_lib ex_feed (ex_feed_entry [104, 111]) (Post [104, 111]))"
  unfolding feed_shows_newest [OF ex_feed_checked]
  by (simp add: ex_feed_def current_of_def ex_feed_cached rmap_def)

end
