(* ===== verification/Runtime_Error.thy ===== *)
theory Runtime_Error
  imports Pow Chain_Decode Index_File
begin

section \<open>Errors of the runtime (\<^verbatim>\<open>urma-runtime/src/error.rs\<close>)\<close>

text \<open>
  The error enumeration of \<^verbatim>\<open>urma-runtime\<close> and its conversions. Variants that only wrap an error
  value of a library are constants, but for an RPC error, which keeps the code and message that the
  server answered with; what such a value prints, file paths and hashes are left out of the messages.
\<close>

datatype rt_error =
    RtIdentity | RtWallet | RtProtocol error | RtAmount | RtScript
  | RtInvalid string | RtUnsupported string | RtCapacity string
  | RtHeaderContext pow_error
  | RtMissing string
  | RtRateLimited nat
  | RtContext string rt_error
  | RtIo | RtJson | RtHex | RtUrl | RtInteger | RtIntegerText | RtSlice | RtUtf8 | RtText | RtAllocation | RtRandom
  | RtSecp256k1 | RtTransaction | RtChainDecode decode_error | RtPush | RtTaprootBuilder | RtTaproot | RtTaprootSighash
  | RtSegwitSighash | RtAddressScript | RtAddressParse | RtAddressNetwork | RtPublicKey | RtUncompressedKey | RtEcdsa
  | RtHash | RtProofOfWork | RtRpc "(int \<times> string) option" | RtHttp | RtTls | RtPersist | RtIp
  | RtPanic string

fun is_header_context :: "rt_error \<Rightarrow> bool" where
  "is_header_context (RtHeaderContext _) = True"
| "is_header_context (RtContext _ cause) = is_header_context cause"
| "is_header_context _ = False"

definition MISSING_TRANSACTION_RPC_CODE :: int where "MISSING_TRANSACTION_RPC_CODE = -5"

fun is_missing_transaction :: "rt_error \<Rightarrow> bool" where
  "is_missing_transaction (RtMissing _) = True"
| "is_missing_transaction (RtRpc (Some (code, message))) = (code = MISSING_TRANSACTION_RPC_CODE)"
| "is_missing_transaction _ = False"

fun rt_of_io :: "io_error \<Rightarrow> rt_error" where
  "rt_of_io Io = RtIo"
| "rt_of_io PrivatePermissions = RtInvalid ''file must have private permissions''"
| "rt_of_io IoInteger = RtInteger"
| "rt_of_io LimitOverflow = RtMissing ''file read limit overflow''"
| "rt_of_io (TooLarge limit) = RtCapacity (''file exceeds '' @ dec limit @ '' byte client capacity'')"
| "rt_of_io PersistError = RtPersist"
| "rt_of_io (IoContext message cause) = RtContext message (rt_of_io cause)"

definition rt_context_opt :: "string \<Rightarrow> 'a option \<Rightarrow> rt_error + 'a" where
  "rt_context_opt message m = ok_or (RtMissing message) m"

definition rt_context :: "string \<Rightarrow> rt_error + 'a \<Rightarrow> rt_error + 'a" where
  "rt_context message m = map_err (RtContext message) m"

definition rt_try_from :: "nat \<Rightarrow> rt_error + 'a::len word" where
  "rt_try_from n = map_err (\<lambda>_. RtInteger) (try_from n)"

text \<open>\<open>Display\<close> of the proof-of-work errors (\<^verbatim>\<open>urma-chain/src/pow.rs\<close>).\<close>

fun pow_error_text :: "pow_error \<Rightarrow> string" where
  "pow_error_text ScryptParams = ''scrypt parameters: ''"
| "pow_error_text ScryptOutput = ''scrypt output: ''"
| "pow_error_text InvalidTarget = ''header target is zero or above the chain limit''"
| "pow_error_text Unmet = ''header hash does not meet its target''"
| "pow_error_text EmptyWindow = ''header window is empty''"
| "pow_error_text (ShortWindow needed got) = ''retarget needs '' @ dec needed @ '' headers, window holds '' @ dec got"
| "pow_error_text (MissingDifficultyContext first_height) =
     ''minimum-difficulty lookup lacks context before first available height '' @ dec (unat first_height)"
| "pow_error_text HeightOverflow = ''header height overflow''"
| "pow_error_text TimeOverflow = ''header time overflow''"
| "pow_error_text Width = ''integer width: ''"
| "pow_error_text (PowPanic message) = message"

lemma rt_context_opt_eq_Inr [simp]: "rt_context_opt s m = Inr x \<longleftrightarrow> m = Some x"
  by (simp add: rt_context_opt_def)

lemma rt_context_eq_Inr [simp]: "rt_context s m = Inr x \<longleftrightarrow> m = Inr x"
  by (simp add: rt_context_def)

lemma rt_context_eq_Inl: "rt_context s m = Inl e \<longleftrightarrow> (\<exists>e'. m = Inl e' \<and> e = RtContext s e')"
  by (cases m) (auto simp: rt_context_def)

lemma rt_try_from_eq_Inr [simp]: "rt_try_from n = Inr (w :: 'a::len word) \<longleftrightarrow> n = unat w"
  by (simp add: rt_try_from_def try_from_eq_Inr)

lemma rt_try_from_unat [simp]: "rt_try_from (unat (w :: 'a::len word)) = Inr w"
  by simp

lemma io_no_header_context [simp]: "\<not> is_header_context (rt_of_io e)"
  by (induction e) simp_all

end
