(* ===== verification/Headers.thy ===== *)
theory Headers
  imports Runtime_Error
begin

section \<open>The header chain of the light client (\<^verbatim>\<open>urma-runtime/src/p2p/headers.rs\<close>, \<^verbatim>\<open>bootstrap.rs\<close>)\<close>

text \<open>
  The light client keeps the headers from a trusted anchor to its tip, indexed by hash, checks what
  peers send against the difficulty and time rules, reorganises to a branch with more work, and keeps
  the headers in a cache file. What the code calls of the \<open>bitcoin\<close> crate is \<open>header_lib\<close>; a header
  type \<open>'h\<close> comes with its time and bits in \<open>pow_lib\<close>. The clock is the argument \<open>now\<close>. Heights are
  added as a release build does, modulo 2 to the 64. Hashes and paths in messages are left out.
\<close>

record ('h, 'work) header_lib =
  hl_pow :: "('h, 'work) pow_lib"
  hl_prev :: "'h \<Rightarrow> bytes"
  hl_deserialize :: "bytes \<Rightarrow> 'h option"
  hl_work_le :: "'work \<Rightarrow> 'work \<Rightarrow> bool"
  hl_parallelism :: "nat option" \<comment> \<open>available threads less one; \<open>None\<close> when the call fails\<close>
  hl_genesis :: "chain \<Rightarrow> bytes option"
  hl_hash_text :: "bytes \<Rightarrow> string"
  hl_parse_hash :: "string \<Rightarrow> bytes option"
  hl_hex_decode :: "string \<Rightarrow> bytes option"

record 'h header_chain =
  hc_chain :: chain
  hc_start :: u64
  hc_trusted_next :: "bytes option"
  hc_ancestors :: "'h list option"
  hc_headers :: "'h list"
  hc_index :: "bytes \<Rightarrow> nat option"
  hc_path :: string

datatype extension = Appended nat | Reorganized u64 nat | Ignored

definition P2P_HEADER_CACHE_MAX :: nat where "P2P_HEADER_CACHE_MAX = 1000000"
definition P2P_HEADER_CACHE_REVALIDATE :: nat where "P2P_HEADER_CACHE_REVALIDATE = 2016"
definition P2P_MAX_FUTURE_SECS :: u32 where "P2P_MAX_FUTURE_SECS = 7200"
definition P2P_MEDIAN_TIME_SPAN :: nat where "P2P_MEDIAN_TIME_SPAN = 11"
definition P2P_LOCATOR_LINEAR :: nat where "P2P_LOCATOR_LINEAR = 10"
definition P2P_POW_WORKERS :: nat where "P2P_POW_WORKERS = 4"
definition HEADER_SIZE :: nat where "HEADER_SIZE = 80"

abbreviation header_hash :: "('h, 'work) header_lib \<Rightarrow> 'h \<Rightarrow> bytes" where
  "header_hash lib \<equiv> pl_block_hash (hl_pow lib)"

definition header_time :: "('h, 'work) header_lib \<Rightarrow> 'h \<Rightarrow> u32" where
  "header_time lib h = h_time (pl_header (hl_pow lib) h)"

definition header_bits :: "('h, 'work) header_lib \<Rightarrow> 'h \<Rightarrow> u32" where
  "header_bits lib h = h_bits (pl_header (hl_pow lib) h)"

subsection \<open>Proof of work of a batch, on several threads\<close>

text \<open>What one thread returns for its part: the first header without proof of work.\<close>

fun part_verdict :: "('h, 'work) header_lib \<Rightarrow> chain \<Rightarrow> nat \<Rightarrow> 'h list \<Rightarrow> (nat \<times> string) + unit" where
  "part_verdict lib c offset [] = Inr ()"
| "part_verdict lib c offset (header # part) =
     rbind (map_err (\<lambda>cause. (offset, pow_error_text cause)) (check_header_pow (hl_pow lib) header c))
       (\<lambda>_. part_verdict lib c (Suc offset) part)"

definition batch_verdict :: "(nat \<times> string) + unit \<Rightarrow> rt_error + unit" where
  "batch_verdict verdict =
     map_err (\<lambda>(offset, cause). RtInvalid (''header at batch offset '' @ dec offset @ '' fails proof of work: '' @ cause)) verdict"

definition prove_batch :: "('h, 'work) header_lib \<Rightarrow> chain \<Rightarrow> 'h list \<Rightarrow> rt_error + unit" where
  "prove_batch lib c headers =
     (if headers = [] then Inr ()
      else case hl_parallelism lib of
        None \<Rightarrow> Inl RtIo
      | Some others \<Rightarrow>
          let workers = min (min (Suc others) P2P_POW_WORKERS) (length headers);
              chunk = div_ceil (length headers) workers;
              verdicts = map (\<lambda>(slot, part). part_verdict lib c (slot * chunk) part) (enumerate 0 (chunks chunk headers))
          in rmap (\<lambda>_. ()) (rtraverse batch_verdict verdicts))"

subsection \<open>Rules for the next header\<close>

definition median_time :: "('h, 'work) header_lib \<Rightarrow> 'h list \<Rightarrow> u32" where
  "median_time lib window =
     (let start = max (length window) P2P_MEDIAN_TIME_SPAN - P2P_MEDIAN_TIME_SPAN;
          times = sort (map (header_time lib) (drop start window))
      in times ! (length times div 2))"

definition context_headers :: "chain \<Rightarrow> nat" where
  "context_headers c =
     (let p = Chain_params c in
      max (max (unat (cp_retarget_lookback p)) (unat (cp_retarget_interval p - 1))) (P2P_MEDIAN_TIME_SPAN - 1))"

definition preceding_context :: "'h header_chain \<Rightarrow> 'h list \<Rightarrow> rt_error + u64 \<times> 'h list" where
  "preceding_context hc window =
     (case hc_ancestors hc of
        None \<Rightarrow> Inr (hc_start hc, window)
      | Some ancestors \<Rightarrow>
          let bound = context_headers (hc_chain hc) + 1 in
          rbind (rt_try_from (length window)) (\<lambda>n.
          rbind (rt_context_opt ''header context height overflow'' (checked_add (hc_start hc) n)) (\<lambda>next_height.
          let tail =
            (if bound \<le> length window then drop (length window - bound) window
             else let count = min (bound - length window) (length ancestors) in
               drop (length ancestors - count) ancestors @ window) in
          rbind (rt_try_from (length tail)) (\<lambda>k.
          rbind (rt_context_opt ''header context precedes genesis'' (checked_sub next_height k)) (\<lambda>first_height.
          Inr (first_height, tail))))))"

fun bits_error :: "pow_error \<Rightarrow> rt_error" where
  "bits_error (ShortWindow needed got) = RtHeaderContext (ShortWindow needed got)"
| "bits_error (MissingDifficultyContext h) = RtHeaderContext (MissingDifficultyContext h)"
| "bits_error cause = RtInvalid (pow_error_text cause)"

definition hex_digit :: "nat \<Rightarrow> char" where
  "hex_digit n = (if n < 10 then char_of (48 + n) else char_of (87 + n))"

definition hex8 :: "u32 \<Rightarrow> string" where
  "hex8 x = map (\<lambda>i. hex_digit (unat x div 16 ^ i mod 16)) (rev [0..<8])"

definition check_bits ::
  "('h, 'work) header_lib \<Rightarrow> 'h header_chain \<Rightarrow> 'h list \<Rightarrow> u64 \<Rightarrow> 'h list \<Rightarrow> 'h \<Rightarrow> rt_error + unit" where
  "check_bits lib hc window first_height context header =
     (if length window = 1 \<and> hc_trusted_next hc \<noteq> None
      then ensure (Some (header_hash lib header) = hc_trusted_next hc)
             (RtInvalid ''peer header after the checkpoint is not the checkpointed block'') (Inr ())
      else
        rbind (map_err bits_error (expected_bits (hl_pow lib) (hc_chain hc) (map (pl_header (hl_pow lib)) context)
                 first_height (header_time lib header))) (\<lambda>required.
        ensure (header_bits lib header = required)
          (RtInvalid (''peer header bits '' @ hex8 (header_bits lib header) @ '' differ from the required '' @ hex8 required))
          (Inr ())))"

definition validate_context ::
  "('h, 'work) header_lib \<Rightarrow> 'h header_chain \<Rightarrow> 'h list \<Rightarrow> 'h \<Rightarrow> rt_error + unit" where
  "validate_context lib hc window header =
     (if window = [] then Inl (RtMissing ''header window is empty'')
      else ensure (hl_prev lib header = header_hash lib (last window)) (RtInvalid ''peer header does not extend its predecessor'')
        (rbind (preceding_context hc window) (\<lambda>(first_height, context).
         rbind (check_bits lib hc window first_height context header) (\<lambda>_.
         ensure (median_time lib context < header_time lib header)
           (RtInvalid ''peer header time is not after the median of the previous blocks'') (Inr ())))))"

definition validate_next ::
  "('h, 'work) header_lib \<Rightarrow> 'h header_chain \<Rightarrow> 'h list \<Rightarrow> 'h \<Rightarrow> u32 \<Rightarrow> rt_error + unit" where
  "validate_next lib hc window header now =
     rbind (validate_context lib hc window header) (\<lambda>_.
     rbind (rt_context_opt ''clock horizon overflow'' (checked_add now P2P_MAX_FUTURE_SECS)) (\<lambda>horizon.
     ensure (header_time lib header \<le> horizon) (RtInvalid ''peer header time is too far in the future'') (Inr ())))"

subsection \<open>Lookups\<close>

definition offset_count :: "'h header_chain \<Rightarrow> u64" where
  "offset_count hc = (case rt_try_from (length (hc_headers hc) - 1) of Inr count \<Rightarrow> count | Inl _ \<Rightarrow> - 1)"

definition tip_height :: "'h header_chain \<Rightarrow> u64" where
  "tip_height hc = hc_start hc + offset_count hc"

definition header_tip_hash :: "('h, 'work) header_lib \<Rightarrow> 'h header_chain \<Rightarrow> bytes" where
  "header_tip_hash lib hc = header_hash lib (hc_headers hc ! (length (hc_headers hc) - 1))"

definition height_of :: "'h header_chain \<Rightarrow> bytes \<Rightarrow> rt_error + u64" where
  "height_of hc hash =
     rbind (rt_context_opt ''block is not in the verified header chain'' (hc_index hc hash)) (\<lambda>offset.
     rbind (rt_try_from offset) (\<lambda>n. Inr (hc_start hc + n)))"

definition header_at :: "'h header_chain \<Rightarrow> u64 \<Rightarrow> rt_error + 'h" where
  "header_at hc height =
     rbind (rt_context_opt (''height '' @ dec (unat height) @ '' precedes the light client checkpoint'')
       (checked_sub height (hc_start hc))) (\<lambda>offset.
     rt_context_opt (''height '' @ dec (unat height) @ '' is above the verified header tip'')
       (if unat offset < length (hc_headers hc) then Some (hc_headers hc ! unat offset) else None))"

definition hash_at :: "('h, 'work) header_lib \<Rightarrow> 'h header_chain \<Rightarrow> u64 \<Rightarrow> rt_error + bytes" where
  "hash_at lib hc height = rmap (header_hash lib) (header_at hc height)"

text \<open>The loop of \<open>locator\<close> with \<open>n\<close> hashes collected; \<open>step\<close> starts at 1 and is never 0.\<close>

function locator_loop :: "('h, 'work) header_lib \<Rightarrow> 'h list \<Rightarrow> nat \<Rightarrow> nat \<Rightarrow> nat \<Rightarrow> bytes list" where
  "locator_loop lib headers n back step =
     header_hash lib (headers ! back) #
     (if back = 0 \<or> step = 0 then []
      else let step' = (if P2P_LOCATOR_LINEAR < Suc n then step * 2 else step) in
        locator_loop lib headers (Suc n) (max back step' - step') step')"
  by pat_completeness auto
termination by (relation "measure (\<lambda>(_, _, _, back, _). back)") auto

declare locator_loop.simps [simp del]

definition header_locator :: "('h, 'work) header_lib \<Rightarrow> 'h header_chain \<Rightarrow> bytes list" where
  "header_locator lib hc = locator_loop lib (hc_headers hc) 0 (length (hc_headers hc) - 1) 1"

subsection \<open>Extending the chain\<close>

definition index_headers ::
  "('h, 'work) header_lib \<Rightarrow> (bytes \<Rightarrow> nat option) \<Rightarrow> (nat \<times> 'h) list \<Rightarrow> bytes \<Rightarrow> nat option" where
  "index_headers lib m es = foldl (\<lambda>m (offset, h). m(header_hash lib h := Some offset)) m es"

definition unindex_headers ::
  "('h, 'work) header_lib \<Rightarrow> (bytes \<Rightarrow> nat option) \<Rightarrow> 'h list \<Rightarrow> bytes \<Rightarrow> nat option" where
  "unindex_headers lib m hs = foldl (\<lambda>m h. m(header_hash lib h := None)) m hs"

fun append_loop ::
  "('h, 'work) header_lib \<Rightarrow> nat \<Rightarrow> 'h header_chain \<Rightarrow> 'h list \<Rightarrow> u32 \<Rightarrow> (rt_error + unit) \<times> 'h header_chain" where
  "append_loop lib original hc [] now = (Inr (), hc)"
| "append_loop lib original hc (header # fresh) now =
     (case validate_next lib hc (hc_headers hc) header now of
        Inr _ \<Rightarrow>
          append_loop lib original
            (hc\<lparr>hc_index := (hc_index hc)(header_hash lib header := Some (length (hc_headers hc))),
                hc_headers := hc_headers hc @ [header]\<rparr>) fresh now
      | Inl e \<Rightarrow>
          (Inl e, hc\<lparr>hc_index := unindex_headers lib (hc_index hc) (drop original (hc_headers hc)),
                     hc_headers := take original (hc_headers hc)\<rparr>))"

definition append_headers ::
  "('h, 'work) header_lib \<Rightarrow> 'h header_chain \<Rightarrow> 'h list \<Rightarrow> u32 \<Rightarrow> (rt_error + unit) \<times> 'h header_chain" where
  "append_headers lib hc fresh now = append_loop lib (length (hc_headers hc)) hc fresh now"

definition branch_candidate ::
  "('h, 'work) header_lib \<Rightarrow> 'h header_chain \<Rightarrow> nat \<Rightarrow> 'h list \<Rightarrow> u32 \<Rightarrow> rt_error + 'h list" where
  "branch_candidate lib hc base fresh now =
     rfold (\<lambda>candidate header. rbind (validate_next lib hc candidate header now) (\<lambda>_. Inr (candidate @ [header])))
       (take (Suc base) (hc_headers hc)) fresh"

definition branch_work :: "('h, 'work) header_lib \<Rightarrow> nat \<Rightarrow> 'h list \<Rightarrow> rt_error + 'work" where
  "branch_work lib base headers =
     map_err (\<lambda>cause. RtInvalid (pow_error_text cause)) (chain_work (hl_pow lib) (drop (base + 1) headers))"

definition adopt_branch :: "('h, 'work) header_lib \<Rightarrow> 'h header_chain \<Rightarrow> nat \<Rightarrow> 'h list \<Rightarrow> 'h header_chain" where
  "adopt_branch lib hc base candidate =
     hc\<lparr>hc_headers := candidate,
        hc_index := index_headers lib (unindex_headers lib (hc_index hc) (drop (base + 1) (hc_headers hc)))
                      (drop (base + 1) (enumerate 0 candidate))\<rparr>"

definition reorganise ::
  "('h, 'work) header_lib \<Rightarrow> 'h header_chain \<Rightarrow> nat \<Rightarrow> 'h list \<Rightarrow> u32 \<Rightarrow> (rt_error + extension) \<times> 'h header_chain" where
  "reorganise lib hc base fresh now =
     (case rbind (branch_candidate lib hc base fresh now) (\<lambda>candidate.
           rbind (branch_work lib base candidate) (\<lambda>challenger.
           rbind (branch_work lib base (hc_headers hc)) (\<lambda>incumbent. Inr (candidate, challenger, incumbent)))) of
        Inl e \<Rightarrow> (Inl e, hc)
      | Inr (candidate, challenger, incumbent) \<Rightarrow>
          if hl_work_le lib challenger incumbent then (Inr Ignored, hc)
          else (rmap (\<lambda>n. Reorganized (hc_start hc + n) (length fresh)) (rt_try_from base), adopt_branch lib hc base candidate))"

definition known_headers :: "('h, 'work) header_lib \<Rightarrow> 'h header_chain \<Rightarrow> 'h list \<Rightarrow> nat \<Rightarrow> nat" where
  "known_headers lib hc batch fork =
     length (takeWhile (\<lambda>(incoming, held). header_hash lib incoming = header_hash lib held)
       (zip batch (drop (fork + 1) (hc_headers hc))))"

definition extend_fresh ::
  "('h, 'work) header_lib \<Rightarrow> 'h header_chain \<Rightarrow> nat \<Rightarrow> 'h list \<Rightarrow> u32 \<Rightarrow> (rt_error + extension) \<times> 'h header_chain" where
  "extend_fresh lib hc base fresh now =
     (case prove_batch lib (hc_chain hc) fresh of
        Inl e \<Rightarrow> (Inl e, hc)
      | Inr _ \<Rightarrow>
          if base = length (hc_headers hc) - 1
          then (case append_headers lib hc fresh now of (r, hc') \<Rightarrow> (rmap (\<lambda>_. Appended (length fresh)) r, hc'))
          else reorganise lib hc base fresh now)"

definition HeaderChain_extend ::
  "('h, 'work) header_lib \<Rightarrow> 'h header_chain \<Rightarrow> 'h list \<Rightarrow> u32 \<Rightarrow> (rt_error + extension) \<times> 'h header_chain" where
  "HeaderChain_extend lib hc batch now =
     (case batch of
        [] \<Rightarrow> (Inr Ignored, hc)
      | first # _ \<Rightarrow>
          (case hc_index hc (hl_prev lib first) of
             None \<Rightarrow> (Inl (RtMissing ''peer headers do not connect to the verified header chain''), hc)
           | Some fork \<Rightarrow>
               let known = known_headers lib hc batch fork; fresh = drop known batch in
               if fresh = [] then (Inr Ignored, hc)
               else if P2P_HEADER_CACHE_MAX < length (hc_headers hc) + length fresh
               then (Inl (RtInvalid ''header chain would exceed the client capacity''), hc)
               else extend_fresh lib hc (fork + known) fresh now))"

end
