(* ===== verification/Header_Cache.thy ===== *)
theory Header_Cache
  imports Headers
begin

section \<open>Bootstrapping, opening and caching the header chain\<close>

text \<open>
  The anchors of \<^verbatim>\<open>headers.rs\<close>, the checkpoint-relative bootstrap of \<^verbatim>\<open>bootstrap.rs\<close> and the cache
  file. The world is that of \<^verbatim>\<open>Index_File\<close>, whose one file is the one at \<open>hc_path\<close>;
  \<open>cache_system\<close> adds whether the operating system answers \<open>try_exists\<close> and removes the file.
\<close>

record 's cache_system =
  cs_files :: "'s file_system"
  cs_stat :: "'s \<Rightarrow> bool \<times> 's"
  cs_remove :: "'s \<Rightarrow> bool \<times> 's"

subsection \<open>Bootstrap\<close>

record 'h header_bootstrap =
  hb_chain :: chain
  hb_height :: u64
  hb_header :: 'h
  hb_ancestors :: "'h list"

definition HeaderBootstrap_new ::
  "('h, 'work) header_lib \<Rightarrow> chain \<Rightarrow> u64 \<Rightarrow> 'h \<Rightarrow> 'h list \<Rightarrow> rt_error + 'h header_bootstrap" where
  "HeaderBootstrap_new lib c height header ancestors =
     rbind (rt_try_from (context_headers c)) (\<lambda>count.
     let expected = unat (min height count) in
     ensure (length ancestors = expected) (RtInvalid (''bootstrap needs exactly '' @ dec expected @ '' ancestors''))
     (let oldest = (case ancestors of [] \<Rightarrow> header | a # _ \<Rightarrow> a) in
      rbind (rt_try_from (length ancestors)) (\<lambda>given.
      rbind (if height = given
             then rbind (ok_or RtHash (hl_genesis lib c)) (\<lambda>genesis.
                  ensure (header_hash lib oldest = genesis)
                    (RtInvalid ''bootstrap prefix does not start at the configured chain genesis'') (Inr ()))
             else Inr ()) (\<lambda>_.
      rbind (rtraverse (\<lambda>(previous, successor).
               ensure (hl_prev lib successor = header_hash lib previous)
                 (RtInvalid ''bootstrap ancestors do not connect to the trusted anchor'') (Inr ()))
             (zip ancestors (drop 1 ancestors @ [header]))) (\<lambda>_.
      rbind (prove_batch lib c ancestors) (\<lambda>_.
      rbind (prove_batch lib c [header]) (\<lambda>_.
      Inr \<lparr>hb_chain = c, hb_height = height, hb_header = header, hb_ancestors = ancestors\<rparr>)))))))"

subsection \<open>The cache file\<close>

definition load_headers :: "('h, 'work) header_lib \<Rightarrow> 'h header_chain \<Rightarrow> bytes \<Rightarrow> rt_error + 'h header_chain" where
  "load_headers lib hc raw =
     ensure (length raw mod HEADER_SIZE = 0 \<and> HEADER_SIZE \<le> length raw) (RtInvalid ''header cache is not a whole number of headers'')
     (rbind (ok_or RtTransaction (hl_deserialize lib (take HEADER_SIZE raw))) (\<lambda>stored.
      ensure (stored = hd (hc_headers hc)) (RtInvalid ''header cache starts from a different checkpoint'')
      (let count = length raw div HEADER_SIZE in
       rbind (rtraverse (\<lambda>part. ok_or RtTransaction (hl_deserialize lib part)) (as_chunks HEADER_SIZE raw)) (\<lambda>headers.
       let revalidate_from = max count P2P_HEADER_CACHE_REVALIDATE - P2P_HEADER_CACHE_REVALIDATE in
       rbind (rtraverse (\<lambda>(offset, header).
                rt_context (''header cache at offset '' @ dec offset) (validate_context lib hc (take offset headers) header))
              (drop 1 (enumerate 0 headers))) (\<lambda>_.
       rbind (prove_batch lib (hc_chain hc) (drop (max revalidate_from 1) headers)) (\<lambda>_.
       Inr (hc\<lparr>hc_index := index_headers lib Map.empty (enumerate 0 headers), hc_headers := headers\<rparr>)))))))"

definition HeaderChain_load ::
  "('h, 'work) header_lib \<Rightarrow> 's cache_system \<Rightarrow> 'h header_chain \<Rightarrow> ('s world, rt_error, 'h header_chain) act" where
  "HeaderChain_load lib cs hc =
     ibind (imap_err rt_of_io (read_bounded (cs_files cs) (P2P_HEADER_CACHE_MAX * HEADER_SIZE))) (\<lambda>raw.
     ilift (load_headers lib hc raw))"

definition HeaderChain_reset ::
  "('h, 'work) header_lib \<Rightarrow> 's cache_system \<Rightarrow> 'h header_chain \<Rightarrow> ('s world, rt_error, 'h header_chain) act" where
  "HeaderChain_reset lib cs hc = (\<lambda>w.
     case cs_remove cs (w_state w) of
       (True, s) \<Rightarrow>
         (Inr (hc\<lparr>hc_headers := take 1 (hc_headers hc), hc_index := [header_hash lib (hd (hc_headers hc)) \<mapsto> 0]\<rparr>),
          w\<lparr>w_state := s, w_file := None\<rparr>)
     | (False, s) \<Rightarrow> (Inl RtIo, w\<lparr>w_state := s\<rparr>))"

definition cache_exists :: "'s cache_system \<Rightarrow> ('s world, rt_error, bool) act" where
  "cache_exists cs = (\<lambda>w.
     case cs_stat cs (w_state w) of
       (True, s) \<Rightarrow> (Inr (w_file w \<noteq> None), w\<lparr>w_state := s\<rparr>)
     | (False, s) \<Rightarrow> (Inl RtIo, w\<lparr>w_state := s\<rparr>))"

definition HeaderChain_restore ::
  "('h, 'work) header_lib \<Rightarrow> 's cache_system \<Rightarrow> 'h header_chain \<Rightarrow> ('s world, rt_error, 'h header_chain) act" where
  "HeaderChain_restore lib cs hc =
     ibind (cache_exists cs) (\<lambda>exists.
     if \<not> exists then iret hc
     else (\<lambda>w. case HeaderChain_load lib cs hc w of
             (Inr loaded, w') \<Rightarrow> (Inr loaded, w')
           | (Inl e, w') \<Rightarrow> if is_header_context e then (Inl e, w') else HeaderChain_reset lib cs hc w'))"

definition cache_bytes :: "('h, 'work) header_lib \<Rightarrow> 'h header_chain \<Rightarrow> bytes" where
  "cache_bytes lib hc = concat (map (pl_serialize (hl_pow lib)) (hc_headers hc))"

definition HeaderChain_persist ::
  "('h, 'work) header_lib \<Rightarrow> 's cache_system \<Rightarrow> 'h header_chain \<Rightarrow> ('s world, rt_error, unit) act" where
  "HeaderChain_persist lib cs hc = imap_err rt_of_io (write_replace (cs_files cs) (cache_bytes lib hc))"

subsection \<open>Opening\<close>

definition chain_file_label :: "chain \<Rightarrow> string" where
  "chain_file_label c = map (\<lambda>x. if x = CHR '' '' then CHR ''-'' else x) (Chain_label c)"

definition open_bootstrap ::
  "('h, 'work) header_lib \<Rightarrow> 's cache_system \<Rightarrow> string \<Rightarrow> 'h header_bootstrap \<Rightarrow> ('s world, rt_error, 'h header_chain) act" where
  "open_bootstrap lib cs cache_dir b =
     HeaderChain_restore lib cs
       \<lparr>hc_chain = hb_chain b, hc_start = hb_height b, hc_trusted_next = None, hc_ancestors = Some (hb_ancestors b),
        hc_headers = [hb_header b], hc_index = [header_hash lib (hb_header b) \<mapsto> 0],
        hc_path = cache_dir @ ''/strict-v1-'' @ chain_file_label (hb_chain b) @ ''-'' @ dec (unat (hb_height b)) @ ''-'' @
          hl_hash_text lib (header_hash lib (hb_header b)) @ ''-headers.bin''\<rparr>"

definition anchored ::
  "('h, 'work) header_lib \<Rightarrow> 's cache_system \<Rightarrow> chain \<Rightarrow> string \<Rightarrow> u64 \<Rightarrow> 'h \<Rightarrow> bytes \<Rightarrow> ('s world, rt_error, 'h header_chain) act" where
  "anchored lib cs c path start_height header trusted_next =
     ibind (ilift (map_err (\<lambda>cause. RtInvalid (pow_error_text cause)) (check_header_pow (hl_pow lib) header c))) (\<lambda>_.
     HeaderChain_restore lib cs
       \<lparr>hc_chain = c, hc_start = start_height, hc_trusted_next = Some trusted_next, hc_ancestors = None,
        hc_headers = [header], hc_index = [header_hash lib header \<mapsto> 0], hc_path = path\<rparr>)"

record chain_checkpoint =
  ck_height :: u64
  ck_header :: string
  ck_next_hash :: string

definition LITECOIN_MAINNET_CHECKPOINT :: chain_checkpoint where
  "LITECOIN_MAINNET_CHECKPOINT = \<lparr>ck_height = 3187295,
     ck_header = ''14000020931d31f868aaaad00ab3d07bfb30e1adf261e843ea1efe367ea85ed4d50b0beccbee28d90e5dc1495e97786a8dc63e6b741e1ca8ef6226323ed5039c5d74fa7e73d7bd6adda82e1930924a09'',
     ck_next_hash = ''17976eb8639d9274e2f0b96314aa4cd259c976eecd7100c1c3bbf7c2ad31ed7a''\<rparr>"

definition LITECOIN_TESTNET_CHECKPOINT :: chain_checkpoint where
  "LITECOIN_TESTNET_CHECKPOINT = \<lparr>ck_height = 4904927,
     ck_header = ''000000206a866190a6c8e920929c51bc5b3318eb8fb68bd411ae365a5d922f33059816bc6c23b147db3e44528fd06f87e19e876788df08f5323a1ad46f2c863910ef02762125c06affff0f1ec0003c2f'',
     ck_next_hash = ''ed607657d250aa0a76e6a6e6c451bfa313f93c727a0bb96ba371e9007200e843''\<rparr>"

fun chain_checkpoint_of :: "chain \<Rightarrow> rt_error + chain_checkpoint" where
  "chain_checkpoint_of LitecoinMainnet = Inr LITECOIN_MAINNET_CHECKPOINT"
| "chain_checkpoint_of LitecoinTestnet = Inr LITECOIN_TESTNET_CHECKPOINT"
| "chain_checkpoint_of _ = Inl (RtUnsupported ''the peer-to-peer light client serves Litecoin networks only'')"

record 'h header_anchor =
  an_height :: u64
  an_header :: 'h
  an_next_hash :: bytes

definition Anchor_embedded :: "('h, 'work) header_lib \<Rightarrow> chain \<Rightarrow> rt_error + 'h header_anchor" where
  "Anchor_embedded lib c =
     rbind (chain_checkpoint_of c) (\<lambda>cp.
     rbind (ok_or RtHex (hl_hex_decode lib (ck_header cp))) (\<lambda>bs.
     rbind (ok_or RtTransaction (hl_deserialize lib bs)) (\<lambda>header.
     rbind (ok_or RtHash (hl_parse_hash lib (ck_next_hash cp))) (\<lambda>next_hash.
     Inr \<lparr>an_height = ck_height cp, an_header = header, an_next_hash = next_hash\<rparr>))))"

definition HeaderChain_open_at ::
  "('h, 'work) header_lib \<Rightarrow> 's cache_system \<Rightarrow> chain \<Rightarrow> string \<Rightarrow> 'h header_anchor \<Rightarrow> ('s world, rt_error, 'h header_chain) act" where
  "HeaderChain_open_at lib cs c cache_dir anchor =
     anchored lib cs c (cache_dir @ ''/'' @ chain_file_label c @ ''-headers.bin'') (an_height anchor) (an_header anchor) (an_next_hash anchor)"

definition HeaderChain_open ::
  "('h, 'work) header_lib \<Rightarrow> 's cache_system \<Rightarrow> chain \<Rightarrow> string \<Rightarrow> ('s world, rt_error, 'h header_chain) act" where
  "HeaderChain_open lib cs c cache_dir =
     ibind (ilift (Anchor_embedded lib c)) (\<lambda>anchor. HeaderChain_open_at lib cs c cache_dir anchor)"

end
