(* ===== verification/Header_Inv.thy ===== *)
theory Header_Inv
  imports Header_Cache
begin

section \<open>The invariant of the header chain\<close>

text \<open>
  \<open>hc_ok\<close>: every header after the anchor passed the contextual rules against the headers before it,
  and the hash index is exactly that of the headers. That removing a rejected suffix restores the
  index needs that no two headers at hand collide and that none is its own ancestor
  (\<open>sound_hashes\<close>), which is the collision resistance the hash is used for.
\<close>

definition contextual :: "('h, 'work) header_lib \<Rightarrow> 'h header_chain \<Rightarrow> 'h list \<Rightarrow> bool" where
  "contextual lib hc hs \<longleftrightarrow> (\<forall>k. 1 \<le> k \<and> k < length hs \<longrightarrow> validate_context lib hc (take k hs) (hs ! k) = Inr ())"

definition header_index :: "('h, 'work) header_lib \<Rightarrow> 'h list \<Rightarrow> bytes \<Rightarrow> nat option" where
  "header_index lib hs = index_headers lib Map.empty (enumerate 0 hs)"

definition hc_ok :: "('h, 'work) header_lib \<Rightarrow> 'h header_chain \<Rightarrow> bool" where
  "hc_ok lib hc \<longleftrightarrow> hc_headers hc \<noteq> [] \<and> contextual lib hc (hc_headers hc) \<and> hc_index hc = header_index lib (hc_headers hc)"

definition with_headers :: "('h, 'work) header_lib \<Rightarrow> 'h header_chain \<Rightarrow> 'h list \<Rightarrow> 'h header_chain" where
  "with_headers lib hc hs = hc\<lparr>hc_headers := hs, hc_index := header_index lib hs\<rparr>"

definition sound_hashes :: "('h, 'work) header_lib \<Rightarrow> 'h set \<Rightarrow> bool" where
  "sound_hashes lib H \<longleftrightarrow> inj_on (header_hash lib) H \<and>
     acyclic {(a, b). a \<in> H \<and> b \<in> H \<and> hl_prev lib b = header_hash lib a}"

definition accepted :: "('h, 'work) header_lib \<Rightarrow> 'h header_chain \<Rightarrow> 'h list \<Rightarrow> 'h list \<Rightarrow> u32 \<Rightarrow> bool" where
  "accepted lib hc hs fresh now \<longleftrightarrow>
     (\<forall>k < length fresh. validate_next lib hc (hs @ take k fresh) (fresh ! k) now = Inr ())"

named_theorems anchor_simps \<open>the rules read only the fields that never change\<close>

lemma validate_fields:
  assumes "hc_chain hc' = hc_chain hc" "hc_start hc' = hc_start hc" "hc_trusted_next hc' = hc_trusted_next hc"
    "hc_ancestors hc' = hc_ancestors hc"
  shows "validate_context lib hc' = validate_context lib hc" and "validate_next lib hc' = validate_next lib hc"
proof -
  show c: "validate_context lib hc' = validate_context lib hc"
    by (intro ext) (unfold validate_context_def preceding_context_def check_bits_def assms, rule refl)
  show "validate_next lib hc' = validate_next lib hc"
    by (intro ext) (unfold validate_next_def c, rule refl)
qed

lemma with_headers_anchor [anchor_simps]:
  "validate_context lib (with_headers lib hc hs) = validate_context lib hc"
  "validate_next lib (with_headers lib hc hs) = validate_next lib hc"
  by (rule validate_fields; simp add: with_headers_def)+

lemma contextual_with [anchor_simps]: "contextual lib (with_headers lib hc hs) = contextual lib hc"
  by (simp add: contextual_def fun_eq_iff anchor_simps)

lemma with_headers_simps [simp]:
  "hc_headers (with_headers lib hc hs) = hs"
  "hc_index (with_headers lib hc hs) = header_index lib hs"
  "hc_chain (with_headers lib hc hs) = hc_chain hc"
  "hc_start (with_headers lib hc hs) = hc_start hc"
  "hc_trusted_next (with_headers lib hc hs) = hc_trusted_next hc"
  "hc_ancestors (with_headers lib hc hs) = hc_ancestors hc"
  "with_headers lib (with_headers lib hc hs) hs' = with_headers lib hc hs'"
  by (simp_all add: with_headers_def)

lemma hc_ok_with: "hc_ok lib hc \<Longrightarrow> with_headers lib hc (hc_headers hc) = hc"
  by (simp add: hc_ok_def with_headers_def)

lemma hc_ok_with_iff: "hc_ok lib (with_headers lib hc hs) \<longleftrightarrow> hs \<noteq> [] \<and> contextual lib hc hs"
  by (simp add: hc_ok_def anchor_simps)

subsection \<open>The hash index\<close>

lemma index_headers_append: "index_headers lib m (xs @ ys) = index_headers lib (index_headers lib m xs) ys"
  by (simp add: index_headers_def)

lemma index_headers_other: "x \<notin> header_hash lib ` snd ` set es \<Longrightarrow> index_headers lib m es x = m x"
  by (induction es arbitrary: m) (auto simp: index_headers_def)

lemma header_index_snoc: "header_index lib (hs @ [h]) = (header_index lib hs)(header_hash lib h := Some (length hs))"
  by (simp add: header_index_def index_headers_append enumerate_append_eq) (simp add: index_headers_def)

lemma header_index_Some: "header_index lib hs x = Some k \<Longrightarrow> k < length hs \<and> header_hash lib (hs ! k) = x"
proof (induction hs rule: rev_induct)
  case (snoc h hs)
  then show ?case by (auto simp: header_index_snoc nth_append split: if_splits)
qed (simp add: header_index_def index_headers_def)

lemma header_index_distinct:
  "distinct (map (header_hash lib) hs) \<Longrightarrow> k < length hs \<Longrightarrow> header_index lib hs (header_hash lib (hs ! k)) = Some k"
proof (induction hs rule: rev_induct)
  case (snoc h hs)
  show ?case
  proof (cases "k = length hs")
    case False
    then have k: "k < length hs" using snoc.prems(2) by simp
    moreover have "header_hash lib h \<notin> header_hash lib ` set hs" using snoc.prems(1) by simp
    moreover have "header_hash lib (hs ! k) \<in> header_hash lib ` set hs" using k by (intro imageI nth_mem)
    ultimately have "header_hash lib (hs ! k) \<noteq> header_hash lib h" by metis
    then show ?thesis using snoc k by (simp add: header_index_snoc nth_append)
  qed (simp add: header_index_snoc)
qed simp

lemma unindex_headers_eq: "unindex_headers lib m hs x = (if x \<in> header_hash lib ` set hs then None else m x)"
  by (induction hs arbitrary: m) (auto simp: unindex_headers_def)

lemma take_enumerate: "take n (enumerate m xs) = enumerate m (take n xs)"
  by (rule nth_equalityI) (simp_all add: nth_enumerate_eq)

lemma drop_enumerate: "drop n (enumerate m xs) = enumerate (m + n) (drop n xs)"
  by (rule nth_equalityI) (simp_all add: nth_enumerate_eq)

lemma header_index_split: "header_index lib hs = index_headers lib (header_index lib (take n hs)) (drop n (enumerate 0 hs))"
  unfolding header_index_def index_headers_append [symmetric] take_enumerate [symmetric] by simp

lemma header_index_None: "x \<notin> header_hash lib ` set hs \<Longrightarrow> header_index lib hs x = None"
  by (cases "header_index lib hs x") (auto dest: header_index_Some)

lemma unindex_suffix:
  assumes "distinct (map (header_hash lib) hs)"
  shows "unindex_headers lib (header_index lib hs) (drop n hs) = header_index lib (take n hs)"
proof
  fix x
  show "unindex_headers lib (header_index lib hs) (drop n hs) x = header_index lib (take n hs) x"
  proof (cases "x \<in> header_hash lib ` set (drop n hs)")
    case True
    have "distinct (map (header_hash lib) (take n hs @ drop n hs))" using assms by simp
    then have "x \<notin> header_hash lib ` set (take n hs)" using True by (auto simp del: append_take_drop_id)
    then show ?thesis using True by (simp add: unindex_headers_eq header_index_None)
  next
    case False
    have "snd ` set (drop n (enumerate 0 hs)) = set (drop n hs)"
      by (simp add: drop_enumerate flip: set_map)
    then have "header_index lib hs x = header_index lib (take n hs) x"
      using False by (subst header_index_split [of _ _ n]) (simp add: index_headers_other)
    then show ?thesis using False by (simp add: unindex_headers_eq)
  qed
qed

subsection \<open>Hash chains do not repeat\<close>

lemma contextual_linked:
  assumes "contextual lib hc hs" "Suc i < length hs"
  shows "hl_prev lib (hs ! Suc i) = header_hash lib (hs ! i)"
proof -
  have "validate_context lib hc (take (Suc i) hs) (hs ! Suc i) = Inr ()" using assms by (simp add: contextual_def)
  then show ?thesis using assms(2) by (auto simp: validate_context_def take_Suc_conv_app_nth split: if_splits)
qed

lemma contextual_distinct:
  assumes "contextual lib hc hs" "sound_hashes lib H" "set hs \<subseteq> H"
  shows "distinct (map (header_hash lib) hs)"
proof -
  let ?R = "{(a, b). a \<in> H \<and> b \<in> H \<and> hl_prev lib b = header_hash lib a}"
  have path: "(hs ! i, hs ! (i + Suc d)) \<in> ?R\<^sup>+" if "i + Suc d < length hs" for i d
    using that
  proof (induction d)
    case 0
    then show ?case using assms(3) contextual_linked [OF assms(1), of i] by (auto intro!: r_into_trancl)
  next
    case (Suc d)
    have "(hs ! (i + Suc d), hs ! Suc (i + Suc d)) \<in> ?R"
      using Suc.prems assms(3) contextual_linked [OF assms(1), of "i + Suc d"] by auto
    with Suc show ?case by (simp add: trancl_into_trancl)
  qed
  have "hs ! i \<noteq> hs ! j" if "i < j" "j < length hs" for i j
  proof
    assume eq: "hs ! i = hs ! j"
    have "j = i + Suc (j - Suc i)" using that by simp
    then have "(hs ! i, hs ! j) \<in> ?R\<^sup>+" using path [of i "j - Suc i"] that by simp
    then show False using eq assms(2) by (simp add: sound_hashes_def acyclic_def)
  qed
  then have "distinct hs" by (metis distinct_conv_nth nat_neq_iff)
  moreover have "inj_on (header_hash lib) (set hs)"
    using assms(2,3) inj_on_subset by (auto simp: sound_hashes_def)
  ultimately show ?thesis by (simp add: distinct_map)
qed

subsection \<open>Accepting headers\<close>

lemma accepted_Cons: "accepted lib hc hs (h # fresh) now \<longleftrightarrow>
   validate_next lib hc hs h now = Inr () \<and> accepted lib hc (hs @ [h]) fresh now"
  by (auto simp: accepted_def less_Suc_eq_0_disj all_conj_distrib)

lemma accepted_contextual:
  assumes "contextual lib hc hs" "accepted lib hc hs fresh now"
  shows "contextual lib hc (hs @ fresh)"
  unfolding contextual_def
proof (intro allI impI)
  fix k assume k: "1 \<le> k \<and> k < length (hs @ fresh)"
  show "validate_context lib hc (take k (hs @ fresh)) ((hs @ fresh) ! k) = Inr ()"
  proof (cases "k < length hs")
    case True
    then show ?thesis using assms(1) k by (simp add: contextual_def nth_append)
  next
    case False
    then have "validate_next lib hc (hs @ take (k - length hs) fresh) (fresh ! (k - length hs)) now = Inr ()"
      using assms(2) k by (auto simp: accepted_def)
    then show ?thesis using False by (auto simp: validate_next_def nth_append)
  qed
qed

lemma contextual_take: "contextual lib hc hs \<Longrightarrow> contextual lib hc (take n hs)"
  by (auto simp: contextual_def min_def)

lemma contextual_prefix: "contextual lib hc (hs @ hs') \<Longrightarrow> contextual lib hc hs"
  using contextual_take [of lib hc "hs @ hs'" "length hs"] by simp

lemma append_loop_cases:
  assumes "hc_ok lib hc" "original \<le> length (hc_headers hc)" "sound_hashes lib H"
    and "set (hc_headers hc) \<subseteq> H" "set fresh \<subseteq> H"
  shows "snd (append_loop lib original hc fresh now) = with_headers lib hc
      (if accepted lib hc (hc_headers hc) fresh now then hc_headers hc @ fresh else take original (hc_headers hc)) \<and>
    (fst (append_loop lib original hc fresh now) = Inr () \<longleftrightarrow> accepted lib hc (hc_headers hc) fresh now)"
  using assms
proof (induction fresh arbitrary: hc)
  case Nil
  then show ?case by (simp add: accepted_def hc_ok_with)
next
  case (Cons h fresh)
  let ?hs = "hc_headers hc"
  show ?case
  proof (cases "validate_next lib hc ?hs h now")
    case (Inl e)
    have "distinct (map (header_hash lib) ?hs)"
      using Cons.prems contextual_distinct by (metis hc_ok_def)
    then show ?thesis using Inl Cons.prems(1)
      by (simp add: accepted_Cons hc_ok_def unindex_suffix with_headers_def)
  next
    case (Inr u)
    let ?hc = "with_headers lib hc (?hs @ [h])"
    have step: "hc\<lparr>hc_index := (hc_index hc)(header_hash lib h := Some (length ?hs)), hc_headers := ?hs @ [h]\<rparr> = ?hc"
      using Cons.prems(1) by (simp add: with_headers_def hc_ok_def header_index_snoc)
    have "accepted lib hc ?hs [h] now" using Inr by (simp add: accepted_def)
    then have ok: "hc_ok lib ?hc"
      using Cons.prems(1) accepted_contextual [of lib hc ?hs "[h]" now] unfolding hc_ok_with_iff by (simp add: hc_ok_def)
    have anchor: "accepted lib ?hc = accepted lib hc" by (simp add: accepted_def fun_eq_iff anchor_simps)
    have run: "append_loop lib original hc (h # fresh) now = append_loop lib original ?hc fresh now"
      by (simp add: Inr step)
    from Cons.IH [OF ok] Cons.prems show ?thesis
      unfolding run by (simp add: accepted_Cons Inr anchor)
  qed
qed

lemma branch_candidate_eq:
  "branch_candidate lib hc base fresh now = Inr candidate \<longleftrightarrow>
   accepted lib hc (take (Suc base) (hc_headers hc)) fresh now \<and> candidate = take (Suc base) (hc_headers hc) @ fresh"
proof -
  have "rfold (\<lambda>candidate header. rbind (validate_next lib hc candidate header now) (\<lambda>_. Inr (candidate @ [header]))) hs fresh =
      Inr candidate \<longleftrightarrow> accepted lib hc hs fresh now \<and> candidate = hs @ fresh" for hs
    by (induction fresh arbitrary: hs) (auto simp: accepted_Cons, simp_all add: accepted_def)
  then show ?thesis by (simp add: branch_candidate_def)
qed

end
