(* ===== verification/Header_Properties.thy ===== *)
theory Header_Properties
  imports Header_Inv
begin

section \<open>Properties of the header chain\<close>

subsection \<open>Proof of work on several threads\<close>

lemma part_verdict_append:
  "part_verdict lib c offset (xs @ ys) = rbind (part_verdict lib c offset xs) (\<lambda>_. part_verdict lib c (offset + length xs) ys)"
proof (induction xs arbitrary: offset)
  case (Cons x xs)
  then show ?case by (cases "check_header_pow (hl_pow lib) x c") simp_all
qed simp

lemma batch_verdict_bind:
  "batch_verdict (rbind v (\<lambda>_. v')) = rbind (batch_verdict v) (\<lambda>_. batch_verdict v')"
  by (cases v) (simp_all add: batch_verdict_def)

lemma chunked_verdict:
  "0 < n \<Longrightarrow> rmap (\<lambda>_. ()) (rtraverse batch_verdict (map (\<lambda>(slot, part). part_verdict lib c (slot * n) part) (enumerate k (chunks n hs)))) =
   batch_verdict (part_verdict lib c (k * n) hs)"
proof (induction n hs arbitrary: k rule: chunks.induct)
  case (1 n hs)
  show ?case
  proof (cases "hs = []")
    case True
    then show ?thesis by (simp add: batch_verdict_def)
  next
    case False
    let ?rest = "rtraverse batch_verdict (map (\<lambda>(slot, part). part_verdict lib c (slot * n) part) (enumerate (Suc k) (chunks n (drop n hs))))"
    have rest: "rmap (\<lambda>_. ()) ?rest = batch_verdict (part_verdict lib c (Suc k * n) (drop n hs))"
      using 1 False by simp
    have tail: "part_verdict lib c (k * n + length (take n hs)) (drop n hs) = part_verdict lib c (Suc k * n) (drop n hs)"
      by (cases "n \<le> length hs") (simp_all add: min_def algebra_simps)
    have "part_verdict lib c (k * n) hs = rbind (part_verdict lib c (k * n) (take n hs)) (\<lambda>_. part_verdict lib c (Suc k * n) (drop n hs))"
      using part_verdict_append [of lib c "k * n" "take n hs" "drop n hs"] tail by simp
    then have seq: "batch_verdict (part_verdict lib c (k * n) hs) =
        rbind (batch_verdict (part_verdict lib c (k * n) (take n hs))) (\<lambda>_. rmap (\<lambda>_. ()) ?rest)"
      by (simp only: batch_verdict_bind rest)
    show ?thesis unfolding seq using 1(2) False
      by (subst chunks.simps) (cases "batch_verdict (part_verdict lib c (k * n) (take n hs))"; cases ?rest; simp)
  qed
qed

lemma prove_batch_eq:
  "prove_batch lib c hs =
     (if hs = [] then Inr () else if hl_parallelism lib = None then Inl RtIo else batch_verdict (part_verdict lib c 0 hs))"
proof (cases "hl_parallelism lib")
  case (Some others)
  let ?workers = "min (min (Suc others) P2P_POW_WORKERS) (length hs)"
  have "0 < div_ceil (length hs) ?workers" if "hs \<noteq> []"
  proof -
    have "0 < ?workers" using that by (simp add: P2P_POW_WORKERS_def)
    moreover have "?workers \<le> length hs + ?workers - 1" using that by (cases hs) simp_all
    ultimately show ?thesis by (simp add: div_ceil_def div_greater_zero_iff)
  qed
  then show ?thesis using Some chunked_verdict [of "div_ceil (length hs) ?workers" lib c 0 hs]
    by (simp add: prove_batch_def Let_def)
qed (simp add: prove_batch_def)

lemma part_verdict_Inr: "part_verdict lib c offset hs = Inr u \<longleftrightarrow> (\<forall>h \<in> set hs. check_header_pow (hl_pow lib) h c = Inr ())"
  by (induction hs arbitrary: offset) simp_all

lemma prove_batch_Inr:
  "prove_batch lib c hs = Inr u \<longleftrightarrow>
     hs = [] \<or> hl_parallelism lib \<noteq> None \<and> (\<forall>h \<in> set hs. check_header_pow (hl_pow lib) h c = Inr ())"
  by (simp add: prove_batch_eq batch_verdict_def part_verdict_Inr)

subsection \<open>Extending\<close>

lemma known_headers_bound: "known_headers lib hc batch fork \<le> length (hc_headers hc) - Suc fork"
  and known_headers_batch: "known_headers lib hc batch fork \<le> length batch"
proof -
  have "known_headers lib hc batch fork \<le> length (zip batch (drop (fork + 1) (hc_headers hc)))"
    unfolding known_headers_def by (rule length_takeWhile_le)
  then show "known_headers lib hc batch fork \<le> length (hc_headers hc) - Suc fork"
    "known_headers lib hc batch fork \<le> length batch" by simp_all
qed

lemma known_headers_equal:
  assumes "inj_on (header_hash lib) H" "set (hc_headers hc) \<subseteq> H" "set batch \<subseteq> H"
  shows "take (known_headers lib hc batch fork) batch = take (known_headers lib hc batch fork) (drop (Suc fork) (hc_headers hc))"
proof -
  let ?held = "drop (Suc fork) (hc_headers hc)" and ?k = "known_headers lib hc batch fork"
  let ?P = "\<lambda>(incoming, held). header_hash lib incoming = header_hash lib held"
  have "batch ! i = ?held ! i" if "i < ?k" for i
  proof -
    have len: "i < length batch" "i < length ?held"
      using that known_headers_bound [of lib hc batch fork] known_headers_batch [of lib hc batch fork] by simp_all
    have "takeWhile ?P (zip batch ?held) ! i = zip batch ?held ! i"
      using that by (intro takeWhile_nth) (simp add: known_headers_def)
    moreover have "takeWhile ?P (zip batch ?held) ! i \<in> set (takeWhile ?P (zip batch ?held))"
      using that by (intro nth_mem) (simp add: known_headers_def)
    ultimately have "?P (zip batch ?held ! i)" by (metis set_takeWhileD)
    then have "header_hash lib (batch ! i) = header_hash lib (?held ! i)" using len by (simp add: nth_zip)
    moreover have "batch ! i \<in> H" using len(1) assms(3) nth_mem by blast
    moreover have "?held ! i \<in> H" using len(2) assms(2) by (meson in_set_dropD nth_mem subsetD)
    ultimately show ?thesis using assms(1) by (simp add: inj_on_def)
  qed
  moreover have "?k \<le> length batch" "?k \<le> length ?held"
    using known_headers_bound [of lib hc batch fork] known_headers_batch [of lib hc batch fork] by simp_all
  ultimately show ?thesis by (intro nth_equalityI) simp_all
qed

lemma adopt_branch_eq:
  assumes "hc_ok lib hc" "distinct (map (header_hash lib) (hc_headers hc))" "base < length (hc_headers hc)"
    "candidate = take (Suc base) (hc_headers hc) @ fresh"
  shows "adopt_branch lib hc base candidate = with_headers lib hc candidate"
proof -
  have "take (Suc base) candidate = take (Suc base) (hc_headers hc)" using assms(3,4) by simp
  then show ?thesis
    using assms(1) unindex_suffix [OF assms(2), of "Suc base"] header_index_split [of lib candidate "Suc base"]
    by (simp add: adopt_branch_def with_headers_def hc_ok_def)
qed

text \<open>The chain with the headers after \<open>fork\<close> replaced by a batch.\<close>

definition grafted :: "'h header_chain \<Rightarrow> nat \<Rightarrow> 'h list \<Rightarrow> 'h list" where
  "grafted hc fork batch = take (Suc fork) (hc_headers hc) @ batch"

definition fresh_ok :: "('h, 'work) header_lib \<Rightarrow> 'h header_chain \<Rightarrow> nat \<Rightarrow> 'h list \<Rightarrow> u32 \<Rightarrow> bool" where
  "fresh_ok lib hc base fresh now \<longleftrightarrow>
     accepted lib hc (take (Suc base) (hc_headers hc)) fresh now \<and> (\<forall>h \<in> set fresh. check_header_pow (hl_pow lib) h (hc_chain hc) = Inr ())"

definition more_work :: "('h, 'work) header_lib \<Rightarrow> 'h list \<Rightarrow> 'h list \<Rightarrow> bool" where
  "more_work lib fresh dropped \<longleftrightarrow>
     (\<exists>w w'. chain_work (hl_pow lib) fresh = Inr w \<and> chain_work (hl_pow lib) dropped = Inr w' \<and> \<not> hl_work_le lib w w')"

definition extend_outcome ::
  "('h, 'work) header_lib \<Rightarrow> 'h header_chain \<Rightarrow> 'h list \<Rightarrow> u32 \<Rightarrow> rt_error + extension \<Rightarrow> 'h header_chain \<Rightarrow> bool" where
  "extend_outcome lib hc batch now r hc' \<longleftrightarrow>
     (case r of
        Inl _ \<Rightarrow> hc' = hc
      | Inr Ignored \<Rightarrow> hc' = hc
      | Inr (Appended n) \<Rightarrow>
          0 < n \<and> n \<le> length batch \<and>
          hc' = with_headers lib hc (hc_headers hc @ drop (length batch - n) batch) \<and>
          fresh_ok lib hc (length (hc_headers hc) - 1) (drop (length batch - n) batch) now
      | Inr (Reorganized height n) \<Rightarrow>
          (\<exists>base < length (hc_headers hc) - 1. height = hc_start hc + word_of_nat base \<and> 0 < n \<and> n \<le> length batch \<and>
             hc' = with_headers lib hc (take (Suc base) (hc_headers hc) @ drop (length batch - n) batch) \<and>
             fresh_ok lib hc base (drop (length batch - n) batch) now \<and>
             more_work lib (drop (length batch - n) batch) (drop (Suc base) (hc_headers hc))))"

lemma reorganise_cases:
  assumes "base < 2 ^ 64" "reorganise lib hc base fresh now = (r, hc')"
  obtains (kept) "hc' = hc" "r = Inr Ignored \<or> (\<exists>e. r = Inl e)"
    | (adopted) candidate w w' where "branch_candidate lib hc base fresh now = Inr candidate"
      "branch_work lib base candidate = Inr w" "branch_work lib base (hc_headers hc) = Inr w'" "\<not> hl_work_le lib w w'"
      "r = Inr (Reorganized (hc_start hc + word_of_nat base) (length fresh))" "hc' = adopt_branch lib hc base candidate"
proof -
  have n: "rt_try_from base = (Inr (word_of_nat base) :: rt_error + u64)"
    using assms(1) by (simp add: rt_try_from_def try_from_def)
  note run = assms(2) [unfolded reorganise_def n]
  show thesis
  proof (cases "branch_candidate lib hc base fresh now")
    case (Inl e)
    then show ?thesis using run kept by auto
  next
    case c: (Inr candidate)
    show ?thesis
    proof (cases "branch_work lib base candidate")
      case (Inl e)
      then show ?thesis using run kept c by auto
    next
      case w: (Inr w)
      show ?thesis
      proof (cases "branch_work lib base (hc_headers hc)")
        case (Inl e)
        then show ?thesis using run kept c w by auto
      next
        case (Inr w')
        note run = run [unfolded c rbind_simps w Inr sum.case prod.case rmap_simps]
        show ?thesis
        proof (cases "hl_work_le lib w w'")
          case True
          then have "hc' = hc \<and> r = Inr Ignored" using run by auto
          then show ?thesis by (intro kept) simp_all
        next
          case False
          then have "r = Inr (Reorganized (hc_start hc + word_of_nat base) (length fresh)) \<and> hc' = adopt_branch lib hc base candidate"
            using run by auto
          then show ?thesis by (intro adopted [OF c w Inr False]) simp_all
        qed
      qed
    qed
  qed
qed

lemma extend_reaches:
  assumes "HeaderChain_extend lib hc batch now = (r, hc')"
  obtains (kept) "hc' = hc" "r = Inr Ignored \<or> (\<exists>e. r = Inl e)"
    | (fresh) fork k where "batch \<noteq> []" "hc_index hc (hl_prev lib (hd batch)) = Some fork"
      "k = known_headers lib hc batch fork" "drop k batch \<noteq> []"
      "length (hc_headers hc) + length (drop k batch) \<le> P2P_HEADER_CACHE_MAX"
      "prove_batch lib (hc_chain hc) (drop k batch) = Inr ()"
      "extend_fresh lib hc (fork + k) (drop k batch) now = (r, hc')"
proof (cases batch)
  case Nil
  then show ?thesis using assms kept by (auto simp: HeaderChain_extend_def)
next
  case (Cons first rest)
  show ?thesis
  proof (cases "hc_index hc (hl_prev lib first)")
    case None
    then show ?thesis using assms kept Cons by (auto simp: HeaderChain_extend_def)
  next
    case (Some fork)
    let ?k = "known_headers lib hc batch fork"
    note run = assms [unfolded HeaderChain_extend_def Cons list.case Some option.case Let_def, folded Cons]
    show ?thesis
    proof (cases "prove_batch lib (hc_chain hc) (drop ?k batch)")
      case (Inl e)
      then have "hc' = hc \<and> (r = Inr Ignored \<or> (\<exists>e. r = Inl e))" using run by (auto simp: extend_fresh_def split: if_splits)
      then show ?thesis by (intro kept) simp_all
    next
      case (Inr u)
      show ?thesis
      proof (cases "drop ?k batch = [] \<or> P2P_HEADER_CACHE_MAX < length (hc_headers hc) + length (drop ?k batch)")
        case True
        then have "hc' = hc \<and> (r = Inr Ignored \<or> (\<exists>e. r = Inl e))" using run by (auto split: if_splits)
        then show ?thesis by (intro kept) simp_all
      next
        case False
        have "batch \<noteq> []" "hc_index hc (hl_prev lib (hd batch)) = Some fork" using Cons Some by simp_all
        moreover have "extend_fresh lib hc (fork + ?k) (drop ?k batch) now = (r, hc')"
          using run False by (simp only: de_Morgan_disj if_False)
        moreover have "prove_batch lib (hc_chain hc) (drop ?k batch) = Inr ()" using Inr by simp
        ultimately show ?thesis using False by (intro fresh [OF _ _ refl]) (simp_all only: de_Morgan_disj not_less not_False_eq_True)
      qed
    qed
  qed
qed

lemma extend_cases:
  assumes ok: "hc_ok lib hc" and sound: "sound_hashes lib (set (hc_headers hc) \<union> set batch)"
    and run: "HeaderChain_extend lib hc batch now = (r, hc')"
  shows "extend_outcome lib hc batch now r hc' \<and> hc_ok lib hc'"
proof -
  let ?hs = "hc_headers hc"
  have ctx: "contextual lib hc ?hs" "?hs \<noteq> []" using ok by (simp_all add: hc_ok_def)
  have dist: "distinct (map (header_hash lib) ?hs)" using ctx(1) sound by (rule contextual_distinct) simp
  from run show ?thesis
  proof (cases rule: extend_reaches)
    case kept
    then show ?thesis using ok by (auto simp: extend_outcome_def)
  next
    case (fresh fork k)
    let ?fresh = "drop k batch" and ?base = "fork + k"
    have len: "0 < length ?fresh" "length ?fresh \<le> length batch" using fresh(4) by simp_all
    have suffix: "drop (length batch - length ?fresh) batch = ?fresh"
      using known_headers_batch [of lib hc batch fork] fresh(3) by simp
    have pow: "\<forall>h \<in> set ?fresh. check_header_pow (hl_pow lib) h (hc_chain hc) = Inr ()"
      using fresh(4,6) by (simp add: prove_batch_Inr)
    have "fork < length ?hs" using fresh(2) ok header_index_Some [of lib ?hs _ fork] by (simp add: hc_ok_def)
    then have base: "?base < length ?hs" using known_headers_bound [of lib hc batch fork] fresh(3) by simp
    show ?thesis
    proof (cases "?base = length ?hs - 1")
      case True
      have sub: "set ?fresh \<subseteq> set ?hs \<union> set batch" using set_drop_subset [of k batch] by blast
      have res: "r = rmap (\<lambda>_. Appended (length ?fresh)) (fst (append_headers lib hc ?fresh now))"
        "hc' = snd (append_headers lib hc ?fresh now)"
        using fresh(6,7) True by (auto simp: extend_fresh_def split: prod.splits)
      note cases = append_loop_cases [OF ok order_refl sound _ sub, of now, folded append_headers_def, simplified]
      show ?thesis
      proof (cases "accepted lib hc ?hs ?fresh now")
        case False
        then have "hc' = hc" "\<exists>e. r = Inl e" using cases res hc_ok_with [OF ok]
          by (simp, cases "fst (append_headers lib hc ?fresh now)") simp_all
        then show ?thesis using ok by (auto simp: extend_outcome_def)
      next
        case acc: True
        then have hc': "hc' = with_headers lib hc (?hs @ ?fresh)" "r = Inr (Appended (length ?fresh))"
          using cases res by simp_all
        have whole: "take (Suc (length ?hs - 1)) ?hs = ?hs" using ctx(2) by simp
        have "extend_outcome lib hc batch now r hc'"
          unfolding extend_outcome_def hc' sum.case extension.case suffix fresh_ok_def whole using acc pow len by simp
        then show ?thesis using accepted_contextual [OF ctx(1) acc] ctx(2) by (simp add: hc' hc_ok_with_iff)
      qed
    next
      case False
      then have run: "reorganise lib hc ?base ?fresh now = (r, hc')" using fresh(6,7) by (simp add: extend_fresh_def)
      have "?base < 2 ^ 64" using fresh(5) base by (simp add: P2P_HEADER_CACHE_MAX_def)
      from this run show ?thesis
      proof (cases rule: reorganise_cases)
        case kept
        then show ?thesis using ok by (auto simp: extend_outcome_def)
      next
        case (adopted candidate w w')
        have cand: "accepted lib hc (take (Suc ?base) ?hs) ?fresh now" "candidate = take (Suc ?base) ?hs @ ?fresh"
          using adopted(1) by (simp_all only: branch_candidate_eq)
        have hc': "hc' = with_headers lib hc candidate" using adopt_branch_eq [OF ok dist base cand(2)] adopted(6) by simp
        have "drop (Suc ?base) candidate = ?fresh" using base cand(2) by simp
        then have more: "more_work lib ?fresh (drop (Suc ?base) ?hs)"
          using adopted(2-4) by (auto simp: branch_work_def more_work_def)
        have ctx': "contextual lib hc candidate"
          unfolding cand(2) by (rule accepted_contextual [OF contextual_take [OF ctx(1)] cand(1)])
        have "?base < length ?hs - 1" using False base by simp
        then have "extend_outcome lib hc batch now r hc'"
          unfolding extend_outcome_def adopted(5) sum.case extension.case suffix fresh_ok_def
          using hc' cand pow len more by (intro exI [of _ ?base]) simp
        then show ?thesis using ctx' cand(2) ctx(2) by (simp add: hc' hc_ok_with_iff)
      qed
    qed
  qed
qed

end
