(* ===== verification/Header_Restore.thy ===== *)
theory Header_Restore
  imports Header_Properties
begin

section \<open>Restoring the header chain from its cache\<close>

text \<open>
  What opening promises whatever the file holds, and that a persisted chain is restored. The codec of
  the \<open>bitcoin\<close> crate enters as \<open>header_codec\<close>: a header is 80 bytes and decodes from its encoding.
\<close>

definition header_codec :: "('h, 'work) header_lib \<Rightarrow> 'h set \<Rightarrow> bool" where
  "header_codec lib H \<longleftrightarrow>
     (\<forall>h \<in> H. length (pl_serialize (hl_pow lib) h) = HEADER_SIZE \<and> hl_deserialize lib (pl_serialize (hl_pow lib) h) = Some h)"

text \<open>What a file holds: the headers it decodes to.\<close>

definition cached_headers :: "('h, 'work) header_lib \<Rightarrow> bytes \<Rightarrow> 'h list \<Rightarrow> bool" where
  "cached_headers lib raw hs \<longleftrightarrow>
     length raw mod HEADER_SIZE = 0 \<and> list_all2 (\<lambda>part h. hl_deserialize lib part = Some h) (as_chunks HEADER_SIZE raw) hs"

text \<open>The headers whose proof of work is checked again.\<close>

definition revalidated :: "'h list \<Rightarrow> 'h list" where
  "revalidated hs = drop (max (length hs - P2P_HEADER_CACHE_REVALIDATE) 1) hs"

definition anchor_only :: "('h, 'work) header_lib \<Rightarrow> 'h header_chain \<Rightarrow> bool" where
  "anchor_only lib hc \<longleftrightarrow> length (hc_headers hc) = 1 \<and> hc_index hc = header_index lib (hc_headers hc)"

lemma anchor_only_ok: "anchor_only lib hc \<Longrightarrow> hc_ok lib hc"
  by (auto simp: anchor_only_def hc_ok_def contextual_def)

lemma header_index_single: "header_index lib [h] = [header_hash lib h \<mapsto> 0]"
  by (simp add: header_index_def index_headers_def)

lemma context_list:
  "rtraverse (\<lambda>(offset, header). rt_context (m offset) (validate_context lib hc (take offset hs) header)) (drop 1 (enumerate 0 hs)) = Inr us \<Longrightarrow>
   contextual lib hc hs"
proof -
  let ?f = "\<lambda>(offset, header). rt_context (m offset) (validate_context lib hc (take offset hs) header)"
  assume run: "rtraverse ?f (drop 1 (enumerate 0 hs)) = Inr us"
  show ?thesis unfolding contextual_def
  proof (intro allI impI)
    fix k assume k: "1 \<le> k \<and> k < length hs"
    have "drop 1 (enumerate 0 hs) ! (k - 1) = (k, hs ! k)" using k by (simp add: nth_enumerate_eq)
    moreover have "k - 1 < length (drop 1 (enumerate 0 hs))" using k by (simp add: diff_less_mono)
    ultimately have "?f (k, hs ! k) = Inr (us ! (k - 1))"
      using list_all2_nthD [OF run [unfolded rtraverse_eq_Inr], of "k - 1"] by (simp only:)
    then show "validate_context lib hc (take k hs) (hs ! k) = Inr ()" by simp
  qed
qed

lemma contextual_list:
  assumes "contextual lib hc hs"
  shows "\<exists>us. rtraverse (\<lambda>(offset, header). rt_context (m offset) (validate_context lib hc (take offset hs) header))
    (drop 1 (enumerate 0 hs)) = Inr us"
proof -
  have "rtraverse (\<lambda>(offset, header). rt_context (m offset) (validate_context lib hc (take offset hs) header))
      (drop 1 (enumerate 0 hs)) = Inr (map (\<lambda>_. ()) (drop 1 (enumerate 0 hs)))"
  proof (rule rtraverse_all_Inr)
    fix x assume "x \<in> set (drop 1 (enumerate 0 hs))"
    then obtain i where "i < length hs - 1" "x = (Suc i, hs ! Suc i)"
      by (auto simp: in_set_conv_nth nth_enumerate_eq)
    then show "(case x of (offset, header) \<Rightarrow> rt_context (m offset) (validate_context lib hc (take offset hs) header)) = Inr ()"
      using assms by (simp add: contextual_def)
  qed
  then show ?thesis by blast
qed

lemma load_headers_eq:
  assumes "hc_headers hc = [anchor]"
  shows "load_headers lib hc raw = Inr hc' \<longleftrightarrow>
    (\<exists>hs. cached_headers lib raw (anchor # hs) \<and> contextual lib hc (anchor # hs) \<and>
       prove_batch lib (hc_chain hc) (revalidated (anchor # hs)) = Inr () \<and> hc' = with_headers lib hc (anchor # hs))"
    (is "?L \<longleftrightarrow> ?R")
proof
  have chunked: "HEADER_SIZE \<le> length raw \<Longrightarrow> as_chunks HEADER_SIZE raw = take HEADER_SIZE raw # as_chunks HEADER_SIZE (drop HEADER_SIZE raw)"
    by (subst as_chunks.simps) (simp add: HEADER_SIZE_def)
  have count: "length raw div HEADER_SIZE = length hs" if "cached_headers lib raw hs" for hs
  proof -
    have "length raw = HEADER_SIZE * (length raw div HEADER_SIZE)" using that by (auto simp: cached_headers_def)
    then have "length (as_chunks HEADER_SIZE raw) = length raw div HEADER_SIZE"
      using concat_as_chunks [of HEADER_SIZE raw "length raw div HEADER_SIZE"] by (simp add: HEADER_SIZE_def)
    then show ?thesis using that by (auto simp: cached_headers_def dest: list_all2_lengthD)
  qed
  have max: "max (max n k - k) 1 = max (n - k) 1" for n k :: nat by simp
  show ?R if ?L
  proof -
    from that obtain stored hs us where len: "length raw mod HEADER_SIZE = 0" "HEADER_SIZE \<le> length raw"
      and stored: "hl_deserialize lib (take HEADER_SIZE raw) = Some stored" "stored = anchor"
      and hs: "list_all2 (\<lambda>part h. hl_deserialize lib part = Some h) (as_chunks HEADER_SIZE raw) hs"
      and ctx: "rtraverse (\<lambda>(offset, header). rt_context (''header cache at offset '' @ dec offset)
        (validate_context lib hc (take offset hs) header)) (drop 1 (enumerate 0 hs)) = Inr us"
      and pow: "prove_batch lib (hc_chain hc) (drop (max (max (length raw div HEADER_SIZE) P2P_HEADER_CACHE_REVALIDATE - P2P_HEADER_CACHE_REVALIDATE) 1) hs) = Inr ()"
      and hc': "hc' = hc\<lparr>hc_index := index_headers lib Map.empty (enumerate 0 hs), hc_headers := hs\<rparr>"
      unfolding load_headers_def using assms by (auto simp: Let_def rtraverse_eq_Inr)
    from hs stored obtain rest where rest: "hs = anchor # rest" unfolding chunked [OF len(2)] by (auto simp: list_all2_Cons1)
    have "cached_headers lib raw hs" using len(1) hs by (simp add: cached_headers_def)
    moreover note context_list [OF ctx]
    moreover have "hc' = with_headers lib hc hs" unfolding hc' with_headers_def header_index_def by simp
    moreover have "prove_batch lib (hc_chain hc) (revalidated hs) = Inr ()"
      using pow unfolding count [OF \<open>cached_headers lib raw hs\<close>] max revalidated_def .
    ultimately show ?thesis unfolding rest by blast
  qed
  show ?L if ?R
  proof -
    from that obtain hs where hs: "cached_headers lib raw (anchor # hs)" "contextual lib hc (anchor # hs)"
      "prove_batch lib (hc_chain hc) (revalidated (anchor # hs)) = Inr ()" "hc' = with_headers lib hc (anchor # hs)" by blast
    have nonempty: "as_chunks HEADER_SIZE raw \<noteq> []" using hs(1) by (auto simp: cached_headers_def)
    then have len: "HEADER_SIZE \<le> length raw" by (subst (asm) as_chunks.simps) (auto split: if_splits)
    have stored: "hl_deserialize lib (take HEADER_SIZE raw) = Some anchor"
      using hs(1) unfolding cached_headers_def chunked [OF len] by simp
    have all: "rtraverse (\<lambda>part. ok_or RtTransaction (hl_deserialize lib part)) (as_chunks HEADER_SIZE raw) = Inr (anchor # hs)"
      using hs(1) by (simp add: rtraverse_eq_Inr cached_headers_def)
    obtain us where ctx: "rtraverse (\<lambda>(offset, header). rt_context (''header cache at offset '' @ dec offset)
        (validate_context lib hc (take offset (anchor # hs)) header)) (drop 1 (enumerate 0 (anchor # hs))) = Inr us"
      using contextual_list [OF hs(2), of "\<lambda>offset. ''header cache at offset '' @ dec offset"] by blast
    have pow: "prove_batch lib (hc_chain hc) (drop (max (max (length raw div HEADER_SIZE) P2P_HEADER_CACHE_REVALIDATE -
        P2P_HEADER_CACHE_REVALIDATE) 1) (anchor # hs)) = Inr ()"
      unfolding count [OF hs(1)] max using hs(3) unfolding revalidated_def .
    have mod: "length raw mod HEADER_SIZE = 0" using hs(1) by (simp add: cached_headers_def)
    show ?thesis
      unfolding load_headers_def assms list.sel stored all ok_or_simps rbind_simps Let_def ctx pow hs(4) with_headers_def header_index_def
      using len mod by simp
  qed
qed

text \<open>Opening: the anchor alone, or a chain that passed the checks, read from the file.\<close>

definition restored :: "('h, 'work) header_lib \<Rightarrow> 'h header_chain \<Rightarrow> bytes option \<Rightarrow> 'h header_chain \<Rightarrow> bytes option \<Rightarrow> bool" where
  "restored lib hc stored hc' stored' \<longleftrightarrow>
     hc_ok lib hc' \<and>
     (hc' = hc \<and> stored' = None \<or>
      (\<exists>raw hs. stored = Some raw \<and> stored' = Some raw \<and> cached_headers lib raw (hc_headers hc @ hs) \<and>
         hc' = with_headers lib hc (hc_headers hc @ hs) \<and>
         (\<forall>h \<in> set (revalidated (hc_headers hc @ hs)). check_header_pow (hl_pow lib) h (hc_chain hc) = Inr ())))"

lemma cache_exists_file: "cache_exists cs w = (r, w') \<Longrightarrow> w_file w' = w_file w \<and> (\<forall>b. r = Inr b \<longrightarrow> b = (w_file w \<noteq> None))"
  by (auto simp: cache_exists_def split: prod.splits bool.splits)

lemma read_bounded_same: "read_bounded fs limit w = (r, w') \<Longrightarrow> w_file w' = w_file w \<and> (\<forall>bs. r = Inr bs \<longrightarrow> w_file w = Some bs)"
  by (auto simp: read_bounded_def dest: read_into_content split: prod.splits option.splits if_splits)

lemma HeaderChain_load_cases:
  assumes "HeaderChain_load lib cs hc w = (r, w')"
  shows "w_file w' = w_file w \<and> (\<forall>hc'. r = Inr hc' \<longrightarrow> (\<exists>raw. w_file w = Some raw \<and> load_headers lib hc raw = Inr hc'))"
proof -
  obtain q v where read: "read_bounded (cs_files cs) (P2P_HEADER_CACHE_MAX * HEADER_SIZE) w = (q, v)"
    by (cases "read_bounded (cs_files cs) (P2P_HEADER_CACHE_MAX * HEADER_SIZE) w")
  note same = read_bounded_same [OF read]
  show ?thesis
  proof (cases q)
    case (Inl e)
    then show ?thesis using assms read same by (auto simp: HeaderChain_load_def ibind_app imap_err_def)
  next
    case (Inr raw)
    then show ?thesis using assms read same by (auto simp: HeaderChain_load_def ibind_app imap_err_def act_apps)
  qed
qed

lemma restore_checked:
  assumes "anchor_only lib hc" "HeaderChain_restore lib cs hc w = (Inr hc', w')"
  shows "restored lib hc (w_file w) hc' (w_file w')"
proof -
  obtain anchor where anchor: "hc_headers hc = [anchor]" using assms(1) by (auto simp: anchor_only_def length_Suc_conv)
  note ok = anchor_only_ok [OF assms(1)]
  obtain q v where stat: "cache_exists cs w = (q, v)" by (cases "cache_exists cs w")
  note same = cache_exists_file [OF stat]
  from assms(2) stat obtain b where q: "q = Inr b" by (cases q) (auto simp: HeaderChain_restore_def ibind_app)
  show ?thesis
  proof (cases b)
    case False
    then show ?thesis using assms(2) stat q same ok by (auto simp: HeaderChain_restore_def ibind_app iret_app restored_def)
  next
    case True
    obtain s u where load: "HeaderChain_load lib cs hc v = (s, u)" by (cases "HeaderChain_load lib cs hc v")
    note cases = HeaderChain_load_cases [OF load]
    show ?thesis
    proof (cases s)
      case (Inr loaded)
      then have eq: "hc' = loaded" "w' = u" using assms(2) stat q True load by (auto simp: HeaderChain_restore_def ibind_app)
      from cases Inr eq obtain raw where raw: "w_file v = Some raw" "load_headers lib hc raw = Inr hc'" by blast
      from load_headers_eq [OF anchor, THEN iffD1, OF raw(2)] obtain hs where hs: "cached_headers lib raw (anchor # hs)"
        "contextual lib hc (anchor # hs)" "prove_batch lib (hc_chain hc) (revalidated (anchor # hs)) = Inr ()"
        "hc' = with_headers lib hc (anchor # hs)" by blast
      have "\<forall>h \<in> set (revalidated (anchor # hs)). check_header_pow (hl_pow lib) h (hc_chain hc) = Inr ()"
        using hs(3) by (auto simp: prove_batch_Inr)
      then show ?thesis using hs raw cases same eq by (auto simp: restored_def anchor hc_ok_with_iff)
    next
      case (Inl e)
      then have "HeaderChain_reset lib cs hc u = (Inr hc', w')"
        using assms(2) stat q True load by (auto simp: HeaderChain_restore_def ibind_app split: if_splits)
      then have "w_file w' = None" "hc' = hc\<lparr>hc_headers := [anchor], hc_index := [header_hash lib anchor \<mapsto> 0]\<rparr>"
        by (auto simp: HeaderChain_reset_def anchor split: prod.splits bool.splits)
      moreover have "hc_index hc = [header_hash lib anchor \<mapsto> 0]"
        using assms(1) by (simp add: anchor_only_def anchor header_index_single)
      ultimately have "hc' = hc" "w_file w' = None" using anchor by simp_all
      then show ?thesis using ok by (simp add: restored_def)
    qed
  qed
qed

subsection \<open>Round trip\<close>

lemma cache_bytes_cached:
  assumes "header_codec lib (set (hc_headers hc))"
  shows "cached_headers lib (cache_bytes lib hc) (hc_headers hc)" and "length (cache_bytes lib hc) = HEADER_SIZE * length (hc_headers hc)"
proof -
  let ?parts = "map (pl_serialize (hl_pow lib)) (hc_headers hc)"
  have parts: "\<forall>c \<in> set ?parts. length c = HEADER_SIZE" using assms by (simp add: header_codec_def)
  show len: "length (cache_bytes lib hc) = HEADER_SIZE * length (hc_headers hc)"
    using length_concat_same [OF parts] by (simp add: cache_bytes_def)
  have "as_chunks HEADER_SIZE (cache_bytes lib hc) = ?parts"
    unfolding cache_bytes_def by (rule as_chunks_concat [OF _ parts]) (simp add: HEADER_SIZE_def)
  then show "cached_headers lib (cache_bytes lib hc) (hc_headers hc)"
    using len assms by (simp add: cached_headers_def list_all2_conv_all_nth header_codec_def)
qed

text \<open>An operating system that answers.\<close>

definition answers :: "'s cache_system \<Rightarrow> bool" where
  "answers cs \<longleftrightarrow> (\<forall>s. fst (cs_stat cs s)) \<and> (\<forall>s. fst (fs_open (cs_files cs) s)) \<and> (\<forall>s. fst (fs_read (cs_files cs) s))"

lemma read_bounded_whole:
  assumes "answers cs" "w_file w = Some raw" "length raw \<le> limit" "limit < 2 ^ 64 - 1"
  shows "\<exists>w'. read_bounded (cs_files cs) limit w = (Inr raw, w')"
proof -
  have "try_from limit = (Inr (word_of_nat limit) :: error + u64)" using assms(4) by (simp add: try_from_def)
  moreover have "unat (word_of_nat limit :: u64) = limit" using assms(4) by (simp add: unat_of_nat_small)
  moreover have "unat (word_of_nat limit + 1 :: u64) = Suc limit"
  proof -
    have "unat (word_of_nat (Suc limit) :: u64) = Suc limit" using assms(4) by (intro unat_of_nat_small) simp
    then show ?thesis by (simp only: of_nat_Suc add.commute)
  qed
  ultimately have "read_into True limit raw = Inr raw"
    using assms(3,4) by (simp add: read_into_def checked_add_def)
  moreover obtain s1 where "fs_open (cs_files cs) (w_state w) = (True, s1)"
    using assms(1) by (cases "fs_open (cs_files cs) (w_state w)") (auto simp: answers_def dest: spec [of _ "w_state w"])
  moreover obtain s2 where "fs_read (cs_files cs) s1 = (True, s2)"
    using assms(1) by (cases "fs_read (cs_files cs) s1") (auto simp: answers_def dest: spec [of _ s1])
  ultimately show ?thesis using assms(2) by (simp add: read_bounded_def)
qed

lemma restore_persisted:
  assumes ok: "hc_ok lib hc" and codec: "header_codec lib (set (hc_headers hc))" and cs: "answers cs"
    and size: "length (hc_headers hc) \<le> P2P_HEADER_CACHE_MAX"
    and pow: "prove_batch lib (hc_chain hc) (revalidated (hc_headers hc)) = Inr ()"
    and persist: "HeaderChain_persist lib cs hc w = (Inr u, w')"
  shows "\<exists>w''. HeaderChain_restore lib cs (with_headers lib hc [hd (hc_headers hc)]) w' = (Inr hc, w'')"
proof -
  let ?fresh = "with_headers lib hc [hd (hc_headers hc)]"
  obtain anchor rest where hs: "hc_headers hc = anchor # rest" using ok by (cases "hc_headers hc") (auto simp: hc_ok_def)
  have stored: "w_file w' = Some (cache_bytes lib hc)"
    using persist write_replace_written by (fastforce simp: HeaderChain_persist_def imap_err_eq)
  obtain s where "cs_stat cs (w_state w') = (True, s)"
    using cs by (cases "cs_stat cs (w_state w')") (auto simp: answers_def dest: spec [of _ "w_state w'"])
  then have stat: "cache_exists cs w' = (Inr True, w'\<lparr>w_state := s\<rparr>)" using stored by (simp add: cache_exists_def)
  have "length (cache_bytes lib hc) \<le> P2P_HEADER_CACHE_MAX * HEADER_SIZE"
    using cache_bytes_cached(2) [OF codec] size by (simp add: mult.commute)
  moreover have limit: "P2P_HEADER_CACHE_MAX * HEADER_SIZE < 2 ^ 64 - 1" by (simp add: P2P_HEADER_CACHE_MAX_def HEADER_SIZE_def)
  ultimately obtain v where read: "read_bounded (cs_files cs) (P2P_HEADER_CACHE_MAX * HEADER_SIZE) (w'\<lparr>w_state := s\<rparr>) = (Inr (cache_bytes lib hc), v)"
    using read_bounded_whole [OF cs, of "w'\<lparr>w_state := s\<rparr>" "cache_bytes lib hc" "P2P_HEADER_CACHE_MAX * HEADER_SIZE"] stored limit
    by auto
  have "load_headers lib ?fresh (cache_bytes lib hc) = Inr hc"
    using ok cache_bytes_cached(1) [OF codec] pow
    by (subst load_headers_eq [of _ anchor]) (auto simp: hs hc_ok_def anchor_simps hc_ok_with [OF ok, unfolded hs] intro!: exI [of _ rest])
  then have "HeaderChain_load lib cs ?fresh (w'\<lparr>w_state := s\<rparr>) = (Inr hc, v)"
    by (simp add: HeaderChain_load_def ibind_app imap_err_def read act_apps)
  then show ?thesis by (simp add: HeaderChain_restore_def ibind_app stat)
qed

end
