(* ===== verification/Header_Context.thy ===== *)
theory Header_Context
  imports Header_Properties
begin

section \<open>A bootstrap provides the difficulty context\<close>

text \<open>
  The legacy checkpoint may lack the history a retarget looks at. A chain opened from a
  \<open>HeaderBootstrap\<close> never does: the window of the difficulty rule has \<open>context_headers + 1\<close> headers or
  reaches back to the genesis block.
\<close>

lemma context_headers_value: "context_headers c = (if cp_retarget_lookback (Chain_params c) = 2016 then 2016 else 2015)"
  by (cases c) (simp_all add: context_headers_def chain_constants P2P_MEDIAN_TIME_SPAN_def)

lemma context_headers_params:
  "unat (cp_retarget_lookback (Chain_params c)) \<le> context_headers c" "2015 \<le> context_headers c" "context_headers c \<le> 2016"
  by (cases c; simp add: context_headers_value chain_constants)+

text \<open>A window that reaches back far enough: \<open>enough\<close> headers from \<open>first\<close>, or all from height 0.\<close>

definition full_window :: "chain \<Rightarrow> u64 \<Rightarrow> 'a list \<Rightarrow> bool" where
  "full_window c first_height hs \<longleftrightarrow> hs \<noteq> [] \<and> (length hs = context_headers c + 1 \<or> first_height = 0)"

lemma unat_add_nat: "unat a + i < 2 ^ 64 \<Longrightarrow> unat (a + word_of_nat i :: u64) = unat a + i"
  by (simp add: unat_word_ariths unat_of_nat_small)

lemma regular_in_window:
  assumes "full_window c first_height hs" "unat first_height + length hs \<le> 2 ^ 64"
    and last: "unat last_height = unat first_height + (length hs - 1)"
  shows "\<exists>i < length hs. (last_height - word_of_nat (length hs - 1 - i)) mod cp_retarget_interval (Chain_params c) = 0"
proof -
  have rep: "word_of_nat (unat w) = w" for w :: u64 by simp
  have at: "last_height - word_of_nat (length hs - 1 - i) = first_height + word_of_nat i" if "i < length hs" for i
  proof -
    have "last_height = first_height + word_of_nat (length hs - 1)" using last
      by (metis of_nat_add rep)
    moreover have "length hs - 1 = i + (length hs - 1 - i)" using that by simp
    ultimately have "last_height = first_height + word_of_nat i + word_of_nat (length hs - 1 - i)"
      by (metis of_nat_add add.assoc)
    then show ?thesis by simp
  qed
  have m: "(first_height + word_of_nat i) mod cp_retarget_interval (Chain_params c) = 0"
    if "(unat first_height + i) mod 2016 = 0" "i < length hs" for i
  proof -
    have "unat (first_height + word_of_nat i) = unat first_height + i"
      using that(2) assms(2) by (intro unat_add_nat) simp
    then show ?thesis using that(1) by (simp add: word_arith_nat_mod chain_params_sane(4))
  qed
  show ?thesis
  proof (cases "first_height = 0")
    case True
    then show ?thesis using assms(1) m [of 0] at [of 0] by (intro exI [of _ 0]) (auto simp: full_window_def)
  next
    case False
    then have len: "2016 \<le> length hs" using assms(1) context_headers_params(2) [of c] by (simp add: full_window_def)
    define i where "i = (2016 - unat first_height mod 2016) mod 2016"
    have "i < 2016" by (simp add: i_def)
    moreover have "(unat first_height + i) mod 2016 = 0"
    proof -
      let ?x = "unat first_height"
      have "?x mod 2016 \<le> 2016" by simp
      then have "?x + (2016 - ?x mod 2016) = 2016 * (?x div 2016) + 2016" using mult_div_mod_eq [of 2016 ?x] by linarith
      then have "(?x + (2016 - ?x mod 2016)) mod 2016 = 0" by simp
      then show ?thesis unfolding i_def mod_add_right_eq .
    qed
    moreover have i: "i < length hs" using \<open>i < 2016\<close> len by simp
    ultimately have "(last_height - word_of_nat (length hs - 1 - i)) mod cp_retarget_interval (Chain_params c) = 0"
      unfolding at [OF i] by (intro m)
    with i show ?thesis by (intro exI conjI)
  qed
qed

lemma full_window_bits:
  assumes "le_targets lib" "full_window c first_height hs" "length hs < 2 ^ 64"
    and "expected_bits lib c hs first_height t = Inl e"
  shows "e \<in> {HeightOverflow, TimeOverflow}"
proof -
  let ?p = "Chain_params c" and ?i = "word_of_nat (length hs - 1) :: u64"
  have hs: "hs \<noteq> []" using assms(2) by (simp add: full_window_def)
  have n: "width_i64 (int (length hs - 1)) = Inr ?i" "unat ?i = length hs - 1"
    using assms(3) by (simp_all add: width_i64_def unat_of_nat_small)
  show ?thesis
  proof (cases "\<exists>lh nh. checked_add first_height ?i = Some lh \<and> checked_add lh 1 = Some nh")
    case False
    then show ?thesis using assms(4) hs n by (auto simp: expected_bits_def rbind_eq_Inl ok_or_def split: option.splits)
  next
    case True
    then obtain lh nh where add: "checked_add first_height ?i = Some lh" "checked_add lh 1 = Some nh" by blast
    then have bits: "next_bits lib c hs lh nh t = Inl e" using assms(4) hs n by (simp add: expected_bits_def)
    have lh: "unat lh = unat first_height + (length hs - 1)" and nh: "unat nh = unat first_height + length hs"
      using add hs n(2) by (auto simp: checked_add_Some)
    have small: "unat first_height + length hs \<le> 2 ^ 64" using nh unat_less_pow [of nh] by simp
    have short: "e \<noteq> ShortWindow needed (length hs)" for needed
    proof
      assume e: "e = ShortWindow needed (length hs)"
      have ts: "cp_target_timespan ?p \<noteq> 0" using chain_params_sane(5) [of c] by auto
      have ret: "rmap g (retarget lib (last hs) ft (cp_target_timespan ?p) (pow_limit lib c)) \<noteq> Inl e'" for g ft e'
        using retarget_value [OF assms(1) ts] by (metis rmap_eq_Inl Inl_Inr_False)
      have lrb: "last_regular_bits hs lh iv lb \<noteq> Inl (ShortWindow needed (length hs))" for iv lb
        by (auto simp: last_regular_bits_found [OF hs] split: option.splits)
      define lb where "lb = (if nh = cp_retarget_interval ?p then cp_retarget_interval ?p - 1 else cp_retarget_lookback ?p)"
      from bits e have boundary: "nh mod cp_retarget_interval ?p = 0" and few: "length hs < unat lb + 1"
        using ret lrb by (auto simp: next_bits_def Let_def rbind_eq_Inl ok_or_def lb_def split: if_splits option.splits)
      have "unat (cp_retarget_interval ?p - 1) = 2015" by (cases c) (simp_all add: chain_constants)
      then have lb_le: "unat lb \<le> context_headers c" using context_headers_params [of c] by (simp add: lb_def)
      have zero: "first_height = 0" "length hs \<noteq> context_headers c + 1"
        using assms(2) few lb_le by (auto simp: full_window_def)
      then have nh': "unat nh = length hs" using nh by simp
      have "unat nh mod 2016 = 0"
        using boundary chain_params_sane(4) [of c] by (metis unat_mod unat_0)
      moreover have "0 < unat nh" using nh' hs by simp
      ultimately have "2016 \<le> unat nh" by (meson dvd_imp_le mod_0_imp_dvd)
      moreover have "unat lb + 1 \<le> 2017" using lb_le context_headers_params(3) [of c] by simp
      ultimately have "unat nh = 2016" using few nh' by simp
      then have "nh = cp_retarget_interval ?p" using chain_params_sane(4) [of c] by (simp add: word_unat_eq_iff)
      then have "unat lb = 2015" using \<open>unat (cp_retarget_interval ?p - 1) = 2015\<close> by (simp add: lb_def)
      then show False using few nh' \<open>unat nh = 2016\<close> by simp
    qed
    have missing: "e \<noteq> MissingDifficultyContext h" for h
    proof
      assume e: "e = MissingDifficultyContext h"
      from regular_in_window [OF assms(2) small lh] obtain i where i: "i < length hs"
        "(lh - word_of_nat (length hs - 1 - i)) mod cp_retarget_interval ?p = 0" by (elim exE conjE)
      have found: "find (regular_at hs lh (cp_retarget_interval ?p) lb (length hs - 1)) (rev [0..<length hs]) \<noteq> None" for lb
      proof -
        have "regular_at hs lh (cp_retarget_interval ?p) lb (length hs - 1) i" unfolding regular_at_def using i(2) by (rule disjI1)
        moreover have "i \<in> set (rev [0..<length hs])" using i(1) by simp
        ultimately show ?thesis unfolding find_None_iff by blast
      qed
      have "last_regular_bits hs lh (cp_retarget_interval ?p) lb \<noteq> Inl (MissingDifficultyContext h)" for lb
        using found [of lb] by (auto simp: last_regular_bits_found [OF hs] split: option.splits)
      moreover have "cp_target_timespan ?p \<noteq> 0" using chain_params_sane(5) [of c] by auto
      then have "rmap g (retarget lib (last hs) ft (cp_target_timespan ?p) (pow_limit lib c)) \<noteq> Inl e'" for g ft e'
        using retarget_value [OF assms(1)] by (metis rmap_eq_Inl Inl_Inr_False)
      ultimately show False using bits e
        by (auto simp: next_bits_def Let_def rbind_eq_Inl ok_or_def split: if_splits option.splits)
    qed
    show ?thesis using next_bits_errors(1) [OF assms(1) hs bits] short missing by auto
  qed
qed

text \<open>The chains a bootstrap opens.\<close>

definition bootstrapped :: "'h header_chain \<Rightarrow> bool" where
  "bootstrapped hc \<longleftrightarrow> hc_trusted_next hc = None \<and>
     (\<exists>ancestors. hc_ancestors hc = Some ancestors \<and>
        length ancestors = min (unat (hc_start hc)) (context_headers (hc_chain hc)))"

lemma preceding_full:
  assumes "bootstrapped hc" "window \<noteq> []" "preceding_context hc window = Inr (first_height, context)"
  shows "full_window (hc_chain hc) first_height context \<and> length context < 2 ^ 64"
proof -
  let ?bound = "context_headers (hc_chain hc) + 1"
  from assms(1) obtain ancestors where anc: "hc_ancestors hc = Some ancestors"
    "length ancestors = min (unat (hc_start hc)) (context_headers (hc_chain hc))" by (auto simp: bootstrapped_def)
  obtain n k next_height where
    n: "length window = unat (n :: u64)" and nh: "checked_add (hc_start hc) n = Some next_height"
    and k: "length context = unat (k :: u64)" and first: "checked_sub next_height k = Some first_height"
    and ctx: "context = (if ?bound \<le> length window then drop (length window - ?bound) window
             else drop (length ancestors - min (?bound - length window) (length ancestors)) ancestors @ window)"
    using assms(3) anc(1)
    by (auto simp only: preceding_context_def option.case Let_def rbind_eq_Inr rt_try_from_eq_Inr rt_context_opt_eq_Inr sum.inject prod.inject)
  have next_h: "unat next_height = unat (hc_start hc) + length window" using nh n by (simp add: checked_add_Some)
  have len: "length context = (if ?bound \<le> length window then ?bound else min (?bound - length window) (length ancestors) + length window)"
    by (simp add: ctx)
  have "first_height = 0" if "length context \<noteq> ?bound"
  proof -
    from that have "\<not> ?bound \<le> length window" "length context = length ancestors + length window"
      "length ancestors < ?bound - length window" using len by (auto simp: min_def split: if_splits)
    moreover have "1 \<le> length window" using assms(2) by (cases window) simp_all
    ultimately have "length ancestors = unat (hc_start hc)" using anc(2) by (simp add: min_def split: if_splits)
    then have "unat k = unat next_height" using next_h k \<open>length context = length ancestors + length window\<close> by simp
    then have "k = next_height" by (simp add: word_unat_eq_iff)
    then show ?thesis using first by (simp add: checked_sub_def split: if_splits)
  qed
  moreover have "context \<noteq> []" using assms(2) ctx by (auto split: if_splits)
  moreover have "length context < 2 ^ 64" using k unat_less_pow [of k] by simp
  ultimately show ?thesis by (auto simp: full_window_def)
qed

lemma bootstrapped_context:
  assumes "le_targets (hl_pow lib)" "bootstrapped hc" "validate_context lib hc window header = Inl e"
  shows "\<not> is_header_context e"
proof (cases "window = [] \<or> hl_prev lib header \<noteq> header_hash lib (last window)")
  case True
  then have "e = RtMissing ''header window is empty'' \<or> e = RtInvalid ''peer header does not extend its predecessor''"
    using assms(3) by (cases "window = []") (auto simp: validate_context_def ensure_def)
  then show ?thesis by auto
next
  case False
  then have run: "rbind (preceding_context hc window) (\<lambda>(first_height, context).
      rbind (check_bits lib hc window first_height context header) (\<lambda>_.
      ensure (median_time lib context < header_time lib header)
        (RtInvalid ''peer header time is not after the median of the previous blocks'') (Inr ()))) = Inl e"
    using assms(3) by (simp add: validate_context_def)
  show ?thesis
  proof (cases "preceding_context hc window")
    case (Inl e')
    then have "e' = RtInteger \<or> (\<exists>m. e' = RtMissing m)"
      by (auto simp: preceding_context_def Let_def rbind_eq_Inl rt_try_from_def rt_context_opt_def try_from_def map_err_def ok_or_def
          split: option.splits if_splits)
    then show ?thesis using run Inl by auto
  next
    case (Inr p)
    obtain first_height "context" where p: "p = (first_height, context)" by (cases p)
    have full: "full_window (hc_chain hc) first_height context" "length context < 2 ^ 64"
      using preceding_full [OF assms(2)] False Inr p by blast+
    have "is_header_context e' \<Longrightarrow> check_bits lib hc window first_height context header \<noteq> Inl e'" for e'
    proof
      assume e': "is_header_context e'" "check_bits lib hc window first_height context header = Inl e'"
      have "hc_trusted_next hc = None" using assms(2) by (simp add: bootstrapped_def)
      with e' obtain cause where "expected_bits (hl_pow lib) (hc_chain hc) (map (pl_header (hl_pow lib)) context) first_height
          (header_time lib header) = Inl cause" "bits_error cause = e'"
        by (auto simp: check_bits_def rbind_eq_Inl map_err_def ensure_eq_Inl split: sum.splits if_splits)
      moreover have "full_window (hc_chain hc) first_height (map (pl_header (hl_pow lib)) context)"
        using full(1) by (simp add: full_window_def)
      ultimately have "cause \<in> {HeightOverflow, TimeOverflow}" using full_window_bits [OF assms(1)] full(2) by (metis length_map)
      then show False using \<open>bits_error cause = e'\<close> e'(1) by auto
    qed
    then show ?thesis using run unfolding Inr p by (auto simp: rbind_eq_Inl ensure_eq_Inl split: if_splits)
  qed
qed

lemma bootstrap_gives_context:
  assumes "HeaderBootstrap_new lib c height header ancestors = Inr b"
  shows "length (hb_ancestors b) = min (unat (hb_height b)) (context_headers (hb_chain b)) \<and>
    hb_chain b = c \<and> hb_height b = height \<and> hb_header b = header"
proof -
  from assms obtain count :: u64 where "context_headers c = unat count" "length ancestors = unat (min height count)"
    "b = \<lparr>hb_chain = c, hb_height = height, hb_header = header, hb_ancestors = ancestors\<rparr>"
    by (auto simp: HeaderBootstrap_new_def Let_def split: if_splits)
  then show ?thesis by (simp add: min_def word_le_nat_alt)
qed

end
