(* ===== verification/Header_Theorems.thy ===== *)
theory Header_Theorems
  imports Header_Restore Header_Context
begin

section \<open>The light client's header chain: theorems\<close>

text \<open>The closed form of the locator, a small chain for the witnesses, and the properties.\<close>

subsection \<open>The locator\<close>

text \<open>How far below the tip the \<open>n\<close>-th hash is.\<close>

definition locator_depth :: "nat \<Rightarrow> nat" where
  "locator_depth n = (if n \<le> P2P_LOCATOR_LINEAR then n else 8 + 2 ^ (n - 9))"

definition locator_step :: "nat \<Rightarrow> nat" where
  "locator_step n = (if n \<le> P2P_LOCATOR_LINEAR then 1 else 2 ^ (n - 10))"

lemma locator_step_pos: "0 < locator_step n"
  by (simp add: locator_step_def)

lemma locator_depth_Suc: "locator_depth (Suc n) = locator_depth n + locator_step (Suc n)"
proof (cases "n < 10")
  case True
  then show ?thesis by (simp add: locator_depth_def locator_step_def P2P_LOCATOR_LINEAR_def)
next
  case False
  then obtain m where "n = 10 + m" using le_Suc_ex by (metis not_less)
  then show ?thesis
    by (cases m) (simp_all add: locator_depth_def locator_step_def P2P_LOCATOR_LINEAR_def eval_nat_numeral)
qed

lemma locator_step_Suc:
  "locator_step (Suc n) = (if P2P_LOCATOR_LINEAR < Suc n then locator_step n * 2 else locator_step n)"
proof (cases "n < 10")
  case False
  then obtain m where "n = 10 + m" using le_Suc_ex by (metis not_less)
  then show ?thesis by (cases m) (simp_all add: locator_step_def P2P_LOCATOR_LINEAR_def)
qed (simp add: locator_step_def P2P_LOCATOR_LINEAR_def)

lemma locator_loop_eq:
  "tip - locator_depth n = pos \<Longrightarrow>
   \<exists>m. locator_loop lib hs n pos (locator_step n) =
         map (\<lambda>k. header_hash lib (hs ! (tip - locator_depth k))) [n..<Suc (n + m)] \<and>
       tip \<le> locator_depth (n + m) \<and> (\<forall>k. n \<le> k \<and> k < n + m \<longrightarrow> locator_depth k < tip)"
proof (induction pos arbitrary: n rule: less_induct)
  case (less pos)
  show ?case
  proof (cases "pos = 0")
    case True
    then show ?thesis using less.prems by (intro exI [of _ 0]) (simp add: locator_loop.simps)
  next
    case False
    let ?nx = "max pos (locator_step (Suc n)) - locator_step (Suc n)"
    have eq: "tip - locator_depth (Suc n) = ?nx"
      unfolding locator_depth_Suc using less.prems by linarith
    have small: "?nx < pos" using False locator_step_pos [of "Suc n"] by (simp add: max_def)
    have unfold: "locator_loop lib hs n pos (locator_step n) =
        header_hash lib (hs ! pos) # locator_loop lib hs (Suc n) ?nx (locator_step (Suc n))"
      using False locator_step_pos [of n] by (subst locator_loop.simps) (simp add: locator_step_Suc Let_def)
    from less.IH [OF small eq] obtain m where m: "locator_loop lib hs (Suc n) ?nx (locator_step (Suc n)) =
         map (\<lambda>k. header_hash lib (hs ! (tip - locator_depth k))) [Suc n..<Suc (Suc n + m)]"
       "tip \<le> locator_depth (Suc n + m)" "\<forall>k. Suc n \<le> k \<and> k < Suc n + m \<longrightarrow> locator_depth k < tip" by blast
    have first: "[n..<Suc (Suc (n + m))] = n # [Suc n..<Suc (Suc (n + m))]" by (simp add: upt_conv_Cons del: upt_Suc)
    have "locator_depth n < tip" using less.prems False by simp
    then have below: "\<forall>k. n \<le> k \<and> k < n + Suc m \<longrightarrow> locator_depth k < tip"
      using m(3) by (metis Suc_leI add_Suc_right add_Suc le_eq_less_or_eq)
    show ?thesis using m(2) below unfolding unfold m(1)
      by (intro exI [of _ "Suc m"]) (simp add: first less.prems del: upt_Suc)
  qed
qed

subsection \<open>A small chain, for the witnesses\<close>

text \<open>A header is its number, its predecessor's number and its time; the branch 4, 5 leaves the chain 1, 2, 3 after 2.\<close>

definition ex_header_pow :: "(u8 \<times> u8, nat) pow_lib" where
  "ex_header_pow = \<lparr>pl_block_hash = (\<lambda>(i, p). [i]), pl_serialize = (\<lambda>(i, p). replicate 78 0 @ [i, p]),
     pl_scrypt_params = (\<lambda>_ _ _ _. True), pl_scrypt = (\<lambda>_ _ _ _ _ _. None), pl_is_met_by = (\<lambda>_ _. True), pl_work = (\<lambda>_. 1),
     pl_work_add = (+), pl_header = (\<lambda>(i, p). \<lparr>h_time = ucast i, h_bits = 7\<rparr>), pl_from_compact = (\<lambda>bits. ucast bits),
     pl_to_compact_lossy = (\<lambda>t. ucast t), pl_to_le_bytes = to_le_bytes, pl_from_le_bytes = from_le_bytes\<rparr>"

definition ex_header_lib :: "(u8 \<times> u8, nat) header_lib" where
  "ex_header_lib = \<lparr>hl_pow = ex_header_pow, hl_prev = (\<lambda>(i, p). [p]),
     hl_deserialize = (\<lambda>bs. if length bs = 80 then Some (bs ! 78, bs ! 79) else None), hl_work_le = (\<le>),
     hl_parallelism = Some 0, hl_genesis = (\<lambda>_. Some [0]), hl_hash_text = (\<lambda>_. []), hl_parse_hash = (\<lambda>_. None),
     hl_hex_decode = (\<lambda>_. None)\<rparr>"

definition ex_anchor :: "(u8 \<times> u8) header_chain" where
  "ex_anchor = \<lparr>hc_chain = BitcoinRegtest, hc_start = 100, hc_trusted_next = None, hc_ancestors = None,
     hc_headers = [(1, 0)], hc_index = header_index ex_header_lib [(1, 0)], hc_path = []\<rparr>"

definition ex_chain :: "(u8 \<times> u8) header_chain" where
  "ex_chain = with_headers ex_header_lib ex_anchor [(1, 0), (2, 1), (3, 2)]"

lemma ex_header_fields [simp]:
  "header_hash ex_header_lib (i, p) = [i]" "hl_prev ex_header_lib (i, p) = [p]"
  "header_time ex_header_lib (i, p) = ucast i" "header_bits ex_header_lib (i, p) = 7"
  "pl_header (hl_pow ex_header_lib) (i, p) = \<lparr>h_time = ucast i, h_bits = 7\<rparr>"
  by (simp_all add: ex_header_lib_def ex_header_pow_def header_time_def header_bits_def)

lemma ex_header_valid:
  "window \<noteq> [] \<Longrightarrow> length window < 100 \<Longrightarrow> last window = (p, q) \<Longrightarrow> median_time ex_header_lib window < ucast i \<Longrightarrow>
   validate_context ex_header_lib ex_anchor window (i, p) = Inr ()"
proof -
  assume w: "window \<noteq> []" "length window < 100" "last window = (p, q)" "median_time ex_header_lib window < ucast i"
  let ?n = "length window - 1"
  have "unat (word_of_nat ?n :: u64) = ?n" "unat (word_of_nat (100 + ?n) :: u64) = 100 + ?n"
    "unat (word_of_nat (101 + ?n) :: u64) = 101 + ?n" using w(2) by (intro unat_of_nat_small; simp)+
  then have "checked_add 100 (word_of_nat ?n :: u64) = Some (word_of_nat (100 + ?n))"
    "checked_add (word_of_nat (100 + ?n) :: u64) 1 = Some (word_of_nat (101 + ?n))" unfolding checked_add_Some by simp_all
  moreover have small: "int ?n < 2 ^ 64" using w(2) by simp
  ultimately have "expected_bits (hl_pow ex_header_lib) BitcoinRegtest (map (pl_header (hl_pow ex_header_lib)) window) 100 t = Inr 7" for t
    using w small by (simp add: expected_bits_def width_i64_def next_bits_def chain_constants last_map)
  then show "validate_context ex_header_lib ex_anchor window (i, p) = Inr ()"
    using w by (simp add: validate_context_def preceding_context_def check_bits_def ex_anchor_def)
qed

lemma ex_median: "median_time ex_header_lib [(1, 0)] = 1" "median_time ex_header_lib [(1, 0), (2, 1)] = 2"
  by (simp_all add: median_time_def P2P_MEDIAN_TIME_SPAN_def Let_def)

lemma ex_chain_ok: "hc_ok ex_header_lib ex_chain"
proof -
  let ?hs = "[(1, 0), (2, 1), (3, 2)] :: (u8 \<times> u8) list"
  have "validate_context ex_header_lib ex_anchor (take k ?hs) (?hs ! k) = Inr ()" if "1 \<le> k \<and> k < length ?hs" for k
  proof -
    from that have "k = 1 \<or> k = 2" by auto
    then show ?thesis by (auto intro!: ex_header_valid simp: ex_median)
  qed
  then show ?thesis unfolding ex_chain_def hc_ok_with_iff contextual_def by blast
qed

lemma ex_sound: "sound_hashes ex_header_lib {(1, 0), (2, 1), (3, 2), (4, 2), (5, 4)}" (is "sound_hashes _ ?H")
proof -
  have "{(a, b). a \<in> ?H \<and> b \<in> ?H \<and> hl_prev ex_header_lib b = header_hash ex_header_lib a} \<subseteq> measure (\<lambda>(i, p). unat i)" by auto
  then show ?thesis unfolding sound_hashes_def
    by (auto simp: inj_on_def intro: acyclic_subset [OF wf_acyclic [OF wf_measure]])
qed

lemma ex_sound_batch: "sound_hashes ex_header_lib (set (hc_headers ex_chain) \<union> set [(4, 2), (5, 4)])"
proof -
  have "set (hc_headers ex_chain) \<union> set [(4, 2), (5, 4)] = {(1, 0), (2, 1), (3, 2), (4, 2), (5, 4)}" by (auto simp: ex_chain_def)
  then show ?thesis using ex_sound by simp
qed

lemma ex_codec: "header_codec ex_header_lib UNIV"
  by (auto simp: header_codec_def ex_header_lib_def ex_header_pow_def HEADER_SIZE_def nth_append)

lemma ex_batch_proved: "check_header_pow (hl_pow ex_header_lib) h BitcoinRegtest = Inr ()"
  by (cases h) (simp add: check_header_pow_def pow_limit_def pow_hash_def chain_constants ex_header_lib_def ex_header_pow_def)

lemma ex_reorganised: "fst (HeaderChain_extend ex_header_lib ex_chain [(4, 2), (5, 4)] 0) = Inr (Reorganized 101 2)"
proof -
  let ?hs = "[(1, 0), (2, 1), (3, 2)] :: (u8 \<times> u8) list" and ?fresh = "[(4, 2), (5, 4)] :: (u8 \<times> u8) list"
  have fields: "hc_headers ex_chain = ?hs" "hc_chain ex_chain = BitcoinRegtest" "hc_start ex_chain = 100"
    by (simp_all add: ex_chain_def ex_anchor_def)
  have index: "hc_index ex_chain [2] = Some 1"
    using header_index_distinct [of ex_header_lib ?hs 1] by (simp add: ex_chain_def)
  have known: "known_headers ex_header_lib ex_chain ?fresh 1 = 0" by (simp add: known_headers_def fields)
  have proved: "prove_batch ex_header_lib BitcoinRegtest ?fresh = Inr ()"
    using ex_batch_proved by (simp add: prove_batch_Inr) (simp add: ex_header_lib_def)
  have next_ok: "validate_next ex_header_lib ex_chain window h 0 = Inr ()"
    if "validate_context ex_header_lib ex_anchor window h = Inr ()" "header_time ex_header_lib h \<le> 7200" for window h
    using that by (simp add: ex_chain_def anchor_simps validate_next_def P2P_MAX_FUTURE_SECS_def checked_add_def)
  have median: "median_time ex_header_lib [(1, 0), (2, 1), (4, 2)] = 2"
    by (simp add: median_time_def P2P_MEDIAN_TIME_SPAN_def Let_def)
  have "accepted ex_header_lib ex_chain (take (Suc 1) ?hs) ?fresh 0"
    unfolding accepted_Cons by (auto intro!: next_ok ex_header_valid simp: ex_median median) (simp add: accepted_def)
  then have "branch_candidate ex_header_lib ex_chain 1 ?fresh 0 = Inr (take (Suc 1) ?hs @ ?fresh)"
    by (simp only: branch_candidate_eq fields)
  moreover have "branch_work ex_header_lib 1 (take (Suc 1) ?hs @ ?fresh) = Inr 2" "branch_work ex_header_lib 1 ?hs = Inr 1"
    by (simp_all add: branch_work_def chain_work_def ex_header_lib_def ex_header_pow_def)
  ultimately have "fst (reorganise ex_header_lib ex_chain 1 ?fresh 0) = Inr (Reorganized 101 2)"
    by (simp add: reorganise_def fields rt_try_from_def try_from_def) (simp add: ex_header_lib_def)
  then show ?thesis using index known proved
    by (simp add: HeaderChain_extend_def Let_def extend_fresh_def fields P2P_HEADER_CACHE_MAX_def)
qed

subsection \<open>Properties\<close>

text \<open>C30: The invariant of the light client. Whatever headers a peer sends and at whatever time, after
  \<open>extend\<close> every header after the anchor still satisfies the difficulty and time rules against its
  predecessors, the hash index is exactly that of the headers, and the anchor is the same; on errors
  too, where the loop of \<open>append\<close> has to take back what it already stored.\<close>

theorem header_chain_invariant:
  assumes "hc_ok lib hc" "sound_hashes lib (set (hc_headers hc) \<union> set batch)"
  shows "hc_ok lib (snd (HeaderChain_extend lib hc batch now)) \<and>
    hd (hc_headers (snd (HeaderChain_extend lib hc batch now))) = hd (hc_headers hc) \<and>
    hc_start (snd (HeaderChain_extend lib hc batch now)) = hc_start hc"
proof -
  obtain r hc' where run: "HeaderChain_extend lib hc batch now = (r, hc')" by (cases "HeaderChain_extend lib hc batch now")
  from extend_cases [OF assms run] have out: "extend_outcome lib hc batch now r hc'" and ok: "hc_ok lib hc'" by blast+
  have "hc_headers hc \<noteq> []" using assms(1) by (simp add: hc_ok_def)
  then have "hd (hc_headers hc') = hd (hc_headers hc) \<and> hc_start hc' = hc_start hc"
    using out by (auto simp: extend_outcome_def split: sum.splits extension.splits)
  then show ?thesis using ok run by simp
qed

theorem header_chain_invariant_witness:
  "hc_ok ex_header_lib (snd (HeaderChain_extend ex_header_lib ex_chain [(4, 2), (5, 4)] 0)) \<and>
   fst (HeaderChain_extend ex_header_lib ex_chain [(4, 2), (5, 4)] 0) = Inr (Reorganized 101 2)"
  using header_chain_invariant [OF ex_chain_ok ex_sound_batch] ex_reorganised by blast

text \<open>C27: What \<open>extend\<close> may do. An error or an ignored batch leaves the chain as it was. Otherwise
  the last \<open>n\<close> headers of the batch have proof of work, satisfy the rules and are not too far in the future, and they
  either follow the old tip, or replace the headers above a fork below the tip with a branch of strictly
  more work; the report names that fork and \<open>n\<close>.\<close>

theorem extend_only_improves:
  assumes "hc_ok lib hc" "sound_hashes lib (set (hc_headers hc) \<union> set batch)"
  shows "extend_outcome lib hc batch now (fst (HeaderChain_extend lib hc batch now)) (snd (HeaderChain_extend lib hc batch now))"
  using extend_cases [OF assms surjective_pairing] by blast

theorem extend_only_improves_witness:
  "hc_headers (snd (HeaderChain_extend ex_header_lib ex_chain [(4, 2), (5, 4)] 0)) = take 2 (hc_headers ex_chain) @ [(4, 2), (5, 4)]"
proof -
  from extend_only_improves [OF ex_chain_ok ex_sound_batch, of 0, unfolded ex_reorganised]
  obtain base where base: "base < length (hc_headers ex_chain) - 1" "(101 :: u64) = hc_start ex_chain + word_of_nat base"
    "snd (HeaderChain_extend ex_header_lib ex_chain [(4, 2), (5, 4)] 0) =
       with_headers ex_header_lib ex_chain (take (Suc base) (hc_headers ex_chain) @ [(4, 2), (5, 4)])"
    by (auto simp: extend_outcome_def)
  have "base = 0 \<or> base = 1" using base(1) by (auto simp: ex_chain_def)
  then have "base = 1" using base(2) by (auto simp: ex_chain_def ex_anchor_def)
  then show ?thesis using base(3) by (simp add: numeral_2_eq_2)
qed

text \<open>Opening the chain of a bootstrap, whatever the cache file holds and the operating system answers:
  the result is the anchor alone, with no file left, or the file's headers, which begin with the anchor, all
  satisfy the difficulty and time rules, and of which the last 2016 have proof of work.\<close>

theorem opened_chain_checked:
  assumes "open_bootstrap lib cs cache_dir b w = (Inr hc, w')"
  shows "\<exists>fresh. hc_headers fresh = [hb_header b] \<and> hc_chain fresh = hb_chain b \<and> hc_start fresh = hb_height b \<and>
    hc_ancestors fresh = Some (hb_ancestors b) \<and> hc_trusted_next fresh = None \<and>
    restored lib fresh (w_file w) hc (w_file w')"
  using restore_checked [OF _ assms [unfolded open_bootstrap_def]]
  by (intro exI conjI) (auto simp: anchor_only_def header_index_single)

definition ex_cache :: "unit cache_system" where
  "ex_cache = \<lparr>cs_files = \<lparr>fs_open = (\<lambda>s. (True, s)), fs_read = (\<lambda>s. (True, s)), fs_write = (\<lambda>s bs. (None, s))\<rparr>,
     cs_stat = (\<lambda>s. (True, s)), cs_remove = (\<lambda>s. (True, s))\<rparr>"

theorem opened_chain_checked_witness:
  "\<exists>hc w'. open_bootstrap ex_header_lib ex_cache [] \<lparr>hb_chain = BitcoinRegtest, hb_height = 100, hb_header = (1, 0), hb_ancestors = []\<rparr>
     \<lparr>w_state = (), w_file = None\<rparr> = (Inr hc, w') \<and> hc_ok ex_header_lib hc"
proof -
  let ?b = "\<lparr>hb_chain = BitcoinRegtest, hb_height = 100, hb_header = (1, 0), hb_ancestors = []\<rparr> :: (u8 \<times> u8) header_bootstrap"
  have "\<exists>hc w'. open_bootstrap ex_header_lib ex_cache [] ?b \<lparr>w_state = (), w_file = None\<rparr> = (Inr hc, w')"
    by (simp add: open_bootstrap_def HeaderChain_restore_def cache_exists_def ibind_app iret_app ex_cache_def)
  then obtain hc w' where run: "open_bootstrap ex_header_lib ex_cache [] ?b \<lparr>w_state = (), w_file = None\<rparr> = (Inr hc, w')" by blast
  from opened_chain_checked [OF run] have "hc_ok ex_header_lib hc" unfolding restored_def by blast
  with run show ?thesis by blast
qed

text \<open>A persisted chain is restored. When the write succeeded and the operating system answers, opening
  the cache from the same anchor returns the chain with all its headers and its index.\<close>

theorem persisted_chain_restores:
  assumes "hc_ok lib hc" "header_codec lib (set (hc_headers hc))" "answers cs"
    "length (hc_headers hc) \<le> P2P_HEADER_CACHE_MAX" "prove_batch lib (hc_chain hc) (revalidated (hc_headers hc)) = Inr ()"
    "HeaderChain_persist lib cs hc w = (Inr u, w')"
  shows "\<exists>w''. HeaderChain_restore lib cs (with_headers lib hc [hd (hc_headers hc)]) w' = (Inr hc, w'')"
  by (rule restore_persisted [OF assms])

theorem persisted_chain_restores_witness:
  "\<exists>w' w''. HeaderChain_persist ex_header_lib ex_cache ex_chain \<lparr>w_state = (), w_file = None\<rparr> = (Inr (), w') \<and>
     HeaderChain_restore ex_header_lib ex_cache (with_headers ex_header_lib ex_chain [(1, 0)]) w' = (Inr ex_chain, w'')"
proof -
  have codec: "header_codec ex_header_lib (set (hc_headers ex_chain))" using ex_codec unfolding header_codec_def by blast
  have size: "length (hc_headers ex_chain) \<le> P2P_HEADER_CACHE_MAX" by (simp add: ex_chain_def P2P_HEADER_CACHE_MAX_def)
  have "hl_parallelism ex_header_lib \<noteq> None" by (simp add: ex_header_lib_def)
  then have proved: "prove_batch ex_header_lib (hc_chain ex_chain) (revalidated (hc_headers ex_chain)) = Inr ()"
    using ex_batch_proved by (simp add: prove_batch_Inr ex_chain_def ex_anchor_def)
  have cs: "answers ex_cache" by (simp add: answers_def ex_cache_def)
  obtain w' where persist: "HeaderChain_persist ex_header_lib ex_cache ex_chain \<lparr>w_state = (), w_file = None\<rparr> = (Inr (), w')"
    by (simp add: HeaderChain_persist_def imap_err_def write_replace_def write_atomic_def ex_cache_def)
  from persisted_chain_restores [OF ex_chain_ok codec cs size proved persist] persist show ?thesis
    by (auto simp: ex_chain_def)
qed

text \<open>The threads that check proof of work refine a sequential check: for every number of threads the
  result is that of one pass over the whole batch, the first header without proof of work included.\<close>

theorem prove_batch_sequential:
  "prove_batch lib c hs =
     (if hs = [] then Inr () else if hl_parallelism lib = None then Inl RtIo else batch_verdict (part_verdict lib c 0 hs))"
  by (rule prove_batch_eq)

text \<open>The locator. It lists hashes from the tip down: eleven consecutive ones, then at depths that double,
  and it ends with the anchor, at the first depth that reaches it.\<close>

theorem locator_closed_form:
  "\<exists>m. header_locator lib hc = map (\<lambda>k. header_hash lib (hc_headers hc ! (length (hc_headers hc) - 1 - locator_depth k))) [0..<Suc m] \<and>
     length (hc_headers hc) - 1 \<le> locator_depth m \<and> (\<forall>k. k < m \<longrightarrow> locator_depth k < length (hc_headers hc) - 1)"
  using locator_loop_eq [of "length (hc_headers hc) - 1" 0 _ lib "hc_headers hc"]
  by (simp add: header_locator_def locator_depth_def locator_step_def del: upt_Suc)

text \<open>A bootstrap is enough. On a chain opened from a validated bootstrap no header, and no window of
  headers before it, is ever refused for lack of local history, neither for a retarget nor for the
  minimum-difficulty rule.\<close>

theorem bootstrap_context_suffices:
  assumes "le_targets (hl_pow lib)" "HeaderBootstrap_new lib c height header ancestors = Inr b"
    "hc_chain hc = hb_chain b" "hc_start hc = hb_height b" "hc_ancestors hc = Some (hb_ancestors b)" "hc_trusted_next hc = None"
  shows "validate_context lib hc window h = Inl e \<Longrightarrow> \<not> is_header_context e"
proof (rule bootstrapped_context [OF assms(1)])
  show "bootstrapped hc" using bootstrap_gives_context [OF assms(2)] assms(3-6) by (simp add: bootstrapped_def)
qed

lemma ex_bootstrap:
  "HeaderBootstrap_new ex_header_lib BitcoinRegtest 1 (1, 0) [(0, 0)] =
     Inr \<lparr>hb_chain = BitcoinRegtest, hb_height = 1, hb_header = (1, 0), hb_ancestors = [(0, 0)]\<rparr>"
proof -
  have "context_headers BitcoinRegtest = 2015" by (simp add: context_headers_value chain_constants)
  moreover have "prove_batch ex_header_lib BitcoinRegtest hs = Inr ()" for hs
    using ex_batch_proved by (simp add: prove_batch_Inr) (simp add: ex_header_lib_def)
  moreover have "hl_genesis ex_header_lib BitcoinRegtest = Some [0]" by (simp add: ex_header_lib_def)
  ultimately show ?thesis by (simp add: HeaderBootstrap_new_def rt_try_from_def try_from_def min_def)
qed

theorem bootstrap_context_suffices_witness:
  "\<exists>e. validate_context ex_header_lib (ex_anchor\<lparr>hc_start := 1, hc_ancestors := Some [(0, 0)]\<rparr>) [(1, 0)] (1, 1) = Inl e \<and>
     \<not> is_header_context e"
proof -
  let ?hc = "ex_anchor\<lparr>hc_start := 1, hc_ancestors := Some [(0, 0)]\<rparr>"
  have laws: "le_targets (hl_pow ex_header_lib)" by (simp add: le_targets_def ex_header_lib_def ex_header_pow_def)
  have "context_headers BitcoinRegtest = 2015" by (simp add: context_headers_value chain_constants)
  then have pre: "preceding_context ?hc [(1, 0)] = Inr (0, [(0, 0), (1, 0)])"
    by (simp add: preceding_context_def ex_anchor_def rt_try_from_def try_from_def checked_add_def checked_sub_def)
  have median: "median_time ex_header_lib [(0, 0), (1, 0)] = 1"
    by (simp add: median_time_def P2P_MEDIAN_TIME_SPAN_def Let_def)
  have "\<exists>e. validate_context ex_header_lib ?hc [(1, 0)] (1, 1) = Inl e"
  proof (cases "check_bits ex_header_lib ?hc [(1, 0)] 0 [(0, 0), (1, 0)] (1, 1)")
    case (Inr u)
    then show ?thesis by (simp add: validate_context_def pre median)
  qed (simp add: validate_context_def pre)
  then obtain e where e: "validate_context ex_header_lib ?hc [(1, 0)] (1, 1) = Inl e" by blast
  have "\<not> is_header_context e"
    by (rule bootstrap_context_suffices [OF laws ex_bootstrap _ _ _ _ e]) (simp_all add: ex_anchor_def)
  with e show ?thesis by blast
qed

end
