(* ===== verification/Recovery.thy ===== *)
theory Recovery
  imports Inventory Envelope Runtime_Error
begin

section \<open>Recovering a multipart object (\<^verbatim>\<open>urma-runtime/src/multipart/recovery.rs\<close>)\<close>

text \<open>
  A reader fetches the leaves and then the parts of an object from a source that may fail, serve
  rejected candidates or run out of time, checks each against the reference in its manifest and
  writes the payload to a scratch file. The world \<open>'s\<close> is that of the source and the operating
  system; a scratch file is the list of its bytes, and each of its operations may fail. Time is what
  the clock answers; SHA-256 is \<open>sha256\<close>. Progress messages are left out.
\<close>

record candidate =
  ca_origin :: string
  ca_record :: verified_record

datatype fetch_error = Unavailable | Rejected string error | Source rt_error

datatype recovery_error =
    InvalidObject error
  | InvalidCandidate bytes error
  | Incomplete bytes
  | SourceFailure bytes rt_error
  | RecoveryCapacity string
  | Storage

record 's multipart_source =
  ms_fetch :: "child_reference \<Rightarrow> string list \<Rightarrow> ('s, fetch_error, candidate) act"
  ms_prefetch :: "child_reference list \<Rightarrow> 's \<Rightarrow> 's"
  ms_clock :: "'s \<Rightarrow> nat \<times> 's"
  ms_storage :: "'s \<Rightarrow> bool \<times> 's" \<comment> \<open>whether the next operation on a scratch file succeeds\<close>

type_synonym ('s, 'a) recovery = "('s, recovery_error, 'a) act"

record recovery_limits =
  rl_max_payload_bytes :: u64
  rl_max_nodes :: u32
  rl_attempts :: u32
  rl_timeout :: nat

definition ATTEMPTS :: u32 where "ATTEMPTS = 4"
definition TIMEOUT :: nat where "TIMEOUT = 24 * 60 * 60"

definition RecoveryLimits_new :: "u64 \<Rightarrow> u32 \<Rightarrow> recovery_limits" where
  "RecoveryLimits_new max_payload_bytes max_nodes =
     \<lparr>rl_max_payload_bytes = max_payload_bytes, rl_max_nodes = max_nodes, rl_attempts = ATTEMPTS, rl_timeout = TIMEOUT\<rparr>"

record budget =
  bu_attempts :: u32
  bu_started :: nat
  bu_timeout :: nat

definition clock :: "'s multipart_source \<Rightarrow> ('s, nat) recovery" where
  "clock src = (\<lambda>s. case ms_clock src s of (t, s') \<Rightarrow> (Inr t, s'))"

definition storage :: "'s multipart_source \<Rightarrow> ('s, unit) recovery" where
  "storage src = (\<lambda>s. case ms_storage src s of (ok, s') \<Rightarrow> (if ok then Inr () else Inl Storage, s'))"

definition Budget_new :: "'s multipart_source \<Rightarrow> recovery_limits \<Rightarrow> ('s, budget) recovery" where
  "Budget_new src limits =
     ibind (clock src) (\<lambda>now. iret \<lparr>bu_attempts = max (rl_attempts limits) 1, bu_started = now, bu_timeout = rl_timeout limits\<rparr>)"

definition expired :: "'s multipart_source \<Rightarrow> budget \<Rightarrow> ('s, bool) recovery" where
  "expired src budget = ibind (clock src) (\<lambda>now. iret (bu_timeout budget \<le> now - bu_started budget))"

subsection \<open>Fetching one record\<close>

datatype attempted = NothingTried | RejectedLast error | FailedLast rt_error

fun given_up :: "bytes \<Rightarrow> attempted \<Rightarrow> recovery_error" where
  "given_up txid NothingTried = SourceFailure txid RtIo"
| "given_up txid (RejectedLast cause) = InvalidCandidate txid cause"
| "given_up txid (FailedLast cause) = SourceFailure txid cause"

fun unavailable :: "bytes \<Rightarrow> attempted \<Rightarrow> recovery_error" where
  "unavailable txid NothingTried = Incomplete txid"
| "unavailable txid (RejectedLast cause) = InvalidCandidate txid cause"
| "unavailable txid (FailedLast cause) = Incomplete txid"

text \<open>The loop over the attempts: \<open>n\<close> are left.\<close>

fun fetch_loop ::
  "'s multipart_source \<Rightarrow> bytes \<Rightarrow> budget \<Rightarrow> (string list \<Rightarrow> ('s, fetch_error, candidate) act) \<Rightarrow>
   nat \<Rightarrow> string list \<Rightarrow> attempted \<Rightarrow> ('s, verified_record) recovery" where
  "fetch_loop src txid budget fetch 0 rejected tried = ithrow (given_up txid tried)"
| "fetch_loop src txid budget fetch (Suc n) rejected tried =
     ibind (expired src budget) (\<lambda>late.
     if late then ithrow (given_up txid tried)
     else (\<lambda>s.
       let reject = (\<lambda>origin cause.
         if origin \<in> set rejected then ithrow (InvalidCandidate txid cause)
         else fetch_loop src txid budget fetch n (rejected @ [origin]) (RejectedLast cause))
       in case fetch rejected s of
         (Inr c, s') \<Rightarrow>
           if vr_txid (ca_record c) = txid then (Inr (ca_record c), s')
           else reject (ca_origin c) (Invalid ''candidate TXID mismatch'') s'
       | (Inl (Rejected origin cause), s') \<Rightarrow> reject origin cause s'
       | (Inl (Source cause), s') \<Rightarrow> fetch_loop src txid budget fetch n rejected (FailedLast cause) s'
       | (Inl Unavailable, s') \<Rightarrow> (Inl (unavailable txid tried), s')))"

definition fetch_candidate ::
  "'s multipart_source \<Rightarrow> bytes \<Rightarrow> budget \<Rightarrow> (string list \<Rightarrow> ('s, fetch_error, candidate) act) \<Rightarrow> ('s, verified_record) recovery" where
  "fetch_candidate src txid budget fetch = fetch_loop src txid budget fetch (unat (bu_attempts budget)) [] NothingTried"

definition retrieve ::
  "'s multipart_source \<Rightarrow> bytes \<Rightarrow> recovery_limits \<Rightarrow> (string list \<Rightarrow> ('s, fetch_error, candidate) act) \<Rightarrow> ('s, verified_record) recovery" where
  "retrieve src txid limits fetch = ibind (Budget_new src limits) (\<lambda>budget. fetch_candidate src txid budget fetch)"

definition accept_child :: "child_reference \<Rightarrow> verified_record \<Rightarrow> bytes \<Rightarrow> recovery_error + verified_record" where
  "accept_child request verified author =
     rbind (map_err InvalidObject (check_hash request verified)) (\<lambda>_.
     ensure (vr_author verified = author) (InvalidObject (Invalid ''referenced child author differs from root'')) (Inr verified))"

definition fetch_child ::
  "'s multipart_source \<Rightarrow> child_reference \<Rightarrow> bytes \<Rightarrow> budget \<Rightarrow> ('s, verified_record) recovery" where
  "fetch_child src reference author budget =
     ibind (fetch_candidate src (cr_txid reference) budget (ms_fetch src reference)) (\<lambda>verified.
     ilift (accept_child reference verified author))"

subsection \<open>The inventory\<close>

fun inventory_error :: "error \<Rightarrow> recovery_error" where
  "inventory_error Allocation = RecoveryCapacity []"
| "inventory_error cause = InvalidObject cause"

fun write_references :: "'s multipart_source \<Rightarrow> child_reference list \<Rightarrow> bytes \<Rightarrow> ('s, bytes) recovery" where
  "write_references src [] content = iret content"
| "write_references src (reference # references) content =
     ibind (storage src) (\<lambda>_. ibind (storage src) (\<lambda>_.
     write_references src references (content @ cr_txid reference @ cr_record_hash reference)))"

fun inventory_batch ::
  "'s multipart_source \<Rightarrow> bytes \<Rightarrow> budget \<Rightarrow> child_reference list \<Rightarrow> inventory \<times> bytes \<Rightarrow> ('s, inventory \<times> bytes) recovery" where
  "inventory_batch src author budget [] (iv, content) = iret (iv, content)"
| "inventory_batch src author budget (entry # batch) (iv, content) =
     ibind (fetch_child src entry author budget) (\<lambda>verified.
     ibind (ilift (map_err InvalidObject (VerifiedRecord_decode verified))) (\<lambda>decoded.
     case decoded of
       Leaf leaf \<Rightarrow>
         ibind (ilift (map_err inventory_error (inventory_accept_leaf iv leaf))) (\<lambda>iv'.
         ibind (write_references src (lm_entries leaf) content) (\<lambda>content'.
         inventory_batch src author budget batch (iv', content')))
     | _ \<Rightarrow> ithrow (InvalidObject (Invalid ''root must reference leaf manifests''))))"

definition prefetch :: "'s multipart_source \<Rightarrow> child_reference list \<Rightarrow> ('s, unit) recovery" where
  "prefetch src requests = (\<lambda>s. (Inr (), ms_prefetch src requests s))"

fun inventory_loop ::
  "'s multipart_source \<Rightarrow> bytes \<Rightarrow> budget \<Rightarrow> child_reference list list \<Rightarrow> inventory \<times> bytes \<Rightarrow> ('s, inventory \<times> bytes) recovery" where
  "inventory_loop src author budget [] st = iret st"
| "inventory_loop src author budget (batch # batches) st =
     ibind (prefetch src batch) (\<lambda>_.
     ibind (inventory_batch src author budget batch st) (\<lambda>st'.
     inventory_loop src author budget batches st'))"

definition inventory_file ::
  "'s multipart_source \<Rightarrow> verified_record \<Rightarrow> root_manifest \<Rightarrow> budget \<Rightarrow> ('s, bytes) recovery" where
  "inventory_file src root manifest budget =
     ibind (ilift (map_err inventory_error (ManifestInventory_new (vr_txid root) manifest))) (\<lambda>iv.
     ibind (inventory_loop src (vr_author root) budget (chunks 8 (rm_entries manifest)) (iv, [])) (\<lambda>(iv', content).
     ibind (storage src) (\<lambda>_. iret content)))"

subsection \<open>The parts\<close>

text \<open>\<open>read_exact\<close> of the rest of a scratch file.\<close>

definition read_exact :: "'s multipart_source \<Rightarrow> nat \<Rightarrow> bytes \<Rightarrow> ('s, bytes \<times> bytes) recovery" where
  "read_exact src n content =
     ibind (storage src) (\<lambda>_. if length content < n then ithrow Storage else iret (take n content, drop n content))"

fun read_requests :: "'s multipart_source \<Rightarrow> nat \<Rightarrow> bytes \<Rightarrow> ('s, child_reference list \<times> bytes) recovery" where
  "read_requests src 0 content = iret ([], content)"
| "read_requests src (Suc n) content =
     ibind (read_exact src 32 content) (\<lambda>(txid, c1).
     ibind (read_exact src 32 c1) (\<lambda>(record_hash, c2).
     ibind (read_requests src n c2) (\<lambda>(requests, c3).
     iret (\<lparr>cr_txid = txid, cr_record_hash = record_hash\<rparr> # requests, c3))))"

definition check_part :: "geometry \<Rightarrow> u32 \<Rightarrow> data_part \<Rightarrow> recovery_error + unit" where
  "check_part g index part =
     (if dp_index part \<noteq> index then Inl (InvalidObject (Invalid ''data position or length disagrees with root''))
      else rbind (map_err InvalidObject (part_length g index)) (\<lambda>n.
        ensure (length (dp_payload part) = n) (InvalidObject (Invalid ''data position or length disagrees with root'')) (Inr ())))"

definition add_length :: "u64 \<Rightarrow> data_part \<Rightarrow> recovery_error + u64" where
  "add_length len part =
     rbind (map_err InvalidObject (try_from (length (dp_payload part)))) (\<lambda>n.
     ok_or (InvalidObject (Invalid ''reconstruction length overflow'')) (checked_add len n))"

fun parts_batch ::
  "'s multipart_source \<Rightarrow> bytes \<Rightarrow> geometry \<Rightarrow> budget \<Rightarrow> u32 \<Rightarrow> child_reference list \<Rightarrow> u64 \<times> bytes \<Rightarrow> ('s, u64 \<times> bytes) recovery" where
  "parts_batch src author g budget index [] (len, payload) = iret (len, payload)"
| "parts_batch src author g budget index (request # requests) (len, payload) =
     ibind (fetch_child src request author budget) (\<lambda>verified.
     ibind (ilift (map_err InvalidObject (VerifiedRecord_decode verified))) (\<lambda>decoded.
     case decoded of
       Data part \<Rightarrow>
         ibind (ilift (check_part g index part)) (\<lambda>_.
         ibind (ilift (add_length len part)) (\<lambda>len'.
         ibind (storage src) (\<lambda>_.
         parts_batch src author g budget (index + 1) requests (len', payload @ dp_payload part))))
     | _ \<Rightarrow> ithrow (InvalidObject (Invalid ''leaf must reference data parts''))))"

text \<open>The loop over \<open>(0..parts).step_by(8)\<close>, given the starts.\<close>

fun parts_loop ::
  "'s multipart_source \<Rightarrow> bytes \<Rightarrow> geometry \<Rightarrow> budget \<Rightarrow> nat list \<Rightarrow> bytes \<Rightarrow> u64 \<times> bytes \<Rightarrow> ('s, u64 \<times> bytes) recovery" where
  "parts_loop src author g budget [] content st = iret st"
| "parts_loop src author g budget (start # starts) content st =
     ibind (read_requests src (min (unat (g_parts g) - start) 8) content) (\<lambda>(requests, content').
     ibind (prefetch src requests) (\<lambda>_.
     ibind (parts_batch src author g budget (word_of_nat start) requests st) (\<lambda>st'.
     parts_loop src author g budget starts content' st')))"

definition reconstruct_parts ::
  "(bytes \<Rightarrow> bytes) \<Rightarrow> 's multipart_source \<Rightarrow> bytes \<Rightarrow> root_manifest \<Rightarrow> geometry \<Rightarrow> budget \<Rightarrow> bytes \<Rightarrow> ('s, bytes) recovery" where
  "reconstruct_parts sha256 src author manifest g budget content =
     ibind (parts_loop src author g budget (map (\<lambda>k. 8 * k) [0..<div_ceil (unat (g_parts g)) 8]) content (0, [])) (\<lambda>(len, payload).
     ibind (icheck (len = rm_length manifest \<and> sha256 payload = rm_payload_hash manifest)
       (InvalidObject (Invalid ''complete payload length or digest mismatch''))) (\<lambda>_.
     ibind (storage src) (\<lambda>_. iret payload)))"

record recovered_object =
  ro_root :: bytes
  ro_author :: bytes
  ro_manifest :: root_manifest
  ro_payload :: bytes

definition reconstruct ::
  "(bytes \<Rightarrow> bytes) \<Rightarrow> 's multipart_source \<Rightarrow> verified_record \<Rightarrow> recovery_limits \<Rightarrow> ('s, recovered_object) recovery" where
  "reconstruct sha256 src root limits =
     ibind (ilift (map_err InvalidObject (VerifiedRecord_decode root))) (\<lambda>decoded.
     case decoded of
       Root manifest \<Rightarrow>
         ibind (ilift (map_err InvalidObject (RootManifest_geometry manifest))) (\<lambda>g.
         ibind (icheck (g_length g \<le> rl_max_payload_bytes limits \<and> Geometry_nodes g \<le> rl_max_nodes limits)
           (RecoveryCapacity ''object exceeds caller's byte/node budget'')) (\<lambda>_.
         ibind (Budget_new src limits) (\<lambda>budget.
         ibind (storage src) (\<lambda>_.
         ibind (inventory_file src root manifest budget) (\<lambda>content.
         ibind (storage src) (\<lambda>_.
         ibind (reconstruct_parts sha256 src (vr_author root) manifest g budget content) (\<lambda>payload.
         iret \<lparr>ro_root = vr_txid root, ro_author = vr_author root, ro_manifest = manifest, ro_payload = payload\<rparr>)))))))
     | _ \<Rightarrow> ithrow (InvalidObject (Invalid ''recovery locator must name a root manifest'')))"

end
