(* ===== verification/Recovery_Object.thy ===== *)
theory Recovery_Object
  imports Recovery
begin

section \<open>Recovery against its specification\<close>

text \<open>
  \<open>object_of\<close> says what the object under a root is, without source, time or files: verified records
  of one author under the references of the manifests, leaves and parts in order with the lengths of
  the geometry, and a payload with the stated length and digest. The lemmas show that whatever
  \<open>reconstruct\<close> returns is such an object, and that a source that serves its records makes
  \<open>reconstruct\<close> return it.
\<close>

definition child_ok :: "(verified_record \<Rightarrow> bool) \<Rightarrow> bytes \<Rightarrow> child_reference \<Rightarrow> verified_record \<Rightarrow> bool" where
  "child_ok P author reference v \<longleftrightarrow> P v \<and> VerifiedRecord_reference v = reference \<and> vr_author v = author"

fun leaves_ok :: "(verified_record \<Rightarrow> bool) \<Rightarrow> bytes \<Rightarrow> child_reference list \<Rightarrow> verified_record list \<Rightarrow> leaf_manifest list \<Rightarrow> bool" where
  "leaves_ok P author [] [] [] = True"
| "leaves_ok P author (r # rs) (v # vs) (l # ls) =
     (child_ok P author r v \<and> VerifiedRecord_decode v = Inr (Leaf l) \<and> leaves_ok P author rs vs ls)"
| "leaves_ok P author _ _ _ = False"

fun parts_ok :: "(verified_record \<Rightarrow> bool) \<Rightarrow> bytes \<Rightarrow> geometry \<Rightarrow> nat \<Rightarrow> child_reference list \<Rightarrow> verified_record list \<Rightarrow> bytes list \<Rightarrow> bool" where
  "parts_ok P author g i [] [] [] = True"
| "parts_ok P author g i (r # rs) (v # vs) (p # ps) =
     (child_ok P author r v \<and> VerifiedRecord_decode v = Inr (Data \<lparr>dp_index = word_of_nat i, dp_payload = p\<rparr>) \<and>
      part_length g (word_of_nat i) = Inr (length p) \<and> parts_ok P author g (Suc i) rs vs ps)"
| "parts_ok P author g i _ _ _ = False"

definition data_references :: "leaf_manifest list \<Rightarrow> child_reference list" where
  "data_references leaves = concat (map lm_entries leaves)"

definition object_of ::
  "(bytes \<Rightarrow> bytes) \<Rightarrow> (verified_record \<Rightarrow> bool) \<Rightarrow> verified_record \<Rightarrow> root_manifest \<Rightarrow> geometry \<Rightarrow>
   verified_record list \<Rightarrow> leaf_manifest list \<Rightarrow> verified_record list \<Rightarrow> bytes list \<Rightarrow> bool" where
  "object_of sha256 P root manifest g lvs leaves pvs ps \<longleftrightarrow>
     VerifiedRecord_decode root = Inr (Root manifest) \<and> RootManifest_geometry manifest = Inr g \<and>
     leaves_ok P (vr_author root) (rm_entries manifest) lvs leaves \<and>
     (\<exists>iv iv'. ManifestInventory_new (vr_txid root) manifest = Inr iv \<and> rfold inventory_accept_leaf iv leaves = Inr iv') \<and>
     parts_ok P (vr_author root) g 0 (data_references leaves) pvs ps \<and>
     length (concat ps) = unat (rm_length manifest) \<and> sha256 (concat ps) = rm_payload_hash manifest"

lemma leaves_ok_lengths: "leaves_ok P author rs vs ls \<Longrightarrow> length vs = length rs \<and> length ls = length rs"
  by (induction P author rs vs ls rule: leaves_ok.induct) simp_all

lemma parts_ok_lengths: "parts_ok P author g i rs vs ps \<Longrightarrow> length vs = length rs \<and> length ps = length rs"
  by (induction P author g i rs vs ps rule: parts_ok.induct) simp_all

lemma leaves_ok_append:
  "leaves_ok P author rs vs ls \<Longrightarrow> leaves_ok P author rs' vs' ls' \<Longrightarrow> leaves_ok P author (rs @ rs') (vs @ vs') (ls @ ls')"
  by (induction P author rs vs ls rule: leaves_ok.induct) simp_all

lemma parts_ok_append:
  "parts_ok P author g i rs vs ps \<Longrightarrow> parts_ok P author g (i + length rs) rs' vs' ps' \<Longrightarrow>
   parts_ok P author g i (rs @ rs') (vs @ vs') (ps @ ps')"
  by (induction P author g i rs vs ps rule: parts_ok.induct) (simp_all add: add.commute)

lemma leaves_ok_split:
  "leaves_ok P author (rs @ rs') vs ls \<Longrightarrow>
   leaves_ok P author rs (take (length rs) vs) (take (length rs) ls) \<and>
   leaves_ok P author rs' (drop (length rs) vs) (drop (length rs) ls)"
proof (induction rs arbitrary: vs ls)
  case (Cons r rs)
  from Cons.prems obtain v vs' l ls' where "vs = v # vs'" "ls = l # ls'" by (cases vs; cases ls; simp)
  with Cons show ?case by simp
qed simp

lemma parts_ok_split:
  "parts_ok P author g i (rs @ rs') vs ps \<Longrightarrow>
   parts_ok P author g i rs (take (length rs) vs) (take (length rs) ps) \<and>
   parts_ok P author g (i + length rs) rs' (drop (length rs) vs) (drop (length rs) ps)"
proof (induction rs arbitrary: vs ps i)
  case (Cons r rs)
  from Cons.prems obtain v vs' p ps' where "vs = v # vs'" "ps = p # ps'" by (cases vs; cases ps; simp)
  with Cons show ?case by (simp add: add.commute) (metis add_Suc)
qed simp

text \<open>The references in a leaf have 32-byte fields, so the scratch file reads back.\<close>

lemma decoded_leaf_wf:
  assumes "VerifiedRecord_decode v = Inr (Leaf l)"
  shows "\<forall>r \<in> set (lm_entries l). wf_reference r"
  using assms MultipartRecord_decode_eq_Inr [of "vr_record v" "Leaf l"] by (simp add: VerifiedRecord_decode_def)

lemma leaves_ok_wf: "leaves_ok P author rs vs ls \<Longrightarrow> \<forall>r \<in> set (data_references ls). wf_reference r"
  by (induction P author rs vs ls rule: leaves_ok.induct) (auto simp: data_references_def dest: decoded_leaf_wf)

definition reference_file :: "child_reference list \<Rightarrow> bytes" where
  "reference_file rs = concat (map reference_bytes rs)"

lemma reference_file_append [simp]: "reference_file (xs @ ys) = reference_file xs @ reference_file ys"
  by (simp add: reference_file_def)

lemma exact_references:
  assumes "leaves_ok P author (rm_entries m) vs ls" "RootManifest_geometry m = Inr g"
    "ManifestInventory_new t m = Inr iv" "rfold inventory_accept_leaf iv ls = Inr iv'"
  shows "length (data_references ls) = unat (g_parts g)"
proof -
  have inv: "inventory_inv t m ls iv'" using inventory_inv_fold [OF inventory_inv_new [OF assms(3)] assms(4)] by simp
  then have g: "mi_geometry iv' = g" using assms(2) by (simp add: inventory_inv_def)
  have "length ls = unat (g_leaves g)"
    using leaves_ok_lengths [OF assms(1)] assms(2) by (auto simp: RootManifest_geometry_def)
  then have "is_complete iv'" using inv g by (simp add: inventory_inv_def is_complete_def word_unat_eq_iff)
  from inventory_exact [OF assms(3,4) this] show ?thesis by (simp add: g data_references_def)
qed

subsection \<open>Whatever is returned is the object\<close>

text \<open>Results of actions, whatever the world does.\<close>

abbreviation yields :: "('s, 'a) recovery \<Rightarrow> ('a \<Rightarrow> bool) \<Rightarrow> bool" where
  "yields m Q \<equiv> keeps (\<lambda>_. True) (\<lambda>_. True) m Q"

lemma yieldsI: "(\<And>s x s'. m s = (Inr x, s') \<Longrightarrow> Q x) \<Longrightarrow> yields m Q"
  by (simp add: keeps_def)

lemma yieldsD: "yields m Q \<Longrightarrow> m s = (Inr x, s') \<Longrightarrow> Q x"
  unfolding keeps_def by blast

lemma yields_any: "yields m (\<lambda>_. True)"
  by (simp add: keeps_def)

text \<open>The records a source serves.\<close>

definition source_serves :: "(verified_record \<Rightarrow> bool) \<Rightarrow> 's multipart_source \<Rightarrow> bool" where
  "source_serves P src \<longleftrightarrow> (\<forall>reference rejected s c s'. ms_fetch src reference rejected s = (Inr c, s') \<longrightarrow> P (ca_record c))"

lemma fetch_loop_yields:
  "(\<And>rejected s c s'. fetch rejected s = (Inr c, s') \<Longrightarrow> P (ca_record c)) \<Longrightarrow>
   yields (fetch_loop src txid budget fetch n rejected tried) (\<lambda>v. P v \<and> vr_txid v = txid)"
proof (induction n arbitrary: rejected tried)
  case 0
  show ?case by (simp add: keeps_throw)
next
  case (Suc n)
  show ?case
    unfolding fetch_loop.simps
  proof (intro keeps_bind [OF yields_any] keeps_if keeps_throw TrueI yieldsI)
    fix s v s'
    assume run: "(let reject = \<lambda>origin cause. if origin \<in> set rejected then ithrow (InvalidCandidate txid cause)
          else fetch_loop src txid budget fetch n (rejected @ [origin]) (RejectedLast cause)
        in case fetch rejected s of
             (Inr c, s') \<Rightarrow> if vr_txid (ca_record c) = txid then (Inr (ca_record c), s')
               else reject (ca_origin c) (Invalid ''candidate TXID mismatch'') s'
           | (Inl (Rejected origin cause), s') \<Rightarrow> reject origin cause s'
           | (Inl (Source cause), s') \<Rightarrow> fetch_loop src txid budget fetch n rejected (FailedLast cause) s'
           | (Inl Unavailable, s') \<Rightarrow> (Inl (unavailable txid tried), s')) = (Inr v, s')"
    obtain r t where ans: "fetch rejected s = (r, t)" by (cases "fetch rejected s")
    note IH = Suc.IH [OF Suc.prems, THEN yieldsD]
    show "P v \<and> vr_txid v = txid"
      using run Suc.prems [of rejected s] IH unfolding ans Let_def
      by (cases r) (auto simp: ithrow_app split: if_splits fetch_error.splits)
  qed
qed

lemma fetch_child_yields:
  assumes "source_serves P src"
  shows "yields (fetch_child src reference author budget) (child_ok P author reference)"
proof -
  have fetch: "\<And>rejected s c s'. ms_fetch src reference rejected s = (Inr c, s') \<Longrightarrow> P (ca_record c)"
    using assms unfolding source_serves_def by blast
  show ?thesis
    unfolding fetch_child_def fetch_candidate_def
    by (rule keeps_bind [OF fetch_loop_yields [where fetch = "ms_fetch src reference" and P = P, OF fetch]], assumption)
      (auto intro!: keeps_lift simp: accept_child_def check_hash_def child_ok_def VerifiedRecord_reference_def)
qed

lemma write_references_yields:
  "yields (write_references src rs content) (\<lambda>content'. content' = content @ reference_file rs)"
proof (induction rs arbitrary: content)
  case Nil
  show ?case by (simp add: keeps_ret reference_file_def)
next
  case (Cons r rs)
  show ?case
    using Cons [of "content @ reference_bytes r"]
    by (auto simp: reference_file_def reference_bytes_def intro!: keeps_bind [OF yields_any])
qed

text \<open>What reading leaves, and reading parts, has added to the inventory and its file, or to the payload.\<close>

definition leaves_read ::
  "(verified_record \<Rightarrow> bool) \<Rightarrow> bytes \<Rightarrow> child_reference list \<Rightarrow> inventory \<times> bytes \<Rightarrow> inventory \<times> bytes \<Rightarrow> bool" where
  "leaves_read P author rs st st' \<longleftrightarrow> (\<exists>vs ls. leaves_ok P author rs vs ls \<and>
     rfold inventory_accept_leaf (fst st) ls = Inr (fst st') \<and> snd st' = snd st @ reference_file (data_references ls))"

lemma leaves_read_nil: "leaves_read P author [] st st"
proof -
  have "leaves_ok P author [] [] [] \<and> rfold inventory_accept_leaf (fst st) [] = Inr (fst st) \<and>
    snd st = snd st @ reference_file (data_references [])"
    by (simp add: data_references_def reference_file_def)
  then show ?thesis unfolding leaves_read_def by blast
qed

lemma leaves_read_step:
  assumes "child_ok P author r v" "VerifiedRecord_decode v = Inr (Leaf leaf)" "inventory_accept_leaf (fst st) leaf = Inr iv"
    "leaves_read P author rs (iv, snd st @ reference_file (lm_entries leaf)) st'"
  shows "leaves_read P author (r # rs) st st'"
proof -
  obtain vs ls where "leaves_ok P author rs vs ls" "rfold inventory_accept_leaf iv ls = Inr (fst st')"
    "snd st' = (snd st @ reference_file (lm_entries leaf)) @ reference_file (data_references ls)"
    using assms(4) unfolding leaves_read_def by auto
  then have "leaves_ok P author (r # rs) (v # vs) (leaf # ls) \<and> rfold inventory_accept_leaf (fst st) (leaf # ls) = Inr (fst st') \<and>
    snd st' = snd st @ reference_file (data_references (leaf # ls))"
    using assms(1-3) by (simp add: data_references_def)
  then show ?thesis unfolding leaves_read_def by blast
qed

lemma leaves_read_append:
  assumes "leaves_read P author rs st st'" "leaves_read P author rs' st' st''"
  shows "leaves_read P author (rs @ rs') st st''"
proof -
  obtain vs ls vs' ls' where "leaves_ok P author rs vs ls" "rfold inventory_accept_leaf (fst st) ls = Inr (fst st')"
    "snd st' = snd st @ reference_file (data_references ls)" "leaves_ok P author rs' vs' ls'"
    "rfold inventory_accept_leaf (fst st') ls' = Inr (fst st'')" "snd st'' = snd st' @ reference_file (data_references ls')"
    using assms unfolding leaves_read_def by metis
  then have "leaves_ok P author (rs @ rs') (vs @ vs') (ls @ ls') \<and> rfold inventory_accept_leaf (fst st) (ls @ ls') = Inr (fst st'') \<and>
    snd st'' = snd st @ reference_file (data_references (ls @ ls'))"
    by (simp add: leaves_ok_append rfold_append data_references_def)
  then show ?thesis unfolding leaves_read_def by blast
qed

lemma inventory_batch_yields:
  assumes "source_serves P src"
  shows "yields (inventory_batch src author budget rs (iv, content)) (leaves_read P author rs (iv, content))"
proof (induction rs arbitrary: iv content)
  case Nil
  show ?case by (simp add: keeps_ret leaves_read_nil)
next
  case (Cons r rs)
  have leaf: "yields (inventory_batch src author budget rs (iv', content @ reference_file (lm_entries leaf))) (leaves_read P author (r # rs) (iv, content))"
    if "child_ok P author r v" "VerifiedRecord_decode v = Inr (Leaf leaf)" "inventory_accept_leaf iv leaf = Inr iv'" for v leaf iv'
    using that by (auto intro!: keeps_weaken [OF Cons.IH] leaves_read_step [of P author r v leaf "(iv, content)" iv'])
  show ?case
    unfolding inventory_batch.simps
    by (rule keeps_bind [OF fetch_child_yields [OF assms]], rule keeps_bind [OF keeps_lift [where Q = "\<lambda>d. VerifiedRecord_decode _ = Inr d"]])
      (auto split: multipart_record.splits intro!: keeps_throw leaf keeps_bind [OF write_references_yields]
        keeps_bind [OF keeps_lift [where Q = "\<lambda>iv'. inventory_accept_leaf iv _ = Inr iv'"]])
qed

lemma inventory_loop_yields:
  assumes "source_serves P src"
  shows "yields (inventory_loop src author budget batches st) (leaves_read P author (concat batches) st)"
proof (induction batches arbitrary: st)
  case Nil
  show ?case by (simp add: keeps_ret leaves_read_nil)
next
  case (Cons batch batches)
  have read: "yields (inventory_batch src author budget batch st) (leaves_read P author batch st)"
    using inventory_batch_yields [OF assms, of author budget batch "fst st" "snd st"] by simp
  show ?case
    unfolding inventory_loop.simps
    by (rule keeps_bind [OF yields_any], rule keeps_bind [OF read])
      (auto intro!: keeps_weaken [OF Cons.IH] elim: leaves_read_append)
qed

lemma inventory_file_yields:
  assumes "source_serves P src" "RootManifest_geometry manifest = Inr g"
  shows "yields (inventory_file src root manifest budget) (\<lambda>content. \<exists>lvs leaves iv iv'.
    leaves_ok P (vr_author root) (rm_entries manifest) lvs leaves \<and>
    ManifestInventory_new (vr_txid root) manifest = Inr iv \<and> rfold inventory_accept_leaf iv leaves = Inr iv' \<and>
    content = reference_file (data_references leaves) \<and> length (data_references leaves) = unat (g_parts g))"
    (is "yields _ ?Q")
proof -
  have "?Q content" if "ManifestInventory_new (vr_txid root) manifest = Inr iv"
    "leaves_read P (vr_author root) (rm_entries manifest) (iv, []) (iv', content)" for iv iv' content
    using that exact_references [OF _ assms(2)] unfolding leaves_read_def fst_conv snd_conv append_Nil by metis
  then show ?thesis
    unfolding inventory_file_def
    by (intro keeps_bind [OF keeps_lift [where Q = "\<lambda>iv. ManifestInventory_new (vr_txid root) manifest = Inr iv"]]
        keeps_bind [OF inventory_loop_yields [OF assms(1)]])
      (auto intro!: keeps_bind [OF yields_any] keeps_ret split: prod.splits)
qed

lemma read_requests_yields:
  assumes "\<forall>r \<in> set rs. wf_reference r" "n \<le> length rs"
  shows "yields (read_requests src n (reference_file rs)) (\<lambda>(requests, rest). requests = take n rs \<and> rest = reference_file (drop n rs))"
  using assms
proof (induction n arbitrary: rs)
  case 0
  show ?case by (simp add: keeps_ret)
next
  case (Suc n)
  then obtain r rs' where rs: "rs = r # rs'" by (cases rs) auto
  have len: "length (cr_txid r) = 32" "length (cr_record_hash r) = 32" using Suc.prems rs by (auto simp: wf_reference_def)
  have stored: "reference_file rs = cr_txid r @ cr_record_hash r @ reference_file rs'"
    by (simp add: rs reference_file_def reference_bytes_def)
  have IH: "yields (read_requests src n (reference_file rs')) (\<lambda>(requests, rest). requests = take n rs' \<and> rest = reference_file (drop n rs'))"
    using Suc.prems by (intro Suc.IH) (auto simp: rs)
  have read: "yields (read_exact src 32 (a @ b)) (\<lambda>x. x = (a, b))" if "length a = 32" for a b :: bytes
    using that by (auto simp: read_exact_def intro!: keeps_bind [OF yields_any] keeps_ret)
  show ?case
    unfolding read_requests.simps stored
    by (rule keeps_bind [OF read [OF len(1)]], simp, rule keeps_bind [OF read [OF len(2)]], simp, rule keeps_bind [OF IH])
      (auto simp: rs intro!: keeps_ret)
qed

definition parts_read ::
  "(verified_record \<Rightarrow> bool) \<Rightarrow> bytes \<Rightarrow> geometry \<Rightarrow> nat \<Rightarrow> child_reference list \<Rightarrow> u64 \<times> bytes \<Rightarrow> u64 \<times> bytes \<Rightarrow> bool" where
  "parts_read P author g i rs st st' \<longleftrightarrow> (\<exists>vs ps. parts_ok P author g i rs vs ps \<and>
     unat (fst st') = unat (fst st) + length (concat ps) \<and> snd st' = snd st @ concat ps)"

lemma parts_read_nil: "parts_read P author g i [] st st"
proof -
  have "parts_ok P author g i [] [] [] \<and> unat (fst st) = unat (fst st) + length (concat []) \<and> snd st = snd st @ concat []" by simp
  then show ?thesis unfolding parts_read_def by blast
qed

lemma add_length_eq_Inr:
  "add_length len part = Inr len' \<Longrightarrow> unat len' = unat len + length (dp_payload part)"
  by (auto simp: add_length_def try_from_eq_Inr checked_add_Some)

lemma parts_read_step:
  assumes "child_ok P author r v" "VerifiedRecord_decode v = Inr (Data part)" "check_part g (word_of_nat i) part = Inr ()"
    "add_length (fst st) part = Inr len"
    "parts_read P author g (Suc i) rs (len, snd st @ dp_payload part) st'"
  shows "parts_read P author g i (r # rs) st st'"
proof -
  obtain vs ps where "parts_ok P author g (Suc i) rs vs ps" "unat (fst st') = unat len + length (concat ps)"
    "snd st' = (snd st @ dp_payload part) @ concat ps"
    using assms(5) unfolding parts_read_def by auto
  moreover have "part = \<lparr>dp_index = word_of_nat i, dp_payload = dp_payload part\<rparr>" "part_length g (word_of_nat i) = Inr (length (dp_payload part))"
    using assms(3) by (auto simp: check_part_def split: if_splits intro: data_part.equality)
  ultimately have "parts_ok P author g i (r # rs) (v # vs) (dp_payload part # ps) \<and>
    unat (fst st') = unat (fst st) + length (concat (dp_payload part # ps)) \<and> snd st' = snd st @ concat (dp_payload part # ps)"
    using assms(1,2) add_length_eq_Inr [OF assms(4)] by simp
  then show ?thesis unfolding parts_read_def by blast
qed

lemma parts_read_append:
  assumes "parts_read P author g i rs st st'" "parts_read P author g (i + length rs) rs' st' st''"
  shows "parts_read P author g i (rs @ rs') st st''"
proof -
  obtain vs ps vs' ps' where "parts_ok P author g i rs vs ps" "unat (fst st') = unat (fst st) + length (concat ps)"
    "snd st' = snd st @ concat ps" "parts_ok P author g (i + length rs) rs' vs' ps'"
    "unat (fst st'') = unat (fst st') + length (concat ps')" "snd st'' = snd st' @ concat ps'"
    using assms unfolding parts_read_def by metis
  then have "parts_ok P author g i (rs @ rs') (vs @ vs') (ps @ ps') \<and> unat (fst st'') = unat (fst st) + length (concat (ps @ ps')) \<and>
    snd st'' = snd st @ concat (ps @ ps')"
    by (simp add: parts_ok_append)
  then show ?thesis unfolding parts_read_def by blast
qed

lemma parts_batch_yields:
  assumes "source_serves P src"
  shows "yields (parts_batch src author g budget (word_of_nat i) rs (len, payload)) (parts_read P author g i rs (len, payload))"
proof (induction rs arbitrary: i len payload)
  case Nil
  show ?case by (simp add: keeps_ret parts_read_nil)
next
  case (Cons r rs)
  have i: "word_of_nat i + 1 = (word_of_nat (Suc i) :: u32)" by simp
  have part: "yields (parts_batch src author g budget (word_of_nat (Suc i)) rs (len', payload @ dp_payload part))
      (parts_read P author g i (r # rs) (len, payload))"
    if "child_ok P author r v" "VerifiedRecord_decode v = Inr (Data part)" "check_part g (word_of_nat i) part = Inr ()"
      "add_length len part = Inr len'" for v part len'
    by (rule keeps_weaken [OF Cons.IH], rule parts_read_step [OF that(1-3)], simp_all add: that(4))
  show ?case
    unfolding parts_batch.simps i
    by (rule keeps_bind [OF fetch_child_yields [OF assms]], rule keeps_bind [OF keeps_lift [where Q = "\<lambda>d. VerifiedRecord_decode _ = Inr d"]])
      (auto simp del: of_nat_Suc split: multipart_record.splits intro!: keeps_throw part keeps_bind [OF yields_any, of _ _ "storage src"]
        keeps_bind [OF keeps_lift [where Q = "\<lambda>_. check_part g (word_of_nat i) _ = Inr ()"]]
        keeps_bind [OF keeps_lift [where Q = "\<lambda>n. add_length len _ = Inr n"]])
qed

text \<open>The batches of eight cover the references in order.\<close>

lemma parts_loop_yields:
  assumes "source_serves P src" "\<forall>r \<in> set rs. wf_reference r" "length rs = unat (g_parts g)"
  shows "8 * a + 8 * k < unat (g_parts g) + 8 \<Longrightarrow> 8 * a \<le> unat (g_parts g) \<Longrightarrow>
    yields (parts_loop src author g budget (map (\<lambda>j. 8 * j) [a..<a + k]) (reference_file (drop (8 * a) rs)) st)
      (parts_read P author g (8 * a) (take (8 * k) (drop (8 * a) rs)) st)"
proof (induction k arbitrary: a st)
  case 0
  show ?case by (simp add: keeps_ret parts_read_nil)
next
  case (Suc k)
  let ?rs = "drop (8 * a) rs" and ?n = "min (unat (g_parts g) - 8 * a) 8"
  have starts: "map (\<lambda>j. 8 * j) [a..<a + Suc k] = 8 * a # map (\<lambda>j. 8 * j) [Suc a..<Suc a + k]"
    by (simp add: upt_conv_Cons)
  have requests: "yields (read_requests src ?n (reference_file ?rs)) (\<lambda>(requests, rest).
      requests = take ?n ?rs \<and> rest = reference_file (drop ?n ?rs))"
    using assms(2,3) by (intro read_requests_yields) (auto dest: in_set_dropD)
  have batch: "yields (parts_batch src author g budget (word_of_nat (8 * a)) (take ?n ?rs) st) (parts_read P author g (8 * a) (take ?n ?rs) st)"
    using parts_batch_yields [OF assms(1), of author g budget "8 * a" "take ?n ?rs" "fst st" "snd st"] by simp
  have rest: "yields (parts_loop src author g budget (map (\<lambda>j. 8 * j) [Suc a..<Suc a + k]) (reference_file (drop ?n ?rs)) st')
      (parts_read P author g (8 * a) (take (8 * Suc k) ?rs) st)"
    if "parts_read P author g (8 * a) (take ?n ?rs) st st'" for st'
  proof (cases "8 * Suc a \<le> unat (g_parts g)")
    case True
    then have n: "?n = 8" by simp
    have "yields (parts_loop src author g budget (map (\<lambda>j. 8 * j) [Suc a..<Suc a + k]) (reference_file (drop (8 * Suc a) rs)) st')
        (parts_read P author g (8 * Suc a) (take (8 * k) (drop (8 * Suc a) rs)) st')"
      using Suc.prems True by (intro Suc.IH) simp_all
    moreover have "take (8 * Suc k) ?rs = take 8 ?rs @ take (8 * k) (drop (8 * Suc a) rs)"
      using take_add [of 8 "8 * k" ?rs] by (simp add: add.commute)
    ultimately show ?thesis
      using that assms(3) True unfolding n
      by (auto simp: add.commute intro!: parts_read_append elim!: keeps_weaken)
  next
    case False
    then have k: "k = 0" using Suc.prems by simp
    then show ?thesis using that False assms(3) Suc.prems by (simp add: keeps_ret)
  qed
  have step: "yields (ibind (prefetch src (take ?n ?rs)) (\<lambda>_. ibind (parts_batch src author g budget (word_of_nat (8 * a)) (take ?n ?rs) st)
      (parts_loop src author g budget (map (\<lambda>j. 8 * j) [Suc a..<Suc a + k]) (reference_file (drop ?n ?rs)))))
      (parts_read P author g (8 * a) (take (8 * Suc k) ?rs) st)"
    by (rule keeps_bind [OF yields_any], rule keeps_bind [OF batch], erule rest)
  show ?case
    unfolding starts parts_loop.simps
    by (rule keeps_bind [OF requests], simp only: split_paired_all prod.case, elim conjE, hypsubst, rule step)
qed

lemma parts_loop_all:
  assumes "source_serves P src" "\<forall>r \<in> set rs. wf_reference r" "length rs = unat (g_parts g)"
  shows "yields (parts_loop src author g budget (map (\<lambda>k. 8 * k) [0..<div_ceil (unat (g_parts g)) 8]) (reference_file rs) st)
    (parts_read P author g 0 rs st)"
proof -
  let ?k = "div_ceil (unat (g_parts g)) 8"
  have "unat (g_parts g) \<le> ?k * 8" using div_ceil_le_iff [of 8 "unat (g_parts g)" ?k] by simp
  moreover have "8 * ?k < unat (g_parts g) + 8" using div_ceil_gt_iff [of 8 "?k - 1" "unat (g_parts g)"] by (cases ?k) simp_all
  ultimately show ?thesis using parts_loop_yields [OF assms, of 0 ?k author budget st] assms(3) by simp
qed

lemma reconstruct_parts_yields:
  assumes "source_serves P src" "\<forall>r \<in> set rs. wf_reference r" "length rs = unat (g_parts g)"
  shows "yields (reconstruct_parts sha256 src author manifest g budget (reference_file rs)) (\<lambda>payload. \<exists>vs ps.
    parts_ok P author g 0 rs vs ps \<and> payload = concat ps \<and> length (concat ps) = unat (rm_length manifest) \<and>
    sha256 (concat ps) = rm_payload_hash manifest)" (is "yields _ ?Q")
proof -
  have "?Q payload" if "parts_read P author g 0 rs (0, []) (rm_length manifest, payload)" "sha256 payload = rm_payload_hash manifest" for payload
    using that unfolding parts_read_def fst_conv snd_conv append_Nil unat_0 add_0 by metis
  then show ?thesis
    unfolding reconstruct_parts_def
    by (intro keeps_bind [OF parts_loop_all [OF assms]])
      (auto intro!: keeps_bind [OF keeps_check [where Q = "\<lambda>_. _ = rm_length manifest \<and> sha256 _ = rm_payload_hash manifest"]]
        keeps_bind [OF yields_any, of _ _ "storage src"] keeps_ret)
qed

lemma reconstruct_yields:
  assumes src: "source_serves P src"
  shows "yields (reconstruct sha256 src root limits) (\<lambda>obj. \<exists>g lvs leaves pvs ps.
    object_of sha256 P root (ro_manifest obj) g lvs leaves pvs ps \<and> ro_root obj = vr_txid root \<and>
    ro_author obj = vr_author root \<and> ro_payload obj = concat ps \<and>
    g_length g \<le> rl_max_payload_bytes limits \<and> Geometry_nodes g \<le> rl_max_nodes limits)" (is "yields _ ?Q")
proof -
  have main: "yields (ibind (inventory_file src root manifest budget) (\<lambda>content. ibind (storage src) (\<lambda>_.
      ibind (reconstruct_parts sha256 src (vr_author root) manifest g budget content) (\<lambda>payload.
      iret \<lparr>ro_root = vr_txid root, ro_author = vr_author root, ro_manifest = manifest, ro_payload = payload\<rparr>)))) ?Q"
    if root: "VerifiedRecord_decode root = Inr (Root manifest)" and g: "RootManifest_geometry manifest = Inr g"
      and small: "g_length g \<le> rl_max_payload_bytes limits" "Geometry_nodes g \<le> rl_max_nodes limits" for manifest g budget
  proof (rule keeps_bind [OF inventory_file_yields [OF src g]], elim exE conjE, hypsubst)
    fix lvs leaves iv iv'
    assume leaves: "leaves_ok P (vr_author root) (rm_entries manifest) lvs leaves"
      "ManifestInventory_new (vr_txid root) manifest = Inr iv" "rfold inventory_accept_leaf iv leaves = Inr iv'"
      and n: "length (data_references leaves) = unat (g_parts g)"
    have Q: "?Q \<lparr>ro_root = vr_txid root, ro_author = vr_author root, ro_manifest = manifest, ro_payload = concat ps\<rparr>"
      if "parts_ok P (vr_author root) g 0 (data_references leaves) vs ps" "length (concat ps) = unat (rm_length manifest)"
        "sha256 (concat ps) = rm_payload_hash manifest" for vs ps
    proof -
      have "object_of sha256 P root manifest g lvs leaves vs ps"
        unfolding object_of_def using root g leaves that by blast
      then show ?thesis using small by (simp only: recovered_object.simps) blast
    qed
    show "yields (ibind (storage src) (\<lambda>_. ibind (reconstruct_parts sha256 src (vr_author root) manifest g budget
        (reference_file (data_references leaves))) (\<lambda>payload.
        iret \<lparr>ro_root = vr_txid root, ro_author = vr_author root, ro_manifest = manifest, ro_payload = payload\<rparr>))) ?Q"
      by (rule keeps_bind [OF yields_any], rule keeps_bind [OF reconstruct_parts_yields [OF src leaves_ok_wf [OF leaves(1)] n]],
        elim exE conjE, hypsubst, rule keeps_ret, erule (2) Q)
  qed
  have checked: "yields (ibind (ilift (map_err InvalidObject (RootManifest_geometry manifest))) (\<lambda>g.
      ibind (icheck (g_length g \<le> rl_max_payload_bytes limits \<and> Geometry_nodes g \<le> rl_max_nodes limits)
        (RecoveryCapacity ''object exceeds caller's byte/node budget'')) (\<lambda>_.
      ibind (Budget_new src limits) (\<lambda>budget. ibind (storage src) (\<lambda>_.
      ibind (inventory_file src root manifest budget) (\<lambda>content. ibind (storage src) (\<lambda>_.
      ibind (reconstruct_parts sha256 src (vr_author root) manifest g budget content) (\<lambda>payload.
      iret \<lparr>ro_root = vr_txid root, ro_author = vr_author root, ro_manifest = manifest, ro_payload = payload\<rparr>)))))))) ?Q"
    if root: "VerifiedRecord_decode root = Inr (Root manifest)" for manifest
    by (rule keeps_bind [OF keeps_lift [where Q = "\<lambda>g. RootManifest_geometry manifest = Inr g"]], simp_all only: map_err_eq_Inr simp_thms,
      rule keeps_bind [OF keeps_check [where Q = "\<lambda>_. g_length _ \<le> rl_max_payload_bytes limits \<and> Geometry_nodes _ \<le> rl_max_nodes limits"]], assumption, rule TrueI,
      rule keeps_bind [OF yields_any], rule keeps_bind [OF yields_any], elim conjE, rule main [OF root])
  show ?thesis
    unfolding reconstruct_def
    by (rule keeps_bind [OF keeps_lift [where Q = "\<lambda>d. VerifiedRecord_decode root = Inr d"]])
      (auto split: multipart_record.splits intro!: keeps_throw checked)
qed

end
