(* ===== verification/Recovery_Delivery.thy ===== *)
theory Recovery_Delivery
  imports Recovery_Object Consistency
begin

section \<open>A source that delivers\<close>

text \<open>
  The other half of recovery: with a source that answers every reference of an object with its
  record, or with candidates of fewer origins than the attempts that it learns to leave out, with a
  working scratch directory and within the time limit, \<open>reconstruct\<close> returns the object; and what a
  publisher writes is such an object.
\<close>

text \<open>\<open>m\<close> returns \<open>x\<close> from every state of the world.\<close>

definition returns :: "('s, 'a) recovery \<Rightarrow> 'a \<Rightarrow> bool" where
  "returns m x \<longleftrightarrow> (\<forall>s. \<exists>s'. m s = (Inr x, s'))"

lemma returns_ret [intro]: "returns (iret x) x"
  by (simp add: returns_def iret_app)

lemma returns_lift [intro]: "r = Inr x \<Longrightarrow> returns (ilift r) x"
  by (simp add: returns_def ilift_app)

lemma returns_check [intro]: "c \<Longrightarrow> returns (icheck c e) ()"
  by (simp add: returns_def icheck_def iret_app)

lemma returns_bind:
  assumes "returns m x" "returns (k x) y"
  shows "returns (ibind m k) y"
  unfolding returns_def
proof
  fix s
  obtain s' where "m s = (Inr x, s')" using assms(1) unfolding returns_def by blast
  moreover obtain s'' where "k x s' = (Inr y, s'')" using assms(2) unfolding returns_def by blast
  ultimately show "\<exists>s'. ibind m k s = (Inr y, s')" by (simp add: ibind_app)
qed

lemma returns_prefetch [intro]: "returns (prefetch src requests) ()"
  by (simp add: returns_def prefetch_def)

text \<open>
  Within the limits: the clock stays below the timeout, the scratch files work, and fewer origins
  misbehave than the attempts allow.
\<close>

definition source_works :: "'s multipart_source \<Rightarrow> recovery_limits \<Rightarrow> string set \<Rightarrow> bool" where
  "source_works src limits bad \<longleftrightarrow> finite bad \<and> card bad < max (unat (rl_attempts limits)) 1 \<and>
     (\<forall>s. fst (ms_clock src s) < rl_timeout limits) \<and> (\<forall>s. fst (ms_storage src s))"

definition answers ::
  "(string list \<Rightarrow> ('s, fetch_error, candidate) act) \<Rightarrow> string set \<Rightarrow> bytes \<Rightarrow> verified_record \<Rightarrow> bool" where
  "answers fetch bad txid v \<longleftrightarrow> (\<forall>rejected s. case fst (fetch rejected s) of
     Inr c \<Rightarrow> ca_record c = v \<or> vr_txid (ca_record c) \<noteq> txid \<and> ca_origin c \<in> bad - set rejected
   | Inl (Rejected origin cause) \<Rightarrow> origin \<in> bad - set rejected
   | _ \<Rightarrow> False)"

definition delivers :: "'s multipart_source \<Rightarrow> string set \<Rightarrow> child_reference list \<Rightarrow> verified_record list \<Rightarrow> bool" where
  "delivers src bad rs vs \<longleftrightarrow> (\<forall>(r, v) \<in> set (zip rs vs). answers (ms_fetch src r) bad (cr_txid r) v)"

lemma delivers_simps:
  "delivers src bad (r # rs) (v # vs) \<longleftrightarrow> answers (ms_fetch src r) bad (cr_txid r) v \<and> delivers src bad rs vs"
  by (simp add: delivers_def)

lemma delivers_append:
  "length vs = length rs \<Longrightarrow> delivers src bad (rs @ rs') (vs @ vs') \<longleftrightarrow> delivers src bad rs vs \<and> delivers src bad rs' vs'"
  by (auto simp: delivers_def)

lemma returns_storage: "source_works src limits bad \<Longrightarrow> returns (storage src) ()"
  by (auto simp: returns_def storage_def source_works_def split: prod.splits) (metis fst_conv)

definition budget_for :: "recovery_limits \<Rightarrow> budget \<Rightarrow> bool" where
  "budget_for limits budget \<longleftrightarrow> bu_attempts budget = max (rl_attempts limits) 1 \<and> bu_timeout budget = rl_timeout limits"

lemma unat_max_word: "unat (max a b) = max (unat a) (unat b)"
  by (simp add: max_def word_le_nat_alt)

lemma returns_Budget_bind:
  assumes "\<And>budget. budget_for limits budget \<Longrightarrow> returns (k budget) x"
  shows "returns (ibind (Budget_new src limits) k) x"
  unfolding returns_def
proof
  fix s
  obtain t s' where t: "ms_clock src s = (t, s')" by (cases "ms_clock src s")
  let ?b = "\<lparr>bu_attempts = max (rl_attempts limits) 1, bu_started = t, bu_timeout = rl_timeout limits\<rparr>"
  have "returns (k ?b) x" by (rule assms) (simp add: budget_for_def)
  then show "\<exists>s'. ibind (Budget_new src limits) k s = (Inr x, s')"
    by (simp add: Budget_new_def clock_def ibind_app iret_app t returns_def)
qed

lemma returns_expired:
  assumes "source_works src limits bad" "budget_for limits budget"
  shows "returns (expired src budget) False"
  unfolding returns_def
proof
  fix s
  obtain t s' where t: "ms_clock src s = (t, s')" by (cases "ms_clock src s")
  have "fst (ms_clock src s) < rl_timeout limits" using assms(1) unfolding source_works_def by blast
  then show "\<exists>s'. expired src budget s = (Inr False, s')"
    using assms(2) by (simp add: expired_def clock_def ibind_app iret_app t budget_for_def)
qed

lemma fetch_loop_returns:
  assumes src: "source_works src limits bad" "budget_for limits budget" and v: "vr_txid v = txid" and fetch: "answers fetch bad txid v"
  shows "card (bad - set rejected) < n \<Longrightarrow> returns (fetch_loop src txid budget fetch n rejected tried) v"
proof (induction n arbitrary: rejected tried)
  case (Suc n)
  have fin: "finite bad" using src(1) by (simp add: source_works_def)
  have again: "returns (fetch_loop src txid budget fetch n (rejected @ [origin]) tried') v" if "origin \<in> bad - set rejected" for origin tried'
  proof (rule Suc.IH)
    have "bad - set (rejected @ [origin]) = (bad - set rejected) - {origin}" by auto
    moreover have "0 < card (bad - set rejected)" using that fin by (auto simp: card_gt_0_iff)
    ultimately show "card (bad - set (rejected @ [origin])) < n" using that fin Suc.prems by (simp add: card_Diff_singleton)
  qed
  show ?case
    unfolding fetch_loop.simps
  proof (rule returns_bind [OF returns_expired [OF src]], simp only: if_False, unfold returns_def, rule allI)
    fix s
    obtain r t where ans: "fetch rejected s = (r, t)" by (cases "fetch rejected s")
    have "case fst (fetch rejected s) of
       Inr c \<Rightarrow> ca_record c = v \<or> vr_txid (ca_record c) \<noteq> txid \<and> ca_origin c \<in> bad - set rejected
     | Inl (Rejected origin cause) \<Rightarrow> origin \<in> bad - set rejected
     | _ \<Rightarrow> False" using fetch unfolding answers_def by blast
    then show "\<exists>s'. (let reject = \<lambda>origin cause. if origin \<in> set rejected then ithrow (InvalidCandidate txid cause)
          else fetch_loop src txid budget fetch n (rejected @ [origin]) (RejectedLast cause)
        in case fetch rejected s of
             (Inr c, s') \<Rightarrow> if vr_txid (ca_record c) = txid then (Inr (ca_record c), s')
               else reject (ca_origin c) (Invalid ''candidate TXID mismatch'') s'
           | (Inl (Rejected origin cause), s') \<Rightarrow> reject origin cause s'
           | (Inl (Source cause), s') \<Rightarrow> fetch_loop src txid budget fetch n rejected (FailedLast cause) s'
           | (Inl Unavailable, s') \<Rightarrow> (Inl (unavailable txid tried), s')) = (Inr v, s')"
      using v again unfolding ans Let_def returns_def
      by (cases r) (auto split: fetch_error.splits)
  qed
qed simp

lemma fetch_child_returns:
  assumes src: "source_works src limits bad" "budget_for limits budget" and r: "child_ok P author r v"
    and fetch: "answers (ms_fetch src r) bad (cr_txid r) v"
  shows "returns (fetch_child src r author budget) v"
proof -
  have v: "vr_txid v = cr_txid r" "vr_record_hash v = cr_record_hash r" "vr_author v = author"
    using r by (auto simp: child_ok_def VerifiedRecord_reference_def)
  have n: "card (bad - set []) < unat (bu_attempts budget)"
    using src by (simp add: source_works_def budget_for_def unat_max_word)
  show ?thesis
    unfolding fetch_child_def fetch_candidate_def
    by (rule returns_bind [OF fetch_loop_returns [OF src v(1) fetch n]])
      (auto simp: accept_child_def check_hash_def v)
qed

lemma write_references_returns:
  assumes "source_works src limits bad"
  shows "returns (write_references src rs content) (content @ reference_file rs)"
proof (induction rs arbitrary: content)
  case Nil
  show ?case by (simp add: reference_file_def returns_ret)
next
  case (Cons r rs)
  show ?case
    unfolding write_references.simps
    using Cons [of "content @ reference_bytes r"]
    by (intro returns_bind [OF returns_storage [OF assms]]) (simp add: reference_file_def reference_bytes_def)
qed

lemma inventory_batch_returns:
  assumes src: "source_works src limits bad" "budget_for limits budget"
  shows "leaves_ok P author rs vs ls \<Longrightarrow> delivers src bad rs vs \<Longrightarrow> rfold inventory_accept_leaf iv ls = Inr iv' \<Longrightarrow>
    returns (inventory_batch src author budget rs (iv, content)) (iv', content @ reference_file (data_references ls))"
proof (induction P author rs vs ls arbitrary: iv content rule: leaves_ok.induct)
  case (1 P author)
  then show ?case by (auto simp: reference_file_def data_references_def)
next
  case (2 P author r rs v vs l ls)
  obtain iv1 where iv1: "inventory_accept_leaf iv l = Inr iv1" "rfold inventory_accept_leaf iv1 ls = Inr iv'"
    using 2(4) by auto
  have rest: "returns (inventory_batch src author budget rs (iv1, content @ reference_file (lm_entries l)))
      (iv', content @ reference_file (data_references (l # ls)))"
    using "2.IH" [OF _ _ iv1(2), of "content @ reference_file (lm_entries l)"] 2(2,3)
    by (simp add: delivers_simps data_references_def)
  have child: "child_ok P author r v" "answers (ms_fetch src r) bad (cr_txid r) v" "VerifiedRecord_decode v = Inr (Leaf l)"
    using 2(2,3) by (simp_all add: delivers_simps)
  show ?case
    unfolding inventory_batch.simps
    by (rule returns_bind [OF fetch_child_returns [OF src child(1,2)]], rule returns_bind [OF returns_lift, of _ "Leaf l"])
      (auto simp: child(3) iv1 intro!: returns_bind [OF returns_lift] returns_bind [OF write_references_returns [OF src(1)]] rest)
qed simp_all

lemma inventory_loop_returns:
  assumes src: "source_works src limits bad" "budget_for limits budget"
  shows "leaves_ok P author (concat batches) vs ls \<Longrightarrow> delivers src bad (concat batches) vs \<Longrightarrow> rfold inventory_accept_leaf iv ls = Inr iv' \<Longrightarrow>
    returns (inventory_loop src author budget batches (iv, content)) (iv', content @ reference_file (data_references ls))"
proof (induction batches arbitrary: vs ls iv content)
  case Nil
  then show ?case by (cases vs; cases ls) (auto simp: reference_file_def data_references_def)
next
  case (Cons batch batches)
  let ?n = "length batch"
  have split: "leaves_ok P author batch (take ?n vs) (take ?n ls)" "leaves_ok P author (concat batches) (drop ?n vs) (drop ?n ls)"
    using leaves_ok_split [of P author batch "concat batches" vs ls] Cons.prems(1) by simp_all
  have "delivers src bad (batch @ concat batches) (take ?n vs @ drop ?n vs)" using Cons.prems(2) by simp
  then have del: "delivers src bad batch (take ?n vs)" "delivers src bad (concat batches) (drop ?n vs)"
    using leaves_ok_lengths [OF split(1)] by (simp_all only: delivers_append)
  have "rfold inventory_accept_leaf iv (take ?n ls @ drop ?n ls) = Inr iv'" using Cons.prems(3) by simp
  then obtain iv1 where iv1: "rfold inventory_accept_leaf iv (take ?n ls) = Inr iv1" "rfold inventory_accept_leaf iv1 (drop ?n ls) = Inr iv'"
    unfolding rfold_append by auto
  have "reference_file (data_references ls) = reference_file (data_references (take ?n ls @ drop ?n ls))" by simp
  then have content: "content @ reference_file (data_references ls) =
      (content @ reference_file (data_references (take ?n ls))) @ reference_file (data_references (drop ?n ls))"
    unfolding data_references_def map_append concat_append reference_file_append by simp
  show ?case
    unfolding inventory_loop.simps content
    by (rule returns_bind [OF returns_prefetch], rule returns_bind [OF inventory_batch_returns [OF src split(1) del(1) iv1(1)]],
      rule Cons.IH [OF split(2) del(2) iv1(2)])
qed

lemma inventory_file_returns:
  assumes src: "source_works src limits bad" "budget_for limits budget"
    and leaves: "leaves_ok P (vr_author root) (rm_entries manifest) lvs leaves"
    and iv: "ManifestInventory_new (vr_txid root) manifest = Inr iv" "rfold inventory_accept_leaf iv leaves = Inr iv'"
    and fetch: "delivers src bad (rm_entries manifest) lvs"
  shows "returns (inventory_file src root manifest budget) (reference_file (data_references leaves))"
proof -
  have loop: "returns (inventory_loop src (vr_author root) budget (chunks 8 (rm_entries manifest)) (iv, []))
      (iv', [] @ reference_file (data_references leaves))"
    by (rule inventory_loop_returns [OF src, where P = P and vs = lvs]) (simp_all add: leaves fetch iv(2))
  show ?thesis
    unfolding inventory_file_def
    by (rule returns_bind [OF returns_lift], simp only: iv(1) map_err_simps, rule returns_bind [OF loop])
      (auto intro!: returns_bind [OF returns_storage [OF src(1)]])
qed

lemma read_requests_returns:
  assumes src: "source_works src limits bad" and rs: "\<forall>r \<in> set rs. wf_reference r" "n \<le> length rs"
  shows "returns (read_requests src n (reference_file rs)) (take n rs, reference_file (drop n rs))"
  using rs
proof (induction n arbitrary: rs)
  case 0
  then show ?case by (simp add: returns_ret)
next
  case (Suc n)
  then obtain r rs' where rs: "rs = r # rs'" by (cases rs) auto
  have len: "length (cr_txid r) = 32" "length (cr_record_hash r) = 32" using Suc.prems rs by (auto simp: wf_reference_def)
  have stored: "reference_file rs = cr_txid r @ cr_record_hash r @ reference_file rs'"
    by (simp add: rs reference_file_def reference_bytes_def)
  have IH: "returns (read_requests src n (reference_file rs')) (take n rs', reference_file (drop n rs'))"
    using Suc.prems by (intro Suc.IH) (auto simp: rs)
  have read: "returns (read_exact src 32 (a @ b)) (a, b)" if "length a = 32" for a b :: bytes
    using that unfolding read_exact_def by (intro returns_bind [OF returns_storage [OF src]]) (simp add: returns_ret)
  show ?case
    unfolding read_requests.simps stored
    by (rule returns_bind [OF read [OF len(1)]], simp only: prod.case, rule returns_bind [OF read [OF len(2)]], simp only: prod.case,
      rule returns_bind [OF IH]) (simp add: rs returns_def iret_app)
qed

lemma parts_batch_returns:
  assumes src: "source_works src limits bad" "budget_for limits budget"
  shows "parts_ok P author g i rs vs ps \<Longrightarrow> delivers src bad rs vs \<Longrightarrow> unat len + length (concat ps) < 2 ^ 64 \<Longrightarrow>
    returns (parts_batch src author g budget (word_of_nat i) rs (len, payload)) (len + word_of_nat (length (concat ps)), payload @ concat ps)"
proof (induction P author g i rs vs ps arbitrary: len payload rule: parts_ok.induct)
  case (2 P author g i r rs v vs p ps)
  have i: "word_of_nat i + 1 = (word_of_nat (Suc i) :: u32)" by simp
  have child: "child_ok P author r v" "answers (ms_fetch src r) bad (cr_txid r) v"
    "VerifiedRecord_decode v = Inr (Data \<lparr>dp_index = word_of_nat i, dp_payload = p\<rparr>)" "part_length g (word_of_nat i) = Inr (length p)"
    using 2(2,3) by (simp_all add: delivers_simps)
  let ?len = "len + word_of_nat (length p)"
  have n: "unat ?len = unat len + length p" "unat len + length p < 2 ^ 64"
    using 2(4) by (simp_all add: unat_word_ariths unat_of_nat)
  have add: "add_length len \<lparr>dp_index = word_of_nat i, dp_payload = p\<rparr> = Inr ?len"
    using n by (simp add: add_length_def try_from_def checked_add_def unat_of_nat)
  have "returns (parts_batch src author g budget (word_of_nat (Suc i)) rs (?len, payload @ p))
      (?len + word_of_nat (length (concat ps)), (payload @ p) @ concat ps)"
    using 2(2,3,4) n by (intro "2.IH") (simp_all add: delivers_simps)
  then have rest: "returns (parts_batch src author g budget (word_of_nat (Suc i)) rs (?len, payload @ p))
      (len + word_of_nat (length (concat (p # ps))), payload @ concat (p # ps))"
    by (simp add: add.assoc)
  show ?case
    unfolding parts_batch.simps i
    by (rule returns_bind [OF fetch_child_returns [OF src child(1,2)]], rule returns_bind [OF returns_lift],
      simp only: child(3) map_err_simps, simp only: multipart_record.case, rule returns_bind [OF returns_lift], simp add: check_part_def child(4),
      rule returns_bind [OF returns_lift], rule add, rule returns_bind [OF returns_storage [OF src(1)]])
      (simp only: data_part.select_convs rest)
qed auto

lemma parts_loop_returns:
  assumes src: "source_works src limits bad" "budget_for limits budget"
    and rs: "\<forall>r \<in> set rs. wf_reference r" "length rs = unat (g_parts g)"
  shows "8 * a + 8 * k < unat (g_parts g) + 8 \<Longrightarrow> unat (g_parts g) \<le> 8 * a + 8 * k \<Longrightarrow> 8 * a \<le> unat (g_parts g) \<Longrightarrow>
    parts_ok P author g (8 * a) (drop (8 * a) rs) vs ps \<Longrightarrow> delivers src bad (drop (8 * a) rs) vs \<Longrightarrow>
    unat len + length (concat ps) < 2 ^ 64 \<Longrightarrow>
    returns (parts_loop src author g budget (map (\<lambda>j. 8 * j) [a..<a + k]) (reference_file (drop (8 * a) rs)) (len, payload))
      (len + word_of_nat (length (concat ps)), payload @ concat ps)"
proof (induction k arbitrary: a vs ps len payload)
  case 0
  then have "drop (8 * a) rs = []" using rs(2) by simp
  then show ?case using 0(4) by (cases vs; cases ps) auto
next
  case (Suc k)
  let ?rs = "drop (8 * a) rs" and ?n = "min (unat (g_parts g) - 8 * a) 8"
  have starts: "map (\<lambda>j. 8 * j) [a..<a + Suc k] = 8 * a # map (\<lambda>j. 8 * j) [Suc a..<Suc a + k]"
    by (simp add: upt_conv_Cons)
  have requests: "returns (read_requests src ?n (reference_file ?rs)) (take ?n ?rs, reference_file (drop ?n ?rs))"
    using rs by (intro read_requests_returns [OF src(1)]) (auto dest: in_set_dropD)
  have len: "length (take ?n ?rs) = ?n" using rs(2) by simp
  have "parts_ok P author g (8 * a) (take ?n ?rs @ drop ?n ?rs) vs ps" using Suc.prems(4) by (simp only: append_take_drop_id)
  from parts_ok_split [OF this, unfolded len]
  have parts: "parts_ok P author g (8 * a) (take ?n ?rs) (take ?n vs) (take ?n ps)"
    "parts_ok P author g (8 * a + ?n) (drop ?n ?rs) (drop ?n vs) (drop ?n ps)" by simp_all
  have "delivers src bad (take ?n ?rs @ drop ?n ?rs) (take ?n vs @ drop ?n vs)" using Suc.prems(5) by (simp only: append_take_drop_id)
  then have del: "delivers src bad (take ?n ?rs) (take ?n vs)" "delivers src bad (drop ?n ?rs) (drop ?n vs)"
    using parts_ok_lengths [OF parts(1)] by (simp_all only: delivers_append)
  have "concat ps = concat (take ?n ps @ drop ?n ps)" by (simp only: append_take_drop_id)
  then have ps: "concat ps = concat (take ?n ps) @ concat (drop ?n ps)" by (simp only: concat_append)
  let ?len = "len + word_of_nat (length (concat (take ?n ps)))"
  have l: "unat len + length (concat (take ?n ps)) < 2 ^ 64" using Suc.prems(6) unfolding ps by simp
  then have ul: "unat ?len = unat len + length (concat (take ?n ps))" by (simp add: unat_word_ariths unat_of_nat)
  have rest: "returns (parts_loop src author g budget (map (\<lambda>j. 8 * j) [Suc a..<Suc a + k]) (reference_file (drop ?n ?rs))
      (?len, payload @ concat (take ?n ps))) (?len + word_of_nat (length (concat (drop ?n ps))), (payload @ concat (take ?n ps)) @ concat (drop ?n ps))"
  proof (cases "8 * Suc a \<le> unat (g_parts g)")
    case True
    then have n: "?n = 8" by simp
    have d: "drop ?n ?rs = drop (8 * Suc a) rs" "8 * a + ?n = 8 * Suc a" unfolding n by (simp_all add: add.commute)
    show ?thesis
      using Suc.prems(1,2,6) True parts(2) del(2) ul unfolding d ps by (intro Suc.IH) simp_all
  next
    case False
    then have k: "k = 0" and d: "drop ?n ?rs = []" using Suc.prems(1) rs(2) by simp_all
    have "drop ?n ps = []" using parts(2) unfolding d by (cases "drop ?n vs"; cases "drop ?n ps") simp_all
    then show ?thesis by (simp only: k, simp add: returns_def iret_app)
  qed
  have total: "len + word_of_nat (length (concat ps)) = ?len + word_of_nat (length (concat (drop ?n ps)))"
    "payload @ concat ps = (payload @ concat (take ?n ps)) @ concat (drop ?n ps)" unfolding ps by simp_all
  show ?case
    unfolding starts parts_loop.simps total
    by (rule returns_bind [OF requests], simp only: prod.case, rule returns_bind [OF returns_prefetch],
      rule returns_bind [OF parts_batch_returns [OF src parts(1) del(1) l]], rule rest)
qed

text \<open>An object whose records are delivered is recovered.\<close>

lemma reconstruct_returns:
  assumes obj: "object_of sha256 P root manifest g lvs leaves pvs ps" and src: "source_works src limits bad"
    and fetch: "delivers src bad (rm_entries manifest) lvs" "delivers src bad (data_references leaves) pvs"
    and limits: "g_length g \<le> rl_max_payload_bytes limits" "Geometry_nodes g \<le> rl_max_nodes limits"
  shows "returns (reconstruct sha256 src root limits)
    \<lparr>ro_root = vr_txid root, ro_author = vr_author root, ro_manifest = manifest, ro_payload = concat ps\<rparr>"
proof -
  obtain iv iv' where o: "VerifiedRecord_decode root = Inr (Root manifest)" "RootManifest_geometry manifest = Inr g"
    "leaves_ok P (vr_author root) (rm_entries manifest) lvs leaves"
    "ManifestInventory_new (vr_txid root) manifest = Inr iv" "rfold inventory_accept_leaf iv leaves = Inr iv'"
    "parts_ok P (vr_author root) g 0 (data_references leaves) pvs ps"
    "length (concat ps) = unat (rm_length manifest)" "sha256 (concat ps) = rm_payload_hash manifest"
    using obj unfolding object_of_def by blast
  have n: "length (data_references leaves) = unat (g_parts g)" by (rule exact_references [OF o(3,2,4,5)])
  let ?k = "div_ceil (unat (g_parts g)) 8"
  have k: "unat (g_parts g) \<le> 8 * ?k" "8 * ?k < unat (g_parts g) + 8"
    using div_ceil_le_iff [of 8 "unat (g_parts g)" ?k] div_ceil_gt_iff [of 8 "?k - 1" "unat (g_parts g)"] by (simp, cases ?k) simp_all
  have parts: "returns (reconstruct_parts sha256 src (vr_author root) manifest g budget (reference_file (data_references leaves))) (concat ps)"
    if b: "budget_for limits budget" for budget
  proof -
    have "returns (parts_loop src (vr_author root) g budget (map (\<lambda>j. 8 * j) [0..<0 + ?k]) (reference_file (drop (8 * 0) (data_references leaves)))
        (0, [])) (0 + word_of_nat (length (concat ps)), [] @ concat ps)"
      using k o(6,7) fetch(2) unsigned_less [of "rm_length manifest"]
      by (intro parts_loop_returns [OF src b leaves_ok_wf [OF o(3)] n, where P = P and vs = pvs]) simp_all
    then have "returns (parts_loop src (vr_author root) g budget (map (\<lambda>j. 8 * j) [0..<?k]) (reference_file (data_references leaves)) (0, []))
        (rm_length manifest, concat ps)" by (simp add: o(7))
    then show ?thesis
      unfolding reconstruct_parts_def
      by (rule returns_bind, simp only: prod.case, intro returns_bind [OF returns_check] returns_bind [OF returns_storage [OF src]] returns_ret)
        (simp_all add: o(8))
  qed
  show ?thesis
    unfolding reconstruct_def
    by (rule returns_bind [OF returns_lift], simp only: o(1) map_err_simps, simp only: multipart_record.case,
      rule returns_bind [OF returns_lift], simp only: o(2) map_err_simps, rule returns_bind [OF returns_check], simp add: limits,
      rule returns_Budget_bind)
      (intro returns_bind [OF returns_storage [OF src]] returns_bind [OF inventory_file_returns [OF src _ o(3-5) fetch(1)]]
        returns_bind [OF parts] returns_ret; assumption)
qed

end
