(* ===== verification/Recovery_Properties.thy ===== *)
theory Recovery_Properties
  imports Recovery_Delivery
begin

section \<open>Publication and recovery\<close>

text \<open>
  What a publisher writes for a payload, seen as verified records, is an object in the sense of
  \<open>object_of\<close>; the properties of \<open>reconstruct\<close> follow.
\<close>

subsection \<open>Canonical leaves pass the inventory\<close>

definition canonical_leaf :: "geometry \<Rightarrow> nat \<Rightarrow> leaf_manifest \<Rightarrow> bool" where
  "canonical_leaf g i l \<longleftrightarrow> LeafManifest_validate l = Inr () \<and> lm_index l = word_of_nat i \<and>
     length (lm_entries l) = min (unat (g_parts g) - i * 511) 511"

lemma inventory_accepts_leaf:
  assumes inv: "inventory_inv t m leaves iv" and l: "canonical_leaf (mi_geometry iv) (length leaves) l"
    and lt: "length leaves < unat (g_leaves (mi_geometry iv))" and fresh: "distinct (txids_of t m (leaves @ [l]))"
  shows "\<exists>iv'. inventory_accept_leaf iv l = Inr iv'"
proof -
  let ?g = "mi_geometry iv"
  have wf: "wf_geometry ?g" using inv wf_root_geometry by (auto simp: inventory_inv_def)
  have n: "unat (mi_next_leaf iv) = length leaves" using inv by (simp add: inventory_inv_def)
  then have idx: "mi_next_leaf iv = word_of_nat (length leaves)" by (simp flip: n)
  have less: "mi_next_leaf iv < g_leaves ?g" using lt n by (simp add: word_less_nat_alt)
  have entries: "leaf_entries ?g (mi_next_leaf iv) = Inr (word_of_nat (length (lm_entries l)))"
    using leaf_entries_eq(1) [OF wf less] n l by (simp add: canonical_leaf_def)
  have small: "unat (word_of_nat (length (lm_entries l)) :: u16) = length (lm_entries l)"
    using l by (simp add: canonical_leaf_def unat_of_nat_small)
  have "unat (mi_next_leaf iv) + 1 < 65536" using less geometry_bounds(5) [OF wf] by (simp add: word_less_nat_alt)
  then have add: "checked_add (mi_next_leaf iv) 1 = Some (mi_next_leaf iv + 1)" by (simp add: checked_add_def)
  have "rfold (leaf_addition (mi_seen iv)) {} (lm_entries l) = Inr (cr_txid ` set (lm_entries l))"
    using fresh inv by (auto simp: leaf_addition_fold txids_of_snoc inventory_inv_def)
  moreover have "LeafManifest_validate l = Inr ()" "lm_index l = mi_next_leaf iv" using l idx by (simp_all add: canonical_leaf_def)
  ultimately show ?thesis by (simp add: inventory_accept_leaf_def entries small add)
qed

lemma inventory_accepts_leaves:
  "inventory_inv t m before iv \<Longrightarrow> \<forall>i < length leaves. canonical_leaf (mi_geometry iv) (length before + i) (leaves ! i) \<Longrightarrow>
   length before + length leaves \<le> unat (g_leaves (mi_geometry iv)) \<Longrightarrow> distinct (txids_of t m (before @ leaves)) \<Longrightarrow>
   \<exists>iv'. rfold inventory_accept_leaf iv leaves = Inr iv'"
proof (induction leaves arbitrary: "before" iv)
  case (Cons l leaves)
  have "txids_of t m (before @ l # leaves) = txids_of t m (before @ [l]) @ concat (map (\<lambda>l. map cr_txid (lm_entries l)) leaves)"
    by (simp add: txids_of_def)
  then have "distinct (txids_of t m (before @ [l]))" using Cons.prems(4) by simp
  then obtain iv' where iv': "inventory_accept_leaf iv l = Inr iv'"
    using inventory_accepts_leaf [OF Cons.prems(1), of l] Cons.prems(2,3) by fastforce
  have inv': "inventory_inv t m (before @ [l]) iv'" by (rule inventory_inv_step [OF Cons.prems(1) iv'])
  moreover have "mi_geometry iv' = mi_geometry iv" using inv' Cons.prems(1) by (simp add: inventory_inv_def)
  moreover have "\<forall>i < length leaves. canonical_leaf (mi_geometry iv) (length (before @ [l]) + i) (leaves ! i)"
    using Cons.prems(2) by fastforce
  ultimately have "\<exists>iv''. rfold inventory_accept_leaf iv' leaves = Inr iv''"
    using Cons.prems(3,4) by (intro Cons.IH [of "before @ [l]"]) simp_all
  then show ?case using iv' by simp
qed simp

subsection \<open>The records of a publication\<close>

definition published :: "(bytes \<Rightarrow> bytes) \<Rightarrow> bytes \<Rightarrow> bytes list \<Rightarrow> bytes list \<Rightarrow> verified_record list" where
  "published sha256 author records txids =
     map2 (\<lambda>b t. \<lparr>vr_txid = t, vr_author = author, vr_record_hash = sha256 b, vr_record = b\<rparr>) records txids"

lemma leaves_ok_nth:
  "length vs = length rs \<Longrightarrow> length ls = length rs \<Longrightarrow>
   (\<And>i. i < length rs \<Longrightarrow> child_ok P author (rs ! i) (vs ! i) \<and> VerifiedRecord_decode (vs ! i) = Inr (Leaf (ls ! i))) \<Longrightarrow>
   leaves_ok P author rs vs ls"
proof (induction P author rs vs ls rule: leaves_ok.induct)
  case (2 P author r rs v vs l ls)
  show ?case using "2.IH" 2(2,3) 2(4) [of 0] 2(4) [of "Suc _"] by simp
qed simp_all

lemma parts_ok_nth:
  "length vs = length rs \<Longrightarrow> length ps = length rs \<Longrightarrow>
   (\<And>j. j < length rs \<Longrightarrow> child_ok P author (rs ! j) (vs ! j) \<and>
     VerifiedRecord_decode (vs ! j) = Inr (Data \<lparr>dp_index = word_of_nat (i + j), dp_payload = ps ! j\<rparr>) \<and>
     part_length g (word_of_nat (i + j)) = Inr (length (ps ! j))) \<Longrightarrow>
   parts_ok P author g i rs vs ps"
proof (induction P author g i rs vs ps rule: parts_ok.induct)
  case (2 P author g i r rs v vs p ps)
  show ?case using "2.IH" 2(2,3) 2(4) [of 0] 2(4) [of "Suc _"] by (simp del: of_nat_Suc of_nat_add)
qed simp_all

lemma published_child_ok:
  assumes "i < length records" "length txids = length records"
  shows "child_ok (\<lambda>_. True) author (references sha256 records txids ! i) (published sha256 author records txids ! i)"
    and "vr_record (published sha256 author records txids ! i) = records ! i"
  using assms by (simp_all add: references_def published_def child_ok_def VerifiedRecord_reference_def)

lemma references_wf:
  "(\<And>x. length (sha256 x) = 32) \<Longrightarrow> \<forall>t \<in> set ts. length t = 32 \<Longrightarrow> \<forall>e \<in> set (references sha256 bs ts). wf_reference e"
  by (auto simp: references_def wf_reference_def dest: set_zip_rightD)

lemma references_txids: "length ts = length bs \<Longrightarrow> map cr_txid (references sha256 bs ts) = ts"
  by (simp add: references_def comp_def case_prod_unfold)

lemma txids_of_data: "txids_of t m leaves = t # map cr_txid (rm_entries m) @ map cr_txid (data_references leaves)"
  by (simp add: txids_of_def data_references_def map_concat comp_def)

lemma piece_length:
  assumes "Geometry_new (word_of_nat (length payload)) = Inr g" "length payload \<le> 8553279476" "j < length (pieces payload)"
  shows "part_length g (word_of_nat j) = Inr (length (pieces payload ! j))"
proof -
  have wf: "wf_geometry g" using assms(1) by (rule wf_geometry_new)
  have parts: "unat (g_parts g) = length (pieces payload)" "unat (g_length g) = length payload"
    using assms(1,2) by (simp_all add: Geometry_new_eq_Inr length_pieces unat_of_nat_small)
  have j: "unat (word_of_nat j :: u32) = j" using assms(3) parts geometry_bounds(3) [OF wf] by (intro unat_of_nat_small) simp
  have "length (pieces payload ! j) = min (length payload - j * 262132) 262132"
    using assms(3) by (auto simp: pieces_def DATA_BYTES_def RECORD_BYTES_def nth_chunks min.commute split: if_splits)
  moreover have "(word_of_nat j :: u32) < g_parts g" unfolding word_less_nat_alt j using assms(3) parts by simp
  ultimately show ?thesis using part_length_eq(1) [OF wf, of "word_of_nat j"] by (simp add: j parts)
qed

text \<open>The published records are an object with the payload.\<close>

lemma published_object_of:
  assumes sha: "\<And>x. length (sha256 x) = 32" and len: "length payload \<le> unat MAX_OBJECT_BYTES"
    and txids: "\<forall>t \<in> set data_txids. length t = 32" "\<forall>t \<in> set leaf_txids. length t = 32"
      "length data_txids = length (pieces payload)" "length leaf_txids = length ls"
      "distinct (root_txid # leaf_txids @ data_txids)"
    and ds: "rtraverse MultipartRecord_encode (data_records (pieces payload)) = Inr ds"
    and ls: "rtraverse MultipartRecord_encode (leaf_records (references sha256 ds data_txids)) = Inr ls"
    and manifest: "manifest = \<lparr>rm_length = word_of_nat (length payload), rm_payload_hash = sha256 payload,
        rm_profile = profile, rm_entries = references sha256 ls leaf_txids\<rparr>"
    and root: "MultipartRecord_encode (Root manifest) = Inr root_record" "length profile = 8"
    and g: "Geometry_new (word_of_nat (length payload)) = Inr g"
  shows "object_of sha256 (\<lambda>_. True) \<lparr>vr_txid = root_txid, vr_author = author, vr_record_hash = sha256 root_record, vr_record = root_record\<rparr>
      manifest g (published sha256 author ls leaf_txids)
      (map (\<lambda>j. \<lparr>lm_index = word_of_nat j, lm_entries = chunks 511 (references sha256 ds data_txids) ! j\<rparr>) [0..<length ls])
      (published sha256 author ds data_txids) (pieces payload)" (is "object_of _ _ ?root _ _ _ ?leaves _ _")
    and "data_references (map (\<lambda>j. \<lparr>lm_index = word_of_nat j, lm_entries = chunks 511 (references sha256 ds data_txids) ! j\<rparr>) [0..<length ls]) =
      references sha256 ds data_txids"
proof -
  let ?ps = "pieces payload" and ?refs = "references sha256 ds data_txids" and ?lrefs = "references sha256 ls leaf_txids"
  have len': "length payload \<le> 8553279476" using len by (simp add: MAX_OBJECT_BYTES_def)
  have dsl: "list_all2 (\<lambda>r b. MultipartRecord_encode r = Inr b) (data_records ?ps) ds" using ds by (simp add: rtraverse_eq_Inr)
  have lsl: "list_all2 (\<lambda>r b. MultipartRecord_encode r = Inr b) (leaf_records ?refs) ls" using ls by (simp add: rtraverse_eq_Inr)
  have nds: "length ds = length ?ps" using list_all2_lengthD [OF dsl] by (simp add: data_records_def)
  have nrefs: "length ?refs = length ?ps" using nds txids(3) by (simp add: references_def)
  have nls: "length ls = length (chunks 511 ?refs)" using list_all2_lengthD [OF lsl] by (simp add: leaf_records_def FANOUT_def Let_def)
  have wfr: "\<forall>e \<in> set ?refs. wf_reference e" by (rule references_wf [OF sha txids(1)])
  have enc: "MultipartRecord_encode (Data \<lparr>dp_index = word_of_nat j, dp_payload = ?ps ! j\<rparr>) = Inr (ds ! j)" if "j < length ds" for j
    using dsl nds that by (simp add: list_all2_conv_all_nth data_records_def)
  have encl: "MultipartRecord_encode (Leaf (?leaves ! j)) = Inr (ls ! j)" if "j < length ls" for j
    using lsl nls that by (simp add: list_all2_conv_all_nth leaf_records_def FANOUT_def Let_def)
  have wfl: "\<forall>e \<in> set (lm_entries (?leaves ! j)). wf_reference e" if "j < length ls" for j
  proof -
    have "chunks 511 ?refs ! j \<in> set (chunks 511 ?refs)" using that nls by simp
    then have "set (chunks 511 ?refs ! j) \<subseteq> set (concat (chunks 511 ?refs))" by (auto simp del: concat_chunks)
    then show ?thesis using wfr that by auto
  qed
  have wf: "wf_geometry g" using g by (rule wf_geometry_new)
  have parts: "unat (g_parts g) = length ?ps" "unat (g_leaves g) = length ls"
    using g len' nls nrefs by (simp_all add: Geometry_new_eq_Inr length_pieces length_chunks unat_of_nat_small)
  have decl: "VerifiedRecord_decode (published sha256 author ls leaf_txids ! j) = Inr (Leaf (?leaves ! j))" if "j < length ls" for j
    using published_child_ok(2) [OF that txids(4)] encl [OF that] wfl [OF that]
    by (simp add: VerifiedRecord_decode_def multipart_codec.decode_iff)
  have decd: "VerifiedRecord_decode (published sha256 author ds data_txids ! j) = Inr (Data \<lparr>dp_index = word_of_nat j, dp_payload = ?ps ! j\<rparr>)"
    if "j < length ds" for j
    using published_child_ok(2) [OF that] txids(3) nds enc [OF that]
    by (simp add: VerifiedRecord_decode_def multipart_codec.decode_iff)
  have leaves: "leaves_ok (\<lambda>_. True) author ?lrefs (published sha256 author ls leaf_txids) ?leaves"
    using published_child_ok(1) [of _ ls leaf_txids] txids(4) decl
    by (intro leaves_ok_nth) (simp_all add: references_def published_def)
  have "map lm_entries ?leaves = chunks 511 ?refs" by (simp add: nls comp_def map_nth)
  then show refs: "data_references ?leaves = ?refs" by (simp add: data_references_def)
  have "parts_ok (\<lambda>_. True) author g 0 ?refs (published sha256 author ds data_txids) ?ps"
    using published_child_ok(1) [of _ ds data_txids] txids(3) nds decd piece_length [OF g len'] nrefs
    by (intro parts_ok_nth) (simp_all add: published_def)
  then have po: "parts_ok (\<lambda>_. True) author g 0 (data_references ?leaves) (published sha256 author ds data_txids) ?ps" by (simp only: refs)
  have geo: "RootManifest_geometry manifest = Inr g"
    using root(1) g by (simp add: RootManifest_geometry_def manifest split: if_splits)
  have entries: "rm_entries manifest = ?lrefs" by (simp add: manifest)
  have "distinct (map cr_txid ?lrefs) \<and> root_txid \<notin> set (map cr_txid ?lrefs)"
    unfolding references_txids [OF txids(4)] using txids(5) by simp
  then obtain iv where iv: "ManifestInventory_new root_txid manifest = Inr iv"
    using entries by (auto simp: ManifestInventory_new_def geo insert_fresh_fold)
  have inv: "inventory_inv root_txid manifest [] iv" by (rule inventory_inv_new [OF iv])
  then have mg: "mi_geometry iv = g" using geo by (simp add: inventory_inv_def)
  have "txids_of root_txid manifest ?leaves = root_txid # leaf_txids @ data_txids"
    unfolding txids_of_data entries refs using references_txids [OF txids(4)] references_txids [of data_txids ds] nds txids(3) by simp
  then have fresh: "distinct (txids_of root_txid manifest ([] @ ?leaves))" using txids(5) by simp
  have "canonical_leaf g i (?leaves ! i)" if "i < length ls" for i
    using encl [OF that] that nls nrefs parts
    by (auto simp: canonical_leaf_def nth_chunks min.commute)
  then obtain iv' where "rfold inventory_accept_leaf iv ?leaves = Inr iv'"
    using inventory_accepts_leaves [OF inv _ _ fresh] parts mg by auto
  moreover have "MultipartRecord_decode root_record = Inr (Root manifest)"
    using root sha references_wf [OF sha txids(2)] by (simp add: multipart_codec.decode_iff manifest)
  ultimately show "object_of sha256 (\<lambda>_. True) ?root manifest g (published sha256 author ls leaf_txids) ?leaves
      (published sha256 author ds data_txids) ?ps"
    unfolding object_of_def using geo leaves po iv len'
    by (auto simp: VerifiedRecord_decode_def manifest unat_of_nat_small)
qed

lemma published_returns:
  assumes sha: "\<And>x. length (sha256 x) = 32" and len: "length payload \<le> unat MAX_OBJECT_BYTES"
    and txids: "\<forall>t \<in> set data_txids. length t = 32" "\<forall>t \<in> set leaf_txids. length t = 32"
      "length data_txids = length (pieces payload)" "length leaf_txids = length ls"
      "distinct (root_txid # leaf_txids @ data_txids)"
    and ds: "rtraverse MultipartRecord_encode (data_records (pieces payload)) = Inr ds"
    and ls: "rtraverse MultipartRecord_encode (leaf_records (references sha256 ds data_txids)) = Inr ls"
    and root: "MultipartRecord_encode (Root \<lparr>rm_length = word_of_nat (length payload), rm_payload_hash = sha256 payload,
        rm_profile = profile, rm_entries = references sha256 ls leaf_txids\<rparr>) = Inr root_record" "length profile = 8"
    and g: "Geometry_new (word_of_nat (length payload)) = Inr g"
    and limits: "g_length g \<le> rl_max_payload_bytes limits" "Geometry_nodes g \<le> rl_max_nodes limits"
    and src: "source_works src limits bad"
    and leaves: "delivers src bad (references sha256 ls leaf_txids) (published sha256 author ls leaf_txids)"
    and parts: "delivers src bad (references sha256 ds data_txids) (published sha256 author ds data_txids)"
  shows "returns (reconstruct sha256 src
      \<lparr>vr_txid = root_txid, vr_author = author, vr_record_hash = sha256 root_record, vr_record = root_record\<rparr> limits)
    \<lparr>ro_root = root_txid, ro_author = author,
     ro_manifest = \<lparr>rm_length = word_of_nat (length payload), rm_payload_hash = sha256 payload, rm_profile = profile,
       rm_entries = references sha256 ls leaf_txids\<rparr>, ro_payload = payload\<rparr>"
proof -
  note obj = published_object_of [OF sha len txids ds ls refl root g]
  show ?thesis using reconstruct_returns [OF obj(1) src _ _ limits] leaves parts obj(2) by simp
qed

subsection \<open>A small publication and its source\<close>

definition demo_digest :: "bytes \<Rightarrow> bytes" where
  "demo_digest x = replicate 32 (word_of_nat (length x))"

text \<open>Two mirrors: the first one rejects every request, the second one answers from a list of records.\<close>

definition demo_source :: "verified_record list \<Rightarrow> unit multipart_source" where
  "demo_source vs =
     \<lparr>ms_fetch = (\<lambda>reference rejected s.
        (if ''a'' \<notin> set rejected then Inl (Rejected ''a'' (Invalid []))
         else case filter (\<lambda>v. vr_txid v = cr_txid reference) vs of
             [] \<Rightarrow> Inl Unavailable
           | v # _ \<Rightarrow> Inr \<lparr>ca_origin = ''b'', ca_record = v\<rparr>, s)),
      ms_prefetch = (\<lambda>_ s. s), ms_clock = (\<lambda>s. (0, s)), ms_storage = (\<lambda>s. (True, s))\<rparr>"

lemma demo_source_works: "source_works (demo_source vs) (RecoveryLimits_new 10 10) {''a''}"
  by (simp add: source_works_def demo_source_def RecoveryLimits_new_def ATTEMPTS_def TIMEOUT_def)

lemma demo_publication:
  obtains ds ls root where
    "pieces [1, 2, 3] = [[1, 2, 3 :: u8]]"
    "rtraverse MultipartRecord_encode (data_records (pieces [1, 2, 3])) = Inr [ds]"
    "rtraverse MultipartRecord_encode (leaf_records (references demo_digest [ds] [replicate 32 1])) = Inr [ls]"
    "MultipartRecord_encode (Root \<lparr>rm_length = word_of_nat (length [1, 2, 3 :: u8]),
      rm_payload_hash = demo_digest [1, 2, 3], rm_profile = replicate 8 0, rm_entries = references demo_digest [ls] [replicate 32 2]\<rparr>) = Inr root"
    "Geometry_new (word_of_nat (length [1, 2, 3 :: u8])) = Inr \<lparr>g_length = 3, g_parts = 1, g_leaves = 1\<rparr>"
    "delivers (demo_source (published demo_digest [9] [ds, ls] [replicate 32 1, replicate 32 2])) {''a''}
      (references demo_digest [ls] [replicate 32 2]) (published demo_digest [9] [ls] [replicate 32 2])"
    "delivers (demo_source (published demo_digest [9] [ds, ls] [replicate 32 1, replicate 32 2])) {''a''}
      (references demo_digest [ds] [replicate 32 1]) (published demo_digest [9] [ds] [replicate 32 1])"
proof -
  have pieces: "pieces [1, 2, 3] = [[1, 2, 3 :: u8]]"
    by (simp add: pieces_def DATA_BYTES_def RECORD_BYTES_def chunks.simps)
  then obtain ds where ds: "rtraverse MultipartRecord_encode (data_records (pieces [1, 2, 3])) = Inr [ds]"
    by (simp add: data_records_def geometry_consts)
  obtain ls where ls: "rtraverse MultipartRecord_encode (leaf_records (references demo_digest [ds] [replicate 32 1])) = Inr [ls]"
    by (simp add: references_def leaf_records_def FANOUT_def chunks.simps LeafManifest_validate_def try_from_def)
  have g: "Geometry_new 3 = Inr \<lparr>g_length = 3, g_parts = 1, g_leaves = 1\<rparr>"
    by (simp add: Geometry_new_eq_Inr MAX_OBJECT_BYTES_def div_ceil_def)
  obtain root where root: "MultipartRecord_encode (Root \<lparr>rm_length = word_of_nat (length [1, 2, 3 :: u8]),
      rm_payload_hash = demo_digest [1, 2, 3], rm_profile = replicate 8 0, rm_entries = references demo_digest [ls] [replicate 32 2]\<rparr>) = Inr root"
    by (simp add: RootManifest_geometry_def g references_def)
  show ?thesis
    by (rule that [OF pieces ds ls root])
      (simp_all add: g delivers_def answers_def references_def published_def demo_source_def)
qed

lemma demo_recovered:
  "\<exists>vs root obj. reconstruct demo_digest (demo_source vs) root (RecoveryLimits_new 10 10) () = (Inr obj, ())"
proof -
  obtain ds ls r where demo: "pieces [1, 2, 3] = [[1, 2, 3 :: u8]]"
    "rtraverse MultipartRecord_encode (data_records (pieces [1, 2, 3])) = Inr [ds]"
    "rtraverse MultipartRecord_encode (leaf_records (references demo_digest [ds] [replicate 32 1])) = Inr [ls]"
    "MultipartRecord_encode (Root \<lparr>rm_length = word_of_nat (length [1, 2, 3 :: u8]),
      rm_payload_hash = demo_digest [1, 2, 3], rm_profile = replicate 8 0, rm_entries = references demo_digest [ls] [replicate 32 2]\<rparr>) = Inr r"
    "Geometry_new (word_of_nat (length [1, 2, 3 :: u8])) = Inr \<lparr>g_length = 3, g_parts = 1, g_leaves = 1\<rparr>"
    "delivers (demo_source (published demo_digest [9] [ds, ls] [replicate 32 1, replicate 32 2])) {''a''}
      (references demo_digest [ls] [replicate 32 2]) (published demo_digest [9] [ls] [replicate 32 2])"
    "delivers (demo_source (published demo_digest [9] [ds, ls] [replicate 32 1, replicate 32 2])) {''a''}
      (references demo_digest [ds] [replicate 32 1]) (published demo_digest [9] [ds] [replicate 32 1])"
    by (rule demo_publication)
  have distinct: "distinct (replicate 32 3 # [replicate 32 2] @ [replicate 32 (1 :: u8)])"
    by (simp add: numeral_eq_Suc)
  have "returns (reconstruct demo_digest (demo_source (published demo_digest [9] [ds, ls] [replicate 32 1, replicate 32 2]))
      \<lparr>vr_txid = replicate 32 3, vr_author = [9], vr_record_hash = demo_digest r, vr_record = r\<rparr> (RecoveryLimits_new 10 10))
    \<lparr>ro_root = replicate 32 3, ro_author = [9],
     ro_manifest = \<lparr>rm_length = word_of_nat (length [1, 2, 3 :: u8]), rm_payload_hash = demo_digest [1, 2, 3], rm_profile = replicate 8 0,
       rm_entries = references demo_digest [ls] [replicate 32 2]\<rparr>, ro_payload = [1, 2, 3]\<rparr>"
    by (rule published_returns [OF _ _ _ _ _ _ distinct demo(2-4) _ demo(5) _ _ demo_source_works demo(6,7)])
      (simp_all add: demo(1) demo_digest_def MAX_OBJECT_BYTES_def RecoveryLimits_new_def Geometry_nodes_def)
  then show ?thesis unfolding returns_def by fastforce
qed

subsection \<open>Properties\<close>

text \<open>
  C10: recovery returns only the object under the root. Whatever the source, its origins, the clock
  and the disk do, as long as the records the source serves satisfy \<open>P\<close> (such as being verified
  against the chain): a recovered payload is the concatenation of the data parts, in order and with
  the lengths of the geometry, that the leaf manifests reference, which the root references, every
  one of these records by the author of the root, with exactly the id and the hash its parent states;
  the payload has the length and the digest of the root, and the limits of the caller hold.
\<close>
theorem recovered_object_is_the_object:
  assumes "source_serves P src" "reconstruct sha256 src root limits s = (Inr obj, s')"
  shows "\<exists>g lvs leaves pvs ps. object_of sha256 P root (ro_manifest obj) g lvs leaves pvs ps \<and> ro_root obj = vr_txid root \<and>
    ro_author obj = vr_author root \<and> ro_payload obj = concat ps \<and>
    g_length g \<le> rl_max_payload_bytes limits \<and> Geometry_nodes g \<le> rl_max_nodes limits"
  by (rule yieldsD [OF reconstruct_yields [OF assms(1)] assms(2)])

theorem recovered_object_is_the_object_witness:
  "\<exists>vs root obj g lvs leaves pvs ps. reconstruct demo_digest (demo_source vs) root (RecoveryLimits_new 10 10) () = (Inr obj, ()) \<and>
     object_of demo_digest (\<lambda>_. True) root (ro_manifest obj) g lvs leaves pvs ps \<and> ro_payload obj = concat ps"
proof -
  obtain vs root obj where obj: "reconstruct demo_digest (demo_source vs) root (RecoveryLimits_new 10 10) () = (Inr obj, ())"
    using demo_recovered by blast
  have "source_serves (\<lambda>_. True) (demo_source vs)" by (simp add: source_serves_def)
  from recovered_object_is_the_object [OF this obj] obj show ?thesis by blast
qed

text \<open>
  C9: what was published is recovered. For a payload published as its data records, leaf manifests
  over their references and root, under distinct transaction ids, a source that delivers the records
  (up to fewer misbehaving origins per record than the attempts allow), a clock within the timeout
  and a working scratch directory, \<open>reconstruct\<close> with limits that admit the object returns exactly
  the payload, from every state of the world.
\<close>
theorem published_object_recovered:
  assumes sha: "\<And>x. length (sha256 x) = 32" and len: "length payload \<le> unat MAX_OBJECT_BYTES"
    and txids: "\<forall>t \<in> set data_txids. length t = 32" "\<forall>t \<in> set leaf_txids. length t = 32"
      "length data_txids = length (pieces payload)" "length leaf_txids = length ls"
      "distinct (root_txid # leaf_txids @ data_txids)"
    and ds: "rtraverse MultipartRecord_encode (data_records (pieces payload)) = Inr ds"
    and ls: "rtraverse MultipartRecord_encode (leaf_records (references sha256 ds data_txids)) = Inr ls"
    and root: "MultipartRecord_encode (Root \<lparr>rm_length = word_of_nat (length payload), rm_payload_hash = sha256 payload,
        rm_profile = profile, rm_entries = references sha256 ls leaf_txids\<rparr>) = Inr root_record" "length profile = 8"
    and g: "Geometry_new (word_of_nat (length payload)) = Inr g"
    and limits: "g_length g \<le> rl_max_payload_bytes limits" "Geometry_nodes g \<le> rl_max_nodes limits"
    and src: "source_works src limits bad"
    and leaves: "delivers src bad (references sha256 ls leaf_txids) (published sha256 author ls leaf_txids)"
    and parts: "delivers src bad (references sha256 ds data_txids) (published sha256 author ds data_txids)"
  shows "\<exists>obj s'. reconstruct sha256 src
      \<lparr>vr_txid = root_txid, vr_author = author, vr_record_hash = sha256 root_record, vr_record = root_record\<rparr> limits s = (Inr obj, s') \<and>
    ro_payload obj = payload \<and> ro_root obj = root_txid \<and> ro_author obj = author \<and> rm_profile (ro_manifest obj) = profile"
  using published_returns [OF assms] unfolding returns_def by fastforce

theorem published_object_recovered_witness:
  "\<exists>src root obj. reconstruct demo_digest (src :: unit multipart_source) root (RecoveryLimits_new 10 10) () = (Inr obj, ()) \<and>
     ro_payload obj = [1, 2, 3]"
proof -
  obtain ds ls r where demo: "pieces [1, 2, 3] = [[1, 2, 3 :: u8]]"
    "rtraverse MultipartRecord_encode (data_records (pieces [1, 2, 3])) = Inr [ds]"
    "rtraverse MultipartRecord_encode (leaf_records (references demo_digest [ds] [replicate 32 1])) = Inr [ls]"
    "MultipartRecord_encode (Root \<lparr>rm_length = word_of_nat (length [1, 2, 3 :: u8]),
      rm_payload_hash = demo_digest [1, 2, 3], rm_profile = replicate 8 0, rm_entries = references demo_digest [ls] [replicate 32 2]\<rparr>) = Inr r"
    "Geometry_new (word_of_nat (length [1, 2, 3 :: u8])) = Inr \<lparr>g_length = 3, g_parts = 1, g_leaves = 1\<rparr>"
    "delivers (demo_source (published demo_digest [9] [ds, ls] [replicate 32 1, replicate 32 2])) {''a''}
      (references demo_digest [ls] [replicate 32 2]) (published demo_digest [9] [ls] [replicate 32 2])"
    "delivers (demo_source (published demo_digest [9] [ds, ls] [replicate 32 1, replicate 32 2])) {''a''}
      (references demo_digest [ds] [replicate 32 1]) (published demo_digest [9] [ds] [replicate 32 1])"
    by (rule demo_publication)
  have distinct: "distinct (replicate 32 3 # [replicate 32 2] @ [replicate 32 (1 :: u8)])"
    by (simp add: numeral_eq_Suc)
  have "\<exists>obj s'. reconstruct demo_digest (demo_source (published demo_digest [9] [ds, ls] [replicate 32 1, replicate 32 2]))
      \<lparr>vr_txid = replicate 32 3, vr_author = [9], vr_record_hash = demo_digest r, vr_record = r\<rparr> (RecoveryLimits_new 10 10) () = (Inr obj, s') \<and>
    ro_payload obj = [1, 2, 3] \<and> ro_root obj = replicate 32 3 \<and> ro_author obj = [9] \<and> rm_profile (ro_manifest obj) = replicate 8 0"
    by (rule published_object_recovered [OF _ _ _ _ _ _ distinct demo(2-4) _ demo(5) _ _ demo_source_works demo(6,7)])
      (simp_all add: demo(1) demo_digest_def MAX_OBJECT_BYTES_def RecoveryLimits_new_def Geometry_nodes_def)
  then show ?thesis by auto
qed

end
