(* ===== verification/Publication_Plan.thy ===== *)
theory Publication_Plan
  imports Envelope Runtime_Error
begin

section \<open>Signed publication plans (\<^verbatim>\<open>urma-runtime/src/validation.rs\<close>, \<^verbatim>\<open>plan.rs\<close>, \<^verbatim>\<open>urma-wallet/src/funding.rs\<close>)\<close>

text \<open>
  A publication is a list of pairs of signed transactions: a commit that pays to the script of a
  record and a reveal that spends it. The first commit spends coins of the wallet, each following one
  the change of its predecessor. Before anything is sent the whole plan is checked.

  Hexadecimal text, the consensus encoding of transactions, weights, ECDSA and genesis blocks belong
  to the \<open>bitcoin\<close> and \<open>hex\<close> crates; \<open>plan_lib\<close> holds what the code calls of them.
\<close>

record 'info plan_lib =
  pl_env :: "'info envelope_lib"
  pl_genesis_block :: "chain \<Rightarrow> bytes" \<comment> \<open>hash of \<open>genesis_block\<close> for the Bitcoin networks\<close>
  pl_parse_hash :: "string \<Rightarrow> bytes option" \<comment> \<open>\<open>FromStr\<close> of block hashes and transaction ids\<close>
  pl_hash_text :: "bytes \<Rightarrow> string" \<comment> \<open>\<open>Display\<close> of transaction ids and block hashes\<close>
  pl_key_text :: "bytes \<Rightarrow> string" \<comment> \<open>\<open>Display\<close> of x-only keys\<close>
  pl_hex_decode :: "string \<Rightarrow> bytes option"
  pl_deserialize :: "bytes \<Rightarrow> transaction option"
  pl_weight :: "transaction \<Rightarrow> u64" \<comment> \<open>\<open>weight().to_wu()\<close>\<close>
  pl_ecdsa :: "bytes \<Rightarrow> (bytes \<times> bool) option" \<comment> \<open>\<open>ecdsa::Signature::from_slice\<close>, and whether the type is \<open>All\<close>\<close>
  pl_public_key :: "bytes \<Rightarrow> bool" \<comment> \<open>\<open>CompressedPublicKey::from_slice\<close> accepts\<close>
  pl_p2wpkh :: "bytes \<Rightarrow> bytes" \<comment> \<open>script of a public key\<close>
  pl_segwit_hash :: "transaction \<Rightarrow> nat \<Rightarrow> bytes \<Rightarrow> u64 \<Rightarrow> bytes option" \<comment> \<open>\<open>p2wpkh_signature_hash\<close>, type \<open>All\<close>\<close>
  pl_verify_ecdsa :: "bytes \<Rightarrow> bytes \<Rightarrow> bytes \<Rightarrow> bool" \<comment> \<open>message, signature, key\<close>

subsection \<open>Decoding (\<^verbatim>\<open>urma-chain/src/transaction.rs\<close>, \<^verbatim>\<open>observation.rs\<close>)\<close>

datatype transaction_decode_error = LimitExceeded | TxHex | TxConsensus

definition decode_bounded :: "'info plan_lib \<Rightarrow> string \<Rightarrow> nat \<Rightarrow> transaction_decode_error + transaction" where
  "decode_bounded lib raw max_hex_bytes =
     (if max_hex_bytes < length raw then Inl LimitExceeded
      else rbind (ok_or TxHex (pl_hex_decode lib raw)) (\<lambda>bs.
        ok_or TxConsensus (pl_deserialize lib bs)))"

fun rt_of_decode :: "transaction_decode_error \<Rightarrow> rt_error" where
  "rt_of_decode LimitExceeded = RtInvalid ''raw transaction exceeds byte limit''"
| "rt_of_decode TxHex = RtHex"
| "rt_of_decode TxConsensus = RtContext ''decode transaction'' RtTransaction"

definition decode_tx :: "'info plan_lib \<Rightarrow> string \<Rightarrow> nat \<Rightarrow> rt_error + transaction" where
  "decode_tx lib raw max_hex_bytes = map_err rt_of_decode (decode_bounded lib raw max_hex_bytes)"

definition LITECOIN_TESTNET_GENESIS :: string where
  "LITECOIN_TESTNET_GENESIS = ''4966625a4b2851d9fdee139e56211a0d88575f59ed816ff5e6a63deb4e3e29a0''"

fun Chain_genesis :: "'info plan_lib \<Rightarrow> chain \<Rightarrow> rt_error + bytes" where
  "Chain_genesis lib LitecoinMainnet =
     ok_or RtHash (pl_parse_hash lib ''12a765e31ffd4059bada1e25190f6e98c99d9714d334efa41a195a7e7e04bfe2'')"
| "Chain_genesis lib LitecoinTestnet = ok_or RtHash (pl_parse_hash lib LITECOIN_TESTNET_GENESIS)"
| "Chain_genesis lib chain = Inr (pl_genesis_block lib chain)"

subsection \<open>Funding\<close>

record funding =
  fu_raw_transaction :: string
  fu_vout :: u32

type_synonym out_point = "bytes \<times> u32"

fun funding_decode_error :: "transaction_decode_error \<Rightarrow> error" where
  "funding_decode_error LimitExceeded = Invalid ''raw transaction exceeds byte limit''"
| "funding_decode_error TxHex = Hex"
| "funding_decode_error TxConsensus = Context ''decode transaction'' TransactionBytes"

definition prevout :: "'info plan_lib \<Rightarrow> funding \<Rightarrow> error + out_point \<times> tx_out" where
  "prevout lib f =
     rbind (map_err funding_decode_error (decode_bounded lib (fu_raw_transaction f) 8000000)) (\<lambda>tx.
     rbind (context_opt ''funding vout is absent''
              (if unat (fu_vout f) < length (tx_output tx) then Some (tx_output tx ! unat (fu_vout f)) else None)) (\<lambda>output.
     ensure (e_is_p2wpkh (pl_env lib) (to_script output)) (Invalid ''funding requires a native P2WPKH output'')
    (ensure (unat (to_value output) \<le> 21000000 * 100000000) (Invalid ''invalid funding amount'')
     (Inr ((e_txid (pl_env lib) tx, fu_vout f), output)))))"

datatype funding_signature_error = SighashType | PublicKeyMismatch | FsSighash | FsSignature

definition verify_p2wpkh_signature ::
  "'info plan_lib \<Rightarrow> transaction \<Rightarrow> nat \<Rightarrow> tx_out \<Rightarrow> bytes \<times> bool \<Rightarrow> bytes \<Rightarrow> funding_signature_error + unit" where
  "verify_p2wpkh_signature lib transaction input_index previous signature public =
     ensure (snd signature) SighashType
    (ensure (to_script previous = pl_p2wpkh lib public) PublicKeyMismatch
    (rbind (ok_or FsSighash (pl_segwit_hash lib transaction input_index (to_script previous) (to_value previous))) (\<lambda>hash.
     ensure (pl_verify_ecdsa lib hash (fst signature) public) FsSignature (Inr ()))))"

subsection \<open>Plans\<close>

record public_plan =
  pp_version :: u8
  pp_chain :: chain
  pp_funding :: "funding list"
  pp_commit :: string
  pp_reveal :: string
  pp_fee_rate :: u64

record publication_plan =
  pb_version :: u8
  pb_chain :: chain
  pb_author :: string
  pb_return_script :: string
  pb_root_txid :: string
  pb_total_fee :: u64
  pb_maximum_fee :: u64
  pb_records :: "public_plan list"

definition PLAN_MAX_RECORDS :: u32 where "PLAN_MAX_RECORDS = 1024"
definition STANDARD_TX_WEIGHT :: u64 where "STANDARD_TX_WEIGHT = 400000"
definition WALLET_MAX_INPUTS :: nat where "WALLET_MAX_INPUTS = 50"
definition LITECOIN_DUST_RELAY_FEE :: u64 where "LITECOIN_DUST_RELAY_FEE = 30000"

fun publication_return :: "chain \<Rightarrow> u64" where
  "publication_return LitecoinTestnet = 110 * LITECOIN_DUST_RELAY_FEE div 1000"
| "publication_return LitecoinMainnet = 110 * LITECOIN_DUST_RELAY_FEE div 1000"
| "publication_return _ = 1000"

subsection \<open>Validation\<close>

text \<open>\<open>decode(raw, usize::MAX)\<close>, without the context of a decoding error.\<close>

definition plan_transaction :: "'info plan_lib \<Rightarrow> string \<Rightarrow> rt_error + transaction" where
  "plan_transaction lib raw =
     map_err (\<lambda>cause. case cause of RtContext _ inner \<Rightarrow> inner | _ \<Rightarrow> cause) (decode_tx lib raw (2 ^ 64 - 1))"

definition return_script :: "'info plan_lib \<Rightarrow> string \<Rightarrow> rt_error + bytes" where
  "return_script lib hex_script =
     rbind (ok_or RtHex (pl_hex_decode lib hex_script)) (\<lambda>script.
     ensure (e_is_p2wpkh (pl_env lib) script) (RtInvalid ''publication return requires native P2WPKH'') (Inr script))"

fun funding_error :: "funding_signature_error \<Rightarrow> rt_error" where
  "funding_error SighashType = RtInvalid ''funding signature must commit all outputs''"
| "funding_error PublicKeyMismatch = RtInvalid ''funding public key mismatch''"
| "funding_error FsSighash = RtSegwitSighash"
| "funding_error FsSignature = RtSecp256k1"

definition verify_input :: "'info plan_lib \<Rightarrow> transaction \<Rightarrow> nat \<Rightarrow> tx_out \<Rightarrow> rt_error + unit" where
  "verify_input lib commit index previous =
     (let input = tx_input commit ! index in
      ensure (ti_script_sig input = [] \<and> length (ti_witness input) = 2) (RtInvalid ''funding must be signed native P2WPKH'')
     (rbind (ok_or RtEcdsa (pl_ecdsa lib (ti_witness input ! 0))) (\<lambda>signature.
      let key = ti_witness input ! 1 in
      ensure (length key = 33) (RtInvalid ''funding public key must be compressed'')
     (ensure (pl_public_key lib key) RtPublicKey
      (map_err funding_error (verify_p2wpkh_signature lib commit index previous signature key))))))"

text \<open>The loop over the inputs zipped with the declared outputs.\<close>

fun verify_inputs ::
  "'info plan_lib \<Rightarrow> transaction \<Rightarrow> nat \<Rightarrow> out_point set \<Rightarrow> (tx_in \<times> out_point \<times> tx_out) list \<Rightarrow> rt_error + unit" where
  "verify_inputs lib commit index seen [] = Inr ()"
| "verify_inputs lib commit index seen ((input, outpoint, previous) # rest) =
     ensure ((ti_txid input, ti_vout input) = outpoint \<and> outpoint \<notin> seen) (RtInvalid ''commit does not spend declared funding'')
    (rbind (verify_input lib commit index previous) (\<lambda>_.
     verify_inputs lib commit (Suc index) (insert outpoint seen) rest))"

definition verify_commit :: "'info plan_lib \<Rightarrow> transaction \<Rightarrow> (out_point \<times> tx_out) list \<Rightarrow> rt_error + unit" where
  "verify_commit lib commit prevouts =
     ensure (length (tx_input commit) = length prevouts \<and> length (tx_output commit) = 2)
       (RtInvalid ''invalid commit transaction shape'')
     (verify_inputs lib commit 0 {} (zip (tx_input commit) prevouts))"

definition verify_first_funding :: "public_plan \<Rightarrow> rt_error + unit" where
  "verify_first_funding pair =
     ensure (1 \<le> length (pp_funding pair) \<and> length (pp_funding pair) \<le> WALLET_MAX_INPUTS)
       (RtInvalid ''first publication record needs 1..50 funding inputs'') (Inr ())"

definition verify_chained_funding :: "public_plan \<Rightarrow> string \<Rightarrow> rt_error + unit" where
  "verify_chained_funding pair previous_commit =
     (case pp_funding pair of
        [chained] \<Rightarrow> ensure (fu_raw_transaction chained = previous_commit \<and> fu_vout chained = 1)
          (RtInvalid ''broken publication funding chain'') (Inr ())
      | _ \<Rightarrow> Inl (RtInvalid ''broken publication funding chain''))"

definition declared_funding :: "'info plan_lib \<Rightarrow> public_plan \<Rightarrow> rt_error + (out_point \<times> tx_out) list" where
  "declared_funding lib pair = rtraverse (\<lambda>f. map_err RtProtocol (prevout lib f)) (pp_funding pair)"

definition verify_policy :: "'info plan_lib \<Rightarrow> transaction \<Rightarrow> transaction \<Rightarrow> chain \<Rightarrow> rt_error + unit" where
  "verify_policy lib commit reveal chain =
     ensure (pl_weight lib commit \<le> STANDARD_TX_WEIGHT \<and> pl_weight lib reveal \<le> STANDARD_TX_WEIGHT)
       (RtInvalid ''publication exceeds standard transaction weight'')
    (let retained = publication_return chain in
     ensure (retained \<le> to_value (tx_output commit ! 0) \<and> retained \<le> to_value (tx_output commit ! 1) \<and>
             retained \<le> to_value (tx_output reveal ! 0))
       (RtInvalid ''publication output below configured dust-safe retained value'') (Inr ()))"

text \<open>The sum of the declared outputs.\<close>

definition funding_sum :: "(out_point \<times> tx_out) list \<Rightarrow> rt_error + u64" where
  "funding_sum prevouts =
     rfold (\<lambda>available p. rt_context_opt ''funding sum overflow'' (checked_add available (to_value (snd p)))) 0 prevouts"

record validation =
  va_count :: u32
  va_total :: u64
  va_previous_commit :: string
  va_last :: string

definition Validation_new :: validation where
  "Validation_new = \<lparr>va_count = 0, va_total = 0, va_previous_commit = [], va_last = []\<rparr>"

definition Validation_append ::
  "'info plan_lib \<Rightarrow> validation \<Rightarrow> public_plan \<Rightarrow> chain \<Rightarrow> string \<Rightarrow> bytes \<Rightarrow> rt_error + bytes \<times> validation" where
  "Validation_append lib s pair chain author return =
     rbind (Chain_genesis lib (pp_chain pair)) (\<lambda>pair_genesis.
     rbind (Chain_genesis lib chain) (\<lambda>genesis.
     ensure (pair_genesis = genesis \<and> pp_version pair = VERSION) (RtInvalid ''plan record network or version mismatch'')
    (ensure (1 \<le> pp_fee_rate pair \<and> pp_fee_rate pair \<le> 100) (RtInvalid ''invalid record fee rate'')
    (rbind (if va_count s = 0 then verify_first_funding pair else verify_chained_funding pair (va_previous_commit s)) (\<lambda>_.
     rbind (declared_funding lib pair) (\<lambda>prevouts.
     rbind (plan_transaction lib (pp_commit pair)) (\<lambda>commit.
     rbind (plan_transaction lib (pp_reveal pair)) (\<lambda>reveal.
     rbind (verify_commit lib commit prevouts) (\<lambda>_.
     rbind (map_err RtProtocol (verify_reveal (pl_env lib) reveal commit)) (\<lambda>parsed.
     rbind (verify_policy lib commit reveal chain) (\<lambda>_.
     ensure (pl_key_text lib (pe_author parsed) = author) (RtInvalid ''record author mismatch'')
    (ensure (to_script (tx_output commit ! 1) = return \<and> to_script (tx_output reveal ! 0) = return)
       (RtInvalid ''publication return destination mismatch'')
    (rbind (funding_sum prevouts) (\<lambda>available.
     rbind (rt_context_opt ''commit output sum overflow''
              (checked_add (to_value (tx_output commit ! 0)) (to_value (tx_output commit ! 1)))) (\<lambda>committed.
     ensure (committed \<le> available) (RtInvalid ''commit spends more than declared funding'')
    (rbind (rt_context_opt ''output sum overflow''
              (checked_add (to_value (tx_output commit ! 1)) (to_value (tx_output reveal ! 0)))) (\<lambda>outputs.
     rbind (rt_context_opt ''negative publication fee'' (checked_sub available outputs)) (\<lambda>fee.
     rbind (rt_context_opt ''fee sum overflow'' (checked_add (va_total s) fee)) (\<lambda>total.
     rbind (rt_context_opt ''record count overflow'' (checked_add (va_count s) 1)) (\<lambda>count.
     Inr (pe_record parsed,
       \<lparr>va_count = count, va_total = total, va_previous_commit = pp_commit pair,
        va_last = pl_hash_text lib (e_txid (pl_env lib) reveal)\<rparr>)))))))))))))))))))))"

definition last_txid :: "'info plan_lib \<Rightarrow> validation \<Rightarrow> rt_error + bytes" where
  "last_txid lib s = ok_or RtHash (pl_parse_hash lib (va_last s))"

definition Validation_finish :: "validation \<Rightarrow> u64 \<Rightarrow> string \<Rightarrow> rt_error + unit" where
  "Validation_finish s total_fee root_txid =
     ensure (va_total s = total_fee \<and> va_last s = root_txid) (RtInvalid ''plan fee or locator mismatch'') (Inr ())"

definition validate_plan :: "'info plan_lib \<Rightarrow> publication_plan \<Rightarrow> rt_error + unit" where
  "validate_plan lib plan =
     ensure (pb_version plan = 1 \<and> pb_records plan \<noteq> [] \<and> length (pb_records plan) \<le> unat PLAN_MAX_RECORDS)
       (RtInvalid ''invalid publication plan version or size'')
    (ensure (pb_total_fee plan \<le> pb_maximum_fee plan \<and> 0 < pb_maximum_fee plan) (RtInvalid ''plan fee budget exceeded'')
    (rbind (return_script lib (pb_return_script plan)) (\<lambda>return.
     rbind (rfold (\<lambda>s pair. rmap snd (Validation_append lib s pair (pb_chain plan) (pb_author plan) return))
              Validation_new (pb_records plan)) (\<lambda>s.
     Validation_finish s (pb_total_fee plan) (pb_root_txid plan)))))"

end
