(* ===== verification/Node.thy ===== *)
theory Node
  imports Publication_Plan
begin

section \<open>The node as the publisher sees it (\<^verbatim>\<open>urma-runtime/src/node.rs\<close>)\<close>

text \<open>
  A node answers calls with JSON values. The calls themselves are parameters: the client of a local
  node, or the router over public providers. What the program adds is modelled here: the table of
  acknowledged broadcasts, which keeps a child on the provider of its parent and bridges the time until
  the other providers see a transaction, and the interpretation of the answers.
\<close>

datatype json_value = VNull | VBool bool | VInt int | VFloat | VStr string | VArray "json_value list" | VObject "(string \<times> json_value) list"

fun value_get :: "json_value \<Rightarrow> string \<Rightarrow> json_value option" where
  "value_get (VObject kvs) key = map_of kvs key"
| "value_get _ key = None"

definition value_at :: "json_value \<Rightarrow> string \<Rightarrow> json_value" where
  "value_at v key = (case value_get v key of None \<Rightarrow> VNull | Some x \<Rightarrow> x)"

fun as_str :: "json_value \<Rightarrow> string option" where
  "as_str (VStr s) = Some s"
| "as_str _ = None"

fun as_bool :: "json_value \<Rightarrow> bool option" where
  "as_bool (VBool b) = Some b"
| "as_bool _ = None"

fun as_array :: "json_value \<Rightarrow> json_value list option" where
  "as_array (VArray vs) = Some vs"
| "as_array _ = None"

fun as_u64 :: "json_value \<Rightarrow> u64 option" where
  "as_u64 (VInt n) = (if 0 \<le> n \<and> n < 2 ^ 64 then Some (word_of_int n) else None)"
| "as_u64 _ = None"

fun as_i64 :: "json_value \<Rightarrow> int option" where
  "as_i64 (VInt n) = (if - (2 ^ 63) \<le> n \<and> n < 2 ^ 63 then Some n else None)"
| "as_i64 _ = None"

definition json_u64 :: "u64 \<Rightarrow> json_value" where
  "json_u64 n = VInt (uint n)"

definition confirmations_of :: "json_value \<Rightarrow> rt_error + int" where
  "confirmations_of v = (case value_get v ''confirmations'' of
     Some number \<Rightarrow> rt_context_opt ''invalid confirmations'' (as_i64 number) | None \<Rightarrow> Inr 0)"

subsection \<open>The world of a publisher\<close>

text \<open>
  \<open>bw_world\<close> holds the state of the node, the clock and the operating system, and the journal file;
  \<open>bw_log\<close> is the file of observations beside it, \<open>bw_ack\<close> the table of acknowledged broadcasts.
\<close>

record acknowledged =
  ak_when :: nat
  ak_provider :: string

record 's pub_world =
  bw_world :: "'s world"
  bw_ack :: "bytes \<Rightarrow> acknowledged option"
  bw_log :: "bytes option"

definition on_world :: "('s world, 'e, 'a) act \<Rightarrow> ('s pub_world, 'e, 'a) act" where
  "on_world m = (\<lambda>w. case m (bw_world w) of (r, w') \<Rightarrow> (r, w\<lparr>bw_world := w'\<rparr>))"

definition on_state :: "('s, 'e, 'a) act \<Rightarrow> ('s pub_world, 'e, 'a) act" where
  "on_state m = on_world (\<lambda>w. case m (w_state w) of (r, s') \<Rightarrow> (r, w\<lparr>w_state := s'\<rparr>))"

datatype preference = AnyProvider | PreferProvider string

record 's router =
  rr_call :: "chain \<Rightarrow> string \<Rightarrow> json_value list \<Rightarrow> ('s, rt_error, json_value) act"
  rr_answer_preferring :: "preference \<Rightarrow> chain \<Rightarrow> string \<Rightarrow> json_value list \<Rightarrow> ('s, rt_error, json_value \<times> string) act"

datatype 's backend = Local "string \<Rightarrow> json_value list \<Rightarrow> ('s, rt_error, json_value) act" | Routed "'s router"

record 's node =
  nd_chain :: chain
  nd_backend :: "'s backend"
  nd_now :: "'s \<Rightarrow> nat \<times> 's" \<comment> \<open>\<open>Instant::now\<close>, in seconds\<close>

type_synonym ('s, 'a) node_act = "('s pub_world, rt_error, 'a) act"

definition is_public :: "'s node \<Rightarrow> bool" where
  "is_public node = (case nd_backend node of Local _ \<Rightarrow> False | Routed _ \<Rightarrow> True)"

definition node_now :: "'s node \<Rightarrow> ('s, nat) node_act" where
  "node_now node = on_state (\<lambda>s. case nd_now node s of (t, s') \<Rightarrow> (Inr t, s'))"

definition SUBMISSION_ACK_WINDOW :: nat where "SUBMISSION_ACK_WINDOW = 180"
definition SUBMISSION_PRESENCE_CHECKS :: nat where "SUBMISSION_PRESENCE_CHECKS = 3"

definition TX_HEX_LIMIT :: nat where "TX_HEX_LIMIT = unat STANDARD_TX_WEIGHT * 2"

subsection \<open>Calls\<close>

fun parent_loop :: "'s node \<Rightarrow> tx_in list \<Rightarrow> ('s, preference) node_act" where
  "parent_loop node [] = iret AnyProvider"
| "parent_loop node (input # inputs) = (\<lambda>w.
     case bw_ack w (ti_txid input) of
       None \<Rightarrow> parent_loop node inputs w
     | Some parent \<Rightarrow>
         ibind (node_now node) (\<lambda>t.
           if t - ak_when parent < SUBMISSION_ACK_WINDOW then iret (PreferProvider (ak_provider parent))
           else parent_loop node inputs) w)"

definition parent_provider :: "'info plan_lib \<Rightarrow> 's node \<Rightarrow> json_value list \<Rightarrow> ('s, preference) node_act" where
  "parent_provider lib node args =
     ibind (ilift (rt_context_opt ''broadcast without a transaction'' (case args of [] \<Rightarrow> None | a # _ \<Rightarrow> Some a))) (\<lambda>a.
     ibind (ilift (rt_context_opt ''broadcast transaction must be hex'' (as_str a))) (\<lambda>raw.
     ibind (ilift (decode_tx lib raw TX_HEX_LIMIT)) (\<lambda>transaction.
     parent_loop node (tx_input transaction))))"

definition remember_acknowledged :: "'info plan_lib \<Rightarrow> 's node \<Rightarrow> json_value \<Rightarrow> string \<Rightarrow> ('s, unit) node_act" where
  "remember_acknowledged lib node v provider =
     ibind (ilift (rt_context_opt ''broadcast acknowledgment without a txid'' (as_str v))) (\<lambda>text.
     ibind (ilift (ok_or RtHash (pl_parse_hash lib text))) (\<lambda>txid.
     ibind (node_now node) (\<lambda>t. \<lambda>w.
       let kept = (\<lambda>x. case bw_ack w x of
         None \<Rightarrow> None | Some parent \<Rightarrow> if t - ak_when parent < SUBMISSION_ACK_WINDOW then Some parent else None)
       in (Inr (), w\<lparr>bw_ack := kept(txid \<mapsto> \<lparr>ak_when = t, ak_provider = provider\<rparr>)\<rparr>))))"

definition node_call :: "'info plan_lib \<Rightarrow> 's node \<Rightarrow> string \<Rightarrow> json_value list \<Rightarrow> ('s, json_value) node_act" where
  "node_call lib node method args =
     (case nd_backend node of
        Local client \<Rightarrow> on_state (client method args)
      | Routed router \<Rightarrow>
          if method \<noteq> ''sendrawtransaction'' then on_state (rr_call router (nd_chain node) method args)
          else
            ibind (parent_provider lib node args) (\<lambda>preference.
            ibind (on_state (rr_answer_preferring router preference (nd_chain node) method args)) (\<lambda>(v, label).
            ibind (remember_acknowledged lib node v label) (\<lambda>_. iret v))))"

definition recently_acknowledged :: "'s node \<Rightarrow> bytes \<Rightarrow> ('s, bool) node_act" where
  "recently_acknowledged node txid = (\<lambda>w.
     case bw_ack w txid of
       None \<Rightarrow> (Inr False, w)
     | Some parent \<Rightarrow> ibind (node_now node) (\<lambda>t. iret (t - ak_when parent < SUBMISSION_ACK_WINDOW)) w)"

definition node_block_hash :: "'info plan_lib \<Rightarrow> 's node \<Rightarrow> u64 \<Rightarrow> ('s, bytes) node_act" where
  "node_block_hash lib node height =
     ibind (node_call lib node ''getblockhash'' [json_u64 height]) (\<lambda>v.
     ibind (ilift (rt_context_opt ''missing block hash'' (as_str v))) (\<lambda>text.
     ilift (ok_or RtHash (pl_parse_hash lib text))))"

definition verify_network :: "'info plan_lib \<Rightarrow> 's node \<Rightarrow> ('s, unit) node_act" where
  "verify_network lib node =
     ibind (node_call lib node ''getblockhash'' [VInt 0]) (\<lambda>genesis.
     ibind (ilift (Chain_genesis lib (nd_chain node))) (\<lambda>expected.
     icheck (as_str genesis = Some (pl_hash_text lib expected)) (RtInvalid ''RPC genesis does not match selected chain'')))"

definition require_txindex :: "'info plan_lib \<Rightarrow> 's node \<Rightarrow> ('s, unit) node_act" where
  "require_txindex lib node =
     (case nd_backend node of
        Routed _ \<Rightarrow> verify_network lib node
      | Local _ \<Rightarrow>
          ibind (node_call lib node ''getindexinfo'' [VStr ''txindex'']) (\<lambda>indexes.
          icheck (value_at (value_at indexes ''txindex'') ''synced'' = VBool True)
            (RtInvalid ''publication and recovery require synchronized txindex=1 on the local node'')))"

definition node_tip :: "'info plan_lib \<Rightarrow> 's node \<Rightarrow> ('s, u64 \<times> string) node_act" where
  "node_tip lib node =
     ibind (node_call lib node ''getblockchaininfo'' []) (\<lambda>info.
     ibind (ilift (rt_context_opt ''missing height'' (as_u64 (value_at info ''blocks'')))) (\<lambda>height.
     ibind (ilift (rt_context_opt ''missing tip hash'' (as_str (value_at info ''bestblockhash'')))) (\<lambda>hash.
     iret (height, hash))))"

subsection \<open>Presence of a transaction\<close>

datatype presence = Absent | InMempool | Included u64 string

type_synonym block_cache = "string \<Rightarrow> presence option"

text \<open>The part after a positive number of confirmations: the block must be on the active chain.\<close>

definition inclusion :: "'info plan_lib \<Rightarrow> 's node \<Rightarrow> json_value \<Rightarrow> block_cache \<Rightarrow> ('s, presence \<times> block_cache) node_act" where
  "inclusion lib node v blocks =
     ibind (ilift (rt_context_opt ''missing inclusion block'' (as_str (value_at v ''blockhash'')))) (\<lambda>hash.
     case blocks hash of
       Some cached \<Rightarrow> iret (cached, blocks)
     | None \<Rightarrow>
         ibind (node_call lib node ''getblockheader'' [VStr hash]) (\<lambda>header.
         ibind (ilift (rt_context_opt ''missing inclusion height'' (as_u64 (value_at header ''height'')))) (\<lambda>height.
         ibind (node_call lib node ''getblockhash'' [json_u64 height]) (\<lambda>active.
         if active \<noteq> VStr hash then iret (Absent, blocks)
         else iret (Included height hash, blocks(hash \<mapsto> Included height hash))))))"

definition presence_cached :: "'info plan_lib \<Rightarrow> 's node \<Rightarrow> bytes \<Rightarrow> block_cache \<Rightarrow> ('s, presence \<times> block_cache) node_act" where
  "presence_cached lib node txid blocks = (\<lambda>w.
     case node_call lib node ''getrawtransaction'' [VStr (pl_hash_text lib txid), VBool True] w of
       (Inr v, w') \<Rightarrow>
         ibind (ilift (confirmations_of v)) (\<lambda>n.
           if n \<le> 0 then iret (InMempool, blocks) else inclusion lib node v blocks) w'
     | (Inl (RtRpc e), w') \<Rightarrow>
         (if is_missing_transaction (RtRpc e) then (Inr (Absent, blocks), w') else (Inl (RtRpc e), w'))
     | (Inl (RtMissing message), w') \<Rightarrow>
         ibind (recently_acknowledged node txid) (\<lambda>recent. iret (if recent then InMempool else Absent, blocks)) w'
     | (Inl e, w') \<Rightarrow> (Inl e, w'))"

definition presence_of :: "'info plan_lib \<Rightarrow> 's node \<Rightarrow> bytes \<Rightarrow> ('s, presence) node_act" where
  "presence_of lib node txid = ibind (presence_cached lib node txid (\<lambda>_. None)) (\<lambda>(p, _). iret p)"

text \<open>The loop of \<open>presence_after_submission\<close> makes at most three checks.\<close>

fun presence_loop :: "'info plan_lib \<Rightarrow> 's node \<Rightarrow> bytes \<Rightarrow> nat \<Rightarrow> ('s, presence) node_act" where
  "presence_loop lib node txid 0 = iret Absent"
| "presence_loop lib node txid (Suc n) =
     ibind (presence_of lib node txid) (\<lambda>p. if p \<noteq> Absent \<or> n = 0 then iret p else presence_loop lib node txid n)"

definition presence_after_submission :: "'info plan_lib \<Rightarrow> 's node \<Rightarrow> bytes \<Rightarrow> ('s, presence) node_act" where
  "presence_after_submission lib node txid = presence_loop lib node txid SUBMISSION_PRESENCE_CHECKS"

definition node_confirmations :: "'info plan_lib \<Rightarrow> 's node \<Rightarrow> bytes \<Rightarrow> ('s, u32) node_act" where
  "node_confirmations lib node txid =
     ibind (presence_of lib node txid) (\<lambda>p. case p of
       Included height _ \<Rightarrow>
         ibind (node_tip lib node) (\<lambda>(tip, _).
         ibind (ilift (rt_context_opt ''chain changed during confirmation lookup'' (checked_sub tip height))) (\<lambda>d.
         ibind (ilift (rt_context_opt ''confirmation count overflow'' (checked_add d 1))) (\<lambda>n.
         ilift (rt_try_from (unat n)))))
     | _ \<Rightarrow> iret 0)"

end
