(* ===== verification/Publish.thy ===== *)
theory Publish
  imports Node
begin

section \<open>Publishing a plan (\<^verbatim>\<open>urma-runtime/src/publish.rs\<close>)\<close>

text \<open>
  A transaction is broadcast after a preflight, and when the answer is lost the exact transaction is
  looked up instead of sent again. A plan is worked through in order; each pass records what it saw in
  the journal file and stops where it has to wait.
\<close>

record transaction_status =
  ts_txid :: string
  ts_presence :: presence

record publish_report =
  rp_plan_id :: string
  rp_root_txid :: string
  rp_complete :: bool
  rp_confirmed :: bool
  rp_blocked_reason :: string
  rp_transactions :: "transaction_status list"

text \<open>JSON of plans and reports (\<open>serde\<close>), hexadecimal text, and what an error prints.\<close>

record 'info publish_lib =
  ul_plan :: "'info plan_lib"
  ul_hex :: "bytes \<Rightarrow> string"
  ul_plan_json :: "publication_plan \<Rightarrow> bytes"
  ul_report_json :: "publish_report \<Rightarrow> bytes"
  ul_parse_report :: "bytes \<Rightarrow> publish_report option"
  ul_error_text :: "rt_error \<Rightarrow> string"

text \<open>The files: the journal, whether its existence can be told, and the log of observations.\<close>

record 's pub_files =
  pf_fs :: "'s file_system"
  pf_exists :: "'s \<Rightarrow> bool \<times> 's"
  pf_append :: "'s \<Rightarrow> bytes \<Rightarrow> (nat option \<times> rt_error) option \<times> 's"
    \<comment> \<open>a failure to open the file, or one after so many bytes\<close>
  pf_log_read :: "'s \<Rightarrow> bool \<times> 's"

definition store_report :: "'info publish_lib \<Rightarrow> 's pub_files \<Rightarrow> publish_report \<Rightarrow> ('s, unit) node_act" where
  "store_report lib files report =
     on_world (imap_err rt_of_io (write_replace (pf_fs files) (ul_report_json lib report)))"

datatype mempool_check = Allowed | PreflightRejected string | PreflightUnavailable string

definition test_accept :: "'info publish_lib \<Rightarrow> 's node \<Rightarrow> string \<Rightarrow> ('s, mempool_check) node_act" where
  "test_accept lib node raw =
     ibind (ilift (decode_tx (ul_plan lib) raw TX_HEX_LIMIT)) (\<lambda>transaction.
     ibind (icheck (pl_weight (ul_plan lib) transaction \<le> STANDARD_TX_WEIGHT) (RtInvalid ''transaction exceeds standard weight'')) (\<lambda>_.
     \<lambda>w. case node_call (ul_plan lib) node ''testmempoolaccept'' [VArray [VStr raw]] w of
       (Inl cause, w') \<Rightarrow> (if is_public node then Inr (PreflightUnavailable (ul_error_text lib cause)) else Inl cause, w')
     | (Inr acceptance, w') \<Rightarrow>
         ibind (ilift (rt_context_opt ''missing mempool acceptance'' (as_array acceptance))) (\<lambda>rows.
         ibind (icheck (length rows = 1) (RtInvalid ''incorrect mempool acceptance count'')) (\<lambda>_.
         let result = rows ! 0 in
         ibind (icheck (value_at result ''txid'' = VStr (pl_hash_text (ul_plan lib) (e_txid (pl_env (ul_plan lib)) transaction)))
           (RtInvalid ''mempool preflight TXID mismatch'')) (\<lambda>_.
         ibind (ilift (rt_context_opt ''missing mempool decision'' (as_bool (value_at result ''allowed'')))) (\<lambda>allowed.
         if allowed then iret Allowed
         else
           ibind (ilift (rt_context_opt ''mempool policy rejected transaction without reason'' (as_str (value_at result ''reject-reason'')))) (\<lambda>reason.
           iret (PreflightRejected reason)))))) w'))"

fun parent_in_mempool :: "'info plan_lib \<Rightarrow> 's node \<Rightarrow> tx_in list \<Rightarrow> bool \<Rightarrow> ('s, bool) node_act" where
  "parent_in_mempool lib node [] pending = iret pending"
| "parent_in_mempool lib node (input # inputs) pending =
     ibind (presence_of lib node (ti_txid input)) (\<lambda>p. parent_in_mempool lib node inputs (pending \<or> p = InMempool))"

definition MISSING_INPUT_REJECTIONS :: "string list" where
  "MISSING_INPUT_REJECTIONS = [''missing-inputs'', ''bad-txns-inputs-missingorspent'']"

definition AWAITING_PARENT :: string where "AWAITING_PARENT = ''awaiting parent propagation across sources''"

definition missing_inputs :: "string \<Rightarrow> bool" where
  "missing_inputs reason \<longleftrightarrow> reason \<in> set MISSING_INPUT_REJECTIONS"

fun temporary_rejection :: "rt_error \<Rightarrow> bool" where
  "temporary_rejection (RtRpc (Some (code, message))) = (code = - 26 \<and> message = ''mempool full'')"
| "temporary_rejection _ = False"

text \<open>Sending, once the preflight lets the transaction pass. The result is the reason for which it is blocked.\<close>

definition submit :: "'info publish_lib \<Rightarrow> 's node \<Rightarrow> string \<Rightarrow> bytes \<Rightarrow> bool \<Rightarrow> ('s, string) node_act" where
  "submit lib node raw txid parent_pending = (\<lambda>w.
     case node_call (ul_plan lib) node ''sendrawtransaction'' [VStr raw] w of
       (Inr result, w') \<Rightarrow>
         ibind (icheck (result = VStr (pl_hash_text (ul_plan lib) txid)) (RtInvalid ''broadcast RPC returned unexpected TXID''))
           (\<lambda>_. iret []) w'
     | (Inl e, w') \<Rightarrow>
         ibind (presence_of (ul_plan lib) node txid) (\<lambda>p.
           if p = Absent then
             (if temporary_rejection e then iret ''mempool full''
              else if parent_pending then iret AWAITING_PARENT
              else ithrow e)
           else iret []) w')"

definition broadcast :: "'info publish_lib \<Rightarrow> 's node \<Rightarrow> string \<Rightarrow> ('s, string) node_act" where
  "broadcast lib node raw =
     ibind (ilift (decode_tx (ul_plan lib) raw TX_HEX_LIMIT)) (\<lambda>transaction.
     let txid = e_txid (pl_env (ul_plan lib)) transaction in
     ibind (parent_in_mempool (ul_plan lib) node (tx_input transaction) False) (\<lambda>parent_pending.
     ibind (test_accept lib node raw) (\<lambda>check. case check of
       Allowed \<Rightarrow> submit lib node raw txid parent_pending
     | PreflightRejected reason \<Rightarrow>
         if parent_pending \<and> missing_inputs reason then submit lib node raw txid parent_pending else iret reason
     | PreflightUnavailable reason \<Rightarrow> submit lib node raw txid parent_pending)))"

definition report_status :: "publish_report \<Rightarrow> string \<Rightarrow> presence \<Rightarrow> publish_report" where
  "report_status report txid p =
     report\<lparr>rp_transactions := rp_transactions report @ [\<lparr>ts_txid = txid, ts_presence = p\<rparr>]\<rparr>"

definition advance :: "'info publish_lib \<Rightarrow> 's node \<Rightarrow> string \<Rightarrow> publish_report \<Rightarrow> ('s, bool \<times> publish_report) node_act" where
  "advance lib node raw report =
     ibind (ilift (decode_tx (ul_plan lib) raw TX_HEX_LIMIT)) (\<lambda>transaction.
     let txid = e_txid (pl_env (ul_plan lib)) transaction; text = pl_hash_text (ul_plan lib) txid in
     ibind (presence_of (ul_plan lib) node txid) (\<lambda>p.
     if p = Absent then
       ibind (broadcast lib node raw) (\<lambda>reason.
       if reason \<noteq> [] then iret (False, report_status (report\<lparr>rp_blocked_reason := reason\<rparr>) text p)
       else
         ibind (presence_after_submission (ul_plan lib) node txid) (\<lambda>p'.
         iret (True, report_status report text p')))
     else iret (True, report_status report text p)))"

definition start ::
  "'info publish_lib \<Rightarrow> 's pub_files \<Rightarrow> 's node \<Rightarrow> string \<Rightarrow> string \<Rightarrow> chain \<Rightarrow> string \<Rightarrow> ('s, publish_report \<times> u64 \<times> string) node_act" where
  "start lib files node plan_id root_txid chain approved_id =
     ibind (icheck (approved_id = plan_id) (RtInvalid ''approval does not match exact immutable signed plan'')) (\<lambda>_.
     ibind (verify_network (ul_plan lib) node) (\<lambda>_.
     ibind (require_txindex (ul_plan lib) node) (\<lambda>_.
     ibind (node_tip (ul_plan lib) node) (\<lambda>anchor.
     ibind (ilift (Chain_genesis (ul_plan lib) (nd_chain node))) (\<lambda>here.
     ibind (ilift (Chain_genesis (ul_plan lib) chain)) (\<lambda>there.
     ibind (icheck (here = there) (RtInvalid ''publication network mismatch'')) (\<lambda>_.
     ibind (\<lambda>w. let (told, s') = pf_exists files (w_state (bw_world w)) in
              (if told then Inr (w_file (bw_world w) \<noteq> None) else Inl RtIo, w\<lparr>bw_world := (bw_world w)\<lparr>w_state := s'\<rparr>\<rparr>)) (\<lambda>exists.
     ibind (if exists then
              ibind (on_world (imap_err rt_of_io (read_bounded (pf_fs files) 1048576))) (\<lambda>bs.
              ibind (ilift (ok_or RtJson (ul_parse_report lib bs))) (\<lambda>old.
              icheck (rp_plan_id old = plan_id) (RtInvalid ''journal belongs to another plan'')))
            else iret ()) (\<lambda>_.
     let report = \<lparr>rp_plan_id = plan_id, rp_root_txid = root_txid, rp_complete = False, rp_confirmed = False,
                   rp_blocked_reason = [], rp_transactions = []\<rparr> in
     ibind (store_report lib files report) (\<lambda>_. iret (report, anchor)))))))))))"

datatype reveal_timing = AfterMempool | AfterConfirmation

fun is_included :: "presence \<Rightarrow> bool" where
  "is_included (Included _ _) = True"
| "is_included _ = False"

text \<open>The loop over the transactions: the report, and whether the loop ran to its end.\<close>

fun publish_loop ::
  "'info publish_lib \<Rightarrow> 's pub_files \<Rightarrow> 's node \<Rightarrow> bool \<Rightarrow> string list \<Rightarrow> publish_report \<Rightarrow> ('s, publish_report \<times> bool) node_act" where
  "publish_loop lib files node dependent [] report = iret (report, True)"
| "publish_loop lib files node dependent (raw # raws) report =
     ibind (advance lib node raw report) (\<lambda>(advanced, report').
     if \<not> advanced then ibind (store_report lib files report') (\<lambda>_. iret (report', False))
     else
       ibind (ilift (rt_context_opt ''transaction observation missing''
                (case rp_transactions report' of [] \<Rightarrow> None | _ \<Rightarrow> Some (ts_presence (last (rp_transactions report')))))) (\<lambda>p.
       if p = Absent then
         let stopped = report'\<lparr>rp_blocked_reason := ''transaction missing after submission; resume exact plan''\<rparr> in
         ibind (store_report lib files stopped) (\<lambda>_. iret (stopped, False))
       else if dependent \<and> \<not> is_included p then
         let stopped = report'\<lparr>rp_blocked_reason := ''awaiting one confirmation before dependent publication or recovery''\<rparr> in
         ibind (store_report lib files stopped) (\<lambda>_. iret (stopped, False))
       else ibind (store_report lib files report') (\<lambda>_. publish_loop lib files node dependent raws report')))"

definition PublicationPlan_id :: "'info publish_lib \<Rightarrow> publication_plan \<Rightarrow> rt_error + string" where
  "PublicationPlan_id lib plan =
     rbind (validate_plan (ul_plan lib) plan) (\<lambda>_.
     Inr (ul_hex lib (e_sha256 (pl_env (ul_plan lib)) (ul_plan_json lib plan))))"

definition plan_raws :: "publication_plan \<Rightarrow> string list" where
  "plan_raws plan = concat (map (\<lambda>pair. [pp_commit pair, pp_reveal pair]) (pb_records plan))"

definition publish_with ::
  "'info publish_lib \<Rightarrow> 's pub_files \<Rightarrow> 's node \<Rightarrow> publication_plan \<Rightarrow> string \<Rightarrow> reveal_timing \<Rightarrow> ('s, publish_report) node_act" where
  "publish_with lib files node plan approved_id timing =
     ibind (ilift (PublicationPlan_id lib plan)) (\<lambda>i.
     ibind (start lib files node i (pb_root_txid plan) (pb_chain plan) approved_id) (\<lambda>(report, height, hash).
     ibind (publish_loop lib files node (length (pb_records plan) \<noteq> 1 \<or> timing = AfterConfirmation) (plan_raws plan) report) (\<lambda>(report', through).
     if \<not> through then iret report'
     else
       ibind (node_block_hash (ul_plan lib) node height) (\<lambda>current.
       ibind (icheck (pl_hash_text (ul_plan lib) current = hash)
         (RtInvalid ''chain changed during publication reconciliation; resume against the new chain'')) (\<lambda>_.
       let confirmed = list_all (\<lambda>t. is_included (ts_presence t)) (rp_transactions report');
           final = report'\<lparr>rp_confirmed := confirmed, rp_complete := confirmed,
             rp_blocked_reason := (if confirmed then rp_blocked_reason report' else ''awaiting confirmations for commit and reveal'')\<rparr>
       in ibind (store_report lib files final) (\<lambda>_. iret final))))))"

definition publish :: "'info publish_lib \<Rightarrow> 's pub_files \<Rightarrow> 's node \<Rightarrow> publication_plan \<Rightarrow> string \<Rightarrow> ('s, publish_report) node_act" where
  "publish lib files node plan approved_id = publish_with lib files node plan approved_id AfterMempool"

end
