(* ===== verification/Publication_Safety.thy ===== *)
theory Publication_Safety
  imports Publication_Plan Envelope_Codec
begin

section \<open>What a validated plan does with the money\<close>

text \<open>
  The checks of a plan add up: what the first commit spends comes back in outputs to the return
  script or is the fee the plan states.
\<close>

text \<open>The parsed transactions of a record and what they pay back.\<close>

definition pair_transactions :: "'info plan_lib \<Rightarrow> public_plan \<Rightarrow> transaction \<Rightarrow> transaction \<Rightarrow> bool" where
  "pair_transactions lib pair commit reveal \<longleftrightarrow>
     plan_transaction lib (pp_commit pair) = Inr commit \<and> plan_transaction lib (pp_reveal pair) = Inr reveal"

definition amount :: "transaction \<Rightarrow> nat \<Rightarrow> nat" where
  "amount tx i = unat (to_value (tx_output tx ! i))"

definition inputs_worth :: "(out_point \<times> tx_out) list \<Rightarrow> nat" where
  "inputs_worth prevouts = (\<Sum>p\<leftarrow>prevouts. unat (to_value (snd p)))"

lemma funding_sum_eq_Inr: "funding_sum prevouts = Inr w \<Longrightarrow> unat w = inputs_worth prevouts"
proof -
  have "rfold (\<lambda>available p. rt_context_opt ''funding sum overflow'' (checked_add available (to_value (snd p)))) a prevouts = Inr w \<Longrightarrow>
      unat w = unat a + inputs_worth prevouts" for a
    by (induction prevouts arbitrary: a) (auto simp: inputs_worth_def checked_add_Some)
  then show "funding_sum prevouts = Inr w \<Longrightarrow> unat w = inputs_worth prevouts" by (fastforce simp: funding_sum_def)
qed

text \<open>
  The coins that a transaction spends, and that a commit spends exactly the coins its plan declares,
  none of them twice, each input signed for all outputs by the key that the coin pays.
\<close>

definition outpoints :: "transaction \<Rightarrow> out_point list" where
  "outpoints tx = map (\<lambda>input. (ti_txid input, ti_vout input)) (tx_input tx)"

definition spends_declared :: "'info plan_lib \<Rightarrow> public_plan \<Rightarrow> transaction \<Rightarrow> bool" where
  "spends_declared lib pair commit \<longleftrightarrow>
     (\<exists>prevouts. declared_funding lib pair = Inr prevouts \<and> outpoints commit = map fst prevouts \<and> distinct (outpoints commit) \<and>
       (\<forall>i < length prevouts. verify_input lib commit i (snd (prevouts ! i)) = Inr ()))"

lemma verify_inputs_sound:
  assumes "verify_inputs lib commit k seen (zip ins prevouts) = Inr ()" "length ins = length prevouts"
  shows "map (\<lambda>input. (ti_txid input, ti_vout input)) ins = map fst prevouts \<and> distinct (map fst prevouts) \<and>
    set (map fst prevouts) \<inter> seen = {} \<and> (\<forall>i < length prevouts. verify_input lib commit (k + i) (snd (prevouts ! i)) = Inr ())"
  using assms
proof (induction prevouts arbitrary: k seen ins)
  case Nil
  then show ?case by simp
next
  case (Cons p prevouts)
  obtain i others where ins: "ins = i # others" using Cons.prems(2) by (cases ins) auto
  obtain op prev where p: "p = (op, prev)" by (cases p)
  have step: "(ti_txid i, ti_vout i) = op" "op \<notin> seen" "verify_input lib commit k prev = Inr ()"
    "verify_inputs lib commit (Suc k) (insert op seen) (zip others prevouts) = Inr ()"
    using Cons.prems(1) by (auto simp: ins p)
  have "length others = length prevouts" using Cons.prems(2) by (simp add: ins)
  from Cons.IH [OF step(4) this] step(1-3) show ?case
    by (auto simp: ins p nth_Cons less_Suc_eq_0_disj split: nat.splits)
qed

lemma verify_commit_sound:
  assumes "declared_funding lib pair = Inr prevouts" "verify_commit lib commit prevouts = Inr ()"
  shows "spends_declared lib pair commit \<and> outpoints commit = map fst prevouts"
proof -
  have "length (tx_input commit) = length prevouts" "verify_inputs lib commit 0 {} (zip (tx_input commit) prevouts) = Inr ()"
    using assms(2) by (auto simp: verify_commit_def)
  then have "outpoints commit = map fst prevouts \<and> distinct (map fst prevouts) \<and>
      (\<forall>i < length prevouts. verify_input lib commit i (snd (prevouts ! i)) = Inr ())"
    using verify_inputs_sound [of lib commit 0 "{}" "tx_input commit" prevouts] by (simp add: outpoints_def)
  then show ?thesis using assms(1) by (simp add: spends_declared_def)
qed

text \<open>The reveal of a record spends a Taproot output of its commit and nothing else.\<close>

definition spends_commit :: "'info plan_lib \<Rightarrow> transaction \<Rightarrow> transaction \<Rightarrow> bool" where
  "spends_commit lib commit reveal \<longleftrightarrow>
     (\<exists>vout. outpoints reveal = [(e_txid (pl_env lib) commit, vout)] \<and> unat vout < length (tx_output commit) \<and>
       e_is_p2tr (pl_env lib) (to_script (tx_output commit ! unat vout)))"

lemma verify_reveal_spends: "verify_reveal (pl_env lib) reveal commit = Inr parsed \<Longrightarrow> spends_commit lib commit reveal"
  by (cases "tx_input reveal")
    (auto simp: verify_reveal_def verify_record_proof_def verify_prevout_proof_def spends_commit_def outpoints_def Let_def split: if_splits)

text \<open>What one accepted record establishes.\<close>

definition pair_ok :: "'info plan_lib \<Rightarrow> chain \<Rightarrow> string \<Rightarrow> bytes \<Rightarrow> transaction \<Rightarrow> transaction \<Rightarrow> bool" where
  "pair_ok lib chain author return commit reveal \<longleftrightarrow>
     (\<exists>parsed. verify_reveal (pl_env lib) reveal commit = Inr parsed \<and> pl_key_text lib (pe_author parsed) = author) \<and>
     spends_commit lib commit reveal \<and> length (tx_output commit) = 2 \<and> to_script (tx_output commit ! 1) = return \<and> to_script (tx_output reveal ! 0) = return \<and>
     unat (publication_return chain) \<le> amount commit 1 \<and> unat (publication_return chain) \<le> amount reveal 0"

lemma Validation_append_step:
  assumes "Validation_append lib s pair chain author return = Inr (record, s')"
  shows "\<exists>prevouts commit reveal. declared_funding lib pair = Inr prevouts \<and> pair_transactions lib pair commit reveal \<and>
    spends_declared lib pair commit \<and> outpoints commit = map fst prevouts \<and> pair_ok lib chain author return commit reveal \<and>
    amount commit 0 + amount commit 1 \<le> inputs_worth prevouts \<and>
    unat (va_total s) + inputs_worth prevouts = unat (va_total s') + amount commit 1 + amount reveal 0 \<and>
    va_previous_commit s' = pp_commit pair \<and> unat (va_count s') = unat (va_count s) + 1 \<and>
    va_last s' = pl_hash_text lib (e_txid (pl_env lib) reveal) \<and>
    (va_count s \<noteq> 0 \<longrightarrow> pp_funding pair = [\<lparr>fu_raw_transaction = va_previous_commit s, fu_vout = 1\<rparr>])"
proof -
  obtain prevouts commit reveal parsed available committed outputs fee total count where
    a: "if va_count s = 0 then verify_first_funding pair = Inr () else verify_chained_funding pair (va_previous_commit s) = Inr ()"
    "declared_funding lib pair = Inr prevouts" "plan_transaction lib (pp_commit pair) = Inr commit"
    "plan_transaction lib (pp_reveal pair) = Inr reveal" "verify_commit lib commit prevouts = Inr ()"
    "verify_reveal (pl_env lib) reveal commit = Inr parsed" "verify_policy lib commit reveal chain = Inr ()"
    "pl_key_text lib (pe_author parsed) = author" "to_script (tx_output commit ! 1) = return"
    "to_script (tx_output reveal ! 0) = return" "funding_sum prevouts = Inr available"
    "checked_add (to_value (tx_output commit ! 0)) (to_value (tx_output commit ! 1)) = Some committed"
    "committed \<le> available"
    "checked_add (to_value (tx_output commit ! 1)) (to_value (tx_output reveal ! 0)) = Some outputs"
    "checked_sub available outputs = Some fee" "checked_add (va_total s) fee = Some total"
    "checked_add (va_count s) 1 = Some count"
    and s': "s' = \<lparr>va_count = count, va_total = total, va_previous_commit = pp_commit pair,
        va_last = pl_hash_text lib (e_txid (pl_env lib) reveal)\<rparr>"
    using assms by (auto simp: Validation_append_def split: if_splits)
  have "unat available = inputs_worth prevouts" by (rule funding_sum_eq_Inr [OF a(11)])
  moreover have "pp_funding pair = [\<lparr>fu_raw_transaction = va_previous_commit s, fu_vout = 1\<rparr>]" if "va_count s \<noteq> 0"
    using a(1) that by (auto simp: verify_chained_funding_def split: list.splits)
  moreover have "pair_ok lib chain author return commit reveal"
    using a(5-10) verify_reveal_spends [OF a(6)] by (auto simp: pair_ok_def verify_policy_def verify_commit_def amount_def Let_def word_le_nat_alt)
  ultimately show ?thesis
    using a verify_commit_sound [OF a(2,5)] by (auto simp: s' pair_transactions_def amount_def checked_add_Some checked_sub_Some word_le_nat_alt)
qed

text \<open>A chained record spends the change of its predecessor.\<close>

lemma decode_bounded_limit:
  "decode_bounded lib raw m = Inr tx \<Longrightarrow> decode_bounded lib raw n = Inr tx' \<Longrightarrow> tx = tx'"
  by (auto simp: decode_bounded_def split: if_splits)

lemma plan_transaction_eq_Inr: "plan_transaction lib raw = Inr tx \<longleftrightarrow> decode_bounded lib raw (2 ^ 64 - 1) = Inr tx"
  by (simp add: plan_transaction_def decode_tx_def)

lemma chained_worth:
  assumes "declared_funding lib pair = Inr prevouts" "pp_funding pair = [\<lparr>fu_raw_transaction = raw, fu_vout = 1\<rparr>]"
    "plan_transaction lib raw = Inr commit"
  shows "inputs_worth prevouts = amount commit 1 \<and> map fst prevouts = [(e_txid (pl_env lib) commit, 1)]"
  using assms
  by (auto simp: declared_funding_def prevout_def inputs_worth_def amount_def plan_transaction_eq_Inr
      dest: decode_bounded_limit split: if_splits)

text \<open>Each commit spends the change of the one before it and nothing else.\<close>

fun chained_commits :: "'info plan_lib \<Rightarrow> transaction list \<Rightarrow> bool" where
  "chained_commits lib (c # d # cs) \<longleftrightarrow> outpoints d = [(e_txid (pl_env lib) c, 1)] \<and> chained_commits lib (d # cs)"
| "chained_commits lib _ \<longleftrightarrow> True"

definition paid_back :: "(transaction \<times> transaction) list \<Rightarrow> nat" where
  "paid_back pairs = (\<Sum>(commit, reveal)\<leftarrow>pairs. amount reveal 0)"

lemma validation_fold:
  assumes "rfold (\<lambda>s pair. rmap snd (Validation_append lib s pair chain author return)) s records = Inr s'"
    "plan_transaction lib (va_previous_commit s) = Inr previous" "va_count s \<noteq> 0"
  shows "\<exists>pairs. list_all2 (\<lambda>pair (c, r). pair_transactions lib pair c r \<and> spends_declared lib pair c) records pairs \<and>
    (\<forall>(c, r) \<in> set pairs. pair_ok lib chain author return c r) \<and> chained_commits lib (previous # map fst pairs) \<and>
    unat (va_total s) + amount previous 1 =
      unat (va_total s') + paid_back pairs + amount (last (previous # map fst pairs)) 1"
  using assms
proof (induction records arbitrary: s previous)
  case Nil
  then show ?case by (auto simp: paid_back_def)
next
  case (Cons pair records)
  from Cons.prems(1) obtain r s1 where r: "Validation_append lib s pair chain author return = Inr (r, s1)"
    and rest: "rfold (\<lambda>s pair. rmap snd (Validation_append lib s pair chain author return)) s1 records = Inr s'" by auto
  from Validation_append_step [OF r] Cons.prems(3) obtain prevouts commit reveal where
    step: "declared_funding lib pair = Inr prevouts" "pair_transactions lib pair commit reveal"
    "pair_ok lib chain author return commit reveal"
    "unat (va_total s) + inputs_worth prevouts = unat (va_total s1) + amount commit 1 + amount reveal 0"
    "va_previous_commit s1 = pp_commit pair" "unat (va_count s1) = unat (va_count s) + 1"
    "pp_funding pair = [\<lparr>fu_raw_transaction = va_previous_commit s, fu_vout = 1\<rparr>]"
    "spends_declared lib pair commit" "outpoints commit = map fst prevouts" by auto
  have worth: "inputs_worth prevouts = amount previous 1" "outpoints commit = [(e_txid (pl_env lib) previous, 1)]"
    using chained_worth [OF step(1,7) Cons.prems(2)] step(9) by simp_all
  have "plan_transaction lib (va_previous_commit s1) = Inr commit" using step(2,5) by (simp add: pair_transactions_def)
  moreover have "va_count s1 \<noteq> 0" using step(6) by (metis Suc_eq_plus1 nat.distinct(1) unat_0)
  ultimately obtain pairs where pairs: "list_all2 (\<lambda>pair (c, r). pair_transactions lib pair c r \<and> spends_declared lib pair c) records pairs"
    "\<forall>(c, r) \<in> set pairs. pair_ok lib chain author return c r" "chained_commits lib (commit # map fst pairs)"
    "unat (va_total s1) + amount commit 1 = unat (va_total s') + paid_back pairs + amount (last (commit # map fst pairs)) 1"
    using Cons.IH [OF rest] by blast
  have "list_all2 (\<lambda>pair (c, r). pair_transactions lib pair c r \<and> spends_declared lib pair c) (pair # records) ((commit, reveal) # pairs)"
    "\<forall>(c, r) \<in> set ((commit, reveal) # pairs). pair_ok lib chain author return c r"
    "chained_commits lib (previous # map fst ((commit, reveal) # pairs))"
    using pairs(1-3) step(2,3,8) worth(2) by simp_all
  moreover have "unat (va_total s) + amount previous 1 =
      unat (va_total s') + paid_back ((commit, reveal) # pairs) + amount (last (previous # map fst ((commit, reveal) # pairs))) 1"
    using pairs(4) step(4) worth(1) by (simp add: paid_back_def)
  ultimately show ?case by blast
qed

subsection \<open>A plan of two records\<close>

definition demo_input :: "bytes \<Rightarrow> u32 \<Rightarrow> bytes list \<Rightarrow> tx_in" where
  "demo_input txid vout ws = \<lparr>ti_txid = txid, ti_vout = vout, ti_script_sig = [], ti_witness = ws\<rparr>"

definition demo_commit :: "tx_in \<Rightarrow> u64 \<Rightarrow> transaction" where
  "demo_commit input change = \<lparr>tx_version = 2, tx_input = [input],
     tx_output = [\<lparr>to_value = 5000, to_script = [0x51, 0x20] @ ex_author\<rparr>, \<lparr>to_value = change, to_script = replicate 22 0\<rparr>]\<rparr>"

definition demo_reveal :: transaction where
  "demo_reveal = \<lparr>tx_version = 2, tx_input = [demo_input (replicate 32 1) 0 ex_witness],
     tx_output = [\<lparr>to_value = 1500, to_script = replicate 22 0\<rparr>]\<rparr>"

definition demo_signed :: "bytes list" where
  "demo_signed = [[], replicate 33 0]"

text \<open>Raw transactions are told apart by their length.\<close>

definition demo_plan_lib :: "unit plan_lib" where
  "demo_plan_lib = \<lparr>pl_env = ex_envelope_lib, pl_genesis_block = (\<lambda>c. [0]), pl_parse_hash = (\<lambda>s. Some []),
     pl_hash_text = (\<lambda>t. ''t''), pl_key_text = (\<lambda>k. ''a''), pl_hex_decode = (\<lambda>s. Some (replicate (length s) 0)),
     pl_deserialize = (\<lambda>b. Some
       (if length b = 1 then \<lparr>tx_version = 2, tx_input = [], tx_output = [\<lparr>to_value = 20000, to_script = replicate 22 0\<rparr>]\<rparr>
        else if length b = 2 then demo_commit (demo_input (replicate 32 0) 0 demo_signed) 10000
        else if length b = 3 then demo_commit (demo_input (replicate 32 1) 1 demo_signed) 3000
        else demo_reveal)),
     pl_weight = (\<lambda>t. 0), pl_ecdsa = (\<lambda>b. Some (b, True)), pl_public_key = (\<lambda>k. True), pl_p2wpkh = (\<lambda>k. replicate 22 0),
     pl_segwit_hash = (\<lambda>t i s v. Some []), pl_verify_ecdsa = (\<lambda>m s k. True)\<rparr>"

definition demo_plan :: publication_plan where
  "demo_plan = \<lparr>pb_version = 1, pb_chain = BitcoinRegtest, pb_author = ''a'', pb_return_script = replicate 22 CHR ''0'',
     pb_root_txid = ''t'', pb_total_fee = 14000, pb_maximum_fee = 15000,
     pb_records =
       [\<lparr>pp_version = 0, pp_chain = BitcoinRegtest, pp_funding = [\<lparr>fu_raw_transaction = ''f'', fu_vout = 0\<rparr>],
         pp_commit = ''cc'', pp_reveal = ''rrrr'', pp_fee_rate = 1\<rparr>,
        \<lparr>pp_version = 0, pp_chain = BitcoinRegtest, pp_funding = [\<lparr>fu_raw_transaction = ''cc'', fu_vout = 1\<rparr>],
         pp_commit = ''ddd'', pp_reveal = ''rrrr'', pp_fee_rate = 1\<rparr>]\<rparr>"

lemma demo_verified: "verify_reveal ex_envelope_lib demo_reveal (demo_commit input change) = Inr ex_envelope"
proof -
  have "extract_envelope ex_envelope_lib ex_witness = Inr ex_envelope"
    using extract_envelope_complete [OF ex_script_laws ex_envelope_of]
    by (simp add: ex_envelope_def ex_post_def RecordKind_prefix_def)
  then have "extract_reveal_envelope ex_envelope_lib demo_reveal = Inr ex_envelope"
    by (simp add: extract_reveal_envelope_def validate_reveal_shape_def validate_reveal_scripts_def demo_reveal_def demo_input_def
        ex_envelope_lib_def)
  then have "verify_record_proof ex_envelope_lib demo_reveal (demo_commit input change) = Inr ex_envelope"
    by (simp add: verify_record_proof_def verify_prevout_proof_def demo_reveal_def demo_commit_def demo_input_def ex_envelope_lib_def
        Let_def ex_witness_def ex_envelope_def ex_author_def slice_def context_res_def)
  then show ?thesis by (simp add: verify_reveal_def ex_envelope_def ex_post_valid)
qed

lemma demo_lib_env: "pl_env demo_plan_lib = ex_envelope_lib"
  by (simp add: demo_plan_lib_def)

lemma demo_transactions:
  "plan_transaction demo_plan_lib ''cc'' = Inr (demo_commit (demo_input (replicate 32 0) 0 demo_signed) 10000)"
  "plan_transaction demo_plan_lib ''ddd'' = Inr (demo_commit (demo_input (replicate 32 1) 1 demo_signed) 3000)"
  "plan_transaction demo_plan_lib ''rrrr'' = Inr demo_reveal"
  by (simp_all add: plan_transaction_eq_Inr decode_bounded_def demo_plan_lib_def)

lemma demo_prevouts:
  "prevout demo_plan_lib \<lparr>fu_raw_transaction = ''f'', fu_vout = 0\<rparr> = Inr ((replicate 32 0, 0), \<lparr>to_value = 20000, to_script = replicate 22 0\<rparr>)"
  "prevout demo_plan_lib \<lparr>fu_raw_transaction = ''cc'', fu_vout = 1\<rparr> = Inr ((replicate 32 1, 1), \<lparr>to_value = 10000, to_script = replicate 22 0\<rparr>)"
  by (simp_all add: prevout_def decode_bounded_def demo_plan_lib_def demo_commit_def demo_input_def ex_envelope_lib_def)

lemma demo_inputs:
  "verify_commit demo_plan_lib (demo_commit (demo_input txid vout demo_signed) change) [((txid, vout), \<lparr>to_value = v, to_script = replicate 22 0\<rparr>)] = Inr ()"
  by (simp add: verify_commit_def demo_commit_def demo_input_def demo_signed_def verify_input_def verify_p2wpkh_signature_def Let_def
      demo_plan_lib_def)

lemma demo_valid: "validate_plan demo_plan_lib demo_plan = Inr ()"
proof -
  have return: "return_script demo_plan_lib (replicate 22 CHR ''0'') = Inr (replicate 22 0)"
    by (simp add: return_script_def demo_plan_lib_def ex_envelope_lib_def)
  have lib: "pl_weight demo_plan_lib t = 0" "pl_key_text demo_plan_lib k = ''a''" "pl_hash_text demo_plan_lib k = ''t''"
    "Chain_genesis demo_plan_lib BitcoinRegtest = Inr [0]" for t k by (simp_all add: demo_plan_lib_def)
  have outs: "tx_output (demo_commit i c) ! 0 = \<lparr>to_value = 5000, to_script = [0x51, 0x20] @ ex_author\<rparr>"
    "tx_output (demo_commit i c) ! Suc 0 = \<lparr>to_value = c, to_script = replicate 22 0\<rparr>"
    "tx_output demo_reveal ! 0 = \<lparr>to_value = 1500, to_script = replicate 22 0\<rparr>" for i c
    by (simp_all add: demo_commit_def demo_reveal_def)
  show ?thesis
    by (simp add: validate_plan_def demo_plan_def return PLAN_MAX_RECORDS_def Validation_append_def Validation_new_def lib outs
        demo_transactions demo_prevouts demo_inputs demo_verified demo_lib_env verify_first_funding_def WALLET_MAX_INPUTS_def
        verify_chained_funding_def declared_funding_def verify_policy_def STANDARD_TX_WEIGHT_def funding_sum_def checked_add_def checked_sub_def
        Validation_finish_def VERSION_def)
qed

text \<open>
  C29: a validated plan spends what it declares and loses nothing but the fee it states. The plan contains
  its signed commits and reveals. Every commit spends exactly the coins its record declares, none twice,
  each with a signature over all outputs by the key the coin pays; the first commit spends the declared
  inputs, every later one only the change of the commit before it, and every reveal only a Taproot output
  of its commit. The value of the inputs is the total fee, plus what the reveals pay, plus the change of
  the last commit; every reveal and every change goes to the return script of the plan with at least the
  retained value, every reveal is signed by the author over its commit, and the fee is within the maximum
  the plan was approved for.
\<close>
theorem validated_plan_conserves_funds:
  assumes "validate_plan lib plan = Inr ()"
  shows "\<exists>inputs return pairs. declared_funding lib (hd (pb_records plan)) = Inr inputs \<and>
    return_script lib (pb_return_script plan) = Inr return \<and>
    list_all2 (\<lambda>pair (commit, reveal). pair_transactions lib pair commit reveal \<and> spends_declared lib pair commit) (pb_records plan) pairs \<and>
    outpoints (fst (hd pairs)) = map fst inputs \<and> chained_commits lib (map fst pairs) \<and>
    (\<forall>(commit, reveal) \<in> set pairs. pair_ok lib (pb_chain plan) (pb_author plan) return commit reveal) \<and>
    inputs_worth inputs = unat (pb_total_fee plan) + paid_back pairs + amount (fst (last pairs)) 1 \<and>
    pb_total_fee plan \<le> pb_maximum_fee plan"
proof -
  let ?step = "\<lambda>return s pair. rmap snd (Validation_append lib s pair (pb_chain plan) (pb_author plan) return)"
  let ?pair = "\<lambda>pair (c, r). pair_transactions lib pair c r \<and> spends_declared lib pair c"
  obtain return s where v: "pb_records plan \<noteq> []" "pb_total_fee plan \<le> pb_maximum_fee plan"
    "return_script lib (pb_return_script plan) = Inr return" "rfold (?step return) Validation_new (pb_records plan) = Inr s"
    "va_total s = pb_total_fee plan"
    using assms by (auto simp: validate_plan_def Validation_finish_def)
  obtain pair records where records: "pb_records plan = pair # records" using v(1) by (cases "pb_records plan") auto
  obtain r s1 where r: "Validation_append lib Validation_new pair (pb_chain plan) (pb_author plan) return = Inr (r, s1)"
    and rest: "rfold (?step return) s1 records = Inr s" using v(4) records by auto
  from Validation_append_step [OF r] obtain inputs commit reveal where
    step: "declared_funding lib pair = Inr inputs" "pair_transactions lib pair commit reveal"
    "pair_ok lib (pb_chain plan) (pb_author plan) return commit reveal"
    "inputs_worth inputs = unat (va_total s1) + amount commit 1 + amount reveal 0"
    "va_previous_commit s1 = pp_commit pair" "unat (va_count s1) = 1"
    "spends_declared lib pair commit" "outpoints commit = map fst inputs" by (auto simp: Validation_new_def)
  have "plan_transaction lib (va_previous_commit s1) = Inr commit" using step(2,5) by (simp add: pair_transactions_def)
  moreover have "va_count s1 \<noteq> 0" using step(6) by auto
  ultimately obtain pairs where pairs: "list_all2 ?pair records pairs"
    "\<forall>(c, r) \<in> set pairs. pair_ok lib (pb_chain plan) (pb_author plan) return c r" "chained_commits lib (commit # map fst pairs)"
    "unat (va_total s1) + amount commit 1 = unat (va_total s) + paid_back pairs + amount (last (commit # map fst pairs)) 1"
    using validation_fold [OF rest] by blast
  have last: "last (commit # map fst pairs) = fst (last ((commit, reveal) # pairs))" by (simp add: last_map)
  have "inputs_worth inputs = unat (pb_total_fee plan) + paid_back ((commit, reveal) # pairs) + amount (fst (last ((commit, reveal) # pairs))) 1"
    using step(4) pairs(4) v(5) unfolding last by (simp add: paid_back_def)
  moreover have "list_all2 ?pair (pb_records plan) ((commit, reveal) # pairs)"
    "\<forall>(c, r) \<in> set ((commit, reveal) # pairs). pair_ok lib (pb_chain plan) (pb_author plan) return c r"
    "chained_commits lib (map fst ((commit, reveal) # pairs))" "outpoints (fst (hd ((commit, reveal) # pairs))) = map fst inputs"
    using pairs(1-3) step(2,3,7,8) records by simp_all
  ultimately show ?thesis
    using v(2,3) step(1) records by (intro exI [of _ inputs] exI [of _ return] exI [of _ "(commit, reveal) # pairs"] conjI) simp_all
qed

theorem validated_plan_conserves_funds_witness:
  "\<exists>inputs pairs. declared_funding demo_plan_lib (hd (pb_records demo_plan)) = Inr inputs \<and>
     list_all2 (\<lambda>pair (commit, reveal). pair_transactions demo_plan_lib pair commit reveal \<and> spends_declared demo_plan_lib pair commit)
       (pb_records demo_plan) pairs \<and>
     outpoints (fst (hd pairs)) = map fst inputs \<and> chained_commits demo_plan_lib (map fst pairs) \<and>
     inputs_worth inputs = 14000 + paid_back pairs + amount (fst (last pairs)) 1"
  using validated_plan_conserves_funds [OF demo_valid] by (auto simp: demo_plan_def)

end
