(* ===== verification/Disk_Plan.thy ===== *)
theory Disk_Plan
  imports Publication_Safety Consistency
begin

section \<open>Plans on disk (\<^verbatim>\<open>urma-runtime/src/disk_plan.rs\<close>, \<^verbatim>\<open>disk_order.rs\<close>)\<close>

text \<open>
  A plan for a large object is a directory: the metadata, the signed pairs one after the other in
  \<^verbatim>\<open>records.bin\<close>, and their offsets and lengths in \<^verbatim>\<open>index.bin\<close>. Validation reads both files once, in
  order; publication later reads single pairs through the index. A file that cannot be opened or read
  has no content here, and the files do not change in between.
\<close>

subsection \<open>The order of the records\<close>

record order =
  or_consistency :: consistency
  or_leaves :: bool
  or_root :: bool

definition Order_new :: order where
  "Order_new = \<lparr>or_consistency = MultipartConsistency_new, or_leaves = False, or_root = False\<rparr>"

definition Order_append :: "(bytes \<Rightarrow> bytes) \<Rightarrow> order \<Rightarrow> bytes \<Rightarrow> bytes \<Rightarrow> rt_error + order" where
  "Order_append sha256 s bs txid =
     ensure (\<not> or_root s) (RtInvalid ''record follows publication root'')
    (rbind (map_err RtProtocol (RecordKind_parse bs)) (\<lambda>kind.
     ensure (kind = record_kind.DataPart \<longrightarrow> \<not> or_leaves s) (RtInvalid ''noncanonical data publication order'')
    (case accept sha256 (or_consistency s) bs txid of
       (Inl e, _) \<Rightarrow> Inl (RtProtocol e)
     | (Inr _, c) \<Rightarrow> Inr \<lparr>or_consistency = c, or_leaves = (or_leaves s \<or> kind = record_kind.LeafManifest),
                         or_root = (kind = record_kind.RootManifest)\<rparr>)))"

definition Order_finish :: "order \<Rightarrow> u32 \<Rightarrow> rt_error + unit" where
  "Order_finish s count =
     ensure (or_root s) (RtInvalid ''publication root or geometry missing'')
     (map_err RtProtocol (validate_count (or_consistency s) count))"

subsection \<open>The plan\<close>

record disk_plan =
  dk_version :: u8
  dk_chain :: chain
  dk_author :: string
  dk_return_script :: string
  dk_root_txid :: string
  dk_total_fee :: u64
  dk_maximum_fee :: u64
  dk_record_count :: u32
  dk_records_hash :: string
  dk_index_hash :: string

record disk_files =
  df_plan :: "bytes option"
  df_records :: "bytes option"
  df_index :: "bytes option"

text \<open>JSON of plans and pairs (\<open>serde\<close>) and hexadecimal text.\<close>

record 'info disk_lib =
  dl_plan :: "'info plan_lib"
  dl_hex :: "bytes \<Rightarrow> string"
  dl_plan_json :: "disk_plan \<Rightarrow> bytes"
  dl_parse_plan :: "bytes \<Rightarrow> disk_plan option"
  dl_parse_pair :: "bytes \<Rightarrow> public_plan option"

definition DISK_MAX_RECORDS :: u32 where "DISK_MAX_RECORDS = MAX_NODES"
definition MAX_PAIR_BYTES :: nat where "MAX_PAIR_BYTES = 2 * 1024 * 1024"

definition DiskPlan_from_metadata :: "publication_plan \<Rightarrow> u32 \<Rightarrow> string \<Rightarrow> string \<Rightarrow> disk_plan" where
  "DiskPlan_from_metadata metadata count records_hash index_hash =
     \<lparr>dk_version = 1, dk_chain = pb_chain metadata, dk_author = pb_author metadata, dk_return_script = pb_return_script metadata,
      dk_root_txid = pb_root_txid metadata, dk_total_fee = pb_total_fee metadata, dk_maximum_fee = pb_maximum_fee metadata,
      dk_record_count = count, dk_records_hash = records_hash, dk_index_hash = index_hash\<rparr>"

definition DiskPlan_id :: "'info disk_lib \<Rightarrow> disk_plan \<Rightarrow> string" where
  "DiskPlan_id lib plan = dl_hex lib (e_sha256 (pl_env (dl_plan lib)) (dl_plan_json lib plan))"

definition file_digest :: "'info disk_lib \<Rightarrow> bytes \<Rightarrow> string" where
  "file_digest lib content = dl_hex lib (e_sha256 (pl_env (dl_plan lib)) content)"

text \<open>\<open>read_exact\<close>: the bytes and the rest.\<close>

definition take_exact :: "nat \<Rightarrow> bytes \<Rightarrow> rt_error + bytes \<times> bytes" where
  "take_exact n content = (if length content < n then Inl RtIo else Inr (take n content, drop n content))"

definition read_index :: "bytes \<Rightarrow> rt_error + (u64 \<times> u32) \<times> bytes" where
  "read_index content =
     rbind (take_exact 8 content) (\<lambda>(offset, c1).
     rbind (take_exact 4 c1) (\<lambda>(len, c2).
     Inr ((from_le_bytes offset, from_le_bytes len), c2)))"

definition read_pair :: "'info disk_lib \<Rightarrow> bytes \<Rightarrow> u32 \<Rightarrow> rt_error + public_plan \<times> bytes" where
  "read_pair lib content len =
     ensure (0 < len \<and> unat len \<le> MAX_PAIR_BYTES) (RtInvalid ''disk plan record exceeds capacity'')
    (rbind (take_exact (unat len) content) (\<lambda>(bs, rest).
     rbind (ok_or RtJson (dl_parse_pair lib bs)) (\<lambda>pair. Inr (pair, rest))))"

definition DiskPlan_record :: "'info disk_lib \<Rightarrow> disk_files \<Rightarrow> disk_plan \<Rightarrow> u32 \<Rightarrow> rt_error + public_plan" where
  "DiskPlan_record lib files plan index =
     ensure (index < dk_record_count plan) (RtInvalid ''record index exceeds plan'')
    (rbind (ok_or RtIo (df_index files)) (\<lambda>offsets.
     rbind (read_index (drop (unat index * 12) offsets)) (\<lambda>((offset, len), _).
     rbind (ok_or RtIo (df_records files)) (\<lambda>records.
     rmap fst (read_pair lib (drop (unat offset) records) len)))))"

text \<open>The loop over the records: the rest of both files, the offset, the state and the order.\<close>

fun validate_records ::
  "'info disk_lib \<Rightarrow> disk_plan \<Rightarrow> bytes \<Rightarrow> nat \<Rightarrow> bytes \<times> bytes \<times> u64 \<times> validation \<times> order \<Rightarrow> rt_error + u64 \<times> validation \<times> order" where
  "validate_records lib plan return 0 (index, records, offset, s, ord) = Inr (offset, s, ord)"
| "validate_records lib plan return (Suc n) (index, records, offset, s, ord) =
     rbind (read_index index) (\<lambda>((actual, len), index').
     ensure (actual = offset) (RtInvalid ''noncanonical disk plan offset'')
    (rbind (read_pair lib records len) (\<lambda>(pair, records').
     rbind (Validation_append (dl_plan lib) s pair (dk_chain plan) (dk_author plan) return) (\<lambda>(bs, s').
     rbind (last_txid (dl_plan lib) s') (\<lambda>txid.
     rbind (Order_append (e_sha256 (pl_env (dl_plan lib))) ord bs txid) (\<lambda>ord'.
     rbind (rt_context_opt ''disk plan offset overflow'' (checked_add offset (ucast len))) (\<lambda>offset'.
     validate_records lib plan return n (index', records', offset', s', ord'))))))))"

definition DiskPlan_validate :: "'info disk_lib \<Rightarrow> disk_files \<Rightarrow> disk_plan \<Rightarrow> rt_error + unit" where
  "DiskPlan_validate lib files plan =
     ensure (dk_version plan = 1 \<and> 0 < dk_record_count plan \<and> dk_record_count plan \<le> DISK_MAX_RECORDS)
       (RtInvalid ''invalid disk plan version or record count'')
    (ensure (0 < dk_maximum_fee plan \<and> dk_total_fee plan \<le> dk_maximum_fee plan) (RtInvalid ''plan fee budget exceeded'')
    (rbind (ok_or RtIo (df_index files)) (\<lambda>index.
     rbind (ok_or RtIo (df_records files)) (\<lambda>records.
     ensure (length records \<le> unat (dk_record_count plan) * MAX_PAIR_BYTES) (RtInvalid ''disk plan exceeds bounded record capacity'')
    (ensure (length index = unat (dk_record_count plan) * 12) (RtInvalid ''invalid disk plan index length'')
    (ensure (file_digest lib index = dk_index_hash plan \<and> file_digest lib records = dk_records_hash plan)
       (RtInvalid ''disk plan digest mismatch'')
    (rbind (return_script (dl_plan lib) (dk_return_script plan)) (\<lambda>return.
     rbind (validate_records lib plan return (unat (dk_record_count plan)) (index, records, 0, Validation_new, Order_new)) (\<lambda>(offset, s, ord).
     ensure (unat offset = length records) (RtInvalid ''trailing disk plan bytes'')
    (rbind (Order_finish ord (dk_record_count plan)) (\<lambda>_.
     Validation_finish s (dk_total_fee plan) (dk_root_txid plan))))))))))))"

definition DiskPlan_load :: "'info disk_lib \<Rightarrow> disk_files \<Rightarrow> rt_error + disk_plan" where
  "DiskPlan_load lib files =
     rbind (ok_or (RtContext ''open'' RtIo) (df_plan files)) (\<lambda>content.
     rbind (map_err rt_of_io (read_into True 16384 content)) (\<lambda>bs.
     rbind (ok_or RtJson (dl_parse_plan lib bs)) (\<lambda>plan.
     rbind (DiskPlan_validate lib files plan) (\<lambda>_. Inr plan))))"

end
