(* ===== verification/Disk_Publish.thy ===== *)
theory Disk_Publish
  imports Publish Disk_Plan "HOL-Library.AList"
begin

section \<open>Publishing a plan on disk (\<^verbatim>\<open>urma-runtime/src/disk_publish.rs\<close>, \<^verbatim>\<open>disk_journal.rs\<close>, \<^verbatim>\<open>publication_progress.rs\<close>)\<close>

text \<open>
  A large plan is published over many passes. A pass first looks up every transaction of the plan and
  then submits those that may go out: a commit after its parent, within a budget of unconfirmed
  weight, and a reveal when its commit is confirmed and the records it refers to are out. Before a
  transaction is sent for the first time an observation is appended to a log, which is read back at
  the start of the next pass. Weights are natural numbers; a transaction weighs at most a few million
  units and a plan has at most 32695 pairs, so the sums of the code do not wrap.
\<close>

datatype pub_state = Prepared | MissingTx | Mempool | Confirmed | SourceUnavailable string

record tx_observation =
  ob_txid :: string
  ob_role :: string
  ob_state :: pub_state

record progress =
  pg_report :: publish_report
  pg_total :: nat
  pg_observations :: "tx_observation list"
  pg_retryable :: bool

datatype pub_target = TargetMempool | TargetConfirmed

definition reached :: "progress \<Rightarrow> pub_target \<Rightarrow> bool" where
  "reached p target \<longleftrightarrow> length (pg_observations p) = pg_total p \<and>
     list_all (\<lambda>o'. case target of TargetConfirmed \<Rightarrow> ob_state o' = Confirmed
       | TargetMempool \<Rightarrow> ob_state o' = Mempool \<or> ob_state o' = Confirmed) (pg_observations p)"

fun pub_state_of :: "presence \<Rightarrow> bool \<Rightarrow> pub_state" where
  "pub_state_of (Included _ _) attempted = Confirmed"
| "pub_state_of InMempool attempted = Mempool"
| "pub_state_of Absent attempted = (if attempted then MissingTx else Prepared)"

text \<open>What a publisher works with.\<close>

record ('info, 's) publisher =
  pu_lib :: "'info publish_lib"
  pu_disk :: "'info disk_lib"
  pu_files :: "'s pub_files"
  pu_disk_files :: disk_files
  pu_node :: "'s node"
  pu_line_json :: "publish_report \<Rightarrow> bytes" \<comment> \<open>JSON of an observation, without the line end\<close>
  pu_parse_line :: "bytes \<Rightarrow> publish_report option" \<comment> \<open>the report of a line\<close>
  pu_notify :: "progress \<Rightarrow> 's \<Rightarrow> (rt_error + unit) \<times> 's" \<comment> \<open>the caller's progress callback\<close>
  pu_guard :: "'s \<Rightarrow> (rt_error + unit) \<times> 's" \<comment> \<open>\<open>disk_journal::guard\<close>: the paths are distinct files\<close>

type_synonym history = "(string \<times> presence) list"

subsection \<open>The log of observations\<close>

definition NEWLINE :: u8 where "NEWLINE = 10"
definition LINE_LIMIT :: nat where "LINE_LIMIT = 1024 * 1024"

text \<open>\<open>read_until\<close>: the next line with its end, if it has one.\<close>

definition line_of :: "bytes \<Rightarrow> bytes" where
  "line_of content = (let line = takeWhile (\<lambda>b. b \<noteq> NEWLINE) content in
     if length line < length content then line @ [NEWLINE] else line)"

lemma line_of_nonempty: "content \<noteq> [] \<Longrightarrow> 0 < length (line_of content)"
  by (cases content) (auto simp: line_of_def Let_def)

definition insert_status :: "history \<Rightarrow> transaction_status \<Rightarrow> history" where
  "insert_status h row = AList.update (ts_txid row) (ts_presence row) h"

function (sequential) history_lines ::
  "('info, 's) publisher \<Rightarrow> string \<Rightarrow> bytes \<Rightarrow> history \<Rightarrow> rt_error + history" where
  "history_lines pu plan_id [] h = Inr h"
| "history_lines pu plan_id content h =
     (let line = line_of content; count = min (length line) LINE_LIMIT in
      ensure (count < LINE_LIMIT) (RtInvalid ''observation exceeds journal capacity'')
     (if last line \<noteq> NEWLINE then Inr h
      else
        rbind (ok_or RtJson (pu_parse_line pu line)) (\<lambda>report.
        ensure (rp_plan_id report = plan_id) (RtInvalid ''observations belong to another plan'')
       (let h' = foldl insert_status h (rp_transactions report) in
        ensure (length h' \<le> unat DISK_MAX_RECORDS * 2) (RtInvalid ''observation transaction capacity exceeded'')
        (history_lines pu plan_id (drop (length line) content) h')))))"
  by pat_completeness auto
termination
proof (relation "measure (\<lambda>(_, _, content, _). length content)", goal_cases)
  case (2 pu plan_id b content h line count report h')
  have "0 < length (line_of (b # content))" by (rule line_of_nonempty) simp
  then show ?case using 2 by simp
qed simp

definition journal_rows :: "publish_report \<Rightarrow> history" where
  "journal_rows report = foldl insert_status [] (filter (\<lambda>row. ts_presence row \<noteq> Absent) (rp_transactions report))"

definition file_exists :: "'s pub_files \<Rightarrow> bool \<Rightarrow> ('s, bool) node_act" where
  "file_exists files present = (\<lambda>w. case pf_exists files (w_state (bw_world w)) of
     (told, s') \<Rightarrow> (if told then Inr present else Inl RtIo, w\<lparr>bw_world := (bw_world w)\<lparr>w_state := s'\<rparr>\<rparr>))"

definition read_history :: "('info, 's) publisher \<Rightarrow> string \<Rightarrow> ('s, history) node_act" where
  "read_history pu plan_id =
     ibind (\<lambda>w. file_exists (pu_files pu) (w_file (bw_world w) \<noteq> None) w) (\<lambda>journal.
     ibind (if journal then
              ibind (on_world (imap_err rt_of_io (read_bounded (pf_fs (pu_files pu)) 1048576))) (\<lambda>bs.
              ibind (ilift (ok_or RtJson (ul_parse_report (pu_lib pu) bs))) (\<lambda>report.
              ibind (icheck (rp_plan_id report = plan_id) (RtInvalid ''journal belongs to another plan'')) (\<lambda>_.
              iret (journal_rows report))))
            else iret []) (\<lambda>h.
     ibind (\<lambda>w. file_exists (pu_files pu) (bw_log w \<noteq> None) w) (\<lambda>observations.
     if observations then
       (\<lambda>w. case pf_log_read (pu_files pu) (w_state (bw_world w)) of
          (readable, s') \<Rightarrow>
            (if readable then history_lines pu plan_id (case bw_log w of None \<Rightarrow> [] | Some c \<Rightarrow> c) h else Inl RtIo,
             w\<lparr>bw_world := (bw_world w)\<lparr>w_state := s'\<rparr>\<rparr>))
     else iret h)))"

text \<open>
  \<open>observe\<close>: append one line, in a file that is made when it is absent. A failure to open it leaves the
  log as it was, a later one the beginning of the line.
\<close>

definition observe :: "('info, 's) publisher \<Rightarrow> publish_report \<Rightarrow> ('s, unit) node_act" where
  "observe pu report = (\<lambda>w.
     let bs = pu_line_json pu report @ [NEWLINE];
         old = (case bw_log w of None \<Rightarrow> [] | Some c \<Rightarrow> c);
         (failure, s') = pf_append (pu_files pu) (w_state (bw_world w)) bs;
         w' = w\<lparr>bw_world := (bw_world w)\<lparr>w_state := s'\<rparr>\<rparr>
     in case failure of
          None \<Rightarrow> (Inr (), w'\<lparr>bw_log := Some (old @ bs)\<rparr>)
        | Some (None, e) \<Rightarrow> (Inl e, w')
        | Some (Some n, e) \<Rightarrow> (Inl e, w'\<lparr>bw_log := Some (old @ take n bs)\<rparr>))"

subsection \<open>A pass\<close>

record session =
  se_history :: history
  se_blocks :: block_cache
  se_progress :: progress

type_synonym ('s, 'a) session_act = "session \<Rightarrow> ('s, session \<times> 'a) node_act"

definition blocked :: "session \<Rightarrow> string \<Rightarrow> session" where
  "blocked se reason =
     se\<lparr>se_progress := (se_progress se)\<lparr>pg_report := (pg_report (se_progress se))\<lparr>rp_blocked_reason := reason\<rparr>\<rparr>\<rparr>"

definition set_retryable :: "session \<Rightarrow> bool \<Rightarrow> session" where
  "set_retryable se b = se\<lparr>se_progress := (se_progress se)\<lparr>pg_retryable := b\<rparr>\<rparr>"

definition push_observation :: "session \<Rightarrow> string \<Rightarrow> string \<Rightarrow> pub_state \<Rightarrow> session" where
  "push_observation se txid role st =
     se\<lparr>se_progress := (se_progress se)\<lparr>pg_observations :=
       pg_observations (se_progress se) @ [\<lparr>ob_txid = txid, ob_role = role, ob_state = st\<rparr>]\<rparr>\<rparr>"

definition push_status :: "session \<Rightarrow> string \<Rightarrow> presence \<Rightarrow> session" where
  "push_status se txid p =
     se\<lparr>se_progress := (se_progress se)\<lparr>pg_report := report_status (pg_report (se_progress se)) txid p\<rparr>\<rparr>"

abbreviation blocked_reason :: "session \<Rightarrow> string" where
  "blocked_reason se \<equiv> rp_blocked_reason (pg_report (se_progress se))"

abbreviation retryable :: "session \<Rightarrow> bool" where
  "retryable se \<equiv> pg_retryable (se_progress se)"

definition remember :: "('info, 's) publisher \<Rightarrow> string \<Rightarrow> presence \<Rightarrow> session \<Rightarrow> ('s, session) node_act" where
  "remember pu txid p se =
     (if map_of (se_history se) txid = Some p then iret se
      else
        ibind (observe pu ((pg_report (se_progress se))\<lparr>rp_transactions := [\<lparr>ts_txid = txid, ts_presence = p\<rparr>]\<rparr>)) (\<lambda>_.
        iret (se\<lparr>se_history := AList.update txid p (se_history se)\<rparr>)))"

text \<open>Sending an eligible transaction that is missing: the new presence.\<close>

definition send_missing :: "('info, 's) publisher \<Rightarrow> string \<Rightarrow> bytes \<Rightarrow> ('s, presence) session_act" where
  "send_missing pu raw txid se =
     ibind (remember pu (pl_hash_text (ul_plan (pu_lib pu)) txid) Absent se) (\<lambda>se1.
     ibind (broadcast (pu_lib pu) (pu_node pu) raw) (\<lambda>reason.
     if reason = [] then
       ibind (presence_cached (ul_plan (pu_lib pu)) (pu_node pu) txid (se_blocks se1)) (\<lambda>(p, blocks).
       let se2 = se1\<lparr>se_blocks := blocks\<rparr> in
       iret (if p = Absent then blocked se2 ''submission not yet observable; waiting before spending its change'' else se2, p))
     else
       iret (blocked (set_retryable se1 (reason = ''mempool full'')) (reason @ ''; approved fees unchanged''), Absent)))"

definition transaction_pass ::
  "('info, 's) publisher \<Rightarrow> bool \<Rightarrow> string \<Rightarrow> string \<Rightarrow> bool \<Rightarrow> ('s, pub_state) session_act" where
  "transaction_pass pu submitting raw role eligible se =
     ibind (ilift (decode_tx (ul_plan (pu_lib pu)) raw TX_HEX_LIMIT)) (\<lambda>tx.
     let txid = e_txid (pl_env (ul_plan (pu_lib pu))) tx; text = pl_hash_text (ul_plan (pu_lib pu)) txid in
     (\<lambda>w. case presence_cached (ul_plan (pu_lib pu)) (pu_node pu) txid (se_blocks se) w of
       (Inl e, w') \<Rightarrow>
         let st = SourceUnavailable (ul_error_text (pu_lib pu) e) in
         (Inr (set_retryable (blocked (push_observation se text role st)
                 (''source unavailable: '' @ ul_error_text (pu_lib pu) e)) False, st), w')
     | (Inr (p, blocks), w') \<Rightarrow>
         ibind (if eligible \<and> p = Absent then send_missing pu raw txid (se\<lparr>se_blocks := blocks\<rparr>)
                else iret (se\<lparr>se_blocks := blocks\<rparr>, p)) (\<lambda>(se1, p1).
         let attempted = map_of (se_history se1) text \<noteq> None; st = pub_state_of p1 attempted in
         ibind (if submitting \<and> (attempted \<or> p1 \<noteq> Absent) then remember pu text p1 se1 else iret se1) (\<lambda>se2.
         iret (push_observation (push_status se2 text p1) text role st, st))) w'))"

definition record_of_pair :: "('info, 's) publisher \<Rightarrow> public_plan \<Rightarrow> rt_error + multipart_record" where
  "record_of_pair pu pair =
     rbind (decode_tx (ul_plan (pu_lib pu)) (pp_commit pair) TX_HEX_LIMIT) (\<lambda>commit.
     rbind (decode_tx (ul_plan (pu_lib pu)) (pp_reveal pair) TX_HEX_LIMIT) (\<lambda>reveal.
     let env = pl_env (ul_plan (pu_lib pu)) in
     rbind (map_err RtProtocol (VerifiedRecord_verify env (e_txid env reveal) reveal commit)) (\<lambda>v.
     map_err RtProtocol (VerifiedRecord_decode v))))"

record buffered_pair =
  bp_role :: string
  bp_commit_weight :: nat
  bp_reveal_weight :: nat

fun role_of :: "multipart_record \<Rightarrow> string" where
  "role_of (Data _) = ''data''"
| "role_of (Leaf _) = ''leaf''"
| "role_of (Root _) = ''root''"

definition notify :: "('info, 's) publisher \<Rightarrow> session \<Rightarrow> ('s, unit) node_act" where
  "notify pu se = on_state (pu_notify pu (se_progress se))"

text \<open>The loop over the records, from \<open>index\<close> on with \<open>n\<close> records left.\<close>

fun inventory_pairs :: "('info, 's) publisher \<Rightarrow> bool \<Rightarrow> disk_plan \<Rightarrow> nat \<Rightarrow> nat \<Rightarrow> session \<Rightarrow> buffered_pair list \<Rightarrow>
    ('s, session \<times> buffered_pair list) node_act" where
  "inventory_pairs pu submitting plan index 0 se pairs = iret (se, pairs)"
| "inventory_pairs pu submitting plan index (Suc n) se pairs =
     ibind (notify pu se) (\<lambda>_.
     ibind (ilift (DiskPlan_record (pu_disk pu) (pu_disk_files pu) plan (word_of_nat index))) (\<lambda>pair.
     ibind (ilift (rmap role_of (record_of_pair pu pair))) (\<lambda>role.
     ibind (ilift (decode_tx (ul_plan (pu_lib pu)) (pp_commit pair) TX_HEX_LIMIT)) (\<lambda>commit.
     ibind (ilift (decode_tx (ul_plan (pu_lib pu)) (pp_reveal pair) TX_HEX_LIMIT)) (\<lambda>reveal.
     let pairs' = pairs @ [\<lparr>bp_role = role, bp_commit_weight = unat (pl_weight (ul_plan (pu_lib pu)) commit),
                            bp_reveal_weight = unat (pl_weight (ul_plan (pu_lib pu)) reveal)\<rparr>] in
     ibind (transaction_pass pu submitting (pp_commit pair) ''commit'' False se) (\<lambda>(se1, _).
     if \<not> retryable se1 then iret (se1, pairs')
     else
       ibind (transaction_pass pu submitting (pp_reveal pair) role False se1) (\<lambda>(se2, _).
       if \<not> retryable se2 then iret (se2, pairs')
       else inventory_pairs pu submitting plan (Suc index) n se2 pairs')))))))"

definition inventory_pass :: "('info, 's) publisher \<Rightarrow> bool \<Rightarrow> disk_plan \<Rightarrow> ('s, buffered_pair list) session_act" where
  "inventory_pass pu submitting plan se =
     (let cleared = se\<lparr>se_progress := (se_progress se)\<lparr>pg_report := (pg_report (se_progress se))\<lparr>rp_transactions := []\<rparr>\<rparr>\<rparr> in
      ibind (inventory_pairs pu submitting plan 0 (unat (dk_record_count plan)) cleared []) (\<lambda>(se', pairs).
      ibind (notify pu se') (\<lambda>_. iret (se', pairs))))"

subsection \<open>The budget of unconfirmed weight\<close>

definition PUBLICATION_BUFFER_WEIGHT :: nat where "PUBLICATION_BUFFER_WEIGHT = 7960000"
definition PUBLICATION_PENDING_COMMITS :: nat where "PUBLICATION_PENDING_COMMITS = 24"
definition PUBLICATION_COMMIT_VBYTES :: nat where "PUBLICATION_COMMIT_VBYTES = 90000"

record buffer =
  bf_weight :: nat
  bf_broadcast_weight :: nat
  bf_commits :: nat
  bf_commit_vbytes :: nat

definition buffer_pair :: "buffer \<Rightarrow> buffered_pair \<Rightarrow> pub_state \<Rightarrow> pub_state \<Rightarrow> buffer" where
  "buffer_pair b pair commit reveal =
     (let b1 = (if commit = Mempool then
            b\<lparr>bf_weight := bf_weight b + bp_commit_weight pair,
              bf_broadcast_weight := bf_broadcast_weight b + bp_commit_weight pair,
              bf_commits := bf_commits b + 1,
              bf_commit_vbytes := bf_commit_vbytes b + div_ceil (bp_commit_weight pair) 4\<rparr> else b);
          b2 = (if reveal = Mempool then b1\<lparr>bf_broadcast_weight := bf_broadcast_weight b1 + bp_reveal_weight pair\<rparr> else b1)
      in if reveal \<noteq> Confirmed \<and> (commit = Confirmed \<or> commit = Mempool \<or> reveal = Mempool)
         then b2\<lparr>bf_weight := bf_weight b2 + bp_reveal_weight pair\<rparr> else b2)"

fun buffer_loop :: "buffer \<Rightarrow> buffered_pair list \<Rightarrow> tx_observation list \<Rightarrow> buffer" where
  "buffer_loop b (pair # pairs) (c # r # observations) = buffer_loop (buffer_pair b pair (ob_state c) (ob_state r)) pairs observations"
| "buffer_loop b _ _ = b"

definition Buffer_new :: "buffered_pair list \<Rightarrow> tx_observation list \<Rightarrow> buffer" where
  "Buffer_new pairs observations =
     buffer_loop \<lparr>bf_weight = 0, bf_broadcast_weight = 0, bf_commits = 0, bf_commit_vbytes = 0\<rparr> pairs observations"

definition admits :: "buffer \<Rightarrow> buffered_pair \<Rightarrow> bool" where
  "admits b pair \<longleftrightarrow> bf_commits b < PUBLICATION_PENDING_COMMITS \<and>
     bf_commit_vbytes b + div_ceil (bp_commit_weight pair) 4 \<le> PUBLICATION_COMMIT_VBYTES \<and>
     bf_weight b + bp_commit_weight pair + bp_reveal_weight pair \<le> PUBLICATION_BUFFER_WEIGHT"

definition buffer_add :: "buffer \<Rightarrow> buffered_pair \<Rightarrow> buffer" where
  "buffer_add b pair = b\<lparr>bf_commits := bf_commits b + 1,
     bf_commit_vbytes := bf_commit_vbytes b + div_ceil (bp_commit_weight pair) 4,
     bf_weight := bf_weight b + bp_commit_weight pair + bp_reveal_weight pair,
     bf_broadcast_weight := bf_broadcast_weight b + bp_commit_weight pair\<rparr>"

subsection \<open>Submitting\<close>

text \<open>The inventory has observed both transactions of every pair, so the offsets are in range.\<close>

definition submit_record :: "('info, 's) publisher \<Rightarrow> disk_plan \<Rightarrow> nat \<Rightarrow> nat \<Rightarrow> bool \<Rightarrow> ('s, pub_state) session_act" where
  "submit_record pu plan index offset is_commit se =
     ibind (ilift (DiskPlan_record (pu_disk pu) (pu_disk_files pu) plan (word_of_nat index))) (\<lambda>pair.
     let role = ob_role (pg_observations (se_progress se) ! offset);
         raw = (if is_commit then pp_commit pair else pp_reveal pair) in
     ibind (transaction_pass pu True raw role True se) (\<lambda>(se', st).
     let kept = butlast (pg_observations (se_progress se'));
         observations = kept[offset := (kept ! offset)\<lparr>ob_state := st\<rparr>] in
     iret (se'\<lparr>se_progress := (se_progress se')\<lparr>pg_observations := observations\<rparr>\<rparr>, st)))"

record walk_state =
  ws_session :: session
  ws_buffer :: buffer
  ws_data :: bool
  ws_leaves :: bool
  ws_parent :: bool
  ws_limited :: bool

definition is_open :: "pub_state \<Rightarrow> bool" where
  "is_open st \<longleftrightarrow> st = Prepared \<or> st = MissingTx"

definition is_out :: "pub_state \<Rightarrow> bool" where
  "is_out st \<longleftrightarrow> st = Confirmed \<or> st = Mempool"

abbreviation observed_state :: "session \<Rightarrow> nat \<Rightarrow> pub_state" where
  "observed_state se offset \<equiv> ob_state (pg_observations (se_progress se) ! offset)"

definition walk_commit ::
  "('info, 's) publisher \<Rightarrow> disk_plan \<Rightarrow> nat \<Rightarrow> buffered_pair \<Rightarrow> walk_state \<Rightarrow> ('s, walk_state \<times> pub_state) node_act" where
  "walk_commit pu plan index pair ws =
     (let commit = observed_state (ws_session ws) (index * 2) in
      if is_open commit \<and> ws_parent ws then
        if admits (ws_buffer ws) pair \<and> blocked_reason (ws_session ws) = [] then
          ibind (submit_record pu plan index (index * 2) True (ws_session ws)) (\<lambda>(se, st).
          iret (ws\<lparr>ws_session := se, ws_buffer := (if st = Mempool then buffer_add (ws_buffer ws) pair else ws_buffer ws)\<rparr>, st))
        else iret (ws\<lparr>ws_limited := True\<rparr>, commit)
      else iret (ws, commit))"

definition dependencies :: "buffered_pair \<Rightarrow> walk_state \<Rightarrow> bool" where
  "dependencies pair ws =
     (if bp_role pair = ''leaf'' then ws_data ws
      else if bp_role pair = ''root'' then ws_data ws \<and> ws_leaves ws else True)"

definition walk_reveal ::
  "('info, 's) publisher \<Rightarrow> disk_plan \<Rightarrow> nat \<Rightarrow> buffered_pair \<Rightarrow> pub_state \<Rightarrow> walk_state \<Rightarrow> ('s, walk_state \<times> pub_state) node_act" where
  "walk_reveal pu plan index pair commit ws =
     (let reveal = observed_state (ws_session ws) (index * 2 + 1) in
      if commit = Confirmed \<and> dependencies pair ws \<and> retryable (ws_session ws) \<and> blocked_reason (ws_session ws) = [] \<and> is_open reveal then
        if bf_broadcast_weight (ws_buffer ws) + bp_reveal_weight pair \<le> PUBLICATION_BUFFER_WEIGHT then
          ibind (submit_record pu plan index (index * 2 + 1) False (ws_session ws)) (\<lambda>(se, st).
          iret (ws\<lparr>ws_session := se, ws_buffer := (if st = Mempool
            then (ws_buffer ws)\<lparr>bf_broadcast_weight := bf_broadcast_weight (ws_buffer ws) + bp_reveal_weight pair\<rparr> else ws_buffer ws)\<rparr>, st))
        else iret (ws\<lparr>ws_limited := True\<rparr>, reveal)
      else iret (ws, reveal))"

text \<open>One round of the loop.\<close>

definition walk_pair :: "('info, 's) publisher \<Rightarrow> disk_plan \<Rightarrow> nat \<Rightarrow> buffered_pair \<Rightarrow> walk_state \<Rightarrow> ('s, walk_state) node_act" where
  "walk_pair pu plan index pair ws =
     ibind (notify pu (ws_session ws)) (\<lambda>_.
     ibind (walk_commit pu plan index pair ws) (\<lambda>(ws1, commit).
     ibind (walk_reveal pu plan index pair commit (ws1\<lparr>ws_parent := is_out commit\<rparr>)) (\<lambda>(ws2, reveal).
     let ws3 = ws2\<lparr>ws_data := (if bp_role pair = ''data'' then ws_data ws2 \<and> is_out reveal else ws_data ws2),
                   ws_leaves := (if bp_role pair = ''leaf'' then ws_leaves ws2 \<and> is_out reveal else ws_leaves ws2)\<rparr> in
     ibind (notify pu (ws_session ws3)) (\<lambda>_. iret ws3))))"

fun walk_loop :: "('info, 's) publisher \<Rightarrow> disk_plan \<Rightarrow> nat \<Rightarrow> buffered_pair list \<Rightarrow> walk_state \<Rightarrow> ('s, walk_state) node_act" where
  "walk_loop pu plan index [] ws = iret ws"
| "walk_loop pu plan index (pair # pairs) ws =
     ibind (walk_pair pu plan index pair ws) (\<lambda>ws'.
     if \<not> retryable (ws_session ws') \<or> blocked_reason (ws_session ws') \<noteq> [] then iret ws'
     else walk_loop pu plan (Suc index) pairs ws')"

definition BUFFER_FULL :: string where
  "BUFFER_FULL = ''Publication buffer full; waiting for blockchain confirmation. Publication continues automatically while watching; no user input needed.''"

definition CHAIN_CHANGED :: string where
  "CHAIN_CHANGED = ''chain changed during reconciliation; waiting for fresh observations''"

definition submit_pairs :: "('info, 's) publisher \<Rightarrow> disk_plan \<Rightarrow> buffered_pair list \<Rightarrow> session \<Rightarrow> ('s, session) node_act" where
  "submit_pairs pu plan pairs se =
     ibind (walk_loop pu plan 0 pairs
       \<lparr>ws_session = se, ws_buffer = Buffer_new pairs (pg_observations (se_progress se)),
        ws_data = True, ws_leaves = True, ws_parent = True, ws_limited = False\<rparr>) (\<lambda>ws.
     let se' = ws_session ws in
     iret (if ws_limited ws \<and> blocked_reason se' = [] then blocked se' BUFFER_FULL else se'))"

definition walk ::
  "('info, 's) publisher \<Rightarrow> bool \<Rightarrow> disk_plan \<Rightarrow> u64 \<times> string \<Rightarrow> session \<Rightarrow> ('s, session) node_act" where
  "walk pu submitting plan anchor se =
     ibind (inventory_pass pu submitting plan se) (\<lambda>(se', pairs).
     if \<not> submitting \<or> \<not> retryable se' then iret se'
     else
       ibind (node_block_hash (ul_plan (pu_lib pu)) (pu_node pu) (fst anchor)) (\<lambda>current.
       if pl_hash_text (ul_plan (pu_lib pu)) current \<noteq> snd anchor then iret (blocked se' CHAIN_CHANGED)
       else submit_pairs pu plan pairs se'))"

text \<open>After the walk: observations of a chain that has changed are dropped, and the outcome is stated.\<close>

definition conclude :: "bool \<Rightarrow> bool \<Rightarrow> progress \<Rightarrow> progress" where
  "conclude submitting moved p =
     (let p1 = (if moved then p\<lparr>pg_observations := [], pg_report := (pg_report p)\<lparr>rp_transactions := [], rp_blocked_reason := CHAIN_CHANGED\<rparr>\<rparr> else p);
          complete = reached p1 TargetConfirmed;
          report = (pg_report p1)\<lparr>rp_complete := complete, rp_confirmed := complete\<rparr>;
          reason = (if submitting then ''awaiting confirmations; eligible transactions will be reconciled on the next pass''
                    else ''read-only watch; prepared or missing transactions require publish/resume in another process'')
      in p1\<lparr>pg_report := (if \<not> complete \<and> rp_blocked_reason report = [] then report\<lparr>rp_blocked_reason := reason\<rparr> else report)\<rparr>)"

definition reconcile :: "('info, 's) publisher \<Rightarrow> bool \<Rightarrow> disk_plan \<Rightarrow> ('s, progress) node_act" where
  "reconcile pu submitting plan =
     (let lib = ul_plan (pu_lib pu); node = pu_node pu in
     ibind (ilift (DiskPlan_validate (pu_disk pu) (pu_disk_files pu) plan)) (\<lambda>_.
     ibind (verify_network lib node) (\<lambda>_.
     ibind (require_txindex lib node) (\<lambda>_.
     ibind (ilift (Chain_genesis lib (nd_chain node))) (\<lambda>here.
     ibind (ilift (Chain_genesis lib (dk_chain plan))) (\<lambda>there.
     ibind (icheck (here = there) (RtInvalid ''publication network mismatch'')) (\<lambda>_.
     ibind (node_tip lib node) (\<lambda>anchor.
     let i = DiskPlan_id (pu_disk pu) plan in
     ibind (read_history pu i) (\<lambda>h.
     ibind (walk pu submitting plan anchor
       \<lparr>se_history = h, se_blocks = (\<lambda>_. None), se_progress =
          \<lparr>pg_report = \<lparr>rp_plan_id = i, rp_root_txid = dk_root_txid plan, rp_complete = False, rp_confirmed = False,
             rp_blocked_reason = [], rp_transactions = []\<rparr>,
           pg_total = unat (dk_record_count plan) * 2, pg_observations = [], pg_retryable = True\<rparr>\<rparr>) (\<lambda>se.
     ibind (node_block_hash lib node (fst anchor)) (\<lambda>current.
     let p = conclude submitting (pl_hash_text lib current \<noteq> snd anchor) (se_progress se) in
     ibind (if submitting then store_report (pu_lib pu) (pu_files pu) (pg_report p) else iret ()) (\<lambda>_.
     ibind (on_state (pu_notify pu p)) (\<lambda>_. iret p)))))))))))))"

definition publish_progress :: "('info, 's) publisher \<Rightarrow> disk_plan \<Rightarrow> string \<Rightarrow> ('s, progress) node_act" where
  "publish_progress pu plan approved_id =
     ibind (icheck (approved_id = DiskPlan_id (pu_disk pu) plan) (RtInvalid ''approval does not match exact immutable signed plan'')) (\<lambda>_.
     ibind (on_state (pu_guard pu)) (\<lambda>_.
     reconcile pu True plan))"

definition watch :: "('info, 's) publisher \<Rightarrow> disk_plan \<Rightarrow> ('s, progress) node_act" where
  "watch pu plan = reconcile pu False plan"

definition starts_with :: "string \<Rightarrow> string \<Rightarrow> bool" where
  "starts_with s p \<longleftrightarrow> take (length p) s = p"

definition may_resume_automatically :: "publish_report \<Rightarrow> bool" where
  "may_resume_automatically report \<longleftrightarrow>
     (let reason = rp_blocked_reason report in
      \<not> rp_complete report \<and>
        (starts_with reason ''awaiting confirmations;'' \<or>
         reason = ''eight funding commits pending; waiting for confirmation'' \<or>
         starts_with reason ''Publication buffer full;'' \<or> starts_with reason ''Commit window full (8);'' \<or>
         reason = ''submission not yet observable; waiting before spending its change'' \<or>
         reason = ''mempool full; approved fees unchanged'') \<or>
      \<not> rp_complete report \<and> reason = CHAIN_CHANGED)"

end
