(* ===== verification/Disk_Publish_Safety.thy ===== *)
theory Disk_Publish_Safety
  imports Disk_Publish
begin

section \<open>What a publication pass sends, and when\<close>

text \<open>
  The sends are observed through a function \<open>sent\<close> of the outside state that lists the raw
  transactions handed to \<^verbatim>\<open>sendrawtransaction\<close>: a call of it appends its argument, and nothing
  else changes the list. Nothing is assumed of the answers. The rounds of the loop over the pairs are a
  step relation, and each round is judged by the states the pass has observed when it begins.
\<close>

definition sent_by :: "string \<Rightarrow> json_value list \<Rightarrow> string list" where
  "sent_by meth args =
     (if meth = ''sendrawtransaction'' then (case args of [VStr raw] \<Rightarrow> [raw] | _ \<Rightarrow> []) else [])"

definition records_sends :: "('info, 's) publisher \<Rightarrow> ('s \<Rightarrow> string list) \<Rightarrow> bool" where
  "records_sends pu sent \<longleftrightarrow>
     (case nd_backend (pu_node pu) of
        Local client \<Rightarrow> \<forall>meth args s. sent (snd (client meth args s)) = sent s @ sent_by meth args
      | Routed router \<Rightarrow>
          (\<forall>chain meth args s. sent (snd (rr_call router chain meth args s)) = sent s) \<and>
          (\<forall>p chain meth args s. sent (snd (rr_answer_preferring router p chain meth args s)) = sent s @ sent_by meth args)) \<and>
     (\<forall>s. sent (snd (nd_now (pu_node pu) s)) = sent s) \<and>
     (\<forall>bs s. sent (snd (pf_append (pu_files pu) s bs)) = sent s) \<and>
     (\<forall>p s. sent (snd (pu_notify pu p s)) = sent s)"

abbreviation wsent :: "('s \<Rightarrow> string list) \<Rightarrow> 's pub_world \<Rightarrow> string list" where
  "wsent sent w \<equiv> sent (w_state (bw_world w))"

text \<open>An action that sends at most \<open>raws\<close>.\<close>

definition sends :: "('s \<Rightarrow> string list) \<Rightarrow> string list set \<Rightarrow> ('s, 'a) node_act \<Rightarrow> bool" where
  "sends sent R m \<longleftrightarrow> (\<forall>w. \<exists>new \<in> R. wsent sent (snd (m w)) = wsent sent w @ new)"

abbreviation quiet :: "('s \<Rightarrow> string list) \<Rightarrow> ('s, 'a) node_act \<Rightarrow> bool" where
  "quiet sent m \<equiv> sends sent {[]} m"

named_theorems quiet_rules \<open>actions that send nothing\<close>

lemma sendsD: "sends sent R m \<Longrightarrow> m w = (r, w') \<Longrightarrow> \<exists>new \<in> R. wsent sent w' = wsent sent w @ new"
  unfolding sends_def by (metis snd_conv)

lemma quietD: "quiet sent m \<Longrightarrow> m w = (r, w') \<Longrightarrow> wsent sent w' = wsent sent w"
  using sendsD [of sent "{[]}" m w r w'] by simp

lemma quietI: "(\<And>w. wsent sent (snd (m w)) = wsent sent w) \<Longrightarrow> quiet sent m"
  by (simp add: sends_def)

lemma quiet_app: "quiet sent m \<Longrightarrow> wsent sent (snd (m w)) = wsent sent w"
  by (simp add: sends_def)

lemma sends_weaken: "sends sent R m \<Longrightarrow> R \<subseteq> S \<Longrightarrow> sends sent S m"
  unfolding sends_def by blast

lemma quiet_ret [quiet_rules]: "quiet sent (iret x)" and quiet_throw [quiet_rules]: "quiet sent (ithrow e)"
  and quiet_lift [quiet_rules]: "quiet sent (ilift r)" and quiet_check [quiet_rules]: "quiet sent (icheck c e)"
  by (auto intro!: quietI simp: act_apps)

lemma sends_ret: "[] \<in> R \<Longrightarrow> sends sent R (iret x)"
  by (rule sends_weaken [OF quiet_ret]) simp

lemma quiet_bind_sends:
  assumes "quiet sent m" "\<And>x. sends sent R (k x)" "[] \<in> R"
  shows "sends sent R (ibind m k)"
  unfolding sends_def
proof
  fix w
  obtain r w1 where m: "m w = (r, w1)" by (cases "m w")
  have q: "wsent sent w1 = wsent sent w" by (rule quietD [OF assms(1) m])
  show "\<exists>new\<in>R. wsent sent (snd (ibind m k w)) = wsent sent w @ new"
  proof (cases r)
    case (Inl e)
    then show ?thesis using m q assms(3) by (intro bexI [of _ "[]"]) (simp_all add: ibind_app)
  next
    case (Inr x)
    obtain new where "new \<in> R" "wsent sent (snd (k x w1)) = wsent sent w1 @ new" using assms(2) [of x] unfolding sends_def by blast
    then show ?thesis using m q Inr by (intro bexI [of _ new]) (simp_all add: ibind_app)
  qed
qed

lemma sends_bind_quiet:
  assumes "sends sent R m" "\<And>x. quiet sent (k x)"
  shows "sends sent R (ibind m k)"
  unfolding sends_def
proof
  fix w
  obtain r w1 where m: "m w = (r, w1)" by (cases "m w")
  then obtain new where new: "new \<in> R" "wsent sent w1 = wsent sent w @ new" using sendsD [OF assms(1)] by blast
  have "wsent sent (snd (ibind m k w)) = wsent sent w1"
    using m assms(2) by (cases r) (simp_all add: ibind_app sends_def)
  then show "\<exists>new\<in>R. wsent sent (snd (ibind m k w)) = wsent sent w @ new" using new by auto
qed

lemma quiet_bind [quiet_rules]: "quiet sent m \<Longrightarrow> (\<And>x. quiet sent (k x)) \<Longrightarrow> quiet sent (ibind m k)"
  by (rule quiet_bind_sends) simp_all

lemma quiet_if [quiet_rules]: "quiet sent m \<Longrightarrow> quiet sent n \<Longrightarrow> quiet sent (if c then m else n)"
  by simp

lemma quiet_on_state: "(\<And>s. sent (snd (m s)) = sent s) \<Longrightarrow> quiet sent (on_state m)"
  by (rule quietI) (simp add: on_state_def on_world_def split: prod.splits, metis snd_conv)

lemma sends_on_state: "(\<And>s. sent (snd (m s)) = sent s @ new) \<Longrightarrow> sends sent {new} (on_state m)"
  unfolding sends_def by (simp add: on_state_def on_world_def split: prod.splits, metis snd_conv)

subsection \<open>The node\<close>

lemma quiet_now: "records_sends pu sent \<Longrightarrow> quiet sent (node_now (pu_node pu))"
  unfolding node_now_def
  by (intro quiet_on_state) (auto simp: records_sends_def split: prod.splits, metis snd_conv)

lemma quiet_parent_loop: "records_sends pu sent \<Longrightarrow> quiet sent (parent_loop (pu_node pu) inputs)"
proof (induction inputs)
  case (Cons input inputs)
  note now = quiet_now [OF Cons.prems]
  have "quiet sent (ibind (node_now (pu_node pu)) (\<lambda>t. if t - ak_when parent < SUBMISSION_ACK_WINDOW
      then iret (PreferProvider (ak_provider parent)) else parent_loop (pu_node pu) inputs))" for parent
    by (intro quiet_bind now quiet_if quiet_ret Cons.IH Cons.prems)
  then show ?case using Cons.IH [OF Cons.prems] by (auto simp: sends_def split: option.splits)
qed (simp add: quiet_ret)

lemma quiet_remember_acknowledged: "records_sends pu sent \<Longrightarrow> quiet sent (remember_acknowledged lib (pu_node pu) v provider)"
  unfolding remember_acknowledged_def
  by (intro quiet_bind quiet_now quiet_rules) (auto intro!: quietI)

lemma sends_node_call:
  assumes "records_sends pu sent"
  shows "sends sent {[], sent_by meth args} (node_call lib (pu_node pu) meth args)"
proof (cases "nd_backend (pu_node pu)")
  case (Local client)
  then have "sends sent {sent_by meth args} (on_state (client meth args))"
    using assms by (intro sends_on_state) (simp add: records_sends_def)
  then show ?thesis unfolding node_call_def Local by (auto elim: sends_weaken)
next
  case (Routed router)
  have a: "quiet sent (on_state (rr_call router (nd_chain (pu_node pu)) meth args))"
    using assms Routed by (intro quiet_on_state) (simp add: records_sends_def)
  have b: "sends sent {sent_by meth args} (on_state (rr_answer_preferring router p (nd_chain (pu_node pu)) meth args))" for p
    using assms Routed by (intro sends_on_state) (simp add: records_sends_def)
  have "sends sent {[], sent_by meth args} (ibind (parent_provider lib (pu_node pu) args) (\<lambda>preference.
      ibind (on_state (rr_answer_preferring router preference (nd_chain (pu_node pu)) meth args)) (\<lambda>(v, label).
      ibind (remember_acknowledged lib (pu_node pu) v label) (\<lambda>_. iret v))))"
    unfolding parent_provider_def
    by (intro quiet_bind_sends quiet_bind quiet_rules quiet_parent_loop assms sends_bind_quiet [OF sends_weaken [OF b]])
      (auto split: prod.splits intro!: quiet_rules quiet_remember_acknowledged assms)
  then show ?thesis using a unfolding node_call_def Routed by (auto elim: sends_weaken)
qed

lemma quiet_node_call:
  assumes "records_sends pu sent" "meth \<noteq> ''sendrawtransaction''"
  shows "quiet sent (node_call lib (pu_node pu) meth args)"
  using sends_node_call [OF assms(1), of meth args lib] assms(2) by (simp add: sent_by_def)

lemma quiet_block_hash: "records_sends pu sent \<Longrightarrow> quiet sent (node_block_hash lib (pu_node pu) height)"
  unfolding node_block_hash_def by (intro quiet_bind quiet_node_call quiet_rules) simp_all

lemma quiet_presence_cached:
  assumes "records_sends pu sent"
  shows "quiet sent (presence_cached lib (pu_node pu) txid blocks)"
proof -
  note call = quiet_node_call [OF assms]
  have incl: "quiet sent (inclusion lib (pu_node pu) v blocks)" for v
    unfolding inclusion_def by (intro quiet_bind quiet_rules) (auto split: option.splits intro!: quiet_rules call)
  have found: "quiet sent (ibind (ilift (confirmations_of v)) (\<lambda>n. if n \<le> 0 then iret (InMempool, blocks) else inclusion lib (pu_node pu) v blocks))" for v
    by (intro quiet_bind quiet_rules incl)
  have recent: "quiet sent (recently_acknowledged (pu_node pu) txid)"
  proof (rule quietI)
    fix w
    have known: "quiet sent (ibind (node_now (pu_node pu)) (\<lambda>t. iret (t - ak_when parent < SUBMISSION_ACK_WINDOW)))" for parent
      by (rule quiet_bind [OF quiet_now [OF assms] quiet_ret])
    show "wsent sent (snd (recently_acknowledged (pu_node pu) txid w)) = wsent sent w"
      unfolding recently_acknowledged_def by (cases "bw_ack w txid") (simp_all only: option.case snd_conv quiet_app [OF known])
  qed
  have lag: "quiet sent (ibind (recently_acknowledged (pu_node pu) txid) (\<lambda>r. iret (if r then InMempool else Absent, blocks)))"
    by (intro quiet_bind quiet_rules recent)
  show ?thesis
  proof (rule quietI)
    fix w
    obtain r w1 where c: "node_call lib (pu_node pu) ''getrawtransaction'' [VStr (pl_hash_text lib txid), VBool True] w = (r, w1)"
      by (metis surj_pair)
    have q: "wsent sent w1 = wsent sent w" by (rule quietD [OF call c]) simp
    show "wsent sent (snd (presence_cached lib (pu_node pu) txid blocks w)) = wsent sent w"
      using q found lag unfolding presence_cached_def c
      by (cases r) (auto simp: sends_def split: rt_error.splits)
  qed
qed

lemma quiet_presence: "records_sends pu sent \<Longrightarrow> quiet sent (presence_of lib (pu_node pu) txid)"
  unfolding presence_of_def by (intro quiet_bind quiet_presence_cached) (auto split: prod.splits intro!: quiet_rules)

subsection \<open>A broadcast sends its transaction at most once\<close>

lemma quiet_parent_in_mempool: "records_sends pu sent \<Longrightarrow> quiet sent (parent_in_mempool lib (pu_node pu) inputs pending)"
  by (induction inputs arbitrary: pending) (auto intro!: quiet_bind quiet_presence quiet_rules)

lemma quiet_test_accept:
  assumes "records_sends pu sent"
  shows "quiet sent (test_accept lib (pu_node pu) raw)"
proof -
  have "quiet sent (\<lambda>w. case node_call (ul_plan lib) (pu_node pu) ''testmempoolaccept'' [VArray [VStr raw]] w of
       (Inl cause, w') \<Rightarrow> (if is_public (pu_node pu) then Inr (PreflightUnavailable (ul_error_text lib cause)) else Inl cause, w')
     | (Inr acceptance, w') \<Rightarrow> k acceptance w')" if k: "\<And>v. quiet sent (k v)" for k
  proof (rule quietI)
    fix w
    obtain r w1 where c: "node_call (ul_plan lib) (pu_node pu) ''testmempoolaccept'' [VArray [VStr raw]] w = (r, w1)" by (metis surj_pair)
    have q: "wsent sent w1 = wsent sent w" by (rule quietD [OF quiet_node_call [OF assms] c]) simp
    show "wsent sent (snd (case node_call (ul_plan lib) (pu_node pu) ''testmempoolaccept'' [VArray [VStr raw]] w of
       (Inl cause, w') \<Rightarrow> (if is_public (pu_node pu) then Inr (PreflightUnavailable (ul_error_text lib cause)) else Inl cause, w')
     | (Inr acceptance, w') \<Rightarrow> k acceptance w')) = wsent sent w"
      using q k unfolding c by (cases r) (simp_all add: sends_def)
  qed
  note step = this
  show ?thesis
    unfolding test_accept_def Let_def
    by (intro quiet_bind quiet_rules, rule step, intro quiet_bind quiet_rules)
qed

lemma sends_submit:
  assumes "records_sends pu sent"
  shows "sends sent {[], [raw]} (submit lib (pu_node pu) raw txid pending)"
  unfolding sends_def
proof
  fix w
  obtain r w1 where c: "node_call (ul_plan lib) (pu_node pu) ''sendrawtransaction'' [VStr raw] w = (r, w1)" by (metis surj_pair)
  obtain new where new: "new \<in> {[], [raw]}" "wsent sent w1 = wsent sent w @ new"
    using sendsD [OF sends_node_call [OF assms] c] by (auto simp: sent_by_def)
  have lost: "quiet sent (ibind (presence_of (ul_plan lib) (pu_node pu) txid) (\<lambda>p. if p = Absent
      then (if temporary_rejection e then iret ''mempool full'' else if pending then iret AWAITING_PARENT else ithrow e) else iret []))" for e
    by (intro quiet_bind quiet_rules quiet_presence [OF assms])
  have answered: "quiet sent (ibind (icheck (v = VStr (pl_hash_text (ul_plan lib) txid)) (RtInvalid ''broadcast RPC returned unexpected TXID''))
      (\<lambda>_. iret []))" for v by (intro quiet_bind quiet_rules)
  have "wsent sent (snd (submit lib (pu_node pu) raw txid pending w)) = wsent sent w1"
    unfolding submit_def c by (cases r) (simp_all only: prod.case sum.case quiet_app [OF lost] quiet_app [OF answered])
  then show "\<exists>new\<in>{[], [raw]}. wsent sent (snd (submit lib (pu_node pu) raw txid pending w)) = wsent sent w @ new"
    using new by auto
qed

lemma sends_broadcast:
  assumes "records_sends pu sent"
  shows "sends sent {[], [raw]} (broadcast lib (pu_node pu) raw)"
  unfolding broadcast_def Let_def
  by (intro quiet_bind_sends quiet_rules quiet_parent_in_mempool quiet_test_accept assms)
    (auto split: mempool_check.splits intro!: sends_submit assms sends_weaken [OF quiet_ret])

subsection \<open>A pass over one transaction\<close>

lemma quiet_observe:
  fixes sent :: "'s \<Rightarrow> string list"
  assumes rec: "records_sends pu sent"
  shows "quiet sent (observe pu report)"
proof (rule quietI)
  fix w :: "'s pub_world"
  let ?bs = "pu_line_json pu report @ [NEWLINE]"
  obtain failure s' where a: "pf_append (pu_files pu) (w_state (bw_world w)) ?bs = (failure, s')" by (metis surj_pair)
  have "sent (snd (pf_append (pu_files pu) (w_state (bw_world w)) ?bs)) = wsent sent w" using rec unfolding records_sends_def by blast
  then have "sent s' = wsent sent w" unfolding a by simp
  then show "wsent sent (snd (observe pu report w)) = wsent sent w"
    unfolding observe_def Let_def a by (simp split: option.split prod.split)
qed

lemma quiet_remember: "records_sends pu sent \<Longrightarrow> quiet sent (remember pu txid p se)"
  unfolding remember_def by (intro quiet_if quiet_bind quiet_observe quiet_rules)

lemma sends_missing: "records_sends pu sent \<Longrightarrow> sends sent {[], [raw]} (send_missing pu raw txid se)"
  unfolding send_missing_def Let_def
  by (intro quiet_bind_sends quiet_remember sends_bind_quiet sends_broadcast)
    (auto split: prod.splits intro!: quiet_bind quiet_presence_cached quiet_rules)

text \<open>Dispatch on the answer of the lookup.\<close>

lemma sends_transaction_pass:
  assumes "records_sends pu sent"
  shows "sends sent (if eligible then {[], [raw]} else {[]}) (transaction_pass pu submitting raw role eligible se)"
proof -
  let ?R = "if eligible then {[], [raw]} else {[]}"
  have rest: "sends sent ?R (ibind (if eligible \<and> p = Absent then send_missing pu raw txid se' else iret (se', p)) (\<lambda>(se1, p1).
      ibind (if submitting \<and> (map_of (se_history se1) txt_id \<noteq> None \<or> p1 \<noteq> Absent) then remember pu txt_id p1 se1 else iret se1) (\<lambda>se2.
      iret (push_observation (push_status se2 txt_id p1) txt_id role (pub_state_of p1 (map_of (se_history se1) txt_id \<noteq> None)),
            pub_state_of p1 (map_of (se_history se1) txt_id \<noteq> None)))))" for p se' txid txt_id
  proof (rule sends_bind_quiet)
    show "sends sent ?R (if eligible \<and> p = Absent then send_missing pu raw txid se' else iret (se', p))"
      by (auto intro: sends_missing [OF assms] sends_ret)
  qed (auto split: prod.splits intro!: quiet_bind quiet_if quiet_remember assms quiet_rules)
  have "sends sent ?R (\<lambda>w. case presence_cached lib (pu_node pu) txid blocks w of (Inl e, w') \<Rightarrow> (Inr (f e), w') | (Inr (p, b), w') \<Rightarrow> k p b w')"
    if k: "\<And>p b. sends sent ?R (k p b)" for lib txid blocks and f :: "rt_error \<Rightarrow> session \<times> pub_state" and k
    unfolding sends_def
  proof
    fix w
    obtain r w1 where c: "presence_cached lib (pu_node pu) txid blocks w = (r, w1)" by (metis surj_pair)
    have q: "wsent sent w1 = wsent sent w" by (rule quietD [OF quiet_presence_cached [OF assms] c])
    show "\<exists>new\<in>?R. wsent sent (snd (case presence_cached lib (pu_node pu) txid blocks w of
        (Inl e, w') \<Rightarrow> (Inr (f e), w') | (Inr (p, b), w') \<Rightarrow> k p b w')) = wsent sent w @ new"
    proof (cases r)
      case (Inl e)
      then show ?thesis using q by (intro bexI [of _ "[]"]) (simp_all add: c)
    next
      case (Inr x)
      obtain p b where x: "x = (p, b)" by (cases x)
      obtain new where "new \<in> ?R" "wsent sent (snd (k p b w1)) = wsent sent w1 @ new" using k [of p b] unfolding sends_def by blast
      then show ?thesis using q by (intro bexI [of _ new]) (simp_all only: c Inr x prod.case sum.case)
    qed
  qed
  note step = this
  show ?thesis
    unfolding transaction_pass_def Let_def
    by (intro quiet_bind_sends quiet_rules, rule step, rule rest) simp
qed

subsection \<open>The observed states\<close>

abbreviation obs_of :: "session \<Rightarrow> tx_observation list" where
  "obs_of se \<equiv> pg_observations (se_progress se)"

abbreviation results :: "('s, 'a) node_act \<Rightarrow> ('a \<Rightarrow> bool) \<Rightarrow> bool" where
  "results m Q \<equiv> keeps (\<lambda>_. True) (\<lambda>_. True) m Q"

lemma resultsD: "results m Q \<Longrightarrow> m w = (Inr x, w') \<Longrightarrow> Q x"
  unfolding keeps_def by blast

lemma results_any: "results m (\<lambda>_. True)"
  unfolding keeps_def by blast

lemma remember_obs: "results (remember pu txid p se) (\<lambda>se'. obs_of se' = obs_of se)"
  unfolding remember_def by (auto intro!: keeps_ret keeps_bind [OF results_any])

lemma send_missing_obs: "results (send_missing pu raw txid se) (\<lambda>(se', p). obs_of se' = obs_of se)"
  unfolding send_missing_def
  by (rule keeps_bind [OF remember_obs], rule keeps_bind [OF results_any])
    (auto intro!: keeps_ret keeps_bind [OF results_any] simp: blocked_def set_retryable_def Let_def split: prod.splits)

lemma transaction_pass_obs:
  "results (transaction_pass pu submitting raw role eligible se)
    (\<lambda>(se', st). \<exists>txid. obs_of se' = obs_of se @ [\<lparr>ob_txid = txid, ob_role = role, ob_state = st\<rparr>])"
  unfolding transaction_pass_def Let_def
proof (rule keeps_bind [OF results_any], rule keepsI)
  fix tx w x w'
  let ?lib = "ul_plan (pu_lib pu)" and ?Q = "\<lambda>(se', st). \<exists>txid. obs_of se' = obs_of se @ [\<lparr>ob_txid = txid, ob_role = role, ob_state = st\<rparr>]"
  let ?txid = "e_txid (pl_env ?lib) tx" let ?txt = "pl_hash_text ?lib ?txid"
  let ?k = "\<lambda>p blocks. ibind (if eligible \<and> p = Absent then send_missing pu raw ?txid (se\<lparr>se_blocks := blocks\<rparr>) else iret (se\<lparr>se_blocks := blocks\<rparr>, p))
      (\<lambda>(se1, p1). ibind (if submitting \<and> (map_of (se_history se1) ?txt \<noteq> None \<or> p1 \<noteq> Absent) then remember pu ?txt p1 se1 else iret se1) (\<lambda>se2.
      iret (push_observation (push_status se2 ?txt p1) ?txt role (pub_state_of p1 (map_of (se_history se1) ?txt \<noteq> None)),
            pub_state_of p1 (map_of (se_history se1) ?txt \<noteq> None))))"
  have first: "results (if eligible \<and> p = Absent then send_missing pu raw ?txid (se\<lparr>se_blocks := blocks\<rparr>) else iret (se\<lparr>se_blocks := blocks\<rparr>, p))
      (\<lambda>(se', p). obs_of se' = obs_of se)" for p blocks
    using send_missing_obs [of pu raw ?txid "se\<lparr>se_blocks := blocks\<rparr>"] by (auto intro: keeps_ret)
  have second: "results (if c then remember pu ?txt p1 se1 else iret se1) (\<lambda>se'. obs_of se' = obs_of se)" if "obs_of se1 = obs_of se" for c p1 se1
    using remember_obs [of pu ?txt p1 se1] that by (auto intro: keeps_ret)
  have k: "results (?k p blocks) ?Q" for p blocks
    by (rule keeps_bind [OF first])
      (auto intro!: keeps_bind [OF second] keeps_ret simp: push_observation_def push_status_def)
  assume "(case presence_cached ?lib (pu_node pu) ?txid (se_blocks se) w of
       (Inl e, w') \<Rightarrow> (Inr (set_retryable (blocked (push_observation se ?txt role (SourceUnavailable (ul_error_text (pu_lib pu) e)))
           (''source unavailable: '' @ ul_error_text (pu_lib pu) e)) False, SourceUnavailable (ul_error_text (pu_lib pu) e)), w')
     | (Inr (p, blocks), w') \<Rightarrow> ?k p blocks w') = (Inr x, w')"
  then show "?Q x \<and> True"
    using resultsD [OF k]
    by (cases "presence_cached ?lib (pu_node pu) ?txid (se_blocks se) w")
      (auto split: sum.splits prod.splits simp: push_observation_def blocked_def set_retryable_def)
qed simp

lemma submit_record_obs:
  "offset < length (obs_of se) \<Longrightarrow> results (submit_record pu plan index offset c se)
    (\<lambda>(se', st). length (obs_of se') = length (obs_of se) \<and> observed_state se' offset = st \<and>
       (\<forall>k. k \<noteq> offset \<longrightarrow> obs_of se' ! k = obs_of se ! k \<or> length (obs_of se) \<le> k))"
  unfolding submit_record_def Let_def
  by (rule keeps_bind [OF results_any], rule keeps_bind [OF transaction_pass_obs])
    (auto intro!: keeps_ret)

text \<open>The raw transactions of the pair at an index, as the plan has them on disk.\<close>

definition raw_of :: "('info, 's) publisher \<Rightarrow> disk_plan \<Rightarrow> nat \<Rightarrow> bool \<Rightarrow> string" where
  "raw_of pu plan index is_commit =
     (case DiskPlan_record (pu_disk pu) (pu_disk_files pu) plan (word_of_nat index) of
        Inl _ \<Rightarrow> [] | Inr pair \<Rightarrow> if is_commit then pp_commit pair else pp_reveal pair)"

lemma sends_submit_record:
  assumes "records_sends pu sent"
  shows "sends sent {[], [raw_of pu plan index c]} (submit_record pu plan index offset c se)"
proof (cases "DiskPlan_record (pu_disk pu) (pu_disk_files pu) plan (word_of_nat index)")
  case (Inl e)
  then show ?thesis by (auto simp: submit_record_def sends_def ibind_app ilift_app)
next
  case (Inr pair)
  have "sends sent {[], [raw_of pu plan index c]} (transaction_pass pu True (if c then pp_commit pair else pp_reveal pair) role True se)" for role
    using sends_transaction_pass [OF assms, of True "if c then pp_commit pair else pp_reveal pair"] Inr
    by (cases c) (simp_all add: raw_of_def)
  note pass = this
  have lifted: "ibind (ilift (Inr pair)) k = k pair" for k :: "public_plan \<Rightarrow> ('s, session \<times> pub_state) node_act"
    by (rule ext) (simp add: ibind_app ilift_app)
  show ?thesis
    unfolding submit_record_def Inr Let_def lifted
    by (rule sends_bind_quiet [OF pass]) (simp add: quiet_ret split: prod.split)
qed


subsection \<open>The inventory observes both transactions of every pair\<close>

lemma notify_results: "results (notify pu se) (\<lambda>_. True)"
  by (rule results_any)

lemma inventory_pairs_obs:
  "results (inventory_pairs pu submitting plan index n se pairs)
    (\<lambda>(se', pairs'). retryable se' \<longrightarrow> length (obs_of se') + 2 * length pairs = length (obs_of se) + 2 * length pairs')"
proof (induction n arbitrary: index se pairs)
  case 0
  show ?case by (simp add: keeps_ret)
next
  case (Suc n)
  have step: "results (if \<not> retryable se2 then iret (se2, pairs @ [q]) else inventory_pairs pu submitting plan (Suc index) n se2 (pairs @ [q]))
     (\<lambda>(se', pairs'). retryable se' \<longrightarrow> length (obs_of se') + 2 * length pairs = length (obs_of se) + 2 * length pairs')"
    if "length (obs_of se2) = length (obs_of se) + 2" for se2 q
    using that by (auto intro!: keeps_ret keeps_weaken [OF Suc.IH])
  show ?case
    unfolding inventory_pairs.simps Let_def
    by (rule keeps_bind [OF results_any], rule keeps_bind [OF results_any], rule keeps_bind [OF results_any],
        rule keeps_bind [OF results_any], rule keeps_bind [OF results_any], rule keeps_bind [OF transaction_pass_obs],
        clarsimp, intro conjI impI keeps_ret, simp, rule keeps_bind [OF transaction_pass_obs], use step in \<open>auto intro: keeps_ret\<close>)
qed

lemma inventory_pass_obs:
  "obs_of se = [] \<Longrightarrow> results (inventory_pass pu submitting plan se) (\<lambda>(se', pairs). retryable se' \<longrightarrow> length (obs_of se') = 2 * length pairs)"
  unfolding inventory_pass_def Let_def
  by (rule keeps_bind [OF inventory_pairs_obs]) (auto intro!: keeps_bind [OF results_any] keeps_ret)

subsection \<open>One round of the loop\<close>

text \<open>What the steps of round \<open>index\<close> leave of the observations.\<close>

definition only_at :: "nat \<Rightarrow> session \<Rightarrow> session \<Rightarrow> bool" where
  "only_at offset se se' \<longleftrightarrow> length (obs_of se') = length (obs_of se) \<and>
     (\<forall>k < length (obs_of se). k \<noteq> offset \<longrightarrow> obs_of se' ! k = obs_of se ! k)"

lemma only_at_refl [simp]: "only_at offset se se"
  by (simp add: only_at_def)

lemma submit_record_at:
  "offset < length (obs_of se) \<Longrightarrow> results (submit_record pu plan index offset c se)
    (\<lambda>(se', st). only_at offset se se' \<and> observed_state se' offset = st)"
  by (rule keeps_weaken [OF submit_record_obs]) (auto simp: only_at_def)

lemma walk_commit_at:
  "index * 2 < length (obs_of (ws_session ws)) \<Longrightarrow> results (walk_commit pu plan index pair ws)
    (\<lambda>(ws', st). only_at (index * 2) (ws_session ws) (ws_session ws') \<and> observed_state (ws_session ws') (index * 2) = st \<and>
       ws_data ws' = ws_data ws \<and> ws_leaves ws' = ws_leaves ws)"
  unfolding walk_commit_def Let_def
  by (intro keeps_if keeps_bind [OF submit_record_at]) (auto intro: keeps_ret)

lemma walk_reveal_at:
  "index * 2 + 1 < length (obs_of (ws_session ws)) \<Longrightarrow> results (walk_reveal pu plan index pair commit ws)
    (\<lambda>(ws', st). only_at (index * 2 + 1) (ws_session ws) (ws_session ws') \<and> observed_state (ws_session ws') (index * 2 + 1) = st \<and>
       ws_data ws' = ws_data ws \<and> ws_leaves ws' = ws_leaves ws \<and> ws_parent ws' = ws_parent ws)"
  unfolding walk_reveal_def Let_def
  by (intro keeps_if keeps_bind [OF submit_record_at]) (auto intro: keeps_ret)

text \<open>The flags of the loop say what has been observed of the pairs before.\<close>

definition flags_true :: "buffered_pair list \<Rightarrow> nat \<Rightarrow> walk_state \<Rightarrow> bool" where
  "flags_true pairs i ws \<longleftrightarrow>
     length (obs_of (ws_session ws)) = 2 * length pairs \<and>
     (ws_parent ws \<longrightarrow> i = 0 \<or> is_out (observed_state (ws_session ws) ((i - 1) * 2))) \<and>
     (ws_data ws \<longrightarrow> (\<forall>j < i. bp_role (pairs ! j) = ''data'' \<longrightarrow> is_out (observed_state (ws_session ws) (j * 2 + 1)))) \<and>
     (ws_leaves ws \<longrightarrow> (\<forall>j < i. bp_role (pairs ! j) = ''leaf'' \<longrightarrow> is_out (observed_state (ws_session ws) (j * 2 + 1))))"

lemma walk_pairE:
  assumes "walk_pair pu plan i pair ws w = (Inr ws', w')"
  obtains wa ws1 commit wb ws2 reveal wc where
    "walk_commit pu plan i pair ws wa = (Inr (ws1, commit), wb)"
    "walk_reveal pu plan i pair commit (ws1\<lparr>ws_parent := is_out commit\<rparr>) wb = (Inr (ws2, reveal), wc)"
    "ws' = ws2\<lparr>ws_data := (if bp_role pair = ''data'' then ws_data ws2 \<and> is_out reveal else ws_data ws2),
               ws_leaves := (if bp_role pair = ''leaf'' then ws_leaves ws2 \<and> is_out reveal else ws_leaves ws2)\<rparr>"
  using assms unfolding walk_pair_def Let_def ibind_eq_Inr by (auto simp: ibind_eq_Inr iret_app split: prod.splits)

lemma walk_pair_flags:
  assumes "i < length pairs" "flags_true pairs i ws" "walk_pair pu plan i (pairs ! i) ws w = (Inr ws', w')"
  shows "flags_true pairs (Suc i) ws'"
proof -
  obtain wa ws1 commit wb ws2 reveal wc where
    c: "walk_commit pu plan i (pairs ! i) ws wa = (Inr (ws1, commit), wb)" and
    v: "walk_reveal pu plan i (pairs ! i) commit (ws1\<lparr>ws_parent := is_out commit\<rparr>) wb = (Inr (ws2, reveal), wc)" and
    ws': "ws' = ws2\<lparr>ws_data := (if bp_role (pairs ! i) = ''data'' then ws_data ws2 \<and> is_out reveal else ws_data ws2),
               ws_leaves := (if bp_role (pairs ! i) = ''leaf'' then ws_leaves ws2 \<and> is_out reveal else ws_leaves ws2)\<rparr>"
    by (rule walk_pairE [OF assms(3)])
  have len: "length (obs_of (ws_session ws)) = 2 * length pairs" using assms(2) by (simp add: flags_true_def)
  have a: "only_at (i * 2) (ws_session ws) (ws_session ws1)" "observed_state (ws_session ws1) (i * 2) = commit"
      "ws_data ws1 = ws_data ws" "ws_leaves ws1 = ws_leaves ws"
    using resultsD [OF walk_commit_at c] len assms(1) by simp_all
  have b: "only_at (i * 2 + 1) (ws_session ws1) (ws_session ws2)" "observed_state (ws_session ws2) (i * 2 + 1) = reveal"
      "ws_data ws2 = ws_data ws1" "ws_leaves ws2 = ws_leaves ws1" "ws_parent ws2 = is_out commit"
    using resultsD [OF walk_reveal_at v] len assms(1) a(1) by (simp_all add: only_at_def)
  have old: "observed_state (ws_session ws2) (j * 2 + 1) = observed_state (ws_session ws) (j * 2 + 1)" if "j < i" for j
    using that a(1) b(1) len assms(1) by (simp add: only_at_def)
  have here: "observed_state (ws_session ws2) (i * 2) = commit" "length (obs_of (ws_session ws2)) = 2 * length pairs"
    using a b len assms(1) by (simp_all add: only_at_def)
  show ?thesis using assms(2) a b here old unfolding ws' flags_true_def by (auto simp: less_Suc_eq)
qed

text \<open>What a round may send: its commit, its reveal, both in this order, or nothing.\<close>

definition may_send_commit :: "nat \<Rightarrow> buffered_pair \<Rightarrow> walk_state \<Rightarrow> bool" where
  "may_send_commit i pair ws \<longleftrightarrow> is_open (observed_state (ws_session ws) (i * 2)) \<and> ws_parent ws \<and>
     admits (ws_buffer ws) pair \<and> blocked_reason (ws_session ws) = []"

lemma sends_walk_commit:
  "records_sends pu sent \<Longrightarrow>
   sends sent (if may_send_commit i pair ws then {[], [raw_of pu plan i True]} else {[]}) (walk_commit pu plan i pair ws)"
  unfolding walk_commit_def may_send_commit_def Let_def
  by (auto intro!: quiet_ret sends_bind_quiet [OF sends_submit_record] split: prod.split)

definition may_send_reveal :: "nat \<Rightarrow> buffered_pair \<Rightarrow> pub_state \<Rightarrow> walk_state \<Rightarrow> bool" where
  "may_send_reveal i pair commit ws \<longleftrightarrow> commit = Confirmed \<and> dependencies pair ws \<and>
     is_open (observed_state (ws_session ws) (i * 2 + 1)) \<and> blocked_reason (ws_session ws) = [] \<and>
     bf_broadcast_weight (ws_buffer ws) + bp_reveal_weight pair \<le> PUBLICATION_BUFFER_WEIGHT"

lemma sends_walk_reveal:
  "records_sends pu sent \<Longrightarrow>
   sends sent (if may_send_reveal i pair commit ws then {[], [raw_of pu plan i False]} else {[]}) (walk_reveal pu plan i pair commit ws)"
  unfolding walk_reveal_def may_send_reveal_def Let_def
  by (auto intro!: quiet_ret sends_ret sends_bind_quiet [OF sends_submit_record] split: prod.split)

lemma quiet_notify: "records_sends pu sent \<Longrightarrow> quiet sent (notify pu se)"
  unfolding notify_def by (intro quiet_on_state) (simp add: records_sends_def)

lemma walk_commit_flags: "walk_commit pu plan i pair ws w = (Inr (ws', st), w') \<Longrightarrow> ws_data ws' = ws_data ws \<and> ws_leaves ws' = ws_leaves ws"
  unfolding walk_commit_def Let_def by (auto simp: ibind_eq_Inr iret_app split: if_splits)

text \<open>A commit that is seen confirmed has not been added to the budget.\<close>

lemma walk_commit_confirmed: "walk_commit pu plan i pair ws w = (Inr (ws', Confirmed), w') \<Longrightarrow> ws_buffer ws' = ws_buffer ws"
  unfolding walk_commit_def Let_def by (auto simp: ibind_eq_Inr iret_app split: if_splits)

lemma sends_once:
  assumes "sends sent (if P then {[], [x]} else {[]}) m" "m w = (r, w')"
  obtains c where "wsent sent w' = wsent sent w @ (if c then [x] else [])" "c \<Longrightarrow> P"
  using sendsD [OF assms] that [of True] that [of False] by (cases P) auto

lemma walk_pair_sends:
  assumes rec: "records_sends pu sent" and r: "walk_pair pu plan i pair ws w = (r, w')"
  obtains c v where "wsent sent w' = wsent sent w @ (if c then [raw_of pu plan i True] else []) @ (if v then [raw_of pu plan i False] else [])"
    "c \<Longrightarrow> may_send_commit i pair ws"
    "v \<Longrightarrow> dependencies pair ws \<and> bf_broadcast_weight (ws_buffer ws) + bp_reveal_weight pair \<le> PUBLICATION_BUFFER_WEIGHT \<and>
       (\<exists>wa ws1 wb. walk_commit pu plan i pair ws wa = (Inr (ws1, Confirmed), wb) \<and>
          is_open (observed_state (ws_session ws1) (i * 2 + 1)) \<and> blocked_reason (ws_session ws1) = [])"
proof -
  let ?C = "[raw_of pu plan i True]" and ?V = "[raw_of pu plan i False]"
  obtain n0 wa where n: "notify pu (ws_session ws) w = (n0, wa)" by (metis surj_pair)
  have qa: "wsent sent wa = wsent sent w" by (rule quietD [OF quiet_notify [OF rec] n])
  obtain x0 wb where c0: "walk_commit pu plan i pair ws wa = (x0, wb)" by (metis surj_pair)
  obtain c where c: "wsent sent wb = wsent sent wa @ (if c then ?C else [])" "c \<Longrightarrow> may_send_commit i pair ws"
    using sends_once [OF sends_walk_commit [OF rec] c0] by blast
  show ?thesis
  proof (cases n0)
    case (Inl e)
    then have "w' = wa" using r n by (simp add: walk_pair_def ibind_app)
    then show ?thesis using that [of False False] qa by simp
  next
    case n0: (Inr u)
    show ?thesis
    proof (cases x0)
      case (Inl e)
      then have "w' = wb" using r n n0 c0 by (simp add: walk_pair_def ibind_app)
      then show ?thesis using that [of c False] qa c by simp
    next
      case (Inr x)
      obtain ws1 commit where x: "x = (ws1, commit)" by (cases x)
      note ok = c0 [unfolded Inr x]
      let ?ws = "ws1\<lparr>ws_parent := is_out commit\<rparr>"
      have dep: "dependencies pair ?ws = dependencies pair ws" using walk_commit_flags [OF ok] by (simp add: dependencies_def)
      obtain y wc where v0: "walk_reveal pu plan i pair commit ?ws wb = (y, wc)" by (metis surj_pair)
      obtain v where v: "wsent sent wc = wsent sent wb @ (if v then ?V else [])" "v \<Longrightarrow> may_send_reveal i pair commit ?ws"
        using sends_once [OF sends_walk_reveal [OF rec] v0] by blast
      have seen: "dependencies pair ws \<and> bf_broadcast_weight (ws_buffer ws) + bp_reveal_weight pair \<le> PUBLICATION_BUFFER_WEIGHT \<and>
          (\<exists>wa ws1 wb. walk_commit pu plan i pair ws wa = (Inr (ws1, Confirmed), wb) \<and>
             is_open (observed_state (ws_session ws1) (i * 2 + 1)) \<and> blocked_reason (ws_session ws1) = [])" if v
      proof -
        from v(2) [OF that] have m: "may_send_reveal i pair commit ?ws" .
        then have "commit = Confirmed" by (simp add: may_send_reveal_def)
        with ok have "walk_commit pu plan i pair ws wa = (Inr (ws1, Confirmed), wb)" by simp
        with m dep walk_commit_confirmed [OF this] show ?thesis by (auto simp: may_send_reveal_def)
      qed
      have "wsent sent w' = wsent sent wc"
        using r n n0 ok v0
        by (cases y) (auto simp: walk_pair_def ibind_app Let_def iret_app dest!: quietD [OF quiet_notify [OF rec]] split: prod.splits sum.splits)
      then have "wsent sent w' = wsent sent w @ (if c then ?C else []) @ (if v then ?V else [])" using qa c(1) v(1) by simp
      then show ?thesis by (rule that) (use c(2) seen in blast)+
    qed
  qed
qed

subsection \<open>Rounds of a pass\<close>

definition walk_start :: "buffered_pair list \<Rightarrow> session \<Rightarrow> walk_state" where
  "walk_start pairs se =
     \<lparr>ws_session = se, ws_buffer = Buffer_new pairs (obs_of se), ws_data = True, ws_leaves = True, ws_parent = True, ws_limited = False\<rparr>"

text \<open>The rounds that a pass can reach, with the state and the world in which they begin.\<close>

inductive round_at ::
  "('info, 's) publisher \<Rightarrow> disk_plan \<Rightarrow> session \<Rightarrow> buffered_pair list \<Rightarrow> nat \<Rightarrow> walk_state \<Rightarrow> 's pub_world \<Rightarrow> bool"
  for pu plan se
where
  first_round:
    "inventory_pass pu True plan se w0 = (Inr (se', pairs), w1) \<Longrightarrow> retryable se' \<Longrightarrow>
     node_block_hash (ul_plan (pu_lib pu)) (pu_node pu) height w1 = (Inr current, w) \<Longrightarrow>
     round_at pu plan se pairs 0 (walk_start pairs se') w"
| next_round:
    "round_at pu plan se pairs i ws w \<Longrightarrow> i < length pairs \<Longrightarrow> walk_pair pu plan i (pairs ! i) ws w = (Inr ws', w') \<Longrightarrow>
     retryable (ws_session ws') \<Longrightarrow> blocked_reason (ws_session ws') = [] \<Longrightarrow>
     round_at pu plan se pairs (Suc i) ws' w'"

inductive_cases round_zeroE: "round_at pu plan se pairs 0 ws w"

lemma round_flags:
  "round_at pu plan se pairs i ws w \<Longrightarrow> obs_of se = [] \<Longrightarrow> flags_true pairs i ws"
proof (induction rule: round_at.induct)
  case (first_round w0 se' pairs w1 height current w)
  then show ?case using resultsD [OF inventory_pass_obs first_round.hyps(1)] by (simp add: flags_true_def walk_start_def)
qed (rule walk_pair_flags)

text \<open>The loop goes through the rounds: where it stops, a reachable round or the state after one.\<close>

lemma walk_loop_rounds:
  "walk_loop pu plan i (drop i pairs) ws w = (r, w') \<Longrightarrow> round_at pu plan se pairs i ws w \<Longrightarrow> i \<le> length pairs \<Longrightarrow>
   (\<exists>ws1. r = Inr ws1 \<and> round_at pu plan se pairs (length pairs) ws1 w') \<or>
   (\<exists>j ws1 w1. j < length pairs \<and> round_at pu plan se pairs j ws1 w1 \<and> walk_pair pu plan j (pairs ! j) ws1 w1 = (r, w'))"
proof (induction "length pairs - i" arbitrary: i ws w)
  case 0
  then show ?case by (auto simp: iret_app)
next
  case (Suc n)
  then have i: "i < length pairs" by simp
  then have d: "drop i pairs = pairs ! i # drop (Suc i) pairs" by (simp add: Cons_nth_drop_Suc)
  obtain x w1 where x: "walk_pair pu plan i (pairs ! i) ws w = (x, w1)" by (metis surj_pair)
  show ?case
  proof (cases "\<exists>ws1. x = Inr ws1 \<and> retryable (ws_session ws1) \<and> blocked_reason (ws_session ws1) = []")
    case True
    then obtain ws1 where ws1: "x = Inr ws1" "retryable (ws_session ws1)" "blocked_reason (ws_session ws1) = []" by blast
    have "walk_loop pu plan (Suc i) (drop (Suc i) pairs) ws1 w1 = (r, w')" using Suc.prems(1) x ws1 by (simp add: d ibind_app)
    moreover have "round_at pu plan se pairs (Suc i) ws1 w1" using Suc.prems(2) i x ws1 by (auto intro: next_round)
    ultimately show ?thesis using Suc.hyps(1) [of "Suc i" ws1 w1] Suc.hyps(2) i by simp
  next
    case False
    then have "(r, w') = (x, w1)" using Suc.prems(1) x by (cases x) (auto simp: d ibind_app iret_app)
    then show ?thesis using Suc.prems(2) i x by blast
  qed
qed

end
