(* ===== verification/Disk_Publish_Log.thy ===== *)
theory Disk_Publish_Log
  imports Disk_Publish_Safety
begin

section \<open>The log of observations is written ahead\<close>

text \<open>
  What a pass appends to the log and what it sends are tracked together: the sends of an action are
  covered by the transactions that were known before it or that it has logged. A call may fail at any
  point, so this holds for every point at which a pass can stop.
\<close>

definition log_of :: "'s pub_world \<Rightarrow> bytes" where
  "log_of w = (case bw_log w of None \<Rightarrow> [] | Some c \<Rightarrow> c)"

definition log_lines :: "('info, 's) publisher \<Rightarrow> publish_report list \<Rightarrow> bytes" where
  "log_lines pu reports = concat (map (\<lambda>r. pu_line_json pu r @ [NEWLINE]) reports)"

definition listed :: "publish_report list \<Rightarrow> string set" where
  "listed reports = (\<Union>r \<in> set reports. ts_txid ` set (rp_transactions r))"

definition known :: "session \<Rightarrow> string set" where
  "known se = dom (map_of (se_history se))"

definition covered :: "('info, 's) publisher \<Rightarrow> string set \<Rightarrow> string \<Rightarrow> bool" where
  "covered pu D raw \<longleftrightarrow> (\<exists>tx. decode_tx (ul_plan (pu_lib pu)) raw TX_HEX_LIMIT = Inr tx \<and>
     pl_hash_text (ul_plan (pu_lib pu)) (e_txid (pl_env (ul_plan (pu_lib pu))) tx) \<in> D)"

lemma log_lines_append [simp]: "log_lines pu (xs @ ys) = log_lines pu xs @ log_lines pu ys"
  and log_lines_Nil [simp]: "log_lines pu [] = []"
  by (simp_all add: log_lines_def)

lemma listed_append [simp]: "listed (xs @ ys) = listed xs \<union> listed ys" and listed_Nil [simp]: "listed [] = {}"
  by (auto simp: listed_def)

lemma covered_mono: "covered pu D raw \<Longrightarrow> D \<subseteq> E \<Longrightarrow> covered pu E raw"
  unfolding covered_def by blast

subsection \<open>Actions that leave the log alone\<close>

definition log_same :: "('s, 'a) node_act \<Rightarrow> bool" where
  "log_same m \<longleftrightarrow> (\<forall>w. bw_log (snd (m w)) = bw_log w)"

lemma log_sameI: "(\<And>w. bw_log (snd (m w)) = bw_log w) \<Longrightarrow> log_same m"
  by (simp add: log_same_def)

lemma log_sameD: "log_same m \<Longrightarrow> m w = (r, w') \<Longrightarrow> bw_log w' = bw_log w"
  unfolding log_same_def by (metis snd_conv)

lemma same_simple: "log_same (iret x)" "log_same (ithrow e)" "log_same (ilift r)" "log_same (icheck c e)" "log_same (on_state n)"
  by (auto intro!: log_sameI simp: act_apps on_state_def on_world_def split: prod.split)

lemma same_bind: "log_same m \<Longrightarrow> (\<And>x. log_same (k x)) \<Longrightarrow> log_same (ibind m k)"
  unfolding log_same_def ibind_app by (auto split: prod.split sum.split) (metis snd_conv)+

lemma same_if: "log_same m \<Longrightarrow> log_same n \<Longrightarrow> log_same (if c then m else n)"
  by simp

lemmas same_rules = same_simple same_bind same_if

lemma same_now: "log_same (node_now node)"
  unfolding node_now_def by (rule same_rules)

lemma same_parent_loop: "log_same (parent_loop node inputs)"
proof (induction inputs)
  case (Cons input inputs)
  have "log_same (ibind (node_now node) (\<lambda>t. if t - ak_when parent < SUBMISSION_ACK_WINDOW
      then iret (PreferProvider (ak_provider parent)) else parent_loop node inputs))" for parent
    by (intro same_rules same_now Cons.IH)
  then show ?case using Cons.IH by (auto simp: log_same_def split: option.splits)
qed (simp add: same_rules)

lemma same_node_call: "log_same (node_call lib node method args)"
proof -
  have "log_same (remember_acknowledged lib node v label)" for v label
    unfolding remember_acknowledged_def by (intro same_rules same_now) (auto intro!: log_sameI)
  then show ?thesis
    unfolding node_call_def parent_provider_def
    by (auto intro!: same_rules same_parent_loop split: backend.split prod.split)
qed

lemma same_presence_cached: "log_same (presence_cached lib node txid blocks)"
proof -
  have incl: "log_same (inclusion lib node v blocks)" for v
    unfolding inclusion_def by (intro same_rules) (auto split: option.splits intro!: same_rules same_node_call)
  have found: "log_same (ibind (ilift (confirmations_of v)) (\<lambda>n. if n \<le> 0 then iret (InMempool, blocks) else inclusion lib node v blocks))" for v
    by (intro same_rules incl)
  have aged: "log_same (ibind (node_now node) (\<lambda>t. iret (t - ak_when parent < SUBMISSION_ACK_WINDOW)))" for parent
    by (intro same_rules same_now)
  have "log_same (recently_acknowledged node txid)"
    using aged unfolding recently_acknowledged_def log_same_def by (auto split: option.split)
  then have lag: "log_same (ibind (recently_acknowledged node txid) (\<lambda>r. iret (if r then InMempool else Absent, blocks)))"
    by (intro same_rules)
  show ?thesis
  proof (rule log_sameI)
    fix w
    obtain r w1 where c: "node_call lib node ''getrawtransaction'' [VStr (pl_hash_text lib txid), VBool True] w = (r, w1)"
      by (metis surj_pair)
    show "bw_log (snd (presence_cached lib node txid blocks w)) = bw_log w"
      using log_sameD [OF same_node_call c] found lag unfolding presence_cached_def c
      by (cases r) (auto simp: log_same_def split: rt_error.splits)
  qed
qed

lemma same_presence: "log_same (presence_of lib node txid)"
  unfolding presence_of_def by (intro same_bind same_presence_cached) (auto split: prod.splits intro: same_rules)

lemma same_broadcast: "log_same (broadcast lib node raw)"
proof -
  have parents: "log_same (parent_in_mempool (ul_plan lib) node inputs pending)" for inputs pending
    by (induction inputs arbitrary: pending) (auto intro!: same_rules same_presence)
  have answer: "log_same (\<lambda>w. case node_call (ul_plan lib) node ''testmempoolaccept'' [VArray [VStr raw]] w of
       (Inl cause, w') \<Rightarrow> (if is_public node then Inr (PreflightUnavailable (ul_error_text lib cause)) else Inl cause, w')
     | (Inr acceptance, w') \<Rightarrow> k acceptance w')" if k: "\<And>v. log_same (k v)" for k
  proof (rule log_sameI)
    fix w
    obtain r w1 where c: "node_call (ul_plan lib) node ''testmempoolaccept'' [VArray [VStr raw]] w = (r, w1)" by (metis surj_pair)
    show "bw_log (snd (case node_call (ul_plan lib) node ''testmempoolaccept'' [VArray [VStr raw]] w of
       (Inl cause, w') \<Rightarrow> (if is_public node then Inr (PreflightUnavailable (ul_error_text lib cause)) else Inl cause, w')
     | (Inr acceptance, w') \<Rightarrow> k acceptance w')) = bw_log w"
      using log_sameD [OF same_node_call c] k unfolding c by (cases r) (simp_all add: log_same_def)
  qed
  have accept: "log_same (test_accept lib node raw)"
    unfolding test_accept_def Let_def by (intro same_rules, rule answer, intro same_rules)
  have submit: "log_same (submit lib node raw txid pending)" for txid pending
  proof (rule log_sameI)
    fix w
    obtain r w1 where c: "node_call (ul_plan lib) node ''sendrawtransaction'' [VStr raw] w = (r, w1)" by (metis surj_pair)
    have lost: "log_same (ibind (presence_of (ul_plan lib) node txid) (\<lambda>p. if p = Absent
        then (if temporary_rejection e then iret ''mempool full'' else if pending then iret AWAITING_PARENT else ithrow e) else iret []))" for e
      by (intro same_rules same_presence)
    show "bw_log (snd (submit lib node raw txid pending w)) = bw_log w"
      using log_sameD [OF same_node_call c] lost unfolding submit_def c
      by (cases r) (simp_all add: log_same_def ibind_app icheck_def iret_app ithrow_app)
  qed
  show ?thesis
    unfolding broadcast_def Let_def
    by (intro same_rules parents accept) (auto split: mempool_check.splits intro!: same_rules submit)
qed

subsection \<open>Sends covered by the log\<close>

text \<open>
  From \<open>w\<close> to \<open>w'\<close> the log grows by the lines of some reports, and after an error by the beginning of
  one more; what is sent is covered by \<open>D\<close> and these reports, and so is what the result knows.
\<close>

definition wal_step ::
  "('info, 's) publisher \<Rightarrow> ('s \<Rightarrow> string list) \<Rightarrow> string set \<Rightarrow> 's pub_world \<Rightarrow> string set option \<Rightarrow> 's pub_world \<Rightarrow> bool" where
  "wal_step pu sent D w K w' \<longleftrightarrow> (\<exists>reports torn new.
     log_of w' = log_of w @ log_lines pu reports @ torn \<and> wsent sent w' = wsent sent w @ new \<and>
     (\<forall>raw \<in> set new. covered pu (D \<union> listed reports) raw) \<and>
     (\<forall>k. K = Some k \<longrightarrow> torn = [] \<and> k \<subseteq> D \<union> listed reports))"

fun result_knows :: "('a \<Rightarrow> session) \<Rightarrow> rt_error + 'a \<Rightarrow> string set option" where
  "result_knows f (Inl e) = None"
| "result_knows f (Inr x) = Some (known (f x))"

definition wal :: "('info, 's) publisher \<Rightarrow> ('s \<Rightarrow> string list) \<Rightarrow> string set \<Rightarrow> ('a \<Rightarrow> session) \<Rightarrow> ('s, 'a) node_act \<Rightarrow> bool" where
  "wal pu sent D f m \<longleftrightarrow> (\<forall>w r w'. m w = (r, w') \<longrightarrow> wal_step pu sent D w (result_knows f r) w')"

lemma walI: "(\<And>w r w'. m w = (r, w') \<Longrightarrow> wal_step pu sent D w (result_knows f r) w') \<Longrightarrow> wal pu sent D f m"
  and walD: "wal pu sent D f m \<Longrightarrow> m w = (r, w') \<Longrightarrow> wal_step pu sent D w (result_knows f r) w'"
  unfolding wal_def by blast+

lemma wal_stepI:
  "log_of w' = log_of w @ log_lines pu reports @ torn \<Longrightarrow> wsent sent w' = wsent sent w @ new \<Longrightarrow>
   (\<And>raw. raw \<in> set new \<Longrightarrow> covered pu (D \<union> listed reports) raw) \<Longrightarrow>
   (\<And>k. K = Some k \<Longrightarrow> torn = [] \<and> k \<subseteq> D \<union> listed reports) \<Longrightarrow> wal_step pu sent D w K w'"
  unfolding wal_step_def by blast

lemma wal_same:
  assumes "log_same m" "sends sent R m" "\<And>new raw. new \<in> R \<Longrightarrow> raw \<in> set new \<Longrightarrow> covered pu D raw"
    "\<And>w x w'. m w = (Inr x, w') \<Longrightarrow> known (f x) \<subseteq> D"
  shows "wal pu sent D f m"
proof (rule walI)
  fix w r w' assume m: "m w = (r, w')"
  obtain new where new: "new \<in> R" "wsent sent w' = wsent sent w @ new" using sendsD [OF assms(2) m] by blast
  show "wal_step pu sent D w (result_knows f r) w'"
  proof (rule wal_stepI [OF _ new(2)])
    show "log_of w' = log_of w @ log_lines pu [] @ []" using log_sameD [OF assms(1) m] by (simp add: log_of_def)
    show "covered pu (D \<union> listed []) raw" if "raw \<in> set new" for raw using assms(3) [OF new(1) that] by simp
    show "[] = [] \<and> k \<subseteq> D \<union> listed []" if "result_knows f r = Some k" for k
      using that assms(4) m by (cases r) auto
  qed
qed

lemma wal_ret: "known (f x) \<subseteq> D \<Longrightarrow> wal pu sent D f (iret x)"
  by (rule wal_same [OF same_simple(1) quiet_ret]) (auto simp: iret_app)

lemma wal_step_trans:
  assumes "wal_step pu sent D w (Some k) w1" "\<And>E. D \<subseteq> E \<Longrightarrow> k \<subseteq> E \<Longrightarrow> wal_step pu sent E w1 K w'"
  shows "wal_step pu sent D w K w'"
proof -
  obtain reports new where 1: "log_of w1 = log_of w @ log_lines pu reports" "wsent sent w1 = wsent sent w @ new"
    "\<forall>raw \<in> set new. covered pu (D \<union> listed reports) raw" "k \<subseteq> D \<union> listed reports"
    using assms(1) unfolding wal_step_def by auto
  have "wal_step pu sent (D \<union> listed reports) w1 K w'" using 1(4) by (intro assms(2)) auto
  then obtain reports2 torn2 new2 where 2: "log_of w' = log_of w1 @ log_lines pu reports2 @ torn2" "wsent sent w' = wsent sent w1 @ new2"
    "\<forall>raw \<in> set new2. covered pu (D \<union> listed reports \<union> listed reports2) raw"
    "\<forall>k. K = Some k \<longrightarrow> torn2 = [] \<and> k \<subseteq> D \<union> listed reports \<union> listed reports2"
    unfolding wal_step_def by (elim exE conjE) (rule that)
  show ?thesis
  proof (rule wal_stepI)
    show "log_of w' = log_of w @ log_lines pu (reports @ reports2) @ torn2" "wsent sent w' = wsent sent w @ new @ new2"
      using 1(1,2) 2(1,2) by simp_all
    have sub: "D \<union> listed reports \<subseteq> D \<union> listed (reports @ reports2)"
      "D \<union> listed reports \<union> listed reports2 \<subseteq> D \<union> listed (reports @ reports2)" by auto
    show "covered pu (D \<union> listed (reports @ reports2)) raw" if "raw \<in> set (new @ new2)" for raw
    proof (cases "raw \<in> set new")
      case True
      then show ?thesis using 1(3) by (intro covered_mono [OF _ sub(1)]) blast
    next
      case False
      then have "raw \<in> set new2" using that by simp
      then show ?thesis using 2(3) by (intro covered_mono [OF _ sub(2)]) blast
    qed
    show "torn2 = [] \<and> k \<subseteq> D \<union> listed (reports @ reports2)" if "K = Some k" for k using 2(4) that by (auto simp: Un_assoc)
  qed
qed

lemma wal_bind:
  assumes m: "wal pu sent D f m" and k: "\<And>x E w w'. D \<subseteq> E \<Longrightarrow> known (f x) \<subseteq> E \<Longrightarrow> m w = (Inr x, w') \<Longrightarrow> wal pu sent E g (k x)"
  shows "wal pu sent D g (ibind m k)"
proof (rule walI)
  fix w r w' assume b: "ibind m k w = (r, w')"
  obtain r1 w1 where m1: "m w = (r1, w1)" by (metis surj_pair)
  note step = walD [OF m m1]
  show "wal_step pu sent D w (result_knows g r) w'"
  proof (cases r1)
    case (Inl e)
    then have "r = Inl e" "w' = w1" using b m1 by (simp_all add: ibind_app)
    then show ?thesis using step Inl by simp
  next
    case (Inr x)
    then have "k x w1 = (r, w')" using b m1 by (simp add: ibind_app)
    then have "wal_step pu sent E w1 (result_knows g r) w'" if "D \<subseteq> E" "known (f x) \<subseteq> E" for E using walD [OF k [OF that m1 [unfolded Inr]]] by blast
    then show ?thesis using step [unfolded Inr result_knows.simps] by (rule_tac wal_step_trans)
  qed
qed

text \<open>Actions that send nothing and leave the log alone, followed by one that is covered.\<close>

lemma wal_then:
  assumes "log_same m" "quiet sent m" "\<And>x. wal pu sent D g (k x)"
  shows "wal pu sent D g (ibind m k)"
proof (rule walI)
  fix w r w' assume b: "ibind m k w = (r, w')"
  obtain r1 w1 where m1: "m w = (r1, w1)" by (metis surj_pair)
  have same: "log_of w1 = log_of w" "wsent sent w1 = wsent sent w"
    using log_sameD [OF assms(1) m1] quietD [OF assms(2) m1] by (simp_all add: log_of_def)
  show "wal_step pu sent D w (result_knows g r) w'"
  proof (cases r1)
    case (Inl e)
    then have "r = Inl e" "w' = w1" using b m1 by (simp_all add: ibind_app)
    then show ?thesis using same by (intro wal_stepI [of _ _ _ "[]" "[]" _ "[]"]) simp_all
  next
    case (Inr x)
    then have "k x w1 = (r, w')" using b m1 by (simp add: ibind_app)
    from walD [OF assms(3) this] show ?thesis unfolding wal_step_def same .
  qed
qed

lemma wal_if: "wal pu sent D f m \<Longrightarrow> wal pu sent D f n \<Longrightarrow> wal pu sent D f (if c then m else n)"
  by simp

subsection \<open>The passes\<close>

lemma known_update: "known (se\<lparr>se_history := AList.update txid p (se_history se)\<rparr>) = insert txid (known se)"
  by (auto simp: known_def update_conv' split: if_splits)

lemma wal_remember:
  assumes rec: "records_sends pu sent" and se: "known se \<subseteq> D"
  shows "wal pu sent D id (remember pu txid p se)"
proof (cases "map_of (se_history se) txid = Some p")
  case True
  then show ?thesis using se by (simp add: remember_def wal_ret)
next
  case False
  let ?report = "(pg_report (se_progress se))\<lparr>rp_transactions := [\<lparr>ts_txid = txid, ts_presence = p\<rparr>]\<rparr>"
  let ?bs = "pu_line_json pu ?report @ [NEWLINE]"
  have list: "listed [?report] = {txid}" by (simp add: listed_def)
  show ?thesis
  proof (rule walI)
    fix w r w' assume r: "remember pu txid p se w = (r, w')"
    obtain failure s' where a: "pf_append (pu_files pu) (w_state (bw_world w)) ?bs = (failure, s')" by (metis surj_pair)
    have q: "wsent sent w' = wsent sent w @ []" using quietD [OF quiet_remember [OF rec] r] by simp
    show "wal_step pu sent D w (result_knows id r) w'"
    proof (cases failure)
      case None
      then have w': "r = Inr (se\<lparr>se_history := AList.update txid p (se_history se)\<rparr>)" "log_of w' = log_of w @ ?bs"
        using r a False by (auto simp: remember_def observe_def ibind_app iret_app Let_def log_of_def)
      show ?thesis
        by (rule wal_stepI [of _ _ _ "[?report]" "[]" _ "[]", OF _ q])
          (use w' se in \<open>simp_all add: log_lines_def list known_update subset_insertI2\<close>)
    next
      case (Some f)
      obtain n e where f: "f = (n, e)" by (cases f)
      have w': "r = Inl e" "log_of w' = log_of w @ (case n of None \<Rightarrow> [] | Some n \<Rightarrow> take n ?bs)"
        using r a False Some f by (auto simp: remember_def observe_def ibind_app iret_app Let_def log_of_def split: option.splits)
      show ?thesis
        by (rule wal_stepI [of _ _ _ "[]" "case n of None \<Rightarrow> [] | Some n \<Rightarrow> take n ?bs" _ "[]", OF _ q]) (use w' in simp_all)
    qed
  qed
qed

lemma remember_knows:
  assumes "remember pu txid p se w = (Inr se', w')"
  shows "txid \<in> known se'"
proof (cases "map_of (se_history se) txid = Some p")
  case True
  then show ?thesis using assms by (auto simp: remember_def known_def iret_app)
next
  case False
  then have "se' = se\<lparr>se_history := AList.update txid p (se_history se)\<rparr>"
    using assms by (auto simp: remember_def ibind_app iret_app split: prod.splits sum.splits)
  then show ?thesis by (simp add: known_update)
qed

lemma wal_pure: "known se \<subseteq> D \<Longrightarrow> wal pu sent D (\<lambda>_. se) (ilift r)"
  by (rule wal_same [OF same_simple(3) quiet_lift]) auto

lemma wal_lookup:
  assumes "log_same m" "quiet sent m" "\<And>e. known (f (g e)) \<subseteq> D" "\<And>p b. wal pu sent D f (k p b)"
  shows "wal pu sent D f (\<lambda>w. case m w of (Inl e, w') \<Rightarrow> (Inr (g e), w') | (Inr (p, b), w') \<Rightarrow> k p b w')"
proof (rule walI)
  fix w r w' assume b: "(case m w of (Inl e, w') \<Rightarrow> (Inr (g e), w') | (Inr (p, b), w') \<Rightarrow> k p b w') = (r, w')"
  obtain r1 w1 where m1: "m w = (r1, w1)" by (metis surj_pair)
  have same: "log_of w1 = log_of w" "wsent sent w1 = wsent sent w"
    using log_sameD [OF assms(1) m1] quietD [OF assms(2) m1] by (simp_all add: log_of_def)
  show "wal_step pu sent D w (result_knows f r) w'"
  proof (cases r1)
    case (Inl e)
    then have "r = Inr (g e)" "w' = w1" using b m1 by simp_all
    then show ?thesis using same assms(3) [of e] by (intro wal_stepI [of _ _ _ "[]" "[]" _ "[]"]) auto
  next
    case (Inr x)
    obtain p bl where "x = (p, bl)" by (cases x)
    then have "k p bl w1 = (r, w')" using b m1 Inr by simp
    from walD [OF assms(4) this] show ?thesis unfolding wal_step_def same .
  qed
qed

lemma known_simps [simp]:
  "known (se\<lparr>se_blocks := b\<rparr>) = known se" "known (blocked se reason) = known se" "known (set_retryable se c) = known se"
  "known (push_observation se text role st) = known se" "known (push_status se text p) = known se"
  "known (se\<lparr>se_progress := pr\<rparr>) = known se"
  by (simp_all add: known_def blocked_def set_retryable_def push_observation_def push_status_def)

lemma wal_send_missing:
  assumes rec: "records_sends pu sent" and se: "known se \<subseteq> D" and tx: "decode_tx (ul_plan (pu_lib pu)) raw TX_HEX_LIMIT = Inr tx"
  shows "wal pu sent D fst (send_missing pu raw (e_txid (pl_env (ul_plan (pu_lib pu))) tx) se)"
  unfolding send_missing_def Let_def
proof (rule wal_bind [OF wal_remember [OF rec se]])
  fix se1 E w w'
  let ?txid = "e_txid (pl_env (ul_plan (pu_lib pu))) tx"
  assume E: "D \<subseteq> E" "known (id se1) \<subseteq> E" and r: "remember pu (pl_hash_text (ul_plan (pu_lib pu)) ?txid) Absent se w = (Inr se1, w')"
  have cov: "covered pu E raw" using remember_knows [OF r] E tx unfolding covered_def by auto
  have b: "wal pu sent E (\<lambda>_. se1) (broadcast (pu_lib pu) (pu_node pu) raw)"
    by (rule wal_same [OF same_broadcast sends_broadcast [OF rec]]) (use cov E in auto)
  show "wal pu sent E fst (ibind (broadcast (pu_lib pu) (pu_node pu) raw) (\<lambda>reason.
     if reason = [] then
       ibind (presence_cached (ul_plan (pu_lib pu)) (pu_node pu) ?txid (se_blocks se1)) (\<lambda>(p, blocks).
       iret (if p = Absent then blocked (se1\<lparr>se_blocks := blocks\<rparr>) ''submission not yet observable; waiting before spending its change'' else se1\<lparr>se_blocks := blocks\<rparr>, p))
     else
       iret (blocked (set_retryable se1 (reason = ''mempool full'')) (reason @ ''; approved fees unchanged''), Absent)))"
    by (rule wal_bind [OF b], rule wal_if, rule wal_then [OF same_presence_cached quiet_presence_cached [OF rec]])
      (auto intro!: wal_ret split: prod.split)
qed

lemma wal_transaction_pass:
  assumes rec: "records_sends pu sent" and se: "known se \<subseteq> D"
  shows "wal pu sent D fst (transaction_pass pu submitting raw role eligible se)"
  unfolding transaction_pass_def Let_def
proof (rule wal_bind [OF wal_pure [OF se]])
  fix tx E w and w' :: "'b pub_world"
  let ?lib = "ul_plan (pu_lib pu)" let ?txid = "e_txid (pl_env ?lib) tx"
  assume E: "D \<subseteq> E" "known se \<subseteq> E" and dec: "ilift (decode_tx ?lib raw TX_HEX_LIMIT) w = (Inr tx, w')"
  have tx: "decode_tx ?lib raw TX_HEX_LIMIT = Inr tx" using dec by (simp add: ilift_app)
  have first: "wal pu sent E fst (if eligible \<and> p = Absent then send_missing pu raw ?txid (se\<lparr>se_blocks := blocks\<rparr>) else iret (se\<lparr>se_blocks := blocks\<rparr>, p))"
    for p blocks using E by (auto intro!: wal_send_missing [OF rec _ tx] wal_ret)
  have last: "wal pu sent F fst (ibind (if c then remember pu t p1 se1 else iret se1) (\<lambda>se2.
      iret (push_observation (push_status se2 t p1) t role st, st)))" if "known se1 \<subseteq> F" for F c t p1 se1 st
    by (rule wal_bind [of pu sent F id]) (use that in \<open>auto intro!: wal_ret wal_remember [OF rec]\<close>)
  show "wal pu sent E fst (\<lambda>w. case presence_cached ?lib (pu_node pu) ?txid (se_blocks se) w of
       (Inl e, w') \<Rightarrow> (Inr (set_retryable (blocked (push_observation se (pl_hash_text ?lib ?txid) role (SourceUnavailable (ul_error_text (pu_lib pu) e)))
           (''source unavailable: '' @ ul_error_text (pu_lib pu) e)) False, SourceUnavailable (ul_error_text (pu_lib pu) e)), w')
     | (Inr (p, blocks), w') \<Rightarrow>
         ibind (if eligible \<and> p = Absent then send_missing pu raw ?txid (se\<lparr>se_blocks := blocks\<rparr>) else iret (se\<lparr>se_blocks := blocks\<rparr>, p)) (\<lambda>(se1, p1).
         ibind (if submitting \<and> (map_of (se_history se1) (pl_hash_text ?lib ?txid) \<noteq> None \<or> p1 \<noteq> Absent) then remember pu (pl_hash_text ?lib ?txid) p1 se1 else iret se1) (\<lambda>se2.
         iret (push_observation (push_status se2 (pl_hash_text ?lib ?txid) p1) (pl_hash_text ?lib ?txid) role
             (pub_state_of p1 (map_of (se_history se1) (pl_hash_text ?lib ?txid) \<noteq> None)),
           pub_state_of p1 (map_of (se_history se1) (pl_hash_text ?lib ?txid) \<noteq> None)))) w')"
    by (rule wal_lookup [OF same_presence_cached quiet_presence_cached [OF rec]], use E(2) in simp, rule wal_bind [OF first],
        split prod.split, intro allI impI, rule last, simp)
qed

lemma same_notify: "log_same (notify pu se)"
  unfolding notify_def by (rule same_rules)

lemma wal_notify:
  assumes "records_sends pu sent" "\<And>x. wal pu sent D g (k x)"
  shows "wal pu sent D g (ibind (notify pu se) k)"
  by (rule wal_then [OF same_notify quiet_notify [OF assms(1)] assms(2)])

lemma wal_lift:
  assumes "\<And>x. wal pu sent D g (k x)"
  shows "wal pu sent D g (ibind (ilift r) k)"
  by (rule wal_then [OF same_simple(3) quiet_lift assms])

lemma wal_inventory_pairs:
  assumes rec: "records_sends pu sent"
  shows "known se \<subseteq> D \<Longrightarrow> wal pu sent D fst (inventory_pairs pu submitting plan index n se pairs)"
proof (induction n arbitrary: index se pairs D)
  case 0
  then show ?case by (simp add: wal_ret)
next
  case (Suc n)
  have second: "wal pu sent E fst (ibind (transaction_pass pu submitting raw role False se1) (\<lambda>(se2, _).
       if \<not> retryable se2 then iret (se2, ps) else inventory_pairs pu submitting plan (Suc index) n se2 ps))"
    if "known se1 \<subseteq> E" for E raw role se1 ps
    by (rule wal_bind [OF wal_transaction_pass [OF rec that]]) (auto intro!: wal_ret Suc.IH split: prod.split)
  show ?case
    unfolding inventory_pairs.simps Let_def
    by (intro wal_notify [OF rec] wal_lift, rule wal_bind [OF wal_transaction_pass [OF rec Suc.prems]])
      (auto intro!: wal_ret second split: prod.split)
qed

lemma wal_submit_record:
  assumes rec: "records_sends pu sent" and se: "known se \<subseteq> D"
  shows "wal pu sent D fst (submit_record pu plan index offset c se)"
  unfolding submit_record_def Let_def
  by (rule wal_lift, rule wal_bind [OF wal_transaction_pass [OF rec se]]) (auto intro!: wal_ret split: prod.split)

abbreviation walked :: "walk_state \<times> pub_state \<Rightarrow> session" where
  "walked x \<equiv> ws_session (fst x)"

lemma wal_walk_pair:
  assumes rec: "records_sends pu sent" and se: "known (ws_session ws) \<subseteq> D"
  shows "wal pu sent D ws_session (walk_pair pu plan i pair ws)"
proof -
  have commit: "wal pu sent D walked (walk_commit pu plan i pair ws)"
    unfolding walk_commit_def Let_def using se
    by (auto intro!: wal_ret wal_bind [OF wal_submit_record [OF rec se]] split: prod.split)
  have reveal: "wal pu sent E walked (walk_reveal pu plan i pair commit ws1)" if "known (ws_session ws1) \<subseteq> E" for E commit ws1
    unfolding walk_reveal_def Let_def using that
    by (auto intro!: wal_ret wal_bind [OF wal_submit_record [OF rec that]] split: prod.split)
  have rest: "wal pu sent E ws_session (ibind (walk_reveal pu plan i pair commit (ws1\<lparr>ws_parent := is_out commit\<rparr>)) (\<lambda>(ws2, reveal).
     let ws3 = ws2\<lparr>ws_data := (if bp_role pair = ''data'' then ws_data ws2 \<and> is_out reveal else ws_data ws2),
                   ws_leaves := (if bp_role pair = ''leaf'' then ws_leaves ws2 \<and> is_out reveal else ws_leaves ws2)\<rparr> in
     ibind (notify pu (ws_session ws3)) (\<lambda>_. iret ws3)))" if "known (ws_session ws1) \<subseteq> E" for E commit ws1
    by (rule wal_bind [OF reveal]) (use that in \<open>auto intro!: wal_notify [OF rec] wal_ret simp: Let_def split: prod.split\<close>)
  show ?thesis
    unfolding walk_pair_def
    by (rule wal_notify [OF rec], rule wal_bind [OF commit], split prod.split, intro allI impI, rule rest, simp)
qed

lemma wal_walk_loop:
  assumes rec: "records_sends pu sent"
  shows "known (ws_session ws) \<subseteq> D \<Longrightarrow> wal pu sent D ws_session (walk_loop pu plan i pairs ws)"
proof (induction pairs arbitrary: i ws D)
  case (Cons pair pairs)
  show ?case
    unfolding walk_loop.simps
    by (rule wal_bind [OF wal_walk_pair [OF rec Cons.prems]]) (auto intro!: wal_ret Cons.IH)
qed (simp add: wal_ret)

lemma wal_walk:
  assumes rec: "records_sends pu sent"
  shows "wal pu sent (known se) id (walk pu submitting plan anchor se)"
proof -
  have inventory: "wal pu sent (known se) fst (inventory_pass pu submitting plan se)"
    unfolding inventory_pass_def Let_def
    by (rule wal_bind [OF wal_inventory_pairs [OF rec]]) (auto intro!: wal_notify [OF rec] wal_ret split: prod.split)
  have submit: "wal pu sent E id (submit_pairs pu plan pairs se')" if "known se' \<subseteq> E" for E pairs se'
    unfolding submit_pairs_def Let_def
    by (rule wal_bind [OF wal_walk_loop [OF rec]]) (use that in \<open>auto intro!: wal_ret\<close>)
  have hash: "log_same (node_block_hash lib (pu_node pu) h)" for lib h
    unfolding node_block_hash_def by (intro same_rules same_node_call)
  show ?thesis
    unfolding walk_def
    by (rule wal_bind [OF inventory], split prod.split, intro allI impI wal_if wal_ret wal_then [OF hash quiet_block_hash [OF rec]] submit) simp_all
qed

end
