(* ===== verification/Disk_Publish_Properties.thy ===== *)
theory Disk_Publish_Properties
  imports Disk_Publish_Log
begin

section \<open>Properties of the publication passes\<close>

text \<open>
  The theorem on what a round of the loop over the pairs may send, with a pass over a plan of one data
  part on which it is applied, and the theorem on a log of observations with a torn line.
\<close>

subsection \<open>Order\<close>

text \<open>
  C7: nothing is sent before what it builds on. In every round that a publication pass can reach, and
  whatever the node answers, the round sends at most the commit of its pair and then at most its reveal,
  and each of them only when it was not seen out itself and no rejection blocks the plan.
  It sends the commit only when the previous commit, whose change it spends, was seen in the mempool or
  a block and the budget of pending commits and unconfirmed weight admits the pair; it sends the reveal
  only when the commit was seen confirmed in this round, when the weight that has been broadcast and is
  not confirmed leaves room for it, for a leaf manifest when the reveals of all data parts before it are
  out, and for the root manifest when those of all data parts and leaf manifests before it are out.
\<close>
theorem sends_follow_dependencies:
  assumes "records_sends pu sent" "pg_observations (se_progress se) = []"
    "round_at pu plan se pairs i ws w" "i < length pairs" "walk_pair pu plan i (pairs ! i) ws w = (r, w')"
  shows "\<exists>c v. sent (w_state (bw_world w')) = sent (w_state (bw_world w)) @
       (if c then [raw_of pu plan i True] else []) @ (if v then [raw_of pu plan i False] else []) \<and>
     (c \<longrightarrow> (i = 0 \<or> is_out (observed_state (ws_session ws) ((i - 1) * 2))) \<and> admits (ws_buffer ws) (pairs ! i) \<and>
       is_open (observed_state (ws_session ws) (i * 2)) \<and> blocked_reason (ws_session ws) = []) \<and>
     (v \<longrightarrow> bf_broadcast_weight (ws_buffer ws) + bp_reveal_weight (pairs ! i) \<le> PUBLICATION_BUFFER_WEIGHT \<and>
       (\<exists>wa ws1 wb. walk_commit pu plan i (pairs ! i) ws wa = (Inr (ws1, Confirmed), wb) \<and>
          is_open (observed_state (ws_session ws1) (i * 2 + 1)) \<and> blocked_reason (ws_session ws1) = []) \<and>
       (\<forall>j < i. bp_role (pairs ! i) = ''leaf'' \<and> bp_role (pairs ! j) = ''data'' \<or>
                bp_role (pairs ! i) = ''root'' \<and> bp_role (pairs ! j) \<in> {''data'', ''leaf''} \<longrightarrow>
          is_out (observed_state (ws_session ws) (j * 2 + 1))))"
proof -
  note flags = round_flags [OF assms(3,2), unfolded flags_true_def]
  obtain c v where cv:
    "sent (w_state (bw_world w')) = sent (w_state (bw_world w)) @ (if c then [raw_of pu plan i True] else []) @ (if v then [raw_of pu plan i False] else [])"
    "c \<Longrightarrow> may_send_commit i (pairs ! i) ws"
    "v \<Longrightarrow> dependencies (pairs ! i) ws \<and> bf_broadcast_weight (ws_buffer ws) + bp_reveal_weight (pairs ! i) \<le> PUBLICATION_BUFFER_WEIGHT \<and>
       (\<exists>wa ws1 wb. walk_commit pu plan i (pairs ! i) ws wa = (Inr (ws1, Confirmed), wb) \<and>
          is_open (observed_state (ws_session ws1) (i * 2 + 1)) \<and> blocked_reason (ws_session ws1) = [])"
    using walk_pair_sends [OF assms(1,5)] by blast
  show ?thesis
  proof (rule exI [of _ c], rule exI [of _ v], intro conjI impI)
    assume c
    with cv(2) flags show "i = 0 \<or> is_out (observed_state (ws_session ws) ((i - 1) * 2))" "admits (ws_buffer ws) (pairs ! i)"
      "is_open (observed_state (ws_session ws) (i * 2))" "blocked_reason (ws_session ws) = []"
      by (auto simp: may_send_commit_def)
  next
    assume v
    note dep = cv(3) [OF this]
    show "bf_broadcast_weight (ws_buffer ws) + bp_reveal_weight (pairs ! i) \<le> PUBLICATION_BUFFER_WEIGHT"
      "\<exists>wa ws1 wb. walk_commit pu plan i (pairs ! i) ws wa = (Inr (ws1, Confirmed), wb) \<and>
          is_open (observed_state (ws_session ws1) (i * 2 + 1)) \<and> blocked_reason (ws_session ws1) = []"
      using dep by blast+
    show "\<forall>j < i. bp_role (pairs ! i) = ''leaf'' \<and> bp_role (pairs ! j) = ''data'' \<or>
                bp_role (pairs ! i) = ''root'' \<and> bp_role (pairs ! j) \<in> {''data'', ''leaf''} \<longrightarrow>
          is_out (observed_state (ws_session ws) (j * 2 + 1))"
      using dep flags by (auto simp: dependencies_def split: if_splits)
  qed (rule cv(1))
qed

subsection \<open>The record of what was sent\<close>

text \<open>
  C8: what a pass sends is on record first. However a pass over a plan ends, with a result or with any
  error, the log has grown by the lines of some reports, complete unless the pass failed, and for every
  raw transaction that was sent its id was already in the history with which the pass began or is in one
  of these lines. A process that is stopped and started again therefore finds every transaction it has
  sent.
\<close>
theorem sends_are_recorded:
  assumes "records_sends pu sent" "walk pu submitting plan anchor se w = (r, w')"
  shows "\<exists>reports torn new. log_of w' = log_of w @ log_lines pu reports @ torn \<and> (\<forall>x. r = Inr x \<longrightarrow> torn = []) \<and>
    sent (w_state (bw_world w')) = sent (w_state (bw_world w)) @ new \<and>
    (\<forall>raw \<in> set new. \<exists>tx. decode_tx (ul_plan (pu_lib pu)) raw TX_HEX_LIMIT = Inr tx \<and>
       (let txid = pl_hash_text (ul_plan (pu_lib pu)) (e_txid (pl_env (ul_plan (pu_lib pu))) tx) in
        map_of (se_history se) txid \<noteq> None \<or> (\<exists>report \<in> set reports. txid \<in> ts_txid ` set (rp_transactions report))))"
proof -
  obtain reports torn new where step: "log_of w' = log_of w @ log_lines pu reports @ torn" "wsent sent w' = wsent sent w @ new"
    "\<forall>raw \<in> set new. covered pu (known se \<union> listed reports) raw"
    "\<forall>k. result_knows id r = Some k \<longrightarrow> torn = [] \<and> k \<subseteq> known se \<union> listed reports"
    using walD [OF wal_walk [OF assms(1)] assms(2)] unfolding wal_step_def by (elim exE conjE) (rule that)
  have "\<forall>x. r = Inr x \<longrightarrow> torn = []" using step(4) by auto
  moreover have "\<exists>tx. decode_tx (ul_plan (pu_lib pu)) raw TX_HEX_LIMIT = Inr tx \<and>
       (let txid = pl_hash_text (ul_plan (pu_lib pu)) (e_txid (pl_env (ul_plan (pu_lib pu))) tx) in
        map_of (se_history se) txid \<noteq> None \<or> (\<exists>report \<in> set reports. txid \<in> ts_txid ` set (rp_transactions report)))"
    if "raw \<in> set new" for raw
    using step(3) that unfolding covered_def known_def listed_def Let_def by fastforce
  ultimately show ?thesis using step(1,2) by blast
qed

subsection \<open>A torn line of the log\<close>

lemma newline_prefix: "NEWLINE \<notin> set line \<Longrightarrow> takeWhile (\<lambda>b. b \<noteq> NEWLINE) (line @ NEWLINE # rest) = line"
  by (induction line) auto

lemma line_of_line: "NEWLINE \<notin> set line \<Longrightarrow> line_of (line @ NEWLINE # rest) = line @ [NEWLINE]"
  using newline_prefix [of line rest]
  by (auto simp: line_of_def Let_def)

lemma line_of_torn:
  assumes "NEWLINE \<notin> set line"
  shows "line_of line = line"
proof -
  have all: "takeWhile (\<lambda>b. b \<noteq> NEWLINE) line = line" using assms by (induction line) auto
  show ?thesis unfolding line_of_def Let_def all by simp
qed

lemma line_of_append:
  assumes "content \<noteq> []" "last content = NEWLINE"
  shows "line_of (content @ rest) = line_of content" "length (line_of content) \<le> length content"
    "drop (length (line_of content)) content = [] \<or> last (drop (length (line_of content)) content) = NEWLINE"
proof -
  have "NEWLINE \<in> set content" using assms last_in_set by metis
  then obtain a b where ab: "content = a @ NEWLINE # b" "NEWLINE \<notin> set a" using split_list_first by metis
  show "line_of (content @ rest) = line_of content" "length (line_of content) \<le> length content"
    "drop (length (line_of content)) content = [] \<or> last (drop (length (line_of content)) content) = NEWLINE"
    using assms ab line_of_line [OF ab(2), of "b @ rest"] line_of_line [OF ab(2), of b] by (auto split: if_splits)
qed

lemma line_of_complete:
  assumes "content \<noteq> []" "last content = NEWLINE"
  shows "last (line_of content) = NEWLINE"
proof -
  have "NEWLINE \<in> set content" using assms last_in_set by metis
  then obtain a b where ab: "content = a @ NEWLINE # b" "NEWLINE \<notin> set a" using split_list_first by metis
  then show ?thesis using line_of_line by simp
qed

text \<open>Complete lines are read one after the other.\<close>

lemma history_lines_append:
  "history_lines pu i content h = Inr h1 \<Longrightarrow> content = [] \<or> last content = NEWLINE \<Longrightarrow>
   history_lines pu i (content @ rest) h = history_lines pu i rest h1"
proof (induction pu i content h rule: history_lines.induct)
  case (2 pu i b bs h)
  let ?content = "b # bs" and ?line = "line_of (b # bs)"
  note c = line_of_append [of ?content] line_of_complete [of ?content]
  have nl: "last ?content = NEWLINE" using 2(3) by simp
  have d: "drop (length ?line) (b # bs @ rest) = drop (length ?line) ?content @ rest"
    using c(2) nl drop_append [of "length ?line" ?content rest] by simp
  have more: "history_lines pu i (?content @ rest) h = (let line = ?line; count = min (length line) LINE_LIMIT in
      ensure (count < LINE_LIMIT) (RtInvalid ''observation exceeds journal capacity'')
     (if last line \<noteq> NEWLINE then Inr h
      else
        rbind (ok_or RtJson (pu_parse_line pu line)) (\<lambda>report.
        ensure (rp_plan_id report = i) (RtInvalid ''observations belong to another plan'')
       (let h' = foldl insert_status h (rp_transactions report) in
        ensure (length h' \<le> unat DISK_MAX_RECORDS * 2) (RtInvalid ''observation transaction capacity exceeded'')
        (history_lines pu i (drop (length line) ?content @ rest) h')))))"
    if "last ?content = NEWLINE"
    using c that d by (simp only: append_Cons history_lines.simps) (simp add: Let_def)
  show ?case
    using 2 c(3,4) unfolding more [OF nl]
    by (auto simp: Let_def)
qed simp

lemma history_lines_torn:
  "NEWLINE \<notin> set torn \<Longrightarrow> length torn < LINE_LIMIT \<Longrightarrow> history_lines pu i torn h = Inr h"
  by (cases torn) (use line_of_torn [of torn] last_in_set [of torn] in \<open>auto simp: Let_def\<close>)

lemma history_lines_refused:
  assumes "NEWLINE \<notin> set line" "length line + 1 < LINE_LIMIT" "pu_parse_line pu (line @ [NEWLINE]) = None"
  shows "history_lines pu i (line @ NEWLINE # rest) h = Inl RtJson"
proof -
  obtain b bs where b: "line @ NEWLINE # rest = b # bs" by (cases "line @ NEWLINE # rest") auto
  have "line_of (b # bs) = line @ [NEWLINE]" using line_of_line [OF assms(1), of rest] b by simp
  then show ?thesis using assms(2,3) unfolding b by (simp add: Let_def ok_or_def)
qed

text \<open>
  C28: a torn observation blocks its plan for good. When appending an observation fails with the
  beginning of its line written, the next pass still reads the log and takes up the history up to the
  tear. The first observation which that pass appends continues the torn line. From then on reading the
  log fails with a JSON error, whatever is appended later, so that no pass over the plan gets past it.
\<close>
theorem torn_observation_blocks_plan:
  assumes "bw_log w = Some content" "content = [] \<or> last content = NEWLINE" "history_lines pu i content [] = Inr h"
    "observe pu first w = (Inl e, w1)" "bw_log w1 = Some (content @ torn)" "torn \<noteq> []" "NEWLINE \<notin> set torn"
    "bw_log w2 = bw_log w1" "observe pu second w2 = (Inr (), w3)"
    "NEWLINE \<notin> set (pu_line_json pu second)" "length torn + length (pu_line_json pu second) + 1 < LINE_LIMIT"
    "pu_parse_line pu (torn @ pu_line_json pu second @ [NEWLINE]) = None"
  shows "history_lines pu i (content @ torn) [] = Inr h \<and>
    (\<exists>log. bw_log w3 = Some log \<and> (\<forall>later. history_lines pu i (log @ later) [] = Inl RtJson))"
proof
  show "history_lines pu i (content @ torn) [] = Inr h"
    using history_lines_append [OF assms(3,2)] history_lines_torn [OF assms(7)] assms(11) by simp
  have "bw_log w3 = Some (content @ torn @ pu_line_json pu second @ [NEWLINE])"
    using assms(5,8,9) unfolding observe_def Let_def by (auto split: prod.splits option.splits)
  moreover have "history_lines pu i ((content @ torn @ pu_line_json pu second @ [NEWLINE]) @ later) [] = Inl RtJson" for later
    using history_lines_append [OF assms(3,2)] history_lines_refused [of "torn @ pu_line_json pu second" pu i later h] assms(7,10,11,12) by simp
  ultimately show "\<exists>log. bw_log w3 = Some log \<and> (\<forall>later. history_lines pu i (log @ later) [] = Inl RtJson)" by blast
qed

subsection \<open>A pass over one data part\<close>

definition part_record :: bytes where
  "part_record = RecordKind_prefix DataPart @ [0, 0, 0, 0, 1, 2, 3]"

definition part_envelope :: parsed_envelope where
  "part_envelope = \<lparr>pe_author = ex_author, pe_record = part_record,
     pe_script = concat (map (op_bytes ex_envelope_lib) (record_ops part_record ex_author)),
     pe_control = \<lparr>cb_leaf_version = TAPSCRIPT, cb_internal_key = ex_author, cb_merkle_branch = []\<rparr>\<rparr>"

definition part_witness :: "bytes list" where
  "part_witness = [replicate 64 0, pe_script part_envelope, TAPSCRIPT # ex_author]"

definition part_commit :: transaction where
  "part_commit = \<lparr>tx_version = 2, tx_input = [], tx_output = [\<lparr>to_value = 5000, to_script = [0x51, 0x20] @ ex_author\<rparr>]\<rparr>"

definition part_reveal :: transaction where
  "part_reveal = \<lparr>tx_version = 2, tx_input = [demo_input (replicate 32 0) 0 part_witness],
     tx_output = [\<lparr>to_value = 1500, to_script = replicate 22 0\<rparr>]\<rparr>"

lemma part_decoded: "MultipartRecord_decode part_record = Inr (Data \<lparr>dp_index = 0, dp_payload = [1, 2, 3]\<rparr>)"
  by (simp add: part_record_def MultipartRecord_decode_def decode_data_def RECORD_BYTES_def MAX_PARTS_def slice_def from_le_bytes_def)

lemma part_envelope_of: "envelope_of ex_envelope_lib part_witness part_envelope"
  by (simp add: envelope_of_def part_envelope_def part_witness_def record_script_ops ex_author_def ex_envelope_lib_def
      part_record_def RECORD_BYTES_def)

lemma part_verified:
  "\<exists>v. VerifiedRecord_verify ex_envelope_lib (replicate 32 1) part_reveal part_commit = Inr v \<and> vr_record v = part_record"
proof -
  have "extract_envelope ex_envelope_lib part_witness = Inr part_envelope"
    using extract_envelope_complete [OF ex_script_laws part_envelope_of]
    by (simp add: part_envelope_def part_record_def RecordKind_prefix_def)
  then have "extract_reveal_envelope ex_envelope_lib part_reveal = Inr part_envelope"
    by (simp add: extract_reveal_envelope_def validate_reveal_shape_def validate_reveal_scripts_def part_reveal_def demo_input_def
        ex_envelope_lib_def)
  then have "verify_record_proof ex_envelope_lib part_reveal part_commit = Inr part_envelope"
    by (simp add: verify_record_proof_def verify_prevout_proof_def part_reveal_def part_commit_def demo_input_def ex_envelope_lib_def
        Let_def part_witness_def part_envelope_def ex_author_def slice_def context_res_def)
  then show ?thesis by (simp add: VerifiedRecord_verify_def part_reveal_def ex_envelope_lib_def part_envelope_def)
qed

text \<open>The node knows the transactions that were sent to it; the world of the demo is the list of these.\<close>

definition part_plan_lib :: "unit plan_lib" where
  "part_plan_lib = \<lparr>pl_env = ex_envelope_lib, pl_genesis_block = (\<lambda>c. [0]), pl_parse_hash = (\<lambda>s. Some []),
     pl_hash_text = (\<lambda>t. if t = replicate 32 0 then ''c'' else ''v''), pl_key_text = (\<lambda>k. ''a''),
     pl_hex_decode = (\<lambda>s. Some (replicate (length s) 0)),
     pl_deserialize = (\<lambda>b. Some (if length b = 1 then part_commit else part_reveal)),
     pl_weight = (\<lambda>t. 0), pl_ecdsa = (\<lambda>b. Some (b, True)), pl_public_key = (\<lambda>k. True), pl_p2wpkh = (\<lambda>k. replicate 22 0),
     pl_segwit_hash = (\<lambda>t i s v. Some []), pl_verify_ecdsa = (\<lambda>m s k. True)\<rparr>"

definition part_client :: "string \<Rightarrow> json_value list \<Rightarrow> (string list, rt_error, json_value) act" where
  "part_client method args s =
     (if method = ''sendrawtransaction'' then (Inr (VStr ''c''), s @ sent_by method args)
      else if method = ''testmempoolaccept'' then (Inr (VArray [VObject [(''txid'', VStr ''c''), (''allowed'', VBool True)]]), s)
      else if method = ''getblockhash'' then (Inr (VStr ''h''), s)
      else if s \<noteq> [] then (Inr (VObject []), s)
      else (Inl (RtMissing ''no such transaction''), s))"

definition part_pair :: public_plan where
  "part_pair = \<lparr>pp_version = 0, pp_chain = BitcoinRegtest, pp_funding = [], pp_commit = ''c'', pp_reveal = ''vv'', pp_fee_rate = 1\<rparr>"

definition part_publisher :: "(unit, string list) publisher" where
  "part_publisher = \<lparr>
     pu_lib = \<lparr>ul_plan = part_plan_lib, ul_hex = (\<lambda>b. []), ul_plan_json = (\<lambda>p. []), ul_report_json = (\<lambda>r. []),
       ul_parse_report = (\<lambda>b. None), ul_error_text = (\<lambda>e. [])\<rparr>,
     pu_disk = \<lparr>dl_plan = part_plan_lib, dl_hex = (\<lambda>b. []), dl_plan_json = (\<lambda>p. []), dl_parse_plan = (\<lambda>b. None),
       dl_parse_pair = (\<lambda>b. Some part_pair)\<rparr>,
     pu_files = \<lparr>pf_fs = \<lparr>fs_open = (\<lambda>s. (True, s)), fs_read = (\<lambda>s. (True, s)), fs_write = (\<lambda>s b. (None, s))\<rparr>,
       pf_exists = (\<lambda>s. (True, s)), pf_append = (\<lambda>s b. (None, s)), pf_log_read = (\<lambda>s. (True, s))\<rparr>,
     pu_disk_files = \<lparr>df_plan = None, df_records = Some [0], df_index = Some [0, 0, 0, 0, 0, 0, 0, 0, 1, 0, 0, 0]\<rparr>,
     pu_node = \<lparr>nd_chain = BitcoinRegtest, nd_backend = Local part_client, nd_now = (\<lambda>s. (0, s))\<rparr>,
     pu_line_json = (\<lambda>r. [1]), pu_parse_line = (\<lambda>b. None), pu_notify = (\<lambda>p s. (Inr (), s)), pu_guard = (\<lambda>s. (Inr (), s))\<rparr>"

definition part_plan :: disk_plan where
  "part_plan = \<lparr>dk_version = 1, dk_chain = BitcoinRegtest, dk_author = ''a'', dk_return_script = [], dk_root_txid = ''v'',
     dk_total_fee = 1, dk_maximum_fee = 1, dk_record_count = 1, dk_records_hash = [], dk_index_hash = []\<rparr>"

definition part_session :: session where
  "part_session = \<lparr>se_history = [], se_blocks = (\<lambda>_. None), se_progress =
     \<lparr>pg_report = \<lparr>rp_plan_id = [], rp_root_txid = ''v'', rp_complete = False, rp_confirmed = False, rp_blocked_reason = [], rp_transactions = []\<rparr>,
      pg_total = 2, pg_observations = [], pg_retryable = True\<rparr>\<rparr>"

definition part_world :: "string list pub_world" where
  "part_world = \<lparr>bw_world = \<lparr>w_state = [], w_file = None\<rparr>, bw_ack = (\<lambda>_. None), bw_log = None\<rparr>"

lemma part_records: "records_sends part_publisher id"
  by (simp add: records_sends_def part_publisher_def part_client_def sent_by_def)

lemma part_decode: "decode_tx part_plan_lib ''c'' TX_HEX_LIMIT = Inr part_commit" "decode_tx part_plan_lib ''vv'' TX_HEX_LIMIT = Inr part_reveal"
  by (simp_all add: decode_tx_def decode_bounded_def part_plan_lib_def TX_HEX_LIMIT_def STANDARD_TX_WEIGHT_def)

lemma part_disk_record: "DiskPlan_record (pu_disk part_publisher) (pu_disk_files part_publisher) part_plan 0 = Inr part_pair"
  by (simp add: DiskPlan_record_def part_publisher_def part_plan_def read_index_def take_exact_def read_pair_def from_le_bytes_def
      MAX_PAIR_BYTES_def)

lemma part_txids: "e_txid ex_envelope_lib part_commit = replicate 32 0" "e_txid ex_envelope_lib part_reveal = replicate 32 1"
  by (simp_all add: ex_envelope_lib_def part_commit_def part_reveal_def)

lemma part_role: "rmap role_of (record_of_pair part_publisher part_pair) = Inr ''data''"
proof -
  obtain v where v: "VerifiedRecord_verify ex_envelope_lib (replicate 32 1) part_reveal part_commit = Inr v" "vr_record v = part_record"
    using part_verified by blast
  have env: "pl_env part_plan_lib = ex_envelope_lib" by (simp add: part_plan_lib_def)
  show ?thesis
    using v part_decode by (simp add: record_of_pair_def part_publisher_def part_pair_def env part_txids VerifiedRecord_decode_def part_decoded)
qed

lemma part_lib:
  "pl_env part_plan_lib = ex_envelope_lib" "pl_hash_text part_plan_lib (replicate 32 0) = ''c''"
  "pl_hash_text part_plan_lib (replicate 32 1) = ''v''" "pl_weight part_plan_lib tx = 0" "pl_parse_hash part_plan_lib t = Some []"
  by (simp_all add: part_plan_lib_def)

lemma part_fields:
  "ul_plan (pu_lib part_publisher) = part_plan_lib" "pu_notify part_publisher p s = (Inr (), s)"
  "pu_line_json part_publisher report = [1]" "pf_append (pu_files part_publisher) s bs = (None, s)"
  by (simp_all add: part_publisher_def)

lemma part_call: "node_call lib (pu_node part_publisher) method args w =
    (let (r, s') = part_client method args (w_state (bw_world w)) in (r, w\<lparr>bw_world := (bw_world w)\<lparr>w_state := s'\<rparr>\<rparr>))"
  by (simp add: node_call_def part_publisher_def on_state_def on_world_def split: prod.split)

lemma part_absent:
  assumes "w_state (bw_world w) = []" "bw_ack w = (\<lambda>_. None)"
  shows "presence_cached part_plan_lib (pu_node part_publisher) txid blocks w = (Inr (Absent, blocks), w)"
  using assms by (simp add: presence_cached_def part_call part_client_def recently_acknowledged_def ibind_app act_apps)

lemma part_pass:
  assumes "w_state (bw_world w) = []" "bw_ack w = (\<lambda>_. None)" "se_history se = []"
  shows "transaction_pass part_publisher True ''c'' role False se w =
      (Inr (push_observation (push_status (se\<lparr>se_blocks := se_blocks se\<rparr>) ''c'' Absent) ''c'' role Prepared, Prepared), w)"
    "transaction_pass part_publisher True ''vv'' role False se w =
      (Inr (push_observation (push_status (se\<lparr>se_blocks := se_blocks se\<rparr>) ''v'' Absent) ''v'' role Prepared, Prepared), w)"
  using assms
  by (simp_all add: transaction_pass_def part_fields part_decode ibind_app act_apps Let_def part_absent part_lib part_txids)

text \<open>The session after the inventory.\<close>

definition part_seen :: session where
  "part_seen = push_observation (push_status (push_observation (push_status part_session ''c'' Absent) ''c'' ''commit'' Prepared)
     ''v'' Absent) ''v'' ''data'' Prepared"

definition part_pairs :: "buffered_pair list" where
  "part_pairs = [\<lparr>bp_role = ''data'', bp_commit_weight = 0, bp_reveal_weight = 0\<rparr>]"

lemma part_inventory: "inventory_pass part_publisher True part_plan part_session part_world = (Inr (part_seen, part_pairs), part_world)"
proof -
  have n: "notify part_publisher se part_world = (Inr (), part_world)" for se
    by (simp add: notify_def on_state_def on_world_def part_fields part_world_def)
  have one: "unat (dk_record_count part_plan) = Suc 0" by (simp add: part_plan_def)
  have raws: "pp_commit part_pair = ''c''" "pp_reveal part_pair = ''vv''" by (simp_all add: part_pair_def)
  have cleared: "part_session\<lparr>se_progress := (se_progress part_session)\<lparr>pg_report := (pg_report (se_progress part_session))\<lparr>rp_transactions := []\<rparr>\<rparr>\<rparr> = part_session"
    by (simp add: part_session_def)
  have world: "w_state (bw_world part_world) = []" "bw_ack part_world = (\<lambda>_. None)" by (simp_all add: part_world_def)
  have se: "se_history part_session = []" "retryable part_session" by (simp_all add: part_session_def)
  show ?thesis
    unfolding inventory_pass_def Let_def cleared one
    by (simp add: ibind_app Let_def n act_apps part_disk_record part_role raws part_decode part_fields part_pass [OF world] se
        push_observation_def push_status_def part_lib part_seen_def part_pairs_def)
qed

lemma part_round: "round_at part_publisher part_plan part_session part_pairs 0 (walk_start part_pairs part_seen) part_world"
proof (rule first_round [OF part_inventory])
  show "retryable part_seen" by (simp add: part_seen_def push_observation_def push_status_def part_session_def)
  show "node_block_hash (ul_plan (pu_lib part_publisher)) (pu_node part_publisher) 0 part_world = (Inr [], part_world)"
    by (simp add: node_block_hash_def ibind_app part_call part_client_def act_apps part_fields part_lib part_world_def rt_context_opt_def)
qed

text \<open>The commit goes out: it is logged, passes the preflight, is sent, and the lookup then finds it.\<close>

definition part_sent :: "string list pub_world" where
  "part_sent = part_world\<lparr>bw_world := \<lparr>w_state = [''c''], w_file = None\<rparr>, bw_log := Some [1, NEWLINE]\<rparr>"

lemma part_broadcast: "broadcast (pu_lib part_publisher) (pu_node part_publisher) ''c'' (part_world\<lparr>bw_log := l\<rparr>) =
    (Inr [], part_sent\<lparr>bw_log := l\<rparr>)"
proof -
  have accepted: "test_accept (pu_lib part_publisher) (pu_node part_publisher) ''c'' (part_world\<lparr>bw_log := l\<rparr>) =
      (Inr Allowed, part_world\<lparr>bw_log := l\<rparr>)"
    by (simp add: test_accept_def ibind_app part_decode part_fields act_apps part_lib part_call part_client_def part_txids
        value_at_def rt_context_opt_def Let_def STANDARD_TX_WEIGHT_def part_world_def)
  have submitted: "submit (pu_lib part_publisher) (pu_node part_publisher) ''c'' (replicate 32 0) False (part_world\<lparr>bw_log := l\<rparr>) =
      (Inr [], part_sent\<lparr>bw_log := l\<rparr>)"
    by (simp add: submit_def ibind_app part_fields act_apps part_lib part_call part_client_def sent_by_def part_world_def part_sent_def)
  have "tx_input part_commit = []" by (simp add: part_commit_def)
  then show ?thesis
    by (simp add: broadcast_def ibind_app part_decode part_fields act_apps Let_def accepted submitted part_lib part_txids)
qed

lemma part_remembered:
  "remember part_publisher text p se w =
     (if map_of (se_history se) text = Some p then (Inr se, w)
      else (Inr (se\<lparr>se_history := AList.update text p (se_history se)\<rparr>),
            w\<lparr>bw_world := (bw_world w)\<lparr>w_state := w_state (bw_world w)\<rparr>, bw_log := Some ((case bw_log w of None \<Rightarrow> [] | Some c \<Rightarrow> c) @ [1, NEWLINE])\<rparr>))"
  by (simp add: remember_def observe_def ibind_app act_apps part_fields Let_def)

lemma part_found:
  "w_state (bw_world w) \<noteq> [] \<Longrightarrow> presence_cached part_plan_lib (pu_node part_publisher) txid blocks w = (Inr (InMempool, blocks), w)"
  by (simp add: presence_cached_def part_call part_client_def ibind_app act_apps confirmations_of_def)

lemma part_sending:
  assumes "se_history se = []"
  shows "send_missing part_publisher ''c'' (replicate 32 0) se part_world =
    (Inr (se\<lparr>se_history := [(''c'', Absent)], se_blocks := se_blocks se\<rparr>, InMempool), part_sent)"
proof -
  have logged: "remember part_publisher ''c'' Absent se part_world =
      (Inr (se\<lparr>se_history := [(''c'', Absent)]\<rparr>), part_world\<lparr>bw_log := Some [1, NEWLINE]\<rparr>)"
    using assms by (simp add: part_remembered part_world_def)
  have sent: "part_sent\<lparr>bw_log := Some [1, NEWLINE]\<rparr> = part_sent" "w_state (bw_world part_sent) \<noteq> []" by (simp_all add: part_sent_def)
  show ?thesis
    by (simp add: send_missing_def Let_def part_fields part_lib ibind_app logged part_broadcast sent part_found act_apps)
qed

lemma part_commit_sent:
  "\<exists>se w. transaction_pass part_publisher True ''c'' role True part_seen part_world = (Inr (se, Mempool), w) \<and> w_state (bw_world w) = [''c'']"
proof -
  have world: "w_state (bw_world part_world) = []" "bw_ack part_world = (\<lambda>_. None)" "w_state (bw_world part_sent) = [''c'']"
    by (simp_all add: part_world_def part_sent_def)
  have se: "se_history part_seen = []" by (simp add: part_seen_def part_session_def push_observation_def push_status_def)
  show ?thesis
    by (simp add: transaction_pass_def part_fields part_decode ibind_app act_apps Let_def part_absent [OF world(1,2)] part_lib part_txids
        part_sending [OF se] part_remembered world)
qed

lemma part_walk:
  "\<exists>ws w. walk_pair part_publisher part_plan 0 (part_pairs ! 0) (walk_start part_pairs part_seen) part_world = (Inr ws, w) \<and>
     w_state (bw_world w) = [''c'']"
proof -
  let ?ws = "walk_start part_pairs part_seen"
  have n: "notify part_publisher se w = (Inr (), w)" for se w
    by (simp add: notify_def on_state_def on_world_def part_fields)
  have raw: "pp_commit part_pair = ''c''" by (simp add: part_pair_def)
  have may: "is_open (observed_state part_seen 0)" "admits (Buffer_new part_pairs (obs_of part_seen)) (part_pairs ! 0)"
    "blocked_reason part_seen = []"
    by (simp_all add: part_seen_def part_session_def push_observation_def push_status_def is_open_def part_pairs_def Buffer_new_def buffer_pair_def
        admits_def PUBLICATION_PENDING_COMMITS_def PUBLICATION_COMMIT_VBYTES_def PUBLICATION_BUFFER_WEIGHT_def report_status_def)
  obtain se w where sent: "transaction_pass part_publisher True ''c'' (ob_role (obs_of part_seen ! 0)) True part_seen part_world = (Inr (se, Mempool), w)"
    "w_state (bw_world w) = [''c'']" using part_commit_sent by blast
  have "\<exists>se'. submit_record part_publisher part_plan 0 0 True part_seen part_world = (Inr (se', Mempool), w)"
    by (simp add: submit_record_def part_disk_record ibind_app act_apps Let_def raw sent(1))
  then have "\<exists>ws'. walk_commit part_publisher part_plan 0 (part_pairs ! 0) ?ws part_world = (Inr (ws', Mempool), w)"
    using may by (auto simp: walk_commit_def Let_def walk_start_def ibind_app act_apps)
  then show ?thesis
    using sent(2) by (auto simp: walk_pair_def ibind_app n walk_reveal_def act_apps Let_def)
qed

theorem sends_follow_dependencies_witness:
  "\<exists>c v (w' :: string list pub_world). w_state (bw_world w') = (if c then [raw_of part_publisher part_plan 0 True] else []) @
       (if v then [raw_of part_publisher part_plan 0 False] else []) \<and> w_state (bw_world w') = [''c''] \<and>
     (v \<longrightarrow> (\<exists>wa ws1 wb. walk_commit part_publisher part_plan 0 (part_pairs ! 0) (walk_start part_pairs part_seen) wa = (Inr (ws1, Confirmed), wb)))"
proof -
  obtain ws w' where w': "walk_pair part_publisher part_plan 0 (part_pairs ! 0) (walk_start part_pairs part_seen) part_world = (Inr ws, w')"
    "w_state (bw_world w') = [''c'']" using part_walk by blast
  have start: "pg_observations (se_progress part_session) = []" "0 < length part_pairs" "w_state (bw_world part_world) = []"
    by (simp_all add: part_session_def part_pairs_def part_world_def)
  obtain c v where cv: "w_state (bw_world w') = (if c then [raw_of part_publisher part_plan 0 True] else []) @
      (if v then [raw_of part_publisher part_plan 0 False] else [])"
    "v \<longrightarrow> (\<exists>wa ws1 wb. walk_commit part_publisher part_plan 0 (part_pairs ! 0) (walk_start part_pairs part_seen) wa = (Inr (ws1, Confirmed), wb))"
    using sends_follow_dependencies [OF part_records start(1) part_round start(2) w'(1)] unfolding id_apply start(3) append_Nil by blast
  show ?thesis by (rule exI [of _ c], rule exI [of _ v], rule exI [of _ w']) (intro conjI cv w'(2))
qed

theorem sends_are_recorded_witness:
  "\<exists>(w' :: string list pub_world) reports torn. w_state (bw_world w') = [''c''] \<and>
     log_of w' = log_lines part_publisher reports @ torn \<and> (\<exists>report \<in> set reports. ''c'' \<in> ts_txid ` set (rp_transactions report))"
proof -
  obtain ws w' where w': "walk_pair part_publisher part_plan 0 (part_pairs ! 0) (walk_start part_pairs part_seen) part_world = (Inr ws, w')"
    "w_state (bw_world w') = [''c'']" using part_walk by blast
  have hash: "node_block_hash part_plan_lib (pu_node part_publisher) 0 part_world = (Inr [], part_world)"
    by (simp add: node_block_hash_def ibind_app part_call part_client_def act_apps part_lib part_world_def rt_context_opt_def)
  have start: "retryable part_seen" "pl_hash_text part_plan_lib [] = ''v''" "part_pairs = [part_pairs ! 0]" "se_history part_session = []"
    "log_of part_world = []" "w_state (bw_world part_world) = []"
    by (simp_all add: part_seen_def push_observation_def push_status_def part_session_def part_plan_lib_def part_pairs_def log_of_def part_world_def)
  have "\<exists>r. walk_loop part_publisher part_plan 0 part_pairs (walk_start part_pairs part_seen) part_world = (Inr r, w')"
    using w'(1) by (subst start(3)) (auto simp: ibind_app iret_app)
  then have "\<exists>r. submit_pairs part_publisher part_plan part_pairs part_seen part_world = (r, w')"
    by (auto simp: submit_pairs_def walk_start_def ibind_app iret_app Let_def)
  then obtain r where r: "walk part_publisher True part_plan (0, ''v'') part_session part_world = (r, w')"
    by (auto simp: walk_def ibind_app part_inventory part_fields hash start(1,2))
  obtain reports torn new where step: "log_of w' = log_of part_world @ log_lines part_publisher reports @ torn"
    "id (w_state (bw_world w')) = id (w_state (bw_world part_world)) @ new"
    "\<forall>raw \<in> set new. \<exists>tx. decode_tx (ul_plan (pu_lib part_publisher)) raw TX_HEX_LIMIT = Inr tx \<and>
       (let txid = pl_hash_text (ul_plan (pu_lib part_publisher)) (e_txid (pl_env (ul_plan (pu_lib part_publisher))) tx) in
        map_of (se_history part_session) txid \<noteq> None \<or> (\<exists>report \<in> set reports. txid \<in> ts_txid ` set (rp_transactions report)))"
    using sends_are_recorded [OF part_records r] by blast
  have "new = [''c'']" using step(2) w'(2) start(6) by simp
  with step(3) have "\<exists>report \<in> set reports. ''c'' \<in> ts_txid ` set (rp_transactions report)"
    by (simp add: part_fields part_decode part_lib part_txids start(4) Let_def)
  with step(1) w'(2) start(5) show ?thesis by auto
qed

theorem torn_observation_blocks_plan_witness:
  "\<exists>(pu :: (unit, string list) publisher) first e second w w1 w3. observe pu first w = (Inl e, w1) \<and> observe pu second w1 = (Inr (), w3) \<and>
     history_lines pu [] (the (bw_log w1)) [] = Inr [] \<and> (\<forall>later. history_lines pu [] (the (bw_log w3) @ later) [] = Inl RtJson)"
proof -
  define files where "files = (pu_files part_publisher)\<lparr>pf_append := \<lambda>s b. if s = [] then (Some (Some 1, RtIo), [''down'']) else (None, s)\<rparr>"
  define pu where "pu = part_publisher\<lparr>pu_files := files, pu_line_json := \<lambda>r. [1, 2]\<rparr>"
  define w1 where "w1 = \<lparr>bw_world = \<lparr>w_state = [''down''], w_file = None\<rparr>, bw_ack = (\<lambda>_. None), bw_log = Some [1 :: u8]\<rparr>"
  let ?report = "pg_report (se_progress part_session)" and ?w = "part_world\<lparr>bw_log := Some []\<rparr>"
  have fields: "pu_files pu = files" "pu_line_json pu r = [1, 2]" "pu_parse_line pu l = None" for r l
    by (simp_all add: pu_def part_publisher_def)
  have torn: "observe pu ?report ?w = (Inl RtIo, w1)"
    by (simp add: observe_def fields files_def part_world_def w1_def)
  have next_pass: "observe pu ?report w1 = (Inr (), w1\<lparr>bw_log := Some [1, 1, 2, NEWLINE]\<rparr>)"
    by (simp add: observe_def fields files_def w1_def)
  have "history_lines pu [] ([] @ [1]) [] = Inr [] \<and>
      (\<exists>log. bw_log (w1\<lparr>bw_log := Some [1, 1, 2, NEWLINE]\<rparr>) = Some log \<and> (\<forall>later. history_lines pu [] (log @ later) [] = Inl RtJson))"
    by (rule torn_observation_blocks_plan [OF _ _ _ torn _ _ _ refl next_pass])
      (simp_all add: w1_def fields NEWLINE_def LINE_LIMIT_def)
  then have "history_lines pu [] (the (bw_log w1)) [] = Inr []"
    "\<forall>later. history_lines pu [] (the (bw_log (w1\<lparr>bw_log := Some [1, 1, 2, NEWLINE]\<rparr>)) @ later) [] = Inl RtJson"
    unfolding w1_def by (simp_all only: pub_world.simps option.sel append_Nil) blast
  with torn next_pass show ?thesis by blast
qed

end
