(* ===== verification/Web_Package.thy ===== *)
theory Web_Package
  imports Envelope Index_File
begin

section \<open>Web packages (\<^verbatim>\<open>urma-web/src/package.rs\<close>, \<^verbatim>\<open>grammar.rs\<close>)\<close>

text \<open>
  A web publication is the payload of an object: a directory of files with their MIME types and
  hashes, references to objects published elsewhere, and the bytes of the files. The theory models the
  grammar of paths, types and labels, building, validation, encoding and decoding of a package, and the
  resolution of a URL path. Text is the list of its UTF-8 bytes; splitting at an ASCII character is
  splitting at its byte.

  \<open>wl_debug\<close> is how \<^verbatim>\<open>{:?}\<close> prints a text in an error message.
\<close>

datatype web_error =
    WebProtocol error
  | WebIo
  | WebFiles io_error
  | WebJson
  | WebInteger
  | WebHex
  | WebHash
  | WebTransaction
  | WebInvalid string
  | WebMissing string

record web_lib =
  wl_sha256 :: "bytes \<Rightarrow> bytes"
  wl_debug :: "bytes \<Rightarrow> string"

subsection \<open>Grammar\<close>

definition MAX_PATH_BYTES :: nat where "MAX_PATH_BYTES = 65535"
definition MAX_MIME_BYTES :: nat where "MAX_MIME_BYTES = 255"
definition WEB_LABEL_BYTES :: nat where "WEB_LABEL_BYTES = 64"
definition CHARSET_PARAMETER :: bytes where "CHARSET_PARAMETER = ascii ''charset=utf-8''"
definition ENTRY_MIME :: bytes where "ENTRY_MIME = ascii ''text/html''"

definition SLASH :: u8 where "SLASH = 47"
definition SEMICOLON :: u8 where "SEMICOLON = 59"

text \<open>\<open>str::split\<close> at a character: there is always a first part.\<close>

fun split_byte :: "u8 \<Rightarrow> bytes \<Rightarrow> bytes list" where
  "split_byte sep [] = [[]]"
| "split_byte sep (b # bs) =
     (if b = sep then [] # split_byte sep bs
      else case split_byte sep bs of [] \<Rightarrow> [[b]] | part # parts \<Rightarrow> (b # part) # parts)"

fun split_once :: "u8 \<Rightarrow> bytes \<Rightarrow> (bytes \<times> bytes) option" where
  "split_once sep [] = None"
| "split_once sep (b # bs) =
     (if b = sep then Some ([], bs) else map_option (\<lambda>(l, r). (b # l, r)) (split_once sep bs))"

definition is_ascii_alphanumeric :: "u8 \<Rightarrow> bool" where
  "is_ascii_alphanumeric b \<longleftrightarrow> is_ascii_lowercase b \<or> (65 \<le> b \<and> b \<le> 90) \<or> is_ascii_digit b"

definition check_segment :: "web_lib \<Rightarrow> bytes \<Rightarrow> bytes \<Rightarrow> web_error + unit" where
  "check_segment lib path segment =
     ensure (segment \<noteq> []) (WebInvalid (''path segments cannot be empty: '' @ wl_debug lib path))
    (ensure (segment \<noteq> ascii ''.'' \<and> segment \<noteq> ascii ''..'') (WebInvalid (''path segments cannot be . or ..: '' @ wl_debug lib path))
    (ensure (\<forall>b \<in> set segment. is_ascii_alphanumeric b \<or> b \<in> set (ascii ''._~-''))
       (WebInvalid (''path bytes must be URL-unreserved ASCII: '' @ wl_debug lib path)) (Inr ())))"

definition validate_path :: "web_lib \<Rightarrow> bytes \<Rightarrow> web_error + unit" where
  "validate_path lib path =
     ensure (1 \<le> length path \<and> length path \<le> MAX_PATH_BYTES) (WebInvalid ''path must be 1..65535 bytes (u16 path_len)'')
     (rfold (\<lambda>_ segment. check_segment lib path segment) () (split_byte SLASH path))"

definition check_token :: "web_lib \<Rightarrow> bytes \<Rightarrow> bytes \<Rightarrow> web_error + unit" where
  "check_token lib mime token =
     ensure (token \<noteq> [] \<and> (\<forall>b \<in> set token. is_ascii_lowercase b \<or> is_ascii_digit b \<or> b \<in> set (ascii ''!#$&^_.+-'')))
       (WebInvalid (''mime tokens are lowercase ASCII token characters: '' @ wl_debug lib mime)) (Inr ())"

definition validate_mime :: "web_lib \<Rightarrow> bytes \<Rightarrow> web_error + unit" where
  "validate_mime lib mime =
     ensure (1 \<le> length mime \<and> length mime \<le> MAX_MIME_BYTES) (WebInvalid ''mime must be 1..255 bytes (u8 mime_len)'')
     (case split_byte SEMICOLON mime of
        [] \<Rightarrow> Inl (WebInvalid ''empty mime'')
      | essence # parameters \<Rightarrow>
          rbind (rfold (\<lambda>_ parameter. ensure (parameter = CHARSET_PARAMETER)
              (WebInvalid (''mime parameters are limited to ;charset=utf-8: '' @ wl_debug lib mime)) (Inr ())) () parameters) (\<lambda>_.
          ensure (length parameters \<le> 1) (WebInvalid ''mime carries one parameter at most'')
          (case split_once SLASH essence of
             None \<Rightarrow> Inl (WebInvalid (''mime must be type/subtype: '' @ wl_debug lib mime))
           | Some (kind, subtype) \<Rightarrow> rfold (\<lambda>_ token. check_token lib mime token) () [kind, subtype])))"

definition is_entry_mime :: "bytes \<Rightarrow> bool" where
  "is_entry_mime mime \<longleftrightarrow> mime = ENTRY_MIME \<or> mime = ENTRY_MIME @ [SEMICOLON] @ CHARSET_PARAMETER"

datatype wanted = EntryWanted | PathWanted bytes | Unresolvable

definition wanted_of :: "bytes \<Rightarrow> wanted" where
  "wanted_of url_path = (case url_path of
     [] \<Rightarrow> Unresolvable
   | b # relative \<Rightarrow>
       if b \<noteq> SLASH then Unresolvable
       else if relative = [] then EntryWanted
       else if last relative = SLASH then PathWanted (relative @ ascii ''index.html'')
       else PathWanted relative)"

definition web_validate_label :: "bytes \<Rightarrow> web_error + unit" where
  "web_validate_label label =
     ensure (length label \<le> WEB_LABEL_BYTES) (WebInvalid ''label must be at most 64 bytes'')
    (ensure (\<forall>b \<in> set label. 0x20 \<le> b \<and> b \<le> 0x7e) (WebInvalid ''label must be printable ASCII'') (Inr ()))"

subsection \<open>Packages\<close>

record file_entry =
  fe_path :: bytes
  fe_mime :: bytes
  fe_sha256 :: bytes
  fe_bytes :: bytes

record pinned_entry =
  pi_path :: bytes
  pi_mime :: bytes
  pi_root_txid :: bytes
  pi_payload_sha256 :: bytes

record package =
  pk_label :: bytes
  pk_entry :: u16
  pk_files :: "file_entry list"
  pk_pinned :: "pinned_entry list"

datatype resource = FileResource file_entry | PinnedResource pinned_entry | Undeclared

definition WEB_PROFILE :: bytes where "WEB_PROFILE = ascii ''URMAWEB1''"
definition WEB_REVISION :: u8 where "WEB_REVISION = 2"

definition web_try_from :: "nat \<Rightarrow> web_error + 'a::len word" where
  "web_try_from n = map_err (\<lambda>_. WebInteger) (try_from n)"

definition FileEntry_new :: "web_lib \<Rightarrow> bytes \<Rightarrow> bytes \<Rightarrow> bytes \<Rightarrow> file_entry" where
  "FileEntry_new lib path mime content =
     \<lparr>fe_path = path, fe_mime = mime, fe_sha256 = wl_sha256 lib content, fe_bytes = content\<rparr>"

text \<open>The loops of \<open>validate\<close> over the files and the pinned objects, with the set of paths seen.\<close>

definition check_file :: "web_lib \<Rightarrow> bytes set \<Rightarrow> file_entry \<Rightarrow> web_error + bytes set" where
  "check_file lib paths f =
     rbind (validate_path lib (fe_path f)) (\<lambda>_.
     rbind (validate_mime lib (fe_mime f)) (\<lambda>_.
     ensure (wl_sha256 lib (fe_bytes f) = fe_sha256 f) (WebInvalid (''file hash mismatch: '' @ wl_debug lib (fe_path f)))
    (ensure (fe_path f \<notin> paths) (WebInvalid (''duplicate path: '' @ wl_debug lib (fe_path f)))
     (Inr (insert (fe_path f) paths)))))"

definition check_pin :: "web_lib \<Rightarrow> bytes set \<Rightarrow> pinned_entry \<Rightarrow> web_error + bytes set" where
  "check_pin lib paths pin =
     rbind (validate_path lib (pi_path pin)) (\<lambda>_.
     rbind (validate_mime lib (pi_mime pin)) (\<lambda>_.
     ensure (pi_path pin \<notin> paths) (WebInvalid (''duplicate path: '' @ wl_debug lib (pi_path pin)))
     (Inr (insert (pi_path pin) paths))))"

definition Package_validate :: "web_lib \<Rightarrow> package \<Rightarrow> web_error + unit" where
  "Package_validate lib p =
     rbind (web_validate_label (pk_label p)) (\<lambda>_.
     ensure (pk_files p \<noteq> [] \<and> length (pk_files p) \<le> 65535) (WebInvalid ''package must declare 1..65535 files'')
    (ensure (length (pk_pinned p) \<le> 65535) (WebInvalid ''package declares too many pinned objects'')
    (rbind (ok_or (WebInvalid ''entry index outside the files table'')
              (if unat (pk_entry p) < length (pk_files p) then Some (pk_files p ! unat (pk_entry p)) else None)) (\<lambda>entry.
     ensure (is_entry_mime (fe_mime entry)) (WebInvalid (''entry document must be text/html: '' @ wl_debug lib (fe_mime entry)))
    (rbind (rfold (check_file lib) {} (pk_files p)) (\<lambda>paths.
     rbind (rfold (check_pin lib) paths (pk_pinned p)) (\<lambda>_.
     ensure (windows2_all (\<lambda>f g. fe_path f < fe_path g) (pk_files p)) (WebInvalid ''files must be sorted by path bytes'')
    (ensure (windows2_all (\<lambda>f g. pi_path f < pi_path g) (pk_pinned p)) (WebInvalid ''pinned objects must be sorted by path bytes'')
     (Inr ())))))))))"

definition Package_build :: "web_lib \<Rightarrow> bytes \<Rightarrow> bytes \<Rightarrow> file_entry list \<Rightarrow> pinned_entry list \<Rightarrow> web_error + package" where
  "Package_build lib label entry files pinned =
     (let files' = map (\<lambda>f. f\<lparr>fe_sha256 := wl_sha256 lib (fe_bytes f)\<rparr>) (sort_key fe_path files);
          pinned' = sort_key pi_path pinned in
      case find (\<lambda>i. fe_path (files' ! i) = entry) [0..<length files'] of
        None \<Rightarrow> Inl (WebMissing (''entry '' @ wl_debug lib entry @ '' is not a packaged file''))
      | Some index \<Rightarrow>
          rbind (web_try_from index) (\<lambda>i.
          let p = \<lparr>pk_label = label, pk_entry = i, pk_files = files', pk_pinned = pinned'\<rparr> in
          rbind (Package_validate lib p) (\<lambda>_. Inr p)))"

definition Package_entry :: "package \<Rightarrow> web_error + file_entry" where
  "Package_entry p = ok_or (WebInvalid ''entry index outside the files table'')
     (if unat (pk_entry p) < length (pk_files p) then Some (pk_files p ! unat (pk_entry p)) else None)"

definition push_file :: "bytes \<Rightarrow> file_entry \<Rightarrow> web_error + bytes" where
  "push_file bs f =
     rbind (web_try_from (length (fe_path f))) (\<lambda>pn :: u16.
     rbind (web_try_from (length (fe_mime f))) (\<lambda>mn :: u8.
     rbind (web_try_from (length (fe_bytes f))) (\<lambda>n :: u64.
     Inr (bs @ to_le_bytes pn @ fe_path f @ [mn] @ fe_mime f @ to_le_bytes n @ fe_sha256 f))))"

definition push_pin :: "bytes \<Rightarrow> pinned_entry \<Rightarrow> web_error + bytes" where
  "push_pin bs pin =
     rbind (web_try_from (length (pi_path pin))) (\<lambda>pn :: u16.
     rbind (web_try_from (length (pi_mime pin))) (\<lambda>mn :: u8.
     Inr (bs @ to_le_bytes pn @ pi_path pin @ [mn] @ pi_mime pin @ pi_root_txid pin @ pi_payload_sha256 pin)))"

definition Package_encode :: "web_lib \<Rightarrow> package \<Rightarrow> web_error + bytes" where
  "Package_encode lib p =
     rbind (Package_validate lib p) (\<lambda>_.
     rbind (web_try_from (length (pk_files p))) (\<lambda>fc :: u16.
     rbind (web_try_from (length (pk_pinned p))) (\<lambda>pc :: u16.
     rbind (web_try_from (length (pk_label p))) (\<lambda>ln :: u8.
     rbind (rfold push_file ([WEB_REVISION, 0] @ to_le_bytes fc @ to_le_bytes pc @ to_le_bytes (pk_entry p) @ [ln] @ pk_label p) (pk_files p)) (\<lambda>bs.
     rbind (rfold push_pin bs (pk_pinned p)) (\<lambda>bs.
     Inr (bs @ concat (map fe_bytes (pk_files p)))))))))"

subsection \<open>Decoding\<close>

record cursor =
  cu_bytes :: bytes
  cu_offset :: nat

definition cursor_take :: "nat \<Rightarrow> cursor \<Rightarrow> web_error + bytes \<times> cursor" where
  "cursor_take n c =
     rbind (ok_or (WebInvalid ''package offset overflow'') (checked_add_usize (cu_offset c) n)) (\<lambda>stop.
     ensure (stop \<le> length (cu_bytes c)) (WebInvalid ''truncated package'')
     (Inr (slice (cu_offset c) stop (cu_bytes c), c\<lparr>cu_offset := stop\<rparr>)))"

definition cursor_u8 :: "cursor \<Rightarrow> web_error + u8 \<times> cursor" where
  "cursor_u8 c = rmap (\<lambda>(bs, c'). (bs ! 0, c')) (cursor_take 1 c)"

definition cursor_u16 :: "cursor \<Rightarrow> web_error + u16 \<times> cursor" where
  "cursor_u16 c = rmap (\<lambda>(bs, c'). (from_le_bytes bs, c')) (cursor_take 2 c)"

definition cursor_u64 :: "cursor \<Rightarrow> web_error + u64 \<times> cursor" where
  "cursor_u64 c = rmap (\<lambda>(bs, c'). (from_le_bytes bs, c')) (cursor_take 8 c)"

definition cursor_text :: "nat \<Rightarrow> cursor \<Rightarrow> web_error + bytes \<times> cursor" where
  "cursor_text n c =
     rbind (cursor_take n c) (\<lambda>(bs, c'). rmap (\<lambda>t. (t, c')) (map_err WebProtocol (from_utf8 bs)))"

definition cursor_array :: "cursor \<Rightarrow> web_error + bytes \<times> cursor" where
  "cursor_array c = cursor_take 32 c"

definition cursor_finished :: "cursor \<Rightarrow> bool" where
  "cursor_finished c \<longleftrightarrow> cu_offset c = length (cu_bytes c)"

text \<open>A row of the directory: path, type, length and hash of a file.\<close>

definition read_file_row :: "cursor \<Rightarrow> web_error + (bytes \<times> bytes \<times> u64 \<times> bytes) \<times> cursor" where
  "read_file_row c =
     rbind (cursor_u16 c) (\<lambda>(pn, c).
     rbind (cursor_text (unat pn) c) (\<lambda>(path, c).
     rbind (cursor_u8 c) (\<lambda>(mn, c).
     rbind (cursor_text (unat mn) c) (\<lambda>(mime, c).
     rbind (cursor_u64 c) (\<lambda>(n, c).
     rbind (cursor_array c) (\<lambda>(sha256, c).
     Inr ((path, mime, n, sha256), c)))))))"

definition read_pin :: "cursor \<Rightarrow> web_error + pinned_entry \<times> cursor" where
  "read_pin c =
     rbind (cursor_u16 c) (\<lambda>(pn, c).
     rbind (cursor_text (unat pn) c) (\<lambda>(path, c).
     rbind (cursor_u8 c) (\<lambda>(mn, c).
     rbind (cursor_text (unat mn) c) (\<lambda>(mime, c).
     rbind (cursor_array c) (\<lambda>(txid, c).
     rbind (cursor_array c) (\<lambda>(sha256, c).
     Inr (\<lparr>pi_path = path, pi_mime = mime, pi_root_txid = txid, pi_payload_sha256 = sha256\<rparr>, c)))))))"

fun read_times :: "(cursor \<Rightarrow> web_error + 'a \<times> cursor) \<Rightarrow> nat \<Rightarrow> cursor \<Rightarrow> web_error + 'a list \<times> cursor" where
  "read_times p 0 c = Inr ([], c)"
| "read_times p (Suc n) c = rbind (p c) (\<lambda>(x, c). rbind (read_times p n c) (\<lambda>(xs, c). Inr (x # xs, c)))"

fun read_contents :: "(bytes \<times> bytes \<times> u64 \<times> bytes) list \<Rightarrow> cursor \<Rightarrow> web_error + file_entry list \<times> cursor" where
  "read_contents [] c = Inr ([], c)"
| "read_contents ((path, mime, n, sha256) # rows) c =
     rbind (cursor_take (unat n) c) (\<lambda>(content, c).
     rbind (read_contents rows c) (\<lambda>(files, c).
     Inr (\<lparr>fe_path = path, fe_mime = mime, fe_sha256 = sha256, fe_bytes = content\<rparr> # files, c)))"

definition Package_decode :: "web_lib \<Rightarrow> bytes \<Rightarrow> web_error + package" where
  "Package_decode lib bs =
     rbind (cursor_u8 \<lparr>cu_bytes = bs, cu_offset = 0\<rparr>) (\<lambda>(revision, c).
     ensure (revision = WEB_REVISION) (WebProtocol (Unsupported (''unsupported web package revision '' @ dec (unat revision))))
    (rbind (cursor_u8 c) (\<lambda>(flags, c).
     ensure (flags = 0) (WebInvalid ''reserved package flags'')
    (rbind (cursor_u16 c) (\<lambda>(file_count, c).
     rbind (cursor_u16 c) (\<lambda>(pinned_count, c).
     rbind (cursor_u16 c) (\<lambda>(entry, c).
     rbind (cursor_u8 c) (\<lambda>(label_length, c).
     rbind (cursor_text (unat label_length) c) (\<lambda>(label, c).
     rbind (read_times read_file_row (unat file_count) c) (\<lambda>(directory, c).
     rbind (read_times read_pin (unat pinned_count) c) (\<lambda>(pinned, c).
     rbind (read_contents directory c) (\<lambda>(files, c).
     ensure (cursor_finished c) (WebInvalid ''trailing package bytes'')
    (let p = \<lparr>pk_label = label, pk_entry = entry, pk_files = files, pk_pinned = pinned\<rparr> in
     rbind (Package_validate lib p) (\<lambda>_. Inr p))))))))))))))"

definition Package_resolve :: "package \<Rightarrow> bytes \<Rightarrow> resource" where
  "Package_resolve p url_path =
     (case wanted_of url_path of
        EntryWanted \<Rightarrow> if unat (pk_entry p) < length (pk_files p) then FileResource (pk_files p ! unat (pk_entry p)) else Undeclared
      | Unresolvable \<Rightarrow> Undeclared
      | PathWanted path \<Rightarrow>
          (case find (\<lambda>f. fe_path f = path) (pk_files p) of
             Some f \<Rightarrow> FileResource f
           | None \<Rightarrow> (case find (\<lambda>pin. pi_path pin = path) (pk_pinned p) of
               Some pin \<Rightarrow> PinnedResource pin
             | None \<Rightarrow> Undeclared)))"

end
