(* ===== verification/Gateway_Host.thy ===== *)
theory Gateway_Host
  imports Web_Package Names_State Chain_Params Runtime_Error
begin

section \<open>Hosts of the gateway (\<^verbatim>\<open>urma-cli/src/gateway_host.rs\<close>)\<close>

text \<open>
  The gateway answers for the hosts \<open>name.suffix.domain\<close>, one per registered name: the suffix tells the
  chain of the registry, the domain is the portal's. The theory models how the host of a request is
  read, how it is classified, and how the portal writes the origin of a name. Text is the list of its
  UTF-8 bytes; searching an ASCII character in it is searching its byte.

  \<open>gl_debug\<close>, \<open>gl_show\<close> and \<open>gl_utf8_error\<close> are the texts of error messages, \<open>gl_txid_text\<close> is the
  text of a transaction id.
\<close>

record gateway_lib =
  gl_debug :: "bytes \<Rightarrow> string"
  gl_show :: "error \<Rightarrow> string"
  gl_utf8_error :: "bytes \<Rightarrow> string"
  gl_txid_text :: "bytes \<Rightarrow> bytes"

definition DOT :: u8 where "DOT = 46"
definition COLON :: u8 where "COLON = 58"

datatype suffix = Ltc | Btc | Tltc | Tbtc

definition SUFFIXES :: "suffix list" where "SUFFIXES = [Ltc, Btc, Tltc, Tbtc]"

fun suffix_label :: "suffix \<Rightarrow> bytes" where
  "suffix_label Ltc = ascii ''ltc''"
| "suffix_label Btc = ascii ''btc''"
| "suffix_label Tltc = ascii ''tltc''"
| "suffix_label Tbtc = ascii ''tbtc''"

datatype host_error = Malformed string | UnknownSuffix bytes | NotName string | PublicationHost | RegistryHost

definition suffix_parse :: "bytes \<Rightarrow> host_error + suffix" where
  "suffix_parse label = (case find (\<lambda>s. suffix_label s = label) SUFFIXES of Some s \<Rightarrow> Inr s | None \<Rightarrow> Inl (UnknownSuffix label))"

fun suffix_chain :: "suffix \<Rightarrow> rt_error + chain" where
  "suffix_chain Ltc = Inr LitecoinMainnet"
| "suffix_chain Tltc = Inr LitecoinTestnet"
| "suffix_chain Tbtc = Inr BitcoinTestnet4"
| "suffix_chain Btc = Inl (RtUnsupported ''the .btc suffix names bitcoin mainnet, which this runtime does not support'')"

datatype link_scheme = Http | Https

fun scheme_label :: "link_scheme \<Rightarrow> bytes" where
  "scheme_label Http = ascii ''http''"
| "scheme_label Https = ascii ''https''"

datatype public_port = DefaultPort | ExplicitPort u16

record site_host =
  sh_name :: name
  sh_suffix :: suffix

datatype host = Apex | Site site_host | Foreign

record portal =
  po_domain :: bytes
  po_authority :: bytes
  po_scheme :: link_scheme
  po_registries :: "suffix \<rightharpoonup> bytes"

definition MAX_HOST_BYTES :: nat where "MAX_HOST_BYTES = 253"
definition LOCAL_DOMAIN :: bytes where "LOCAL_DOMAIN = ascii ''localhost''"

definition is_dns_label :: "bytes \<Rightarrow> bool" where
  "is_dns_label label \<longleftrightarrow> 1 \<le> length label \<and> length label \<le> NAME_MAX_BYTES \<and>
     (\<forall>b \<in> set label. is_ascii_lowercase b \<or> is_ascii_digit b \<or> b = 45)"

definition is_txid :: "bytes \<Rightarrow> bool" where
  "is_txid label \<longleftrightarrow> length label = 64 \<and> (\<forall>b \<in> set label. is_ascii_digit b \<or> (97 \<le> b \<and> b \<le> 102))"

definition Portal_new :: "gateway_lib \<Rightarrow> bytes \<Rightarrow> link_scheme \<Rightarrow> public_port \<Rightarrow> (suffix \<rightharpoonup> bytes) \<Rightarrow> rt_error + portal" where
  "Portal_new lib domain scheme port registries =
     ensure (1 \<le> length domain \<and> length domain \<le> MAX_HOST_BYTES) (RtInvalid ''portal domain must be 1..253 bytes'')
    (rbind (rfold (\<lambda>_ label. ensure (is_dns_label label)
       (RtInvalid (''portal domain '' @ gl_debug lib domain @ '' must be lowercase DNS labels (a-z, 0-9, hyphen)'')) (Inr ()))
       () (split_byte DOT domain)) (\<lambda>_.
     ensure (registries \<noteq> Map.empty) (RtInvalid ''configure at least one registry with --registry <suffix>=<genesis>'')
    (let expected = if domain = LOCAL_DOMAIN then Http else Https in
     ensure (scheme = expected)
       (RtInvalid (''links-v1 uses '' @ (case expected of Http \<Rightarrow> ''http'' | Https \<Rightarrow> ''https'') @ '' for '' @ map (\<lambda>b. char_of (unat b)) domain @
          '': https, or http when the domain is localhost''))
    (Inr \<lparr>po_domain = domain,
          po_authority = (case port of DefaultPort \<Rightarrow> domain | ExplicitPort p \<Rightarrow> domain @ [COLON] @ ascii (dec (unat p))),
          po_scheme = scheme, po_registries = registries\<rparr>))))"

definition is_registry :: "gateway_lib \<Rightarrow> portal \<Rightarrow> suffix \<Rightarrow> bytes \<Rightarrow> bool" where
  "is_registry lib portal suffix genesis =
     (case po_registries portal suffix of None \<Rightarrow> False | Some configured \<Rightarrow> gl_txid_text lib configured = genesis)"

definition apex_origin :: "portal \<Rightarrow> bytes" where
  "apex_origin portal = scheme_label (po_scheme portal) @ ascii ''://'' @ po_authority portal"

definition site_origin :: "portal \<Rightarrow> name \<Rightarrow> suffix \<Rightarrow> bytes" where
  "site_origin portal name suffix =
     scheme_label (po_scheme portal) @ ascii ''://'' @ as_str name @ [DOT] @ suffix_label suffix @ [DOT] @ po_authority portal"

definition upper_hex_digit :: "nat \<Rightarrow> u8" where
  "upper_hex_digit d = word_of_nat (if d < 10 then 48 + d else 55 + d)"

definition percent :: "u8 \<Rightarrow> bytes" where
  "percent b = (if is_ascii_alphanumeric b \<or> b \<in> set (ascii ''-._~'') then [b]
     else [37, upper_hex_digit (unat b div 16), upper_hex_digit (unat b mod 16)])"

definition unavailable_link :: "portal \<Rightarrow> bytes \<Rightarrow> bytes" where
  "unavailable_link portal original = apex_origin portal @ ascii ''/unavailable?u='' @ concat (map percent original)"

subsection \<open>Reading a host\<close>

text \<open>\<open>str::rsplit_once\<close> at a character.\<close>

definition rsplit_once :: "u8 \<Rightarrow> bytes \<Rightarrow> (bytes \<times> bytes) option" where
  "rsplit_once sep bs = map_option (\<lambda>(r, l). (rev l, rev r)) (split_once sep (rev bs))"

definition strip_prefix :: "bytes \<Rightarrow> bytes \<Rightarrow> bytes option" where
  "strip_prefix p bs = (if take (length p) bs = p then Some (drop (length p) bs) else None)"

definition strip_suffix :: "bytes \<Rightarrow> bytes \<Rightarrow> bytes option" where
  "strip_suffix s bs =
     (if length s \<le> length bs \<and> drop (length bs - length s) bs = s then Some (take (length bs - length s) bs) else None)"

definition check_port :: "gateway_lib \<Rightarrow> bytes \<Rightarrow> bytes option \<Rightarrow> host_error + unit" where
  "check_port lib rest digits =
     (if rest = [] then Inr ()
      else rbind (ok_or (Malformed ''bytes after the IPv6 literal'') digits) (\<lambda>digits.
        ensure (digits \<noteq> [] \<and> length digits \<le> 5 \<and> (\<forall>b \<in> set digits. is_ascii_digit b))
          (Malformed (''invalid port '' @ gl_debug lib digits)) (Inr ())))"

definition without_port :: "gateway_lib \<Rightarrow> bytes \<Rightarrow> host_error + bytes" where
  "without_port lib header =
     (if take 1 header = [91] then
        (case split_once 93 header of
           None \<Rightarrow> Inl (Malformed ''unterminated IPv6 literal'')
         | Some (literal, rest) \<Rightarrow>
             rbind (check_port lib rest (strip_prefix [COLON] rest)) (\<lambda>_. Inr (literal @ [93])))
      else case rsplit_once COLON header of
        None \<Rightarrow> Inr header
      | Some (host, port) \<Rightarrow> rbind (check_port lib port (Some port)) (\<lambda>_. Inr host))"

definition is_ascii_graphic :: "u8 \<Rightarrow> bool" where
  "is_ascii_graphic b \<longleftrightarrow> 0x21 \<le> b \<and> b \<le> 0x7e"

definition host_authority :: "gateway_lib \<Rightarrow> bytes \<Rightarrow> host_error + bytes" where
  "host_authority lib header =
     rbind (without_port lib header) (\<lambda>host.
     ensure (\<not> (host = [] \<or> MAX_HOST_BYTES < length host)) (Malformed ''host must be 1..253 bytes'')
    (ensure (\<forall>b \<in> set host. is_ascii_graphic b) (Malformed ''host carries a space, a control byte or non-ASCII'')
    (Inr host)))"

definition parse_name :: "gateway_lib \<Rightarrow> bytes \<Rightarrow> host_error + name" where
  "parse_name lib label = map_err (\<lambda>cause. NotName (gl_show lib cause)) (Name_parse label)"

definition site :: "gateway_lib \<Rightarrow> bytes \<Rightarrow> host_error + site_host" where
  "site lib labels =
     (let parts = split_byte DOT labels in
      ensure (\<forall>part \<in> set parts. part \<noteq> []) (Malformed ''empty label'')
     (case parts of
        [name, suffix] \<Rightarrow>
          rbind (suffix_parse suffix) (\<lambda>suffix.
          if is_txid name then Inl PublicationHost
          else rbind (parse_name lib name) (\<lambda>name. Inr \<lparr>sh_name = name, sh_suffix = suffix\<rparr>))
      | [single] \<Rightarrow> Inl (Malformed (gl_debug lib single @ '' has no name before the suffix''))
      | first # second # others \<Rightarrow>
          if length others = 1 \<and> is_txid first then
            rbind (suffix_parse (hd others)) (\<lambda>_. rbind (parse_name lib second) (\<lambda>_. Inl RegistryHost))
          else Inl (Malformed (dec (length parts) @ '' labels before the portal domain; expected <name>.<suffix>''))
      | [] \<Rightarrow> Inl (Malformed (dec 0 @ '' labels before the portal domain; expected <name>.<suffix>''))))"

definition classify :: "gateway_lib \<Rightarrow> bytes \<Rightarrow> portal \<Rightarrow> host_error + host" where
  "classify lib host portal =
     (if host = po_domain portal then Inr Apex
      else case strip_suffix (po_domain portal) host of
        None \<Rightarrow> Inr Foreign
      | Some prefix \<Rightarrow> (case strip_suffix [DOT] prefix of
          None \<Rightarrow> Inr Foreign
        | Some labels \<Rightarrow> rmap Site (site lib labels)))"

subsection \<open>Decimal digits\<close>

lemma of_char_small: "n < 256 \<Longrightarrow> (of_char (char_of (n :: nat)) :: u8) = word_of_nat n"
  by (metis of_nat_of_char of_char_of mod_less)

lemma char_of_digit: "d < 10 \<Longrightarrow> is_ascii_digit (of_char (char_of (48 + d :: nat)))"
proof -
  assume d: "d < 10"
  then have "(of_char (char_of (48 + d)) :: u8) = word_of_nat (48 + d)" by (simp add: of_char_small del: of_nat_add)
  then show ?thesis using d by (simp add: is_ascii_digit_def word_le_nat_alt unat_of_nat del: of_nat_add)
qed

lemma dec_digits: "dec n \<noteq> [] \<and> (\<forall>b \<in> set (ascii (dec n)). is_ascii_digit b)"
proof (induction n rule: dec.induct)
  case (1 n)
  then show ?case
    using char_of_digit [of n] char_of_digit [of "n mod 10"] by (subst (1 2) dec.simps) (auto simp: ascii_def)
qed

lemma dec_length: "n < 10 ^ Suc k \<Longrightarrow> length (dec n) \<le> Suc k"
proof (induction k arbitrary: n)
  case 0
  then show ?case by (subst dec.simps) simp
next
  case (Suc k)
  then have "n div 10 < 10 ^ Suc k" by (simp add: less_mult_imp_div_less)
  from Suc.IH [OF this] show ?case by (subst dec.simps) simp
qed

end
