(* ===== verification/Gateway_Links.thy ===== *)
theory Gateway_Links
  imports Gateway_Host
begin

section \<open>Rewriting links (\<^verbatim>\<open>urma-cli/src/gateway_links.rs\<close>)\<close>

text \<open>
  Before an HTML document of a publication is served, the \<open>urma://\<close> addresses in its links are replaced
  by addresses of the portal. The code scans the document as a browser would: tags and their
  attributes, comments, and the elements whose text is not markup. It works with offsets into the
  document and slices it; an index or a range out of bounds is a panic of the program. In the model
  such a function returns \<open>None\<close> exactly where the program panics.
\<close>

subsection \<open>Slices that may panic\<close>

type_synonym range = "nat \<times> nat"

definition range_of :: "bytes \<Rightarrow> range \<Rightarrow> bytes option" where
  "range_of bs r = (if fst r \<le> snd r \<and> snd r \<le> length bs then Some (slice (fst r) (snd r) bs) else None)"

definition range_from :: "bytes \<Rightarrow> nat \<Rightarrow> bytes option" where
  "range_from bs i = (if i \<le> length bs then Some (drop i bs) else None)"

definition get :: "bytes \<Rightarrow> nat \<Rightarrow> u8 option" where
  "get bs i = (if i < length bs then Some (bs ! i) else None)"

definition begins_with :: "bytes \<Rightarrow> bytes \<Rightarrow> bool" where
  "begins_with p bs \<longleftrightarrow> take (length p) bs = p"

definition ends_with :: "bytes \<Rightarrow> bytes \<Rightarrow> bool" where
  "ends_with s bs \<longleftrightarrow> length s \<le> length bs \<and> drop (length bs - length s) bs = s"

definition eq_ignore_ascii_case :: "bytes \<Rightarrow> bytes \<Rightarrow> bool" where
  "eq_ignore_ascii_case a b \<longleftrightarrow> to_ascii_lowercase a = to_ascii_lowercase b"

definition is_space :: "u8 \<Rightarrow> bool" where
  "is_space b \<longleftrightarrow> b \<in> {9, 10, 12, 13, 32}"

definition ends_name :: "u8 \<Rightarrow> bool" where
  "ends_name b \<longleftrightarrow> is_space b \<or> b = 47 \<or> b = 62"

definition is_ascii_alphabetic :: "u8 \<Rightarrow> bool" where
  "is_ascii_alphabetic b \<longleftrightarrow> (65 \<le> b \<and> b \<le> 90) \<or> (97 \<le> b \<and> b \<le> 122)"

definition trim_ascii_start :: "bytes \<Rightarrow> bytes" where
  "trim_ascii_start bs = dropWhile is_space bs"

definition trim_ascii :: "bytes \<Rightarrow> bytes" where
  "trim_ascii bs = rev (dropWhile is_space (rev (trim_ascii_start bs)))"

text \<open>The loop of \<open>run\<close> steps over the bytes that are accepted.\<close>

definition run :: "bytes \<Rightarrow> nat \<Rightarrow> (u8 \<Rightarrow> bool) \<Rightarrow> nat" where
  "run bs from' accept = from' + length (takeWhile accept (drop from' bs))"

definition is_at :: "bytes \<Rightarrow> nat \<Rightarrow> bytes \<Rightarrow> bool" where
  "is_at bs i wanted \<longleftrightarrow> i < length bs \<and> bs ! i \<in> set wanted"

definition past :: "bytes \<Rightarrow> nat \<Rightarrow> u8 \<Rightarrow> nat" where
  "past html from' byte = min (run html from' (\<lambda>b. b \<noteq> byte) + 1) (length html)"

subsection \<open>Tags\<close>

datatype field = Href | Action | HttpEquiv | Content

definition FIELDS :: "field list" where "FIELDS = [Href, Action, HttpEquiv, Content]"

fun field_name :: "field \<Rightarrow> bytes" where
  "field_name Href = ascii ''href''"
| "field_name Action = ascii ''action''"
| "field_name HttpEquiv = ascii ''http-equiv''"
| "field_name Content = ascii ''content''"

record tag =
  tg_name :: range
  tg_end :: nat
  tg_fields :: "(field \<times> range) list"

datatype scanned = Tag tag | Unterminated

definition scanned_end :: "scanned \<Rightarrow> bytes \<Rightarrow> nat" where
  "scanned_end s html = (case s of Tag t \<Rightarrow> tg_end t | Unterminated \<Rightarrow> length html)"

datatype tag_value = Span range nat | ValueUnterminated

definition keep :: "bytes \<Rightarrow> range \<Rightarrow> (field \<times> range) list \<Rightarrow> (field \<times> range) list" where
  "keep name v fs =
     foldl (\<lambda>kept field. if eq_ignore_ascii_case name (field_name field) \<and> field \<notin> fst ` set kept then kept @ [(field, v)] else kept)
       fs FIELDS"

definition field_of :: "tag \<Rightarrow> field \<Rightarrow> range option" where
  "field_of t wanted = map_option snd (find (\<lambda>k. fst k = wanted) (tg_fields t))"

definition attribute_value :: "bytes \<Rightarrow> nat \<Rightarrow> tag_value" where
  "attribute_value html from' =
     (let i = run html from' is_space in
      case get html i of
        None \<Rightarrow> ValueUnterminated
      | Some quote \<Rightarrow>
          if quote \<noteq> 34 \<and> quote \<noteq> 39 then
            let e = run html i (\<lambda>b. \<not> is_space b \<and> b \<noteq> 62) in Span (i, e) e
          else let close = run html (i + 1) (\<lambda>b. b \<noteq> quote) in
            if close = length html then ValueUnterminated else Span (i + 1, close) (close + 1))"

lemma run_ge: "i \<le> run bs i p"
  by (simp add: run_def)

lemma run_le: "i \<le> length bs \<Longrightarrow> run bs i p \<le> length bs"
  using length_takeWhile_le [of p "drop i bs"] by (simp add: run_def)

lemma attribute_value_next:
  assumes "attribute_value html i = Span s n"
  shows "i \<le> n"
proof -
  let ?j = "run html i is_space"
  have "n = run html ?j (\<lambda>b. \<not> is_space b \<and> b \<noteq> 62) \<or> (\<exists>q. n = run html (?j + 1) (\<lambda>b. b \<noteq> q) + 1)"
    using assms by (auto simp: attribute_value_def Let_def split: option.splits if_splits)
  then show ?thesis by (auto simp: run_def)
qed

text \<open>The loop over the attributes of a tag.\<close>

function tag_loop :: "bytes \<Rightarrow> range \<Rightarrow> nat \<Rightarrow> (field \<times> range) list \<Rightarrow> scanned option" where
  "tag_loop html name i0 fs =
     (let i = run html i0 (\<lambda>b. is_space b \<or> b = 47) in
      case get html i of
        None \<Rightarrow> Some Unterminated
      | Some byte \<Rightarrow>
          if byte = 62 then Some (Tag \<lparr>tg_name = name, tg_end = i + 1, tg_fields = fs\<rparr>)
          else
            let e = run html (i + 1) (\<lambda>b. \<not> ends_name b \<and> b \<noteq> 61); j = run html e is_space in
            if is_at html j [61] then
              (case attribute_value html (j + 1) of
                 ValueUnterminated \<Rightarrow> Some Unterminated
               | Span span next' \<Rightarrow>
                   Option.bind (range_of html (i, e)) (\<lambda>nm. tag_loop html name next' (keep nm span fs)))
            else Option.bind (range_of html (i, e)) (\<lambda>nm. tag_loop html name j (keep nm (j, j) fs)))"
  by pat_completeness auto

termination
proof (relation "measure (\<lambda>(html, name, i, fs). length html - i)", goal_cases)
  case (2 html name i0 fs i byte e j span next' nm)
  then have "i0 \<le> i" "i < length html" "Suc i \<le> e" "e \<le> j" "Suc j \<le> next'"
    using run_ge [of i0 html] run_ge [of "i + 1" html] run_ge [of e html] attribute_value_next [of html "j + 1" span next']
    by (auto simp: get_def split: if_splits)
  then show ?case by simp
next
  case (3 html name i0 fs i byte e j nm)
  then have "i0 \<le> i" "i < length html" "Suc i \<le> e" "e \<le> j"
    using run_ge [of i0 html] run_ge [of "i + 1" html] run_ge [of e html] by (auto simp: get_def split: if_splits)
  then show ?case by simp
qed simp

declare tag_loop.simps [simp del]

definition scan_tag :: "bytes \<Rightarrow> nat \<Rightarrow> scanned option" where
  "scan_tag html start =
     (let name = (start, run html start (\<lambda>b. \<not> ends_name b)) in tag_loop html name (snd name) [])"


definition end_tag :: "bytes \<Rightarrow> nat \<Rightarrow> nat option" where
  "end_tag html i =
     (case get html i of
        None \<Rightarrow> Some (length html)
      | Some byte \<Rightarrow>
          if byte = 62 then Some (i + 1)
          else if \<not> is_ascii_alphabetic byte then Some (past html i 62)
          else map_option (\<lambda>s. scanned_end s html) (scan_tag html i))"

function comment_loop :: "bytes \<Rightarrow> nat \<Rightarrow> nat \<Rightarrow> nat option" where
  "comment_loop html start close0 =
     (let close = run html close0 (\<lambda>b. b \<noteq> 62) in
      Option.bind (range_of html (start, close)) (\<lambda>content.
      if close = length html \<or> content = [] \<or> content = [45] \<or> ends_with (ascii ''--'') content \<or> ends_with (ascii ''--!'') content
      then Some (min (close + 1) (length html))
      else comment_loop html start (close + 1)))"
  by pat_completeness auto

termination
proof (relation "measure (\<lambda>(html, start, close). length html - close)", goal_cases)
  case (2 html start close0 close content)
  then have "close0 \<le> close" "close < length html"
    using run_ge [of close0 html] by (auto simp: range_of_def split: if_splits)
  then show ?case by simp
qed simp

declare comment_loop.simps [simp del]

definition comment :: "bytes \<Rightarrow> nat \<Rightarrow> nat option" where
  "comment html start = comment_loop html start start"

subsection \<open>Text that is not markup\<close>

datatype raw_text = DataText | RawText bytes | ScriptText | PlainText

definition RAW :: "bytes list" where
  "RAW = [ascii ''title'', ascii ''textarea'', ascii ''style'', ascii ''xmp'', ascii ''iframe'', ascii ''noembed'', ascii ''noframes'']"

definition text_after :: "bytes \<Rightarrow> raw_text" where
  "text_after name =
     (case find (\<lambda>raw. eq_ignore_ascii_case name raw) RAW of
        Some raw \<Rightarrow> RawText raw
      | None \<Rightarrow>
          if eq_ignore_ascii_case name (ascii ''script'') then ScriptText
          else if eq_ignore_ascii_case name (ascii ''plaintext'') then PlainText
          else DataText)"

definition named :: "bytes \<Rightarrow> nat \<Rightarrow> bytes \<Rightarrow> bool" where
  "named html i name =
     (let e = i + length name in e < length html \<and> eq_ignore_ascii_case (slice i e html) name \<and> ends_name (html ! e))"

definition closes :: "bytes \<Rightarrow> nat \<Rightarrow> bytes \<Rightarrow> bool option" where
  "closes html i name = map_option (\<lambda>rest. begins_with (ascii ''</'') rest \<and> named html (i + 2) name) (range_from html i)"

function raw_end :: "bytes \<Rightarrow> nat \<Rightarrow> bytes \<Rightarrow> nat option" where
  "raw_end html i name =
     (if i < length html then
        let open' = run html i (\<lambda>b. b \<noteq> 60) in
        Option.bind (closes html open' name) (\<lambda>c.
        if c then map_option (\<lambda>s. scanned_end s html) (scan_tag html (open' + 2))
        else raw_end html (open' + 1) name)
      else Some (length html))"
  by pat_completeness auto

termination
proof (relation "measure (\<lambda>(html, i, name). length html - i)", goal_cases)
  case (2 html i name open' c)
  then show ?case using run_ge [of i html "\<lambda>b. b \<noteq> 60"] by simp
qed simp

declare raw_end.simps [simp del]

datatype script = ScriptData | Escaped u8 | Double u8

fun script_after :: "script \<Rightarrow> u8 \<Rightarrow> script" where
  "script_after ScriptData byte = ScriptData"
| "script_after (Escaped dashes) byte =
     (if dashes = 2 \<and> byte = 62 then ScriptData else if byte = 45 then Escaped (min (dashes + 1) 2) else Escaped 0)"
| "script_after (Double dashes) byte =
     (if dashes = 2 \<and> byte = 62 then ScriptData else if byte = 45 then Double (min (dashes + 1) 2) else Double 0)"

fun script_open :: "bytes \<Rightarrow> nat \<Rightarrow> script \<Rightarrow> (script \<times> nat) option" where
  "script_open html i ScriptData =
     map_option (\<lambda>rest. if begins_with (ascii ''<!--'') rest then (Escaped 2, i + 4) else (ScriptData, i + 1)) (range_from html i)"
| "script_open html i (Escaped _) =
     Some (if named html (i + 1) (ascii ''script'') then (Double 0, i + 8) else (Escaped 0, i + 1))"
| "script_open html i (Double _) =
     map_option (\<lambda>c. if c then (Escaped 0, i + 9) else (Double 0, i + 1)) (closes html i (ascii ''script''))"

fun is_double :: "script \<Rightarrow> bool" where
  "is_double (Double _) = True"
| "is_double _ = False"

lemma script_open_next: "script_open html i st = Some (st', j) \<Longrightarrow> i < j"
  by (cases st) (auto split: if_splits)

function script_loop :: "bytes \<Rightarrow> nat \<Rightarrow> script \<Rightarrow> nat option" where
  "script_loop html i st =
     (if i < length html then
        if html ! i \<noteq> 60 then script_loop html (i + 1) (script_after st (html ! i))
        else Option.bind (if is_double st then Some False else closes html i (ascii ''script'')) (\<lambda>c.
          if c then map_option (\<lambda>s. scanned_end s html) (scan_tag html (i + 2))
          else Option.bind (script_open html i st) (\<lambda>(st', j). script_loop html j st'))
      else Some (length html))"
  by pat_completeness auto

termination
proof (relation "measure (\<lambda>(html, i, st). length html - i)", goal_cases)
  case (3 html i st c p st' j)
  then have "script_open html i st = Some (st', j)" by simp
  with 3(1) script_open_next [OF this] show ?case by simp
qed auto

declare script_loop.simps [simp del]

definition script_end :: "bytes \<Rightarrow> nat \<Rightarrow> nat option" where
  "script_end html from' = script_loop html from' ScriptData"


subsection \<open>Addresses in a tag\<close>

definition quoted :: "bytes \<Rightarrow> nat \<Rightarrow> range" where
  "quoted content i =
     (if \<not> is_at content i [39, 34] then (i, length content)
      else (i + 1, run content (i + 1) (\<lambda>b. b \<noteq> content ! i)))"

definition refresh_url :: "bytes \<Rightarrow> nat \<Rightarrow> range" where
  "refresh_url content start =
     (if \<not> is_at content start (ascii ''Uu'') then quoted content start
      else if \<not> is_at content (start + 1) (ascii ''Rr'') \<or> \<not> is_at content (start + 2) (ascii ''Ll'') then (start, length content)
      else let equals = run content (start + 3) is_space in
        if \<not> is_at content equals [61] then (start, length content)
        else quoted content (run content (equals + 1) is_space))"

definition refresh :: "bytes \<Rightarrow> range option" where
  "refresh content =
     (let time = run content 0 is_space; digits = run content time is_ascii_digit in
      if digits = time \<and> \<not> is_at content time [46] then None
      else
        let i = run content digits (\<lambda>b. is_ascii_digit b \<or> b = 46) in
        if i < length content \<and> \<not> is_at content i [59, 44, 9, 10, 12, 13, 32] then None
        else
          let i = (if i < length content then
                     let j = run content i is_space;
                         j = (if is_at content j [59, 44] then j + 1 else j)
                     in run content j is_space
                   else i)
          in if i = length content then None else Some (refresh_url content i))"

text \<open>The outer option is a panic.\<close>

definition url_slot :: "bytes \<Rightarrow> tag \<Rightarrow> range option option" where
  "url_slot html t =
     Option.bind (range_of html (tg_name t)) (\<lambda>name.
     if eq_ignore_ascii_case name (ascii ''a'') \<or> eq_ignore_ascii_case name (ascii ''area'') then Some (field_of t Href)
     else if eq_ignore_ascii_case name (ascii ''form'') then Some (field_of t Action)
     else if \<not> eq_ignore_ascii_case name (ascii ''meta'') then Some None
     else case field_of t HttpEquiv of
       None \<Rightarrow> Some None
     | Some he \<Rightarrow>
         Option.bind (range_of html he) (\<lambda>e.
         if \<not> eq_ignore_ascii_case e (ascii ''refresh'') then Some None
         else case field_of t Content of
           None \<Rightarrow> Some None
         | Some content \<Rightarrow>
             Option.bind (range_of html content) (\<lambda>c.
             Some (map_option (\<lambda>url. (fst content + fst url, fst content + snd url)) (refresh c)))))"

datatype rewriting = Keep | To bytes

datatype link_target = SiteTarget name suffix | UnavailableTarget

definition SCHEME :: bytes where "SCHEME = ascii ''urma://''"

definition canonical_host :: "gateway_lib \<Rightarrow> bytes \<Rightarrow> host_error + unit" where
  "canonical_host lib host =
     ensure (\<forall>b \<in> set host. is_ascii_lowercase b \<or> is_ascii_digit b \<or> b = 45 \<or> b = DOT)
       (Malformed (gl_debug lib host @ '' is not lowercase ASCII labels (userinfo, port, escapes and uppercase are not canonical)''))
    (ensure (\<forall>label \<in> set (split_byte DOT host). label \<noteq> []) (Malformed (gl_debug lib host @ '' has an empty label'')) (Inr ()))"

definition link_target_of :: "gateway_lib \<Rightarrow> bytes \<Rightarrow> portal \<Rightarrow> host_error + link_target" where
  "link_target_of lib host portal =
     (if \<not> is_utf8 host then Inl (Malformed (gl_utf8_error lib host))
      else rbind (canonical_host lib host) (\<lambda>_.
        let labels = split_byte DOT host in
        if labels = [] then Inl (Malformed ''empty host'')
        else rbind (suffix_parse (last labels)) (\<lambda>suffix.
          case butlast labels of
            [label] \<Rightarrow>
              if is_txid label then Inr UnavailableTarget
              else rbind (parse_name lib label) (\<lambda>name. Inr (SiteTarget name suffix))
          | [genesis, label] \<Rightarrow>
              if is_txid genesis then
                rbind (parse_name lib label) (\<lambda>name.
                if is_registry lib portal suffix genesis then Inr (SiteTarget name suffix) else Inr UnavailableTarget)
              else Inl (Malformed (dec 2 @ '' labels before the suffix''))
          | other \<Rightarrow> Inl (Malformed (dec (length other) @ '' labels before the suffix'')))))"

definition site_link :: "portal \<Rightarrow> name \<Rightarrow> suffix \<Rightarrow> bytes \<Rightarrow> bytes" where
  "site_link portal name suffix tail' =
     site_origin portal name suffix @ (if begins_with [SLASH] tail' then [] else [SLASH]) @ tail'"

definition rewrite :: "gateway_lib \<Rightarrow> bytes \<Rightarrow> portal \<Rightarrow> rewriting" where
  "rewrite lib candidate portal =
     (case strip_prefix SCHEME candidate of
        None \<Rightarrow> Keep
      | Some rest \<Rightarrow>
          let n = run rest 0 (\<lambda>b. b \<notin> set (ascii ''/?#'')); host = take n rest; tail' = drop n rest in
          if \<exists>b \<in> set tail'. b \<le> 32 \<or> b = 0x7f \<or> b = 92 then Keep
          else case link_target_of lib host portal of
            Inr (SiteTarget name suffix) \<Rightarrow> To (site_link portal name suffix tail')
          | Inr UnavailableTarget \<Rightarrow> To (unavailable_link portal candidate)
          | Inl _ \<Rightarrow> Keep)"

subsection \<open>The document\<close>

record links =
  li_output :: bytes
  li_cursor :: nat

definition link :: "gateway_lib \<Rightarrow> portal \<Rightarrow> bytes \<Rightarrow> range \<Rightarrow> links \<Rightarrow> links option" where
  "link lib portal html slot l =
     Option.bind (range_of html slot) (\<lambda>v.
     let candidate = trim_ascii v in
     case rewrite lib candidate portal of
       Keep \<Rightarrow> Some l
     | To text' \<Rightarrow>
         let start = fst slot + length v - length (trim_ascii_start v) in
         Option.bind (range_of html (li_cursor l, start)) (\<lambda>gap.
         Some \<lparr>li_output = li_output l @ gap @ text', li_cursor = start + length candidate\<rparr>))"

definition start_tag :: "gateway_lib \<Rightarrow> portal \<Rightarrow> bytes \<Rightarrow> nat \<Rightarrow> links \<Rightarrow> (links \<times> nat) option" where
  "start_tag lib portal html i l =
     Option.bind (scan_tag html i) (\<lambda>s.
     case s of
       Unterminated \<Rightarrow> Some (l, length html)
     | Tag t \<Rightarrow>
         Option.bind (url_slot html t) (\<lambda>slot.
         Option.bind (case slot of None \<Rightarrow> Some l | Some slot \<Rightarrow> link lib portal html slot l) (\<lambda>l'.
         Option.bind (range_of html (tg_name t)) (\<lambda>name.
         map_option (\<lambda>j. (l', j))
           (case text_after name of
              DataText \<Rightarrow> Some (tg_end t)
            | RawText raw \<Rightarrow> raw_end html (tg_end t) raw
            | ScriptText \<Rightarrow> script_end html (tg_end t)
            | PlainText \<Rightarrow> Some (length html))))))"

definition markup :: "gateway_lib \<Rightarrow> portal \<Rightarrow> bytes \<Rightarrow> nat \<Rightarrow> links \<Rightarrow> (links \<times> nat) option" where
  "markup lib portal html i l =
     (case get html i of
        None \<Rightarrow> Some (l, length html)
      | Some byte \<Rightarrow>
          if byte = 33 then
            Option.bind (range_from html (i + 1)) (\<lambda>rest.
            map_option (\<lambda>j. (l, j)) (if begins_with (ascii ''--'') rest then comment html (i + 3) else Some (past html i 62)))
          else if byte = 63 then Some (l, past html i 62)
          else if byte = 47 then map_option (\<lambda>j. (l, j)) (end_tag html (i + 1))
          else if is_ascii_alphabetic byte then start_tag lib portal html i l
          else Some (l, i))"

datatype transformed = Unchanged | Rewritten bytes

definition links_finish :: "bytes \<Rightarrow> links \<Rightarrow> transformed option" where
  "links_finish html l =
     (if li_cursor l = 0 then Some Unchanged
      else map_option (\<lambda>rest. Rewritten (li_output l @ rest)) (range_from html (li_cursor l)))"

end
