(* ===== verification/Gateway_Transform.thy ===== *)
theory Gateway_Transform
  imports Gateway_Links
begin

section \<open>The scan of a document\<close>

text \<open>
  The scan of \<open>gateway_links.rs\<close> stays inside the document and moves on with every piece of markup, so
  no slice panics and the loop over the document ends; the loop, which needs this for its termination, is
  defined here. What the scan puts out is the document with some addresses replaced.
\<close>

subsection \<open>Where the scanner stands\<close>

definition in_range :: "nat \<Rightarrow> range \<Rightarrow> nat \<Rightarrow> bool" where
  "in_range lo r hi \<longleftrightarrow> lo \<le> fst r \<and> fst r \<le> snd r \<and> snd r \<le> hi"

lemma in_range_mono: "in_range lo r hi \<Longrightarrow> lo' \<le> lo \<Longrightarrow> hi \<le> hi' \<Longrightarrow> in_range lo' r hi'"
  by (auto simp: in_range_def)

lemma range_of_ok: "in_range lo r (length bs) \<Longrightarrow> range_of bs r = Some (slice (fst r) (snd r) bs)"
  by (auto simp: in_range_def range_of_def)

lemma attribute_value_span:
  assumes "attribute_value html i = Span s n"
  shows "in_range i s n" "n \<le> length html"
proof -
  let ?j = "run html i is_space"
  from assms have j: "?j < length html" by (auto simp: attribute_value_def Let_def get_def split: if_splits)
  then have le: "run html ?j p \<le> length html" "run html (?j + 1) p \<le> length html" for p
    using run_le [of ?j html p] run_le [of "?j + 1" html p] by simp_all
  have ge: "i \<le> ?j" "?j \<le> run html ?j p" "?j + 1 \<le> run html (?j + 1) p" for p by (rule run_ge)+
  consider p where "s = (?j, run html ?j p)" "n = run html ?j p"
    | p where "s = (?j + 1, run html (?j + 1) p)" "n = run html (?j + 1) p + 1" "run html (?j + 1) p \<noteq> length html"
    using assms by (auto simp: attribute_value_def Let_def split: option.splits if_splits)
  then have "in_range i s n \<and> n \<le> length html"
  proof cases
    case (1 p)
    then show ?thesis using le(1) [of p] ge(1) ge(2) [of p] by (simp add: in_range_def)
  next
    case (2 p)
    then show ?thesis using le(2) [of p] ge(1) ge(3) [of p] by (simp add: in_range_def)
  qed
  then show "in_range i s n" "n \<le> length html" by blast+
qed

definition fields_in :: "nat \<Rightarrow> (field \<times> range) list \<Rightarrow> nat \<Rightarrow> bool" where
  "fields_in lo fs hi \<longleftrightarrow> (\<forall>k \<in> set fs. in_range lo (snd k) hi)"

lemma keep_in: "fields_in lo fs hi \<Longrightarrow> in_range lo v hi \<Longrightarrow> fields_in lo (keep name v fs) hi"
  by (auto simp: keep_def FIELDS_def fields_in_def)

lemma fields_in_mono: "fields_in lo fs hi \<Longrightarrow> hi \<le> hi' \<Longrightarrow> fields_in lo fs hi'"
  by (auto simp: fields_in_def intro: in_range_mono)

definition tag_ok :: "bytes \<Rightarrow> range \<Rightarrow> nat \<Rightarrow> tag \<Rightarrow> bool" where
  "tag_ok html name lo t \<longleftrightarrow> tg_name t = name \<and> lo < tg_end t \<and> tg_end t \<le> length html \<and> fields_in lo (tg_fields t) (tg_end t)"

lemma tag_loop_ok:
  "lo \<le> i \<Longrightarrow> fields_in lo fs i \<Longrightarrow>
     \<exists>s. tag_loop html name i fs = Some s \<and> (\<forall>t. s = Tag t \<longrightarrow> tag_ok html name lo t)"
proof (induction html name i fs rule: tag_loop.induct)
  case (1 html name i0 fs)
  let ?i = "run html i0 (\<lambda>b. is_space b \<or> b = 47)"
  let ?e = "run html (?i + 1) (\<lambda>b. \<not> ends_name b \<and> b \<noteq> 61)"
  let ?j = "run html ?e is_space"
  have ge: "i0 \<le> ?i" "?i + 1 \<le> ?e" "?e \<le> ?j" by (rule run_ge)+
  show ?case
  proof (cases "get html ?i")
    case None
    then show ?thesis by (subst tag_loop.simps) (simp add: Let_def)
  next
    case (Some byte)
    then have i: "?i < length html" by (simp add: get_def split: if_splits)
    then have e: "?e \<le> length html" and j: "?j \<le> length html"
      using run_le [of "?i + 1" html] run_le [of ?e html] by simp_all
    from e ge have r: "range_of html (?i, ?e) = Some (slice ?i ?e html)" by (simp add: range_of_def)
    show ?thesis
    proof (cases "byte = 62")
      case True
      then show ?thesis
        using Some i ge 1(3,4) by (subst tag_loop.simps) (auto simp: Let_def tag_ok_def intro: fields_in_mono)
    next
      case byte: False
      show ?thesis
      proof (cases "is_at html ?j [61]")
        case at: True
        show ?thesis
        proof (cases "attribute_value html (?j + 1)")
          case (Span s n)
          from attribute_value_span [OF Span] have s: "in_range (?j + 1) s n" "n \<le> length html" by simp_all
          then have "?j + 1 \<le> n" by (simp add: in_range_def)
          moreover from this have "fields_in lo (keep (slice ?i ?e html) s fs) n"
            using ge 1(3,4) s by (intro keep_in) (auto intro: fields_in_mono in_range_mono)
          ultimately show ?thesis
            using 1(1) [OF refl Some byte refl refl at Span r] ge 1(3) Some byte at Span r
            by (subst tag_loop.simps) (simp add: Let_def)
        next
          case ValueUnterminated
          then show ?thesis using Some byte at by (subst tag_loop.simps) (simp add: Let_def)
        qed
      next
        case at: False
        have "fields_in lo (keep (slice ?i ?e html) (?j, ?j) fs) ?j"
          using ge 1(3,4) by (intro keep_in) (auto simp: in_range_def intro: fields_in_mono)
        then show ?thesis
          using 1(2) [OF refl Some byte refl refl at r] ge 1(3) Some byte at r
          by (subst tag_loop.simps) (simp add: Let_def)
      qed
    qed
  qed
qed

lemma scan_tag_ok:
  assumes "i \<le> length html"
  shows "\<exists>s. scan_tag html i = Some s \<and> (\<forall>t. s = Tag t \<longrightarrow> tag_ok html (tg_name t) i t \<and> in_range i (tg_name t) (length html))"
proof -
  let ?e = "run html i (\<lambda>b. \<not> ends_name b)"
  have "i \<le> ?e" by (rule run_ge)
  moreover have "?e \<le> length html" using assms by (rule run_le)
  ultimately show ?thesis
    using tag_loop_ok [of i ?e "[]" html "(i, ?e)"] by (auto simp: scan_tag_def fields_in_def tag_ok_def in_range_def)
qed

lemma scan_tag_end:
  assumes "i \<le> length html"
  shows "\<exists>s. scan_tag html i = Some s \<and> i \<le> scanned_end s html \<and> scanned_end s html \<le> length html"
  using scan_tag_ok [OF assms] assms by (force simp: scanned_end_def tag_ok_def split: scanned.splits)


subsection \<open>Every step succeeds and moves on\<close>

text \<open>\<open>lands html i m\<close>: the scan does not panic and stops inside the document, not before \<open>i\<close>.\<close>

definition lands :: "bytes \<Rightarrow> nat \<Rightarrow> nat option \<Rightarrow> bool" where
  "lands html i m \<longleftrightarrow> (\<exists>j. m = Some j \<and> min i (length html) \<le> j \<and> j \<le> length html)"

lemma lands_mono: "lands html i m \<Longrightarrow> i' \<le> i \<Longrightarrow> lands html i' m"
  by (auto simp: lands_def)

lemma lands_length [simp]: "lands html i (Some (length html))"
  by (simp add: lands_def)

lemma past_lands: "lands html i (Some (past html i b))"
  using run_ge [of i html] by (auto simp: lands_def past_def intro: min.coboundedI1 le_SucI)

lemma scan_tag_lands: "i \<le> length html \<Longrightarrow> lands html i (map_option (\<lambda>s. scanned_end s html) (scan_tag html i))"
  using scan_tag_end [of i html] by (auto simp: lands_def)

lemma end_tag_lands: "lands html i (end_tag html i)"
  using scan_tag_lands [of i html] past_lands [of html i 62]
  by (cases "i < length html") (simp_all add: end_tag_def get_def, simp add: lands_def)

lemma comment_loop_lands:
  "start \<le> i \<Longrightarrow> i \<le> length html \<Longrightarrow> lands html i (comment_loop html start i)"
proof (induction html start i rule: comment_loop.induct)
  case (1 html start i0)
  let ?i = "run html i0 (\<lambda>b. b \<noteq> 62)"
  have ge: "i0 \<le> ?i" and le: "?i \<le> length html" using run_ge run_le 1 by auto
  with 1(2) have r: "range_of html (start, ?i) = Some (slice start ?i html)" by (simp add: range_of_def)
  let ?stop = "?i = length html \<or> slice start ?i html = [] \<or> slice start ?i html = [45] \<or>
      ends_with (ascii ''--'') (slice start ?i html) \<or> ends_with (ascii ''--!'') (slice start ?i html)"
  show ?case
  proof (cases ?stop)
    case True
    then show ?thesis using r ge le by (subst comment_loop.simps) (auto simp: Let_def lands_def)
  next
    case False
    then have "lands html (?i + 1) (comment_loop html start (?i + 1))"
      using 1(1) [OF refl r] 1(2) ge le by simp
    with False r ge show ?thesis
      by (subst comment_loop.simps) (auto simp: Let_def intro: lands_mono)
  qed
qed

lemma comment_lands: "i \<le> length html \<Longrightarrow> lands html i (comment html i)"
  by (simp add: comment_def comment_loop_lands)

lemma closes_ok: "i \<le> length html \<Longrightarrow> \<exists>c. closes html i name = Some c \<and> (c \<longrightarrow> i + 2 + length name < length html)"
  by (auto simp: closes_def range_from_def named_def Let_def)

lemma raw_end_lands: "lands html i (raw_end html i name)"
proof (induction html i name rule: raw_end.induct)
  case (1 html i name)
  show ?case
  proof (cases "i < length html")
    case True
    let ?o = "run html i (\<lambda>b. b \<noteq> 60)"
    have ge: "i \<le> ?o" "?o \<le> length html" using run_ge run_le True by auto
    then obtain c where c: "closes html ?o name = Some c" "c \<longrightarrow> ?o + 2 + length name < length html" using closes_ok by blast
    show ?thesis
    proof (cases c)
      case True
      with c have "lands html (?o + 2) (map_option (\<lambda>s. scanned_end s html) (scan_tag html (?o + 2)))"
        by (intro scan_tag_lands) simp
      with True c \<open>i < length html\<close> ge show ?thesis by (subst raw_end.simps) (auto simp: Let_def intro: lands_mono)
    next
      case False
      with 1 [OF True refl c(1)] True c ge show ?thesis by (subst raw_end.simps) (auto simp: Let_def intro: lands_mono)
    qed
  qed (subst raw_end.simps, simp)
qed

lemma script_open_ok: "i \<le> length html \<Longrightarrow> \<exists>st' j. script_open html i st = Some (st', j) \<and> i < j"
proof -
  assume i: "i \<le> length html"
  obtain c where c: "closes html i (ascii ''script'') = Some c" using closes_ok [OF i] by blast
  have "script_open html i st \<noteq> None" using i c by (cases st) (simp_all add: range_from_def)
  then show ?thesis using script_open_next by fastforce
qed

lemma script_loop_lands: "lands html i (script_loop html i st)"
proof (induction html i st rule: script_loop.induct)
  case (1 html i st)
  show ?case
  proof (cases "i < length html")
    case i: True
    show ?thesis
    proof (cases "html ! i = 60")
      case lt: True
      let ?c = "if is_double st then Some False else closes html i (ascii ''script'')"
      obtain c0 where "closes html i (ascii ''script'') = Some c0" "c0 \<longrightarrow> i + 2 < length html"
        using closes_ok [of i html "ascii ''script''"] i by auto
      then obtain c where c: "?c = Some c" "c \<longrightarrow> i + 2 < length html" by (cases "is_double st") auto
      obtain st' j where j: "script_open html i st = Some (st', j)" "i < j" using script_open_ok i by (meson less_imp_le)
      show ?thesis
      proof (cases c)
        case True
        with c have "lands html (i + 2) (map_option (\<lambda>s. scanned_end s html) (scan_tag html (i + 2)))"
          by (intro scan_tag_lands) simp
        then have "lands html i (map_option (\<lambda>s. scanned_end s html) (scan_tag html (i + 2)))" by (rule lands_mono) simp
        with True c i lt show ?thesis by (subst script_loop.simps) simp
      next
        case False
        then have "lands html j (script_loop html j st')" using 1(2) [OF i _ c(1)] lt j by simp
        then have "lands html i (script_loop html j st')" using j by (auto intro: lands_mono)
        with False c i lt j show ?thesis by (subst script_loop.simps) simp
      qed
    next
      case False
      then show ?thesis using 1(1) [OF i] i by (subst script_loop.simps) (auto intro: lands_mono)
    qed
  qed (subst script_loop.simps, simp)
qed

lemma script_end_lands: "lands html i (script_end html i)"
  by (simp add: script_end_def script_loop_lands)


text \<open>The steps that only move on, and the tags.\<close>

lemma link_in_slot:
  assumes "in_range lo slot (length html)" "li_cursor l \<le> lo"
  shows "\<exists>l'. link lib portal html slot l = Some l'"
proof -
  let ?v = "slice (fst slot) (snd slot) html"
  from assms have r: "range_of html slot = Some ?v" by (intro range_of_ok) (auto simp: in_range_def)
  have "length (trim_ascii_start ?v) \<le> length ?v" by (simp add: trim_ascii_start_def length_dropWhile_le)
  moreover have "fst slot + length ?v \<le> length html" using assms(1) by (auto simp: in_range_def slice_def)
  ultimately have "range_of html (li_cursor l, fst slot + length ?v - length (trim_ascii_start ?v)) \<noteq> None"
    using assms by (simp add: range_of_def in_range_def, linarith)
  then show ?thesis using r by (auto simp: link_def Let_def split: rewriting.splits)
qed

lemma find_field_in: "fields_in lo fs hi \<Longrightarrow> find (\<lambda>k. fst k = f) fs = Some k \<Longrightarrow> in_range lo (snd k) hi"
  by (induction fs) (auto simp: fields_in_def split: if_splits)

lemma field_in: "fields_in lo (tg_fields t) hi \<Longrightarrow> field_of t f = Some r \<Longrightarrow> in_range lo r hi"
  by (auto simp: field_of_def dest: find_field_in)

lemma quoted_in: "i \<le> length c \<Longrightarrow> in_range i (quoted c i) (length c)"
  using run_ge [of "i + 1" c "\<lambda>b. b \<noteq> c ! i"] run_le [of "i + 1" c "\<lambda>b. b \<noteq> c ! i"]
  by (auto simp: quoted_def is_at_def in_range_def)

lemma refresh_url_in: "i \<le> length c \<Longrightarrow> in_range 0 (refresh_url c i) (length c)"
proof -
  assume i: "i \<le> length c"
  let ?e = "run c (i + 3) is_space"
  have "is_at c ?e [61] \<Longrightarrow> run c (?e + 1) is_space \<le> length c"
    using run_le [of "?e + 1" c is_space] by (simp add: is_at_def)
  then show ?thesis
    using i quoted_in [of i c] quoted_in [of "run c (?e + 1) is_space" c]
    by (auto simp: refresh_url_def Let_def in_range_def)
qed

lemma refresh_in: "refresh c = Some r \<Longrightarrow> in_range 0 r (length c)"
proof -
  assume r: "refresh c = Some r"
  let ?d = "run c (run c 0 is_space) is_ascii_digit"
  let ?i = "run c ?d (\<lambda>b. is_ascii_digit b \<or> b = 46)"
  have i: "?i \<le> length c" by (intro run_le) simp
  let ?j = "run c ?i is_space"
  let ?k = "if is_at c ?j [59, 44] then ?j + 1 else ?j"
  have j: "?j \<le> length c" using i by (rule run_le)
  then have "?k \<le> length c" by (simp add: is_at_def)
  then have k: "run c ?k is_space \<le> length c" by (rule run_le)
  have "\<exists>i \<le> length c. r = refresh_url c i"
    using r i k by (auto simp: refresh_def Let_def split: if_splits)
  then show ?thesis using refresh_url_in by blast
qed

lemma url_slot_in:
  assumes "range_of html (tg_name t) \<noteq> None" "fields_in lo (tg_fields t) hi" "hi \<le> length html"
  shows "\<exists>slot. url_slot html t = Some slot \<and> (\<forall>r. slot = Some r \<longrightarrow> in_range lo r hi)"
proof -
  have f: "in_range lo r hi" if "field_of t f = Some r" for f r using field_in [OF assms(2) that] .
  have r: "range_of html r = Some (slice (fst r) (snd r) html)" if "field_of t f = Some r" for f r
    using in_range_mono [OF f [OF that] order.refl assms(3)] by (rule range_of_ok)
  have m: "in_range lo (fst c + fst u, fst c + snd u) hi"
    if "field_of t f = Some c" "refresh (slice (fst c) (snd c) html) = Some u" for f c u
    using f [OF that(1)] refresh_in [OF that(2)] by (auto simp: in_range_def slice_def)
  obtain name where n: "range_of html (tg_name t) = Some name" using assms(1) by blast
  show ?thesis
  proof (cases "field_of t HttpEquiv")
    case None
    then show ?thesis using n f by (auto simp: url_slot_def)
  next
    case (Some e)
    then show ?thesis
      using n f r m by (cases "field_of t Content") (auto simp: url_slot_def)
  qed
qed


subsection \<open>What has been replaced\<close>

text \<open>
  An edit is the text kept before an address, the address, and what replaces it. \<open>edited html l es\<close>: the
  document up to the cursor consists of the edits' kept texts and addresses, and the output of the kept
  texts and replacements.
\<close>

type_synonym edit = "bytes \<times> bytes \<times> bytes"

definition original :: "edit list \<Rightarrow> bytes" where
  "original es = concat (map (\<lambda>(gap, candidate, new). gap @ candidate) es)"

definition replacement :: "edit list \<Rightarrow> bytes" where
  "replacement es = concat (map (\<lambda>(gap, candidate, new). gap @ new) es)"

definition edited :: "gateway_lib \<Rightarrow> portal \<Rightarrow> bytes \<Rightarrow> links \<Rightarrow> edit list \<Rightarrow> bool" where
  "edited lib portal html l es \<longleftrightarrow>
     li_cursor l \<le> length html \<and> take (li_cursor l) html = original es \<and> li_output l = replacement es \<and>
     list_all (\<lambda>(gap, candidate, new). rewrite lib candidate portal = To new) es"

lemma trim_ascii_start_drop: "trim_ascii_start v = drop (length v - length (trim_ascii_start v)) v"
proof -
  have "v = takeWhile is_space v @ dropWhile is_space v" by simp
  then have "length v = length (takeWhile is_space v) + length (dropWhile is_space v)" by (metis length_append)
  then show ?thesis by (simp add: trim_ascii_start_def dropWhile_eq_drop)
qed

lemma trim_ascii_take: "trim_ascii v = take (length (trim_ascii v)) (trim_ascii_start v)"
proof -
  let ?s = "trim_ascii_start v"
  have "rev ?s = takeWhile is_space (rev ?s) @ dropWhile is_space (rev ?s)" by simp
  then have "?s = rev (dropWhile is_space (rev ?s)) @ rev (takeWhile is_space (rev ?s))" by (metis rev_append rev_rev_ident)
  then have "\<exists>r. ?s = trim_ascii v @ r" unfolding trim_ascii_def by blast
  then show ?thesis by (metis append_eq_conv_conj)
qed

lemma trim_ascii_le: "length (trim_ascii v) \<le> length (trim_ascii_start v)"
  by (metis trim_ascii_take length_take min.cobounded2 min.commute min_def nat_le_linear)

text \<open>The address lies in the slot.\<close>

lemma candidate_at:
  assumes "in_range lo slot (length html)" "v = slice (fst slot) (snd slot) html"
    and "start = fst slot + length v - length (trim_ascii_start v)"
  shows "take (length (trim_ascii v)) (drop start html) = trim_ascii v" "fst slot \<le> start" "start + length (trim_ascii v) \<le> snd slot"
proof -
  let ?k = "length v - length (trim_ascii_start v)"
  have l: "length v = snd slot - fst slot" using assms(1,2) by (auto simp: in_range_def slice_def)
  have k: "length (trim_ascii_start v) \<le> length v" by (simp add: trim_ascii_start_def length_dropWhile_le)
  then have s: "start = fst slot + ?k" using assms(3) by simp
  then show "fst slot \<le> start" by simp
  have n: "length (trim_ascii v) \<le> length v - ?k" using trim_ascii_le [of v] k by simp
  then show "start + length (trim_ascii v) \<le> snd slot" using s l k assms(1) by (auto simp: in_range_def)
  have "trim_ascii_start v = take (length v - ?k) (drop start html)"
  proof -
    have "v = take (length v) (drop (fst slot) html)" using assms(2) l by (simp add: slice_def)
    then have "drop ?k v = take (length v - ?k) (drop ?k (drop (fst slot) html))" by (metis drop_take)
    then show ?thesis using trim_ascii_start_drop [of v] s by (simp add: add.commute)
  qed
  then have "trim_ascii v = take (length (trim_ascii v)) (take (length v - ?k) (drop start html))"
    using trim_ascii_take by metis
  then show "take (length (trim_ascii v)) (drop start html) = trim_ascii v" using n by (simp add: take_take min_absorb1)
qed

lemma rewrite_nonempty: "rewrite lib candidate portal = To new \<Longrightarrow> candidate \<noteq> []"
  by (auto simp: rewrite_def strip_prefix_def SCHEME_def ascii_def)

lemma link_edited:
  assumes "in_range lo slot hi" "hi \<le> length html" "li_cursor l \<le> lo" "edited lib portal html l es"
  shows "\<exists>l' es'. link lib portal html slot l = Some l' \<and> edited lib portal html l' es' \<and> li_cursor l' \<le> hi"
proof -
  have slot: "in_range lo slot (length html)" using assms(1,2) by (rule in_range_mono [OF _ order.refl])
  obtain l' where l': "link lib portal html slot l = Some l'" using link_in_slot [OF slot assms(3)] by blast
  define v where "v = slice (fst slot) (snd slot) html"
  define start where "start = fst slot + length v - length (trim_ascii_start v)"
  note at = candidate_at [OF slot v_def start_def]
  have r: "range_of html slot = Some v" using slot v_def range_of_ok by simp
  show ?thesis
  proof (cases "rewrite lib (trim_ascii v) portal")
    case Keep
    then have "l' = l" using l' r by (simp add: link_def Let_def)
    moreover have "li_cursor l \<le> hi" using assms(1,3) by (simp add: in_range_def)
    ultimately show ?thesis using l' assms(4) by blast
  next
    case (To new)
    let ?c = "li_cursor l" and ?n = "length (trim_ascii v)"
    have e: "start + ?n \<le> length html" "?c \<le> start" using at(2,3) slot assms(3) by (auto simp: in_range_def)
    have new: "l' = \<lparr>li_output = li_output l @ slice ?c start html @ new, li_cursor = start + ?n\<rparr>"
      using l' r To e by (simp add: link_def Let_def range_of_def start_def split: if_splits)
    have "take (start + ?n) html = take start html @ trim_ascii v" using at(1) by (simp add: take_add)
    also have "take start html = take ?c html @ slice ?c start html"
      using e(2) by (metis slice_def take_add le_add_diff_inverse)
    finally have "take (start + ?n) html = original es @ slice ?c start html @ trim_ascii v"
      using assms(4) by (simp add: edited_def)
    then have "edited lib portal html l' (es @ [(slice ?c start html, trim_ascii v, new)])"
      using assms(4) To e by (simp add: new edited_def original_def replacement_def)
    moreover have "li_cursor l' \<le> hi" using at(3) assms(1) by (simp add: new in_range_def)
    ultimately show ?thesis using l' by blast
  qed
qed

text \<open>One piece of markup: no panic, and the cursor stays behind the scan.\<close>

definition scanning :: "gateway_lib \<Rightarrow> portal \<Rightarrow> bytes \<Rightarrow> nat \<Rightarrow> links \<Rightarrow> bool" where
  "scanning lib portal html i l \<longleftrightarrow> li_cursor l \<le> i \<and> (\<exists>es. edited lib portal html l es)"

definition steps_to :: "gateway_lib \<Rightarrow> portal \<Rightarrow> bytes \<Rightarrow> nat \<Rightarrow> (links \<times> nat) option \<Rightarrow> bool" where
  "steps_to lib portal html i m \<longleftrightarrow>
     (\<exists>l' j. m = Some (l', j) \<and> min i (length html) \<le> j \<and> j \<le> length html \<and> scanning lib portal html j l')"

lemma scanning_later: "scanning lib portal html i l \<Longrightarrow> i \<le> j \<Longrightarrow> scanning lib portal html j l"
  by (auto simp: scanning_def)

lemma scanning_length: "scanning lib portal html i l \<Longrightarrow> scanning lib portal html (length html) l"
  by (auto simp: scanning_def edited_def)

lemma lands_steps:
  assumes "lands html i m" "scanning lib portal html i l"
  shows "steps_to lib portal html i (map_option (\<lambda>j. (l, j)) m)"
proof -
  obtain j where j: "m = Some j" "min i (length html) \<le> j" "j \<le> length html" using assms(1) by (auto simp: lands_def)
  have "scanning lib portal html j l"
    using assms(2) j scanning_length [OF assms(2)] by (auto simp: min_def intro: scanning_later split: if_splits)
  with j show ?thesis by (simp add: steps_to_def)
qed

lemma start_tag_steps:
  assumes "scanning lib portal html i l" "i < length html"
  shows "steps_to lib portal html i (start_tag lib portal html i l)"
proof -
  obtain s where s: "scan_tag html i = Some s" and t: "\<And>t. s = Tag t \<Longrightarrow> tag_ok html (tg_name t) i t \<and> in_range i (tg_name t) (length html)"
    using scan_tag_ok [of i html] assms(2) by auto
  show ?thesis
  proof (cases s)
    case Unterminated
    then show ?thesis using s lands_steps [OF lands_length assms(1)] by (simp add: start_tag_def)
  next
    case (Tag t)
    from \<open>s = Tag t\<close> have ok: "i < tg_end t" "tg_end t \<le> length html" "fields_in i (tg_fields t) (tg_end t)"
      and n: "range_of html (tg_name t) = Some (slice (fst (tg_name t)) (snd (tg_name t)) html)"
      using t by (auto simp: tag_ok_def dest: range_of_ok)
    obtain slot where slot: "url_slot html t = Some slot" "\<And>r. slot = Some r \<Longrightarrow> in_range i r (tg_end t)"
      using url_slot_in [of html t i "tg_end t"] n ok by auto
    obtain es where es: "edited lib portal html l es" and c: "li_cursor l \<le> i" using assms(1) by (auto simp: scanning_def)
    have "\<exists>l' es'. (case slot of None \<Rightarrow> Some l | Some slot \<Rightarrow> link lib portal html slot l) = Some l' \<and>
        edited lib portal html l' es' \<and> li_cursor l' \<le> tg_end t"
      using slot(2) link_edited [OF _ ok(2) c es] es c ok(1) by (cases slot) auto
    then obtain l' where l': "(case slot of None \<Rightarrow> Some l | Some slot \<Rightarrow> link lib portal html slot l) = Some l'"
      "scanning lib portal html (tg_end t) l'" by (auto simp: scanning_def)
    let ?text = "case text_after (slice (fst (tg_name t)) (snd (tg_name t)) html) of
        DataText \<Rightarrow> Some (tg_end t) | RawText raw \<Rightarrow> raw_end html (tg_end t) raw
      | ScriptText \<Rightarrow> script_end html (tg_end t) | PlainText \<Rightarrow> Some (length html)"
    have "lands html (tg_end t) ?text"
      using ok(2) by (auto simp: raw_end_lands script_end_lands split: raw_text.splits) (simp add: lands_def)
    then have "steps_to lib portal html (tg_end t) (map_option (\<lambda>j. (l', j)) ?text)" using l'(2) by (rule lands_steps)
    then have "steps_to lib portal html i (map_option (\<lambda>j. (l', j)) ?text)" using ok(1) by (auto simp: steps_to_def)
    then show ?thesis using Tag s slot(1) l'(1) n by (simp add: start_tag_def)
  qed
qed

lemma markup_steps:
  assumes "scanning lib portal html i l"
  shows "steps_to lib portal html i (markup lib portal html i l)"
proof (cases "i < length html")
  case True
  have c: "lands html i (comment html (i + 3))" if "begins_with (ascii ''--'') (drop (i + 1) html)"
  proof (rule lands_mono [OF comment_lands])
    from that have "2 \<le> length (drop (i + 1) html)" by (auto simp: begins_with_def ascii_def dest!: arg_cong [of _ _ length])
    then show "i + 3 \<le> length html" by simp
  qed simp
  have e: "lands html i (end_tag html (i + 1))" by (rule lands_mono [OF end_tag_lands]) simp
  have "lands html i (Some i)" using True by (simp add: lands_def)
  from lands_steps [OF this assms] lands_steps [OF past_lands assms, of 62] lands_steps [OF e assms] start_tag_steps [OF assms True] True
    lands_steps [OF c assms]
  show ?thesis by (auto simp: markup_def get_def range_from_def)
next
  case False
  then show ?thesis using lands_steps [OF lands_length assms] by (simp add: markup_def get_def)
qed


text \<open>Whatever the cursor, the scan moves on.\<close>

lemma lands_next: "lands html i m \<Longrightarrow> m = Some j \<Longrightarrow> min i (length html) \<le> j"
  by (auto simp: lands_def)

lemma start_tag_next:
  assumes "start_tag lib portal html i l = Some (l', j)" "i \<le> length html"
  shows "i \<le> j"
proof -
  obtain s where s: "scan_tag html i = Some s" and t: "\<And>t. s = Tag t \<Longrightarrow> tag_ok html (tg_name t) i t"
    using scan_tag_ok [OF assms(2)] by auto
  show ?thesis
  proof (cases s)
    case Unterminated
    then show ?thesis using assms s by (simp add: start_tag_def)
  next
    case (Tag t)
    with t have e: "i < tg_end t" "tg_end t \<le> length html" by (auto simp: tag_ok_def)
    obtain name where "(case text_after name of DataText \<Rightarrow> Some (tg_end t) | RawText raw \<Rightarrow> raw_end html (tg_end t) raw
      | ScriptText \<Rightarrow> script_end html (tg_end t) | PlainText \<Rightarrow> Some (length html)) = Some j"
      using assms(1) s Tag by (auto simp: start_tag_def bind_eq_Some_conv)
    then show ?thesis
      using e lands_next [OF raw_end_lands] lands_next [OF script_end_lands]
      by (fastforce split: raw_text.splits)
  qed
qed

lemma markup_next:
  assumes "markup lib portal html i l = Some (l', j)"
  shows "min i (length html) \<le> j"
proof (cases "i < length html")
  case True
  have c: "min i (length html) \<le> k" if "begins_with (ascii ''--'') (drop (i + 1) html)" "comment html (i + 3) = Some k" for k
  proof -
    from that(1) have "2 \<le> length (drop (i + 1) html)" by (auto simp: begins_with_def ascii_def dest!: arg_cong [of _ _ length])
    then have "lands html (i + 3) (comment html (i + 3))" by (intro comment_lands) simp
    from lands_next [OF this that(2)] show ?thesis by simp
  qed
  have e: "min i (length html) \<le> k" if "end_tag html (i + 1) = Some k" for k
    using lands_next [OF end_tag_lands that] by simp
  have p: "min i (length html) \<le> past html i 62" using lands_next [OF past_lands refl] .
  show ?thesis
    using assms c e p start_tag_next [of lib portal html i l l' j] True
    by (auto simp: markup_def get_def range_from_def split: if_splits)
next
  case False
  then show ?thesis using assms by (simp add: markup_def get_def)
qed

function links_loop :: "gateway_lib \<Rightarrow> portal \<Rightarrow> bytes \<Rightarrow> nat \<Rightarrow> links \<Rightarrow> links option" where
  "links_loop lib portal html i l =
     (if i < length html then
        Option.bind (markup lib portal html (run html i (\<lambda>b. b \<noteq> 60) + 1) l) (\<lambda>(l', j). links_loop lib portal html j l')
      else Some l)"
  by pat_completeness auto

termination
proof (relation "measure (\<lambda>(lib, portal, html, i, l). length html - i)", goal_cases)
  case (2 lib portal html i l p l' j)
  then have "markup lib portal html (run html i (\<lambda>b. b \<noteq> 60) + 1) l = Some (l', j)" by simp
  from markup_next [OF this] run_ge [of i html "\<lambda>b. b \<noteq> 60"] 2(1) show ?case by simp
qed simp

declare links_loop.simps [simp del]

definition transform :: "gateway_lib \<Rightarrow> bytes \<Rightarrow> portal \<Rightarrow> transformed option" where
  "transform lib html portal =
     Option.bind (links_loop lib portal html 0 \<lparr>li_output = [], li_cursor = 0\<rparr>) (links_finish html)"

lemma links_loop_edited:
  "scanning lib portal html i l \<Longrightarrow> \<exists>l' es. links_loop lib portal html i l = Some l' \<and> edited lib portal html l' es"
proof (induction lib portal html i l rule: links_loop.induct)
  case (1 lib portal html i l)
  show ?case
  proof (cases "i < length html")
    case True
    let ?i = "run html i (\<lambda>b. b \<noteq> 60) + 1"
    have "scanning lib portal html ?i l" using 1(2) run_ge by (intro scanning_later [OF 1(2)]) (simp add: le_SucI)
    then obtain l1 j where m: "markup lib portal html ?i l = Some (l1, j)" "scanning lib portal html j l1"
      using markup_steps by (fastforce simp: steps_to_def)
    from 1(1) [OF True m(1) refl m(2)] True m(1) show ?thesis by (subst links_loop.simps) simp
  next
    case False
    with 1(2) show ?thesis by (subst links_loop.simps) (auto simp: scanning_def)
  qed
qed

lemma original_Nil: "edited lib portal html l es \<Longrightarrow> li_cursor l = 0 \<longleftrightarrow> es = []"
proof -
  assume e: "edited lib portal html l es"
  have "rewrite lib [] portal \<noteq> To b" for b using rewrite_nonempty by blast
  then have "original es = [] \<longleftrightarrow> es = []"
    using e by (cases es) (auto simp: edited_def original_def)
  moreover have "original es = [] \<longleftrightarrow> li_cursor l = 0" using e by (auto simp: edited_def dest!: arg_cong [of _ _ length])
  ultimately show ?thesis by simp
qed

text \<open>Every document is transformed, and only addresses are replaced.\<close>

lemma transform_edits:
  "\<exists>es rest. html = original es @ rest \<and> list_all (\<lambda>(gap, candidate, new). rewrite lib candidate portal = To new) es \<and>
     transform lib html portal = Some (if es = [] then Unchanged else Rewritten (replacement es @ rest))"
proof -
  have "edited lib portal html \<lparr>li_output = [], li_cursor = 0\<rparr> []" by (simp add: edited_def original_def replacement_def)
  then have "scanning lib portal html 0 \<lparr>li_output = [], li_cursor = 0\<rparr>" by (auto simp: scanning_def)
  then obtain l es where l: "links_loop lib portal html 0 \<lparr>li_output = [], li_cursor = 0\<rparr> = Some l" and e: "edited lib portal html l es"
    using links_loop_edited by blast
  have "html = original es @ drop (li_cursor l) html" using e by (metis edited_def append_take_drop_id)
  moreover have "transform lib html portal = Some (if es = [] then Unchanged else Rewritten (replacement es @ drop (li_cursor l) html))"
    using l e original_Nil [OF e] by (simp add: transform_def links_finish_def range_from_def edited_def)
  ultimately show ?thesis using e by (auto simp: edited_def)
qed

end
