(* ===== verification/Web_Package_Codec.thy ===== *)
theory Web_Package_Codec
  imports Web_Package
begin

section \<open>The encoding of web packages is strict\<close>

text \<open>
  Every read of the decoder consumes the encoding of what it returns, and the decoder runs to the end
  of the input: it accepts exactly the encodings of valid packages.
\<close>

subsection \<open>Reading with the cursor\<close>

text \<open>The bytes ahead of the cursor, and the cursor after them.\<close>

definition ahead :: "cursor \<Rightarrow> bytes \<Rightarrow> bool" where
  "ahead c bs \<longleftrightarrow> cu_offset c + length bs \<le> length (cu_bytes c) \<and> cu_offset c + length bs < 2 ^ 64 \<and>
     slice (cu_offset c) (cu_offset c + length bs) (cu_bytes c) = bs"

definition cursor_advance :: "cursor \<Rightarrow> nat \<Rightarrow> cursor" where
  "cursor_advance c n = c\<lparr>cu_offset := cu_offset c + n\<rparr>"

lemma cursor_advance_advance [simp]: "cursor_advance (cursor_advance c m) n = cursor_advance c (m + n)"
  by (simp add: cursor_advance_def add.assoc)

lemma cursor_advance_0 [simp]: "cursor_advance c 0 = c"
  by (simp add: cursor_advance_def)

lemma ahead_append: "ahead c (a @ b) \<longleftrightarrow> ahead c a \<and> ahead (cursor_advance c (length a)) b"
proof -
  let ?o = "cu_offset c" and ?m = "cu_offset c + length a" and ?e = "cu_offset c + length a + length b"
  have s: "slice ?o ?m (cu_bytes c) @ slice ?m ?e (cu_bytes c) = slice ?o ?e (cu_bytes c)"
    by (simp add: slice_append_slice)
  have l: "?e \<le> length (cu_bytes c) \<Longrightarrow> length (slice ?o ?m (cu_bytes c)) = length a" by (simp add: slice_def)
  have "?e \<le> length (cu_bytes c) \<Longrightarrow>
      slice ?o ?e (cu_bytes c) = a @ b \<longleftrightarrow> slice ?o ?m (cu_bytes c) = a \<and> slice ?m ?e (cu_bytes c) = b"
    unfolding s [symmetric] using l by simp
  then show ?thesis by (auto simp: ahead_def cursor_advance_def add.assoc)
qed

lemma ahead_Cons: "NO_MATCH [] bs \<Longrightarrow> ahead c (b # bs) \<longleftrightarrow> ahead c [b] \<and> ahead (cursor_advance c 1) bs"
  using ahead_append [of c "[b]" bs] by simp

lemma ahead_Nil_after: "ahead c a \<Longrightarrow> ahead (cursor_advance c (length a)) []"
  using ahead_append [of c a "[]"] by simp

lemma ahead_all:
  "ahead \<lparr>cu_bytes = b, cu_offset = 0\<rparr> x \<and> cursor_finished (cursor_advance \<lparr>cu_bytes = b, cu_offset = 0\<rparr> (length x)) \<longleftrightarrow>
     x = b \<and> length b < 2 ^ 64"
  by (auto simp: ahead_def cursor_advance_def cursor_finished_def slice_def)

lemma cursor_take_eq: "cursor_take n c = Inr (a, c') \<longleftrightarrow> length a = n \<and> ahead c a \<and> c' = cursor_advance c (length a)"
  by (auto simp: cursor_take_def ahead_def cursor_advance_def checked_add_usize_def slice_def)

lemma cursor_u8_eq: "cursor_u8 c = Inr (v, c') \<longleftrightarrow> ahead c [v] \<and> c' = cursor_advance c 1"
  by (auto simp: cursor_u8_def cursor_take_eq length_Suc_conv)

lemma cursor_u16_eq: "cursor_u16 c = Inr (v, c') \<longleftrightarrow> ahead c (to_le_bytes v) \<and> c' = cursor_advance c 2"
  by (auto simp: cursor_u16_def cursor_take_eq intro!: bexI exI)

lemma cursor_u64_eq: "cursor_u64 c = Inr (w, c') \<longleftrightarrow> ahead c (to_le_bytes w) \<and> c' = cursor_advance c 8"
  by (auto simp: cursor_u64_def cursor_take_eq intro!: bexI exI)

lemma cursor_text_eq: "cursor_text n c = Inr (t, c') \<longleftrightarrow> length t = n \<and> is_utf8 t \<and> ahead c t \<and> c' = cursor_advance c (length t)"
  by (auto simp: cursor_text_def cursor_take_eq)

lemma cursor_array_eq: "cursor_array c = Inr (a, c') \<longleftrightarrow> length a = 32 \<and> ahead c a \<and> c' = cursor_advance c (length a)"
  by (auto simp: cursor_array_def cursor_take_eq)

lemmas cursor_eqs = cursor_u8_eq cursor_u16_eq cursor_u64_eq cursor_text_eq cursor_array_eq

definition row_bytes :: "bytes \<Rightarrow> bytes \<Rightarrow> u64 \<Rightarrow> bytes \<Rightarrow> bytes" where
  "row_bytes path mime n sha256 =
     to_le_bytes (word_of_nat (length path) :: u16) @ path @ [word_of_nat (length mime)] @ mime @ to_le_bytes n @ sha256"

definition pin_bytes :: "pinned_entry \<Rightarrow> bytes" where
  "pin_bytes pin =
     to_le_bytes (word_of_nat (length (pi_path pin)) :: u16) @ pi_path pin @ [word_of_nat (length (pi_mime pin))] @ pi_mime pin @
     pi_root_txid pin @ pi_payload_sha256 pin"

text \<open>A length that fits its prefix.\<close>

lemma prefix_lengths:
  "n = unat (w :: u16) \<longleftrightarrow> n < 65536 \<and> w = word_of_nat n" "n = unat (v :: u8) \<longleftrightarrow> n < 256 \<and> v = word_of_nat n"
  using unsigned_less [of w] unsigned_less [of v] unat_of_nat_small [of n, where 'a = 16] unat_of_nat_small [of n, where 'a = 8] by auto

lemma prefix_length64: "n = unat (w :: u64) \<longleftrightarrow> n < 2 ^ 64 \<and> w = word_of_nat n"
  using unsigned_less [of w] unat_of_nat_small [of n, where 'a = 64] by auto

definition texts_ok :: "bytes \<Rightarrow> bytes \<Rightarrow> bool" where
  "texts_ok path mime \<longleftrightarrow> length path < 65536 \<and> length mime < 256 \<and> is_utf8 path \<and> is_utf8 mime"

text \<open>A read followed by another.\<close>

lemma read_then:
  "(\<exists>z. m = Inr z \<and> (case z of (a, c) \<Rightarrow> k a c) = Inr y) \<longleftrightarrow> (\<exists>a c. m = Inr (a, c) \<and> k a c = Inr y)"
  by auto

lemma read_file_row_eq:
  "read_file_row c = Inr ((path, mime, n, sha256), c') \<longleftrightarrow>
     ahead c (row_bytes path mime n sha256) \<and> c' = cursor_advance c (length (row_bytes path mime n sha256)) \<and>
     texts_ok path mime \<and> length sha256 = 32"
  unfolding read_file_row_def rbind_eq_Inr read_then
  by (simp add: cursor_eqs row_bytes_def ahead_append ahead_Cons texts_ok_def prefix_lengths cong: conj_cong) auto

lemma read_pin_eq:
  "read_pin c = Inr (pin, c') \<longleftrightarrow>
     ahead c (pin_bytes pin) \<and> c' = cursor_advance c (length (pin_bytes pin)) \<and>
     texts_ok (pi_path pin) (pi_mime pin) \<and> length (pi_root_txid pin) = 32 \<and> length (pi_payload_sha256 pin) = 32"
  unfolding read_pin_def rbind_eq_Inr read_then
  by (cases pin) (simp add: cursor_eqs pin_bytes_def ahead_append ahead_Cons texts_ok_def prefix_lengths cong: conj_cong, auto)

text \<open>The parser of one item, repeated.\<close>

lemma read_times_eq:
  assumes "\<And>x c c'. p c = Inr (x, c') \<longleftrightarrow> ahead c (f x) \<and> c' = cursor_advance c (length (f x)) \<and> ok x"
  shows "ahead c [] \<Longrightarrow> read_times p n c = Inr (xs, c') \<longleftrightarrow>
     length xs = n \<and> ahead c (concat (map f xs)) \<and> c' = cursor_advance c (length (concat (map f xs))) \<and> list_all ok xs"
proof (induction n arbitrary: c xs)
  case 0
  then show ?case by auto
next
  case (Suc n)
  then show ?case
    by (cases xs) (auto simp: assms ahead_append dest: ahead_Nil_after)
qed

fun row_ok :: "bytes \<times> bytes \<times> u64 \<times> bytes \<Rightarrow> bool" where
  "row_ok (path, mime, n, sha256) \<longleftrightarrow> texts_ok path mime \<and> length sha256 = 32"

fun row_enc :: "bytes \<times> bytes \<times> u64 \<times> bytes \<Rightarrow> bytes" where
  "row_enc (path, mime, n, sha256) = row_bytes path mime n sha256"

lemma read_rows_eq:
  "ahead c [] \<Longrightarrow> read_times read_file_row n c = Inr (rows, c') \<longleftrightarrow>
     length rows = n \<and> ahead c (concat (map row_enc rows)) \<and> c' = cursor_advance c (length (concat (map row_enc rows))) \<and> list_all row_ok rows"
  by (rule read_times_eq) (auto simp: read_file_row_eq)

definition row_of :: "file_entry \<Rightarrow> bytes \<times> bytes \<times> u64 \<times> bytes" where
  "row_of f = (fe_path f, fe_mime f, word_of_nat (length (fe_bytes f)), fe_sha256 f)"

lemma read_contents_eq:
  "ahead c [] \<Longrightarrow> read_contents rows c = Inr (files, c') \<longleftrightarrow>
     rows = map row_of files \<and> (\<forall>f \<in> set files. length (fe_bytes f) < 2 ^ 64) \<and>
     ahead c (concat (map fe_bytes files)) \<and> c' = cursor_advance c (length (concat (map fe_bytes files)))"
proof (induction rows arbitrary: c files)
  case Nil
  then show ?case by auto
next
  case (Cons row rows)
  obtain path mime n sha256 where r: "row = (path, mime, n, sha256)" by (cases row)
  show ?case
  proof (cases files)
    case Nil
    then show ?thesis by (auto simp: r)
  next
    case files: (Cons f fs)
    have "ahead c (fe_bytes f) \<Longrightarrow> ahead (cursor_advance c (length (fe_bytes f))) []" by (rule ahead_Nil_after)
    note IH = Cons.IH [OF this, of fs]
    have "read_contents (row # rows) c = Inr (files, c') \<longleftrightarrow>
        row = row_of f \<and> length (fe_bytes f) < 2 ^ 64 \<and> ahead c (fe_bytes f) \<and>
        read_contents rows (cursor_advance c (length (fe_bytes f))) = Inr (fs, c')"
      by (cases f) (auto simp: r files cursor_take_eq row_of_def prefix_length64)
    then show ?thesis using IH by (auto simp: files ahead_append)
  qed
qed

subsection \<open>Packages\<close>

definition package_bytes :: "package \<Rightarrow> bytes" where
  "package_bytes p =
     [WEB_REVISION, 0] @ to_le_bytes (word_of_nat (length (pk_files p)) :: u16) @ to_le_bytes (word_of_nat (length (pk_pinned p)) :: u16) @
     to_le_bytes (pk_entry p) @ [word_of_nat (length (pk_label p))] @ pk_label p @
     concat (map (\<lambda>f. row_enc (row_of f)) (pk_files p)) @ concat (map pin_bytes (pk_pinned p)) @ concat (map fe_bytes (pk_files p))"

text \<open>What the types of the program keep of a package: texts are UTF-8, hashes have 32 bytes.\<close>

definition wf_package :: "package \<Rightarrow> bool" where
  "wf_package p \<longleftrightarrow> is_utf8 (pk_label p) \<and>
     (\<forall>f \<in> set (pk_files p). is_utf8 (fe_path f) \<and> is_utf8 (fe_mime f) \<and> length (fe_sha256 f) = 32) \<and>
     (\<forall>i \<in> set (pk_pinned p). is_utf8 (pi_path i) \<and> is_utf8 (pi_mime i) \<and> length (pi_root_txid i) = 32 \<and> length (pi_payload_sha256 i) = 32)"

definition fits :: "package \<Rightarrow> bool" where
  "fits p \<longleftrightarrow> length (pk_label p) < 256 \<and> length (pk_files p) < 65536 \<and> length (pk_pinned p) < 65536 \<and>
     (\<forall>f \<in> set (pk_files p). length (fe_path f) < 65536 \<and> length (fe_mime f) < 256) \<and>
     (\<forall>i \<in> set (pk_pinned p). length (pi_path i) < 65536 \<and> length (pi_mime i) < 256)"

lemma rfold_push:
  assumes "\<And>bs x y. push bs x = Inr y \<longleftrightarrow> ok x \<and> y = bs @ f x"
  shows "rfold push bs xs = Inr y \<longleftrightarrow> list_all ok xs \<and> y = bs @ concat (map f xs)"
  by (induction xs arbitrary: bs) (auto simp: assms)

lemma web_try_from_eq: "web_try_from n = Inr (w :: 'a::len word) \<longleftrightarrow> n < 2 ^ LENGTH('a) \<and> w = word_of_nat n"
  by (auto simp: web_try_from_def try_from_def)

lemma push_file_eq:
  "push_file bs f = Inr y \<longleftrightarrow>
     (length (fe_path f) < 65536 \<and> length (fe_mime f) < 256 \<and> length (fe_bytes f) < 2 ^ 64) \<and> y = bs @ row_enc (row_of f)"
  by (auto simp: push_file_def web_try_from_eq row_of_def row_bytes_def)

lemma push_pin_eq:
  "push_pin bs pin = Inr y \<longleftrightarrow> (length (pi_path pin) < 65536 \<and> length (pi_mime pin) < 256) \<and> y = bs @ pin_bytes pin"
  by (auto simp: push_pin_def web_try_from_eq pin_bytes_def)

lemma Package_encode_eq_Inr:
  "Package_encode lib p = Inr b \<longleftrightarrow>
     Package_validate lib p = Inr () \<and> fits p \<and> (\<forall>f \<in> set (pk_files p). length (fe_bytes f) < 2 ^ 64) \<and> b = package_bytes p"
  by (auto simp: Package_encode_def web_try_from_eq rfold_push [OF push_file_eq] rfold_push [OF push_pin_eq] list_all_iff fits_def
      package_bytes_def)


definition web_header_bytes :: "u16 \<Rightarrow> u16 \<Rightarrow> package \<Rightarrow> bytes" where
  "web_header_bytes fc pc p =
     [WEB_REVISION, 0] @ to_le_bytes fc @ to_le_bytes pc @ to_le_bytes (pk_entry p) @ [word_of_nat (length (pk_label p))] @ pk_label p"

definition table_bytes :: "package \<Rightarrow> bytes" where
  "table_bytes p =
     concat (map (\<lambda>f. row_enc (row_of f)) (pk_files p)) @ concat (map pin_bytes (pk_pinned p)) @ concat (map fe_bytes (pk_files p))"

lemma package_bytes_eq:
  "package_bytes p = web_header_bytes (word_of_nat (length (pk_files p))) (word_of_nat (length (pk_pinned p))) p @ table_bytes p"
  by (simp add: package_bytes_def web_header_bytes_def table_bytes_def)

text \<open>Behind the header: the directory, the pinned objects, the contents.\<close>

definition read_tables :: "u16 \<Rightarrow> u16 \<Rightarrow> cursor \<Rightarrow> file_entry list \<Rightarrow> pinned_entry list \<Rightarrow> cursor \<Rightarrow> bool" where
  "read_tables fc pc c files pinned c' \<longleftrightarrow>
     (\<exists>rows c1. read_times read_file_row (unat fc) c = Inr (rows, c1) \<and>
       (\<exists>c2. read_times read_pin (unat pc) c1 = Inr (pinned, c2) \<and> read_contents rows c2 = Inr (files, c')))"

lemma read_pins_eq:
  "ahead c [] \<Longrightarrow> read_times read_pin n c = Inr (pins, c') \<longleftrightarrow>
     length pins = n \<and> ahead c (concat (map pin_bytes pins)) \<and> c' = cursor_advance c (length (concat (map pin_bytes pins))) \<and>
     list_all (\<lambda>i. texts_ok (pi_path i) (pi_mime i) \<and> length (pi_root_txid i) = 32 \<and> length (pi_payload_sha256 i) = 32) pins"
  by (rule read_times_eq) (simp add: read_pin_eq)

lemma read_tables_eq:
  assumes "ahead c []"
  shows "read_tables fc pc c files pinned c' \<longleftrightarrow>
     length files = unat fc \<and> length pinned = unat pc \<and> (\<forall>f \<in> set files. length (fe_bytes f) < 2 ^ 64) \<and>
     list_all (\<lambda>f. row_ok (row_of f)) files \<and>
     list_all (\<lambda>i. texts_ok (pi_path i) (pi_mime i) \<and> length (pi_root_txid i) = 32 \<and> length (pi_payload_sha256 i) = 32) pinned \<and>
     ahead c (table_bytes \<lparr>pk_label = l, pk_entry = e, pk_files = files, pk_pinned = pinned\<rparr>) \<and>
     c' = cursor_advance c (length (table_bytes \<lparr>pk_label = l, pk_entry = e, pk_files = files, pk_pinned = pinned\<rparr>))"
proof -
  let ?rows = "map row_of files"
  let ?r = "concat (map row_enc ?rows)" and ?p = "concat (map pin_bytes pinned)" and ?f = "concat (map fe_bytes files)"
  have r: "ahead c ?r \<Longrightarrow> ahead (cursor_advance c (length ?r)) []" by (rule ahead_Nil_after)
  have p: "ahead (cursor_advance c (length ?r)) ?p \<Longrightarrow> ahead (cursor_advance c (length ?r + length ?p)) []"
    using ahead_Nil_after [of "cursor_advance c (length ?r)" ?p] by simp
  have t: "table_bytes \<lparr>pk_label = l, pk_entry = e, pk_files = files, pk_pinned = pinned\<rparr> = ?r @ ?p @ ?f"
    by (simp add: table_bytes_def comp_def)
  show ?thesis (is "?L \<longleftrightarrow> ?R")
  proof
    assume ?L
    then obtain rows c1 c2 where *: "read_times read_file_row (unat fc) c = Inr (rows, c1)"
      "read_times read_pin (unat pc) c1 = Inr (pinned, c2)" "read_contents rows c2 = Inr (files, c')"
      by (auto simp: read_tables_def)
    have a1: "ahead c1 []" using *(1) ahead_Nil_after by (auto simp: read_rows_eq [OF assms])
    have a2: "ahead c2 []" using *(2) ahead_Nil_after by (auto simp: read_pins_eq [OF a1])
    show ?R
      using * unfolding t read_rows_eq [OF assms] read_pins_eq [OF a1] read_contents_eq [OF a2]
      by (auto simp: ahead_append list_all_iff add.assoc)
  next
    assume R: ?R
    then have ar: "ahead c ?r" "ahead (cursor_advance c (length ?r)) ?p" "ahead (cursor_advance c (length ?r + length ?p)) ?f"
      unfolding t by (auto simp: ahead_append)
    have "read_times read_file_row (unat fc) c = Inr (?rows, cursor_advance c (length ?r))"
      using R ar unfolding read_rows_eq [OF assms] by (simp add: list_all_iff)
    moreover have "read_times read_pin (unat pc) (cursor_advance c (length ?r)) = Inr (pinned, cursor_advance c (length ?r + length ?p))"
      using R ar unfolding read_pins_eq [OF r [OF ar(1)]] by simp
    moreover have "read_contents ?rows (cursor_advance c (length ?r + length ?p)) = Inr (files, c')"
      using R ar unfolding t read_contents_eq [OF p [OF ar(2)]] by (simp add: add.assoc)
    ultimately show ?L unfolding read_tables_def by blast
  qed
qed

lemma Package_decode_tables:
  "Package_decode lib b = Inr p \<longleftrightarrow>
     (\<exists>fc pc c. ahead \<lparr>cu_bytes = b, cu_offset = 0\<rparr> (web_header_bytes fc pc p) \<and> length (pk_label p) < 256 \<and> is_utf8 (pk_label p) \<and>
       read_tables fc pc (cursor_advance \<lparr>cu_bytes = b, cu_offset = 0\<rparr> (length (web_header_bytes fc pc p))) (pk_files p) (pk_pinned p) c \<and>
       cursor_finished c \<and> Package_validate lib p = Inr ())"
  unfolding Package_decode_def rbind_eq_Inr read_then ensure_eq_Inr
  by (cases p) (simp add: cursor_eqs prefix_lengths Let_def web_header_bytes_def read_tables_def ahead_append ahead_Cons
      cong: conj_cong, blast)

lemma Package_decode_eq_Inr:
  "Package_decode lib b = Inr p \<longleftrightarrow>
     Package_validate lib p = Inr () \<and> wf_package p \<and> fits p \<and> (\<forall>f \<in> set (pk_files p). length (fe_bytes f) < 2 ^ 64) \<and>
     b = package_bytes p \<and> length b < 2 ^ 64"
proof -
  let ?c = "\<lparr>cu_bytes = b, cu_offset = 0\<rparr>"
  let ?P = "Package_validate lib p = Inr () \<and> wf_package p \<and> fits p \<and> (\<forall>f \<in> set (pk_files p). length (fe_bytes f) < 2 ^ 64)"
  have p: "p = \<lparr>pk_label = pk_label p, pk_entry = pk_entry p, pk_files = pk_files p, pk_pinned = pk_pinned p\<rparr>" by simp
  note T = read_tables_eq [where l = "pk_label p" and e = "pk_entry p" and files = "pk_files p" and pinned = "pk_pinned p", folded p]
  have "Package_decode lib b = Inr p \<longleftrightarrow>
      ?P \<and> ahead ?c (package_bytes p) \<and> cursor_finished (cursor_advance ?c (length (package_bytes p)))"
    unfolding Package_decode_tables
    by (auto simp: T [OF ahead_Nil_after] package_bytes_eq ahead_append prefix_lengths fits_def wf_package_def texts_ok_def
        list_all_iff row_of_def, rule exI [of _ "word_of_nat (length (pk_files p))"],
        rule exI [of _ "word_of_nat (length (pk_pinned p))"],
        simp add: T [OF ahead_Nil_after] prefix_lengths texts_ok_def list_all_iff row_of_def)
  then show ?thesis using ahead_all [of b "package_bytes p"] by auto
qed


text \<open>The paths of a valid package are distinct, and every length fits its prefix.\<close>

lemma web_validate_label_fits: "web_validate_label l = Inr () \<Longrightarrow> length l < 256"
  by (simp add: web_validate_label_def WEB_LABEL_BYTES_def)

lemma validate_path_fits: "validate_path lib p = Inr () \<Longrightarrow> length p < 65536"
  by (simp add: validate_path_def MAX_PATH_BYTES_def)

lemma validate_mime_fits: "validate_mime lib m = Inr () \<Longrightarrow> length m < 256"
  by (simp add: validate_mime_def MAX_MIME_BYTES_def)

lemma check_files_eq:
  "rfold (check_file lib) paths fs = Inr seen \<longleftrightarrow>
     (\<forall>f \<in> set fs. validate_path lib (fe_path f) = Inr () \<and> validate_mime lib (fe_mime f) = Inr () \<and> wl_sha256 lib (fe_bytes f) = fe_sha256 f) \<and>
     distinct (map fe_path fs) \<and> set (map fe_path fs) \<inter> paths = {} \<and> seen = paths \<union> set (map fe_path fs)"
  by (induction fs arbitrary: paths) (auto simp: check_file_def)

lemma check_pins_eq:
  "rfold (check_pin lib) paths ps = Inr seen \<longleftrightarrow>
     (\<forall>i \<in> set ps. validate_path lib (pi_path i) = Inr () \<and> validate_mime lib (pi_mime i) = Inr ()) \<and>
     distinct (map pi_path ps) \<and> set (map pi_path ps) \<inter> paths = {} \<and> seen = paths \<union> set (map pi_path ps)"
  by (induction ps arbitrary: paths) (auto simp: check_pin_def)

lemma Package_validate_eq:
  "Package_validate lib p = Inr () \<longleftrightarrow>
     web_validate_label (pk_label p) = Inr () \<and> length (pk_files p) \<le> 65535 \<and> length (pk_pinned p) \<le> 65535 \<and>
     unat (pk_entry p) < length (pk_files p) \<and> is_entry_mime (fe_mime (pk_files p ! unat (pk_entry p))) \<and>
     (\<forall>f \<in> set (pk_files p). validate_path lib (fe_path f) = Inr () \<and> validate_mime lib (fe_mime f) = Inr () \<and>
        wl_sha256 lib (fe_bytes f) = fe_sha256 f) \<and>
     (\<forall>i \<in> set (pk_pinned p). validate_path lib (pi_path i) = Inr () \<and> validate_mime lib (pi_mime i) = Inr ()) \<and>
     distinct (map fe_path (pk_files p) @ map pi_path (pk_pinned p)) \<and>
     windows2_all (\<lambda>f g. fe_path f < fe_path g) (pk_files p) \<and> windows2_all (\<lambda>f g. pi_path f < pi_path g) (pk_pinned p)"
  by (auto simp: Package_validate_def check_files_eq check_pins_eq ok_or_def)

lemma validate_fits: "Package_validate lib p = Inr () \<Longrightarrow> fits p"
  by (auto simp: Package_validate_eq fits_def dest: web_validate_label_fits validate_path_fits validate_mime_fits)


text \<open>A package in memory: texts are UTF-8, hashes have 32 bytes, and its encoding fits the address space.\<close>

definition wf_package_memory :: "package \<Rightarrow> bool" where
  "wf_package_memory p \<longleftrightarrow> wf_package p \<and> length (package_bytes p) < 2 ^ 64"

lemma content_le_package: "f \<in> set (pk_files p) \<Longrightarrow> length (fe_bytes f) \<le> length (package_bytes p)"
  using member_le_sum_list [of "length (fe_bytes f)" "map (length \<circ> fe_bytes) (pk_files p)"]
  by (simp add: package_bytes_def length_concat comp_def)

lemma decode_iff_encode:
  "Package_decode lib b = Inr p \<longleftrightarrow> wf_package_memory p \<and> Package_encode lib p = Inr b"
  unfolding Package_decode_eq_Inr Package_encode_eq_Inr wf_package_memory_def
  using content_le_package [of _ p] by (auto dest: validate_fits)

interpretation web_codec: strict_codec "Package_encode lib" "Package_decode lib" wf_package_memory
  by unfold_locales (simp_all add: decode_iff_encode)

text \<open>
  C26: the decoder of web packages accepts exactly the encodings of valid packages. A list of bytes decodes to a
  package if and only if the package is one the program can hold and the bytes are its encoding; so a
  package that is encoded decodes to itself, and no package has two accepted encodings.
\<close>
theorem web_package_codec:
  "Package_decode lib b = Inr p \<longleftrightarrow> wf_package_memory p \<and> Package_encode lib p = Inr b"
  by (rule web_codec.decode_iff)

subsection \<open>Resolution\<close>

lemma split_byte_join: "split_byte sep bs \<noteq> [] \<and> (\<forall>part \<in> set (split_byte sep bs). sep \<notin> set part)"
  by (induction bs) (auto split: list.splits)

lemma rfold_unit: "rfold (\<lambda>_ x. g x) () xs = Inr () \<longleftrightarrow> (\<forall>x \<in> set xs. g x = Inr ())"
  by (induction xs) auto

lemma split_byte_snoc: "split_byte sep (bs @ [sep]) = split_byte sep bs @ [[]]"
  by (induction bs) (auto simp: split_byte_join split: list.splits)

lemma split_byte_Nil [simp]: "split_byte sep xs \<noteq> []"
  using split_byte_join by blast

lemma split_byte_first: "sep \<notin> set a \<Longrightarrow> split_byte sep (a @ sep # b) = a # split_byte sep b"
  by (induction a) auto

lemma split_byte_none: "sep \<notin> set a \<Longrightarrow> split_byte sep a = [a]"
  by (induction a) auto

lemma split_byte_cases: "split_byte sep xs = a # ps \<Longrightarrow>
    sep \<notin> set a \<and> (case ps of [] \<Rightarrow> xs = a | _ \<Rightarrow> \<exists>b. xs = a @ sep # b \<and> split_byte sep b = ps)"
proof (induction xs arbitrary: a ps)
  case (Cons x xs)
  obtain p qs where p: "split_byte sep xs = p # qs" using split_byte_Nil by (meson list.exhaust)
  show ?case
  proof (cases "x = sep")
    case True
    then show ?thesis using Cons.prems p by (auto split: list.splits)
  next
    case False
    then show ?thesis using Cons.prems p Cons.IH [OF p] by (auto split: list.splits)
  qed
qed simp

lemma split_byte_single: "split_byte sep xs = [a] \<longleftrightarrow> xs = a \<and> sep \<notin> set a"
  using split_byte_cases [of sep xs a "[]"] split_byte_none by auto

lemma split_byte_pair: "split_byte sep xs = [a, b] \<longleftrightarrow> xs = a @ sep # b \<and> sep \<notin> set a \<and> sep \<notin> set b"
  using split_byte_cases [of sep xs a "[b]"] by (auto simp: split_byte_single split_byte_first split_byte_none)

lemma split_byte_set: "x \<in> set xs \<Longrightarrow> x = sep \<or> (\<exists>part \<in> set (split_byte sep xs). x \<in> set part)"
proof (induction xs)
  case (Cons y ys)
  obtain p ps where "split_byte sep ys = p # ps" using split_byte_Nil by (meson list.exhaust)
  with Cons show ?case by auto
qed simp

text \<open>A valid path neither starts nor ends with a slash.\<close>

lemma validate_path_ends:
  assumes "validate_path lib p = Inr ()"
  shows "p \<noteq> [] \<and> hd p \<noteq> SLASH \<and> last p \<noteq> SLASH"
proof -
  from assms have ne: "p \<noteq> []" and segs: "\<forall>s \<in> set (split_byte SLASH p). s \<noteq> []"
    by (auto simp: validate_path_def rfold_unit check_segment_def)
  have "hd p = SLASH \<Longrightarrow> [] \<in> set (split_byte SLASH p)" using ne by (cases p) auto
  moreover have "last p = SLASH \<Longrightarrow> [] \<in> set (split_byte SLASH p)"
    using ne by (cases p rule: rev_cases) (auto simp: split_byte_snoc)
  ultimately show ?thesis using ne segs by blast
qed


text \<open>The table lookups of \<open>resolve\<close>.\<close>

lemma find_key:
  assumes "distinct (map f xs)"
  shows "find (\<lambda>x. f x = k) xs = Some y \<longleftrightarrow> y \<in> set xs \<and> f y = k"
  using assms by (induction xs) auto

lemma find_key_None: "find (\<lambda>x. f x = k) xs = None \<longleftrightarrow> k \<notin> f ` set xs"
  by (auto simp: find_None_iff)

definition path_resource :: "package \<Rightarrow> bytes \<Rightarrow> resource" where
  "path_resource p path =
     (case find (\<lambda>f. fe_path f = path) (pk_files p) of
        Some f \<Rightarrow> FileResource f
      | None \<Rightarrow> (case find (\<lambda>i. pi_path i = path) (pk_pinned p) of Some i \<Rightarrow> PinnedResource i | None \<Rightarrow> Undeclared))"

lemma Package_resolve_path: "wanted_of url = PathWanted path \<Longrightarrow> Package_resolve p url = path_resource p path"
  by (simp add: Package_resolve_def path_resource_def)

text \<open>In a valid package each declared path has one resource.\<close>

definition resource_path :: "resource \<Rightarrow> bytes option" where
  "resource_path r = (case r of FileResource f \<Rightarrow> Some (fe_path f) | PinnedResource i \<Rightarrow> Some (pi_path i) | Undeclared \<Rightarrow> None)"

definition declared_in :: "package \<Rightarrow> resource \<Rightarrow> bool" where
  "declared_in p r \<longleftrightarrow> (case r of FileResource f \<Rightarrow> f \<in> set (pk_files p) | PinnedResource i \<Rightarrow> i \<in> set (pk_pinned p) | Undeclared \<Rightarrow> False)"

lemma path_resource_declared:
  assumes "Package_validate lib p = Inr ()" "declared_in p r" "resource_path r = Some path"
  shows "path_resource p path = r"
proof -
  from assms(1) have d: "distinct (map fe_path (pk_files p))" "distinct (map pi_path (pk_pinned p))"
    "set (map fe_path (pk_files p)) \<inter> set (map pi_path (pk_pinned p)) = {}"
    by (auto simp: Package_validate_eq)
  show ?thesis
  proof (cases r)
    case (FileResource f)
    then have "find (\<lambda>f. fe_path f = path) (pk_files p) = Some f"
      using assms(2,3) by (simp add: find_key [OF d(1)] declared_in_def resource_path_def)
    then show ?thesis by (simp add: path_resource_def FileResource)
  next
    case (PinnedResource i)
    then have i: "i \<in> set (pk_pinned p)" "pi_path i = path" using assms(2,3) by (auto simp: declared_in_def resource_path_def)
    then have "find (\<lambda>f. fe_path f = path) (pk_files p) = None"
      using d(3) unfolding find_key_None by auto
    moreover have "find (\<lambda>i. pi_path i = path) (pk_pinned p) = Some i" using i by (simp add: find_key [OF d(2)])
    ultimately show ?thesis by (simp add: path_resource_def PinnedResource)
  next
    case Undeclared
    then show ?thesis using assms(3) by (simp add: resource_path_def)
  qed
qed

lemma find_SomeD: "find P xs = Some x \<Longrightarrow> x \<in> set xs \<and> P x"
  by (induction xs) (auto split: if_splits)

lemma path_resource_sound:
  "path_resource p path \<noteq> Undeclared \<Longrightarrow>
     declared_in p (path_resource p path) \<and> resource_path (path_resource p path) = Some path"
  by (auto simp: path_resource_def declared_in_def resource_path_def dest: find_SomeD split: option.splits)

lemma Package_resolve_sound: "Package_resolve p url \<noteq> Undeclared \<Longrightarrow> declared_in p (Package_resolve p url)"
proof (cases "wanted_of url")
  case (PathWanted path)
  then show "Package_resolve p url \<noteq> Undeclared \<Longrightarrow> ?thesis"
    using path_resource_sound [of p path] by (simp add: Package_resolve_path)
qed (auto simp: Package_resolve_def declared_in_def split: if_splits)

lemma declared_path_valid:
  assumes "Package_validate lib p = Inr ()" "declared_in p r" "resource_path r = Some path"
  shows "validate_path lib path = Inr ()"
  using assms by (auto simp: declared_in_def resource_path_def Package_validate_eq split: resource.splits)

text \<open>Every declared resource is found at its own path.\<close>

lemma resolve_own_path:
  assumes "Package_validate lib p = Inr ()" "declared_in p r" "resource_path r = Some path"
  shows "Package_resolve p (SLASH # path) = r"
proof -
  have "wanted_of (SLASH # path) = PathWanted path"
    using validate_path_ends [OF declared_path_valid [OF assms]] by (simp add: wanted_of_def)
  then show ?thesis using path_resource_declared [OF assms] by (simp add: Package_resolve_path)
qed

end
