(* ===== verification/Gateway_Links_Properties.thy ===== *)
theory Gateway_Links_Properties
  imports Gateway_Transform Web_Package_Codec
begin

section \<open>Links lead to the portal's sites\<close>

text \<open>
  The host that the portal writes for a name is the host that it classifies as that name, and no other
  host is; a replaced address contains no byte that could end the attribute that holds it.
\<close>

subsection \<open>The bytes of a host\<close>

definition dns_byte :: "u8 \<Rightarrow> bool" where
  "dns_byte b \<longleftrightarrow> is_ascii_lowercase b \<or> is_ascii_digit b \<or> b = 45"

lemma dns_byte_graphic: "dns_byte b \<Longrightarrow> is_ascii_graphic b"
  unfolding dns_byte_def is_ascii_lowercase_def is_ascii_digit_def is_ascii_graphic_def
  by (elim disjE conjE) (simp_all add: word_le_nat_alt)

lemma dns_byte_other: "\<not> dns_byte DOT" "\<not> dns_byte COLON" "\<not> dns_byte 91"
  by (simp_all add: dns_byte_def is_ascii_lowercase_def is_ascii_digit_def DOT_def COLON_def)

lemma wf_name_bytes: "wf_name n \<Longrightarrow> (\<forall>b \<in> set (as_str n). dns_byte b) \<and> as_str n \<noteq> [] \<and> length (as_str n) \<le> 63"
  by (auto simp: wf_name_def Name_parse_def NAME_MAX_BYTES_def dns_byte_def)

lemma suffix_label_bytes: "(\<forall>b \<in> set (suffix_label s). dns_byte b) \<and> suffix_label s \<noteq> [] \<and> length (suffix_label s) \<le> 4"
  by (cases s) (simp_all add: ascii_def dns_byte_def is_ascii_lowercase_def)

lemma suffix_parse_eq: "suffix_parse label = Inr s \<longleftrightarrow> label = suffix_label s"
  by (cases s) (auto simp: suffix_parse_def SUFFIXES_def ascii_def split: if_splits)

lemma is_txid_length: "is_txid label \<Longrightarrow> length label = 64"
  by (simp add: is_txid_def)

lemma site_two:
  assumes "site lib labels = Inr sh"
  shows "\<exists>a b. split_byte DOT labels = [a, b] \<and> suffix_parse b = Inr (sh_suffix sh) \<and> parse_name lib a = Inr (sh_name sh)"
proof -
  obtain a b where p: "split_byte DOT labels = [a, b]"
    using assms by (auto simp: site_def Let_def split: list.splits if_splits)
  then show ?thesis using assms by (cases "is_txid a") (auto simp: site_def)
qed

lemma site_eq:
  "site lib labels = Inr sh \<longleftrightarrow> wf_name (sh_name sh) \<and> labels = as_str (sh_name sh) @ DOT # suffix_label (sh_suffix sh)"
proof
  assume "site lib labels = Inr sh"
  then obtain a b where "split_byte DOT labels = [a, b]" "suffix_parse b = Inr (sh_suffix sh)" "parse_name lib a = Inr (sh_name sh)"
    using site_two by blast
  then show "wf_name (sh_name sh) \<and> labels = as_str (sh_name sh) @ DOT # suffix_label (sh_suffix sh)"
    by (auto simp: split_byte_pair suffix_parse_eq parse_name_def Name_parse_eq_Inr)
next
  assume a: "wf_name (sh_name sh) \<and> labels = as_str (sh_name sh) @ DOT # suffix_label (sh_suffix sh)"
  have d: "DOT \<notin> set (as_str (sh_name sh))" "DOT \<notin> set (suffix_label (sh_suffix sh))"
    using a wf_name_bytes suffix_label_bytes dns_byte_other(1) by blast+
  have "split_byte DOT labels = [as_str (sh_name sh), suffix_label (sh_suffix sh)]" using a d by (simp add: split_byte_pair)
  moreover have "\<not> is_txid (as_str (sh_name sh))" using a wf_name_bytes [of "sh_name sh"] is_txid_length by fastforce
  moreover have "as_str (sh_name sh) \<noteq> []" "suffix_label (sh_suffix sh) \<noteq> []" using a wf_name_bytes suffix_label_bytes by blast+
  moreover have "parse_name lib (as_str (sh_name sh)) = Inr (sh_name sh)" using a by (simp add: parse_name_def wf_name_def)
  moreover have "suffix_parse (suffix_label (sh_suffix sh)) = Inr (sh_suffix sh)" by (simp add: suffix_parse_eq)
  ultimately show "site lib labels = Inr sh" by (simp add: site_def)
qed

subsection \<open>Classifying\<close>

definition site_name :: "site_host \<Rightarrow> bytes" where
  "site_name sh = as_str (sh_name sh) @ [DOT] @ suffix_label (sh_suffix sh) @ [DOT]"

lemma strip_suffix_eq: "strip_suffix s bs = Some r \<longleftrightarrow> bs = r @ s"
  by (auto simp: strip_suffix_def) (metis append_take_drop_id)

lemma classify_eq: "classify lib host portal = Inr (Site sh) \<longleftrightarrow> wf_name (sh_name sh) \<and> host = site_name sh @ po_domain portal"
proof
  assume c: "classify lib host portal = Inr (Site sh)"
  then obtain prefix labels where "strip_suffix (po_domain portal) host = Some prefix" "strip_suffix [DOT] prefix = Some labels"
    "site lib labels = Inr sh" by (auto simp: classify_def rmap_def split: if_splits option.splits sum.splits)
  then show "wf_name (sh_name sh) \<and> host = site_name sh @ po_domain portal"
    by (auto simp: strip_suffix_eq site_eq site_name_def)
next
  assume a: "wf_name (sh_name sh) \<and> host = site_name sh @ po_domain portal"
  define labels where "labels = as_str (sh_name sh) @ DOT # suffix_label (sh_suffix sh)"
  have s: "strip_suffix (po_domain portal) host = Some (site_name sh)" using a by (simp add: strip_suffix_eq)
  have p: "strip_suffix [DOT] (site_name sh) = Some labels" by (simp add: strip_suffix_eq labels_def site_name_def)
  have "host \<noteq> po_domain portal" using a by (simp add: site_name_def)
  moreover have "site lib labels = Inr sh" using a by (simp add: site_eq labels_def)
  ultimately show "classify lib host portal = Inr (Site sh)" using s p by (simp add: classify_def)
qed

subsection \<open>The portal\<close>

definition portal_ok :: "portal \<Rightarrow> bool" where
  "portal_ok portal \<longleftrightarrow> po_domain portal \<noteq> [] \<and> (\<forall>b \<in> set (po_domain portal). dns_byte b \<or> b = DOT) \<and>
     (po_authority portal = po_domain portal \<or>
      (\<exists>p. po_authority portal = po_domain portal @ COLON # p \<and> p \<noteq> [] \<and> length p \<le> 5 \<and> (\<forall>b \<in> set p. is_ascii_digit b)))"

lemma Portal_new_ok:
  assumes "Portal_new lib domain scheme port registries = Inr portal"
  shows "portal_ok portal"
proof -
  have d: "domain \<noteq> []" "\<forall>label \<in> set (split_byte DOT domain). is_dns_label label"
    and p: "po_domain portal = domain"
      "po_authority portal = (case port of DefaultPort \<Rightarrow> domain | ExplicitPort p \<Rightarrow> domain @ [COLON] @ ascii (dec (unat p)))"
    using assms by (auto simp: Portal_new_def Let_def rfold_unit)
  have "\<forall>b \<in> set domain. dns_byte b \<or> b = DOT"
    using split_byte_set [of _ domain DOT] d(2) by (auto simp: is_dns_label_def dns_byte_def)
  moreover have "length (ascii (dec (unat q))) \<le> 5" for q :: u16
  proof -
    have "unat q < 2 ^ 16" using unat_less_pow [of q] by simp
    then show ?thesis using dec_length [of "unat q" 4] by (simp add: ascii_def)
  qed
  ultimately show ?thesis
    using d p dec_digits by (cases port) (auto simp: portal_ok_def ascii_def)
qed

lemma split_once_first: "sep \<notin> set a \<Longrightarrow> split_once sep (a @ sep # b) = Some (a, b)"
  by (induction a) auto

lemma split_once_none: "sep \<notin> set a \<Longrightarrow> split_once sep a = None"
  by (induction a) auto

text \<open>The host header of a site names it.\<close>

lemma site_authority:
  assumes "portal_ok portal" "wf_name (sh_name sh)"
  shows "host_authority lib (site_name sh @ po_authority portal) =
    (if length (site_name sh @ po_domain portal) \<le> MAX_HOST_BYTES then Inr (site_name sh @ po_domain portal)
     else Inl (Malformed ''host must be 1..253 bytes''))"
proof -
  let ?h = "site_name sh @ po_domain portal"
  have b: "\<forall>b \<in> set ?h. dns_byte b \<or> b = DOT"
    using assms wf_name_bytes suffix_label_bytes by (auto simp: site_name_def portal_ok_def)
  have "\<exists>c cs. as_str (sh_name sh) = c # cs \<and> dns_byte c" using wf_name_bytes [OF assms(2)] by (cases "as_str (sh_name sh)") auto
  then have first: "take 1 (site_name sh @ po_authority portal) \<noteq> [91]" using dns_byte_other(3) by (auto simp: site_name_def)
  have colon: "COLON \<notin> set ?h" using b dns_byte_other(2) by (auto simp: DOT_def COLON_def)
  have port: "without_port lib (site_name sh @ po_authority portal) = Inr ?h"
  proof (cases "po_authority portal = po_domain portal")
    case True
    then have "rsplit_once COLON (site_name sh @ po_authority portal) = None"
      using colon by (simp add: rsplit_once_def split_once_none)
    then show ?thesis using first True by (simp add: without_port_def)
  next
    case False
    then obtain p where p: "po_authority portal = po_domain portal @ COLON # p" "p \<noteq> []" "length p \<le> 5" "\<forall>b \<in> set p. is_ascii_digit b"
      using assms(1) by (auto simp: portal_ok_def)
    have "COLON \<notin> set p" using p(4) by (auto simp: COLON_def is_ascii_digit_def)
    then have "rsplit_once COLON (?h @ COLON # p) = Some (?h, p)"
      using split_once_first [of COLON "rev p" "rev ?h"] by (simp add: rsplit_once_def)
    then show ?thesis using first p by (simp add: without_port_def check_port_def)
  qed
  have dot: "is_ascii_graphic DOT" by (simp add: is_ascii_graphic_def DOT_def)
  have "\<forall>b \<in> set ?h. is_ascii_graphic b"
    using b dns_byte_graphic dot by blast
  with port show ?thesis by (simp add: host_authority_def site_name_def)
qed


subsection \<open>The bytes of a replacement\<close>

definition url_byte :: "u8 \<Rightarrow> bool" where
  "url_byte b \<longleftrightarrow> is_ascii_alphanumeric b \<or> b \<in> set (ascii ''-._~:/?=%'')"

lemma dns_url_byte: "dns_byte b \<Longrightarrow> url_byte b"
  by (auto simp: dns_byte_def url_byte_def is_ascii_alphanumeric_def ascii_def)

lemma url_byte_others: "url_byte DOT" "url_byte COLON" "url_byte SLASH" "is_ascii_digit b \<Longrightarrow> url_byte b"
  by (simp_all add: url_byte_def DOT_def COLON_def SLASH_def is_ascii_alphanumeric_def ascii_def)

lemma authority_url: "portal_ok portal \<Longrightarrow> b \<in> set (po_authority portal) \<Longrightarrow> url_byte b"
  using dns_url_byte url_byte_others unfolding portal_ok_def by (elim conjE disjE) (fastforce, fastforce)

lemma scheme_url: "b \<in> set (scheme_label sc @ ascii ''://'') \<Longrightarrow> url_byte b"
  by (cases sc) (auto simp: ascii_def url_byte_def is_ascii_alphanumeric_def is_ascii_lowercase_def)

lemma upper_hex_url: "d < 16 \<Longrightarrow> url_byte (upper_hex_digit d)"
proof -
  assume d: "d < 16"
  have "(48 \<le> upper_hex_digit d \<and> upper_hex_digit d \<le> 57) \<or> (65 \<le> upper_hex_digit d \<and> upper_hex_digit d \<le> 90)"
    using d by (auto simp: upper_hex_digit_def word_le_nat_alt unat_of_nat simp del: of_nat_add)
  then show ?thesis by (auto simp: url_byte_def is_ascii_alphanumeric_def is_ascii_digit_def)
qed

lemma percent_url: "b \<in> set (percent c) \<Longrightarrow> url_byte b"
proof -
  assume "b \<in> set (percent c)"
  moreover have "unat c < 256" using unat_less_pow [of c] by simp
  then have "url_byte (upper_hex_digit (unat c div 16))" "url_byte (upper_hex_digit (unat c mod 16))"
    by (auto intro!: upper_hex_url simp: less_mult_imp_div_less)
  ultimately show ?thesis
    by (auto simp: percent_def url_byte_def ascii_def split: if_splits)
qed

lemma link_target_name:
  assumes "link_target_of lib h portal = Inr (SiteTarget nm s)"
  shows "wf_name nm"
proof -
  let ?ls = "butlast (split_byte DOT h)"
  have "(\<exists>l. parse_name lib l = Inr nm)"
  proof (cases ?ls)
    case Nil
    then show ?thesis using assms by (auto simp: link_target_of_def Let_def split: if_splits)
  next
    case (Cons a ls)
    show ?thesis
    proof (cases ls)
      case Nil
      then show ?thesis using assms Cons by (auto simp: link_target_of_def Let_def split: if_splits)
    next
      case Cons': (Cons b more)
      then show ?thesis using assms Cons by (cases more) (auto simp: link_target_of_def Let_def split: if_splits)
    qed
  qed
  then show ?thesis by (auto simp: parse_name_def Name_parse_eq_Inr)
qed

lemma rewrite_bytes:
  assumes "portal_ok portal" "rewrite lib candidate portal = To new" "b \<in> set new"
  shows "b \<in> set candidate \<or> url_byte b"
proof -
  have site: "b \<in> set t \<or> url_byte b" if "wf_name n" "new = site_link portal n s t" for n s t
    using that assms(3) wf_name_bytes [OF that(1)] suffix_label_bytes [of s] authority_url [OF assms(1), of b] scheme_url [of b]
      dns_url_byte url_byte_others by (auto simp: site_link_def site_origin_def split: if_splits)
  have un: "url_byte b" if "new = unavailable_link portal candidate"
    using that assms(3) authority_url [OF assms(1), of b] scheme_url [of b] percent_url
    by (auto simp: unavailable_link_def apex_origin_def ascii_def url_byte_def is_ascii_alphanumeric_def is_ascii_lowercase_def)
  obtain rest where r: "strip_prefix SCHEME candidate = Some rest" using assms(2) by (auto simp: rewrite_def split: option.splits)
  have sub: "set (drop n rest) \<subseteq> set candidate" for n
    using r by (auto simp: strip_prefix_def split: if_splits dest!: in_set_dropD)
  obtain n where n: "(\<exists>nm s. link_target_of lib (take n rest) portal = Inr (SiteTarget nm s) \<and> new = site_link portal nm s (drop n rest)) \<or>
      new = unavailable_link portal candidate"
    using assms(2) r by (auto simp: rewrite_def Let_def split: if_splits sum.splits link_target.splits)
  then show ?thesis using site un sub link_target_name by blast
qed


subsection \<open>Properties\<close>

text \<open>A portal of one registry, and a document with two links.\<close>

definition ex_gateway_lib :: gateway_lib where
  "ex_gateway_lib = \<lparr>gl_debug = (\<lambda>_. []), gl_show = (\<lambda>_. []), gl_utf8_error = (\<lambda>_. []), gl_txid_text = (\<lambda>t. t)\<rparr>"

definition ex_portal :: portal where
  "ex_portal = \<lparr>po_domain = ascii ''localhost'', po_authority = ascii ''localhost:8080'', po_scheme = Http,
     po_registries = [Ltc \<mapsto> replicate 32 0]\<rparr>"

lemma ex_portal_new:
  "Portal_new ex_gateway_lib (ascii ''localhost'') Http (ExplicitPort 8080) [Ltc \<mapsto> replicate 32 0] = Inr ex_portal"
  by (simp add: Portal_new_def ex_portal_def MAX_HOST_BYTES_def ascii_def LOCAL_DOMAIN_def DOT_def COLON_def is_dns_label_def
      NAME_MAX_BYTES_def is_ascii_lowercase_def dec.simps Let_def of_char_small)

text \<open>
  C12: rewriting the links of a document never panics, whatever its bytes are, and changes nothing but
  addresses: the document is a sequence of kept texts and addresses and a rest, the answer is the
  document itself or the same sequence with each address replaced by what the portal's rule gives for
  exactly that address.
\<close>
theorem only_addresses_rewritten:
  "\<exists>es rest. html = original es @ rest \<and> list_all (\<lambda>(gap, candidate, new). rewrite lib candidate portal = To new) es \<and>
     transform lib html portal = Some (if es = [] then Unchanged else Rewritten (replacement es @ rest))"
  by (rule transform_edits)

text \<open>
  A replaced address cannot break out of the attribute that holds it. The portal's replacement
  consists of bytes of the address it replaces and of letters, digits and the characters
  \<open>-._~:/?=%\<close>; so it brings no quote, no space and no angle bracket of its own.
\<close>
theorem replacement_brings_no_markup:
  assumes "Portal_new lib domain scheme port registries = Inr portal" "rewrite lib candidate portal = To new" "b \<in> set new"
  shows "b \<in> set candidate \<or> url_byte b"
  using rewrite_bytes [OF Portal_new_ok [OF assms(1)] assms(2,3)] .

lemma ex_rewrite: "rewrite ex_gateway_lib (ascii ''urma://a.ltc'') ex_portal = To (ascii ''http://a.ltc.localhost:8080/'')"
  by (simp add: rewrite_def strip_prefix_def SCHEME_def ascii_def run_def Let_def link_target_of_def canonical_host_def
      is_utf8_ascii DOT_def is_ascii_lowercase_def suffix_parse_def SUFFIXES_def parse_name_def Name_parse_def NAME_MAX_BYTES_def
      is_txid_def site_link_def site_origin_def ex_portal_def begins_with_def SLASH_def slice_def)

theorem replacement_brings_no_markup_witness:
  "(47 :: u8) \<in> set (ascii ''urma://a.ltc'') \<or> url_byte 47"
  by (rule replacement_brings_no_markup [OF ex_portal_new ex_rewrite]) (simp add: ascii_def)

text \<open>
  C23: the portal answers for a name at exactly one host, and follows its own links to it as far as the
  length of a host allows. A host is classified as a registered name's if and only if it is the name,
  the suffix of the chain and the portal's domain, each closed by a dot. The link that the portal
  writes for that name has this host and the portal's port. A request that carries the authority of
  that link is answered as the name's when the host has at most 253 bytes, and is refused as malformed
  when it is longer: the portal accepts domains that leave no room for the name.
\<close>
theorem site_host_exact:
  assumes "Portal_new lib domain scheme port registries = Inr portal"
  shows "(classify lib host portal = Inr (Site sh) \<longleftrightarrow> wf_name (sh_name sh) \<and> host = site_name sh @ domain) \<and>
    (wf_name (sh_name sh) \<longrightarrow>
       site_origin portal (sh_name sh) (sh_suffix sh) = scheme_label (po_scheme portal) @ ascii ''://'' @ site_name sh @ po_authority portal \<and>
       rbind (host_authority lib (site_name sh @ po_authority portal)) (\<lambda>host. classify lib host portal) =
         (if length (site_name sh @ domain) \<le> MAX_HOST_BYTES then Inr (Site sh) else Inl (Malformed ''host must be 1..253 bytes'')))"
proof -
  have "po_domain portal = domain" using assms by (auto simp: Portal_new_def Let_def rfold_unit)
  then show ?thesis
    using classify_eq [of lib host portal sh] classify_eq [of lib "site_name sh @ po_domain portal" portal sh]
      site_authority [OF Portal_new_ok [OF assms], of sh lib]
    by (auto simp: site_origin_def site_name_def)
qed

text \<open>
  The witness has both ends: a link that the local portal follows, and a portal whose domain of 243
  bytes leaves no room for a name of twenty letters.
\<close>

definition ex_long_domain :: bytes where
  "ex_long_domain = (let l = replicate 60 97 in l @ DOT # l @ DOT # l @ DOT # l)"

lemma ex_long_portal:
  "\<exists>portal. Portal_new ex_gateway_lib ex_long_domain Https DefaultPort [Ltc \<mapsto> replicate 32 0] = Inr portal"
proof -
  let ?l = "replicate 60 97 :: bytes"
  have "DOT \<notin> set ?l" by (simp add: DOT_def)
  then have "split_byte DOT ex_long_domain = [?l, ?l, ?l, ?l]"
    by (simp add: ex_long_domain_def Let_def split_byte_first split_byte_none)
  moreover have "is_dns_label ?l" by (simp add: is_dns_label_def NAME_MAX_BYTES_def is_ascii_lowercase_def)
  moreover have "length ex_long_domain = 243" "ex_long_domain \<noteq> LOCAL_DOMAIN"
    by (auto simp: ex_long_domain_def Let_def LOCAL_DOMAIN_def ascii_def dest!: arg_cong [where f = length])
  ultimately show ?thesis by (simp add: Portal_new_def MAX_HOST_BYTES_def Let_def)
qed

theorem site_host_exact_witness:
  "rbind (host_authority ex_gateway_lib (ascii ''a.ltc.localhost:8080'')) (\<lambda>host. classify ex_gateway_lib host ex_portal) =
     Inr (Site \<lparr>sh_name = Name (ascii ''a''), sh_suffix = Ltc\<rparr>) \<and>
   (\<exists>portal. Portal_new ex_gateway_lib ex_long_domain Https DefaultPort [Ltc \<mapsto> replicate 32 0] = Inr portal \<and>
     rbind (host_authority ex_gateway_lib (site_name \<lparr>sh_name = Name (replicate 20 97), sh_suffix = Ltc\<rparr> @ po_authority portal))
       (\<lambda>host. classify ex_gateway_lib host portal) = Inl (Malformed ''host must be 1..253 bytes''))"
proof -
  let ?sh = "\<lparr>sh_name = Name (ascii ''a''), sh_suffix = Ltc\<rparr>" and ?long = "\<lparr>sh_name = Name (replicate 20 97), sh_suffix = Ltc\<rparr>"
  have two: "replicate 2 97 \<noteq> ([45, 45] :: bytes)" unfolding numeral_2_eq_2 by simp
  have wf: "wf_name (sh_name ?sh)" "wf_name (sh_name ?long)"
    using two by (simp_all add: wf_name_def Name_parse_def NAME_MAX_BYTES_def ascii_def is_ascii_lowercase_def slice_def)
  have "length (site_name ?sh @ ascii ''localhost'') \<le> MAX_HOST_BYTES"
    by (simp add: site_name_def ascii_def MAX_HOST_BYTES_def)
  with site_host_exact [OF ex_portal_new, of "[]" ?sh] wf(1) have
    "rbind (host_authority ex_gateway_lib (site_name ?sh @ po_authority ex_portal))
       (\<lambda>host. classify ex_gateway_lib host ex_portal) = Inr (Site ?sh)" by simp
  moreover have "site_name ?sh @ po_authority ex_portal = ascii ''a.ltc.localhost:8080''"
    by (simp add: site_name_def ex_portal_def ascii_def DOT_def)
  moreover obtain portal where portal: "Portal_new ex_gateway_lib ex_long_domain Https DefaultPort [Ltc \<mapsto> replicate 32 0] = Inr portal"
    using ex_long_portal by blast
  moreover have "\<not> length (site_name ?long @ ex_long_domain) \<le> MAX_HOST_BYTES"
    by (simp add: site_name_def ex_long_domain_def Let_def MAX_HOST_BYTES_def ascii_def)
  then have "rbind (host_authority ex_gateway_lib (site_name ?long @ po_authority portal)) (\<lambda>host. classify ex_gateway_lib host portal) =
      Inl (Malformed ''host must be 1..253 bytes'')"
    using site_host_exact [OF portal, of "[]" ?long] wf(2) by simp
  ultimately show ?thesis by auto
qed

end
