(* ===== verification/Gateway_Pages.thy ===== *)
theory Gateway_Pages
  imports Gateway_Host
begin

section \<open>Pages of the portal (\<^verbatim>\<open>urma-cli/src/gateway_pages.rs\<close>)\<close>

text \<open>
  The portal writes a page for its index, for an address it does not serve, and for every refusal. Text
  from outside goes through \<open>escape\<close> before it becomes part of a page.
\<close>

record index_point =
  ip_height :: u64
  ip_block_hash :: bytes

record subject =
  sj_name :: bytes
  sj_suffix :: bytes
  sj_network :: "bytes option"
  sj_registry :: "bytes option"
  sj_index :: "index_point option"
  sj_names_source :: "bytes option"
  sj_complete_to_tip :: "bool option"

definition NL :: bytes where "NL = [10]"

definition DASH :: bytes where "DASH = [226, 128, 148]" \<comment> \<open>an em dash\<close>

definition number :: "nat \<Rightarrow> bytes" where
  "number n = ascii (dec n)"

definition index_text :: "index_point \<Rightarrow> bytes" where
  "index_text index = number (unat (ip_height index)) @ ascii '' '' @ ip_block_hash index"

definition Subject_new :: "bytes \<Rightarrow> bytes \<Rightarrow> subject" where
  "Subject_new name suffix = \<lparr>sj_name = name, sj_suffix = suffix, sj_network = None, sj_registry = None, sj_index = None,
     sj_names_source = None, sj_complete_to_tip = None\<rparr>"

definition subject_address :: "subject \<Rightarrow> bytes" where
  "subject_address s = ascii ''urma://'' @ sj_name s @ ascii ''.'' @ sj_suffix s @ ascii ''/''"

definition optional :: "'a option \<Rightarrow> ('a \<Rightarrow> 'b list) \<Rightarrow> 'b list" where
  "optional m f = (case m of None \<Rightarrow> [] | Some x \<Rightarrow> f x)"

definition subject_headers :: "subject \<Rightarrow> (string \<times> bytes) list" where
  "subject_headers s =
     optional (sj_network s) (\<lambda>network. [(''URMA-Network'', network)]) @
     optional (sj_registry s) (\<lambda>registry. [(''URMA-Registry'', registry)]) @
     [(''URMA-Name'', sj_name s)] @
     optional (sj_index s) (\<lambda>index. [(''URMA-Index'', index_text index)]) @
     optional (sj_names_source s) (\<lambda>source. [(''URMA-Names-Source'', source)]) @
     optional (sj_complete_to_tip s) (\<lambda>complete. [(''URMA-Names-Complete-To-Tip'', if complete then ascii ''true'' else ascii ''false'')])"

definition escape_byte :: "u8 \<Rightarrow> bytes" where
  "escape_byte b =
     (if b = 38 then ascii ''&amp;''
      else if b = 60 then ascii ''&lt;''
      else if b = 62 then ascii ''&gt;''
      else if b = 34 then ascii ''&quot;''
      else if b = 39 then ascii ''&#39;''
      else [b])"

definition escape :: "bytes \<Rightarrow> bytes" where
  "escape content = concat (map escape_byte content)"

definition subject_facts :: "subject \<Rightarrow> bytes" where
  \<open>subject_facts s =
     ascii ''<span>Name</span><code>'' @ escape (sj_name s) @ ascii ''.'' @ escape (sj_suffix s) @ ascii ''</code>'' @
     
     optional (sj_network s) (\<lambda>network. ascii ''<span>Network</span><code>'' @ escape network @ ascii ''</code>'') @
     optional (sj_registry s) (\<lambda>registry. ascii ''<span>Registry</span><code>'' @ escape registry @ ascii ''</code>'') @
     optional (sj_index s) (\<lambda>index. ascii ''<span>Index height</span><span>'' @ number (unat (ip_height index)) @ ascii '' (block <code>'' @ escape (ip_block_hash index) @
     ascii ''</code>)</span>'') @
     optional (sj_names_source s) (\<lambda>source. ascii ''<span>Names source</span><code>'' @ escape source @ ascii ''</code>'')\<close>

record listed_name =
  ln_name :: bytes
  ln_url :: bytes
  ln_root :: bytes
  ln_expiry :: u64

datatype listing_state =
    PendingListing bytes
  | ReadyListing bytes index_point u64 "listed_name list"
  | BehindListing bytes index_point u64 bytes

record listing =
  lg_suffix :: bytes
  lg_network :: bytes
  lg_registry :: bytes
  lg_state :: listing_state

definition STYLE :: "bytes" where
  \<open>STYLE =
     ascii ''body{margin:0;font:16px/1.55 system-ui,-apple-system,Segoe UI,sans-serif;background:#f6f5f1;color:#1f1e1b}main{max-width:46rem;margin:3rem auto;padding:0 1rem}h1{font-size:1.6rem;margin:0 0 1rem}h2{font-size:1.15rem;margin:2rem 0 .5rem}code{font-family:ui-monospace,SFMono-Regular,Menlo,monospace;font-size:.9em;word-break:break-all}a{color:#0b5cad}ul{padding-left:1.2rem}li{margin:.35rem 0}.note{color:#5e5b53;font-size:.92rem}.facts{display:grid;grid-template-columns:max-content 1fr;gap:.2rem 1rem}@media (prefers-color-scheme:dark){body{background:#161614;color:#e9e7e1}a{color:#7db7ff}.note{color:#a8a49a}}''\<close>

definition document :: "bytes \<Rightarrow> bytes \<Rightarrow> bytes" where
  \<open>document title body =
     ascii ''<!doctype html>'' @ NL @ ascii ''<html lang="en">'' @ NL @ ascii ''<head>'' @ NL @ ascii ''<meta charset="utf-8">'' @ NL @
     ascii ''<meta name="viewport" content="width=device-width, initial-scale=1">'' @ NL @ ascii ''<title>'' @ escape title @ ascii ''</title>'' @
     NL @ ascii ''<style>'' @ STYLE @ ascii ''</style>'' @ NL @ ascii ''</head>'' @ NL @ ascii ''<body>'' @ NL @ ascii ''<main>'' @ NL @ body @ NL @
     ascii ''</main>'' @ NL @ ascii ''</body>'' @ NL @ ascii ''</html>'' @ NL\<close>

definition failure :: "u16 \<Rightarrow> bytes \<Rightarrow> bytes \<Rightarrow> bytes \<Rightarrow> bytes \<Rightarrow> bytes" where
  \<open>failure status title detail facts closing =
     document (number (unat status) @ ascii '' '' @ title) (
     ascii ''<h1>'' @ number (unat status) @ ascii '' '' @ escape title @ ascii ''</h1>'' @ NL @ ascii ''<p>'' @ escape detail @ ascii ''</p>'' @
     NL @ ascii ''<div class="facts">'' @ facts @ ascii ''</div>'' @ NL @ closing @ ascii ''<p class="note">URMA portal</p>'')\<close>

definition state_fact :: "bytes \<Rightarrow> bytes" where
  \<open>state_fact state =
     ascii ''<span>State</span><code>'' @ escape state @ ascii ''</code>''\<close>

definition error_page :: "u16 \<Rightarrow> bytes \<Rightarrow> bytes \<Rightarrow> bytes \<Rightarrow> bytes" where
  \<open>error_page status title state detail =
     failure status title detail (state_fact state) []\<close>

definition name_error_page :: "u16 \<Rightarrow> bytes \<Rightarrow> bytes \<Rightarrow> bytes \<Rightarrow> subject \<Rightarrow> bytes" where
  \<open>name_error_page status title state detail s =
     failure status title detail (state_fact state @ subject_facts s)
       (ascii ''<p>The URMA browser opens this site as <code>'' @ escape (subject_address s) @
     ascii ''</code> and checks the registry and the publication itself.</p>'' @ NL)\<close>

definition names_list :: "listed_name list \<Rightarrow> bytes" where
  \<open>names_list names =
     (if names = [] then ascii ''<p class="note">No name is bound to a publication.</p>''
      else ascii ''<ul>'' @ NL @ concat (map (\<lambda>listed.
     ascii ''<li><a href="'' @ escape (ln_url listed) @ ascii ''">'' @ escape (ln_name listed) @ ascii ''</a> <span class="note">root <code>'' @
     escape (ln_root listed) @ ascii ''</code>, expires at block '' @ number (unat (ln_expiry listed)) @ ascii ''</span></li>'' @ NL) names) @ ascii ''</ul>'')\<close>

definition indexed :: "index_point \<Rightarrow> u64 \<Rightarrow> bytes \<Rightarrow> bytes" where
  \<open>indexed index tip source =
     (let tip_label = if source = ascii ''local-node-operator'' then ascii ''operator-reported selected tip'' else ascii ''chain tip'' in
     ascii ''<span>Indexed height</span><span>'' @ number (unat (ip_height index)) @ ascii '' ('' @ tip_label @ ascii '' '' @ number (unat tip) @
     ascii '')</span><span>Block</span><code>'' @ escape (ip_block_hash index) @ ascii ''</code><span>Names source</span><code>'' @ escape source @
     ascii ''</code>'')\<close>

definition listing_section :: "listing \<Rightarrow> bytes" where
  \<open>listing_section l =
     (let heading =
     ascii ''<h2>.'' @ escape (lg_suffix l) @ ascii '' '' @ DASH @ ascii '' '' @ escape (lg_network l) @ ascii ''</h2>'' @ NL @
     ascii ''<div class="facts"><span>Registry</span><code>'' @ escape (lg_registry l) @ ascii ''</code>'' in
      case lg_state l of
        PendingListing reason \<Rightarrow>
     heading @ ascii ''<span>Index</span><span>not ready: '' @ escape reason @ ascii ''</span></div>''
      | ReadyListing source index tip names \<Rightarrow>
     heading @ indexed index tip source @ ascii ''</div>'' @ NL @ names_list names
      | BehindListing source index tip reason \<Rightarrow>
     heading @ indexed index tip source @ ascii ''<span>Index</span><span>behind: '' @ escape reason @ ascii ''</span></div>'' @ NL @
     ascii ''<p class="note">Names of this network answer 503 until its index is current again.</p>'')\<close>

definition index_page :: "portal \<Rightarrow> listing list \<Rightarrow> bytes" where
  \<open>index_page portal listings =
     document (ascii ''URMA portal '' @ DASH @ ascii '' '' @ po_domain portal) (
     ascii ''<h1>URMA portal '' @ DASH @ ascii '' '' @ escape (po_domain portal) @ ascii ''</h1>'' @ NL @
     ascii ''<p>This portal serves URMA web publications bound to names of one registry per network. Every file is re-verified against its on-chain publication before it is served; each name host answers <code>/.well-known/urma/proof</code> with the evidence.</p>'' @
     concat (map listing_section listings))\<close>

definition unavailable_page :: "portal \<Rightarrow> bytes list \<Rightarrow> bytes" where
  \<open>unavailable_page portal originals =
     document (ascii ''Not available on this portal'') (
     ascii ''<h1>Not available on this portal</h1>'' @ NL @
     ascii ''<p>The link you followed names a URMA publication by transaction ID or through another registry. This portal serves only names of its configured registries; open the link in a URMA browser instead.</p>'' @
     
     (if originals = [] then [] else NL @ ascii ''<ul>'' @ NL @ concat (map (\<lambda>original. ascii ''<li><code>'' @ escape original @ ascii ''</code></li>'' @ NL) originals) @
     ascii ''</ul>'') @
     
     NL @ ascii ''<p><a href="'' @ escape (apex_origin portal) @ ascii ''/">Portal index</a></p>'')\<close>

subsection \<open>Text does not become markup\<close>

text \<open>The bytes that delimit tags and attributes.\<close>

definition markup_byte :: "u8 \<Rightarrow> bool" where
  "markup_byte b \<longleftrightarrow> b \<in> {34, 39, 60, 62}"

definition skeleton :: "bytes \<Rightarrow> bytes" where
  "skeleton page = filter markup_byte page"

definition blank_subject :: "subject \<Rightarrow> subject" where
  "blank_subject s = \<lparr>sj_name = [], sj_suffix = [], sj_network = map_option (\<lambda>_. []) (sj_network s),
     sj_registry = map_option (\<lambda>_. []) (sj_registry s),
     sj_index = map_option (\<lambda>_. \<lparr>ip_height = 0, ip_block_hash = []\<rparr>) (sj_index s),
     sj_names_source = map_option (\<lambda>_. []) (sj_names_source s), sj_complete_to_tip = sj_complete_to_tip s\<rparr>"

definition blank_point :: index_point where "blank_point = \<lparr>ip_height = 0, ip_block_hash = []\<rparr>"

fun blank_state :: "listing_state \<Rightarrow> listing_state" where
  "blank_state (PendingListing reason) = PendingListing []"
| "blank_state (ReadyListing source index tip names) =
     ReadyListing [] blank_point 0 (map (\<lambda>_. \<lparr>ln_name = [], ln_url = [], ln_root = [], ln_expiry = 0\<rparr>) names)"
| "blank_state (BehindListing source index tip reason) = BehindListing [] blank_point 0 []"

definition blank_listing :: "listing \<Rightarrow> listing" where
  "blank_listing l = \<lparr>lg_suffix = [], lg_network = [], lg_registry = [], lg_state = blank_state (lg_state l)\<rparr>"

definition blank_portal :: portal where
  "blank_portal = \<lparr>po_domain = [], po_authority = [], po_scheme = Http, po_registries = Map.empty\<rparr>"

lemma skeleton_append: "skeleton (a @ b) = skeleton a @ skeleton b"
  by (simp add: skeleton_def)

lemma skeleton_Nil: "skeleton [] = []"
  by (simp add: skeleton_def)

lemma skeleton_concat: "skeleton (concat xs) = concat (map skeleton xs)"
  by (induction xs) (simp_all add: skeleton_append skeleton_Nil)

lemma skeleton_escape: "skeleton (escape content) = []"
proof -
  have "skeleton (escape_byte b) = []" for b
    by (auto simp: escape_byte_def skeleton_def markup_byte_def ascii_def)
  then show ?thesis by (simp add: escape_def skeleton_concat comp_def)
qed

lemma skeleton_number: "skeleton (number n) = []"
proof -
  have "\<not> markup_byte b" if "is_ascii_digit b" for b
    using that by (auto simp: markup_byte_def is_ascii_digit_def)
  then show ?thesis using dec_digits [of n] by (auto simp: skeleton_def number_def filter_empty_conv)
qed

lemma skeleton_tip: "skeleton (if c then ascii ''operator-reported selected tip'' else ascii ''chain tip'') = []"
  by (simp add: skeleton_def markup_byte_def ascii_def)

lemma skeleton_cond: "skeleton (if c then a else b) = (if c then skeleton a else skeleton b)"
  by simp

lemma skeleton_optional: "skeleton (optional m f) = (case m of None \<Rightarrow> [] | Some x \<Rightarrow> skeleton (f x))"
  by (simp add: optional_def skeleton_Nil split: option.splits)

lemmas skeletons = skeleton_append skeleton_Nil skeleton_escape skeleton_number skeleton_optional skeleton_concat

lemma skeleton_document: "skeleton body = skeleton body' \<Longrightarrow> skeleton (document title body) = skeleton (document title' body')"
  by (simp add: document_def skeletons)

lemma skeleton_failure:
  "skeleton facts = skeleton facts' \<Longrightarrow> skeleton closing = skeleton closing' \<Longrightarrow>
     skeleton (failure status title detail facts closing) = skeleton (failure status' title' detail' facts' closing')"
  unfolding failure_def by (rule skeleton_document) (simp add: skeletons)

lemma skeleton_facts: "skeleton (subject_facts s) = skeleton (subject_facts (blank_subject s))"
  by (simp add: subject_facts_def skeletons blank_subject_def split: option.splits)

lemma skeleton_names: "skeleton (names_list names) = skeleton (names_list (map (\<lambda>_. \<lparr>ln_name = [], ln_url = [], ln_root = [], ln_expiry = 0\<rparr>) names))"
  by (simp add: names_list_def skeletons comp_def)

lemma skeleton_indexed: "skeleton (indexed index tip source) = skeleton (indexed index' tip' source')"
  by (simp only: indexed_def Let_def skeletons skeleton_tip)

lemma skeleton_section: "skeleton (listing_section l) = skeleton (listing_section (blank_listing l))"
proof (cases "lg_state l")
  case (PendingListing reason)
  then show ?thesis by (simp add: listing_section_def blank_listing_def skeletons)
next
  case (ReadyListing source index tip names)
  have "skeleton (indexed index tip source) = skeleton (indexed blank_point 0 [])" by (rule skeleton_indexed)
  with ReadyListing show ?thesis
    using skeleton_names [of names] by (simp add: listing_section_def blank_listing_def skeletons)
next
  case (BehindListing source index tip reason)
  have "skeleton (indexed index tip source) = skeleton (indexed blank_point 0 [])" by (rule skeleton_indexed)
  with BehindListing show ?thesis by (simp add: listing_section_def blank_listing_def skeletons)
qed

text \<open>
  Text from outside cannot become markup of a portal page. The quotes and angle brackets of a page, in
  their order, are those of the same page with every text left empty and every number zero: they come
  from the program alone, whatever a request, a name, a network or an error says.
\<close>
theorem pages_escape_text:
  "skeleton (error_page status title state detail) = skeleton (error_page 0 [] [] []) \<and>
   skeleton (name_error_page status title state detail s) = skeleton (name_error_page 0 [] [] [] (blank_subject s)) \<and>
   skeleton (unavailable_page portal originals) = skeleton (unavailable_page blank_portal (map (\<lambda>_. []) originals)) \<and>
   skeleton (index_page portal listings) = skeleton (index_page blank_portal (map blank_listing listings))"
proof (intro conjI)
  show "skeleton (error_page status title state detail) = skeleton (error_page 0 [] [] [])"
    unfolding error_page_def by (rule skeleton_failure) (simp_all add: state_fact_def skeletons)
  show "skeleton (name_error_page status title state detail s) = skeleton (name_error_page 0 [] [] [] (blank_subject s))"
    unfolding name_error_page_def by (rule skeleton_failure) (simp_all add: state_fact_def skeletons skeleton_facts [of s])
  show "skeleton (unavailable_page portal originals) = skeleton (unavailable_page blank_portal (map (\<lambda>_. []) originals))"
    unfolding unavailable_page_def by (rule skeleton_document) (simp add: skeletons comp_def)
  have "concat (map (\<lambda>l. skeleton (listing_section l)) listings) = concat (map (\<lambda>l. skeleton (listing_section (blank_listing l))) listings)"
    by (rule arg_cong [of _ _ concat], rule map_cong [OF refl]) (rule skeleton_section)
  then show "skeleton (index_page portal listings) = skeleton (index_page blank_portal (map blank_listing listings))"
    unfolding index_page_def by (intro skeleton_document) (simp add: skeletons comp_def)
qed

end
