(* ===== verification/Gateway_Http.thy ===== *)
theory Gateway_Http
  imports Gateway_Links Gateway_Pages
begin

section \<open>Requests and replies of the gateway (\<^verbatim>\<open>urma-cli/src/gateway_http.rs\<close>)\<close>

text \<open>
  A connection carries one request: its head is read in chunks up to a limit, parsed by the
  \<open>httparse\<close> crate, admitted or refused, and answered; the reply states the length of its body and the
  connection is closed. The model of a connection is its answers to the reads: bytes, nothing more yet
  within the time, an error, or the end; and the clock. Header names and constant values are texts of the
  program, other values are lists of bytes.
\<close>

datatype state =
    NotAName | NetworkNotServed | IndexBehind | UnboundName | ReservedName | ExpiredName | SuspendedName | UndeclaredPath
  | VerificationFailed | Fetching | FetchFailed | ServiceWorker | NotAPortalPage | NotServable | Misdirected | BadRequest
  | MethodNotAllowed | RequestTimeout | BodyRefused | TargetTooLong | HeadTooLarge | InternalError

fun state_label :: "state \<Rightarrow> string" where
  "state_label NotAName = ''not-a-name''"
| "state_label NetworkNotServed = ''network-not-served''"
| "state_label IndexBehind = ''index-behind''"
| "state_label UnboundName = ''unbound''"
| "state_label ReservedName = ''reserved''"
| "state_label ExpiredName = ''expired''"
| "state_label SuspendedName = ''suspended''"
| "state_label UndeclaredPath = ''undeclared''"
| "state_label VerificationFailed = ''verification-failed''"
| "state_label Fetching = ''fetching''"
| "state_label FetchFailed = ''fetch-failed''"
| "state_label ServiceWorker = ''service-worker''"
| "state_label NotAPortalPage = ''not-a-portal-page''"
| "state_label NotServable = ''not-servable''"
| "state_label Misdirected = ''misdirected''"
| "state_label BadRequest = ''bad-request''"
| "state_label MethodNotAllowed = ''method-not-allowed''"
| "state_label RequestTimeout = ''request-timeout''"
| "state_label BodyRefused = ''body-refused''"
| "state_label TargetTooLong = ''target-too-long''"
| "state_label HeadTooLarge = ''head-too-large''"
| "state_label InternalError = ''internal-error''"

fun state_status :: "state \<Rightarrow> u16" where
  "state_status SuspendedName = 403"
| "state_status ServiceWorker = 403"
| "state_status IndexBehind = 503"
| "state_status Fetching = 503"
| "state_status VerificationFailed = 502"
| "state_status FetchFailed = 502"
| "state_status Misdirected = 421"
| "state_status BadRequest = 400"
| "state_status MethodNotAllowed = 405"
| "state_status RequestTimeout = 408"
| "state_status BodyRefused = 413"
| "state_status TargetTooLong = 414"
| "state_status HeadTooLarge = 431"
| "state_status InternalError = 500"
| "state_status _ = 404"

definition reason :: "u16 \<Rightarrow> string" where
  "reason status =
     (if status = 200 then ''OK''
      else if status = 301 then ''Moved Permanently''
      else if status = 304 then ''Not Modified''
      else if status = 400 then ''Bad Request''
      else if status = 403 then ''Forbidden''
      else if status = 404 then ''Not Found''
      else if status = 405 then ''Method Not Allowed''
      else if status = 408 then ''Request Timeout''
      else if status = 413 then ''Content Too Large''
      else if status = 414 then ''URI Too Long''
      else if status = 421 then ''Misdirected Request''
      else if status = 431 then ''Request Header Fields Too Large''
      else if status = 500 then ''Internal Server Error''
      else if status = 502 then ''Bad Gateway''
      else if status = 503 then ''Service Unavailable''
      else ''Status'')"

subsection \<open>Requests\<close>

datatype http_method = HttpGet | HttpHead

record http_request =
  rq_method :: http_method
  rq_target :: bytes
  rq_host :: bytes
  rq_validators :: "bytes list"

definition entity_tag_matches :: "bytes \<Rightarrow> bytes \<Rightarrow> bool" where
  "entity_tag_matches candidate etag =
     (if candidate = ascii ''*'' \<or> candidate = etag then True
      else case strip_prefix (ascii ''W/'') candidate of None \<Rightarrow> False | Some weak \<Rightarrow> weak = etag)"

definition validates :: "http_request \<Rightarrow> bytes \<Rightarrow> bool" where
  "validates request etag \<longleftrightarrow> (\<exists>candidate \<in> set (rq_validators request). entity_tag_matches candidate etag)"

subsection \<open>Replies\<close>

record reply =
  rp_status :: u16
  rp_headers :: "(string \<times> bytes) list"
  rp_body :: bytes

definition NO_STORE :: bytes where "NO_STORE = ascii ''no-store''"
definition SITE_CSP :: bytes where
  "SITE_CSP = ascii ''default-src 'self'; script-src 'self' 'unsafe-inline' 'wasm-unsafe-eval'; style-src 'self' 'unsafe-inline'; img-src 'self' data: blob:; media-src 'self' blob:; font-src 'self'; connect-src 'self'; worker-src 'self'; frame-src 'self'; object-src 'none'; base-uri 'self'; form-action 'self'; frame-ancestors 'self'' @ [39]"
definition PORTAL_CSP :: bytes where
  "PORTAL_CSP = ascii ''default-src 'none'; style-src 'unsafe-inline'; base-uri 'none'; form-action 'none'; frame-ancestors 'none'' @ [39]"
definition PERMISSIONS :: bytes where
  "PERMISSIONS = ascii ''accelerometer=(), ambient-light-sensor=(), attribution-reporting=(), bluetooth=(), browsing-topics=(), camera=(), clipboard-read=(), display-capture=(), geolocation=(), gyroscope=(), hid=(), identity-credentials-get=(), idle-detection=(), local-fonts=(), magnetometer=(), microphone=(), midi=(), otp-credentials=(), payment=(), publickey-credentials-create=(), publickey-credentials-get=(), screen-wake-lock=(), serial=(), storage-access=(), usb=(), window-management=(), xr-spatial-tracking=()''"
definition HSTS :: bytes where "HSTS = ascii ''max-age=31536000; includeSubDomains''"


definition Reply_new :: "u16 \<Rightarrow> bytes \<Rightarrow> bytes \<Rightarrow> bytes \<Rightarrow> bytes \<Rightarrow> reply" where
  "Reply_new status content_type cache policy body =
     \<lparr>rp_status = status,
      rp_headers = [(''Content-Type'', content_type), (''Cache-Control'', cache), (''Content-Security-Policy'', policy)],
      rp_body = body\<rparr>"

definition Reply_site :: "u16 \<Rightarrow> bytes \<Rightarrow> u64 \<Rightarrow> bytes \<Rightarrow> reply" where
  "Reply_site status mime max_age body =
     Reply_new status mime (ascii ''public, max-age='' @ ascii (dec (unat max_age)) @ ascii '', no-transform'') SITE_CSP body"

definition Reply_portal :: "u16 \<Rightarrow> bytes \<Rightarrow> bytes \<Rightarrow> reply" where
  "Reply_portal status content_type body = Reply_new status content_type NO_STORE PORTAL_CSP body"

definition reply_with :: "reply \<Rightarrow> string \<times> bytes \<Rightarrow> reply" where
  "reply_with reply header = reply\<lparr>rp_headers := rp_headers reply @ [header]\<rparr>"

definition Reply_html :: "u16 \<Rightarrow> bytes \<Rightarrow> reply" where
  "Reply_html status page = Reply_portal status (ascii ''text/html; charset=utf-8'') page"

definition Reply_text :: "u16 \<Rightarrow> bytes \<Rightarrow> reply" where
  "Reply_text status content = Reply_portal status (ascii ''text/plain; charset=utf-8'') content"

definition not_modified :: "reply \<Rightarrow> reply" where
  "not_modified reply = reply\<lparr>rp_status := 304, rp_body := []\<rparr>"

definition secured :: "reply \<Rightarrow> link_scheme \<Rightarrow> reply" where
  "secured reply scheme =
     foldl reply_with reply
       ([(''X-Content-Type-Options'', ascii ''nosniff''), (''Referrer-Policy'', ascii ''no-referrer''),
         (''Cross-Origin-Opener-Policy'', ascii ''same-origin''), (''Cross-Origin-Resource-Policy'', ascii ''same-origin''),
         (''Origin-Agent-Cluster'', ascii ''?1''), (''Permissions-Policy'', PERMISSIONS)] @
        (case scheme of Https \<Rightarrow> [(''Strict-Transport-Security'', HSTS)] | Http \<Rightarrow> []))"

definition CRLF :: bytes where "CRLF = [13, 10]"

definition encode_header :: "bytes \<Rightarrow> string \<times> bytes \<Rightarrow> rt_error + bytes" where
  "encode_header bs header =
     ensure (\<not> (\<exists>b \<in> set (snd header). b = 13 \<or> b = 10)) (RtInvalid (''response header '' @ fst header @ '' carries a line break''))
     (Inr (bs @ ascii (fst header) @ ascii '': '' @ snd header @ CRLF))"

definition encode_reply :: "reply \<Rightarrow> http_method \<Rightarrow> rt_error + bytes" where
  "encode_reply reply m =
     rbind (rfold encode_header
       (ascii ''HTTP/1.1 '' @ ascii (dec (unat (rp_status reply))) @ ascii '' '' @ ascii (reason (rp_status reply)) @ CRLF)
       (rp_headers reply)) (\<lambda>bs.
     let bs = (if rp_status reply \<noteq> 304 then bs @ ascii ''Content-Length: '' @ ascii (dec (length (rp_body reply))) @ CRLF else bs);
         bs = bs @ ascii ''Connection: close'' @ CRLF @ CRLF
     in Inr (if m = HttpGet then bs @ rp_body reply else bs))"

subsection \<open>Refusals\<close>

datatype scope = PortalScope | NameScope subject

record refusal =
  rf_state :: state
  rf_detail :: bytes
  rf_headers :: "(string \<times> bytes) list"
  rf_scope :: scope

definition Refusal_new :: "state \<Rightarrow> bytes \<Rightarrow> refusal" where
  "Refusal_new st detail = \<lparr>rf_state = st, rf_detail = detail, rf_headers = [], rf_scope = PortalScope\<rparr>"

definition refusal_with :: "refusal \<Rightarrow> string \<times> bytes \<Rightarrow> refusal" where
  "refusal_with r header = r\<lparr>rf_headers := rf_headers r @ [header]\<rparr>"

definition refusal_about :: "refusal \<Rightarrow> subject \<Rightarrow> refusal" where
  "refusal_about r s = r\<lparr>rf_scope := NameScope s\<rparr>"

definition Refusal_internal :: "bytes \<Rightarrow> refusal" where
  "Refusal_internal detail = Refusal_new InternalError detail"

definition Refusal_status :: "refusal \<Rightarrow> u16" where
  "Refusal_status r = state_status (rf_state r)"

definition Refusal_reply :: "refusal \<Rightarrow> reply" where
  "Refusal_reply r =
     (let status = Refusal_status r; title = ascii (reason status); label = ascii (state_label (rf_state r));
          reply = (case rf_scope r of
              PortalScope \<Rightarrow> Reply_html status (error_page status title label (rf_detail r))
            | NameScope s \<Rightarrow>
                foldl reply_with (Reply_html status (name_error_page status title label (rf_detail r) s)) (subject_headers s))
      in foldl reply_with (reply_with reply (''URMA-State'', label)) (rf_headers r))"

subsection \<open>Admitting a request\<close>

text \<open>The limits of a request; the waiting times that only configure a socket are part of \<open>connection\<close>.\<close>

record http_limits =
  hl_head_bytes :: nat
  hl_max_headers :: nat
  hl_target_bytes :: nat
  hl_head_timeout :: nat
  hl_linger :: nat
  hl_linger_bytes :: nat

text \<open>What \<open>httparse\<close> finds in the bytes read so far.\<close>

record parsed_head =
  ph_method :: "bytes option"
  ph_path :: "bytes option"
  ph_headers :: "(bytes \<times> bytes) list"

datatype head_result = PartialHead | CompleteHead parsed_head | UnparseableHead bool bytes \<comment> \<open>too many headers; the error text\<close>

record http_lib =
  ht_parse :: "nat \<Rightarrow> bytes \<Rightarrow> head_result"
  ht_utf8_error :: "bytes \<Rightarrow> bytes"

datatype incoming = Incoming http_request | Refused refusal | Closed

definition refuse_with :: "state \<Rightarrow> bytes \<Rightarrow> incoming" where
  "refuse_with st detail = Refused (Refusal_new st detail)"

definition is_service_worker :: "bytes \<times> bytes \<Rightarrow> bool" where
  "is_service_worker header \<longleftrightarrow> eq_ignore_ascii_case (fst header) (ascii ''service-worker'') \<and>
     eq_ignore_ascii_case (trim_ascii (snd header)) (ascii ''script'')"

definition entity_tags :: "bytes \<Rightarrow> bytes list" where
  "entity_tags v = filter is_utf8 (map trim_ascii (split_byte 44 v))"

text \<open>The loop over the headers: hosts and validators, or a refusal.\<close>

fun admit_headers :: "(bytes \<times> bytes) list \<Rightarrow> bytes list \<Rightarrow> bytes list \<Rightarrow> refusal + bytes list \<times> bytes list" where
  "admit_headers [] hosts validators = Inr (hosts, validators)"
| "admit_headers (header # headers) hosts validators =
     (if eq_ignore_ascii_case (fst header) (ascii ''host'') then admit_headers headers (hosts @ [snd header]) validators
      else if eq_ignore_ascii_case (fst header) (ascii ''transfer-encoding'') \<or>
              (eq_ignore_ascii_case (fst header) (ascii ''content-length'') \<and> trim_ascii (snd header) \<noteq> ascii ''0'')
      then Inl (Refusal_new BodyRefused (ascii ''request bodies are not accepted''))
      else if eq_ignore_ascii_case (fst header) (ascii ''if-none-match'')
      then admit_headers headers hosts (validators @ entity_tags (snd header))
      else if is_service_worker header
      then Inl (Refusal_new ServiceWorker (ascii ''service worker scripts are refused: a worker would keep serving a site after its name moves, expires or is suspended''))
      else admit_headers headers hosts validators)"

definition admit_head :: "http_lib \<Rightarrow> parsed_head \<Rightarrow> http_limits \<Rightarrow> incoming" where
  "admit_head lib parsed limits =
     (case (ph_method parsed, ph_path parsed) of
        (Some m, Some target) \<Rightarrow>
          (case (if m = ascii ''GET'' then Some HttpGet else if m = ascii ''HEAD'' then Some HttpHead else None) of
             None \<Rightarrow> Refused (refusal_with (Refusal_new MethodNotAllowed (m @ ascii '' is not served; the portal is read-only''))
                 (''Allow'', ascii ''GET, HEAD''))
           | Some m \<Rightarrow>
               if hl_target_bytes limits < length target then
                 refuse_with TargetTooLong (ascii ''request target exceeds '' @ ascii (dec (hl_target_bytes limits)) @ ascii '' bytes'')
               else if \<not> begins_with [SLASH] target then refuse_with BadRequest (ascii ''request target must be an absolute path'')
               else case admit_headers (ph_headers parsed) [] [] of
                 Inl refusal \<Rightarrow> Refused refusal
               | Inr ([host], validators) \<Rightarrow>
                   if is_utf8 host then
                     Incoming \<lparr>rq_method = m, rq_target = target, rq_host = host, rq_validators = validators\<rparr>
                   else refuse_with BadRequest (ascii ''Host header is not UTF-8: '' @ ht_utf8_error lib host)
               | Inr _ \<Rightarrow> refuse_with BadRequest (ascii ''exactly one Host header is required''))
      | _ \<Rightarrow> refuse_with BadRequest (ascii ''request line without method or target''))"

text \<open>\<open>None\<close>: more bytes are needed.\<close>

definition parse_head :: "http_lib \<Rightarrow> bytes \<Rightarrow> http_limits \<Rightarrow> incoming option" where
  "parse_head lib buffer limits =
     (case ht_parse lib (hl_max_headers limits) buffer of
        PartialHead \<Rightarrow> None
      | CompleteHead parsed \<Rightarrow> Some (admit_head lib parsed limits)
      | UnparseableHead too_many cause \<Rightarrow>
          Some (refuse_with (if too_many then HeadTooLarge else BadRequest) (ascii ''unparseable request head: '' @ cause)))"

definition timeout_refusal :: refusal where
  "timeout_refusal = Refusal_new RequestTimeout (ascii ''the request head did not arrive in time'')"

subsection \<open>A connection\<close>

datatype read_result = ReadBytes bytes | ReadWait | ReadFailed

record 's connection =
  cn_now :: "'s \<Rightarrow> nat \<times> 's"
  cn_read :: "'s \<Rightarrow> read_result \<times> 's"
  cn_set_timeouts :: "'s \<Rightarrow> bool \<times> 's"
  cn_write :: "bytes \<Rightarrow> 's \<Rightarrow> bool \<times> 's"
  cn_flush :: "'s \<Rightarrow> bool \<times> 's"
  cn_shutdown :: "'s \<Rightarrow> bool \<times> 's"
  cn_set_linger :: "'s \<Rightarrow> bool \<times> 's"

definition CHUNK :: nat where "CHUNK = 2048"

function read_loop :: "http_lib \<Rightarrow> 's connection \<Rightarrow> http_limits \<Rightarrow> nat \<Rightarrow> bytes \<Rightarrow> 's \<Rightarrow> (rt_error + incoming) \<times> 's" where
  "read_loop lib conn limits started buffer s =
     (case cn_now conn s of (now, s) \<Rightarrow>
      if hl_head_timeout limits < now - started then (Inr (Refused timeout_refusal), s)
      else case cn_read conn s of
        (ReadWait, s) \<Rightarrow> (Inr (Refused timeout_refusal), s)
      | (ReadFailed, s) \<Rightarrow> (Inl RtIo, s)
      | (ReadBytes fresh, s) \<Rightarrow>
          if fresh = [] then
            (if buffer = [] then (Inr Closed, s)
             else (Inr (refuse_with BadRequest (ascii ''connection closed inside the request head'')), s))
          else if CHUNK < length fresh then (Inl (RtInvalid ''read past the chunk buffer''), s)
          else case parse_head lib (buffer @ fresh) limits of
            Some incoming \<Rightarrow> (Inr incoming, s)
          | None \<Rightarrow>
              if hl_head_bytes limits \<le> length (buffer @ fresh) then
                (Inr (refuse_with HeadTooLarge (ascii ''request head exceeds '' @ ascii (dec (hl_head_bytes limits)) @ ascii '' bytes'')), s)
              else read_loop lib conn limits started (buffer @ fresh) s)"
  by pat_completeness auto

termination
  by (relation "measure (\<lambda>(lib, conn, limits, started, buffer, s). hl_head_bytes limits - length buffer)")
    (auto intro!: diff_less_mono2 dest: less_le_trans)

declare read_loop.simps [simp del]

definition read_request :: "http_lib \<Rightarrow> 's connection \<Rightarrow> http_limits \<Rightarrow> 's \<Rightarrow> (rt_error + incoming) \<times> 's" where
  "read_request lib conn limits s = (case cn_now conn s of (started, s) \<Rightarrow> read_loop lib conn limits started [] s)"

function linger_loop :: "'s connection \<Rightarrow> http_limits \<Rightarrow> nat \<Rightarrow> nat \<Rightarrow> 's \<Rightarrow> (rt_error + unit) \<times> 's" where
  "linger_loop conn limits started drained s =
     (if drained < hl_linger_bytes limits then
        (case cn_now conn s of (now, s) \<Rightarrow>
         if now - started < hl_linger limits then
           (case cn_read conn s of
              (ReadBytes fresh, s) \<Rightarrow>
                if fresh = [] then (Inr (), s) else linger_loop conn limits started (drained + length fresh) s
            | (_, s) \<Rightarrow> (Inl RtIo, s))
         else (Inr (), s))
      else (Inr (), s))"
  by pat_completeness auto

termination
  by (relation "measure (\<lambda>(conn, limits, started, drained, s). hl_linger_bytes limits - drained)") (auto intro!: diff_less_mono2)

declare linger_loop.simps [simp del]

definition linger :: "'s connection \<Rightarrow> http_limits \<Rightarrow> 's \<Rightarrow> (rt_error + unit) \<times> 's" where
  "linger conn limits s =
     (case cn_set_linger conn s of (ok, s) \<Rightarrow>
      if \<not> ok then (Inl RtIo, s)
      else case cn_now conn s of (started, s) \<Rightarrow> linger_loop conn limits started 0 s)"

text \<open>One connection: a request is read, answered, and the connection closed.\<close>

definition send_reply :: "'s connection \<Rightarrow> http_limits \<Rightarrow> link_scheme \<Rightarrow> reply \<Rightarrow> http_method \<Rightarrow> 's \<Rightarrow> (rt_error + unit) \<times> 's" where
  "send_reply conn limits scheme reply m s =
     (case encode_reply (secured reply scheme) m of
        Inl e \<Rightarrow> (Inl e, s)
      | Inr bs \<Rightarrow>
          (case cn_write conn bs s of (ok, s) \<Rightarrow>
           if \<not> ok then (Inl RtIo, s)
           else case cn_flush conn s of (ok, s) \<Rightarrow>
           if \<not> ok then (Inl RtIo, s)
           else case cn_shutdown conn s of (ok, s) \<Rightarrow>
           if \<not> ok then (Inl RtIo, s)
           else linger conn limits s))"

definition exchange ::
  "http_lib \<Rightarrow> 's connection \<Rightarrow> http_limits \<Rightarrow> link_scheme \<Rightarrow> (http_request \<Rightarrow> 's \<Rightarrow> reply \<times> 's) \<Rightarrow> 's \<Rightarrow> (rt_error + unit) \<times> 's" where
  "exchange lib conn limits scheme respond s =
     (case cn_set_timeouts conn s of (ok, s) \<Rightarrow>
      if \<not> ok then (Inl RtIo, s)
      else case read_request lib conn limits s of
        (Inl e, s) \<Rightarrow> (Inl e, s)
      | (Inr Closed, s) \<Rightarrow> (Inr (), s)
      | (Inr (Refused refusal), s) \<Rightarrow> send_reply conn limits scheme (Refusal_reply refusal) HttpGet s
      | (Inr (Incoming request), s) \<Rightarrow>
          (case respond request s of (reply, s) \<Rightarrow> send_reply conn limits scheme reply (rq_method request) s))"

subsection \<open>What is admitted\<close>

lemma admit_headers_hosts:
  "admit_headers headers hosts validators = Inr (hosts', validators') \<Longrightarrow>
     hosts' = hosts @ map snd (filter (\<lambda>h. eq_ignore_ascii_case (fst h) (ascii ''host'')) headers)"
  by (induction headers hosts validators rule: admit_headers.induct) (auto split: if_splits)

definition carries_body :: "(bytes \<times> bytes) \<Rightarrow> bool" where
  "carries_body h \<longleftrightarrow> eq_ignore_ascii_case (fst h) (ascii ''transfer-encoding'') \<or>
     (eq_ignore_ascii_case (fst h) (ascii ''content-length'') \<and> trim_ascii (snd h) \<noteq> ascii ''0'')"

lemma host_no_body: "eq_ignore_ascii_case n (ascii ''host'') \<Longrightarrow> \<not> carries_body (n, v)"
  by (auto simp: carries_body_def eq_ignore_ascii_case_def ascii_def to_ascii_lowercase_def)

lemma admit_headers_body:
  "admit_headers headers hosts validators = Inr r \<Longrightarrow> list_all (\<lambda>h. \<not> carries_body h) headers"
proof (induction headers hosts validators rule: admit_headers.induct)
  case (2 header headers hosts validators)
  then show ?case
    using host_no_body [of "fst header" "snd header"] by (auto simp: carries_body_def split: if_splits)
qed simp

text \<open>An admitted request.\<close>

lemma admit_request:
  assumes "admit_head lib parsed limits = Incoming r"
  shows "ph_path parsed = Some (rq_target r)" "begins_with [SLASH] (rq_target r)" "length (rq_target r) \<le> hl_target_bytes limits"
    "map snd (filter (\<lambda>h. eq_ignore_ascii_case (fst h) (ascii ''host'')) (ph_headers parsed)) = [rq_host r]"
    "list_all (\<lambda>h. \<not> carries_body h) (ph_headers parsed)" "is_utf8 (rq_host r)"
    "ph_method parsed = Some (if rq_method r = HttpGet then ascii ''GET'' else ascii ''HEAD'')"
  using assms admit_headers_hosts [of "ph_headers parsed" "[]" "[]"] admit_headers_body [of "ph_headers parsed" "[]" "[]"]
  by (auto simp: admit_head_def refuse_with_def split: option.splits if_splits sum.splits list.splits prod.splits)


subsection \<open>What is sent\<close>

definition no_break :: "bytes \<Rightarrow> bool" where
  "no_break bs \<longleftrightarrow> 13 \<notin> set bs \<and> 10 \<notin> set bs"

definition header_line :: "string \<times> bytes \<Rightarrow> bytes" where
  "header_line header = ascii (fst header) @ ascii '': '' @ snd header"

definition head_lines :: "reply \<Rightarrow> bytes list" where
  "head_lines reply =
     [ascii ''HTTP/1.1 '' @ ascii (dec (unat (rp_status reply))) @ ascii '' '' @ ascii (reason (rp_status reply))] @
     map header_line (rp_headers reply) @
     (if rp_status reply \<noteq> 304 then [ascii ''Content-Length: '' @ ascii (dec (length (rp_body reply)))] else []) @
     [ascii ''Connection: close'']"

lemma encode_headers_eq:
  "rfold encode_header bs headers = Inr bs' \<longleftrightarrow>
     list_all (\<lambda>h. no_break (snd h)) headers \<and> bs' = bs @ concat (map (\<lambda>h. header_line h @ CRLF) headers)"
  by (induction headers arbitrary: bs) (auto simp: encode_header_def no_break_def header_line_def)

lemma encode_reply_eq:
  "encode_reply reply m = Inr bs \<longleftrightarrow>
     list_all (\<lambda>h. no_break (snd h)) (rp_headers reply) \<and>
     bs = concat (map (\<lambda>l. l @ CRLF) (head_lines reply)) @ CRLF @ (if m = HttpGet then rp_body reply else [])"
  by (auto simp: encode_reply_def encode_headers_eq Let_def head_lines_def comp_def)

lemma digits_no_break: "no_break (ascii (dec n))"
  using dec_digits [of n] by (auto simp: no_break_def is_ascii_digit_def)

lemma reason_no_break: "no_break (ascii (reason status))"
  by (simp add: reason_def no_break_def ascii_def)

lemma no_break_append: "no_break (a @ b) \<longleftrightarrow> no_break a \<and> no_break b"
  by (auto simp: no_break_def)

lemma head_lines_no_break:
  assumes "list_all (\<lambda>h. no_break (snd h)) (rp_headers reply)" "list_all (\<lambda>h. no_break (ascii (fst h))) (rp_headers reply)"
  shows "list_all no_break (head_lines reply)"
proof -
  have "list_all no_break (map header_line (rp_headers reply))"
    using assms by (auto simp: list_all_iff header_line_def no_break_append) (simp add: no_break_def ascii_def)
  moreover have "no_break (ascii ''HTTP/1.1 '')" "no_break (ascii '' '')" "no_break (ascii ''Content-Length: '')" "no_break (ascii ''Connection: close'')"
    by (simp_all add: no_break_def ascii_def)
  ultimately show ?thesis
    by (simp add: head_lines_def no_break_append digits_no_break reason_no_break)
qed


text \<open>
  No value can split a reply. When a reply is sent, its bytes are its head lines, each ended by CR and LF,
  an empty line, and the body for a GET; no head line holds a CR or LF itself, whatever values the
  headers have, as long as the names of the headers hold none.
\<close>
theorem reply_framed:
  assumes "encode_reply reply m = Inr bs" "list_all (\<lambda>h. no_break (ascii (fst h))) (rp_headers reply)"
  shows "bs = concat (map (\<lambda>l. l @ CRLF) (head_lines reply)) @ CRLF @ (if m = HttpGet then rp_body reply else []) \<and>
    list_all no_break (head_lines reply)"
  using assms head_lines_no_break [OF _ assms(2)] by (simp add: encode_reply_eq)

theorem reply_framed_witness:
  "list_all no_break (head_lines \<lparr>rp_status = 200, rp_headers = [(''ETag'', ascii ''x'')], rp_body = [1]\<rparr>)"
proof -
  let ?r = "\<lparr>rp_status = 200, rp_headers = [(''ETag'', ascii ''x'')], rp_body = [1]\<rparr>"
  have "\<exists>bs. encode_reply ?r HttpHead = Inr bs" by (simp add: encode_reply_eq no_break_def ascii_def)
  moreover have "list_all (\<lambda>h. no_break (ascii (fst h))) (rp_headers ?r)" by (simp add: no_break_def ascii_def)
  ultimately show ?thesis using reply_framed by blast
qed

end
