(* ===== verification/Gateway_Route.thy ===== *)
theory Gateway_Route
  imports Gateway_Http Web_Package_Codec
begin

section \<open>Routes of a site (\<^verbatim>\<open>urma-cli/src/gateway_route.rs\<close>)\<close>

text \<open>
  The target of a request is split at its query; its path is looked up in the package of the publication,
  with the path of a directory redirected to its slash. Whether a name has a publication to serve, and
  whether the index of the names is recent enough to say so, is decided here too.

  Instants and durations count nanoseconds.
\<close>

datatype route = Serve bytes | Redirect bytes | RouteUndeclared

definition RESERVED :: bytes where "RESERVED = ascii ''/.well-known/urma/''"

fun split_target :: "bytes \<Rightarrow> bytes \<times> bytes" where
  "split_target [] = ([], [])"
| "split_target (b # bs) = (if b = 63 \<or> b = 35 then ([], b # bs) else case split_target bs of (path, query) \<Rightarrow> (b # path, query))"

datatype lookup_result = Declared bytes | Absent

definition lookup :: "package \<Rightarrow> bytes \<Rightarrow> lookup_result" where
  "lookup package path =
     (if begins_with RESERVED path then Absent
      else case Package_resolve package path of
        FileResource f \<Rightarrow> Declared (fe_path f)
      | PinnedResource i \<Rightarrow> Declared (pi_path i)
      | Undeclared \<Rightarrow> Absent)"

definition route_of :: "package \<Rightarrow> bytes \<Rightarrow> route" where
  "route_of package target =
     (case split_target target of (path, query) \<Rightarrow>
      case lookup package path of
        Declared declared \<Rightarrow> Serve declared
      | Absent \<Rightarrow>
          if path = [] \<or> ends_with [SLASH] path then RouteUndeclared
          else (case lookup package (path @ [SLASH]) of
            Declared _ \<Rightarrow> Redirect (path @ [SLASH] @ query)
          | Absent \<Rightarrow> RouteUndeclared))"

definition standing :: "gateway_lib \<Rightarrow> bytes \<Rightarrow> bytes \<Rightarrow> resolution \<Rightarrow> u64 \<Rightarrow> refusal + bytes" where
  "standing lib host registry resolution tip =
     (case resolution of
        ResUnbound \<Rightarrow> Inl (Refusal_new UnboundName (host @ ascii '' is not bound in registry '' @ gl_txid_text lib registry))
      | ResSuspended \<Rightarrow>
          Inl (Refusal_new SuspendedName (host @ ascii '' is suspended by the approvers of registry '' @ gl_txid_text lib registry))
      | ResBound bound \<Rightarrow>
          (case b_target bound of
             Publication root \<Rightarrow>
               if b_expiry bound \<le> tip then
                 Inl (Refusal_new ExpiredName (host @ ascii '' expired at block '' @ ascii (dec (unat (b_expiry bound))) @
                   ascii '' (chain tip '' @ ascii (dec (unat tip)) @ ascii '') in registry '' @ gl_txid_text lib registry))
               else Inr root
           | _ \<Rightarrow> Inl (Refusal_new ReservedName
                 (host @ ascii '' is reserved in registry '' @ gl_txid_text lib registry @ ascii '' and names no publication''))))"

record freshness =
  fr_max_lag :: u64
  fr_max_age :: nat
  fr_retry :: nat

definition as_secs :: "nat \<Rightarrow> nat" where
  "as_secs d = d div 1000000000"

datatype scan_time = NeverScanned | ScannedAt nat | ArchiveView nat

datatype currency = Current | Behind bytes

definition judge :: "freshness \<Rightarrow> u64 \<Rightarrow> u64 \<Rightarrow> scan_time \<Rightarrow> nat \<Rightarrow> currency" where
  "judge fr height tip scan now =
     (case (case scan of
        NeverScanned \<Rightarrow> None
      | ScannedAt t \<Rightarrow> Some (t, ascii ''rescan'', ascii ''chain tip'')
      | ArchiveView t \<Rightarrow> Some (t, ascii ''operator view acquisition'', ascii ''operator-reported selected tip'')) of
        None \<Rightarrow> Behind (ascii ''no rescan has succeeded since the portal started'')
      | Some (acquired, activity, tip_label) \<Rightarrow>
          let age = now - acquired in
          if fr_max_age fr \<le> age then
            Behind (ascii ''the last successful '' @ activity @ ascii '' was '' @ ascii (dec (as_secs age)) @ ascii '' s ago; the bound is '' @
              ascii (dec (as_secs (fr_max_age fr))) @ ascii '' s'')
          else if height < tip \<and> fr_max_lag fr < tip - height then
            Behind (ascii ''the index is at height '' @ ascii (dec (unat height)) @ ascii '', '' @ ascii (dec (unat (tip - height))) @
              ascii '' blocks behind the '' @ tip_label @ ascii '' '' @ ascii (dec (unat tip)) @ ascii ''; the bound is '' @
              ascii (dec (unat (fr_max_lag fr))))
          else Current)"

definition freshness_refusal :: "freshness \<Rightarrow> bytes \<Rightarrow> bytes \<Rightarrow> refusal" where
  "freshness_refusal fr network cause =
     refusal_with (Refusal_new IndexBehind (ascii ''the '' @ network @ ascii '' names index is not current: '' @ cause))
       (''Retry-After'', ascii (dec (as_secs (fr_retry fr))))"


subsection \<open>Lookups\<close>

definition path_byte :: "u8 \<Rightarrow> bool" where
  "path_byte b \<longleftrightarrow> b \<noteq> 63 \<and> b \<noteq> 35"

lemma split_target_parts:
  "split_target target = (path, query) \<longleftrightarrow>
     target = path @ query \<and> (\<forall>b \<in> set path. path_byte b) \<and> (query = [] \<or> \<not> path_byte (hd query))"
proof (induction target arbitrary: path)
  case (Cons b bs)
  show ?case
  proof (cases "path_byte b")
    case True
    then have "split_target (b # bs) = (b # fst (split_target bs), snd (split_target bs))" by (simp add: path_byte_def split: prod.splits)
    with True Cons [of "tl path"] show ?thesis by (cases path) (auto simp: prod_eq_iff)
  next
    case False
    then show ?thesis by (cases path) (auto simp: path_byte_def)
  qed
qed auto

lemma resource_path_declared: "declared_in p r \<Longrightarrow> \<exists>d. resource_path r = Some d"
  by (auto simp: declared_in_def resource_path_def split: resource.splits)

lemma lookup_eq:
  "lookup p path = Declared d \<longleftrightarrow>
     \<not> begins_with RESERVED path \<and> declared_in p (Package_resolve p path) \<and> resource_path (Package_resolve p path) = Some d"
  using Package_resolve_sound [of p path]
  by (auto simp: lookup_def resource_path_def declared_in_def split: resource.splits)

lemma resolve_slash:
  assumes "Package_validate lib p = Inr ()" "Package_resolve p (path @ [SLASH]) \<noteq> Undeclared" "path \<noteq> []"
  shows "\<exists>c rest. path = SLASH # c # rest \<and> c \<noteq> SLASH"
proof -
  obtain b rel where b: "path = b # rel" using assms(3) by (cases path) auto
  with assms(2) have s: "b = SLASH" by (auto simp: Package_resolve_def wanted_of_def split: if_splits)
  let ?full = "rel @ [SLASH] @ ascii ''index.html''"
  have "wanted_of (path @ [SLASH]) = PathWanted ?full" using b s by (simp add: wanted_of_def)
  then have "path_resource p ?full \<noteq> Undeclared" using assms(2) by (simp add: Package_resolve_path)
  then have "validate_path lib ?full = Inr ()" using path_resource_sound declared_path_valid [OF assms(1)] by metis
  then have "hd ?full \<noteq> SLASH" using validate_path_ends by blast
  then show ?thesis using b s by (cases rel) auto
qed

text \<open>The bytes of a valid path end no target.\<close>

lemma validate_path_bytes:
  assumes "validate_path lib path = Inr ()" "b \<in> set path"
  shows "path_byte b"
proof -
  have "b = SLASH \<or> (\<exists>part \<in> set (split_byte SLASH path). b \<in> set part)" using split_byte_set [OF assms(2)] .
  then show ?thesis
  proof
    assume "\<exists>part \<in> set (split_byte SLASH path). b \<in> set part"
    then have "is_ascii_alphanumeric b \<or> b \<in> set (ascii ''._~-'')"
      using assms(1) by (auto simp: validate_path_def rfold_unit check_segment_def)
    then show ?thesis
      by (auto simp: path_byte_def ascii_def is_ascii_alphanumeric_def is_ascii_lowercase_def is_ascii_digit_def)
  qed (simp add: path_byte_def SLASH_def)
qed


subsection \<open>Properties\<close>

text \<open>A package of two documents.\<close>

definition ex_web_lib :: web_lib where
  "ex_web_lib = \<lparr>wl_sha256 = (\<lambda>_. replicate 32 7), wl_debug = (\<lambda>_. [])\<rparr>"

definition ex_file :: "bytes \<Rightarrow> file_entry" where
  "ex_file path = FileEntry_new ex_web_lib path (ascii ''text/html'') []"

definition ex_package :: package where
  "ex_package = \<lparr>pk_label = [], pk_entry = 1, pk_files = [ex_file (ascii ''a/index.html''), ex_file (ascii ''index.html'')], pk_pinned = []\<rparr>"

lemma ex_package_valid: "Package_validate ex_web_lib ex_package = Inr ()"
  by (simp add: Package_validate_eq ex_package_def ex_file_def FileEntry_new_def ex_web_lib_def web_validate_label_def WEB_LABEL_BYTES_def
      is_entry_mime_def ENTRY_MIME_def validate_path_def MAX_PATH_BYTES_def SLASH_def ascii_def check_segment_def
      is_ascii_alphanumeric_def is_ascii_lowercase_def validate_mime_def MAX_MIME_BYTES_def SEMICOLON_def check_token_def)

text \<open>
  C16: a redirect of a site leads, within the site, to a document. For a valid package, whatever target a
  request asks for, a redirect's location starts with one slash and another character than a slash, so it names no other host, and
  asking for it serves a file of the package without a further redirect.
\<close>
theorem redirect_is_served:
  assumes "Package_validate lib package = Inr ()" "route_of package target = Redirect location"
  shows "(\<exists>c rest. location = SLASH # c # rest \<and> c \<noteq> SLASH) \<and> (\<exists>declared. route_of package location = Serve declared)"
proof -
  obtain path query where t: "split_target target = (path, query)" by (cases "split_target target")
  then obtain d where l: "lookup package (path @ [SLASH]) = Declared d" "path \<noteq> []" and loc: "location = path @ [SLASH] @ query"
    using assms(2) by (auto simp: route_of_def split: lookup_result.splits if_splits)
  have "\<forall>b \<in> set (path @ [SLASH]). path_byte b" "query = [] \<or> \<not> path_byte (hd query)"
    using t by (auto simp: split_target_parts path_byte_def SLASH_def)
  then have "split_target location = (path @ [SLASH], query)" by (simp add: split_target_parts loc)
  then have "route_of package location = Serve d" using l by (simp add: route_of_def)
  moreover have "Package_resolve package (path @ [SLASH]) \<noteq> Undeclared" using l(1) by (auto simp: lookup_eq declared_in_def)
  from resolve_slash [OF assms(1) this l(2)] have "\<exists>c rest. location = SLASH # c # rest \<and> c \<noteq> SLASH" by (auto simp: loc)
  ultimately show ?thesis by blast
qed

theorem redirect_is_served_witness:
  "route_of ex_package (ascii ''/a?q'') = Redirect (ascii ''/a/?q'') \<and> (\<exists>declared. route_of ex_package (ascii ''/a/?q'') = Serve declared)"
proof -
  have "route_of ex_package (ascii ''/a?q'') = Redirect (ascii ''/a/?q'')"
    by (simp add: route_of_def ascii_def lookup_def begins_with_def RESERVED_def Package_resolve_def wanted_of_def SLASH_def ex_package_def
        ex_file_def FileEntry_new_def ends_with_def)
  with redirect_is_served [OF ex_package_valid this] show ?thesis by blast
qed

text \<open>
  Every file and every pinned object that a valid package declares outside the reserved paths is
  served when a request asks for its path, with any query or fragment behind it.
\<close>
theorem declared_path_served:
  assumes "Package_validate lib package = Inr ()"
    and "path \<in> fe_path ` set (pk_files package) \<union> pi_path ` set (pk_pinned package)"
    and "\<not> begins_with RESERVED (SLASH # path)" "query = [] \<or> hd query \<in> {63, 35}"
  shows "route_of package (SLASH # path @ query) = Serve path"
proof -
  obtain r where r: "declared_in package r" "resource_path r = Some path"
    using assms(2) by (fastforce simp: declared_in_def resource_path_def split: resource.splits)
  have "validate_path lib path = Inr ()" by (rule declared_path_valid [OF assms(1) r])
  then have "\<forall>b \<in> set (SLASH # path). path_byte b" using validate_path_bytes by (auto simp: path_byte_def SLASH_def)
  then have "split_target (SLASH # path @ query) = (SLASH # path, query)"
    unfolding split_target_parts using assms(4) by (auto simp: path_byte_def)
  moreover have "lookup package (SLASH # path) = Declared path"
    using r assms(3) by (simp add: lookup_eq resolve_own_path [OF assms(1) r])
  ultimately show ?thesis by (simp add: route_of_def)
qed

theorem declared_path_served_witness:
  "route_of ex_package (ascii ''/a/index.html#top'') = Serve (ascii ''a/index.html'')"
proof -
  have "route_of ex_package (SLASH # ascii ''a/index.html'' @ ascii ''#top'') = Serve (ascii ''a/index.html'')"
    by (rule declared_path_served [OF ex_package_valid])
      (simp_all add: ex_package_def ex_file_def FileEntry_new_def begins_with_def RESERVED_def ascii_def SLASH_def)
  then show ?thesis by (simp add: ascii_def SLASH_def)
qed

end
