(* ===== verification/Web_Store.thy ===== *)
theory Web_Store
  imports Web_Package_Codec
begin

section \<open>The store of publications (\<^verbatim>\<open>urma-web/src/store.rs\<close>)\<close>

text \<open>
  A client keeps what it has fetched in a directory: objects under the hexadecimal text of their SHA-256,
  transactions under their id, and a pointer for each publication. Whatever it reads back it verifies
  again: the transactions by their ids, the record by its author proof, the objects by their hashes.

  The world is the operating system and the content of every file, a path being the list of its
  components. The operating system answers what it likes when asked about a path, and may fail at every
  step of a read or a write (\<open>Index_File\<close>). Text is the list of its UTF-8 bytes. Hexadecimal text,
  JSON, the texts of ids and keys and consensus encoding are parameters.
\<close>

type_synonym store_path = "bytes list"

record 's store_world =
  sw_state :: 's
  sw_files :: "store_path \<Rightarrow> bytes option"

datatype lstat = Regular u64 | NotRegular | NotFound | StatFailed

record 's store_os =
  so_fs :: "store_path \<Rightarrow> 's file_system"
  so_exists :: "store_path \<Rightarrow> 's \<Rightarrow> bool option \<times> 's" \<comment> \<open>\<open>try_exists\<close>\<close>
  so_length :: "store_path \<Rightarrow> 's \<Rightarrow> u64 option \<times> 's" \<comment> \<open>\<open>fs::metadata\<close>\<close>
  so_lstat :: "store_path \<Rightarrow> 's \<Rightarrow> lstat \<times> 's" \<comment> \<open>\<open>fs::symlink_metadata\<close>\<close>
  so_regular :: "store_path \<Rightarrow> 's \<Rightarrow> bool option \<times> 's" \<comment> \<open>metadata of an open file\<close>
  so_mkdir :: "store_path \<Rightarrow> 's \<Rightarrow> unit option \<times> 's" \<comment> \<open>\<open>create_dir_all\<close>\<close>

type_synonym ('s, 'a) store_act = "('s store_world, web_error, 'a) act"

datatype acquisition_source = LocalNodeOperator

record pointer =
  pt_format :: bytes
  pt_network :: bytes
  pt_root :: bytes
  pt_commit :: bytes
  pt_tip_height :: "u64 option"
  pt_tip_hash :: "bytes option"
  pt_source :: "acquisition_source option"

record 'info store_lib =
  sl_web :: web_lib
  sl_envelope :: "'info envelope_lib"
  sl_hex :: "bytes \<Rightarrow> bytes"
  sl_txid_text :: "bytes \<Rightarrow> bytes"
  sl_txid_parse :: "bytes \<Rightarrow> bytes option"
  sl_author_text :: "bytes \<Rightarrow> bytes"
  sl_serialize :: "transaction \<Rightarrow> bytes"
  sl_deserialize :: "bytes \<Rightarrow> transaction option"
  sl_pointer_json :: "pointer \<Rightarrow> bytes option"
  sl_pointer_parse :: "bytes \<Rightarrow> pointer option"
  sl_show :: "web_error \<Rightarrow> string"

record stored_file =
  sf_path :: bytes
  sf_mime :: bytes
  sf_sha256 :: bytes
  sf_length :: u64

record stored_pin =
  sp_path :: bytes
  sp_mime :: bytes
  sp_root_txid :: bytes
  sp_sha256 :: bytes
  sp_length :: u64

record stored_publication =
  su_format :: bytes
  su_network :: bytes
  su_root :: bytes
  su_commit :: bytes
  su_author :: bytes
  su_label :: bytes
  su_entry :: bytes
  su_payload_sha256 :: bytes
  su_payload_length :: u64
  su_files :: "stored_file list"
  su_pinned :: "stored_pin list"
  su_tip_height :: "u64 option"
  su_tip_hash :: "bytes option"
  su_source :: "acquisition_source option"

record web_verified =
  wv_pointer :: pointer
  wv_author :: bytes
  wv_payload_sha256 :: bytes
  wv_package :: package
  wv_pinned_lengths :: "u64 list"

datatype served = ServedResource bytes bytes bytes | ServedUndeclared \<comment> \<open>type, SHA-256 text, bytes\<close>

definition STORE_FORMAT :: bytes where "STORE_FORMAT = ascii ''URMA-WEB-STORE-2''"
definition OPERATOR_FORMAT :: bytes where "OPERATOR_FORMAT = ascii ''URMA-WEB-STORE-3''"
definition MAX_POINTER_BYTES :: nat where "MAX_POINTER_BYTES = 64 * 1024"
definition MAX_TRANSACTION_BYTES :: nat where "MAX_TRANSACTION_BYTES = 4 * 1024 * 1024"
definition STORE_OBJECT_BYTES :: nat where "STORE_OBJECT_BYTES = 256 * 1024 * 1024"

definition shown :: "bytes \<Rightarrow> string" where
  "shown content = map (\<lambda>b. char_of (unat b)) content"

definition is_hex_digit :: "u8 \<Rightarrow> bool" where
  "is_hex_digit b \<longleftrightarrow> is_ascii_digit b \<or> (65 \<le> b \<and> b \<le> 70) \<or> (97 \<le> b \<and> b \<le> 102)"

definition store_key_ok :: "bytes \<Rightarrow> bool" where
  "store_key_ok key \<longleftrightarrow> length key = 64 \<and> (\<forall>b \<in> set key. is_hex_digit b)"

definition check_component :: "'info store_lib \<Rightarrow> bytes \<Rightarrow> web_error + unit" where
  "check_component lib key =
     ensure (key \<noteq> [] \<and> length key \<le> 64 \<and> (\<forall>b \<in> set key. is_ascii_alphanumeric b \<or> b = 45))
       (WebInvalid (''store key must be alphanumeric or hyphen: '' @ wl_debug (sl_web lib) key)) (Inr ())"

definition check_acquisition :: "pointer \<Rightarrow> web_error + unit" where
  "check_acquisition p =
     (if pt_format p = STORE_FORMAT then
        ensure (pt_source p = None \<and> pt_tip_height p \<noteq> None \<and> pt_tip_hash p \<noteq> None)
          (WebInvalid ''legacy store metadata requires both tips and no acquisition source'') (Inr ())
      else if pt_format p = OPERATOR_FORMAT then
        ensure (pt_source p = Some LocalNodeOperator \<and> pt_tip_height p = None \<and> pt_tip_hash p = None)
          (WebInvalid ''operator store metadata requires its acquisition source and no claimed tip'') (Inr ())
      else Inl (WebInvalid ''unsupported store format''))"

subsection \<open>Calls of the operating system\<close>

definition os_call :: "('s \<Rightarrow> 'a option \<times> 's) \<Rightarrow> ('s, 'a) store_act" where
  "os_call f = (\<lambda>w. case f (sw_state w) of
     (None, s) \<Rightarrow> (Inl WebIo, w\<lparr>sw_state := s\<rparr>) | (Some x, s) \<Rightarrow> (Inr x, w\<lparr>sw_state := s\<rparr>))"

definition on_file :: "store_path \<Rightarrow> ('s world, io_error, 'a) act \<Rightarrow> ('s, 'a) store_act" where
  "on_file path m = (\<lambda>w. case m \<lparr>w_state = sw_state w, w_file = sw_files w path\<rparr> of
     (r, w') \<Rightarrow> (map_err WebFiles r, w\<lparr>sw_state := w_state w', sw_files := (sw_files w)(path := w_file w')\<rparr>))"

definition store_read :: "'s store_os \<Rightarrow> store_path \<Rightarrow> nat \<Rightarrow> ('s, bytes) store_act" where
  "store_read os path limit = on_file path (read_bounded (so_fs os path) limit)"

definition store_write :: "'s store_os \<Rightarrow> store_path \<Rightarrow> bytes \<Rightarrow> bool \<Rightarrow> ('s, unit) store_act" where
  "store_write os path bs replace =
     on_file path (if replace then write_replace (so_fs os path) bs else write_new (so_fs os path) bs)"

text \<open>\<^verbatim>\<open>urma_io::read_regular\<close>: the file is opened without following links and must be a regular file.\<close>

definition read_regular :: "'s store_os \<Rightarrow> store_path \<Rightarrow> nat \<Rightarrow> ('s, bytes) store_act" where
  "read_regular os path limit = (\<lambda>w.
     let (opened, s1) = fs_open (so_fs os path) (sw_state w) in
     case (if opened then sw_files w path else None) of
       None \<Rightarrow> (Inl (WebFiles Io), w\<lparr>sw_state := s1\<rparr>)
     | Some content \<Rightarrow>
         let (regular, s2) = so_regular os path s1 in
         if regular \<noteq> Some True then (Inl (WebFiles Io), w\<lparr>sw_state := s2\<rparr>)
         else let (readable, s3) = fs_read (so_fs os path) s2 in
           (map_err WebFiles (read_into readable limit content), w\<lparr>sw_state := s3\<rparr>))"

subsection \<open>Objects\<close>

definition store_open :: "'s store_os \<Rightarrow> store_path \<Rightarrow> ('s, unit) store_act" where
  "store_open os root =
     ibind (os_call (so_mkdir os (root @ [ascii ''objects'']))) (\<lambda>_.
     ibind (os_call (so_mkdir os (root @ [ascii ''publications'']))) (\<lambda>_.
     os_call (so_mkdir os (root @ [ascii ''tx'']))))"

definition object_path :: "store_path \<Rightarrow> bytes \<Rightarrow> web_error + store_path" where
  "object_path root sha256 =
     ensure (store_key_ok sha256) (WebInvalid ''store object key must be 64 hex digits'') (Inr (root @ [ascii ''objects'', sha256]))"

definition digest_text :: "'info store_lib \<Rightarrow> bytes \<Rightarrow> bytes" where
  "digest_text lib bs = sl_hex lib (wl_sha256 (sl_web lib) bs)"

definition put_object :: "'s store_os \<Rightarrow> 'info store_lib \<Rightarrow> store_path \<Rightarrow> bytes \<Rightarrow> ('s, bytes) store_act" where
  "put_object os lib root bs =
     (let sha256 = digest_text lib bs in
      ibind (ilift (object_path root sha256)) (\<lambda>path.
      ibind (os_call (so_exists os path)) (\<lambda>exists.
      ibind (if \<not> exists then iret False
             else ibind (os_call (so_length os path)) (\<lambda>len.
               ibind (ilift (web_try_from (length bs))) (\<lambda>n.
               if len \<noteq> n then iret False
               else ibind (store_read os path (length bs)) (\<lambda>content. iret (content = bs))))) (\<lambda>same.
      if same then iret sha256
      else ibind (store_write os path bs True) (\<lambda>_. iret sha256)))))"

definition disagrees :: "bytes \<Rightarrow> web_error" where
  "disagrees sha256 = WebInvalid (''immutable object '' @ shown sha256 @ '' disagrees with new bytes'')"

definition put_object_immutable :: "'s store_os \<Rightarrow> 'info store_lib \<Rightarrow> store_path \<Rightarrow> bytes \<Rightarrow> ('s, bytes) store_act" where
  "put_object_immutable os lib root bs =
     ibind (icheck (length bs \<le> STORE_OBJECT_BYTES) (WebInvalid ''store object exceeds the byte limit'')) (\<lambda>_.
     let sha256 = digest_text lib bs in
      ibind (ilift (object_path root sha256)) (\<lambda>path.
      ibind (os_call (\<lambda>s. case so_lstat os path s of (r, s) \<Rightarrow> (Some r, s))) (\<lambda>metadata.
      ibind (case metadata of
          Regular len \<Rightarrow>
            ibind (ilift (web_try_from (length bs))) (\<lambda>n.
            ibind (icheck (len = n) (disagrees sha256)) (\<lambda>_.
            ibind (read_regular os path (length bs)) (\<lambda>existing.
            icheck (existing = bs) (disagrees sha256))))
        | NotRegular \<Rightarrow> ithrow (WebInvalid (''immutable object '' @ shown sha256 @ '' must be a regular file''))
        | NotFound \<Rightarrow> store_write os path bs False
        | StatFailed \<Rightarrow> ithrow WebIo) (\<lambda>_.
      iret sha256))))"

definition store_object :: "'s store_os \<Rightarrow> 'info store_lib \<Rightarrow> store_path \<Rightarrow> bytes \<Rightarrow> nat \<Rightarrow> ('s, bytes) store_act" where
  "store_object os lib root sha256 limit =
     ibind (ilift (object_path root sha256)) (\<lambda>path.
     ibind (store_read os path limit) (\<lambda>bs.
     ibind (icheck (digest_text lib bs = to_ascii_lowercase sha256)
       (WebInvalid (''store object '' @ shown sha256 @ '' failed re-verification''))) (\<lambda>_.
     iret bs)))"

definition has_object :: "'s store_os \<Rightarrow> store_path \<Rightarrow> bytes \<Rightarrow> ('s, bool) store_act" where
  "has_object os root sha256 = ibind (ilift (object_path root sha256)) (\<lambda>path. os_call (so_exists os path))"

subsection \<open>Transactions\<close>

definition transaction_path :: "store_path \<Rightarrow> bytes \<Rightarrow> web_error + store_path" where
  "transaction_path root txid =
     ensure (store_key_ok txid) (WebInvalid ''store transaction key must be a 64 hex digit TXID'')
     (Inr (root @ [ascii ''tx'', txid @ ascii ''.bin'']))"

definition id_text :: "'info store_lib \<Rightarrow> transaction \<Rightarrow> bytes" where
  "id_text lib tx = sl_txid_text lib (e_txid (sl_envelope lib) tx)"

definition put_transaction :: "'s store_os \<Rightarrow> 'info store_lib \<Rightarrow> store_path \<Rightarrow> transaction \<Rightarrow> ('s, bytes) store_act" where
  "put_transaction os lib root tx =
     (let txid = id_text lib tx; bs = sl_serialize lib tx in
      ibind (ilift (transaction_path root txid)) (\<lambda>path.
      ibind (os_call (so_exists os path)) (\<lambda>exists.
      if exists then
        ibind (store_read os path MAX_TRANSACTION_BYTES) (\<lambda>existing.
        ibind (icheck (existing = bs) (WebInvalid (''stored transaction '' @ shown txid @ '' disagrees with new bytes''))) (\<lambda>_.
        iret txid))
      else ibind (store_write os path bs False) (\<lambda>_. iret txid))))"

definition store_transaction :: "'s store_os \<Rightarrow> 'info store_lib \<Rightarrow> store_path \<Rightarrow> bytes \<Rightarrow> ('s, transaction) store_act" where
  "store_transaction os lib root txid =
     ibind (ilift (transaction_path root txid)) (\<lambda>path.
     ibind (store_read os path MAX_TRANSACTION_BYTES) (\<lambda>bs.
     ibind (ilift (ok_or WebTransaction (sl_deserialize lib bs))) (\<lambda>tx.
     ibind (icheck (id_text lib tx = txid) (WebInvalid (''stored transaction '' @ shown txid @ '' failed re-verification''))) (\<lambda>_.
     iret tx))))"

subsection \<open>Pointers\<close>

definition pointer_directory :: "store_path \<Rightarrow> bytes \<Rightarrow> store_path" where
  "pointer_directory root network = root @ [ascii ''publications'', network]"

definition pointer_path :: "'info store_lib \<Rightarrow> store_path \<Rightarrow> bytes \<Rightarrow> bytes \<Rightarrow> web_error + store_path" where
  "pointer_path lib root network txid =
     rbind (check_component lib network) (\<lambda>_.
     ensure (store_key_ok txid) (WebInvalid ''publication root must be a 64 hex digit TXID'')
     (Inr (pointer_directory root network @ [txid @ ascii ''.json''])))"

definition put_pointer :: "'s store_os \<Rightarrow> 'info store_lib \<Rightarrow> store_path \<Rightarrow> pointer \<Rightarrow> ('s, unit) store_act" where
  "put_pointer os lib root p =
     ibind (ilift (check_acquisition p)) (\<lambda>_.
     ibind (icheck (store_key_ok (pt_commit p)) (WebInvalid ''pointer commit must be a TXID'')) (\<lambda>_.
     ibind (ilift (pointer_path lib root (pt_network p) (pt_root p))) (\<lambda>path.
     ibind (os_call (so_mkdir os (pointer_directory root (pt_network p)))) (\<lambda>_.
     ibind (ilift (ok_or WebJson (sl_pointer_json lib p))) (\<lambda>bs.
     store_write os path bs True)))))"

definition store_pointer :: "'s store_os \<Rightarrow> 'info store_lib \<Rightarrow> store_path \<Rightarrow> bytes \<Rightarrow> bytes \<Rightarrow> ('s, pointer) store_act" where
  "store_pointer os lib root network txid =
     ibind (ilift (pointer_path lib root network txid)) (\<lambda>path.
     ibind (store_read os path MAX_POINTER_BYTES) (\<lambda>bs.
     ibind (ilift (ok_or WebJson (sl_pointer_parse lib bs))) (\<lambda>p.
     ibind (ilift (check_acquisition p)) (\<lambda>_.
     ibind (icheck (pt_network p = network \<and> pt_root p = txid) (WebInvalid ''stored pointer names another network or root'')) (\<lambda>_.
     iret p)))))"

subsection \<open>Publications\<close>

definition verify_pin :: "'s store_os \<Rightarrow> 'info store_lib \<Rightarrow> store_path \<Rightarrow> pinned_entry \<Rightarrow> ('s, u64) store_act" where
  "verify_pin os lib root pin =
     (let sha256 = sl_hex lib (pi_payload_sha256 pin);
          whose = shown (pi_path pin) @ '' ('' @ shown (sl_txid_text lib (pi_root_txid pin)) @ '')'' in
      ibind (has_object os root sha256) (\<lambda>present.
      ibind (icheck present (WebInvalid (''declared set incomplete in the store: pinned object '' @ whose @
        '' is missing; fetch the publication again''))) (\<lambda>_.
      ibind (imap_err (\<lambda>e. WebInvalid (''declared set corrupt in the store: pinned object '' @ whose @
          '' failed re-verification ('' @ sl_show lib e @ ''); fetch the publication again''))
        (store_object os lib root sha256 STORE_OBJECT_BYTES)) (\<lambda>bs.
      ilift (web_try_from (length bs))))))"

fun verify_pins :: "'s store_os \<Rightarrow> 'info store_lib \<Rightarrow> store_path \<Rightarrow> pinned_entry list \<Rightarrow> ('s, u64 list) store_act" where
  "verify_pins os lib root [] = iret []"
| "verify_pins os lib root (pin # pins) =
     ibind (verify_pin os lib root pin) (\<lambda>n. ibind (verify_pins os lib root pins) (\<lambda>ns. iret (n # ns)))"

definition store_publication ::
  "'s store_os \<Rightarrow> 'info store_lib \<Rightarrow> store_path \<Rightarrow> bytes \<Rightarrow> bytes \<Rightarrow> nat \<Rightarrow> ('s, web_verified) store_act" where
  "store_publication os lib root network txid max_payload_bytes =
     ibind (store_pointer os lib root network txid) (\<lambda>p.
     ibind (store_transaction os lib root txid) (\<lambda>reveal.
     ibind (icheck (length (tx_input reveal) = 1) (WebInvalid ''root reveal must spend one commit'')) (\<lambda>_.
     let commit_txid = sl_txid_text lib (ti_txid (tx_input reveal ! 0)) in
     ibind (icheck (commit_txid = pt_commit p) (WebInvalid ''pointer commit differs from the reveal's commit'')) (\<lambda>_.
     ibind (store_transaction os lib root commit_txid) (\<lambda>commit.
     ibind (ilift (ok_or WebHash (sl_txid_parse lib txid))) (\<lambda>expected.
     ibind (ilift (map_err WebProtocol (VerifiedRecord_verify (sl_envelope lib) expected reveal commit))) (\<lambda>verified.
     ibind (ilift (map_err WebProtocol (VerifiedRecord_decode verified))) (\<lambda>record.
     case record of
       Root manifest \<Rightarrow>
         ibind (icheck (rm_profile manifest = WEB_PROFILE) (WebInvalid (shown txid @ '' is not an URMAWEB1 publication''))) (\<lambda>_.
         let payload_sha256 = sl_hex lib (rm_payload_hash manifest) in
         ibind (store_object os lib root payload_sha256 max_payload_bytes) (\<lambda>payload.
         ibind (ilift (web_try_from (length payload))) (\<lambda>n.
         ibind (icheck (n = rm_length manifest) (WebInvalid ''package length differs from the root manifest'')) (\<lambda>_.
         ibind (ilift (Package_decode (sl_web lib) payload)) (\<lambda>package.
         ibind (verify_pins os lib root (pk_pinned package)) (\<lambda>lengths.
         iret \<lparr>wv_pointer = p, wv_author = sl_author_text lib (vr_author verified), wv_payload_sha256 = payload_sha256,
               wv_package = package, wv_pinned_lengths = lengths\<rparr>))))))
     | _ \<Rightarrow> ithrow (WebInvalid (shown txid @ '' is not a root manifest''))))))))))"

definition store_summary :: "'info store_lib \<Rightarrow> web_verified \<Rightarrow> web_error + stored_publication" where
  "store_summary lib v =
     (let p = wv_pointer v; package = wv_package v in
      rbind (check_acquisition p) (\<lambda>_.
      rbind (rtraverse (\<lambda>f. rbind (web_try_from (length (fe_bytes f))) (\<lambda>n.
          Inr \<lparr>sf_path = fe_path f, sf_mime = fe_mime f, sf_sha256 = sl_hex lib (fe_sha256 f), sf_length = n\<rparr>)) (pk_files package)) (\<lambda>files.
      let pinned = map (\<lambda>(i, n). \<lparr>sp_path = pi_path i, sp_mime = pi_mime i, sp_root_txid = sl_txid_text lib (pi_root_txid i),
          sp_sha256 = sl_hex lib (pi_payload_sha256 i), sp_length = n\<rparr>) (zip (pk_pinned package) (wv_pinned_lengths v)) in
      rbind (rfold (\<lambda>total f. rbind (web_try_from (length (fe_bytes f))) (\<lambda>n.
          ok_or (WebInvalid ''payload length overflow'') (checked_add (total :: u64) n))) 0 (pk_files package)) (\<lambda>_.
      rbind (Package_entry package) (\<lambda>entry.
      rbind (Package_encode (sl_web lib) package) (\<lambda>payload.
      rbind (web_try_from (length payload)) (\<lambda>n.
      Inr \<lparr>su_format = pt_format p, su_network = pt_network p, su_root = pt_root p, su_commit = pt_commit p,
           su_author = wv_author v, su_label = pk_label package, su_entry = fe_path entry,
           su_payload_sha256 = wv_payload_sha256 v, su_payload_length = n, su_files = files, su_pinned = pinned,
           su_tip_height = pt_tip_height p, su_tip_hash = pt_tip_hash p, su_source = pt_source p\<rparr>)))))))"

definition store_serve :: "'s store_os \<Rightarrow> 'info store_lib \<Rightarrow> store_path \<Rightarrow> web_verified \<Rightarrow> bytes \<Rightarrow> ('s, served) store_act" where
  "store_serve os lib root v url_path =
     (case Package_resolve (wv_package v) url_path of
        FileResource f \<Rightarrow> iret (ServedResource (fe_mime f) (sl_hex lib (fe_sha256 f)) (fe_bytes f))
      | PinnedResource i \<Rightarrow>
          (let sha256 = sl_hex lib (pi_payload_sha256 i) in
           ibind (store_object os lib root sha256 STORE_OBJECT_BYTES) (\<lambda>bs. iret (ServedResource (pi_mime i) sha256 bs)))
      | Undeclared \<Rightarrow> iret ServedUndeclared)"

end
