(* ===== verification/Web_Store_Properties.thy ===== *)
theory Web_Store_Properties
  imports Web_Store Envelope_Codec
begin

section \<open>What the store gives back\<close>

text \<open>
  Reading changes no file; the operations that write keep every object under its hash and every transaction
  under its id; and what is served was signed by the author of the publication, whatever has
  happened to the files in between.
\<close>

subsection \<open>Reads\<close>

definition reads :: "('s, 'a) store_act \<Rightarrow> bool" where
  "reads m \<longleftrightarrow> (\<forall>w. sw_files (snd (m w)) = sw_files w)"

lemma readsD: "reads m \<Longrightarrow> m w = (r, w') \<Longrightarrow> sw_files w' = sw_files w"
  by (metis reads_def snd_conv)

lemma reads_bind: "reads m \<Longrightarrow> (\<And>x. reads (k x)) \<Longrightarrow> reads (ibind m k)"
  unfolding reads_def ibind_def by (auto split: prod.splits sum.splits) (metis snd_conv)+

lemma reads_lift: "reads (ilift r)" "reads (iret x)" "reads (ithrow e)" "reads (icheck c e)"
  by (auto simp: reads_def ilift_def iret_def ithrow_def icheck_def)

lemma reads_call: "reads (os_call f)"
  by (auto simp: reads_def os_call_def split: prod.splits option.splits)

lemma read_bounded_keeps: "w_file (snd (read_bounded fs limit w)) = w_file w"
  by (auto simp: read_bounded_def Let_def split: prod.splits option.splits)

lemma reads_read:
  fixes os :: "'s store_os"
  shows "reads (store_read os path limit)"
  unfolding reads_def
proof (intro allI)
  fix w :: "'s store_world"
  obtain r w' where e: "read_bounded (so_fs os path) limit \<lparr>w_state = sw_state w, w_file = sw_files w path\<rparr> = (r, w')"
    by fastforce
  then have "w_file w' = sw_files w path"
    using read_bounded_keeps [of "so_fs os path" limit "\<lparr>w_state = sw_state w, w_file = sw_files w path\<rparr>"] by simp
  with e show "sw_files (snd (store_read os path limit w)) = sw_files w"
    by (simp add: store_read_def on_file_def)
qed

lemma reads_regular: "reads (read_regular os path limit)"
  by (auto simp: reads_def read_regular_def Let_def split: prod.splits option.splits)

lemma reads_imap: "reads m \<Longrightarrow> reads (imap_err f m)"
  by (auto simp: reads_def imap_err_def split: prod.splits) (metis snd_conv)

lemma reads_if: "(c \<Longrightarrow> reads m) \<Longrightarrow> (\<not> c \<Longrightarrow> reads n) \<Longrightarrow> reads (if c then m else n)"
  by simp

lemmas reads_rules = reads_bind reads_if reads_lift reads_call reads_read reads_regular reads_imap

lemma reads_object: "reads (store_object os lib root sha256 limit)"
  unfolding store_object_def by (intro reads_rules)

lemma reads_transaction: "reads (store_transaction os lib root txid)"
  unfolding store_transaction_def by (intro reads_rules)

text \<open>What a read returns is the content of the file.\<close>

lemma store_read_content: "store_read os path limit w = (Inr bs, w') \<Longrightarrow> sw_files w path = Some bs"
  by (auto simp: store_read_def on_file_def read_bounded_def Let_def map_err_def dest!: read_into_content
      split: prod.splits sum.splits option.splits if_splits)

subsection \<open>Writes\<close>

lemma store_write_files:
  assumes "store_write os path bs replace w = (r, w')"
  shows "sw_files w' = sw_files w \<or> (sw_files w' = (sw_files w)(path := Some bs) \<and> (replace \<or> sw_files w path = None))"
    and "r = Inr () \<Longrightarrow> sw_files w' path = Some bs"
  using assms
  by (auto simp: store_write_def on_file_def write_replace_def write_new_def write_atomic_def Let_def map_err_def
      split: prod.splits option.splits write_step.splits if_splits)

text \<open>
  An action that writes at most one file. \<open>P path content old\<close> says what may be written where, over what
  the file held before.
\<close>

definition writes :: "(store_path \<Rightarrow> bytes \<Rightarrow> bytes option \<Rightarrow> bool) \<Rightarrow> ('s, 'a) store_act \<Rightarrow> bool" where
  "writes P m \<longleftrightarrow> (\<forall>w. sw_files (snd (m w)) = sw_files w \<or>
     (\<exists>path content. P path content (sw_files w path) \<and> sw_files (snd (m w)) = (sw_files w)(path := Some content)))"

lemma writesD:
  "writes P m \<Longrightarrow> m w = (r, w') \<Longrightarrow> sw_files w' = sw_files w \<or>
     (\<exists>path content. P path content (sw_files w path) \<and> sw_files w' = (sw_files w)(path := Some content))"
  unfolding writes_def by (metis snd_conv)

lemma writes_reads: "reads m \<Longrightarrow> writes P m"
  by (simp add: reads_def writes_def)

lemma writes_after_reads:
  fixes m :: "('s, 'a) store_act"
  assumes "reads m" "\<And>w x w'. m w = (Inr x, w') \<Longrightarrow> writes P (k x)"
  shows "writes P (ibind m k)"
  unfolding writes_def
proof (intro allI)
  fix w :: "'s store_world"
  obtain r w' where m: "m w = (r, w')" by fastforce
  then have same: "sw_files w' = sw_files w" using readsD [OF assms(1)] by simp
  show "sw_files (snd (ibind m k w)) = sw_files w \<or> (\<exists>path content. P path content (sw_files w path) \<and>
      sw_files (snd (ibind m k w)) = (sw_files w)(path := Some content))"
  proof (cases r)
    case (Inr x)
    then show ?thesis using assms(2) m same unfolding writes_def ibind_def by (metis (no_types, lifting) case_prod_conv sum.case(2))
  qed (simp add: ibind_def m same)
qed

lemma writes_then_reads:
  assumes "writes P m" "\<And>x. reads (k x)"
  shows "writes P (ibind m k)"
  unfolding writes_def
proof (intro allI)
  fix w
  have "sw_files (snd (ibind m k w)) = sw_files (snd (m w))"
    using assms(2) by (auto simp: ibind_def reads_def split: prod.splits sum.splits)
  then show "sw_files (snd (ibind m k w)) = sw_files w \<or> (\<exists>path content. P path content (sw_files w path) \<and>
      sw_files (snd (ibind m k w)) = (sw_files w)(path := Some content))"
    using assms(1) by (simp add: writes_def)
qed

lemma writes_write: "(\<And>old. replace \<or> old = None \<Longrightarrow> P path bs old) \<Longrightarrow> writes P (store_write os path bs replace)"
  unfolding writes_def using store_write_files(1) by (metis prod.collapse)

text \<open>What the store writes: objects under their hash, new transactions under their id, and pointers.\<close>

definition store_entry :: "'info store_lib \<Rightarrow> store_path \<Rightarrow> store_path \<Rightarrow> bytes \<Rightarrow> bytes option \<Rightarrow> bool" where
  "store_entry lib root path content old \<longleftrightarrow>
     path = root @ [ascii ''objects'', digest_text lib content] \<or>
     (\<exists>tx. path = root @ [ascii ''tx'', id_text lib tx @ ascii ''.bin''] \<and> content = sl_serialize lib tx \<and> old = None) \<or>
     (\<exists>network name. path = root @ [ascii ''publications'', network, name])"

lemma object_path_Inr: "object_path root key = Inr path \<longleftrightarrow> store_key_ok key \<and> path = root @ [ascii ''objects'', key]"
  by (auto simp: object_path_def)

lemma transaction_path_Inr:
  "transaction_path root txid = Inr path \<longleftrightarrow> store_key_ok txid \<and> path = root @ [ascii ''tx'', txid @ ascii ''.bin'']"
  by (auto simp: transaction_path_def)

lemma writes_if: "(c \<Longrightarrow> writes P m) \<Longrightarrow> (\<not> c \<Longrightarrow> writes P n) \<Longrightarrow> writes P (if c then m else n)"
  by simp

lemma writes_path: "(\<And>path. r = Inr path \<Longrightarrow> writes P (k path)) \<Longrightarrow> writes P (ibind (ilift r) k)"
  by (rule writes_after_reads, rule reads_lift) (simp add: ilift_def)

lemma writes_check: "writes P (k ()) \<Longrightarrow> writes P (ibind (icheck c e) k)"
  by (rule writes_after_reads) (auto simp: reads_rules)

lemma writes_call: "(\<And>x. writes P (k x)) \<Longrightarrow> writes P (ibind (os_call f) k)"
  by (rule writes_after_reads) (auto simp: reads_rules)

lemma writes_put_object: "writes (store_entry lib root) (put_object os lib root bs)"
  unfolding put_object_def Let_def
  apply (rule writes_path, rule writes_call, rule writes_after_reads, intro reads_rules)
  apply (rule writes_if, rule writes_reads, intro reads_rules, rule writes_then_reads)
   apply (rule writes_write, simp add: object_path_Inr store_entry_def)
  apply (intro reads_rules)
  done

lemma writes_put_object_immutable: "writes (store_entry lib root) (put_object_immutable os lib root bs)"
  unfolding put_object_immutable_def Let_def
  apply (rule writes_check, rule writes_path, rule writes_call, rule writes_then_reads)
   apply (auto split: lstat.split simp: object_path_Inr store_entry_def intro!: writes_reads writes_write intro: reads_rules)
  done

lemma writes_put_transaction: "writes (store_entry lib root) (put_transaction os lib root tx)"
  unfolding put_transaction_def Let_def
  apply (rule writes_path, rule writes_call, rule writes_if)
   apply (rule writes_reads, intro reads_rules)
  apply (rule writes_then_reads, rule writes_write)
   apply (auto simp: transaction_path_Inr store_entry_def intro: reads_rules)
  done

lemma pointer_path_Inr:
  "pointer_path lib root network txid = Inr path \<Longrightarrow> path = root @ [ascii ''publications'', network, txid @ ascii ''.json'']"
  by (auto simp: pointer_path_def pointer_directory_def)

lemma writes_put_pointer: "writes (store_entry lib root) (put_pointer os lib root p)"
  unfolding put_pointer_def
  apply (rule writes_path, rule writes_check, rule writes_path, rule writes_call, rule writes_path, rule writes_write)
  apply (auto dest: pointer_path_Inr simp: store_entry_def)
  done

lemma reads_open: "reads (store_open os root)"
  unfolding store_open_def by (intro reads_rules)

lemma reads_has_object: "reads (has_object os root sha256)"
  unfolding has_object_def by (intro reads_rules)

lemma reads_pointer: "reads (store_pointer os lib root network txid)"
  unfolding store_pointer_def by (intro reads_rules)

lemma reads_pins: "reads (verify_pins os lib root pins)"
  by (induction pins) (simp_all add: verify_pin_def Let_def, (intro reads_rules reads_has_object reads_object | assumption)+)

lemma reads_publication: "reads (store_publication os lib root network txid limit)"
  unfolding store_publication_def Let_def
  by (intro reads_rules reads_pointer reads_transaction)
    (auto split: multipart_record.split intro!: reads_rules reads_object reads_pins)

lemma reads_serve: "reads (store_serve os lib root v url)"
  unfolding store_serve_def Let_def by (auto split: resource.split intro!: reads_rules reads_object)

subsection \<open>Histories of a store\<close>

text \<open>
  One operation on the store, whatever the operating system does during it and whether it succeeds or not.
  Between the operations the state of the operating system changes as it likes.
\<close>

inductive store_step :: "'info store_lib \<Rightarrow> store_path \<Rightarrow> 's store_world \<Rightarrow> 's store_world \<Rightarrow> bool"
  for lib :: "'info store_lib" and root :: store_path
  where
  opens: "store_open os root w = (r, w') \<Longrightarrow> store_step lib root w w'"
| puts_object: "put_object os lib root bs w = (r, w') \<Longrightarrow> store_step lib root w w'"
| puts_object_immutable: "put_object_immutable os lib root bs w = (r, w') \<Longrightarrow> store_step lib root w w'"
| puts_transaction: "put_transaction os lib root tx w = (r, w') \<Longrightarrow> store_step lib root w w'"
| puts_pointer: "put_pointer os lib root p w = (r, w') \<Longrightarrow> store_step lib root w w'"
| reads_an_object: "store_object os lib root sha256 limit w = (r, w') \<Longrightarrow> store_step lib root w w'"
| asks_for_object: "has_object os root sha256 w = (r, w') \<Longrightarrow> store_step lib root w w'"
| reads_a_transaction: "store_transaction os lib root txid w = (r, w') \<Longrightarrow> store_step lib root w w'"
| reads_a_pointer: "store_pointer os lib root network txid w = (r, w') \<Longrightarrow> store_step lib root w w'"
| verifies: "store_publication os lib root network txid limit w = (r, w') \<Longrightarrow> store_step lib root w w'"
| serves: "store_serve os lib root v url w = (r, w') \<Longrightarrow> store_step lib root w w'"
| passes: "store_step lib root w (w\<lparr>sw_state := s\<rparr>)"

inductive store_steps :: "'info store_lib \<Rightarrow> store_path \<Rightarrow> 's store_world \<Rightarrow> 's store_world \<Rightarrow> bool"
  for lib :: "'info store_lib" and root :: store_path
  where
  none: "store_steps lib root w w"
| more: "store_steps lib root w w' \<Longrightarrow> store_step lib root w' w'' \<Longrightarrow> store_steps lib root w w''"

lemma store_step_writes:
  assumes "store_step lib root w w'"
  shows "sw_files w' = sw_files w \<or> (\<exists>path content. store_entry lib root path content (sw_files w path) \<and>
    sw_files w' = (sw_files w)(path := Some content))"
  using assms
proof cases
  case puts_object
  then show ?thesis using writesD [OF writes_put_object] by blast
next
  case puts_object_immutable
  then show ?thesis using writesD [OF writes_put_object_immutable] by blast
next
  case puts_transaction
  then show ?thesis using writesD [OF writes_put_transaction] by blast
next
  case puts_pointer
  then show ?thesis using writesD [OF writes_put_pointer] by blast
qed (auto dest: readsD [OF reads_open] readsD [OF reads_object] readsD [OF reads_has_object] readsD [OF reads_transaction]
    readsD [OF reads_pointer] readsD [OF reads_publication] readsD [OF reads_serve])

text \<open>The content of a store is addressed by what it holds.\<close>

definition content_addressed :: "'info store_lib \<Rightarrow> store_path \<Rightarrow> 's store_world \<Rightarrow> bool" where
  "content_addressed lib root w \<longleftrightarrow>
     (\<forall>key content. sw_files w (root @ [ascii ''objects'', key]) = Some content \<longrightarrow> digest_text lib content = key) \<and>
     (\<forall>name content. sw_files w (root @ [ascii ''tx'', name]) = Some content \<longrightarrow>
        (\<exists>tx. name = id_text lib tx @ ascii ''.bin'' \<and> content = sl_serialize lib tx))"

lemma areas_distinct:
  "ascii ''objects'' \<noteq> ascii ''tx''" "ascii ''tx'' \<noteq> ascii ''objects''"
  by (simp_all add: ascii_def)

lemma store_step_addressed:
  assumes "store_step lib root w w'" "content_addressed lib root w"
  shows "content_addressed lib root w'"
  using store_step_writes [OF assms(1)] assms(2)
  by (auto simp: content_addressed_def store_entry_def areas_distinct split: if_splits)

lemma store_step_keeps:
  assumes "store_step lib root w w'"
  shows "sw_files w (root @ [ascii ''tx'', name]) = Some content \<Longrightarrow> sw_files w' (root @ [ascii ''tx'', name]) = Some content"
    and "sw_files w (root @ [ascii ''objects'', key]) \<noteq> None \<Longrightarrow> sw_files w' (root @ [ascii ''objects'', key]) \<noteq> None"
  using store_step_writes [OF assms] by (auto simp: store_entry_def areas_distinct)

lemma store_steps_addressed: "store_steps lib root w w' \<Longrightarrow> content_addressed lib root w \<Longrightarrow> content_addressed lib root w'"
  by (induction rule: store_steps.induct) (simp_all add: store_step_addressed)

lemma store_steps_keep_transaction:
  "store_steps lib root w w' \<Longrightarrow> sw_files w (root @ [ascii ''tx'', name]) = Some content \<Longrightarrow>
     sw_files w' (root @ [ascii ''tx'', name]) = Some content"
  by (induction rule: store_steps.induct) (simp_all add: store_step_keeps(1))

lemma store_steps_keep_object:
  "store_steps lib root w w' \<Longrightarrow> sw_files w (root @ [ascii ''objects'', key]) \<noteq> None \<Longrightarrow>
     sw_files w' (root @ [ascii ''objects'', key]) \<noteq> None"
proof (induction rule: store_steps.induct)
  case (more w w' w'')
  from store_step_keeps(2) [OF more.hyps(2) more.IH [OF more.prems]] show ?case .
qed

text \<open>
  C18: the store is addressed by content and forgets nothing. Whatever sequence of operations runs on it,
  with an operating system that may fail at any moment, in a store that started empty or well addressed
  every object has the SHA-256 of its name and every transaction file holds a transaction of that id;
  a transaction once stored never changes, and an object once stored stays there.
\<close>
theorem store_content_addressed:
  assumes "store_steps lib root w w'" "content_addressed lib root w"
  shows "content_addressed lib root w' \<and>
    (\<forall>name content. sw_files w (root @ [ascii ''tx'', name]) = Some content \<longrightarrow> sw_files w' (root @ [ascii ''tx'', name]) = Some content) \<and>
    (\<forall>key. sw_files w (root @ [ascii ''objects'', key]) \<noteq> None \<longrightarrow> sw_files w' (root @ [ascii ''objects'', key]) \<noteq> None)"
  using store_steps_addressed [OF assms] store_steps_keep_transaction [OF assms(1)] store_steps_keep_object [OF assms(1)] by simp

subsection \<open>An object that was stored\<close>

lemma object_put:
  assumes "put_object os lib root bs w = (Inr key, w')"
  shows "key = digest_text lib bs \<and> store_key_ok key \<and> sw_files w' (root @ [ascii ''objects'', key]) = Some bs"
proof -
  let ?path = "root @ [ascii ''objects'', digest_text lib bs]"
  from assms obtain same w1 w2 where key: "store_key_ok (digest_text lib bs)" "key = digest_text lib bs"
    and read: "same \<Longrightarrow> store_read os ?path (length bs) w1 = (Inr bs, w2)" and ended: "same \<Longrightarrow> w' = w2"
    and wrote: "\<not> same \<Longrightarrow> \<exists>w3. store_write os ?path bs True w3 = (Inr (), w')"
    by (auto simp: put_object_def Let_def ibind_eq_Inr ilift_app iret_app object_path_Inr split: if_splits)
  show ?thesis
  proof (cases same)
    case True
    then show ?thesis using key ended store_read_content [OF read] readsD [OF reads_read read] by simp
  next
    case False
    then show ?thesis using key wrote store_write_files(2) by metis
  qed
qed

lemma store_step_object:
  assumes "store_step lib root w w'" "sw_files w (root @ [ascii ''objects'', key]) = Some c" "digest_text lib c = key"
  shows "\<exists>c'. sw_files w' (root @ [ascii ''objects'', key]) = Some c' \<and> digest_text lib c' = key"
  using store_step_writes [OF assms(1)] assms(2,3) by (auto simp: store_entry_def areas_distinct)

lemma store_steps_object:
  "store_steps lib root w w' \<Longrightarrow> sw_files w (root @ [ascii ''objects'', key]) = Some c \<Longrightarrow> digest_text lib c = key \<Longrightarrow>
     \<exists>c'. sw_files w' (root @ [ascii ''objects'', key]) = Some c' \<and> digest_text lib c' = key"
  by (induction rule: store_steps.induct) (use store_step_object in \<open>blast+\<close>)

text \<open>The operating system reads a file without a failure; hexadecimal text is lowercase and without loss.\<close>

definition readable :: "'s store_os \<Rightarrow> store_path \<Rightarrow> bool" where
  "readable os path \<longleftrightarrow> (\<forall>s. fst (fs_open (so_fs os path) s) \<and> fst (fs_read (so_fs os path) s))"

definition hex_laws :: "'info store_lib \<Rightarrow> bool" where
  "hex_laws lib \<longleftrightarrow> (\<forall>a b. sl_hex lib a = sl_hex lib b \<longrightarrow> a = b) \<and> (\<forall>b. to_ascii_lowercase (sl_hex lib b) = sl_hex lib b)"

lemma read_into_whole:
  assumes "length content \<le> limit" "limit < 2 ^ 64 - 1"
  shows "read_into True limit content = Inr content"
proof -
  have "try_from limit = Inr (word_of_nat limit :: u64)" using assms(2) by (simp add: try_from_eq_Inr unat_of_nat_small)
  moreover have "checked_add (word_of_nat limit :: u64) 1 = Some (word_of_nat limit + 1)"
    using assms(2) by (simp add: checked_add_Some unat_of_nat_small unat_word_ariths)
  moreover have "unat (word_of_nat limit + 1 :: u64) = Suc limit"
    using assms(2) by (simp add: unat_word_ariths unat_of_nat_small)
  ultimately show ?thesis using assms(1) by (simp add: read_into_def Let_def)
qed

lemma store_read_whole:
  fixes w :: "'s store_world"
  assumes "readable os path" "sw_files w path = Some content" "length content \<le> limit" "limit < 2 ^ 64 - 1"
  shows "\<exists>w'. store_read os path limit w = (Inr content, w')"
proof -
  obtain s1 where s1: "fs_open (so_fs os path) (sw_state w) = (True, s1)"
    using assms(1) unfolding readable_def by (metis (full_types) prod.collapse)
  obtain s2 where s2: "fs_read (so_fs os path) s1 = (True, s2)"
    using assms(1) unfolding readable_def by (metis (full_types) prod.collapse)
  show ?thesis using assms(2) read_into_whole [OF assms(3,4)]
    by (simp add: store_read_def on_file_def read_bounded_def s1 s2 map_err_def)
qed

text \<open>
  C24: what was put into the store is given back. After \<open>put_object\<close> has succeeded, whatever operations
  run on the store and whatever fails in them, reading the object under the returned key with a limit that admits
  it gives exactly the bytes that were put, if the operating system can then read the file and no other
  bytes have their SHA-256.
\<close>
theorem stored_object_given_back:
  assumes "put_object os lib root bs w = (Inr key, w1)" "store_steps lib root w1 w2"
    "readable os' (root @ [ascii ''objects'', key])" "length bs \<le> limit" "limit < 2 ^ 64 - 1" "hex_laws lib"
    "\<And>other. wl_sha256 (sl_web lib) other = wl_sha256 (sl_web lib) bs \<Longrightarrow> other = bs"
  shows "\<exists>w3. store_object os' lib root key limit w2 = (Inr bs, w3)"
proof -
  have key: "key = digest_text lib bs" "store_key_ok key" "sw_files w1 (root @ [ascii ''objects'', key]) = Some bs"
    using object_put [OF assms(1)] by auto
  obtain c where c: "sw_files w2 (root @ [ascii ''objects'', key]) = Some c" "digest_text lib c = key"
    using store_steps_object [OF assms(2) key(3)] key(1) by auto
  then have "c = bs" using assms(6,7) key(1) by (auto simp: digest_text_def hex_laws_def)
  then obtain w3 where "store_read os' (root @ [ascii ''objects'', key]) limit w2 = (Inr bs, w3)"
    using store_read_whole [OF assms(3) c(1)] assms(4,5) by blast
  moreover have "to_ascii_lowercase key = key" using key(1) assms(6) by (simp add: digest_text_def hex_laws_def)
  ultimately show ?thesis using key(1,2) by (simp add: store_object_def ibind_app object_path_def act_apps)
qed

subsection \<open>What is served\<close>

lemma store_object_Inr:
  assumes "store_object os lib root sha256 limit w = (Inr bs, w')"
  shows "digest_text lib bs = to_ascii_lowercase sha256"
  using assms by (auto simp: store_object_def ibind_eq_Inr icheck_def ithrow_def iret_def split: if_splits)

lemma store_transaction_Inr:
  assumes "store_transaction os lib root txid w = (Inr tx, w')"
  shows "id_text lib tx = txid"
  using assms by (auto simp: store_transaction_def ibind_eq_Inr icheck_def ithrow_def iret_def split: if_splits)

text \<open>The publication under a root: its author, its manifest and its package, as the records prove them.\<close>

definition published_package :: "'info store_lib \<Rightarrow> bytes \<Rightarrow> bytes \<Rightarrow> package \<Rightarrow> bool" where
  "published_package lib txid author package \<longleftrightarrow> (\<exists>expected reveal commit verified manifest payload.
     sl_txid_parse lib txid = Some expected \<and> id_text lib reveal = txid \<and>
     VerifiedRecord_verify (sl_envelope lib) expected reveal commit = Inr verified \<and>
     author = sl_author_text lib (vr_author verified) \<and> VerifiedRecord_decode verified = Inr (Root manifest) \<and>
     rm_profile manifest = WEB_PROFILE \<and> rm_payload_hash manifest = wl_sha256 (sl_web lib) payload \<and>
     unat (rm_length manifest) = length payload \<and> Package_encode (sl_web lib) package = Inr payload)"

lemma store_publication_Inr:
  assumes "store_publication os lib root network txid limit w = (Inr v, w')"
  obtains expected reveal commit verified manifest payload where
    "id_text lib reveal = txid" "sl_txid_parse lib txid = Some expected"
    "VerifiedRecord_verify (sl_envelope lib) expected reveal commit = Inr verified"
    "VerifiedRecord_decode verified = Inr (Root manifest)" "rm_profile manifest = WEB_PROFILE"
    "digest_text lib payload = to_ascii_lowercase (sl_hex lib (rm_payload_hash manifest))"
    "web_try_from (length payload) = Inr (rm_length manifest)"
    "Package_decode (sl_web lib) payload = Inr (wv_package v)" "wv_author v = sl_author_text lib (vr_author verified)"
  using assms unfolding store_publication_def Let_def ibind_eq_Inr
  apply (elim exE conjE)
  subgoal for p w1 reveal w2 u3 w3 u4 w4 commit w5 expected w6 verified w7 decoded w8
    by (cases decoded)
      (auto simp: ibind_eq_Inr act_apps ok_or_def map_err_def dest!: store_object_Inr store_transaction_Inr
        split: if_splits option.splits sum.splits)
  done

lemma publication_published:
  assumes "store_publication os lib root network txid limit w = (Inr v, w')" "hex_laws lib"
  shows "published_package lib txid (wv_author v) (wv_package v)"
  using assms(1)
proof (rule store_publication_Inr)
  fix expected reveal commit verified manifest payload
  assume *: "id_text lib reveal = txid" "sl_txid_parse lib txid = Some expected"
    "VerifiedRecord_verify (sl_envelope lib) expected reveal commit = Inr verified"
    "VerifiedRecord_decode verified = Inr (Root manifest)" "rm_profile manifest = WEB_PROFILE"
    "digest_text lib payload = to_ascii_lowercase (sl_hex lib (rm_payload_hash manifest))"
    "web_try_from (length payload) = Inr (rm_length manifest)"
    "Package_decode (sl_web lib) payload = Inr (wv_package v)" "wv_author v = sl_author_text lib (vr_author verified)"
  have "rm_payload_hash manifest = wl_sha256 (sl_web lib) payload"
    using *(6) assms(2) unfolding digest_text_def hex_laws_def by metis
  moreover have "unat (rm_length manifest) = length payload" using *(7) by (auto simp: web_try_from_eq unat_of_nat_small)
  moreover have "Package_encode (sl_web lib) (wv_package v) = Inr payload" using *(8) by (simp add: decode_iff_encode)
  ultimately show ?thesis using * unfolding published_package_def by blast
qed

text \<open>Bytes with their type and the text of their hash, as a package declares them.\<close>

definition declared_content :: "'info store_lib \<Rightarrow> package \<Rightarrow> bytes \<Rightarrow> bytes \<Rightarrow> bytes \<Rightarrow> bool" where
  "declared_content lib p mime sha256 content \<longleftrightarrow>
     (\<exists>f \<in> set (pk_files p). mime = fe_mime f \<and> content = fe_bytes f \<and> wl_sha256 (sl_web lib) content = fe_sha256 f \<and>
        sha256 = sl_hex lib (fe_sha256 f)) \<or>
     (\<exists>i \<in> set (pk_pinned p). mime = pi_mime i \<and> wl_sha256 (sl_web lib) content = pi_payload_sha256 i \<and>
        sha256 = sl_hex lib (pi_payload_sha256 i))"

text \<open>
  C11: what is served was published by the author. When a publication has been loaded from the store
  under a root and a resource of it is served later, with the files in whatever state, then the root is the id of
  a reveal whose verified record by that author is the manifest of the package, by hash and
  length; and the bytes served are a file of that package, or have the hash the package pins, with
  the type it states.
\<close>
theorem served_bytes_declared:
  assumes "store_publication os lib root network txid limit w = (Inr v, w')"
    "store_serve os' lib root v url w2 = (Inr (ServedResource mime sha256 content), w3)" "hex_laws lib"
  shows "published_package lib txid (wv_author v) (wv_package v) \<and> declared_content lib (wv_package v) mime sha256 content"
proof
  show p: "published_package lib txid (wv_author v) (wv_package v)" by (rule publication_published [OF assms(1,3)])
  then have valid: "Package_validate (sl_web lib) (wv_package v) = Inr ()"
    by (auto simp: published_package_def Package_encode_eq_Inr)
  show "declared_content lib (wv_package v) mime sha256 content"
  proof (cases "Package_resolve (wv_package v) url")
    case (FileResource f)
    then have "f \<in> set (pk_files (wv_package v))" using Package_resolve_sound [of "wv_package v" url] by (simp add: declared_in_def)
    then show ?thesis using valid assms(2) FileResource
      by (auto simp: store_serve_def declared_content_def Package_validate_eq iret_app)
  next
    case (PinnedResource i)
    then have "i \<in> set (pk_pinned (wv_package v))" using Package_resolve_sound [of "wv_package v" url] by (simp add: declared_in_def)
    moreover have "digest_text lib content = to_ascii_lowercase (sl_hex lib (pi_payload_sha256 i))"
      "mime = pi_mime i" "sha256 = sl_hex lib (pi_payload_sha256 i)"
      using assms(2) PinnedResource by (auto simp: store_serve_def Let_def ibind_eq_Inr iret_app dest: store_object_Inr)
    ultimately show ?thesis using assms(3) unfolding declared_content_def digest_text_def hex_laws_def by metis
  qed (use assms(2) in \<open>simp add: store_serve_def iret_app\<close>)
qed

subsection \<open>A small store\<close>

definition demo_nibble :: "u8 \<Rightarrow> u8" where
  "demo_nibble x = (if x < 10 then 48 + x else 87 + x)"

definition demo_hex :: "bytes \<Rightarrow> bytes" where
  "demo_hex bs = concat (map (\<lambda>b. [demo_nibble (b div 16), demo_nibble (b mod 16)]) bs)"

definition demo_web :: web_lib where
  "demo_web = \<lparr>wl_sha256 = (\<lambda>b. if b = [1, 2, 3] then replicate 32 1 else replicate 32 7), wl_debug = (\<lambda>_. [])\<rparr>"

definition site_file :: file_entry where
  "site_file = \<lparr>fe_path = ascii ''index.html'', fe_mime = ascii ''text/html'', fe_sha256 = replicate 32 1, fe_bytes = [1, 2, 3]\<rparr>"

definition demo_site :: package where
  "demo_site = \<lparr>pk_label = [], pk_entry = 0, pk_files = [site_file], pk_pinned = []\<rparr>"

definition site_manifest :: root_manifest where
  "site_manifest = \<lparr>rm_length = 74, rm_payload_hash = replicate 32 7, rm_profile = WEB_PROFILE,
     rm_entries = [\<lparr>cr_txid = replicate 32 3, cr_record_hash = replicate 32 4\<rparr>]\<rparr>"

definition site_record :: bytes where
  "site_record = RecordKind_prefix RootManifest @ to_le_bytes (74 :: u64) @ replicate 32 7 @ to_le_bytes (1 :: u32) @ to_le_bytes (1 :: u16) @ [0, 0] @ WEB_PROFILE @
     replicate 32 3 @ replicate 32 4"

lemma site_record_encoded: "MultipartRecord_encode (Root site_manifest) = Inr site_record"
proof -
  have "Geometry_new 74 = Inr \<lparr>g_length = 74, g_parts = 1, g_leaves = 1\<rparr>"
    by (simp add: Geometry_new_eq_Inr MAX_OBJECT_BYTES_def div_ceil_def)
  then show ?thesis
    by (simp add: site_manifest_def site_record_def RootManifest_geometry_def encode_references_def reference_bytes_def)
qed

lemma site_record_decoded: "MultipartRecord_decode site_record = Inr (Root site_manifest)"
  using site_record_encoded by (simp add: multipart_codec.decode_iff) (simp add: site_manifest_def wf_reference_def WEB_PROFILE_def ascii_def)

lemma site_encoded: "Package_encode demo_web demo_site = Inr (package_bytes demo_site)"
  by (simp add: Package_encode_eq_Inr Package_validate_eq fits_def demo_site_def site_file_def demo_web_def web_validate_label_def WEB_LABEL_BYTES_def
      is_entry_mime_def ENTRY_MIME_def validate_path_def MAX_PATH_BYTES_def SLASH_def ascii_def check_segment_def
      is_ascii_alphanumeric_def is_ascii_lowercase_def validate_mime_def MAX_MIME_BYTES_def SEMICOLON_def check_token_def)

lemma site_length: "length (package_bytes demo_site) = 74"
  by (simp add: package_bytes_def demo_site_def site_file_def row_bytes_def row_of_def ascii_def)

lemma demo_nibble_inj:
  "x < 16 \<Longrightarrow> y < 16 \<Longrightarrow> demo_nibble x = demo_nibble y \<longleftrightarrow> x = y"
  by (auto simp: demo_nibble_def word_less_nat_alt word_unat_eq_iff unat_word_ariths split: if_splits)

lemma demo_halves: "(x :: u8) div 16 < 16" "x mod 16 < 16"
  using unsigned_less [of x, where ?'a = nat] by (simp_all add: word_less_nat_alt unat_div unat_mod less_mult_imp_div_less)

lemma demo_byte: "demo_nibble (a div 16) = demo_nibble (b div 16) \<and> demo_nibble (a mod 16) = demo_nibble (b mod 16) \<longleftrightarrow> a = b"
proof -
  have "a div 16 = b div 16 \<and> a mod 16 = b mod 16 \<longleftrightarrow> a = b" by (metis div_mult_mod_eq)
  then show ?thesis by (simp add: demo_nibble_inj demo_halves)
qed

lemma demo_hex_inj: "demo_hex a = demo_hex b \<Longrightarrow> a = b"
proof (induction a arbitrary: b)
  case (Cons x xs)
  then obtain y ys where "b = y # ys" by (cases b) (auto simp: demo_hex_def)
  with Cons show ?case using demo_byte [of x y] by (auto simp: demo_hex_def)
qed (auto simp: demo_hex_def)

lemma demo_key: "length b = 32 \<Longrightarrow> store_key_ok (demo_hex b)"
proof -
  have digit: "x < 16 \<Longrightarrow> is_hex_digit (demo_nibble x)" for x
    by (auto simp: is_hex_digit_def is_ascii_digit_def demo_nibble_def word_less_nat_alt word_le_nat_alt unat_word_ariths)
  have "length (demo_hex b) = 2 * length b" by (induction b) (simp_all add: demo_hex_def)
  moreover have "\<forall>x \<in> set (demo_hex b). is_hex_digit x" by (auto simp: demo_hex_def digit demo_halves)
  ultimately show "length b = 32 \<Longrightarrow> ?thesis" by (simp add: store_key_ok_def)
qed

lemma demo_hex_lower: "to_ascii_lowercase (demo_hex b) = demo_hex b"
proof -
  have "\<not> (65 \<le> demo_nibble x \<and> demo_nibble x \<le> 90)" if "x < 16" for x
    using that by (auto simp: demo_nibble_def word_less_nat_alt word_le_nat_alt unat_word_ariths split: if_splits)
  then show ?thesis using demo_halves by (induction b) (auto simp: demo_hex_def to_ascii_lowercase_def)
qed

text \<open>The commit and the reveal that carry the root record.\<close>

definition site_envelope :: parsed_envelope where
  "site_envelope = \<lparr>pe_author = ex_author, pe_record = site_record,
     pe_script = concat (map (op_bytes ex_envelope_lib) (record_ops site_record ex_author)),
     pe_control = \<lparr>cb_leaf_version = TAPSCRIPT, cb_internal_key = ex_author, cb_merkle_branch = []\<rparr>\<rparr>"

definition site_witness :: "bytes list" where
  "site_witness = [replicate 64 0, pe_script site_envelope, TAPSCRIPT # ex_author]"

definition site_commit :: transaction where
  "site_commit = \<lparr>tx_version = 2, tx_input = [], tx_output = [\<lparr>to_value = 5000, to_script = [0x51, 0x20] @ ex_author\<rparr>]\<rparr>"

definition site_reveal :: transaction where
  "site_reveal = \<lparr>tx_version = 2,
     tx_input = [\<lparr>ti_txid = replicate 32 0, ti_vout = 0, ti_script_sig = [], ti_witness = site_witness\<rparr>],
     tx_output = [\<lparr>to_value = 1500, to_script = replicate 22 0\<rparr>]\<rparr>"

lemma site_record_length: "length site_record = 128"
  by (simp add: site_record_def WEB_PROFILE_def ascii_def RecordKind_prefix_def)

lemma site_envelope_of: "envelope_of ex_envelope_lib site_witness site_envelope"
  by (simp add: envelope_of_def site_envelope_def site_witness_def record_script_ops ex_author_def ex_envelope_lib_def
      site_record_length RECORD_BYTES_def)

lemma site_verified:
  "VerifiedRecord_verify ex_envelope_lib (replicate 32 1) site_reveal site_commit =
     Inr \<lparr>vr_txid = replicate 32 1, vr_author = ex_author, vr_record_hash = take 32 site_record, vr_record = site_record\<rparr>"
proof -
  have "extract_envelope ex_envelope_lib site_witness = Inr site_envelope"
    using extract_envelope_complete [OF ex_script_laws site_envelope_of]
    by (simp add: site_envelope_def site_record_def RecordKind_prefix_def)
  then have "extract_reveal_envelope ex_envelope_lib site_reveal = Inr site_envelope"
    by (simp add: extract_reveal_envelope_def validate_reveal_shape_def validate_reveal_scripts_def site_reveal_def
        ex_envelope_lib_def)
  then have "verify_record_proof ex_envelope_lib site_reveal site_commit = Inr site_envelope"
    by (simp add: verify_record_proof_def verify_prevout_proof_def site_reveal_def site_commit_def ex_envelope_lib_def
        Let_def site_witness_def site_envelope_def ex_author_def slice_def context_res_def)
  then show ?thesis
    by (simp add: VerifiedRecord_verify_def site_reveal_def ex_envelope_lib_def site_envelope_def site_record_length)
qed

text \<open>A file system without failures, and the store as the publication left it.\<close>

definition demo_os :: "unit store_os" where
  "demo_os = \<lparr>so_fs = (\<lambda>_. \<lparr>fs_open = (\<lambda>s. (True, s)), fs_read = (\<lambda>s. (True, s)), fs_write = (\<lambda>s b. (None, s))\<rparr>),
     so_exists = (\<lambda>_ s. (Some False, s)), so_length = (\<lambda>_ s. (None, s)), so_lstat = (\<lambda>_ s. (NotFound, s)),
     so_regular = (\<lambda>_ s. (Some True, s)), so_mkdir = (\<lambda>_ s. (Some (), s))\<rparr>"

definition site_pointer :: pointer where
  "site_pointer = \<lparr>pt_format = STORE_FORMAT, pt_network = ascii ''regtest'', pt_root = demo_hex (replicate 32 1),
     pt_commit = demo_hex (replicate 32 0), pt_tip_height = Some 0, pt_tip_hash = Some [], pt_source = None\<rparr>"

definition demo_store :: "unit store_lib" where
  "demo_store = \<lparr>sl_web = demo_web, sl_envelope = ex_envelope_lib, sl_hex = demo_hex, sl_txid_text = demo_hex,
     sl_txid_parse = (\<lambda>_. Some (replicate 32 1)), sl_author_text = demo_hex, sl_serialize = (\<lambda>tx. [word_of_nat (length (tx_input tx))]),
     sl_deserialize = (\<lambda>b. Some (if b = [1] then site_reveal else site_commit)), sl_pointer_json = (\<lambda>_. Some []),
     sl_pointer_parse = (\<lambda>_. Some site_pointer), sl_show = (\<lambda>_. [])\<rparr>"

definition empty_store :: "unit store_world" where
  "empty_store = \<lparr>sw_state = (), sw_files = (\<lambda>_. None)\<rparr>"

definition site_store :: "unit store_world" where
  "site_store = \<lparr>sw_state = (), sw_files = [
     [ascii ''publications'', ascii ''regtest'', demo_hex (replicate 32 1) @ ascii ''.json''] \<mapsto> [],
     [ascii ''tx'', demo_hex (replicate 32 1) @ ascii ''.bin''] \<mapsto> [1],
     [ascii ''tx'', demo_hex (replicate 32 0) @ ascii ''.bin''] \<mapsto> [0],
     [ascii ''objects'', demo_hex (replicate 32 7)] \<mapsto> package_bytes demo_site]\<rparr>"

lemma demo_laws: "hex_laws demo_store"
  using demo_hex_inj by (auto simp: hex_laws_def demo_store_def demo_hex_lower)

lemma demo_read:
  assumes "sw_files w path = Some content" "length content \<le> limit" "limit < 2 ^ 64 - 1"
  shows "store_read demo_os path limit w = (Inr content, w)"
  using assms(1) read_into_whole [OF assms(2,3)]
  by (simp add: store_read_def on_file_def read_bounded_def demo_os_def map_err_def fun_upd_idem)

lemma demo_put: "put_object demo_os demo_store [] [1, 2, 3] empty_store =
    (Inr (demo_hex (replicate 32 1)), \<lparr>sw_state = (), sw_files = [[ascii ''objects'', demo_hex (replicate 32 1)] \<mapsto> [1, 2, 3]]\<rparr>)"
  by (simp add: put_object_def Let_def digest_text_def demo_store_def demo_web_def object_path_def demo_key ibind_app act_apps os_call_def
      demo_os_def store_write_def on_file_def write_replace_def write_atomic_def empty_store_def map_err_def)

theorem store_content_addressed_witness:
  "\<exists>w. store_steps demo_store [] empty_store w \<and> sw_files w \<noteq> sw_files empty_store \<and> content_addressed demo_store [] w"
proof -
  obtain w where w: "put_object demo_os demo_store [] [1, 2, 3] empty_store = (Inr (demo_hex (replicate 32 1)), w)"
      "sw_files w \<noteq> sw_files empty_store"
    unfolding demo_put by (auto simp: empty_store_def fun_eq_iff)
  have steps: "store_steps demo_store [] empty_store w"
    by (rule store_steps.more [OF store_steps.none puts_object [OF w(1)]])
  have "content_addressed demo_store [] empty_store" by (simp add: content_addressed_def empty_store_def)
  from store_content_addressed [OF steps this] steps w(2) show ?thesis by blast
qed

theorem stored_object_given_back_witness:
  "\<exists>key w1 w3. put_object demo_os demo_store [] [1, 2, 3] empty_store = (Inr key, w1) \<and>
     store_object demo_os demo_store [] key 3 w1 = (Inr [1, 2, 3], w3)"
proof -
  have "readable demo_os path" for path by (simp add: readable_def demo_os_def)
  moreover have "wl_sha256 (sl_web demo_store) other = wl_sha256 (sl_web demo_store) [1, 2, 3] \<Longrightarrow> other = [1, 2, 3]" for other
    by (simp add: demo_store_def demo_web_def split: if_splits)
  ultimately show ?thesis
    using stored_object_given_back [OF demo_put store_steps.none _ _ _ demo_laws, where limit = 3 and os' = demo_os] demo_put by auto
qed

lemma site_reveal_input: "tx_input site_reveal = [\<lparr>ti_txid = replicate 32 0, ti_vout = 0, ti_script_sig = [], ti_witness = site_witness\<rparr>]"
  by (simp add: site_reveal_def)

lemma demo_lib:
  "sl_web demo_store = demo_web" "sl_envelope demo_store = ex_envelope_lib" "sl_hex demo_store = demo_hex"
  "sl_txid_text demo_store = demo_hex" "sl_txid_parse demo_store t = Some (replicate 32 1)" "sl_author_text demo_store = demo_hex"
  by (simp_all add: demo_store_def)

lemma site_loaded:
  "\<exists>v. store_publication demo_os demo_store [] (ascii ''regtest'') (demo_hex (replicate 32 1)) 1000 site_store = (Inr v, site_store) \<and>
     wv_package v = demo_site"
proof -
  have keys: "demo_hex (replicate 32 1) \<noteq> demo_hex (replicate 32 0)" "demo_hex (replicate 32 0) \<noteq> demo_hex (replicate 32 1)"
    by (auto dest!: demo_hex_inj simp: numeral_eq_Suc)
  have pointer: "store_pointer demo_os demo_store [] (ascii ''regtest'') (demo_hex (replicate 32 1)) site_store = (Inr site_pointer, site_store)"
    by (simp add: store_pointer_def pointer_path_def pointer_directory_def check_component_def ascii_def is_ascii_alphanumeric_def
        is_ascii_lowercase_def demo_key ibind_app act_apps demo_read MAX_POINTER_BYTES_def site_store_def demo_store_def ok_or_def
        site_pointer_def check_acquisition_def STORE_FORMAT_def)
  have txs: "store_transaction demo_os demo_store [] (demo_hex (replicate 32 1)) site_store = (Inr site_reveal, site_store)"
    "store_transaction demo_os demo_store [] (demo_hex (replicate 32 0)) site_store = (Inr site_commit, site_store)"
    by (simp_all add: store_transaction_def transaction_path_def demo_key ibind_app act_apps demo_read MAX_TRANSACTION_BYTES_def
        site_store_def demo_store_def ok_or_def id_text_def keys site_reveal_def site_commit_def ex_envelope_lib_def areas_distinct)
  have object: "store_object demo_os demo_store [] (demo_hex (replicate 32 7)) 1000 site_store = (Inr (package_bytes demo_site), site_store)"
    using site_length
    by (auto simp: store_object_def object_path_def demo_key ibind_app act_apps demo_read site_store_def demo_store_def digest_text_def
        demo_web_def demo_hex_lower)
  have "Package_decode demo_web (package_bytes demo_site) = Inr demo_site"
    using site_encoded site_length
    by (simp add: decode_iff_encode wf_package_memory_def wf_package_def) (simp add: demo_site_def site_file_def ascii_def)
  moreover have "web_try_from (length (package_bytes demo_site)) = Inr (74 :: u64)" by (simp add: web_try_from_eq site_length)
  moreover have "verify_pins demo_os demo_store [] (pk_pinned demo_site) = iret []" by (simp add: demo_site_def)
  ultimately show ?thesis
    by (simp add: store_publication_def Let_def ibind_app pointer txs object act_apps site_pointer_def ok_or_def map_err_def
        site_reveal_input demo_lib site_verified VerifiedRecord_decode_def site_record_decoded site_manifest_def)
qed

theorem served_bytes_declared_witness:
  "\<exists>v. store_publication demo_os demo_store [] (ascii ''regtest'') (demo_hex (replicate 32 1)) 1000 site_store = (Inr v, site_store) \<and>
     store_serve demo_os demo_store [] v [SLASH] empty_store =
       (Inr (ServedResource (ascii ''text/html'') (demo_hex (replicate 32 1)) [1, 2, 3]), empty_store) \<and>
     declared_content demo_store (wv_package v) (ascii ''text/html'') (demo_hex (replicate 32 1)) [1, 2, 3]"
proof -
  obtain v where v: "store_publication demo_os demo_store [] (ascii ''regtest'') (demo_hex (replicate 32 1)) 1000 site_store = (Inr v, site_store)"
    "wv_package v = demo_site" using site_loaded by blast
  have serve: "store_serve demo_os demo_store [] v [SLASH] empty_store =
      (Inr (ServedResource (ascii ''text/html'') (demo_hex (replicate 32 1)) [1, 2, 3]), empty_store)"
    by (simp add: store_serve_def v(2) Package_resolve_def wanted_of_def demo_site_def site_file_def iret_app demo_store_def)
  from served_bytes_declared [OF v(1) serve demo_laws] v(1) serve show ?thesis by blast
qed

end
