(* ===== verification/Spec2Isabelle.thy ===== *)
theory Spec2Isabelle
  imports Avatar Container_Objects Consistency Inventory Names_Scan_Properties Pow Inclusion Wire_View Header_Theorems
    Recovery_Properties Disk_Publish_Properties Gateway_Links_Properties Gateway_Route
    Web_Store_Properties
begin

text \<open>
  Verification library of urma. The program publishes records in the Taproot scripts of Bitcoin and
  Litecoin transactions, finds and verifies them again, reassembles large and private objects from
  them, and computes a registry of names from the records of a chain.

  \<^bold>\<open>How the parts interact.\<close> \<^verbatim>\<open>urma-core\<close> defines the records. A publisher encodes a record, places it in
  an envelope and signs a plan of commit and reveal transactions; \<^verbatim>\<open>urma-runtime\<close> validates the plan and
  sends it in passes through a node. A reader gets blocks and proofs from a node or from peers;
  \<^verbatim>\<open>urma-chain\<close> checks headers, blocks and inclusion, and the light client of \<^verbatim>\<open>urma-runtime\<close> keeps a chain
  of headers. A verified record feeds the registry engine of \<^verbatim>\<open>urma-names\<close> and the index of \<^verbatim>\<open>urma-wire\<close>
  during their scans, and the recovery of large objects. A site is an object whose payload is a package of
  files (\<^verbatim>\<open>urma-web\<close>); the gateway of \<^verbatim>\<open>urma-cli\<close> serves the sites that names of the registry point to.

  \<^bold>\<open>Conventions.\<close> Machine integers are words of their width (\<open>u8\<close> to \<open>u128\<close>), bytes are lists of \<open>u8\<close>,
  text is \<open>string\<close> or its UTF-8 bytes. A fallible function returns \<open>error + value\<close>; \<open>rbind\<close> is \<^verbatim>\<open>?\<close> and
  \<open>ensure\<close> the guard macro. A method that takes \<^verbatim>\<open>&mut self\<close> returns the new state. Code that calls a node,
  the file system or a clock is a function of the world (\<open>Effects\<close>, \<open>Index_File\<close>) of which nothing is
  assumed: it may answer differently each time and fail at each call. Code of other crates (hashes,
  curves, ciphers, script and consensus encoding, JSON, hexadecimal) is a parameter, a record of
  functions; what is relied on of it is a named hypothesis (\<open>script_laws\<close>, \<open>crypto_ok\<close> and the like).

  \<^bold>\<open>Theories by part.\<close>

  \<^item> Shared: \<open>Prelude\<close> (integers, errors, bytes, lists), \<open>Codec\<close> (the contract \<open>strict_codec\<close> of every record
    format), \<open>Ordered_Map\<close> (\<^verbatim>\<open>BTreeMap\<close>, the contract \<open>ordered_map\<close>), \<open>Effects\<close> (actions and their contract
    \<open>keeps\<close>), \<open>Index_File\<close> (\<^verbatim>\<open>urma-io/src/files.rs\<close>: bounded reads and atomic writes).

  \<^item> Records, \<^verbatim>\<open>urma-core\<close>: \<open>Topics\<close>, \<open>Format\<close>, \<open>Avatar\<close>, \<open>Multipart\<close>, \<open>Consistency\<close> and \<open>Inventory\<close>
    (\<^verbatim>\<open>topics.rs\<close>, \<^verbatim>\<open>format.rs\<close>, \<^verbatim>\<open>avatar.rs\<close>, \<^verbatim>\<open>multipart.rs\<close> and \<^verbatim>\<open>multipart/\<close>), \<open>Container\<close> with
    \<open>Container_Objects\<close> (\<^verbatim>\<open>container.rs\<close>), \<open>Envelope\<close> with \<open>Envelope_Codec\<close> (\<^verbatim>\<open>envelope.rs\<close>,
    \<^verbatim>\<open>multipart/proof.rs\<close>). Every format is shown to be a strict codec: what decodes is exactly what is
    encoded. Sealed private objects open to their plaintext and nothing else opens; an envelope is
    accepted exactly when publication assembles its script; a verified record was signed by its author.

  \<^item> Chains, \<^verbatim>\<open>urma-chain\<close>: \<open>Chain_Params\<close>, \<open>Pow\<close> (retargeting on four limbs against its specification on
    numbers), \<open>Chain_Decode\<close>, \<open>Inclusion\<close> (what a verified Merkle path binds, for whatever
    transaction count it claims, and that the builder's paths are accepted).

  \<^item> Names, \<^verbatim>\<open>urma-names\<close>: \<open>Names_Payload\<close>, \<open>Names_State\<close>, \<open>Registry\<close> (\<^verbatim>\<open>engine.rs\<close>), its abstract step
    relation and invariant (\<open>Registry_Steps\<close>, \<open>Registry_Inv\<close>), undo (\<open>Registry_Undo\<close>, \<open>Registry_Parts\<close>),
    consequences (\<open>Registry_Safety\<close>, \<open>Registry_Outcomes\<close>, \<open>Registry_Properties\<close>), and the scan
    (\<open>Names_Scan\<close>, \<open>Names_Scan_Inv\<close>, \<open>Names_Scan_Properties\<close>, with a worked example). Reorganisations are
    replays, live bindings are protected (every change of one is traced to a record of its owner or to the
    votes for a pending record), the earliest commitment wins, and the index in the file is consistent
    whatever fails.

  \<^item> Wire, \<^verbatim>\<open>urma-wire\<close>: \<open>Wire_Index\<close>, \<open>Wire_Batch\<close> (the pool of fetching threads as steps under a schedule,
    refined to one thread in \<open>Wire_Batch_Inv\<close>), \<open>Wire_Sync\<close>, \<open>Wire_Properties\<close>, \<open>Wire_View\<close>.

  \<^item> Light client, \<^verbatim>\<open>urma-runtime/src/p2p\<close>: \<open>Headers\<close>, \<open>Header_Cache\<close>, invariant and theorems in \<open>Header_Inv\<close>,
    \<open>Header_Properties\<close>, \<open>Header_Restore\<close>, \<open>Header_Context\<close>, \<open>Header_Theorems\<close>; errors in \<open>Runtime_Error\<close>.

  \<^item> Recovery, \<^verbatim>\<open>urma-runtime/src/multipart/recovery.rs\<close>: \<open>Recovery\<close>, the object under a root
    (\<open>Recovery_Object\<close>), sources that deliver (\<open>Recovery_Delivery\<close>), \<open>Recovery_Properties\<close>: what is
    recovered is the object, and a published object is recovered.

  \<^item> Publication, \<^verbatim>\<open>urma-runtime\<close>: \<open>Publication_Plan\<close> (\<^verbatim>\<open>validation.rs\<close>, \<^verbatim>\<open>plan.rs\<close>, funding and signatures of
    \<^verbatim>\<open>urma-wallet\<close>) with \<open>Publication_Safety\<close> (a validated plan spends
    the coins it declares and loses the fee), \<open>Node\<close> (\<^verbatim>\<open>node.rs\<close>),
    \<open>Publish\<close> (\<^verbatim>\<open>publish.rs\<close>), \<open>Disk_Plan\<close> (\<^verbatim>\<open>disk_plan.rs\<close>, \<^verbatim>\<open>disk_order.rs\<close>), \<open>Disk_Publish\<close>
    (\<^verbatim>\<open>disk_publish.rs\<close>, \<^verbatim>\<open>disk_journal.rs\<close>, \<^verbatim>\<open>publication_progress.rs\<close>). \<open>Disk_Publish_Safety\<close> and
    \<open>Disk_Publish_Log\<close> follow the sends and the log through a pass; \<open>Disk_Publish_Properties\<close> states the order of
    sends, the record of what was sent, and the log that a torn line blocks.

  \<^item> Sites, \<^verbatim>\<open>urma-web\<close> and the gateway of \<^verbatim>\<open>urma-cli\<close>: \<open>Web_Package\<close> (\<^verbatim>\<open>package.rs\<close>, \<^verbatim>\<open>grammar.rs\<close>) with its
    strict codec and resolution in \<open>Web_Package_Codec\<close>; \<open>Web_Store\<close> (\<^verbatim>\<open>store.rs\<close>) with
    \<open>Web_Store_Properties\<close> (content addressing, what is given back, what is served); \<open>Gateway_Host\<close> (\<^verbatim>\<open>gateway_host.rs\<close>), \<open>Gateway_Links\<close>
    (\<^verbatim>\<open>gateway_links.rs\<close>, every slice that could panic included), \<open>Gateway_Transform\<close> (its loop over a document:
    no panic, it ends, only addresses change), \<open>Gateway_Links_Properties\<close> (links lead to the portal's sites
    as far as a host may be long, and bring no markup), \<open>Gateway_Pages\<close> (\<^verbatim>\<open>gateway_pages.rs\<close>: text never becomes markup), \<open>Gateway_Http\<close>
    (\<^verbatim>\<open>gateway_http.rs\<close>: what is admitted, and the framing of replies), \<open>Gateway_Route\<close> (\<^verbatim>\<open>gateway_route.rs\<close>:
    redirects stay on the site and lead to a file).

  \<^bold>\<open>Bounds and loops.\<close> Loops over lists are structural; the others have a measure: the bytes left of a log
  or of a document, the bytes still accepted of a request,
  the checkpoints left to remove in a rollback, the attempts left of a fetch, the nonces left of a
  container. Nothing runs on fuel except the schedule of the Wire batch, and there every execution of the
  threads is the execution of some schedule, after which the remaining steps are made in a fixed order.
  Sizes that the code keeps as \<^verbatim>\<open>usize\<close> are natural numbers where a bound checked before (one record, one
  file, 32695 records of an object) keeps them far below \<open>2 ^ 64\<close>.

  \<^bold>\<open>Findings.\<close> \<open>every_observation_reported\<close> states the one case in which the registry engine drops outcomes
  (\<^verbatim>\<open>engine.rs\<close>, a lease end that overflows). \<open>torn_observation_blocks_plan\<close> shows that an append after a
  torn observation makes the log unreadable (\<^verbatim>\<open>disk_journal.rs\<close>). \<open>site_host_exact\<close> has the links that a portal
  with a long domain writes and then refuses (\<^verbatim>\<open>gateway_host.rs\<close>).

  \<^bold>\<open>Not modelled.\<close> The command line and the threads that keep the state of the gateway (\<^verbatim>\<open>urma-cli\<close>), the
  packing of directories and the client policy (\<^verbatim>\<open>urma-web\<close>), the file, git and profile applications
  (\<^verbatim>\<open>urma-files\<close>, \<^verbatim>\<open>urma-git\<close>, \<^verbatim>\<open>urma-profiles\<close>, \<^verbatim>\<open>urma-workflows\<close>), keys and
  signing (\<^verbatim>\<open>urma-identity\<close>, the accounts of \<^verbatim>\<open>urma-wallet\<close>), and of \<^verbatim>\<open>urma-runtime\<close> the RPC clients, peers,
  routing and transports, and the preparation of plans: these are input and output, calls of other crates,
  or orchestration of the parts above. \<^verbatim>\<open>Display\<close> texts are modelled only where a result depends on them;
  tracing, allocation failure and lock poisoning are not modelled, nor that \<^verbatim>\<open>Path::exists\<close> answers no when the
  operating system fails to look.
\<close>

end
